(* ===== verification/Asdf_Prelude.thy ===== *)
theory Asdf_Prelude
  imports Main "HOL-Library.Word" "HOL-Library.Monad_Syntax"
begin

text \<open>
  Shared vocabulary of the development: bytes and byte arrays, the two integer types
  that libasdf computes positions with (\<^verbatim>\<open>size_t\<close> as a natural number with its wrap-around
  written out, \<^verbatim>\<open>off_t\<close> as an integer), bounds-checked array access, the big-endian codec
  of the block header, and the allocator.

  Conventions used by every theory:
  \<^item> a C execution that reads or writes outside an array, fails an \<^verbatim>\<open>assert\<close> or never
    returns has no result: such a definition returns \<^term>\<open>None\<close>, and a theorem that an
    operation returns \<^term>\<open>Some r\<close> says that none of this happens;
  \<^item> every allocation asks the allocator, a list of outcomes: \<^term>\<open>[]\<close> means that every
    further allocation succeeds.
\<close>

unbundle bit_operations_syntax

named_theorems asdf_defs \<open>definitions unfolded to evaluate the model on concrete inputs\<close>
named_theorems size_simps \<open>size_t and off_t arithmetic inside its range\<close>

section \<open>Types\<close>

type_synonym byte = "8 word"
type_synonym bytes = "byte list"
type_synonym u16 = "16 word"
type_synonym u32 = "32 word"
type_synonym u64 = "64 word"

text \<open>The bytes of a C string literal.\<close>

definition bytes_of :: "string \<Rightarrow> bytes" where
  "bytes_of s = map of_char s"

section \<open>The integer types of positions and lengths\<close>

definition size_mod :: nat where
  "size_mod = 2 ^ 64"

definition SIZE_MAX :: nat where
  "SIZE_MAX = 2 ^ 64 - 1"

definition ASDF_OFF_MAX :: nat where
  "ASDF_OFF_MAX = 2 ^ 63 - 1"

definition size_add :: "nat \<Rightarrow> nat \<Rightarrow> nat" where
  "size_add a b = (a + b) mod size_mod"

definition size_sub :: "nat \<Rightarrow> nat \<Rightarrow> nat" where
  "size_sub a b = nat ((int a - int b) mod int size_mod)"

text \<open>The conversions \<^verbatim>\<open>(size_t)offset\<close> and \<^verbatim>\<open>(off_t)size\<close>.\<close>

definition size_of_off :: "int \<Rightarrow> nat" where
  "size_of_off i = nat (i mod int size_mod)"

definition off_of_size :: "nat \<Rightarrow> int" where
  "off_of_size n = (if n mod size_mod < 2 ^ 63 then int (n mod size_mod)
                    else int (n mod size_mod) - int size_mod)"

section \<open>Bounds-checked arrays\<close>

text \<open>
  \<^term>\<open>mem_read buf off n\<close> reads \<^term>\<open>n\<close> bytes at \<^term>\<open>off\<close>; \<^term>\<open>mem_write_at\<close> is
  \<^verbatim>\<open>memcpy\<close> or \<^verbatim>\<open>memmove\<close> into the array. Neither returns when the access leaves the array.
\<close>

definition mem_read :: "bytes \<Rightarrow> nat \<Rightarrow> nat \<Rightarrow> bytes option" where
  "mem_read buf off n = (if off + n \<le> length buf then Some (take n (drop off buf)) else None)"

definition mem_write_at :: "bytes \<Rightarrow> nat \<Rightarrow> bytes \<Rightarrow> bytes option" where
  "mem_write_at buf off src =
     (if off + length src \<le> length buf
      then Some (take off buf @ src @ drop (off + length src) buf) else None)"

definition at_byte :: "bytes \<Rightarrow> nat \<Rightarrow> byte option" where
  "at_byte buf i = (if i < length buf then Some (buf ! i) else None)"

section \<open>The allocator\<close>

type_synonym heap = "bool list"

fun alloc :: "heap \<Rightarrow> bool \<times> heap" where
  "alloc [] = (True, [])"
| "alloc (ok # oks) = (ok, oks)"

section \<open>Big-endian fields\<close>

text \<open>\<^verbatim>\<open>htobe64\<close> and its relatives followed by a write of the object representation, and
  the converse.\<close>

fun be_enc :: "nat \<Rightarrow> nat \<Rightarrow> bytes" where
  "be_enc 0 v = []"
| "be_enc (Suc n) v = be_enc n (v div 256) @ [of_nat v]"

definition be_val :: "bytes \<Rightarrow> nat" where
  "be_val bs = foldl (\<lambda>a b. a * 256 + unat b) 0 bs"

section \<open>Lemmas\<close>

lemma size_mod_pos [simp]: "0 < size_mod"
  by (simp add: size_mod_def)

lemma size_add_small [size_simps]: "a + b < size_mod \<Longrightarrow> size_add a b = a + b"
  by (simp add: size_add_def)

lemma size_sub_small [size_simps]: "b \<le> a \<Longrightarrow> a < size_mod \<Longrightarrow> size_sub a b = a - b"
  by (simp add: size_sub_def nat_mod_distrib flip: of_nat_diff)

lemma size_sub_wraps: "a < b \<Longrightarrow> b - a \<le> size_mod \<Longrightarrow> size_sub a b = size_mod - (b - a)"
proof -
  assume h: "a < b" "b - a \<le> size_mod"
  have "(int a - int b) mod int size_mod = int (size_mod - (b - a))"
  proof -
    have "(int a - int b) mod int size_mod = (int a - int b + int size_mod) mod int size_mod"
      by simp
    also have "\<dots> = int a - int b + int size_mod"
      by (rule mod_pos_pos_trivial) (use h in linarith)+
    finally show ?thesis using h by linarith
  qed
  then show ?thesis by (simp add: size_sub_def)
qed

lemma size_add_less [simp]: "size_add a b < size_mod"
  by (simp add: size_add_def)

lemma size_of_off_nonneg [size_simps]:
  "0 \<le> i \<Longrightarrow> i < int size_mod \<Longrightarrow> size_of_off i = nat i"
  by (simp add: size_of_off_def)

lemma off_of_size_small [size_simps]: "n < 2 ^ 63 \<Longrightarrow> off_of_size n = int n"
  by (simp add: off_of_size_def size_mod_def)

lemma off_of_size_roundtrip [size_simps]: "n < 2 ^ 63 \<Longrightarrow> size_of_off (off_of_size n) = n"
  by (simp add: off_of_size_def size_mod_def size_of_off_def)

lemma take_append_drop_length: "take n xs @ drop (length (take n xs)) xs = xs"
  by (cases "n \<le> length xs") simp_all

lemma take_drop_append_drop:
  "bs = take n (drop p xs) \<Longrightarrow> bs @ drop (p + length bs) xs = drop p xs"
  using take_append_drop_length [of n "drop p xs"] by (simp add: add.commute)

lemma take_prefix_eq: "w = take n xs \<Longrightarrow> w = take (length w) xs"
  by (cases "n \<le> length xs") simp_all

lemma mem_read_SomeI [intro]:
  "off + n \<le> length buf \<Longrightarrow> mem_read buf off n = Some (take n (drop off buf))"
  by (simp add: mem_read_def)

lemma mem_read_0 [simp]: "off \<le> length buf \<Longrightarrow> mem_read buf off 0 = Some []"
  by (simp add: mem_read_def)

lemma mem_read_length: "mem_read buf off n = Some bs \<Longrightarrow> length bs = n"
  by (auto simp: mem_read_def split: if_splits)

lemma mem_write_at_length: "mem_write_at buf off src = Some buf' \<Longrightarrow> length buf' = length buf"
  by (auto simp: mem_write_at_def split: if_splits)

lemma mem_read_write_same:
  "mem_write_at buf off src = Some buf' \<Longrightarrow> mem_read buf' off (length src) = Some src"
  by (auto simp: mem_write_at_def mem_read_def split: if_splits)

lemma unat_byte: "unat (b :: byte) < 256"
  by (rule order_less_le_trans [OF unsigned_less]) simp

lemma length_be_enc [simp]: "length (be_enc n v) = n"
  by (induction n arbitrary: v) auto

lemma be_val_Nil [simp]: "be_val [] = 0"
  by (simp add: be_val_def)

lemma be_val_snoc: "be_val (xs @ [b]) = be_val xs * 256 + unat b"
  by (simp add: be_val_def)

lemma be_val_be_enc: "be_val (be_enc n v) = v mod 256 ^ n"
proof (induction n arbitrary: v)
  case 0
  then show ?case by simp
next
  case (Suc n)
  have "v div 256 mod 256 ^ n * 256 + v mod 256 = v mod 256 ^ Suc n"
    by (simp add: mod_mult2_eq mult.commute)
  then show ?case by (simp add: be_val_snoc Suc unat_of_nat)
qed

lemma be_enc_be_val: "be_enc (length bs) (be_val bs) = bs"
proof (induction bs rule: rev_induct)
  case Nil
  then show ?case by simp
next
  case (snoc b bs)
  have div: "(be_val bs * 256 + unat b) div 256 = be_val bs"
    using unat_byte [of b] by simp
  have "(256 :: byte) = 0"
    by simp
  then have "(of_nat (be_val bs * 256 + unat b) :: byte) = b"
    by (simp del: word_eq_numeral_iff_iszero)
  with div snoc show ?case by (simp add: be_val_snoc)
qed

lemma be_val_bound: "be_val bs < 256 ^ length bs"
proof -
  have "be_val bs = be_val bs mod 256 ^ length bs"
    using be_val_be_enc [of "length bs" "be_val bs"] by (simp add: be_enc_be_val)
  then show ?thesis by (metis mod_less_divisor zero_less_numeral zero_less_power)
qed


section \<open>Loops\<close>

text \<open>
  A \<^verbatim>\<open>while\<close> loop given by its body: \<^term>\<open>Inl a\<close> goes round again with the state
  \<^term>\<open>a\<close>, \<^term>\<open>Inr b\<close> leaves the loop. A loop that never leaves has no result.
\<close>

partial_function (option) loop_opt :: "('a \<Rightarrow> ('a + 'b) option) \<Rightarrow> 'a \<Rightarrow> 'b option" where
  "loop_opt body a = do {
     r \<leftarrow> body a;
     (case r of Inl a' \<Rightarrow> loop_opt body a' | Inr b \<Rightarrow> Some b)
   }"

declare loop_opt.simps [code]

lemma loop_opt_Inr: "body a = Some (Inr b) \<Longrightarrow> loop_opt body a = Some b"
  by (subst loop_opt.simps) simp

lemma loop_opt_Inl: "body a = Some (Inl a') \<Longrightarrow> loop_opt body a = loop_opt body a'"
  by (subst loop_opt.simps) simp

text \<open>A loop that decreases a measure under an invariant leaves, with a result that the
  exits satisfy.\<close>

lemma loop_opt_returns:
  assumes step: "\<And>a. I a \<Longrightarrow>
      (\<exists>a'. body a = Some (Inl a') \<and> I a' \<and> m a' < (m a :: nat)) \<or>
      (\<exists>b. body a = Some (Inr b) \<and> Q b)"
    and "I a"
  shows "\<exists>b. loop_opt body a = Some b \<and> Q b"
  using assms(2)
proof (induction "m a" arbitrary: a rule: less_induct)
  case less
  from step [OF less.prems] show ?case
  proof (elim disjE exE conjE)
    fix a' assume "body a = Some (Inl a')" "I a'" "m a' < m a"
    with less.hyps [of a'] show ?thesis by (simp add: loop_opt_Inl)
  next
    fix b assume "body a = Some (Inr b)" "Q b"
    then show ?thesis by (simp add: loop_opt_Inr)
  qed
qed

text \<open>A loop that cannot leave has no result.\<close>

lemma loop_opt_diverges:
  assumes step: "\<And>a. I a \<Longrightarrow> \<exists>a'. body a = Some (Inl a') \<and> I a'" and "I a"
  shows "loop_opt body a = None"
proof -
  have "\<not> I a" if "loop_opt body a = Some b" for b
  proof (rule loop_opt.raw_induct [of "\<lambda>body a b. (\<forall>a. I a \<longrightarrow> (\<exists>a'. body a = Some (Inl a') \<and> I a')) \<longrightarrow> \<not> I a",
        OF _ that, THEN mp])
    show "\<forall>a. I a \<longrightarrow> (\<exists>a'. body a = Some (Inl a') \<and> I a')" using step by blast
  next
    fix loop :: "('a \<Rightarrow> ('a + 'b) option) \<Rightarrow> 'a \<Rightarrow> 'b option" and body a y
    assume IH: "\<And>body a y. loop body a = Some y \<Longrightarrow>
        (\<forall>a. I a \<longrightarrow> (\<exists>a'. body a = Some (Inl a') \<and> I a')) \<longrightarrow> \<not> I a"
      and eq: "body a \<bind> case_sum (loop body) Some = Some y"
    then show "(\<forall>a. I a \<longrightarrow> (\<exists>a'. body a = Some (Inl a') \<and> I a')) \<longrightarrow> \<not> I a"
      by (metis bind.bind_lunit old.sum.simps(5))
  qed
  with assms(2) show ?thesis by (cases "loop_opt body a") auto
qed


text \<open>What holds of every result of a loop, whether or not it is known to leave.\<close>

lemma loop_opt_invariant:
  assumes "\<And>a a'. I a \<Longrightarrow> body a = Some (Inl a') \<Longrightarrow> I a'"
    and "\<And>a b. I a \<Longrightarrow> body a = Some (Inr b) \<Longrightarrow> Q b"
    and "I a" and "loop_opt body a = Some b"
  shows "Q b"
proof -
  let ?ok = "\<lambda>body. (\<forall>a a'. I a \<longrightarrow> body a = Some (Inl a') \<longrightarrow> I a') \<and>
      (\<forall>a b. I a \<longrightarrow> body a = Some (Inr b) \<longrightarrow> Q b)"
  have "?ok body \<longrightarrow> I a \<longrightarrow> Q b"
  proof (rule loop_opt.raw_induct [of "\<lambda>body a b. ?ok body \<longrightarrow> I a \<longrightarrow> Q b", OF _ assms(4)])
    fix loop :: "('a \<Rightarrow> ('a + 'b) option) \<Rightarrow> 'a \<Rightarrow> 'b option" and body a y
    assume IH: "\<And>body a y. loop body a = Some y \<Longrightarrow> ?ok body \<longrightarrow> I a \<longrightarrow> Q y"
      and eq: "body a \<bind> case_sum (loop body) Some = Some y"
    from eq obtain r where r: "body a = Some r" "case_sum (loop body) Some r = Some y"
      by (cases "body a") auto
    show "?ok body \<longrightarrow> I a \<longrightarrow> Q y"
    proof (cases r)
      case (Inl a')
      with r IH [of body a' y] show ?thesis by auto
    next
      case (Inr b)
      with r show ?thesis by auto
    qed
  qed
  with assms(1-3) show ?thesis by blast
qed


section \<open>Postconditions\<close>

text \<open>
  \<^term>\<open>post Q m\<close>: every result of \<^term>\<open>m\<close> satisfies \<^term>\<open>Q\<close>. The rules \<open>post_rules\<close> take a
  handler apart along its structure; a rule for each operation called finishes the job.
\<close>

definition post :: "('a \<Rightarrow> bool) \<Rightarrow> 'a option \<Rightarrow> bool" where
  "post Q m \<longleftrightarrow> (\<forall>r. m = Some r \<longrightarrow> Q r)"

lemma postI: "(\<And>r. m = Some r \<Longrightarrow> Q r) \<Longrightarrow> post Q m"
  by (simp add: post_def)

lemma postD: "post Q m \<Longrightarrow> m = Some r \<Longrightarrow> Q r"
  by (simp add: post_def)

lemma post_any: "(\<And>r. Q r) \<Longrightarrow> post Q m"
  by (simp add: post_def)

lemma post_Some: "Q r \<Longrightarrow> post Q (Some r)"
  by (simp add: post_def)

lemma post_None: "post Q None"
  by (simp add: post_def)

lemma post_bind: "post (\<lambda>x. post Q (f x)) m \<Longrightarrow> post Q (m \<bind> f)"
  by (auto simp: post_def bind_eq_Some_conv)

lemma post_let: "(\<And>y. y = x \<Longrightarrow> post Q (f y)) \<Longrightarrow> post Q (Let x f)"
  by simp

lemma post_if: "(b \<Longrightarrow> post Q x) \<Longrightarrow> (\<not> b \<Longrightarrow> post Q y) \<Longrightarrow> post Q (if b then x else y)"
  by simp

lemma post_prod: "(\<And>a b. x = (a, b) \<Longrightarrow> post Q (f a b)) \<Longrightarrow> post Q (case x of (a, b) \<Rightarrow> f a b)"
  by (cases x) simp

lemma post_option:
  "(x = None \<Longrightarrow> post Q n) \<Longrightarrow> (\<And>a. x = Some a \<Longrightarrow> post Q (f a)) \<Longrightarrow>
     post Q (case x of None \<Rightarrow> n | Some a \<Rightarrow> f a)"
  by (cases x) simp_all

lemma post_list:
  "(x = [] \<Longrightarrow> post Q n) \<Longrightarrow> (\<And>a as. x = a # as \<Longrightarrow> post Q (f a as)) \<Longrightarrow>
     post Q (case x of [] \<Rightarrow> n | a # as \<Rightarrow> f a as)"
  by (cases x) simp_all

lemmas post_rules = post_Some post_None post_bind post_let post_if post_prod post_option post_list

lemma post_loop:
  assumes "I a" and "\<And>a. I a \<Longrightarrow> post (case_sum I Q) (body a)"
  shows "post Q (loop_opt body a)"
proof (rule postI)
  fix b assume "loop_opt body a = Some b"
  with _ _ assms(1) show "Q b"
    by (rule loop_opt_invariant) (use assms(2) in \<open>force dest: postD\<close>)+
qed

end
