(* ===== verification/Asdf_Context.thy ===== *)
theory Asdf_Context
  imports Asdf_Prelude
begin

text \<open>
  The error state shared by a file, its parser and its streams: \<^verbatim>\<open>src/error.c\<close> and the parts
  of \<^verbatim>\<open>src/context.c\<close> that create and count references to a context. Log output is not
  modelled; the log level of an error is looked up as the code does, since that lookup is an
  array read.
\<close>

section \<open>Data\<close>

datatype asdf_error_code =
    ASDF_ERR_NONE
  | ASDF_ERR_UNKNOWN_STATE
  | ASDF_ERR_STREAM_INIT_FAILED
  | ASDF_ERR_STREAM_READ_ONLY
  | ASDF_ERR_INVALID_ASDF_HEADER
  | ASDF_ERR_UNEXPECTED_EOF
  | ASDF_ERR_INVALID_BLOCK_HEADER
  | ASDF_ERR_BLOCK_MAGIC_MISMATCH
  | ASDF_ERR_YAML_PARSER_INIT_FAILED
  | ASDF_ERR_YAML_PARSE_FAILED
  | ASDF_ERR_OUT_OF_MEMORY
  | ASDF_ERR_SYSTEM
  | ASDF_ERR_INVALID_ARGUMENT
  | ASDF_ERR_UNKNOWN_COMPRESSION
  | ASDF_ERR_COMPRESSION_FAILED
  | ASDF_ERR_EXTENSION_NOT_FOUND
  | ASDF_ERR_OVER_LIMIT

datatype asdf_log_level =
    ASDF_LOG_NONE | ASDF_LOG_WARN | ASDF_LOG_ERROR | ASDF_LOG_FATAL

datatype asdf_error_type = ASDF_ERROR_NONE | ASDF_ERROR_STATIC | ASDF_ERROR_HEAP

text \<open>A stored message: a text of the library, or what \<^verbatim>\<open>strerror\<close> gives for an \<^verbatim>\<open>errno\<close>.\<close>

datatype error_text = Text string | Strerror int

text \<open>
  The field \<^verbatim>\<open>error_code\<close> and \<^verbatim>\<open>saved_errno\<close> are \<^term>\<open>None\<close> while they hold whatever the
  allocated memory held. The last field is the allocator.
\<close>

record asdf_context =
  refcount :: nat
  error_type :: asdf_error_type
  error :: "error_text option"
  error_code :: "asdf_error_code option"
  saved_errno :: "int option"
  ctx_heap :: heap

section \<open>The tables of error.c\<close>

fun error_code_num :: "asdf_error_code \<Rightarrow> nat" where
  "error_code_num ASDF_ERR_NONE = 0"
| "error_code_num ASDF_ERR_UNKNOWN_STATE = 1"
| "error_code_num ASDF_ERR_STREAM_INIT_FAILED = 2"
| "error_code_num ASDF_ERR_STREAM_READ_ONLY = 3"
| "error_code_num ASDF_ERR_INVALID_ASDF_HEADER = 4"
| "error_code_num ASDF_ERR_UNEXPECTED_EOF = 5"
| "error_code_num ASDF_ERR_INVALID_BLOCK_HEADER = 6"
| "error_code_num ASDF_ERR_BLOCK_MAGIC_MISMATCH = 7"
| "error_code_num ASDF_ERR_YAML_PARSER_INIT_FAILED = 8"
| "error_code_num ASDF_ERR_YAML_PARSE_FAILED = 9"
| "error_code_num ASDF_ERR_OUT_OF_MEMORY = 10"
| "error_code_num ASDF_ERR_SYSTEM = 11"
| "error_code_num ASDF_ERR_INVALID_ARGUMENT = 12"
| "error_code_num ASDF_ERR_UNKNOWN_COMPRESSION = 13"
| "error_code_num ASDF_ERR_COMPRESSION_FAILED = 14"
| "error_code_num ASDF_ERR_EXTENSION_NOT_FOUND = 15"
| "error_code_num ASDF_ERR_OVER_LIMIT = 16"

definition asdf_error_formats :: "string option list" where
  "asdf_error_formats =
    [None,
     Some ''unknown parser state'',
     Some ''failed to initialize stream'',
     Some ''cannot write to a read-only stream or file'',
     Some ''invalid ASDF header'',
     Some ''unexpected end of file'',
     Some ''invalid block header'',
     Some ''block magic mismatch'',
     Some ''YAML parser initialization failed'',
     Some ''YAML parsing failed'',
     Some ''out of memory'',
     None,
     Some ''invalid argument for %s: %s'',
     Some ''unknown compression type: %s'',
     Some ''compression error: %s'',
     Some ''no serializer registered for the %s extension'',
     Some ''over limit: %s'']"

definition asdf_error_log_levels :: "asdf_log_level list" where
  "asdf_error_log_levels =
    [ASDF_LOG_NONE, ASDF_LOG_ERROR, ASDF_LOG_ERROR, ASDF_LOG_ERROR, ASDF_LOG_ERROR,
     ASDF_LOG_ERROR, ASDF_LOG_ERROR, ASDF_LOG_ERROR, ASDF_LOG_FATAL, ASDF_LOG_ERROR,
     ASDF_LOG_FATAL, ASDF_LOG_ERROR, ASDF_LOG_ERROR, ASDF_LOG_ERROR, ASDF_LOG_ERROR,
     ASDF_LOG_WARN]"

text \<open>An array read of a table: no result outside it.\<close>

definition table_at :: "'a list \<Rightarrow> nat \<Rightarrow> 'a option" where
  "table_at t i = (if i < length t then Some (t ! i) else None)"

text \<open>\<^verbatim>\<open>vsnprintf\<close> on the only conversion the tables use, \<^verbatim>\<open>%s\<close>.\<close>

fun format_s :: "string \<Rightarrow> string list \<Rightarrow> string" where
  "format_s [] args = []"
| "format_s [c] args = [c]"
| "format_s (c # d # cs) args =
     (if c = CHR ''%'' \<and> d = CHR ''s''
      then (case args of [] \<Rightarrow> format_s cs [] | a # as \<Rightarrow> a @ format_s cs as)
      else c # format_s (d # cs) args)"

section \<open>Operations\<close>

text \<open>\<^verbatim>\<open>asdf_context_create\<close>: the allocated structure is not cleared, and the code and the
  saved \<^verbatim>\<open>errno\<close> are not among the fields it sets.\<close>

definition asdf_context_create :: "heap \<Rightarrow> asdf_context option \<times> heap" where
  "asdf_context_create h =
     (case alloc h of
        (False, h') \<Rightarrow> (None, h')
      | (True, h') \<Rightarrow>
          (Some \<lparr>refcount = 1, error_type = ASDF_ERROR_NONE, error = None,
                 error_code = None, saved_errno = None, ctx_heap = h'\<rparr>, h'))"

definition asdf_context_retain :: "asdf_context \<Rightarrow> asdf_context" where
  "asdf_context_retain ctx = ctx\<lparr>refcount := refcount ctx + 1\<rparr>"

text \<open>\<^verbatim>\<open>asdf_context_release\<close>: \<^term>\<open>None\<close> when the last reference went and the context was
  destroyed.\<close>

definition asdf_context_release :: "asdf_context \<Rightarrow> asdf_context option" where
  "asdf_context_release ctx =
     (if refcount ctx = 1 then None else Some (ctx\<lparr>refcount := refcount ctx - 1\<rparr>))"

definition ctx_alloc :: "asdf_context \<Rightarrow> bool \<times> asdf_context" where
  "ctx_alloc ctx = (let (ok, h) = alloc (ctx_heap ctx) in (ok, ctx\<lparr>ctx_heap := h\<rparr>))"

definition asdf_context_error_static :: "asdf_context \<Rightarrow> string option \<Rightarrow> asdf_context" where
  "asdf_context_error_static ctx e =
     ctx\<lparr>error := map_option Text e, error_type := ASDF_ERROR_STATIC\<rparr>"

definition asdf_context_error_get :: "asdf_context \<Rightarrow> error_text option" where
  "asdf_context_error_get ctx = error ctx"

definition asdf_context_error_code_get :: "asdf_context option \<Rightarrow> asdf_error_code option" where
  "asdf_context_error_code_get c =
     (case c of None \<Rightarrow> Some ASDF_ERR_NONE | Some ctx \<Rightarrow> error_code ctx)"

definition asdf_context_saved_errno_get :: "asdf_context option \<Rightarrow> int option" where
  "asdf_context_saved_errno_get c =
     (case c of None \<Rightarrow> Some 0 | Some ctx \<Rightarrow> saved_errno ctx)"

definition asdf_context_error_heapv ::
  "asdf_context \<Rightarrow> string \<Rightarrow> string list \<Rightarrow> asdf_context" where
  "asdf_context_error_heapv ctx fmt args =
     (case ctx_alloc (ctx\<lparr>error := None\<rparr>) of
        (False, ctx') \<Rightarrow>
          ctx'\<lparr>error := map_option Text (asdf_error_formats ! 10),
               error_type := ASDF_ERROR_STATIC, error_code := Some ASDF_ERR_OUT_OF_MEMORY\<rparr>
      | (True, ctx') \<Rightarrow>
          ctx'\<lparr>error := Some (Text (format_s fmt args)), error_type := ASDF_ERROR_HEAP\<rparr>)"

definition asdf_context_error_common ::
  "asdf_context \<Rightarrow> asdf_error_code \<Rightarrow> string list \<Rightarrow> asdf_context option" where
  "asdf_context_error_common ctx code args =
     (if code = ASDF_ERR_SYSTEM then None
      else do {
        fmt \<leftarrow> table_at asdf_error_formats (error_code_num code);
        level \<leftarrow> table_at asdf_error_log_levels (error_code_num code);
        let ctx = ctx\<lparr>error_code := Some code, saved_errno := Some 0\<rparr>;
        (case fmt of
           None \<Rightarrow> Some (ctx\<lparr>error := None, error_type := ASDF_ERROR_NONE\<rparr>)
         | Some f \<Rightarrow>
             if CHR ''%'' \<notin> set f then Some (asdf_context_error_static ctx (Some f))
             else Some (asdf_context_error_heapv ctx f args))
      })"

definition asdf_context_error_oom :: "asdf_context \<Rightarrow> asdf_context" where
  "asdf_context_error_oom ctx =
     (asdf_context_error_static ctx (asdf_error_formats ! 10))
       \<lparr>error_code := Some ASDF_ERR_OUT_OF_MEMORY, saved_errno := Some 0\<rparr>"

definition asdf_context_error_system :: "asdf_context \<Rightarrow> int \<Rightarrow> asdf_context" where
  "asdf_context_error_system ctx errnum =
     (let (ok, ctx') = ctx_alloc ctx in
        ctx'\<lparr>error := (if ok then Some (Strerror errnum) else None),
             error_type := ASDF_ERROR_HEAP,
             error_code := Some ASDF_ERR_SYSTEM, saved_errno := Some errnum\<rparr>)"

text \<open>\<^verbatim>\<open>asdf_context_error_copy\<close> between two different contexts.\<close>

definition asdf_context_error_copy :: "asdf_context \<Rightarrow> asdf_context \<Rightarrow> asdf_context" where
  "asdf_context_error_copy dst src =
     (if error_type src = ASDF_ERROR_HEAP \<and> error src \<noteq> None
      then let (ok, dst') = ctx_alloc dst in
           dst'\<lparr>error := (if ok then error src else None), error_type := error_type src,
                error_code := error_code src, saved_errno := saved_errno src\<rparr>
      else dst\<lparr>error := error src, error_type := error_type src,
               error_code := error_code src, saved_errno := saved_errno src\<rparr>)"

section \<open>Lemmas\<close>

lemmas context_defs =
  asdf_context_error_common_def asdf_context_error_static_def asdf_context_error_heapv_def
  asdf_context_error_oom_def asdf_context_error_system_def table_at_def
  asdf_error_formats_def asdf_error_log_levels_def ctx_alloc_def

lemma error_code_num_inj: "error_code_num a = error_code_num b \<Longrightarrow> a = b"
  by (cases a; cases b; simp)

text \<open>The codes without parameters set the static text of the table and never allocate.\<close>

lemma error_common_eof [simp]:
  "asdf_context_error_common ctx ASDF_ERR_UNEXPECTED_EOF args =
     Some (ctx\<lparr>error_code := Some ASDF_ERR_UNEXPECTED_EOF, saved_errno := Some 0,
       error := Some (Text ''unexpected end of file''), error_type := ASDF_ERROR_STATIC\<rparr>)"
  by (simp add: context_defs)

lemma error_common_block_header [simp]:
  "asdf_context_error_common ctx ASDF_ERR_INVALID_BLOCK_HEADER args =
     Some (ctx\<lparr>error_code := Some ASDF_ERR_INVALID_BLOCK_HEADER, saved_errno := Some 0,
       error := Some (Text ''invalid block header''), error_type := ASDF_ERROR_STATIC\<rparr>)"
  by (simp add: context_defs)

lemma error_common_asdf_header [simp]:
  "asdf_context_error_common ctx ASDF_ERR_INVALID_ASDF_HEADER args =
     Some (ctx\<lparr>error_code := Some ASDF_ERR_INVALID_ASDF_HEADER, saved_errno := Some 0,
       error := Some (Text ''invalid ASDF header''), error_type := ASDF_ERROR_STATIC\<rparr>)"
  by (simp add: context_defs)

lemma error_common_read_only [simp]:
  "asdf_context_error_common ctx ASDF_ERR_STREAM_READ_ONLY args =
     Some (ctx\<lparr>error_code := Some ASDF_ERR_STREAM_READ_ONLY, saved_errno := Some 0,
       error := Some (Text ''cannot write to a read-only stream or file''),
       error_type := ASDF_ERROR_STATIC\<rparr>)"
  by (simp add: context_defs)

section \<open>Properties\<close>

text \<open>The message of each code with its arguments filled in, and how many arguments it takes.\<close>

fun documented_message :: "asdf_error_code \<Rightarrow> string list \<Rightarrow> string" where
  "documented_message ASDF_ERR_UNKNOWN_STATE _ = ''unknown parser state''"
| "documented_message ASDF_ERR_STREAM_INIT_FAILED _ = ''failed to initialize stream''"
| "documented_message ASDF_ERR_STREAM_READ_ONLY _ = ''cannot write to a read-only stream or file''"
| "documented_message ASDF_ERR_INVALID_ASDF_HEADER _ = ''invalid ASDF header''"
| "documented_message ASDF_ERR_UNEXPECTED_EOF _ = ''unexpected end of file''"
| "documented_message ASDF_ERR_INVALID_BLOCK_HEADER _ = ''invalid block header''"
| "documented_message ASDF_ERR_BLOCK_MAGIC_MISMATCH _ = ''block magic mismatch''"
| "documented_message ASDF_ERR_YAML_PARSER_INIT_FAILED _ = ''YAML parser initialization failed''"
| "documented_message ASDF_ERR_YAML_PARSE_FAILED _ = ''YAML parsing failed''"
| "documented_message ASDF_ERR_OUT_OF_MEMORY _ = ''out of memory''"
| "documented_message ASDF_ERR_INVALID_ARGUMENT [func, arg] = ''invalid argument for '' @ func @ '': '' @ arg"
| "documented_message ASDF_ERR_UNKNOWN_COMPRESSION [cmp] = ''unknown compression type: '' @ cmp"
| "documented_message ASDF_ERR_COMPRESSION_FAILED [why] = ''compression error: '' @ why"
| "documented_message ASDF_ERR_EXTENSION_NOT_FOUND [ext] =
     ''no serializer registered for the '' @ ext @ '' extension''"
| "documented_message _ _ = []"

fun message_arguments :: "asdf_error_code \<Rightarrow> nat" where
  "message_arguments ASDF_ERR_INVALID_ARGUMENT = 2"
| "message_arguments ASDF_ERR_UNKNOWN_COMPRESSION = 1"
| "message_arguments ASDF_ERR_COMPRESSION_FAILED = 1"
| "message_arguments ASDF_ERR_EXTENSION_NOT_FOUND = 1"
| "message_arguments ASDF_ERR_OVER_LIMIT = 1"
| "message_arguments _ = 0"

text \<open>What raising an error does, for every code given its arguments: a system error fails the
  assertion and an over-limit error reads outside the table of log levels; the code for no error clears the
  message; a code without arguments sets its documented message without allocating; a code with arguments
  sets its message with them filled in, on the heap, or, when there is no memory for it, the code and the
  static message for that. The saved \<^verbatim>\<open>errno\<close> is cleared and nothing else changes.\<close>

theorem error_common_exact:
  assumes "length args = message_arguments code"
  shows "asdf_context_error_common ctx code args =
    (if code = ASDF_ERR_SYSTEM \<or> code = ASDF_ERR_OVER_LIMIT then None
     else if code = ASDF_ERR_NONE then
       Some (ctx\<lparr>error_code := Some ASDF_ERR_NONE, saved_errno := Some 0, error := None,
         error_type := ASDF_ERROR_NONE\<rparr>)
     else if args = [] then
       Some (ctx\<lparr>error_code := Some code, saved_errno := Some 0,
         error := Some (Text (documented_message code [])), error_type := ASDF_ERROR_STATIC\<rparr>)
     else if fst (alloc (ctx_heap ctx)) then
       Some (ctx\<lparr>error_code := Some code, saved_errno := Some 0,
         error := Some (Text (documented_message code args)), error_type := ASDF_ERROR_HEAP,
         ctx_heap := snd (alloc (ctx_heap ctx))\<rparr>)
     else
       Some (ctx\<lparr>error_code := Some ASDF_ERR_OUT_OF_MEMORY, saved_errno := Some 0,
         error := Some (Text ''out of memory''), error_type := ASDF_ERROR_STATIC,
         ctx_heap := snd (alloc (ctx_heap ctx))\<rparr>))"
proof -
  have two: "\<exists>a b. args = [a, b]" if "code = ASDF_ERR_INVALID_ARGUMENT"
    using assms that by (auto simp: length_Suc_conv numeral_2_eq_2)
  show ?thesis
    using assms two
    by (cases code; cases "alloc (ctx_heap ctx)"; cases "fst (alloc (ctx_heap ctx))";
        auto simp: context_defs length_Suc_conv)
qed

text \<open>Raising an over-limit error reads the table of log levels one entry behind its end.\<close>

theorem over_limit_outside_table: "asdf_context_error_common ctx ASDF_ERR_OVER_LIMIT args = None"
  by (simp add: context_defs)

end
