(* ===== verification/Asdf_Stream.thy ===== *)
theory Asdf_Stream
  imports Asdf_Context
begin

text \<open>
  The stream layer, \<^verbatim>\<open>src/stream.c\<close> and \<^verbatim>\<open>src/stream.h\<close>: token scanning, the capture buffer,
  the buffered file backend, the memory backend, and the dispatching operations the parser
  and the emitter call. The C library's \<^verbatim>\<open>FILE\<close> is the record \<open>cfile\<close>: contents, position,
  whether it seeks, a size limit (a full device), whether flushing succeeds and the \<^verbatim>\<open>errno\<close>
  a failing call leaves. A window
  returned by \<^verbatim>\<open>next\<close> is the list of its bytes, \<^term>\<open>[]\<close> standing for a null pointer.
\<close>

section \<open>Data\<close>

datatype whence = SEEK_SET | SEEK_CUR | SEEK_END

record cfile =
  f_content :: bytes
  f_pos :: nat
  f_seekable :: bool
  f_limit :: "nat option"
  f_flush_ok :: bool
  f_errno :: int

record file_mmap_info =
  mm_addr :: "nat option"
  mm_size :: nat
  mm_offset :: int

record file_userdata =
  fu_file :: cfile
  fu_should_close :: bool
  fu_buf :: bytes
  fu_buf_size :: nat
  fu_buf_avail :: nat
  fu_buf_pos :: nat
  fu_file_pos :: nat
  fu_mmaps :: "file_mmap_info list option"

record mem_userdata =
  mem_buf :: bytes
  mem_size :: nat
  mem_pos :: nat
  is_resizeable :: bool
  mem_out :: "(bytes \<times> nat) option"

datatype asdf_userdata = FileData file_userdata | MemData mem_userdata

text \<open>
  \<open>capture_buf\<close>: \<^term>\<open>None\<close> for no capture, \<^term>\<open>Some None\<close> for a capture into a null
  buffer, \<^term>\<open>Some (Some bs)\<close> with the bytes captured so far (their number is
  \<^verbatim>\<open>*capture_size\<close>).
\<close>

record asdf_stream =
  s_ctx :: asdf_context
  is_seekable :: bool
  is_writeable :: bool
  userdata :: asdf_userdata
  capture_buf :: "bytes option option"
  capture_cap :: nat

text \<open>Outcomes of the system calls behind \<^verbatim>\<open>file_open_mem\<close> and \<^verbatim>\<open>file_close_mem\<close>.\<close>

record os_env =
  page_size :: nat
  fd_ok :: bool
  fstat_ok :: bool
  mmap_addr :: "nat option"
  munmap_ok :: bool
  os_errno :: int

section \<open>The C library on files\<close>

definition fread :: "cfile \<Rightarrow> nat \<Rightarrow> bytes \<times> cfile" where
  "fread f n = (let bs = take n (drop (f_pos f) (f_content f))
                in (bs, f\<lparr>f_pos := f_pos f + length bs\<rparr>))"

definition fwrite :: "cfile \<Rightarrow> bytes \<Rightarrow> nat \<times> cfile" where
  "fwrite f bs =
     (let n = (case f_limit f of None \<Rightarrow> length bs | Some l \<Rightarrow> min (length bs) (l - f_pos f));
          old = f_content f @ replicate (f_pos f - length (f_content f)) 0
      in (n, f\<lparr>f_content := take (f_pos f) old @ take n bs @ drop (f_pos f + n) old,
               f_pos := f_pos f + n\<rparr>))"

definition fseeko :: "cfile \<Rightarrow> int \<Rightarrow> whence \<Rightarrow> cfile option" where
  "fseeko f off w =
     (let p = (case w of SEEK_SET \<Rightarrow> off
               | SEEK_CUR \<Rightarrow> int (f_pos f) + off
               | SEEK_END \<Rightarrow> int (length (f_content f)) + off)
      in if f_seekable f \<and> 0 \<le> p then Some (f\<lparr>f_pos := nat p\<rparr>) else None)"

fun count_to_newline :: "bytes \<Rightarrow> nat" where
  "count_to_newline [] = 0"
| "count_to_newline (b # bs) = (if b = 10 then 1 else Suc (count_to_newline bs))"

text \<open>The \<^verbatim>\<open>fgetc\<close> loop that drops the rest of a line.\<close>

definition skip_line :: "cfile \<Rightarrow> cfile" where
  "skip_line f = f\<lparr>f_pos := f_pos f + count_to_newline (drop (f_pos f) (f_content f))\<rparr>"

definition EINVAL :: int where
  "EINVAL = 22"

section \<open>Token scanning\<close>

fun scan_token_at :: "bytes \<Rightarrow> bytes list \<Rightarrow> nat \<Rightarrow> nat option" where
  "scan_token_at bs [] tdx = None"
| "scan_token_at bs (t # ts) tdx =
     (if length t \<le> length bs \<and> take (length t) bs = t then Some tdx
      else scan_token_at bs ts (Suc tdx))"

fun scan_from :: "bytes \<Rightarrow> bytes list \<Rightarrow> nat \<Rightarrow> (nat \<times> nat) option" where
  "scan_from [] ts idx = None"
| "scan_from (b # bs) ts idx =
     (case scan_token_at (b # bs) ts 0 of
        Some tdx \<Rightarrow> Some (idx, tdx)
      | None \<Rightarrow> scan_from bs ts (Suc idx))"

definition asdf_scan_tokens :: "bytes \<Rightarrow> bytes list \<Rightarrow> (nat \<times> nat) option" where
  "asdf_scan_tokens buf tokens =
     (if buf = [] \<or> tokens = [] then None else scan_from buf tokens 0)"

definition max_token_len :: "bytes list \<Rightarrow> nat" where
  "max_token_len tokens = foldl (\<lambda>m t. if length t > m then length t else m) 0 tokens"

section \<open>Capture\<close>

partial_function (option) grow_cap :: "nat \<Rightarrow> nat \<Rightarrow> nat option" where
  "grow_cap cap needed =
     (if cap < needed then grow_cap (cap * 2 mod size_mod) needed else Some cap)"

declare grow_cap.simps [code]

definition stream_capture :: "asdf_stream \<Rightarrow> bytes \<Rightarrow> nat \<Rightarrow> nat \<Rightarrow> asdf_stream option" where
  "stream_capture s buf off n =
     (case capture_buf s of
        None \<Rightarrow> Some s
      | Some None \<Rightarrow> Some s
      | Some (Some cap) \<Rightarrow>
          if n = 0 then Some s
          else if size_add (length cap) n > capture_cap s then do {
            new_cap \<leftarrow> grow_cap (capture_cap s) (size_add (length cap) n);
            let (ok, ctx) = ctx_alloc (s_ctx s);
            if \<not> ok then Some (s\<lparr>s_ctx := asdf_context_error_oom ctx\<rparr>)
            else do {
              src \<leftarrow> mem_read buf off n;
              Some (s\<lparr>s_ctx := ctx, capture_cap := new_cap,
                      capture_buf := Some (Some (cap @ src))\<rparr>)
            }
          }
          else do {
            src \<leftarrow> mem_read buf off n;
            Some (s\<lparr>capture_buf := Some (Some (cap @ src))\<rparr>)
          })"

definition asdf_stream_set_capture ::
  "asdf_stream \<Rightarrow> bytes option option \<Rightarrow> nat \<Rightarrow> asdf_stream" where
  "asdf_stream_set_capture s b capacity = s\<lparr>capture_buf := b, capture_cap := capacity\<rparr>"

section \<open>The file backend\<close>

text \<open>The second half of \<^verbatim>\<open>file_next\<close>, once the buffer is large enough.\<close>

definition file_next_fill ::
  "asdf_stream \<Rightarrow> file_userdata \<Rightarrow> nat \<Rightarrow> nat \<Rightarrow> (bytes \<times> asdf_stream \<times> file_userdata) option" where
  "file_next_fill s d count buf_remain = do {
     d \<leftarrow> (if buf_remain < count then do {
             w \<leftarrow> mem_read (fu_buf d) (fu_buf_pos d) buf_remain;
             b \<leftarrow> mem_write_at (fu_buf d) 0 w;
             Some (d\<lparr>fu_buf := b, fu_buf_avail := buf_remain, fu_buf_pos := 0\<rparr>)
           } else Some d);
     d \<leftarrow> (if buf_remain < count \<or> fu_buf_pos d \<ge> fu_buf_avail d then do {
             let (bs, f) = fread (fu_file d) (size_sub (fu_buf_size d) buf_remain);
             b \<leftarrow> mem_write_at (fu_buf d) buf_remain bs;
             Some (d\<lparr>fu_file := f, fu_buf := b,
                     fu_buf_avail := size_add (fu_buf_avail d) (length bs)\<rparr>)
           } else Some d);
     w \<leftarrow> mem_read (fu_buf d) (fu_buf_pos d) (size_sub (fu_buf_avail d) (fu_buf_pos d));
     Some (w, s, d)
   }"

definition file_next ::
  "asdf_stream \<Rightarrow> file_userdata \<Rightarrow> nat \<Rightarrow> (bytes \<times> asdf_stream \<times> file_userdata) option" where
  "file_next s d count =
     (let buf_remain = size_sub (fu_buf_avail d) (fu_buf_pos d) in
      if count > fu_buf_size d then
        (let (ok, ctx) = ctx_alloc (s_ctx s) in
         if \<not> ok then Some ([], s\<lparr>s_ctx := asdf_context_error_oom ctx\<rparr>, d)
         else file_next_fill (s\<lparr>s_ctx := ctx\<rparr>)
                (d\<lparr>fu_buf := fu_buf d @ replicate (count - fu_buf_size d) 0,
                   fu_buf_size := count\<rparr>) count buf_remain)
      else file_next_fill s d count buf_remain)"

definition file_consume ::
  "asdf_stream \<Rightarrow> file_userdata \<Rightarrow> nat \<Rightarrow> (asdf_stream \<times> file_userdata) option" where
  "file_consume s d count = do {
     s \<leftarrow> stream_capture s (fu_buf d) (fu_buf_pos d) count;
     let p = size_add (fu_buf_pos d) count;
     Some (s, d\<lparr>fu_buf_pos := (if p > fu_buf_avail d then fu_buf_avail d else p),
                fu_file_pos := size_add (fu_file_pos d) count\<rparr>)
   }"

fun newline_idx :: "bytes \<Rightarrow> nat option" where
  "newline_idx [] = None"
| "newline_idx (b # bs) = (if b = 10 then Some 0 else map_option Suc (newline_idx bs))"

text \<open>A line read: \<^term>\<open>None\<close> for a null pointer, otherwise the bytes behind the pointer
  and the reported length.\<close>

definition file_readline ::
  "asdf_stream \<Rightarrow> file_userdata \<Rightarrow> ((bytes \<times> nat) option \<times> asdf_stream \<times> file_userdata) option" where
  "file_readline s d = do {
     (buf, s, d) \<leftarrow> file_next s d 0;
     if buf = [] then Some (None, s, d)
     else (case newline_idx buf of
             Some idx \<Rightarrow> do {
               (s, d) \<leftarrow> file_consume s d (idx + 1);
               Some (Some (buf, idx + 1), s, d)
             }
           | None \<Rightarrow> do {
               (s, d) \<leftarrow> file_consume s d (length buf);
               Some (Some (buf, length buf), s, d\<lparr>fu_file := skip_line (fu_file d)\<rparr>)
             })
   }"

text \<open>One refill of the sliding window of \<^verbatim>\<open>file_scan\<close>.\<close>

definition file_scan_refill ::
  "asdf_stream \<Rightarrow> file_userdata \<Rightarrow> nat \<Rightarrow> nat \<Rightarrow> (asdf_stream \<times> file_userdata) option" where
  "file_scan_refill s d avail mlen = do {
     let preserve = (if avail < mlen - 1 then avail else mlen - 1);
     s \<leftarrow> stream_capture s (fu_buf d) 0 (size_sub (fu_buf_avail d) preserve);
     w \<leftarrow> mem_read (fu_buf d) (size_sub (fu_buf_avail d) preserve) preserve;
     b \<leftarrow> mem_write_at (fu_buf d) 0 w;
     let (bs, f) = fread (fu_file d) (size_sub (fu_buf_size d) preserve);
     b \<leftarrow> mem_write_at b preserve bs;
     let new_avail = size_add preserve (length bs);
     Some (s, d\<lparr>fu_file := f, fu_buf := b,
                fu_file_pos := size_add (fu_file_pos d) (size_sub (fu_buf_avail d) preserve),
                fu_buf_avail := new_avail,
                fu_buf_pos := (if new_avail < mlen then new_avail else 0)\<rparr>)
   }"

partial_function (option) file_scan_loop ::
  "asdf_stream \<Rightarrow> file_userdata \<Rightarrow> bytes list \<Rightarrow> nat
     \<Rightarrow> ((nat \<times> nat) option \<times> asdf_stream \<times> file_userdata) option" where
  "file_scan_loop s d tokens mlen = do {
     let avail = size_sub (fu_buf_avail d) (fu_buf_pos d);
     res \<leftarrow> (if avail \<ge> mlen then do {
               w \<leftarrow> mem_read (fu_buf d) (fu_buf_pos d) avail;
               Some (asdf_scan_tokens w tokens)
             } else Some None);
     (case res of
        Some (offset, token_idx) \<Rightarrow> do {
          (s', d') \<leftarrow> file_consume s d offset;
          Some (Some (size_add (fu_file_pos d) offset, token_idx), s', d')
        }
      | None \<Rightarrow> do {
          (s', d') \<leftarrow> file_scan_refill s d avail mlen;
          if fu_buf_avail d' < mlen then Some (None, s', d')
          else file_scan_loop s' d' tokens mlen
        })
   }"

declare file_scan_loop.simps [code]

definition file_scan ::
  "asdf_stream \<Rightarrow> file_userdata \<Rightarrow> bytes list
     \<Rightarrow> ((nat \<times> nat) option \<times> asdf_stream \<times> file_userdata) option" where
  "file_scan s d tokens =
     (if max_token_len tokens = 0 then Some (None, s, d)
      else file_scan_loop s d tokens (max_token_len tokens))"

definition file_seek :: "file_userdata \<Rightarrow> int \<Rightarrow> whence \<Rightarrow> int \<times> file_userdata" where
  "file_seek d offset w =
     (if w = SEEK_CUR \<and> size_add (fu_file_pos d) (size_of_off offset) > ASDF_OFF_MAX then (-1, d)
      else
        let offset' = (if w = SEEK_CUR
                       then (if offset < 0
                             then off_of_size (size_sub (fu_file_pos d) (size_of_off (- offset)))
                             else off_of_size (fu_file_pos d) + offset)
                       else offset);
            w' = (if w = SEEK_CUR then SEEK_SET else w)
        in case fseeko (fu_file d) offset' w' of
             None \<Rightarrow> (-1, d)
           | Some f \<Rightarrow>
               (0, d\<lparr>fu_file := f, fu_buf_avail := 0, fu_buf_pos := 0,
                     fu_file_pos := (case w of SEEK_END \<Rightarrow> f_pos f
                                     | _ \<Rightarrow> size_of_off offset')\<rparr>))"

definition file_tell :: "file_userdata \<Rightarrow> int" where
  "file_tell d = (if fu_file_pos d > ASDF_OFF_MAX then -1 else off_of_size (fu_file_pos d))"

definition file_write ::
  "asdf_stream \<Rightarrow> file_userdata \<Rightarrow> bytes \<Rightarrow> (nat \<times> asdf_stream \<times> file_userdata) option" where
  "file_write s d bs =
     (if \<not> is_writeable s then do {
        ctx \<leftarrow> asdf_context_error_common (s_ctx s) ASDF_ERR_STREAM_READ_ONLY [];
        Some (0, s\<lparr>s_ctx := ctx\<rparr>, d)
      }
      else
        let (n_wrote, f) = fwrite (fu_file d) bs in
        if n_wrote \<noteq> length bs
        then Some (n_wrote, s\<lparr>s_ctx := asdf_context_error_system (s_ctx s) (f_errno f)\<rparr>, d\<lparr>fu_file := f\<rparr>)
        else Some (n_wrote, s, d\<lparr>fu_file := f,
                                 fu_file_pos := size_add (fu_file_pos d) n_wrote\<rparr>))"

definition file_flush ::
  "asdf_stream \<Rightarrow> file_userdata \<Rightarrow> (int \<times> asdf_stream) option" where
  "file_flush s d =
     (if \<not> is_writeable s then do {
        ctx \<leftarrow> asdf_context_error_common (s_ctx s) ASDF_ERR_STREAM_READ_ONLY [];
        Some (-1, s\<lparr>s_ctx := ctx\<rparr>)
      }
      else if f_flush_ok (fu_file d) then Some (0, s)
      else Some (-1, s\<lparr>s_ctx := asdf_context_error_system (s_ctx s) (f_errno (fu_file d))\<rparr>))"

text \<open>\<^verbatim>\<open>asdf_stream_from_fp\<close> with \<^verbatim>\<open>BUFSIZ\<close> as an argument; fresh memory is all zeros.\<close>

definition file_is_seekable :: "cfile \<Rightarrow> bool" where
  "file_is_seekable f = (f_seekable f \<and> fseeko f (int (f_pos f)) SEEK_SET \<noteq> None)"

definition asdf_stream_from_fp ::
  "asdf_context \<Rightarrow> nat \<Rightarrow> cfile \<Rightarrow> bool \<Rightarrow> asdf_stream option \<times> asdf_context" where
  "asdf_stream_from_fp ctx bufsiz f writeable =
     (case ctx_alloc ctx of
        (False, ctx) \<Rightarrow> (None, ctx)
      | (True, ctx) \<Rightarrow> (case ctx_alloc ctx of
          (False, ctx) \<Rightarrow> (None, ctx)
        | (True, ctx) \<Rightarrow> (case ctx_alloc ctx of
            (False, ctx) \<Rightarrow> (None, ctx)
          | (True, ctx) \<Rightarrow>
              (Some \<lparr>s_ctx = asdf_context_retain ctx, is_seekable = file_is_seekable f,
                     is_writeable = writeable,
                     userdata = FileData \<lparr>fu_file = f, fu_should_close = False,
                       fu_buf = replicate bufsiz 0, fu_buf_size = bufsiz, fu_buf_avail = 0,
                       fu_buf_pos = 0, fu_file_pos = 0, fu_mmaps = None\<rparr>,
                     capture_buf = None, capture_cap = 0\<rparr>,
               asdf_context_retain ctx))))"

text \<open>\<^verbatim>\<open>file_fy_parser_set_input\<close>: the position libfyaml starts to read the file from.\<close>

definition file_fy_parser_set_input :: "file_userdata \<Rightarrow> (int \<times> file_userdata) option" where
  "file_fy_parser_set_input d =
     (if \<not> file_is_seekable (fu_file d) then None
      else if size_sub (fu_buf_avail d) (fu_buf_pos d) > ASDF_OFF_MAX then Some (-1, d)
      else case fseeko (fu_file d)
                  (off_of_size (fu_buf_pos d) - off_of_size (fu_buf_avail d)) SEEK_CUR of
             None \<Rightarrow> Some (0, d)
           | Some f \<Rightarrow> Some (0, d\<lparr>fu_file := f\<rparr>))"

subsection \<open>Memory maps of a file\<close>

definition ASDF_FILE_STREAM_INITIAL_MMAPS :: nat where
  "ASDF_FILE_STREAM_INITIAL_MMAPS = 256"

definition free_mmap :: file_mmap_info where
  "free_mmap = \<lparr>mm_addr = None, mm_size = 0, mm_offset = 0\<rparr>"

fun find_mmap :: "file_mmap_info list \<Rightarrow> nat option \<Rightarrow> nat option" where
  "find_mmap [] a = None"
| "find_mmap (m # ms) a = (if mm_addr m = a then Some 0 else map_option Suc (find_mmap ms a))"

text \<open>The allocation part of \<^verbatim>\<open>file_open_mem\<close>: the table and the index of a free entry.\<close>

definition mmap_slot ::
  "asdf_context \<Rightarrow> file_mmap_info list option \<Rightarrow>
     (file_mmap_info list \<times> nat) option \<times> file_mmap_info list option \<times> asdf_context" where
  "mmap_slot ctx mmaps =
     (let (ok, ctx, tab) =
        (case mmaps of
           Some ms \<Rightarrow> (True, ctx, Some ms)
         | None \<Rightarrow> (case ctx_alloc ctx of
             (False, ctx) \<Rightarrow> (False, asdf_context_error_oom ctx, None)
           | (True, ctx) \<Rightarrow>
               (True, ctx, Some (replicate ASDF_FILE_STREAM_INITIAL_MMAPS free_mmap))))
      in case (ok, tab) of
           (True, Some ms) \<Rightarrow>
             (case find_mmap ms None of
                Some i \<Rightarrow> (Some (ms, i), Some ms, ctx)
              | None \<Rightarrow>
                  if length ms \<noteq> 0 then
                    (case ctx_alloc ctx of
                       (False, ctx) \<Rightarrow> (None, Some ms, asdf_context_error_oom ctx)
                     | (True, ctx) \<Rightarrow>
                         (let ms' = ms @ replicate (length ms) free_mmap
                          in (Some (ms', length ms), Some ms', ctx)))
                  else (None, Some ms, asdf_context_error_oom ctx))
         | _ \<Rightarrow> (None, tab, ctx))"

text \<open>\<^verbatim>\<open>file_open_mem\<close>: the mapped bytes with their address and their number, or a null
  pointer. The system calls' outcomes come with the argument \<open>os\<close>.\<close>

definition file_open_mem ::
  "os_env \<Rightarrow> asdf_stream \<Rightarrow> file_userdata \<Rightarrow> int \<Rightarrow> nat
     \<Rightarrow> ((bytes \<times> nat) option \<times> asdf_stream \<times> file_userdata) option" where
  "file_open_mem os s d offset sz =
     (if \<not> is_seekable s then None
      else if \<not> fd_ok os \<or> \<not> fstat_ok os
      then Some (None, s\<lparr>s_ctx := asdf_context_error_system (s_ctx s) (os_errno os)\<rparr>, d)
      else
        let file_size = length (f_content (fu_file d)) in
        if size_of_off offset > file_size
        then Some (None, s\<lparr>s_ctx := asdf_context_error_system (s_ctx s) EINVAL\<rparr>, d)
        else case mmap_slot (s_ctx s) (fu_mmaps d) of
               (None, tab, ctx) \<Rightarrow> Some (None, s\<lparr>s_ctx := ctx\<rparr>, d\<lparr>fu_mmaps := tab\<rparr>)
             | (Some (ms, i), tab, ctx) \<Rightarrow>
                 let max_avail = size_sub file_size (size_of_off offset);
                     map_size = (if sz < max_avail then sz else max_avail);
                     offset_aligned = offset AND NOT (int (page_size os) - 1);
                     offset_delta = offset - offset_aligned;
                     map_size_aligned = size_add map_size (size_of_off offset_delta)
                 in case mmap_addr os of
                      None \<Rightarrow> Some (None, s\<lparr>s_ctx := asdf_context_error_system ctx (os_errno os)\<rparr>,
                                    d\<lparr>fu_mmaps := Some ms\<rparr>)
                    | Some a \<Rightarrow>
                        let addr = a + nat offset_delta in
                        Some (Some (take map_size (drop (nat offset) (f_content (fu_file d))), addr),
                              s\<lparr>s_ctx := ctx\<rparr>,
                              d\<lparr>fu_mmaps := Some (ms[i := \<lparr>mm_addr = Some addr,
                                                          mm_size = map_size_aligned,
                                                          mm_offset = offset\<rparr>])\<rparr>))"

text \<open>\<^verbatim>\<open>file_close_mem_impl\<close>: the region handed to \<^verbatim>\<open>munmap\<close>, the result and the cleared
  entry.\<close>

definition file_close_mem_impl ::
  "os_env \<Rightarrow> asdf_context \<Rightarrow> file_mmap_info
     \<Rightarrow> (int \<times> nat) \<times> int \<times> asdf_context \<times> file_mmap_info" where
  "file_close_mem_impl os ctx m =
     (let offset = mm_offset m;
          offset_aligned = offset AND NOT (int (page_size os) - 1);
          offset_delta = offset - offset_aligned;
          aligned_addr = int (case mm_addr m of None \<Rightarrow> 0 | Some a \<Rightarrow> a) - offset_delta
      in ((aligned_addr, mm_size m), if munmap_ok os then 0 else -1,
          if munmap_ok os then ctx else asdf_context_error_system ctx (os_errno os), free_mmap))"

definition file_close_mem ::
  "os_env \<Rightarrow> asdf_stream \<Rightarrow> file_userdata \<Rightarrow> nat option
     \<Rightarrow> (int \<times> nat) option \<times> int \<times> asdf_stream \<times> file_userdata" where
  "file_close_mem os s d addr =
     (let ms = (case fu_mmaps d of None \<Rightarrow> [] | Some ms \<Rightarrow> ms) in
      case find_mmap ms addr of
        None \<Rightarrow> (None, -1, s\<lparr>s_ctx := asdf_context_error_system (s_ctx s) EINVAL\<rparr>, d)
      | Some i \<Rightarrow>
          let (reg, ret, ctx, m) = file_close_mem_impl os (s_ctx s) (ms ! i)
          in (Some reg, ret, s\<lparr>s_ctx := ctx\<rparr>, d\<lparr>fu_mmaps := Some (ms[i := m])\<rparr>))"

section \<open>The memory backend\<close>

definition mem_next :: "mem_userdata \<Rightarrow> nat \<Rightarrow> bytes option" where
  "mem_next d count =
     (if mem_pos d \<ge> mem_size d then Some []
      else mem_read (mem_buf d) (mem_pos d) (mem_size d - mem_pos d))"

definition mem_consume ::
  "asdf_stream \<Rightarrow> mem_userdata \<Rightarrow> nat \<Rightarrow> (asdf_stream \<times> mem_userdata) option" where
  "mem_consume s d nbytes = do {
     s \<leftarrow> stream_capture s (mem_buf d) (mem_pos d) nbytes;
     Some (s, d\<lparr>mem_pos := size_add (mem_pos d) nbytes\<rparr>)
   }"

definition mem_readline ::
  "asdf_stream \<Rightarrow> mem_userdata \<Rightarrow> ((bytes \<times> nat) option \<times> asdf_stream \<times> mem_userdata) option" where
  "mem_readline s d =
     (let remaining = size_sub (mem_size d) (mem_pos d) in
      if remaining = 0 then Some (None, s, d)
      else do {
        buf \<leftarrow> mem_read (mem_buf d) (mem_pos d) remaining;
        let idx = (case newline_idx buf of Some i \<Rightarrow> i | None \<Rightarrow> remaining);
        (s, d) \<leftarrow> mem_consume s d (idx + 1);
        Some (Some (buf, idx + 1), s, d)
      })"

definition mem_scan ::
  "asdf_stream \<Rightarrow> mem_userdata \<Rightarrow> bytes list
     \<Rightarrow> ((nat \<times> nat) option \<times> asdf_stream \<times> mem_userdata) option" where
  "mem_scan s d tokens =
     (let avail = size_sub (mem_size d) (mem_pos d) in do {
        buf \<leftarrow> mem_read (mem_buf d) (mem_pos d) avail;
        (case asdf_scan_tokens buf tokens of
           Some (offset, token_idx) \<Rightarrow> do {
             (s', d') \<leftarrow> mem_consume s d offset;
             Some (Some (size_add offset (mem_pos d), token_idx), s', d')
           }
         | None \<Rightarrow> do {
             (s', d') \<leftarrow> mem_consume s d avail;
             Some (None, s', d')
           })
      })"

definition mem_seek :: "mem_userdata \<Rightarrow> int \<Rightarrow> whence \<Rightarrow> int \<times> mem_userdata" where
  "mem_seek d offset w =
     (let new_pos = (case w of SEEK_SET \<Rightarrow> size_of_off offset
                     | SEEK_CUR \<Rightarrow> size_add (mem_pos d) (size_of_off offset)
                     | SEEK_END \<Rightarrow> size_add (mem_size d) (size_of_off offset))
      in (0, d\<lparr>mem_pos := (if new_pos > mem_size d then mem_size d else new_pos)\<rparr>))"

definition mem_tell :: "mem_userdata \<Rightarrow> int" where
  "mem_tell d = off_of_size (mem_pos d)"

definition mem_write ::
  "asdf_stream \<Rightarrow> mem_userdata \<Rightarrow> bytes \<Rightarrow> (nat \<times> asdf_stream \<times> mem_userdata) option" where
  "mem_write s d bs =
     (let count = length bs;
          grow = (size_add (mem_pos d) count \<ge> mem_size d \<and> is_resizeable d);
          (ok, ctx) = (if grow then ctx_alloc (s_ctx s) else (True, s_ctx s))
      in if grow \<and> \<not> ok then Some (0, s\<lparr>s_ctx := asdf_context_error_oom ctx\<rparr>, d)
         else do {
           let d = (if grow
                    then (let b = mem_buf d @ replicate count 0; n = size_add (mem_size d) count
                          in d\<lparr>mem_buf := b, mem_size := n,
                               mem_out := map_option (\<lambda>_. (b, n)) (mem_out d)\<rparr>)
                    else d);
           let avail = size_sub (mem_size d) (mem_pos d);
           let to_copy = (if avail < count then avail else count);
           b \<leftarrow> mem_write_at (mem_buf d) (mem_pos d) (take to_copy bs);
           ctx \<leftarrow> (if to_copy < count then asdf_context_error_common ctx ASDF_ERR_UNEXPECTED_EOF []
                   else Some ctx);
           Some (to_copy, s\<lparr>s_ctx := ctx\<rparr>,
                 d\<lparr>mem_buf := b, mem_pos := size_add (mem_pos d) to_copy,
                   mem_out := map_option (\<lambda>(_, n). (b, n)) (mem_out d)\<rparr>)
         })"

text \<open>\<^verbatim>\<open>mem_open_mem\<close>: the window from the offset, clamped to the available size.\<close>

definition mem_open_mem :: "mem_userdata \<Rightarrow> int \<Rightarrow> nat \<Rightarrow> bytes option option" where
  "mem_open_mem d offset sz =
     (if size_of_off offset > mem_size d then Some None
      else if sz > SIZE_MAX - size_of_off offset then Some None
      else do {
        let remaining = mem_size d - size_of_off offset;
        w \<leftarrow> mem_read (mem_buf d) (size_of_off offset) (if sz \<le> remaining then sz else remaining);
        Some (Some w)
      })"

text \<open>\<^verbatim>\<open>mem_close_mem\<close> on an address given by its distance from the start of the buffer.\<close>

definition mem_close_mem ::
  "asdf_stream \<Rightarrow> mem_userdata \<Rightarrow> int \<Rightarrow> int \<times> asdf_stream" where
  "mem_close_mem s d rel =
     (if rel < 0 \<or> rel > int (mem_size d)
      then (-1, s\<lparr>s_ctx := asdf_context_error_system (s_ctx s) EINVAL\<rparr>)
      else (0, s))"

text \<open>The input \<^verbatim>\<open>mem_fy_parser_set_input\<close> hands to libfyaml: a start and a length.\<close>

definition mem_fy_parser_set_input :: "mem_userdata \<Rightarrow> nat \<times> nat" where
  "mem_fy_parser_set_input d = (mem_pos d, mem_size d)"

definition asdf_stream_from_memory ::
  "asdf_context \<Rightarrow> bytes \<Rightarrow> asdf_stream option \<times> asdf_context" where
  "asdf_stream_from_memory ctx buf =
     (case ctx_alloc ctx of
        (False, ctx) \<Rightarrow> (None, ctx)
      | (True, ctx) \<Rightarrow> (case ctx_alloc ctx of
          (False, ctx) \<Rightarrow> (None, ctx)
        | (True, ctx) \<Rightarrow>
            (Some \<lparr>s_ctx = asdf_context_retain ctx, is_seekable = True, is_writeable = True,
                   userdata = MemData \<lparr>mem_buf = buf, mem_size = length buf, mem_pos = 0,
                     is_resizeable = False, mem_out = None\<rparr>,
                   capture_buf = None, capture_cap = 0\<rparr>,
             asdf_context_retain ctx)))"

definition asdf_stream_from_malloc ::
  "asdf_context \<Rightarrow> bytes \<Rightarrow> asdf_stream option \<times> asdf_context" where
  "asdf_stream_from_malloc ctx buf =
     (case asdf_stream_from_memory ctx buf of
        (None, ctx) \<Rightarrow> (None, ctx)
      | (Some s, ctx) \<Rightarrow>
          (Some (s\<lparr>userdata := (case userdata s of
                     MemData d \<Rightarrow> MemData (d\<lparr>is_resizeable := True,
                                          mem_out := Some (mem_buf d, mem_size d)\<rparr>)
                   | u \<Rightarrow> u)\<rparr>), ctx))"

section \<open>The operations of a stream\<close>

definition asdf_stream_next :: "asdf_stream \<Rightarrow> nat \<Rightarrow> (bytes \<times> asdf_stream) option" where
  "asdf_stream_next s count =
     (case userdata s of
        FileData d \<Rightarrow> do {
          (w, s, d) \<leftarrow> file_next s d count;
          Some (w, s\<lparr>userdata := FileData d\<rparr>)
        }
      | MemData d \<Rightarrow> do { w \<leftarrow> mem_next d count; Some (w, s) })"

definition asdf_stream_consume :: "asdf_stream \<Rightarrow> nat \<Rightarrow> asdf_stream option" where
  "asdf_stream_consume s count =
     (case userdata s of
        FileData d \<Rightarrow> do { (s, d) \<leftarrow> file_consume s d count; Some (s\<lparr>userdata := FileData d\<rparr>) }
      | MemData d \<Rightarrow> do { (s, d) \<leftarrow> mem_consume s d count; Some (s\<lparr>userdata := MemData d\<rparr>) })"

definition asdf_stream_peek :: "asdf_stream \<Rightarrow> nat \<Rightarrow> (bytes \<times> asdf_stream) option" where
  "asdf_stream_peek s count = do {
     (w, s) \<leftarrow> asdf_stream_next s count;
     s \<leftarrow> asdf_stream_consume s 0;
     Some (w, s)
   }"

definition asdf_stream_readline ::
  "asdf_stream \<Rightarrow> ((bytes \<times> nat) option \<times> asdf_stream) option" where
  "asdf_stream_readline s =
     (case userdata s of
        FileData d \<Rightarrow> do { (l, s, d) \<leftarrow> file_readline s d; Some (l, s\<lparr>userdata := FileData d\<rparr>) }
      | MemData d \<Rightarrow> do { (l, s, d) \<leftarrow> mem_readline s d; Some (l, s\<lparr>userdata := MemData d\<rparr>) })"

definition asdf_stream_scan ::
  "asdf_stream \<Rightarrow> bytes list \<Rightarrow> ((nat \<times> nat) option \<times> asdf_stream) option" where
  "asdf_stream_scan s tokens =
     (case userdata s of
        FileData d \<Rightarrow> do { (r, s, d) \<leftarrow> file_scan s d tokens; Some (r, s\<lparr>userdata := FileData d\<rparr>) }
      | MemData d \<Rightarrow> do { (r, s, d) \<leftarrow> mem_scan s d tokens; Some (r, s\<lparr>userdata := MemData d\<rparr>) })"

definition asdf_stream_tell :: "asdf_stream \<Rightarrow> int" where
  "asdf_stream_tell s = (case userdata s of FileData d \<Rightarrow> file_tell d | MemData d \<Rightarrow> mem_tell d)"

definition asdf_stream_write :: "asdf_stream \<Rightarrow> bytes \<Rightarrow> (nat \<times> asdf_stream) option" where
  "asdf_stream_write s bs =
     (case userdata s of
        FileData d \<Rightarrow> do { (n, s, d) \<leftarrow> file_write s d bs; Some (n, s\<lparr>userdata := FileData d\<rparr>) }
      | MemData d \<Rightarrow> do { (n, s, d) \<leftarrow> mem_write s d bs; Some (n, s\<lparr>userdata := MemData d\<rparr>) })"

definition asdf_stream_flush :: "asdf_stream \<Rightarrow> (int \<times> asdf_stream) option" where
  "asdf_stream_flush s =
     (case userdata s of FileData d \<Rightarrow> file_flush s d | MemData d \<Rightarrow> Some (0, s))"

text \<open>The loop of \<^verbatim>\<open>asdf_stream_seek\<close> on a stream that cannot seek.\<close>

partial_function (option) stream_skip :: "asdf_stream \<Rightarrow> nat \<Rightarrow> (int \<times> asdf_stream) option" where
  "stream_skip s to_consume =
     (if to_consume = 0 then Some (0, s)
      else do {
        (w, s1) \<leftarrow> asdf_stream_next s 1;
        if error (s_ctx s1) \<noteq> None then Some (-1, s1)
        else if w = [] then Some (0, s1)
        else do {
          s2 \<leftarrow> asdf_stream_consume s1 (min (length w) to_consume);
          stream_skip s2 (to_consume - min (length w) to_consume)
        }
      })"

declare stream_skip.simps [code]

definition asdf_stream_seek :: "asdf_stream \<Rightarrow> int \<Rightarrow> whence \<Rightarrow> (int \<times> asdf_stream) option" where
  "asdf_stream_seek s offset w =
     (if \<not> is_seekable s \<and> offset < 0 \<and> w \<noteq> SEEK_CUR
      then Some (-1, s\<lparr>s_ctx := asdf_context_error_system (s_ctx s) EINVAL\<rparr>)
      else if is_seekable s then
        (case userdata s of
           FileData d \<Rightarrow> (let (r, d) = file_seek d offset w in Some (r, s\<lparr>userdata := FileData d\<rparr>))
         | MemData d \<Rightarrow> (let (r, d) = mem_seek d offset w in Some (r, s\<lparr>userdata := MemData d\<rparr>)))
      else if offset < 0 then None
      else stream_skip s (nat offset))"

text \<open>The bytes \<^verbatim>\<open>stream->open_mem\<close> gives access to; \<open>os\<close> is used by the file backend only.\<close>

definition asdf_stream_open_mem ::
  "os_env \<Rightarrow> asdf_stream \<Rightarrow> int \<Rightarrow> nat \<Rightarrow> (bytes option \<times> asdf_stream) option" where
  "asdf_stream_open_mem os s offset sz =
     (case userdata s of
        FileData d \<Rightarrow> do {
          (r, s, d) \<leftarrow> file_open_mem os s d offset sz;
          Some (map_option fst r, s\<lparr>userdata := FileData d\<rparr>)
        }
      | MemData d \<Rightarrow> do { r \<leftarrow> mem_open_mem d offset sz; Some (r, s) })"

end
