(* ===== verification/Asdf_Scan.thy ===== *)
theory Asdf_Scan
  imports Asdf_Stream
begin

text \<open>
  What \<^verbatim>\<open>asdf_scan_tokens\<close> computes: the leftmost position at which one of the tokens stands
  in the buffer, and the first such token there. The specification is stated with
  \<open>token_at\<close>, and the lemmas on windows of a buffer carry the proofs about the file
  backend's sliding window.
\<close>

definition token_at :: "bytes \<Rightarrow> nat \<Rightarrow> bytes \<Rightarrow> bool" where
  "token_at buf off t \<longleftrightarrow> off + length t \<le> length buf \<and> take (length t) (drop off buf) = t"

text \<open>The specification of a successful scan.\<close>

definition first_match :: "bytes \<Rightarrow> bytes list \<Rightarrow> nat \<Rightarrow> nat \<Rightarrow> bool" where
  "first_match buf ts off tdx \<longleftrightarrow>
     off < length buf \<and> tdx < length ts \<and> token_at buf off (ts ! tdx) \<and>
     (\<forall>i < tdx. \<not> token_at buf off (ts ! i)) \<and>
     (\<forall>o' < off. \<forall>t \<in> set ts. \<not> token_at buf o' t)"

lemma token_at_Suc [simp]: "token_at (b # bs) (Suc off) t \<longleftrightarrow> token_at bs off t"
  by (simp add: token_at_def)

lemma token_at_drop: "token_at (drop k buf) off t \<longleftrightarrow> token_at buf (k + off) t" if "k + off \<le> length buf"
  using that by (auto simp: token_at_def add.commute)

lemma token_at_take:
  "off + length t \<le> n \<Longrightarrow> token_at (take n buf) off t \<longleftrightarrow> token_at buf off t"
  by (auto simp: token_at_def drop_take min_def)

lemma token_at_takeD: "token_at (take n buf) off t \<Longrightarrow> token_at buf off t"
proof -
  assume h: "token_at (take n buf) off t"
  then have "off + length t \<le> n" by (simp add: token_at_def)
  with h show ?thesis by (simp add: token_at_take)
qed

lemma scan_token_at_Cons [simp]:
  "scan_token_at bs (t # ts) k =
     (if token_at bs 0 t then Some k else scan_token_at bs ts (Suc k))"
  by (simp add: token_at_def)

lemmas scan_token_at.simps(2) [simp del]

lemma scan_token_at_None:
  "scan_token_at bs ts k = None \<longleftrightarrow> (\<forall>t \<in> set ts. \<not> token_at bs 0 t)"
  by (induction ts arbitrary: k) auto

lemma scan_token_at_SomeD:
  "scan_token_at bs ts k = Some tdx \<Longrightarrow>
     k \<le> tdx \<and> tdx - k < length ts \<and> token_at bs 0 (ts ! (tdx - k)) \<and>
     (\<forall>i < tdx - k. \<not> token_at bs 0 (ts ! i))"
proof (induction ts arbitrary: k)
  case Nil
  then show ?case by simp
next
  case (Cons t ts)
  show ?case
  proof (cases "token_at bs 0 t")
    case True
    with Cons.prems show ?thesis by simp
  next
    case False
    with Cons have IH: "Suc k \<le> tdx" "tdx - Suc k < length ts"
        "token_at bs 0 (ts ! (tdx - Suc k))" "\<forall>i < tdx - Suc k. \<not> token_at bs 0 (ts ! i)"
      by fastforce+
    then have eq: "tdx - k = Suc (tdx - Suc k)" by simp
    show ?thesis
      unfolding eq using IH False by (auto simp: less_Suc_eq_0_disj)
  qed
qed

lemma scan_from_None:
  "scan_from bs ts k = None \<longleftrightarrow> (\<forall>off < length bs. \<forall>t \<in> set ts. \<not> token_at bs off t)"
proof (induction bs arbitrary: k)
  case Nil
  then show ?case by simp
next
  case (Cons b bs)
  have split: "(\<forall>off < length (b # bs). \<forall>t \<in> set ts. \<not> token_at (b # bs) off t) \<longleftrightarrow>
      (\<forall>t \<in> set ts. \<not> token_at (b # bs) 0 t) \<and>
      (\<forall>off < length bs. \<forall>t \<in> set ts. \<not> token_at bs off t)"
    by (simp only: length_Cons All_less_Suc2 token_at_Suc)
  show ?case
  proof (cases "scan_token_at (b # bs) ts 0")
    case None
    then have "\<forall>t \<in> set ts. \<not> token_at (b # bs) 0 t"
      by (simp only: scan_token_at_None)
    with None Cons.IH [of "Suc k"] split show ?thesis by simp
  next
    case (Some tdx)
    then have "\<not> (\<forall>t \<in> set ts. \<not> token_at (b # bs) 0 t)"
      by (metis option.distinct(1) scan_token_at_None)
    with Some split show ?thesis by simp
  qed
qed

lemma scan_from_Some:
  "scan_from bs ts k = Some (off, tdx) \<longleftrightarrow> k \<le> off \<and> first_match bs ts (off - k) tdx"
proof (induction bs arbitrary: k)
  case Nil
  then show ?case by (simp add: first_match_def)
next
  case (Cons b bs)
  show ?case
  proof (cases "scan_token_at (b # bs) ts 0")
    case None
    then have no0: "\<forall>t \<in> set ts. \<not> token_at (b # bs) 0 t"
      by (simp add: scan_token_at_None)
    have step: "first_match (b # bs) ts (Suc o') tdx \<longleftrightarrow> first_match bs ts o' tdx" for o'
      using no0 by (auto simp: first_match_def All_less_Suc2)
    have zero: "\<not> first_match (b # bs) ts 0 tdx"
      using no0 by (auto simp: first_match_def)
    show ?thesis
    proof (cases "off - k")
      case 0
      with None zero Cons [of "Suc k"] show ?thesis by auto
    next
      case (Suc o')
      then have "off - Suc k = o'" "Suc k \<le> off" by simp_all
      with None Suc step Cons [of "Suc k"] show ?thesis by simp
    qed
  next
    case (Some t0)
    have m0: "t0 < length ts" "token_at (b # bs) 0 (ts ! t0)"
        "\<forall>i < t0. \<not> token_at (b # bs) 0 (ts ! i)"
      using scan_token_at_SomeD [OF Some] by simp_all
    have "first_match (b # bs) ts o' tdx \<longleftrightarrow> o' = 0 \<and> tdx = t0" for o'
    proof
      assume fm: "first_match (b # bs) ts o' tdx"
      have early: "\<forall>p < o'. \<forall>t \<in> set ts. \<not> token_at (b # bs) p t"
        and tok: "token_at (b # bs) o' (ts ! tdx)"
        and least: "\<forall>i < tdx. \<not> token_at (b # bs) o' (ts ! i)"
        using fm by (auto simp: first_match_def)
      have "o' = 0"
        using early m0(1,2) nth_mem [OF m0(1)] by (cases o') auto
      moreover have "tdx = t0"
        using tok least m0(2,3) \<open>o' = 0\<close> by (cases tdx t0 rule: linorder_cases) auto
      ultimately show "o' = 0 \<and> tdx = t0" by simp
    next
      assume "o' = 0 \<and> tdx = t0"
      with m0 show "first_match (b # bs) ts o' tdx"
        by (auto simp: first_match_def)
    qed
    with Some show ?thesis by (cases "off = k") auto
  qed
qed

lemma asdf_scan_tokens_Some_iff:
  "asdf_scan_tokens buf ts = Some (off, tdx) \<longleftrightarrow> first_match buf ts off tdx"
  by (auto simp: asdf_scan_tokens_def scan_from_Some first_match_def)

lemma asdf_scan_tokens_None_iff:
  "asdf_scan_tokens buf ts = None \<longleftrightarrow> (\<forall>off < length buf. \<forall>t \<in> set ts. \<not> token_at buf off t)"
  by (auto simp: asdf_scan_tokens_def scan_from_None)

section \<open>Properties\<close>

text \<open>C21. Scanning a buffer for tokens finds the leftmost position where one of them stands, and of
  the tokens that stand there the first in the list; it reports nothing exactly when no token stands
  anywhere in the buffer.\<close>

theorem scan_tokens_correct:
  "(asdf_scan_tokens buf ts = Some (off, i) \<longleftrightarrow> first_match buf ts off i) \<and>
   (asdf_scan_tokens buf ts = None \<longleftrightarrow> \<not> (\<exists>off t. off < length buf \<and> t \<in> set ts \<and> token_at buf off t))"
  by (auto simp: asdf_scan_tokens_Some_iff asdf_scan_tokens_None_iff)

end
