(* ===== verification/Asdf_Stream_Laws.thy ===== *)
theory Asdf_Stream_Laws
  imports Asdf_Scan
begin

text \<open>
  The contract of a stream as its clients use it, as a locale over an invariant, the bytes
  still to be read, the position and the length of the current window. Both backends
  satisfy it, so what is proved in the locale about the block reader and the parser holds
  for either.
\<close>

section \<open>Capture\<close>

text \<open>Appending to a capture target, where there is one.\<close>

definition cap_append :: "bytes option option \<Rightarrow> bytes \<Rightarrow> bytes option option" where
  "cap_append b bs = map_option (map_option (\<lambda>c. c @ bs)) b"

lemma cap_append_Nil [simp]: "cap_append b [] = b"
  by (cases b; cases "the b") (auto simp: cap_append_def)

lemma cap_append_simps [simp]:
  "cap_append None bs = None" "cap_append (Some None) bs = Some None"
  "cap_append (Some (Some c)) bs = Some (Some (c @ bs))"
  by (simp_all add: cap_append_def)

lemma cap_append_append: "cap_append (cap_append b xs) ys = cap_append b (xs @ ys)"
  by (cases b; cases "the b") auto

lemma ctx_alloc_ok: "ctx_heap ctx = [] \<Longrightarrow> ctx_alloc ctx = (True, ctx)"
  by (simp add: ctx_alloc_def)

lemma grow_cap_returns:
  assumes "0 < cap" and "needed \<le> 2 ^ 62"
  shows "\<exists>c. grow_cap cap needed = Some c \<and> needed \<le> c \<and> cap \<le> c"
  using assms
proof (induction "needed - cap" arbitrary: cap rule: less_induct)
  case less
  show ?case
  proof (cases "cap < needed")
    case False
    then show ?thesis by (simp add: grow_cap.simps [of cap needed])
  next
    case True
    with less.prems have small: "cap * 2 < size_mod" by (simp add: size_mod_def)
    have "needed - cap * 2 < needed - cap" using True less.prems by simp
    then obtain c where "grow_cap (cap * 2) needed = Some c" "needed \<le> c" "cap * 2 \<le> c"
      using less.hyps [of "cap * 2"] less.prems by auto
    with True small show ?thesis by (auto simp: grow_cap.simps [of cap needed])
  qed
qed

text \<open>Room for \<^term>\<open>n\<close> more captured bytes.\<close>

definition cap_room :: "bytes option option \<Rightarrow> nat \<Rightarrow> nat \<Rightarrow> bool" where
  "cap_room b cap n =
     (case b of Some (Some c) \<Rightarrow> 0 < cap \<and> length c + n \<le> 2 ^ 62 | _ \<Rightarrow> True)"

abbreviation capture_room :: "asdf_stream \<Rightarrow> nat \<Rightarrow> bool" where
  "capture_room s n \<equiv> cap_room (capture_buf s) (capture_cap s) n"

lemma cap_room_mono: "cap_room b cap n \<Longrightarrow> m \<le> n \<Longrightarrow> cap_room b cap m"
  by (auto simp: cap_room_def split: option.splits)

lemma cap_room_append:
  "cap_room b cap n \<Longrightarrow> length bs \<le> n \<Longrightarrow> cap \<le> cap' \<Longrightarrow> m \<le> n - length bs \<Longrightarrow>
     cap_room (cap_append b bs) cap' m"
  by (auto simp: cap_room_def cap_append_def split: option.splits)

lemma stream_capture_ok:
  assumes "capture_room s n" and "ctx_heap (s_ctx s) = []" and "off + n \<le> length buf"
  shows "\<exists>c. stream_capture s buf off n =
           Some (s\<lparr>capture_buf := cap_append (capture_buf s) (take n (drop off buf)),
                   capture_cap := c\<rparr>) \<and> capture_cap s \<le> c"
proof (cases "\<exists>cap. capture_buf s = Some (Some cap) \<and> n \<noteq> 0")
  case False
  then have "stream_capture s buf off n = Some s"
    by (auto simp: stream_capture_def split: option.splits)
  moreover have "cap_append (capture_buf s) (take n (drop off buf)) = capture_buf s"
    using False by (cases "capture_buf s"; cases "the (capture_buf s)"; cases "n = 0") auto
  ultimately show ?thesis
    by (intro exI [of _ "capture_cap s"]) simp
next
  case True
  then obtain cap where cap: "capture_buf s = Some (Some cap)" and n: "n \<noteq> 0" by blast
  have room: "0 < capture_cap s" "length cap + n \<le> 2 ^ 62"
    using assms(1) cap by (simp_all add: cap_room_def)
  have add: "size_add (length cap) n = length cap + n"
    using room by (simp add: size_add_small size_mod_def)
  have rd: "mem_read buf off n = Some (take n (drop off buf))"
    using assms(3) by (rule mem_read_SomeI)
  show ?thesis
  proof (cases "length cap + n > capture_cap s")
    case True
    obtain c where c: "grow_cap (capture_cap s) (length cap + n) = Some c" "capture_cap s \<le> c"
      using grow_cap_returns [OF room] by blast
    from True c show ?thesis
      by (intro exI [of _ c])
         (simp add: stream_capture_def cap n add rd ctx_alloc_ok [OF assms(2)])
  next
    case False
    then show ?thesis
      by (intro exI [of _ "capture_cap s"]) (simp add: stream_capture_def cap n add rd)
  qed
qed

section \<open>The contract\<close>

text \<open>What reading leaves alone.\<close>

definition same_frame :: "asdf_stream \<Rightarrow> asdf_stream \<Rightarrow> bool" where
  "same_frame s s' \<longleftrightarrow> s_ctx s' = s_ctx s \<and> is_seekable s' = is_seekable s \<and>
     is_writeable s' = is_writeable s"

lemma same_frame_refl [simp]: "same_frame s s"
  by (simp add: same_frame_def)

lemma same_frame_trans: "same_frame a b \<Longrightarrow> same_frame b c \<Longrightarrow> same_frame a c"
  by (simp add: same_frame_def)

lemma same_frame_ctx: "same_frame s s' \<Longrightarrow> s_ctx s' = s_ctx s"
  by (simp add: same_frame_def)

locale byte_stream =
  fixes inv :: "asdf_stream \<Rightarrow> bool"
    and rest :: "asdf_stream \<Rightarrow> bytes"
    and pos :: "asdf_stream \<Rightarrow> nat"
    and win :: "asdf_stream \<Rightarrow> nat"
  assumes next_law:
      "inv s \<Longrightarrow> 0 < n \<Longrightarrow> n \<le> 2 ^ 62 \<Longrightarrow>
       \<exists>w s'. asdf_stream_next s n = Some (w, s') \<and> w = take (length w) (rest s) \<and>
         min n (length (rest s)) \<le> length w \<and> inv s' \<and> rest s' = rest s \<and> pos s' = pos s \<and>
         win s' = length w \<and> same_frame s s' \<and> capture_buf s' = capture_buf s"
    and consume_law:
      "inv s \<Longrightarrow> n \<le> win s \<Longrightarrow>
       \<exists>s'. asdf_stream_consume s n = Some s' \<and> inv s' \<and> rest s' = drop n (rest s) \<and>
         pos s' = pos s + n \<and> win s' = win s - n \<and> same_frame s s' \<and>
         capture_buf s' = cap_append (capture_buf s) (take n (rest s))"
    and tell_law: "inv s \<Longrightarrow> asdf_stream_tell s = int (pos s)"
    and win_le: "inv s \<Longrightarrow> win s \<le> length (rest s)"
    and pos_bound: "inv s \<Longrightarrow> pos s + length (rest s) \<le> 2 ^ 62"
    and heap_ok: "inv s \<Longrightarrow> ctx_heap (s_ctx s) = []"
begin

text \<open>Peeking sees at least as many bytes as asked for, if there are so many, and moves
  nothing.\<close>

lemma peek_law:
  assumes "inv s" and "0 < n" and "n \<le> 2 ^ 62"
  shows "\<exists>w s'. asdf_stream_peek s n = Some (w, s') \<and> w = take (length w) (rest s) \<and>
         min n (length (rest s)) \<le> length w \<and> inv s' \<and> rest s' = rest s \<and> pos s' = pos s \<and>
         win s' = length w \<and> same_frame s s' \<and> capture_buf s' = capture_buf s"
proof -
  from next_law [OF assms] obtain w s1 where n: "asdf_stream_next s n = Some (w, s1)"
      "w = take (length w) (rest s)" "min n (length (rest s)) \<le> length w" "inv s1"
      "rest s1 = rest s" "pos s1 = pos s" "win s1 = length w" "same_frame s s1"
      "capture_buf s1 = capture_buf s"
    by blast
  from consume_law [OF n(4), of 0] obtain s2 where "asdf_stream_consume s1 0 = Some s2"
      "inv s2" "rest s2 = rest s" "pos s2 = pos s" "win s2 = length w" "same_frame s1 s2"
      "capture_buf s2 = capture_buf s"
    using n(5-7,9) by auto
  with n same_frame_trans [OF n(8)] show ?thesis
    by (auto simp: asdf_stream_peek_def)
qed

text \<open>Reading an exact number of bytes that are there.\<close>

lemma next_exact:
  assumes "inv s" and "0 < n" and "n \<le> length (rest s)"
  shows "\<exists>w s'. asdf_stream_next s n = Some (w, s') \<and> n \<le> length w \<and>
         take n w = take n (rest s) \<and> inv s' \<and> rest s' = rest s \<and> pos s' = pos s \<and>
         n \<le> win s' \<and> same_frame s s' \<and> capture_buf s' = capture_buf s"
proof -
  have "n \<le> 2 ^ 62" using pos_bound [OF assms(1)] assms(3) by linarith
  from next_law [OF assms(1,2) this] obtain w s' where n: "asdf_stream_next s n = Some (w, s')"
      "w = take (length w) (rest s)" "min n (length (rest s)) \<le> length w" "inv s'"
      "rest s' = rest s" "pos s' = pos s" "win s' = length w" "same_frame s s'"
      "capture_buf s' = capture_buf s"
    by blast
  from n(3) assms(3) have len: "n \<le> length w" by simp
  have "take n w = take n (take (length w) (rest s))" using n(2) by simp
  also have "\<dots> = take n (rest s)" using len by (simp add: min_def)
  finally show ?thesis using n len by auto
qed

end

section \<open>The memory backend satisfies it\<close>

definition mem_rest :: "asdf_stream \<Rightarrow> bytes" where
  "mem_rest s = (case userdata s of MemData d \<Rightarrow> drop (mem_pos d) (mem_buf d) | _ \<Rightarrow> [])"

definition mem_at :: "asdf_stream \<Rightarrow> nat" where
  "mem_at s = (case userdata s of MemData d \<Rightarrow> mem_pos d | _ \<Rightarrow> 0)"

definition mem_inv :: "asdf_stream \<Rightarrow> bool" where
  "mem_inv s =
     (case userdata s of
        MemData d \<Rightarrow> mem_size d = length (mem_buf d) \<and> mem_pos d \<le> mem_size d \<and>
          mem_size d \<le> 2 ^ 62 \<and> ctx_heap (s_ctx s) = [] \<and> capture_room s (length (mem_rest s))
      | _ \<Rightarrow> False)"

abbreviation mem_win :: "asdf_stream \<Rightarrow> nat" where
  "mem_win s \<equiv> length (mem_rest s)"

lemma mem_next_law:
  assumes "mem_inv s"
  shows "asdf_stream_next s n = Some (mem_rest s, s)"
  using assms
  by (auto simp: mem_inv_def mem_rest_def asdf_stream_next_def mem_next_def mem_read_def
      split: asdf_userdata.splits)

lemma mem_consume_law:
  assumes "mem_inv s" and "n \<le> length (mem_rest s)"
  shows "\<exists>s'. asdf_stream_consume s n = Some s' \<and> mem_inv s' \<and> mem_rest s' = drop n (mem_rest s) \<and>
         mem_at s' = mem_at s + n \<and> same_frame s s' \<and>
         capture_buf s' = cap_append (capture_buf s) (take n (mem_rest s))"
proof -
  obtain d where d: "userdata s = MemData d" "mem_size d = length (mem_buf d)"
      "mem_pos d \<le> mem_size d" "mem_size d \<le> 2 ^ 62" "ctx_heap (s_ctx s) = []"
      "capture_room s (length (mem_buf d) - mem_pos d)"
    using assms(1) by (auto simp: mem_inv_def mem_rest_def split: asdf_userdata.splits)
  have n: "mem_pos d + n \<le> length (mem_buf d)" using assms(2) d by (simp add: mem_rest_def)
  have room: "capture_room s n"
    using d(6) n by (auto simp: cap_room_def split: option.splits)
  obtain c where c: "stream_capture s (mem_buf d) (mem_pos d) n =
      Some (s\<lparr>capture_buf := cap_append (capture_buf s) (take n (drop (mem_pos d) (mem_buf d))),
              capture_cap := c\<rparr>)" "capture_cap s \<le> c"
    using stream_capture_ok [OF room d(5) n] by blast
  have add: "size_add (mem_pos d) n = mem_pos d + n"
    using n d by (simp add: size_add_small size_mod_def)
  let ?s' = "s\<lparr>userdata := MemData (d\<lparr>mem_pos := mem_pos d + n\<rparr>),
      capture_buf := cap_append (capture_buf s) (take n (drop (mem_pos d) (mem_buf d))),
      capture_cap := c\<rparr>"
  have "asdf_stream_consume s n = Some ?s'"
    by (simp add: asdf_stream_consume_def d(1) mem_consume_def c(1) add)
  moreover have "capture_room ?s' (length (mem_buf d) - (mem_pos d + n))"
    using d(6) n c(2) by (auto simp: cap_room_def cap_append_def split: option.splits)
  then have "mem_inv ?s'"
    using d n by (simp add: mem_inv_def mem_rest_def)
  ultimately show ?thesis
    by (intro exI [of _ ?s']) (simp add: d(1) mem_rest_def mem_at_def same_frame_def add.commute)
qed

interpretation memory: byte_stream mem_inv mem_rest mem_at mem_win
proof unfold_locales
  fix s n assume "mem_inv s"
  then show "\<exists>w s'. asdf_stream_next s n = Some (w, s') \<and> w = take (length w) (mem_rest s) \<and>
         min n (length (mem_rest s)) \<le> length w \<and> mem_inv s' \<and> mem_rest s' = mem_rest s \<and>
         mem_at s' = mem_at s \<and> mem_win s' = length w \<and> same_frame s s' \<and>
         capture_buf s' = capture_buf s"
    by (simp add: mem_next_law)
next
  fix s n assume "mem_inv s" "n \<le> mem_win s"
  from mem_consume_law [OF this]
  show "\<exists>s'. asdf_stream_consume s n = Some s' \<and> mem_inv s' \<and> mem_rest s' = drop n (mem_rest s) \<and>
         mem_at s' = mem_at s + n \<and> mem_win s' = mem_win s - n \<and> same_frame s s' \<and>
         capture_buf s' = cap_append (capture_buf s) (take n (mem_rest s))"
    by auto
next
  fix s assume "mem_inv s"
  then show "asdf_stream_tell s = int (mem_at s)" "mem_at s + length (mem_rest s) \<le> 2 ^ 62"
    "ctx_heap (s_ctx s) = []"
    by (auto simp: asdf_stream_tell_def mem_tell_def mem_at_def mem_inv_def mem_rest_def
        off_of_size_small split: asdf_userdata.splits)
qed simp_all

section \<open>The file backend satisfies it\<close>

definition fu_window :: "file_userdata \<Rightarrow> bytes" where
  "fu_window d = drop (fu_buf_pos d) (take (fu_buf_avail d) (fu_buf d))"

definition fu_rest :: "file_userdata \<Rightarrow> bytes" where
  "fu_rest d = fu_window d @ drop (f_pos (fu_file d)) (f_content (fu_file d))"

text \<open>The buffer holds what lies between the consumed position and the position of the
  \<^verbatim>\<open>FILE\<close>.\<close>

definition fu_ok :: "file_userdata \<Rightarrow> bool" where
  "fu_ok d \<longleftrightarrow>
     length (fu_buf d) = fu_buf_size d \<and> fu_buf_size d \<le> 2 ^ 62 \<and>
     fu_buf_pos d \<le> fu_buf_avail d \<and> fu_buf_avail d \<le> fu_buf_size d \<and>
     f_pos (fu_file d) \<le> length (f_content (fu_file d)) \<and>
     length (f_content (fu_file d)) \<le> 2 ^ 62 \<and>
     fu_file_pos d + (fu_buf_avail d - fu_buf_pos d) = f_pos (fu_file d) \<and>
     fu_rest d = drop (fu_file_pos d) (f_content (fu_file d))"

definition file_rest :: "asdf_stream \<Rightarrow> bytes" where
  "file_rest s = (case userdata s of FileData d \<Rightarrow> fu_rest d | _ \<Rightarrow> [])"

definition file_at :: "asdf_stream \<Rightarrow> nat" where
  "file_at s = (case userdata s of FileData d \<Rightarrow> fu_file_pos d | _ \<Rightarrow> 0)"

definition file_win :: "asdf_stream \<Rightarrow> nat" where
  "file_win s = (case userdata s of FileData d \<Rightarrow> fu_buf_avail d - fu_buf_pos d | _ \<Rightarrow> 0)"

definition file_inv :: "asdf_stream \<Rightarrow> bool" where
  "file_inv s =
     (case userdata s of
        FileData d \<Rightarrow> fu_ok d \<and> ctx_heap (s_ctx s) = [] \<and> capture_room s (length (fu_rest d))
      | _ \<Rightarrow> False)"

lemma fu_okD:
  assumes "fu_ok d"
  shows "length (fu_buf d) = fu_buf_size d" "fu_buf_size d \<le> 2 ^ 62"
    "fu_buf_pos d \<le> fu_buf_avail d" "fu_buf_avail d \<le> fu_buf_size d"
    "f_pos (fu_file d) \<le> length (f_content (fu_file d))"
    "length (f_content (fu_file d)) \<le> 2 ^ 62"
    "fu_file_pos d + (fu_buf_avail d - fu_buf_pos d) = f_pos (fu_file d)"
    "fu_rest d = drop (fu_file_pos d) (f_content (fu_file d))"
  using assms by (auto simp: fu_ok_def)

lemma mem_write_at_start:
  "length w \<le> length buf \<Longrightarrow> mem_write_at buf 0 w = Some (w @ drop (length w) buf)"
  by (simp add: mem_write_at_def)

lemma mem_write_at_append:
  "length bs \<le> length r \<Longrightarrow> mem_write_at (w @ r) (length w) bs = Some (w @ bs @ drop (length bs) r)"
  by (simp add: mem_write_at_def)

lemma length_fu_window: "fu_ok d \<Longrightarrow> length (fu_window d) = fu_buf_avail d - fu_buf_pos d"
  by (simp add: fu_window_def fu_ok_def)

lemma fu_window_read:
  "fu_ok d \<Longrightarrow> mem_read (fu_buf d) (fu_buf_pos d) (fu_buf_avail d - fu_buf_pos d) = Some (fu_window d)"
  by (simp add: fu_ok_def mem_read_def fu_window_def drop_take)

lemma fu_remain: "fu_ok d \<Longrightarrow> size_sub (fu_buf_avail d) (fu_buf_pos d) = length (fu_window d)"
  by (subst size_sub_small) (auto simp: fu_ok_def size_mod_def length_fu_window)

lemma file_next_fill_ok:
  assumes d: "fu_ok d" and c: "0 < count" "count \<le> fu_buf_size d"
  shows "\<exists>d'. file_next_fill s d count (length (fu_window d)) = Some (fu_window d', s, d') \<and>
         fu_ok d' \<and> fu_rest d' = fu_rest d \<and> fu_file_pos d' = fu_file_pos d \<and>
         min count (length (fu_rest d)) \<le> length (fu_window d')"
proof (cases "length (fu_window d) < count")
  case False
  with d c have "\<not> fu_buf_avail d \<le> fu_buf_pos d" by (simp add: length_fu_window)
  with False show ?thesis
    using fu_window_read [OF d] fu_remain [OF d] d length_fu_window [OF d]
    by (intro exI [of _ d]) (simp add: file_next_fill_def)
next
  case True
  define w where "w = fu_window d"
  define bs where
    "bs = take (fu_buf_size d - length w) (drop (f_pos (fu_file d)) (f_content (fu_file d)))"
  define d' where "d' = d\<lparr>fu_file := (fu_file d)\<lparr>f_pos := f_pos (fu_file d) + length bs\<rparr>,
      fu_buf := w @ bs @ drop (length bs) (drop (length w) (fu_buf d)),
      fu_buf_avail := length w + length bs, fu_buf_pos := 0\<rparr>"
  note ok = fu_okD [OF d]
  have wl: "length w = fu_buf_avail d - fu_buf_pos d"
    unfolding w_def by (rule length_fu_window [OF d])
  have wlen: "length w \<le> length (fu_buf d)" using ok wl by linarith
  have bslen: "length bs \<le> length (drop (length w) (fu_buf d))" using ok by (simp add: bs_def)
  have bsl2: "f_pos (fu_file d) + length bs \<le> length (f_content (fu_file d))"
    using ok by (simp add: bs_def)
  have sub: "size_sub (fu_buf_size d) (length w) = fu_buf_size d - length w"
    by (subst size_sub_small) (use ok wlen in \<open>auto simp: size_mod_def\<close>)
  have tot: "length w + length bs \<le> fu_buf_size d" using bslen wlen ok(1) by simp
  then have add: "size_add (length w) (length bs) = length w + length bs"
    "size_sub (length w + length bs) 0 = length w + length bs"
    using ok(2) by (simp_all add: size_add_small size_sub_small size_mod_def)
  have win': "fu_window d' = w @ bs" by (simp add: fu_window_def d'_def)
  have "bs @ drop (f_pos (fu_file d) + length bs) (f_content (fu_file d)) =
      drop (f_pos (fu_file d)) (f_content (fu_file d))"
    by (rule take_drop_append_drop [OF bs_def])
  then have rest': "fu_rest d' = fu_rest d"
    unfolding fu_rest_def win' by (simp add: d'_def w_def)
  have rd: "mem_read (fu_buf d) (fu_buf_pos d) (length w) = Some w"
    using fu_window_read [OF d] wl by (simp add: w_def)
  have rd': "mem_read (w @ bs @ r) 0 (length w + length bs) = Some (w @ bs)" for r
    by (simp add: mem_read_def)
  have lt: "length w < count" using True by (simp add: w_def)
  have fr: "fread (fu_file d) (fu_buf_size d - length w) =
      (bs, (fu_file d)\<lparr>f_pos := f_pos (fu_file d) + length bs\<rparr>)"
    by (simp add: fread_def bs_def Let_def)
  have "file_next_fill s d count (length w) = Some (w @ bs, s, d')"
    by (simp add: file_next_fill_def rd rd' lt fr sub add mem_write_at_start [OF wlen]
        mem_write_at_append [OF bslen] d'_def del: drop_drop)
  moreover have "fu_ok d'"
    unfolding fu_ok_def rest' using ok wl tot bsl2 by (simp add: d'_def)
  moreover have "min count (length (fu_rest d)) \<le> length (w @ bs)"
    using c by (auto simp: fu_rest_def min_def w_def bs_def)
  ultimately show ?thesis using rest' unfolding w_def
    by (intro exI [of _ d']) (simp add: win' w_def, simp add: d'_def)
qed

lemma file_next_law:
  assumes inv: "file_inv s" and n: "0 < n" "n \<le> 2 ^ 62"
  shows "\<exists>w s'. asdf_stream_next s n = Some (w, s') \<and> w = take (length w) (file_rest s) \<and>
         min n (length (file_rest s)) \<le> length w \<and> file_inv s' \<and> file_rest s' = file_rest s \<and>
         file_at s' = file_at s \<and> file_win s' = length w \<and> same_frame s s' \<and>
         capture_buf s' = capture_buf s"
proof -
  obtain d where d: "userdata s = FileData d" "fu_ok d" "ctx_heap (s_ctx s) = []"
      "capture_room s (length (fu_rest d))"
    using inv by (auto simp: file_inv_def split: asdf_userdata.splits)
  define d1 where "d1 = (if n > fu_buf_size d
      then d\<lparr>fu_buf := fu_buf d @ replicate (n - fu_buf_size d) 0, fu_buf_size := n\<rparr> else d)"
  note ok = fu_okD [OF d(2)]
  have w1: "fu_window d1 = fu_window d" using ok by (simp add: d1_def fu_window_def)
  then have r1: "fu_rest d1 = fu_rest d" by (simp add: fu_rest_def d1_def)
  have ok1: "fu_ok d1" unfolding fu_ok_def r1 using ok n by (simp add: d1_def)
  have "n \<le> fu_buf_size d1" by (simp add: d1_def)
  from file_next_fill_ok [OF ok1 n(1) this, of s] obtain d' where
      fill: "file_next_fill s d1 n (length (fu_window d1)) = Some (fu_window d', s, d')"
      "fu_ok d'" "fu_rest d' = fu_rest d1" "fu_file_pos d' = fu_file_pos d1"
      "min n (length (fu_rest d1)) \<le> length (fu_window d')"
    by blast
  have "file_next s d n = Some (fu_window d', s, d')"
    using fill(1) ctx_alloc_ok [OF d(3)] fu_remain [OF d(2)] w1
    by (cases "n > fu_buf_size d") (simp_all add: file_next_def d1_def Let_def)
  then have "asdf_stream_next s n = Some (fu_window d', s\<lparr>userdata := FileData d'\<rparr>)"
    by (simp add: asdf_stream_next_def d(1))
  moreover have "fu_window d' = take (length (fu_window d')) (fu_rest d)"
    using fill(3) r1 unfolding fu_rest_def [of d'] by (metis append_eq_conv_conj)
  ultimately show ?thesis
    using fill d(3,4) r1 length_fu_window [OF fill(2)]
    by (auto simp: file_inv_def file_rest_def file_at_def file_win_def d(1) same_frame_def
        cap_room_def d1_def split: option.splits)
qed

lemma fu_window_consume:
  "fu_ok d \<Longrightarrow> n \<le> length (fu_window d) \<Longrightarrow>
     fu_window (d\<lparr>fu_buf_pos := fu_buf_pos d + n, fu_file_pos := p\<rparr>) = drop n (fu_window d)"
  by (simp add: fu_window_def add.commute)

lemma file_consume_ok:
  assumes d: "fu_ok d" and n: "n \<le> length (fu_window d)"
    and room: "capture_room s (length (fu_rest d))" and heap: "ctx_heap (s_ctx s) = []"
  shows "\<exists>c d'. file_consume s d n =
      Some (s\<lparr>capture_buf := cap_append (capture_buf s) (take n (fu_rest d)), capture_cap := c\<rparr>, d') \<and>
      capture_cap s \<le> c \<and> fu_ok d' \<and> fu_rest d' = drop n (fu_rest d) \<and>
      fu_file_pos d' = fu_file_pos d + n \<and> fu_window d' = drop n (fu_window d)"
proof -
  note ok = fu_okD [OF d]
  have wl: "length (fu_window d) = fu_buf_avail d - fu_buf_pos d" by (rule length_fu_window [OF d])
  have le: "fu_buf_pos d + n \<le> fu_buf_avail d" using n wl ok by linarith
  have "length (fu_window d) \<le> length (fu_rest d)" by (simp add: fu_rest_def)
  with n room have "capture_room s n" by (auto simp: cap_room_def split: option.splits)
  moreover have "fu_buf_pos d + n \<le> length (fu_buf d)" using le ok by linarith
  moreover have "take n (drop (fu_buf_pos d) (fu_buf d)) = take n (fu_rest d)"
    using le n by (simp add: fu_rest_def fu_window_def drop_take min_def)
  ultimately obtain c where cap: "stream_capture s (fu_buf d) (fu_buf_pos d) n =
      Some (s\<lparr>capture_buf := cap_append (capture_buf s) (take n (fu_rest d)), capture_cap := c\<rparr>)"
      "capture_cap s \<le> c"
    using stream_capture_ok [OF _ heap] by metis
  have add: "size_add (fu_buf_pos d) n = fu_buf_pos d + n"
      "size_add (fu_file_pos d) n = fu_file_pos d + n"
    using le ok by (simp_all add: size_add_small size_mod_def)
  let ?d' = "d\<lparr>fu_buf_pos := fu_buf_pos d + n, fu_file_pos := fu_file_pos d + n\<rparr>"
  have "file_consume s d n = Some (s\<lparr>capture_buf := cap_append (capture_buf s) (take n (fu_rest d)),
      capture_cap := c\<rparr>, ?d')"
    using le by (simp add: file_consume_def cap(1) add)
  moreover have win': "fu_window ?d' = drop n (fu_window d)" by (rule fu_window_consume [OF d n])
  moreover have rest': "fu_rest ?d' = drop n (fu_rest d)"
    unfolding fu_rest_def win' using n by simp
  moreover have "fu_ok ?d'"
    unfolding fu_ok_def rest' using ok le by (simp add: add.commute)
  ultimately show ?thesis using cap(2) by (intro exI [of _ c] exI [of _ ?d']) simp
qed

lemma file_consume_law:
  assumes inv: "file_inv s" and n: "n \<le> file_win s"
  shows "\<exists>s'. asdf_stream_consume s n = Some s' \<and> file_inv s' \<and>
         file_rest s' = drop n (file_rest s) \<and> file_at s' = file_at s + n \<and>
         file_win s' = file_win s - n \<and> same_frame s s' \<and>
         capture_buf s' = cap_append (capture_buf s) (take n (file_rest s))"
proof -
  obtain d where d: "userdata s = FileData d" "fu_ok d" "ctx_heap (s_ctx s) = []"
      "capture_room s (length (fu_rest d))"
    using inv by (auto simp: file_inv_def split: asdf_userdata.splits)
  have "n \<le> length (fu_window d)" using n by (simp add: file_win_def d(1) length_fu_window [OF d(2)])
  from file_consume_ok [OF d(2) this d(4,3)] obtain c d' where
    k: "file_consume s d n =
      Some (s\<lparr>capture_buf := cap_append (capture_buf s) (take n (fu_rest d)), capture_cap := c\<rparr>, d')"
      "capture_cap s \<le> c" "fu_ok d'" "fu_rest d' = drop n (fu_rest d)"
      "fu_file_pos d' = fu_file_pos d + n" "fu_window d' = drop n (fu_window d)"
    by blast
  have "length (fu_window d) \<le> length (fu_rest d)" by (simp add: fu_rest_def)
  with \<open>n \<le> length (fu_window d)\<close> have "n \<le> length (fu_rest d)" by simp
  then have room: "capture_room (s\<lparr>userdata := FileData d',
      capture_buf := cap_append (capture_buf s) (take n (fu_rest d)), capture_cap := c\<rparr>)
      (length (fu_rest d'))"
    using d(4) k(2,4) by (auto simp: cap_room_def cap_append_def min_def split: option.splits)
  have "fu_buf_avail d' - fu_buf_pos d' = (fu_buf_avail d - fu_buf_pos d) - n"
    using k(6) length_fu_window [OF k(3)] length_fu_window [OF d(2)] by simp
  with k d(3) room show ?thesis
    by (simp add: asdf_stream_consume_def d(1) file_inv_def file_rest_def file_at_def file_win_def
        same_frame_def)
qed

interpretation buffered: byte_stream file_inv file_rest file_at file_win
proof unfold_locales
  fix s n assume "file_inv s" "0 < n" "n \<le> (2::nat) ^ 62"
  then show "\<exists>w s'. asdf_stream_next s n = Some (w, s') \<and> w = take (length w) (file_rest s) \<and>
         min n (length (file_rest s)) \<le> length w \<and> file_inv s' \<and> file_rest s' = file_rest s \<and>
         file_at s' = file_at s \<and> file_win s' = length w \<and> same_frame s s' \<and>
         capture_buf s' = capture_buf s"
    by (rule file_next_law)
next
  fix s n assume "file_inv s" "n \<le> file_win s"
  then show "\<exists>s'. asdf_stream_consume s n = Some s' \<and> file_inv s' \<and>
         file_rest s' = drop n (file_rest s) \<and> file_at s' = file_at s + n \<and>
         file_win s' = file_win s - n \<and> same_frame s s' \<and>
         capture_buf s' = cap_append (capture_buf s) (take n (file_rest s))"
    by (rule file_consume_law)
next
  fix s assume inv: "file_inv s"
  then obtain d where d: "userdata s = FileData d" "fu_ok d" "ctx_heap (s_ctx s) = []"
    by (auto simp: file_inv_def split: asdf_userdata.splits)
  note ok = fu_okD [OF d(2)]
  have "fu_file_pos d \<le> 2 ^ 62" using ok by linarith
  then show "asdf_stream_tell s = int (file_at s)"
    by (simp add: asdf_stream_tell_def d(1) file_tell_def file_at_def ASDF_OFF_MAX_def off_of_size_small)
  show "file_win s \<le> length (file_rest s)"
    using length_fu_window [OF d(2)] by (simp add: file_win_def file_rest_def d(1) fu_rest_def)
  show "file_at s + length (file_rest s) \<le> 2 ^ 62"
    using ok by (simp add: file_at_def file_rest_def d(1))
  show "ctx_heap (s_ctx s) = []" by (rule d(3))
qed

section \<open>Properties\<close>

text \<open>Growing the capture buffer by doubling ends and reaches the size needed.\<close>

theorem capture_growth_returns:
  assumes "0 < cap" and "needed \<le> 2 ^ 62"
  shows "\<exists>c. grow_cap cap needed = Some c \<and> needed \<le> c \<and> cap \<le> c"
  using assms by (rule grow_cap_returns)

theorem capture_growth_returns_witness: "\<exists>c. grow_cap 512 5000 = Some c \<and> 5000 \<le> c \<and> 512 \<le> c"
  using capture_growth_returns [of 512 5000] by simp

text \<open>C5. On a buffered file in any state its operations leave it in, asking for \<open>n\<close> bytes gives a
  window of at least \<open>n\<close> bytes, or of all there are, that starts at the position; nothing moves. If
  then any part of the window is consumed the position moves by it, what is left to read starts there,
  and a running capture received exactly the consumed bytes.\<close>

theorem file_next_consume:
  assumes "file_inv s" and "0 < n" and "n \<le> 2 ^ 62"
  shows "\<exists>w s1. asdf_stream_next s n = Some (w, s1) \<and> w = take (length w) (file_rest s) \<and>
    min n (length (file_rest s)) \<le> length w \<and> file_rest s1 = file_rest s \<and> file_at s1 = file_at s \<and>
    (\<forall>k \<le> length w. \<exists>s2. asdf_stream_consume s1 k = Some s2 \<and> file_inv s2 \<and>
       file_rest s2 = drop k (file_rest s) \<and> file_at s2 = file_at s + k \<and>
       capture_buf s2 = cap_append (capture_buf s) (take k (file_rest s)))"
proof -
  from buffered.next_law [OF assms] obtain w s1 where
    n: "asdf_stream_next s n = Some (w, s1)" "w = take (length w) (file_rest s)"
      "min n (length (file_rest s)) \<le> length w" "file_inv s1" "file_rest s1 = file_rest s"
      "file_at s1 = file_at s" "file_win s1 = length w" "capture_buf s1 = capture_buf s"
    by blast
  have "\<exists>s2. asdf_stream_consume s1 k = Some s2 \<and> file_inv s2 \<and> file_rest s2 = drop k (file_rest s) \<and>
       file_at s2 = file_at s + k \<and> capture_buf s2 = cap_append (capture_buf s) (take k (file_rest s))"
    if "k \<le> length w" for k
    using buffered.consume_law [OF n(4), of k] that n(5-8) by auto
  with n show ?thesis by blast
qed

definition sample_file_stream :: asdf_stream where
  "sample_file_stream = the (fst (asdf_stream_from_fp
     \<lparr>refcount = 1, error_type = ASDF_ERROR_NONE, error = None, error_code = None, saved_errno = None,
       ctx_heap = []\<rparr> 2
     \<lparr>f_content = [1, 2, 3, 4, 5], f_pos = 0, f_seekable = True, f_limit = None, f_flush_ok = True,
       f_errno = 0\<rparr> False))"

lemma sample_file_stream_inv: "file_inv sample_file_stream" "file_rest sample_file_stream = [1, 2, 3, 4, 5]"
  by (simp_all add: sample_file_stream_def asdf_stream_from_fp_def ctx_alloc_def asdf_context_retain_def
      file_inv_def file_rest_def fu_ok_def fu_rest_def fu_window_def cap_room_def)

theorem file_next_consume_witness:
  "\<exists>w s1. asdf_stream_next sample_file_stream 3 = Some (w, s1) \<and> w = take (length w) [1, 2, 3, 4, 5] \<and>
    3 \<le> length w \<and> (\<exists>s2. asdf_stream_consume s1 2 = Some s2 \<and> file_rest s2 = [3, 4, 5])"
proof -
  from file_next_consume [OF sample_file_stream_inv(1), of 3] obtain w s1 where
    n: "asdf_stream_next sample_file_stream 3 = Some (w, s1)"
      "w = take (length w) (file_rest sample_file_stream)"
      "min 3 (length (file_rest sample_file_stream)) \<le> length w"
      "\<forall>k \<le> length w. \<exists>s2. asdf_stream_consume s1 k = Some s2 \<and> file_inv s2 \<and>
        file_rest s2 = drop k (file_rest sample_file_stream) \<and> file_at s2 = file_at sample_file_stream + k \<and>
        capture_buf s2 = cap_append (capture_buf sample_file_stream) (take k (file_rest sample_file_stream))"
    by fastforce
  have len: "3 \<le> length w" using n(3) by (simp add: sample_file_stream_inv)
  then have "2 \<le> length w" by simp
  with n(4) obtain s2 where "asdf_stream_consume s1 2 = Some s2"
      "file_rest s2 = drop 2 (file_rest sample_file_stream)"
    by blast
  then have "\<exists>s2. asdf_stream_consume s1 2 = Some s2 \<and> file_rest s2 = [3, 4, 5]"
    by (simp add: sample_file_stream_inv)
  with n(1,2) len show ?thesis by (auto simp: sample_file_stream_inv)
qed

end
