(* ===== verification/Asdf_Block.thy ===== *)
theory Asdf_Block
  imports Asdf_Stream_Laws
begin

text \<open>
  Binary blocks, \<^verbatim>\<open>src/block.c\<close> and \<^verbatim>\<open>src/block.h\<close>: the header and its codec, reading a block
  header from a stream, writing a block to a stream, and the operations on block handles.
  The MD5 function, the compressors and the decompression of a block's data are arguments of
  the definitions that use them.
\<close>

section \<open>Constants\<close>

definition ASDF_BLOCK_MAGIC_SIZE :: nat where
  "ASDF_BLOCK_MAGIC_SIZE = 4"

definition ASDF_BLOCK_HEADER_SIZE :: nat where
  "ASDF_BLOCK_HEADER_SIZE = 48"

definition ASDF_BLOCK_HEADER_FULL_SIZE :: nat where
  "ASDF_BLOCK_HEADER_FULL_SIZE = ASDF_BLOCK_HEADER_SIZE + ASDF_BLOCK_MAGIC_SIZE + 2"

definition asdf_block_magic :: bytes where
  "asdf_block_magic = [0xd3, 0x42, 0x4c, 0x4b]"

definition asdf_block_index_header :: bytes where
  "asdf_block_index_header = bytes_of ''#ASDF BLOCK INDEX''"

definition ASDF_BLOCK_INDEX_HEADER_SIZE :: nat where
  "ASDF_BLOCK_INDEX_HEADER_SIZE = 17"

definition ASDF_BLOCK_FLAG_STREAMED :: u32 where
  "ASDF_BLOCK_FLAG_STREAMED = 1"

section \<open>Data\<close>

record asdf_block_header =
  header_size :: u16
  flags :: u32
  compression :: bytes
  allocated_size :: u64
  used_size :: u64
  data_size :: u64
  checksum :: bytes

text \<open>A compressor is named by the value of the header field; the functions behind the names are
  arguments of the operations that compress.\<close>

record asdf_block_info =
  bi_index :: nat
  header_pos :: int
  data_pos :: int
  bi_header :: asdf_block_header
  bi_data :: "bytes option"
  bi_data_size :: nat
  data_owned :: bool
  data_mmapped :: bool
  data_is_compressed :: bool
  write_compressor :: "bytes option"

text \<open>The all-zero structures that \<^verbatim>\<open>= {0}\<close> and \<^verbatim>\<open>calloc\<close> give.\<close>

definition zero_header :: asdf_block_header where
  "zero_header = \<lparr>header_size = 0, flags = 0, compression = replicate 4 0, allocated_size = 0,
     used_size = 0, data_size = 0, checksum = replicate 16 0\<rparr>"

definition zero_block_info :: asdf_block_info where
  "zero_block_info = \<lparr>bi_index = 0, header_pos = 0, data_pos = 0, bi_header = zero_header,
     bi_data = None, bi_data_size = 0, data_owned = False, data_mmapped = False,
     data_is_compressed = False, write_compressor = None\<rparr>"

definition is_block_magic :: "bytes \<Rightarrow> bool" where
  "is_block_magic buf \<longleftrightarrow> ASDF_BLOCK_MAGIC_SIZE \<le> length buf \<and>
     take ASDF_BLOCK_MAGIC_SIZE buf = asdf_block_magic"

section \<open>Block infos\<close>

definition asdf_block_info_init :: "nat \<Rightarrow> bytes option \<Rightarrow> nat \<Rightarrow> asdf_block_info \<Rightarrow> asdf_block_info" where
  "asdf_block_info_init index data sz out =
     out\<lparr>bi_index := index,
         bi_header := zero_header\<lparr>header_size := of_nat ASDF_BLOCK_HEADER_SIZE,
           allocated_size := of_nat sz, used_size := of_nat sz, data_size := of_nat sz\<rparr>,
         header_pos := -1, data_pos := -1, bi_data := data, bi_data_size := sz\<rparr>"

definition asdf_block_info_deinit :: "asdf_block_info \<Rightarrow> asdf_block_info" where
  "asdf_block_info_deinit b =
     (let b = (if data_owned b
               then b\<lparr>bi_data := None, data_owned := False, data_mmapped := False\<rparr> else b)
      in b\<lparr>bi_data_size := 0\<rparr>)"

section \<open>Reading a header\<close>

definition parse_header_size :: "bytes \<Rightarrow> u16" where
  "parse_header_size buf = push_bit 8 (ucast (buf ! 0)) OR ucast (buf ! 1)"

definition parse_flags :: "bytes \<Rightarrow> u32" where
  "parse_flags buf = push_bit 24 (ucast (buf ! 0)) OR push_bit 16 (ucast (buf ! 1)) OR
     push_bit 8 (ucast (buf ! 2)) OR ucast (buf ! 3)"

definition be64_at :: "bytes \<Rightarrow> nat \<Rightarrow> u64" where
  "be64_at buf off = of_nat (be_val (take 8 (drop off buf)))"

text \<open>The fields after the header size.\<close>

definition parse_header_fields :: "bytes \<Rightarrow> asdf_block_header \<Rightarrow> asdf_block_header" where
  "parse_header_fields buf h =
     h\<lparr>compression := take 4 (drop 4 buf), flags := parse_flags buf,
       allocated_size := be64_at buf 8, used_size := be64_at buf 16, data_size := be64_at buf 24,
       checksum := take 16 (drop 32 buf)\<rparr>"

definition stream_fail ::
  "asdf_stream \<Rightarrow> asdf_error_code \<Rightarrow> 'a \<Rightarrow> (bool \<times> asdf_stream \<times> 'a) option" where
  "stream_fail s code x = do {
     ctx \<leftarrow> asdf_context_error_common (s_ctx s) code [];
     Some (False, s\<lparr>s_ctx := ctx\<rparr>, x)
   }"

definition asdf_block_info_read ::
  "asdf_stream \<Rightarrow> asdf_block_info \<Rightarrow> (bool \<times> asdf_stream \<times> asdf_block_info) option" where
  "asdf_block_info_read s out = do {
     let hpos = asdf_stream_tell s;
     s \<leftarrow> asdf_stream_consume s ASDF_BLOCK_MAGIC_SIZE;
     if error (s_ctx s) \<noteq> None then Some (False, s, out)
     else do {
       (buf, s) \<leftarrow> asdf_stream_next s 2;
       if buf = [] then stream_fail s ASDF_ERR_INVALID_BLOCK_HEADER out
       else if length buf < 2 then stream_fail s ASDF_ERR_UNEXPECTED_EOF out
       else do {
         let hsize = parse_header_size buf;
         let out = out\<lparr>bi_header := (bi_header out)\<lparr>header_size := hsize\<rparr>\<rparr>;
         if unat hsize < ASDF_BLOCK_HEADER_SIZE
         then stream_fail s ASDF_ERR_INVALID_BLOCK_HEADER out
         else do {
           s \<leftarrow> asdf_stream_consume s 2;
           if error (s_ctx s) \<noteq> None then Some (False, s, out)
           else do {
             (buf, s) \<leftarrow> asdf_stream_next s (unat hsize);
             if length buf < unat hsize then stream_fail s ASDF_ERR_UNEXPECTED_EOF out
             else do {
               let out = out\<lparr>bi_header := parse_header_fields buf (bi_header out)\<rparr>;
               s \<leftarrow> asdf_stream_consume s (unat hsize);
               if error (s_ctx s) \<noteq> None then Some (False, s, out)
               else Some (True, s, out\<lparr>header_pos := hpos, data_pos := asdf_stream_tell s\<rparr>)
             }
           }
         }
       }
     }
   }"

section \<open>Writing a block\<close>

text \<open>A run of \<^verbatim>\<open>WRITE_CHECK\<close>s: it stops at the first short write.\<close>

fun write_check_all :: "asdf_stream \<Rightarrow> bytes list \<Rightarrow> (bool \<times> asdf_stream) option" where
  "write_check_all s [] = Some (True, s)"
| "write_check_all s (x # xs) = do {
     (n, s) \<leftarrow> asdf_stream_write s x;
     if n = length x then write_check_all s xs else Some (False, s)
   }"

text \<open>The padding loop: chunks of at most 512 zero bytes.\<close>

function zero_chunks :: "nat \<Rightarrow> bytes list" where
  "zero_chunks remaining =
     (if remaining = 0 then []
      else let chunk = (if remaining > 512 then 512 else remaining)
           in replicate chunk 0 # zero_chunks (remaining - chunk))"
  by pat_completeness auto
termination
  by (relation "measure id") auto

lemmas zero_chunks.simps [simp del]

text \<open>Where the block's bytes come from: the bytes, whether they are compressed, or nothing.\<close>

datatype block_source = No_source | Source bytes bool | Source_failed

definition block_info_source ::
  "os_env \<Rightarrow> asdf_stream option \<Rightarrow> asdf_block_info \<Rightarrow> (block_source \<times> asdf_stream option) option" where
  "block_info_source os in_stream block =
     (case bi_data block of
        Some bs \<Rightarrow> do {
          w \<leftarrow> mem_read bs 0 (bi_data_size block);
          Some (Source w (data_is_compressed block), in_stream)
        }
      | None \<Rightarrow>
          (case in_stream of
             None \<Rightarrow> Some (No_source, None)
           | Some ins \<Rightarrow>
               if data_pos block \<ge> 0 then do {
                 (w, ins) \<leftarrow> asdf_stream_open_mem os ins (data_pos block)
                              (unat (used_size (bi_header block)));
                 (case w of
                    None \<Rightarrow> Some (Source_failed, Some ins)
                  | Some bs \<Rightarrow> Some (Source bs (compression (bi_header block) ! 0 \<noteq> 0), Some ins))
               } else Some (No_source, Some ins)))"

text \<open>What is written and under which compression name, or which step failed. \<open>cmp\<close> is the
  \<^verbatim>\<open>comp\<close> function of the compressor with a name, \<open>decomp\<close> is \<^verbatim>\<open>asdf_block_comp_open\<close>.\<close>

datatype payload_error = Compress_failed | Decompress_failed

definition block_info_payload ::
  "(bytes \<Rightarrow> bytes \<Rightarrow> bytes option) \<Rightarrow> (asdf_block_info \<Rightarrow> bytes \<Rightarrow> bytes option) \<Rightarrow> asdf_block_info \<Rightarrow> block_source
     \<Rightarrow> payload_error + (bytes \<times> bytes option)" where
  "block_info_payload cmp decomp block src =
     (case src of
        Source bs c \<Rightarrow>
          (case write_compressor block of
             Some cc \<Rightarrow>
               if \<not> c then
                 (case cmp cc bs of None \<Rightarrow> Inl Compress_failed
                  | Some z \<Rightarrow> Inr (z, Some cc))
               else
                 (case decomp block bs of
                    None \<Rightarrow> Inl Decompress_failed
                  | Some plain \<Rightarrow>
                      (case cmp cc plain of None \<Rightarrow> Inl Compress_failed
                       | Some z \<Rightarrow> Inr (z, Some cc)))
           | None \<Rightarrow> Inr (bs, if c then Some (compression (bi_header block)) else None))
      | _ \<Rightarrow> Inr ([], None))"

text \<open>The four bytes copied out of a compression name, with its terminating zero.\<close>

definition comp_field :: "bytes option \<Rightarrow> bytes option" where
  "comp_field name = (case name of None \<Rightarrow> Some (replicate 4 0) | Some n \<Rightarrow> mem_read (n @ [0]) 0 4)"

text \<open>The allocated size written, at least the stored size, and the writes of the data with
  the padding up to it.\<close>

definition block_alloc_size :: "asdf_block_header \<Rightarrow> nat \<Rightarrow> nat" where
  "block_alloc_size h used =
     (if unat (allocated_size h) < used then used else unat (allocated_size h))"

definition block_data_writes :: "bytes \<Rightarrow> nat \<Rightarrow> bytes list" where
  "block_data_writes payload alloc_sz =
     (let used = length payload
      in (if used > 0 then [payload] else []) @
         (if alloc_sz > used then zero_chunks (alloc_sz - used) else []))"

definition asdf_block_info_write ::
  "os_env \<Rightarrow> (bytes \<Rightarrow> bytes) \<Rightarrow> (bytes \<Rightarrow> bytes \<Rightarrow> bytes option)
     \<Rightarrow> (asdf_block_info \<Rightarrow> bytes \<Rightarrow> bytes option) \<Rightarrow> asdf_stream option \<Rightarrow> asdf_block_info \<Rightarrow> asdf_stream
     \<Rightarrow> bool \<Rightarrow> (bool \<times> asdf_block_info \<times> asdf_stream) option" where
  "asdf_block_info_write os md5 cmp decomp in_stream block out cksum =
     (if \<not> is_writeable out then None
      else do {
        (src, ins) \<leftarrow> block_info_source os (map_option (\<lambda>i. i\<lparr>s_ctx := s_ctx out\<rparr>) in_stream) block;
        let out = (case ins of None \<Rightarrow> out | Some i \<Rightarrow> out\<lparr>s_ctx := s_ctx i\<rparr>);
        if src = Source_failed
        then Some (False, block, out\<lparr>s_ctx := asdf_context_error_oom (s_ctx out)\<rparr>)
        else (case block_info_payload cmp decomp block src of
          Inl Compress_failed \<Rightarrow> Some (False, block, out)
        | Inl Decompress_failed \<Rightarrow> do {
            ctx \<leftarrow> asdf_context_error_common (s_ctx out) ASDF_ERR_COMPRESSION_FAILED
                    [''failed to decompress block for recompression''];
            Some (False, block, out\<lparr>s_ctx := ctx\<rparr>)
          }
        | Inr (payload, name) \<Rightarrow> do {
            field \<leftarrow> comp_field name;
            let block = block\<lparr>header_pos := asdf_stream_tell out\<rparr>;
            let used = length payload;
            let alloc_sz = block_alloc_size (bi_header block) used;
            (ok, out) \<leftarrow> write_check_all out
              [asdf_block_magic, be_enc 2 ASDF_BLOCK_HEADER_SIZE,
               be_enc 4 (unat (flags (bi_header block))), field, be_enc 8 alloc_sz, be_enc 8 used,
               be_enc 8 (unat (data_size (bi_header block)))];
            if \<not> ok then Some (False, block, out)
            else do {
              let block = (if cksum then block\<lparr>bi_header := (bi_header block)\<lparr>checksum := md5 payload\<rparr>\<rparr>
                           else block);
              (ok, out) \<leftarrow> write_check_all out [checksum (bi_header block)];
              if \<not> ok then Some (False, block, out)
              else do {
                let block = block\<lparr>data_pos := asdf_stream_tell out\<rparr>;
                (ok, out) \<leftarrow> write_check_all out (block_data_writes payload alloc_sz);
                Some (ok, block, out)
              }
            }
          })
      })"

section \<open>The codec of the header fields\<close>

lemma or_byte_eq_add: "push_bit 8 w OR ucast (b :: byte) = w * 256 + (ucast b :: 'a :: len word)"
proof -
  have "push_bit 8 w + ucast b = push_bit 8 w OR (ucast b :: 'a word)"
    by (rule disjunctive_add_eq_or)
       (use bit_imp_le_length [of b] in \<open>fastforce intro!: bit_word_eqI simp: bit_simps\<close>)
  then show ?thesis by (simp add: push_bit_eq_mult)
qed

lemma ucast_byte: "ucast (b :: byte) = (of_nat (unat b) :: 'a :: len word)"
  by simp

lemma parse_header_size_be: "2 \<le> length buf \<Longrightarrow> parse_header_size buf = of_nat (be_val (take 2 buf))"
proof -
  assume "2 \<le> length buf"
  then have "take 2 buf = [buf ! 0, buf ! 1]"
    by (cases buf rule: list.exhaust; cases "tl buf") auto
  then show ?thesis
    by (simp add: parse_header_size_def or_byte_eq_add be_val_def)
qed

lemma parse_flags_be: "4 \<le> length buf \<Longrightarrow> parse_flags buf = of_nat (be_val (take 4 buf))"
proof -
  assume len: "4 \<le> length buf"
  have t: "take 4 buf = [buf ! 0, buf ! 1, buf ! 2, buf ! 3]"
    using len by (auto intro!: nth_equalityI simp: less_Suc_eq numeral_eq_Suc)
  have "parse_flags buf =
      push_bit 8 (push_bit 8 (push_bit 8 (ucast (buf ! 0)) OR ucast (buf ! 1)) OR ucast (buf ! 2))
        OR ucast (buf ! 3)"
    by (simp add: parse_flags_def push_bit_or ac_simps)
  then show ?thesis
    unfolding or_byte_eq_add by (simp add: t be_val_def algebra_simps)
qed

text \<open>The written form of a header field is read back.\<close>

lemma be_word_roundtrip:
  "LENGTH('a :: len) = 8 * n \<Longrightarrow> (of_nat (be_val (be_enc n (unat w))) :: 'a word) = w"
proof -
  assume "LENGTH('a) = 8 * n"
  then have "unat w < 256 ^ n"
    using unsigned_less [of w, where 'a = nat] by (simp add: power_mult)
  then show ?thesis by (simp add: be_val_be_enc)
qed

lemma length_zero_chunks: "concat (zero_chunks n) = replicate n 0"
proof (induction n rule: zero_chunks.induct)
  case (1 n)
  then show ?case
    by (subst zero_chunks.simps) (simp add: Let_def flip: replicate_add)
qed

section \<open>Reading a header from any stream\<close>

text \<open>What \<^verbatim>\<open>asdf_block_info_read\<close> makes of the bytes behind the magic: an error, or the
  header size and the bytes of the header.\<close>

definition read_header_spec :: "bytes \<Rightarrow> asdf_error_code + (u16 \<times> bytes)" where
  "read_header_spec bs =
     (if bs = [] then Inl ASDF_ERR_INVALID_BLOCK_HEADER
      else if length bs < 2 then Inl ASDF_ERR_UNEXPECTED_EOF
      else
        let hs = of_nat (be_val (take 2 bs)) in
        if unat hs < ASDF_BLOCK_HEADER_SIZE then Inl ASDF_ERR_INVALID_BLOCK_HEADER
        else if length bs < 2 + unat hs then Inl ASDF_ERR_UNEXPECTED_EOF
        else Inr (hs, take (unat hs) (drop 2 bs)))"

lemma parse_header_size_window:
  "2 \<le> length w \<Longrightarrow> take 2 w = take 2 w' \<Longrightarrow> parse_header_size w = of_nat (be_val (take 2 w'))"
  by (simp add: parse_header_size_be)

lemma take_drop_window:
  assumes "take n w = take n w'" and "i + k \<le> n"
  shows "take k (drop i w) = take k (drop i w')"
proof -
  have "take k (drop i (take n w)) = take k (drop i (take n w'))" by (simp only: assms(1))
  then show ?thesis using assms(2) by (simp add: take_drop min_def)
qed

lemma parse_header_fields_window:
  assumes "take n w = take n w'" and "48 \<le> n" and "n \<le> length w"
  shows "parse_header_fields w h = parse_header_fields (take n w') h"
proof -
  have "take k (drop i w) = take k (drop i (take n w'))" if "i + k \<le> n" for i k
    using take_drop_window [of n w "take n w'" i k] assms(1) that by simp
  moreover have "take 4 w = take 4 (take n w')"
    using take_drop_window [of n w "take n w'" 0 4] assms(1,2) by simp
  moreover have "4 \<le> length w" "4 \<le> length (take n w')"
    using assms by (simp, metis assms(1,3) length_take min.absorb2 min.coboundedI2 numeral_le_iff
        order_trans semiring_norm(68,69,71,72))
  ultimately show ?thesis using assms(2)
    by (simp add: parse_header_fields_def be64_at_def parse_flags_be)
qed

lemma stream_fail_eq:
  "asdf_context_error_common (s_ctx s) code [] = Some ctx \<Longrightarrow>
     stream_fail s code x = Some (False, s\<lparr>s_ctx := ctx\<rparr>, x)"
  by (simp add: stream_fail_def)

text \<open>The second half of the reader, from a state after the header size was read.\<close>

definition block_info_read_fields ::
  "asdf_stream \<Rightarrow> int \<Rightarrow> u16 \<Rightarrow> asdf_block_info \<Rightarrow> (bool \<times> asdf_stream \<times> asdf_block_info) option" where
  "block_info_read_fields s hpos hsize out = do {
     (buf, s) \<leftarrow> asdf_stream_next s (unat hsize);
     if length buf < unat hsize then stream_fail s ASDF_ERR_UNEXPECTED_EOF out
     else do {
       let out = out\<lparr>bi_header := parse_header_fields buf (bi_header out)\<rparr>;
       s \<leftarrow> asdf_stream_consume s (unat hsize);
       if error (s_ctx s) \<noteq> None then Some (False, s, out)
       else Some (True, s, out\<lparr>header_pos := hpos, data_pos := asdf_stream_tell s\<rparr>)
     }
   }"

context byte_stream
begin

lemma read_fields_law:
  assumes inv: "inv s" and err: "error (s_ctx s) = None" and hs: "48 \<le> unat hs"
  shows "if length (rest s) < unat hs
     then \<exists>s' out'. block_info_read_fields s hp hs out = Some (False, s', out') \<and>
            error_code (s_ctx s') = Some ASDF_ERR_UNEXPECTED_EOF
     else \<exists>s'. block_info_read_fields s hp hs out = Some (True, s', out\<lparr>header_pos := hp,
              data_pos := int (pos s + unat hs),
              bi_header := parse_header_fields (take (unat hs) (rest s)) (bi_header out)\<rparr>) \<and>
            inv s' \<and> rest s' = drop (unat hs) (rest s) \<and> pos s' = pos s + unat hs \<and> same_frame s s'"
proof -
  have "unat hs \<le> 2 ^ 62" using unsigned_less [of hs, where 'a = nat] by simp
  with hs next_law [OF inv, of "unat hs"] obtain w s1 where
    n: "asdf_stream_next s (unat hs) = Some (w, s1)" "w = take (length w) (rest s)"
      "min (unat hs) (length (rest s)) \<le> length w" "inv s1" "rest s1 = rest s" "pos s1 = pos s"
      "win s1 = length w" "same_frame s s1"
    by fastforce
  have lw: "length w \<le> length (rest s)" using n(2) by (metis length_take min.cobounded1)
  show ?thesis
  proof (cases "length (rest s) < unat hs")
    case True
    with lw n(1) show ?thesis by (simp add: block_info_read_fields_def stream_fail_def)
  next
    case False
    with n(3) have big: "unat hs \<le> length w" by simp
    have "take (unat hs) w = take (unat hs) (rest s)"
      using n(2) big by (metis min.absorb1 take_take)
    then have f: "parse_header_fields w h = parse_header_fields (take (unat hs) (rest s)) h" for h
      using big hs by (intro parse_header_fields_window) auto
    from consume_law [OF n(4), of "unat hs"] big n(7) obtain s2 where
      c: "asdf_stream_consume s1 (unat hs) = Some s2" "inv s2" "rest s2 = drop (unat hs) (rest s1)"
        "pos s2 = pos s1 + unat hs" "same_frame s1 s2"
      by auto
    have "error (s_ctx s2) = None" using err same_frame_ctx n(8) c(5) by metis
    with False big n c tell_law [OF c(2)] same_frame_trans [OF n(8) c(5)] show ?thesis
      by (simp add: block_info_read_fields_def f)
  qed
qed

lemma block_info_read_law:
  assumes inv: "inv s" and err: "error (s_ctx s) = None" and magic: "ASDF_BLOCK_MAGIC_SIZE \<le> win s"
  shows "case read_header_spec (drop ASDF_BLOCK_MAGIC_SIZE (rest s)) of
     Inl e \<Rightarrow> \<exists>s' out'. asdf_block_info_read s out = Some (False, s', out') \<and>
        error_code (s_ctx s') = Some e
   | Inr (hs, hdr) \<Rightarrow> \<exists>s'. asdf_block_info_read s out = Some (True, s', out\<lparr>header_pos := int (pos s),
        data_pos := int (pos s + 6 + unat hs),
        bi_header := parse_header_fields hdr ((bi_header out)\<lparr>header_size := hs\<rparr>)\<rparr>) \<and>
      inv s' \<and> rest s' = drop (6 + unat hs) (rest s) \<and> pos s' = pos s + 6 + unat hs \<and> same_frame s s'"
proof -
  from consume_law [OF inv magic] obtain s1 where
    c: "asdf_stream_consume s 4 = Some s1" "inv s1" "rest s1 = drop 4 (rest s)"
      "pos s1 = pos s + 4" "same_frame s s1"
    by (auto simp: ASDF_BLOCK_MAGIC_SIZE_def)
  have e1: "error (s_ctx s1) = None" using err same_frame_ctx [OF c(5)] by simp
  from next_law [OF c(2), of 2] obtain w s2 where
    n: "asdf_stream_next s1 2 = Some (w, s2)" "w = take (length w) (rest s1)"
      "min 2 (length (rest s1)) \<le> length w" "inv s2" "rest s2 = rest s1" "pos s2 = pos s1"
      "win s2 = length w" "same_frame s1 s2"
    by auto
  have lw: "length w \<le> length (rest s1)" using n(2) by (metis length_take min.cobounded1)
  note step = asdf_block_info_read_def ASDF_BLOCK_MAGIC_SIZE_def c(1) e1 n(1) stream_fail_def
  show ?thesis
  proof (cases "2 \<le> length (rest s1)")
    case False
    with lw n(3) show ?thesis
      by (cases "rest s1 = []") (auto simp: step read_header_spec_def ASDF_BLOCK_MAGIC_SIZE_def simp flip: c(3))
  next
    case True
    with n(3) have w2: "2 \<le> length w" by simp
    define hs :: u16 where "hs = of_nat (be_val (take 2 (rest s1)))"
    have "take 2 w = take 2 (rest s1)" using n(2) w2 by (metis min.absorb1 take_take)
    then have hsz: "parse_header_size w = hs"
      using w2 by (simp add: parse_header_size_window [of w "rest s1"] hs_def)
    have ne: "w \<noteq> []" "rest s1 \<noteq> []" using w2 True by auto
    show ?thesis
    proof (cases "unat hs < 48")
      case small: True
      with True ne w2 hsz show ?thesis
        by (simp add: step read_header_spec_def ASDF_BLOCK_HEADER_SIZE_def Let_def flip: c(3) hs_def)
    next
      case False
      from consume_law [OF n(4), of 2] w2 n(7) obtain s3 where
        c3: "asdf_stream_consume s2 2 = Some s3" "inv s3" "rest s3 = drop 2 (rest s1)"
          "pos s3 = pos s + 6" "same_frame s2 s3"
        using n(5,6) c(4) by auto
      have fr: "same_frame s s3" using c(5) n(8) c3(5) by (meson same_frame_trans)
      have e3: "error (s_ctx s3) = None" using err same_frame_ctx [OF fr] by simp
      have "asdf_block_info_read s out = block_info_read_fields s3 (asdf_stream_tell s) hs
          (out\<lparr>bi_header := (bi_header out)\<lparr>header_size := hs\<rparr>\<rparr>)"
        using ne w2 False
        by (simp add: step hsz c3(1) e3 ASDF_BLOCK_HEADER_SIZE_def block_info_read_fields_def Let_def)
      moreover have "read_header_spec (rest s1) = (if length (rest s3) < unat hs
          then Inl ASDF_ERR_UNEXPECTED_EOF else Inr (hs, take (unat hs) (rest s3)))"
        using True ne False c3(3)
        by (auto simp: read_header_spec_def ASDF_BLOCK_HEADER_SIZE_def Let_def simp flip: hs_def)
      moreover have "drop (6 + unat hs) (rest s) = drop (unat hs) (rest s3)"
        by (simp add: c3(3) c(3) add.commute)
      ultimately show ?thesis
        using read_fields_law [OF c3(2) e3, of hs "asdf_stream_tell s"
          "out\<lparr>bi_header := (bi_header out)\<lparr>header_size := hs\<rparr>\<rparr>"]
          False tell_law [OF inv] c3(4) c(3) same_frame_trans [OF fr]
        by (cases "length (rest s3) < unat hs") (auto simp: ASDF_BLOCK_MAGIC_SIZE_def add.assoc)
    qed
  qed
qed

end

section \<open>Properties\<close>

text \<open>The layout of a header behind its size: the flags, the name of the compression and three sizes, all numbers
  big-endian, and the checksum.\<close>

definition header_of_bytes :: "u16 \<Rightarrow> bytes \<Rightarrow> asdf_block_header" where
  "header_of_bytes hs hdr =
     \<lparr>header_size = hs,
      flags = of_nat (be_val (take 4 hdr)),
      compression = take 4 (drop 4 hdr),
      allocated_size = of_nat (be_val (take 8 (drop 8 hdr))),
      used_size = of_nat (be_val (take 8 (drop 16 hdr))),
      data_size = of_nat (be_val (take 8 (drop 24 hdr))),
      checksum = take 16 (drop 32 hdr)\<rparr>"

lemma parse_header_fields_layout:
  "48 \<le> length hdr \<Longrightarrow> parse_header_fields hdr (h\<lparr>header_size := hs\<rparr>) = header_of_bytes hs hdr"
  by (simp add: parse_header_fields_def header_of_bytes_def be64_at_def parse_flags_be)

lemma header_bytes_long:
  "read_header_spec bs = Inr (hs, hdr) \<Longrightarrow> 48 \<le> length hdr"
  by (auto simp: read_header_spec_def Let_def ASDF_BLOCK_HEADER_SIZE_def split: if_splits)

text \<open>C18. Reading a block header from a buffered file that stands on a block magic does exactly what the
  bytes behind the magic say: too few bytes or a header size below 48 is reported with the matching
  error code; otherwise the fields are those of the layout of a header, read from the bytes behind its size with
  the numbers big-endian, the positions of the header and of the data are recorded, and the stream stands behind the
  header, wherever the buffer was cut.\<close>

theorem file_block_read:
  assumes "file_inv s" and "error (s_ctx s) = None" and "ASDF_BLOCK_MAGIC_SIZE \<le> file_win s"
  shows "case read_header_spec (drop ASDF_BLOCK_MAGIC_SIZE (file_rest s)) of
     Inl e \<Rightarrow> \<exists>s' out'. asdf_block_info_read s out = Some (False, s', out') \<and> error_code (s_ctx s') = Some e
   | Inr (hs, hdr) \<Rightarrow> \<exists>s'. asdf_block_info_read s out = Some (True, s', out\<lparr>header_pos := int (file_at s),
        data_pos := int (file_at s + 6 + unat hs), bi_header := header_of_bytes hs hdr\<rparr>) \<and>
      file_inv s' \<and> file_rest s' = drop (6 + unat hs) (file_rest s) \<and> file_at s' = file_at s + 6 + unat hs \<and>
      same_frame s s'"
  using buffered.block_info_read_law [OF assms, of out] parse_header_fields_layout header_bytes_long
  by (auto split: sum.splits)

definition block_stream :: "bytes \<Rightarrow> asdf_stream" where
  "block_stream bs =
     (let s = sample_file_stream
      in s\<lparr>userdata := (case userdata s of FileData d \<Rightarrow> FileData (d\<lparr>fu_file := (fu_file d)
           \<lparr>f_content := asdf_block_magic @ bs, f_pos := 6\<rparr>, fu_buf := take 6 (asdf_block_magic @ bs),
           fu_buf_size := 6, fu_buf_avail := 6\<rparr>))\<rparr>)"

definition sample_header_bytes :: bytes where
  "sample_header_bytes = [0, 0, 0, 1] @ bytes_of ''zlib'' @ [0, 0, 0, 0, 0, 0, 1, 0] @ [0, 0, 0, 0, 0, 0, 0, 9] @
     [0, 0, 0, 0, 0, 0, 2, 1] @ [1, 2, 3, 4, 5, 6, 7, 8, 9, 10, 11, 12, 13, 14, 15, 16]"

text \<open>A header of 47 bytes is refused; one of 48 is read.\<close>

theorem file_block_read_witness:
  "(\<exists>s' out'. asdf_block_info_read (block_stream [0, 47]) zero_block_info = Some (False, s', out') \<and>
     error_code (s_ctx s') = Some ASDF_ERR_INVALID_BLOCK_HEADER) \<and>
   (\<exists>s' out'. asdf_block_info_read (block_stream ([0, 48] @ sample_header_bytes)) zero_block_info = Some (True, s', out') \<and>
     header_pos out' = 0 \<and> data_pos out' = 54 \<and> bi_header out' = \<lparr>header_size = 48, flags = 1,
       compression = bytes_of ''zlib'', allocated_size = 256, used_size = 9, data_size = 513,
       checksum = [1, 2, 3, 4, 5, 6, 7, 8, 9, 10, 11, 12, 13, 14, 15, 16]\<rparr> \<and> file_rest s' = [])"
proof -
  have inv: "file_inv (block_stream bs)" "error (s_ctx (block_stream bs)) = None"
    "ASDF_BLOCK_MAGIC_SIZE \<le> file_win (block_stream bs)" "file_rest (block_stream bs) = asdf_block_magic @ bs"
    "file_at (block_stream bs) = 0" if "2 \<le> length bs" "length bs \<le> 100" for bs
    using that by (simp_all add: block_stream_def sample_file_stream_def asdf_stream_from_fp_def ctx_alloc_def
        asdf_context_retain_def file_inv_def file_rest_def fu_ok_def fu_rest_def fu_window_def cap_room_def
        file_win_def file_at_def asdf_block_magic_def ASDF_BLOCK_MAGIC_SIZE_def)
  have d: "drop ASDF_BLOCK_MAGIC_SIZE (file_rest (block_stream bs)) = bs" if "2 \<le> length bs" "length bs \<le> 100" for bs
    using that by (simp add: inv(4) asdf_block_magic_def ASDF_BLOCK_MAGIC_SIZE_def)
  have "read_header_spec [0, 47] = Inl ASDF_ERR_INVALID_BLOCK_HEADER"
    by (simp add: read_header_spec_def be_val_def ASDF_BLOCK_HEADER_SIZE_def Let_def)
  then have short: "\<exists>s' out'. asdf_block_info_read (block_stream [0, 47]) zero_block_info = Some (False, s', out') \<and>
     error_code (s_ctx s') = Some ASDF_ERR_INVALID_BLOCK_HEADER"
    using file_block_read [OF inv(1-3), of "[0, 47]" zero_block_info] d [of "[0, 47]"] by simp
  have len: "2 \<le> length ([0, 48] @ sample_header_bytes)" "length ([0, 48] @ sample_header_bytes) \<le> 100"
    by (simp_all add: sample_header_bytes_def bytes_of_def)
  have "read_header_spec ([0, 48] @ sample_header_bytes) = Inr (48, sample_header_bytes)"
    by (simp add: read_header_spec_def be_val_def ASDF_BLOCK_HEADER_SIZE_def Let_def sample_header_bytes_def bytes_of_def)
  moreover have "header_of_bytes 48 sample_header_bytes = \<lparr>header_size = 48, flags = 1,
       compression = bytes_of ''zlib'', allocated_size = 256, used_size = 9, data_size = 513,
       checksum = [1, 2, 3, 4, 5, 6, 7, 8, 9, 10, 11, 12, 13, 14, 15, 16]\<rparr>"
    by (simp add: header_of_bytes_def sample_header_bytes_def bytes_of_def be_val_def)
  ultimately have "\<exists>s'. asdf_block_info_read (block_stream ([0, 48] @ sample_header_bytes)) zero_block_info = Some (True, s',
      zero_block_info\<lparr>header_pos := 0, data_pos := 54, bi_header := \<lparr>header_size = 48, flags = 1,
       compression = bytes_of ''zlib'', allocated_size = 256, used_size = 9, data_size = 513,
       checksum = [1, 2, 3, 4, 5, 6, 7, 8, 9, 10, 11, 12, 13, 14, 15, 16]\<rparr>\<rparr>) \<and>
      file_rest s' = drop 54 (file_rest (block_stream ([0, 48] @ sample_header_bytes)))"
    using file_block_read [OF inv(1) [OF len] inv(2) [OF len] inv(3) [OF len], of zero_block_info]
    unfolding d [OF len] inv(5) [OF len] by (simp del: append_Cons append_Nil) blast
  moreover have "drop 54 (file_rest (block_stream ([0, 48] @ sample_header_bytes))) = []"
    unfolding inv(4) [OF len] by (simp add: asdf_block_magic_def sample_header_bytes_def bytes_of_def)
  ultimately show ?thesis using short by auto
qed

end
