(* ===== verification/Asdf_Version.thy ===== *)
theory Asdf_Version
  imports Asdf_Prelude
begin

text \<open>
  Version strings and tags: \<^verbatim>\<open>src/version.c\<close> and \<^verbatim>\<open>src/tag.c\<close>. A C string is the list of its
  bytes before the terminating zero; reading at its end gives the zero byte.
\<close>

section \<open>Data\<close>

record asdf_version =
  ver_string :: bytes
  major :: u32
  minor :: u32
  patch :: u32
  extra :: "bytes option"

record asdf_tag =
  tag_name :: bytes
  tag_version :: "asdf_version option"

section \<open>The C library on strings\<close>

definition is_digit :: "byte \<Rightarrow> bool" where
  "is_digit b \<longleftrightarrow> 48 \<le> b \<and> b \<le> 57"

definition chr_at :: "bytes \<Rightarrow> byte" where
  "chr_at s = (case s of [] \<Rightarrow> 0 | b # _ \<Rightarrow> b)"

definition digits_val :: "bytes \<Rightarrow> nat" where
  "digits_val bs = foldl (\<lambda>a b. a * 10 + (unat b - 48)) 0 bs"

text \<open>\<^verbatim>\<open>strtoul\<close> in base ten on a string that starts with a digit: the value, saturating at
  \<^verbatim>\<open>ULONG_MAX\<close>, and the rest of the string.\<close>

definition strtoul :: "bytes \<Rightarrow> nat \<times> bytes" where
  "strtoul s = (min (digits_val (takeWhile is_digit s)) (2 ^ 64 - 1), dropWhile is_digit s)"

section \<open>version.c\<close>

text \<open>\<^verbatim>\<open>ver->extra = strdup(e)\<close> with its failure path.\<close>

definition version_set_extra ::
  "heap \<Rightarrow> asdf_version \<Rightarrow> bytes \<Rightarrow> asdf_version option \<times> heap" where
  "version_set_extra h ver e =
     (case alloc h of
        (False, h) \<Rightarrow> (None, h)
      | (True, h) \<Rightarrow> (Some (ver\<lparr>extra := Some e\<rparr>), h))"

definition version_parse_patch ::
  "heap \<Rightarrow> asdf_version \<Rightarrow> bytes \<Rightarrow> asdf_version option \<times> heap" where
  "version_parse_patch h ver chr =
     (let (v, rem) = strtoul chr; ver = ver\<lparr>patch := of_nat v\<rparr> in
      if chr_at rem \<noteq> 0 then
        (let rem = (if chr_at rem = 46 \<or> chr_at rem = 45 then tl rem else rem) in
         if chr_at rem \<noteq> 0 then version_set_extra h ver rem else (Some ver, h))
      else (Some ver, h))"

definition version_parse_minor ::
  "heap \<Rightarrow> asdf_version \<Rightarrow> bytes \<Rightarrow> asdf_version option \<times> heap" where
  "version_parse_minor h ver chr =
     (let (v, rem) = strtoul chr; ver = ver\<lparr>minor := of_nat v\<rparr> in
      if chr_at rem \<noteq> 46 then
        (if chr_at rem \<noteq> 0 then version_set_extra h ver rem else (Some ver, h))
      else if \<not> is_digit (chr_at (tl rem)) then version_set_extra h ver (tl rem)
      else version_parse_patch h ver (tl rem))"

definition version_parse_major ::
  "heap \<Rightarrow> asdf_version \<Rightarrow> bytes \<Rightarrow> asdf_version option \<times> heap" where
  "version_parse_major h ver chr =
     (let (v, rem) = strtoul chr; ver = ver\<lparr>major := of_nat v\<rparr> in
      if chr_at rem \<noteq> 46 then
        (if chr_at rem \<noteq> 0 then version_set_extra h ver rem else (Some ver, h))
      else if \<not> is_digit (chr_at (tl rem)) then version_set_extra h ver (tl rem)
      else version_parse_minor h ver (tl rem))"

definition asdf_version_parse :: "heap \<Rightarrow> bytes option \<Rightarrow> asdf_version option \<times> heap" where
  "asdf_version_parse h v =
     (case v of
        None \<Rightarrow> (None, h)
      | Some version \<Rightarrow>
          (case alloc h of
             (False, h) \<Rightarrow> (None, h)
           | (True, h) \<Rightarrow>
               (case alloc h of
                  (False, h) \<Rightarrow> (None, h)
                | (True, h) \<Rightarrow>
                    (let ver = \<lparr>ver_string = version, major = 0, minor = 0, patch = 0, extra = None\<rparr> in
                     if \<not> is_digit (chr_at version) then (Some ver, h)
                     else version_parse_major h ver version))))"

definition asdf_version_copy :: "heap \<Rightarrow> asdf_version \<Rightarrow> asdf_version option \<times> heap" where
  "asdf_version_copy h v =
     (case alloc h of
        (False, h) \<Rightarrow> (None, h)
      | (True, h) \<Rightarrow>
          (case alloc h of
             (False, h) \<Rightarrow> (None, h)
           | (True, h) \<Rightarrow>
               (let nv = \<lparr>ver_string = ver_string v, major = major v, minor = minor v,
                         patch = patch v, extra = None\<rparr> in
                case extra v of
                  None \<Rightarrow> (Some nv, h)
                | Some e \<Rightarrow> version_set_extra h nv e)))"

section \<open>tag.c\<close>

definition asdf_tag_parse :: "heap \<Rightarrow> bytes option \<Rightarrow> asdf_tag option \<times> heap" where
  "asdf_tag_parse h t =
     (case t of
        None \<Rightarrow> (None, h)
      | Some tag \<Rightarrow>
          (case alloc h of
             (False, h) \<Rightarrow> (None, h)
           | (True, h) \<Rightarrow>
               (case alloc h of
                  (False, h) \<Rightarrow> (None, h)
                | (True, h) \<Rightarrow>
                    if 45 \<notin> set tag then (Some \<lparr>tag_name = tag, tag_version = None\<rparr>, h)
                    else
                      let name = takeWhile (\<lambda>b. b \<noteq> 45) tag;
                          (ok, h) = alloc h;
                          version = (if ok then Some (tl (dropWhile (\<lambda>b. b \<noteq> 45) tag)) else None);
                          (v, h) = asdf_version_parse h version
                      in case v of
                           None \<Rightarrow> (None, h)
                         | Some v \<Rightarrow> (Some \<lparr>tag_name = name, tag_version = Some v\<rparr>, h))))"

section \<open>Decimal numerals\<close>

text \<open>The printed form of a number, as the specification side of the round trip.\<close>

fun dec :: "nat \<Rightarrow> bytes" where
  "dec n = (if n < 10 then [of_nat (48 + n)] else dec (n div 10) @ [of_nat (48 + n mod 10)])"

lemmas dec.simps [simp del]

lemma digit_code: "d < 10 \<Longrightarrow> is_digit (of_nat (48 + d)) \<and> unat (of_nat (48 + d) :: byte) = 48 + d"
proof -
  assume "d < 10"
  then have "unat (of_nat (48 + d) :: byte) = 48 + d"
    by (simp add: unat_of_nat del: of_nat_add)
  with \<open>d < 10\<close> show ?thesis by (simp add: is_digit_def word_le_nat_alt del: of_nat_add)
qed

lemma digits_val_snoc: "digits_val (xs @ [b]) = digits_val xs * 10 + (unat b - 48)"
  by (simp add: digits_val_def)

lemma dec_digits: "(\<forall>b \<in> set (dec n). is_digit b) \<and> dec n \<noteq> [] \<and> digits_val (dec n) = n"
proof (induction n rule: dec.induct)
  case (1 n)
  show ?case
  proof (cases "n < 10")
    case True
    with digit_code [of n] show ?thesis
      by (subst (1 2 3) dec.simps) (simp add: digits_val_def)
  next
    case False
    have "is_digit (of_nat (48 + n mod 10)) \<and> unat (of_nat (48 + n mod 10) :: byte) = 48 + n mod 10"
      by (rule digit_code) simp
    with False 1 show ?thesis
      by (subst (1 2 3) dec.simps) (auto simp: digits_val_snoc simp del: of_nat_add)
  qed
qed

lemma strtoul_dec:
  assumes "n < 2 ^ 32" and "\<not> is_digit (chr_at r)"
  shows "strtoul (dec n @ r) = (n, r)"
proof -
  have tw: "takeWhile is_digit (dec n @ r) = dec n" "dropWhile is_digit (dec n @ r) = r"
    using dec_digits [of n] assms(2) by (cases r; auto simp: chr_at_def)+
  with assms(1) dec_digits [of n] show ?thesis by (simp add: strtoul_def)
qed

lemma chr_at_dec: "is_digit (chr_at (dec n @ r))"
  using dec_digits [of n] by (cases "dec n") (auto simp: chr_at_def)

lemma not_digit_sep [simp]: "\<not> is_digit 46" "\<not> is_digit 45" "\<not> is_digit 0"
  by (simp_all add: is_digit_def)

lemma chr_at_Cons [simp]: "chr_at (b # bs) = b" "chr_at [] = 0"
  by (simp_all add: chr_at_def)

text \<open>The round trip for dotted numbers with an optional suffix after a dot or a hyphen.\<close>

lemma version_parse_xyz:
  assumes "x < 2 ^ 32" "y < 2 ^ 32" "z < 2 ^ 32"
  shows "asdf_version_parse [] (Some (dec x @ 46 # dec y @ 46 # dec z)) =
    (Some \<lparr>ver_string = dec x @ 46 # dec y @ 46 # dec z, major = of_nat x, minor = of_nat y,
           patch = of_nat z, extra = None\<rparr>, [])"
  using assms strtoul_dec [of z "[]"]
  by (simp add: asdf_version_parse_def version_parse_major_def version_parse_minor_def
      version_parse_patch_def strtoul_dec chr_at_dec chr_at_dec [of _ "[]", simplified])

lemma version_parse_xyz_extra:
  assumes "x < 2 ^ 32" "y < 2 ^ 32" "z < 2 ^ 32" and "sep = 46 \<or> sep = 45"
    and "sfx \<noteq> []" and "0 \<notin> set sfx"
  shows "asdf_version_parse [] (Some (dec x @ 46 # dec y @ 46 # dec z @ sep # sfx)) =
    (Some \<lparr>ver_string = dec x @ 46 # dec y @ 46 # dec z @ sep # sfx, major = of_nat x,
           minor = of_nat y, patch = of_nat z, extra = Some sfx\<rparr>, [])"
proof -
  have "chr_at sfx \<noteq> 0" using assms(5,6) by (cases sfx) auto
  with assms(1-4) show ?thesis
    by (auto simp: asdf_version_parse_def version_parse_major_def version_parse_minor_def
        version_parse_patch_def strtoul_dec chr_at_dec version_set_extra_def)
qed

lemma version_copy_eq: "asdf_version_copy [] v = (Some v, [])"
  by (cases v) (auto simp: asdf_version_copy_def version_set_extra_def Let_def split: option.splits)

section \<open>Properties\<close>

text \<open>A version printed as three numbers below \<open>2\<^sup>3\<^sup>2\<close> and a suffix behind a dot or a hyphen is
  parsed into these numbers and this suffix.\<close>

theorem version_roundtrip:
  assumes "x < 2 ^ 32" "y < 2 ^ 32" "z < 2 ^ 32" and "sep = 46 \<or> sep = 45" and "0 \<notin> set sfx"
  shows "\<exists>v. asdf_version_parse [] (Some (dec x @ 46 # dec y @ 46 # dec z @ (if sfx = [] then [] else sep # sfx))) =
      (Some v, []) \<and> unat (major v) = x \<and> unat (minor v) = y \<and> unat (patch v) = z \<and>
    extra v = (if sfx = [] then None else Some sfx)"
proof (cases "sfx = []")
  case True
  with assms version_parse_xyz [of x y z] show ?thesis by (simp add: unat_of_nat)
next
  case False
  with assms version_parse_xyz_extra [of x y z sep sfx] show ?thesis by (simp add: unat_of_nat)
qed

theorem version_roundtrip_witness:
  "\<exists>v. asdf_version_parse [] (Some (dec 1 @ 46 # dec 6 @ 46 # dec 0 @ [45, 100, 101, 118])) = (Some v, []) \<and>
    unat (major v) = 1 \<and> unat (minor v) = 6 \<and> unat (patch v) = 0 \<and> extra v = Some [100, 101, 118]"
  using version_roundtrip [of 1 6 0 45 "[100, 101, 118]"] by simp

text \<open>Copying a version gives an equal version.\<close>

theorem version_copy_equal: "asdf_version_copy [] v = (Some v, [])"
  by (rule version_copy_eq)

end
