(* ===== verification/Asdf_Parse_Util.thy ===== *)
theory Asdf_Parse_Util
  imports Asdf_Block Asdf_Version
begin

text \<open>
  The parser's helpers, \<^verbatim>\<open>src/parse_util.c\<close> and \<^verbatim>\<open>src/parse_util.h\<close>: the tokens it scans for,
  the recognisers for the \<^verbatim>\<open>%YAML\<close> directive and the end of the YAML document. A recogniser is
  given the window of readable bytes; one that reads behind it has no result.
\<close>

section \<open>Tokens\<close>

definition asdf_standard_comment :: bytes where
  "asdf_standard_comment = bytes_of ''#ASDF_STANDARD ''"

definition asdf_version_comment :: bytes where
  "asdf_version_comment = bytes_of ''#ASDF ''"

definition asdf_yaml_directive_prefix :: bytes where
  "asdf_yaml_directive_prefix = bytes_of ''%YAML ''"

definition asdf_yaml_directive :: bytes where
  "asdf_yaml_directive = bytes_of ''%YAML 1.1''"

definition asdf_yaml_document_end_marker :: bytes where
  "asdf_yaml_document_end_marker = 10 # bytes_of ''...''"

definition ASDF_YAML_DIRECTIVE_SIZE :: nat where
  "ASDF_YAML_DIRECTIVE_SIZE = 9"

definition ASDF_YAML_DIRECTIVE_PREFIX_SIZE :: nat where
  "ASDF_YAML_DIRECTIVE_PREFIX_SIZE = 6"

definition ASDF_YAML_DOCUMENT_END_MARKER_SIZE :: nat where
  "ASDF_YAML_DOCUMENT_END_MARKER_SIZE = 4"

datatype asdf_parse_token_id =
    ASDF_YAML_DIRECTIVE_TOK
  | ASDF_YAML_DOCUMENT_END_TOK
  | ASDF_BLOCK_MAGIC_TOK
  | ASDF_BLOCK_INDEX_HEADER_TOK

fun asdf_parse_tokens :: "asdf_parse_token_id \<Rightarrow> bytes" where
  "asdf_parse_tokens ASDF_YAML_DIRECTIVE_TOK = asdf_yaml_directive_prefix"
| "asdf_parse_tokens ASDF_YAML_DOCUMENT_END_TOK = asdf_yaml_document_end_marker"
| "asdf_parse_tokens ASDF_BLOCK_MAGIC_TOK = asdf_block_magic"
| "asdf_parse_tokens ASDF_BLOCK_INDEX_HEADER_TOK = asdf_block_index_header"

text \<open>\<^verbatim>\<open>asdf_parser_scan_tokens\<close> on the identifiers before \<^verbatim>\<open>ASDF_LAST_TOK\<close>; its local arrays
  have four elements.\<close>

definition asdf_parser_scan_tokens ::
  "asdf_stream \<Rightarrow> asdf_parse_token_id list
     \<Rightarrow> ((nat \<times> asdf_parse_token_id) option \<times> asdf_stream) option" where
  "asdf_parser_scan_tokens s ids =
     (if 4 < length ids then None
      else if ids = [] then Some (None, s)
      else do {
        (r, s) \<leftarrow> asdf_stream_scan s (map asdf_parse_tokens ids);
        Some (map_option (\<lambda>(off, i). (off, ids ! i)) r, s)
      })"

section \<open>Recognisers\<close>

text \<open>\<^verbatim>\<open>while (isdigit( *p) \<and> p < end) ++p\<close>: the byte is read before the bound is tested.\<close>

function skip_digits :: "bytes \<Rightarrow> nat \<Rightarrow> nat option" where
  "skip_digits buf p =
     (if p < length buf
      then (if is_digit (buf ! p) then skip_digits buf (Suc p) else Some p)
      else None)"
  by pat_completeness auto
termination
  by (relation "measure (\<lambda>(buf, p). length buf - p)") auto

lemmas skip_digits.simps [simp del]

definition is_generic_yaml_directive :: "bytes \<Rightarrow> bool option" where
  "is_generic_yaml_directive buf =
     (if length buf < ASDF_YAML_DIRECTIVE_SIZE + 1 then Some False
      else if take ASDF_YAML_DIRECTIVE_PREFIX_SIZE buf \<noteq> asdf_yaml_directive_prefix then Some False
      else do {
        let p = ASDF_YAML_DIRECTIVE_PREFIX_SIZE;
        c \<leftarrow> at_byte buf p;
        if \<not> is_digit c then Some False
        else do {
          p \<leftarrow> skip_digits buf p;
          c \<leftarrow> at_byte buf p;
          if c \<noteq> 46 then Some False
          else do {
            let p = p + 1;
            c \<leftarrow> at_byte buf p;
            if \<not> is_digit c then Some False
            else do {
              p \<leftarrow> skip_digits buf p;
              c \<leftarrow> at_byte buf p;
              let p = (if c = 13 then p + 1 else p);
              c \<leftarrow> at_byte buf p;
              Some (c = 10)
            }
          }
        }
      })"

definition ends_with_newline :: "bytes \<Rightarrow> nat \<Rightarrow> bool" where
  "ends_with_newline buf len =
     (if len = 0 \<or> length buf = 0 \<or> length buf < len + 1 then False
      else buf ! len = 10 \<or> (buf ! len = 13 \<and> length buf \<ge> len + 2 \<and> buf ! (len + 1) = 10))"

definition is_string_with_newline :: "bytes \<Rightarrow> bytes \<Rightarrow> nat \<Rightarrow> bool" where
  "is_string_with_newline buf str len =
     (if length buf < len + 1 then False
      else if take len buf \<noteq> take len str then False
      else ends_with_newline buf len)"

definition is_yaml_1_1_directive :: "bytes \<Rightarrow> bool" where
  "is_yaml_1_1_directive buf = is_string_with_newline buf asdf_yaml_directive ASDF_YAML_DIRECTIVE_SIZE"

definition is_yaml_directive :: "bytes \<Rightarrow> bool option" where
  "is_yaml_directive buf =
     (if is_yaml_1_1_directive buf then Some True else is_generic_yaml_directive buf)"

definition is_yaml_document_end_marker :: "bytes \<Rightarrow> bool" where
  "is_yaml_document_end_marker buf =
     is_string_with_newline buf asdf_yaml_document_end_marker ASDF_YAML_DOCUMENT_END_MARKER_SIZE"

section \<open>What the recognisers accept\<close>

text \<open>A line end, a text followed by one, and a directive line.\<close>

definition eol :: "bytes \<Rightarrow> bool" where
  "eol bs \<longleftrightarrow> (\<exists>r. bs = 10 # r \<or> bs = 13 # 10 # r)"

definition directive_line :: "bytes \<Rightarrow> bool" where
  "directive_line buf \<longleftrightarrow>
     (\<exists>xs ys r. buf = asdf_yaml_directive_prefix @ xs @ [46] @ ys @ r \<and> xs \<noteq> [] \<and> ys \<noteq> [] \<and>
        list_all is_digit xs \<and> list_all is_digit ys \<and> eol r)"

lemma ends_with_newline_iff:
  "0 < len \<Longrightarrow> ends_with_newline buf len \<longleftrightarrow> eol (drop len buf)"
proof (cases "len < length buf")
  case False
  then show "0 < len \<Longrightarrow> ?thesis" by (auto simp: ends_with_newline_def eol_def)
next
  case True
  then have d: "drop len buf = buf ! len # drop (Suc len) buf" by (simp add: Cons_nth_drop_Suc)
  have d2: "drop (Suc len) buf = (if len + 2 \<le> length buf then buf ! (len + 1) # drop (len + 2) buf else [])"
    using True by (auto simp: Cons_nth_drop_Suc)
  show "0 < len \<Longrightarrow> ?thesis"
    using True by (auto simp: ends_with_newline_def eol_def d d2)
qed

lemma is_string_with_newline_iff:
  assumes "0 < length str"
  shows "is_string_with_newline buf str (length str) \<longleftrightarrow> (\<exists>r. buf = str @ r \<and> eol r)"
proof
  assume h: "is_string_with_newline buf str (length str)"
  then have "take (length str) buf = str" by (auto simp: is_string_with_newline_def split: if_splits)
  then have "buf = str @ drop (length str) buf" by (metis append_take_drop_id)
  moreover have "eol (drop (length str) buf)"
    using h assms by (auto simp: is_string_with_newline_def ends_with_newline_iff split: if_splits)
  ultimately show "\<exists>r. buf = str @ r \<and> eol r" by blast
next
  assume "\<exists>r. buf = str @ r \<and> eol r"
  then obtain r where r: "buf = str @ r" "eol r" by blast
  then have "r \<noteq> []" by (auto simp: eol_def)
  with r assms show "is_string_with_newline buf str (length str)"
    by (auto simp: is_string_with_newline_def ends_with_newline_iff Suc_le_eq)
qed

lemma document_end_marker_iff:
  "is_yaml_document_end_marker buf \<longleftrightarrow> (\<exists>r. buf = asdf_yaml_document_end_marker @ r \<and> eol r)"
  using is_string_with_newline_iff [of asdf_yaml_document_end_marker buf]
  by (simp add: is_yaml_document_end_marker_def ASDF_YAML_DOCUMENT_END_MARKER_SIZE_def
      asdf_yaml_document_end_marker_def bytes_of_def numeral_eq_Suc)

lemma yaml_1_1_iff:
  "is_yaml_1_1_directive buf \<longleftrightarrow> (\<exists>r. buf = asdf_yaml_directive @ r \<and> eol r)"
  using is_string_with_newline_iff [of asdf_yaml_directive buf]
  by (simp add: is_yaml_1_1_directive_def ASDF_YAML_DIRECTIVE_SIZE_def
      asdf_yaml_directive_def bytes_of_def numeral_eq_Suc)


lemma at_byte_drop: "at_byte buf p = (case drop p buf of [] \<Rightarrow> None | c # _ \<Rightarrow> Some c)"
  by (cases "p < length buf") (auto simp: at_byte_def simp flip: Cons_nth_drop_Suc)

lemma skip_digits_eq:
  "skip_digits buf p =
     (if dropWhile is_digit (drop p buf) = [] then None
      else Some (p + length (takeWhile is_digit (drop p buf))))"
proof (induction buf p rule: skip_digits.induct)
  case (1 buf p)
  then show ?case
    by (subst skip_digits.simps) (auto simp flip: Cons_nth_drop_Suc)
qed

lemma drop_skipped: "drop (p + length (takeWhile P (drop p buf))) buf = dropWhile P (drop p buf)"
  by (simp add: dropWhile_eq_drop add.commute)

text \<open>The recogniser for directives as a function on the text behind \<^verbatim>\<open>%YAML\<close>.\<close>

definition directive_tail :: "bytes \<Rightarrow> bool option" where
  "directive_tail w =
     (let w2 = tl (dropWhile is_digit w) in
      case w of [] \<Rightarrow> None
      | c # _ \<Rightarrow> if \<not> is_digit c then Some False
        else (case dropWhile is_digit w of [] \<Rightarrow> None
          | c # _ \<Rightarrow> if c \<noteq> 46 then Some False
            else (case w2 of [] \<Rightarrow> None
              | c # _ \<Rightarrow> if \<not> is_digit c then Some False
                else (case dropWhile is_digit w2 of [] \<Rightarrow> None
                  | c # _ \<Rightarrow> if c = 13
                      then (case tl (dropWhile is_digit w2) of [] \<Rightarrow> None | c # _ \<Rightarrow> Some (c = 10))
                      else Some (c = 10)))))"

lemma is_generic_tail:
  "is_generic_yaml_directive buf =
     (if length buf < 10 \<or> take 6 buf \<noteq> asdf_yaml_directive_prefix then Some False
      else directive_tail (drop 6 buf))"
proof -
  define w where "w = drop 6 buf"
  define w2 where "w2 = tl (dropWhile is_digit w)"
  define q where "q = 6 + length (takeWhile is_digit w)"
  define t where "t = Suc q + length (takeWhile is_digit w2)"
  have q: "drop q buf = dropWhile is_digit w" unfolding q_def w_def by (rule drop_skipped)
  have q1: "drop (Suc q) buf = w2" unfolding w2_def by (metis drop_Suc q tl_drop)
  have t: "drop t buf = dropWhile is_digit w2" using drop_skipped [of "Suc q" _ buf] by (simp add: t_def q1)
  have t1: "drop (Suc t) buf = tl (dropWhile is_digit w2)" by (metis drop_Suc t tl_drop)
  have at: "at_byte buf 6 = (case w of [] \<Rightarrow> None | c # _ \<Rightarrow> Some c)"
    "at_byte buf q = (case dropWhile is_digit w of [] \<Rightarrow> None | c # _ \<Rightarrow> Some c)"
    "at_byte buf (Suc q) = (case w2 of [] \<Rightarrow> None | c # _ \<Rightarrow> Some c)"
    "at_byte buf t = (case dropWhile is_digit w2 of [] \<Rightarrow> None | c # _ \<Rightarrow> Some c)"
    "at_byte buf (Suc t) = (case tl (dropWhile is_digit w2) of [] \<Rightarrow> None | c # _ \<Rightarrow> Some c)"
    unfolding at_byte_drop q q1 t t1 w_def by (rule refl)+
  have sk: "skip_digits buf 6 = (if dropWhile is_digit w = [] then None else Some q)"
    "skip_digits buf (Suc q) = (if dropWhile is_digit w2 = [] then None else Some t)"
    unfolding skip_digits_eq q1 by (simp_all only: w_def q_def t_def)
  obtain dw dw2 where dw: "dropWhile is_digit w = dw" "dropWhile is_digit w2 = dw2" by blast
  show ?thesis
    unfolding is_generic_yaml_directive_def ASDF_YAML_DIRECTIVE_SIZE_def
      ASDF_YAML_DIRECTIVE_PREFIX_SIZE_def w_def [symmetric] directive_tail_def Let_def w2_def [symmetric]
    by (simp add: sk [unfolded dw] at [unfolded dw] dw split: list.split)
qed

lemma directive_tail_iff:
  "directive_tail w = Some True \<longleftrightarrow>
     (\<exists>xs ys r. w = xs @ [46] @ ys @ r \<and> xs \<noteq> [] \<and> ys \<noteq> [] \<and>
        list_all is_digit xs \<and> list_all is_digit ys \<and> eol r)"
proof
  assume h: "directive_tail w = Some True"
  then obtain w2 where w2: "dropWhile is_digit w = 46 # w2" "w \<noteq> []" "is_digit (hd w)"
      "w2 \<noteq> []" "is_digit (hd w2)" "eol (dropWhile is_digit w2)"
    by (auto simp: directive_tail_def eol_def Let_def split: list.splits if_splits)
  have "w = takeWhile is_digit w @ [46] @ takeWhile is_digit w2 @ dropWhile is_digit w2"
    using takeWhile_dropWhile_id [of is_digit w] w2(1) by simp
  moreover have "takeWhile is_digit w \<noteq> []" "takeWhile is_digit w2 \<noteq> []"
    using w2 by (cases w; cases w2; simp)+
  moreover have "list_all is_digit (takeWhile is_digit w)" "list_all is_digit (takeWhile is_digit w2)"
    by (auto simp: list_all_iff dest: set_takeWhileD)
  ultimately show "\<exists>xs ys r. w = xs @ [46] @ ys @ r \<and> xs \<noteq> [] \<and> ys \<noteq> [] \<and>
        list_all is_digit xs \<and> list_all is_digit ys \<and> eol r"
    using w2(6) by blast
next
  assume "\<exists>xs ys r. w = xs @ [46] @ ys @ r \<and> xs \<noteq> [] \<and> ys \<noteq> [] \<and>
        list_all is_digit xs \<and> list_all is_digit ys \<and> eol r"
  then obtain xs ys r where w: "w = xs @ [46] @ ys @ r" "xs \<noteq> []" "ys \<noteq> []"
      "\<forall>x \<in> set xs. is_digit x" "\<forall>y \<in> set ys. is_digit y" "eol r"
    by (auto simp: list_all_iff)
  have nd: "\<not> is_digit 46" "\<not> is_digit 10" "\<not> is_digit 13" by (simp_all add: is_digit_def)
  obtain x xs' y ys' where c: "xs = x # xs'" "ys = y # ys'" using w(2,3) by (auto simp: neq_Nil_conv)
  have d1: "dropWhile is_digit w = 46 # ys @ r"
    unfolding w(1) using w(4) nd by (simp add: dropWhile_append2)
  have d2: "dropWhile is_digit (ys @ r) = r"
    using w(5,6) nd by (auto simp: dropWhile_append2 eol_def)
  have "is_digit x" "is_digit y" using w(4,5) c by auto
  moreover have "w = x # xs' @ [46] @ ys @ r" using w(1) c by simp
  ultimately show "directive_tail w = Some True"
    using w(6) d1 d2 c by (auto simp: directive_tail_def eol_def Let_def)
qed

lemma generic_directive_iff: "is_generic_yaml_directive buf = Some True \<longleftrightarrow> directive_line buf"
proof -
  have pl: "length asdf_yaml_directive_prefix = 6"
    by (simp add: asdf_yaml_directive_prefix_def bytes_of_def)
  have split: "take 6 buf = asdf_yaml_directive_prefix \<longleftrightarrow> buf = asdf_yaml_directive_prefix @ drop 6 buf"
    by (metis append_eq_conv_conj append_take_drop_id pl)
  show ?thesis
  proof
    assume "is_generic_yaml_directive buf = Some True"
    then have "take 6 buf = asdf_yaml_directive_prefix" "directive_tail (drop 6 buf) = Some True"
      by (auto simp: is_generic_tail split: if_splits)
    then show "directive_line buf"
      unfolding split directive_tail_iff directive_line_def by metis
  next
    assume "directive_line buf"
    then obtain xs ys r where b: "buf = asdf_yaml_directive_prefix @ xs @ [46] @ ys @ r" "xs \<noteq> []"
        "ys \<noteq> []" "list_all is_digit xs" "list_all is_digit ys" "eol r"
      unfolding directive_line_def by blast
    then have "0 < length xs" "0 < length ys" "0 < length r" by (auto simp: eol_def)
    moreover have "length buf = 7 + length xs + length ys + length r" using b(1) pl by simp
    ultimately have "10 \<le> length buf" by linarith
    moreover have "take 6 buf = asdf_yaml_directive_prefix" using b(1) pl by simp
    moreover have "drop 6 buf = xs @ [46] @ ys @ r" using b(1) pl by simp
    then have "directive_tail (drop 6 buf) = Some True" unfolding directive_tail_iff using b by blast
    ultimately show "is_generic_yaml_directive buf = Some True" by (simp add: is_generic_tail)
  qed
qed

lemma yaml_1_1_is_directive_line: "is_yaml_1_1_directive buf \<Longrightarrow> directive_line buf"
proof -
  have "asdf_yaml_directive = asdf_yaml_directive_prefix @ [49] @ [46] @ [49]"
    by (simp add: asdf_yaml_directive_def asdf_yaml_directive_prefix_def bytes_of_def of_char_def)
  moreover have "is_digit 49" by (simp add: is_digit_def)
  ultimately show "is_yaml_1_1_directive buf \<Longrightarrow> directive_line buf"
    unfolding yaml_1_1_iff directive_line_def by (metis append_assoc list.pred_inject list.distinct(1))
qed

lemma yaml_directive_iff: "is_yaml_directive buf = Some True \<longleftrightarrow> directive_line buf"
  using generic_directive_iff yaml_1_1_is_directive_line by (auto simp: is_yaml_directive_def)

text \<open>The recogniser stays inside the window whenever a line feed is in it.\<close>

lemma directive_tail_newline: "10 \<in> set w \<Longrightarrow> directive_tail w \<noteq> None"
proof
  assume nl: "10 \<in> set w" and none: "directive_tail w = None"
  have keep: "10 \<in> set (dropWhile is_digit v)" if "10 \<in> set v" for v
    using that by (induction v) (auto simp: is_digit_def)
  show False
    using none nl keep [of w] keep [of "tl (dropWhile is_digit w)"]
    by (auto simp: directive_tail_def Let_def split: list.splits if_splits)
qed

lemma yaml_directive_returns:
  "10 \<in> set (drop ASDF_YAML_DIRECTIVE_PREFIX_SIZE buf) \<Longrightarrow> is_yaml_directive buf = Some (directive_line buf)"
proof -
  assume "10 \<in> set (drop ASDF_YAML_DIRECTIVE_PREFIX_SIZE buf)"
  then have "is_yaml_directive buf \<noteq> None"
    by (auto simp: is_yaml_directive_def is_generic_tail ASDF_YAML_DIRECTIVE_PREFIX_SIZE_def
        dest: directive_tail_newline)
  then show ?thesis using yaml_directive_iff [of buf] by (cases "is_yaml_directive buf") auto
qed

text \<open>A window that ends inside the version number is read past its end.\<close>

lemma yaml_directive_over_read: "is_yaml_directive (bytes_of ''%YAML 1.12'') = None"
  by (simp add: is_yaml_directive_def is_generic_tail is_yaml_1_1_directive_def
      is_string_with_newline_def ends_with_newline_def bytes_of_def of_char_def directive_tail_def
      asdf_yaml_directive_def asdf_yaml_directive_prefix_def ASDF_YAML_DIRECTIVE_SIZE_def is_digit_def)

section \<open>Properties\<close>

text \<open>C20. A window is taken for a \<^verbatim>\<open>%YAML\<close> directive exactly when it starts with a complete directive
  line, and the check stays inside the window whenever a line feed is in it.\<close>

theorem yaml_directive_exact:
  "(is_yaml_directive buf = Some True \<longleftrightarrow> directive_line buf) \<and>
   (10 \<in> set (drop ASDF_YAML_DIRECTIVE_PREFIX_SIZE buf) \<longrightarrow> is_yaml_directive buf = Some (directive_line buf))"
  using yaml_directive_iff yaml_directive_returns by blast

theorem yaml_directive_exact_witness:
  "directive_line (bytes_of ''%YAML 1.2'' @ [13, 10]) \<and> \<not> directive_line (bytes_of ''%YAML x.2'' @ [10])"
  using yaml_directive_exact [of "bytes_of ''%YAML 1.2'' @ [13, 10]"] yaml_directive_exact [of "bytes_of ''%YAML x.2'' @ [10]"]
  by (simp add: is_yaml_directive_def is_generic_tail is_yaml_1_1_directive_def is_string_with_newline_def
      ends_with_newline_def bytes_of_def of_char_def directive_tail_def asdf_yaml_directive_def
      asdf_yaml_directive_prefix_def ASDF_YAML_DIRECTIVE_SIZE_def is_digit_def Let_def)

text \<open>A window that ends inside the version of a directive is read one byte past its end.\<close>

theorem yaml_directive_reads_past_end: "is_yaml_directive (bytes_of ''%YAML 1.12'') = None"
  by (rule yaml_directive_over_read)

text \<open>A window is taken for the end of the YAML document exactly when it starts with a line feed,
  three dots and a line end.\<close>

theorem document_end_exact:
  "is_yaml_document_end_marker buf \<longleftrightarrow> (\<exists>r. buf = [10, 46, 46, 46, 10] @ r \<or> buf = [10, 46, 46, 46, 13, 10] @ r)"
  by (auto simp: document_end_marker_iff eol_def asdf_yaml_document_end_marker_def bytes_of_def of_char_def)

end
