(* ===== verification/Asdf_Parser.thy ===== *)
theory Asdf_Parser
  imports Asdf_Parse_Util
begin

text \<open>
  The event parser, \<^verbatim>\<open>src/parser.c\<close> and \<^verbatim>\<open>src/parser.h\<close>: a state machine over a stream that turns
  a file into a sequence of events. libfyaml, the capacity policy of the STC vectors and the
  page size are the fields of \<open>parser_env\<close>, an argument of the operations that use them. The
  parser and its stream share one context, the \<^term>\<open>s_ctx\<close> of the stream. \<^verbatim>\<open>assert\<close> is on.
\<close>

section \<open>Data\<close>

datatype asdf_parser_state =
    ASDF_PARSER_STATE_INITIAL
  | ASDF_PARSER_STATE_ASDF_VERSION
  | ASDF_PARSER_STATE_STANDARD_VERSION
  | ASDF_PARSER_STATE_COMMENT
  | ASDF_PARSER_STATE_TREE_OR_BLOCK
  | ASDF_PARSER_STATE_TREE
  | ASDF_PARSER_STATE_YAML
  | ASDF_PARSER_STATE_BLOCK
  | ASDF_PARSER_STATE_PADDING
  | ASDF_PARSER_STATE_BLOCK_INDEX
  | ASDF_PARSER_STATE_END
  | ASDF_PARSER_STATE_ERROR

datatype parse_result = ASDF_PARSE_ERROR | ASDF_PARSE_CONTINUE | ASDF_PARSE_EVENT

text \<open>The libfyaml events the parser tells apart, with the position of the end mark.\<close>

datatype fy_event_type = FYET_STREAM_END | FYET_DOCUMENT_END | FYET_OTHER nat

record fy_event =
  fy_type :: fy_event_type
  fy_end_mark :: "nat option"

record asdf_tree_info =
  ti_start :: nat
  ti_end :: nat
  ti_buf :: "bytes option"

datatype asdf_event =
    ASDF_NONE_EVENT
  | ASDF_ASDF_VERSION_EVENT asdf_version
  | ASDF_STANDARD_VERSION_EVENT asdf_version
  | ASDF_COMMENT_EVENT bytes
  | ASDF_TREE_START_EVENT "asdf_tree_info option"
  | ASDF_YAML_EVENT "fy_event option"
  | ASDF_TREE_END_EVENT "asdf_tree_info option"
  | ASDF_BLOCK_EVENT asdf_block_info
  | ASDF_BLOCK_INDEX_EVENT "int list"
  | ASDF_END_EVENT

record asdf_parser_tree_info =
  tree_start :: int
  tree_end :: int
  tree_buf :: "bytes option"
  tree_found :: bool
  tree_done :: bool
  has_tree :: int

text \<open>The block index vector, with its capacity.\<close>

record block_index_vec =
  v_items :: "int list"
  v_cap :: nat

record asdf_parser_block_info =
  infos :: "asdf_block_info list"
  block_index :: block_index_vec
  has_index :: bool
  block_count :: nat
  block_found :: nat

text \<open>What libfyaml was given to parse: a buffer, the \<^verbatim>\<open>FILE\<close> at a position, or a pointer into
  the memory of the stream with a length.\<close>

datatype fy_input = FyString bytes | FyFile nat | FyMem nat nat

text \<open>
  \<open>fy_parse inp k\<close> is what the \<open>k\<close>-th call of \<^verbatim>\<open>fy_parser_parse\<close> gives: the event, whether the
  parser is in the error state, and where a \<^verbatim>\<open>FILE\<close> it reads stands afterwards. \<open>fy_index\<close> is the
  sequence a document holds, each item with its integer if it scans as one; \<^term>\<open>None\<close> when
  there is no document or its root is no sequence. \<open>vec_grow cap n\<close> is the capacity of a vector
  after room was made for \<open>n\<close> elements.
\<close>

record parser_env =
  env_page_size :: int
  vec_grow :: "nat \<Rightarrow> nat \<Rightarrow> nat"
  fy_create_ok :: bool
  fy_set_ok :: bool
  fy_parse :: "fy_input \<Rightarrow> nat \<Rightarrow> fy_event option \<times> bool \<times> nat"
  fy_stream_end_ok :: bool
  fy_index :: "bytes \<Rightarrow> int option list option"

text \<open>
  \<open>p_has_stream\<close> is whether an input was set; before that only the context of \<open>p_stream\<close> means
  anything. The event slots are numbered by the order of their allocation: \<open>ev_free\<close> is the
  freelist, \<open>ev_cur\<close> the current slot, \<open>ev_fresh\<close> the number of the next one.
\<close>

record asdf_parser =
  p_has_stream :: bool
  p_stream :: asdf_stream
  p_flags :: u64
  p_state :: asdf_parser_state
  p_should_close :: bool
  ev_free :: "nat list"
  ev_cur :: "nat option"
  ev_fresh :: nat
  p_asdf_version :: "asdf_version option"
  p_standard_version :: "asdf_version option"
  yaml_parser :: "(fy_input \<times> nat) option"
  p_tree :: asdf_parser_tree_info
  p_block :: asdf_parser_block_info
  p_done :: bool

definition ASDF_PARSER_OPT_EMIT_YAML_EVENTS :: u64 where
  "ASDF_PARSER_OPT_EMIT_YAML_EVENTS = 1"

definition ASDF_PARSER_OPT_BUFFER_TREE :: u64 where
  "ASDF_PARSER_OPT_BUFFER_TREE = 2"

definition ASDF_PARSER_READ_BUFFER_INIT_SIZE :: nat where
  "ASDF_PARSER_READ_BUFFER_INIT_SIZE = 512"

definition ASDF_DEFAULT_BLOCK_INDEX_SIZE :: nat where
  "ASDF_DEFAULT_BLOCK_INDEX_SIZE = 8"

definition PTRDIFF_MAX :: nat where
  "PTRDIFF_MAX = 2 ^ 63 - 1"

definition asdf_parser_has_opt :: "asdf_parser \<Rightarrow> u64 \<Rightarrow> bool" where
  "asdf_parser_has_opt p opt \<longleftrightarrow> p_flags p AND opt = opt"

section \<open>Helpers\<close>

text \<open>\<^verbatim>\<open>ASDF_ERROR_COMMON(parser, code)\<close>, \<^verbatim>\<open>ASDF_ERROR_OOM(parser)\<close>, \<^verbatim>\<open>ASDF_ERROR_GET(parser)\<close>
  and an allocation.\<close>

definition parser_error :: "asdf_parser \<Rightarrow> asdf_error_code \<Rightarrow> asdf_parser option" where
  "parser_error p code = do {
     ctx \<leftarrow> asdf_context_error_common (s_ctx (p_stream p)) code [];
     Some (p\<lparr>p_stream := (p_stream p)\<lparr>s_ctx := ctx\<rparr>\<rparr>)
   }"

definition parser_oom :: "asdf_parser \<Rightarrow> asdf_parser" where
  "parser_oom p =
     p\<lparr>p_stream := (p_stream p)\<lparr>s_ctx := asdf_context_error_oom (s_ctx (p_stream p))\<rparr>\<rparr>"

definition parser_failed :: "asdf_parser \<Rightarrow> bool" where
  "parser_failed p \<longleftrightarrow> error (s_ctx (p_stream p)) \<noteq> None"

definition parser_alloc :: "asdf_parser \<Rightarrow> bool \<times> asdf_parser" where
  "parser_alloc p =
     (let (ok, ctx) = ctx_alloc (s_ctx (p_stream p))
      in (ok, p\<lparr>p_stream := (p_stream p)\<lparr>s_ctx := ctx\<rparr>\<rparr>))"

text \<open>\<^verbatim>\<open>TRY_SEEK\<close>: whether the seek succeeded; if not, the error is set.\<close>

definition try_seek :: "asdf_parser \<Rightarrow> int \<Rightarrow> whence \<Rightarrow> (bool \<times> asdf_parser) option" where
  "try_seek p offset w = do {
     (r, s) \<leftarrow> asdf_stream_seek (p_stream p) offset w;
     let p = p\<lparr>p_stream := s\<rparr>;
     if r \<noteq> 0 then do { p \<leftarrow> parser_error p ASDF_ERR_UNEXPECTED_EOF; Some (False, p) }
     else Some (True, p)
   }"

text \<open>\<^verbatim>\<open>strndup\<close> and \<^verbatim>\<open>strncmp(a, b, strlen(b)) == 0\<close>, reading no further than they need to.\<close>

definition strndup :: "bytes \<Rightarrow> nat \<Rightarrow> bytes option" where
  "strndup src n =
     (let t = takeWhile (\<lambda>b. b \<noteq> 0) (take n src)
      in if length t < length (take n src) \<or> n \<le> length src then Some t else None)"

definition strncmp_eq :: "bytes \<Rightarrow> bytes \<Rightarrow> bool option" where
  "strncmp_eq a b =
     (if take (length b) a = b then Some True
      else if a = take (length a) b then None
      else Some False)"

section \<open>The header\<close>

text \<open>The version parsed, or \<^term>\<open>None\<close> after an error.\<close>

definition parse_version_comment ::
  "asdf_parser \<Rightarrow> bytes \<Rightarrow> (asdf_version option \<times> asdf_parser) option" where
  "parse_version_comment p expected = do {
     (line, s) \<leftarrow> asdf_stream_readline (p_stream p);
     let p = p\<lparr>p_stream := s\<rparr>;
     (case line of
        None \<Rightarrow> do { p \<leftarrow> parser_error p ASDF_ERR_UNEXPECTED_EOF; Some (None, p) }
      | Some (buf, line_len) \<Rightarrow> do {
          let expected_len = length expected;
          same \<leftarrow> (if line_len < expected_len then Some False else strncmp_eq buf expected);
          if \<not> same then do { p \<leftarrow> parser_error p ASDF_ERR_INVALID_ASDF_HEADER; Some (None, p) }
          else do {
            let to_copy = size_sub (size_sub line_len expected_len) 1;
            let (ok, p) = parser_alloc p;
            if \<not> ok then Some (None, parser_oom p)
            else do {
              version_str \<leftarrow> strndup (drop expected_len buf) to_copy;
              let (parsed, h) = asdf_version_parse (ctx_heap (s_ctx (p_stream p))) (Some version_str);
              let p = p\<lparr>p_stream := (p_stream p)\<lparr>s_ctx := (s_ctx (p_stream p))\<lparr>ctx_heap := h\<rparr>\<rparr>\<rparr>;
              (case parsed of
                 None \<Rightarrow> Some (None, parser_oom p)
               | Some v \<Rightarrow> Some (Some v, p))
            }
          }
        })
   }"

definition parse_asdf_version ::
  "asdf_parser \<Rightarrow> asdf_event \<Rightarrow> (parse_result \<times> asdf_parser \<times> asdf_event) option" where
  "parse_asdf_version p ev = do {
     (v, p) \<leftarrow> parse_version_comment p asdf_version_comment;
     (case v of
        None \<Rightarrow> Some (ASDF_PARSE_ERROR, p, ev)
      | Some ver \<Rightarrow>
          Some (ASDF_PARSE_EVENT,
                p\<lparr>p_asdf_version := Some ver, p_state := ASDF_PARSER_STATE_STANDARD_VERSION\<rparr>,
                ASDF_ASDF_VERSION_EVENT ver))
   }"

definition parse_standard_version ::
  "asdf_parser \<Rightarrow> asdf_event \<Rightarrow> (parse_result \<times> asdf_parser \<times> asdf_event) option" where
  "parse_standard_version p ev = do {
     (v, p) \<leftarrow> parse_version_comment p asdf_standard_comment;
     (case v of
        None \<Rightarrow> Some (ASDF_PARSE_ERROR, p, ev)
      | Some ver \<Rightarrow>
          Some (ASDF_PARSE_EVENT,
                p\<lparr>p_standard_version := Some ver, p_state := ASDF_PARSER_STATE_COMMENT\<rparr>,
                ASDF_STANDARD_VERSION_EVENT ver))
   }"

text \<open>The body of the loop of \<^verbatim>\<open>parse_comment\<close>. On a failing \<^verbatim>\<open>readline\<close> it returns 1, which is
  \<^verbatim>\<open>ASDF_PARSE_EVENT\<close>.\<close>

definition parse_comment_step ::
  "asdf_parser \<times> asdf_event
     \<Rightarrow> (asdf_parser \<times> asdf_event + parse_result \<times> asdf_parser \<times> asdf_event) option" where
  "parse_comment_step = (\<lambda>(p, ev). do {
     (buf, s) \<leftarrow> asdf_stream_peek (p_stream p) 1;
     let p = p\<lparr>p_stream := s\<rparr>;
     (case buf of
        [] \<Rightarrow> Some (Inr (ASDF_PARSE_CONTINUE, p\<lparr>p_state := ASDF_PARSER_STATE_BLOCK_INDEX\<rparr>, ev))
      | b # _ \<Rightarrow>
          if b = 13 \<or> b = 10 then do {
            s \<leftarrow> asdf_stream_consume (p_stream p) 1;
            let p = p\<lparr>p_stream := s\<rparr>;
            Some (if parser_failed p then Inr (ASDF_PARSE_ERROR, p, ev) else Inl (p, ev))
          }
          else if b = 35 then do {
            (line, s) \<leftarrow> asdf_stream_readline (p_stream p);
            let p = p\<lparr>p_stream := s\<rparr>;
            (case line of
               None \<Rightarrow> do {
                 p \<leftarrow> parser_error p ASDF_ERR_UNEXPECTED_EOF;
                 Some (Inr (ASDF_PARSE_EVENT, p, ev))
               }
             | Some (buf, len) \<Rightarrow> do {
                 let (ok, p) = parser_alloc p;
                 if \<not> ok then Some (Inr (ASDF_PARSE_ERROR, parser_oom p, ev))
                 else do {
                   comment \<leftarrow> strndup (drop 1 buf) (size_sub len 1);
                   Some (Inr (ASDF_PARSE_EVENT, p,
                     ASDF_COMMENT_EVENT (takeWhile (\<lambda>b. b \<noteq> 13 \<and> b \<noteq> 10) comment)))
                 }
               })
          }
          else Some (Inr (ASDF_PARSE_CONTINUE, p\<lparr>p_state := ASDF_PARSER_STATE_BLOCK_INDEX\<rparr>, ev)))
   })"

definition parse_comment ::
  "asdf_parser \<Rightarrow> asdf_event \<Rightarrow> (parse_result \<times> asdf_parser \<times> asdf_event) option" where
  "parse_comment p ev = loop_opt parse_comment_step (p, ev)"


section \<open>The tree\<close>

definition emit_tree_start_event ::
  "asdf_parser \<Rightarrow> asdf_event \<Rightarrow> (parse_result \<times> asdf_parser \<times> asdf_event) option" where
  "emit_tree_start_event p ev = do {
     let offset = asdf_stream_tell (p_stream p);
     let p = p\<lparr>p_tree := (p_tree p)\<lparr>tree_start := offset\<rparr>, p_state := ASDF_PARSER_STATE_TREE\<rparr>;
     let (ok, p) = parser_alloc p;
     if \<not> ok then Some (ASDF_PARSE_ERROR, parser_oom p, ASDF_TREE_START_EVENT None)
     else Some (ASDF_PARSE_EVENT, p,
            ASDF_TREE_START_EVENT (Some \<lparr>ti_start = size_of_off offset, ti_end = 0, ti_buf = None\<rparr>))
   }"

text \<open>The body of the scanning loop of \<^verbatim>\<open>parse_tree_or_block\<close>.\<close>

definition tree_or_block_step ::
  "asdf_parser \<times> asdf_event
     \<Rightarrow> (asdf_parser \<times> asdf_event + parse_result \<times> asdf_parser \<times> asdf_event) option" where
  "tree_or_block_step = (\<lambda>(p, ev). do {
     (m, s) \<leftarrow> asdf_parser_scan_tokens (p_stream p) [ASDF_YAML_DIRECTIVE_TOK, ASDF_BLOCK_MAGIC_TOK];
     let p = p\<lparr>p_stream := s\<rparr>;
     (case m of
        None \<Rightarrow> Some (Inr (ASDF_PARSE_CONTINUE, p\<lparr>p_state := ASDF_PARSER_STATE_END\<rparr>, ev))
      | Some (_, tok) \<Rightarrow>
          (case tok of
             ASDF_YAML_DIRECTIVE_TOK \<Rightarrow> do {
               (buf, s) \<leftarrow> asdf_stream_next (p_stream p) 0;
               let p = p\<lparr>p_stream := s\<rparr>;
               yes \<leftarrow> is_yaml_directive buf;
               if yes then do {
                 r \<leftarrow> emit_tree_start_event (p\<lparr>p_tree := (p_tree p)\<lparr>has_tree := 1\<rparr>\<rparr>) ev;
                 Some (Inr r)
               }
               else Some (Inl (p, ev))
             }
           | ASDF_BLOCK_MAGIC_TOK \<Rightarrow>
               Some (Inr (ASDF_PARSE_CONTINUE,
                 p\<lparr>p_tree := (p_tree p)\<lparr>has_tree := 0\<rparr>, p_state := ASDF_PARSER_STATE_BLOCK\<rparr>, ev))
           | _ \<Rightarrow> do {
               p \<leftarrow> parser_error p ASDF_ERR_UNKNOWN_STATE;
               Some (Inr (ASDF_PARSE_EVENT, p, ev))
             }))
   })"

definition parse_tree_or_block ::
  "asdf_parser \<Rightarrow> asdf_event \<Rightarrow> (parse_result \<times> asdf_parser \<times> asdf_event) option" where
  "parse_tree_or_block p ev = do {
     (buf, s) \<leftarrow> asdf_stream_peek (p_stream p) 0;
     let p = p\<lparr>p_stream := s\<rparr>;
     if buf = [] then Some (ASDF_PARSE_CONTINUE, p\<lparr>p_state := ASDF_PARSER_STATE_END\<rparr>, ev)
     else do {
       yes \<leftarrow> is_yaml_directive buf;
       if yes then emit_tree_start_event (p\<lparr>p_tree := (p_tree p)\<lparr>has_tree := 1\<rparr>\<rparr>) ev
       else if is_block_magic buf
       then Some (ASDF_PARSE_CONTINUE,
              p\<lparr>p_tree := (p_tree p)\<lparr>has_tree := 0\<rparr>, p_state := ASDF_PARSER_STATE_BLOCK\<rparr>, ev)
       else loop_opt tree_or_block_step (p, ev)
     }
   }"

definition emit_tree_end_event ::
  "asdf_parser \<Rightarrow> asdf_event \<Rightarrow> (parse_result \<times> asdf_parser \<times> asdf_event) option" where
  "emit_tree_end_event p ev = do {
     let (ok, p) = parser_alloc p;
     if \<not> ok then Some (ASDF_PARSE_ERROR, parser_oom p, ASDF_TREE_END_EVENT None)
     else Some (ASDF_PARSE_EVENT, p,
            ASDF_TREE_END_EVENT (Some \<lparr>ti_start = size_of_off (tree_start (p_tree p)),
              ti_end = size_of_off (tree_end (p_tree p)), ti_buf = tree_buf (p_tree p)\<rparr>))
   }"

text \<open>The body of the loop of \<^verbatim>\<open>parse_tree_fast\<close>: whether it succeeded, and the end of the tree,
  which stays 0 when the input ends first.\<close>

definition tree_fast_step :: "asdf_parser \<Rightarrow> (asdf_parser + bool \<times> int \<times> asdf_parser) option" where
  "tree_fast_step p = do {
     (m, s) \<leftarrow> asdf_parser_scan_tokens (p_stream p) [ASDF_YAML_DOCUMENT_END_TOK, ASDF_BLOCK_MAGIC_TOK];
     let p = p\<lparr>p_stream := s\<rparr>;
     (case m of
        None \<Rightarrow> Some (Inr (True, 0, p))
      | Some (_, tok) \<Rightarrow>
          (case tok of
             ASDF_YAML_DOCUMENT_END_TOK \<Rightarrow> do {
               (buf, s) \<leftarrow> asdf_stream_next (p_stream p) 0;
               let p = p\<lparr>p_stream := s\<rparr>;
               if is_yaml_document_end_marker buf then do {
                 s \<leftarrow> asdf_stream_consume (p_stream p) 1;
                 let p = p\<lparr>p_stream := s\<rparr>;
                 if parser_failed p then Some (Inr (False, 0, p))
                 else do {
                   (line, s) \<leftarrow> asdf_stream_readline (p_stream p);
                   Some (Inr (True, asdf_stream_tell s, p\<lparr>p_stream := s\<rparr>))
                 }
               }
               else Some (Inl p)
             }
           | ASDF_BLOCK_MAGIC_TOK \<Rightarrow> Some (Inr (True, asdf_stream_tell (p_stream p), p))
           | _ \<Rightarrow> do {
               p \<leftarrow> parser_error p ASDF_ERR_UNKNOWN_STATE;
               Some (Inr (False, 0, p))
             }))
   }"

definition parse_tree_fast :: "asdf_parser \<Rightarrow> (bool \<times> asdf_parser) option" where
  "parse_tree_fast p = do {
     (ok, e, p) \<leftarrow> loop_opt tree_fast_step p;
     if \<not> ok then Some (False, p)
     else Some (True, p\<lparr>p_tree := (p_tree p)\<lparr>tree_end := e, tree_found := True\<rparr>\<rparr>)
   }"

text \<open>\<^verbatim>\<open>stream->fy_parser_set_input\<close>.\<close>

definition stream_fy_input :: "parser_env \<Rightarrow> asdf_stream \<Rightarrow> (bool \<times> fy_input \<times> asdf_stream) option" where
  "stream_fy_input env s =
     (case userdata s of
        FileData d \<Rightarrow> do {
          (r, d) \<leftarrow> file_fy_parser_set_input d;
          Some (r = 0 \<and> fy_set_ok env, FyFile (f_pos (fu_file d)), s\<lparr>userdata := FileData d\<rparr>)
        }
      | MemData d \<Rightarrow>
          (let (start, len) = mem_fy_parser_set_input d
           in Some (fy_set_ok env, FyMem start len, s)))"

text \<open>A null parser, after \<^verbatim>\<open>fy_parser_create\<close> failed, is refused by the functions that set an
  input.\<close>

definition initialize_yaml_parser :: "parser_env \<Rightarrow> asdf_parser \<Rightarrow> (bool \<times> asdf_parser) option" where
  "initialize_yaml_parser env p =
     (if \<not> (is_seekable (p_stream p) \<or> tree_found (p_tree p) \<and> tree_buf (p_tree p) \<noteq> None) then None
      else do {
        p \<leftarrow> (if fy_create_ok env then Some p else parser_error p ASDF_ERR_YAML_PARSER_INIT_FAILED);
        (ok, inp, p) \<leftarrow>
          (if asdf_parser_has_opt p ASDF_PARSER_OPT_BUFFER_TREE
           then Some (fy_set_ok env,
                      FyString (case tree_buf (p_tree p) of None \<Rightarrow> [] | Some b \<Rightarrow> b), p)
           else do {
             (ok, inp, s) \<leftarrow> stream_fy_input env (p_stream p);
             Some (ok, inp, p\<lparr>p_stream := s\<rparr>)
           });
        let p = p\<lparr>yaml_parser := (if fy_create_ok env then Some (inp, 0) else None)\<rparr>;
        if ok \<and> fy_create_ok env then Some (True, p)
        else do { p \<leftarrow> parser_error p ASDF_ERR_YAML_PARSER_INIT_FAILED; Some (False, p) }
      })"

text \<open>The stream captures into \<^verbatim>\<open>parser->tree.buf\<close>; the bytes are handed over when the capture
  stops.\<close>

definition stop_capture :: "asdf_parser \<Rightarrow> asdf_parser" where
  "stop_capture p =
     (let s = p_stream p;
          b = (case capture_buf s of None \<Rightarrow> tree_buf (p_tree p) | Some b \<Rightarrow> b)
      in p\<lparr>p_tree := (p_tree p)\<lparr>tree_buf := b\<rparr>, p_stream := asdf_stream_set_capture s None 0\<rparr>)"

definition parse_tree ::
  "parser_env \<Rightarrow> asdf_parser \<Rightarrow> asdf_event \<Rightarrow> (parse_result \<times> asdf_parser \<times> asdf_event) option" where
  "parse_tree env p ev = do {
     let emit_yaml_events = asdf_parser_has_opt p ASDF_PARSER_OPT_EMIT_YAML_EVENTS;
     let buffer_tree = (asdf_parser_has_opt p ASDF_PARSER_OPT_BUFFER_TREE \<or>
                        emit_yaml_events \<and> \<not> is_seekable (p_stream p));
     let (ok, p) = (if buffer_tree then parser_alloc p else (True, p));
     if \<not> ok then Some (ASDF_PARSE_ERROR, parser_oom (p\<lparr>p_tree := (p_tree p)\<lparr>tree_buf := None\<rparr>\<rparr>), ev)
     else do {
       let p = (if buffer_tree
                then p\<lparr>p_tree := (p_tree p)\<lparr>tree_buf := Some []\<rparr>,
                       p_stream := asdf_stream_set_capture (p_stream p) (Some (Some []))
                                     ASDF_PARSER_READ_BUFFER_INIT_SIZE\<rparr>
                else p);
       (ok, p) \<leftarrow> (if buffer_tree \<or> \<not> emit_yaml_events then do {
                     (ok, p) \<leftarrow> parse_tree_fast p;
                     Some (ok, stop_capture p)
                   } else Some (True, p));
       if \<not> ok then Some (ASDF_PARSE_ERROR, p, ev)
       else if emit_yaml_events then do {
         (ok, p) \<leftarrow> initialize_yaml_parser env p;
         if \<not> ok then Some (ASDF_PARSE_ERROR, p, ev)
         else Some (ASDF_PARSE_CONTINUE,
                p\<lparr>p_state := ASDF_PARSER_STATE_YAML, p_tree := (p_tree p)\<lparr>tree_found := False\<rparr>\<rparr>, ev)
       }
       else emit_tree_end_event (p\<lparr>p_state := ASDF_PARSER_STATE_PADDING\<rparr>) ev
     }
   }"

text \<open>The next libfyaml event; a \<^verbatim>\<open>FILE\<close> libfyaml reads is moved by it.\<close>

definition fy_next :: "parser_env \<Rightarrow> asdf_parser \<Rightarrow> (fy_event option \<times> bool \<times> asdf_parser) option" where
  "fy_next env p =
     (case yaml_parser p of
        None \<Rightarrow> None
      | Some (inp, k) \<Rightarrow>
          (let (y, err, fpos) = fy_parse env inp k;
               s = p_stream p;
               u = (case (inp, userdata s) of
                      (FyFile _, FileData d) \<Rightarrow> FileData (d\<lparr>fu_file := (fu_file d)\<lparr>f_pos := fpos\<rparr>\<rparr>)
                    | (_, u) \<Rightarrow> u)
           in Some (y, err, p\<lparr>yaml_parser := Some (inp, Suc k), p_stream := s\<lparr>userdata := u\<rparr>\<rparr>)))"

definition parse_yaml ::
  "parser_env \<Rightarrow> asdf_parser \<Rightarrow> asdf_event \<Rightarrow> (parse_result \<times> asdf_parser \<times> asdf_event) option" where
  "parse_yaml env p ev =
     (if \<not> (asdf_parser_has_opt p ASDF_PARSER_OPT_EMIT_YAML_EVENTS \<and>
            (asdf_parser_has_opt p ASDF_PARSER_OPT_BUFFER_TREE \<or> is_seekable (p_stream p))) then None
      else if tree_done (p_tree p)
      then emit_tree_end_event (p\<lparr>p_state := ASDF_PARSER_STATE_PADDING\<rparr>) ev
      else do {
        (yaml, err, p) \<leftarrow> fy_next env p;
        let yaml = (if err \<and> tree_found (p_tree p)
                    then (if fy_stream_end_ok env
                          then Some \<lparr>fy_type = FYET_STREAM_END, fy_end_mark = None\<rparr> else None)
                    else yaml);
        if err \<and> yaml = None then do {
          p \<leftarrow> parser_error p ASDF_ERR_YAML_PARSE_FAILED;
          Some (ASDF_PARSE_ERROR, p, ev)
        }
        else (case yaml of
          None \<Rightarrow> Some (ASDF_PARSE_EVENT, p\<lparr>p_tree := (p_tree p)\<lparr>tree_done := True\<rparr>\<rparr>,
                       ASDF_YAML_EVENT yaml)
        | Some y \<Rightarrow>
            (case fy_type y of
               FYET_STREAM_END \<Rightarrow>
                 Some (ASDF_PARSE_EVENT, p\<lparr>p_tree := (p_tree p)\<lparr>tree_done := True\<rparr>\<rparr>,
                       ASDF_YAML_EVENT yaml)
             | FYET_DOCUMENT_END \<Rightarrow> do {
                 let e = (case fy_end_mark y of
                            Some m \<Rightarrow> if m < ASDF_OFF_MAX then tree_start (p_tree p) + int m + 1
                                      else tree_start (p_tree p)
                          | None \<Rightarrow> tree_start (p_tree p));
                 (ok, p) \<leftarrow> try_seek (p\<lparr>p_tree := (p_tree p)\<lparr>tree_end := e, tree_found := True\<rparr>\<rparr>)
                              e SEEK_SET;
                 Some (if ok then ASDF_PARSE_EVENT else ASDF_PARSE_ERROR, p, ASDF_YAML_EVENT yaml)
               }
             | FYET_OTHER _ \<Rightarrow> Some (ASDF_PARSE_EVENT, p, ASDF_YAML_EVENT yaml)))
      })"


section \<open>The block index\<close>

definition scan_for_block :: "asdf_parser \<Rightarrow> (bool \<times> asdf_parser) option" where
  "scan_for_block p = do {
     (m, s) \<leftarrow> asdf_parser_scan_tokens (p_stream p) [ASDF_BLOCK_MAGIC_TOK];
     Some (m \<noteq> None, p\<lparr>p_stream := s\<rparr>)
   }"

definition parse_padding ::
  "asdf_parser \<Rightarrow> asdf_event \<Rightarrow> (parse_result \<times> asdf_parser \<times> asdf_event) option" where
  "parse_padding p ev = Some (ASDF_PARSE_CONTINUE, p\<lparr>p_state := ASDF_PARSER_STATE_BLOCK\<rparr>, ev)"

definition validate_block ::
  "asdf_parser \<Rightarrow> nat \<Rightarrow> asdf_block_info \<Rightarrow> (bool \<times> asdf_parser \<times> asdf_block_info) option" where
  "validate_block p idx out =
     (let items = v_items (block_index (p_block p)) in
      if idx \<ge> length items \<or> idx > PTRDIFF_MAX then Some (False, p, out)
      else do {
        (ok, p) \<leftarrow> try_seek p (items ! idx) SEEK_SET;
        if \<not> ok then Some (False, p, out)
        else do {
          (buf, s) \<leftarrow> asdf_stream_peek (p_stream p) ASDF_BLOCK_MAGIC_SIZE;
          if \<not> is_block_magic buf then Some (False, p\<lparr>p_stream := s\<rparr>, out)
          else do {
            (ok, s, out) \<leftarrow> asdf_block_info_read s out;
            Some (ok, p\<lparr>p_stream := s\<rparr>, out)
          }
        }
      })"

text \<open>The offsets increase by at least the size of a block header.\<close>

fun index_monotone :: "int list \<Rightarrow> bool" where
  "index_monotone (a # b # xs) =
     (if b \<le> a \<or> b - a < int ASDF_BLOCK_HEADER_FULL_SIZE then False else index_monotone (b # xs))"
| "index_monotone _ = True"

definition validate_block_index :: "asdf_parser \<Rightarrow> (bool \<times> asdf_parser) option" where
  "validate_block_index p =
     (if \<not> is_seekable (p_stream p) then None
      else
        let items = v_items (block_index (p_block p)); n_blocks = length items in
        if n_blocks < 1 then Some (True, p)
        else if \<not> index_monotone items then Some (False, p)
        else do {
          (ok, p, first_block) \<leftarrow> validate_block p 0 (zero_block_info\<lparr>bi_index := 0\<rparr>);
          if \<not> ok then Some (False, p)
          else do {
            (ok, p, last_block) \<leftarrow>
              (if n_blocks > 1
               then validate_block p (n_blocks - 1) (zero_block_info\<lparr>bi_index := n_blocks - 1\<rparr>)
               else Some (True, p, zero_block_info));
            if \<not> ok then Some (False, p)
            else do {
              let (ok, p) = parser_alloc p;
              if \<not> ok then Some (False, parser_oom p)
              else do {
                let mid = map (\<lambda>i. zero_block_info\<lparr>bi_index := i\<rparr>) [1..<n_blocks - 1];
                let new = first_block # (if n_blocks > 1 then mid @ [last_block] else []);
                Some (True, p\<lparr>p_block := (p_block p)\<lparr>infos := infos (p_block p) @ new,
                                                    block_count := n_blocks\<rparr>\<rparr>)
              }
            }
          }
        })"

text \<open>The scanning loop of \<^verbatim>\<open>parse_find_block_index\<close>; the flag is whether \<^verbatim>\<open>match_token\<close> was set.\<close>

definition find_index_step ::
  "asdf_parser \<times> bool \<Rightarrow> (asdf_parser \<times> bool + parse_result \<times> asdf_parser) option" where
  "find_index_step = (\<lambda>(p, matched). do {
     (m, s) \<leftarrow> asdf_parser_scan_tokens (p_stream p) [ASDF_BLOCK_INDEX_HEADER_TOK];
     let p = p\<lparr>p_stream := s\<rparr>;
     if m = None then Some (Inr (if matched then ASDF_PARSE_EVENT else ASDF_PARSE_CONTINUE, p))
     else do {
       (buf, s) \<leftarrow> asdf_stream_peek (p_stream p) (ASDF_BLOCK_INDEX_HEADER_SIZE + 1);
       let p = p\<lparr>p_stream := s\<rparr>;
       if length buf < ASDF_BLOCK_INDEX_HEADER_SIZE + 1 then Some (Inr (ASDF_PARSE_CONTINUE, p))
       else if ends_with_newline buf ASDF_BLOCK_INDEX_HEADER_SIZE
       then Some (Inr (ASDF_PARSE_EVENT, p))
       else Some (Inl (p, True))
     }
   })"

definition parse_find_block_index ::
  "parser_env \<Rightarrow> asdf_parser \<Rightarrow> int \<Rightarrow> (parse_result \<times> asdf_parser) option" where
  "parse_find_block_index env p file_size =
     (let page_size = env_page_size env in
      if page_size \<le> 0 then Some (ASDF_PARSE_CONTINUE, p)
      else if file_size < 0 then do {
        p \<leftarrow> parser_error p ASDF_ERR_UNEXPECTED_EOF;
        Some (ASDF_PARSE_ERROR, p)
      }
      else do {
        let aligned_offset = (if file_size > page_size
                              then file_size - page_size - file_size mod page_size else 0);
        (ok, p) \<leftarrow> try_seek p aligned_offset SEEK_SET;
        if \<not> ok then Some (ASDF_PARSE_ERROR, p)
        else loop_opt find_index_step (p, False)
      })"

text \<open>The offsets pushed before the first item that is no integer, and whether all were.\<close>

fun index_offsets :: "int option list \<Rightarrow> int list \<times> bool" where
  "index_offsets [] = ([], True)"
| "index_offsets (None # xs) = ([], False)"
| "index_offsets (Some i # xs) = (let (is, ok) = index_offsets xs in (i # is, ok))"

text \<open>The part of \<^verbatim>\<open>parse_block_index\<close> between finding the index and \<^verbatim>\<open>cleanup\<close>. The result of
  finding, \<^verbatim>\<open>ASDF_PARSE_EVENT\<close>, stays the result on the jumps that do not set one.\<close>

definition read_block_index ::
  "parser_env \<Rightarrow> asdf_parser \<Rightarrow> int \<Rightarrow> asdf_event \<Rightarrow> (parse_result \<times> asdf_parser \<times> asdf_event) option" where
  "read_block_index env p file_size ev = do {
     let block_index_len = size_of_off (file_size - asdf_stream_tell (p_stream p));
     (buf, s) \<leftarrow> asdf_stream_next (p_stream p) block_index_len;
     let p = p\<lparr>p_stream := s\<rparr>;
     if buf = [] then do {
       p \<leftarrow> parser_error p ASDF_ERR_UNEXPECTED_EOF;
       Some (ASDF_PARSE_ERROR, p, ev)
     }
     else do {
       doc \<leftarrow> mem_read buf 0 block_index_len;
       (case fy_index env doc of
          None \<Rightarrow> Some (ASDF_PARSE_EVENT, p, ev)
        | Some items \<Rightarrow>
            let (ok, p) = parser_alloc p in
            if \<not> ok then Some (ASDF_PARSE_ERROR, parser_oom p, ev)
            else
              let v = block_index (p_block p);
                  (offsets, all_ints) = index_offsets items;
                  v = v\<lparr>v_items := v_items v @ offsets, v_cap := vec_grow env (v_cap v) (length items)\<rparr>;
                  p = p\<lparr>p_block := (p_block p)\<lparr>block_index := v\<rparr>\<rparr>
              in if \<not> all_ints then Some (ASDF_PARSE_EVENT, p, ev)
                 else do {
                   (valid, p) \<leftarrow> validate_block_index p;
                   if \<not> valid then Some (ASDF_PARSE_CONTINUE, p, ev)
                   else Some (ASDF_PARSE_EVENT, p\<lparr>p_block := (p_block p)\<lparr>has_index := True\<rparr>\<rparr>,
                          ASDF_BLOCK_INDEX_EVENT (v_items (block_index (p_block p))))
                 })
     }
   }"

definition parse_block_index ::
  "parser_env \<Rightarrow> asdf_parser \<Rightarrow> asdf_event \<Rightarrow> (parse_result \<times> asdf_parser \<times> asdf_event) option" where
  "parse_block_index env p ev =
     (if \<not> is_seekable (p_stream p)
      then Some (ASDF_PARSE_CONTINUE, p\<lparr>p_state := ASDF_PARSER_STATE_TREE_OR_BLOCK\<rparr>, ev)
      else do {
        let cur_offset = asdf_stream_tell (p_stream p);
        (ok, p) \<leftarrow> try_seek p 0 SEEK_END;
        if \<not> ok then Some (ASDF_PARSE_ERROR, p, ev)
        else do {
          let file_size = asdf_stream_tell (p_stream p);
          (res, p) \<leftarrow> parse_find_block_index env p file_size;
          (res, p, ev) \<leftarrow> (if res \<noteq> ASDF_PARSE_EVENT then Some (res, p, ev)
                           else read_block_index env p file_size ev);
          (ok, p) \<leftarrow> try_seek p cur_offset SEEK_SET;
          if \<not> ok then Some (ASDF_PARSE_ERROR, p, ev)
          else Some (res, p\<lparr>p_state := ASDF_PARSER_STATE_TREE_OR_BLOCK\<rparr>, ev)
        }
      })"

section \<open>Blocks\<close>

text \<open>\<^verbatim>\<open>asdf_block_info_vec_at\<close> asserts that the index is in range.\<close>

definition block_from_index ::
  "asdf_parser \<Rightarrow> nat \<Rightarrow> (asdf_block_info option \<times> asdf_parser) option" where
  "block_from_index p idx =
     (if idx > PTRDIFF_MAX then Some (None, p)
      else if idx \<ge> length (infos (p_block p)) then None
      else if idx < block_count (p_block p) then
        (let b = infos (p_block p) ! idx in
         if data_pos b = 0 then Some (None, p)
         else do {
           (ok, p) \<leftarrow> try_seek p (data_pos b) SEEK_SET;
           Some (if ok then Some b else None, p)
         })
      else do {
        (ok, p, b) \<leftarrow> validate_block p idx (infos (p_block p) ! idx);
        let p = p\<lparr>p_block := (p_block p)\<lparr>infos := (infos (p_block p))[idx := b]\<rparr>\<rparr>;
        Some (if ok then Some b else None, p)
      })"

definition push_block ::
  "asdf_parser \<Rightarrow> asdf_block_info \<Rightarrow> asdf_block_info option \<times> asdf_parser" where
  "push_block p b =
     (let (ok, p) = parser_alloc p in
      if ok then (Some b, p\<lparr>p_block := (p_block p)\<lparr>infos := infos (p_block p) @ [b]\<rparr>\<rparr>)
      else (None, p))"

definition parse_new_block :: "asdf_parser \<Rightarrow> (asdf_block_info option \<times> asdf_parser) option" where
  "parse_new_block p = do {
     let b = zero_block_info\<lparr>bi_index := block_found (p_block p)\<rparr>;
     (buf, s) \<leftarrow> asdf_stream_peek (p_stream p) ASDF_BLOCK_MAGIC_SIZE;
     let p = p\<lparr>p_stream := s\<rparr>;
     (read, p, b) \<leftarrow>
       (if is_block_magic buf then do {
          (ok, s, b) \<leftarrow> asdf_block_info_read (p_stream p) b;
          Some (ok, p\<lparr>p_stream := s\<rparr>, b)
        } else Some (False, p, b));
     if read then Some (push_block p b)
     else do {
       (found, p) \<leftarrow> scan_for_block p;
       if \<not> found then Some (None, p)
       else do {
         (ok, s, b) \<leftarrow> asdf_block_info_read (p_stream p) b;
         let p = p\<lparr>p_stream := s\<rparr>;
         Some (if ok then push_block p b else (None, p))
       }
     }
   }"

text \<open>The bookkeeping of the block index after a block was found: grow the vector if its
  capacity is too small, then record the position of the header.\<close>

definition record_block ::
  "parser_env \<Rightarrow> asdf_parser \<Rightarrow> nat \<Rightarrow> asdf_block_info \<Rightarrow> (bool \<times> asdf_parser) option" where
  "record_block env p idx b = do {
     let p = p\<lparr>p_block := (p_block p)\<lparr>block_found := block_found (p_block p) + 1\<rparr>\<rparr>;
     let v = block_index (p_block p);
     let grow = (v_cap v < block_found (p_block p));
     let new_cap = (if v_cap v \<noteq> 0 then v_cap v * 2 else ASDF_DEFAULT_BLOCK_INDEX_SIZE);
     let (ok, p) = (if grow then parser_alloc p else (True, p));
     if \<not> ok then Some (False, parser_oom p)
     else do {
       let v = (if grow then v\<lparr>v_items := take new_cap (v_items v) @ replicate (new_cap - length (v_items v)) (-1),
                               v_cap := vec_grow env (v_cap v) new_cap\<rparr>
                else v);
       v \<leftarrow> (if header_pos b \<le> int PTRDIFF_MAX
             then (if idx < length (v_items v)
                   then Some (v\<lparr>v_items := (v_items v)[idx := header_pos b]\<rparr>) else None)
             else Some v);
       Some (True, p\<lparr>p_block := (p_block p)\<lparr>block_index := v, block_count := block_found (p_block p)\<rparr>\<rparr>)
     }
   }"

definition SSIZE_MAX :: nat where
  "SSIZE_MAX = 2 ^ 63 - 1"

text \<open>Moving to the end of the block.\<close>

definition skip_block :: "asdf_parser \<Rightarrow> asdf_block_info \<Rightarrow> (bool \<times> asdf_parser) option" where
  "skip_block p b =
     (let streamed = (flags (bi_header b) AND ASDF_BLOCK_FLAG_STREAMED \<noteq> 0);
          size = unat (allocated_size (bi_header b)) in
      if \<not> streamed \<and> size > SSIZE_MAX then do {
        p \<leftarrow> parser_error p ASDF_ERR_INVALID_BLOCK_HEADER;
        Some (False, p)
      }
      else do {
        (r, s) \<leftarrow> (if streamed then asdf_stream_seek (p_stream p) 0 SEEK_END
                   else asdf_stream_seek (p_stream p) (int size) SEEK_CUR);
        let p = p\<lparr>p_stream := s\<rparr>;
        if r \<noteq> 0 then do {
          p \<leftarrow> parser_error p ASDF_ERR_INVALID_BLOCK_HEADER;
          Some (False, p)
        }
        else Some (True, p)
      })"

definition parse_block ::
  "parser_env \<Rightarrow> asdf_parser \<Rightarrow> asdf_event \<Rightarrow> (parse_result \<times> asdf_parser \<times> asdf_event) option" where
  "parse_block env p ev =
     (let idx = block_found (p_block p) in
      if idx \<ge> PTRDIFF_MAX then Some (ASDF_PARSE_ERROR, p, ev)
      else do {
        (b, p) \<leftarrow>
          (if has_index (p_block p) \<and> idx < length (v_items (block_index (p_block p))) then do {
             (b, p) \<leftarrow> block_from_index p idx;
             let v = block_index (p_block p);
             Some (b, if b = None
                      then p\<lparr>p_block := (p_block p)\<lparr>block_index := v\<lparr>v_items := (v_items v)[idx := -1]\<rparr>\<rparr>\<rparr>
                      else p)
           } else Some (None, p));
        (b, p) \<leftarrow> (if b = None then parse_new_block p else Some (b, p));
        (case b of
           None \<Rightarrow>
             let v = block_index (p_block p) in
             Some (ASDF_PARSE_CONTINUE,
               p\<lparr>p_block := (p_block p)\<lparr>block_index := v\<lparr>v_cap := length (v_items v)\<rparr>\<rparr>,
                 p_state := ASDF_PARSER_STATE_END\<rparr>, ev)
         | Some b \<Rightarrow> do {
             (ok, p) \<leftarrow> record_block env p idx b;
             if \<not> ok then Some (ASDF_PARSE_ERROR, p, ev)
             else do {
               (ok, p) \<leftarrow> skip_block p b;
               if \<not> ok then Some (ASDF_PARSE_ERROR, p, ev)
               else Some (ASDF_PARSE_EVENT, p, ASDF_BLOCK_EVENT b)
             }
           })
      })"


section \<open>Event slots\<close>

definition asdf_parse_event_alloc :: "asdf_parser \<Rightarrow> nat option \<times> asdf_parser" where
  "asdf_parse_event_alloc p =
     (case ev_free p of
        e # es \<Rightarrow> (Some e, p\<lparr>ev_free := es, ev_cur := Some e\<rparr>)
      | [] \<Rightarrow>
          (let (ok, p) = parser_alloc p in
           if ok then (Some (ev_fresh p), p\<lparr>ev_cur := Some (ev_fresh p), ev_fresh := Suc (ev_fresh p)\<rparr>)
           else (None, p)))"

definition asdf_parse_event_recycle :: "asdf_parser \<Rightarrow> nat option \<Rightarrow> asdf_parser" where
  "asdf_parse_event_recycle p event =
     (case event of
        None \<Rightarrow> p
      | Some e \<Rightarrow>
          (let p = p\<lparr>ev_free := e # ev_free p\<rparr>
           in if ev_cur p = Some e then p\<lparr>ev_cur := None\<rparr> else p))"

text \<open>The slots \<^verbatim>\<open>asdf_parse_event_freelist_free\<close> frees, in order.\<close>

definition asdf_parse_event_freelist_free :: "asdf_parser \<Rightarrow> nat list" where
  "asdf_parse_event_freelist_free p =
     (case ev_cur p of None \<Rightarrow> [] | Some c \<Rightarrow> [c]) @ filter (\<lambda>e. Some e \<noteq> ev_cur p) (ev_free p)"

section \<open>The state machine\<close>

text \<open>One handler call.\<close>

definition parser_step ::
  "parser_env \<Rightarrow> asdf_parser \<Rightarrow> asdf_event \<Rightarrow> (parse_result \<times> asdf_parser \<times> asdf_event) option" where
  "parser_step env p ev =
     (case p_state p of
        ASDF_PARSER_STATE_ASDF_VERSION \<Rightarrow> parse_asdf_version p ev
      | ASDF_PARSER_STATE_STANDARD_VERSION \<Rightarrow> parse_standard_version p ev
      | ASDF_PARSER_STATE_COMMENT \<Rightarrow> parse_comment p ev
      | ASDF_PARSER_STATE_TREE_OR_BLOCK \<Rightarrow> parse_tree_or_block p ev
      | ASDF_PARSER_STATE_TREE \<Rightarrow> parse_tree env p ev
      | ASDF_PARSER_STATE_YAML \<Rightarrow> parse_yaml env p ev
      | ASDF_PARSER_STATE_BLOCK \<Rightarrow> parse_block env p ev
      | ASDF_PARSER_STATE_PADDING \<Rightarrow> parse_padding p ev
      | ASDF_PARSER_STATE_BLOCK_INDEX \<Rightarrow> parse_block_index env p ev
      | _ \<Rightarrow> do {
          p \<leftarrow> parser_error p ASDF_ERR_UNKNOWN_STATE;
          Some (ASDF_PARSE_CONTINUE, p, ev)
        })"

text \<open>The body of the loop of \<^verbatim>\<open>asdf_parser_parse\<close>: the event returned, \<^term>\<open>None\<close> for a null
  pointer, with the contents of the event slot.\<close>

definition parser_loop_step ::
  "parser_env \<Rightarrow> asdf_parser \<times> asdf_event
     \<Rightarrow> (asdf_parser \<times> asdf_event + asdf_event option \<times> asdf_event \<times> asdf_parser) option" where
  "parser_loop_step env = (\<lambda>(p, ev).
     if p_state p = ASDF_PARSER_STATE_END then
       (if \<not> p_done p then Some (Inr (Some ASDF_END_EVENT, ASDF_END_EVENT, p\<lparr>p_done := True\<rparr>))
        else Some (Inr (None, ev, p)))
     else if p_state p = ASDF_PARSER_STATE_ERROR then Some (Inr (None, ev, p\<lparr>p_done := True\<rparr>))
     else do {
       (res, p, ev) \<leftarrow> parser_step env p ev;
       Some (case res of
         ASDF_PARSE_CONTINUE \<Rightarrow> Inl (p, ev)
       | ASDF_PARSE_EVENT \<Rightarrow> Inr (Some ev, ev, p)
       | ASDF_PARSE_ERROR \<Rightarrow> Inr (None, ev, p\<lparr>p_state := ASDF_PARSER_STATE_ERROR\<rparr>))
     })"

text \<open>A null event slot is not checked for: writing to it has no result.\<close>

definition asdf_parser_parse ::
  "parser_env \<Rightarrow> asdf_parser \<Rightarrow> (asdf_event option \<times> asdf_parser) option" where
  "asdf_parser_parse env p =
     (if \<not> p_has_stream p then None
      else do {
        let (slot, p) = asdf_parse_event_alloc p;
        (r, ev, p) \<leftarrow> loop_opt (parser_loop_step env) (p, ASDF_NONE_EVENT);
        (case slot of
           Some _ \<Rightarrow> Some (r, p)
         | None \<Rightarrow> if ev = ASDF_NONE_EVENT then Some (None, p) else None)
      })"

text \<open>\<^verbatim>\<open>asdf_event_iterate\<close>: the slot of the last event goes back to the freelist first; when there
  is no event the current slot is freed.\<close>

definition asdf_event_iterate ::
  "parser_env \<Rightarrow> asdf_parser \<Rightarrow> (asdf_event option \<times> asdf_parser) option" where
  "asdf_event_iterate env p = do {
     let p = (if ev_cur p \<noteq> None then (asdf_parse_event_recycle p (ev_cur p))\<lparr>ev_cur := None\<rparr> else p);
     (ev, p) \<leftarrow> asdf_parser_parse env p;
     Some (ev, if ev = None then p\<lparr>ev_cur := None\<rparr> else p)
   }"

section \<open>Construction\<close>

definition null_stream :: "asdf_context \<Rightarrow> asdf_stream" where
  "null_stream ctx = \<lparr>s_ctx = ctx, is_seekable = False, is_writeable = False,
     userdata = MemData \<lparr>mem_buf = [], mem_size = 0, mem_pos = 0, is_resizeable = False, mem_out = None\<rparr>,
     capture_buf = None, capture_cap = 0\<rparr>"

text \<open>\<^verbatim>\<open>asdf_parser_create_ctx\<close> with the allocator of the process when there is no context.\<close>

definition asdf_parser_create_ctx ::
  "heap \<Rightarrow> asdf_context option \<Rightarrow> u64 option \<Rightarrow> asdf_parser option" where
  "asdf_parser_create_ctx h ctx config =
     (let (ok, h) = alloc (case ctx of None \<Rightarrow> h | Some c \<Rightarrow> ctx_heap c) in
      if \<not> ok then None
      else
        case (case ctx of None \<Rightarrow> fst (asdf_context_create h)
              | Some c \<Rightarrow> Some (asdf_context_retain (c\<lparr>ctx_heap := h\<rparr>))) of
          None \<Rightarrow> None
        | Some c \<Rightarrow>
            Some \<lparr>p_has_stream = False, p_stream = null_stream c,
              p_flags = (case config of None \<Rightarrow> 0 | Some f \<Rightarrow> f),
              p_state = ASDF_PARSER_STATE_INITIAL, p_should_close = False, ev_free = [], ev_cur = None,
              ev_fresh = 0, p_asdf_version = None, p_standard_version = None, yaml_parser = None,
              p_tree = \<lparr>tree_start = 0, tree_end = 0, tree_buf = None, tree_found = False,
                        tree_done = False, has_tree = -1\<rparr>,
              p_block = \<lparr>infos = [], block_index = \<lparr>v_items = [], v_cap = 0\<rparr>, has_index = False,
                         block_count = 0, block_found = 0\<rparr>,
              p_done = False\<rparr>)"

text \<open>The common part of the \<^verbatim>\<open>asdf_parser_set_input_*\<close> functions.\<close>

definition parser_attach ::
  "asdf_parser \<Rightarrow> asdf_stream option \<times> asdf_context \<Rightarrow> (bool \<times> asdf_parser) option" where
  "parser_attach p r =
     (case r of
        (None, ctx) \<Rightarrow> do {
          p \<leftarrow> parser_error (p\<lparr>p_has_stream := False, p_stream := (p_stream p)\<lparr>s_ctx := ctx\<rparr>\<rparr>)
                 ASDF_ERR_STREAM_INIT_FAILED;
          Some (False, p)
        }
      | (Some s, ctx) \<Rightarrow>
          Some (True, p\<lparr>p_has_stream := True, p_stream := s,
                        p_state := ASDF_PARSER_STATE_ASDF_VERSION, p_should_close := True\<rparr>))"

definition asdf_parser_set_input_fp ::
  "asdf_parser \<Rightarrow> nat \<Rightarrow> cfile \<Rightarrow> (bool \<times> asdf_parser) option" where
  "asdf_parser_set_input_fp p bufsiz f =
     parser_attach p (asdf_stream_from_fp (s_ctx (p_stream p)) bufsiz f False)"

definition asdf_parser_set_input_mem :: "asdf_parser \<Rightarrow> bytes \<Rightarrow> (bool \<times> asdf_parser) option" where
  "asdf_parser_set_input_mem p buf =
     parser_attach p (asdf_stream_from_memory (s_ctx (p_stream p)) buf)"

definition asdf_parser_set_input_stream :: "asdf_parser \<Rightarrow> asdf_stream \<Rightarrow> asdf_parser" where
  "asdf_parser_set_input_stream p s =
     p\<lparr>p_has_stream := True, p_stream := s\<lparr>s_ctx := s_ctx (p_stream p)\<rparr>,
       p_state := ASDF_PARSER_STATE_ASDF_VERSION, p_should_close := False\<rparr>"

definition asdf_parser_has_error :: "asdf_parser \<Rightarrow> bool" where
  "asdf_parser_has_error p \<longleftrightarrow> error (s_ctx (p_stream p)) \<noteq> None"

definition asdf_parser_error_code :: "asdf_parser option \<Rightarrow> asdf_error_code option" where
  "asdf_parser_error_code q =
     (case q of None \<Rightarrow> Some ASDF_ERR_NONE
      | Some p \<Rightarrow> asdf_context_error_code_get (Some (s_ctx (p_stream p))))"

text \<open>\<^verbatim>\<open>asdf_parser_parse\<close> called until it returns no event, at most \<open>n\<close> times.\<close>

fun parse_events :: "parser_env \<Rightarrow> nat \<Rightarrow> asdf_parser \<Rightarrow> (asdf_event list \<times> asdf_parser) option" where
  "parse_events env 0 p = Some ([], p)"
| "parse_events env (Suc n) p = do {
     (ev, p) \<leftarrow> asdf_event_iterate env p;
     (case ev of
        None \<Rightarrow> Some ([], p)
      | Some e \<Rightarrow> do { (es, p) \<leftarrow> parse_events env n p; Some (e # es, p) })
   }"

end
