(* ===== verification/Asdf_Parser_States.thy ===== *)
theory Asdf_Parser_States
  imports Asdf_Parser Asdf_Scan
begin

text \<open>
  The parser as a state machine: which handler leads to which state, that the loop of
  \<^verbatim>\<open>asdf_parser_parse\<close> runs through each state at most once per event, what happens after the end,
  and the bookkeeping of the event slots.
\<close>

section \<open>Helpers keep the state\<close>

abbreviation ev_slots :: "asdf_parser \<Rightarrow> nat list \<times> nat option \<times> nat" where
  "ev_slots p \<equiv> (ev_free p, ev_cur p, ev_fresh p)"

abbreviation same_place :: "asdf_parser \<Rightarrow> asdf_parser \<Rightarrow> bool" where
  "same_place q p \<equiv> p_state q = p_state p \<and> ev_slots q = ev_slots p"

lemma parser_oom_state [simp]:
  "p_state (parser_oom p) = p_state p" "ev_free (parser_oom p) = ev_free p" "ev_cur (parser_oom p) = ev_cur p"
  "ev_fresh (parser_oom p) = ev_fresh p"
  by (simp_all add: parser_oom_def)

lemma parser_alloc_state: "(ok, p') = parser_alloc p \<Longrightarrow> same_place p' p"
  by (auto simp: parser_alloc_def split: prod.splits)

lemma post_parser_error: "(\<And>p'. same_place p' p \<Longrightarrow> Q p') \<Longrightarrow> post Q (parser_error p c)"
  by (auto simp: post_def parser_error_def bind_eq_Some_conv)

lemma post_try_seek:
  "(\<And>ok p'. same_place p' p \<Longrightarrow> Q (ok, p')) \<Longrightarrow> post Q (try_seek p off w)"
  unfolding try_seek_def
  by (intro post_rules post_parser_error post_any [of _ "asdf_stream_seek _ _ _"]) auto

text \<open>The operations of the stream and the recognisers do not see the parser.\<close>

lemmas post_stream =
  post_any [of _ "asdf_stream_readline s" for s] post_any [of _ "asdf_stream_peek s n" for s n]
  post_any [of _ "asdf_stream_next s n" for s n] post_any [of _ "asdf_stream_consume s n" for s n]
  post_any [of _ "asdf_stream_seek s n w" for s n w] post_any [of _ "asdf_block_info_read s b" for s b]
  post_any [of _ "strndup s n" for s n] post_any [of _ "strncmp_eq s t" for s t]
  post_any [of _ "is_yaml_directive b" for b] post_any [of _ "mem_read b i n" for b i n]
  post_any [of _ "stream_fy_input env s" for env s]

lemmas post_state = post_rules post_stream post_parser_error post_try_seek

section \<open>The edges\<close>

text \<open>Which states a handler can lead to, with each result.\<close>

inductive parser_edge :: "parse_result \<Rightarrow> asdf_parser_state \<Rightarrow> asdf_parser_state \<Rightarrow> bool" where
  stay: "parser_edge ASDF_PARSE_ERROR st st"
| version: "parser_edge ASDF_PARSE_EVENT ASDF_PARSER_STATE_ASDF_VERSION ASDF_PARSER_STATE_STANDARD_VERSION"
| standard: "parser_edge ASDF_PARSE_EVENT ASDF_PARSER_STATE_STANDARD_VERSION ASDF_PARSER_STATE_COMMENT"
| comment: "parser_edge ASDF_PARSE_EVENT ASDF_PARSER_STATE_COMMENT ASDF_PARSER_STATE_COMMENT"
| comments_end: "parser_edge ASDF_PARSE_CONTINUE ASDF_PARSER_STATE_COMMENT ASDF_PARSER_STATE_BLOCK_INDEX"
| block_index: "parser_edge res ASDF_PARSER_STATE_BLOCK_INDEX ASDF_PARSER_STATE_TREE_OR_BLOCK"
| tree_start: "parser_edge res ASDF_PARSER_STATE_TREE_OR_BLOCK ASDF_PARSER_STATE_TREE"
    if "res \<noteq> ASDF_PARSE_CONTINUE"
| no_tree: "parser_edge ASDF_PARSE_CONTINUE ASDF_PARSER_STATE_TREE_OR_BLOCK ASDF_PARSER_STATE_BLOCK"
| nothing: "parser_edge ASDF_PARSE_CONTINUE ASDF_PARSER_STATE_TREE_OR_BLOCK ASDF_PARSER_STATE_END"
| tree_yaml: "parser_edge ASDF_PARSE_CONTINUE ASDF_PARSER_STATE_TREE ASDF_PARSER_STATE_YAML"
| tree_end: "parser_edge res ASDF_PARSER_STATE_TREE ASDF_PARSER_STATE_PADDING"
    if "res \<noteq> ASDF_PARSE_CONTINUE"
| yaml: "parser_edge ASDF_PARSE_EVENT ASDF_PARSER_STATE_YAML ASDF_PARSER_STATE_YAML"
| yaml_end: "parser_edge res ASDF_PARSER_STATE_YAML ASDF_PARSER_STATE_PADDING"
    if "res \<noteq> ASDF_PARSE_CONTINUE"
| padding: "parser_edge ASDF_PARSE_CONTINUE ASDF_PARSER_STATE_PADDING ASDF_PARSER_STATE_BLOCK"
| block: "parser_edge ASDF_PARSE_EVENT ASDF_PARSER_STATE_BLOCK ASDF_PARSER_STATE_BLOCK"
| no_block: "parser_edge ASDF_PARSE_CONTINUE ASDF_PARSER_STATE_BLOCK ASDF_PARSER_STATE_END"

inductive_simps parser_edge_simps:
  "parser_edge res ASDF_PARSER_STATE_ASDF_VERSION st" "parser_edge res ASDF_PARSER_STATE_STANDARD_VERSION st"
  "parser_edge res ASDF_PARSER_STATE_COMMENT st" "parser_edge res ASDF_PARSER_STATE_BLOCK_INDEX st"
  "parser_edge res ASDF_PARSER_STATE_TREE_OR_BLOCK st" "parser_edge res ASDF_PARSER_STATE_TREE st"
  "parser_edge res ASDF_PARSER_STATE_YAML st" "parser_edge res ASDF_PARSER_STATE_PADDING st"
  "parser_edge res ASDF_PARSER_STATE_BLOCK st"

lemma post_version_comment:
  "(\<And>v p'. same_place p' p \<Longrightarrow> Q (v, p')) \<Longrightarrow> post Q (parse_version_comment p x)"
  unfolding parse_version_comment_def
  by (intro post_state) (auto dest!: parser_alloc_state)

text \<open>The edge taken by a handler from the state \<^term>\<open>st\<close>.\<close>

abbreviation edge_from ::
  "asdf_parser \<Rightarrow> asdf_parser_state \<Rightarrow> parse_result \<times> asdf_parser \<times> asdf_event \<Rightarrow> bool" where
  "edge_from p st \<equiv> \<lambda>(res, p', _). parser_edge res st (p_state p') \<and> ev_slots p' = ev_slots p"

lemma parse_asdf_version_edge:
  "p_state p = ASDF_PARSER_STATE_ASDF_VERSION \<Longrightarrow>
     post (edge_from p ASDF_PARSER_STATE_ASDF_VERSION) (parse_asdf_version p ev)"
  unfolding parse_asdf_version_def
  by (intro post_state post_version_comment) (auto simp: parser_edge_simps)

lemma parse_standard_version_edge:
  "p_state p = ASDF_PARSER_STATE_STANDARD_VERSION \<Longrightarrow>
     post (edge_from p ASDF_PARSER_STATE_STANDARD_VERSION) (parse_standard_version p ev)"
  unfolding parse_standard_version_def
  by (intro post_state post_version_comment) (auto simp: parser_edge_simps)

lemma parse_comment_edge:
  "p_state p = ASDF_PARSER_STATE_COMMENT \<Longrightarrow>
     post (edge_from p ASDF_PARSER_STATE_COMMENT) (parse_comment p ev)"
  unfolding parse_comment_def
  by (rule post_loop [where I = "\<lambda>(q, _). p_state q = ASDF_PARSER_STATE_COMMENT \<and> ev_slots q = ev_slots p"], simp,
      unfold parse_comment_step_def, intro post_state)
     (auto simp: parser_edge_simps dest!: parser_alloc_state)


text \<open>A scan reports one of the tokens it was given.\<close>

lemma scan_index: "asdf_scan_tokens buf ts = Some (off, i) \<Longrightarrow> i < length ts"
  by (simp add: asdf_scan_tokens_Some_iff first_match_def)

abbreviation index_below :: "nat \<Rightarrow> (nat \<times> nat) option \<times> 'a \<Rightarrow> bool" where
  "index_below n \<equiv> \<lambda>(r, _). \<forall>off i. r = Some (off, i) \<longrightarrow> i < n"

lemma file_scan_loop_index:
  assumes "file_scan_loop s d ts m = Some r"
  shows "index_below (length ts) r"
proof (rule file_scan_loop.raw_induct [of "\<lambda>s d ts m r. index_below (length ts) r", OF _ assms],
    goal_cases)
  case (1 loop s d ts m r)
  have step: "post (index_below (length ts)) (loop s d ts m)" for s d ts m
    by (rule postI) (rule 1(1))
  show ?case
    by (rule postD [OF _ 1(2)])
       (intro post_rules step post_any [of _ "mem_read b i n" for b i n]
         post_any [of _ "file_scan_refill s d a m" for s d a m] post_any [of _ "file_consume s d n" for s d n];
        auto simp: scan_index)
qed

lemma stream_scan_index:
  "asdf_stream_scan s ts = Some (Some (off, i), s') \<Longrightarrow> i < length ts"
  by (auto simp: asdf_stream_scan_def file_scan_def mem_scan_def bind_eq_Some_conv Let_def
      split: asdf_userdata.splits if_splits option.splits prod.splits
      dest: scan_index file_scan_loop_index)

lemma post_scan_tokens:
  assumes "\<And>m s'. (\<And>off t. m = Some (off, t) \<Longrightarrow> t \<in> set ids) \<Longrightarrow> Q (m, s')"
  shows "post Q (asdf_parser_scan_tokens s ids)"
proof (rule postI)
  fix r assume r: "asdf_parser_scan_tokens s ids = Some r"
  have "fst r = Some (off, t) \<Longrightarrow> t \<in> set ids" for off t
    using r by (auto simp: asdf_parser_scan_tokens_def bind_eq_Some_conv split: if_splits
        dest!: stream_scan_index)
  then show "Q r" using assms [of "fst r" "snd r"] by simp
qed


lemma post_token:
  assumes "t = ASDF_YAML_DIRECTIVE_TOK \<Longrightarrow> post Q a" "t = ASDF_YAML_DOCUMENT_END_TOK \<Longrightarrow> post Q b"
    "t = ASDF_BLOCK_MAGIC_TOK \<Longrightarrow> post Q c" "t = ASDF_BLOCK_INDEX_HEADER_TOK \<Longrightarrow> post Q d"
  shows "post Q (case t of ASDF_YAML_DIRECTIVE_TOK \<Rightarrow> a | ASDF_YAML_DOCUMENT_END_TOK \<Rightarrow> b
    | ASDF_BLOCK_MAGIC_TOK \<Rightarrow> c | ASDF_BLOCK_INDEX_HEADER_TOK \<Rightarrow> d)"
  using assms by (cases t) simp_all

lemma post_emit_tree_start:
  "(\<And>res p' ev'. p_state p' = ASDF_PARSER_STATE_TREE \<Longrightarrow> ev_slots p' = ev_slots p \<Longrightarrow> res \<noteq> ASDF_PARSE_CONTINUE \<Longrightarrow> Q (res, p', ev')) \<Longrightarrow>
     post Q (emit_tree_start_event p ev)"
  unfolding emit_tree_start_event_def by (intro post_state) (auto dest!: parser_alloc_state)

lemma post_emit_tree_end:
  "(\<And>res p' ev'. same_place p' p \<Longrightarrow> res \<noteq> ASDF_PARSE_CONTINUE \<Longrightarrow> Q (res, p', ev')) \<Longrightarrow>
     post Q (emit_tree_end_event p ev)"
  unfolding emit_tree_end_event_def by (intro post_state) (auto dest!: parser_alloc_state)

lemma tree_or_block_loop_edge:
  "p_state q = ASDF_PARSER_STATE_TREE_OR_BLOCK \<Longrightarrow> ev_slots q = ev_slots p \<Longrightarrow>
     post (edge_from p ASDF_PARSER_STATE_TREE_OR_BLOCK) (loop_opt tree_or_block_step (q, ev))"
  by (rule post_loop [where I = "\<lambda>(q, _). p_state q = ASDF_PARSER_STATE_TREE_OR_BLOCK \<and> ev_slots q = ev_slots p"], simp,
      unfold tree_or_block_step_def, intro post_state post_scan_tokens post_token post_emit_tree_start)
     (auto simp: parser_edge_simps)

lemma parse_tree_or_block_edge:
  "p_state p = ASDF_PARSER_STATE_TREE_OR_BLOCK \<Longrightarrow>
     post (edge_from p ASDF_PARSER_STATE_TREE_OR_BLOCK) (parse_tree_or_block p ev)"
  unfolding parse_tree_or_block_def
  by (intro post_state post_emit_tree_start tree_or_block_loop_edge) (auto simp: parser_edge_simps)

lemma post_tree_fast:
  assumes "\<And>ok p'. same_place p' p \<Longrightarrow> Q (ok, p')"
  shows "post Q (parse_tree_fast p)"
proof -
  have "post (\<lambda>(_, _, q). same_place q p) (loop_opt tree_fast_step p)"
    by (rule post_loop [where I = "\<lambda>q. same_place q p"], simp, unfold tree_fast_step_def,
        intro post_state post_scan_tokens post_token) auto
  with assms show ?thesis
    unfolding parse_tree_fast_def by (auto simp: post_def bind_eq_Some_conv split: if_splits)
qed

lemma post_initialize_yaml:
  "(\<And>ok p'. same_place p' p \<Longrightarrow> Q (ok, p')) \<Longrightarrow> post Q (initialize_yaml_parser env p)"
  unfolding initialize_yaml_parser_def by (intro post_state) auto

lemma stop_capture_state [simp]:
  "p_state (stop_capture p) = p_state p" "ev_free (stop_capture p) = ev_free p"
  "ev_cur (stop_capture p) = ev_cur p" "ev_fresh (stop_capture p) = ev_fresh p"
  by (simp_all add: stop_capture_def Let_def)

lemma parse_tree_edge:
  "p_state p = ASDF_PARSER_STATE_TREE \<Longrightarrow> post (edge_from p ASDF_PARSER_STATE_TREE) (parse_tree env p ev)"
  unfolding parse_tree_def
  by (intro post_state post_tree_fast post_initialize_yaml post_emit_tree_end)
     (auto simp: parser_edge_simps split: if_splits dest!: parser_alloc_state)

lemma post_fy_next:
  "(\<And>y e p'. same_place p' p \<Longrightarrow> Q (y, e, p')) \<Longrightarrow> post Q (fy_next env p)"
  unfolding fy_next_def by (intro post_state) auto

lemma post_fy_type:
  assumes "t = FYET_STREAM_END \<Longrightarrow> post Q a" "t = FYET_DOCUMENT_END \<Longrightarrow> post Q b"
    "\<And>n. t = FYET_OTHER n \<Longrightarrow> post Q (c n)"
  shows "post Q (case t of FYET_STREAM_END \<Rightarrow> a | FYET_DOCUMENT_END \<Rightarrow> b | FYET_OTHER n \<Rightarrow> c n)"
  using assms by (cases t) simp_all

lemma parse_yaml_edge:
  "p_state p = ASDF_PARSER_STATE_YAML \<Longrightarrow> post (edge_from p ASDF_PARSER_STATE_YAML) (parse_yaml env p ev)"
  unfolding parse_yaml_def
  by (intro post_state post_fy_next post_fy_type post_emit_tree_end) (auto simp: parser_edge_simps)

lemma parse_padding_edge:
  "p_state p = ASDF_PARSER_STATE_PADDING \<Longrightarrow> post (edge_from p ASDF_PARSER_STATE_PADDING) (parse_padding p ev)"
  unfolding parse_padding_def by (intro post_state) (auto simp: parser_edge_simps)


lemma post_validate_block:
  "(\<And>ok p' b'. same_place p' p \<Longrightarrow> Q (ok, p', b')) \<Longrightarrow> post Q (validate_block p idx b)"
  unfolding validate_block_def by (intro post_state) auto

lemma post_validate_block_index:
  "(\<And>ok p'. same_place p' p \<Longrightarrow> Q (ok, p')) \<Longrightarrow> post Q (validate_block_index p)"
  unfolding validate_block_index_def
  by (intro post_state post_validate_block) (auto dest!: parser_alloc_state)

lemma find_index_state: "post (\<lambda>(_, q). same_place q p) (loop_opt find_index_step (p, False))"
  by (rule post_loop [where I = "\<lambda>(q, _). same_place q p"], simp, unfold find_index_step_def,
      intro post_state post_scan_tokens) auto

lemma post_find_block_index:
  assumes "\<And>res p'. same_place p' p \<Longrightarrow> Q (res, p')"
  shows "post Q (parse_find_block_index env p n)"
proof -
  have "post Q (loop_opt find_index_step (q, False))" if "same_place q p" for q
    using find_index_state [of q] assms that by (auto simp: post_def)
  then show ?thesis
    unfolding parse_find_block_index_def using assms by (intro post_state) auto
qed

lemma post_read_block_index:
  "(\<And>res p' ev'. same_place p' p \<Longrightarrow> Q (res, p', ev')) \<Longrightarrow> post Q (read_block_index env p n ev)"
  unfolding read_block_index_def
  by (intro post_state post_validate_block_index) (auto dest!: parser_alloc_state)

lemma parse_block_index_edge:
  "p_state p = ASDF_PARSER_STATE_BLOCK_INDEX \<Longrightarrow>
     post (edge_from p ASDF_PARSER_STATE_BLOCK_INDEX) (parse_block_index env p ev)"
  unfolding parse_block_index_def
  by (intro post_state post_find_block_index post_read_block_index) (auto simp: parser_edge_simps)

lemma post_block_from_index:
  "(\<And>b p'. same_place p' p \<Longrightarrow> Q (b, p')) \<Longrightarrow> post Q (block_from_index p idx)"
  unfolding block_from_index_def by (intro post_state post_validate_block) auto

lemma push_block_state: "same_place (snd (push_block p b)) p"
  by (auto simp: push_block_def parser_alloc_def split: prod.splits)

lemma post_parse_new_block:
  assumes "\<And>b p'. same_place p' p \<Longrightarrow> Q (b, p')"
  shows "post Q (parse_new_block p)"
proof -
  have "Q (push_block q b)" if "same_place q p" for q b
    using assms [of "snd (push_block q b)" "fst (push_block q b)"] that by (simp add: push_block_state)
  then show ?thesis
    unfolding parse_new_block_def scan_for_block_def using assms
    by (intro post_state post_scan_tokens) auto
qed

lemma post_record_block:
  "(\<And>ok p'. same_place p' p \<Longrightarrow> Q (ok, p')) \<Longrightarrow> post Q (record_block env p idx b)"
  unfolding record_block_def
  by (intro post_state) (auto split: if_splits dest!: parser_alloc_state)

lemma post_skip_block:
  "(\<And>ok p'. same_place p' p \<Longrightarrow> Q (ok, p')) \<Longrightarrow> post Q (skip_block p b)"
  unfolding skip_block_def by (intro post_state) auto

lemma parse_block_edge:
  "p_state p = ASDF_PARSER_STATE_BLOCK \<Longrightarrow> post (edge_from p ASDF_PARSER_STATE_BLOCK) (parse_block env p ev)"
  unfolding parse_block_def
  by (intro post_state post_block_from_index post_parse_new_block post_record_block post_skip_block)
     (auto simp: parser_edge_simps split: if_splits)

section \<open>The machine\<close>

definition running :: "asdf_parser_state \<Rightarrow> bool" where
  "running st \<longleftrightarrow> st \<notin> {ASDF_PARSER_STATE_INITIAL, ASDF_PARSER_STATE_END, ASDF_PARSER_STATE_ERROR}"

lemma parser_step_edge: "running (p_state p) \<Longrightarrow> post (edge_from p (p_state p)) (parser_step env p ev)"
  using parse_asdf_version_edge [of p ev] parse_standard_version_edge [of p ev] parse_comment_edge [of p ev]
    parse_tree_or_block_edge [of p ev] parse_tree_edge [of p env ev] parse_yaml_edge [of p env ev]
    parse_block_edge [of p env ev] parse_padding_edge [of p ev] parse_block_index_edge [of p env ev]
  by (cases "p_state p") (simp_all add: running_def parser_step_def)

text \<open>The place of a state in the order of a file.\<close>

fun state_rank :: "asdf_parser_state \<Rightarrow> nat" where
  "state_rank ASDF_PARSER_STATE_INITIAL = 0"
| "state_rank ASDF_PARSER_STATE_ASDF_VERSION = 1"
| "state_rank ASDF_PARSER_STATE_STANDARD_VERSION = 2"
| "state_rank ASDF_PARSER_STATE_COMMENT = 3"
| "state_rank ASDF_PARSER_STATE_BLOCK_INDEX = 4"
| "state_rank ASDF_PARSER_STATE_TREE_OR_BLOCK = 5"
| "state_rank ASDF_PARSER_STATE_TREE = 6"
| "state_rank ASDF_PARSER_STATE_YAML = 7"
| "state_rank ASDF_PARSER_STATE_PADDING = 8"
| "state_rank ASDF_PARSER_STATE_BLOCK = 9"
| "state_rank ASDF_PARSER_STATE_END = 10"
| "state_rank ASDF_PARSER_STATE_ERROR = 10"

lemma state_rank_le: "state_rank st \<le> 10"
  by (cases st) simp_all

lemma edge_rank:
  assumes "parser_edge res st st'"
  shows "state_rank st \<le> state_rank st'"
    and "res = ASDF_PARSE_CONTINUE \<Longrightarrow> state_rank st < state_rank st'"
  using assms by (cases; simp)+

lemma edge_running: "parser_edge res st st' \<Longrightarrow> running st \<Longrightarrow> running st' \<or> st' = ASDF_PARSER_STATE_END"
  by (erule parser_edge.cases) (auto simp: running_def)

text \<open>The loop of \<^verbatim>\<open>asdf_parser_parse\<close> leaves after at most ten handler calls, provided each
  handler returns.\<close>

definition live :: "asdf_parser_state \<Rightarrow> bool" where
  "live st \<longleftrightarrow> st \<noteq> ASDF_PARSER_STATE_INITIAL"

text \<open>The states a call of \<^verbatim>\<open>asdf_parser_parse\<close> passes through.\<close>

inductive continues :: "parser_env \<Rightarrow> asdf_parser \<times> asdf_event \<Rightarrow> asdf_parser \<times> asdf_event \<Rightarrow> bool"
  for env where
  start: "continues env a a"
| step: "continues env a (q', ev')"
    if "continues env a (q, ev)" "running (p_state q)"
      "parser_step env q ev = Some (ASDF_PARSE_CONTINUE, q', ev')"

lemma parser_loop_leaves:
  assumes "live (p_state p)"
    and returns: "\<And>q ev'. continues env (p, ev) (q, ev') \<Longrightarrow> running (p_state q) \<Longrightarrow>
      parser_step env q ev' \<noteq> None"
  shows "\<exists>r. loop_opt (parser_loop_step env) (p, ev) = Some r \<and> live (p_state (snd (snd r)))"
proof (rule loop_opt_returns [where I = "\<lambda>a. continues env (p, ev) a \<and> live (p_state (fst a))" and
      m = "\<lambda>a. 10 - state_rank (p_state (fst a))"])
  fix a :: "asdf_parser \<times> asdf_event" assume "continues env (p, ev) a \<and> live (p_state (fst a))"
  then obtain q ev' where a: "a = (q, ev')" "live (p_state q)" "continues env (p, ev) (q, ev')"
    by (cases a) auto
  show "(\<exists>a'. parser_loop_step env a = Some (Inl a') \<and> (continues env (p, ev) a' \<and> live (p_state (fst a'))) \<and>
          10 - state_rank (p_state (fst a')) < 10 - state_rank (p_state (fst a))) \<or>
        (\<exists>b. parser_loop_step env a = Some (Inr b) \<and> live (p_state (snd (snd b))))"
  proof (cases "running (p_state q)")
    case False
    with a show ?thesis by (auto simp: running_def live_def parser_loop_step_def)
  next
    case True
    then obtain res q' ev'' where st: "parser_step env q ev' = Some (res, q', ev'')"
      using returns [OF a(3)] by auto
    then have e: "parser_edge res (p_state q) (p_state q')" using parser_step_edge [OF True] postD by fastforce
    have nf: "p_state q \<noteq> ASDF_PARSER_STATE_END" "p_state q \<noteq> ASDF_PARSER_STATE_ERROR"
      using True by (auto simp: running_def)
    have l: "live (p_state q')" using edge_running [OF e True] by (auto simp: running_def live_def)
    show ?thesis
      using nf st l edge_rank(2) [OF e] state_rank_le [of "p_state q'"] step [OF a(3) True]
      by (cases res) (auto simp: a parser_loop_step_def live_def)
  qed
qed (use assms(1) in \<open>simp add: start\<close>)

section \<open>Event slots\<close>

text \<open>The slots were numbered from 0 as they were allocated. Each of them is in one place: on the
  freelist, current, or out of the parser's hands (\<open>out\<close>: held by the caller, or freed).\<close>

definition cur_slots :: "asdf_parser \<Rightarrow> nat list" where
  "cur_slots p = (case ev_cur p of None \<Rightarrow> [] | Some c \<Rightarrow> [c])"

definition slots_ok :: "nat list \<Rightarrow> asdf_parser \<Rightarrow> bool" where
  "slots_ok out p \<longleftrightarrow> distinct (ev_free p @ cur_slots p @ out) \<and>
     set (ev_free p @ cur_slots p @ out) = {..<ev_fresh p}"

lemma slots_ok_cong: "ev_slots q = ev_slots p \<Longrightarrow> slots_ok out q = slots_ok out p"
  by (simp add: slots_ok_def cur_slots_def)

text \<open>What taking a slot does: the head of the freelist or, when that is empty and memory is left, a new
  one becomes current. Nothing else of the parser but the allocator's state changes.\<close>

definition slot_taken :: "asdf_parser \<Rightarrow> nat option \<Rightarrow> asdf_parser \<Rightarrow> bool" where
  "slot_taken p slot q \<longleftrightarrow>
     (\<exists>h. q = p\<lparr>ev_free := tl (ev_free p), ev_cur := (if slot = None then ev_cur p else slot),
            ev_fresh := ev_fresh p + (if ev_free p = [] \<and> slot \<noteq> None then 1 else 0),
            p_stream := (p_stream p)\<lparr>s_ctx := (s_ctx (p_stream p))\<lparr>ctx_heap := h\<rparr>\<rparr>\<rparr>) \<and>
     (case ev_free p of
        [] \<Rightarrow> slot = None \<or> slot = Some (ev_fresh p)
      | e # _ \<Rightarrow> slot = Some e)"

lemma event_alloc_taken: "asdf_parse_event_alloc p = (slot, q) \<Longrightarrow> slot_taken p slot q"
  by (cases p, cases "p_stream p", cases "s_ctx (p_stream p)")
     (auto simp: slot_taken_def asdf_parse_event_alloc_def parser_alloc_def ctx_alloc_def
        split: list.splits prod.splits if_splits)

lemma event_alloc_frame:
  assumes "asdf_parse_event_alloc p = (slot, q)"
  shows "p_state q = p_state p" "p_done q = p_done p" "p_has_stream q = p_has_stream p" "p_block q = p_block p"
    "error (s_ctx (p_stream q)) = error (s_ctx (p_stream p))"
  using event_alloc_taken [OF assms] by (auto simp: slot_taken_def)

lemma slot_taken_ok:
  assumes "slots_ok out p" and "slot_taken p (Some e) q"
  shows "slots_ok (cur_slots p @ out) q"
  using assms by (auto simp: slots_ok_def slot_taken_def cur_slots_def lessThan_Suc
      split: list.splits option.splits)

lemma event_recycle_ok:
  assumes "slots_ok out p" and "e \<in> set (cur_slots p @ out)"
  shows "slots_ok (remove1 e out) (asdf_parse_event_recycle p (Some e))"
  using assms by (auto simp: slots_ok_def asdf_parse_event_recycle_def cur_slots_def Let_def
      set_remove1_eq split: option.splits if_splits)

lemma recycle_alloc:
  "asdf_parse_event_alloc (asdf_parse_event_recycle p (Some e)) =
     (Some e, p\<lparr>ev_cur := Some e\<rparr>)"
  by (auto simp: asdf_parse_event_recycle_def asdf_parse_event_alloc_def Let_def)

text \<open>Tearing the parser down frees every slot that is still in its hands, once.\<close>

lemma freelist_free_ok:
  assumes "slots_ok out p"
  shows "distinct (asdf_parse_event_freelist_free p @ out)"
    "set (asdf_parse_event_freelist_free p @ out) = {..<ev_fresh p}"
  using assms by (auto simp: asdf_parse_event_freelist_free_def slots_ok_def cur_slots_def split: option.splits)

text \<open>The handlers do not touch the slots, so a call of the parser takes one slot and keeps it current,
  and the iterator, which gives the last one back first, never loses one.\<close>

lemma post_weaken: "post P m \<Longrightarrow> (\<And>r. P r \<Longrightarrow> Q r) \<Longrightarrow> post Q m"
  by (auto simp: post_def)

lemma parser_step_slots: "post (\<lambda>(_, p', _). ev_slots p' = ev_slots p) (parser_step env p ev)"
proof (cases "running (p_state p)")
  case True
  show ?thesis by (rule post_weaken [OF parser_step_edge [OF True]]) auto
next
  case False
  then have st: "p_state p = ASDF_PARSER_STATE_INITIAL \<or> p_state p = ASDF_PARSER_STATE_END \<or>
      p_state p = ASDF_PARSER_STATE_ERROR" by (simp add: running_def)
  have "post (\<lambda>(_, p', _). ev_slots p' = ev_slots p)
      (do { p \<leftarrow> parser_error p ASDF_ERR_UNKNOWN_STATE; Some (ASDF_PARSE_CONTINUE, p, ev) })"
    by (intro post_state) simp
  with st show ?thesis by (elim disjE) (simp_all add: parser_step_def)
qed

lemma parser_loop_slots:
  assumes "loop_opt (parser_loop_step env) (q, ev) = Some (r, ev', p')"
  shows "ev_slots p' = ev_slots q"
proof -
  have "post (\<lambda>(_, _, p'). ev_slots p' = ev_slots q) (loop_opt (parser_loop_step env) (q, ev))"
    by (rule post_loop [where I = "\<lambda>(p, _). ev_slots p = ev_slots q"], simp, unfold parser_loop_step_def,
        intro post_state post_weaken [OF parser_step_slots]) (auto split: parse_result.splits)
  with assms show ?thesis by (auto simp: post_def)
qed

lemma parser_parse_slots:
  assumes "asdf_parser_parse env p = Some (r, p')"
  shows "\<exists>slot q. asdf_parse_event_alloc p = (slot, q) \<and> ev_slots p' = ev_slots q \<and>
    (r \<noteq> None \<longrightarrow> slot \<noteq> None)"
  using assms
  by (auto simp: asdf_parser_parse_def bind_eq_Some_conv Let_def split: if_splits prod.splits option.splits
      dest!: parser_loop_slots)

lemma slots_ok_recycle_cur:
  assumes "slots_ok out p" and "ev_cur p = Some c"
  shows "slots_ok out ((asdf_parse_event_recycle p (Some c))\<lparr>ev_cur := None\<rparr>)"
proof -
  have "ev_free (asdf_parse_event_recycle p (Some c)) = c # ev_free p"
    "ev_fresh (asdf_parse_event_recycle p (Some c)) = ev_fresh p"
    by (simp_all add: asdf_parse_event_recycle_def Let_def)
  then show ?thesis using assms by (auto simp: slots_ok_def cur_slots_def)
qed

lemma event_iterate_ok:
  assumes ok: "slots_ok out p" and it: "asdf_event_iterate env p = Some (r, p')"
  shows "if r = None then \<exists>gone. slots_ok (gone @ out) p' \<and> length gone \<le> 1 \<and> ev_cur p' = None
    else slots_ok out p' \<and> ev_cur p' \<noteq> None"
proof -
  define p0 where "p0 = (if ev_cur p \<noteq> None then (asdf_parse_event_recycle p (ev_cur p))\<lparr>ev_cur := None\<rparr> else p)"
  have p0: "slots_ok out p0" "ev_cur p0 = None"
    using ok slots_ok_recycle_cur [OF ok] by (cases "ev_cur p"; simp add: p0_def)+
  obtain p1 where p1: "asdf_parser_parse env p0 = Some (r, p1)"
    and p': "p' = (if r = None then p1\<lparr>ev_cur := None\<rparr> else p1)"
    using it unfolding asdf_event_iterate_def Let_def p0_def [symmetric] by (auto simp: bind_eq_Some_conv)
  obtain slot q where q: "asdf_parse_event_alloc p0 = (slot, q)" "ev_slots p1 = ev_slots q"
    "r \<noteq> None \<longrightarrow> slot \<noteq> None"
    using parser_parse_slots [OF p1] by (elim exE conjE) (rule that)
  show ?thesis
  proof (cases slot)
    case None
    then have "ev_slots p1 = ev_slots p0" using event_alloc_taken [OF q(1)] q(2)
      by (auto simp: slot_taken_def split: list.splits)
    then have "slots_ok out p1" "ev_cur p1 = None" using p0 slots_ok_cong [of p1 p0 out] by simp_all
    moreover have "r = None" using None q(3) by blast
    ultimately show ?thesis using p' by (simp add: slots_ok_def cur_slots_def exI [of _ "[]"])
  next
    case (Some e)
    then have tk: "slot_taken p0 (Some e) q" using event_alloc_taken [OF q(1)] by simp
    then have "ev_cur q = Some e" by (auto simp: slot_taken_def)
    moreover have "slots_ok out q" using slot_taken_ok [OF p0(1) tk] p0(2) by (simp add: cur_slots_def)
    ultimately have "slots_ok out p1" "ev_cur p1 = Some e" using q(2) slots_ok_cong [of p1 q out] by simp_all
    then have "slots_ok ([e] @ out) (p1\<lparr>ev_cur := None\<rparr>)" by (auto simp: slots_ok_def cur_slots_def)
    then have "\<exists>gone. slots_ok (gone @ out) (p1\<lparr>ev_cur := None\<rparr>) \<and> length gone \<le> 1"
      by (intro exI [of _ "[e]"] conjI) simp_all
    then show ?thesis using p' \<open>slots_ok out p1\<close> \<open>ev_cur p1 = Some e\<close> by (cases r) simp_all
  qed
qed

section \<open>After the end\<close>

lemma parse_after_end:
  assumes "p_has_stream p" and "p_state p = ASDF_PARSER_STATE_END \<and> p_done p \<or> p_state p = ASDF_PARSER_STATE_ERROR"
    and sl: "asdf_parse_event_alloc p = (slot, p1)"
  shows "asdf_parser_parse env p = Some (None, p1\<lparr>p_done := True\<rparr>)"
proof -
  have k: "p_state p1 = p_state p" "p_done p1 = p_done p"
    by (simp_all add: event_alloc_frame [OF sl])
  have "loop_opt (parser_loop_step env) (p1, ASDF_NONE_EVENT) = Some (None, ASDF_NONE_EVENT, p1\<lparr>p_done := True\<rparr>)"
    by (rule loop_opt_Inr) (use k assms in \<open>auto simp: parser_loop_step_def\<close>)
  with assms sl show ?thesis by (simp add: asdf_parser_parse_def Let_def split: option.splits)
qed

text \<open>A parser without an input loops for ever in the unknown state.\<close>

lemma parse_initial_diverges:
  assumes "p_has_stream p" and "p_state p = ASDF_PARSER_STATE_INITIAL"
  shows "asdf_parser_parse env p = None"
proof -
  obtain slot p1 where sl: "asdf_parse_event_alloc p = (slot, p1)" by (cases "asdf_parse_event_alloc p")
  then have k: "p_state p1 = ASDF_PARSER_STATE_INITIAL" using assms(2) event_alloc_frame [OF sl] by simp
  have "loop_opt (parser_loop_step env) (p1, ASDF_NONE_EVENT) = None"
  proof (rule loop_opt_diverges [where I = "\<lambda>(q, _). p_state q = ASDF_PARSER_STATE_INITIAL"])
    fix a :: "asdf_parser \<times> asdf_event" assume "case a of (q, _) \<Rightarrow> p_state q = ASDF_PARSER_STATE_INITIAL"
    then show "\<exists>a'. parser_loop_step env a = Some (Inl a') \<and>
        (case a' of (q, _) \<Rightarrow> p_state q = ASDF_PARSER_STATE_INITIAL)"
      by (auto simp: parser_loop_step_def parser_step_def parser_error_def context_defs)
  qed (use k in simp)
  with sl assms(1) show ?thesis by (simp add: asdf_parser_parse_def)
qed

section \<open>Properties\<close>

text \<open>C4. From every running state, whatever the input, libfyaml and the allocator do, a handler that
  returns leads to a state the machine has an edge to: never backwards in the order of a file, and
  strictly forwards when it asks to go on without an event.\<close>

theorem handlers_follow_edges:
  assumes "running (p_state p)" and "parser_step env p ev = Some (res, p', ev')"
  shows "parser_edge res (p_state p) (p_state p') \<and> state_rank (p_state p) \<le> state_rank (p_state p') \<and>
    (res = ASDF_PARSE_CONTINUE \<longrightarrow> state_rank (p_state p) < state_rank (p_state p'))"
proof -
  have "parser_edge res (p_state p) (p_state p')"
    using postD [OF parser_step_edge [OF assms(1)] assms(2)] by simp
  then show ?thesis using edge_rank by blast
qed

definition sample_env :: parser_env where
  "sample_env = \<lparr>env_page_size = 4096, vec_grow = max, fy_create_ok = True, fy_set_ok = True,
     fy_parse = (\<lambda>_ _. (None, False, 0)), fy_stream_end_ok = True, fy_index = (\<lambda>_. None)\<rparr>"

definition parser_on :: "bytes \<Rightarrow> asdf_parser" where
  "parser_on buf = snd (the (asdf_parser_set_input_mem (the (asdf_parser_create_ctx [] None None)) buf))"

lemma parser_on_eq:
  "p_has_stream (parser_on buf)" "p_state (parser_on buf) = ASDF_PARSER_STATE_ASDF_VERSION"
  "ev_free (parser_on buf) = []" "ev_cur (parser_on buf) = None" "ev_fresh (parser_on buf) = 0"
  "ctx_heap (s_ctx (p_stream (parser_on buf))) = []"
  by (simp_all add: parser_on_def asdf_parser_create_ctx_def asdf_context_create_def
      asdf_parser_set_input_mem_def parser_attach_def asdf_stream_from_memory_def null_stream_def
      ctx_alloc_def asdf_context_retain_def)

theorem handlers_follow_edges_witness:
  "parser_edge ASDF_PARSE_CONTINUE ASDF_PARSER_STATE_PADDING ASDF_PARSER_STATE_BLOCK"
  using handlers_follow_edges [of "(parser_on [])\<lparr>p_state := ASDF_PARSER_STATE_PADDING\<rparr>" sample_env ASDF_NONE_EVENT
      ASDF_PARSE_CONTINUE "(parser_on [])\<lparr>p_state := ASDF_PARSER_STATE_BLOCK\<rparr>" ASDF_NONE_EVENT]
  by (simp add: running_def parser_step_def parse_padding_def)

text \<open>C37. After the end event, and after an error, every further call returns no event. It takes an event
  slot (the head of the freelist, else a new one) and makes it current, and sets the done flag; the state,
  the input stream with its position, the block list and block index, the tree and the error text and code
  stay exactly as they are.\<close>

theorem no_events_after_end:
  assumes "p_has_stream p"
    and "p_state p = ASDF_PARSER_STATE_END \<and> p_done p \<or> p_state p = ASDF_PARSER_STATE_ERROR"
  shows "\<exists>slot h. asdf_parser_parse env p = Some (None,
      p\<lparr>ev_free := tl (ev_free p), ev_cur := (if slot = None then ev_cur p else slot),
        ev_fresh := ev_fresh p + (if ev_free p = [] \<and> slot \<noteq> None then 1 else 0), p_done := True,
        p_stream := (p_stream p)\<lparr>s_ctx := (s_ctx (p_stream p))\<lparr>ctx_heap := h\<rparr>\<rparr>\<rparr>) \<and>
    (case ev_free p of [] \<Rightarrow> slot = None \<or> slot = Some (ev_fresh p) | e # _ \<Rightarrow> slot = Some e)"
proof -
  obtain slot q where sl: "asdf_parse_event_alloc p = (slot, q)" by (cases "asdf_parse_event_alloc p")
  from event_alloc_taken [OF sl] obtain h where "q = p\<lparr>ev_free := tl (ev_free p),
        ev_cur := (if slot = None then ev_cur p else slot),
        ev_fresh := ev_fresh p + (if ev_free p = [] \<and> slot \<noteq> None then 1 else 0),
        p_stream := (p_stream p)\<lparr>s_ctx := (s_ctx (p_stream p))\<lparr>ctx_heap := h\<rparr>\<rparr>\<rparr>"
    and "case ev_free p of [] \<Rightarrow> slot = None \<or> slot = Some (ev_fresh p) | e # _ \<Rightarrow> slot = Some e"
    unfolding slot_taken_def by blast
  then show ?thesis
    unfolding parse_after_end [OF assms sl] by (intro exI [of _ slot] exI [of _ h]) simp
qed

theorem no_events_after_end_witness:
  "\<exists>slot h. asdf_parser_parse sample_env ((parser_on [])\<lparr>p_state := ASDF_PARSER_STATE_ERROR, ev_free := [0], ev_fresh := 1\<rparr>) =
     Some (None, (parser_on [])\<lparr>p_state := ASDF_PARSER_STATE_ERROR, ev_free := [], ev_cur := Some 0, ev_fresh := 1, p_done := True,
        p_stream := (p_stream (parser_on []))\<lparr>s_ctx := (s_ctx (p_stream (parser_on [])))\<lparr>ctx_heap := h\<rparr>\<rparr>\<rparr>)"
  using no_events_after_end [of "(parser_on [])\<lparr>p_state := ASDF_PARSER_STATE_ERROR, ev_free := [0], ev_fresh := 1\<rparr>" sample_env]
  by (auto simp: parser_on_eq)

text \<open>In the initial state the loop reports an unknown state for ever.\<close>

theorem initial_state_never_returns:
  assumes "p_has_stream p" and "p_state p = ASDF_PARSER_STATE_INITIAL"
  shows "asdf_parser_parse env p = None"
  using assms by (rule parse_initial_diverges)

theorem initial_state_never_returns_witness:
  "asdf_parser_parse sample_env ((parser_on [])\<lparr>p_state := ASDF_PARSER_STATE_INITIAL\<rparr>) = None"
  using initial_state_never_returns [of "(parser_on [])\<lparr>p_state := ASDF_PARSER_STATE_INITIAL\<rparr>" sample_env]
  by (simp add: parser_on_eq)

text \<open>C36. Every event slot is always in exactly one place: on the freelist, current, or out of the parser's
  hands. Taking one takes the head of the freelist, or a new one only when that is empty, makes it current and
  leaves the rest of the freelist; the slot that was current goes to the caller. Giving a current or held slot
  back puts it at the head of the freelist, and it is the next one taken. The event iterator keeps the current
  slot in the parser's hands and loses none: when there is no event, it frees the one it took. Tearing the
  parser down frees every slot that is not out of its hands, each once.\<close>

theorem event_slots:
  assumes "slots_ok out p"
  shows "(\<forall>slot q. asdf_parse_event_alloc p = (slot, q) \<longrightarrow> slot_taken p slot q \<and>
        slots_ok (if slot = None then out else cur_slots p @ out) q) \<and>
    (\<forall>e \<in> set (cur_slots p @ out). slots_ok (remove1 e out) (asdf_parse_event_recycle p (Some e)) \<and>
        ev_free (asdf_parse_event_recycle p (Some e)) = e # ev_free p \<and>
        fst (asdf_parse_event_alloc (asdf_parse_event_recycle p (Some e))) = Some e) \<and>
    (\<forall>env r q. asdf_event_iterate env p = Some (r, q) \<longrightarrow>
        (if r = None then \<exists>gone. slots_ok (gone @ out) q \<and> length gone \<le> 1 \<and> ev_cur q = None
         else slots_ok out q \<and> ev_cur q \<noteq> None)) \<and>
    distinct (asdf_parse_event_freelist_free p @ out) \<and>
    set (asdf_parse_event_freelist_free p @ out) = {..<ev_fresh p}"
proof (intro conjI allI impI ballI)
  fix slot q assume q: "asdf_parse_event_alloc p = (slot, q)"
  show "slot_taken p slot q" by (rule event_alloc_taken [OF q])
  then show "slots_ok (if slot = None then out else cur_slots p @ out) q"
    using assms slot_taken_ok [OF assms] slots_ok_cong [of q p out]
    by (cases slot) (auto simp: slot_taken_def split: list.splits)
next
  fix e assume "e \<in> set (cur_slots p @ out)"
  then show "slots_ok (remove1 e out) (asdf_parse_event_recycle p (Some e))" by (rule event_recycle_ok [OF assms])
next
  fix env r q assume "asdf_event_iterate env p = Some (r, q)"
  then show "if r = None then \<exists>gone. slots_ok (gone @ out) q \<and> length gone \<le> 1 \<and> ev_cur q = None
      else slots_ok out q \<and> ev_cur q \<noteq> None" by (rule event_iterate_ok [OF assms])
qed (simp_all only: freelist_free_ok [OF assms] recycle_alloc fst_conv,
     simp add: asdf_parse_event_recycle_def Let_def)

theorem event_slots_witness:
  "slots_ok [] (snd (asdf_parse_event_alloc (parser_on []))) \<and>
   ev_cur (snd (asdf_parse_event_alloc (parser_on []))) = Some 0"
proof -
  have s: "slots_ok [] (parser_on [])" by (simp add: slots_ok_def cur_slots_def parser_on_eq)
  have "asdf_parse_event_alloc (parser_on []) = (Some 0, snd (asdf_parse_event_alloc (parser_on [])))"
    by (simp add: asdf_parse_event_alloc_def parser_on_eq parser_alloc_def ctx_alloc_def)
  then have "slot_taken (parser_on []) (Some 0) (snd (asdf_parse_event_alloc (parser_on []))) \<and>
      slots_ok (cur_slots (parser_on []) @ []) (snd (asdf_parse_event_alloc (parser_on [])))"
    using conjunct1 [OF event_slots [OF s]] by (metis option.distinct(1))
  then show ?thesis by (auto simp: cur_slots_def parser_on_eq slot_taken_def)
qed

end
