(* ===== verification/Asdf_Mem_View.thy ===== *)
theory Asdf_Mem_View
  imports Asdf_Stream_Laws
begin

text \<open>
  A stream over a memory buffer as the parser sees it: the buffer and a position. Each
  operation of the stream is an equation on these two.
\<close>

definition mem_view :: "asdf_stream \<Rightarrow> bytes \<Rightarrow> nat \<Rightarrow> bool" where
  "mem_view s buf i \<longleftrightarrow> is_seekable s \<and> ctx_heap (s_ctx s) = [] \<and> capture_buf s = None \<and>
     i \<le> length buf \<and> length buf \<le> 2 ^ 62 \<and>
     (case userdata s of
        MemData d \<Rightarrow> mem_buf d = buf \<and> mem_size d = length buf \<and> mem_pos d = i
      | _ \<Rightarrow> False)"

definition goto :: "asdf_stream \<Rightarrow> nat \<Rightarrow> asdf_stream" where
  "goto s i = (case userdata s of MemData d \<Rightarrow> s\<lparr>userdata := MemData (d\<lparr>mem_pos := i\<rparr>)\<rparr> | _ \<Rightarrow> s)"

lemma goto_frame [simp]:
  "s_ctx (goto s i) = s_ctx s" "is_seekable (goto s i) = is_seekable s"
  "is_writeable (goto s i) = is_writeable s" "capture_buf (goto s i) = capture_buf s"
  by (simp_all add: goto_def split: asdf_userdata.split)

lemma goto_goto [simp]: "goto (goto s i) j = goto s j"
  by (simp add: goto_def split: asdf_userdata.split)

lemma mem_view_goto: "mem_view s buf i \<Longrightarrow> j \<le> length buf \<Longrightarrow> mem_view (goto s j) buf j"
  by (auto simp: mem_view_def goto_def split: asdf_userdata.splits)

lemma goto_here: "mem_view s buf i \<Longrightarrow> goto s i = s"
  by (auto simp: mem_view_def goto_def split: asdf_userdata.splits)

lemma mem_view_ctx:
  "mem_view s buf i \<Longrightarrow> ctx_heap c = [] \<Longrightarrow> mem_view (s\<lparr>s_ctx := c\<rparr>) buf i"
  by (auto simp: mem_view_def split: asdf_userdata.splits)

lemma goto_ctx: "goto (s\<lparr>s_ctx := c\<rparr>) i = (goto s i)\<lparr>s_ctx := c\<rparr>"
  by (simp add: goto_def split: asdf_userdata.split)

lemma mem_viewE:
  assumes "mem_view s buf i"
  obtains d where "userdata s = MemData d" "mem_buf d = buf" "mem_size d = length buf" "mem_pos d = i"
    "i \<le> length buf" "length buf \<le> 2 ^ 62" "capture_buf s = None" "is_seekable s" "ctx_heap (s_ctx s) = []"
  using assms by (auto simp: mem_view_def split: asdf_userdata.splits)

lemma view_remaining: "mem_view s buf i \<Longrightarrow> size_sub (length buf) i = length buf - i"
  by (auto simp: mem_view_def intro!: size_sub_small simp: size_mod_def split: asdf_userdata.splits)

lemma view_next: "mem_view s buf i \<Longrightarrow> asdf_stream_next s n = Some (drop i buf, s)"
  by (erule mem_viewE) (auto simp: asdf_stream_next_def mem_next_def mem_read_def)

lemma view_capture: "mem_view s buf i \<Longrightarrow> stream_capture s b off n = Some s"
  by (erule mem_viewE) (simp add: stream_capture_def)

lemma view_mem_consume:
  assumes "mem_view s buf i" and "userdata s = MemData d" and "i + n \<le> length buf"
  shows "mem_consume s d n = Some (s, d\<lparr>mem_pos := i + n\<rparr>)"
proof -
  have "mem_pos d = i" "length buf \<le> 2 ^ 62" using assms(1,2) by (auto simp: mem_view_def)
  with assms(3) have "size_add (mem_pos d) n = i + n" by (simp add: size_add_small size_mod_def)
  then show ?thesis by (simp add: mem_consume_def view_capture [OF assms(1)])
qed

lemma view_consume:
  assumes v: "mem_view s buf i" and n: "i + n \<le> length buf"
  shows "asdf_stream_consume s n = Some (goto s (i + n))"
proof -
  obtain d where d: "userdata s = MemData d" using v by (rule mem_viewE)
  then show ?thesis by (simp add: asdf_stream_consume_def view_mem_consume [OF v d n] goto_def)
qed

lemma view_peek: "mem_view s buf i \<Longrightarrow> asdf_stream_peek s n = Some (drop i buf, s)"
  using view_consume [of s buf i 0]
  by (auto simp: asdf_stream_peek_def view_next goto_here mem_view_def)

lemma view_tell: "mem_view s buf i \<Longrightarrow> asdf_stream_tell s = int i"
  by (erule mem_viewE) (simp add: asdf_stream_tell_def mem_tell_def off_of_size_small)

lemma newline_idx_append: "10 \<notin> set line \<Longrightarrow> newline_idx (line @ 10 # r) = Some (length line)"
  by (induction line) auto

lemma view_readline:
  assumes v: "mem_view s buf i" and l: "drop i buf = line @ 10 # r" and "10 \<notin> set line"
  shows "asdf_stream_readline s = Some (Some (drop i buf, length line + 1), goto s (i + length line + 1))"
proof -
  obtain d where d: "userdata s = MemData d" "mem_buf d = buf" "mem_size d = length buf" "mem_pos d = i"
      "i \<le> length buf"
    using v by (rule mem_viewE)
  have len: "length (drop i buf) = length line + 1 + length r" using l by simp
  then have fit: "i + (length line + 1) \<le> length buf" using d(5) by simp
  have rd: "mem_read buf i (length buf - i) = Some (drop i buf)"
    using d(5) by (simp add: mem_read_def)
  have ne: "length buf - i \<noteq> 0" using len by simp
  have nl: "newline_idx (drop i buf) = Some (length line)"
    unfolding l by (rule newline_idx_append [OF assms(3)])
  have "mem_readline s d = Some (Some (drop i buf, length line + 1), s, d\<lparr>mem_pos := i + (length line + 1)\<rparr>)"
    using ne view_mem_consume [OF v d(1) fit]
    by (simp add: mem_readline_def d(2-4) view_remaining [OF v] rd nl Let_def)
  then show ?thesis by (simp add: asdf_stream_readline_def d(1) goto_def)
qed

lemma view_scan_Some:
  assumes v: "mem_view s buf i" and sc: "asdf_scan_tokens (drop i buf) ts = Some (off, t)"
  shows "asdf_stream_scan s ts = Some (Some (off + i, t), goto s (i + off))"
proof -
  obtain d where d: "userdata s = MemData d" "mem_buf d = buf" "mem_size d = length buf" "mem_pos d = i"
      "i \<le> length buf" "length buf \<le> 2 ^ 62"
    using v by (rule mem_viewE)
  have "off < length (drop i buf)" using sc by (simp add: asdf_scan_tokens_Some_iff first_match_def)
  then have fit: "i + off \<le> length buf" by simp
  then have "size_add off i = off + i" using d(6) by (simp add: size_add_small size_mod_def)
  moreover have "mem_read buf i (length buf - i) = Some (drop i buf)" using d(5) by (simp add: mem_read_def)
  ultimately show ?thesis
    by (simp add: asdf_stream_scan_def d mem_scan_def view_remaining [OF v] sc
        view_mem_consume [OF v d(1) fit] goto_def Let_def)
qed

lemma view_scan_None:
  assumes v: "mem_view s buf i" and sc: "asdf_scan_tokens (drop i buf) ts = None"
  shows "asdf_stream_scan s ts = Some (None, goto s (length buf))"
proof -
  obtain d where d: "userdata s = MemData d" "mem_buf d = buf" "mem_size d = length buf" "mem_pos d = i"
      "i \<le> length buf"
    using v by (rule mem_viewE)
  have fit: "i + (length buf - i) \<le> length buf" using d(5) by simp
  have "mem_read buf i (length buf - i) = Some (drop i buf)" using d(5) by (simp add: mem_read_def)
  then show ?thesis
    using d(5) view_mem_consume [OF v d(1) fit]
    by (simp add: asdf_stream_scan_def d mem_scan_def view_remaining [OF v] sc goto_def Let_def)
qed

lemma size_of_off_nat [simp]: "n \<le> 2 ^ 62 \<Longrightarrow> size_of_off (int n) = n"
  by (simp add: size_of_off_def size_mod_def)

lemma view_seek_set:
  "mem_view s buf i \<Longrightarrow> j \<le> length buf \<Longrightarrow> asdf_stream_seek s (int j) SEEK_SET = Some (0, goto s j)"
  by (erule mem_viewE) (simp add: asdf_stream_seek_def mem_seek_def goto_def)

lemma view_seek_end:
  "mem_view s buf i \<Longrightarrow> asdf_stream_seek s 0 SEEK_END = Some (0, goto s (length buf))"
  by (erule mem_viewE)
     (simp add: asdf_stream_seek_def mem_seek_def goto_def size_of_off_def size_add_small size_mod_def)

lemma view_seek_cur:
  "mem_view s buf i \<Longrightarrow> i + n \<le> length buf \<Longrightarrow>
     asdf_stream_seek s (int n) SEEK_CUR = Some (0, goto s (i + n))"
  by (erule mem_viewE)
     (simp add: asdf_stream_seek_def mem_seek_def goto_def size_add_small size_mod_def)

text \<open>A view is the invariant of the memory backend.\<close>

lemma view_mem_inv: "mem_view s buf i \<Longrightarrow> mem_inv s \<and> mem_rest s = drop i buf \<and> mem_at s = i"
  by (erule mem_viewE) (simp add: mem_inv_def mem_rest_def mem_at_def cap_room_def)

end
