(* ===== verification/Asdf_Sink.thy ===== *)
theory Asdf_Sink
  imports Asdf_Stream_Laws
begin

text \<open>
  The contract of a stream that is written to the end of: the growing memory buffer of
  \<^verbatim>\<open>asdf_stream_from_malloc\<close> and a file opened for writing. What is proved of the block writer and
  of the emitter rests on these laws only.
\<close>

locale byte_sink =
  fixes ok :: "asdf_stream \<Rightarrow> bool"
    and written :: "asdf_stream \<Rightarrow> bytes"
  assumes write_law:
      "ok s \<Longrightarrow> length (written s) + length bs \<le> 2 ^ 62 \<Longrightarrow>
       \<exists>s'. asdf_stream_write s bs = Some (length bs, s') \<and> ok s' \<and>
         written s' = written s @ bs \<and> same_frame s s'"
    and sink_tell: "ok s \<Longrightarrow> length (written s) \<le> 2 ^ 62 \<Longrightarrow>
       asdf_stream_tell s = int (length (written s))"
    and sink_writeable: "ok s \<Longrightarrow> is_writeable s"

section \<open>The growing memory buffer\<close>

definition malloc_written :: "asdf_stream \<Rightarrow> bytes" where
  "malloc_written s = (case userdata s of MemData d \<Rightarrow> mem_buf d | _ \<Rightarrow> [])"

definition malloc_ok :: "asdf_stream \<Rightarrow> bool" where
  "malloc_ok s \<longleftrightarrow> is_writeable s \<and> ctx_heap (s_ctx s) = [] \<and>
     (case userdata s of
        MemData d \<Rightarrow> is_resizeable d \<and> mem_size d = length (mem_buf d) \<and> mem_pos d = mem_size d \<and>
          mem_out d = Some (mem_buf d, mem_size d)
      | _ \<Rightarrow> False)"

lemma malloc_write_law:
  assumes ok: "malloc_ok s" and len: "length (malloc_written s) + length bs \<le> 2 ^ 62"
  shows "\<exists>s'. asdf_stream_write s bs = Some (length bs, s') \<and> malloc_ok s' \<and>
         malloc_written s' = malloc_written s @ bs \<and> same_frame s s'"
proof -
  obtain d where d: "userdata s = MemData d" "is_resizeable d" "mem_size d = length (mem_buf d)"
      "mem_pos d = length (mem_buf d)" "mem_out d = Some (mem_buf d, length (mem_buf d))"
    using ok by (auto simp: malloc_ok_def split: asdf_userdata.splits)
  have heap: "ctx_alloc (s_ctx s) = (True, s_ctx s)"
    using ok by (simp add: malloc_ok_def ctx_alloc_ok)
  have tot: "length (mem_buf d) + length bs < size_mod"
    using len d(1) by (simp add: malloc_written_def size_mod_def)
  have add: "size_add (length (mem_buf d)) (length bs) = length (mem_buf d) + length bs"
    by (rule size_add_small [OF tot])
  have sub: "size_sub (length (mem_buf d) + length bs) (length (mem_buf d)) = length bs"
    using tot by (subst size_sub_small) auto
  have wr: "mem_write_at (mem_buf d @ replicate (length bs) 0) (length (mem_buf d)) bs =
      Some (mem_buf d @ bs)"
    by (simp add: mem_write_at_append)
  define d' where "d' = d\<lparr>mem_buf := mem_buf d @ bs, mem_size := length (mem_buf d) + length bs,
      mem_pos := length (mem_buf d) + length bs,
      mem_out := Some (mem_buf d @ bs, length (mem_buf d) + length bs)\<rparr>"
  have "mem_write s d bs = Some (length bs, s, d')"
    by (simp add: mem_write_def d(2-5) heap add sub wr d'_def Let_def)
  then show ?thesis
    using ok by (auto simp: asdf_stream_write_def d(1) malloc_ok_def malloc_written_def same_frame_def
        d'_def d(2))
qed

interpretation malloc_sink: byte_sink malloc_ok malloc_written
proof unfold_locales
  fix s and bs :: bytes assume "malloc_ok s" "length (malloc_written s) + length bs \<le> 2 ^ 62"
  then show "\<exists>s'. asdf_stream_write s bs = Some (length bs, s') \<and> malloc_ok s' \<and>
         malloc_written s' = malloc_written s @ bs \<and> same_frame s s'"
    by (rule malloc_write_law)
next
  fix s assume "malloc_ok s" "length (malloc_written s) \<le> 2 ^ 62"
  then show "asdf_stream_tell s = int (length (malloc_written s))"
    by (auto simp: malloc_ok_def malloc_written_def asdf_stream_tell_def mem_tell_def
        off_of_size_small split: asdf_userdata.splits)
qed (simp add: malloc_ok_def)

section \<open>A file opened for writing\<close>

definition file_written :: "asdf_stream \<Rightarrow> bytes" where
  "file_written s = (case userdata s of FileData d \<Rightarrow> f_content (fu_file d) | _ \<Rightarrow> [])"

definition file_sink_ok :: "asdf_stream \<Rightarrow> bool" where
  "file_sink_ok s \<longleftrightarrow> is_writeable s \<and>
     (case userdata s of
        FileData d \<Rightarrow> f_limit (fu_file d) = None \<and> f_pos (fu_file d) = length (f_content (fu_file d)) \<and>
          fu_file_pos d = length (f_content (fu_file d))
      | _ \<Rightarrow> False)"

lemma file_sink_write_law:
  assumes ok: "file_sink_ok s" and len: "length (file_written s) + length bs \<le> 2 ^ 62"
  shows "\<exists>s'. asdf_stream_write s bs = Some (length bs, s') \<and> file_sink_ok s' \<and>
         file_written s' = file_written s @ bs \<and> same_frame s s'"
proof -
  obtain d where d: "userdata s = FileData d" "f_limit (fu_file d) = None"
      "f_pos (fu_file d) = length (f_content (fu_file d))"
      "fu_file_pos d = length (f_content (fu_file d))"
    using ok by (auto simp: file_sink_ok_def split: asdf_userdata.splits)
  have "size_add (fu_file_pos d) (length bs) = length (f_content (fu_file d)) + length bs"
    using len by (simp add: d file_written_def size_add_small size_mod_def)
  then show ?thesis
    using ok by (auto simp: asdf_stream_write_def file_write_def fwrite_def d file_sink_ok_def
        file_written_def same_frame_def Let_def)
qed

interpretation file_sink: byte_sink file_sink_ok file_written
proof unfold_locales
  fix s and bs :: bytes assume "file_sink_ok s" "length (file_written s) + length bs \<le> 2 ^ 62"
  then show "\<exists>s'. asdf_stream_write s bs = Some (length bs, s') \<and> file_sink_ok s' \<and>
         file_written s' = file_written s @ bs \<and> same_frame s s'"
    by (rule file_sink_write_law)
next
  fix s assume "file_sink_ok s" "length (file_written s) \<le> 2 ^ 62"
  then show "asdf_stream_tell s = int (length (file_written s))"
    by (auto simp: file_sink_ok_def file_written_def asdf_stream_tell_def file_tell_def
        ASDF_OFF_MAX_def off_of_size_small split: asdf_userdata.splits)
qed (simp add: file_sink_ok_def)

end
