(* ===== verification/Asdf_Block_Codec.thy ===== *)
theory Asdf_Block_Codec
  imports Asdf_Block Asdf_Sink
begin

text \<open>
  The bytes a block occupies in a file, that the block writer produces exactly these on any
  sink, and that the block reader recovers the header from them on any stream.
\<close>

section \<open>The image of a block\<close>

definition header_image :: "asdf_block_header \<Rightarrow> bytes" where
  "header_image h = asdf_block_magic @ be_enc 2 ASDF_BLOCK_HEADER_SIZE @ be_enc 4 (unat (flags h)) @
     compression h @ be_enc 8 (unat (allocated_size h)) @ be_enc 8 (unat (used_size h)) @
     be_enc 8 (unat (data_size h)) @ checksum h"

definition header_ok :: "asdf_block_header \<Rightarrow> bool" where
  "header_ok h \<longleftrightarrow> unat (header_size h) = ASDF_BLOCK_HEADER_SIZE \<and> length (compression h) = 4 \<and>
     length (checksum h) = 16"

definition block_image :: "asdf_block_header \<Rightarrow> bytes \<Rightarrow> bytes" where
  "block_image h payload = header_image h @ payload @
     replicate (unat (allocated_size h) - length payload) 0"

lemma length_header_image: "header_ok h \<Longrightarrow> length (header_image h) = ASDF_BLOCK_HEADER_FULL_SIZE"
  by (simp add: header_ok_def header_image_def asdf_block_magic_def ASDF_BLOCK_HEADER_FULL_SIZE_def
      ASDF_BLOCK_HEADER_SIZE_def ASDF_BLOCK_MAGIC_SIZE_def length_be_enc)

lemma length_block_image:
  "header_ok h \<Longrightarrow> length payload \<le> unat (allocated_size h) \<Longrightarrow>
     length (block_image h payload) = ASDF_BLOCK_HEADER_FULL_SIZE + unat (allocated_size h)"
  by (simp add: block_image_def length_header_image)

lemma block_image_magic: "is_block_magic (block_image h payload @ rst)"
  by (simp add: is_block_magic_def block_image_def header_image_def asdf_block_magic_def
      ASDF_BLOCK_MAGIC_SIZE_def)

lemma header_image_fields:
  assumes "header_ok h"
  shows "parse_header_fields (drop 6 (header_image h)) h0 = h\<lparr>header_size := header_size h0\<rparr>"
proof -
  define f where "f = drop 6 (header_image h)"
  have f: "f = be_enc 4 (unat (flags h)) @ compression h @ be_enc 8 (unat (allocated_size h)) @
      be_enc 8 (unat (used_size h)) @ be_enc 8 (unat (data_size h)) @ checksum h"
    by (simp add: f_def header_image_def asdf_block_magic_def length_be_enc)
  have len: "length (compression h) = 4" "length (checksum h) = 16"
    using assms by (simp_all add: header_ok_def)
  have "parse_flags f = flags h"
    by (subst parse_flags_be) (simp_all add: f length_be_enc be_word_roundtrip)
  moreover have "be64_at f 8 = allocated_size h" "be64_at f 16 = used_size h" "be64_at f 24 = data_size h"
    by (simp_all add: f be64_at_def length_be_enc len be_word_roundtrip)
  moreover have "take 4 (drop 4 f) = compression h" "take 16 (drop 32 f) = checksum h"
    by (simp_all add: f length_be_enc len)
  ultimately show ?thesis
    by (simp add: parse_header_fields_def flip: f_def)
qed

lemma header_size_48: "header_ok h \<Longrightarrow> header_size h = 48"
  by (simp add: header_ok_def ASDF_BLOCK_HEADER_SIZE_def word_unat_eq_iff)

lemma read_header_image:
  assumes "header_ok h"
  shows "read_header_spec (drop ASDF_BLOCK_MAGIC_SIZE (header_image h @ rst)) =
     Inr (header_size h, drop 6 (header_image h))"
proof -
  define f where "f = drop 6 (header_image h)"
  have split: "drop 4 (header_image h @ rst) = be_enc 2 48 @ f @ rst"
    by (simp add: f_def header_image_def asdf_block_magic_def ASDF_BLOCK_HEADER_SIZE_def length_be_enc)
  have lf: "length f = 48"
    using length_header_image [OF assms]
    by (simp add: f_def ASDF_BLOCK_HEADER_FULL_SIZE_def ASDF_BLOCK_HEADER_SIZE_def ASDF_BLOCK_MAGIC_SIZE_def)
  have len2: "length (be_enc 2 48) = 2" by (simp add: length_be_enc)
  then have ne: "be_enc 2 48 \<noteq> []" by (metis list.size(3) zero_neq_numeral)
  have "take 2 (be_enc 2 48 @ f @ rst) = be_enc 2 48" using len2 by simp
  then have "(of_nat (be_val (take 2 (be_enc 2 48 @ f @ rst))) :: u16) = 48"
    by (simp add: be_val_be_enc del: take_append)
  then show ?thesis
    unfolding ASDF_BLOCK_MAGIC_SIZE_def split read_header_spec_def Let_def f_def [symmetric]
    by (simp add: ne len2 lf ASDF_BLOCK_HEADER_SIZE_def header_size_48 [OF assms])
qed


section \<open>Writing\<close>

context byte_sink
begin

lemma write_all_law:
  "ok s \<Longrightarrow> length (written s) + length (concat xs) \<le> 2 ^ 62 \<Longrightarrow>
   \<exists>s'. write_check_all s xs = Some (True, s') \<and> ok s' \<and> written s' = written s @ concat xs \<and>
     same_frame s s'"
proof (induction xs arbitrary: s)
  case Nil
  then show ?case by simp
next
  case (Cons x xs)
  from write_law [OF Cons.prems(1), of x] Cons.prems(2) obtain s1 where
    w: "asdf_stream_write s x = Some (length x, s1)" "ok s1" "written s1 = written s @ x"
      "same_frame s s1"
    by auto
  from Cons.IH [OF w(2)] Cons.prems(2) w(3) obtain s2 where
    "write_check_all s1 xs = Some (True, s2)" "ok s2" "written s2 = written s1 @ concat xs"
    "same_frame s1 s2"
    by auto
  with w same_frame_trans show ?case by auto
qed

end

text \<open>The header the writer puts in front of a payload.\<close>

definition written_header ::
  "(bytes \<Rightarrow> bytes) \<Rightarrow> bool \<Rightarrow> bytes \<Rightarrow> bytes \<Rightarrow> asdf_block_header \<Rightarrow> asdf_block_header" where
  "written_header md5 cksum field payload h =
     h\<lparr>header_size := of_nat ASDF_BLOCK_HEADER_SIZE, compression := field,
       allocated_size := of_nat (max (unat (allocated_size h)) (length payload)),
       used_size := of_nat (length payload),
       checksum := (if cksum then md5 payload else checksum h)\<rparr>"

lemma unat_written_allocated:
  "length payload \<le> 2 ^ 62 \<Longrightarrow>
     unat (allocated_size (written_header md5 cksum field payload h)) =
       max (unat (allocated_size h)) (length payload)"
  using unsigned_less [of "allocated_size h", where 'a = nat]
  by (simp add: written_header_def unat_of_nat max_def)

lemma comp_field_length: "comp_field name = Some f \<Longrightarrow> length f = 4"
  by (auto simp: comp_field_def mem_read_def split: option.splits if_splits)

lemma written_header_ok:
  "comp_field name = Some field \<Longrightarrow> length (md5 payload) = 16 \<Longrightarrow> length (checksum h) = 16 \<Longrightarrow>
     header_ok (written_header md5 cksum field payload h)"
  by (simp add: header_ok_def written_header_def comp_field_length ASDF_BLOCK_HEADER_SIZE_def)


context byte_sink
begin

lemma write_block_law:
  assumes ok: "ok s"
    and src: "block_info_source os None block = Some (src, None)" "src \<noteq> Source_failed"
    and pay: "block_info_payload cmp decomp block src = Inr (payload, name)"
    and field: "comp_field name = Some field"
    and md5: "length (md5 payload) = 16" and ck: "length (checksum (bi_header block)) = 16"
    and h: "h = written_header md5 cksum field payload (bi_header block)"
    and room: "length (written s) + length (block_image h payload) \<le> 2 ^ 62"
  shows "\<exists>s'. asdf_block_info_write os md5 cmp decomp None block s cksum =
      Some (True, block\<lparr>header_pos := int (length (written s)),
                        data_pos := int (length (written s) + ASDF_BLOCK_HEADER_FULL_SIZE),
                        bi_header := (bi_header block)\<lparr>checksum := checksum h\<rparr>\<rparr>, s') \<and>
      ok s' \<and> written s' = written s @ block_image h payload \<and> same_frame s s'"
proof -
  define al where "al = block_alloc_size (bi_header block) (length payload)"
  have hok: "header_ok h" unfolding h using field md5 ck by (rule written_header_ok)
  have lp: "length payload \<le> 2 ^ 62" using room by (simp add: block_image_def)
  then have alh: "unat (allocated_size h) = al" "unat (used_size h) = length payload"
    "flags h = flags (bi_header block)" "data_size h = data_size (bi_header block)"
    "compression h = field" "length payload \<le> al"
    unfolding h by (simp_all add: unat_written_allocated al_def block_alloc_size_def)
       (simp_all add: written_header_def unat_of_nat)
  define xs where "xs = [asdf_block_magic, be_enc 2 ASDF_BLOCK_HEADER_SIZE,
               be_enc 4 (unat (flags (bi_header block))), field, be_enc 8 al, be_enc 8 (length payload),
               be_enc 8 (unat (data_size (bi_header block)))]"
  define zs where "zs = block_data_writes payload al"
  have hdr: "concat xs @ checksum h = header_image h"
    by (simp add: xs_def header_image_def alh)
  have zs: "concat zs = payload @ replicate (al - length payload) 0"
    by (auto simp: zs_def block_data_writes_def length_zero_chunks Let_def)
  then have img: "block_image h payload = concat xs @ checksum h @ concat zs"
    by (simp add: block_image_def alh flip: hdr)
  have "length (concat xs) + length (checksum h) + length (concat zs) + length (written s) \<le> 2 ^ 62"
    using room by (simp add: img del: length_concat)
  then have r: "length (written s) + length (concat xs) \<le> 2 ^ 62"
    "length (written s @ concat xs) + length (concat [checksum h]) \<le> 2 ^ 62"
    "length ((written s @ concat xs) @ concat [checksum h]) + length (concat zs) \<le> 2 ^ 62"
    by simp_all
  from write_all_law [OF ok r(1)] obtain s1 where
    s1: "write_check_all s xs = Some (True, s1)" "ok s1" "written s1 = written s @ concat xs"
      "same_frame s s1"
    by blast
  from write_all_law [OF s1(2), of "[checksum h]"] r(2) s1(3) obtain s2 where
    s2: "write_check_all s1 [checksum h] = Some (True, s2)" "ok s2"
      "written s2 = (written s @ concat xs) @ checksum h" "same_frame s1 s2"
    by auto
  from write_all_law [OF s2(2), of zs] r(3) s2(3) obtain s3 where
    s3: "write_check_all s2 zs = Some (True, s3)" "ok s3"
      "written s3 = written s @ block_image h payload" "same_frame s2 s3"
    by (auto simp: img)
  have t0: "asdf_stream_tell s = int (length (written s))" using sink_tell [OF ok] r(1) by simp
  have l2: "length (written s2) = length (written s) + ASDF_BLOCK_HEADER_FULL_SIZE"
    using length_header_image [OF hok] s2(3) by (simp flip: hdr)
  then have t2: "asdf_stream_tell s2 = int (length (written s) + ASDF_BLOCK_HEADER_FULL_SIZE)"
    using sink_tell [OF s2(2)] r(3) s2(3) by simp
  have ckh: "checksum h = (if cksum then md5 payload else checksum (bi_header block))"
    by (simp add: h written_header_def)
  show ?thesis
  proof (intro exI [of _ s3] conjI)
    show "same_frame s s3" using s1(4) s2(4) s3(4) by (meson same_frame_trans)
    show "asdf_block_info_write os md5 cmp decomp None block s cksum =
      Some (True, block\<lparr>header_pos := int (length (written s)),
                        data_pos := int (length (written s) + ASDF_BLOCK_HEADER_FULL_SIZE),
                        bi_header := (bi_header block)\<lparr>checksum := checksum h\<rparr>\<rparr>, s3)"
      using src s1(1) [unfolded xs_def al_def] s2(1) s3(1) [unfolded zs_def al_def] t0 t2 ckh
      by (cases cksum)
         (simp_all add: asdf_block_info_write_def sink_writeable [OF ok] pay field Let_def
          del: write_check_all.simps)
  qed (use s3 in auto)
qed

end


section \<open>Reading a written block back\<close>

context byte_stream
begin

lemma read_block_image:
  assumes inv: "inv s" and err: "error (s_ctx s) = None" and win: "ASDF_BLOCK_MAGIC_SIZE \<le> win s"
    and rest: "rest s = block_image h payload @ rst" and h: "header_ok h"
  shows "\<exists>s'. asdf_block_info_read s out = Some (True, s', out\<lparr>header_pos := int (pos s),
        data_pos := int (pos s + ASDF_BLOCK_HEADER_FULL_SIZE), bi_header := h\<rparr>) \<and>
      inv s' \<and> rest s' = payload @ replicate (unat (allocated_size h) - length payload) 0 @ rst \<and>
      pos s' = pos s + ASDF_BLOCK_HEADER_FULL_SIZE \<and> same_frame s s'"
proof -
  have u: "header_size h = 48" "h\<lparr>header_size := 48\<rparr> = h"
    using header_size_48 [OF h] by simp_all
  have l: "length (header_image h) = 54"
    using length_header_image [OF h] by (simp add: ASDF_BLOCK_HEADER_FULL_SIZE_def
        ASDF_BLOCK_HEADER_SIZE_def ASDF_BLOCK_MAGIC_SIZE_def)
  have "read_header_spec (drop ASDF_BLOCK_MAGIC_SIZE (rest s)) =
      Inr (header_size h, drop 6 (header_image h))"
    unfolding rest block_image_def append_assoc by (rule read_header_image [OF h])
  moreover have "drop 54 (rest s) = payload @ replicate (unat (allocated_size h) - length payload) 0 @ rst"
    by (simp add: rest block_image_def l)
  ultimately show ?thesis
    using block_info_read_law [OF inv err win, of out]
    by (simp add: header_image_fields [OF h] u ASDF_BLOCK_HEADER_FULL_SIZE_def
        ASDF_BLOCK_HEADER_SIZE_def ASDF_BLOCK_MAGIC_SIZE_def add.assoc)
qed

end

section \<open>Properties\<close>

text \<open>The fields of a header are recovered from its written form, the flags and the three sizes at
  their full width.\<close>

lemma header_fields_roundtrip:
  assumes "header_ok h"
  shows "length (header_image h) = 54 \<and>
    read_header_spec (drop 4 (header_image h @ rst)) = Inr (header_size h, drop 6 (header_image h)) \<and>
    parse_header_fields (drop 6 (header_image h)) (zero_header\<lparr>header_size := header_size h\<rparr>) = h"
  using length_header_image [OF assms] read_header_image [OF assms, of rst] header_image_fields [OF assms]
  by (simp add: ASDF_BLOCK_HEADER_FULL_SIZE_def ASDF_BLOCK_HEADER_SIZE_def ASDF_BLOCK_MAGIC_SIZE_def)

definition sample_header :: asdf_block_header where
  "sample_header = \<lparr>header_size = 48, flags = 0, compression = replicate 4 0, allocated_size = 4,
     used_size = 3, data_size = 3, checksum = replicate 16 7\<rparr>"

lemma sample_header_ok: "header_ok sample_header"
  by (simp add: header_ok_def sample_header_def ASDF_BLOCK_HEADER_SIZE_def)

text \<open>C6. Writing a block to a file opened for writing succeeds and appends exactly the image of the
  block: the header with the stored size, the allocated size raised to it where needed and the checksum
  of the stored bytes if one is asked for, the stored bytes, and zeros up to the allocated size. The
  block records where its header and its data went.\<close>

theorem file_block_write:
  assumes "file_sink_ok s"
    and "block_info_source os None block = Some (src, None)" "src \<noteq> Source_failed"
    and "block_info_payload cmp decomp block src = Inr (payload, name)"
    and "comp_field name = Some field"
    and "length (md5 payload) = 16" and "length (checksum (bi_header block)) = 16"
    and "h = written_header md5 cksum field payload (bi_header block)"
    and "length (file_written s) + length (block_image h payload) \<le> 2 ^ 62"
  shows "\<exists>s'. asdf_block_info_write os md5 cmp decomp None block s cksum =
      Some (True, block\<lparr>header_pos := int (length (file_written s)),
                        data_pos := int (length (file_written s) + ASDF_BLOCK_HEADER_FULL_SIZE),
                        bi_header := (bi_header block)\<lparr>checksum := checksum h\<rparr>\<rparr>, s') \<and>
      file_sink_ok s' \<and> file_written s' = file_written s @ block_image h payload \<and> same_frame s s'"
  using assms by (rule file_sink.write_block_law)

definition sample_block :: asdf_block_info where
  "sample_block = asdf_block_info_init 0 (Some [1, 2, 3]) 3 zero_block_info"

definition sample_os :: os_env where
  "sample_os = \<lparr>page_size = 4096, fd_ok = True, fstat_ok = True, mmap_addr = None, munmap_ok = True, os_errno = 0\<rparr>"

definition sample_md5 :: "bytes \<Rightarrow> bytes" where
  "sample_md5 bs = replicate 16 (of_nat (length bs))"

definition sample_sink :: asdf_stream where
  "sample_sink = sample_file_stream\<lparr>is_writeable := True, userdata := (case userdata sample_file_stream of
     FileData d \<Rightarrow> FileData (d\<lparr>fu_file := (fu_file d)\<lparr>f_content := [], f_pos := 0\<rparr>\<rparr>))\<rparr>"

lemma sample_sink_ok: "file_sink_ok sample_sink" "file_written sample_sink = []"
  by (simp_all add: sample_sink_def sample_file_stream_def asdf_stream_from_fp_def ctx_alloc_def
      asdf_context_retain_def file_sink_ok_def file_written_def)

lemma sample_block_payload:
  "block_info_source sample_os None sample_block = Some (Source [1, 2, 3] False, None)"
  "block_info_payload (\<lambda>_ _. None) (\<lambda>_ _. None) sample_block (Source [1, 2, 3] False) = Inr ([1, 2, 3], None)"
  "comp_field None = Some (replicate 4 0)" "length (checksum (bi_header sample_block)) = 16"
  by (simp_all add: sample_block_def asdf_block_info_init_def zero_block_info_def zero_header_def
      block_info_source_def block_info_payload_def comp_field_def mem_read_def)

theorem file_block_write_witness:
  "\<exists>b s'. asdf_block_info_write sample_os sample_md5 (\<lambda>_ _. None) (\<lambda>_ _. None) None sample_block sample_sink True =
      Some (True, b, s') \<and> length (file_written s') = 57 \<and> header_pos b = 0 \<and> data_pos b = 54"
proof -
  define h where "h = written_header sample_md5 True (replicate 4 0) [1, 2, 3] (bi_header sample_block)"
  have m: "length (sample_md5 [1, 2, 3]) = 16" by (simp add: sample_md5_def)
  have hok: "header_ok h" unfolding h_def using sample_block_payload(3) m sample_block_payload(4) by (rule written_header_ok)
  have al: "unat (allocated_size h) = 3"
    by (simp add: h_def unat_written_allocated) (simp add: sample_block_def asdf_block_info_init_def)
  have len: "length (block_image h [1, 2, 3]) = 57"
    using length_block_image [OF hok, of "[1, 2, 3]"] al
    by (simp add: ASDF_BLOCK_HEADER_FULL_SIZE_def ASDF_BLOCK_HEADER_SIZE_def ASDF_BLOCK_MAGIC_SIZE_def)
  show ?thesis
    using file_block_write [OF sample_sink_ok(1) sample_block_payload(1) _ sample_block_payload(2,3) m
        sample_block_payload(4) h_def] len sample_sink_ok(2)
    by (auto simp: ASDF_BLOCK_HEADER_FULL_SIZE_def ASDF_BLOCK_HEADER_SIZE_def ASDF_BLOCK_MAGIC_SIZE_def)
qed

end
