(* ===== verification/Asdf_Parse_File.thy ===== *)
theory Asdf_Parse_File
  imports Asdf_Parser_States Asdf_Mem_View Asdf_Block_Codec
begin

text \<open>
  The parser on a well-formed file in memory: the events are those the file was put together
  from, with the right positions, and the infos and the index the parser builds on the way are
  right.
\<close>

section \<open>Where the parser is\<close>

text \<open>
  The parser with no options in state \<^term>\<open>st\<close> at position \<^term>\<open>i\<close> of a buffer, without an error
  and with the blocks \<^term>\<open>bs\<close> found so far.
\<close>

definition index_ok :: "asdf_parser_block_info \<Rightarrow> asdf_block_info list \<Rightarrow> bool" where
  "index_ok b bs \<longleftrightarrow> \<not> has_index b \<and> infos b = bs \<and> block_found b = length bs \<and>
     v_cap (block_index b) = length (v_items (block_index b)) \<and>
     length bs \<le> length (v_items (block_index b)) \<and>
     take (length bs) (v_items (block_index b)) = map header_pos bs"

definition parser_at ::
  "asdf_parser \<Rightarrow> asdf_parser_state \<Rightarrow> bytes \<Rightarrow> nat \<Rightarrow> asdf_block_info list \<Rightarrow> bool" where
  "parser_at p st buf i bs \<longleftrightarrow> p_has_stream p \<and> p_state p = st \<and> mem_view (p_stream p) buf i \<and>
     error (s_ctx (p_stream p)) = None \<and> p_flags p = 0 \<and> \<not> p_done p \<and> index_ok (p_block p) bs \<and>
     length bs \<le> i \<and> tree_buf (p_tree p) = None \<and> (st = ASDF_PARSER_STATE_TREE \<longrightarrow> tree_start (p_tree p) = int i)"

lemma parser_atD:
  assumes "parser_at p st buf i bs"
  shows "p_has_stream p" "p_state p = st" "mem_view (p_stream p) buf i" "error (s_ctx (p_stream p)) = None"
    "p_flags p = 0" "\<not> p_done p" "index_ok (p_block p) bs" "tree_buf (p_tree p) = None"
    "st = ASDF_PARSER_STATE_TREE \<Longrightarrow> tree_start (p_tree p) = int i"
    "is_seekable (p_stream p)" "ctx_heap (s_ctx (p_stream p)) = []" "capture_buf (p_stream p) = None"
    "i \<le> length buf" "length buf \<le> 2 ^ 62" "length bs \<le> i"
  using assms by (auto simp: parser_at_def mem_view_def)

definition move :: "asdf_parser \<Rightarrow> nat \<Rightarrow> asdf_parser" where
  "move p j = p\<lparr>p_stream := goto (p_stream p) j\<rparr>"

lemma parser_at_move:
  "parser_at p st buf i bs \<Longrightarrow> j \<le> length buf \<Longrightarrow> i \<le> j \<Longrightarrow> st' \<noteq> ASDF_PARSER_STATE_TREE \<Longrightarrow>
     parser_at ((move p j)\<lparr>p_state := st'\<rparr>) st' buf j bs"
  by (auto simp: parser_at_def move_def mem_view_goto)

lemma alloc_at: "parser_at p st buf i bs \<Longrightarrow> parser_alloc p = (True, p)"
  by (auto simp: parser_alloc_def ctx_alloc_ok dest!: parser_atD(11))

text \<open>A call of \<^verbatim>\<open>asdf_event_iterate\<close> is a run of the loop; the event slots do not matter.\<close>

lemma parser_at_slots [simp]:
  "parser_at (p\<lparr>ev_free := a\<rparr>) st buf i bs = parser_at p st buf i bs"
  "parser_at (p\<lparr>ev_cur := c\<rparr>) st buf i bs = parser_at p st buf i bs"
  "parser_at (p\<lparr>ev_fresh := f\<rparr>) st buf i bs = parser_at p st buf i bs"
  by (simp_all add: parser_at_def)

lemma alloc_event_at:
  assumes "parser_at p st buf i bs"
  shows "\<exists>e q. asdf_parse_event_alloc p = (Some e, q) \<and> parser_at q st buf i bs"
  using assms by (cases "ev_free p") (auto simp: asdf_parse_event_alloc_def alloc_at)

lemma iterate_event:
  assumes at: "parser_at p st buf i bs"
    and loop: "\<And>q. parser_at q st buf i bs \<Longrightarrow>
      \<exists>q'. loop_opt (parser_loop_step env) (q, ASDF_NONE_EVENT) = Some (Some ev, ev, q') \<and> P q'"
  shows "\<exists>p'. asdf_event_iterate env p = Some (Some ev, p') \<and> P p'"
proof -
  define q where "q = (if ev_cur p \<noteq> None then (asdf_parse_event_recycle p (ev_cur p))\<lparr>ev_cur := None\<rparr> else p)"
  have "parser_at q st buf i bs"
    using at by (auto simp: q_def asdf_parse_event_recycle_def Let_def split: option.splits)
  from alloc_event_at [OF this] obtain e q1 where
    q1: "asdf_parse_event_alloc q = (Some e, q1)" "parser_at q1 st buf i bs"
    by blast
  from loop [OF q1(2)] obtain q' where
    "loop_opt (parser_loop_step env) (q1, ASDF_NONE_EVENT) = Some (Some ev, ev, q')" "P q'"
    by blast
  with q1 parser_atD(1) [OF \<open>parser_at q st buf i bs\<close>] show ?thesis
    unfolding asdf_event_iterate_def Let_def q_def [symmetric] by (simp add: asdf_parser_parse_def)
qed

lemma loop_step_at:
  assumes "running (p_state q)" and "parser_step env q ev = Some (res, q', ev')"
  shows "parser_loop_step env (q, ev) = Some (case res of
      ASDF_PARSE_CONTINUE \<Rightarrow> Inl (q', ev')
    | ASDF_PARSE_EVENT \<Rightarrow> Inr (Some ev', ev', q')
    | ASDF_PARSE_ERROR \<Rightarrow> Inr (None, ev', q'\<lparr>p_state := ASDF_PARSER_STATE_ERROR\<rparr>))"
  using assms by (auto simp: parser_loop_step_def running_def)

lemma loop_event:
  "running (p_state q) \<Longrightarrow> parser_step env q ev = Some (ASDF_PARSE_EVENT, q', ev') \<Longrightarrow>
     loop_opt (parser_loop_step env) (q, ev) = Some (Some ev', ev', q')"
  by (rule loop_opt_Inr) (simp add: loop_step_at)

lemma loop_continue:
  "running (p_state q) \<Longrightarrow> parser_step env q ev = Some (ASDF_PARSE_CONTINUE, q', ev') \<Longrightarrow>
     loop_opt (parser_loop_step env) (q, ev) = loop_opt (parser_loop_step env) (q', ev')"
  by (rule loop_opt_Inl) (simp add: loop_step_at)

section \<open>The header\<close>

lemma alloc_Nil [simp]: "snd (alloc []) = []" "fst (alloc [])"
  by simp_all

lemma strncmp_eq_append: "strncmp_eq (x @ r) x = Some True"
  by (simp add: strncmp_eq_def)

lemma strndup_line: "0 \<notin> set v \<Longrightarrow> strndup (v @ r) (length v) = Some v"
  by (subst strndup_def) (force simp: takeWhile_eq_all_conv)

lemma same_heap: "ctx_heap c = [] \<Longrightarrow> c\<lparr>ctx_heap := []\<rparr> = c"
  by (cases c) simp

lemma goto_same_ctx: "(goto s j)\<lparr>s_ctx := s_ctx s\<rparr> = goto s j"
  by (cases s) (simp add: goto_def split: asdf_userdata.split)

lemma version_comment_at:
  assumes at: "parser_at p st buf i bs" and line: "drop i buf = x @ v @ 10 # r"
    and clean: "10 \<notin> set x" "10 \<notin> set v" "0 \<notin> set v"
    and ver: "asdf_version_parse [] (Some v) = (Some ver, [])"
  shows "parse_version_comment p x = Some (Some ver, move p (i + length x + length v + 1))"
proof -
  note D = parser_atD [OF at]
  have rl: "asdf_stream_readline (p_stream p) =
      Some (Some (drop i buf, length (x @ v) + 1), goto (p_stream p) (i + length (x @ v) + 1))"
    using view_readline [OF D(3), of "x @ v" r] line clean by simp
  have len: "length x + length v + 1 \<le> length buf"
    using arg_cong [OF line, of length] D(13) by simp
  then have sub: "size_sub (size_sub (length x + length v + 1) (length x)) 1 = length v"
    using D(14) by (simp add: size_sub_small size_mod_def)
  have al: "parser_alloc (p\<lparr>p_stream := goto (p_stream p) j\<rparr>) = (True, p\<lparr>p_stream := goto (p_stream p) j\<rparr>)" for j
    using D(11) by (simp add: parser_alloc_def ctx_alloc_ok)
  have sd: "strndup (drop (length x) (drop i buf)) (length v) = Some v"
    unfolding line using strndup_line [OF clean(3), of "10 # r"] by simp
  have cmp: "strncmp_eq (drop i buf) x = Some True" unfolding line by (rule strncmp_eq_append)
  show ?thesis
    using D(11) sub sd
    by (simp add: parse_version_comment_def rl al cmp ver Let_def move_def same_heap goto_same_ctx
        add.assoc del: drop_drop)
qed


lemma running_simps [simp]:
  "running ASDF_PARSER_STATE_ASDF_VERSION" "running ASDF_PARSER_STATE_STANDARD_VERSION"
  "running ASDF_PARSER_STATE_COMMENT" "running ASDF_PARSER_STATE_TREE_OR_BLOCK"
  "running ASDF_PARSER_STATE_TREE" "running ASDF_PARSER_STATE_YAML" "running ASDF_PARSER_STATE_BLOCK"
  "running ASDF_PARSER_STATE_PADDING" "running ASDF_PARSER_STATE_BLOCK_INDEX"
  by (simp_all add: running_def)

lemma asdf_version_at:
  assumes at: "parser_at p ASDF_PARSER_STATE_ASDF_VERSION buf i bs"
    and line: "drop i buf = asdf_version_comment @ v @ 10 # r"
    and clean: "10 \<notin> set v" "0 \<notin> set v" and ver: "asdf_version_parse [] (Some v) = (Some ver, [])"
  shows "\<exists>q. parser_step env p ev = Some (ASDF_PARSE_EVENT, q, ASDF_ASDF_VERSION_EVENT ver) \<and>
    parser_at q ASDF_PARSER_STATE_STANDARD_VERSION buf (i + 7 + length v) bs"
proof -
  have x: "10 \<notin> set asdf_version_comment" "length asdf_version_comment = 6"
    by (simp_all add: asdf_version_comment_def bytes_of_def of_char_def)
  have le: "i + 7 + length v \<le> length buf"
    using arg_cong [OF line, of length] x(2) parser_atD(13) [OF at] by simp
  have "parse_version_comment p asdf_version_comment = Some (Some ver, move p (i + 7 + length v))"
    using version_comment_at [OF at line x(1) clean ver] x(2) by (simp add: add.commute add.left_commute)
  then show ?thesis
    using parser_at_move [OF at le, of ASDF_PARSER_STATE_STANDARD_VERSION] parser_atD(2) [OF at]
    by (auto simp: parser_step_def parse_asdf_version_def parser_at_def)
qed

lemma standard_version_at:
  assumes at: "parser_at p ASDF_PARSER_STATE_STANDARD_VERSION buf i bs"
    and line: "drop i buf = asdf_standard_comment @ v @ 10 # r"
    and clean: "10 \<notin> set v" "0 \<notin> set v" and ver: "asdf_version_parse [] (Some v) = (Some ver, [])"
  shows "\<exists>q. parser_step env p ev = Some (ASDF_PARSE_EVENT, q, ASDF_STANDARD_VERSION_EVENT ver) \<and>
    parser_at q ASDF_PARSER_STATE_COMMENT buf (i + 16 + length v) bs"
proof -
  have x: "10 \<notin> set asdf_standard_comment" "length asdf_standard_comment = 15"
    by (simp_all add: asdf_standard_comment_def bytes_of_def of_char_def)
  have le: "i + 16 + length v \<le> length buf"
    using arg_cong [OF line, of length] x(2) parser_atD(13) [OF at] by simp
  have "parse_version_comment p asdf_standard_comment = Some (Some ver, move p (i + 16 + length v))"
    using version_comment_at [OF at line x(1) clean ver] x(2) by (simp add: add.commute add.left_commute)
  then show ?thesis
    using parser_at_move [OF at le, of ASDF_PARSER_STATE_COMMENT] parser_atD(2) [OF at]
    by (auto simp: parser_step_def parse_standard_version_def parser_at_def)
qed

lemma no_comment_at:
  assumes at: "parser_at p ASDF_PARSER_STATE_COMMENT buf i bs"
    and nxt: "drop i buf = c # r" "c \<noteq> 10" "c \<noteq> 13" "c \<noteq> 35"
  shows "parser_step env p ev =
      Some (ASDF_PARSE_CONTINUE, p\<lparr>p_state := ASDF_PARSER_STATE_BLOCK_INDEX\<rparr>, ev) \<and>
    parser_at (p\<lparr>p_state := ASDF_PARSER_STATE_BLOCK_INDEX\<rparr>) ASDF_PARSER_STATE_BLOCK_INDEX buf i bs"
proof -
  have "parse_comment_step (p, ev) =
      Some (Inr (ASDF_PARSE_CONTINUE, p\<lparr>p_state := ASDF_PARSER_STATE_BLOCK_INDEX\<rparr>, ev))"
    using nxt by (simp add: parse_comment_step_def view_peek [OF parser_atD(3) [OF at]] Let_def)
  then have "parse_comment p ev =
      Some (ASDF_PARSE_CONTINUE, p\<lparr>p_state := ASDF_PARSER_STATE_BLOCK_INDEX\<rparr>, ev)"
    unfolding parse_comment_def by (rule loop_opt_Inr)
  with at show ?thesis by (auto simp: parser_step_def parser_at_def)
qed

text \<open>A comment line becomes an event.\<close>

lemma comment_at:
  assumes at: "parser_at p ASDF_PARSER_STATE_COMMENT buf i bs"
    and line: "drop i buf = 35 # v @ 10 # r" and clean: "10 \<notin> set v" "13 \<notin> set v" "0 \<notin> set v"
  shows "\<exists>q. parser_step env p ev = Some (ASDF_PARSE_EVENT, q, ASDF_COMMENT_EVENT v) \<and>
    parser_at q ASDF_PARSER_STATE_COMMENT buf (i + 2 + length v) bs"
proof -
  note D = parser_atD [OF at]
  have le: "i + 2 + length v \<le> length buf" using arg_cong [OF line, of length] D(13) by simp
  have rl: "asdf_stream_readline (p_stream p) =
      Some (Some (drop i buf, length (35 # v) + 1), goto (p_stream p) (i + 2 + length v))"
    using view_readline [OF D(3), of "35 # v" r] line clean by simp
  have al: "parser_alloc (p\<lparr>p_stream := goto (p_stream p) j\<rparr>) = (True, p\<lparr>p_stream := goto (p_stream p) j\<rparr>)" for j
    using D(11) by (simp add: parser_alloc_def ctx_alloc_ok)
  have sub: "size_sub (length v + 2) 1 = length v + 1"
    using le D(14) by (simp add: size_sub_small size_mod_def)
  have sd: "strndup (drop (Suc 0) (35 # v @ 10 # r)) (length v + 1) = Some (v @ [10])"
    using strndup_line [of "v @ [10]" r] clean by simp
  have tw: "takeWhile (\<lambda>b. b \<noteq> 13 \<and> b \<noteq> 10) (v @ [10]) = v"
    using clean by (subst takeWhile_append2) auto
  have "parse_comment_step (p, ev) = Some (Inr (ASDF_PARSE_EVENT, move p (i + 2 + length v), ASDF_COMMENT_EVENT v))"
    using line sub sd tw
    by (simp add: parse_comment_step_def view_peek [OF D(3)] Let_def rl al move_def del: drop_Suc_Cons)
  then have "parse_comment p ev = Some (ASDF_PARSE_EVENT, move p (i + 2 + length v), ASDF_COMMENT_EVENT v)"
    unfolding parse_comment_def by (rule loop_opt_Inr)
  with parser_at_move [OF at le, of ASDF_PARSER_STATE_COMMENT] D(2) show ?thesis
    by (auto simp: parser_step_def parser_at_def move_def)
qed


section \<open>The tree\<close>

lemma try_seek_at:
  assumes "mem_view (p_stream p) buf i"
  shows "j \<le> length buf \<Longrightarrow> try_seek p (int j) SEEK_SET = Some (True, move p j)"
    and "try_seek p 0 SEEK_END = Some (True, move p (length buf))"
  using assms by (simp_all add: try_seek_def view_seek_set view_seek_end move_def)

lemma move_move [simp]: "move (move p i) j = move p j" "p_stream (move p j) = goto (p_stream p) j"
  "p_state (move p j) = p_state p"
  by (simp_all add: move_def)

definition no_index :: "bytes \<Rightarrow> bool" where
  "no_index buf \<longleftrightarrow> (\<forall>off < length buf. \<not> token_at buf off asdf_block_index_header)"

lemma no_index_scan: "no_index buf \<Longrightarrow> asdf_scan_tokens (drop j buf) [asdf_block_index_header] = None"
  by (auto simp: asdf_scan_tokens_None_iff no_index_def token_at_drop)

lemma find_no_index_at:
  assumes v: "mem_view (p_stream p) buf i" and "no_index buf"
  shows "\<exists>j \<le> length buf. parse_find_block_index env p (int (length buf)) = Some (ASDF_PARSE_CONTINUE, move p j)"
proof (cases "env_page_size env \<le> 0")
  case True
  moreover have "move p i = p" using goto_here [OF v] by (simp add: move_def)
  ultimately show ?thesis using v by (auto simp: parse_find_block_index_def mem_view_def intro!: exI [of _ i])
next
  case False
  define n where "n = int (length buf)"
  define a where "a = (if n > env_page_size env then n - env_page_size env - n mod env_page_size env else 0)"
  have "n mod env_page_size env \<ge> 0" using False by simp
  moreover have "n mod env_page_size env \<le> n - env_page_size env" if "n > env_page_size env"
    using that False by (metis diff_ge_0_iff_ge linorder_not_le minus_mod_self2 order_less_imp_le zmod_le_nonneg_dividend)
  moreover have "0 \<le> n" by (simp add: n_def)
  ultimately have "0 \<le> a \<and> a \<le> n"
    using False unfolding a_def by (cases "n > env_page_size env"; simp only: if_True if_False; linarith)
  then have a: "0 \<le> a" "a \<le> n" by simp_all
  have "nat a \<le> length buf" using a by (simp add: n_def)
  note sk = try_seek_at(1) [OF v this]
  have "asdf_stream_scan (p_stream (move p (nat a))) [asdf_block_index_header] =
      Some (None, goto (p_stream p) (length buf))"
    using view_scan_None [OF mem_view_goto [OF v \<open>nat a \<le> length buf\<close>] no_index_scan [OF assms(2)]] by simp
  then have "find_index_step (move p (nat a), False) = Some (Inr (ASDF_PARSE_CONTINUE, move p (length buf)))"
    by (simp add: find_index_step_def asdf_parser_scan_tokens_def move_def)
  then have "loop_opt find_index_step (move p (nat a), False) = Some (ASDF_PARSE_CONTINUE, move p (length buf))"
    by (rule loop_opt_Inr)
  moreover have "int (nat a) = a" using a by simp
  ultimately show ?thesis
    using False sk a by (auto simp: parse_find_block_index_def Let_def simp flip: n_def a_def)
qed

lemma no_block_index_at:
  assumes at: "parser_at p ASDF_PARSER_STATE_BLOCK_INDEX buf i bs" and no: "no_index buf"
  shows "\<exists>q. parser_step env p ev = Some (ASDF_PARSE_CONTINUE, q, ev) \<and>
    parser_at q ASDF_PARSER_STATE_TREE_OR_BLOCK buf i bs"
proof -
  note D = parser_atD [OF at]
  have v1: "mem_view (p_stream (move p (length buf))) buf (length buf)"
    using mem_view_goto [OF D(3)] by simp
  from find_no_index_at [OF v1 no, of env] obtain j where
    j: "j \<le> length buf" "parse_find_block_index env (move p (length buf)) (int (length buf)) =
      Some (ASDF_PARSE_CONTINUE, move p j)"
    by auto
  have v2: "mem_view (p_stream (move p j)) buf j" using mem_view_goto [OF D(3) j(1)] by simp
  have "parse_block_index env p ev =
      Some (ASDF_PARSE_CONTINUE, (move p i)\<lparr>p_state := ASDF_PARSER_STATE_TREE_OR_BLOCK\<rparr>, ev)"
    using D(10,13) try_seek_at(1) [OF v2, of i]
    by (simp add: parse_block_index_def try_seek_at(2) [OF D(3)] view_tell [OF D(3)] Let_def
        view_tell [OF v1, simplified] j(2))
  with parser_at_move [OF at D(13), of ASDF_PARSER_STATE_TREE_OR_BLOCK] D(2) show ?thesis
    by (simp add: parser_step_def)
qed

lemma tree_start_at:
  assumes at: "parser_at p ASDF_PARSER_STATE_TREE_OR_BLOCK buf i bs" and "directive_line (drop i buf)"
  shows "\<exists>q. parser_step env p ev = Some (ASDF_PARSE_EVENT, q,
        ASDF_TREE_START_EVENT (Some \<lparr>ti_start = i, ti_end = 0, ti_buf = None\<rparr>)) \<and>
    parser_at q ASDF_PARSER_STATE_TREE buf i bs"
proof -
  note D = parser_atD [OF at]
  have yes: "is_yaml_directive (drop i buf) = Some True" using assms(2) by (simp add: yaml_directive_iff)
  have ne: "drop i buf \<noteq> []" using assms(2) by (auto simp: directive_line_def)
  have i: "i \<le> 2 ^ 62" using D(13,14) by simp
  have al: "parser_alloc (p\<lparr>p_tree := t, p_state := s\<rparr>) = (True, p\<lparr>p_tree := t, p_state := s\<rparr>)" for t s
    using D(11) by (simp add: parser_alloc_def ctx_alloc_ok)
  show ?thesis
    using D ne i
    by (simp add: parser_step_def parse_tree_or_block_def view_peek [OF D(3)] yes emit_tree_start_event_def
        view_tell [OF D(3)] al parser_at_def Let_def)
qed


text \<open>A tree text: no block magic and no end marker before the one that follows it.\<close>

definition clean_tree :: "bytes \<Rightarrow> bool" where
  "clean_tree t \<longleftrightarrow> (\<forall>off < length t.
     \<not> token_at (t @ asdf_yaml_document_end_marker) off asdf_yaml_document_end_marker \<and>
     \<not> token_at (t @ asdf_yaml_document_end_marker) off asdf_block_magic)"

lemma marker_length [simp]: "length asdf_yaml_document_end_marker = 4" "length asdf_block_magic = 4"
  by (simp_all add: asdf_yaml_document_end_marker_def bytes_of_def asdf_block_magic_def)

lemma token_at_append: "off + length t \<le> length xs \<Longrightarrow> token_at (xs @ ys) off t = token_at xs off t"
  by (simp add: token_at_def)

lemma clean_tree_scan:
  assumes "clean_tree t"
  shows "asdf_scan_tokens (t @ asdf_yaml_document_end_marker @ r)
      [asdf_yaml_document_end_marker, asdf_block_magic] = Some (length t, 0)"
proof -
  have "\<not> token_at ((t @ asdf_yaml_document_end_marker) @ r) off x"
    if "off < length t" "x \<in> {asdf_yaml_document_end_marker, asdf_block_magic}" for off x
    using assms that by (subst token_at_append) (auto simp: clean_tree_def)
  moreover have "token_at (t @ asdf_yaml_document_end_marker @ r) (length t) asdf_yaml_document_end_marker"
    by (simp add: token_at_def)
  moreover have "length t < length (t @ asdf_yaml_document_end_marker @ r)" by simp
  ultimately show ?thesis unfolding asdf_scan_tokens_Some_iff first_match_def by auto
qed

lemma tree_fast_at:
  assumes v: "mem_view (p_stream p) buf i" and err: "error (s_ctx (p_stream p)) = None"
    and doc: "drop i buf = t @ asdf_yaml_document_end_marker @ 10 # r" and clean: "clean_tree t"
  shows "parse_tree_fast p = Some (True, (move p (i + length t + 5))\<lparr>p_tree :=
      (p_tree p)\<lparr>tree_end := int (i + length t + 5), tree_found := True\<rparr>\<rparr>)"
proof -
  have len: "i + length t + 5 \<le> length buf" using arg_cong [OF doc, of length] by simp
  define q where "q = move p (i + length t)"
  have vq: "mem_view (p_stream q) buf (i + length t)" using mem_view_goto [OF v] len by (simp add: q_def)
  have "drop (i + length t) buf = drop (length t) (drop i buf)" by (simp add: add.commute)
  then have dq: "drop (i + length t) buf = asdf_yaml_document_end_marker @ 10 # r" unfolding doc by simp
  have sc: "asdf_stream_scan (p_stream p) [asdf_yaml_document_end_marker, asdf_block_magic] =
      Some (Some (length t + i, 0), p_stream q)"
    using view_scan_Some [OF v] clean_tree_scan [OF clean, of "10 # r"] by (simp add: doc q_def)
  have mk: "is_yaml_document_end_marker (drop (i + length t) buf)"
    unfolding dq document_end_marker_iff by (auto simp: eol_def)
  define q1 where "q1 = move p (i + length t + 1)"
  have c1: "asdf_stream_consume (p_stream q) 1 = Some (p_stream q1)"
    using view_consume [OF vq, of 1] len by (simp add: q_def q1_def)
  have v1: "mem_view (p_stream q1) buf (i + length t + 1)"
    using mem_view_goto [OF v] len by (simp add: q1_def)
  have "drop (i + length t + 1) buf = drop 1 (drop (i + length t) buf)" by simp
  then have "drop (i + length t + 1) buf = [46, 46, 46] @ 10 # r"
    unfolding dq by (simp add: asdf_yaml_document_end_marker_def bytes_of_def of_char_def)
  moreover have "10 \<notin> set [46, 46, 46 :: byte]" by simp
  ultimately have "asdf_stream_readline (p_stream q1) = Some (Some (drop (i + length t + 1) buf,
      length [46, 46, 46 :: byte] + 1), goto (p_stream q1) (i + length t + 1 + length [46, 46, 46 :: byte] + 1))"
    by (rule view_readline [OF v1])
  then have rl: "asdf_stream_readline (p_stream q1) =
      Some (Some (drop (i + length t + 1) buf, 4), goto (p_stream p) (i + length t + 5))"
    by (simp add: q1_def eval_nat_numeral)
  have err1: "error (s_ctx (p_stream q1)) = None" using err by (simp add: q1_def)
  have v5: "mem_view (goto (p_stream p) (i + length t + 5)) buf (i + length t + 5)"
    using mem_view_goto [OF v len] .
  have "tree_fast_step p = Some (Inr (True, int (i + length t + 5), move p (i + length t + 5)))"
    using err1
    by (simp add: tree_fast_step_def asdf_parser_scan_tokens_def sc view_next [OF vq] mk
        c1 [unfolded One_nat_def] rl parser_failed_def Let_def view_tell [OF v5] move_def [of p])
  then have "loop_opt tree_fast_step p = Some (True, int (i + length t + 5), move p (i + length t + 5))"
    by (rule loop_opt_Inr)
  then show ?thesis by (simp add: parse_tree_fast_def move_def)
qed

lemma tree_end_at:
  assumes at: "parser_at p ASDF_PARSER_STATE_TREE buf i bs"
    and doc: "drop i buf = t @ asdf_yaml_document_end_marker @ 10 # r" and clean: "clean_tree t"
  shows "\<exists>q. parser_step env p ev = Some (ASDF_PARSE_EVENT, q, ASDF_TREE_END_EVENT
        (Some \<lparr>ti_start = i, ti_end = i + length t + 5, ti_buf = None\<rparr>)) \<and>
    parser_at q ASDF_PARSER_STATE_PADDING buf (i + length t + 5) bs"
proof -
  note D = parser_atD [OF at]
  have len: "i + length t + 5 \<le> length buf" using arg_cong [OF doc, of length] D(13) by simp
  define q where "q = (move p (i + length t + 5))\<lparr>p_tree :=
      (p_tree p)\<lparr>tree_end := int (i + length t + 5), tree_found := True\<rparr>\<rparr>"
  have fast: "parse_tree_fast p = Some (True, q)"
    unfolding q_def by (rule tree_fast_at [OF D(3,4) doc clean])
  define q' where "q' = (stop_capture q)\<lparr>p_state := ASDF_PARSER_STATE_PADDING\<rparr>"
  have opts: "\<not> asdf_parser_has_opt p ASDF_PARSER_OPT_EMIT_YAML_EVENTS"
    "\<not> asdf_parser_has_opt p ASDF_PARSER_OPT_BUFFER_TREE"
    using D(5) by (simp_all add: asdf_parser_has_opt_def ASDF_PARSER_OPT_EMIT_YAML_EVENTS_def
        ASDF_PARSER_OPT_BUFFER_TREE_def)
  have vq: "mem_view (p_stream q') buf (i + length t + 5)"
    using mem_view_goto [OF D(3) len]
    by (auto simp: q'_def stop_capture_def q_def Let_def asdf_stream_set_capture_def mem_view_def)
  have q': "parser_at q' ASDF_PARSER_STATE_PADDING buf (i + length t + 5) bs"
    using D vq by (simp add: parser_at_def)
      (simp add: q'_def stop_capture_def q_def move_def Let_def asdf_stream_set_capture_def)
  have tr: "tree_start (p_tree q') = int i" "tree_end (p_tree q') = int (i + length t + 5)"
    "tree_buf (p_tree q') = None"
    using D(8,9,12) by (simp_all add: q'_def stop_capture_def q_def move_def Let_def)
  have "parse_tree env p ev = emit_tree_end_event q' ev"
    using opts by (simp add: parse_tree_def fast q'_def Let_def)
  also have "\<dots> = Some (ASDF_PARSE_EVENT, q', ASDF_TREE_END_EVENT
        (Some \<lparr>ti_start = i, ti_end = i + length t + 5, ti_buf = None\<rparr>))"
    using len D(14)
    by (simp add: emit_tree_end_event_def alloc_at [OF q'] tr Let_def del: of_nat_add)
  finally show ?thesis using q' D(2) by (simp add: parser_step_def)
qed


section \<open>Blocks\<close>

lemma view_block_read:
  assumes v: "mem_view s buf i" and err: "error (s_ctx s) = None"
    and img: "drop i buf = block_image h payload @ rst" and h: "header_ok h"
  shows "asdf_block_info_read s out = Some (True, goto s (i + 54),
      out\<lparr>header_pos := int i, data_pos := int (i + 54), bi_header := h\<rparr>)"
proof -
  define w where "w = drop (i + 4) buf"
  have hs: "header_size h = 48" "h\<lparr>header_size := 48\<rparr> = h" using header_size_48 [OF h] by simp_all
  have w: "w = drop ASDF_BLOCK_MAGIC_SIZE (header_image h @ (payload @
      replicate (unat (allocated_size h) - length payload) 0 @ rst))"
    unfolding img [unfolded block_image_def append_assoc, symmetric]
    by (simp add: w_def ASDF_BLOCK_MAGIC_SIZE_def add.commute)
  have spec: "read_header_spec w = Inr (48, drop 6 (header_image h))"
    unfolding w hs(1) [symmetric] by (rule read_header_image [OF h])
  then have wl: "50 \<le> length w" and sz: "(of_nat (be_val (take 2 w)) :: u16) = 48"
    and hd: "take 48 (drop 2 w) = drop 6 (header_image h)"
    by (auto simp: read_header_spec_def Let_def split: if_splits)
  have len: "i + 54 \<le> length buf" using wl by (simp add: w_def)
  have phs: "parse_header_size w = 48" using wl sz by (simp add: parse_header_size_be)
  have "parse_header_fields (drop 2 w) h0 = parse_header_fields (drop 6 (header_image h)) h0" for h0
    using parse_header_fields_window [of 48 "drop 2 w" "drop 2 w" h0] wl hd by simp
  then have fields: "parse_header_fields (drop (i + 6) buf) h0 = h\<lparr>header_size := header_size h0\<rparr>" for h0
    using header_image_fields [OF h] by (simp add: w_def add.commute)
  have v4: "mem_view (goto s (i + 4)) buf (i + 4)" and v6: "mem_view (goto s (i + 6)) buf (i + 6)"
    and v54: "mem_view (goto s (i + 54)) buf (i + 54)"
    using mem_view_goto [OF v] len by simp_all
  have c: "asdf_stream_consume s 4 = Some (goto s (i + 4))"
    "asdf_stream_consume (goto s (i + 4)) 2 = Some (goto s (i + 6))"
    "asdf_stream_consume (goto s (i + 6)) 48 = Some (goto s (i + 54))"
    using view_consume [OF v, of 4] view_consume [OF v4, of 2] view_consume [OF v6, of 48] len
    by (simp_all add: add.commute)
  have ne: "w \<noteq> []" "\<not> length w < 2" "\<not> length buf - (i + 6) < 48" using wl len by auto
  show ?thesis
    using ne err
    by (simp add: asdf_block_info_read_def ASDF_BLOCK_MAGIC_SIZE_def ASDF_BLOCK_HEADER_SIZE_def Let_def
        view_tell [OF v] view_tell [OF v54] c view_next [OF v4] view_next [OF v6] phs fields hs
        flip: w_def)
qed

text \<open>The vectors of the STC library take exactly the capacity they are asked for.\<close>

definition exact_growth :: "parser_env \<Rightarrow> bool" where
  "exact_growth env \<longleftrightarrow> (\<forall>c n. vec_grow env c n = max c n)"

lemma record_block_at:
  assumes ok: "index_ok (p_block p) bs" and heap: "ctx_heap (s_ctx (p_stream p)) = []"
    and b: "header_pos b \<le> int PTRDIFF_MAX" and g: "exact_growth env"
    and p': "p' = p\<lparr>p_block := (p_block p)\<lparr>infos := bs @ [b]\<rparr>\<rparr>"
  shows "\<exists>bl. record_block env p' (length bs) b = Some (True, p\<lparr>p_block := bl\<rparr>) \<and> index_ok bl (bs @ [b])"
proof -
  define v where "v = block_index (p_block p)"
  have iok: "v_cap v = length (v_items v)" "length bs \<le> length (v_items v)"
    "take (length bs) (v_items v) = map header_pos bs" "block_found (p_block p) = length bs"
    "\<not> has_index (p_block p)"
    using ok by (auto simp: index_ok_def v_def)
  define grow where "grow = (v_cap v < Suc (length bs))"
  define nc where "nc = (if v_cap v \<noteq> 0 then v_cap v * 2 else ASDF_DEFAULT_BLOCK_INDEX_SIZE)"
  define v1 where "v1 = (if grow then v\<lparr>v_items := take nc (v_items v) @ replicate (nc - length (v_items v)) (-1),
      v_cap := vec_grow env (v_cap v) nc\<rparr> else v)"
  have nc: "length (v_items v) < nc" using iok by (auto simp: nc_def ASDF_DEFAULT_BLOCK_INDEX_SIZE_def)
  have v1: "length bs < length (v_items v1)" "v_cap v1 = length (v_items v1)"
    "take (length bs) (v_items v1) = map header_pos bs"
    using iok nc g by (auto simp: v1_def grow_def exact_growth_def)
  define bl where "bl = (p_block p)\<lparr>infos := bs @ [b], block_found := Suc (length bs),
      block_index := v1\<lparr>v_items := (v_items v1)[length bs := header_pos b]\<rparr>, block_count := Suc (length bs)\<rparr>"
  have al: "parser_alloc (p\<lparr>p_block := x\<rparr>) = (True, p\<lparr>p_block := x\<rparr>)" for x
    using heap by (simp add: parser_alloc_def ctx_alloc_ok)
  have "record_block env p' (length bs) b = Some (True, p\<lparr>p_block := bl\<rparr>)"
    using b v1(1)
    by (cases grow; cases "v_cap v = 0")
       (simp_all add: record_block_def p' iok(4) al Let_def v1_def nc_def bl_def grow_def flip: v_def)
  moreover have "index_ok bl (bs @ [b])"
    using v1 iok(5) by (simp add: index_ok_def bl_def take_Suc_conv_app_nth)
  ultimately show ?thesis by blast
qed


lemma padding_at:
  assumes at: "parser_at p ASDF_PARSER_STATE_PADDING buf i bs"
  shows "parser_step env p ev = Some (ASDF_PARSE_CONTINUE, p\<lparr>p_state := ASDF_PARSER_STATE_BLOCK\<rparr>, ev) \<and>
    parser_at (p\<lparr>p_state := ASDF_PARSER_STATE_BLOCK\<rparr>) ASDF_PARSER_STATE_BLOCK buf i bs"
  using at by (auto simp: parser_step_def parser_at_def parse_padding_def)

text \<open>What the parser reports of the \<open>n\<close>-th block, at position \<open>i\<close>.\<close>

definition found_block :: "nat \<Rightarrow> nat \<Rightarrow> asdf_block_header \<Rightarrow> asdf_block_info" where
  "found_block n i h = zero_block_info\<lparr>bi_index := n, header_pos := int i,
     data_pos := int (i + ASDF_BLOCK_HEADER_FULL_SIZE), bi_header := h\<rparr>"

text \<open>A block as it stands in a file: a complete header that is not streamed, a payload that
  fits.\<close>

definition block_ok :: "asdf_block_header \<times> bytes \<Rightarrow> bool" where
  "block_ok = (\<lambda>(h, payload). header_ok h \<and> length payload \<le> unat (allocated_size h) \<and>
     flags h AND ASDF_BLOCK_FLAG_STREAMED = 0)"

lemma full_size: "ASDF_BLOCK_HEADER_FULL_SIZE = 54"
  by (simp add: ASDF_BLOCK_HEADER_FULL_SIZE_def ASDF_BLOCK_HEADER_SIZE_def ASDF_BLOCK_MAGIC_SIZE_def)

lemma new_block_at:
  assumes at: "parser_at p ASDF_PARSER_STATE_BLOCK buf i bs"
    and img: "drop i buf = block_image h payload @ rst" and h: "header_ok h"
  shows "parse_new_block p = Some (Some (found_block (length bs) i h),
      (move p (i + 54))\<lparr>p_block := (p_block p)\<lparr>infos := bs @ [found_block (length bs) i h]\<rparr>\<rparr>)"
proof -
  note D = parser_atD [OF at]
  have bf: "block_found (p_block p) = length bs" "infos (p_block p) = bs"
    using D(7) by (auto simp: index_ok_def)
  have al: "parser_alloc (p\<lparr>p_stream := goto (p_stream p) j\<rparr>) = (True, p\<lparr>p_stream := goto (p_stream p) j\<rparr>)" for j
    using D(11) by (simp add: parser_alloc_def ctx_alloc_ok)
  have mg: "is_block_magic (drop i buf)" unfolding img by (rule block_image_magic)
  show ?thesis
    by (simp add: parse_new_block_def view_peek [OF D(3)] mg view_block_read [OF D(3,4) img h]
        push_block_def al bf move_def found_block_def full_size Let_def)
qed

lemma block_at:
  assumes at: "parser_at p ASDF_PARSER_STATE_BLOCK buf i bs"
    and img: "drop i buf = block_image h payload @ rst" and b: "block_ok (h, payload)"
    and g: "exact_growth env"
  shows "\<exists>q. parser_step env p ev = Some (ASDF_PARSE_EVENT, q, ASDF_BLOCK_EVENT (found_block (length bs) i h)) \<and>
    parser_at q ASDF_PARSER_STATE_BLOCK buf (i + length (block_image h payload))
      (bs @ [found_block (length bs) i h])"
proof -
  note D = parser_atD [OF at]
  define fb where "fb = found_block (length bs) i h"
  have h: "header_ok h" "length payload \<le> unat (allocated_size h)" "flags h AND ASDF_BLOCK_FLAG_STREAMED = 0"
    using b by (simp_all add: block_ok_def)
  have il: "length (block_image h payload) = 54 + unat (allocated_size h)"
    using length_block_image [OF h(1,2)] by (simp add: full_size)
  have len: "i + 54 + unat (allocated_size h) \<le> length buf"
    using arg_cong [OF img, of length] D(13) il by simp
  define q where "q = move p (i + 54)"
  have vq: "mem_view (p_stream q) buf (i + 54)" using mem_view_goto [OF D(3)] len by (simp add: q_def)
  have qf: "index_ok (p_block q) bs" "ctx_heap (s_ctx (p_stream q)) = []"
    "p_block q = p_block p"
    using D(7,11) by (simp_all add: q_def move_def)
  have hp: "header_pos fb \<le> int PTRDIFF_MAX" "bi_header fb = h"
    using D(13,14) by (simp_all add: fb_def found_block_def PTRDIFF_MAX_def)
  from record_block_at [OF qf(1,2) hp(1) g refl] obtain bl where
    rb: "record_block env (q\<lparr>p_block := (p_block q)\<lparr>infos := bs @ [fb]\<rparr>\<rparr>) (length bs) fb = Some (True, q\<lparr>p_block := bl\<rparr>)"
      "index_ok bl (bs @ [fb])"
    by blast
  define q' where "q' = q\<lparr>p_block := bl, p_stream := goto (p_stream q) (i + 54 + unat (allocated_size h))\<rparr>"
  have sz: "\<not> unat (allocated_size h) > SSIZE_MAX" using len D(14) by (simp add: SSIZE_MAX_def)
  have "skip_block (q\<lparr>p_block := bl\<rparr>) fb = Some (True, q')"
    using view_seek_cur [OF vq len] sz
    by (simp add: skip_block_def hp(2) h(3) Let_def q'_def)
  moreover have "parse_new_block p = Some (Some fb, q\<lparr>p_block := (p_block q)\<lparr>infos := bs @ [fb]\<rparr>\<rparr>)"
    using new_block_at [OF at img h(1)] by (simp add: fb_def q_def move_def)
  moreover have "\<not> has_index (p_block p)" "block_found (p_block p) = length bs" "\<not> length bs \<ge> PTRDIFF_MAX"
    using D(7,13-15) by (auto simp: index_ok_def PTRDIFF_MAX_def)
  ultimately have "parse_block env p ev = Some (ASDF_PARSE_EVENT, q', ASDF_BLOCK_EVENT fb)"
    by (simp add: parse_block_def rb(1) Let_def)
  moreover have "parser_at q' ASDF_PARSER_STATE_BLOCK buf (i + length (block_image h payload)) (bs @ [fb])"
    using D rb(2) mem_view_goto [OF D(3) len] by (simp add: parser_at_def q'_def q_def il add.assoc move_def)
  ultimately show ?thesis using D(2) by (simp add: parser_step_def fb_def)
qed


lemma no_block_at:
  assumes at: "parser_at p ASDF_PARSER_STATE_BLOCK buf i bs" and e: "i = length buf"
  shows "\<exists>q. parser_step env p ev = Some (ASDF_PARSE_CONTINUE, q, ev) \<and>
    parser_at q ASDF_PARSER_STATE_END buf i bs"
proof -
  note D = parser_atD [OF at]
  have "asdf_stream_scan (p_stream p) [asdf_block_magic] = Some (None, goto (p_stream p) (length buf))"
    by (rule view_scan_None [OF D(3)]) (simp add: asdf_scan_tokens_None_iff e)
  moreover have "goto (p_stream p) (length buf) = p_stream p" using goto_here [OF D(3)] e by simp
  ultimately have "parse_new_block p = Some (None, p)"
    by (simp add: parse_new_block_def view_peek [OF D(3)] e is_block_magic_def ASDF_BLOCK_MAGIC_SIZE_def
        scan_for_block_def asdf_parser_scan_tokens_def Let_def)
  moreover have "\<not> has_index (p_block p)" "block_found (p_block p) = length bs" "\<not> length bs \<ge> PTRDIFF_MAX"
    using D(7,13-15) by (auto simp: index_ok_def PTRDIFF_MAX_def)
  ultimately show ?thesis
    using D by (simp add: parser_step_def parse_block_def Let_def parser_at_def index_ok_def)
qed

section \<open>The sequence of events\<close>

lemma parse_events_event:
  "asdf_event_iterate env p = Some (Some e, p') \<Longrightarrow> parse_events env n p' = Some (es, q) \<Longrightarrow>
     parse_events env (Suc n) p = Some (e # es, q)"
  by simp

text \<open>The parser when everything was read: at the end, with these blocks found.\<close>

definition finished :: "asdf_parser \<Rightarrow> asdf_block_info list \<Rightarrow> bool" where
  "finished p bs \<longleftrightarrow> p_state p = ASDF_PARSER_STATE_END \<and> p_done p \<and> p_has_stream p \<and>
     error (s_ctx (p_stream p)) = None \<and> infos (p_block p) = bs \<and> block_found (p_block p) = length bs \<and>
     take (length bs) (v_items (block_index (p_block p))) = map header_pos bs"

lemma iterate_finished:
  assumes "finished p bs"
  shows "\<exists>q. asdf_event_iterate env p = Some (None, q) \<and> finished q bs"
proof -
  define p1 where "p1 = (if ev_cur p \<noteq> None then (asdf_parse_event_recycle p (ev_cur p))\<lparr>ev_cur := None\<rparr> else p)"
  have f: "finished p1 bs"
    using assms by (auto simp: p1_def finished_def asdf_parse_event_recycle_def Let_def split: option.splits)
  obtain slot q where sl: "asdf_parse_event_alloc p1 = (slot, q)" by (cases "asdf_parse_event_alloc p1")
  have "asdf_parser_parse env p1 = Some (None, q\<lparr>p_done := True\<rparr>)"
    by (rule parse_after_end [OF _ _ sl]) (use f in \<open>simp_all add: finished_def\<close>)
  then show ?thesis
    unfolding asdf_event_iterate_def Let_def p1_def [symmetric]
    using f event_alloc_frame [OF sl] by (simp add: finished_def)
qed

lemma end_event_at:
  assumes "parser_at p ASDF_PARSER_STATE_END buf i bs"
  shows "\<exists>q. loop_opt (parser_loop_step env) (p, ev) = Some (Some ASDF_END_EVENT, ASDF_END_EVENT, q) \<and> finished q bs"
proof -
  note D = parser_atD [OF assms]
  have "loop_opt (parser_loop_step env) (p, ev) = Some (Some ASDF_END_EVENT, ASDF_END_EVENT, p\<lparr>p_done := True\<rparr>)"
    by (rule loop_opt_Inr) (use D in \<open>simp add: parser_loop_step_def\<close>)
  with D show ?thesis by (auto simp: finished_def index_ok_def)
qed

lemma to_block_at:
  assumes "parser_at q st buf i bs" and "st = ASDF_PARSER_STATE_PADDING \<or> st = ASDF_PARSER_STATE_BLOCK"
  shows "\<exists>q'. parser_at q' ASDF_PARSER_STATE_BLOCK buf i bs \<and>
    loop_opt (parser_loop_step env) (q, ev) = loop_opt (parser_loop_step env) (q', ev)"
proof (cases "st = ASDF_PARSER_STATE_BLOCK")
  case False
  with assms have at: "parser_at q ASDF_PARSER_STATE_PADDING buf i bs" by simp
  from padding_at [OF this, of env ev] parser_atD(2) [OF at] show ?thesis
    by (intro exI [of _ "q\<lparr>p_state := ASDF_PARSER_STATE_BLOCK\<rparr>"]) (simp add: loop_continue)
qed (use assms in auto)

fun found_blocks :: "nat \<Rightarrow> nat \<Rightarrow> (asdf_block_header \<times> bytes) list \<Rightarrow> asdf_block_info list" where
  "found_blocks n i [] = []"
| "found_blocks n i ((h, payload) # bs) =
     found_block n i h # found_blocks (Suc n) (i + length (block_image h payload)) bs"

definition blocks_image :: "(asdf_block_header \<times> bytes) list \<Rightarrow> bytes" where
  "blocks_image bs = concat (map (\<lambda>(h, payload). block_image h payload) bs)"

lemma blocks_parse:
  assumes "parser_at p st buf i bs" and "st = ASDF_PARSER_STATE_PADDING \<or> st = ASDF_PARSER_STATE_BLOCK"
    and "drop i buf = blocks_image blocks" and "list_all block_ok blocks" and g: "exact_growth env"
  shows "\<exists>q. parse_events env (length blocks + 2 + k) p =
      Some (map ASDF_BLOCK_EVENT (found_blocks (length bs) i blocks) @ [ASDF_END_EVENT], q) \<and>
    finished q (bs @ found_blocks (length bs) i blocks)"
  using assms(1-4)
proof (induction blocks arbitrary: p st i bs)
  case Nil
  then have e: "i = length buf" using parser_atD(13) [OF Nil(1)] by (simp add: blocks_image_def)
  have "\<exists>q'. loop_opt (parser_loop_step env) (q, ASDF_NONE_EVENT) = Some (Some ASDF_END_EVENT, ASDF_END_EVENT, q') \<and>
      finished q' bs"
    if q: "parser_at q st buf i bs" for q
  proof -
    obtain q1 where q1: "parser_at q1 ASDF_PARSER_STATE_BLOCK buf i bs"
        "loop_opt (parser_loop_step env) (q, ASDF_NONE_EVENT) = loop_opt (parser_loop_step env) (q1, ASDF_NONE_EVENT)"
      using to_block_at [OF q Nil(2)] by blast
    obtain q2 where q2: "parser_step env q1 ASDF_NONE_EVENT = Some (ASDF_PARSE_CONTINUE, q2, ASDF_NONE_EVENT)"
        "parser_at q2 ASDF_PARSER_STATE_END buf i bs"
      using no_block_at [OF q1(1) e] by blast
    have "running (p_state q1)" using parser_atD(2) [OF q1(1)] by simp
    with q1(2) q2(1) end_event_at [OF q2(2), of env ASDF_NONE_EVENT] show ?thesis
      by (simp add: loop_continue)
  qed
  from iterate_event [OF Nil(1) this] obtain p1 where
    p1: "asdf_event_iterate env p = Some (Some ASDF_END_EVENT, p1)" "finished p1 bs" by blast
  obtain p2 where "asdf_event_iterate env p1 = Some (None, p2)" "finished p2 bs"
    using iterate_finished [OF p1(2)] by blast
  then have "parse_events env (Suc k) p1 = Some ([], p2)" by simp
  from parse_events_event [OF p1(1) this] \<open>finished p2 bs\<close> show ?case by simp
next
  case (Cons b blocks)
  obtain h payload where b: "b = (h, payload)" by (cases b)
  define fb where "fb = found_block (length bs) i h"
  define i' where "i' = i + length (block_image h payload)"
  have ok: "block_ok (h, payload)" "list_all block_ok blocks" using Cons.prems(4) b by simp_all
  have img: "drop i buf = block_image h payload @ blocks_image blocks"
    using Cons.prems(3) by (simp add: b blocks_image_def)
  have "\<exists>q'. loop_opt (parser_loop_step env) (q, ASDF_NONE_EVENT) =
        Some (Some (ASDF_BLOCK_EVENT fb), ASDF_BLOCK_EVENT fb, q') \<and>
      parser_at q' ASDF_PARSER_STATE_BLOCK buf i' (bs @ [fb])"
    if q: "parser_at q st buf i bs" for q
  proof -
    obtain q1 where q1: "parser_at q1 ASDF_PARSER_STATE_BLOCK buf i bs"
        "loop_opt (parser_loop_step env) (q, ASDF_NONE_EVENT) = loop_opt (parser_loop_step env) (q1, ASDF_NONE_EVENT)"
      using to_block_at [OF q Cons.prems(2)] by blast
    obtain q2 where "parser_step env q1 ASDF_NONE_EVENT = Some (ASDF_PARSE_EVENT, q2, ASDF_BLOCK_EVENT fb)"
        "parser_at q2 ASDF_PARSER_STATE_BLOCK buf i' (bs @ [fb])"
      using block_at [OF q1(1) img ok(1) g] by (auto simp: fb_def i'_def)
    with q1(2) parser_atD(2) [OF q1(1)] show ?thesis by (auto simp: loop_event)
  qed
  from iterate_event [OF Cons.prems(1) this] obtain p1 where
    p1: "asdf_event_iterate env p = Some (Some (ASDF_BLOCK_EVENT fb), p1)"
      "parser_at p1 ASDF_PARSER_STATE_BLOCK buf i' (bs @ [fb])"
    by blast
  have "drop i' buf = drop (length (block_image h payload)) (drop i buf)" by (simp add: i'_def add.commute)
  then have rest: "drop i' buf = blocks_image blocks" unfolding img by simp
  from Cons.IH [OF p1(2) _ rest ok(2)] obtain q where
    "parse_events env (length blocks + 2 + k) p1 =
      Some (map ASDF_BLOCK_EVENT (found_blocks (Suc (length bs)) i' blocks) @ [ASDF_END_EVENT], q)"
    "finished q (bs @ [fb] @ found_blocks (Suc (length bs)) i' blocks)"
    by auto
  with parse_events_event [OF p1(1)] show ?case
    by (auto simp: b fb_def i'_def)
qed


section \<open>A whole file\<close>

definition comment_image :: "bytes \<Rightarrow> bytes" where
  "comment_image c = 35 # c @ [10]"

definition file_image ::
  "bytes \<Rightarrow> bytes \<Rightarrow> bytes list \<Rightarrow> bytes \<Rightarrow> (asdf_block_header \<times> bytes) list \<Rightarrow> bytes" where
  "file_image v sv comments tree blocks =
     asdf_version_comment @ v @ [10] @ asdf_standard_comment @ sv @ [10] @
     concat (map comment_image comments) @ tree @ asdf_yaml_document_end_marker @ [10] @ blocks_image blocks"

text \<open>A text that stands on one line.\<close>

definition line_ok :: "bytes \<Rightarrow> bool" where
  "line_ok c \<longleftrightarrow> 10 \<notin> set c \<and> 13 \<notin> set c \<and> 0 \<notin> set c"

text \<open>The position of the tree.\<close>

definition tree_offset :: "bytes \<Rightarrow> bytes \<Rightarrow> bytes list \<Rightarrow> nat" where
  "tree_offset v sv comments =
     23 + length v + length sv + length (concat (map comment_image comments))"

text \<open>The events a file stands for.\<close>

definition file_events ::
  "asdf_version \<Rightarrow> asdf_version \<Rightarrow> bytes \<Rightarrow> bytes \<Rightarrow> bytes list \<Rightarrow> bytes \<Rightarrow> (asdf_block_header \<times> bytes) list
     \<Rightarrow> asdf_event list" where
  "file_events ver sver v sv comments tree blocks =
     (let t = tree_offset v sv comments; e = t + length tree + 5
      in [ASDF_ASDF_VERSION_EVENT ver, ASDF_STANDARD_VERSION_EVENT sver] @ map ASDF_COMMENT_EVENT comments @
         [ASDF_TREE_START_EVENT (Some \<lparr>ti_start = t, ti_end = 0, ti_buf = None\<rparr>),
          ASDF_TREE_END_EVENT (Some \<lparr>ti_start = t, ti_end = e, ti_buf = None\<rparr>)] @
         map ASDF_BLOCK_EVENT (found_blocks 0 e blocks) @ [ASDF_END_EVENT])"

lemma iterate_step:
  assumes "parser_at p st buf i bs" and "running st"
    and "\<And>q. parser_at q st buf i bs \<Longrightarrow>
      \<exists>q'. parser_step env q ASDF_NONE_EVENT = Some (ASDF_PARSE_EVENT, q', ev) \<and> P q'"
  shows "\<exists>p'. asdf_event_iterate env p = Some (Some ev, p') \<and> P p'"
proof (rule iterate_event [OF assms(1)])
  fix q assume q: "parser_at q st buf i bs"
  with assms(3) obtain q' where "parser_step env q ASDF_NONE_EVENT = Some (ASDF_PARSE_EVENT, q', ev)" "P q'"
    by blast
  then show "\<exists>q'. loop_opt (parser_loop_step env) (q, ASDF_NONE_EVENT) = Some (Some ev, ev, q') \<and> P q'"
    using loop_event parser_atD(2) [OF q] assms(2) by blast
qed

lemma tree_start_event_at:
  assumes at: "parser_at q ASDF_PARSER_STATE_COMMENT buf i bs" and d: "directive_line (drop i buf)"
    and no: "no_index buf"
  shows "\<exists>q'. loop_opt (parser_loop_step env) (q, ev) =
      Some (Some (ASDF_TREE_START_EVENT (Some \<lparr>ti_start = i, ti_end = 0, ti_buf = None\<rparr>)),
        ASDF_TREE_START_EVENT (Some \<lparr>ti_start = i, ti_end = 0, ti_buf = None\<rparr>), q') \<and>
    parser_at q' ASDF_PARSER_STATE_TREE buf i bs"
proof -
  obtain r where r: "drop i buf = 37 # r"
    using d by (auto simp: directive_line_def asdf_yaml_directive_prefix_def bytes_of_def of_char_def)
  define q1 where "q1 = q\<lparr>p_state := ASDF_PARSER_STATE_BLOCK_INDEX\<rparr>"
  have q1: "parser_step env q ev = Some (ASDF_PARSE_CONTINUE, q1, ev)"
      "parser_at q1 ASDF_PARSER_STATE_BLOCK_INDEX buf i bs"
    using no_comment_at [OF at r] by (simp_all add: q1_def)
  obtain q2 where q2: "parser_step env q1 ev = Some (ASDF_PARSE_CONTINUE, q2, ev)"
      "parser_at q2 ASDF_PARSER_STATE_TREE_OR_BLOCK buf i bs"
    using no_block_index_at [OF q1(2) no] by blast
  obtain q3 where q3: "parser_step env q2 ev = Some (ASDF_PARSE_EVENT, q3,
        ASDF_TREE_START_EVENT (Some \<lparr>ti_start = i, ti_end = 0, ti_buf = None\<rparr>))"
      "parser_at q3 ASDF_PARSER_STATE_TREE buf i bs"
    using tree_start_at [OF q2(2) d] by blast
  have "running (p_state q)" "running (p_state q1)" "running (p_state q2)"
    using parser_atD(2) at q1(2) q2(2) by auto
  with q1(1) q2(1) q3 show ?thesis by (auto simp: loop_continue loop_event)
qed

lemma tree_and_blocks_parse:
  assumes at: "parser_at p ASDF_PARSER_STATE_COMMENT buf i []"
    and doc: "drop i buf = tree @ asdf_yaml_document_end_marker @ [10] @ blocks_image blocks"
    and tr: "directive_line tree" "clean_tree tree" and no: "no_index buf"
    and bl: "list_all block_ok blocks" and g: "exact_growth env"
  shows "\<exists>q. parse_events env (length blocks + 4 + k) p =
      Some ([ASDF_TREE_START_EVENT (Some \<lparr>ti_start = i, ti_end = 0, ti_buf = None\<rparr>),
          ASDF_TREE_END_EVENT (Some \<lparr>ti_start = i, ti_end = i + length tree + 5, ti_buf = None\<rparr>)] @
         map ASDF_BLOCK_EVENT (found_blocks 0 (i + length tree + 5) blocks) @ [ASDF_END_EVENT], q) \<and>
    finished q (found_blocks 0 (i + length tree + 5) blocks)"
proof -
  have d: "directive_line (drop i buf)"
    using tr(1) unfolding doc directive_line_def eol_def by (metis append.assoc append_Cons)
  have doc': "drop i buf = tree @ asdf_yaml_document_end_marker @ 10 # blocks_image blocks" using doc by simp
  from iterate_event [OF at tree_start_event_at [OF _ d no]] obtain p1 where
    p1: "asdf_event_iterate env p =
        Some (Some (ASDF_TREE_START_EVENT (Some \<lparr>ti_start = i, ti_end = 0, ti_buf = None\<rparr>)), p1)"
      "parser_at p1 ASDF_PARSER_STATE_TREE buf i []"
    by blast
  from iterate_step [OF p1(2) _ tree_end_at [OF _ doc' tr(2)]] obtain p2 where
    p2: "asdf_event_iterate env p1 = Some (Some (ASDF_TREE_END_EVENT
        (Some \<lparr>ti_start = i, ti_end = i + length tree + 5, ti_buf = None\<rparr>)), p2)"
      "parser_at p2 ASDF_PARSER_STATE_PADDING buf (i + length tree + 5) []"
    by auto
  have "drop (i + length tree + 5) buf = drop (length tree + 5) (drop i buf)"
    by (simp add: ac_simps)
  then have "drop (i + length tree + 5) buf = blocks_image blocks" unfolding doc by simp
  from blocks_parse [OF p2(2) _ this bl g, of k] obtain q where
    "parse_events env (length blocks + 2 + k) p2 =
      Some (map ASDF_BLOCK_EVENT (found_blocks 0 (i + length tree + 5) blocks) @ [ASDF_END_EVENT], q)"
    "finished q (found_blocks 0 (i + length tree + 5) blocks)"
    by auto
  with parse_events_event [OF p1(1) parse_events_event [OF p2(1)]] show ?thesis
    by (auto simp: eval_nat_numeral)
qed

lemma comments_parse:
  assumes "parser_at p ASDF_PARSER_STATE_COMMENT buf i []"
    and "drop i buf = concat (map comment_image cs) @ r" and "list_all line_ok cs"
    and cont: "\<And>q. parser_at q ASDF_PARSER_STATE_COMMENT buf (i + length (concat (map comment_image cs))) [] \<Longrightarrow>
      \<exists>q'. parse_events env n q = Some (es, q') \<and> P q'"
  shows "\<exists>q. parse_events env (length cs + n) p = Some (map ASDF_COMMENT_EVENT cs @ es, q) \<and> P q"
  using assms
proof (induction cs arbitrary: p i)
  case Nil
  then show ?case by simp
next
  case (Cons c cs)
  have line: "drop i buf = 35 # c @ 10 # (concat (map comment_image cs) @ r)"
    using Cons.prems(2) by (simp add: comment_image_def [of c])
  have ok: "10 \<notin> set c" "13 \<notin> set c" "0 \<notin> set c" "list_all line_ok cs"
    using Cons.prems(3) by (simp_all add: line_ok_def [of c])
  from iterate_step [OF Cons.prems(1) _ comment_at [OF _ line ok(1-3)]] obtain p1 where
    p1: "asdf_event_iterate env p = Some (Some (ASDF_COMMENT_EVENT c), p1)"
      "parser_at p1 ASDF_PARSER_STATE_COMMENT buf (i + 2 + length c) []"
    by auto
  have "drop (i + 2 + length c) buf = drop (length c + 2) (drop i buf)" by (simp add: add.commute)
  then have "drop (i + 2 + length c) buf = concat (map comment_image cs) @ r" unfolding line by simp
  moreover have "\<exists>q'. parse_events env n q = Some (es, q') \<and> P q'"
    if "parser_at q ASDF_PARSER_STATE_COMMENT buf (i + 2 + length c + length (concat (map comment_image cs))) []" for q
    using Cons.prems(4) [of q] that by (simp add: comment_image_def [of c] add.assoc)
  ultimately obtain q where "parse_events env (length cs + n) p1 = Some (map ASDF_COMMENT_EVENT cs @ es, q)" "P q"
    using Cons.IH [OF p1(2) _ ok(4)] by blast
  with parse_events_event [OF p1(1)] show ?case by auto
qed


text \<open>A parser that was just given its input.\<close>

lemma fresh_parser:
  "asdf_parser_create_ctx [] None None \<noteq> None"
  "\<exists>p. asdf_parser_set_input_mem (the (asdf_parser_create_ctx [] None None)) buf = Some (True, p) \<and>
     (length buf \<le> 2 ^ 62 \<longrightarrow> parser_at p ASDF_PARSER_STATE_ASDF_VERSION buf 0 [])"
  by (simp_all add: asdf_parser_create_ctx_def asdf_context_create_def asdf_parser_set_input_mem_def
      parser_attach_def asdf_stream_from_memory_def null_stream_def ctx_alloc_def parser_at_def mem_view_def
      index_ok_def asdf_context_retain_def)

lemma version_parse_Nil: "asdf_version_parse [] (Some v) = (Some ver, h) \<Longrightarrow> h = []"
  by (auto simp: asdf_version_parse_def version_parse_major_def version_parse_minor_def
      version_parse_patch_def version_set_extra_def Let_def split: prod.splits if_splits)

lemma parse_file:
  assumes p: "parser_at p ASDF_PARSER_STATE_ASDF_VERSION (file_image v sv comments tree blocks) 0 []"
    and ver: "asdf_version_parse [] (Some v) = (Some ver, [])" "asdf_version_parse [] (Some sv) = (Some sver, [])"
    and lines: "line_ok v" "line_ok sv" "list_all line_ok comments"
    and tr: "directive_line tree" "clean_tree tree"
    and no: "no_index (file_image v sv comments tree blocks)"
    and bl: "list_all block_ok blocks" and g: "exact_growth env"
  shows "\<exists>q. parse_events env (length comments + length blocks + 6 + k) p =
      Some (file_events ver sver v sv comments tree blocks, q) \<and>
    finished q (found_blocks 0 (tree_offset v sv comments + length tree + 5) blocks)"
proof -
  define buf where "buf = file_image v sv comments tree blocks"
  define r2 where "r2 = tree @ asdf_yaml_document_end_marker @ [10] @ blocks_image blocks"
  define r1 where "r1 = asdf_standard_comment @ sv @ 10 # concat (map comment_image comments) @ r2"
  have l: "drop 0 buf = asdf_version_comment @ v @ 10 # r1"
    by (simp add: buf_def file_image_def r1_def r2_def)
  have x: "length asdf_version_comment = 6" "length asdf_standard_comment = 15"
    by (simp_all add: asdf_version_comment_def asdf_standard_comment_def bytes_of_def)
  have ok: "10 \<notin> set v" "0 \<notin> set v" "10 \<notin> set sv" "0 \<notin> set sv" using lines by (simp_all add: line_ok_def)
  define i where "i = 7 + length v"
  define j where "j = i + 16 + length sv"
  have at: "parser_at p ASDF_PARSER_STATE_ASDF_VERSION buf 0 []" using p by (simp add: buf_def)
  have "\<exists>p'. asdf_event_iterate env p = Some (Some (ASDF_ASDF_VERSION_EVENT ver), p') \<and>
      parser_at p' ASDF_PARSER_STATE_STANDARD_VERSION buf i []"
    by (rule iterate_step [OF at]) (use asdf_version_at [OF _ l ok(1,2) ver(1)] in \<open>simp_all add: i_def\<close>)
  then obtain p1 where p1: "asdf_event_iterate env p = Some (Some (ASDF_ASDF_VERSION_EVENT ver), p1)"
      "parser_at p1 ASDF_PARSER_STATE_STANDARD_VERSION buf i []" by blast
  have li: "drop i buf = asdf_standard_comment @ sv @ 10 # (concat (map comment_image comments) @ r2)"
    using l by (simp add: i_def x r1_def)
  have "\<exists>p'. asdf_event_iterate env p1 = Some (Some (ASDF_STANDARD_VERSION_EVENT sver), p') \<and>
      parser_at p' ASDF_PARSER_STATE_COMMENT buf j []"
    by (rule iterate_step [OF p1(2)]) (use standard_version_at [OF _ li ok(3,4) ver(2)] in \<open>simp_all add: j_def\<close>)
  then obtain p2 where p2: "asdf_event_iterate env p1 = Some (Some (ASDF_STANDARD_VERSION_EVENT sver), p2)"
      "parser_at p2 ASDF_PARSER_STATE_COMMENT buf j []" by blast
  define t where "t = j + length (concat (map comment_image comments))"
  have after: "drop (k + length xs) buf = ys" if "drop k buf = xs @ ys" for k xs ys
    using that by (metis add.commute append_eq_conv_conj drop_drop)
  have lj: "drop j buf = concat (map comment_image comments) @ r2"
    using after [of i "asdf_standard_comment @ sv @ [10]"] li by (simp add: j_def x ac_simps)
  have lt: "drop t buf = tree @ asdf_yaml_document_end_marker @ [10] @ blocks_image blocks"
    using after [OF lj] by (simp only: t_def r2_def)
  have off: "t = tree_offset v sv comments" by (simp add: t_def j_def i_def tree_offset_def)
  define es where "es = [ASDF_TREE_START_EVENT (Some \<lparr>ti_start = t, ti_end = 0, ti_buf = None\<rparr>),
          ASDF_TREE_END_EVENT (Some \<lparr>ti_start = t, ti_end = t + length tree + 5, ti_buf = None\<rparr>)] @
         map ASDF_BLOCK_EVENT (found_blocks 0 (t + length tree + 5) blocks) @ [ASDF_END_EVENT]"
  have "\<exists>q. parse_events env (length comments + (length blocks + 4 + k)) p2 =
      Some (map ASDF_COMMENT_EVENT comments @ es, q) \<and> finished q (found_blocks 0 (t + length tree + 5) blocks)"
    using tree_and_blocks_parse [OF _ lt tr no [folded buf_def] bl g, of _ k] t_def
    by (intro comments_parse [OF p2(2) lj lines(3)]) (auto simp: es_def)
  then obtain q where q: "parse_events env (length comments + (length blocks + 4 + k)) p2 =
      Some (map ASDF_COMMENT_EVENT comments @ es, q)" "finished q (found_blocks 0 (t + length tree + 5) blocks)"
    by blast
  have n: "length comments + length blocks + 6 + k = Suc (Suc (length comments + (length blocks + 4 + k)))"
    by simp
  have ev: "file_events ver sver v sv comments tree blocks =
      ASDF_ASDF_VERSION_EVENT ver # ASDF_STANDARD_VERSION_EVENT sver # map ASDF_COMMENT_EVENT comments @ es"
    by (simp add: file_events_def es_def off Let_def)
  show ?thesis
    unfolding n ev off [symmetric]
    using parse_events_event [OF p1(1) parse_events_event [OF p2(1) q(1)]] q(2) by blast
qed

section \<open>Properties\<close>

text \<open>C35. A call of \<^verbatim>\<open>asdf_parser_parse\<close> on a parser with an input returns, after at most ten handler
  calls, provided an event slot can be had and each handler it gets to returns: the loop over the states
  never runs for ever.\<close>

theorem parser_call_returns:
  assumes "p_has_stream p" and "p_state p \<noteq> ASDF_PARSER_STATE_INITIAL"
    and "asdf_parse_event_alloc p = (Some e, q0)"
    and "\<And>q ev. continues env (q0, ASDF_NONE_EVENT) (q, ev) \<Longrightarrow> running (p_state q) \<Longrightarrow>
      parser_step env q ev \<noteq> None"
  shows "\<exists>r p'. asdf_parser_parse env p = Some (r, p') \<and> p_state p' \<noteq> ASDF_PARSER_STATE_INITIAL"
proof -
  have "live (p_state q0)" using event_alloc_frame [OF assms(3)] assms(2) by (simp add: live_def)
  from parser_loop_leaves [OF this assms(4)] obtain r where
    "loop_opt (parser_loop_step env) (q0, ASDF_NONE_EVENT) = Some r" "live (p_state (snd (snd r)))"
    by blast
  with assms(1,3) show ?thesis
    by (cases r) (auto simp: asdf_parser_parse_def live_def)
qed


lemma parser_on_at: "length buf \<le> 2 ^ 62 \<Longrightarrow> parser_at (parser_on buf) ASDF_PARSER_STATE_ASDF_VERSION buf 0 []"
  using fresh_parser(2) [of buf] by (auto simp: parser_on_def)

lemma padding_continues:
  assumes "continues env (p, ev) (r, ev')"
    and "parser_at p ASDF_PARSER_STATE_PADDING buf (length buf) bs"
  shows "parser_at r ASDF_PARSER_STATE_PADDING buf (length buf) bs \<or>
    parser_at r ASDF_PARSER_STATE_BLOCK buf (length buf) bs \<or> parser_at r ASDF_PARSER_STATE_END buf (length buf) bs"
  using assms
proof (induction "(p, ev)" "(r, ev')" arbitrary: r ev')
  case (step q e q' e')
  then consider "parser_at q ASDF_PARSER_STATE_PADDING buf (length buf) bs"
    | "parser_at q ASDF_PARSER_STATE_BLOCK buf (length buf) bs"
    | "parser_at q ASDF_PARSER_STATE_END buf (length buf) bs"
    by blast
  then show ?case
  proof cases
    case 1
    from padding_at [OF this, of env e] step(4) show ?thesis by auto
  next
    case 2
    from no_block_at [OF this refl, of env e] step(4) show ?thesis by auto
  next
    case 3
    from parser_atD(2) [OF this] step(3) show ?thesis by (simp add: running_def)
  qed
qed simp

theorem parser_call_returns_witness:
  "\<exists>r p'. asdf_parser_parse sample_env ((parser_on [])\<lparr>p_state := ASDF_PARSER_STATE_PADDING\<rparr>) = Some (r, p') \<and>
    p_state p' \<noteq> ASDF_PARSER_STATE_INITIAL"
proof -
  define p where "p = (parser_on [])\<lparr>p_state := ASDF_PARSER_STATE_PADDING\<rparr>"
  have at: "parser_at p ASDF_PARSER_STATE_PADDING [] (length ([] :: bytes)) []"
    using parser_on_at [of "[]"] by (simp add: p_def parser_at_def)
  obtain e q where q: "asdf_parse_event_alloc p = (Some e, q)"
      "parser_at q ASDF_PARSER_STATE_PADDING [] (length ([] :: bytes)) []"
    using alloc_event_at [OF at] by blast
  have "parser_step sample_env r ev \<noteq> None"
    if "continues sample_env (q, ASDF_NONE_EVENT) (r, ev)" "running (p_state r)" for r ev
    using padding_continues [OF that(1) q(2)]
  proof (elim disjE)
    assume "parser_at r ASDF_PARSER_STATE_PADDING [] (length ([] :: bytes)) []"
    from padding_at [OF this, of sample_env ev] show ?thesis by simp
  next
    assume "parser_at r ASDF_PARSER_STATE_BLOCK [] (length ([] :: bytes)) []"
    from no_block_at [OF this refl, of sample_env ev] show ?thesis by auto
  next
    assume "parser_at r ASDF_PARSER_STATE_END [] (length ([] :: bytes)) []"
    with that(2) parser_atD(2) [OF this] show ?thesis by (simp add: running_def)
  qed
  from parser_call_returns [OF _ _ q(1) this] show ?thesis
    by (simp add: p_def parser_on_eq)
qed

text \<open>C1. A parser given a well-formed file in memory reports exactly what the file was put together
  from, in order: the two versions, the comments, where the tree starts and ends, each block with its
  number, header and positions, and the end; then it reports nothing more. It ends without an error,
  its list of blocks and its block index are those of the file, for any number of blocks and any
  contents. The capacity policy of the vectors is assumed to be exact.\<close>

theorem parse_well_formed_file:
  assumes "length (file_image v sv comments tree blocks) \<le> 2 ^ 62"
    and "asdf_version_parse [] (Some v) = (Some ver, [])" "asdf_version_parse [] (Some sv) = (Some sver, [])"
    and "line_ok v" "line_ok sv" "list_all line_ok comments"
    and "directive_line tree" "clean_tree tree"
    and "no_index (file_image v sv comments tree blocks)"
    and "list_all block_ok blocks" and "exact_growth env"
  shows "\<exists>q. parse_events env (length comments + length blocks + 6 + k)
        (parser_on (file_image v sv comments tree blocks)) =
      Some (file_events ver sver v sv comments tree blocks, q) \<and>
    finished q (found_blocks 0 (tree_offset v sv comments + length tree + 5) blocks)"
  by (rule parse_file [OF parser_on_at [OF assms(1)] assms(2-)])


definition sample_version :: bytes where
  "sample_version = bytes_of ''1.6.0''"

definition sample_tree :: bytes where
  "sample_tree = bytes_of ''%YAML 1.1'' @ [10] @ bytes_of ''a: 1''"

definition sample_file :: bytes where
  "sample_file = file_image sample_version sample_version [bytes_of ''hi''] sample_tree [(sample_header, [1, 2, 3])]"

text \<open>A file without the last letter of the index header has no block index.\<close>

lemma no_index_letter: "88 \<notin> set buf \<Longrightarrow> no_index buf"
proof -
  have "88 \<in> set asdf_block_index_header"
    by (simp add: asdf_block_index_header_def bytes_of_def of_char_def)
  then show "88 \<notin> set buf \<Longrightarrow> no_index buf"
    unfolding no_index_def token_at_def by (metis in_set_dropD in_set_takeD)
qed

lemma sample_block_ok: "block_ok (sample_header, [1, 2, 3])"
  by (simp add: block_ok_def sample_header_ok) (simp add: sample_header_def ASDF_BLOCK_FLAG_STREAMED_def)

lemma sample_file_length: "length sample_file = 114"
proof -
  have "length (block_image sample_header [1, 2, 3]) = 58"
    by (subst length_block_image [OF sample_header_ok])
       (simp_all add: sample_header_def ASDF_BLOCK_HEADER_FULL_SIZE_def
         ASDF_BLOCK_HEADER_SIZE_def ASDF_BLOCK_MAGIC_SIZE_def)
  then show ?thesis
    by (simp add: sample_file_def file_image_def blocks_image_def comment_image_def sample_version_def
        sample_tree_def bytes_of_def asdf_version_comment_def asdf_standard_comment_def
        asdf_yaml_document_end_marker_def)
qed

definition no_X :: "bytes \<Rightarrow> bool" where
  "no_X bs \<longleftrightarrow> 88 \<notin> set bs"

lemma no_X_simps [simp]: "no_X []" "no_X (x # xs) \<longleftrightarrow> x \<noteq> 88 \<and> no_X xs" "no_X (xs @ ys) \<longleftrightarrow> no_X xs \<and> no_X ys"
  "no_X (concat xss) \<longleftrightarrow> list_all no_X xss"
  by (auto simp: no_X_def list_all_iff)

lemma no_X_code [code]: "no_X bs \<longleftrightarrow> list_all (\<lambda>b. b \<noteq> 88) bs"
  by (auto simp: no_X_def list_all_iff)

lemma no_X_texts: "no_X asdf_version_comment" "no_X asdf_standard_comment" "no_X sample_version"
  "no_X sample_tree" "no_X (bytes_of ''hi'')" "no_X asdf_yaml_document_end_marker" "no_X asdf_block_magic"
  by code_simp+

lemma no_X_header: "no_X (be_enc 2 48)" "no_X (be_enc 4 0)" "no_X (be_enc 8 4)" "no_X (be_enc 8 3)"
  "no_X (replicate 4 0)" "no_X (replicate 16 7)" "no_X (replicate 1 0)"
  by code_simp+

lemma sample_file_no_index: "no_index sample_file"
proof (rule no_index_letter, unfold no_X_def [symmetric])
  have "no_X (block_image sample_header [1, 2, 3])"
    using no_X_texts(7) no_X_header
    by (simp add: block_image_def header_image_def sample_header_def ASDF_BLOCK_HEADER_SIZE_def)
  with no_X_texts show "no_X sample_file"
    by (simp add: sample_file_def file_image_def blocks_image_def comment_image_def)
qed

lemma sample_tree_ok: "directive_line sample_tree" "clean_tree sample_tree"
  subgoal by (subst yaml_directive_iff [symmetric]) code_simp
  subgoal by code_simp
  done

lemma sample_version_ok:
  "asdf_version_parse [] (Some sample_version) =
    (Some \<lparr>ver_string = sample_version, major = 1, minor = 6, patch = 0, extra = None\<rparr>, [])"
  "line_ok sample_version" "line_ok (bytes_of ''hi'')" "exact_growth sample_env"
  by (simp_all add: asdf_version_parse_def version_parse_major_def version_parse_minor_def
      version_parse_patch_def strtoul_def digits_val_def is_digit_def chr_at_def sample_version_def
      bytes_of_def of_char_def line_ok_def exact_growth_def sample_env_def)

theorem parse_well_formed_file_witness:
  "\<exists>es q. parse_events sample_env 20 (parser_on sample_file) = Some (es, q) \<and> length es = 7 \<and>
    es ! 5 = ASDF_BLOCK_EVENT (found_block 0 56 sample_header) \<and> es ! 6 = ASDF_END_EVENT \<and>
    finished q [found_block 0 56 sample_header]"
proof -
  have off: "tree_offset sample_version sample_version [bytes_of ''hi''] + length sample_tree + 5 = 56"
    by (simp add: tree_offset_def sample_version_def sample_tree_def comment_image_def bytes_of_def)
  have n: "length [bytes_of ''hi''] + length [(sample_header, [1, 2, 3 :: byte])] + 6 + 12 = 20" by simp
  show ?thesis
    using parse_well_formed_file [OF _ sample_version_ok(1,1,2,2) _ sample_tree_ok _ _ sample_version_ok(4),
        of "[bytes_of ''hi'']" "[(sample_header, [1, 2, 3])]" 12]
      sample_file_length sample_file_no_index sample_block_ok sample_version_ok(3) off
    unfolding sample_file_def [symmetric] n
    by (auto simp: file_events_def Let_def)
qed

end
