(* ===== verification/Asdf_Parser_Faults.thy ===== *)
theory Asdf_Parser_Faults
  imports Asdf_Parse_File
begin

text \<open>
  Inputs on which the parser does not do what its comments say: scanning loops that find the
  same token again for ever, a corrupt block index that becomes an event of no type, and the
  YAML events of a stream that cannot seek.
\<close>

section \<open>Scanning loops that do not end\<close>

text \<open>What looks like an end marker but is not followed by a line end is found again and again:
  nothing moves the stream past it.\<close>

definition false_marker :: "bytes \<Rightarrow> bool" where
  "false_marker w \<longleftrightarrow>
     (case asdf_scan_tokens w [asdf_yaml_document_end_marker, asdf_block_magic] of
        Some (off, tok) \<Rightarrow> tok = 0 \<and> \<not> is_yaml_document_end_marker (drop off w)
      | None \<Rightarrow> False)"

lemma scan_again:
  assumes "asdf_scan_tokens w ts = Some (off, t)"
  shows "asdf_scan_tokens (drop off w) ts = Some (0, t)"
proof -
  have m: "first_match w ts off t" using assms by (simp add: asdf_scan_tokens_Some_iff)
  then have "off < length w" by (simp add: first_match_def)
  with m show ?thesis
    by (auto simp: asdf_scan_tokens_Some_iff first_match_def token_at_drop)
qed

lemma tree_fast_diverges:
  assumes v: "mem_view (p_stream p) buf i" and "false_marker (drop i buf)"
  shows "parse_tree_fast p = None"
proof -
  let ?I = "\<lambda>q :: asdf_parser. \<exists>j. mem_view (p_stream q) buf j \<and> false_marker (drop j buf)"
  have "loop_opt tree_fast_step p = None"
  proof (rule loop_opt_diverges [where I = ?I])
    fix q assume "?I q"
    then obtain j where j: "mem_view (p_stream q) buf j" "false_marker (drop j buf)" by blast
    then obtain off where off: "asdf_scan_tokens (drop j buf) [asdf_yaml_document_end_marker, asdf_block_magic] =
        Some (off, 0)" "\<not> is_yaml_document_end_marker (drop (j + off) buf)"
      by (auto simp: false_marker_def add.commute split: option.splits prod.splits)
    have le: "j + off \<le> length buf"
      using off(1) by (auto simp: asdf_scan_tokens_Some_iff first_match_def)
    have v': "mem_view (goto (p_stream q) (j + off)) buf (j + off)" by (rule mem_view_goto [OF j(1) le])
    have "false_marker (drop (j + off) buf)"
      using scan_again [OF off(1)] off(2) by (simp add: false_marker_def add.commute)
    moreover have "tree_fast_step q = Some (Inl (move q (j + off)))"
      using off(2)
      by (simp add: tree_fast_step_def asdf_parser_scan_tokens_def view_scan_Some [OF j(1) off(1)]
          view_next [OF v'] Let_def move_def)
    ultimately show "\<exists>q'. tree_fast_step q = Some (Inl q') \<and> ?I q'" using v' by auto
  qed (use assms in blast)
  then show ?thesis by (simp add: parse_tree_fast_def)
qed

text \<open>The same in the search for the block index, for a header without a line end.\<close>

definition false_index :: "bytes \<Rightarrow> bool" where
  "false_index w \<longleftrightarrow>
     (case asdf_scan_tokens w [asdf_block_index_header] of
        Some (off, _) \<Rightarrow> ASDF_BLOCK_INDEX_HEADER_SIZE < length (drop off w) \<and>
          \<not> ends_with_newline (drop off w) ASDF_BLOCK_INDEX_HEADER_SIZE
      | None \<Rightarrow> False)"

lemma find_index_diverges:
  assumes v: "mem_view (p_stream p) buf i" and "false_index (drop i buf)"
  shows "loop_opt find_index_step (p, m) = None"
proof (rule loop_opt_diverges [where
      I = "\<lambda>(q, _). \<exists>j. mem_view (p_stream q) buf j \<and> false_index (drop j buf)"])
  fix a :: "asdf_parser \<times> bool"
  assume "case a of (q, _) \<Rightarrow> \<exists>j. mem_view (p_stream q) buf j \<and> false_index (drop j buf)"
  then obtain q m j where a: "a = (q, m)" and j: "mem_view (p_stream q) buf j" "false_index (drop j buf)"
    by (cases a) auto
  then obtain off t where off: "asdf_scan_tokens (drop j buf) [asdf_block_index_header] = Some (off, t)"
      "ASDF_BLOCK_INDEX_HEADER_SIZE < length (drop (j + off) buf)"
      "\<not> ends_with_newline (drop (j + off) buf) ASDF_BLOCK_INDEX_HEADER_SIZE"
    by (auto simp: false_index_def add.commute split: option.splits prod.splits)
  have le: "j + off \<le> length buf" using off(1) by (auto simp: asdf_scan_tokens_Some_iff first_match_def)
  have v': "mem_view (goto (p_stream q) (j + off)) buf (j + off)" by (rule mem_view_goto [OF j(1) le])
  have "false_index (drop (j + off) buf)"
    using scan_again [OF off(1)] off(2,3) by (simp add: false_index_def add.commute)
  moreover have "find_index_step a = Some (Inl (move q (j + off), True))"
    using off(2,3)
    by (simp add: a find_index_step_def asdf_parser_scan_tokens_def view_scan_Some [OF j(1) off(1)]
        view_peek [OF v'] Let_def move_def)
  ultimately show "\<exists>a'. find_index_step a = Some (Inl a') \<and>
      (case a' of (q, _) \<Rightarrow> \<exists>j. mem_view (p_stream q) buf j \<and> false_index (drop j buf))"
    using v' by auto
qed (use assms in auto)

section \<open>A corrupt block index\<close>

text \<open>A block index that is no YAML sequence is reported as an event, with an event slot nothing
  was written to.\<close>

lemma corrupt_index_event:
  assumes v: "mem_view (p_stream p) buf i" and i: "i < length buf"
    and bad: "fy_index env (drop i buf) = None"
  shows "read_block_index env p (int (length buf)) ASDF_NONE_EVENT = Some (ASDF_PARSE_EVENT, p, ASDF_NONE_EVENT)"
proof -
  have "length buf \<le> 2 ^ 62" using v by (simp add: mem_view_def)
  with i have "size_of_off (int (length buf) - int i) = length buf - i"
    by (simp flip: of_nat_diff)
  with i bad show ?thesis
    by (simp add: read_block_index_def view_tell [OF v] view_next [OF v] mem_read_def Let_def)
qed

section \<open>YAML events of a stream that cannot seek\<close>

text \<open>The tree is buffered for such a stream, but the YAML parser is set up from the option flag
  alone, and handing the stream to libfyaml asserts that the file can seek.\<close>

lemma yaml_events_unseekable:
  assumes "\<not> is_seekable (p_stream p)" and "userdata (p_stream p) = FileData d"
    and "\<not> f_seekable (fu_file d)" and "\<not> asdf_parser_has_opt p ASDF_PARSER_OPT_BUFFER_TREE"
  shows "initialize_yaml_parser env p = None"
  using assms
  by (auto simp: initialize_yaml_parser_def stream_fy_input_def file_fy_parser_set_input_def
      file_is_seekable_def parser_error_def asdf_parser_has_opt_def context_defs)

section \<open>The properties\<close>

lemma parser_on_view: "length buf \<le> 2 ^ 62 \<Longrightarrow> mem_view (p_stream (parser_on buf)) buf 0"
  by (rule parser_atD(3) [OF parser_on_at])

text \<open>C39. With a memory stream that holds a document end marker not followed by a line end, before
  any block magic, the fast scan for the end of the tree never returns.\<close>

theorem tree_fast_never_returns:
  assumes "mem_view (p_stream p) buf i" and "false_marker (drop i buf)"
  shows "parse_tree_fast p = None"
  by (rule tree_fast_diverges [OF assms])

definition marker_input :: bytes where
  "marker_input = bytes_of ''a: b'' @ [10] @ bytes_of ''...x''"

theorem tree_fast_never_returns_witness:
  "false_marker marker_input \<and> parse_tree_fast (parser_on marker_input) = None"
proof -
  have f: "false_marker marker_input" by code_simp
  have "length marker_input \<le> 2 ^ 62" by (simp add: marker_input_def bytes_of_def)
  then have "mem_view (p_stream (parser_on marker_input)) marker_input 0"
    by (rule parser_on_view)
  from tree_fast_never_returns [OF this] f show ?thesis by simp
qed

text \<open>The search for the block index from the back of a memory stream never returns when the
  header text is there without a line end behind it.\<close>

theorem find_index_never_returns:
  assumes "mem_view (p_stream p) buf i" and "false_index (drop i buf)"
  shows "loop_opt find_index_step (p, m) = None"
  by (rule find_index_diverges [OF assms])

definition index_input :: bytes where
  "index_input = asdf_block_index_header @ bytes_of '' X''"

theorem find_index_never_returns_witness:
  "false_index index_input \<and> loop_opt find_index_step (parser_on index_input, False) = None"
proof -
  have f: "false_index index_input" by code_simp
  have "length index_input \<le> 2 ^ 62" by (simp add: index_input_def asdf_block_index_header_def bytes_of_def)
  then have "mem_view (p_stream (parser_on index_input)) index_input 0"
    by (rule parser_on_view)
  from find_index_never_returns [OF this] f show ?thesis by simp
qed

text \<open>A block index that is no YAML sequence makes the parser report an event although nothing
  was written to the event: the caller receives an event of type none, and parsing goes on.\<close>

theorem corrupt_index_reported_as_event:
  assumes "mem_view (p_stream p) buf i" and "i < length buf"
    and "fy_index env (drop i buf) = None"
  shows "read_block_index env p (int (length buf)) ASDF_NONE_EVENT = Some (ASDF_PARSE_EVENT, p, ASDF_NONE_EVENT)"
  by (rule corrupt_index_event [OF assms])

theorem corrupt_index_reported_as_event_witness:
  "read_block_index (sample_env\<lparr>fy_index := \<lambda>_. None\<rparr>) (parser_on index_input) (int (length index_input)) ASDF_NONE_EVENT =
     Some (ASDF_PARSE_EVENT, parser_on index_input, ASDF_NONE_EVENT)"
proof -
  have l: "0 < length index_input" "length index_input \<le> 2 ^ 62"
    by (simp_all add: index_input_def asdf_block_index_header_def bytes_of_def)
  show ?thesis
    by (rule corrupt_index_reported_as_event [OF parser_on_view [OF l(2)] l(1)]) simp
qed

end
