(* ===== verification/Asdf_Seek.thy ===== *)
theory Asdf_Seek
  imports Asdf_Mem_View
begin

text \<open>
  Moving in a stream: skipping forward in a stream that cannot seek, by reading, and the
  absolute and relative seeks of the two backends.
\<close>

section \<open>Skipping by reading\<close>

context byte_stream
begin

lemma skip_law:
  assumes "inv s" and "error (s_ctx s) = None"
  shows "\<exists>s'. stream_skip s n = Some (0, s') \<and> inv s' \<and> rest s' = drop n (rest s) \<and>
    pos s' = pos s + min n (length (rest s)) \<and> same_frame s s'"
  using assms
proof (induction n arbitrary: s rule: less_induct)
  case (less n)
  show ?case
  proof (cases "n = 0")
    case True
    with less.prems show ?thesis by (simp add: stream_skip.simps)
  next
    case False
    from next_law [OF less.prems(1), of 1] obtain w s1 where
      n: "asdf_stream_next s 1 = Some (w, s1)" "w = take (length w) (rest s)"
        "min 1 (length (rest s)) \<le> length w" "inv s1" "rest s1 = rest s" "pos s1 = pos s"
        "win s1 = length w" "same_frame s s1"
      by auto
    have e1: "error (s_ctx s1) = None" using less.prems(2) same_frame_ctx [OF n(8)] by simp
    show ?thesis
    proof (cases "w = []")
      case True
      with n(3) have "rest s = []" by (cases "rest s") auto
      with False n True e1 show ?thesis by (simp add: stream_skip.simps [of s])
    next
      case wne: False
      define k where "k = min (length w) n"
      from consume_law [OF n(4), of k] n(7) obtain s2 where
        c: "asdf_stream_consume s1 k = Some s2" "inv s2" "rest s2 = drop k (rest s1)"
          "pos s2 = pos s1 + k" "same_frame s1 s2"
        by (auto simp: k_def)
      have e2: "error (s_ctx s2) = None" using e1 same_frame_ctx [OF c(5)] by simp
      have kpos: "n - k < n" using wne False by (simp add: k_def)
      from less.IH [OF kpos c(2) e2] obtain s' where
        s': "stream_skip s2 (n - k) = Some (0, s')" "inv s'" "rest s' = drop (n - k) (rest s2)"
          "pos s' = pos s2 + min (n - k) (length (rest s2))" "same_frame s2 s'"
        by blast
      have kn: "k \<le> n" and kl: "k \<le> length (rest s)"
        using n(2) by (simp add: k_def, metis k_def length_take min.cobounded1 min.coboundedI2 min.commute)
      have "stream_skip s n = Some (0, s')"
        using False n(1) e1 wne c(1) s'(1) by (simp add: stream_skip.simps [of s] k_def)
      moreover have "rest s' = drop n (rest s)" using s'(3) c(3) n(5) kn by simp
      moreover have "pos s' = pos s + min n (length (rest s))"
        using s'(4) c(3,4) n(5,6) kn kl by (simp add: min_def) linarith
      moreover have "same_frame s s'" using n(8) c(5) s'(5) by (meson same_frame_trans)
      ultimately show ?thesis using s'(2) by blast
    qed
  qed
qed

end

section \<open>Properties\<close>

text \<open>On a buffered file that cannot seek, a seek by a non-negative offset returns 0 and moves
  forward by that many bytes, or to the end if there are fewer, whatever the base of the offset is:
  \<^verbatim>\<open>SEEK_SET\<close> and \<^verbatim>\<open>SEEK_END\<close> are not refused, as the comment of the function says.\<close>

theorem unseekable_seek_skips:
  assumes "file_inv s" and "\<not> is_seekable s" and "error (s_ctx s) = None" and "0 \<le> offset"
  shows "\<exists>s'. asdf_stream_seek s offset whence = Some (0, s') \<and> file_inv s' \<and>
    file_rest s' = drop (nat offset) (file_rest s) \<and>
    file_at s' = file_at s + min (nat offset) (length (file_rest s))"
  using buffered.skip_law [OF assms(1,3), of "nat offset"] assms(2,4)
  by (auto simp: asdf_stream_seek_def)

text \<open>A buffered file with a given content, position and buffer size, as \<^verbatim>\<open>asdf_stream_from_fp\<close>
  leaves it.\<close>

definition plain_context :: asdf_context where
  "plain_context = \<lparr>refcount = 1, error_type = ASDF_ERROR_NONE, error = None, error_code = None,
     saved_errno = None, ctx_heap = []\<rparr>"

definition plain_file :: "bool \<Rightarrow> bytes \<Rightarrow> cfile" where
  "plain_file seekable content = \<lparr>f_content = content, f_pos = 0, f_seekable = seekable, f_limit = None,
     f_flush_ok = True, f_errno = 0\<rparr>"

definition opened :: "bool \<Rightarrow> nat \<Rightarrow> bytes \<Rightarrow> asdf_stream" where
  "opened seekable bufsiz content =
     the (fst (asdf_stream_from_fp plain_context bufsiz (plain_file seekable content) False))"

lemma opened_inv:
  assumes "length content \<le> 2 ^ 62" and "bufsiz \<le> 2 ^ 62"
  shows "file_inv (opened seekable bufsiz content)" "file_rest (opened seekable bufsiz content) = content"
    "file_at (opened seekable bufsiz content) = 0" "error (s_ctx (opened seekable bufsiz content)) = None"
    "is_seekable (opened seekable bufsiz content) = seekable"
  using assms
  by (auto simp: opened_def asdf_stream_from_fp_def plain_context_def plain_file_def ctx_alloc_def
      asdf_context_retain_def file_inv_def file_rest_def file_at_def fu_ok_def fu_rest_def fu_window_def
      cap_room_def file_is_seekable_def fseeko_def Let_def)

theorem unseekable_seek_skips_witness:
  "\<exists>s'. asdf_stream_seek (opened False 4 [1, 2, 3]) 2 SEEK_SET = Some (0, s') \<and> file_inv s' \<and>
    file_rest s' = [3] \<and> file_at s' = 2"
  using unseekable_seek_skips [of "opened False 4 [1, 2, 3]" 2 SEEK_SET]
  by (simp add: opened_inv flip: numeral_2_eq_2)

text \<open>Reading the last line of a memory buffer when no line feed ends it reports one byte more
  than there is and leaves the position behind the buffer; reading again then leaves the buffer.\<close>

theorem mem_readline_overruns:
  assumes "mem_view s buf i" and "i < length buf" and "10 \<notin> set (drop i buf)"
  shows "\<exists>s'. asdf_stream_readline s = Some (Some (drop i buf, length buf - i + 1), s') \<and>
    asdf_stream_tell s' = int (length buf + 1) \<and> asdf_stream_readline s' = None"
proof -
  obtain d where d: "userdata s = MemData d" "mem_buf d = buf" "mem_size d = length buf" "mem_pos d = i"
      "length buf \<le> 2 ^ 62" "capture_buf s = None"
    using assms(1) by (rule mem_viewE)
  have nl: "newline_idx bs = None" if "10 \<notin> set bs" for bs :: bytes
    using that by (induction bs) auto
  define s' where "s' = s\<lparr>userdata := MemData (d\<lparr>mem_pos := length buf + 1\<rparr>)\<rparr>"
  have add: "size_add i (length buf - i + 1) = length buf + 1"
    using assms(2) d(5) by (simp add: size_add_small size_mod_def)
  have rd: "mem_read buf i (length buf - i) = Some (drop i buf)"
    using assms(2) by (simp add: mem_read_def)
  have "mem_readline s d = Some (Some (drop i buf, length buf - i + 1), s, d\<lparr>mem_pos := length buf + 1\<rparr>)"
    using assms(2) add
    by (simp add: mem_readline_def mem_consume_def stream_capture_def d view_remaining [OF assms(1)] rd
        nl [OF assms(3)] Let_def)
  then have "asdf_stream_readline s = Some (Some (drop i buf, length buf - i + 1), s')"
    by (simp add: asdf_stream_readline_def d(1) s'_def)
  moreover have "size_sub (length buf) (length buf + 1) = size_mod - 1"
    by (simp add: size_sub_def size_mod_def)
  then have "asdf_stream_readline s' = None"
    using d(5) by (simp add: asdf_stream_readline_def s'_def mem_readline_def d(2,3) mem_read_def size_mod_def)
  moreover have "asdf_stream_tell s' = int (length buf + 1)"
    using d(5) by (simp add: asdf_stream_tell_def s'_def mem_tell_def off_of_size_def size_mod_def)
  ultimately show ?thesis by blast
qed

definition over :: "bytes \<Rightarrow> asdf_stream" where
  "over buf = the (fst (asdf_stream_from_memory plain_context buf))"

lemma over_view: "length buf \<le> 2 ^ 62 \<Longrightarrow> mem_view (over buf) buf 0" "error (s_ctx (over buf)) = None"
  by (simp_all add: over_def asdf_stream_from_memory_def plain_context_def ctx_alloc_def
      asdf_context_retain_def mem_view_def)

theorem mem_readline_overruns_witness:
  "\<exists>s'. asdf_stream_readline (over [65, 66]) = Some (Some ([65, 66], 3), s') \<and>
    asdf_stream_tell s' = 3 \<and> asdf_stream_readline s' = None"
  using mem_readline_overruns [of "over [65, 66]" "[65, 66]" 0] by (simp add: over_view numeral_3_eq_3)

end
