(* ===== verification/Asdf_Stream_Scan.thy ===== *)
theory Asdf_Stream_Scan
  imports Asdf_Stream_Laws
begin

text \<open>
  Scanning a stream. The memory backend scans everything that is left; the file backend
  scans through a sliding window. For tokens of one length, and from a buffer whose start
  has not been consumed, the window finds the same match at the same position.
\<close>

definition uniform :: "nat \<Rightarrow> bytes list \<Rightarrow> bool" where
  "uniform m ts \<longleftrightarrow> 0 < m \<and> ts \<noteq> [] \<and> (\<forall>t \<in> set ts. length t = m)"

section \<open>Scanning parts of a buffer\<close>

lemma max_token_len_uniform: "uniform m ts \<Longrightarrow> max_token_len ts = m"
proof -
  assume u: "uniform m ts"
  have step: "\<forall>t \<in> set xs. length t = m \<Longrightarrow>
      foldl (\<lambda>a t. if length t > a then length t else a) m xs = m" for xs :: "bytes list"
    by (induction xs) auto
  from u obtain t ts' where "ts = t # ts'" "length t = m" "0 < m" "\<forall>t \<in> set ts'. length t = m"
    by (cases ts) (auto simp: uniform_def)
  with step [of ts'] show ?thesis by (auto simp: max_token_len_def)
qed

lemma scan_skip:
  assumes "\<forall>off < k. \<forall>t \<in> set ts. \<not> token_at buf off t" and "k \<le> length buf"
  shows "asdf_scan_tokens buf ts =
           map_option (\<lambda>(off, t). (k + off, t)) (asdf_scan_tokens (drop k buf) ts)"
proof (cases "asdf_scan_tokens (drop k buf) ts")
  case None
  have "\<not> token_at buf off t" if "off < length buf" "t \<in> set ts" for off t
  proof (cases "off < k")
    case True
    with assms that show ?thesis by blast
  next
    case False
    with that assms(2) None have "\<not> token_at (drop k buf) (off - k) t"
      by (auto simp: asdf_scan_tokens_None_iff)
    with False that show ?thesis by (simp add: token_at_drop)
  qed
  then have "asdf_scan_tokens buf ts = None" by (simp add: asdf_scan_tokens_None_iff)
  with None show ?thesis by simp
next
  case (Some r)
  obtain off tdx where r: "r = (off, tdx)" by (cases r)
  with Some have fm: "first_match (drop k buf) ts off tdx" by (simp add: asdf_scan_tokens_Some_iff)
  then have "first_match buf ts (k + off) tdx"
    unfolding first_match_def
  proof (elim conjE, intro conjI allI impI ballI)
    assume h: "off < length (drop k buf)" "tdx < length ts" "token_at (drop k buf) off (ts ! tdx)"
      "\<forall>i < tdx. \<not> token_at (drop k buf) off (ts ! i)"
      "\<forall>o' < off. \<forall>t \<in> set ts. \<not> token_at (drop k buf) o' t"
    have le: "k + off \<le> length buf" using h(1) by simp
    show "k + off < length buf" using h(1) by simp
    show "tdx < length ts" by (rule h)
    show "token_at buf (k + off) (ts ! tdx)" using h(3) by (simp add: token_at_drop [OF le])
    show "\<not> token_at buf (k + off) (ts ! i)" if "i < tdx" for i
      using h(4) that by (simp add: token_at_drop [OF le])
    show "\<not> token_at buf o' t" if "o' < k + off" "t \<in> set ts" for o' t
    proof (cases "o' < k")
      case True
      with assms(1) that show ?thesis by blast
    next
      case False
      with h(5) that have "\<not> token_at (drop k buf) (o' - k) t" by auto
      with False that le show ?thesis by (simp add: token_at_drop)
    qed
  qed
  then have "asdf_scan_tokens buf ts = Some (k + off, tdx)" by (simp add: asdf_scan_tokens_Some_iff)
  with Some r show ?thesis by simp
qed

lemma token_at_prefix: "off + length t \<le> length w \<Longrightarrow> token_at (w @ r) off t \<longleftrightarrow> token_at w off t"
  using token_at_take [of off t "length w" "w @ r"] by simp

text \<open>A match in a prefix is the match in the whole, when the tokens have one length.\<close>

lemma scan_prefix_Some:
  assumes "uniform m ts" and "asdf_scan_tokens w ts = Some (off, tdx)"
  shows "asdf_scan_tokens (w @ r) ts = Some (off, tdx) \<and> off + m \<le> length w"
proof -
  have fm: "first_match w ts off tdx" using assms(2) by (simp add: asdf_scan_tokens_Some_iff)
  have len: "length t = m" if "t \<in> set ts" for t using assms(1) that by (simp add: uniform_def)
  have in_w: "off + m \<le> length w"
    using fm len [of "ts ! tdx"] by (auto simp: first_match_def token_at_def)
  have "first_match (w @ r) ts off tdx"
    using fm in_w len unfolding first_match_def by (auto simp: token_at_prefix)
  with in_w show ?thesis by (simp add: asdf_scan_tokens_Some_iff)
qed

lemma scan_prefix_None:
  assumes "uniform m ts" and "length w < m \<or> asdf_scan_tokens w ts = None"
    and "off + m \<le> length w" and "t \<in> set ts"
  shows "\<not> token_at (w @ r) off t"
  using assms by (auto simp: token_at_prefix asdf_scan_tokens_None_iff uniform_def)

lemma scan_short_None: "uniform m ts \<Longrightarrow> length w < m \<Longrightarrow> asdf_scan_tokens w ts = None"
  by (auto simp: asdf_scan_tokens_None_iff token_at_def uniform_def)

section \<open>One refill\<close>

lemma file_scan_refill_ok:
  assumes d: "fu_ok d" and pos: "fu_buf_pos d = 0" and m: "0 < m" "m \<le> fu_buf_size d"
    and room: "capture_room s (length (fu_rest d))" and heap: "ctx_heap (s_ctx s) = []"
  defines "p \<equiv> min (fu_buf_avail d) (m - 1)"
  defines "k \<equiv> fu_buf_avail d - p"
  shows "\<exists>c d'. file_scan_refill s d (fu_buf_avail d) m =
      Some (s\<lparr>capture_buf := cap_append (capture_buf s) (take k (fu_rest d)), capture_cap := c\<rparr>, d') \<and>
      capture_cap s \<le> c \<and> fu_buf_size d' = fu_buf_size d \<and>
      fu_buf_avail d' = p + min (fu_buf_size d - p) (length (fu_rest d) - fu_buf_avail d) \<and>
      (m \<le> fu_buf_avail d' \<longrightarrow>
         fu_ok d' \<and> fu_buf_pos d' = 0 \<and> fu_rest d' = drop k (fu_rest d) \<and>
         fu_file_pos d' = fu_file_pos d + k)"
proof -
  note ok = fu_okD [OF d]
  define w where "w = fu_window d"
  define bs where
    "bs = take (fu_buf_size d - p) (drop (f_pos (fu_file d)) (f_content (fu_file d)))"
  have wl: "length w = fu_buf_avail d" using length_fu_window [OF d] pos by (simp add: w_def)
  have rest: "fu_rest d = w @ drop (f_pos (fu_file d)) (f_content (fu_file d))"
    by (simp add: fu_rest_def w_def)
  have p: "p \<le> fu_buf_avail d" "p < m" using m by (auto simp: p_def)
  have kp: "k + p = fu_buf_avail d" using p by (simp add: k_def)
  have win: "w = take (fu_buf_avail d) (fu_buf d)" by (simp add: w_def fu_window_def pos)
  have sub: "size_sub (fu_buf_avail d) p = k" "size_sub (fu_buf_size d) p = fu_buf_size d - p"
    using p ok by (auto simp: size_sub_small size_mod_def k_def)
  have rd: "mem_read (fu_buf d) k p = Some (drop k w)"
    using kp ok by (simp add: mem_read_def win drop_take flip: kp)
  have lw: "length (drop k w) = p" using wl kp by simp
  have b1: "mem_write_at (fu_buf d) 0 (drop k w) = Some (drop k w @ drop p (fu_buf d))"
    using mem_write_at_start [of "drop k w" "fu_buf d"] lw p ok by simp
  have bsl: "length bs \<le> length (drop p (fu_buf d))" using ok by (simp add: bs_def)
  have b2: "mem_write_at (drop k w @ drop p (fu_buf d)) p bs =
      Some (drop k w @ bs @ drop (length bs) (drop p (fu_buf d)))"
    using mem_write_at_append [OF bsl, of "drop k w"] lw by simp
  have fr: "fread (fu_file d) (fu_buf_size d - p) =
      (bs, (fu_file d)\<lparr>f_pos := f_pos (fu_file d) + length bs\<rparr>)"
    by (simp add: fread_def bs_def Let_def)
  have tot: "p + length bs \<le> fu_buf_size d" using bsl p ok by simp
  have add: "size_add p (length bs) = p + length bs" "size_add (fu_file_pos d) k = fu_file_pos d + k"
    using tot ok kp pos by (auto simp: size_add_small size_mod_def)
  have "capture_room s k" by (rule cap_room_mono [OF room]) (use kp wl rest in simp)
  moreover have "0 + k \<le> length (fu_buf d)" using kp ok by simp
  moreover have "take k (drop 0 (fu_buf d)) = take k (fu_rest d)"
    using kp wl by (simp add: rest win min_def)
  ultimately obtain c where cap: "stream_capture s (fu_buf d) 0 k =
      Some (s\<lparr>capture_buf := cap_append (capture_buf s) (take k (fu_rest d)), capture_cap := c\<rparr>)"
      "capture_cap s \<le> c"
    using stream_capture_ok [OF _ heap, of k 0 "fu_buf d"] by auto
  define d' where "d' = d\<lparr>fu_file := (fu_file d)\<lparr>f_pos := f_pos (fu_file d) + length bs\<rparr>,
      fu_buf := drop k w @ bs @ drop (length bs) (drop p (fu_buf d)),
      fu_file_pos := fu_file_pos d + k, fu_buf_avail := p + length bs,
      fu_buf_pos := (if p + length bs < m then p + length bs else 0)\<rparr>"
  have pdef: "(if fu_buf_avail d < m - 1 then fu_buf_avail d else m - 1) = p"
    by (simp add: p_def min_def)
  have "file_scan_refill s d (fu_buf_avail d) m =
      Some (s\<lparr>capture_buf := cap_append (capture_buf s) (take k (fu_rest d)), capture_cap := c\<rparr>, d')"
    unfolding file_scan_refill_def pdef Let_def
    by (simp add: sub cap(1) rd b1 b2 fr add d'_def del: drop_drop cong: if_cong)
  moreover have "fu_buf_avail d' = p + min (fu_buf_size d - p) (length (fu_rest d) - fu_buf_avail d)"
    using wl by (simp add: d'_def rest bs_def min.commute)
  moreover have "fu_ok d' \<and> fu_buf_pos d' = 0 \<and> fu_rest d' = drop k (fu_rest d) \<and>
      fu_file_pos d' = fu_file_pos d + k" if "m \<le> fu_buf_avail d'"
  proof -
    have pos': "fu_buf_pos d' = 0" using that by (simp add: d'_def)
    have win': "fu_window d' = drop k w @ bs"
      unfolding fu_window_def pos' using lw by (simp add: d'_def)
    have "fu_rest d' = drop k w @ bs @ drop (f_pos (fu_file d) + length bs) (f_content (fu_file d))"
      unfolding fu_rest_def win' by (simp add: d'_def)
    also have "\<dots> = drop k (fu_rest d)"
      using take_drop_append_drop [OF bs_def] kp wl by (simp add: rest)
    finally have rest': "fu_rest d' = drop k (fu_rest d)" .
    have "f_pos (fu_file d) + length bs \<le> length (f_content (fu_file d))"
      using ok by (simp add: bs_def)
    then have "fu_ok d'"
      unfolding fu_ok_def rest' using ok tot lw kp pos' pos
      by (simp add: d'_def add.commute)
    with rest' pos' show ?thesis by (simp add: d'_def)
  qed
  ultimately show ?thesis using cap(2) by (auto simp: d'_def)
qed

section \<open>The sliding window finds what a scan of the whole finds\<close>

text \<open>The outcome of a scan of the bytes \<open>bs\<close> at position \<open>q\<close>, as the caller sees it.\<close>

definition scan_result ::
  "bytes list \<Rightarrow> bytes \<Rightarrow> nat \<Rightarrow> (nat \<times> nat) option" where
  "scan_result ts bs q = map_option (\<lambda>(off, t). (q + off, t)) (asdf_scan_tokens bs ts)"

lemma scan_result_skip:
  assumes "\<forall>off < k. \<forall>t \<in> set ts. \<not> token_at bs off t" and "k \<le> length bs"
  shows "scan_result ts bs q = scan_result ts (drop k bs) (q + k)"
  using scan_skip [OF assms]
  by (cases "asdf_scan_tokens (drop k bs) ts") (auto simp: scan_result_def add.assoc)

text \<open>What a successful file scan leaves behind.\<close>

definition scanned :: "asdf_stream \<Rightarrow> file_userdata \<Rightarrow> nat \<Rightarrow> nat \<Rightarrow> asdf_stream \<Rightarrow> file_userdata \<Rightarrow> bool" where
  "scanned s d m off s' d' \<longleftrightarrow>
     fu_ok d' \<and> fu_rest d' = drop off (fu_rest d) \<and> fu_file_pos d' = fu_file_pos d + off \<and>
     m \<le> length (fu_window d') \<and> s_ctx s' = s_ctx s \<and> is_seekable s' = is_seekable s \<and>
     is_writeable s' = is_writeable s \<and> userdata s' = userdata s \<and> capture_cap s \<le> capture_cap s' \<and>
     capture_buf s' = cap_append (capture_buf s) (take off (fu_rest d))"

lemma scanned_shift:
  assumes "scanned s1 d1 m off s' d'" and "fu_rest d1 = drop k (fu_rest d)"
    and "fu_file_pos d1 = fu_file_pos d + k" and "k \<le> length (fu_rest d)"
    and "s1 = s\<lparr>capture_buf := cap_append (capture_buf s) (take k (fu_rest d)), capture_cap := c\<rparr>"
    and "capture_cap s \<le> c"
  shows "scanned s d m (k + off) s' d'"
  using assms by (simp add: scanned_def cap_append_append take_add add.commute)

text \<open>The states a scan is started or continued in.\<close>

definition scan_ready :: "nat \<Rightarrow> asdf_stream \<Rightarrow> file_userdata \<Rightarrow> bool" where
  "scan_ready m s d \<longleftrightarrow> fu_ok d \<and> fu_buf_pos d = 0 \<and> m \<le> fu_buf_size d \<and>
     capture_room s (length (fu_rest d)) \<and> ctx_heap (s_ctx s) = []"

lemma scan_ready_window:
  assumes "scan_ready m s d"
  shows "fu_rest d = fu_window d @ drop (f_pos (fu_file d)) (f_content (fu_file d))"
    "length (fu_window d) = fu_buf_avail d" "size_sub (fu_buf_avail d) 0 = fu_buf_avail d"
    "mem_read (fu_buf d) 0 (fu_buf_avail d) = Some (fu_window d)"
proof -
  have d: "fu_ok d" "fu_buf_pos d = 0" using assms by (auto simp: scan_ready_def)
  show wl: "length (fu_window d) = fu_buf_avail d" using length_fu_window [OF d(1)] d(2) by simp
  show "size_sub (fu_buf_avail d) 0 = fu_buf_avail d" using fu_remain [OF d(1)] d(2) wl by simp
  show "mem_read (fu_buf d) 0 (fu_buf_avail d) = Some (fu_window d)"
    using fu_window_read [OF d(1)] d(2) by simp
qed (simp add: fu_rest_def)

text \<open>The window holds a match.\<close>

lemma file_scan_loop_hit:
  assumes u: "uniform m ts" and rdy: "scan_ready m s d"
    and sc: "asdf_scan_tokens (fu_window d) ts = Some (off, t)"
  shows "\<exists>s' d'. file_scan_loop s d ts m = Some (Some (fu_file_pos d + off, t), s', d') \<and>
      asdf_scan_tokens (fu_rest d) ts = Some (off, t) \<and> scanned s d m off s' d'"
proof -
  have d: "fu_ok d" "fu_buf_pos d = 0" "capture_room s (length (fu_rest d))" "ctx_heap (s_ctx s) = []"
    using rdy by (auto simp: scan_ready_def)
  note ok = fu_okD [OF d(1)] and w = scan_ready_window [OF rdy]
  have all: "asdf_scan_tokens (fu_rest d) ts = Some (off, t)"
    and fit: "off + m \<le> length (fu_window d)"
    using scan_prefix_Some [OF u sc] w(1) by simp_all
  have "off \<le> length (fu_window d)" using fit by simp
  from file_consume_ok [OF d(1) this d(3,4)] obtain c d' where
    k: "file_consume s d off = Some (s\<lparr>capture_buf := cap_append (capture_buf s)
          (take off (fu_rest d)), capture_cap := c\<rparr>, d')"
      "capture_cap s \<le> c" "fu_ok d'" "fu_rest d' = drop off (fu_rest d)"
      "fu_file_pos d' = fu_file_pos d + off" "fu_window d' = drop off (fu_window d)"
    by blast
  have add: "size_add (fu_file_pos d) off = fu_file_pos d + off"
    using ok fit w(2) d(2) by (simp add: size_add_small size_mod_def)
  have "m \<le> fu_buf_avail d" using fit w(2) by simp
  then have "file_scan_loop s d ts m = Some (Some (fu_file_pos d + off, t),
      s\<lparr>capture_buf := cap_append (capture_buf s) (take off (fu_rest d)), capture_cap := c\<rparr>, d')"
    by (subst file_scan_loop.simps) (simp add: d(2) w sc k(1) add)
  with all k fit show ?thesis by (simp add: scanned_def)
qed

text \<open>The window holds none: it is refilled, and the scan ends or goes on.\<close>

lemma file_scan_loop_miss:
  assumes u: "uniform m ts" and rdy: "scan_ready m s d"
    and sc: "m \<le> fu_buf_avail d \<Longrightarrow> asdf_scan_tokens (fu_window d) ts = None"
  shows "\<exists>k c s1 d1. k \<le> length (fu_rest d) \<and> capture_cap s \<le> c \<and>
      (\<forall>off < k. \<forall>t \<in> set ts. \<not> token_at (fu_rest d) off t) \<and>
      s1 = s\<lparr>capture_buf := cap_append (capture_buf s) (take k (fu_rest d)), capture_cap := c\<rparr> \<and>
      file_scan_loop s d ts m =
        (if fu_buf_avail d1 < m then Some (None, s1, d1) else file_scan_loop s1 d1 ts m) \<and>
      (if fu_buf_avail d1 < m then length (fu_rest d) - k < m
       else scan_ready m s1 d1 \<and> fu_rest d1 = drop k (fu_rest d) \<and>
         fu_file_pos d1 = fu_file_pos d + k \<and>
         length (fu_rest d1) - fu_buf_avail d1 < length (fu_rest d) - fu_buf_avail d)"
proof -
  have d: "fu_ok d" "fu_buf_pos d = 0" "capture_room s (length (fu_rest d))"
      "ctx_heap (s_ctx s) = []" and msz: "m \<le> fu_buf_size d"
    using rdy by (auto simp: scan_ready_def)
  have m0: "0 < m" using u by (simp add: uniform_def)
  note w = scan_ready_window [OF rdy]
  define p where "p = min (fu_buf_avail d) (m - 1)"
  define k where "k = fu_buf_avail d - p"
  have kp: "k + p = fu_buf_avail d" "p < m" using m0 by (simp_all add: k_def p_def)
  from file_scan_refill_ok [OF d(1,2) m0 msz d(3,4), folded p_def, folded k_def]
  obtain c d1 where rf: "file_scan_refill s d (fu_buf_avail d) m =
      Some (s\<lparr>capture_buf := cap_append (capture_buf s) (take k (fu_rest d)), capture_cap := c\<rparr>, d1)"
    and c: "capture_cap s \<le> c" and sz: "fu_buf_size d1 = fu_buf_size d"
    and av: "fu_buf_avail d1 = p + min (fu_buf_size d - p) (length (fu_rest d) - fu_buf_avail d)"
    and cont: "m \<le> fu_buf_avail d1 \<Longrightarrow> fu_ok d1 \<and> fu_buf_pos d1 = 0 \<and>
       fu_rest d1 = drop k (fu_rest d) \<and> fu_file_pos d1 = fu_file_pos d + k"
    by blast
  let ?s1 = "s\<lparr>capture_buf := cap_append (capture_buf s) (take k (fu_rest d)), capture_cap := c\<rparr>"
  have skip: "\<not> token_at (fu_rest d) off t" if "off < k" "t \<in> set ts" for off t
    unfolding w(1) using that kp sc w(2)
    by (intro scan_prefix_None [OF u]) (auto simp: k_def p_def)
  have kle: "k \<le> length (fu_rest d)" using w(1,2) kp by simp
  have "(if m \<le> fu_buf_avail d then Some (asdf_scan_tokens (fu_window d) ts) else Some None) = Some None"
    using sc by auto
  then have unf: "file_scan_loop s d ts m =
      (if fu_buf_avail d1 < m then Some (None, ?s1, d1) else file_scan_loop ?s1 d1 ts m)"
    by (subst file_scan_loop.simps) (simp add: d(2) w rf Let_def cong: if_cong)
  have "if fu_buf_avail d1 < m then length (fu_rest d) - k < m
     else scan_ready m ?s1 d1 \<and> fu_rest d1 = drop k (fu_rest d) \<and>
       fu_file_pos d1 = fu_file_pos d + k \<and>
       length (fu_rest d1) - fu_buf_avail d1 < length (fu_rest d) - fu_buf_avail d"
  proof (cases "fu_buf_avail d1 < m")
    case True
    with av msz kp show ?thesis by (auto simp: min_def split: if_splits)
  next
    case False
    then have nx: "fu_ok d1" "fu_buf_pos d1 = 0" "fu_rest d1 = drop k (fu_rest d)"
        "fu_file_pos d1 = fu_file_pos d + k"
      using cont by auto
    have "capture_room ?s1 (length (fu_rest d1))"
      using cap_room_append [OF d(3), of "take k (fu_rest d)" c "length (fu_rest d1)"] c kle nx(3)
      by (simp add: min_def)
    moreover have "length (fu_rest d1) - fu_buf_avail d1 < length (fu_rest d) - fu_buf_avail d"
      using False av nx(3) kp by (auto simp: min_def split: if_splits)
    ultimately show ?thesis using False nx sz msz d(4) by (simp add: scan_ready_def)
  qed
  with skip kle c unf show ?thesis by blast
qed

lemma file_scan_loop_uniform:
  assumes u: "uniform m ts" and "scan_ready m s d"
  shows "\<exists>s' d'. file_scan_loop s d ts m = Some (scan_result ts (fu_rest d) (fu_file_pos d), s', d') \<and>
      (\<forall>off t. asdf_scan_tokens (fu_rest d) ts = Some (off, t) \<longrightarrow> scanned s d m off s' d')"
  using assms(2)
proof (induction "length (fu_rest d) - fu_buf_avail d" arbitrary: s d rule: less_induct)
  case less
  show ?case
  proof (cases "m \<le> fu_buf_avail d \<and> asdf_scan_tokens (fu_window d) ts \<noteq> None")
    case True
    then obtain off t where "asdf_scan_tokens (fu_window d) ts = Some (off, t)" by auto
    from file_scan_loop_hit [OF u less.prems this] show ?thesis by (auto simp: scan_result_def)
  next
    case False
    then have "m \<le> fu_buf_avail d \<Longrightarrow> asdf_scan_tokens (fu_window d) ts = None" by blast
    from file_scan_loop_miss [OF u less.prems this] obtain k c s1 d1 where
      k: "k \<le> length (fu_rest d)" "capture_cap s \<le> c"
        "\<forall>off < k. \<forall>t \<in> set ts. \<not> token_at (fu_rest d) off t"
        "s1 = s\<lparr>capture_buf := cap_append (capture_buf s) (take k (fu_rest d)), capture_cap := c\<rparr>"
        "file_scan_loop s d ts m =
          (if fu_buf_avail d1 < m then Some (None, s1, d1) else file_scan_loop s1 d1 ts m)"
      and nx: "if fu_buf_avail d1 < m then length (fu_rest d) - k < m
         else scan_ready m s1 d1 \<and> fu_rest d1 = drop k (fu_rest d) \<and>
           fu_file_pos d1 = fu_file_pos d + k \<and>
           length (fu_rest d1) - fu_buf_avail d1 < length (fu_rest d) - fu_buf_avail d"
      by blast
    note skip = scan_skip [OF k(3,1)] and rskip = scan_result_skip [OF k(3,1)]
    show ?thesis
    proof (cases "fu_buf_avail d1 < m")
      case True
      then have "asdf_scan_tokens (drop k (fu_rest d)) ts = None"
        using nx by (intro scan_short_None [OF u]) simp
      with skip k(5) True show ?thesis by (simp add: scan_result_def)
    next
      case cont: False
      with nx have d1: "scan_ready m s1 d1" "fu_rest d1 = drop k (fu_rest d)"
          "fu_file_pos d1 = fu_file_pos d + k"
          "length (fu_rest d1) - fu_buf_avail d1 < length (fu_rest d) - fu_buf_avail d"
        by (auto simp only: if_False)
      from less.hyps [OF d1(4,1)] obtain s' d' where
        IH: "file_scan_loop s1 d1 ts m = Some (scan_result ts (fu_rest d1) (fu_file_pos d1), s', d')"
          "\<And>off t. asdf_scan_tokens (fu_rest d1) ts = Some (off, t) \<Longrightarrow> scanned s1 d1 m off s' d'"
        by blast
      have "scanned s d m off s' d'" if "asdf_scan_tokens (fu_rest d) ts = Some (off, t)" for off t
      proof -
        from skip that obtain o1 where
          o1: "asdf_scan_tokens (fu_rest d1) ts = Some (o1, t)" "off = k + o1"
          unfolding d1(2) by (cases "asdf_scan_tokens (drop k (fu_rest d)) ts") auto
        show ?thesis
          using scanned_shift [OF IH(2) [OF o1(1)] d1(2,3) k(1,4,2)] by (simp add: o1(2))
      qed
      with k(5) cont IH(1) rskip [of "fu_file_pos d"] d1(2,3) show ?thesis by auto
    qed
  qed
qed

section \<open>Properties\<close>

text \<open>C19. Scanning a buffered file for tokens of one length, with the buffer at its start, gives the
  result of scanning all that is left of the file at once, however the file is cut into buffers: the
  position of the leftmost match and the token. On a match the stream stands at it, the rest and the
  position are right, and a running capture received exactly the bytes before the match.\<close>

theorem file_scan_whole_rest:
  assumes "uniform m ts" and "scan_ready m s d"
  shows "\<exists>s' d'. file_scan s d ts = Some (scan_result ts (fu_rest d) (fu_file_pos d), s', d') \<and>
    (\<forall>off t. asdf_scan_tokens (fu_rest d) ts = Some (off, t) \<longrightarrow> scanned s d m off s' d')"
proof -
  have "max_token_len ts = m" "m \<noteq> 0"
    using max_token_len_uniform [OF assms(1)] assms(1) by (auto simp: uniform_def)
  then show ?thesis using file_scan_loop_uniform [OF assms] by (simp add: file_scan_def)
qed

definition sample_userdata :: file_userdata where
  "sample_userdata = (case userdata sample_file_stream of FileData d \<Rightarrow> d)"

lemma sample_scan_ready: "scan_ready 2 sample_file_stream sample_userdata"
  "fu_rest sample_userdata = [1, 2, 3, 4, 5]" "fu_file_pos sample_userdata = 0"
  by (simp_all add: sample_userdata_def sample_file_stream_def asdf_stream_from_fp_def ctx_alloc_def
      asdf_context_retain_def scan_ready_def fu_ok_def fu_rest_def fu_window_def cap_room_def)

theorem file_scan_whole_rest_witness:
  "\<exists>s' d'. file_scan sample_file_stream sample_userdata [[9, 9], [4, 5]] = Some (Some (3, 1), s', d') \<and>
    fu_rest d' = [4, 5]"
proof -
  have u: "uniform 2 [[9, 9], [4, 5]]" by (simp add: uniform_def)
  have sc: "asdf_scan_tokens [1, 2, 3, 4, 5] [[9, 9], [4, 5]] = Some (3, 1)"
    by (simp add: asdf_scan_tokens_def token_at_def)
  from file_scan_whole_rest [OF u sample_scan_ready(1)] obtain s' d' where
    r: "file_scan sample_file_stream sample_userdata [[9, 9], [4, 5]] =
        Some (scan_result [[9, 9], [4, 5]] [1, 2, 3, 4, 5] 0, s', d')"
      "scanned sample_file_stream sample_userdata 2 3 s' d'"
    using sc by (auto simp: sample_scan_ready(2,3))
  then show ?thesis using sc by (auto simp: scan_result_def scanned_def sample_scan_ready(2))
qed

end
