(* ===== verification/Asdf_Double.thy ===== *)
theory Asdf_Double
  imports Asdf_Prelude Complex_Main
begin

text \<open>
  The C type \<^verbatim>\<open>double\<close> as IEEE 754 binary64: a finite value is the rational it stands for, zero has
  a sign, and the results of the operations are the exact results rounded to the nearest double,
  ties to even. \<^verbatim>\<open>strtod\<close> is correctly rounded. This is what the code uses of the language; nothing
  of the repository is modelled here.
\<close>

section \<open>Doubles and rounding\<close>

datatype double = Fin rat | MinusZero | Inf bool | NaN

text \<open>The argument of \<^const>\<open>Inf\<close> tells whether the infinity is negative.\<close>

definition round_even :: "rat \<Rightarrow> int" where
  "round_even x = (let f = \<lfloor>x\<rfloor>; d = x - of_int f in
     if d < 1 / 2 then f else if d > 1 / 2 then f + 1 else if even f then f else f + 1)"

fun bit_len :: "nat \<Rightarrow> nat" where
  "bit_len n = (if n = 0 then 0 else Suc (bit_len (n div 2)))"

declare bit_len.simps [simp del]

text \<open>The exponent of the leading binary digit of a positive rational.\<close>

definition rat_log2 :: "rat \<Rightarrow> int" where
  "rat_log2 q = (let (a, b) = quotient_of q; k = int (bit_len (nat a)) - int (bit_len (nat b)) in
     if q < 2 powi k then k - 1 else k)"

definition zero_of :: "bool \<Rightarrow> double" where
  "zero_of neg = (if neg then MinusZero else Fin 0)"

text \<open>The double nearest to a magnitude, with a sign.\<close>

definition double_of :: "bool \<Rightarrow> rat \<Rightarrow> double" where
  "double_of neg q =
     (if q = 0 then zero_of neg
      else let e = max (rat_log2 q - 52) (- 1074);
               r = of_int (round_even (q / 2 powi e)) * 2 powi e in
        if r \<ge> 2 ^ 1024 then Inf neg
        else if r = 0 then zero_of neg
        else Fin (if neg then - r else r))"

definition double_of_rat :: "rat \<Rightarrow> double" where
  "double_of_rat q = double_of (q < 0) \<bar>q\<bar>"

section \<open>Operations\<close>

fun d_neg :: "double \<Rightarrow> double" where
  "d_neg (Fin q) = (if q = 0 then MinusZero else Fin (- q))"
| "d_neg MinusZero = Fin 0"
| "d_neg (Inf n) = Inf (\<not> n)"
| "d_neg NaN = NaN"

fun d_rat :: "double \<Rightarrow> rat" where
  "d_rat (Fin q) = q"
| "d_rat _ = 0"

fun d_isneg :: "double \<Rightarrow> bool" where
  "d_isneg (Fin q) = (q < 0)"
| "d_isneg MinusZero = True"
| "d_isneg (Inf n) = n"
| "d_isneg NaN = False"

fun d_isinf :: "double \<Rightarrow> bool" where
  "d_isinf (Inf _) = True"
| "d_isinf _ = False"

fun d_add :: "double \<Rightarrow> double \<Rightarrow> double" where
  "d_add NaN _ = NaN"
| "d_add _ NaN = NaN"
| "d_add (Inf a) (Inf b) = (if a = b then Inf a else NaN)"
| "d_add (Inf a) _ = Inf a"
| "d_add _ (Inf b) = Inf b"
| "d_add MinusZero MinusZero = MinusZero"
| "d_add x y = double_of_rat (d_rat x + d_rat y)"

fun d_mul :: "double \<Rightarrow> double \<Rightarrow> double" where
  "d_mul NaN _ = NaN"
| "d_mul _ NaN = NaN"
| "d_mul (Inf a) y = (if d_rat y = 0 \<and> \<not> d_isinf y then NaN else Inf (a \<noteq> d_isneg y))"
| "d_mul x (Inf b) = (if d_rat x = 0 then NaN else Inf (d_isneg x \<noteq> b))"
| "d_mul x y = double_of (d_isneg x \<noteq> d_isneg y) \<bar>d_rat x * d_rat y\<bar>"

section \<open>Small integers are exact\<close>

lemma round_even_int [simp]: "round_even (of_int n) = n"
  by (simp add: round_even_def)

lemma bit_len_bounds: "n > 0 \<Longrightarrow> 2 ^ (bit_len n - 1) \<le> n \<and> n < 2 ^ bit_len n \<and> bit_len n > 0"
proof (induction n rule: bit_len.induct)
  case (1 n)
  show ?case
  proof (cases "n div 2 = 0")
    case True
    with 1 show ?thesis by (simp add: bit_len.simps [of n] bit_len.simps [of 0])
  next
    case False
    with 1 have IH: "2 ^ (bit_len (n div 2) - 1) \<le> n div 2" "n div 2 < 2 ^ bit_len (n div 2)" "bit_len (n div 2) > 0"
      by auto
    have b: "bit_len n = Suc (bit_len (n div 2))" using 1 by (simp add: bit_len.simps [of n])
    have "2 * 2 ^ (bit_len (n div 2) - 1) \<le> n" using IH(1) by linarith
    moreover have "2 * 2 ^ (bit_len (n div 2) - 1) = (2 :: nat) ^ bit_len (n div 2)"
      using IH(3) by (cases "bit_len (n div 2)") auto
    moreover have "n < 2 * 2 ^ bit_len (n div 2)" using IH(2) by linarith
    ultimately show ?thesis by (simp add: b)
  qed
qed

lemma rat_log2_int:
  assumes "n > 0"
  shows "rat_log2 (of_nat n) = int (bit_len n) - 1"
proof -
  have q: "quotient_of (of_nat n) = (int n, 1)"
    using quotient_of_int [of "int n"] by simp
  have k: "bit_len (Suc 0) = 1" by (simp add: bit_len.simps)
  have b: "n < 2 ^ bit_len n" "2 ^ (bit_len n - 1) \<le> n" "bit_len n > 0" using bit_len_bounds [OF assms] by auto
  have "\<not> (of_nat n :: rat) < 2 powi (int (bit_len n) - 1)"
  proof -
    have "(2 :: rat) powi (int (bit_len n) - 1) = of_nat (2 ^ (bit_len n - 1))"
      using b(3) by (simp add: power_int_def nat_diff_distrib)
    then show ?thesis using b(2) by (simp only: of_nat_less_iff not_less)
  qed
  with k show ?thesis by (simp add: rat_log2_def q Let_def)
qed

text \<open>Integers of at most 53 bits are doubles.\<close>

lemma double_of_small:
  assumes "n < 2 ^ 53"
  shows "double_of neg (of_nat n) = (if n = 0 then zero_of neg else Fin (if neg then - of_nat n else of_nat n))"
proof (cases "n = 0")
  case False
  define e where "e = max (rat_log2 (of_nat n :: rat) - 52) (- 1074)"
  have l: "rat_log2 (of_nat n) = int (bit_len n) - 1" using False rat_log2_int by simp
  have b: "2 ^ (bit_len n - 1) \<le> n" "bit_len n > 0" using bit_len_bounds [of n] False by auto
  have "bit_len n - 1 < 53"
  proof (rule ccontr)
    assume "\<not> bit_len n - 1 < 53"
    then have "(2 :: nat) ^ 53 \<le> 2 ^ (bit_len n - 1)" by (intro power_increasing) auto
    with b(1) assms show False by simp
  qed
  then have e: "e \<le> 0" by (simp add: e_def l)
  have d: "(of_nat n :: rat) / 2 powi e = of_int (int n * 2 ^ nat (- e))"
    using e by (simp add: power_int_def field_simps)
  have r: "of_int (round_even ((of_nat n :: rat) / 2 powi e)) * 2 powi e = (of_nat n :: rat)"
    unfolding d round_even_int using e by (simp add: power_int_def field_simps)
  have "(of_nat n :: rat) < of_nat (2 ^ 53)" using assms by (simp only: of_nat_less_iff)
  also have "of_nat (2 ^ 53) \<le> (2 :: rat) ^ 1024" by simp
  finally have "\<not> (of_nat n :: rat) \<ge> 2 ^ 1024" by simp
  with False r show ?thesis
    by (simp add: double_of_def Let_def flip: e_def)
qed (simp add: double_of_def)

end
