(* ===== verification/Asdf_Yaml_Scalar.thy ===== *)
theory Asdf_Yaml_Scalar
  imports Asdf_Version Asdf_Double
begin

text \<open>
  The resolution of plain YAML 1.1 scalars: the second part of \<^verbatim>\<open>src/yaml.c\<close>. A scalar of length
  \<^verbatim>\<open>len\<close> is the list of its bytes, and a pair of pointers \<^verbatim>\<open>ptr\<close>, \<^verbatim>\<open>end\<close> into it is the list of the bytes
  between them; reads outside are \<^term>\<open>None\<close>. The heap decides which allocations succeed, \<open>dp\<close> is the
  decimal point of the locale.
\<close>

section \<open>Data\<close>

datatype asdf_value_err =
    ASDF_VALUE_ERR_UNKNOWN
  | ASDF_VALUE_ERR_NOT_FOUND
  | ASDF_VALUE_OK
  | ASDF_VALUE_ERR_TYPE_MISMATCH
  | ASDF_VALUE_ERR_PARSE_FAILURE
  | ASDF_VALUE_ERR_EMIT_FAILURE
  | ASDF_VALUE_ERR_OVERFLOW
  | ASDF_VALUE_ERR_OOM
  | ASDF_VALUE_ERR_READ_ONLY

section \<open>Null and bool\<close>

definition scalar_equals :: "bytes \<Rightarrow> string \<Rightarrow> bool" where
  "scalar_equals scalar str \<longleftrightarrow> scalar = bytes_of str"

definition asdf_yaml_scalar_is_null :: "bytes option \<Rightarrow> bool" where
  "asdf_yaml_scalar_is_null scalar =
     (case scalar of
        None \<Rightarrow> True
      | Some s \<Rightarrow> s = [] \<or> scalar_equals s ''null'' \<or> scalar_equals s ''Null'' \<or>
          scalar_equals s ''NULL'' \<or> scalar_equals s ''~'')"

definition yaml_true_strs :: "string list" where
  "yaml_true_strs = [''true'', ''True'', ''TRUE'', ''yes'', ''Yes'', ''YES'', ''on'', ''On'', ''ON'']"

definition yaml_false_strs :: "string list" where
  "yaml_false_strs = [''false'', ''False'', ''FALSE'', ''no'', ''No'', ''NO'', ''off'', ''Off'', ''OFF'']"

text \<open>The value, if the scalar is a bool.\<close>

definition asdf_yaml_scalar_is_bool :: "bytes option \<Rightarrow> bool option" where
  "asdf_yaml_scalar_is_bool scalar =
     (case scalar of
        None \<Rightarrow> None
      | Some s \<Rightarrow>
          if length s = 1 \<and> s ! 0 = 48 then Some False
          else if length s = 1 \<and> s ! 0 = 49 then Some True
          else if list_ex (scalar_equals s) yaml_true_strs then Some True
          else if list_ex (scalar_equals s) yaml_false_strs then Some False
          else None)"

section \<open>Ints\<close>

definition RADIX_BIN :: nat where "RADIX_BIN = 2"
definition RADIX_OCT :: nat where "RADIX_OCT = 8"
definition RADIX_DEC :: nat where "RADIX_DEC = 10"
definition RADIX_HEX :: nat where "RADIX_HEX = 16"
definition RADIX_SEXAGESIMAL :: nat where "RADIX_SEXAGESIMAL = 60"

definition is_xdigit :: "byte \<Rightarrow> bool" where
  "is_xdigit b \<longleftrightarrow> is_digit b \<or> 97 \<le> b \<and> b \<le> 102 \<or> 65 \<le> b \<and> b \<le> 70"

definition is_digit_in_base :: "byte \<Rightarrow> nat \<Rightarrow> bool" where
  "is_digit_in_base chr base =
     (if base = RADIX_BIN then chr = 48 \<or> chr = 49
      else if base = RADIX_OCT then 48 \<le> chr \<and> chr \<le> 55
      else if base = RADIX_HEX then is_xdigit chr
      else is_digit chr)"

fun span_digits :: "nat \<Rightarrow> bytes \<Rightarrow> nat" where
  "span_digits base [] = 0"
| "span_digits base (c # cs) =
     (if c = 95 \<or> is_digit_in_base c base then Suc (span_digits base cs) else 0)"

fun span_base60 :: "bytes \<Rightarrow> nat" where
  "span_base60 (c # d # cs) =
     (if c = 58 \<and> is_digit d then
        (case cs of
           e # es \<Rightarrow> if is_digit e then (if d > 53 then 0 else 3 + span_base60 es)
                     else 2 + span_base60 cs
         | [] \<Rightarrow> 2)
      else 0)"
| "span_base60 _ = 0"

fun copy_digits :: "bytes option \<Rightarrow> bytes \<Rightarrow> bytes" where
  "copy_digits dp [] = []"
| "copy_digits dp (c # cs) =
     (if c = 95 then copy_digits dp cs
      else (case dp of Some p \<Rightarrow> if c = 46 then p else [c] | None \<Rightarrow> [c]) @ copy_digits dp cs)"

definition digit_val :: "byte \<Rightarrow> nat" where
  "digit_val c = (if is_digit c then unat c - 48 else if c \<ge> 97 then unat c - 87 else unat c - 55)"

definition radix_val :: "nat \<Rightarrow> bytes \<Rightarrow> nat" where
  "radix_val base ds = foldl (\<lambda>a c. a * base + digit_val c) 0 ds"

text \<open>\<^verbatim>\<open>strtoull\<close> on digits of the base: the value, or the largest one and \<^verbatim>\<open>ERANGE\<close>.\<close>

definition strtoull :: "nat \<Rightarrow> bytes \<Rightarrow> u64 \<times> bool" where
  "strtoull base ds =
     (let v = radix_val base ds in if v < 2 ^ 64 then (of_nat v, False) else (- 1, True))"

definition parse_uint_digits :: "heap \<Rightarrow> bytes \<Rightarrow> nat \<Rightarrow> u64 \<Rightarrow> (asdf_value_err \<times> u64) \<times> heap" where
  "parse_uint_digits h cs base m =
     (let (ok, h) = alloc h; digits = copy_digits None cs in
      if \<not> ok then ((ASDF_VALUE_ERR_OOM, m), h)
      else if digits = [] then ((ASDF_VALUE_ERR_PARSE_FAILURE, m), h)
      else let (v, erange) = strtoull base digits in
        ((if erange then ASDF_VALUE_ERR_OVERFLOW else ASDF_VALUE_OK, v), h))"

text \<open>The loop over the base 60 components; it stands on the colon of one.\<close>

fun base60_loop :: "bytes \<Rightarrow> u64 \<Rightarrow> (asdf_value_err \<times> u64) option" where
  "base60_loop [] m = Some (ASDF_VALUE_OK, m)"
| "base60_loop [_] m = None"
| "base60_loop [_, d] m =
     (let comp = ucast (d - 48) in
      if m > (- 1 - comp) div 60 then Some (ASDF_VALUE_ERR_OVERFLOW, m)
      else Some (ASDF_VALUE_OK, m * 60 + comp))"
| "base60_loop (_ # d # e # cs) m =
     (let comp = (if e \<noteq> 58 then ucast (d - 48) * 10 + ucast (e - 48) else ucast (d - 48)) in
      if m > (- 1 - comp) div 60 then Some (ASDF_VALUE_ERR_OVERFLOW, m)
      else base60_loop (if e \<noteq> 58 then cs else e # cs) (m * 60 + comp))"

definition int_sign :: "bytes \<Rightarrow> bool \<times> bytes" where
  "int_sign s = (case s of c # cs \<Rightarrow> if c = 45 \<or> c = 43 then (c = 45, cs) else (False, s) | [] \<Rightarrow> (False, []))"

text \<open>A leading zero with more behind it: binary, hexadecimal or octal.\<close>

definition scalar_radix :: "bytes \<Rightarrow> nat \<times> bytes" where
  "scalar_radix cs =
     (if cs ! 1 = 98 then (RADIX_BIN, drop 2 cs)
      else if cs ! 1 = 120 then (RADIX_HEX, drop 2 cs)
      else (RADIX_OCT, cs))"

text \<open>The error, the sign and the magnitude; \<open>m\<close> is what the magnitude was before.\<close>

definition asdf_yaml_scalar_is_int ::
  "heap \<Rightarrow> bytes option \<Rightarrow> u64 \<Rightarrow> ((asdf_value_err \<times> bool \<times> u64) \<times> heap) option" where
  "asdf_yaml_scalar_is_int h scalar m =
     (case scalar of
        None \<Rightarrow> Some ((ASDF_VALUE_ERR_UNKNOWN, False, m), h)
      | Some s \<Rightarrow>
          (let (negative, cs) = int_sign s in
           if cs = [] \<or> \<not> is_digit (cs ! 0) then Some ((ASDF_VALUE_ERR_PARSE_FAILURE, negative, m), h)
           else if cs ! 0 = 48 \<and> 1 < length cs then
             (let (base, digits) = scalar_radix cs in
              if span_digits base digits \<noteq> length digits
              then Some ((ASDF_VALUE_ERR_PARSE_FAILURE, negative, m), h)
              else let ((err, v), h) = parse_uint_digits h digits base m in Some ((err, negative, v), h))
           else
             (let n = span_digits RADIX_DEC cs; tl = drop n cs in
              if tl = [] then
                (let ((err, v), h) = parse_uint_digits h cs RADIX_DEC m in Some ((err, negative, v), h))
              else if cs ! 0 = 48 \<or> span_base60 tl \<noteq> length tl
              then Some ((ASDF_VALUE_ERR_PARSE_FAILURE, negative, m), h)
              else let ((err, v), h) = parse_uint_digits h (take n cs) RADIX_DEC m in
                if err \<noteq> ASDF_VALUE_OK then Some ((err, negative, v), h)
                else do { (err, v) \<leftarrow> base60_loop tl v; Some ((err, negative, v), h) })))"

section \<open>Floats\<close>

definition is_yaml_special_float :: "bytes \<Rightarrow> double option" where
  "is_yaml_special_float s =
     (let signed = (length s = 5 \<and> (s ! 0 = 45 \<or> s ! 0 = 43));
          sign = (if signed then s ! 0 else 0);
          s = (if signed then tl s else s) in
      if length s \<noteq> 4 then None
      else if s = bytes_of ''.inf'' \<or> s = bytes_of ''.Inf'' \<or> s = bytes_of ''.INF'' then Some (Inf (sign = 45))
      else if sign \<noteq> 0 then None
      else if s = bytes_of ''.nan'' \<or> s = bytes_of ''.NaN'' \<or> s = bytes_of ''.NAN'' then Some NaN
      else None)"

definition skip_sign :: "bytes \<Rightarrow> bytes" where
  "skip_sign s = (case s of c # cs \<Rightarrow> if c = 45 \<or> c = 43 then cs else s | [] \<Rightarrow> [])"

definition span_decimal_int :: "bytes \<Rightarrow> nat" where
  "span_decimal_int s = (if s = [] \<or> \<not> is_digit (s ! 0) then 0 else span_digits RADIX_DEC s)"

definition span_exponent :: "bytes \<Rightarrow> nat" where
  "span_exponent s =
     (if s = [] \<or> s ! 0 \<noteq> 101 \<and> s ! 0 \<noteq> 69 then 0
      else let digits = skip_sign (tl s); n = length (takeWhile is_digit digits) in
        if n = 0 then 0 else length s - length digits + n)"

definition is_decimal_float :: "bytes \<Rightarrow> bool \<Rightarrow> bool" where
  "is_decimal_float scalar allow_int =
     (let s = skip_sign scalar;
          int_len = span_decimal_int s;
          s = drop int_len s;
          has_decimal = (s \<noteq> [] \<and> s ! 0 = 46) in
      if has_decimal \<and> int_len = 0 \<and> span_decimal_int (tl s) = 0 then False
      else if \<not> has_decimal \<and> int_len = 0 then False
      else let s = (if has_decimal then drop (span_digits RADIX_DEC (tl s)) (tl s) else s);
               exp_len = span_exponent s;
               s = drop exp_len s in
        s = [] \<and> (has_decimal \<or> exp_len > 0 \<or> allow_int))"

definition is_base60_float :: "bytes \<Rightarrow> bool" where
  "is_base60_float scalar =
     (let s = skip_sign scalar;
          int_len = span_decimal_int s;
          s = drop int_len s;
          base60_len = span_base60 s;
          s = drop base60_len s in
      int_len \<noteq> 0 \<and> base60_len \<noteq> 0 \<and> s \<noteq> [] \<and> s ! 0 = 46 \<and>
      span_digits RADIX_DEC (tl s) = length (tl s))"

text \<open>\<^verbatim>\<open>strtod\<close> on decimal text: an optional sign, digits with an optional decimal point, an optional
  exponent; the magnitude is rounded once. The flag tells whether the result overflowed.\<close>

definition strtod_exp :: "bytes \<Rightarrow> int" where
  "strtod_exp s =
     (if s \<noteq> [] \<and> (s ! 0 = 101 \<or> s ! 0 = 69) then
        (let ds = takeWhile is_digit (skip_sign (tl s)); e = int (radix_val 10 ds) in
         if tl s \<noteq> [] \<and> tl s ! 0 = 45 then - e else e)
      else 0)"

definition strtod :: "bytes \<Rightarrow> bytes \<Rightarrow> double \<times> bool" where
  "strtod dp s =
     (let neg = (s \<noteq> [] \<and> s ! 0 = 45);
          s = skip_sign s;
          ints = takeWhile is_digit s;
          s = dropWhile is_digit s;
          has_point = (take (length dp) s = dp);
          fracs = (if has_point then takeWhile is_digit (drop (length dp) s) else []);
          s = (if has_point then dropWhile is_digit (drop (length dp) s) else s) in
      if ints = [] \<and> fracs = [] then (Fin 0, False)
      else let d = double_of neg (of_nat (radix_val 10 (ints @ fracs)) * 10 powi (strtod_exp s - int (length fracs))) in
        (d, d_isinf d))"

definition parse_float_digits :: "bytes \<Rightarrow> heap \<Rightarrow> bytes \<Rightarrow> double \<Rightarrow> (asdf_value_err \<times> double) \<times> heap" where
  "parse_float_digits dp h cs d =
     (let (ok, h) = alloc h in
      if \<not> ok then ((ASDF_VALUE_ERR_OOM, d), h)
      else let (v, erange) = strtod dp (copy_digits (Some dp) cs) in
        ((if erange then ASDF_VALUE_ERR_OVERFLOW else ASDF_VALUE_OK, v), h))"

function base60_float_loop ::
  "bytes \<Rightarrow> heap \<Rightarrow> bytes \<Rightarrow> double \<Rightarrow> (asdf_value_err \<times> double) \<times> heap" where
  "base60_float_loop dp h cs d =
     (if cs = [] then ((ASDF_VALUE_OK, d), h)
      else let comp = takeWhile (\<lambda>c. c \<noteq> 58) cs; ((err, v), h) = parse_float_digits dp h comp (Fin 0) in
        if err \<noteq> ASDF_VALUE_OK then ((err, d), h)
        else base60_float_loop dp h (drop (Suc (length comp)) cs) (d_add (d_mul d (Fin 60)) v))"
  by pat_completeness auto
termination
  by (relation "measure (\<lambda>(_, _, cs, _). length cs)") auto

declare base60_float_loop.simps [simp del]

definition parse_base60_float :: "bytes \<Rightarrow> heap \<Rightarrow> bytes \<Rightarrow> (asdf_value_err \<times> double) \<times> heap" where
  "parse_base60_float dp h scalar =
     (let ((err, d), h) = base60_float_loop dp h (skip_sign scalar) (Fin 0) in
      if err \<noteq> ASDF_VALUE_OK then ((err, d), h)
      else let d = (if scalar \<noteq> [] \<and> scalar ! 0 = 45 then d_neg d else d) in
        ((if d_isinf d then ASDF_VALUE_ERR_OVERFLOW else ASDF_VALUE_OK, d), h))"

definition asdf_yaml_scalar_is_float ::
  "bytes \<Rightarrow> heap \<Rightarrow> bytes option \<Rightarrow> bool \<Rightarrow> double \<Rightarrow> (asdf_value_err \<times> double) \<times> heap" where
  "asdf_yaml_scalar_is_float dp h scalar allow_int d =
     (case scalar of
        None \<Rightarrow> ((ASDF_VALUE_ERR_UNKNOWN, d), h)
      | Some s \<Rightarrow>
          if is_decimal_float s allow_int then parse_float_digits dp h s d
          else (case is_yaml_special_float s of
            Some v \<Rightarrow> ((ASDF_VALUE_OK, v), h)
          | None \<Rightarrow> if is_base60_float s then parse_base60_float dp h s
                    else ((ASDF_VALUE_ERR_PARSE_FAILURE, d), h)))"

section \<open>Strings that need quotes, and numbers\<close>

definition YEAR_DIGITS :: nat where "YEAR_DIGITS = 4"

text \<open>\<^verbatim>\<open>span_digits\<close> over \<open>n\<close> bytes of memory, which may end earlier.\<close>

definition span_digits_mem :: "nat \<Rightarrow> bytes \<Rightarrow> nat \<Rightarrow> nat option" where
  "span_digits_mem base mem n =
     (if n \<le> length mem \<or> span_digits base mem < length mem
      then Some (span_digits base (take n mem)) else None)"

text \<open>The words that are read as something else, by libasdf or by another reader.\<close>

definition ambiguous_word :: "bytes \<Rightarrow> bool" where
  "ambiguous_word s \<longleftrightarrow>
     asdf_yaml_scalar_is_null (Some s) \<or> 1 < length s \<and> asdf_yaml_scalar_is_bool (Some s) \<noteq> None \<or>
     scalar_equals s ''<<'' \<or> scalar_equals s ''='' \<or>
     length s = 1 \<and> (s ! 0 \<in> set (bytes_of ''yYnN'') \<or> s ! 0 = 0)"

definition number_head :: "bytes \<Rightarrow> bool" where
  "number_head s \<longleftrightarrow> is_digit (s ! 0) \<or> s ! 0 = 45 \<or> s ! 0 = 43 \<or> s ! 0 = 46"

definition yaml_1_2_octal :: "bytes \<Rightarrow> bool" where
  "yaml_1_2_octal s \<longleftrightarrow>
     (let t = skip_sign s in 2 < length t \<and> t ! 0 = 48 \<and> t ! 1 = 111 \<and>
        span_digits RADIX_OCT (drop 2 t) = length t - 2)"

definition ambiguous_number :: "bytes \<Rightarrow> heap \<Rightarrow> bytes \<Rightarrow> bytes \<Rightarrow> (bool \<times> heap) option" where
  "ambiguous_number dp h mem s = do {
     ((err, _), h) \<leftarrow> asdf_yaml_scalar_is_int h (Some s) 0;
     if err \<noteq> ASDF_VALUE_ERR_PARSE_FAILURE then Some (True, h)
     else do {
       let ((err, _), h) = asdf_yaml_scalar_is_float dp h (Some s) True (Fin 0);
       if err \<noteq> ASDF_VALUE_ERR_PARSE_FAILURE then Some (True, h)
       else if yaml_1_2_octal s then Some (True, h)
       else do {
         digits \<leftarrow> span_digits_mem RADIX_DEC mem YEAR_DIGITS;
         Some (length s > YEAR_DIGITS \<and> digits = YEAR_DIGITS \<and> s ! YEAR_DIGITS = 45, h)
       }
     }
   }"

text \<open>The string is the first \<open>len\<close> bytes of the memory behind the pointer.\<close>

definition asdf_yaml_string_is_ambiguous ::
  "bytes \<Rightarrow> heap \<Rightarrow> bytes \<Rightarrow> nat \<Rightarrow> (bool \<times> heap) option" where
  "asdf_yaml_string_is_ambiguous dp h mem len = do {
     s \<leftarrow> mem_read mem 0 len;
     if ambiguous_word s then Some (True, h)
     else if s = [] \<or> \<not> number_head s then Some (False, h)
     else ambiguous_number dp h mem s
   }"

definition asdf_yaml_scalar_is_number :: "bytes \<Rightarrow> heap \<Rightarrow> bytes option \<Rightarrow> (bool \<times> heap) option" where
  "asdf_yaml_scalar_is_number dp h scalar =
     (if scalar = None \<or> scalar = Some [] then Some (False, h)
      else do {
        ((is_int, _), h) \<leftarrow> asdf_yaml_scalar_is_int h scalar 0;
        let ((is_float, _), h) = asdf_yaml_scalar_is_float dp h scalar False (Fin 0);
        Some (is_int \<noteq> ASDF_VALUE_ERR_PARSE_FAILURE \<or> is_float \<noteq> ASDF_VALUE_ERR_PARSE_FAILURE, h)
      })"

end
