(* ===== verification/Asdf_Yaml_Scalar_Laws.thy ===== *)
theory Asdf_Yaml_Scalar_Laws
  imports Asdf_Yaml_Scalar
begin

text \<open>
  What the scalar resolver of \<^verbatim>\<open>src/yaml.c\<close> guarantees: it reads only the scalar, decimal integers are
  read back exactly, base 60 integers are exact or reported as overflow, the float matcher accepts
  exactly its grammar, no scalar is both an int and a float, and a string that is not ambiguous is
  read as a string.
\<close>

section \<open>Spans\<close>

definition dec_char :: "byte \<Rightarrow> bool" where
  "dec_char c \<longleftrightarrow> c = 95 \<or> is_digit c"

lemma span_digits_takeWhile: "span_digits base s = length (takeWhile (\<lambda>c. c = 95 \<or> is_digit_in_base c base) s)"
  by (induction s) auto

lemma span_digits_dec: "span_digits RADIX_DEC s = length (takeWhile dec_char s)"
  by (simp add: span_digits_takeWhile dec_char_def [abs_def] is_digit_in_base_def RADIX_DEC_def RADIX_BIN_def
      RADIX_OCT_def RADIX_HEX_def)

lemma drop_span_dec: "drop (length (takeWhile P s)) s = dropWhile P s"
  by (induction s) auto

lemma digit_dec_char: "is_digit c \<Longrightarrow> dec_char c"
  by (simp add: dec_char_def)

lemma span_digits_full: "span_digits base s = length s \<longleftrightarrow> list_all (\<lambda>c. c = 95 \<or> is_digit_in_base c base) s"
  by (induction s) auto

lemma span_base60_le: "span_base60 s \<le> length s"
  by (induction s rule: span_base60.induct) (auto split: list.splits)

lemma span_base60_head: "span_base60 s \<noteq> 0 \<Longrightarrow> s \<noteq> [] \<and> s ! 0 = 58"
  by (cases s rule: span_base60.cases) (auto split: list.splits if_splits)

section \<open>Ints\<close>

text \<open>The base 60 loop reads only what was matched.\<close>

lemma base60_loop_reads:
  "span_base60 cs = length cs \<Longrightarrow> \<exists>r. base60_loop cs m = Some r"
proof (induction cs m rule: base60_loop.induct)
  case (3 c d m)
  then show ?case by (simp add: Let_def)
next
  case (4 c d e cs m)
  show ?case
  proof (cases "is_digit e")
    case True
    then have "e \<noteq> 58" by (auto simp: is_digit_def)
    moreover have "span_base60 cs = length cs"
      using 4(2) True by (auto split: if_splits)
    ultimately show ?thesis using 4(1) by (simp add: Let_def)
  next
    case False
    then have l: "span_base60 (e # cs) = length (e # cs)" using 4(2) by (auto split: if_splits)
    then have "e = 58" using span_base60_head [of "e # cs"] by auto
    then show ?thesis using 4(1) l by (simp add: Let_def)
  qed
qed auto

lemma scalar_is_int_returns: "\<exists>r. asdf_yaml_scalar_is_int h scalar m = Some r"
proof (cases "asdf_yaml_scalar_is_int h scalar m")
  case None
  then have "\<exists>cs v. span_base60 cs = length cs \<and> base60_loop cs v = None"
    by (simp add: asdf_yaml_scalar_is_int_def Let_def bind_eq_None_conv del: length_drop
        split: option.splits prod.splits if_splits) blast
  then show ?thesis using base60_loop_reads by (metis option.distinct(1))
qed simp

text \<open>What stands behind the decimal digits of an int.\<close>

lemma int_not_failure:
  assumes "asdf_yaml_scalar_is_int h (Some s) m = Some ((err, r), h')"
    and "err \<noteq> ASDF_VALUE_ERR_PARSE_FAILURE"
  shows "\<exists>cs. cs = snd (int_sign s) \<and> cs \<noteq> [] \<and> is_digit (cs ! 0) \<and>
    (dropWhile dec_char cs = [] \<or> dropWhile dec_char cs ! 0 \<in> {98, 120} \<or>
     span_base60 (dropWhile dec_char cs) = length (dropWhile dec_char cs) \<and> dropWhile dec_char cs ! 0 = 58)"
proof -
  obtain neg cs where cs: "int_sign s = (neg, cs)" by (cases "int_sign s")
  have ne: "cs \<noteq> []" "is_digit (cs ! 0)"
    using assms by (auto simp: asdf_yaml_scalar_is_int_def cs Let_def split: if_splits)
  have "dropWhile dec_char cs = [] \<or> dropWhile dec_char cs ! 0 \<in> {98, 120} \<or>
     span_base60 (dropWhile dec_char cs) = length (dropWhile dec_char cs) \<and> dropWhile dec_char cs ! 0 = 58"
  proof (cases "cs ! 0 = 48 \<and> 1 < length cs")
    case True
    then obtain d ds where dd: "cs = 48 # d # ds" by (cases cs; cases "tl cs") auto
    obtain base digits where bd: "scalar_radix cs = (base, digits)" by (cases "scalar_radix cs")
    have full: "span_digits base digits = length digits"
      using assms True ne by (auto simp: asdf_yaml_scalar_is_int_def cs Let_def bd split: if_splits)
    have n48: "dec_char 48" by (simp add: dec_char_def is_digit_def)
    show ?thesis
    proof (cases "d = 98 \<or> d = 120")
      case True
      then have "\<not> dec_char d" by (auto simp: dec_char_def is_digit_def)
      then show ?thesis using True n48 by (auto simp: dd)
    next
      case False
      then have "base = RADIX_OCT" "digits = cs" using bd by (auto simp: scalar_radix_def dd)
      then have "list_all (\<lambda>c. c = 95 \<or> is_digit_in_base c RADIX_OCT) cs"
        using full span_digits_full by metis
      then have "list_all dec_char cs"
        by (rule list.pred_mono_strong)
           (auto simp: dec_char_def is_digit_in_base_def RADIX_OCT_def RADIX_BIN_def is_digit_def intro: order.trans)
      then show ?thesis by (auto simp: list_all_iff)
    qed
  next
    case False
    have "drop (span_digits RADIX_DEC cs) cs = dropWhile dec_char cs"
      by (simp add: span_digits_dec drop_span_dec)
    then have "dropWhile dec_char cs = [] \<or> span_base60 (dropWhile dec_char cs) = length (dropWhile dec_char cs)"
      using assms ne False by (auto simp: asdf_yaml_scalar_is_int_def cs Let_def split: if_splits)
    then show ?thesis using span_base60_head by fastforce
  qed
  with ne show ?thesis by (simp add: cs)
qed

lemma int_sign_skip: "snd (int_sign s) = skip_sign s"
  by (simp add: int_sign_def skip_sign_def split: list.splits)

lemma special_words: "bytes_of ''.inf'' ! 0 = 46" "bytes_of ''.Inf'' ! 0 = 46" "bytes_of ''.INF'' ! 0 = 46"
  "bytes_of ''.nan'' ! 0 = 46" "bytes_of ''.NaN'' ! 0 = 46" "bytes_of ''.NAN'' ! 0 = 46"
  by (simp_all add: bytes_of_def of_char_def)

lemma special_float_dot:
  assumes "is_yaml_special_float s = Some v"
  shows "skip_sign s ! 0 = 46"
proof (cases "length s = 5 \<and> (s ! 0 = 45 \<or> s ! 0 = 43)")
  case True
  then have "skip_sign s = tl s" by (auto simp: skip_sign_def split: list.splits)
  moreover have "tl s ! 0 = 46"
    using assms True special_words by (auto simp: is_yaml_special_float_def Let_def split: if_splits)
  ultimately show ?thesis by simp
next
  case False
  then have "s ! 0 = 46"
    using assms special_words by (auto simp: is_yaml_special_float_def Let_def split: if_splits)
  then show ?thesis by (cases s) (simp_all add: skip_sign_def)
qed

text \<open>An int is no float.\<close>

lemma int_no_float:
  assumes "asdf_yaml_scalar_is_int h (Some s) m = Some ((err, r), h')"
    and "err \<noteq> ASDF_VALUE_ERR_PARSE_FAILURE"
  shows "\<not> is_decimal_float s False" "is_yaml_special_float s = None" "\<not> is_base60_float s"
proof -
  define cs where "cs = skip_sign s"
  from int_not_failure [OF assms] have cs: "cs \<noteq> []" "is_digit (cs ! 0)"
    and d: "dropWhile dec_char cs = [] \<or> dropWhile dec_char cs ! 0 \<in> {98, 120} \<or>
     span_base60 (dropWhile dec_char cs) = length (dropWhile dec_char cs) \<and> dropWhile dec_char cs ! 0 = 58"
    by (auto simp: int_sign_skip cs_def)
  have sp: "span_decimal_int cs = length (takeWhile dec_char cs)" "span_decimal_int cs \<noteq> 0"
    using cs by (auto simp: span_decimal_int_def span_digits_dec digit_dec_char neq_Nil_conv)
  have dr: "drop (span_decimal_int cs) cs = dropWhile dec_char cs" by (simp add: sp(1) drop_span_dec)
  have nodot: "\<not> (dropWhile dec_char cs \<noteq> [] \<and> dropWhile dec_char cs ! 0 = 46)" using d by auto
  have noexp: "span_exponent (dropWhile dec_char cs) = 0" using d by (auto simp: span_exponent_def)
  show "\<not> is_decimal_float s False"
    using nodot noexp sp(2) by (auto simp: is_decimal_float_def Let_def dr cs_def [symmetric])
  have b60: "drop (span_base60 (dropWhile dec_char cs)) (dropWhile dec_char cs) = [] \<or>
      span_base60 (dropWhile dec_char cs) = 0"
    using d span_base60_head [of "dropWhile dec_char cs"] by fastforce
  then show "\<not> is_base60_float s"
    by (auto simp: is_base60_float_def Let_def dr cs_def [symmetric] simp del: drop_drop drop_eq_Nil)
  have "cs ! 0 \<noteq> 46" using cs(2) by (auto simp: is_digit_def)
  then show "is_yaml_special_float s = None"
    using special_float_dot [of s] by (cases "is_yaml_special_float s") (auto simp: cs_def)
qed

section \<open>The grammar of decimal floats\<close>

text \<open>An optional sign; a mantissa with digits before the point or behind it; an optional exponent.
  The point or the exponent is there, unless integers are allowed.\<close>

definition sign_text :: "bytes \<Rightarrow> bool" where
  "sign_text sg \<longleftrightarrow> sg \<in> {[], [45], [43]}"

definition int_text :: "bytes \<Rightarrow> bool" where
  "int_text ds \<longleftrightarrow> ds \<noteq> [] \<and> is_digit (hd ds) \<and> list_all dec_char ds"

definition exp_text :: "bytes \<Rightarrow> bool" where
  "exp_text e \<longleftrightarrow> (\<exists>c sg ds. e = c # sg @ ds \<and> c \<in> {101, 69} \<and> sign_text sg \<and> ds \<noteq> [] \<and> list_all is_digit ds)"

definition decimal_text :: "bool \<Rightarrow> bytes \<Rightarrow> bool" where
  "decimal_text allow_int s \<longleftrightarrow> (\<exists>sg i f e. s = sg @ i @ f @ e \<and> sign_text sg \<and>
     (i = [] \<or> int_text i) \<and> (f = [] \<or> (\<exists>fs. f = 46 # fs \<and> list_all dec_char fs \<and> (i = [] \<longrightarrow> int_text fs))) \<and>
     (e = [] \<or> exp_text e) \<and> (i \<noteq> [] \<or> f \<noteq> []) \<and> (f \<noteq> [] \<or> e \<noteq> [] \<or> allow_int))"

lemma skip_sign_split: "\<exists>sg. sign_text sg \<and> s = sg @ skip_sign s"
  by (cases s) (auto simp: skip_sign_def sign_text_def)

lemma skip_sign_append:
  "sign_text sg \<Longrightarrow> t = [] \<or> t ! 0 \<notin> {45, 43} \<Longrightarrow> skip_sign (sg @ t) = t"
  by (cases t) (auto simp: skip_sign_def sign_text_def)

lemma length_skip_sign: "length (skip_sign s) \<le> length s"
  by (simp add: skip_sign_def split: list.splits)

lemma length_takeWhile_all: "length xs \<le> length (takeWhile P xs) \<longleftrightarrow> list_all P xs"
  by (induction xs) auto

lemma digit_no_sign: "is_digit c \<Longrightarrow> c \<notin> {45, 43, 46, 58, 101, 69}"
  by (auto simp: is_digit_def)

lemma dec_char_other: "dec_char c \<Longrightarrow> c \<notin> {45, 43, 46, 58, 101, 69}"
  by (auto simp: dec_char_def is_digit_def)

lemma dec_char_simps [simp]: "\<not> dec_char 46" "\<not> dec_char 58" "\<not> is_digit 46"
  by (simp_all add: dec_char_def is_digit_def)

lemma exp_text_Cons:
  "exp_text (c # cs) \<longleftrightarrow> c \<in> {101, 69} \<and> skip_sign cs \<noteq> [] \<and> list_all is_digit (skip_sign cs)"
proof
  assume "exp_text (c # cs)"
  then obtain sg ds where e: "cs = sg @ ds" "c \<in> {101, 69}" "sign_text sg" "ds \<noteq> []" "list_all is_digit ds"
    by (auto simp: exp_text_def)
  then have "ds ! 0 \<notin> {45, 43}" using digit_no_sign by (cases ds) auto
  with e show "c \<in> {101, 69} \<and> skip_sign cs \<noteq> [] \<and> list_all is_digit (skip_sign cs)"
    by (simp add: skip_sign_append)
next
  assume "c \<in> {101, 69} \<and> skip_sign cs \<noteq> [] \<and> list_all is_digit (skip_sign cs)"
  then show "exp_text (c # cs)" using skip_sign_split [of cs] unfolding exp_text_def by blast
qed

lemma span_exponent_all: "length s \<le> span_exponent s \<longleftrightarrow> s = [] \<or> exp_text s"
proof (cases s)
  case (Cons c cs)
  have "length (takeWhile is_digit (skip_sign cs)) \<le> length (skip_sign cs)" by (rule length_takeWhile_le)
  then show ?thesis
    using length_takeWhile_all [of "skip_sign cs" is_digit] length_skip_sign [of cs]
    by (auto simp: Cons span_exponent_def Let_def exp_text_Cons)
qed (simp add: span_exponent_def)

lemma span_exponent_pos: "length s \<le> span_exponent s \<Longrightarrow> span_exponent s > 0 \<longleftrightarrow> s \<noteq> []"
  by (cases s) (auto simp: span_exponent_def)

lemma int_span: "span_decimal_int s = (if s \<noteq> [] \<and> is_digit (s ! 0) then length (takeWhile dec_char s) else 0)"
  by (simp add: span_decimal_int_def span_digits_dec)

text \<open>The parts of a mantissa and an exponent, without a sign.\<close>

definition decimal_parts :: "bool \<Rightarrow> bytes \<Rightarrow> bytes \<Rightarrow> bytes \<Rightarrow> bool" where
  "decimal_parts allow_int i f e \<longleftrightarrow> (i = [] \<or> int_text i) \<and>
     (f = [] \<or> (\<exists>fs. f = 46 # fs \<and> list_all dec_char fs \<and> (i = [] \<longrightarrow> int_text fs))) \<and>
     (e = [] \<or> exp_text e) \<and> (i \<noteq> [] \<or> f \<noteq> []) \<and> (f \<noteq> [] \<or> e \<noteq> [] \<or> allow_int)"

lemma decimal_text_parts:
  "decimal_text allow_int s \<longleftrightarrow> (\<exists>sg i f e. s = sg @ i @ f @ e \<and> sign_text sg \<and> decimal_parts allow_int i f e)"
  unfolding decimal_text_def decimal_parts_def by blast

lemma exp_text_head: "e = [] \<or> exp_text e \<Longrightarrow> takeWhile dec_char e = [] \<and> (e \<noteq> [] \<longrightarrow> e ! 0 \<noteq> 46)"
  by (cases e) (auto simp: exp_text_Cons dest: dec_char_other)

lemma takeWhile_int:
  assumes "list_all P i" and "takeWhile P r = []"
  shows "takeWhile P (i @ r) = i" "dropWhile P (i @ r) = r"
proof -
  have "dropWhile P r = r" using assms(2) by (cases r) (auto split: if_splits)
  with assms show "takeWhile P (i @ r) = i" "dropWhile P (i @ r) = r" by (auto simp: list_all_iff)
qed

lemma decimal_parts_head:
  "decimal_parts allow_int i f e \<Longrightarrow> i @ f @ e = [] \<or> (i @ f @ e) ! 0 \<notin> {45, 43}"
  by (cases i) (auto simp: decimal_parts_def int_text_def dest: digit_no_sign)

lemma int_parts_span:
  assumes "decimal_parts allow_int i f e"
  shows "span_decimal_int (i @ f @ e) = length i"
proof -
  have "takeWhile dec_char (f @ e) = []"
    using assms exp_text_head [of e] by (auto simp: decimal_parts_def dest: dec_char_other)
  then show ?thesis
    using assms takeWhile_int [of dec_char i "f @ e"]
    by (cases i) (auto simp: int_span decimal_parts_def int_text_def dest: digit_no_sign)
qed

text \<open>The matcher in terms of what stands behind the integer part.\<close>

lemma is_decimal_float_dot:
  assumes "skip_sign s = i @ 46 # fs" and "span_decimal_int (i @ 46 # fs) = length i"
  shows "is_decimal_float s allow_int \<longleftrightarrow> (i \<noteq> [] \<or> span_decimal_int fs \<noteq> 0) \<and>
    length (dropWhile dec_char fs) \<le> span_exponent (dropWhile dec_char fs)"
  by (simp add: is_decimal_float_def Let_def assms span_digits_dec drop_span_dec)

lemma is_decimal_float_no_dot:
  assumes "skip_sign s = i @ r" and "span_decimal_int (i @ r) = length i" and "r = [] \<or> r ! 0 \<noteq> 46"
  shows "is_decimal_float s allow_int \<longleftrightarrow> i \<noteq> [] \<and> length r \<le> span_exponent r \<and> (r \<noteq> [] \<or> allow_int)"
proof -
  have sp: "span_decimal_int (skip_sign s) = length i" "drop (length i) (skip_sign s) = r"
    using assms(1,2) by simp_all
  have "\<not> (r \<noteq> [] \<and> r ! 0 = 46)" using assms(3) by blast
  then have "is_decimal_float s allow_int \<longleftrightarrow> i \<noteq> [] \<and> length r \<le> span_exponent r \<and> (span_exponent r > 0 \<or> allow_int)"
    by (auto simp: is_decimal_float_def Let_def sp)
  with span_exponent_pos [of r] show ?thesis by auto
qed

lemma decimal_parts_accepted:
  assumes "decimal_parts allow_int i f e" and sg: "sign_text sg"
  shows "is_decimal_float (sg @ i @ f @ e) allow_int"
proof -
  have sk: "skip_sign (sg @ i @ f @ e) = i @ f @ e"
    by (rule skip_sign_append [OF sg decimal_parts_head [OF assms(1)]])
  note sp = int_parts_span [OF assms(1)]
  have e: "length e \<le> span_exponent e" "takeWhile dec_char e = []" "e = [] \<or> e ! 0 \<noteq> 46"
    using assms(1) span_exponent_all exp_text_head by (auto simp: decimal_parts_def)
  show ?thesis
  proof (cases f)
    case Nil
    with is_decimal_float_no_dot [of _ i e] sk sp e assms(1) show ?thesis
      by (auto simp: decimal_parts_def)
  next
    case (Cons c fs)
    then have fs: "c = 46" "list_all dec_char fs" "i = [] \<longrightarrow> int_text fs"
      using assms(1) by (auto simp: decimal_parts_def)
    note tw = takeWhile_int [OF fs(2) e(2)]
    have "i \<noteq> [] \<or> span_decimal_int (fs @ e) \<noteq> 0"
      using fs(3) tw by (cases fs) (auto simp: int_span int_text_def)
    with is_decimal_float_dot [of _ i "fs @ e"] sk sp e(1) tw(2) show ?thesis
      by (simp add: Cons fs(1))
  qed
qed

lemma span_decimal_int_text: "take (span_decimal_int t) t = [] \<or> int_text (take (span_decimal_int t) t)"
  using takeWhile_eq_take [of dec_char t]
  by (cases t) (auto simp: int_span int_text_def list_all_iff digit_dec_char dest: set_takeWhileD)

lemma decimal_float_parts:
  assumes "is_decimal_float s allow_int"
  shows "\<exists>i f e. skip_sign s = i @ f @ e \<and> decimal_parts allow_int i f e"
proof -
  define t where "t = skip_sign s"
  define i where "i = take (span_decimal_int t) t"
  define r where "r = drop (span_decimal_int t) t"
  have t: "skip_sign s = i @ r" by (simp add: i_def r_def t_def)
  have i: "i = [] \<or> int_text i" unfolding i_def by (rule span_decimal_int_text)
  have "span_decimal_int t \<le> length t" by (simp add: int_span length_takeWhile_le)
  then have sp: "span_decimal_int (i @ r) = length i" by (simp add: i_def r_def)
  show ?thesis
  proof (cases "r = [] \<or> r ! 0 \<noteq> 46")
    case True
    then have "decimal_parts allow_int i [] r"
      using assms is_decimal_float_no_dot [OF t sp] i span_exponent_all [of r] by (auto simp: decimal_parts_def)
    then show ?thesis using t by (metis append_Nil)
  next
    case False
    then obtain fs where fs: "r = 46 # fs" by (cases r) auto
    define f where "f = takeWhile dec_char fs"
    define e where "e = dropWhile dec_char fs"
    have a: "i \<noteq> [] \<or> span_decimal_int fs \<noteq> 0" "length e \<le> span_exponent e"
      using assms is_decimal_float_dot [OF t [unfolded fs] sp [unfolded fs]] by (auto simp: e_def)
    have "i = [] \<longrightarrow> int_text f"
      using a(1) span_decimal_int_text [of fs] takeWhile_eq_take [of dec_char fs]
      by (auto simp: f_def int_span split: if_splits)
    then have "decimal_parts allow_int i (46 # f) e"
      using a(2) i span_exponent_all [of e]
      by (auto simp: decimal_parts_def f_def list_all_iff dest: set_takeWhileD)
    moreover have "skip_sign s = i @ (46 # f) @ e" by (simp add: t fs f_def e_def)
    ultimately show ?thesis by blast
  qed
qed

lemma is_decimal_float_iff: "is_decimal_float s allow_int \<longleftrightarrow> decimal_text allow_int s"
proof
  assume "is_decimal_float s allow_int"
  then show "decimal_text allow_int s"
    using decimal_float_parts skip_sign_split [of s] unfolding decimal_text_parts by metis
next
  assume "decimal_text allow_int s"
  then show "is_decimal_float s allow_int"
    using decimal_parts_accepted unfolding decimal_text_parts by blast
qed

section \<open>Decimal ints\<close>

lemma copy_digits_id: "95 \<notin> set cs \<Longrightarrow> copy_digits None cs = cs"
  by (induction cs) auto

lemma radix_val_digits: "list_all is_digit ds \<Longrightarrow> radix_val 10 ds = digits_val ds"
proof -
  have "foldl (\<lambda>a c. a * 10 + digit_val c) n ds = foldl (\<lambda>a b. a * 10 + (unat b - 48)) n ds"
    if "list_all is_digit ds" for n using that
    by (induction ds arbitrary: n) (auto simp: digit_val_def)
  then show "list_all is_digit ds \<Longrightarrow> radix_val 10 ds = digits_val ds"
    by (simp add: radix_val_def digits_val_def mult.commute)
qed

lemma dec_no_leading_zero: "dec n ! 0 = 48 \<Longrightarrow> length (dec n) = 1"
proof (induction n rule: dec.induct)
  case (1 n)
  show ?case
  proof (cases "n < 10")
    case False
    have d: "dec n = dec (n div 10) @ [of_nat (48 + n mod 10)]" using False by (subst dec.simps) simp
    have ne: "dec (n div 10) \<noteq> []" using dec_digits by blast
    then have "dec (n div 10) ! 0 = 48" using 1(2) by (simp add: d nth_append)
    then have "length (dec (n div 10)) = 1" using 1(1) False by simp
    then have "dec (n div 10) = [48]" using \<open>dec (n div 10) ! 0 = 48\<close> by (cases "dec (n div 10)") auto
    then have "n div 10 = digits_val [48]" using dec_digits [of "n div 10"] by simp
    then show ?thesis using False by (simp add: digits_val_def)
  qed (simp add: dec.simps)
qed

lemma dec_all_digits: "list_all is_digit (dec n)" "dec n \<noteq> []"
  using dec_digits [of n] by (auto simp: list_all_iff)

lemma parse_uint_dec:
  "parse_uint_digits h (dec n) RADIX_DEC m = (let (ok, h') = alloc h in
     if \<not> ok then ((ASDF_VALUE_ERR_OOM, m), h')
     else if n < 2 ^ 64 then ((ASDF_VALUE_OK, of_nat n), h') else ((ASDF_VALUE_ERR_OVERFLOW, - 1), h'))"
proof -
  have "95 \<notin> set (dec n)" using dec_all_digits(1) [of n] by (auto simp: list_all_iff is_digit_def)
  then show ?thesis
    using dec_digits [of n] radix_val_digits [OF dec_all_digits(1), of n]
    by (simp add: parse_uint_digits_def copy_digits_id strtoull_def RADIX_DEC_def Let_def split: prod.splits)
qed

lemma is_int_dec:
  assumes "sign_text sg"
  shows "asdf_yaml_scalar_is_int h (Some (sg @ dec n)) m =
    (let ((err, v), h') = parse_uint_digits h (dec n) RADIX_DEC m in Some ((err, sg = [45], v), h'))"
proof -
  obtain c cs where d: "dec n = c # cs" using dec_all_digits(2) [of n] by (cases "dec n") auto
  have c: "is_digit c" "list_all dec_char (dec n)"
    using dec_all_digits(1) [of n] by (auto simp: d list_all_iff digit_dec_char)
  have sg: "int_sign (sg @ dec n) = (sg = [45], dec n)"
    using assms digit_no_sign [OF c(1)] by (auto simp: int_sign_def sign_text_def d)
  have full: "span_digits RADIX_DEC (dec n) = length (dec n)"
    using c(2) length_takeWhile_all [of "dec n" dec_char] length_takeWhile_le [of dec_char "dec n"]
    by (simp add: span_digits_dec)
  have z: "\<not> (dec n ! 0 = 48 \<and> 1 < length (dec n))" using dec_no_leading_zero [of n] by auto
  have ne: "\<not> (dec n = [] \<or> \<not> is_digit (dec n ! 0))" using c(1) by (simp add: d)
  show ?thesis
    unfolding asdf_yaml_scalar_is_int_def option.case sg Let_def prod.case if_not_P [OF z] if_not_P [OF ne] full
    by simp
qed

section \<open>Base 60 ints\<close>

text \<open>A component of one or two digits, and the value of a run of them behind a magnitude.\<close>

definition comp_text :: "nat \<times> bool \<Rightarrow> bytes" where
  "comp_text = (\<lambda>(n, pad). 58 # (if n < 10 \<and> \<not> pad then [of_nat (48 + n)]
     else [of_nat (48 + n div 10), of_nat (48 + n mod 10)]))"

definition base60_val :: "nat \<Rightarrow> nat list \<Rightarrow> nat" where
  "base60_val v ns = foldl (\<lambda>a n. a * 60 + n) v ns"

lemma digit_ucast: "d < 10 \<Longrightarrow> ucast ((of_nat (48 + d) :: byte) - 48) = (of_nat d :: u64)"
proof -
  assume "d < 10"
  then have "unat (of_nat d :: byte) = d" by (simp add: unat_of_nat)
  moreover have "ucast (of_nat d :: byte) = (of_nat (unat (of_nat d :: byte)) :: u64)" by simp
  ultimately show ?thesis by simp
qed

lemma base60_val_ge: "v \<le> base60_val v ns"
  unfolding base60_val_def
proof (induction ns arbitrary: v)
  case (Cons n ns)
  have "v \<le> v * 60 + n" by simp
  with Cons [of "v * 60 + n"] show ?case by (simp add: order.trans)
qed simp

lemma overflow_test:
  assumes "v < 2 ^ 64" and "n < 60"
  shows "(of_nat v :: u64) > (- 1 - of_nat n) div 60 \<longleftrightarrow> 2 ^ 64 \<le> v * 60 + n"
proof -
  have "unat ((- 1 :: u64) - of_nat n) = 2 ^ 64 - 1 - n"
    using assms(2) by (subst unat_sub) (simp_all add: word_le_nat_alt unat_of_nat unsigned_minus_1_eq_mask mask_eq_exp_minus_1)
  then have "unat (((- 1 :: u64) - of_nat n) div 60) = (2 ^ 64 - 1 - n) div 60"
    by (simp add: unat_div)
  moreover have "unat (of_nat v :: u64) = v" using assms(1) by (simp add: unat_of_nat)
  ultimately have "(of_nat v :: u64) > (- 1 - of_nat n) div 60 \<longleftrightarrow> (2 ^ 64 - 1 - n) div 60 < v"
    by (simp add: word_less_nat_alt)
  also have "\<dots> \<longleftrightarrow> 2 ^ 64 \<le> v * 60 + n"
    using assms(2) by (simp add: div_less_iff_less_mult) linarith
  finally show ?thesis .
qed

lemma base60_loop_one:
  "r = [] \<or> r ! 0 = 58 \<Longrightarrow> base60_loop (c # d # r) m =
    (if m > (- 1 - ucast (d - 48)) div 60 then Some (ASDF_VALUE_ERR_OVERFLOW, m)
     else base60_loop r (m * 60 + ucast (d - 48)))"
  by (cases r) (auto simp: Let_def)

lemma base60_loop_two:
  "e \<noteq> 58 \<Longrightarrow> base60_loop (c # d # e # r) m =
    (if m > (- 1 - (ucast (d - 48) * 10 + ucast (e - 48))) div 60 then Some (ASDF_VALUE_ERR_OVERFLOW, m)
     else base60_loop r (m * 60 + (ucast (d - 48) * 10 + ucast (e - 48))))"
  by (simp add: Let_def)

lemma comps_head: "concat (map comp_text cs) = [] \<or> concat (map comp_text cs) ! 0 = 58"
  by (cases cs) (auto simp: comp_text_def)

lemma base60_step:
  assumes "n < 60"
  shows "base60_loop (comp_text (n, pad) @ concat (map comp_text cs)) m =
    (if m > (- 1 - of_nat n) div 60 then Some (ASDF_VALUE_ERR_OVERFLOW, m)
     else base60_loop (concat (map comp_text cs)) (m * 60 + of_nat n))"
proof -
  have two: "of_nat (n div 10) * 10 + of_nat (n mod 10) = (of_nat n :: u64)"
    by (metis div_mult_mod_eq of_nat_add of_nat_mult of_nat_numeral)
  have d: "n div 10 < 10" "n mod 10 < 10" using assms by auto
  have n58: "(of_nat (48 + n mod 10) :: byte) \<noteq> 58"
    using digit_code [OF d(2)] by (auto simp: is_digit_def)
  show ?thesis
  proof (cases "n < 10 \<and> \<not> pad")
    case True
    then have "comp_text (n, pad) = [58, of_nat (48 + n)]" by (simp add: comp_text_def)
    then show ?thesis
      using base60_loop_one [OF comps_head, of 58 "of_nat (48 + n)" cs m] True digit_ucast [of n] by simp
  next
    case False
    then have "comp_text (n, pad) = [58, of_nat (48 + n div 10), of_nat (48 + n mod 10)]"
      by (auto simp: comp_text_def)
    then show ?thesis
      using base60_loop_two [OF n58, of 58 "of_nat (48 + n div 10)" "concat (map comp_text cs)" m]
        digit_ucast [OF d(1)] digit_ucast [OF d(2)] two by simp
  qed
qed

lemma base60_loop_exact:
  assumes "v < 2 ^ 64" and "list_all (\<lambda>(n, _). n < 60) cs"
  shows "\<exists>m. base60_loop (concat (map comp_text cs)) (of_nat v) =
    Some (if base60_val v (map fst cs) < 2 ^ 64 then (ASDF_VALUE_OK, of_nat (base60_val v (map fst cs)))
          else (ASDF_VALUE_ERR_OVERFLOW, m))"
  using assms
proof (induction cs arbitrary: v)
  case Nil
  then show ?case by (simp add: base60_val_def)
next
  case (Cons c cs)
  obtain n pad where c: "c = (n, pad)" by (cases c)
  then have n: "n < 60" using Cons.prems by simp
  have val: "base60_val v (map fst (c # cs)) = base60_val (v * 60 + n) (map fst cs)"
    by (simp add: base60_val_def c)
  note step = base60_step [OF n, of pad cs "of_nat v"] overflow_test [OF Cons.prems(1) n]
  show ?case
  proof (cases "2 ^ 64 \<le> v * 60 + n")
    case True
    then have "\<not> base60_val v (map fst (c # cs)) < 2 ^ 64"
      using base60_val_ge [of "v * 60 + n" "map fst cs"] val by simp
    then show ?thesis using step True by (simp add: c)
  next
    case False
    then show ?thesis
      using Cons.IH [of "v * 60 + n"] Cons.prems(2) step val by (auto simp: c)
  qed
qed

section \<open>Strings that need no quotes\<close>

lemma base60_float_loop_error:
  "base60_float_loop dp h cs d = ((err, v), h') \<Longrightarrow> err \<noteq> ASDF_VALUE_ERR_PARSE_FAILURE"
proof (induction dp h cs d arbitrary: err v h' rule: base60_float_loop.induct)
  case (1 dp h cs d)
  then show ?case
    by (subst (asm) (2) base60_float_loop.simps)
       (auto simp: Let_def parse_float_digits_def split: prod.splits if_splits)
qed

lemma float_failure_iff:
  "fst (fst (asdf_yaml_scalar_is_float dp h (Some s) allow_int d)) = ASDF_VALUE_ERR_PARSE_FAILURE \<longleftrightarrow>
     \<not> is_decimal_float s allow_int \<and> is_yaml_special_float s = None \<and> \<not> is_base60_float s"
  using base60_float_loop_error
  by (auto simp: asdf_yaml_scalar_is_float_def parse_float_digits_def parse_base60_float_def Let_def
      split: option.splits prod.splits)

lemma decimal_float_allow: "is_decimal_float s a \<Longrightarrow> is_decimal_float s True"
  unfolding is_decimal_float_iff decimal_text_def by blast

lemma float_failure_mono:
  "fst (fst (asdf_yaml_scalar_is_float dp h (Some s) True d)) = ASDF_VALUE_ERR_PARSE_FAILURE \<Longrightarrow>
   fst (fst (asdf_yaml_scalar_is_float dp h' (Some s) a d')) = ASDF_VALUE_ERR_PARSE_FAILURE"
  using decimal_float_allow by (auto simp: float_failure_iff)

lemma no_number_head:
  assumes "s \<noteq> []" and "\<not> number_head s"
  shows "asdf_yaml_scalar_is_int h (Some s) m = Some ((ASDF_VALUE_ERR_PARSE_FAILURE, False, m), h)"
    and "\<not> is_decimal_float s a" "is_yaml_special_float s = None" "\<not> is_base60_float s"
proof -
  have sk: "skip_sign s = s" "int_sign s = (False, s)" using assms by (auto simp: skip_sign_def int_sign_def number_head_def neq_Nil_conv)
  have sp: "span_decimal_int s = 0" using assms by (simp add: span_decimal_int_def number_head_def)
  show "asdf_yaml_scalar_is_int h (Some s) m = Some ((ASDF_VALUE_ERR_PARSE_FAILURE, False, m), h)"
    using assms by (simp add: asdf_yaml_scalar_is_int_def sk number_head_def)
  show "\<not> is_decimal_float s a" "\<not> is_base60_float s"
    using assms by (auto simp: is_decimal_float_def is_base60_float_def Let_def sk sp number_head_def)
  show "is_yaml_special_float s = None"
    using special_float_dot [of s] assms sk unfolding number_head_def by (cases "is_yaml_special_float s") auto
qed

text \<open>The year test stays inside the string: a string of digits was taken for a number before.\<close>

lemma year_span_inside:
  assumes "s = take len mem" and "len \<le> length mem" and "s \<noteq> []"
    and "number_head s" and "\<not> is_decimal_float s True"
  shows "\<exists>n. span_digits_mem RADIX_DEC mem YEAR_DIGITS = Some n"
proof (rule ccontr)
  assume "\<not> ?thesis"
  then have "length mem \<le> length (takeWhile dec_char mem)"
    by (auto simp: span_digits_mem_def span_digits_dec split: if_splits)
  then have "list_all dec_char mem" by (simp add: length_takeWhile_all)
  then have all: "list_all dec_char s" by (auto simp: assms(1) list_all_iff dest: in_set_takeD)
  then have "dec_char (s ! 0)" using assms(3) by (cases s) auto
  then have "is_digit (s ! 0)" using assms(4) dec_char_other by (auto simp: number_head_def)
  then have "decimal_parts True s [] []"
    using all assms(3) by (simp add: decimal_parts_def int_text_def hd_conv_nth)
  then have "is_decimal_float s True"
    using decimal_parts_accepted [of True s "[]" "[]" "[]"] by (simp add: sign_text_def)
  with assms(5) show False by simp
qed

lemma bool_one_char:
  "length s = 1 \<Longrightarrow> asdf_yaml_scalar_is_bool (Some s) \<noteq> None \<Longrightarrow> s = [48] \<or> s = [49]"
  by (cases s) (auto simp: asdf_yaml_scalar_is_bool_def yaml_true_strs_def yaml_false_strs_def
      scalar_equals_def bytes_of_def split: if_splits)

lemma unambiguous_no_bool:
  assumes "s \<noteq> []" and "\<not> ambiguous_word s" and "s \<noteq> [48]" and "s \<noteq> [49]"
  shows "asdf_yaml_scalar_is_bool (Some s) = None"
proof (rule ccontr)
  assume b: "asdf_yaml_scalar_is_bool (Some s) \<noteq> None"
  then have "\<not> 1 < length s" using assms(2) by (simp add: ambiguous_word_def)
  then have "length s = 1" using assms(1) by (cases s) auto
  from bool_one_char [OF this b] assms(3,4) show False by blast
qed

lemma one_digit_int:
  "s = [48] \<or> s = [49] \<Longrightarrow> asdf_yaml_scalar_is_int h (Some s) m = Some ((err, r), h') \<Longrightarrow>
     err \<noteq> ASDF_VALUE_ERR_PARSE_FAILURE"
  by (auto simp: asdf_yaml_scalar_is_int_def int_sign_def Let_def is_digit_def parse_uint_digits_def
      is_digit_in_base_def RADIX_DEC_def RADIX_BIN_def RADIX_OCT_def RADIX_HEX_def
      split: prod.splits if_splits)

definition resolves_as_string :: "bytes \<Rightarrow> heap \<Rightarrow> bytes \<Rightarrow> bool" where
  "resolves_as_string dp h s \<longleftrightarrow> \<not> asdf_yaml_scalar_is_null (Some s) \<and>
     asdf_yaml_scalar_is_bool (Some s) = None \<and>
     map_option (fst \<circ> fst) (asdf_yaml_scalar_is_int h (Some s) 0) = Some ASDF_VALUE_ERR_PARSE_FAILURE \<and>
     fst (fst (asdf_yaml_scalar_is_float dp h (Some s) False (Fin 0))) = ASDF_VALUE_ERR_PARSE_FAILURE"

lemma ambiguous_number_correct:
  assumes s: "s = take len mem" "len \<le> length mem" "s \<noteq> []" "number_head s" and w: "\<not> ambiguous_word s"
  shows "\<exists>amb h'. ambiguous_number dp h mem s = Some (amb, h') \<and> (\<not> amb \<longrightarrow> resolves_as_string dp h s)"
proof -
  obtain err r h1 where int: "asdf_yaml_scalar_is_int h (Some s) 0 = Some ((err, r), h1)"
    using scalar_is_int_returns [of h "Some s" 0] by auto
  obtain ferr v h2 where fl: "asdf_yaml_scalar_is_float dp h1 (Some s) True (Fin 0) = ((ferr, v), h2)"
    by (metis prod.exhaust)
  show ?thesis
  proof (cases "err = ASDF_VALUE_ERR_PARSE_FAILURE \<and> ferr = ASDF_VALUE_ERR_PARSE_FAILURE")
    case False
    then show ?thesis by (auto simp: ambiguous_number_def int fl)
  next
    case True
    then have nf: "\<not> is_decimal_float s True" "is_yaml_special_float s = None" "\<not> is_base60_float s"
      using float_failure_iff [of dp h1 s True "Fin 0"] by (simp_all add: fl)
    then obtain n where n: "span_digits_mem RADIX_DEC mem YEAR_DIGITS = Some n"
      using year_span_inside [OF s] by blast
    have "asdf_yaml_scalar_is_bool (Some s) = None"
      using unambiguous_no_bool [OF s(3) w] one_digit_int [OF _ int] True by blast
    then have "resolves_as_string dp h s"
      using True w nf decimal_float_allow [of s False]
      by (auto simp: resolves_as_string_def int float_failure_iff ambiguous_word_def)
    with True n show ?thesis by (auto simp: ambiguous_number_def int fl)
  qed
qed

lemma ambiguous_correct:
  assumes "len \<le> length mem"
  shows "\<exists>amb h'. asdf_yaml_string_is_ambiguous dp h mem len = Some (amb, h') \<and>
    (\<not> amb \<longrightarrow> resolves_as_string dp h (take len mem))"
proof -
  define s where "s = take len mem"
  have rd: "mem_read mem 0 len = Some s" using assms by (simp add: mem_read_def s_def)
  show ?thesis
  proof (cases "ambiguous_word s \<or> number_head s")
    case True
    have "s = [] \<longrightarrow> ambiguous_word s" by (auto simp: ambiguous_word_def asdf_yaml_scalar_is_null_def)
    with True ambiguous_number_correct [OF s_def assms] show ?thesis
      by (auto simp: asdf_yaml_string_is_ambiguous_def rd s_def [symmetric])
  next
    case False
    then have ne: "s \<noteq> []" by (auto simp: ambiguous_word_def asdf_yaml_scalar_is_null_def)
    have bool: "asdf_yaml_scalar_is_bool (Some s) = None"
      by (rule unambiguous_no_bool [OF ne]) (use False in \<open>auto simp: number_head_def is_digit_def\<close>)
    have "resolves_as_string dp h s"
      using no_number_head [OF ne] False bool
      by (auto simp: resolves_as_string_def float_failure_iff ambiguous_word_def)
    with False show ?thesis by (auto simp: asdf_yaml_string_is_ambiguous_def rd s_def [symmetric])
  qed
qed

section \<open>Properties\<close>

text \<open>C24. The test for strings that must be quoted reads nothing outside the string but its terminating
  zero, whatever the bytes and the outcome of the allocations, and it is sound: a string it lets pass
  unquoted is resolved neither as null nor as a bool, an int or a float when it is read back.\<close>

theorem unquoted_strings_stay_strings:
  assumes "len \<le> length mem"
  shows "\<exists>amb h'. asdf_yaml_string_is_ambiguous dp h mem len = Some (amb, h') \<and>
    (\<not> amb \<longrightarrow> resolves_as_string dp h (take len mem))"
  by (rule ambiguous_correct [OF assms])

theorem unquoted_strings_stay_strings_witness:
  "\<exists>amb h'. asdf_yaml_string_is_ambiguous [46] [] (bytes_of ''-1a'') 3 = Some (amb, h') \<and>
    (\<not> amb \<longrightarrow> resolves_as_string [46] [] (bytes_of ''-1a''))"
  using unquoted_strings_stay_strings [of 3 "bytes_of ''-1a''" "[46]" "[]"] by (simp add: bytes_of_def)

text \<open>Every decimal integer is read back exactly, with its sign, up to the largest 64-bit magnitude,
  and a larger one is reported as an overflow with the largest magnitude.\<close>

theorem decimal_int_roundtrip:
  assumes "sign_text sg"
  shows "asdf_yaml_scalar_is_int [] (Some (sg @ dec n)) m =
    Some (if n < 2 ^ 64 then (ASDF_VALUE_OK, sg = [45], of_nat n)
          else (ASDF_VALUE_ERR_OVERFLOW, sg = [45], - 1), [])"
  using is_int_dec [OF assms, of "[]" n m] by (simp add: parse_uint_dec)

theorem decimal_int_roundtrip_witness:
  "asdf_yaml_scalar_is_int [] (Some ([45] @ dec 1234)) 0 = Some ((ASDF_VALUE_OK, True, 1234), [])"
  using decimal_int_roundtrip [of "[45]" 1234 0] by (simp add: sign_text_def)

text \<open>The components of a base 60 integer are added up exactly, and the overflow test at each of
  them reports an overflow exactly when the whole value does not fit in 64 bits.\<close>

theorem base60_exact_or_overflow:
  assumes "v < 2 ^ 64" and "list_all (\<lambda>(n, _). n < 60) cs"
  shows "\<exists>m. base60_loop (concat (map comp_text cs)) (of_nat v) =
    Some (if base60_val v (map fst cs) < 2 ^ 64 then (ASDF_VALUE_OK, of_nat (base60_val v (map fst cs)))
          else (ASDF_VALUE_ERR_OVERFLOW, m))"
  by (rule base60_loop_exact [OF assms])

theorem base60_exact_or_overflow_witness:
  "base60_loop (comp_text (30, True) @ comp_text (5, False)) 1 = Some (ASDF_VALUE_OK, 5405)"
  using base60_exact_or_overflow [of 1 "[(30, True), (5, False)]"] by (simp add: base60_val_def)

text \<open>C33. The matcher for decimal floats accepts exactly the scalars of its grammar: an optional sign,
  a mantissa that starts with a digit or with a point and a digit, an optional exponent with at least
  one digit, and a point or an exponent unless integers are allowed.\<close>

theorem decimal_float_grammar: "is_decimal_float s allow_int \<longleftrightarrow> decimal_text allow_int s"
  by (rule is_decimal_float_iff)

text \<open>No scalar is resolved both as an int and as a float: what is taken for an int, in range or not,
  is refused by the float matcher.\<close>

theorem ints_are_not_floats:
  assumes "asdf_yaml_scalar_is_int h (Some s) m = Some ((err, r), h')"
    and "err \<noteq> ASDF_VALUE_ERR_PARSE_FAILURE"
  shows "fst (fst (asdf_yaml_scalar_is_float dp h'' (Some s) False d)) = ASDF_VALUE_ERR_PARSE_FAILURE"
  using int_no_float [OF assms] by (simp add: float_failure_iff)

theorem ints_are_not_floats_witness:
  "fst (fst (asdf_yaml_scalar_is_float [46] [] (Some (dec 7)) False (Fin 0))) = ASDF_VALUE_ERR_PARSE_FAILURE"
proof -
  have "asdf_yaml_scalar_is_int [] (Some (dec 7)) 0 = Some ((ASDF_VALUE_OK, False, 7), [])"
    using is_int_dec [of "[]" "[]" 7 0] by (simp add: sign_text_def parse_uint_dec)
  then show ?thesis by (rule ints_are_not_floats) simp
qed

end
