(* ===== verification/Asdf_Yaml_Path.thy ===== *)
theory Asdf_Yaml_Path
  imports Asdf_Yaml_Scalar_Laws
begin

text \<open>
  Tags and paths: the first and the last part of \<^verbatim>\<open>src/yaml.c\<close>. A C string is the list of its bytes
  before the terminating zero; a pointer into it is the list of the bytes from there on. The type
  \<^verbatim>\<open>char\<close> is signed, as on the platforms where the test for a closing bracket works.
\<close>

section \<open>Tags\<close>

record asdf_yaml_tag_handle =
  th_handle :: bytes
  th_prefix :: bytes

definition asdf_yaml_tag_prefix :: bytes where
  "asdf_yaml_tag_prefix = bytes_of ''tag:''"

definition ASDF_YAML_DEFAULT_TAG_HANDLE :: bytes where
  "ASDF_YAML_DEFAULT_TAG_HANDLE = bytes_of ''!''"

definition ASDF_STANDARD_TAG_PREFIX :: bytes where
  "ASDF_STANDARD_TAG_PREFIX = bytes_of ''tag:stsci.edu:asdf/''"

definition asdf_yaml_tag_canonicalize :: "heap \<Rightarrow> bytes \<Rightarrow> bytes option \<times> heap" where
  "asdf_yaml_tag_canonicalize h tag =
     (let (ok, h) = alloc h in
      if \<not> ok then (None, h)
      else if take 4 tag \<noteq> asdf_yaml_tag_prefix then (Some (asdf_yaml_tag_prefix @ tag), h)
      else (Some tag, h))"

record tag_search =
  ts_handle :: "asdf_yaml_tag_handle option"
  ts_prefix_len :: nat
  ts_longest :: nat
  ts_default :: bool

definition tag_search_step :: "bytes \<Rightarrow> asdf_yaml_tag_handle \<Rightarrow> tag_search \<Rightarrow> tag_search" where
  "tag_search_step tag th st =
     (let n = length (th_prefix th);
          hit = (take n tag = th_prefix th \<and> ts_longest st < n) in
      \<lparr>ts_handle = (if hit then Some th else ts_handle st),
       ts_prefix_len = n,
       ts_longest = (if hit then n else ts_longest st),
       ts_default = (ts_default st \<or> th_handle th = ASDF_YAML_DEFAULT_TAG_HANDLE)\<rparr>)"

definition tag_search_all :: "bytes \<Rightarrow> asdf_yaml_tag_handle list \<Rightarrow> tag_search" where
  "tag_search_all tag handles = fold (tag_search_step tag) handles
     \<lparr>ts_handle = None, ts_prefix_len = 0, ts_longest = 0, ts_default = False\<rparr>"

text \<open>The text behind the handle; a pointer behind the terminating zero is \<^term>\<open>None\<close>.\<close>

definition tag_suffix :: "bytes \<Rightarrow> nat \<Rightarrow> bytes option" where
  "tag_suffix tag n = (if n \<le> length tag then Some (drop n tag) else None)"

definition asdf_yaml_tag_normalize ::
  "heap \<Rightarrow> bytes \<Rightarrow> asdf_yaml_tag_handle list \<Rightarrow> (bytes option \<times> heap) option" where
  "asdf_yaml_tag_normalize h tag handles =
     (case asdf_yaml_tag_canonicalize h tag of
        (None, h) \<Rightarrow> Some (None, h)
      | (Some canonical, h) \<Rightarrow>
          (let st = tag_search_all canonical handles;
               retry = (ts_handle st = None \<and> \<not> ts_default st);
               n = (if retry then length ASDF_STANDARD_TAG_PREFIX else ts_prefix_len st);
               handle = (if retry \<and> take n canonical = ASDF_STANDARD_TAG_PREFIX
                         then Some ASDF_YAML_DEFAULT_TAG_HANDLE
                         else map_option th_handle (ts_handle st)) in
           do {
             t \<leftarrow> (case handle of
                     None \<Rightarrow> Some (bytes_of ''!<'' @ canonical @ bytes_of ''>'')
                   | Some hn \<Rightarrow> do { r \<leftarrow> tag_suffix canonical n; Some (hn @ r) });
             let (ok, h) = alloc h;
             Some (if ok \<and> t \<noteq> [] then Some t else None, h)
           }))"

section \<open>Paths\<close>

datatype asdf_yaml_pc_target =
    ASDF_YAML_PC_TARGET_ANY
  | ASDF_YAML_PC_TARGET_MAP
  | ASDF_YAML_PC_TARGET_SEQ

record asdf_yaml_path_component =
  pc_target :: asdf_yaml_pc_target
  pc_key :: bytes
  pc_index :: int

definition is_space :: "byte \<Rightarrow> bool" where
  "is_space b \<longleftrightarrow> b = 32 \<or> 9 \<le> b \<and> b \<le> 13"

definition skip_whitespace :: "bytes \<Rightarrow> bytes" where
  "skip_whitespace s = dropWhile is_space s"

text \<open>The expected kind of component and the closing bracket, if there is one.\<close>

definition target_for_bracket :: "byte \<Rightarrow> asdf_yaml_pc_target \<times> byte option" where
  "target_for_bracket brac =
     (if brac = 91 then (ASDF_YAML_PC_TARGET_SEQ, Some 93)
      else if brac = 39 \<or> brac = 34 then (ASDF_YAML_PC_TARGET_MAP, Some brac)
      else (ASDF_YAML_PC_TARGET_ANY, None))"

fun any_component_len :: "bytes \<Rightarrow> nat option" where
  "any_component_len [] = Some 0"
| "any_component_len (c # cs) =
     (if c = 47 then Some 0
      else if c \<in> {39, 34, 91, 93} then None
      else map_option Suc (any_component_len cs))"

text \<open>The component and the length reported for it, which does not count the blanks skipped first.\<close>

definition find_path_component_any :: "bytes \<Rightarrow> (bytes \<times> nat) option" where
  "find_path_component_any start =
     (let s = skip_whitespace start in map_option (\<lambda>n. (take n s, n)) (any_component_len s))"

definition path_escapes :: "byte set" where
  "path_escapes = set (bytes_of ''/*&.{}[]'') \<union> {92}"

fun map_component_len :: "byte \<Rightarrow> bytes \<Rightarrow> nat option" where
  "map_component_len brac [] = None"
| "map_component_len brac (c # cs) =
     (if c = 92 then
        (if cs = [] \<or> cs ! 0 \<in> path_escapes then map_option Suc (map_component_len brac cs) else None)
      else if c = brac \<and> (cs = [] \<or> cs ! 0 = 47) then Some 0
      else map_option Suc (map_component_len brac cs))"

definition find_path_component_map :: "bytes \<Rightarrow> byte \<Rightarrow> (bytes \<times> nat) option" where
  "find_path_component_map start brac =
     map_option (\<lambda>n. (take n start, n + 1)) (map_component_len brac start)"

definition find_path_component_seq :: "bytes \<Rightarrow> byte \<Rightarrow> (bytes \<times> nat) option" where
  "find_path_component_seq start brac =
     (let s = skip_whitespace start;
          sg = (if s \<noteq> [] \<and> s ! 0 = 45 then 1 else 0);
          n = sg + length (takeWhile is_digit (drop sg s));
          r = skip_whitespace (drop n s) in
      if s = [] \<or> drop n s = [] \<or> r = [] \<or> r ! 0 \<noteq> brac \<or> n = 0 then None
      else Some (take n s, length s - length (skip_whitespace (tl r))))"

definition find_path_component ::
  "asdf_yaml_pc_target \<Rightarrow> bytes \<Rightarrow> byte option \<Rightarrow> (bytes \<times> nat) option" where
  "find_path_component target start brac =
     (case (target, brac) of
        (ASDF_YAML_PC_TARGET_MAP, Some b) \<Rightarrow> find_path_component_map start b
      | (ASDF_YAML_PC_TARGET_SEQ, Some b) \<Rightarrow> find_path_component_seq start b
      | _ \<Rightarrow> find_path_component_any start)"

text \<open>\<^verbatim>\<open>strtoll\<close> in base ten: the value, saturated at 64 bits, and what was not read.\<close>

definition strtoll :: "bytes \<Rightarrow> int \<times> bytes" where
  "strtoll s =
     (let t = skip_sign (skip_whitespace s);
          neg = (skip_whitespace s \<noteq> [] \<and> skip_whitespace s ! 0 = 45);
          ds = takeWhile is_digit t;
          v = (if neg then - int (radix_val 10 ds) else int (radix_val 10 ds)) in
      if ds = [] then (0, s)
      else (max (- (2 ^ 63)) (min (2 ^ 63 - 1) v), dropWhile is_digit t))"

definition path_component ::
  "asdf_yaml_pc_target \<Rightarrow> bytes \<Rightarrow> asdf_yaml_path_component option" where
  "path_component target key =
     (if target = ASDF_YAML_PC_TARGET_MAP
      then Some \<lparr>pc_target = target, pc_key = key, pc_index = 0\<rparr>
      else let (index, rest) = strtoll key in
        if rest \<noteq> [] \<and> target = ASDF_YAML_PC_TARGET_SEQ then None
        else Some \<lparr>pc_target = (if rest \<noteq> [] then ASDF_YAML_PC_TARGET_MAP else target),
                   pc_key = key, pc_index = index\<rparr>)"

text \<open>The component at the start of a non-empty path, with what is left of the path.\<close>

definition parse_single_path_component ::
  "heap \<Rightarrow> bytes \<Rightarrow> (asdf_yaml_path_component \<times> bytes) option \<times> heap" where
  "parse_single_path_component h s =
     (let (target, brac) = target_for_bracket (s ! 0);
          p = (if brac = None then s else tl s) in
      (case find_path_component target p brac of
         None \<Rightarrow> (None, h)
       | Some (key, comp_len) \<Rightarrow>
           (let (ok, h) = alloc h in
            if \<not> ok then (None, h)
            else (map_option (\<lambda>c. (c, tl (drop comp_len p))) (path_component target key), h))))"

lemma parse_single_shorter:
  "s \<noteq> [] \<Longrightarrow> parse_single_path_component h s = (Some (c, r), h') \<Longrightarrow> length r < length s"
  by (auto simp: parse_single_path_component_def Let_def split: option.splits prod.splits if_splits)

function path_loop ::
  "heap \<Rightarrow> bytes \<Rightarrow> asdf_yaml_path_component list \<Rightarrow> (bool \<times> asdf_yaml_path_component list) \<times> heap" where
  "path_loop h s out =
     (if s = [] then ((True, out), h)
      else (case parse_single_path_component h s of
        (None, h) \<Rightarrow> ((False, []), h)
      | (Some (c, r), h) \<Rightarrow> path_loop h r (out @ [c])))"
  by pat_completeness auto
termination
  by (relation "measure (\<lambda>(_, s, _). length s)") (auto dest: parse_single_shorter [OF _ sym])

declare path_loop.simps [simp del]

definition asdf_yaml_path_parse ::
  "heap \<Rightarrow> bytes option \<Rightarrow> asdf_yaml_path_component list \<Rightarrow> (bool \<times> asdf_yaml_path_component list) \<times> heap" where
  "asdf_yaml_path_parse h path out =
     (let p = (case path of None \<Rightarrow> [] | Some s \<Rightarrow> dropWhile (\<lambda>c. c = 47 \<or> is_space c) s);
          (ok, h) = alloc h in
      if \<not> ok then ((False, out), h)
      else if p = [] then
        ((True, out @ [\<lparr>pc_target = ASDF_YAML_PC_TARGET_MAP, pc_key = [], pc_index = 0\<rparr>]), h)
      else path_loop h p out)"

section \<open>The search for a tag handle\<close>

definition handle_matches :: "bytes \<Rightarrow> asdf_yaml_tag_handle \<Rightarrow> bool" where
  "handle_matches tag th \<longleftrightarrow> take (length (th_prefix th)) tag = th_prefix th \<and> th_prefix th \<noteq> []"

lemma tag_search_snoc: "tag_search_all tag (hs @ [th]) = tag_search_step tag th (tag_search_all tag hs)"
  by (simp add: tag_search_all_def)

lemma tag_search_prefix_len:
  "ts_prefix_len (tag_search_all tag hs) = (if hs = [] then 0 else length (th_prefix (last hs)))"
  by (cases hs rule: rev_cases)
     (simp_all add: tag_search_snoc tag_search_step_def Let_def, simp add: tag_search_all_def)

text \<open>The handle found is one of those with the longest matching prefix.\<close>

lemma tag_search_longest:
  "(case ts_handle (tag_search_all tag hs) of
      None \<Rightarrow> ts_longest (tag_search_all tag hs) = 0 \<and> (\<forall>th \<in> set hs. \<not> handle_matches tag th)
    | Some th \<Rightarrow> th \<in> set hs \<and> handle_matches tag th \<and>
        ts_longest (tag_search_all tag hs) = length (th_prefix th) \<and>
        (\<forall>th' \<in> set hs. handle_matches tag th' \<longrightarrow> length (th_prefix th') \<le> length (th_prefix th)))"
proof (induction hs rule: rev_induct)
  case Nil
  then show ?case by (simp add: tag_search_all_def)
next
  case (snoc x hs)
  then show ?case
    by (auto simp: tag_search_snoc tag_search_step_def Let_def handle_matches_def split: option.splits)
qed

lemma tag_search_found:
  assumes "th \<in> set hs" and "handle_matches tag th"
  obtains best where "ts_handle (tag_search_all tag hs) = Some best" "best \<in> set hs" "handle_matches tag best"
    "\<forall>th' \<in> set hs. handle_matches tag th' \<longrightarrow> length (th_prefix th') \<le> length (th_prefix best)"
  using tag_search_longest [of tag hs] assms by (cases "ts_handle (tag_search_all tag hs)") auto

definition canonical_tag :: "bytes \<Rightarrow> bytes" where
  "canonical_tag tag = (if take 4 tag \<noteq> asdf_yaml_tag_prefix then asdf_yaml_tag_prefix @ tag else tag)"

lemma canonicalize_ok: "asdf_yaml_tag_canonicalize [] tag = (Some (canonical_tag tag), [])"
  by (simp add: asdf_yaml_tag_canonicalize_def canonical_tag_def)

section \<open>Paths that are read back\<close>

text \<open>A path written with plain keys, quoted keys and indices.\<close>

datatype path_item = Plain bytes | Quoted byte bytes | Index nat

fun item_text :: "path_item \<Rightarrow> bytes" where
  "item_text (Plain k) = k"
| "item_text (Quoted q k) = q # k @ [q]"
| "item_text (Index n) = 91 # dec n @ [93]"

fun item_ok :: "path_item \<Rightarrow> bool" where
  "item_ok (Plain k) \<longleftrightarrow> k \<noteq> [] \<and> \<not> is_space (k ! 0) \<and> list_all (\<lambda>c. c \<notin> {47, 39, 34, 91, 93}) k \<and>
     snd (strtoll k) \<noteq> []"
| "item_ok (Quoted q k) \<longleftrightarrow> q \<in> {39, 34} \<and> list_all (\<lambda>c. c \<noteq> q \<and> c \<noteq> 92) k"
| "item_ok (Index n) \<longleftrightarrow> n < 2 ^ 63"

fun item_component :: "path_item \<Rightarrow> asdf_yaml_path_component" where
  "item_component (Plain k) = \<lparr>pc_target = ASDF_YAML_PC_TARGET_MAP, pc_key = k, pc_index = fst (strtoll k)\<rparr>"
| "item_component (Quoted q k) = \<lparr>pc_target = ASDF_YAML_PC_TARGET_MAP, pc_key = k, pc_index = 0\<rparr>"
| "item_component (Index n) = \<lparr>pc_target = ASDF_YAML_PC_TARGET_SEQ, pc_key = dec n, pc_index = int n\<rparr>"

fun path_text :: "path_item list \<Rightarrow> bytes" where
  "path_text [] = []"
| "path_text [i] = item_text i"
| "path_text (i # is) = item_text i @ 47 # path_text is"

definition item_end :: "bytes \<Rightarrow> bool" where
  "item_end r \<longleftrightarrow> r = [] \<or> r ! 0 = 47"

lemma any_len_plain:
  "list_all (\<lambda>c. c \<notin> {47, 39, 34, 91, 93}) k \<Longrightarrow> item_end r \<Longrightarrow> any_component_len (k @ r) = Some (length k)"
proof (induction k)
  case Nil
  then show ?case by (cases r) (auto simp: item_end_def)
qed auto

lemma map_len_quoted:
  "list_all (\<lambda>c. c \<noteq> q \<and> c \<noteq> 92) k \<Longrightarrow> q \<noteq> 92 \<Longrightarrow> item_end r \<Longrightarrow>
     map_component_len q (k @ q # r) = Some (length k)"
  by (induction k) (auto simp: item_end_def)

lemma skip_whitespace_not [simp]: "s = [] \<or> \<not> is_space (s ! 0) \<Longrightarrow> skip_whitespace s = s"
  by (cases s) (auto simp: skip_whitespace_def)

lemma digit_not_space: "is_digit c \<Longrightarrow> \<not> is_space c"
  using order.trans [of 48 c 13] by (auto simp: is_digit_def is_space_def)

lemma digits_append: "list_all is_digit ds \<Longrightarrow> takeWhile is_digit (ds @ 93 # r) = ds"
  by (induction ds) (auto simp: is_digit_def)

lemma dec_head: "is_digit (dec n ! 0)" "dec n \<noteq> []"
  using dec_all_digits [of n] by (cases "dec n"; simp)+

lemma dec_head_append: "is_digit ((dec n @ r) ! 0)"
  using dec_head [of n] by (simp add: nth_append)

lemma strtoll_dec: "n < 2 ^ 63 \<Longrightarrow> strtoll (dec n) = (int n, [])"
proof -
  assume n: "n < 2 ^ 63"
  obtain c cs where d: "dec n = c # cs" using dec_head(2) by (cases "dec n") auto
  have c: "is_digit c" using dec_head(1) [of n] by (simp add: d)
  have sk: "skip_whitespace (dec n) = dec n" "skip_sign (dec n) = dec n"
    using digit_not_space [OF c] digit_no_sign [OF c] by (auto simp: d skip_sign_def)
  have tw: "takeWhile is_digit (dec n) = dec n" "dropWhile is_digit (dec n) = []"
    using dec_all_digits(1) [of n] by (auto simp: list_all_iff)
  have "radix_val 10 (dec n) = n"
    using radix_val_digits [OF dec_all_digits(1)] dec_digits by simp
  moreover have "dec n ! 0 \<noteq> 45" using digit_no_sign [OF c] by (auto simp: d)
  ultimately show ?thesis using n dec_head(2) [of n]
    by (simp add: strtoll_def Let_def sk tw)
qed

lemma parse_single_item:
  assumes "item_ok i" and "item_end r"
  shows "parse_single_path_component [] (item_text i @ r) = (Some (item_component i, tl r), [])"
proof (cases i)
  case (Plain k)
  then have k: "k \<noteq> []" "\<not> is_space ((k @ r) ! 0)" "(k @ r) ! 0 \<notin> {91, 39, 34}" "snd (strtoll k) \<noteq> []"
    "list_all (\<lambda>c. c \<notin> {47, 39, 34, 91, 93}) k"
    using assms(1) by (auto simp: nth_append list_all_iff)
  then have "find_path_component_any (k @ r) = Some (k, length k)"
    using any_len_plain [OF k(5) assms(2)] by (simp add: find_path_component_any_def)
  then show ?thesis
    using k by (cases "strtoll k") (simp add: parse_single_path_component_def target_for_bracket_def Plain
        find_path_component_def path_component_def)
next
  case (Quoted q k)
  then have q: "q = 39 \<or> q = 34" "list_all (\<lambda>c. c \<noteq> q \<and> c \<noteq> 92) k" using assms(1) by auto
  then have "map_component_len q (k @ q # r) = Some (length k)"
    by (intro map_len_quoted [OF _ _ assms(2)]) auto
  with q(1) show ?thesis
    by (auto simp: parse_single_path_component_def target_for_bracket_def Quoted find_path_component_def
        find_path_component_map_def path_component_def)
next
  case (Index n)
  let ?s = "dec n @ 93 # r"
  have h: "\<not> is_space (?s ! 0)" "?s ! 0 \<noteq> 45"
    using digit_not_space digit_no_sign dec_head_append [of n "93 # r"] by blast+
  have rs: "skip_whitespace r = r" using assms(2) by (auto simp: item_end_def is_space_def)
  have "\<not> is_space 93" by (simp add: is_space_def)
  then have "find_path_component_seq ?s 93 = Some (dec n, length (dec n) + 1)"
    using h dec_head(2) [of n] digits_append [OF dec_all_digits(1), of n r] rs
    by (simp add: find_path_component_seq_def Let_def)
  moreover have "n < 2 ^ 63" using assms(1) by (simp add: Index)
  ultimately show ?thesis
    by (simp add: parse_single_path_component_def target_for_bracket_def Index find_path_component_def
        path_component_def strtoll_dec)
qed

lemma item_text_nonempty: "item_ok i \<Longrightarrow> item_text i \<noteq> []"
  by (cases i) auto

lemma path_loop_items:
  "list_all item_ok is \<Longrightarrow> path_loop [] (path_text is) out = ((True, out @ map item_component is), [])"
proof (induction "is" arbitrary: out rule: path_text.induct)
  case 1
  then show ?case by (simp add: path_loop.simps)
next
  case (2 i)
  then show ?case
    using parse_single_item [of i "[]"] item_text_nonempty [of i]
    by (simp add: path_loop.simps item_end_def)
next
  case (3 i j js)
  then show ?case
    using parse_single_item [of i "47 # path_text (j # js)"] item_text_nonempty [of i]
    by (subst path_loop.simps) (simp add: item_end_def)
qed

lemma path_text_head:
  assumes "item_ok i"
  shows "dropWhile (\<lambda>c. c = 47 \<or> is_space c) (path_text (i # is)) = path_text (i # is)"
proof -
  obtain r where "path_text (i # is) = item_text i @ r" by (cases "is") auto
  with assms show ?thesis by (cases i) (auto simp: is_space_def neq_Nil_conv)
qed

section \<open>Properties\<close>

text \<open>C34. A path written with plain keys, quoted keys and bracketed indices, separated by slashes, is
  read back as exactly these components, in order: a plain key that is no integer and a quoted key as
  keys of a mapping, an index as an index of a sequence.\<close>

theorem path_roundtrip:
  assumes "list_all item_ok (i # is)"
  shows "asdf_yaml_path_parse [] (Some (path_text (i # is))) [] = ((True, map item_component (i # is)), [])"
proof -
  have "path_text (i # is) \<noteq> []" using assms item_text_nonempty [of i] by (cases "is") auto
  then show ?thesis
    using assms path_text_head [of i "is"] path_loop_items [OF assms, of "[]"]
    by (simp add: asdf_yaml_path_parse_def)
qed

theorem path_roundtrip_witness:
  "asdf_yaml_path_parse [] (Some (path_text [Plain [97], Index 3, Quoted 34 [47, 98]])) [] =
     ((True, map item_component [Plain [97], Index 3, Quoted 34 [47, 98]]), [])"
  by (rule path_roundtrip)
     (simp add: is_space_def strtoll_def skip_sign_def skip_whitespace_def is_digit_def)

text \<open>After a closing bracket the parser drops one byte without looking at it: a path with garbage
  behind an index is accepted and read as another path.\<close>

theorem path_bracket_garbage:
  "asdf_yaml_path_parse [] (Some (91 # dec 7 @ [93, c] @ path_text [Index 3])) [] =
     asdf_yaml_path_parse [] (Some (91 # dec 7 @ [93, 47] @ path_text [Index 3])) []"
  if "\<not> is_space c"
proof -
  have "parse_single_path_component [] (91 # dec 7 @ [93, x] @ path_text [Index 3]) =
      (Some (item_component (Index 7), path_text [Index 3]), [])" if "\<not> is_space x" for x
  proof -
    let ?s = "dec 7 @ [93, x] @ path_text [Index 3]"
    have h: "\<not> is_space (?s ! 0)" "?s ! 0 \<noteq> 45"
      using digit_not_space digit_no_sign dec_head_append [of 7 "[93, x] @ path_text [Index 3]"] by blast+
    have "skip_whitespace (x # path_text [Index 3]) = x # path_text [Index 3]" "\<not> is_space 93"
      using that by (simp_all add: is_space_def)
    then have "find_path_component_seq ?s 93 = Some (dec 7, length (dec 7) + 1)"
      using h dec_head(2) [of 7] digits_append [OF dec_all_digits(1), of 7 "x # path_text [Index 3]"]
      by (simp add: find_path_component_seq_def Let_def)
    then show ?thesis
      by (simp add: parse_single_path_component_def target_for_bracket_def find_path_component_def
          path_component_def strtoll_dec)
  qed
  from this [OF that] this [of 47] show ?thesis
    by (simp add: asdf_yaml_path_parse_def path_loop.simps [of _ "91 # _"] is_space_def)
qed

theorem path_bracket_garbage_witness:
  "asdf_yaml_path_parse [] (Some (91 # dec 7 @ [93, 120] @ path_text [Index 3])) [] =
     asdf_yaml_path_parse [] (Some (91 # dec 7 @ [93, 47] @ path_text [Index 3])) []"
  by (rule path_bracket_garbage) (simp add: is_space_def)

text \<open>When some tag handle matches, the tag is written with a handle of the longest matching prefix,
  but it is cut at the length of the prefix of the last handle in the list, whether that one matched or
  not: the tag is right exactly when the two prefixes have the same length.\<close>

theorem tag_cut_at_last_prefix:
  assumes "th \<in> set hs" and "handle_matches (canonical_tag tag) th"
    and "length (th_prefix (last hs)) \<le> length (canonical_tag tag)" and "th_handle th \<noteq> []"
    and "\<forall>h \<in> set hs. th_handle h \<noteq> []"
  shows "\<exists>best \<in> set hs. handle_matches (canonical_tag tag) best \<and>
    (\<forall>h \<in> set hs. handle_matches (canonical_tag tag) h \<longrightarrow> length (th_prefix h) \<le> length (th_prefix best)) \<and>
    asdf_yaml_tag_normalize [] tag hs =
      Some (Some (th_handle best @ drop (length (th_prefix (last hs))) (canonical_tag tag)), [])"
proof -
  obtain best where b: "ts_handle (tag_search_all (canonical_tag tag) hs) = Some best" "best \<in> set hs"
    "handle_matches (canonical_tag tag) best"
    "\<forall>h \<in> set hs. handle_matches (canonical_tag tag) h \<longrightarrow> length (th_prefix h) \<le> length (th_prefix best)"
    by (rule tag_search_found [OF assms(1,2)])
  have "asdf_yaml_tag_normalize [] tag hs =
      Some (Some (th_handle best @ drop (length (th_prefix (last hs))) (canonical_tag tag)), [])"
    using assms(1,3,5) b(1,2) tag_search_prefix_len [of "canonical_tag tag" hs]
    by (auto simp: asdf_yaml_tag_normalize_def canonicalize_ok Let_def tag_suffix_def)
  with b show ?thesis by blast
qed

definition sample_handles :: "asdf_yaml_tag_handle list" where
  "sample_handles = [\<lparr>th_handle = [33], th_prefix = ASDF_STANDARD_TAG_PREFIX\<rparr>,
     \<lparr>th_handle = [33, 119, 33], th_prefix = bytes_of ''tag:w/''\<rparr>]"

theorem tag_cut_at_last_prefix_witness:
  "\<exists>t. asdf_yaml_tag_normalize [] (bytes_of ''tag:stsci.edu:asdf/x'') sample_handles = Some (Some t, []) \<and>
     t = [33] @ bytes_of ''sci.edu:asdf/x''"
proof -
  let ?tag = "bytes_of ''tag:stsci.edu:asdf/x''"
  have c: "canonical_tag ?tag = ?tag"
    by (simp add: canonical_tag_def asdf_yaml_tag_prefix_def bytes_of_def)
  have m: "handle_matches ?tag \<lparr>th_handle = [33], th_prefix = ASDF_STANDARD_TAG_PREFIX\<rparr>"
    "\<not> handle_matches ?tag \<lparr>th_handle = [33, 119, 33], th_prefix = bytes_of ''tag:w/''\<rparr>"
    by (simp_all add: handle_matches_def ASDF_STANDARD_TAG_PREFIX_def bytes_of_def of_char_def)
  have "\<exists>best \<in> set sample_handles. handle_matches ?tag best \<and>
      (\<forall>h \<in> set sample_handles. handle_matches ?tag h \<longrightarrow> length (th_prefix h) \<le> length (th_prefix best)) \<and>
      asdf_yaml_tag_normalize [] ?tag sample_handles =
        Some (Some (th_handle best @ drop (length (th_prefix (last sample_handles))) ?tag), [])"
    using tag_cut_at_last_prefix [of "\<lparr>th_handle = [33], th_prefix = ASDF_STANDARD_TAG_PREFIX\<rparr>" sample_handles ?tag] m
    unfolding c by (simp add: sample_handles_def bytes_of_def)
  then show ?thesis using m by (auto simp: sample_handles_def bytes_of_def)
qed

end
