(* ===== verification/Asdf_File.thy ===== *)
theory Asdf_File
  imports Asdf_Parser Asdf_Yaml_Path
begin

text \<open>
  The file object: \<^verbatim>\<open>src/file.c\<close> up to the tree, and \<^verbatim>\<open>asdf_block_count\<close>. The context of a file is
  shared with its parser and its streams: \<open>af_ctx\<close> holds it, and it is put into the stream of the parser
  before each of its calls and taken back after. Once there is a parser the input stream lives in it.

  libfyaml is outside the repository. A document is the text it was built from, which fixes its version,
  its tag directives, and its root; nodes are trees. What building a document from text gives, and whether
  a tag directive can be replaced, are arguments.
\<close>

section \<open>Documents\<close>

datatype fy_node =
    FyScalar "bytes option" bytes
  | FySequence "bytes option" "fy_node list"
  | FyMapping "bytes option" "(fy_node \<times> fy_node) list"

record fy_document =
  fd_text :: bytes
  fd_handles :: "asdf_yaml_tag_handle list"
  fd_root :: "fy_node option"

fun fy_tag :: "fy_node \<Rightarrow> bytes option" where
  "fy_tag (FyScalar t _) = t"
| "fy_tag (FySequence t _) = t"
| "fy_tag (FyMapping t _) = t"

fun fy_set_tag :: "bytes \<Rightarrow> fy_node \<Rightarrow> fy_node" where
  "fy_set_tag t (FyScalar _ v) = FyScalar (Some t) v"
| "fy_set_tag t (FySequence _ ns) = FySequence (Some t) ns"
| "fy_set_tag t (FyMapping _ ps) = FyMapping (Some t) ps"

fun fy_is_mapping :: "fy_node \<Rightarrow> bool" where
  "fy_is_mapping (FyMapping _ _) = True"
| "fy_is_mapping _ = False"

definition fy_mapping_is_empty :: "fy_node \<Rightarrow> bool" where
  "fy_mapping_is_empty n \<longleftrightarrow> (case n of FyMapping _ ps \<Rightarrow> ps = [] | _ \<Rightarrow> True)"

definition fy_sequence_is_empty :: "fy_node \<Rightarrow> bool" where
  "fy_sequence_is_empty n \<longleftrightarrow> (case n of FySequence _ ns \<Rightarrow> ns = [] | _ \<Rightarrow> False)"

record yaml_env =
  fy_build :: "bytes \<Rightarrow> fy_document option"
  fy_directive_ok :: "fy_document \<Rightarrow> asdf_yaml_tag_handle \<Rightarrow> bool"

definition asdf_yaml_empty_document :: bytes where
  "asdf_yaml_empty_document = bytes_of ''%YAML 1.1'' @ [10] @ bytes_of ''---'' @ [10] @ bytes_of ''...''"

definition default_tag_handle :: asdf_yaml_tag_handle where
  "default_tag_handle = \<lparr>th_handle = ASDF_YAML_DEFAULT_TAG_HANDLE, th_prefix = ASDF_STANDARD_TAG_PREFIX\<rparr>"

text \<open>A tag directive replaces the one with the same handle.\<close>

fun add_tag_handles :: "yaml_env \<Rightarrow> fy_document \<Rightarrow> asdf_yaml_tag_handle list \<Rightarrow> fy_document option" where
  "add_tag_handles env doc [] = Some doc"
| "add_tag_handles env doc (th # ths) =
     (if fy_directive_ok env doc th
      then add_tag_handles env
        (doc\<lparr>fd_handles := filter (\<lambda>x. th_handle x \<noteq> th_handle th) (fd_handles doc) @ [th]\<rparr>) ths
      else None)"

definition asdf_yaml_document_add_tag_handles ::
  "yaml_env \<Rightarrow> fy_document \<Rightarrow> asdf_yaml_tag_handle list \<Rightarrow> fy_document option" where
  "asdf_yaml_document_add_tag_handles env doc handles =
     add_tag_handles env doc
       ((if list_ex (\<lambda>th. th_handle th = ASDF_YAML_DEFAULT_TAG_HANDLE) handles then []
         else [default_tag_handle]) @ handles)"

definition asdf_yaml_create_empty_document ::
  "yaml_env \<Rightarrow> asdf_yaml_tag_handle list option \<Rightarrow> fy_document option" where
  "asdf_yaml_create_empty_document env handles =
     (case fy_build env asdf_yaml_empty_document of
        None \<Rightarrow> None
      | Some doc \<Rightarrow>
          (case handles of None \<Rightarrow> Some doc | Some hs \<Rightarrow> asdf_yaml_document_add_tag_handles env doc hs))"

section \<open>The configuration\<close>

datatype asdf_block_decomp_mode =
    ASDF_BLOCK_DECOMP_MODE_AUTO
  | ASDF_BLOCK_DECOMP_MODE_EAGER
  | ASDF_BLOCK_DECOMP_MODE_LAZY

record asdf_config =
  cfg_parser_flags :: u64
  cfg_emitter_flags :: u64
  cfg_tag_handles :: "asdf_yaml_tag_handle list option"
  cfg_warning_thresh :: nat
  cfg_array_storage :: nat
  cfg_decomp_mode :: asdf_block_decomp_mode
  cfg_max_memory_bytes :: nat
  cfg_max_memory_threshold :: double
  cfg_chunk_size :: nat
  cfg_tmp_dir :: "bytes option"

definition ASDF_EMITTER_OPT_DEFAULT :: u64 where "ASDF_EMITTER_OPT_DEFAULT = 1"
definition ASDF_EMITTER_OPT_EMIT_EMPTY :: u64 where "ASDF_EMITTER_OPT_EMIT_EMPTY = 2"
definition ASDF_EMITTER_OPT_NO_BLOCK_CHECKSUM :: u64 where "ASDF_EMITTER_OPT_NO_BLOCK_CHECKSUM = 4"
definition ASDF_EMITTER_OPT_NO_BLOCK_INDEX :: u64 where "ASDF_EMITTER_OPT_NO_BLOCK_INDEX = 8"
definition ASDF_EMITTER_OPT_EMIT_EMPTY_TREE :: u64 where "ASDF_EMITTER_OPT_EMIT_EMPTY_TREE = 16"
definition ASDF_EMITTER_OPT_NO_EMIT_EMPTY_TREE :: u64 where "ASDF_EMITTER_OPT_NO_EMIT_EMPTY_TREE = 32"
definition ASDF_EMITTER_OPT_NO_EMIT_ASDF_LIBRARY :: u64 where "ASDF_EMITTER_OPT_NO_EMIT_ASDF_LIBRARY = 64"

definition asdf_config_default :: asdf_config where
  "asdf_config_default = \<lparr>cfg_parser_flags = ASDF_PARSER_OPT_BUFFER_TREE,
     cfg_emitter_flags = ASDF_EMITTER_OPT_DEFAULT, cfg_tag_handles = Some [default_tag_handle],
     cfg_warning_thresh = 0, cfg_array_storage = 0, cfg_decomp_mode = ASDF_BLOCK_DECOMP_MODE_AUTO,
     cfg_max_memory_bytes = 0, cfg_max_memory_threshold = Fin 0, cfg_chunk_size = 0, cfg_tmp_dir = None\<rparr>"

definition config_override :: "'a \<Rightarrow> 'a \<Rightarrow> 'a \<Rightarrow> 'a" where
  "config_override dflt user x = (if user \<noteq> dflt then user else x)"

text \<open>A zero threshold of either sign is the default; a NaN differs from everything.\<close>

definition d_is_zero :: "double \<Rightarrow> bool" where
  "d_is_zero d \<longleftrightarrow> d = Fin 0 \<or> d = MinusZero"

definition asdf_config_build :: "heap \<Rightarrow> asdf_config option \<Rightarrow> asdf_config option \<times> heap" where
  "asdf_config_build h user =
     (let (ok, h) = alloc h; c = asdf_config_default\<lparr>cfg_warning_thresh := 1024\<rparr> in
      if \<not> ok then (None, h)
      else (case user of
        None \<Rightarrow> (Some c, h)
      | Some u \<Rightarrow> (Some
          \<lparr>cfg_parser_flags = config_override 0 (cfg_parser_flags u) (cfg_parser_flags c),
           cfg_emitter_flags = config_override 0 (cfg_emitter_flags u) (cfg_emitter_flags c),
           cfg_tag_handles = config_override None (cfg_tag_handles u) (cfg_tag_handles c),
           cfg_warning_thresh = config_override 0 (cfg_warning_thresh u) (cfg_warning_thresh c),
           cfg_array_storage = config_override 0 (cfg_array_storage u) (cfg_array_storage c),
           cfg_decomp_mode = config_override ASDF_BLOCK_DECOMP_MODE_AUTO (cfg_decomp_mode u) (cfg_decomp_mode c),
           cfg_max_memory_bytes = config_override 0 (cfg_max_memory_bytes u) (cfg_max_memory_bytes c),
           cfg_max_memory_threshold =
             (if d_is_zero (cfg_max_memory_threshold u) then cfg_max_memory_threshold c
              else cfg_max_memory_threshold u),
           cfg_chunk_size = config_override 0 (cfg_chunk_size u) (cfg_chunk_size c),
           cfg_tmp_dir = config_override None (cfg_tmp_dir u) (cfg_tmp_dir c)\<rparr>, h)))"

definition threshold_invalid :: "double \<Rightarrow> bool" where
  "threshold_invalid d \<longleftrightarrow> (case d of Fin q \<Rightarrow> q < 0 \<or> q > 1 | MinusZero \<Rightarrow> False | Inf _ \<Rightarrow> True | NaN \<Rightarrow> True)"

definition threshold_positive :: "double \<Rightarrow> bool" where
  "threshold_positive d \<longleftrightarrow> (case d of Fin q \<Rightarrow> q > 0 | Inf neg \<Rightarrow> \<not> neg | _ \<Rightarrow> False)"

text \<open>\<open>statgrab\<close> and \<open>lazy\<close> are whether the library was built with libstatgrab and with lazy decompression.\<close>

definition asdf_config_validate :: "bool \<Rightarrow> bool \<Rightarrow> asdf_config \<Rightarrow> asdf_config" where
  "asdf_config_validate statgrab lazy c =
     (let t = cfg_max_memory_threshold c;
          c = (if threshold_invalid t then c\<lparr>cfg_max_memory_threshold := Fin 0\<rparr> else c);
          c = (if \<not> statgrab \<and> threshold_positive t then c\<lparr>cfg_max_memory_threshold := Fin 0\<rparr> else c) in
      if lazy then c else c\<lparr>cfg_decomp_mode := ASDF_BLOCK_DECOMP_MODE_EAGER\<rparr>)"

section \<open>The file object\<close>

datatype asdf_file_mode =
    ASDF_FILE_MODE_INVALID
  | ASDF_FILE_MODE_READ_ONLY
  | ASDF_FILE_MODE_WRITE_ONLY
  | ASDF_FILE_MODE_READ_WRITE

text \<open>History entries and cleanup callbacks are opaque: they are numbered.\<close>

record asdf_file =
  af_ctx :: asdf_context
  af_config :: asdf_config
  af_mode :: asdf_file_mode
  af_stream :: "asdf_stream option"
  af_parser :: "asdf_parser option"
  af_tree :: "fy_document option"
  af_blocks :: "asdf_block_info list"
  af_tag_map :: "(bytes \<times> bytes) list"
  af_history :: "nat list"
  af_cleanups :: "nat list"

definition to_lower :: "byte \<Rightarrow> byte" where
  "to_lower c = (if 65 \<le> c \<and> c \<le> 90 then c + 32 else c)"

definition asdf_file_mode_parse :: "bytes \<Rightarrow> asdf_file_mode" where
  "asdf_file_mode_parse mode =
     (let m = map to_lower mode in
      if m = bytes_of ''r'' then ASDF_FILE_MODE_READ_ONLY
      else if m = bytes_of ''w'' then ASDF_FILE_MODE_WRITE_ONLY
      else if m = bytes_of ''rw'' then ASDF_FILE_MODE_READ_WRITE
      else ASDF_FILE_MODE_INVALID)"

text \<open>A context that cannot be allocated is not checked for; there is no result then.\<close>

definition asdf_file_create ::
  "bool \<Rightarrow> bool \<Rightarrow> heap \<Rightarrow> asdf_config option \<Rightarrow> asdf_file_mode \<Rightarrow> (asdf_file option \<times> heap) option" where
  "asdf_file_create statgrab lazy h user mode =
     (if mode = ASDF_FILE_MODE_INVALID then Some (None, h)
      else let (ok, h) = alloc h in
        if \<not> ok then Some (None, h)
        else (case asdf_config_build h user of
          (None, h) \<Rightarrow> Some (None, h)
        | (Some config, h) \<Rightarrow>
            (case asdf_context_create h of
              (None, _) \<Rightarrow> None
            | (Some ctx, h) \<Rightarrow> Some (Some
                \<lparr>af_ctx = ctx, af_config = asdf_config_validate statgrab lazy config, af_mode = mode,
                 af_stream = None, af_parser = None, af_tree = None, af_blocks = [], af_tag_map = [],
                 af_history = [], af_cleanups = []\<rparr>, h))))"

definition asdf_open_fp_ex ::
  "bool \<Rightarrow> bool \<Rightarrow> heap \<Rightarrow> nat \<Rightarrow> cfile \<Rightarrow> asdf_config option \<Rightarrow> (asdf_file option \<times> heap) option" where
  "asdf_open_fp_ex statgrab lazy h bufsiz fp user = do {
     (f, h) \<leftarrow> asdf_file_create statgrab lazy h user ASDF_FILE_MODE_READ_ONLY;
     (case f of
        None \<Rightarrow> Some (None, h)
      | Some f \<Rightarrow>
          (let (s, ctx) = asdf_stream_from_fp (af_ctx f) bufsiz fp False in
           Some (Some (f\<lparr>af_stream := s, af_ctx := ctx\<rparr>), h)))
   }"

definition asdf_open_mem_ex ::
  "bool \<Rightarrow> bool \<Rightarrow> heap \<Rightarrow> bytes option \<Rightarrow> asdf_config option \<Rightarrow> (asdf_file option \<times> heap) option" where
  "asdf_open_mem_ex statgrab lazy h buf user = do {
     (f, h) \<leftarrow> asdf_file_create statgrab lazy h user ASDF_FILE_MODE_READ_WRITE;
     (case (f, buf) of
        (Some f, Some b) \<Rightarrow>
          (let (s, ctx) = asdf_stream_from_memory (af_ctx f) b in
           Some (Some (f\<lparr>af_stream := s, af_ctx := ctx\<rparr>), h))
      | _ \<Rightarrow> Some (f, h))
   }"

section \<open>The parser of a file\<close>

definition parser_with_ctx :: "asdf_context \<Rightarrow> asdf_parser \<Rightarrow> asdf_parser" where
  "parser_with_ctx ctx p = p\<lparr>p_stream := (p_stream p)\<lparr>s_ctx := ctx\<rparr>\<rparr>"

text \<open>A parser that cannot be allocated is not checked for before its input is set.\<close>

definition asdf_file_parser :: "asdf_file \<Rightarrow> (asdf_parser option \<times> asdf_file) option" where
  "asdf_file_parser f =
     (case (af_stream f, af_parser f) of
        (None, _) \<Rightarrow> Some (None, f)
      | (_, Some p) \<Rightarrow> Some (Some p, f)
      | (Some s, None) \<Rightarrow> do {
          p \<leftarrow> asdf_parser_create_ctx [] (Some (af_ctx f)) (Some (cfg_parser_flags (af_config f)));
          let p = asdf_parser_set_input_stream p s;
          Some (Some p, f\<lparr>af_parser := Some p, af_ctx := s_ctx (p_stream p)\<rparr>)
        })"

text \<open>One event, with the shared context.\<close>

definition file_iterate :: "parser_env \<Rightarrow> asdf_file \<Rightarrow> (asdf_event option \<times> asdf_file) option" where
  "file_iterate env f = do {
     p \<leftarrow> af_parser f;
     (ev, p) \<leftarrow> asdf_event_iterate env (parser_with_ctx (af_ctx f) p);
     Some (ev, f\<lparr>af_parser := Some p, af_ctx := s_ctx (p_stream p)\<rparr>)
   }"

text \<open>\<^verbatim>\<open>asdf_event_free\<close>: the slot of the event is freed.\<close>

definition asdf_event_free :: "asdf_file \<Rightarrow> asdf_file" where
  "asdf_event_free f = f\<lparr>af_parser := map_option (\<lambda>p. p\<lparr>ev_cur := None\<rparr>) (af_parser f)\<rparr>"

section \<open>The tree\<close>

definition asdf_file_tag_normalize :: "asdf_file \<Rightarrow> bytes \<Rightarrow> (bytes option \<times> asdf_file) option" where
  "asdf_file_tag_normalize f tag =
     (case map_of (af_tag_map f) tag of
        Some t \<Rightarrow> Some (Some t, f)
      | None \<Rightarrow> do {
          (t, h) \<leftarrow> asdf_yaml_tag_normalize (ctx_heap (af_ctx f)) tag
                      (case cfg_tag_handles (af_config f) of None \<Rightarrow> [] | Some hs \<Rightarrow> hs);
          let f = f\<lparr>af_ctx := (af_ctx f)\<lparr>ctx_heap := h\<rparr>\<rparr>;
          (case t of
             None \<Rightarrow> Some (None, f)
           | Some t \<Rightarrow> Some (Some t, f\<lparr>af_tag_map := (tag, t) # af_tag_map f\<rparr>))
        })"

definition ASDF_CORE_ASDF_TAG :: bytes where
  "ASDF_CORE_ASDF_TAG = ASDF_STANDARD_TAG_PREFIX @ bytes_of ''core/asdf-1.1.0''"

definition file_alloc :: "asdf_file \<Rightarrow> bool \<times> asdf_file" where
  "file_alloc f = (let (ok, ctx) = ctx_alloc (af_ctx f) in (ok, f\<lparr>af_ctx := ctx\<rparr>))"

definition file_oom :: "asdf_file \<Rightarrow> asdf_file" where
  "file_oom f = f\<lparr>af_ctx := asdf_context_error_oom (af_ctx f)\<rparr>"

text \<open>A node libfyaml creates is an allocation.\<close>

definition asdf_file_tree_document_create_default ::
  "yaml_env \<Rightarrow> asdf_file \<Rightarrow> (fy_document option \<times> asdf_file) option" where
  "asdf_file_tree_document_create_default yenv f =
     (case asdf_yaml_create_empty_document yenv (cfg_tag_handles (af_config f)) of
        None \<Rightarrow> Some (None, file_oom f)
      | Some doc \<Rightarrow>
          (let (ok, f) = file_alloc f in
           if \<not> ok then Some (None, file_oom f)
           else do {
             (t, f) \<leftarrow> asdf_file_tag_normalize f ASDF_CORE_ASDF_TAG;
             (case t of
                None \<Rightarrow> Some (None, file_oom f)
              | Some t \<Rightarrow> Some (Some (doc\<lparr>fd_root := Some (FyMapping (Some t) [])\<rparr>), f))
           }))"

text \<open>The loop that runs the parser up to the end of the tree; whether it got there.\<close>

definition find_tree_step :: "parser_env \<Rightarrow> asdf_file \<Rightarrow> (asdf_file + bool \<times> asdf_file) option" where
  "find_tree_step env f = do {
     (ev, f) \<leftarrow> file_iterate env f;
     Some (case ev of
       None \<Rightarrow> Inr (False, f)
     | Some (ASDF_TREE_END_EVENT _) \<Rightarrow> Inr (True, asdf_event_free f)
     | Some (ASDF_BLOCK_EVENT _) \<Rightarrow> Inr (False, asdf_event_free f)
     | Some ASDF_END_EVENT \<Rightarrow> Inr (False, asdf_event_free f)
     | _ \<Rightarrow> Inl f)
   }"

definition asdf_file_tree_document ::
  "parser_env \<Rightarrow> yaml_env \<Rightarrow> asdf_file \<Rightarrow> (fy_document option \<times> asdf_file) option" where
  "asdf_file_tree_document env yenv f =
     (if af_tree f \<noteq> None then Some (af_tree f, f)
      else do {
        (p, f) \<leftarrow> asdf_file_parser f;
        (case p of
           None \<Rightarrow> do {
             (t, f) \<leftarrow> asdf_file_tree_document_create_default yenv f;
             Some (t, f\<lparr>af_tree := t\<rparr>)
           }
         | Some p \<Rightarrow>
             if has_tree (p_tree p) = 0 then Some (None, f)
             else do {
               (found, f) \<leftarrow> (if has_tree (p_tree p) < 0 then loop_opt (find_tree_step env) f else Some (True, f));
               if \<not> found then Some (None, f)
               else do {
                 p \<leftarrow> af_parser f;
                 (case tree_buf (p_tree p) of
                    Some buf \<Rightarrow>
                      if has_tree (p_tree p) < 1 then Some (None, f)
                      else let t = fy_build yenv buf in Some (t, f\<lparr>af_tree := t\<rparr>)
                  | None \<Rightarrow> Some (None, f))
               }
             })
      })"

section \<open>Counting blocks\<close>

definition finish_parse_step :: "parser_env \<Rightarrow> asdf_file \<Rightarrow> (asdf_file + asdf_file) option" where
  "finish_parse_step env f =
     (case af_parser f of
        None \<Rightarrow> None
      | Some p \<Rightarrow> if p_done p then Some (Inr f)
                 else do { (_, f) \<leftarrow> file_iterate env f; Some (Inl f) })"

definition asdf_block_count :: "parser_env \<Rightarrow> asdf_file \<Rightarrow> (nat \<times> asdf_file) option" where
  "asdf_block_count env f = do {
     (p, f) \<leftarrow> asdf_file_parser f;
     f \<leftarrow> (case p of
            Some p \<Rightarrow>
              if \<not> p_done p then do {
                f \<leftarrow> loop_opt (finish_parse_step env) f;
                p \<leftarrow> af_parser f;
                Some (f\<lparr>af_blocks := infos (p_block p)\<rparr>)
              } else Some f
          | None \<Rightarrow> Some f);
     Some (length (af_blocks f), f)
   }"

section \<open>Write cleanups\<close>

text \<open>A callback that cannot be recorded is an error of the file; they are run, last one first, and
  forgotten.\<close>

definition asdf_file_write_cleanup_add :: "asdf_file \<Rightarrow> nat \<Rightarrow> asdf_file" where
  "asdf_file_write_cleanup_add f cb =
     (let (ok, f) = file_alloc f in
      if ok then f\<lparr>af_cleanups := cb # af_cleanups f\<rparr> else file_oom f)"

definition asdf_file_run_write_cleanups :: "asdf_file \<Rightarrow> nat list \<times> asdf_file" where
  "asdf_file_run_write_cleanups f = (af_cleanups f, f\<lparr>af_cleanups := []\<rparr>)"

end
