(* ===== verification/Asdf_Emitter.thy ===== *)
theory Asdf_Emitter
  imports Asdf_File Asdf_Sink Asdf_Block
begin

text \<open>
  The emitter: \<^verbatim>\<open>src/emitter.c\<close>, and the writing functions of \<^verbatim>\<open>src/file.c\<close>. A state is the file and
  the emitter; the context they share is \<open>af_ctx\<close>. Arguments stand for what is outside: how libfyaml
  hands a document to the output callback, given what the callback returned so far (\<open>fy_piece\<close>, and
  \<open>fy_result\<close> for whether it succeeds in the end); the compressors and MD5; and \<open>prepare_root\<close>, the update
  of the metadata in the root of the tree, which rests on the value layer.
\<close>

section \<open>Data\<close>

datatype asdf_emitter_state =
    ASDF_EMITTER_STATE_INITIAL
  | ASDF_EMITTER_STATE_ASDF_VERSION
  | ASDF_EMITTER_STATE_STANDARD_VERSION
  | ASDF_EMITTER_STATE_TREE
  | ASDF_EMITTER_STATE_BLOCKS
  | ASDF_EMITTER_STATE_BLOCK_INDEX
  | ASDF_EMITTER_STATE_END
  | ASDF_EMITTER_STATE_ERROR

record asdf_emitter =
  em_flags :: u64
  em_state :: asdf_emitter_state
  em_stream :: "asdf_stream option"
  em_done :: bool

record emitter_env =
  ee_parser :: parser_env
  ee_yaml :: yaml_env
  ee_os :: os_env
  ee_md5 :: "bytes \<Rightarrow> bytes"
  ee_cmp :: "bytes \<Rightarrow> bytes \<Rightarrow> bytes option"
  ee_decomp :: "asdf_block_info \<Rightarrow> bytes \<Rightarrow> bytes option"
  fy_piece :: "fy_document \<Rightarrow> nat list \<Rightarrow> bytes option"
  fy_result :: "fy_document \<Rightarrow> nat list \<Rightarrow> bool"
  fy_emitter_ok :: bool
  prepare_root :: "asdf_file \<Rightarrow> bool \<times> asdf_file"

type_synonym emission = "asdf_file \<times> asdf_emitter"

definition asdf_emitter_has_opt :: "asdf_emitter \<Rightarrow> u64 \<Rightarrow> bool" where
  "asdf_emitter_has_opt e opt \<longleftrightarrow> em_flags e AND opt = opt"

definition asdf_emitter_create :: "asdf_file \<Rightarrow> asdf_emitter option \<times> asdf_file" where
  "asdf_emitter_create f =
     (let (ok, f) = file_alloc f in
      if \<not> ok then (None, f)
      else (Some \<lparr>em_flags = cfg_emitter_flags (af_config f), em_state = ASDF_EMITTER_STATE_INITIAL,
                  em_stream = None, em_done = False\<rparr>,
            f\<lparr>af_ctx := asdf_context_retain (af_ctx f)\<rparr>))"

section \<open>Output\<close>

text \<open>The output stream with the shared context; without a stream there is no result.\<close>

definition em_out :: "emission \<Rightarrow> asdf_stream option" where
  "em_out = (\<lambda>(f, e). map_option (\<lambda>s. s\<lparr>s_ctx := af_ctx f\<rparr>) (em_stream e))"

definition em_put :: "emission \<Rightarrow> asdf_stream \<Rightarrow> emission" where
  "em_put = (\<lambda>(f, e) s. (f\<lparr>af_ctx := s_ctx s\<rparr>, e\<lparr>em_stream := Some s\<rparr>))"

definition emit_write :: "emission \<Rightarrow> bytes \<Rightarrow> (nat \<times> emission) option" where
  "emit_write fe bs = do {
     s \<leftarrow> em_out fe;
     (n, s) \<leftarrow> asdf_stream_write s bs;
     Some (n, em_put fe s)
   }"

text \<open>A run of \<^verbatim>\<open>WRITE_STRING0\<close> and \<^verbatim>\<open>WRITE_NEWLINE\<close>: it stops at the first short write.\<close>

fun emit_strings :: "emission \<Rightarrow> bytes list \<Rightarrow> (bool \<times> emission) option" where
  "emit_strings fe [] = Some (True, fe)"
| "emit_strings fe (x # xs) = do {
     (n, fe) \<leftarrow> emit_write fe x;
     if n = length x then emit_strings fe xs else Some (False, fe)
   }"

definition emit_flush :: "emission \<Rightarrow> emission option" where
  "emit_flush fe = do { s \<leftarrow> em_out fe; (_, s) \<leftarrow> asdf_stream_flush s; Some (em_put fe s) }"

definition emitter_set_output :: "emission \<Rightarrow> asdf_stream \<Rightarrow> emission" where
  "emitter_set_output = (\<lambda>(f, e) s. (f, e\<lparr>em_stream := Some s\<rparr>))"

text \<open>The common part of the \<^verbatim>\<open>asdf_emitter_set_output_*\<close> functions.\<close>

definition emitter_attach ::
  "emission \<Rightarrow> asdf_stream option \<times> asdf_context \<Rightarrow> (bool \<times> emission) option" where
  "emitter_attach = (\<lambda>(f, e) r.
     (case r of
        (None, ctx) \<Rightarrow> do {
          ctx \<leftarrow> asdf_context_error_common ctx ASDF_ERR_STREAM_INIT_FAILED [];
          Some (False, (f\<lparr>af_ctx := ctx\<rparr>, e))
        }
      | (Some s, ctx) \<Rightarrow> Some (True, emitter_set_output (f\<lparr>af_ctx := ctx\<rparr>, e) s)))"

definition asdf_emitter_set_output_fp :: "emission \<Rightarrow> nat \<Rightarrow> cfile \<Rightarrow> (bool \<times> emission) option" where
  "asdf_emitter_set_output_fp fe bufsiz fp =
     emitter_attach fe (asdf_stream_from_fp (af_ctx (fst fe)) bufsiz fp True)"

definition asdf_emitter_set_output_mem :: "emission \<Rightarrow> bytes \<Rightarrow> (bool \<times> emission) option" where
  "asdf_emitter_set_output_mem fe buf = emitter_attach fe (asdf_stream_from_memory (af_ctx (fst fe)) buf)"

definition asdf_emitter_set_output_malloc :: "emission \<Rightarrow> bytes \<Rightarrow> (bool \<times> emission) option" where
  "asdf_emitter_set_output_malloc fe buf = emitter_attach fe (asdf_stream_from_malloc (af_ctx (fst fe)) buf)"

section \<open>What there is to emit\<close>

definition file_tree ::
  "emitter_env \<Rightarrow> asdf_file \<Rightarrow> (fy_document option \<times> asdf_file) option" where
  "file_tree env f = asdf_file_tree_document (ee_parser env) (ee_yaml env) f"

definition set_root :: "asdf_file \<Rightarrow> fy_node option \<Rightarrow> asdf_file" where
  "set_root f rt = f\<lparr>af_tree := map_option (\<lambda>d. d\<lparr>fd_root := rt\<rparr>) (af_tree f)\<rparr>"

definition emit_empty_tree :: "asdf_emitter \<Rightarrow> bool" where
  "emit_empty_tree e \<longleftrightarrow> asdf_emitter_has_opt e ASDF_EMITTER_OPT_EMIT_EMPTY_TREE \<and>
     \<not> asdf_emitter_has_opt e ASDF_EMITTER_OPT_NO_EMIT_EMPTY_TREE"

text \<open>An empty root is created for a tree that has none; if that fails the root stays absent.\<close>

definition asdf_emitter_should_emit_tree :: "emitter_env \<Rightarrow> emission \<Rightarrow> (bool \<times> asdf_file) option" where
  "asdf_emitter_should_emit_tree env = (\<lambda>(f, e).
     if af_history f \<noteq> [] then Some (True, f)
     else if af_tree f = None \<and> af_stream f = None \<and> \<not> emit_empty_tree e then Some (False, f)
     else do {
       (t, f) \<leftarrow> file_tree env f;
       (case t of
          None \<Rightarrow> Some (False, f)
        | Some doc \<Rightarrow>
            (case fd_root doc of
               None \<Rightarrow>
                 if \<not> emit_empty_tree e then Some (False, f)
                 else let (ok, f) = file_alloc f in
                   Some (True, set_root f (if ok then Some (FyMapping None []) else None))
             | Some rt \<Rightarrow>
                 Some (emit_empty_tree e \<or> \<not> fy_mapping_is_empty rt, f)))
     })"

definition asdf_emitter_should_emit :: "emitter_env \<Rightarrow> emission \<Rightarrow> (bool \<times> asdf_file) option" where
  "asdf_emitter_should_emit env = (\<lambda>(f, e). do {
     (tree, f) \<leftarrow> asdf_emitter_should_emit_tree env (f, e);
     Some (tree \<or> af_blocks f \<noteq> [] \<or> asdf_emitter_has_opt e ASDF_EMITTER_OPT_EMIT_EMPTY, f)
   })"

section \<open>The steps\<close>

definition asdf_version_default :: bytes where
  "asdf_version_default = bytes_of ''1.0.0''"

definition asdf_standard_default :: bytes where
  "asdf_standard_default = bytes_of ''1.6.0''"

text \<open>A comment line with a version, then the next state.\<close>

definition emit_version_line ::
  "bytes \<Rightarrow> bytes \<Rightarrow> asdf_emitter_state \<Rightarrow> emission \<Rightarrow> (asdf_emitter_state \<times> emission) option" where
  "emit_version_line comment version next_state fe = do {
     (ok, fe) \<leftarrow> emit_strings fe [comment, version, [10]];
     if \<not> ok then Some (ASDF_EMITTER_STATE_ERROR, fe)
     else do { fe \<leftarrow> emit_flush fe; Some (next_state, fe) }
   }"

definition emit_asdf_version :: "emission \<Rightarrow> (asdf_emitter_state \<times> emission) option" where
  "emit_asdf_version fe = do {
     s \<leftarrow> em_out fe;
     if \<not> is_writeable s then None
     else emit_version_line asdf_version_comment asdf_version_default ASDF_EMITTER_STATE_STANDARD_VERSION fe
   }"

definition emit_standard_version :: "emission \<Rightarrow> (asdf_emitter_state \<times> emission) option" where
  "emit_standard_version fe =
     emit_version_line asdf_standard_comment asdf_standard_default ASDF_EMITTER_STATE_TREE fe"

text \<open>libfyaml emitting a document through \<^verbatim>\<open>fy_emitter_stream_output\<close>: \<open>rs\<close> is what the callback returned
  so far. What the workaround for one version of libfyaml emits first is dropped by the callback.\<close>

partial_function (option) fy_emit_document ::
  "emitter_env \<Rightarrow> fy_document \<Rightarrow> emission \<Rightarrow> nat list \<Rightarrow> (bool \<times> emission) option" where
  "fy_emit_document env doc fe rs =
     (case fy_piece env doc rs of
        None \<Rightarrow> Some (fy_result env doc rs, fe)
      | Some bs \<Rightarrow> do {
          (n, fe) \<leftarrow> emit_write fe bs;
          fy_emit_document env doc fe (rs @ [n])
        })"

declare fy_emit_document.simps [code]

definition asdf_fy_emitter_create :: "emitter_env \<Rightarrow> asdf_file \<Rightarrow> bool \<times> asdf_file" where
  "asdf_fy_emitter_create env f = (let (ok, f) = file_alloc f in (ok \<and> fy_emitter_ok env, f))"

text \<open>An empty container at the root is replaced by a null scalar with its tag. Whatever fails in this
  second part leaves the result of the first.\<close>

definition empty_root :: "fy_node \<Rightarrow> bool" where
  "empty_root rt \<longleftrightarrow> fy_is_mapping rt \<and> fy_mapping_is_empty rt \<or> fy_sequence_is_empty rt"

definition replace_empty_root :: "asdf_file \<Rightarrow> bytes option \<Rightarrow> asdf_file option" where
  "replace_empty_root f tag0 =
     (let (ok, f) = file_alloc f in
      if \<not> ok then Some f
      else (case tag0 of
        None \<Rightarrow> Some (set_root f (Some (FyScalar None [])))
      | Some t \<Rightarrow> do {
          (n, f) \<leftarrow> asdf_file_tag_normalize f t;
          (case n of
             None \<Rightarrow> Some f
           | Some nt \<Rightarrow> Some (set_root f (Some (FyScalar (Some nt) []))))
        }))"

text \<open>The tag of a mapping is compared without a check that there is one.\<close>

definition emit_prepare_tree :: "emitter_env \<Rightarrow> asdf_file \<Rightarrow> fy_document \<Rightarrow> (bool \<times> asdf_file) option" where
  "emit_prepare_tree env f doc =
     (case fd_root doc of
        None \<Rightarrow> Some (False, f)
      | Some rt \<Rightarrow> do {
          let (tag0, f) = (case fy_tag rt of
                 None \<Rightarrow> (None, f)
               | Some t \<Rightarrow> let (ok, f) = file_alloc f in (if ok then Some t else None, f));
          (ok, f) \<leftarrow>
            (if \<not> fy_is_mapping rt then Some (True, f)
             else do {
               t \<leftarrow> tag0;
               Some (if t \<noteq> ASDF_CORE_ASDF_TAG then (True, f) else prepare_root env f)
             });
          (case (case af_tree f of None \<Rightarrow> None | Some d \<Rightarrow> fd_root d) of
             None \<Rightarrow> Some (ok, f)
           | Some rt \<Rightarrow>
               if empty_root rt then do { f \<leftarrow> replace_empty_root f tag0; Some (ok, f) }
               else Some (ok, f))
        })"

definition emit_tree :: "emitter_env \<Rightarrow> emission \<Rightarrow> (asdf_emitter_state \<times> emission) option" where
  "emit_tree env = (\<lambda>(f, e). do {
     (should, f) \<leftarrow> asdf_emitter_should_emit_tree env (f, e);
     if \<not> should then Some (ASDF_EMITTER_STATE_BLOCKS, (f, e))
     else do {
       (t, f) \<leftarrow> file_tree env f;
       (case t of
          None \<Rightarrow> Some (ASDF_EMITTER_STATE_ERROR, (f, e))
        | Some doc \<Rightarrow>
            (let (ok, f) = asdf_fy_emitter_create env f in
             if \<not> ok then Some (ASDF_EMITTER_STATE_ERROR, (f, e))
             else do {
               (ok, f) \<leftarrow> emit_prepare_tree env f doc;
               if \<not> ok then Some (ASDF_EMITTER_STATE_ERROR, (f, e))
               else do {
                 doc \<leftarrow> af_tree f;
                 (ok, fe) \<leftarrow> fy_emit_document env doc (f, e) [];
                 Some (if ok then ASDF_EMITTER_STATE_BLOCKS else ASDF_EMITTER_STATE_ERROR, fe)
               }
             }))
     }
   })"

text \<open>The loop over the blocks: \<open>todo\<close> are the blocks behind the first \<open>length done_blocks\<close> ones.\<close>

fun emit_block_list ::
  "emitter_env \<Rightarrow> bool \<Rightarrow> emission \<Rightarrow> asdf_block_info list \<Rightarrow> asdf_block_info list \<Rightarrow> (bool \<times> emission) option" where
  "emit_block_list env cksum fe done_blocks [] = Some (True, fe)"
| "emit_block_list env cksum fe done_blocks (b # todo) = do {
     s \<leftarrow> em_out fe;
     (ok, b, s) \<leftarrow> asdf_block_info_write (ee_os env) (ee_md5 env) (ee_cmp env) (ee_decomp env)
                     (map_option p_stream (af_parser (fst fe))) b s cksum;
     let (f, e) = em_put fe s;
     let fe = (f\<lparr>af_blocks := done_blocks @ b # todo\<rparr>, e);
     if \<not> ok then Some (False, fe)
     else do {
       fe \<leftarrow> emit_flush fe;
       emit_block_list env cksum fe (done_blocks @ [b]) todo
     }
   }"

definition emit_blocks :: "emitter_env \<Rightarrow> emission \<Rightarrow> (asdf_emitter_state \<times> emission) option" where
  "emit_blocks env = (\<lambda>(f, e). do {
     f \<leftarrow> (case af_parser f of
            Some p \<Rightarrow>
              if \<not> p_done p \<and> af_blocks f = []
              then do { (_, f) \<leftarrow> asdf_block_count (ee_parser env) f; Some f } else Some f
          | None \<Rightarrow> Some f);
     let cksum = (em_flags e AND ASDF_EMITTER_OPT_NO_BLOCK_CHECKSUM = 0);
     (ok, fe) \<leftarrow> emit_block_list env cksum (f, e) [] (af_blocks f);
     Some (if ok then ASDF_EMITTER_STATE_BLOCK_INDEX else ASDF_EMITTER_STATE_ERROR, fe)
   })"

text \<open>The index document: its root is the sequence of the header positions in decimal. Each node is an
  allocation; building stops at the first failure or the first negative position.\<close>

fun index_nodes :: "asdf_file \<Rightarrow> asdf_block_info list \<Rightarrow> (fy_node list option \<times> asdf_file)" where
  "index_nodes f [] = (Some [], f)"
| "index_nodes f (b # bs) =
     (if header_pos b < 0 then (None, f)
      else let (ok, f) = file_alloc f in
        if \<not> ok then (None, file_oom f)
        else let (ns, f) = index_nodes f bs in
          (map_option (\<lambda>ns. FyScalar None (dec (nat (header_pos b))) # ns) ns, f))"

definition index_document :: "emitter_env \<Rightarrow> asdf_file \<Rightarrow> fy_document option \<times> asdf_file" where
  "index_document env f =
     (case asdf_yaml_create_empty_document (ee_yaml env) None of
        None \<Rightarrow> (None, file_oom f)
      | Some doc \<Rightarrow>
          (let (ok, f) = file_alloc f in
           if \<not> ok then (None, file_oom f)
           else let (ns, f) = index_nodes f (af_blocks f) in
             (map_option (\<lambda>ns. doc\<lparr>fd_root := Some (FySequence None ns)\<rparr>) ns, f)))"

definition emit_block_index :: "emitter_env \<Rightarrow> emission \<Rightarrow> (asdf_emitter_state \<times> emission) option" where
  "emit_block_index env = (\<lambda>(f, e).
     if asdf_emitter_has_opt e ASDF_EMITTER_OPT_NO_BLOCK_INDEX \<or> af_blocks f = []
     then Some (ASDF_EMITTER_STATE_END, (f, e))
     else (case index_document env f of
       (None, f) \<Rightarrow> Some (ASDF_EMITTER_STATE_ERROR, (f, e))
     | (Some doc, f) \<Rightarrow> do {
         (ok, (f, e)) \<leftarrow> emit_strings (f, e) [asdf_block_index_header, [10]];
         if \<not> ok then Some (ASDF_EMITTER_STATE_ERROR, (f, e))
         else let (ok, f) = asdf_fy_emitter_create env f in
           if \<not> ok then Some (ASDF_EMITTER_STATE_ERROR, (file_oom f, e))
           else do {
             (ok, fe) \<leftarrow> fy_emit_document env doc (f, e) [];
             Some (if ok then ASDF_EMITTER_STATE_END else ASDF_EMITTER_STATE_ERROR, fe)
           }
       }))"

section \<open>The state machine\<close>

definition emitter_step :: "emitter_env \<Rightarrow> emission \<Rightarrow> (asdf_emitter_state \<times> emission) option" where
  "emitter_step env = (\<lambda>(f, e).
     (case em_state e of
        ASDF_EMITTER_STATE_INITIAL \<Rightarrow> do {
          (should, f) \<leftarrow> asdf_emitter_should_emit env (f, e);
          Some (if should then ASDF_EMITTER_STATE_ASDF_VERSION else ASDF_EMITTER_STATE_END, (f, e))
        }
      | ASDF_EMITTER_STATE_ASDF_VERSION \<Rightarrow> emit_asdf_version (f, e)
      | ASDF_EMITTER_STATE_STANDARD_VERSION \<Rightarrow> emit_standard_version (f, e)
      | ASDF_EMITTER_STATE_TREE \<Rightarrow> emit_tree env (f, e)
      | ASDF_EMITTER_STATE_BLOCKS \<Rightarrow> emit_blocks env (f, e)
      | ASDF_EMITTER_STATE_BLOCK_INDEX \<Rightarrow> emit_block_index env (f, e)
      | ASDF_EMITTER_STATE_END \<Rightarrow> Some (ASDF_EMITTER_STATE_END, (f, e))
      | ASDF_EMITTER_STATE_ERROR \<Rightarrow> Some (ASDF_EMITTER_STATE_ERROR, (f, e))))"

definition enter_state :: "asdf_emitter_state \<Rightarrow> asdf_emitter \<Rightarrow> asdf_emitter" where
  "enter_state st e = e\<lparr>em_state := st,
     em_done := (em_done e \<or> st = ASDF_EMITTER_STATE_ERROR \<or> st = ASDF_EMITTER_STATE_END)\<rparr>"

definition asdf_emitter_emit_one :: "emitter_env \<Rightarrow> emission \<Rightarrow> (asdf_emitter_state \<times> emission) option" where
  "asdf_emitter_emit_one env fe = do {
     (st, (f, e)) \<leftarrow> emitter_step env fe;
     Some (st, (f, enter_state st e))
   }"

text \<open>The loop carries the state last returned.\<close>

definition emit_until_step ::
  "emitter_env \<Rightarrow> asdf_emitter_state \<Rightarrow> asdf_emitter_state \<times> emission
     \<Rightarrow> (asdf_emitter_state \<times> emission + asdf_emitter_state \<times> emission) option" where
  "emit_until_step env target = (\<lambda>(next_state, fe).
     if \<not> em_done (snd fe) \<and> em_state (snd fe) \<noteq> target \<and> next_state \<noteq> ASDF_EMITTER_STATE_ERROR
     then map_option Inl (asdf_emitter_emit_one env fe)
     else Some (Inr (em_state (snd fe), fe)))"

definition asdf_emitter_emit_until ::
  "emitter_env \<Rightarrow> emission \<Rightarrow> asdf_emitter_state \<Rightarrow> (asdf_emitter_state \<times> emission) option" where
  "asdf_emitter_emit_until env fe target =
     loop_opt (emit_until_step env target) (em_state (snd fe), fe)"

definition asdf_emitter_emit :: "emitter_env \<Rightarrow> emission \<Rightarrow> (asdf_emitter_state \<times> emission) option" where
  "asdf_emitter_emit env fe = asdf_emitter_emit_until env fe ASDF_EMITTER_STATE_END"

end
