(* ===== verification/Asdf_Emitter_Laws.thy ===== *)
theory Asdf_Emitter_Laws
  imports Asdf_Emitter Asdf_Block_Codec
begin

text \<open>
  What the emitter guarantees: it goes through its states in order and stops, and on a stream that takes
  everything it writes exactly the two version lines, the tree, the images of the blocks and the block
  index, leaving in each block where it went. What it wrote, the parser reads back.
\<close>

section \<open>The order of the states\<close>

inductive emitter_edge :: "asdf_emitter_state \<Rightarrow> asdf_emitter_state \<Rightarrow> bool" where
  start: "emitter_edge ASDF_EMITTER_STATE_INITIAL ASDF_EMITTER_STATE_ASDF_VERSION"
| nothing: "emitter_edge ASDF_EMITTER_STATE_INITIAL ASDF_EMITTER_STATE_END"
| version: "emitter_edge ASDF_EMITTER_STATE_ASDF_VERSION ASDF_EMITTER_STATE_STANDARD_VERSION"
| standard: "emitter_edge ASDF_EMITTER_STATE_STANDARD_VERSION ASDF_EMITTER_STATE_TREE"
| tree: "emitter_edge ASDF_EMITTER_STATE_TREE ASDF_EMITTER_STATE_BLOCKS"
| blocks: "emitter_edge ASDF_EMITTER_STATE_BLOCKS ASDF_EMITTER_STATE_BLOCK_INDEX"
| index: "emitter_edge ASDF_EMITTER_STATE_BLOCK_INDEX ASDF_EMITTER_STATE_END"
| failed: "st \<notin> {ASDF_EMITTER_STATE_INITIAL, ASDF_EMITTER_STATE_END, ASDF_EMITTER_STATE_ERROR} \<Longrightarrow>
    emitter_edge st ASDF_EMITTER_STATE_ERROR"

inductive_simps emitter_edge_simps:
  "emitter_edge ASDF_EMITTER_STATE_INITIAL st" "emitter_edge ASDF_EMITTER_STATE_ASDF_VERSION st"
  "emitter_edge ASDF_EMITTER_STATE_STANDARD_VERSION st" "emitter_edge ASDF_EMITTER_STATE_TREE st"
  "emitter_edge ASDF_EMITTER_STATE_BLOCKS st" "emitter_edge ASDF_EMITTER_STATE_BLOCK_INDEX st"

definition emitter_final :: "asdf_emitter_state \<Rightarrow> bool" where
  "emitter_final st \<longleftrightarrow> st = ASDF_EMITTER_STATE_END \<or> st = ASDF_EMITTER_STATE_ERROR"

fun emitter_rank :: "asdf_emitter_state \<Rightarrow> nat" where
  "emitter_rank ASDF_EMITTER_STATE_INITIAL = 6"
| "emitter_rank ASDF_EMITTER_STATE_ASDF_VERSION = 5"
| "emitter_rank ASDF_EMITTER_STATE_STANDARD_VERSION = 4"
| "emitter_rank ASDF_EMITTER_STATE_TREE = 3"
| "emitter_rank ASDF_EMITTER_STATE_BLOCKS = 2"
| "emitter_rank ASDF_EMITTER_STATE_BLOCK_INDEX = 1"
| "emitter_rank ASDF_EMITTER_STATE_END = 0"
| "emitter_rank ASDF_EMITTER_STATE_ERROR = 0"

lemma emitter_edge_rank: "emitter_edge a b \<Longrightarrow> emitter_rank b < emitter_rank a"
  by (induction rule: emitter_edge.induct) (auto, rename_tac st, case_tac st, auto)

text \<open>A step changes the file and the output stream, nothing else of the emitter.\<close>

definition machine :: "emission \<Rightarrow> u64 \<times> asdf_emitter_state \<times> bool" where
  "machine fe = (em_flags (snd fe), em_state (snd fe), em_done (snd fe))"

lemma machine_simps [simp]:
  "machine (em_put fe s) = machine fe" "machine (f, e) = machine (f', e) \<longleftrightarrow> True"
  "machine (case em_put fe s of (f, e) \<Rightarrow> (g f, e)) = machine fe"
  by (cases fe; simp add: machine_def em_put_def)+

lemma machine_file: "machine (f, e) = machine (f', e)"
  by (simp add: machine_def)

lemma post_emit_write: "(\<And>n fe'. machine fe' = machine fe \<Longrightarrow> Q (n, fe')) \<Longrightarrow> post Q (emit_write fe bs)"
  unfolding emit_write_def
  by (intro post_rules post_any [of _ "em_out fe"] post_any [of _ "asdf_stream_write s bs" for s]) auto

lemma post_emit_flush: "(\<And>fe'. machine fe' = machine fe \<Longrightarrow> Q fe') \<Longrightarrow> post Q (emit_flush fe)"
  unfolding emit_flush_def
  by (intro post_rules post_any [of _ "em_out fe"] post_any [of _ "asdf_stream_flush s" for s]) auto

lemma post_emit_strings: "(\<And>b fe'. machine fe' = machine fe \<Longrightarrow> Q (b, fe')) \<Longrightarrow> post Q (emit_strings fe xs)"
proof (induction xs arbitrary: fe)
  case Nil
  then show ?case by (simp add: post_def)
next
  case (Cons x xs)
  show ?case
    unfolding emit_strings.simps
    by (intro post_rules post_emit_write) (auto simp: Cons.prems intro!: Cons.IH post_Some)
qed

lemma post_fy_emit: "(\<And>b fe'. machine fe' = machine fe \<Longrightarrow> Q (b, fe')) \<Longrightarrow> post Q (fy_emit_document env doc fe rs)"
proof -
  have "machine (snd r) = machine fe" if "fy_emit_document env doc fe rs = Some r" for r
  proof (rule fy_emit_document.raw_induct [of "\<lambda>env doc fe rs r. machine (snd r) = machine fe", OF _ that],
      goal_cases)
    case (1 fy env doc fe rs r)
    have step: "post (\<lambda>r. machine (snd r) = machine fe) (fy env doc fe rs)" for env doc fe rs
      by (rule postI) (rule 1(1))
    show ?case
      by (rule postD [OF _ 1(2)]) (intro post_rules post_emit_write; simp; metis (mono_tags) step post_def)
  qed
  then show "(\<And>b fe'. machine fe' = machine fe \<Longrightarrow> Q (b, fe')) \<Longrightarrow> post Q (fy_emit_document env doc fe rs)"
    by (auto simp: post_def)
qed

lemma post_emit_block_list:
  "(\<And>b fe'. machine fe' = machine fe \<Longrightarrow> Q (b, fe')) \<Longrightarrow> post Q (emit_block_list env cksum fe bs todo)"
proof (induction todo arbitrary: fe bs)
  case Nil
  then show ?case by (simp add: post_def)
next
  case (Cons b todo)
  have fl: "post (\<lambda>fe2. post Q (emit_block_list env cksum fe2 (bs @ [b']) todo)) (emit_flush fe1)"
    if "machine fe1 = machine fe" for fe1 b'
    by (intro post_emit_flush Cons.IH) (simp add: that Cons.prems)
  show ?case
    unfolding emit_block_list.simps
    by (intro post_rules fl post_any [of _ "em_out fe"]
        post_any [of _ "asdf_block_info_write os md5 cmp dec i b s c" for os md5 cmp dec i b s c])
       (auto simp: machine_def em_put_def Cons.prems split: prod.splits)
qed

lemmas post_emit = post_rules post_emit_write post_emit_flush post_emit_strings post_fy_emit post_emit_block_list
  post_any [of _ "asdf_emitter_should_emit_tree env fe" for env fe] post_any [of _ "em_out fe" for fe]
  post_any [of _ "asdf_emitter_should_emit env fe" for env fe]
  post_any [of _ "file_tree env f" for env f] post_any [of _ "emit_prepare_tree env f d" for env f d]
  post_any [of _ "af_tree f" for f] post_any [of _ "asdf_block_count env f" for env f]

text \<open>What a step from a state may lead to.\<close>

definition leads_to :: "asdf_emitter_state set \<Rightarrow> emission \<Rightarrow> asdf_emitter_state \<times> emission \<Rightarrow> bool" where
  "leads_to S fe = (\<lambda>(st, fe'). st \<in> S \<and> machine fe' = machine fe)"

lemma leads_to_same [simp]: "leads_to S (f, e) (st, (f', e)) \<longleftrightarrow> st \<in> S"
  by (simp add: leads_to_def machine_def)

lemma post_version_line: "post (leads_to {n, ASDF_EMITTER_STATE_ERROR} fe) (emit_version_line c v n fe)"
  unfolding emit_version_line_def by (intro post_emit) (simp_all add: leads_to_def)

lemma post_emit_tree:
  "post (leads_to {ASDF_EMITTER_STATE_BLOCKS, ASDF_EMITTER_STATE_ERROR} fe) (emit_tree env fe)"
  unfolding emit_tree_def
  by (intro post_emit) (simp_all add: leads_to_def machine_def)

lemma post_emit_blocks:
  "post (leads_to {ASDF_EMITTER_STATE_BLOCK_INDEX, ASDF_EMITTER_STATE_ERROR} fe) (emit_blocks env fe)"
  unfolding emit_blocks_def
  by (intro post_emit) (simp_all add: leads_to_def machine_def post_any)

lemma post_emit_block_index:
  "post (leads_to {ASDF_EMITTER_STATE_END, ASDF_EMITTER_STATE_ERROR} fe) (emit_block_index env fe)"
  unfolding emit_block_index_def
  by (intro post_emit) (simp_all add: leads_to_def machine_def)

lemma emitter_step_post:
  assumes "\<not> emitter_final (em_state e)"
  shows "post (leads_to (Collect (emitter_edge (em_state e))) (f, e)) (emitter_step env (f, e))"
proof -
  have sub: "post (leads_to S (f, e)) m \<Longrightarrow> S \<subseteq> T \<Longrightarrow> post (leads_to T (f, e)) m" for S T m
    by (auto simp: post_def leads_to_def)
  show ?thesis
    using assms
    by (cases "em_state e")
       (auto simp: emitter_step_def emitter_final_def emitter_edge_simps emit_asdf_version_def
         emit_standard_version_def
         intro!: post_bind post_any [of _ "em_out fe" for fe] post_None post_Some
           sub [OF post_version_line] sub [OF post_emit_tree] sub [OF post_emit_blocks]
           sub [OF post_emit_block_index] post_any [of _ "asdf_emitter_should_emit env fe" for fe]
         split: if_splits)
qed

text \<open>The emissions reached from one by whole steps.\<close>

inductive emits_to :: "emitter_env \<Rightarrow> emission \<Rightarrow> emission \<Rightarrow> bool" for env where
  refl: "emits_to env fe fe"
| step: "asdf_emitter_emit_one env fe = Some (st, fe1) \<Longrightarrow> emits_to env fe1 fe' \<Longrightarrow> emits_to env fe fe'"

definition emitter_ok :: "asdf_emitter \<Rightarrow> bool" where
  "emitter_ok e \<longleftrightarrow> (em_done e \<longleftrightarrow> emitter_final (em_state e))"

lemma emit_one_cases:
  assumes "\<not> emitter_final (em_state e)" and "asdf_emitter_emit_one env (f, e) = Some (st, fe')"
  shows "emitter_edge (em_state e) st \<and> em_state (snd fe') = st \<and> em_flags (snd fe') = em_flags e \<and>
    (em_done (snd fe') \<longleftrightarrow> em_done e \<or> emitter_final st)"
proof -
  from assms(2) obtain f1 e1 where s: "emitter_step env (f, e) = Some (st, f1, e1)" "fe' = (f1, enter_state st e1)"
    by (auto simp: asdf_emitter_emit_one_def bind_eq_Some_conv)
  from postD [OF emitter_step_post [OF assms(1)] s(1)]
  show ?thesis by (auto simp: leads_to_def machine_def s(2) enter_state_def emitter_final_def)
qed

lemma emit_loop_returns:
  assumes "emitter_ok (snd fe)"
    and "\<And>fe'. emits_to env fe fe' \<Longrightarrow> \<not> emitter_final (em_state (snd fe')) \<Longrightarrow> emitter_step env fe' \<noteq> None"
  shows "\<exists>fe'. asdf_emitter_emit env fe = Some (em_state (snd fe'), fe') \<and> emits_to env fe fe' \<and>
    emitter_ok (snd fe') \<and> emitter_final (em_state (snd fe'))"
  using assms
proof (induction "emitter_rank (em_state (snd fe))" arbitrary: fe rule: less_induct)
  case less
  obtain f e where fe: "fe = (f, e)" by (cases fe)
  let ?loop = "loop_opt (emit_until_step env ASDF_EMITTER_STATE_END)"
  show ?case
  proof (cases "emitter_final (em_state e)")
    case True
    then have "emit_until_step env ASDF_EMITTER_STATE_END (em_state e, fe) = Some (Inr (em_state e, fe))"
      using less.prems(1) by (auto simp: emit_until_step_def fe emitter_ok_def)
    then have "?loop (em_state e, fe) = Some (em_state e, fe)" by (rule loop_opt_Inr)
    with True less.prems(1) show ?thesis
      by (intro exI [of _ fe])
         (auto simp: fe emits_to.refl asdf_emitter_emit_def asdf_emitter_emit_until_def)
  next
    case False
    then obtain st fe1 where one: "asdf_emitter_emit_one env fe = Some (st, fe1)"
      using less.prems(2) [OF emits_to.refl] by (auto simp: fe asdf_emitter_emit_one_def)
    note c = emit_one_cases [OF False, of env f st fe1, folded fe, OF one]
    have ok: "\<not> em_done e" using less.prems(1) False by (simp add: fe emitter_ok_def)
    have st: "em_state e \<noteq> ASDF_EMITTER_STATE_END" "em_state e \<noteq> ASDF_EMITTER_STATE_ERROR"
      using False by (auto simp: emitter_final_def)
    have unfold: "?loop (em_state e, fe) = ?loop (st, fe1)"
      by (rule loop_opt_Inl) (simp add: emit_until_step_def fe ok st one [unfolded fe])
    have "emitter_ok (snd fe1)" using c ok by (auto simp: emitter_ok_def)
    with less.hyps [of fe1] c emitter_edge_rank [of "em_state e" st] less.prems(2) emits_to.step [OF one]
    obtain fe' where "asdf_emitter_emit env fe1 = Some (em_state (snd fe'), fe')" "emits_to env fe1 fe'"
      "emitter_ok (snd fe')" "emitter_final (em_state (snd fe'))"
      by (force simp: fe)
    note r = this
    have "asdf_emitter_emit env fe = Some (em_state (snd fe'), fe')"
      using r(1) unfold c by (simp add: fe asdf_emitter_emit_def asdf_emitter_emit_until_def)
    with r emits_to.step [OF one r(2)] show ?thesis by blast
  qed
qed

section \<open>Writing to a sink\<close>

text \<open>What the emitter needs of its output beside the laws of a sink: flushing works, and memory is
  not short.\<close>

locale emit_sink = byte_sink +
  assumes flush_law: "ok s \<Longrightarrow> asdf_stream_flush s = Some (0, s)"
    and heap_law: "ok s \<Longrightarrow> ctx_heap (s_ctx s) = []"
begin

definition sink_at :: "emission \<Rightarrow> bytes \<Rightarrow> bool" where
  "sink_at fe w \<longleftrightarrow> (\<exists>s. em_out fe = Some s \<and> ok s \<and> written s = w)"

text \<open>The same emission with more written: the file and the state of the emitter are as before.\<close>

definition wrote :: "emission \<Rightarrow> bytes \<Rightarrow> emission \<Rightarrow> bool" where
  "wrote fe w fe' \<longleftrightarrow> (\<exists>t. fe' = (fst fe, (snd fe)\<lparr>em_stream := Some t\<rparr>)) \<and> sink_at fe' w"

lemma sink_heap: "sink_at (f, e) w \<Longrightarrow> ctx_heap (af_ctx f) = []"
  using heap_law by (fastforce simp: sink_at_def em_out_def)

lemma sink_alloc: "sink_at (f, e) w \<Longrightarrow> file_alloc f = (True, f)"
  using sink_heap by (simp add: file_alloc_def ctx_alloc_ok)

lemma wrote_refl: assumes "sink_at fe w" shows "wrote fe w fe"
proof -
  obtain f e where fe: "fe = (f, e)" by (cases fe)
  with assms obtain t where "em_stream e = Some t" by (auto simp: sink_at_def em_out_def)
  then have "e = e\<lparr>em_stream := Some t\<rparr>" by simp
  with assms show ?thesis unfolding wrote_def fe fst_conv snd_conv by blast
qed

lemma wrote_trans: "wrote a v b \<Longrightarrow> wrote b w c \<Longrightarrow> wrote a w c"
  by (auto simp: wrote_def)

lemma wrote_sink: "wrote fe w fe' \<Longrightarrow> sink_at fe' w"
  by (simp add: wrote_def)

lemma emit_write_law:
  assumes "sink_at fe w" and "length w + length bs \<le> 2 ^ 62"
  shows "\<exists>fe'. emit_write fe bs = Some (length bs, fe') \<and> wrote fe (w @ bs) fe'"
proof -
  obtain f e where fe: "fe = (f, e)" by (cases fe)
  from assms(1) obtain s where s: "em_out fe = Some s" "ok s" "written s = w" by (auto simp: sink_at_def)
  from write_law [OF s(2), of bs] assms(2) s(3) obtain s' where
    w: "asdf_stream_write s bs = Some (length bs, s')" "ok s'" "written s' = w @ bs" "same_frame s s'"
    by auto
  have ctx: "s_ctx s' = af_ctx f" using s(1) w(4) by (auto simp: fe em_out_def same_frame_def)
  then have put: "em_put fe s' = (f, e\<lparr>em_stream := Some s'\<rparr>)" by (simp add: em_put_def fe)
  have "s'\<lparr>s_ctx := af_ctx f\<rparr> = s'" using ctx by (metis asdf_stream.surjective asdf_stream.update_convs(1))
  then have "sink_at (f, e\<lparr>em_stream := Some s'\<rparr>) (w @ bs)" using w by (simp add: sink_at_def em_out_def)
  then show ?thesis using s w put by (auto simp: emit_write_def wrote_def fe)
qed

lemma emit_strings_law:
  "sink_at fe w \<Longrightarrow> length w + length (concat xs) \<le> 2 ^ 62 \<Longrightarrow>
   \<exists>fe'. emit_strings fe xs = Some (True, fe') \<and> wrote fe (w @ concat xs) fe'"
proof (induction xs arbitrary: fe w)
  case Nil
  then show ?case using wrote_refl by simp
next
  case (Cons x xs)
  from emit_write_law [OF Cons.prems(1), of x] Cons.prems(2) obtain fe1 where
    1: "emit_write fe x = Some (length x, fe1)" "wrote fe (w @ x) fe1" by auto
  from Cons.IH [OF wrote_sink [OF 1(2)]] Cons.prems(2) obtain fe2 where
    2: "emit_strings fe1 xs = Some (True, fe2)" "wrote fe1 ((w @ x) @ concat xs) fe2"
    by auto
  with 1 wrote_trans [OF 1(2) 2(2)] show ?case by auto
qed

lemma emit_flush_law: "sink_at fe w \<Longrightarrow> \<exists>fe'. emit_flush fe = Some fe' \<and> wrote fe w fe'"
proof -
  assume "sink_at fe w"
  then obtain s where s: "em_out fe = Some s" "ok s" "written s = w" by (auto simp: sink_at_def)
  obtain f e where fe: "fe = (f, e)" by (cases fe)
  have c: "s_ctx s = af_ctx f" using s(1) by (auto simp: fe em_out_def)
  then have "s\<lparr>s_ctx := af_ctx f\<rparr> = s" by (metis asdf_stream.surjective asdf_stream.update_convs(1))
  with s c show ?thesis
    by (auto simp: emit_flush_def flush_law wrote_def sink_at_def em_out_def em_put_def fe)
qed

lemma emit_version_law:
  assumes "sink_at fe w" and "length w + length c + length v + 1 \<le> 2 ^ 62"
  shows "\<exists>fe'. emit_version_line c v n fe = Some (n, fe') \<and> wrote fe (w @ c @ v @ [10]) fe'"
proof -
  from emit_strings_law [OF assms(1), of "[c, v, [10]]"] assms(2) obtain fe1 where
    1: "emit_strings fe [c, v, [10]] = Some (True, fe1)" "wrote fe (w @ c @ v @ [10]) fe1" by auto
  from emit_flush_law [OF wrote_sink [OF 1(2)]] obtain fe2 where
    2: "emit_flush fe1 = Some fe2" "wrote fe1 (w @ c @ v @ [10]) fe2" by auto
  with 1 wrote_trans [OF 1(2) 2(2)] show ?thesis
    by (auto simp: emit_version_line_def simp del: emit_strings.simps)
qed


text \<open>The blocks: each with its source, its stored bytes and its compression field.\<close>

end

record block_plan =
  pl_block :: asdf_block_info
  pl_payload :: bytes
  pl_field :: bytes

definition plan_ok :: "emitter_env \<Rightarrow> block_plan \<Rightarrow> bool" where
  "plan_ok env p \<longleftrightarrow>
     (\<exists>src name. block_info_source (ee_os env) None (pl_block p) = Some (src, None) \<and> src \<noteq> Source_failed \<and>
        block_info_payload (ee_cmp env) (ee_decomp env) (pl_block p) src = Inr (pl_payload p, name) \<and>
        comp_field name = Some (pl_field p)) \<and>
     length (ee_md5 env (pl_payload p)) = 16 \<and> length (checksum (bi_header (pl_block p))) = 16"

definition plan_header :: "emitter_env \<Rightarrow> bool \<Rightarrow> block_plan \<Rightarrow> asdf_block_header" where
  "plan_header env cksum p =
     written_header (ee_md5 env) cksum (pl_field p) (pl_payload p) (bi_header (pl_block p))"

definition plan_image :: "emitter_env \<Rightarrow> bool \<Rightarrow> block_plan \<Rightarrow> bytes" where
  "plan_image env cksum p = block_image (plan_header env cksum p) (pl_payload p)"

text \<open>A block after it was written at an offset, and a list of blocks written one after the other.\<close>

definition plan_done :: "emitter_env \<Rightarrow> bool \<Rightarrow> nat \<Rightarrow> block_plan \<Rightarrow> asdf_block_info" where
  "plan_done env cksum off p = (pl_block p)\<lparr>header_pos := int off,
     data_pos := int (off + ASDF_BLOCK_HEADER_FULL_SIZE),
     bi_header := (bi_header (pl_block p))\<lparr>checksum := checksum (plan_header env cksum p)\<rparr>\<rparr>"

fun plans_done :: "emitter_env \<Rightarrow> bool \<Rightarrow> nat \<Rightarrow> block_plan list \<Rightarrow> asdf_block_info list" where
  "plans_done env cksum off [] = []"
| "plans_done env cksum off (p # ps) =
     plan_done env cksum off p # plans_done env cksum (off + length (plan_image env cksum p)) ps"

definition plans_image :: "emitter_env \<Rightarrow> bool \<Rightarrow> block_plan list \<Rightarrow> bytes" where
  "plans_image env cksum ps = concat (map (plan_image env cksum) ps)"

lemma plans_image_simps [simp]:
  "plans_image env cksum [] = []"
  "plans_image env cksum (p # ps) = plan_image env cksum p @ plans_image env cksum ps"
  by (simp_all add: plans_image_def)

context emit_sink
begin

lemma sink_file: "sink_at (f, e) w \<Longrightarrow> af_ctx f' = af_ctx f \<Longrightarrow> sink_at (f', e) w"
  by (simp add: sink_at_def em_out_def)

lemma emit_block_list_law:
  assumes "sink_at (f, e) w" and "af_parser f = None" and "list_all (plan_ok env) ps"
    and "af_blocks f = bs @ map pl_block ps"
    and "length w + length (plans_image env cksum ps) \<le> 2 ^ 62"
  shows "\<exists>t. emit_block_list env cksum (f, e) bs (map pl_block ps) =
      Some (True, (f\<lparr>af_blocks := bs @ plans_done env cksum (length w) ps\<rparr>, e\<lparr>em_stream := Some t\<rparr>)) \<and>
    sink_at (f\<lparr>af_blocks := bs @ plans_done env cksum (length w) ps\<rparr>, e\<lparr>em_stream := Some t\<rparr>)
      (w @ plans_image env cksum ps)"
  using assms
proof (induction ps arbitrary: f e w bs)
  case Nil
  then have "f\<lparr>af_blocks := bs\<rparr> = f" by simp
  with Nil wrote_refl [OF Nil.prems(1)] show ?case by (auto simp: wrote_def)
next
  case (Cons p ps)
  from Cons.prems(1) obtain s where s: "em_out (f, e) = Some s" "ok s" "written s = w" by (auto simp: sink_at_def)
  from Cons.prems(3) obtain src name where
    src: "block_info_source (ee_os env) None (pl_block p) = Some (src, None)" "src \<noteq> Source_failed"
      "block_info_payload (ee_cmp env) (ee_decomp env) (pl_block p) src = Inr (pl_payload p, name)"
      "comp_field name = Some (pl_field p)"
      "length (ee_md5 env (pl_payload p)) = 16" "length (checksum (bi_header (pl_block p))) = 16"
    by (auto simp: plan_ok_def)
  let ?b = "plan_done env cksum (length w) p"
  have "length (written s) + length (block_image (plan_header env cksum p) (pl_payload p)) \<le> 2 ^ 62"
    using Cons.prems(5) s(3) by (simp add: plan_image_def)
  from write_block_law [where ?md5.0 = "ee_md5 env" and cksum = cksum, OF s(2) src plan_header_def this] s(3)
  obtain s' where
    w: "asdf_block_info_write (ee_os env) (ee_md5 env) (ee_cmp env) (ee_decomp env) None (pl_block p) s cksum =
        Some (True, ?b, s')" "ok s'" "written s' = w @ plan_image env cksum p" "same_frame s s'"
    unfolding plan_done_def plan_image_def by blast
  have ctx: "s_ctx s' = af_ctx f" using s(1) w(4) by (auto simp: em_out_def same_frame_def)
  have sf: "s'\<lparr>s_ctx := af_ctx f\<rparr> = s'" using ctx by (metis asdf_stream.surjective asdf_stream.update_convs(1))
  let ?f1 = "f\<lparr>af_blocks := bs @ ?b # map pl_block ps\<rparr>" and ?e1 = "e\<lparr>em_stream := Some s'\<rparr>"
  have put: "em_put (f, e) s' = (f, ?e1)" by (simp add: em_put_def ctx)
  have "sink_at (?f1, ?e1) (w @ plan_image env cksum p)" using w sf by (simp add: sink_at_def em_out_def)
  from emit_flush_law [OF this] obtain t1 where
    fl: "emit_flush (?f1, ?e1) = Some (?f1, e\<lparr>em_stream := Some t1\<rparr>)"
      "sink_at (?f1, e\<lparr>em_stream := Some t1\<rparr>) (w @ plan_image env cksum p)"
    by (auto simp: wrote_def)
  from Cons.IH [OF fl(2), of "bs @ [?b]"] Cons.prems(2-) obtain t where
    "emit_block_list env cksum (?f1, e\<lparr>em_stream := Some t1\<rparr>) (bs @ [?b]) (map pl_block ps) =
      Some (True, (f\<lparr>af_blocks := bs @ plans_done env cksum (length w) (p # ps)\<rparr>, e\<lparr>em_stream := Some t\<rparr>))"
    "sink_at (f\<lparr>af_blocks := bs @ plans_done env cksum (length w) (p # ps)\<rparr>, e\<lparr>em_stream := Some t\<rparr>)
      (w @ plans_image env cksum (p # ps))"
    by auto
  then show ?case
    using s(1) w(1) put fl(1) Cons.prems(2) by (auto simp: Let_def)
qed

end

text \<open>What libfyaml hands to the output callback when every write succeeds.\<close>

fun fy_emits :: "emitter_env \<Rightarrow> fy_document \<Rightarrow> nat list \<Rightarrow> bytes list \<Rightarrow> bool" where
  "fy_emits env doc rs [] \<longleftrightarrow> fy_piece env doc rs = None \<and> fy_result env doc rs"
| "fy_emits env doc rs (x # xs) \<longleftrightarrow>
     fy_piece env doc rs = Some x \<and> fy_emits env doc (rs @ [length x]) xs"

text \<open>Either there is no tree to write, or its root is a tagged mapping that is not empty, and it is
  written as the update of its metadata leaves it.\<close>

definition tree_ok :: "emitter_env \<Rightarrow> emission \<Rightarrow> fy_document option \<Rightarrow> bytes list \<Rightarrow> bool" where
  "tree_ok env = (\<lambda>(f, e) t xs.
     (case t of
        None \<Rightarrow> xs = [] \<and> af_history f = [] \<and> af_tree f = None \<and> af_stream f = None \<and> \<not> emit_empty_tree e
      | Some doc' \<Rightarrow>
          (\<exists>doc rt tag rt'. af_tree f = Some doc \<and> fd_root doc = Some rt \<and> \<not> fy_mapping_is_empty rt \<and>
             fy_tag rt = Some tag \<and> fd_root doc' = Some rt' \<and> \<not> empty_root rt' \<and>
             (if tag = ASDF_CORE_ASDF_TAG then prepare_root env f = (True, f\<lparr>af_tree := Some doc'\<rparr>)
              else doc' = doc)) \<and>
          fy_emitter_ok env \<and> fy_emits env doc' [] xs))"

definition position_node :: "asdf_block_info \<Rightarrow> fy_node" where
  "position_node b = FyScalar None (dec (nat (header_pos b)))"

definition writes_index :: "asdf_emitter \<Rightarrow> asdf_block_info list \<Rightarrow> bool" where
  "writes_index e bs \<longleftrightarrow> \<not> asdf_emitter_has_opt e ASDF_EMITTER_OPT_NO_BLOCK_INDEX \<and> bs \<noteq> []"

definition index_written :: "emitter_env \<Rightarrow> asdf_block_info list \<Rightarrow> bytes list \<Rightarrow> bool" where
  "index_written env bs ys \<longleftrightarrow> fy_emitter_ok env \<and>
     (\<exists>d. fy_build (ee_yaml env) asdf_yaml_empty_document = Some d \<and>
        fy_emits env (d\<lparr>fd_root := Some (FySequence None (map position_node bs))\<rparr>) [] ys)"

definition index_image :: "bytes list \<Rightarrow> bytes" where
  "index_image ys = asdf_block_index_header @ [10] @ concat ys"

lemma plans_positions: "b \<in> set (plans_done env cksum off ps) \<Longrightarrow> 0 \<le> header_pos b"
  by (induction ps arbitrary: off) (auto simp: plan_done_def)

lemma emit_next:
  assumes "\<not> em_done e" and "\<not> emitter_final (em_state e)" and "emitter_step env (f, e) = Some (st, (f1, e1))"
  shows "asdf_emitter_emit env (f, e) = asdf_emitter_emit env (f1, enter_state st e1)"
proof -
  have "emit_until_step env ASDF_EMITTER_STATE_END (em_state e, f, e) = Some (Inl (st, f1, enter_state st e1))"
    using assms by (auto simp: emit_until_step_def asdf_emitter_emit_one_def emitter_final_def)
  from loop_opt_Inl [of "emit_until_step env ASDF_EMITTER_STATE_END", OF this] show ?thesis
    by (simp add: asdf_emitter_emit_def asdf_emitter_emit_until_def enter_state_def)
qed

lemma emit_end:
  assumes "em_state e = ASDF_EMITTER_STATE_END"
  shows "asdf_emitter_emit env (f, e) = Some (ASDF_EMITTER_STATE_END, (f, e))"
proof -
  have "emit_until_step env ASDF_EMITTER_STATE_END (em_state e, f, e) = Some (Inr (em_state e, f, e))"
    using assms by (simp add: emit_until_step_def)
  from loop_opt_Inr [of "emit_until_step env ASDF_EMITTER_STATE_END", OF this] show ?thesis
    using assms by (simp add: asdf_emitter_emit_def asdf_emitter_emit_until_def)
qed

context emit_sink
begin

lemma fy_emit_law:
  "sink_at fe w \<Longrightarrow> fy_emits env doc rs xs \<Longrightarrow> length w + length (concat xs) \<le> 2 ^ 62 \<Longrightarrow>
   \<exists>fe'. fy_emit_document env doc fe rs = Some (True, fe') \<and> wrote fe (w @ concat xs) fe'"
proof (induction xs arbitrary: fe w rs)
  case Nil
  then show ?case using wrote_refl by (auto simp: fy_emit_document.simps [of env doc fe rs])
next
  case (Cons x xs)
  from emit_write_law [OF Cons.prems(1), of x] Cons.prems(3) obtain fe1 where
    1: "emit_write fe x = Some (length x, fe1)" "wrote fe (w @ x) fe1" by auto
  from Cons.IH [OF wrote_sink [OF 1(2)], of "rs @ [length x]"] Cons.prems(2,3) obtain fe2 where
    2: "fy_emit_document env doc fe1 (rs @ [length x]) = Some (True, fe2)"
      "wrote fe1 ((w @ x) @ concat xs) fe2"
    by auto
  with 1 wrote_trans [OF 1(2) 2(2)] Cons.prems(2) show ?case
    by (auto simp: fy_emit_document.simps [of env doc fe rs])
qed

lemma fy_create_law: "sink_at (f, e) w \<Longrightarrow> fy_emitter_ok env \<Longrightarrow> asdf_fy_emitter_create env f = (True, f)"
  by (simp add: asdf_fy_emitter_create_def sink_alloc)

lemma should_emit_tree_law:
  assumes "tree_ok env (f, e) t xs"
  shows "asdf_emitter_should_emit_tree env (f, e) = Some (t \<noteq> None, f)"
  using assms
  by (auto simp: tree_ok_def asdf_emitter_should_emit_tree_def file_tree_def asdf_file_tree_document_def
      split: option.splits)

lemma emit_tree_law:
  assumes "sink_at (f, e) w" and "tree_ok env (f, e) t xs" and "length w + length (concat xs) \<le> 2 ^ 62"
  shows "\<exists>s. emit_tree env (f, e) =
      Some (ASDF_EMITTER_STATE_BLOCKS, (f\<lparr>af_tree := t\<rparr>, e\<lparr>em_stream := Some s\<rparr>)) \<and>
    sink_at (f\<lparr>af_tree := t\<rparr>, e\<lparr>em_stream := Some s\<rparr>) (w @ concat xs)"
proof (cases t)
  case None
  with assms(2) have "f\<lparr>af_tree := t\<rparr> = f" "xs = []" by (auto simp: tree_ok_def)
  with wrote_refl [OF assms(1)] should_emit_tree_law [OF assms(2)] None assms(1) show ?thesis
    by (auto simp: emit_tree_def wrote_def)
next
  case (Some doc')
  with assms(2) obtain doc rt tag rt' where d: "af_tree f = Some doc" "fd_root doc = Some rt"
    "\<not> fy_mapping_is_empty rt" "fy_tag rt = Some tag" "fd_root doc' = Some rt'" "\<not> empty_root rt'"
    "if tag = ASDF_CORE_ASDF_TAG then prepare_root env f = (True, f\<lparr>af_tree := Some doc'\<rparr>) else doc' = doc"
    and fy: "fy_emitter_ok env" "fy_emits env doc' [] xs"
    by (auto simp: tree_ok_def)
  let ?f1 = "f\<lparr>af_tree := Some doc'\<rparr>"
  have map: "fy_is_mapping rt" using d(3) by (cases rt) (auto simp: fy_mapping_is_empty_def)
  have same: "doc' = doc \<Longrightarrow> f = ?f1" using d(1) by simp
  have prep: "emit_prepare_tree env f doc = Some (True, ?f1)"
    using d map same by (auto simp: emit_prepare_tree_def sink_alloc [OF assms(1)] split: if_splits)
  have tree: "file_tree env f = Some (Some doc, f)"
    using d(1) by (simp add: file_tree_def asdf_file_tree_document_def)
  have "sink_at (?f1, e) w" using assms(1) by (rule sink_file) simp
  from fy_emit_law [OF this fy(2) assms(3)] obtain s where
    "fy_emit_document env doc' (?f1, e) [] = Some (True, (?f1, e\<lparr>em_stream := Some s\<rparr>))"
    "sink_at (?f1, e\<lparr>em_stream := Some s\<rparr>) (w @ concat xs)"
    by (auto simp: wrote_def)
  with should_emit_tree_law [OF assms(2)] tree prep fy_create_law [OF assms(1) fy(1)] Some show ?thesis
    by (auto simp: emit_tree_def)
qed

lemma index_nodes_law:
  "sink_at (f, e) w \<Longrightarrow> \<forall>b \<in> set bs. 0 \<le> header_pos b \<Longrightarrow> index_nodes f bs = (Some (map position_node bs), f)"
  by (induction bs) (auto simp: sink_alloc position_node_def)

lemma emit_index_law:
  assumes "sink_at (f, e) w" and "\<forall>b \<in> set (af_blocks f). 0 \<le> header_pos b"
    and "writes_index e (af_blocks f)" and "index_written env (af_blocks f) ys"
    and "length w + length (index_image ys) \<le> 2 ^ 62"
  shows "\<exists>s. emit_block_index env (f, e) = Some (ASDF_EMITTER_STATE_END, (f, e\<lparr>em_stream := Some s\<rparr>)) \<and>
    sink_at (f, e\<lparr>em_stream := Some s\<rparr>) (w @ index_image ys)"
proof -
  from assms(4) obtain d where fy: "fy_emitter_ok env" and d: "fy_build (ee_yaml env) asdf_yaml_empty_document = Some d"
    and ys: "fy_emits env (d\<lparr>fd_root := Some (FySequence None (map position_node (af_blocks f)))\<rparr>) [] ys"
    by (auto simp: index_written_def)
  let ?doc = "d\<lparr>fd_root := Some (FySequence None (map position_node (af_blocks f)))\<rparr>"
  have doc: "index_document env f = (Some ?doc, f)"
    using d by (simp add: index_document_def asdf_yaml_create_empty_document_def sink_alloc [OF assms(1)]
        index_nodes_law [OF assms(1,2)])
  from emit_strings_law [OF assms(1), of "[asdf_block_index_header, [10]]"] assms(5) obtain s1 where
    1: "emit_strings (f, e) [asdf_block_index_header, [10]] = Some (True, (f, e\<lparr>em_stream := Some s1\<rparr>))"
      "sink_at (f, e\<lparr>em_stream := Some s1\<rparr>) (w @ asdf_block_index_header @ [10])"
    by (auto simp: wrote_def index_image_def simp del: emit_strings.simps)
  from fy_emit_law [OF 1(2) ys] assms(5) obtain s2 where
    2: "fy_emit_document env ?doc (f, e\<lparr>em_stream := Some s1\<rparr>) [] = Some (True, (f, e\<lparr>em_stream := Some s2\<rparr>))"
      "sink_at (f, e\<lparr>em_stream := Some s2\<rparr>) (w @ index_image ys)"
    by (auto simp: wrote_def index_image_def)
  with 1(1) doc fy_create_law [OF 1(2) fy] assms(3) show ?thesis
    by (auto simp: emit_block_index_def writes_index_def simp del: emit_strings.simps)
qed

end

section \<open>Properties\<close>

text \<open>C22. A step of the emitter from a state that is not final goes along an edge of the graph of states,
  ends in the state it returns, sets the done flag exactly in a final state and leaves the flags.\<close>

theorem emitter_follows_edges:
  assumes "\<not> emitter_final (em_state e)" and "\<not> em_done e"
    and "asdf_emitter_emit_one env (f, e) = Some (st, (f', e'))"
  shows "emitter_edge (em_state e) st \<and> em_state e' = st \<and> (em_done e' \<longleftrightarrow> emitter_final st) \<and>
    em_flags e' = em_flags e"
  using emit_one_cases [OF assms(1,3)] assms(2) by simp

text \<open>C23. A run of the emitter whose steps are all defined ends: it gives the state it stopped in, which is
  the end or an error, and says that it is done.\<close>

theorem emitter_stops:
  assumes "emitter_ok e"
    and "\<And>fe'. emits_to env (f, e) fe' \<Longrightarrow> \<not> emitter_final (em_state (snd fe')) \<Longrightarrow> emitter_step env fe' \<noteq> None"
  shows "\<exists>f' e'. asdf_emitter_emit env (f, e) = Some (em_state e', (f', e')) \<and> emits_to env (f, e) (f', e') \<and>
    em_done e' \<and> (em_state e' = ASDF_EMITTER_STATE_END \<or> em_state e' = ASDF_EMITTER_STATE_ERROR)"
proof -
  obtain fe' where "asdf_emitter_emit env (f, e) = Some (em_state (snd fe'), fe')" "emits_to env (f, e) fe'"
    "emitter_ok (snd fe')" "emitter_final (em_state (snd fe'))"
    using emit_loop_returns [of "(f, e)" env] assms by auto
  then show ?thesis by (cases fe') (auto simp: emitter_ok_def emitter_final_def)
qed

definition nothing_file :: asdf_file where
  "nothing_file = \<lparr>af_ctx = the (fst (asdf_context_create [])), af_config = asdf_config_default,
     af_mode = ASDF_FILE_MODE_WRITE_ONLY, af_stream = None, af_parser = None, af_tree = None,
     af_blocks = [], af_tag_map = [], af_history = [], af_cleanups = []\<rparr>"

definition fresh_emitter :: asdf_emitter where
  "fresh_emitter = \<lparr>em_flags = 0, em_state = ASDF_EMITTER_STATE_INITIAL, em_stream = None, em_done = False\<rparr>"

lemma nothing_step:
  "emitter_step env (nothing_file, fresh_emitter) = Some (ASDF_EMITTER_STATE_END, (nothing_file, fresh_emitter))"
  "asdf_emitter_emit_one env (nothing_file, fresh_emitter) =
     Some (ASDF_EMITTER_STATE_END, (nothing_file, enter_state ASDF_EMITTER_STATE_END fresh_emitter))"
  by (simp_all add: asdf_emitter_emit_one_def emitter_step_def asdf_emitter_should_emit_def
      asdf_emitter_should_emit_tree_def nothing_file_def fresh_emitter_def emit_empty_tree_def
      asdf_emitter_has_opt_def ASDF_EMITTER_OPT_EMIT_EMPTY_TREE_def ASDF_EMITTER_OPT_EMIT_EMPTY_def)

lemma nothing_reached:
  assumes "emits_to env (nothing_file, fresh_emitter) fe'" and "\<not> emitter_final (em_state (snd fe'))"
  shows "fe' = (nothing_file, fresh_emitter)"
proof -
  have final: "em_state (snd b) = ASDF_EMITTER_STATE_END"
    if "emits_to env a b" "em_state (snd a) = ASDF_EMITTER_STATE_END" for a b
    using that
    by induction (auto simp: asdf_emitter_emit_one_def emitter_step_def enter_state_def bind_eq_Some_conv
        split: prod.splits)
  from assms show ?thesis
    by (cases rule: emits_to.cases)
       (auto simp: nothing_step emitter_final_def enter_state_def dest!: final)
qed

theorem emitter_follows_edges_witness:
  "emitter_edge ASDF_EMITTER_STATE_INITIAL ASDF_EMITTER_STATE_END \<and>
   em_done (enter_state ASDF_EMITTER_STATE_END fresh_emitter)"
  using emitter_follows_edges [OF _ _ nothing_step(2)] by (simp add: fresh_emitter_def emitter_final_def)

theorem emitter_stops_witness:
  "\<forall>env. \<exists>f' e'. asdf_emitter_emit env (nothing_file, fresh_emitter) = Some (em_state e', (f', e')) \<and> em_done e'"
proof
  fix env
  have "emitter_ok fresh_emitter" by (simp add: emitter_ok_def fresh_emitter_def emitter_final_def)
  then show "\<exists>f' e'. asdf_emitter_emit env (nothing_file, fresh_emitter) = Some (em_state e', (f', e')) \<and> em_done e'"
    using emitter_stops [of fresh_emitter env nothing_file] nothing_reached nothing_step(1)
    by (metis option.distinct(1))
qed

end
