(* ===== verification/Asdf_Emit_File.thy ===== *)
theory Asdf_Emit_File
  imports Asdf_Emitter_Laws Asdf_Parse_File
begin

text \<open>
  A whole emission on a stream that takes everything: what is written and what is recorded in the blocks,
  for the growing memory buffer and for a file; and that the parser reads back what was written.
\<close>

section \<open>From the first state to the last\<close>

definition preamble :: bytes where
  "preamble = asdf_version_comment @ asdf_version_default @ [10] @
     asdf_standard_comment @ asdf_standard_default @ [10]"

lemma tree_ok_flags: "em_flags e' = em_flags e \<Longrightarrow> tree_ok env (f, e') t xs = tree_ok env (f, e) t xs"
  by (simp add: tree_ok_def emit_empty_tree_def asdf_emitter_has_opt_def split: option.splits)

lemma enter_state_simps [simp]:
  "em_flags (enter_state st e) = em_flags e" "em_stream (enter_state st e) = em_stream e"
  "em_state (enter_state st e) = st"
  "em_done (enter_state st e) \<longleftrightarrow> em_done e \<or> emitter_final st"
  by (auto simp: enter_state_def emitter_final_def)

lemma emitter_final_simps [simp]:
  "\<not> emitter_final ASDF_EMITTER_STATE_INITIAL" "\<not> emitter_final ASDF_EMITTER_STATE_ASDF_VERSION"
  "\<not> emitter_final ASDF_EMITTER_STATE_STANDARD_VERSION" "\<not> emitter_final ASDF_EMITTER_STATE_TREE"
  "\<not> emitter_final ASDF_EMITTER_STATE_BLOCKS" "\<not> emitter_final ASDF_EMITTER_STATE_BLOCK_INDEX"
  "emitter_final ASDF_EMITTER_STATE_END"
  by (simp_all add: emitter_final_def)

lemma has_opt_flags: "em_flags e' = em_flags e \<Longrightarrow> asdf_emitter_has_opt e' = asdf_emitter_has_opt e"
  by (simp add: asdf_emitter_has_opt_def fun_eq_iff)

lemma writes_index_flags: "em_flags e' = em_flags e \<Longrightarrow> writes_index e' = writes_index e"
  using has_opt_flags [of e' e] by (simp add: writes_index_def fun_eq_iff)

text \<open>The state \<open>st\<close> entered with a stream; the rest is as in \<open>e\<close>.\<close>

definition em_at :: "asdf_emitter \<Rightarrow> asdf_emitter_state \<Rightarrow> asdf_stream option \<Rightarrow> asdf_emitter" where
  "em_at e st s = \<lparr>em_flags = em_flags e, em_state = st, em_stream = s, em_done = emitter_final st\<rparr>"

lemma em_at_simps [simp]:
  "em_flags (em_at e st s) = em_flags e" "em_state (em_at e st s) = st" "em_stream (em_at e st s) = s"
  "em_done (em_at e st s) = emitter_final st" "(em_at e st s)\<lparr>em_stream := s'\<rparr> = em_at e st s'"
  by (simp_all add: em_at_def)

lemma enter_em_at: "\<not> emitter_final st \<Longrightarrow> enter_state st' (em_at e st s) = em_at e st' s"
  by (cases st') (simp_all add: enter_state_def em_at_def emitter_final_def)

lemma emit_next_at:
  assumes "\<not> emitter_final st" and "emitter_step env (f, em_at e st s) = Some (st', (f1, em_at e st s'))"
  shows "asdf_emitter_emit env (f, em_at e st s) = asdf_emitter_emit env (f1, em_at e st' s')"
  using emit_next [OF _ _ assms(2)] assms(1) by (simp add: enter_em_at)

context emit_sink
begin

lemma sink_at_stream: "em_stream e' = em_stream e \<Longrightarrow> sink_at (f, e') w = sink_at (f, e) w"
  by (simp add: sink_at_def em_out_def)

lemma emit_law:
  assumes sink: "sink_at (f, em_at e ASDF_EMITTER_STATE_INITIAL s) w"
    and parser: "af_parser f = None" and tree: "tree_ok env (f, e) t xs"
    and blocks: "af_blocks f = map pl_block ps" "list_all (plan_ok env) ps"
    and some: "t \<noteq> None \<or> ps \<noteq> [] \<or> asdf_emitter_has_opt e ASDF_EMITTER_OPT_EMIT_EMPTY"
    and ck: "ck = (em_flags e AND ASDF_EMITTER_OPT_NO_BLOCK_CHECKSUM = 0)"
    and bs: "bs = plans_done env ck (length w + length preamble + length (concat xs)) ps"
    and index: "writes_index e bs \<Longrightarrow> index_written env bs ys" "idx = (if writes_index e bs then index_image ys else [])"
    and room: "length w + length preamble + length (concat xs) + length (plans_image env ck ps) + length idx \<le> 2 ^ 62"
  shows "\<exists>s'. asdf_emitter_emit env (f, em_at e ASDF_EMITTER_STATE_INITIAL s) =
      Some (ASDF_EMITTER_STATE_END, (f\<lparr>af_tree := t, af_blocks := bs\<rparr>, em_at e ASDF_EMITTER_STATE_END s')) \<and>
    sink_at (f\<lparr>af_tree := t, af_blocks := bs\<rparr>, em_at e ASDF_EMITTER_STATE_END s')
      (w @ preamble @ concat xs @ plans_image env ck ps @ idx)"
proof -
  let ?emit = "asdf_emitter_emit env"
  have t: "tree_ok env (f, em_at e st s) t xs" for st s using tree by (subst tree_ok_flags) simp_all
  have "asdf_emitter_should_emit env (f, em_at e ASDF_EMITTER_STATE_INITIAL s) = Some (True, f)"
    using some blocks(1) should_emit_tree_law [OF t] has_opt_flags [of "em_at e ASDF_EMITTER_STATE_INITIAL s" e]
    by (auto simp: asdf_emitter_should_emit_def)
  then have e0: "?emit (f, em_at e ASDF_EMITTER_STATE_INITIAL s) = ?emit (f, em_at e ASDF_EMITTER_STATE_ASDF_VERSION s)"
    by (intro emit_next_at) (simp_all add: emitter_step_def)
  have len: "length preamble = length asdf_version_comment + length asdf_version_default + 1 +
      (length asdf_standard_comment + length asdf_standard_default + 1)"
    by (simp add: preamble_def)
  have s0: "sink_at (f, em_at e ASDF_EMITTER_STATE_ASDF_VERSION s) w" using sink by (subst sink_at_stream) simp_all
  obtain s1 where
    v: "emit_version_line asdf_version_comment asdf_version_default ASDF_EMITTER_STATE_STANDARD_VERSION
        (f, em_at e ASDF_EMITTER_STATE_ASDF_VERSION s) =
      Some (ASDF_EMITTER_STATE_STANDARD_VERSION, (f, em_at e ASDF_EMITTER_STATE_ASDF_VERSION (Some s1)))"
      "sink_at (f, em_at e ASDF_EMITTER_STATE_ASDF_VERSION (Some s1))
        (w @ asdf_version_comment @ asdf_version_default @ [10])"
    using emit_version_law [OF s0, of asdf_version_comment asdf_version_default] room len
    by (auto simp: wrote_def)
  obtain so where "em_out (f, em_at e ASDF_EMITTER_STATE_ASDF_VERSION s) = Some so" "is_writeable so"
    using s0 sink_writeable by (auto simp: sink_at_def)
  with v have e1: "?emit (f, em_at e ASDF_EMITTER_STATE_ASDF_VERSION s) =
      ?emit (f, em_at e ASDF_EMITTER_STATE_STANDARD_VERSION (Some s1))"
    by (intro emit_next_at) (simp_all add: emitter_step_def emit_asdf_version_def)
  have s1: "sink_at (f, em_at e ASDF_EMITTER_STATE_STANDARD_VERSION (Some s1))
      (w @ asdf_version_comment @ asdf_version_default @ [10])"
    using v(2) by (subst sink_at_stream) simp_all
  obtain s2 where
    v: "emit_version_line asdf_standard_comment asdf_standard_default ASDF_EMITTER_STATE_TREE
        (f, em_at e ASDF_EMITTER_STATE_STANDARD_VERSION (Some s1)) =
      Some (ASDF_EMITTER_STATE_TREE, (f, em_at e ASDF_EMITTER_STATE_STANDARD_VERSION (Some s2)))"
      "sink_at (f, em_at e ASDF_EMITTER_STATE_STANDARD_VERSION (Some s2)) (w @ preamble)"
    using emit_version_law [OF s1, of asdf_standard_comment asdf_standard_default] room len
    by (auto simp: wrote_def preamble_def)
  then have e2: "?emit (f, em_at e ASDF_EMITTER_STATE_STANDARD_VERSION (Some s1)) =
      ?emit (f, em_at e ASDF_EMITTER_STATE_TREE (Some s2))"
    by (intro emit_next_at) (simp_all add: emitter_step_def emit_standard_version_def)
  have s2: "sink_at (f, em_at e ASDF_EMITTER_STATE_TREE (Some s2)) (w @ preamble)"
    using v(2) by (subst sink_at_stream) simp_all
  let ?f1 = "f\<lparr>af_tree := t\<rparr>"
  obtain s3 where
    tr: "emit_tree env (f, em_at e ASDF_EMITTER_STATE_TREE (Some s2)) =
        Some (ASDF_EMITTER_STATE_BLOCKS, (?f1, em_at e ASDF_EMITTER_STATE_TREE (Some s3)))"
      "sink_at (?f1, em_at e ASDF_EMITTER_STATE_TREE (Some s3)) (w @ preamble @ concat xs)"
    using emit_tree_law [OF s2 t] room by auto
  then have e3: "?emit (f, em_at e ASDF_EMITTER_STATE_TREE (Some s2)) =
      ?emit (?f1, em_at e ASDF_EMITTER_STATE_BLOCKS (Some s3))"
    by (intro emit_next_at) (simp_all add: emitter_step_def)
  have s3: "sink_at (?f1, em_at e ASDF_EMITTER_STATE_BLOCKS (Some s3)) (w @ preamble @ concat xs)"
    using tr(2) by (subst sink_at_stream) simp_all
  let ?f2 = "f\<lparr>af_tree := t, af_blocks := bs\<rparr>"
  have bl: "bs = plans_done env ck (length (w @ preamble @ concat xs)) ps" by (simp add: bs add.assoc)
  obtain s4 where
    b: "emit_block_list env ck (?f1, em_at e ASDF_EMITTER_STATE_BLOCKS (Some s3)) [] (map pl_block ps) =
        Some (True, (?f2, em_at e ASDF_EMITTER_STATE_BLOCKS (Some s4)))"
      "sink_at (?f2, em_at e ASDF_EMITTER_STATE_BLOCKS (Some s4))
        ((w @ preamble @ concat xs) @ plans_image env ck ps)"
    using emit_block_list_law [OF s3 _ blocks(2), of "[]" ck] parser blocks(1) room
    unfolding bl by auto
  then have e4: "?emit (?f1, em_at e ASDF_EMITTER_STATE_BLOCKS (Some s3)) =
      ?emit (?f2, em_at e ASDF_EMITTER_STATE_BLOCK_INDEX (Some s4))"
    by (intro emit_next_at) (simp_all add: emitter_step_def emit_blocks_def parser blocks(1) ck)
  have s4: "sink_at (?f2, em_at e ASDF_EMITTER_STATE_BLOCK_INDEX (Some s4))
      (w @ preamble @ concat xs @ plans_image env ck ps)"
    using b(2) by (subst sink_at_stream [where e = "em_at e ASDF_EMITTER_STATE_BLOCKS (Some s4)"]) simp_all
  have wi: "writes_index (em_at e st s) = writes_index e" for st s by (rule writes_index_flags) simp
  have "\<exists>s5. emit_block_index env (?f2, em_at e ASDF_EMITTER_STATE_BLOCK_INDEX (Some s4)) =
        Some (ASDF_EMITTER_STATE_END, (?f2, em_at e ASDF_EMITTER_STATE_BLOCK_INDEX (Some s5))) \<and>
      sink_at (?f2, em_at e ASDF_EMITTER_STATE_BLOCK_INDEX (Some s5))
        (w @ preamble @ concat xs @ plans_image env ck ps @ idx)"
  proof (cases "writes_index e bs")
    case True
    have "\<forall>b \<in> set (af_blocks ?f2). 0 \<le> header_pos b" by (auto simp: bs dest: plans_positions)
    from emit_index_law [OF s4 this, of env ys] True index room show ?thesis
      by (simp add: wi)
  next
    case False
    moreover have "asdf_emitter_has_opt (em_at e st s) = asdf_emitter_has_opt e" for st s
      by (rule has_opt_flags) simp
    ultimately show ?thesis
      using s4 index(2) by (auto simp: emit_block_index_def writes_index_def)
  qed
  then obtain s5 where
    i: "emit_block_index env (?f2, em_at e ASDF_EMITTER_STATE_BLOCK_INDEX (Some s4)) =
        Some (ASDF_EMITTER_STATE_END, (?f2, em_at e ASDF_EMITTER_STATE_BLOCK_INDEX (Some s5)))"
      "sink_at (?f2, em_at e ASDF_EMITTER_STATE_BLOCK_INDEX (Some s5))
        (w @ preamble @ concat xs @ plans_image env ck ps @ idx)"
    by blast
  then have e5: "?emit (?f2, em_at e ASDF_EMITTER_STATE_BLOCK_INDEX (Some s4)) =
      ?emit (?f2, em_at e ASDF_EMITTER_STATE_END (Some s5))"
    by (intro emit_next_at) (simp_all add: emitter_step_def)
  have "sink_at (?f2, em_at e ASDF_EMITTER_STATE_END (Some s5))
      (w @ preamble @ concat xs @ plans_image env ck ps @ idx)"
    using i(2) by (subst sink_at_stream) simp_all
  with emit_end [of "em_at e ASDF_EMITTER_STATE_END (Some s5)"] show ?thesis
    unfolding e0 e1 e2 e3 e4 e5 by auto
qed

end

section \<open>What an emission writes\<close>

definition checksums :: "asdf_emitter \<Rightarrow> bool" where
  "checksums e \<longleftrightarrow> em_flags e AND ASDF_EMITTER_OPT_NO_BLOCK_CHECKSUM = 0"

text \<open>The blocks afterwards, and all that is written, for an emission that starts at an offset.\<close>

definition emitted_blocks ::
  "emitter_env \<Rightarrow> asdf_emitter \<Rightarrow> nat \<Rightarrow> bytes list \<Rightarrow> block_plan list \<Rightarrow> asdf_block_info list" where
  "emitted_blocks env e off xs ps = plans_done env (checksums e) (off + length preamble + length (concat xs)) ps"

definition emitted ::
  "emitter_env \<Rightarrow> asdf_emitter \<Rightarrow> nat \<Rightarrow> bytes list \<Rightarrow> block_plan list \<Rightarrow> bytes list \<Rightarrow> bytes" where
  "emitted env e off xs ps ys = preamble @ concat xs @ plans_image env (checksums e) ps @
     (if writes_index e (emitted_blocks env e off xs ps) then index_image ys else [])"

text \<open>A fresh emission of a file without a parser, with its tree, its blocks and its index.\<close>

definition emittable ::
  "emitter_env \<Rightarrow> emission \<Rightarrow> nat \<Rightarrow> fy_document option \<Rightarrow> bytes list \<Rightarrow> block_plan list \<Rightarrow> bytes list \<Rightarrow> bool" where
  "emittable env = (\<lambda>(f, e) off t xs ps ys.
     em_state e = ASDF_EMITTER_STATE_INITIAL \<and> \<not> em_done e \<and> af_parser f = None \<and>
     tree_ok env (f, e) t xs \<and> af_blocks f = map pl_block ps \<and> list_all (plan_ok env) ps \<and>
     (t \<noteq> None \<or> ps \<noteq> [] \<or> asdf_emitter_has_opt e ASDF_EMITTER_OPT_EMIT_EMPTY) \<and>
     (writes_index e (emitted_blocks env e off xs ps) \<longrightarrow> index_written env (emitted_blocks env e off xs ps) ys))"

lemma em_at_self:
  "em_state e = ASDF_EMITTER_STATE_INITIAL \<Longrightarrow> \<not> em_done e \<Longrightarrow>
     em_at e ASDF_EMITTER_STATE_INITIAL (em_stream e) = e"
  by (simp add: em_at_def)

context emit_sink
begin

lemma whole_emission:
  assumes "em_out (f, e) = Some s" and "ok s" and "emittable env (f, e) (length (written s)) t xs ps ys"
    and "length (written s) + length (emitted env e (length (written s)) xs ps ys) \<le> 2 ^ 62"
  shows "\<exists>f' e' s'. asdf_emitter_emit env (f, e) = Some (ASDF_EMITTER_STATE_END, (f', e')) \<and>
    f' = f\<lparr>af_tree := t, af_blocks := emitted_blocks env e (length (written s)) xs ps\<rparr> \<and>
    em_done e' \<and> em_out (f', e') = Some s' \<and> ok s' \<and>
    written s' = written s @ emitted env e (length (written s)) xs ps ys"
proof -
  have st: "em_at e ASDF_EMITTER_STATE_INITIAL (em_stream e) = e"
    using assms(3) by (auto simp: emittable_def intro: em_at_self)
  have sink: "sink_at (f, em_at e ASDF_EMITTER_STATE_INITIAL (em_stream e)) (written s)"
    using assms(1,2) by (auto simp: st sink_at_def)
  show ?thesis
    using emit_law [OF sink, of env t xs ps "checksums e" "emitted_blocks env e (length (written s)) xs ps" ys
        "if writes_index e (emitted_blocks env e (length (written s)) xs ps) then index_image ys else []"] assms(3,4)
    unfolding emittable_def checksums_def [symmetric]
    by (auto simp: st sink_at_def emitted_def emitted_blocks_def)
qed

end

section \<open>The two sinks\<close>

interpretation malloc_out: emit_sink malloc_ok malloc_written
  by unfold_locales
     (auto simp: malloc_ok_def asdf_stream_flush_def split: asdf_userdata.splits)

definition file_out_ok :: "asdf_stream \<Rightarrow> bool" where
  "file_out_ok s \<longleftrightarrow> file_sink_ok s \<and> ctx_heap (s_ctx s) = [] \<and>
     (case userdata s of FileData d \<Rightarrow> f_flush_ok (fu_file d) | _ \<Rightarrow> False)"

lemma file_out_write:
  assumes "file_out_ok s" and "length (file_written s) + length bs \<le> 2 ^ 62"
  shows "\<exists>s'. asdf_stream_write s bs = Some (length bs, s') \<and> file_out_ok s' \<and>
    file_written s' = file_written s @ bs \<and> same_frame s s'"
proof -
  obtain d where d: "userdata s = FileData d" using assms(1) by (auto simp: file_out_ok_def split: asdf_userdata.splits)
  from assms file_sink_write_law [of s bs] obtain s' where
    w: "asdf_stream_write s bs = Some (length bs, s')" "file_sink_ok s'" "file_written s' = file_written s @ bs"
      "same_frame s s'"
    by (auto simp: file_out_ok_def)
  have "\<exists>d'. userdata s' = FileData d' \<and> f_flush_ok (fu_file d') = f_flush_ok (fu_file d)"
    using w(1) d assms(1)
    by (auto simp: asdf_stream_write_def file_write_def fwrite_def Let_def file_out_ok_def file_sink_ok_def
        bind_eq_Some_conv split: if_splits)
  with w d assms(1) show ?thesis by (auto simp: file_out_ok_def same_frame_def)
qed

interpretation file_out: emit_sink file_out_ok file_written
proof unfold_locales
  fix s and bs :: bytes assume "file_out_ok s" "length (file_written s) + length bs \<le> 2 ^ 62"
  then show "\<exists>s'. asdf_stream_write s bs = Some (length bs, s') \<and> file_out_ok s' \<and>
      file_written s' = file_written s @ bs \<and> same_frame s s'"
    by (rule file_out_write)
next
  fix s assume "file_out_ok s" "length (file_written s) \<le> 2 ^ 62"
  then show "asdf_stream_tell s = int (length (file_written s))"
    using file_sink.sink_tell by (simp add: file_out_ok_def)
next
  fix s assume "file_out_ok s"
  then show "asdf_stream_flush s = Some (0, s)"
    by (auto simp: file_out_ok_def file_sink_ok_def asdf_stream_flush_def file_flush_def
        split: asdf_userdata.splits)
qed (simp_all add: file_out_ok_def file_sink_ok_def)

section \<open>An example\<close>

definition sample_emitter_env :: emitter_env where
  "sample_emitter_env = \<lparr>ee_parser = sample_env,
     ee_yaml = \<lparr>fy_build = \<lambda>_. Some \<lparr>fd_text = [], fd_handles = [], fd_root = None\<rparr>, fy_directive_ok = \<lambda>_ _. True\<rparr>,
     ee_os = sample_os, ee_md5 = sample_md5, ee_cmp = \<lambda>_ _. None, ee_decomp = \<lambda>_ _. None,
     fy_piece = \<lambda>d rs. if rs \<noteq> [] then None
       else Some (case fd_root d of Some (FyMapping _ _) \<Rightarrow> sample_tree @ asdf_yaml_document_end_marker @ [10]
                  | _ \<Rightarrow> bytes_of ''- 52'' @ [10]),
     fy_result = \<lambda>_ _. True, fy_emitter_ok = True, prepare_root = \<lambda>f. (True, f)\<rparr>"

definition sample_document :: fy_document where
  "sample_document = \<lparr>fd_text = [], fd_handles = [],
     fd_root = Some (FyMapping (Some (bytes_of ''t'')) [(FyScalar None (bytes_of ''a''), FyScalar None (bytes_of ''1''))])\<rparr>"

definition sample_asdf_file :: asdf_file where
  "sample_asdf_file = \<lparr>af_ctx = the (fst (asdf_context_create [])), af_config = asdf_config_default,
     af_mode = ASDF_FILE_MODE_WRITE_ONLY, af_stream = None, af_parser = None, af_tree = Some sample_document,
     af_blocks = [sample_block], af_tag_map = [], af_history = [], af_cleanups = []\<rparr>"

definition sample_plan :: block_plan where
  "sample_plan = \<lparr>pl_block = sample_block, pl_payload = [1, 2, 3], pl_field = replicate 4 0\<rparr>"

definition sample_emitter :: "u64 \<Rightarrow> asdf_stream \<Rightarrow> asdf_emitter" where
  "sample_emitter fl s = \<lparr>em_flags = fl, em_state = ASDF_EMITTER_STATE_INITIAL, em_stream = Some s, em_done = False\<rparr>"

definition sample_malloc :: asdf_stream where
  "sample_malloc = the (fst (asdf_stream_from_malloc (af_ctx sample_asdf_file) []))"

lemma sample_plan_ok: "plan_ok sample_emitter_env sample_plan"
  using sample_block_payload
  by (auto simp: plan_ok_def sample_plan_def sample_emitter_env_def sample_md5_def)

lemma sample_plan_image: "length (plan_image sample_emitter_env ck sample_plan) = 57"
proof -
  have "header_ok (plan_header sample_emitter_env ck sample_plan)"
    unfolding plan_header_def
    by (rule written_header_ok [where name = None])
       (simp_all add: sample_plan_def sample_block_payload(3) sample_emitter_env_def sample_md5_def
         sample_block_payload(4))
  moreover have "unat (allocated_size (plan_header sample_emitter_env ck sample_plan)) = 3"
    unfolding plan_header_def
    by (subst unat_written_allocated) (simp_all add: sample_plan_def sample_block_def asdf_block_info_init_def)
  ultimately show ?thesis
    unfolding plan_image_def by (subst length_block_image) (simp_all add: sample_plan_def full_size)
qed

lemma preamble_length: "length preamble = 33"
  by (simp add: preamble_def asdf_version_comment_def asdf_standard_comment_def asdf_version_default_def
      asdf_standard_default_def bytes_of_def)

definition sample_tree_text :: bytes where
  "sample_tree_text = sample_tree @ asdf_yaml_document_end_marker @ [10]"

lemma sample_tree_text_length: "length sample_tree_text = 19"
  by (simp add: sample_tree_text_def sample_tree_def bytes_of_def asdf_yaml_document_end_marker_def)

lemma sample_emittable:
  assumes "fl \<in> {0, ASDF_EMITTER_OPT_NO_BLOCK_INDEX}"
  shows "emittable sample_emitter_env (sample_asdf_file, sample_emitter fl s) 0 (Some sample_document)
    [sample_tree_text] [sample_plan] [bytes_of ''- 52'' @ [10]]"
proof -
  have tag: "bytes_of ''t'' \<noteq> ASDF_CORE_ASDF_TAG"
    by (simp add: ASDF_CORE_ASDF_TAG_def ASDF_STANDARD_TAG_PREFIX_def bytes_of_def)
  have tree: "tree_ok sample_emitter_env (sample_asdf_file, e) (Some sample_document) [sample_tree_text]" for e
    using tag by (simp add: tree_ok_def sample_asdf_file_def sample_document_def fy_mapping_is_empty_def
        empty_root_def fy_sequence_is_empty_def sample_emitter_env_def sample_tree_text_def)
  have "index_written sample_emitter_env bs [bytes_of ''- 52'' @ [10]]" for bs
    by (simp add: index_written_def sample_emitter_env_def)
  with tree sample_plan_ok show ?thesis
    by (simp add: emittable_def sample_emitter_def sample_asdf_file_def sample_plan_def)
qed

section \<open>Properties\<close>

text \<open>C2. Emitting to a file opened for writing reaches the end and appends exactly the two version
  lines, the tree as libfyaml prints it, the image of each block and, unless it is switched off, the block
  index over the recorded positions. Every block of the file is left with the positions and the checksum
  it was written with; nothing else of the file changes but the metadata of the tree.\<close>

theorem file_emission:
  assumes "em_out (f, e) = Some s" and "file_out_ok s"
    and "emittable env (f, e) (length (file_written s)) t xs ps ys"
    and "length (file_written s) + length (emitted env e (length (file_written s)) xs ps ys) \<le> 2 ^ 62"
  shows "\<exists>f' e' s'. asdf_emitter_emit env (f, e) = Some (ASDF_EMITTER_STATE_END, (f', e')) \<and>
    f' = f\<lparr>af_tree := t, af_blocks := emitted_blocks env e (length (file_written s)) xs ps\<rparr> \<and>
    em_done e' \<and> em_out (f', e') = Some s' \<and> file_out_ok s' \<and>
    file_written s' = file_written s @ emitted env e (length (file_written s)) xs ps ys"
  using assms by (rule file_out.whole_emission)

lemma sample_emitted_length:
  "length (emitted sample_emitter_env (sample_emitter fl s) 0 [sample_tree_text] [sample_plan]
      [bytes_of ''- 52'' @ [10]]) =
    (if fl AND ASDF_EMITTER_OPT_NO_BLOCK_INDEX = ASDF_EMITTER_OPT_NO_BLOCK_INDEX then 109 else 132)"
  by (simp add: emitted_def preamble_length sample_tree_text_length sample_plan_image writes_index_def
      asdf_emitter_has_opt_def sample_emitter_def emitted_blocks_def index_image_def bytes_of_def
      asdf_block_index_header_def)

theorem file_emission_witness:
  "\<exists>f' e' s'. asdf_emitter_emit sample_emitter_env (sample_asdf_file, sample_emitter 0 sample_sink) =
      Some (ASDF_EMITTER_STATE_END, (f', e')) \<and> em_out (f', e') = Some s' \<and>
    length (file_written s') = 132 \<and> map header_pos (af_blocks f') = [52] \<and> map data_pos (af_blocks f') = [106]"
proof -
  let ?s = "sample_sink\<lparr>s_ctx := af_ctx sample_asdf_file\<rparr>"
  have o: "em_out (sample_asdf_file, sample_emitter 0 sample_sink) = Some ?s"
    by (simp add: em_out_def sample_emitter_def)
  have ok: "file_out_ok ?s" and w: "file_written ?s = []"
    using sample_sink_ok
    by (simp_all add: file_out_ok_def file_sink_ok_def file_written_def sample_asdf_file_def
        asdf_context_create_def sample_sink_def sample_file_stream_def asdf_stream_from_fp_def ctx_alloc_def)
  have "\<not> ASDF_EMITTER_OPT_NO_BLOCK_INDEX = 0" by (simp add: ASDF_EMITTER_OPT_NO_BLOCK_INDEX_def)
  then show ?thesis
    using file_emission [OF o ok, unfolded w list.size, OF sample_emittable] sample_emitted_length [of 0 sample_sink]
    by (force simp: w emitted_blocks_def plan_done_def preamble_length sample_tree_text_length full_size)
qed

text \<open>What is emitted without an index, as the file the parser is proved to read.\<close>

fun plan_pair :: "emitter_env \<Rightarrow> bool \<Rightarrow> block_plan \<Rightarrow> asdf_block_header \<times> bytes" where
  "plan_pair env ck p = (plan_header env ck p, pl_payload p)"

lemma plan_block_ok:
  assumes "plan_ok env p" and "length (pl_payload p) \<le> 2 ^ 62"
    and "flags (bi_header (pl_block p)) AND ASDF_BLOCK_FLAG_STREAMED = 0"
  shows "block_ok (plan_pair env ck p)"
proof -
  from assms(1) obtain name where n: "comp_field name = Some (pl_field p)" "length (ee_md5 env (pl_payload p)) = 16"
    "length (checksum (bi_header (pl_block p))) = 16"
    by (auto simp: plan_ok_def)
  have "header_ok (plan_header env ck p)" unfolding plan_header_def using n by (rule written_header_ok)
  moreover have "flags (plan_header env ck p) = flags (bi_header (pl_block p))"
    by (simp add: plan_header_def written_header_def)
  ultimately show ?thesis
    using assms(2,3) by (simp add: block_ok_def plan_header_def unat_written_allocated)
qed

lemma plans_payload_length:
  "p \<in> set ps \<Longrightarrow> length (pl_payload p) \<le> length (plans_image env ck ps)"
  by (induction ps) (auto simp: plan_image_def block_image_def)

lemma emitted_file_image:
  assumes "\<not> writes_index e (emitted_blocks env e off xs ps)"
    and "concat xs = tree @ asdf_yaml_document_end_marker @ [10]"
  shows "emitted env e off xs ps ys =
    file_image asdf_version_default asdf_standard_default [] tree (map (plan_pair env (checksums e)) ps)"
proof -
  have "blocks_image (map (plan_pair env ck) ps) = plans_image env ck ps" for ck
    by (induction ps) (simp_all add: blocks_image_def plan_image_def)
  with assms show ?thesis by (simp add: emitted_def file_image_def preamble_def)
qed

definition default_version :: asdf_version where
  "default_version = \<lparr>ver_string = asdf_version_default, major = 1, minor = 0, patch = 0, extra = None\<rparr>"

definition default_standard :: asdf_version where
  "default_standard = \<lparr>ver_string = asdf_standard_default, major = 1, minor = 6, patch = 0, extra = None\<rparr>"

lemma default_versions:
  "asdf_version_parse [] (Some asdf_version_default) = (Some default_version, [])"
  "asdf_version_parse [] (Some asdf_standard_default) = (Some default_standard, [])"
  "line_ok asdf_version_default" "line_ok asdf_standard_default"
  by (simp_all add: asdf_version_parse_def version_parse_major_def version_parse_minor_def
      version_parse_patch_def strtoul_def digits_val_def is_digit_def chr_at_def default_version_def
      default_standard_def asdf_version_default_def
      asdf_standard_default_def bytes_of_def of_char_def line_ok_def)

text \<open>C3. What is emitted to memory without a block index is read back: for a tree that is printed as a document
  with a directive and blocks that are not streamed, parsing the bytes written reports the default versions, the tree at its place, and every block with the header it was written with and at
  the positions recorded in it, then the end.\<close>

theorem emission_parses_back:
  assumes "em_out (f, e) = Some s" and "malloc_ok s" and "malloc_written s = []"
    and "emittable env (f, e) 0 t xs ps ys" and "\<not> writes_index e (emitted_blocks env e 0 xs ps)"
    and "concat xs = tree @ asdf_yaml_document_end_marker @ [10]" and "directive_line tree" and "clean_tree tree"
    and "list_all (\<lambda>p. flags (bi_header (pl_block p)) AND ASDF_BLOCK_FLAG_STREAMED = 0) ps"
    and "length (emitted env e 0 xs ps ys) \<le> 2 ^ 62" and "no_index (emitted env e 0 xs ps ys)"
    and "exact_growth penv"
  shows "\<exists>f' e' s' q.
    asdf_emitter_emit env (f, e) = Some (ASDF_EMITTER_STATE_END, (f', e')) \<and> em_out (f', e') = Some s' \<and>
    af_blocks f' = emitted_blocks env e 0 xs ps \<and>
    parse_events penv (length ps + 6 + k) (parser_on (malloc_written s')) =
      Some (file_events default_version default_standard asdf_version_default asdf_standard_default [] tree
              (map (plan_pair env (checksums e)) ps), q) \<and>
    map header_pos (infos (p_block q)) = map header_pos (af_blocks f') \<and>
    map data_pos (infos (p_block q)) = map data_pos (af_blocks f') \<and>
    map bi_header (infos (p_block q)) = map (plan_header env (checksums e)) ps"
proof -
  from malloc_out.whole_emission [OF assms(1,2), of env t xs ps ys] assms(3,4,10) obtain f' e' s' where
    em: "asdf_emitter_emit env (f, e) = Some (ASDF_EMITTER_STATE_END, (f', e'))"
      "em_out (f', e') = Some s'" "af_blocks f' = emitted_blocks env e 0 xs ps"
      "malloc_written s' = emitted env e 0 xs ps ys"
    by auto
  let ?bs = "map (plan_pair env (checksums e)) ps"
  note img = emitted_file_image [OF assms(5,6), of ys]
  have ok: "list_all block_ok ?bs"
  proof -
    have "block_ok (plan_pair env (checksums e) p)" if p: "p \<in> set ps" for p
    proof (rule plan_block_ok)
      show "plan_ok env p" using assms(4) p by (auto simp: emittable_def list_all_iff)
      have "length (plans_image env (checksums e) ps) \<le> 2 ^ 62" using assms(10) by (simp add: emitted_def)
      with plans_payload_length [OF p, of env "checksums e"] show "length (pl_payload p) \<le> 2 ^ 62" by linarith
    qed (use assms(9) p in \<open>auto simp: list_all_iff\<close>)
    then show ?thesis by (auto simp: list_all_iff)
  qed
  have off: "tree_offset asdf_version_default asdf_standard_default [] + length tree + 5 =
      length preamble + length (concat xs)"
    unfolding assms(6) by (simp add: tree_offset_def preamble_def asdf_version_comment_def
        asdf_standard_comment_def bytes_of_def asdf_yaml_document_end_marker_def)
  obtain q where q: "parse_events penv (length ps + 6 + k) (parser_on (malloc_written s')) =
      Some (file_events default_version default_standard asdf_version_default asdf_standard_default [] tree ?bs, q)"
    "finished q (found_blocks 0 (length preamble + length (concat xs)) ?bs)"
    using parse_well_formed_file [OF _ default_versions(1,2,3,4) _ assms(7,8) _ ok assms(12), of "[]" k] assms(10,11)
    unfolding em(4) img off by auto
  have "map header_pos (found_blocks n i (map (plan_pair env ck) ps)) = map header_pos (plans_done env ck i ps) \<and>
      map data_pos (found_blocks n i (map (plan_pair env ck) ps)) = map data_pos (plans_done env ck i ps) \<and>
      map bi_header (found_blocks n i (map (plan_pair env ck) ps)) = map (plan_header env ck) ps" for n i ck
    by (induction ps arbitrary: n i) (auto simp: found_block_def plan_done_def plan_image_def)
  with q em show ?thesis by (auto simp: finished_def emitted_blocks_def)
qed

lemma no_X_replicate: "no_X (replicate n x) \<longleftrightarrow> n = 0 \<or> x \<noteq> 88"
  by (auto simp: no_X_def)

lemma sample_emitted_no_X:
  "no_X (emitted sample_emitter_env (sample_emitter ASDF_EMITTER_OPT_NO_BLOCK_INDEX s) 0 [sample_tree_text]
     [sample_plan] ys)"
proof -
  have "no_X (plan_image sample_emitter_env ck sample_plan)" for ck
    using no_X_header no_X_texts(7)
    by (simp add: plan_image_def block_image_def header_image_def plan_header_def written_header_def
        sample_plan_def sample_block_def asdf_block_info_init_def zero_block_info_def zero_header_def
        ASDF_BLOCK_HEADER_SIZE_def sample_emitter_env_def sample_md5_def no_X_replicate)
  moreover have "no_X preamble" "no_X sample_tree_text"
    by (simp_all add: preamble_def sample_tree_text_def no_X_texts asdf_version_default_def
        asdf_standard_default_def sample_tree_def asdf_yaml_document_end_marker_def bytes_of_def of_char_def)
  ultimately show ?thesis
    by (simp add: emitted_def writes_index_def asdf_emitter_has_opt_def sample_emitter_def)
qed

theorem emission_parses_back_witness:
  "\<exists>f' e' s' es q. asdf_emitter_emit sample_emitter_env
      (sample_asdf_file, sample_emitter ASDF_EMITTER_OPT_NO_BLOCK_INDEX sample_malloc) =
      Some (ASDF_EMITTER_STATE_END, (f', e')) \<and> em_out (f', e') = Some s' \<and>
    parse_events sample_env 7 (parser_on (malloc_written s')) = Some (es, q) \<and> length es = 6 \<and>
    map header_pos (infos (p_block q)) = [52]"
proof -
  let ?e = "sample_emitter ASDF_EMITTER_OPT_NO_BLOCK_INDEX sample_malloc"
  let ?s = "sample_malloc\<lparr>s_ctx := af_ctx sample_asdf_file\<rparr>"
  let ?ys = "[bytes_of ''- 52'' @ [10]]"
  have o: "em_out (sample_asdf_file, ?e) = Some ?s" by (simp add: em_out_def sample_emitter_def)
  have ok: "malloc_ok ?s" and w: "malloc_written ?s = []"
    by (simp_all add: malloc_ok_def malloc_written_def sample_malloc_def sample_asdf_file_def
        asdf_context_create_def asdf_stream_from_malloc_def asdf_stream_from_memory_def ctx_alloc_def)
  have ni: "\<not> writes_index ?e bs" for bs by (simp add: writes_index_def asdf_emitter_has_opt_def sample_emitter_def)
  have st: "list_all (\<lambda>p. flags (bi_header (pl_block p)) AND ASDF_BLOCK_FLAG_STREAMED = 0) [sample_plan]"
    by (simp add: sample_plan_def sample_block_def asdf_block_info_init_def zero_block_info_def zero_header_def)
  have doc: "concat [sample_tree_text] = sample_tree @ asdf_yaml_document_end_marker @ [10]"
    by (simp add: sample_tree_text_def)
  have len: "length (emitted sample_emitter_env ?e 0 [sample_tree_text] [sample_plan] ?ys) \<le> 2 ^ 62"
    using sample_emitted_length [of ASDF_EMITTER_OPT_NO_BLOCK_INDEX sample_malloc] by simp
  have nx: "no_index (emitted sample_emitter_env ?e 0 [sample_tree_text] [sample_plan] ?ys)"
    using sample_emitted_no_X by (intro no_index_letter) (simp add: no_X_def)
  have pos: "af_blocks f' = emitted_blocks sample_emitter_env ?e 0 [sample_tree_text] [sample_plan] \<Longrightarrow>
      map header_pos (af_blocks f') = [52]" for f'
    by (simp add: emitted_blocks_def plan_done_def preamble_length sample_tree_text_length)
  have em: "emittable sample_emitter_env (sample_asdf_file, ?e) 0 (Some sample_document)
      [sample_tree_text] [sample_plan] ?ys"
    by (rule sample_emittable) simp
  obtain f' e' s' q where r:
    "asdf_emitter_emit sample_emitter_env (sample_asdf_file, ?e) = Some (ASDF_EMITTER_STATE_END, (f', e'))"
    "em_out (f', e') = Some s'" "af_blocks f' = emitted_blocks sample_emitter_env ?e 0 [sample_tree_text] [sample_plan]"
    "parse_events sample_env (length [sample_plan] + 6 + 0) (parser_on (malloc_written s')) =
      Some (file_events default_version default_standard asdf_version_default asdf_standard_default [] sample_tree
              (map (plan_pair sample_emitter_env (checksums ?e)) [sample_plan]), q)"
    "map header_pos (infos (p_block q)) = map header_pos (af_blocks f')"
    using emission_parses_back [OF o ok w em ni doc sample_tree_ok st len nx sample_version_ok(4), of 0] by blast
  show ?thesis
  proof (intro exI conjI)
    show "map header_pos (infos (p_block q)) = [52]" using r(5) pos [OF r(3)] by simp
    show "length (file_events default_version default_standard asdf_version_default asdf_standard_default []
        sample_tree (map (plan_pair sample_emitter_env (checksums ?e)) [sample_plan])) = 6"
      by (simp add: file_events_def Let_def)
    show "parse_events sample_env 7 (parser_on (malloc_written s')) = Some (file_events default_version
        default_standard asdf_version_default asdf_standard_default [] sample_tree
        (map (plan_pair sample_emitter_env (checksums ?e)) [sample_plan]), q)"
      using r(4) by simp
  qed (use r(1,2) in auto)
qed

end
