(* ===== verification/Asdf_Datatype.thy ===== *)
theory Asdf_Datatype
  imports Asdf_Prelude
begin

text \<open>
  Array datatypes: the scalar types of \<^verbatim>\<open>asdf/core/datatype.h\<close>, their names and sizes, and the sizes of
  structured types, from \<^verbatim>\<open>src/core/datatype.c\<close> and \<^verbatim>\<open>src/core/datatype.h\<close>.
\<close>

section \<open>Types\<close>

datatype asdf_scalar_datatype =
    ASDF_DATATYPE_UNKNOWN
  | ASDF_DATATYPE_INT8 | ASDF_DATATYPE_UINT8
  | ASDF_DATATYPE_INT16 | ASDF_DATATYPE_UINT16
  | ASDF_DATATYPE_INT32 | ASDF_DATATYPE_UINT32
  | ASDF_DATATYPE_INT64 | ASDF_DATATYPE_UINT64
  | ASDF_DATATYPE_FLOAT16 | ASDF_DATATYPE_FLOAT32 | ASDF_DATATYPE_FLOAT64
  | ASDF_DATATYPE_COMPLEX64 | ASDF_DATATYPE_COMPLEX128
  | ASDF_DATATYPE_BOOL8 | ASDF_DATATYPE_ASCII | ASDF_DATATYPE_UCS4 | ASDF_DATATYPE_STRUCTURED

definition ASDF_DATATYPE_SOURCE :: asdf_scalar_datatype where
  "ASDF_DATATYPE_SOURCE = ASDF_DATATYPE_UNKNOWN"

datatype asdf_byteorder =
    ASDF_BYTEORDER_INVALID | ASDF_BYTEORDER_DEFAULT | ASDF_BYTEORDER_BIG | ASDF_BYTEORDER_LITTLE

text \<open>A datatype; \<^verbatim>\<open>ndim\<close> and \<^verbatim>\<open>nfields\<close> are the lengths of the shape and of the fields.\<close>

datatype asdf_datatype = Datatype
  (dt_type: asdf_scalar_datatype) (dt_size: u64) (dt_name: "bytes option") (dt_byteorder: asdf_byteorder)
  (dt_shape: "u64 list") (dt_fields: "asdf_datatype list")

section \<open>Names\<close>

definition has_prefix :: "string \<Rightarrow> bytes \<Rightarrow> bool" where
  "has_prefix p s \<longleftrightarrow> take (length p) s = bytes_of p"

text \<open>\<^verbatim>\<open>*p && strspn(p, digits) == strlen(p)\<close>.\<close>

definition all_from :: "string \<Rightarrow> bytes \<Rightarrow> bool" where
  "all_from digits p \<longleftrightarrow> p \<noteq> [] \<and> list_all (\<lambda>c. c \<in> set (bytes_of digits)) p"

text \<open>The type a list of width names stands for.\<close>

fun width_type :: "bytes \<Rightarrow> (string \<times> asdf_scalar_datatype) list \<Rightarrow> asdf_scalar_datatype" where
  "width_type p [] = ASDF_DATATYPE_UNKNOWN"
| "width_type p ((w, t) # ws) = (if p = bytes_of w then t else width_type p ws)"

definition asdf_scalar_datatype_from_string :: "bytes \<Rightarrow> asdf_scalar_datatype" where
  "asdf_scalar_datatype_from_string dtype =
     (if has_prefix ''int'' dtype then
        (let p = drop 3 dtype in
         if all_from ''123468'' p
         then width_type p [(''8'', ASDF_DATATYPE_INT8), (''16'', ASDF_DATATYPE_INT16),
                (''32'', ASDF_DATATYPE_INT32), (''64'', ASDF_DATATYPE_INT64)]
         else ASDF_DATATYPE_UNKNOWN)
      else if has_prefix ''uint'' dtype then
        (let p = drop 4 dtype in
         if all_from ''123468'' p
         then width_type p [(''8'', ASDF_DATATYPE_UINT8), (''16'', ASDF_DATATYPE_UINT16),
                (''32'', ASDF_DATATYPE_UINT32), (''64'', ASDF_DATATYPE_UINT64)]
         else ASDF_DATATYPE_UNKNOWN)
      else if has_prefix ''float'' dtype then
        (let p = drop 5 dtype in
         if all_from ''12346'' p
         then width_type p [(''16'', ASDF_DATATYPE_FLOAT16), (''32'', ASDF_DATATYPE_FLOAT32),
                (''64'', ASDF_DATATYPE_FLOAT64)]
         else ASDF_DATATYPE_UNKNOWN)
      else if has_prefix ''complex'' dtype then
        (let p = drop 7 dtype in
         if all_from ''12468'' p
         then width_type p [(''64'', ASDF_DATATYPE_COMPLEX64), (''128'', ASDF_DATATYPE_COMPLEX128)]
         else ASDF_DATATYPE_UNKNOWN)
      else if dtype = bytes_of ''bool8'' then ASDF_DATATYPE_BOOL8
      else ASDF_DATATYPE_UNKNOWN)"

fun asdf_scalar_datatype_to_string :: "asdf_scalar_datatype \<Rightarrow> bytes" where
  "asdf_scalar_datatype_to_string ASDF_DATATYPE_UNKNOWN = bytes_of ''<unknown>''"
| "asdf_scalar_datatype_to_string ASDF_DATATYPE_INT8 = bytes_of ''int8''"
| "asdf_scalar_datatype_to_string ASDF_DATATYPE_UINT8 = bytes_of ''uint8''"
| "asdf_scalar_datatype_to_string ASDF_DATATYPE_INT16 = bytes_of ''int16''"
| "asdf_scalar_datatype_to_string ASDF_DATATYPE_UINT16 = bytes_of ''uint16''"
| "asdf_scalar_datatype_to_string ASDF_DATATYPE_INT32 = bytes_of ''int32''"
| "asdf_scalar_datatype_to_string ASDF_DATATYPE_UINT32 = bytes_of ''uint32''"
| "asdf_scalar_datatype_to_string ASDF_DATATYPE_INT64 = bytes_of ''int64''"
| "asdf_scalar_datatype_to_string ASDF_DATATYPE_UINT64 = bytes_of ''uint64''"
| "asdf_scalar_datatype_to_string ASDF_DATATYPE_FLOAT16 = bytes_of ''float16''"
| "asdf_scalar_datatype_to_string ASDF_DATATYPE_FLOAT32 = bytes_of ''float32''"
| "asdf_scalar_datatype_to_string ASDF_DATATYPE_FLOAT64 = bytes_of ''float64''"
| "asdf_scalar_datatype_to_string ASDF_DATATYPE_COMPLEX64 = bytes_of ''complex64''"
| "asdf_scalar_datatype_to_string ASDF_DATATYPE_COMPLEX128 = bytes_of ''complex128''"
| "asdf_scalar_datatype_to_string ASDF_DATATYPE_BOOL8 = bytes_of ''bool8''"
| "asdf_scalar_datatype_to_string ASDF_DATATYPE_ASCII = bytes_of ''ascii''"
| "asdf_scalar_datatype_to_string ASDF_DATATYPE_UCS4 = bytes_of ''ucs4''"
| "asdf_scalar_datatype_to_string ASDF_DATATYPE_STRUCTURED = bytes_of ''<structured>''"

definition asdf_byteorder_from_string :: "bytes option \<Rightarrow> asdf_byteorder" where
  "asdf_byteorder_from_string str =
     (if str = Some (bytes_of ''little'') then ASDF_BYTEORDER_LITTLE
      else if str = Some (bytes_of ''big'') then ASDF_BYTEORDER_BIG
      else ASDF_BYTEORDER_INVALID)"

fun asdf_byteorder_to_string :: "asdf_byteorder \<Rightarrow> bytes option" where
  "asdf_byteorder_to_string ASDF_BYTEORDER_LITTLE = Some (bytes_of ''little'')"
| "asdf_byteorder_to_string ASDF_BYTEORDER_BIG = Some (bytes_of ''big'')"
| "asdf_byteorder_to_string ASDF_BYTEORDER_DEFAULT = None"
| "asdf_byteorder_to_string ASDF_BYTEORDER_INVALID = None"

section \<open>Sizes\<close>

fun asdf_scalar_datatype_size :: "asdf_scalar_datatype \<Rightarrow> nat" where
  "asdf_scalar_datatype_size ASDF_DATATYPE_INT8 = 1"
| "asdf_scalar_datatype_size ASDF_DATATYPE_UINT8 = 1"
| "asdf_scalar_datatype_size ASDF_DATATYPE_BOOL8 = 1"
| "asdf_scalar_datatype_size ASDF_DATATYPE_INT16 = 2"
| "asdf_scalar_datatype_size ASDF_DATATYPE_UINT16 = 2"
| "asdf_scalar_datatype_size ASDF_DATATYPE_FLOAT16 = 2"
| "asdf_scalar_datatype_size ASDF_DATATYPE_INT32 = 4"
| "asdf_scalar_datatype_size ASDF_DATATYPE_UINT32 = 4"
| "asdf_scalar_datatype_size ASDF_DATATYPE_FLOAT32 = 4"
| "asdf_scalar_datatype_size ASDF_DATATYPE_INT64 = 8"
| "asdf_scalar_datatype_size ASDF_DATATYPE_UINT64 = 8"
| "asdf_scalar_datatype_size ASDF_DATATYPE_FLOAT64 = 8"
| "asdf_scalar_datatype_size ASDF_DATATYPE_COMPLEX64 = 8"
| "asdf_scalar_datatype_size ASDF_DATATYPE_COMPLEX128 = 16"
| "asdf_scalar_datatype_size ASDF_DATATYPE_ASCII = 0"
| "asdf_scalar_datatype_size ASDF_DATATYPE_UCS4 = 0"
| "asdf_scalar_datatype_size ASDF_DATATYPE_STRUCTURED = 0"
| "asdf_scalar_datatype_size ASDF_DATATYPE_UNKNOWN = 0"

definition asdf_datatype_is_structured :: "asdf_datatype \<Rightarrow> bool" where
  "asdf_datatype_is_structured d \<longleftrightarrow> dt_type d = ASDF_DATATYPE_STRUCTURED"

definition asdf_datatype_is_scalar :: "asdf_datatype \<Rightarrow> bool" where
  "asdf_datatype_is_scalar d \<longleftrightarrow> dt_type d \<noteq> ASDF_DATATYPE_STRUCTURED"

definition asdf_datatype_is_string :: "asdf_datatype \<Rightarrow> bool" where
  "asdf_datatype_is_string d \<longleftrightarrow> dt_type d = ASDF_DATATYPE_ASCII \<or> dt_type d = ASDF_DATATYPE_UCS4"

definition asdf_datatype_is_simple_scalar :: "asdf_datatype \<Rightarrow> bool" where
  "asdf_datatype_is_simple_scalar d \<longleftrightarrow> dt_type d \<noteq> ASDF_DATATYPE_STRUCTURED \<and>
     (dt_byteorder d = ASDF_BYTEORDER_DEFAULT \<or> dt_byteorder d = ASDF_BYTEORDER_LITTLE) \<and>
     dt_name d = None \<and> dt_shape d = [] \<and> dt_fields d = []"

text \<open>The size is computed once and kept in the datatype and in its fields: the result is the size and the
  datatype with what was filled in.\<close>

fun asdf_datatype_size :: "asdf_datatype \<Rightarrow> u64 \<times> asdf_datatype" where
  "asdf_datatype_size (Datatype t n name bo shape fields) =
     (if n \<noteq> 0 \<or> t = ASDF_DATATYPE_ASCII \<or> t = ASDF_DATATYPE_UCS4
      then (n, Datatype t n name bo shape fields)
      else
        let rs = (if t = ASDF_DATATYPE_STRUCTURED then map asdf_datatype_size fields else map (\<lambda>f. (0, f)) fields);
            size = (if t = ASDF_DATATYPE_STRUCTURED then sum_list (map fst rs)
                    else of_nat (asdf_scalar_datatype_size t));
            size = (if size \<noteq> 0 \<and> shape \<noteq> [] then foldl (*) size shape else size)
        in (size, Datatype t size name bo shape (map snd rs)))"

section \<open>What a datatype occupies\<close>

text \<open>The size a datatype stands for, where the size fields of the parts that are computed are not yet
  set: the product of the shape times the size of an element.\<close>

fun datatype_bytes :: "asdf_datatype \<Rightarrow> nat" where
  "datatype_bytes (Datatype t n name bo shape fields) =
     (if t = ASDF_DATATYPE_ASCII \<or> t = ASDF_DATATYPE_UCS4 then unat n
      else (if t = ASDF_DATATYPE_STRUCTURED then sum_list (map datatype_bytes fields)
            else asdf_scalar_datatype_size t) * prod_list (map unat shape))"

text \<open>Every size that is set is right.\<close>

fun sizes_ok :: "asdf_datatype \<Rightarrow> bool" where
  "sizes_ok (Datatype t n name bo shape fields) \<longleftrightarrow>
     (t = ASDF_DATATYPE_ASCII \<or> t = ASDF_DATATYPE_UCS4 \<or> n = 0 \<or>
        n = of_nat (datatype_bytes (Datatype t n name bo shape fields))) \<and>
     (t = ASDF_DATATYPE_STRUCTURED \<longrightarrow> list_all sizes_ok fields)"

lemma foldl_times: "foldl (*) (a :: u64) xs = a * prod_list xs"
  by (induction xs arbitrary: a) (simp_all add: ac_simps)

lemma of_nat_prod_unat: "of_nat (prod_list (map unat xs)) = (prod_list xs :: u64)"
  by (induction xs) simp_all

lemma of_nat_sum_list: "of_nat (sum_list xs) = (sum_list (map of_nat xs) :: u64)"
  by (induction xs) simp_all

lemma datatype_size_bytes:
  "sizes_ok d \<Longrightarrow> fst (asdf_datatype_size d) = of_nat (datatype_bytes d) \<and>
     sizes_ok (snd (asdf_datatype_size d)) \<and> datatype_bytes (snd (asdf_datatype_size d)) = datatype_bytes d"
proof (induction d rule: asdf_datatype_size.induct)
  case (1 t n name bo shape fields)
  let ?d = "Datatype t n name bo shape fields"
  show ?case
  proof (cases "n \<noteq> 0 \<or> t = ASDF_DATATYPE_ASCII \<or> t = ASDF_DATATYPE_UCS4")
    case True
    with "1.prems" show ?thesis by auto
  next
    case False
    define rs where "rs = (if t = ASDF_DATATYPE_STRUCTURED then map asdf_datatype_size fields else map (\<lambda>f. (0, f)) fields)"
    define e where "e = (if t = ASDF_DATATYPE_STRUCTURED then sum_list (map fst rs)
                    else of_nat (asdf_scalar_datatype_size t))"
    have fields: "map (of_nat \<circ> datatype_bytes) fields = map fst rs \<and>
        map datatype_bytes (map snd rs) = map datatype_bytes fields \<and> list_all sizes_ok (map snd rs)"
      if "t = ASDF_DATATYPE_STRUCTURED"
      using that "1.IH" "1.prems" False by (auto simp: rs_def list_all_iff)
    have rs: "map datatype_bytes (map snd rs) = map datatype_bytes fields"
      using fields by (auto simp: rs_def comp_def)
    have e: "e = of_nat (if t = ASDF_DATATYPE_STRUCTURED then sum_list (map datatype_bytes fields)
        else asdf_scalar_datatype_size t)"
      using fields by (auto simp: e_def of_nat_sum_list)
    have size: "(if e \<noteq> 0 \<and> shape \<noteq> [] then foldl (*) e shape else e) = of_nat (datatype_bytes ?d)"
    proof -
      have "of_nat (datatype_bytes ?d) = e * prod_list shape"
        using False by (auto simp: e of_nat_prod_unat)
      then show ?thesis by (auto simp: foldl_times)
    qed
    have r: "asdf_datatype_size ?d = (of_nat (datatype_bytes ?d),
        Datatype t (of_nat (datatype_bytes ?d)) name bo shape (map snd rs))"
      unfolding size [symmetric] e_def rs_def using False by (simp only: asdf_datatype_size.simps Let_def) simp
    have b: "datatype_bytes (Datatype t (of_nat (datatype_bytes ?d)) name bo shape (map snd rs)) = datatype_bytes ?d"
      using False rs by simp
    show ?thesis
      unfolding r fst_conv snd_conv b using fields b False by (auto simp del: datatype_bytes.simps)
  qed
qed

text \<open>C13. The size of a datatype, structured types with shapes and nested fields included, is the number of
  bytes its parts occupy (modulo the width of the type), and asking again gives the same size.\<close>

theorem datatype_size_is_bytes:
  assumes "sizes_ok d"
  shows "fst (asdf_datatype_size d) = of_nat (datatype_bytes d) \<and>
    fst (asdf_datatype_size (snd (asdf_datatype_size d))) = fst (asdf_datatype_size d)"
  using datatype_size_bytes [OF assms] datatype_size_bytes [of "snd (asdf_datatype_size d)"] by simp_all

text \<open>A record of a 32-bit integer and a 2 by 3 array of doubles takes 52 bytes.\<close>

theorem datatype_size_is_bytes_witness:
  "fst (asdf_datatype_size (Datatype ASDF_DATATYPE_STRUCTURED 0 None ASDF_BYTEORDER_DEFAULT []
     [Datatype ASDF_DATATYPE_INT32 0 None ASDF_BYTEORDER_BIG [] [],
      Datatype ASDF_DATATYPE_FLOAT64 0 None ASDF_BYTEORDER_BIG [2, 3] []])) = 52"
  by (subst datatype_size_is_bytes [THEN conjunct1]) simp_all

lemma from_string_to_string:
  "t \<notin> {ASDF_DATATYPE_ASCII, ASDF_DATATYPE_UCS4, ASDF_DATATYPE_STRUCTURED} \<Longrightarrow>
   asdf_scalar_datatype_from_string (asdf_scalar_datatype_to_string t) = t"
  by (cases t) (simp_all, code_simp+)

end
