(* ===== verification/Asdf_Convert.thy ===== *)
theory Asdf_Convert
  imports Asdf_Datatype Asdf_Double
begin

text \<open>
  Conversion between the element types of arrays: \<^verbatim>\<open>src/core/ndarray_convert.c\<close>. The macros of the
  file are one function each, over the bits of an element; the table of functions is the function
  \<open>conversion\<close>. A conversion of a floating value to an integer type that cannot hold it is undefined in C
  and has no result here.

  Arguments stand for the platform: whether the host is big-endian, whether it has \<^verbatim>\<open>_Float16\<close>, and which
  NaN a cast between floating types makes of a NaN.
\<close>

section \<open>C types and values\<close>

text \<open>Integers by their width in bytes; binary floating formats by their precision and the width of their
  exponent in bits.\<close>

datatype ctype = Sint nat | Uint nat | Flt nat nat

record platform =
  big_host :: bool
  has_float16 :: bool
  nan_cast :: "ctype \<Rightarrow> ctype \<Rightarrow> nat \<Rightarrow> nat"

fun ctype_size :: "ctype \<Rightarrow> nat" where
  "ctype_size (Sint n) = n"
| "ctype_size (Uint n) = n"
| "ctype_size (Flt p w) = (p + w) div 8"

fun int_min :: "ctype \<Rightarrow> int" where
  "int_min (Sint n) = - (2 ^ (8 * n - 1))"
| "int_min _ = 0"

fun int_max :: "ctype \<Rightarrow> int" where
  "int_max (Sint n) = 2 ^ (8 * n - 1) - 1"
| "int_max (Uint n) = 2 ^ (8 * n) - 1"
| "int_max _ = 0"

datatype cval = IntV int | FltV double

definition bias :: "nat \<Rightarrow> int" where
  "bias w = 2 ^ (w - 1) - 1"

text \<open>The value nearest to a magnitude in a format, ties to even.\<close>

definition float_round :: "nat \<Rightarrow> nat \<Rightarrow> bool \<Rightarrow> rat \<Rightarrow> double" where
  "float_round p w neg q =
     (if q = 0 then zero_of neg
      else let e = max (rat_log2 q) (1 - bias w) - int (p - 1);
               r = of_int (round_even (q / 2 powi e)) * 2 powi e in
        if r \<ge> 2 powi (bias w + 1) then Inf neg
        else if r = 0 then zero_of neg
        else Fin (if neg then - r else r))"

definition float_max :: "nat \<Rightarrow> nat \<Rightarrow> rat" where
  "float_max p w = (2 - 2 powi (1 - int p)) * 2 powi (bias w)"

definition decode :: "nat \<Rightarrow> nat \<Rightarrow> nat \<Rightarrow> double" where
  "decode p w bits =
     (let m = bits mod 2 ^ (p - 1); e = bits div 2 ^ (p - 1) mod 2 ^ w;
          neg = (bits div 2 ^ (p - 1 + w) mod 2 = 1) in
      if e = 2 ^ w - 1 then (if m = 0 then Inf neg else NaN)
      else let q = (if e = 0 then of_nat m * 2 powi (1 - bias w - int (p - 1))
                    else of_nat (2 ^ (p - 1) + m) * 2 powi (int e - bias w - int (p - 1)))
        in if q = 0 then zero_of neg else Fin (if neg then - q else q))"

definition encode_magnitude :: "nat \<Rightarrow> nat \<Rightarrow> rat \<Rightarrow> nat" where
  "encode_magnitude p w q =
     (let k = rat_log2 q in
      if q = 0 then 0
      else if k < 1 - bias w then nat \<lfloor>q / 2 powi (1 - bias w - int (p - 1))\<rfloor>
      else nat (k + bias w) * 2 ^ (p - 1) + (nat \<lfloor>q / 2 powi (k - int (p - 1))\<rfloor> - 2 ^ (p - 1)))"

text \<open>The bits of a value that is in the format; a NaN is handled by the cast.\<close>

definition encode :: "nat \<Rightarrow> nat \<Rightarrow> double \<Rightarrow> nat" where
  "encode p w d =
     (case d of
        Fin q \<Rightarrow> (if q < 0 then 2 ^ (p - 1 + w) else 0) + encode_magnitude p w \<bar>q\<bar>
      | MinusZero \<Rightarrow> 2 ^ (p - 1 + w)
      | Inf neg \<Rightarrow> (if neg then 2 ^ (p - 1 + w) else 0) + (2 ^ w - 1) * 2 ^ (p - 1)
      | NaN \<Rightarrow> (2 ^ w - 1) * 2 ^ (p - 1) + 2 ^ (p - 2))"

text \<open>The value the bits of an object stand for.\<close>

fun value_of :: "ctype \<Rightarrow> nat \<Rightarrow> cval" where
  "value_of (Sint n) b = IntV (if b < 2 ^ (8 * n - 1) then int b else int b - 2 ^ (8 * n))"
| "value_of (Uint n) b = IntV (int b)"
| "value_of (Flt p w) b = FltV (decode p w b)"

definition int_bits :: "ctype \<Rightarrow> int \<Rightarrow> nat" where
  "int_bits t v = nat (v mod 2 ^ (8 * ctype_size t))"

definition truncate_rat :: "rat \<Rightarrow> int" where
  "truncate_rat q = (if q < 0 then \<lceil>q\<rceil> else \<lfloor>q\<rfloor>)"

text \<open>The cast of the bits of one type to another.\<close>

definition cast_bits :: "platform \<Rightarrow> ctype \<Rightarrow> ctype \<Rightarrow> nat \<Rightarrow> nat option" where
  "cast_bits pf src dst b =
     (if src = dst then Some b
      else (case (value_of src b, dst) of
        (IntV v, Flt p w) \<Rightarrow> Some (encode p w (float_round p w (v < 0) (of_int \<bar>v\<bar>)))
      | (IntV v, _) \<Rightarrow> Some (int_bits dst v)
      | (FltV NaN, Flt p w) \<Rightarrow> Some (nan_cast pf src dst b)
      | (FltV (Fin q), Flt p w) \<Rightarrow> Some (encode p w (float_round p w (q < 0) \<bar>q\<bar>))
      | (FltV d, Flt p w) \<Rightarrow> Some (encode p w d)
      | (FltV (Fin q), _) \<Rightarrow>
          (if int_min dst \<le> truncate_rat q \<and> truncate_rat q \<le> int_max dst
           then Some (int_bits dst (truncate_rat q)) else None)
      | (FltV MinusZero, _) \<Rightarrow> Some 0
      | (FltV _, _) \<Rightarrow> None))"

text \<open>A constant as a value of a type, and the comparison of two values of one type.\<close>

datatype const = IntC int | MaxC nat nat | MinusMaxC nat nat

definition const_val :: "ctype \<Rightarrow> const \<Rightarrow> cval" where
  "const_val t c =
     (case (t, c) of
        (Flt p w, IntC i) \<Rightarrow> FltV (float_round p w (i < 0) (of_int \<bar>i\<bar>))
      | (Flt p w, MaxC p' w') \<Rightarrow> FltV (float_round p w False (float_max p' w'))
      | (Flt p w, MinusMaxC p' w') \<Rightarrow> FltV (float_round p w True (float_max p' w'))
      | (_, IntC i) \<Rightarrow> IntV i
      | (_, MaxC p' w') \<Rightarrow> IntV \<lfloor>float_max p' w'\<rfloor>
      | (_, MinusMaxC p' w') \<Rightarrow> IntV (- \<lfloor>float_max p' w'\<rfloor>))"

fun d_less :: "double \<Rightarrow> double \<Rightarrow> bool" where
  "d_less NaN y = False"
| "d_less x NaN = False"
| "d_less (Inf a) (Inf b) = (a \<and> \<not> b)"
| "d_less (Inf a) y = a"
| "d_less x (Inf b) = (\<not> b)"
| "d_less x y = (d_rat x < d_rat y)"

fun c_less :: "cval \<Rightarrow> cval \<Rightarrow> bool" where
  "c_less (IntV a) (IntV b) = (a < b)"
| "c_less (FltV a) (FltV b) = d_less a b"
| "c_less _ _ = False"

section \<open>The macros\<close>

text \<open>Which macro defines a conversion, with its bounds.\<close>

datatype conv =
    Identity
  | Generic
  | Clamp const const
  | ClampFloat const const
  | IntToHalf const const
  | UintToHalf const
  | HalfToInt const const
  | ClampMax const
  | Truncate

definition const_bits :: "ctype \<Rightarrow> const \<Rightarrow> nat" where
  "const_bits t c = (case const_val t c of IntV i \<Rightarrow> int_bits t i | FltV d \<Rightarrow> (case t of Flt p w \<Rightarrow> encode p w d | _ \<Rightarrow> 0))"

definition inf_bits :: "ctype \<Rightarrow> bool \<Rightarrow> nat" where
  "inf_bits t neg = (case t of Flt p w \<Rightarrow> encode p w (Inf neg) | _ \<Rightarrow> 0)"

abbreviation c_half :: ctype where "c_half \<equiv> Flt 11 5"
abbreviation c_float :: ctype where "c_float \<equiv> Flt 24 8"
abbreviation c_double :: ctype where "c_double \<equiv> Flt 53 11"

text \<open>One element, macro by macro: whether it overflowed, and its new bits.\<close>

text \<open>A cast.\<close>

definition generic_elem ::
  "platform \<Rightarrow> ctype \<Rightarrow> ctype \<Rightarrow> nat \<Rightarrow> (bool \<times> nat) option" where
  "generic_elem pf src dst b =
    (map_option (Pair False) (cast_bits pf src dst b))"

text \<open>A cast of the value held between two bounds, compared in the source type.\<close>

definition clamp_elem ::
  "platform \<Rightarrow> ctype \<Rightarrow> ctype \<Rightarrow> const \<Rightarrow> const \<Rightarrow> nat \<Rightarrow> (bool \<times> nat) option" where
  "clamp_elem pf src dst lo hi b =
    (let v = value_of src b in
     if c_less v (const_val src lo) then Some (True, const_bits dst lo)
     else if c_less (const_val src hi) v then Some (True, const_bits dst hi)
     else map_option (Pair False) (cast_bits pf src dst b))"

text \<open>A narrower floating type: what is out of range becomes an infinity.\<close>

definition clamp_float_elem ::
  "platform \<Rightarrow> ctype \<Rightarrow> ctype \<Rightarrow> const \<Rightarrow> const \<Rightarrow> nat \<Rightarrow> (bool \<times> nat) option" where
  "clamp_float_elem pf src dst lo hi b =
    (let v = value_of src b in
     if (case v of FltV d \<Rightarrow> d_isinf d | _ \<Rightarrow> False) then map_option (Pair False) (cast_bits pf src dst b)
     else if c_less v (const_val src lo) then Some (True, inf_bits dst True)
     else if c_less (const_val src hi) v then Some (True, inf_bits dst False)
     else map_option (Pair False) (cast_bits pf src dst b))"

text \<open>Integers to half precision.\<close>

definition int_to_half_elem ::
  "platform \<Rightarrow> ctype \<Rightarrow> ctype \<Rightarrow> const \<Rightarrow> const \<Rightarrow> nat \<Rightarrow> (bool \<times> nat) option" where
  "int_to_half_elem pf src dst lo hi b =
    (let v = value_of src b in
     if c_less v (const_val src lo) then Some (True, inf_bits dst True)
     else if c_less (const_val src hi) v then Some (True, inf_bits dst False)
     else map_option (Pair False) (cast_bits pf src dst b))"

text \<open>Unsigned integers to half precision.\<close>

definition uint_to_half_elem ::
  "platform \<Rightarrow> ctype \<Rightarrow> ctype \<Rightarrow> const \<Rightarrow> nat \<Rightarrow> (bool \<times> nat) option" where
  "uint_to_half_elem pf src dst hi b =
    (if c_less (const_val src hi) (value_of src b) then Some (True, inf_bits dst False)
     else map_option (Pair False) (cast_bits pf src dst b))"

text \<open>Half precision to integers: compared as single precision, and a NaN becomes zero.\<close>

definition half_to_int_elem ::
  "platform \<Rightarrow> ctype \<Rightarrow> ctype \<Rightarrow> const \<Rightarrow> const \<Rightarrow> nat \<Rightarrow> (bool \<times> nat) option" where
  "half_to_int_elem pf src dst lo hi b =
    (let v = value_of src b in
     if v = FltV NaN then Some (False, 0)
     else if c_less v (const_val c_float lo) then Some (True, const_bits dst lo)
     else if c_less (const_val c_float hi) v then Some (True, const_bits dst hi)
     else map_option (Pair False) (cast_bits pf src dst b))"

text \<open>Unsigned values above the maximum.\<close>

definition clamp_max_elem ::
  "platform \<Rightarrow> ctype \<Rightarrow> ctype \<Rightarrow> const \<Rightarrow> nat \<Rightarrow> (bool \<times> nat) option" where
  "clamp_max_elem pf src dst hi b =
    (if c_less (const_val src hi) (value_of src b) then Some (True, const_bits dst hi)
     else map_option (Pair False) (cast_bits pf src dst b))"

text \<open>Negative values become zero.\<close>

definition truncate_elem ::
  "platform \<Rightarrow> ctype \<Rightarrow> ctype \<Rightarrow> nat \<Rightarrow> (bool \<times> nat) option" where
  "truncate_elem pf src dst b =
    (if c_less (value_of src b) (IntV 0) then Some (True, int_bits dst 0)
     else map_option (Pair False) (cast_bits pf src dst b))"

lemmas elem_defs [simp] = generic_elem_def clamp_elem_def clamp_float_elem_def int_to_half_elem_def
  uint_to_half_elem_def half_to_int_elem_def clamp_max_elem_def truncate_elem_def

fun conv_elem :: "platform \<Rightarrow> ctype \<Rightarrow> ctype \<Rightarrow> conv \<Rightarrow> nat \<Rightarrow> (bool \<times> nat) option" where
  "conv_elem pf src dst Identity b = Some (False, b)"
| "conv_elem pf src dst Generic b = generic_elem pf src dst b"
| "conv_elem pf src dst (Clamp lo hi) b = clamp_elem pf src dst lo hi b"
| "conv_elem pf src dst (ClampFloat lo hi) b = clamp_float_elem pf src dst lo hi b"
| "conv_elem pf src dst (IntToHalf lo hi) b = int_to_half_elem pf src dst lo hi b"
| "conv_elem pf src dst (UintToHalf hi) b = uint_to_half_elem pf src dst hi b"
| "conv_elem pf src dst (HalfToInt lo hi) b = half_to_int_elem pf src dst lo hi b"
| "conv_elem pf src dst (ClampMax hi) b = clamp_max_elem pf src dst hi b"
| "conv_elem pf src dst Truncate b = truncate_elem pf src dst b"

text \<open>The loop over the elements in memory. \<^verbatim>\<open>bswap\<close> reverses the bytes of an element.\<close>

definition load_bits :: "platform \<Rightarrow> bytes \<Rightarrow> nat" where
  "load_bits pf bs = be_val (if big_host pf then bs else rev bs)"

definition store_bits :: "platform \<Rightarrow> nat \<Rightarrow> nat \<Rightarrow> bytes" where
  "store_bits pf n b = (if big_host pf then be_enc n b else rev (be_enc n b))"

definition convert_one ::
  "platform \<Rightarrow> ctype \<Rightarrow> ctype \<Rightarrow> conv \<Rightarrow> bool \<Rightarrow> bytes \<Rightarrow> (bool \<times> bytes) option" where
  "convert_one pf src dst c bswap e =
     map_option (\<lambda>(ov, b). (ov, store_bits pf (ctype_size dst) b))
       (conv_elem pf src dst c (load_bits pf (if bswap then rev e else e)))"

fun convert_loop ::
  "(bytes \<Rightarrow> (bool \<times> bytes) option) \<Rightarrow> bytes \<Rightarrow> nat \<Rightarrow> nat \<Rightarrow> nat \<Rightarrow> (bool \<times> bytes) option" where
  "convert_loop f mem off sz 0 = Some (False, [])"
| "convert_loop f mem off sz (Suc n) = do {
     e \<leftarrow> mem_read mem off sz;
     (ov, d) \<leftarrow> f e;
     (ovs, ds) \<leftarrow> convert_loop f mem (off + sz) sz n;
     Some (ov \<or> ovs, d @ ds)
   }"

section \<open>The table\<close>

fun ctype_of :: "asdf_scalar_datatype \<Rightarrow> ctype option" where
  "ctype_of ASDF_DATATYPE_INT8 = Some (Sint 1)"
| "ctype_of ASDF_DATATYPE_UINT8 = Some (Uint 1)"
| "ctype_of ASDF_DATATYPE_INT16 = Some (Sint 2)"
| "ctype_of ASDF_DATATYPE_UINT16 = Some (Uint 2)"
| "ctype_of ASDF_DATATYPE_INT32 = Some (Sint 4)"
| "ctype_of ASDF_DATATYPE_UINT32 = Some (Uint 4)"
| "ctype_of ASDF_DATATYPE_INT64 = Some (Sint 8)"
| "ctype_of ASDF_DATATYPE_UINT64 = Some (Uint 8)"
| "ctype_of ASDF_DATATYPE_FLOAT16 = Some c_half"
| "ctype_of ASDF_DATATYPE_FLOAT32 = Some c_float"
| "ctype_of ASDF_DATATYPE_FLOAT64 = Some c_double"
| "ctype_of _ = None"

text \<open>The macro each pair of types uses, as the list of the file has it.\<close>

fun conversion :: "ctype \<Rightarrow> ctype \<Rightarrow> conv" where
  "conversion (Sint n) (Sint m) =
     (if n = m then Identity else if n < m then Generic
      else Clamp (IntC (int_min (Sint m))) (IntC (int_max (Sint m))))"
| "conversion (Sint n) (Uint m) =
     (if n \<le> m then Truncate else Clamp (IntC 0) (IntC (int_max (Uint m))))"
| "conversion (Uint n) (Sint m) =
     (if n < m then Generic else ClampMax (IntC (int_max (Sint m))))"
| "conversion (Uint n) (Uint m) =
     (if n = m then Identity else if n < m then Generic else ClampMax (IntC (int_max (Uint m))))"
| "conversion (Sint n) (Flt p w) =
     (if p = 11 \<and> n \<ge> 4 then IntToHalf (MinusMaxC 11 5) (MaxC 11 5) else Generic)"
| "conversion (Uint n) (Flt p w) =
     (if p = 11 \<and> n \<ge> 2 then UintToHalf (MaxC 11 5) else Generic)"
| "conversion (Flt p w) (Flt p' w') =
     (if p = p' then Identity else if p < p' then Generic else ClampFloat (MinusMaxC p' w') (MaxC p' w'))"
| "conversion (Flt p w) t =
     (if p = 11 then HalfToInt (IntC (int_min t)) (IntC (int_max t))
      else Clamp (IntC (int_min t)) (IntC (int_max t)))"

text \<open>Looking up the table: there is no function for a type that is not numeric, and reading the entries of
  \<^verbatim>\<open>ASDF_DATATYPE_STRUCTURED\<close> leaves the table.\<close>

definition asdf_ndarray_get_convert_fn ::
  "platform \<Rightarrow> asdf_scalar_datatype \<Rightarrow> asdf_scalar_datatype \<Rightarrow> (ctype \<times> ctype \<times> conv) option option" where
  "asdf_ndarray_get_convert_fn pf src dst =
     (if src = ASDF_DATATYPE_UNKNOWN \<or> dst = ASDF_DATATYPE_UNKNOWN then Some None
      else if src = ASDF_DATATYPE_STRUCTURED \<or> dst = ASDF_DATATYPE_STRUCTURED then None
      else Some (case (ctype_of src, ctype_of dst) of
        (Some s, Some d) \<Rightarrow>
          if \<not> has_float16 pf \<and> (s = c_half \<or> d = c_half) then None else Some (s, d, conversion s d)
      | _ \<Rightarrow> None))"

text \<open>A call of a conversion function. The identity without a swap is a copy.\<close>

definition convert ::
  "platform \<Rightarrow> ctype \<times> ctype \<times> conv \<Rightarrow> bool \<Rightarrow> bytes \<Rightarrow> nat \<Rightarrow> nat \<Rightarrow> nat \<Rightarrow> (bool \<times> bytes) option" where
  "convert pf c bswap mem off nelem elsize =
     (case c of (src, dst, k) \<Rightarrow>
        if k = Identity \<and> \<not> bswap then map_option (Pair False) (mem_read mem off (nelem * elsize))
        else convert_loop (convert_one pf src dst k bswap) mem off (ctype_size src) nelem)"

section \<open>Integers saturate\<close>

definition int_type :: "ctype \<Rightarrow> bool" where
  "int_type t \<longleftrightarrow> t \<in> {Sint 1, Sint 2, Sint 4, Sint 8, Uint 1, Uint 2, Uint 4, Uint 8}"

definition int_value :: "ctype \<Rightarrow> nat \<Rightarrow> int" where
  "int_value t b = (case value_of t b of IntV i \<Rightarrow> i | _ \<Rightarrow> 0)"

definition clamp :: "ctype \<Rightarrow> int \<Rightarrow> int" where
  "clamp t v = max (int_min t) (min (int_max t) v)"

lemma int_cases: "int_type t \<Longrightarrow>
    (t = Sint 1 \<Longrightarrow> P) \<Longrightarrow> (t = Sint 2 \<Longrightarrow> P) \<Longrightarrow> (t = Sint 4 \<Longrightarrow> P) \<Longrightarrow> (t = Sint 8 \<Longrightarrow> P) \<Longrightarrow>
    (t = Uint 1 \<Longrightarrow> P) \<Longrightarrow> (t = Uint 2 \<Longrightarrow> P) \<Longrightarrow> (t = Uint 4 \<Longrightarrow> P) \<Longrightarrow> (t = Uint 8 \<Longrightarrow> P) \<Longrightarrow> P"
  by (auto simp: int_type_def)

lemma int_value_range:
  "int_type t \<Longrightarrow> b < 2 ^ (8 * ctype_size t) \<Longrightarrow> int_min t \<le> int_value t b \<and> int_value t b \<le> int_max t"
  by (erule int_cases) (auto simp: int_value_def)

lemma int_bits_value: "int_type t \<Longrightarrow> b < 2 ^ (8 * ctype_size t) \<Longrightarrow> int_bits t (int_value t b) = b"
  by (erule int_cases) (auto simp: int_value_def int_bits_def nat_mod_distrib)

lemma mod_shift: "- M \<le> v \<Longrightarrow> v < 0 \<Longrightarrow> v mod M = v + (M :: int)"
  by (subst mod_add_self2 [symmetric]) (rule mod_pos_pos_trivial, auto)

lemma value_int_bits:
  assumes "int_type t" and "int_min t \<le> v" and "v \<le> int_max t"
  shows "int_value t (int_bits t v) = v"
proof (cases "0 \<le> v")
  case True
  with assms show ?thesis
    by (elim int_cases) (simp_all add: int_value_def int_bits_def)
next
  case False
  with assms show ?thesis
    by (elim int_cases) (simp_all add: int_value_def int_bits_def mod_shift)
qed

lemma int_bits_less: "int_bits t v < 2 ^ (8 * ctype_size t)"
proof -
  have "v mod 2 ^ (8 * ctype_size t) < 2 ^ (8 * ctype_size t)" by simp
  then show ?thesis by (simp add: int_bits_def nat_less_iff)
qed

lemma value_of_int: "int_type t \<Longrightarrow> value_of t b = IntV (int_value t b)"
  by (erule int_cases) (simp_all add: int_value_def)

lemma cast_int:
  assumes "int_type s" and "int_type d" and "b < 2 ^ (8 * ctype_size s)"
  shows "cast_bits pf s d b = Some (int_bits d (int_value s b))"
proof (cases "s = d")
  case True
  then show ?thesis using assms by (simp add: cast_bits_def int_bits_value)
next
  case False
  then show ?thesis
    using assms by (auto simp: cast_bits_def value_of_int int_type_def)
qed

lemma conversion_kinds:
  assumes "int_type s" and "int_type d"
  shows "conversion s d = Identity \<and> s = d \<or>
    conversion s d = Generic \<and> int_min d \<le> int_min s \<and> int_max s \<le> int_max d \<or>
    conversion s d = Truncate \<and> int_min d = 0 \<and> int_max s \<le> int_max d \<or>
    conversion s d = Clamp (IntC (int_min d)) (IntC (int_max d)) \<and> int_min d \<le> int_max d \<or>
    conversion s d = ClampMax (IntC (int_max d)) \<and> int_min d \<le> int_min s \<and> int_min d \<le> int_max d"
  using assms(1) by (rule int_cases; use assms(2) in \<open>rule int_cases\<close>) simp_all

lemma const_int: "int_type t \<Longrightarrow> const_val t (IntC i) = IntV i" "int_type t \<Longrightarrow> const_bits t (IntC i) = int_bits t i"
  by (auto simp: int_type_def const_val_def const_bits_def)

text \<open>One element of an integer type becomes the nearest value of the other type, and the overflow is
  reported exactly when the value is not kept.\<close>

lemma conv_int_elem:
  assumes s: "int_type s" and d: "int_type d" and b: "b < 2 ^ (8 * ctype_size s)"
  shows "conv_elem pf s d (conversion s d) b =
    Some (clamp d (int_value s b) \<noteq> int_value s b, int_bits d (clamp d (int_value s b)))"
proof -
  define v where "v = int_value s b"
  have r: "int_min s \<le> v" "v \<le> int_max s" using int_value_range [OF s b] by (simp_all add: v_def)
  note facts = cast_int [OF s d b, folded v_def] value_of_int [OF s, of b, folded v_def] const_int [OF s] const_int [OF d]
  consider (i) "conversion s d = Identity" "s = d"
    | (g) "conversion s d = Generic" "int_min d \<le> int_min s" "int_max s \<le> int_max d"
    | (t) "conversion s d = Truncate" "int_min d = 0" "int_max s \<le> int_max d"
    | (c) "conversion s d = Clamp (IntC (int_min d)) (IntC (int_max d))" "int_min d \<le> int_max d"
    | (m) "conversion s d = ClampMax (IntC (int_max d))" "int_min d \<le> int_min s" "int_min d \<le> int_max d"
    using conversion_kinds [OF s d] by blast
  then show ?thesis
    unfolding v_def [symmetric]
  proof cases
    case i
    with r have "clamp d v = v" by (simp add: clamp_def)
    with i int_bits_value [OF s b] show "conv_elem pf s d (conversion s d) b =
      Some (clamp d v \<noteq> v, int_bits d (clamp d v))" by (simp add: v_def)
  next
    case g
    with r have "clamp d v = v" by (simp add: clamp_def)
    with g facts show "conv_elem pf s d (conversion s d) b =
      Some (clamp d v \<noteq> v, int_bits d (clamp d v))" by simp
  next
    case t
    with r have "clamp d v = (if v < 0 then 0 else v)" by (simp add: clamp_def)
    with t facts show "conv_elem pf s d (conversion s d) b =
      Some (clamp d v \<noteq> v, int_bits d (clamp d v))" by simp
  next
    case c
    then have "clamp d v = (if v < int_min d then int_min d else if int_max d < v then int_max d else v)"
      by (simp add: clamp_def)
    with c facts show "conv_elem pf s d (conversion s d) b =
      Some (clamp d v \<noteq> v, int_bits d (clamp d v))" by (simp add: Let_def)
  next
    case m
    with r have "clamp d v = (if int_max d < v then int_max d else v)" by (simp add: clamp_def)
    with m facts show "conv_elem pf s d (conversion s d) b =
      Some (clamp d v \<noteq> v, int_bits d (clamp d v))" by simp
  qed
qed

section \<open>Whole arrays\<close>

text \<open>The \<open>i\<close>-th element, read in its byte order, and what a conversion stores for a list of elements.\<close>

definition elem_bits :: "platform \<Rightarrow> nat \<Rightarrow> bool \<Rightarrow> bytes \<Rightarrow> nat \<Rightarrow> nat \<Rightarrow> nat" where
  "elem_bits pf sz bswap mem off i =
     (let e = take sz (drop (off + i * sz) mem) in load_bits pf (if bswap then rev e else e))"

lemma convert_loop_all:
  assumes "\<And>i. i < n \<Longrightarrow> f (take sz (drop (off + i * sz) mem)) = Some (ov i, out i)"
    and "off + n * sz \<le> length mem"
  shows "convert_loop f mem off sz n = Some (\<exists>i < n. ov i, concat (map out [0..<n]))"
  using assms
proof (induction n arbitrary: off ov out)
  case (Suc n)
  have "f (take sz (drop (off + sz + i * sz) mem)) = Some (ov (Suc i), out (Suc i))" if "i < n" for i
    using Suc.prems(1) [of "Suc i"] that by (simp add: add.assoc)
  then have IH: "convert_loop f mem (off + sz) sz n =
      Some (\<exists>i < n. ov (Suc i), concat (map (\<lambda>i. out (Suc i)) [0..<n]))"
    using Suc.IH [of "off + sz" "\<lambda>i. ov (Suc i)" "\<lambda>i. out (Suc i)"] Suc.prems(2) by simp
  have rd: "mem_read mem off sz = Some (take sz (drop off mem))" "f (take sz (drop off mem)) = Some (ov 0, out 0)"
    using Suc.prems(2) Suc.prems(1) [of 0] by (simp_all add: mem_read_def)
  have ups: "[0..<Suc n] = 0 # map Suc [0..<n]" by (simp add: map_Suc_upt upt_conv_Cons del: upt_Suc)
  have cat: "concat (map out [0..<Suc n]) = out 0 @ concat (map (\<lambda>i. out (Suc i)) [0..<n])"
    by (simp only: ups list.map map_map comp_def concat.simps)
  have ex: "(\<exists>i < Suc n. ov i) \<longleftrightarrow> ov 0 \<or> (\<exists>i < n. ov (Suc i))" by (auto simp: less_Suc_eq_0_disj)
  show ?case by (simp only: convert_loop.simps rd(1) IH ex cat) (simp add: rd(2))
qed simp

lemma load_bits_less: "length e = n \<Longrightarrow> load_bits pf e < 2 ^ (8 * n)"
  using be_val_bound [of e] be_val_bound [of "rev e"] by (simp add: load_bits_def power_mult)

lemma store_load: "store_bits pf (length e) (load_bits pf e) = e"
  using be_enc_be_val [of e] be_enc_be_val [of "rev e"] by (simp add: store_bits_def load_bits_def)

lemma concat_elems: "off + n * sz \<le> length mem \<Longrightarrow>
    concat (map (\<lambda>i. take sz (drop (off + i * sz) mem)) [0..<n]) = take (n * sz) (drop off mem)"
proof (induction n)
  case (Suc n)
  have m: "Suc n * sz = n * sz + sz" by simp
  have "take (Suc n * sz) (drop off mem) = take (n * sz) (drop off mem) @ take sz (drop (off + n * sz) mem)"
    by (simp only: m take_add drop_drop add.commute [of off "n * sz"])
  moreover have "concat (map (\<lambda>i. take sz (drop (off + i * sz) mem)) [0..<n]) = take (n * sz) (drop off mem)"
    using Suc by simp
  ultimately show ?case by (simp only: upt_Suc_append le0 map_append concat_append list.map concat.simps append_Nil2)
qed simp

text \<open>The integer an element of an array stands for.\<close>

definition elem_int :: "platform \<Rightarrow> ctype \<Rightarrow> bool \<Rightarrow> bytes \<Rightarrow> nat \<Rightarrow> nat \<Rightarrow> int" where
  "elem_int pf t bswap mem off i = int_value t (elem_bits pf (ctype_size t) bswap mem off i)"

lemma int_convert_fn:
  assumes "ctype_of src = Some s" and "ctype_of dst = Some d" and "int_type s" and "int_type d"
  shows "asdf_ndarray_get_convert_fn pf src dst = Some (Some (s, d, conversion s d))"
  using assms by (cases src; cases dst) (auto simp: asdf_ndarray_get_convert_fn_def int_type_def)

lemma convert_ints:
  assumes "int_type s" and "int_type d" and "off + n * ctype_size s \<le> length mem"
  shows "convert pf (s, d, conversion s d) bswap mem off n (ctype_size d) =
    Some (\<exists>i < n. clamp d (elem_int pf s bswap mem off i) \<noteq> elem_int pf s bswap mem off i,
      concat (map (\<lambda>i. store_bits pf (ctype_size d) (int_bits d (clamp d (elem_int pf s bswap mem off i)))) [0..<n]))"
proof -
  let ?v = "elem_int pf s bswap mem off"
  have len: "length (take (ctype_size s) (drop (off + i * ctype_size s) mem)) = ctype_size s" if "i < n" for i
  proof -
    have "(i + 1) * ctype_size s \<le> n * ctype_size s" using that by (intro mult_right_mono) auto
    with assms(3) show ?thesis by simp
  qed
  have bits: "elem_bits pf (ctype_size s) bswap mem off i < 2 ^ (8 * ctype_size s)" if "i < n" for i
    using load_bits_less [of _ "ctype_size s"] len [OF that] by (simp add: elem_bits_def Let_def)
  have one: "convert_one pf s d (conversion s d) bswap (take (ctype_size s) (drop (off + i * ctype_size s) mem)) =
      Some (clamp d (?v i) \<noteq> ?v i, store_bits pf (ctype_size d) (int_bits d (clamp d (?v i))))" if "i < n" for i
    using conv_int_elem [OF assms(1,2) bits [OF that], of pf]
    by (simp add: convert_one_def elem_int_def elem_bits_def Let_def)
  have loop: "convert_loop (convert_one pf s d (conversion s d) bswap) mem off (ctype_size s) n =
      Some (\<exists>i < n. clamp d (?v i) \<noteq> ?v i,
        concat (map (\<lambda>i. store_bits pf (ctype_size d) (int_bits d (clamp d (?v i)))) [0..<n]))"
    by (rule convert_loop_all) (use one assms(3) in auto)
  have "convert pf (s, d, conversion s d) bswap mem off n (ctype_size d) =
      convert_loop (convert_one pf s d (conversion s d) bswap) mem off (ctype_size s) n"
  proof (cases "conversion s d = Identity \<and> \<not> bswap")
    case True
    then have sd: "s = d" using conversion_kinds [OF assms(1,2)] by auto
    have keep: "clamp d (?v i) = ?v i" if "i < n" for i
      using int_value_range [OF assms(1) bits [OF that]] sd by (simp add: elem_int_def clamp_def)
    have "store_bits pf (ctype_size d) (int_bits d (clamp d (?v i))) = take (ctype_size s) (drop (off + i * ctype_size s) mem)"
      if "i \<in> set [0..<n]" for i
      using that True int_bits_value [OF assms(1) bits [of i]] len [of i] sd keep [of i]
        store_load [of pf "take (ctype_size s) (drop (off + i * ctype_size s) mem)"]
      by (simp add: elem_int_def elem_bits_def)
    then have "map (\<lambda>i. store_bits pf (ctype_size d) (int_bits d (clamp d (?v i)))) [0..<n] =
        map (\<lambda>i. take (ctype_size s) (drop (off + i * ctype_size s) mem)) [0..<n]"
      by (rule map_cong [OF refl])
    then have "concat (map (\<lambda>i. store_bits pf (ctype_size d) (int_bits d (clamp d (?v i)))) [0..<n]) =
        take (n * ctype_size s) (drop off mem)"
      by (simp only: concat_elems [OF assms(3)])
    moreover have "\<not> (\<exists>i < n. clamp d (?v i) \<noteq> ?v i)" using keep by blast
    moreover have "convert pf (s, d, conversion s d) bswap mem off n (ctype_size d) =
        Some (False, take (n * ctype_size s) (drop off mem))"
      using True assms(3) sd by (simp add: convert_def mem_read_def)
    ultimately show ?thesis unfolding loop by simp
  next
    case False
    then show ?thesis by (simp only: convert_def prod.case if_False)
  qed
  with loop show ?thesis by simp
qed

text \<open>C12. Converting an array between integer types, in either byte order and for every pair of the eight
  types: there is a function in the table, every element becomes the nearest value of the new type, and an
  overflow is reported exactly when some element is not kept.\<close>

theorem int_conversion_saturates:
  assumes "ctype_of src = Some s" and "ctype_of dst = Some d" and "int_type s" and "int_type d"
    and "off + n * ctype_size s \<le> length mem"
  shows "\<exists>c. asdf_ndarray_get_convert_fn pf src dst = Some (Some c) \<and>
    convert pf c bswap mem off n (ctype_size d) =
      Some (\<exists>i < n. clamp d (elem_int pf s bswap mem off i) \<noteq> elem_int pf s bswap mem off i,
        concat (map (\<lambda>i. store_bits pf (ctype_size d) (int_bits d (clamp d (elem_int pf s bswap mem off i)))) [0..<n]))"
  using int_convert_fn [OF assms(1-4)] convert_ints [OF assms(3-5)] by blast

definition little_platform :: platform where
  "little_platform = \<lparr>big_host = False, has_float16 = True, nan_cast = \<lambda>_ _ b. b\<rparr>"

text \<open>Big-endian 16-bit integers 300, -1 and 7 as unsigned bytes on a little-endian host.\<close>

theorem int_conversion_saturates_witness:
  "\<exists>c. asdf_ndarray_get_convert_fn little_platform ASDF_DATATYPE_INT16 ASDF_DATATYPE_UINT8 = Some (Some c) \<and>
    convert little_platform c True [1, 44, 255, 255, 0, 7] 0 3 1 = Some (True, [255, 0, 7])"
proof -
  let ?m = "[1, 44, 255, 255, 0, 7] :: bytes"
  have v: "map (elem_int little_platform (Sint 2) True ?m 0) [0..<3] = [300, -1, 7]"
    by (simp add: elem_int_def elem_bits_def int_value_def load_bits_def be_val_def little_platform_def upt_conv_Cons)
  have b: "map (\<lambda>v. store_bits little_platform 1 (int_bits (Uint 1) (clamp (Uint 1) v))) [300, -1, 7] = [[255], [0], [7]]"
    by (simp add: store_bits_def int_bits_def clamp_def little_platform_def)
  have "concat (map (\<lambda>v. store_bits little_platform 1 (int_bits (Uint 1) (clamp (Uint 1) v)))
      (map (elem_int little_platform (Sint 2) True ?m 0) [0..<3])) = [255, 0, 7]"
    by (simp only: v b concat.simps) simp
  then have r: "concat (map (\<lambda>i. store_bits little_platform (ctype_size (Uint 1)) (int_bits (Uint 1)
      (clamp (Uint 1) (elem_int little_platform (Sint 2) True ?m 0 i)))) [0..<3]) = [255, 0, 7]"
    by (simp only: map_map comp_def ctype_size.simps)
  have "elem_int little_platform (Sint 2) True ?m 0 0 = 300"
    by (simp add: elem_int_def elem_bits_def int_value_def load_bits_def be_val_def little_platform_def)
  then have "clamp (Uint 1) (elem_int little_platform (Sint 2) True ?m 0 0) \<noteq> elem_int little_platform (Sint 2) True ?m 0 0"
    by (simp add: clamp_def)
  then have ov: "\<exists>i < 3. clamp (Uint 1) (elem_int little_platform (Sint 2) True ?m 0 i) \<noteq>
      elem_int little_platform (Sint 2) True ?m 0 i"
    by (intro exI [of _ 0]) simp
  have t: "ctype_of ASDF_DATATYPE_INT16 = Some (Sint 2)" "ctype_of ASDF_DATATYPE_UINT8 = Some (Uint 1)"
    "int_type (Sint 2)" "int_type (Uint 1)" "0 + 3 * ctype_size (Sint 2) \<le> length ?m"
    by (simp_all add: int_type_def)
  have ex: "(\<exists>i < 3. clamp (Uint 1) (elem_int little_platform (Sint 2) True ?m 0 i) \<noteq>
      elem_int little_platform (Sint 2) True ?m 0 i) = True"
    using ov by blast
  show ?thesis
    using int_conversion_saturates [OF t, of little_platform True] unfolding r ex by (simp only: ctype_size.simps)
qed

end
