(* ===== verification/Asdf_Value.thy ===== *)
theory Asdf_Value
  imports Asdf_Yaml_Scalar Asdf_Convert
begin

text \<open>
  Scalar values: \<^verbatim>\<open>asdf_value_infer_scalar_type\<close> and the \<^verbatim>\<open>asdf_value_is_*\<close> and \<^verbatim>\<open>asdf_value_as_*\<close> families of
  \<^verbatim>\<open>src/value.c\<close>, with the tags of \<^verbatim>\<open>src/value_util.c\<close>. A value wraps a node of libfyaml; what libfyaml tells
  about the node (\<^verbatim>\<open>fy_node_get_style\<close>, \<^verbatim>\<open>fy_node_get_scalar\<close>, \<^verbatim>\<open>fy_node_get_tag\<close>) is a record of functions. Every
  operation may update the value, as the type is inferred once and kept.
\<close>

section \<open>Values\<close>

datatype asdf_value_type =
    ASDF_VALUE_UNKNOWN | ASDF_VALUE_SEQUENCE | ASDF_VALUE_MAPPING | ASDF_VALUE_SCALAR | ASDF_VALUE_STRING
  | ASDF_VALUE_BOOL | ASDF_VALUE_NULL
  | ASDF_VALUE_INT8 | ASDF_VALUE_INT16 | ASDF_VALUE_INT32 | ASDF_VALUE_INT64
  | ASDF_VALUE_UINT8 | ASDF_VALUE_UINT16 | ASDF_VALUE_UINT32 | ASDF_VALUE_UINT64
  | ASDF_VALUE_FLOAT | ASDF_VALUE_DOUBLE | ASDF_VALUE_EXTENSION

text \<open>The union \<^verbatim>\<open>scalar\<close>: an integer, a double or a bool was stored last. The members \<^verbatim>\<open>i\<close> and \<^verbatim>\<open>u\<close> are the
  signed and the unsigned reading of one word. A value starts zeroed, so a stored bool leaves the rest of
  the word zero; reading \<^verbatim>\<open>b\<close> looks at the first byte.\<close>

datatype value_scalar = Word u64 | Dbl double | Boolean bool

fun scalar_u :: "platform \<Rightarrow> value_scalar \<Rightarrow> u64" where
  "scalar_u pf (Word w) = w"
| "scalar_u pf (Dbl d) = of_nat (encode 53 11 d)"
| "scalar_u pf (Boolean b) = of_nat (load_bits pf (of_bool b # replicate 7 0))"

definition scalar_i :: "platform \<Rightarrow> value_scalar \<Rightarrow> int" where
  "scalar_i pf s = sint (scalar_u pf s)"

fun scalar_d :: "platform \<Rightarrow> value_scalar \<Rightarrow> double" where
  "scalar_d pf (Dbl d) = d"
| "scalar_d pf s = decode 53 11 (unat (scalar_u pf s))"

fun scalar_b :: "platform \<Rightarrow> value_scalar \<Rightarrow> bool" where
  "scalar_b pf (Boolean b) = b"
| "scalar_b pf s = (store_bits pf 8 (unat (scalar_u pf s)) ! 0 \<noteq> 0)"

datatype asdf_yaml_node_style = ASDF_YAML_NODE_STYLE_AUTO | ASDF_YAML_NODE_STYLE_FLOW | ASDF_YAML_NODE_STYLE_BLOCK

text \<open>The style is \<^term>\<open>None\<close> in a value that was copied without it: \<^verbatim>\<open>malloc\<close> leaves it indeterminate.\<close>

record 'n asdf_value =
  v_type :: asdf_value_type
  v_raw_type :: asdf_value_type
  v_err :: asdf_value_err
  v_node :: 'n
  v_tag :: "bytes option"
  v_shallow :: bool
  v_explicit_tag_checked :: bool
  v_extension_checked :: bool
  v_scalar :: value_scalar
  v_path :: "bytes option"
  v_style :: "asdf_yaml_node_style option"

datatype fy_node_style =
    FYNS_ANY | FYNS_FLOW | FYNS_BLOCK | FYNS_PLAIN | FYNS_SINGLE_QUOTED | FYNS_DOUBLE_QUOTED | FYNS_LITERAL | FYNS_FOLDED | FYNS_ALIAS

text \<open>What the code asks of the system: the platform, the decimal point of the locale and libfyaml.\<close>

record 'n value_env =
  ve_platform :: platform
  ve_point :: bytes
  fy_node_get_style :: "'n \<Rightarrow> fy_node_style"
  fy_node_get_scalar :: "'n \<Rightarrow> bytes option"
  fy_node_get_tag :: "'n \<Rightarrow> bytes option"

section \<open>Tags\<close>

datatype asdf_yaml_common_tag =
    ASDF_YAML_COMMON_TAG_UNKNOWN | ASDF_YAML_COMMON_TAG_NULL | ASDF_YAML_COMMON_TAG_BOOL
  | ASDF_YAML_COMMON_TAG_INT | ASDF_YAML_COMMON_TAG_FLOAT | ASDF_YAML_COMMON_TAG_STR

definition tag_map :: "bytes \<rightharpoonup> asdf_yaml_common_tag" where
  "tag_map = map_of
     [(bytes_of ''tag:yaml.org,2002:null'', ASDF_YAML_COMMON_TAG_NULL),
      (bytes_of ''tag:yaml.org,2002:bool'', ASDF_YAML_COMMON_TAG_BOOL),
      (bytes_of ''tag:yaml.org,2002:int'', ASDF_YAML_COMMON_TAG_INT),
      (bytes_of ''tag:yaml.org,2002:float'', ASDF_YAML_COMMON_TAG_FLOAT),
      (bytes_of ''tag:yaml.org,2002:str'', ASDF_YAML_COMMON_TAG_STR)]"

definition asdf_common_tag_get :: "bytes \<Rightarrow> asdf_yaml_common_tag" where
  "asdf_common_tag_get tagstr = (case tag_map tagstr of None \<Rightarrow> ASDF_YAML_COMMON_TAG_UNKNOWN | Some t \<Rightarrow> t)"

text \<open>The tag of a value, looked up once; \<^verbatim>\<open>strndup\<close> may fail.\<close>

definition asdf_value_tag ::
  "'n value_env \<Rightarrow> heap \<Rightarrow> 'n asdf_value \<Rightarrow> bytes option \<times> 'n asdf_value \<times> heap" where
  "asdf_value_tag env h value =
     (if v_explicit_tag_checked value then (v_tag value, value, h)
      else
        let (tag, h) = (case fy_node_get_tag env (v_node value) of
              None \<Rightarrow> (v_tag value, h)
            | Some t \<Rightarrow> let (ok, h) = alloc h in (if ok then Some t else None, h));
            value = value\<lparr>v_tag := tag, v_explicit_tag_checked := True\<rparr>
        in (tag, value, h))"

section \<open>Inference\<close>

definition infer_failure :: "'n asdf_value \<Rightarrow> asdf_value_err \<times> 'n asdf_value" where
  "infer_failure value =
     (ASDF_VALUE_ERR_PARSE_FAILURE, value\<lparr>v_type := ASDF_VALUE_UNKNOWN, v_err := ASDF_VALUE_ERR_PARSE_FAILURE\<rparr>)"

definition asdf_value_infer_null :: "'n asdf_value \<Rightarrow> bytes option \<Rightarrow> asdf_value_err \<times> 'n asdf_value" where
  "asdf_value_infer_null value scalar =
     (if asdf_yaml_scalar_is_null scalar
      then (ASDF_VALUE_OK, value\<lparr>v_type := ASDF_VALUE_NULL, v_err := ASDF_VALUE_OK\<rparr>)
      else infer_failure value)"

definition asdf_value_infer_bool :: "'n asdf_value \<Rightarrow> bytes option \<Rightarrow> asdf_value_err \<times> 'n asdf_value" where
  "asdf_value_infer_bool value scalar =
     (case asdf_yaml_scalar_is_bool scalar of
        Some b \<Rightarrow> (ASDF_VALUE_OK, value\<lparr>v_type := ASDF_VALUE_BOOL, v_scalar := Boolean b, v_err := ASDF_VALUE_OK\<rparr>)
      | None \<Rightarrow> infer_failure value)"

definition unsigned_type :: "u64 \<Rightarrow> asdf_value_type" where
  "unsigned_type magnitude =
     (if magnitude \<le> 255 then ASDF_VALUE_UINT8
      else if magnitude \<le> 65535 then ASDF_VALUE_UINT16
      else if magnitude \<le> 4294967295 then ASDF_VALUE_UINT32
      else ASDF_VALUE_UINT64)"

definition signed_type :: "int \<Rightarrow> asdf_value_type" where
  "signed_type i_val =
     (if i_val \<ge> - 128 then ASDF_VALUE_INT8
      else if i_val \<ge> - 32768 then ASDF_VALUE_INT16
      else if i_val \<ge> - 2147483648 then ASDF_VALUE_INT32
      else ASDF_VALUE_INT64)"

definition asdf_value_infer_int ::
  "heap \<Rightarrow> 'n asdf_value \<Rightarrow> bytes option \<Rightarrow> (asdf_value_err \<times> 'n asdf_value \<times> heap) option" where
  "asdf_value_infer_int h value scalar = do {
     ((err, negative, magnitude), h) \<leftarrow> asdf_yaml_scalar_is_int h scalar 0;
     let value = value\<lparr>v_type := ASDF_VALUE_UNKNOWN\<rparr>;
     let (err, value) =
       (if err = ASDF_VALUE_OK \<and> \<not> negative
        then (err, value\<lparr>v_type := unsigned_type magnitude, v_scalar := Word magnitude\<rparr>)
        else if err = ASDF_VALUE_OK then
          (if magnitude > 9223372036854775808 then (ASDF_VALUE_ERR_OVERFLOW, value)
           else (err, value\<lparr>v_type := signed_type (- uint magnitude), v_scalar := Word (- magnitude)\<rparr>))
        else (err, value));
     Some (err, value\<lparr>v_err := err\<rparr>, h)
   }"

definition asdf_value_infer_float ::
  "bytes \<Rightarrow> heap \<Rightarrow> 'n asdf_value \<Rightarrow> bytes option \<Rightarrow> bool \<Rightarrow> asdf_value_err \<times> 'n asdf_value \<times> heap" where
  "asdf_value_infer_float dp h value scalar allow_int =
     (let ((err, d), h) = asdf_yaml_scalar_is_float dp h scalar allow_int (Fin 0);
          value = (if err = ASDF_VALUE_OK \<or> err = ASDF_VALUE_ERR_OVERFLOW
                   then value\<lparr>v_type := ASDF_VALUE_DOUBLE, v_scalar := Dbl d\<rparr>
                   else value\<lparr>v_type := ASDF_VALUE_UNKNOWN\<rparr>)
      in (err, value\<lparr>v_err := err\<rparr>, h))"

text \<open>A plain scalar whose tag is one of the common schema.\<close>

definition infer_tagged ::
  "'n value_env \<Rightarrow> heap \<Rightarrow> 'n asdf_value \<Rightarrow> bytes option \<Rightarrow> asdf_yaml_common_tag \<Rightarrow>
   (asdf_value_err \<times> 'n asdf_value \<times> heap) option" where
  "infer_tagged env h value scalar tag =
     (case tag of
        ASDF_YAML_COMMON_TAG_UNKNOWN \<Rightarrow> Some (ASDF_VALUE_ERR_UNKNOWN, value, h)
      | ASDF_YAML_COMMON_TAG_NULL \<Rightarrow> (let (err, value) = asdf_value_infer_null value scalar in Some (err, value, h))
      | ASDF_YAML_COMMON_TAG_BOOL \<Rightarrow> (let (err, value) = asdf_value_infer_bool value scalar in Some (err, value, h))
      | ASDF_YAML_COMMON_TAG_INT \<Rightarrow> asdf_value_infer_int h value scalar
      | ASDF_YAML_COMMON_TAG_FLOAT \<Rightarrow> Some (asdf_value_infer_float (ve_point env) h value scalar True)
      | ASDF_YAML_COMMON_TAG_STR \<Rightarrow> Some (ASDF_VALUE_OK, value\<lparr>v_type := ASDF_VALUE_STRING\<rparr>, h))"

text \<open>A plain scalar without such a tag: null, integer, truth value, float, and otherwise a string.\<close>

definition infer_plain ::
  "'n value_env \<Rightarrow> heap \<Rightarrow> 'n asdf_value \<Rightarrow> bytes option \<Rightarrow> (asdf_value_err \<times> 'n asdf_value \<times> heap) option" where
  "infer_plain env h value scalar =
     (let (err, value) = asdf_value_infer_null value scalar in
      if err = ASDF_VALUE_OK then Some (err, value, h)
      else do {
        (err, value, h) \<leftarrow> asdf_value_infer_int h value scalar;
        if err = ASDF_VALUE_OK \<or> err = ASDF_VALUE_ERR_OVERFLOW then Some (err, value, h)
        else
          let (err, value) = asdf_value_infer_bool value scalar in
          if err = ASDF_VALUE_OK then Some (err, value, h)
          else
            let (err, value, h) = asdf_value_infer_float (ve_point env) h value scalar False in
            if err = ASDF_VALUE_OK \<or> err = ASDF_VALUE_ERR_OVERFLOW then Some (err, value, h)
            else Some (ASDF_VALUE_OK, value\<lparr>v_type := ASDF_VALUE_STRING, v_err := ASDF_VALUE_OK\<rparr>, h)
      })"

definition quoted_style :: "fy_node_style \<Rightarrow> bool" where
  "quoted_style s \<longleftrightarrow> s \<in> {FYNS_SINGLE_QUOTED, FYNS_DOUBLE_QUOTED, FYNS_LITERAL, FYNS_FOLDED}"

definition infer_value ::
  "'n value_env \<Rightarrow> heap \<Rightarrow> 'n asdf_value \<Rightarrow> (asdf_value_err \<times> 'n asdf_value \<times> heap) option" where
  "infer_value env h value =
     (if v_type value = ASDF_VALUE_SEQUENCE \<or> v_type value = ASDF_VALUE_MAPPING
      then Some (ASDF_VALUE_ERR_TYPE_MISMATCH, value, h)
      else if v_type value \<noteq> ASDF_VALUE_SCALAR then Some (ASDF_VALUE_OK, value, h)
      else if \<not> (v_err value = ASDF_VALUE_ERR_UNKNOWN \<or> v_err value = ASDF_VALUE_OK) then Some (v_err value, value, h)
      else if quoted_style (fy_node_get_style env (v_node value))
      then Some (ASDF_VALUE_OK, value\<lparr>v_type := ASDF_VALUE_STRING, v_err := ASDF_VALUE_OK\<rparr>, h)
      else
        let scalar = fy_node_get_scalar env (v_node value);
            (tag, value, h) = asdf_value_tag env h value in
        case map_option asdf_common_tag_get tag of
          None \<Rightarrow> infer_plain env h value scalar
        | Some ASDF_YAML_COMMON_TAG_UNKNOWN \<Rightarrow> infer_plain env h value scalar
        | Some tag \<Rightarrow> infer_tagged env h value scalar tag)"

definition asdf_value_infer_scalar_type ::
  "'n value_env \<Rightarrow> heap \<Rightarrow> 'n asdf_value option \<Rightarrow> (asdf_value_err \<times> 'n asdf_value option \<times> heap) option" where
  "asdf_value_infer_scalar_type env h value =
     (case value of
        None \<Rightarrow> Some (ASDF_VALUE_ERR_UNKNOWN, None, h)
      | Some v \<Rightarrow> map_option (\<lambda>(err, v, h). (err, Some v, h)) (infer_value env h v))"

definition asdf_value_get_type ::
  "'n value_env \<Rightarrow> heap \<Rightarrow> 'n asdf_value option \<Rightarrow> (asdf_value_type \<times> 'n asdf_value option \<times> heap) option" where
  "asdf_value_get_type env h value =
     (case value of
        None \<Rightarrow> Some (ASDF_VALUE_UNKNOWN, None, h)
      | Some v \<Rightarrow>
          if v_type v \<noteq> ASDF_VALUE_SCALAR then Some (v_type v, value, h)
          else map_option (\<lambda>(err, v, h). (v_type v, Some v, h)) (infer_value env h v))"

fun asdf_value_type_string :: "asdf_value_type \<Rightarrow> bytes" where
  "asdf_value_type_string ASDF_VALUE_UNKNOWN = bytes_of ''<unknown>''"
| "asdf_value_type_string ASDF_VALUE_SEQUENCE = bytes_of ''sequence''"
| "asdf_value_type_string ASDF_VALUE_MAPPING = bytes_of ''mapping''"
| "asdf_value_type_string ASDF_VALUE_SCALAR = bytes_of ''scalar''"
| "asdf_value_type_string ASDF_VALUE_STRING = bytes_of ''string''"
| "asdf_value_type_string ASDF_VALUE_BOOL = bytes_of ''bool''"
| "asdf_value_type_string ASDF_VALUE_NULL = bytes_of ''null''"
| "asdf_value_type_string ASDF_VALUE_INT8 = bytes_of ''int8''"
| "asdf_value_type_string ASDF_VALUE_INT16 = bytes_of ''int16''"
| "asdf_value_type_string ASDF_VALUE_INT32 = bytes_of ''int32''"
| "asdf_value_type_string ASDF_VALUE_INT64 = bytes_of ''int64''"
| "asdf_value_type_string ASDF_VALUE_UINT8 = bytes_of ''uint8''"
| "asdf_value_type_string ASDF_VALUE_UINT16 = bytes_of ''uint16''"
| "asdf_value_type_string ASDF_VALUE_UINT32 = bytes_of ''uint32''"
| "asdf_value_type_string ASDF_VALUE_UINT64 = bytes_of ''uint64''"
| "asdf_value_type_string ASDF_VALUE_FLOAT = bytes_of ''float''"
| "asdf_value_type_string ASDF_VALUE_DOUBLE = bytes_of ''double''"
| "asdf_value_type_string ASDF_VALUE_EXTENSION = bytes_of ''<extension>''"

section \<open>Getters\<close>

text \<open>Every getter infers the type first and then looks at the value. The output is what is stored where \<^verbatim>\<open>out\<close>
  points to, when it is not null.\<close>

definition is_scalar_with ::
  "'n value_env \<Rightarrow> heap \<Rightarrow> 'n asdf_value option \<Rightarrow> (asdf_value_type \<Rightarrow> value_scalar \<Rightarrow> bool) \<Rightarrow>
   (bool \<times> 'n asdf_value option \<times> heap) option" where
  "is_scalar_with env h value f =
     map_option (\<lambda>(err, value, h).
         (err = ASDF_VALUE_OK \<and> (case value of None \<Rightarrow> False | Some v \<Rightarrow> f (v_type v) (v_scalar v)), value, h))
       (asdf_value_infer_scalar_type env h value)"

definition as_scalar_with ::
  "'n value_env \<Rightarrow> heap \<Rightarrow> 'n asdf_value option \<Rightarrow> (asdf_value_type \<Rightarrow> value_scalar \<Rightarrow> asdf_value_err \<times> 'o option) \<Rightarrow>
   (asdf_value_err \<times> 'o option \<times> 'n asdf_value option \<times> heap) option" where
  "as_scalar_with env h value f =
     map_option (\<lambda>(err, value, h).
         (case value of
            Some v \<Rightarrow> (if err = ASDF_VALUE_OK then (case f (v_type v) (v_scalar v) of (err, out) \<Rightarrow> (err, out, value, h))
                       else (err, None, value, h))
          | None \<Rightarrow> (err, None, None, h)))
       (asdf_value_infer_scalar_type env h value)"

text \<open>The type test of a family of its own: the type has to be exactly the one asked for.\<close>

fun is_string_of :: "platform \<Rightarrow> asdf_value_type \<Rightarrow> value_scalar \<Rightarrow> bool" where
  "is_string_of pf t s =
     (if t \<in> {ASDF_VALUE_STRING} then True
      else False)"

definition asdf_value_is_string ::
  "'n value_env \<Rightarrow> heap \<Rightarrow> 'n asdf_value option \<Rightarrow> (bool \<times> 'n asdf_value option \<times> heap) option" where
  "asdf_value_is_string env h value = is_scalar_with env h value (is_string_of (ve_platform env))"

fun is_null_of :: "platform \<Rightarrow> asdf_value_type \<Rightarrow> value_scalar \<Rightarrow> bool" where
  "is_null_of pf t s =
     (if t \<in> {ASDF_VALUE_NULL} then True
      else False)"

definition asdf_value_is_null ::
  "'n value_env \<Rightarrow> heap \<Rightarrow> 'n asdf_value option \<Rightarrow> (bool \<times> 'n asdf_value option \<times> heap) option" where
  "asdf_value_is_null env h value = is_scalar_with env h value (is_null_of (ve_platform env))"

text \<open>Truth values.\<close>

fun is_bool_of :: "platform \<Rightarrow> asdf_value_type \<Rightarrow> value_scalar \<Rightarrow> bool" where
  "is_bool_of pf t s =
     (if t \<in> {ASDF_VALUE_BOOL} then True
      else if t \<in> {ASDF_VALUE_UINT8, ASDF_VALUE_UINT16, ASDF_VALUE_UINT32, ASDF_VALUE_UINT64} then scalar_u pf s = 0 \<or> scalar_u pf s = 1
      else if t \<in> {ASDF_VALUE_INT8, ASDF_VALUE_INT16, ASDF_VALUE_INT32, ASDF_VALUE_INT64} then scalar_i pf s = 0 \<or> scalar_i pf s = 1
      else False)"

definition asdf_value_is_bool ::
  "'n value_env \<Rightarrow> heap \<Rightarrow> 'n asdf_value option \<Rightarrow> (bool \<times> 'n asdf_value option \<times> heap) option" where
  "asdf_value_is_bool env h value = is_scalar_with env h value (is_bool_of (ve_platform env))"

fun as_bool_of :: "platform \<Rightarrow> asdf_value_type \<Rightarrow> value_scalar \<Rightarrow> asdf_value_err \<times> bool option" where
  "as_bool_of pf t s =
     (if t = ASDF_VALUE_UINT8 \<and> (scalar_u pf s = 0 \<or> scalar_u pf s = 1) then (ASDF_VALUE_OK, Some (scalar_b pf s))
      else if t \<noteq> ASDF_VALUE_UINT8 \<and> t \<noteq> ASDF_VALUE_BOOL then (ASDF_VALUE_ERR_TYPE_MISMATCH, None)
      else (ASDF_VALUE_OK, Some (scalar_b pf s)))"

definition asdf_value_as_bool ::
  "'n value_env \<Rightarrow> heap \<Rightarrow> 'n asdf_value option \<Rightarrow> (asdf_value_err \<times> bool option \<times> 'n asdf_value option \<times> heap) option" where
  "asdf_value_as_bool env h value = as_scalar_with env h value (as_bool_of (ve_platform env))"

text \<open>Integers.\<close>

fun is_int_of :: "platform \<Rightarrow> asdf_value_type \<Rightarrow> value_scalar \<Rightarrow> bool" where
  "is_int_of pf t s =
     (if t \<in> {ASDF_VALUE_INT64, ASDF_VALUE_UINT64, ASDF_VALUE_INT32, ASDF_VALUE_UINT32, ASDF_VALUE_INT16, ASDF_VALUE_UINT16, ASDF_VALUE_INT8, ASDF_VALUE_UINT8} then True
      else False)"

definition asdf_value_is_int ::
  "'n value_env \<Rightarrow> heap \<Rightarrow> 'n asdf_value option \<Rightarrow> (bool \<times> 'n asdf_value option \<times> heap) option" where
  "asdf_value_is_int env h value = is_scalar_with env h value (is_int_of (ve_platform env))"

fun is_int8_of :: "platform \<Rightarrow> asdf_value_type \<Rightarrow> value_scalar \<Rightarrow> bool" where
  "is_int8_of pf t s =
     (if t \<in> {ASDF_VALUE_INT8} then True
      else if t \<in> {ASDF_VALUE_INT16, ASDF_VALUE_INT32, ASDF_VALUE_INT64} then scalar_i pf s \<ge> - 128 \<and> scalar_u pf s \<le> 127
      else if t \<in> {ASDF_VALUE_UINT8, ASDF_VALUE_UINT16, ASDF_VALUE_UINT32, ASDF_VALUE_UINT64} then scalar_u pf s \<le> 127
      else False)"

definition asdf_value_is_int8 ::
  "'n value_env \<Rightarrow> heap \<Rightarrow> 'n asdf_value option \<Rightarrow> (bool \<times> 'n asdf_value option \<times> heap) option" where
  "asdf_value_is_int8 env h value = is_scalar_with env h value (is_int8_of (ve_platform env))"

fun as_int8_of :: "platform \<Rightarrow> asdf_value_type \<Rightarrow> value_scalar \<Rightarrow> asdf_value_err \<times> 8 word option" where
  "as_int8_of pf t s =
     (if t \<in> {ASDF_VALUE_INT64, ASDF_VALUE_INT32, ASDF_VALUE_INT16, ASDF_VALUE_INT8}
      then (if scalar_i pf s > 127 \<or> scalar_i pf s < - 128 then ASDF_VALUE_ERR_OVERFLOW else ASDF_VALUE_OK, Some (of_int (scalar_i pf s)))
      else if t \<in> {ASDF_VALUE_UINT64, ASDF_VALUE_UINT32, ASDF_VALUE_UINT16, ASDF_VALUE_UINT8}
      then (if scalar_u pf s > 127 then ASDF_VALUE_ERR_OVERFLOW else ASDF_VALUE_OK, Some (ucast (scalar_u pf s)))
      else (ASDF_VALUE_ERR_TYPE_MISMATCH, None))"

definition asdf_value_as_int8 ::
  "'n value_env \<Rightarrow> heap \<Rightarrow> 'n asdf_value option \<Rightarrow> (asdf_value_err \<times> 8 word option \<times> 'n asdf_value option \<times> heap) option" where
  "asdf_value_as_int8 env h value = as_scalar_with env h value (as_int8_of (ve_platform env))"

fun is_int16_of :: "platform \<Rightarrow> asdf_value_type \<Rightarrow> value_scalar \<Rightarrow> bool" where
  "is_int16_of pf t s =
     (if t \<in> {ASDF_VALUE_INT16, ASDF_VALUE_INT8, ASDF_VALUE_UINT8} then True
      else if t \<in> {ASDF_VALUE_INT32, ASDF_VALUE_INT64} then scalar_i pf s \<ge> - 32768 \<and> scalar_u pf s \<le> 32767
      else if t \<in> {ASDF_VALUE_UINT16, ASDF_VALUE_UINT32, ASDF_VALUE_UINT64} then scalar_u pf s \<le> 32767
      else False)"

definition asdf_value_is_int16 ::
  "'n value_env \<Rightarrow> heap \<Rightarrow> 'n asdf_value option \<Rightarrow> (bool \<times> 'n asdf_value option \<times> heap) option" where
  "asdf_value_is_int16 env h value = is_scalar_with env h value (is_int16_of (ve_platform env))"

fun as_int16_of :: "platform \<Rightarrow> asdf_value_type \<Rightarrow> value_scalar \<Rightarrow> asdf_value_err \<times> 16 word option" where
  "as_int16_of pf t s =
     (if t \<in> {ASDF_VALUE_INT64, ASDF_VALUE_INT32, ASDF_VALUE_INT16, ASDF_VALUE_INT8}
      then (if scalar_i pf s > 32767 \<or> scalar_i pf s < - 32768 then ASDF_VALUE_ERR_OVERFLOW else ASDF_VALUE_OK, Some (of_int (scalar_i pf s)))
      else if t \<in> {ASDF_VALUE_UINT64, ASDF_VALUE_UINT32, ASDF_VALUE_UINT16, ASDF_VALUE_UINT8}
      then (if scalar_u pf s > 32767 then ASDF_VALUE_ERR_OVERFLOW else ASDF_VALUE_OK, Some (ucast (scalar_u pf s)))
      else (ASDF_VALUE_ERR_TYPE_MISMATCH, None))"

definition asdf_value_as_int16 ::
  "'n value_env \<Rightarrow> heap \<Rightarrow> 'n asdf_value option \<Rightarrow> (asdf_value_err \<times> 16 word option \<times> 'n asdf_value option \<times> heap) option" where
  "asdf_value_as_int16 env h value = as_scalar_with env h value (as_int16_of (ve_platform env))"

fun is_int32_of :: "platform \<Rightarrow> asdf_value_type \<Rightarrow> value_scalar \<Rightarrow> bool" where
  "is_int32_of pf t s =
     (if t \<in> {ASDF_VALUE_INT32, ASDF_VALUE_INT16, ASDF_VALUE_INT8, ASDF_VALUE_UINT8, ASDF_VALUE_UINT16} then True
      else if t \<in> {ASDF_VALUE_INT64} then scalar_i pf s \<ge> - 2147483648 \<and> scalar_u pf s \<le> 2147483647
      else if t \<in> {ASDF_VALUE_UINT32, ASDF_VALUE_UINT64} then scalar_u pf s \<le> 2147483647
      else False)"

definition asdf_value_is_int32 ::
  "'n value_env \<Rightarrow> heap \<Rightarrow> 'n asdf_value option \<Rightarrow> (bool \<times> 'n asdf_value option \<times> heap) option" where
  "asdf_value_is_int32 env h value = is_scalar_with env h value (is_int32_of (ve_platform env))"

fun as_int32_of :: "platform \<Rightarrow> asdf_value_type \<Rightarrow> value_scalar \<Rightarrow> asdf_value_err \<times> 32 word option" where
  "as_int32_of pf t s =
     (if t \<in> {ASDF_VALUE_INT64, ASDF_VALUE_INT32, ASDF_VALUE_INT16, ASDF_VALUE_INT8}
      then (if scalar_i pf s > 2147483647 \<or> scalar_i pf s < - 2147483648 then ASDF_VALUE_ERR_OVERFLOW else ASDF_VALUE_OK, Some (of_int (scalar_i pf s)))
      else if t \<in> {ASDF_VALUE_UINT64, ASDF_VALUE_UINT32, ASDF_VALUE_UINT16, ASDF_VALUE_UINT8}
      then (if scalar_u pf s > 2147483647 then ASDF_VALUE_ERR_OVERFLOW else ASDF_VALUE_OK, Some (ucast (scalar_u pf s)))
      else (ASDF_VALUE_ERR_TYPE_MISMATCH, None))"

definition asdf_value_as_int32 ::
  "'n value_env \<Rightarrow> heap \<Rightarrow> 'n asdf_value option \<Rightarrow> (asdf_value_err \<times> 32 word option \<times> 'n asdf_value option \<times> heap) option" where
  "asdf_value_as_int32 env h value = as_scalar_with env h value (as_int32_of (ve_platform env))"

fun is_int64_of :: "platform \<Rightarrow> asdf_value_type \<Rightarrow> value_scalar \<Rightarrow> bool" where
  "is_int64_of pf t s =
     (if t \<in> {ASDF_VALUE_INT64, ASDF_VALUE_INT32, ASDF_VALUE_INT16, ASDF_VALUE_INT8, ASDF_VALUE_UINT32, ASDF_VALUE_UINT16, ASDF_VALUE_UINT8} then True
      else if t \<in> {ASDF_VALUE_UINT64} then scalar_u pf s \<le> 9223372036854775807
      else False)"

definition asdf_value_is_int64 ::
  "'n value_env \<Rightarrow> heap \<Rightarrow> 'n asdf_value option \<Rightarrow> (bool \<times> 'n asdf_value option \<times> heap) option" where
  "asdf_value_is_int64 env h value = is_scalar_with env h value (is_int64_of (ve_platform env))"

fun as_int64_of :: "platform \<Rightarrow> asdf_value_type \<Rightarrow> value_scalar \<Rightarrow> asdf_value_err \<times> 64 word option" where
  "as_int64_of pf t s =
     (if t \<in> {ASDF_VALUE_INT64, ASDF_VALUE_INT32, ASDF_VALUE_INT16, ASDF_VALUE_INT8}
      then (ASDF_VALUE_OK, Some (scalar_u pf s))
      else if t \<in> {ASDF_VALUE_UINT64, ASDF_VALUE_UINT32, ASDF_VALUE_UINT16, ASDF_VALUE_UINT8}
      then (if scalar_u pf s > 9223372036854775807 then ASDF_VALUE_ERR_OVERFLOW else ASDF_VALUE_OK, Some (scalar_u pf s))
      else (ASDF_VALUE_ERR_TYPE_MISMATCH, None))"

definition asdf_value_as_int64 ::
  "'n value_env \<Rightarrow> heap \<Rightarrow> 'n asdf_value option \<Rightarrow> (asdf_value_err \<times> 64 word option \<times> 'n asdf_value option \<times> heap) option" where
  "asdf_value_as_int64 env h value = as_scalar_with env h value (as_int64_of (ve_platform env))"

fun is_uint8_of :: "platform \<Rightarrow> asdf_value_type \<Rightarrow> value_scalar \<Rightarrow> bool" where
  "is_uint8_of pf t s =
     (if t \<in> {ASDF_VALUE_UINT8, ASDF_VALUE_UINT16, ASDF_VALUE_UINT32, ASDF_VALUE_UINT64} then True
      else if t \<in> {ASDF_VALUE_INT8} then scalar_i pf s \<ge> 0
      else if t \<in> {ASDF_VALUE_INT16, ASDF_VALUE_INT32, ASDF_VALUE_INT64} then scalar_i pf s \<ge> 0 \<and> scalar_i pf s \<le> 255
      else False)"

definition asdf_value_is_uint8 ::
  "'n value_env \<Rightarrow> heap \<Rightarrow> 'n asdf_value option \<Rightarrow> (bool \<times> 'n asdf_value option \<times> heap) option" where
  "asdf_value_is_uint8 env h value = is_scalar_with env h value (is_uint8_of (ve_platform env))"

fun as_uint8_of :: "platform \<Rightarrow> asdf_value_type \<Rightarrow> value_scalar \<Rightarrow> asdf_value_err \<times> 8 word option" where
  "as_uint8_of pf t s =
     (if t \<in> {ASDF_VALUE_UINT8}
      then (ASDF_VALUE_OK, Some (ucast (scalar_u pf s)))
      else if t \<in> {ASDF_VALUE_UINT64, ASDF_VALUE_UINT32, ASDF_VALUE_UINT16}
      then (if scalar_u pf s > 255 then ASDF_VALUE_ERR_OVERFLOW else ASDF_VALUE_OK, Some (ucast (scalar_u pf s)))
      else if t \<in> {ASDF_VALUE_INT8}
      then (if scalar_i pf s < 0 then ASDF_VALUE_ERR_OVERFLOW else ASDF_VALUE_OK, Some (of_int (scalar_i pf s)))
      else if t \<in> {ASDF_VALUE_INT64, ASDF_VALUE_INT32, ASDF_VALUE_INT16}
      then (if scalar_i pf s < 0 \<or> scalar_i pf s > 255 then ASDF_VALUE_ERR_OVERFLOW else ASDF_VALUE_OK, Some (of_int (scalar_i pf s)))
      else (ASDF_VALUE_ERR_TYPE_MISMATCH, None))"

definition asdf_value_as_uint8 ::
  "'n value_env \<Rightarrow> heap \<Rightarrow> 'n asdf_value option \<Rightarrow> (asdf_value_err \<times> 8 word option \<times> 'n asdf_value option \<times> heap) option" where
  "asdf_value_as_uint8 env h value = as_scalar_with env h value (as_uint8_of (ve_platform env))"

fun is_uint16_of :: "platform \<Rightarrow> asdf_value_type \<Rightarrow> value_scalar \<Rightarrow> bool" where
  "is_uint16_of pf t s =
     (if t \<in> {ASDF_VALUE_UINT16, ASDF_VALUE_UINT8} then True
      else if t \<in> {ASDF_VALUE_UINT32, ASDF_VALUE_UINT64} then scalar_u pf s \<le> 65535
      else if t \<in> {ASDF_VALUE_INT16, ASDF_VALUE_INT8} then scalar_i pf s \<ge> 0
      else if t \<in> {ASDF_VALUE_INT32, ASDF_VALUE_INT64} then scalar_i pf s \<ge> 0 \<and> scalar_i pf s \<le> 65535
      else False)"

definition asdf_value_is_uint16 ::
  "'n value_env \<Rightarrow> heap \<Rightarrow> 'n asdf_value option \<Rightarrow> (bool \<times> 'n asdf_value option \<times> heap) option" where
  "asdf_value_is_uint16 env h value = is_scalar_with env h value (is_uint16_of (ve_platform env))"

fun as_uint16_of :: "platform \<Rightarrow> asdf_value_type \<Rightarrow> value_scalar \<Rightarrow> asdf_value_err \<times> 16 word option" where
  "as_uint16_of pf t s =
     (if t \<in> {ASDF_VALUE_UINT16, ASDF_VALUE_UINT8}
      then (ASDF_VALUE_OK, Some (ucast (scalar_u pf s)))
      else if t \<in> {ASDF_VALUE_UINT64, ASDF_VALUE_UINT32}
      then (if scalar_u pf s > 65535 then ASDF_VALUE_ERR_OVERFLOW else ASDF_VALUE_OK, Some (ucast (scalar_u pf s)))
      else if t \<in> {ASDF_VALUE_INT16, ASDF_VALUE_INT8}
      then (if scalar_i pf s < 0 then ASDF_VALUE_ERR_OVERFLOW else ASDF_VALUE_OK, Some (of_int (scalar_i pf s)))
      else if t \<in> {ASDF_VALUE_INT64, ASDF_VALUE_INT32}
      then (if scalar_i pf s < 0 \<or> scalar_i pf s > 65535 then ASDF_VALUE_ERR_OVERFLOW else ASDF_VALUE_OK, Some (of_int (scalar_i pf s)))
      else (ASDF_VALUE_ERR_TYPE_MISMATCH, None))"

definition asdf_value_as_uint16 ::
  "'n value_env \<Rightarrow> heap \<Rightarrow> 'n asdf_value option \<Rightarrow> (asdf_value_err \<times> 16 word option \<times> 'n asdf_value option \<times> heap) option" where
  "asdf_value_as_uint16 env h value = as_scalar_with env h value (as_uint16_of (ve_platform env))"

fun is_uint32_of :: "platform \<Rightarrow> asdf_value_type \<Rightarrow> value_scalar \<Rightarrow> bool" where
  "is_uint32_of pf t s =
     (if t \<in> {ASDF_VALUE_UINT32, ASDF_VALUE_UINT16, ASDF_VALUE_UINT8} then True
      else if t \<in> {ASDF_VALUE_UINT64} then scalar_u pf s \<le> 4294967295
      else if t \<in> {ASDF_VALUE_INT32, ASDF_VALUE_INT16, ASDF_VALUE_INT8} then scalar_i pf s \<ge> 0
      else if t \<in> {ASDF_VALUE_INT64} then scalar_i pf s \<ge> 0 \<and> scalar_i pf s \<le> 65535
      else False)"

definition asdf_value_is_uint32 ::
  "'n value_env \<Rightarrow> heap \<Rightarrow> 'n asdf_value option \<Rightarrow> (bool \<times> 'n asdf_value option \<times> heap) option" where
  "asdf_value_is_uint32 env h value = is_scalar_with env h value (is_uint32_of (ve_platform env))"

fun as_uint32_of :: "platform \<Rightarrow> asdf_value_type \<Rightarrow> value_scalar \<Rightarrow> asdf_value_err \<times> 32 word option" where
  "as_uint32_of pf t s =
     (if t \<in> {ASDF_VALUE_UINT32, ASDF_VALUE_UINT16, ASDF_VALUE_UINT8}
      then (ASDF_VALUE_OK, Some (ucast (scalar_u pf s)))
      else if t \<in> {ASDF_VALUE_INT32, ASDF_VALUE_INT16, ASDF_VALUE_INT8}
      then (if scalar_i pf s < 0 then ASDF_VALUE_ERR_OVERFLOW else ASDF_VALUE_OK, Some (of_int (scalar_i pf s)))
      else if t \<in> {ASDF_VALUE_UINT64, ASDF_VALUE_INT64}
      then (if scalar_u pf s > 4294967295 then ASDF_VALUE_ERR_OVERFLOW else ASDF_VALUE_OK, Some (ucast (scalar_u pf s)))
      else (ASDF_VALUE_ERR_TYPE_MISMATCH, None))"

definition asdf_value_as_uint32 ::
  "'n value_env \<Rightarrow> heap \<Rightarrow> 'n asdf_value option \<Rightarrow> (asdf_value_err \<times> 32 word option \<times> 'n asdf_value option \<times> heap) option" where
  "asdf_value_as_uint32 env h value = as_scalar_with env h value (as_uint32_of (ve_platform env))"

fun is_uint64_of :: "platform \<Rightarrow> asdf_value_type \<Rightarrow> value_scalar \<Rightarrow> bool" where
  "is_uint64_of pf t s =
     (if t \<in> {ASDF_VALUE_UINT64, ASDF_VALUE_UINT32, ASDF_VALUE_UINT16, ASDF_VALUE_UINT8} then True
      else if t \<in> {ASDF_VALUE_INT64, ASDF_VALUE_INT32, ASDF_VALUE_INT16, ASDF_VALUE_INT8} then scalar_i pf s \<ge> 0
      else False)"

definition asdf_value_is_uint64 ::
  "'n value_env \<Rightarrow> heap \<Rightarrow> 'n asdf_value option \<Rightarrow> (bool \<times> 'n asdf_value option \<times> heap) option" where
  "asdf_value_is_uint64 env h value = is_scalar_with env h value (is_uint64_of (ve_platform env))"

fun as_uint64_of :: "platform \<Rightarrow> asdf_value_type \<Rightarrow> value_scalar \<Rightarrow> asdf_value_err \<times> 64 word option" where
  "as_uint64_of pf t s =
     (if t \<in> {ASDF_VALUE_UINT64, ASDF_VALUE_UINT32, ASDF_VALUE_UINT16, ASDF_VALUE_UINT8}
      then (ASDF_VALUE_OK, Some (scalar_u pf s))
      else if t \<in> {ASDF_VALUE_INT64, ASDF_VALUE_INT32, ASDF_VALUE_INT16, ASDF_VALUE_INT8}
      then (if scalar_i pf s < 0 then ASDF_VALUE_ERR_OVERFLOW else ASDF_VALUE_OK, Some (scalar_u pf s))
      else (ASDF_VALUE_ERR_TYPE_MISMATCH, None))"

definition asdf_value_as_uint64 ::
  "'n value_env \<Rightarrow> heap \<Rightarrow> 'n asdf_value option \<Rightarrow> (asdf_value_err \<times> 64 word option \<times> 'n asdf_value option \<times> heap) option" where
  "asdf_value_as_uint64 env h value = as_scalar_with env h value (as_uint64_of (ve_platform env))"

text \<open>Floats: a single is the double it stands for, and a narrowing rounds.\<close>

fun to_single :: "double \<Rightarrow> double" where
  "to_single (Fin q) = float_round 24 8 (q < 0) \<bar>q\<bar>"
| "to_single d = d"

fun is_finite :: "double \<Rightarrow> bool" where
  "is_finite (Inf _) = False"
| "is_finite NaN = False"
| "is_finite _ = True"

fun is_float_of :: "platform \<Rightarrow> asdf_value_type \<Rightarrow> value_scalar \<Rightarrow> bool" where
  "is_float_of pf t s =
     (if t \<in> {ASDF_VALUE_DOUBLE, ASDF_VALUE_FLOAT} then True
      else False)"

definition asdf_value_is_float ::
  "'n value_env \<Rightarrow> heap \<Rightarrow> 'n asdf_value option \<Rightarrow> (bool \<times> 'n asdf_value option \<times> heap) option" where
  "asdf_value_is_float env h value = is_scalar_with env h value (is_float_of (ve_platform env))"

fun as_float_of :: "platform \<Rightarrow> asdf_value_type \<Rightarrow> value_scalar \<Rightarrow> asdf_value_err \<times> double option" where
  "as_float_of pf t s =
     (if t \<in> {ASDF_VALUE_FLOAT}
      then (ASDF_VALUE_OK, Some (to_single (scalar_d pf s)))
      else if t \<in> {ASDF_VALUE_DOUBLE}
      then (if \<not> is_finite (to_single (scalar_d pf s)) \<and> is_finite (scalar_d pf s) then ASDF_VALUE_ERR_OVERFLOW else ASDF_VALUE_OK, Some (to_single (scalar_d pf s)))
      else (ASDF_VALUE_ERR_TYPE_MISMATCH, None))"

definition asdf_value_as_float ::
  "'n value_env \<Rightarrow> heap \<Rightarrow> 'n asdf_value option \<Rightarrow> (asdf_value_err \<times> double option \<times> 'n asdf_value option \<times> heap) option" where
  "asdf_value_as_float env h value = as_scalar_with env h value (as_float_of (ve_platform env))"

fun is_double_of :: "platform \<Rightarrow> asdf_value_type \<Rightarrow> value_scalar \<Rightarrow> bool" where
  "is_double_of pf t s =
     (if t \<in> {ASDF_VALUE_DOUBLE} then True
      else False)"

definition asdf_value_is_double ::
  "'n value_env \<Rightarrow> heap \<Rightarrow> 'n asdf_value option \<Rightarrow> (bool \<times> 'n asdf_value option \<times> heap) option" where
  "asdf_value_is_double env h value = is_scalar_with env h value (is_double_of (ve_platform env))"

fun as_double_of :: "platform \<Rightarrow> asdf_value_type \<Rightarrow> value_scalar \<Rightarrow> asdf_value_err \<times> double option" where
  "as_double_of pf t s =
     (if t \<in> {ASDF_VALUE_DOUBLE, ASDF_VALUE_FLOAT}
      then (ASDF_VALUE_OK, Some (scalar_d pf s))
      else if t \<in> {ASDF_VALUE_INT64, ASDF_VALUE_INT32, ASDF_VALUE_INT16, ASDF_VALUE_INT8}
      then (ASDF_VALUE_OK, Some (double_of_rat (of_int (scalar_i pf s))))
      else if t \<in> {ASDF_VALUE_UINT64, ASDF_VALUE_UINT32, ASDF_VALUE_UINT16, ASDF_VALUE_UINT8}
      then (ASDF_VALUE_OK, Some (double_of_rat (of_int (uint (scalar_u pf s)))))
      else (ASDF_VALUE_ERR_TYPE_MISMATCH, None))"

definition asdf_value_as_double ::
  "'n value_env \<Rightarrow> heap \<Rightarrow> 'n asdf_value option \<Rightarrow> (asdf_value_err \<times> double option \<times> 'n asdf_value option \<times> heap) option" where
  "asdf_value_as_double env h value = as_scalar_with env h value (as_double_of (ve_platform env))"

text \<open>Strings, and the text of any scalar.\<close>

definition asdf_value_as_string ::
  "'n value_env \<Rightarrow> heap \<Rightarrow> 'n asdf_value option \<Rightarrow>
   (asdf_value_err \<times> bytes option option \<times> 'n asdf_value option \<times> heap) option" where
  "asdf_value_as_string env h value =
     map_option (\<lambda>(err, value, h).
         (case value of
            Some v \<Rightarrow>
              if err \<noteq> ASDF_VALUE_OK then (err, None, value, h)
              else if v_type v \<noteq> ASDF_VALUE_STRING then (ASDF_VALUE_ERR_TYPE_MISMATCH, None, value, h)
              else (ASDF_VALUE_OK, Some (fy_node_get_scalar env (v_node v)), value, h)
          | None \<Rightarrow> (err, None, None, h)))
       (asdf_value_infer_scalar_type env h value)"

definition asdf_value_is_scalar ::
  "'n value_env \<Rightarrow> heap \<Rightarrow> 'n asdf_value option \<Rightarrow> (bool \<times> 'n asdf_value option \<times> heap) option" where
  "asdf_value_is_scalar env h value = is_scalar_with env h value (\<lambda>_ _. True)"

definition asdf_value_as_scalar ::
  "'n value_env \<Rightarrow> 'n asdf_value option \<Rightarrow> asdf_value_err \<times> bytes option option" where
  "asdf_value_as_scalar env value =
     (case value of
        None \<Rightarrow> (ASDF_VALUE_ERR_UNKNOWN, None)
      | Some v \<Rightarrow>
          if v_type v = ASDF_VALUE_MAPPING \<or> v_type v = ASDF_VALUE_SEQUENCE then (ASDF_VALUE_ERR_TYPE_MISMATCH, None)
          else (ASDF_VALUE_OK, Some (fy_node_get_scalar env (v_node v))))"

definition asdf_value_is_mapping :: "'n asdf_value \<Rightarrow> bool" where
  "asdf_value_is_mapping value \<longleftrightarrow> v_raw_type value = ASDF_VALUE_MAPPING"

definition asdf_value_is_sequence :: "'n asdf_value \<Rightarrow> bool" where
  "asdf_value_is_sequence value \<longleftrightarrow> v_raw_type value = ASDF_VALUE_SEQUENCE"

definition asdf_value_is_container :: "'n asdf_value \<Rightarrow> bool" where
  "asdf_value_is_container value \<longleftrightarrow> v_raw_type value = ASDF_VALUE_MAPPING \<or> v_raw_type value = ASDF_VALUE_SEQUENCE"

text \<open>The test for a type given as an argument. Whether a value is an extension is decided by the registry of
  extensions, which is the argument \<open>ext\<close>.\<close>

definition asdf_value_is_type ::
  "'n value_env \<Rightarrow> heap \<Rightarrow> ('n asdf_value \<Rightarrow> bool \<times> 'n asdf_value) \<Rightarrow> 'n asdf_value \<Rightarrow> asdf_value_type \<Rightarrow>
   (bool \<times> 'n asdf_value option \<times> heap) option" where
  "asdf_value_is_type env h ext value type =
     (case type of
        ASDF_VALUE_UNKNOWN \<Rightarrow> Some (False, Some value, h)
      | ASDF_VALUE_SEQUENCE \<Rightarrow> Some (asdf_value_is_sequence value, Some value, h)
      | ASDF_VALUE_MAPPING \<Rightarrow> Some (asdf_value_is_mapping value, Some value, h)
      | ASDF_VALUE_SCALAR \<Rightarrow> asdf_value_is_scalar env h (Some value)
      | ASDF_VALUE_STRING \<Rightarrow> asdf_value_is_string env h (Some value)
      | ASDF_VALUE_BOOL \<Rightarrow> asdf_value_is_bool env h (Some value)
      | ASDF_VALUE_NULL \<Rightarrow> asdf_value_is_null env h (Some value)
      | ASDF_VALUE_INT8 \<Rightarrow> asdf_value_is_int8 env h (Some value)
      | ASDF_VALUE_INT16 \<Rightarrow> asdf_value_is_int16 env h (Some value)
      | ASDF_VALUE_INT32 \<Rightarrow> asdf_value_is_int32 env h (Some value)
      | ASDF_VALUE_INT64 \<Rightarrow> asdf_value_is_int64 env h (Some value)
      | ASDF_VALUE_UINT8 \<Rightarrow> asdf_value_is_uint8 env h (Some value)
      | ASDF_VALUE_UINT16 \<Rightarrow> asdf_value_is_uint16 env h (Some value)
      | ASDF_VALUE_UINT32 \<Rightarrow> asdf_value_is_uint32 env h (Some value)
      | ASDF_VALUE_UINT64 \<Rightarrow> asdf_value_is_uint64 env h (Some value)
      | ASDF_VALUE_FLOAT \<Rightarrow> asdf_value_is_float env h (Some value)
      | ASDF_VALUE_DOUBLE \<Rightarrow> asdf_value_is_double env h (Some value)
      | ASDF_VALUE_EXTENSION \<Rightarrow> (let (b, value) = ext value in Some (b, Some value, h)))"

section \<open>Scalars as nodes\<close>

text \<open>What libfyaml is asked to make: a scalar with a text, or a node parsed from a piece of YAML. A printf of
  a string ends at the first null byte.\<close>

datatype node_request = Create_scalar bytes | Build_from_string bytes

definition c_text :: "bytes \<Rightarrow> bytes" where
  "c_text s = takeWhile (\<lambda>c. c \<noteq> 0) s"

definition single_quoted :: "bytes \<Rightarrow> bytes" where
  "single_quoted s = 39 # concat (map (\<lambda>c. if c = 39 then [39, 39] else [c]) s) @ [39]"

definition INT_MAX :: nat where
  "INT_MAX = 2 ^ 31 - 1"

definition asdf_node_of_string ::
  "bytes \<Rightarrow> heap \<Rightarrow> bytes \<Rightarrow> nat \<Rightarrow> (node_request option \<times> heap) option" where
  "asdf_node_of_string dp h str len =
     (if len > INT_MAX then Some (None, h)
      else do {
        (ambiguous, h) \<leftarrow> asdf_yaml_string_is_ambiguous dp h str len;
        if \<not> ambiguous then Some (Some (Create_scalar (c_text (take len str))), h)
        else let (ok, h) = alloc h in
          if \<not> ok then Some (None, h)
          else Some (Some (Build_from_string (single_quoted (take len str))), h)
      })"

text \<open>A null-terminated string: the bytes before the null byte that ends it.\<close>

definition asdf_node_of_string0 :: "bytes \<Rightarrow> heap \<Rightarrow> bytes option \<Rightarrow> (node_request option \<times> heap) option" where
  "asdf_node_of_string0 dp h str =
     (case str of None \<Rightarrow> Some (None, h) | Some s \<Rightarrow> asdf_node_of_string dp h (s @ [0]) (length s))"

definition asdf_node_of_bool :: "bool \<Rightarrow> node_request" where
  "asdf_node_of_bool val = Create_scalar (bytes_of (if val then ''true'' else ''false''))"

definition asdf_node_of_null :: node_request where
  "asdf_node_of_null = Create_scalar (bytes_of ''null'')"

text \<open>The integer types all print in decimal.\<close>

definition int_dec :: "int \<Rightarrow> bytes" where
  "int_dec n = (if n < 0 then 45 # dec (nat (- n)) else dec (nat n))"

definition asdf_node_of_signed :: "'w::len word \<Rightarrow> node_request" where
  "asdf_node_of_signed val = Create_scalar (int_dec (sint val))"

definition asdf_node_of_unsigned :: "'w::len word \<Rightarrow> node_request" where
  "asdf_node_of_unsigned val = Create_scalar (int_dec (uint val))"

end
