(* ===== verification/Asdf_Node.thy ===== *)
theory Asdf_Node
  imports Asdf_Value
begin

text \<open>
  Values as nodes of the tree: their creation, copies and destruction, the mapping and sequence views, and
  the iterators over mappings, sequences and both (\<^verbatim>\<open>src/value.c\<close>). What libfyaml tells of a node is a record
  of functions: its kind, what an alias stands for, its pairs and items in order, its path and its parent.
  An iterator of libfyaml is the list of what it has still to return. Errors raised in the file are its
  concern and are left out here; an operation shows them in what it returns.
\<close>

section \<open>Nodes\<close>

datatype fy_node_type = FYNT_SCALAR | FYNT_SEQUENCE | FYNT_MAPPING

record 'n node_env =
  fy_node_get_type :: "'n \<Rightarrow> fy_node_type"
  fy_node_is_alias :: "'n \<Rightarrow> bool"
  fy_node_resolve_alias :: "'n \<Rightarrow> 'n option"
  fy_node_pairs :: "'n \<Rightarrow> ('n \<times> 'n) list"
  fy_node_items :: "'n \<Rightarrow> 'n list"
  fy_node_get_scalar0 :: "'n \<Rightarrow> bytes option"
  fy_node_get_path :: "'n \<Rightarrow> bytes option"
  fy_node_get_parent :: "'n \<Rightarrow> 'n option"
  fy_node_is_attached :: "'n \<Rightarrow> bool"
  fy_node_root :: "'n \<Rightarrow> 'n option"
  fy_node_copy :: "'n \<Rightarrow> 'n option"
  fy_node_mapping_lookup_value_by_simple_key :: "'n \<Rightarrow> bytes \<Rightarrow> 'n option"
  fy_node_sequence_get_by_index :: "'n \<Rightarrow> int \<Rightarrow> 'n option"

text \<open>\<^verbatim>\<open>fy_node_root\<close> is the root of the document that the node belongs to, if it does.\<close>

fun asdf_value_type_from_node :: "fy_node_type \<Rightarrow> asdf_value_type" where
  "asdf_value_type_from_node FYNT_SCALAR = ASDF_VALUE_SCALAR"
| "asdf_value_type_from_node FYNT_MAPPING = ASDF_VALUE_MAPPING"
| "asdf_value_type_from_node FYNT_SEQUENCE = ASDF_VALUE_SEQUENCE"

definition is_root_node :: "'n node_env \<Rightarrow> 'n \<Rightarrow> bool" where
  "is_root_node env n \<longleftrightarrow> fy_node_root env n = Some n"

section \<open>Creation\<close>

text \<open>The last component of a path; a negative index stands for none.\<close>

definition path_suffix :: "bytes option \<Rightarrow> int \<Rightarrow> bytes option" where
  "path_suffix key index =
     (case key of Some k \<Rightarrow> Some k | None \<Rightarrow> if index \<ge> 0 then Some (int_dec index) else None)"

definition value_path ::
  "heap \<Rightarrow> 'n asdf_value option \<Rightarrow> bytes option \<Rightarrow> int \<Rightarrow> bytes option \<times> heap" where
  "value_path h parent key index =
     (case Option.bind parent v_path of
        None \<Rightarrow> (None, h)
      | Some p \<Rightarrow> (case path_suffix key index of
            None \<Rightarrow> (None, h)
          | Some s \<Rightarrow> let (ok, h) = alloc h in (if ok then Some (p @ [47] @ s) else None, h)))"

definition node_value :: "'n node_env \<Rightarrow> 'n \<Rightarrow> bytes option \<Rightarrow> 'n asdf_value" where
  "node_value env n path =
     \<lparr>v_type = asdf_value_type_from_node (fy_node_get_type env n), v_raw_type = asdf_value_type_from_node (fy_node_get_type env n),
      v_err = ASDF_VALUE_ERR_UNKNOWN, v_node = n, v_tag = None, v_shallow = False, v_explicit_tag_checked = False,
      v_extension_checked = False, v_scalar = Word 0, v_path = path, v_style = Some ASDF_YAML_NODE_STYLE_AUTO\<rparr>"

definition asdf_value_create_ex ::
  "'n node_env \<Rightarrow> heap \<Rightarrow> 'n \<Rightarrow> 'n asdf_value option \<Rightarrow> bytes option \<Rightarrow> int \<Rightarrow> 'n asdf_value option \<times> heap" where
  "asdf_value_create_ex env h node parent key index =
     (let (ok, h) = alloc h in
      if \<not> ok then (None, h)
      else
        let (path, h) = value_path h parent key index in
        case (if fy_node_is_alias env node then fy_node_resolve_alias env node else Some node) of
          None \<Rightarrow> (None, h)
        | Some n \<Rightarrow> (Some (node_value env n path), h))"

definition asdf_value_create :: "'n node_env \<Rightarrow> heap \<Rightarrow> 'n \<Rightarrow> 'n asdf_value option \<times> heap" where
  "asdf_value_create env h node = asdf_value_create_ex env h node None None (- 1)"

text \<open>Destroying a value frees its node unless the value is shallow or a document owns the node; the result
  is the node that is freed.\<close>

definition asdf_value_destroy :: "'n node_env \<Rightarrow> 'n asdf_value option \<Rightarrow> 'n option" where
  "asdf_value_destroy env value =
     (case value of
        None \<Rightarrow> None
      | Some v \<Rightarrow>
          if \<not> v_shallow v \<and> \<not> (fy_node_is_attached env (v_node v) \<or> is_root_node env (v_node v)) then Some (v_node v) else None)"

section \<open>Copies\<close>

text \<open>\<^verbatim>\<open>strdup\<close> of a string that may be null: a copy that cannot be allocated is null.\<close>

definition dup :: "heap \<Rightarrow> bytes option \<Rightarrow> bytes option \<times> heap" where
  "dup h s = (case s of None \<Rightarrow> (None, h) | Some t \<Rightarrow> let (ok, h) = alloc h in (if ok then Some t else None, h))"

definition copied_path :: "'n node_env \<Rightarrow> heap \<Rightarrow> 'n asdf_value \<Rightarrow> bytes option \<times> heap" where
  "copied_path env h v =
     (case v_path v of None \<Rightarrow> (fy_node_get_path env (v_node v), h) | Some p \<Rightarrow> dup h (Some p))"

definition asdf_value_copy_impl ::
  "'n node_env \<Rightarrow> heap \<Rightarrow> 'n asdf_value option \<Rightarrow> bool \<Rightarrow> 'n asdf_value option \<times> heap" where
  "asdf_value_copy_impl env h value raw_shallow =
     (case value of
        None \<Rightarrow> (None, h)
      | Some v \<Rightarrow>
          let (ok, h) = alloc h in
          if \<not> ok then (None, h)
          else
            let (tag, h) = dup h (v_tag v);
                (path, h) = copied_path env h v
            in
            case (if raw_shallow then Some (v_node v, v_raw_type v)
                  else map_option (\<lambda>n. (n, asdf_value_type_from_node (fy_node_get_type env n))) (fy_node_copy env (v_node v))) of
              None \<Rightarrow> (None, h)
            | Some (n, t) \<Rightarrow>
                (Some \<lparr>v_type = t, v_raw_type = t, v_err = ASDF_VALUE_ERR_UNKNOWN, v_node = n, v_tag = tag,
                       v_shallow = raw_shallow, v_explicit_tag_checked = v_explicit_tag_checked v,
                       v_extension_checked = raw_shallow, v_scalar = Word 0, v_path = path, v_style = None\<rparr>, h))"

text \<open>A shallow copy keeps what is known of the value. Of an extension it gets a wrapper of its own; the
  wrapper of a value is not told apart from its copy.\<close>

definition asdf_value_copy_shallow ::
  "'n node_env \<Rightarrow> heap \<Rightarrow> 'n asdf_value option \<Rightarrow> 'n asdf_value option \<times> heap" where
  "asdf_value_copy_shallow env h value =
     (case value of
        None \<Rightarrow> (None, h)
      | Some v \<Rightarrow>
          let (ok, h) = alloc h in
          if \<not> ok then (None, h)
          else
            let (tag, h) = dup h (v_tag v);
                (path, h) = copied_path env h v;
                (ok, h) = (if v_type v = ASDF_VALUE_EXTENSION \<and> v_scalar v \<noteq> Word 0 then alloc h else (True, h))
            in
            if \<not> ok then (None, h)
            else (Some (v\<lparr>v_shallow := True, v_tag := tag, v_path := path, v_style := None\<rparr>), h))"

definition asdf_value_copy ::
  "'n node_env \<Rightarrow> heap \<Rightarrow> 'n asdf_value option \<Rightarrow> 'n asdf_value option \<times> heap" where
  "asdf_value_copy env h value =
     (case value of
        None \<Rightarrow> (None, h)
      | Some v \<Rightarrow>
          if fy_node_is_attached env (v_node v) \<or> is_root_node env (v_node v)
          then asdf_value_copy_shallow env h value
          else asdf_value_copy_impl env h value False)"

definition asdf_value_copy_deep ::
  "'n node_env \<Rightarrow> heap \<Rightarrow> 'n asdf_value option \<Rightarrow> 'n asdf_value option \<times> heap" where
  "asdf_value_copy_deep env h value = asdf_value_copy_impl env h value False"

section \<open>Paths and parents\<close>

definition asdf_value_path :: "'n node_env \<Rightarrow> 'n asdf_value option \<Rightarrow> bytes option \<times> 'n asdf_value option" where
  "asdf_value_path env value =
     (case value of
        None \<Rightarrow> (None, None)
      | Some v \<Rightarrow>
          let v = (if v_path v = None then v\<lparr>v_path := fy_node_get_path env (v_node v)\<rparr> else v)
          in (v_path v, Some v))"

definition asdf_value_parent :: "'n node_env \<Rightarrow> heap \<Rightarrow> 'n asdf_value option \<Rightarrow> 'n asdf_value option \<times> heap" where
  "asdf_value_parent env h value =
     (case Option.bind value (\<lambda>v. fy_node_get_parent env (v_node v)) of
        None \<Rightarrow> (None, h)
      | Some p \<Rightarrow> asdf_value_create env h p)"

section \<open>Mappings and sequences\<close>

text \<open>A mapping or a sequence is the value it wraps. The count of libfyaml is an \<^verbatim>\<open>int\<close>. The functions of
  sequences return early on a null pointer.\<close>

definition asdf_mapping_size :: "'n node_env \<Rightarrow> 'n asdf_value option \<Rightarrow> int" where
  "asdf_mapping_size env mapping =
     (case mapping of
        None \<Rightarrow> - 1
      | Some m \<Rightarrow> if asdf_value_is_mapping m then int (length (fy_node_pairs env (v_node m))) else - 1)"

definition asdf_mapping_get ::
  "'n node_env \<Rightarrow> heap \<Rightarrow> 'n asdf_value \<Rightarrow> bytes \<Rightarrow> 'n asdf_value option \<times> heap" where
  "asdf_mapping_get env h mapping key =
     (if v_raw_type mapping \<noteq> ASDF_VALUE_MAPPING then (None, h)
      else (case fy_node_mapping_lookup_value_by_simple_key env (v_node mapping) key of
          None \<Rightarrow> (None, h)
        | Some n \<Rightarrow> asdf_value_create_ex env h n (Some mapping) (Some key) (- 1)))"

definition asdf_value_as_mapping :: "'n asdf_value option \<Rightarrow> asdf_value_err \<times> 'n asdf_value option" where
  "asdf_value_as_mapping value =
     (case value of
        None \<Rightarrow> (ASDF_VALUE_ERR_UNKNOWN, None)
      | Some v \<Rightarrow> if v_raw_type v \<noteq> ASDF_VALUE_MAPPING then (ASDF_VALUE_ERR_TYPE_MISMATCH, None)
                 else (ASDF_VALUE_OK, Some v))"

definition asdf_sequence_size :: "'n node_env \<Rightarrow> 'n asdf_value \<Rightarrow> int" where
  "asdf_sequence_size env sequence =
     (if \<not> asdf_value_is_sequence sequence then - 1 else int (length (fy_node_items env (v_node sequence))))"

definition asdf_sequence_get ::
  "'n node_env \<Rightarrow> heap \<Rightarrow> 'n asdf_value \<Rightarrow> int \<Rightarrow> 'n asdf_value option \<times> heap" where
  "asdf_sequence_get env h sequence index =
     (if \<not> asdf_value_is_sequence sequence then (None, h)
      else (case fy_node_sequence_get_by_index env (v_node sequence) index of
          None \<Rightarrow> (None, h)
        | Some n \<Rightarrow> asdf_value_create_ex env h n (Some sequence) None index))"

definition asdf_value_as_sequence :: "'n asdf_value option \<Rightarrow> asdf_value_err \<times> 'n asdf_value option" where
  "asdf_value_as_sequence value =
     (case value of
        None \<Rightarrow> (ASDF_VALUE_ERR_UNKNOWN, None)
      | Some v \<Rightarrow> if v_raw_type v \<noteq> ASDF_VALUE_SEQUENCE then (ASDF_VALUE_ERR_TYPE_MISMATCH, None)
                 else (ASDF_VALUE_OK, Some v))"

section \<open>Iterators\<close>

text \<open>Starting an iterator of libfyaml lists what it returns, from the first or from the last.\<close>

definition in_order :: "bool \<Rightarrow> 'a list \<Rightarrow> 'a list" where
  "in_order reverse xs = (if reverse then rev xs else xs)"

record 'n mapping_iter =
  mi_key :: "bytes option"
  mi_value :: "'n asdf_value option"
  mi_mapping :: "'n asdf_value"
  mi_rest :: "('n \<times> 'n) list"
  mi_reverse :: bool

definition asdf_mapping_iter_init_ex ::
  "'n node_env \<Rightarrow> heap \<Rightarrow> 'n asdf_value \<Rightarrow> bool \<Rightarrow> 'n mapping_iter option \<times> heap" where
  "asdf_mapping_iter_init_ex env h mapping reverse =
     (let (ok, h) = alloc h in
      (if ok then Some \<lparr>mi_key = None, mi_value = None, mi_mapping = mapping,
                        mi_rest = in_order reverse (fy_node_pairs env (v_node mapping)), mi_reverse = reverse\<rparr>
       else None, h))"

text \<open>A step: the iterator that is left, null when it has been destroyed, which is when it returns false. A
  key that is not a scalar is returned as null.\<close>

definition asdf_mapping_iter_next ::
  "'n node_env \<Rightarrow> heap \<Rightarrow> 'n mapping_iter option \<Rightarrow> 'n mapping_iter option \<times> heap" where
  "asdf_mapping_iter_next env h iter =
     (case iter of
        None \<Rightarrow> (None, h)
      | Some it \<Rightarrow>
          if v_raw_type (mi_mapping it) \<noteq> ASDF_VALUE_MAPPING then (None, h)
          else (case mi_rest it of
              [] \<Rightarrow> (None, h)
            | (k, n) # rest \<Rightarrow>
                let key = (if fy_node_get_type env k \<noteq> FYNT_SCALAR then None else fy_node_get_scalar0 env k);
                    (value, h) = asdf_value_create_ex env h n (Some (mi_mapping it)) key (- 1)
                in
                (case value of
                   None \<Rightarrow> (None, h)
                 | Some v \<Rightarrow> (Some (it\<lparr>mi_key := key, mi_value := Some v, mi_rest := rest\<rparr>), h))))"

record 'n sequence_iter =
  si_value :: "'n asdf_value option"
  si_index :: int
  si_sequence :: "'n asdf_value"
  si_rest :: "'n list"
  si_reverse :: bool

definition asdf_sequence_iter_init_ex ::
  "'n node_env \<Rightarrow> heap \<Rightarrow> 'n asdf_value \<Rightarrow> bool \<Rightarrow> 'n sequence_iter option \<times> heap" where
  "asdf_sequence_iter_init_ex env h sequence reverse =
     (let (ok, h) = alloc h in
      (if ok then Some \<lparr>si_value = None, si_index = (if reverse then asdf_sequence_size env sequence else - 1),
                        si_sequence = sequence, si_rest = in_order reverse (fy_node_items env (v_node sequence)),
                        si_reverse = reverse\<rparr>
       else None, h))"

definition asdf_sequence_iter_next ::
  "'n node_env \<Rightarrow> heap \<Rightarrow> 'n sequence_iter option \<Rightarrow> 'n sequence_iter option \<times> heap" where
  "asdf_sequence_iter_next env h iter =
     (case iter of
        None \<Rightarrow> (None, h)
      | Some it \<Rightarrow>
          if v_raw_type (si_sequence it) \<noteq> ASDF_VALUE_SEQUENCE then (None, h)
          else (case si_rest it of
              [] \<Rightarrow> (None, h)
            | n # rest \<Rightarrow>
                let index = (if si_reverse it then si_index it - 1 else si_index it + 1);
                    (value, h) = asdf_value_create_ex env h n (Some (si_sequence it)) None index
                in
                (case value of
                   None \<Rightarrow> (None, h)
                 | Some v \<Rightarrow> (Some (it\<lparr>si_index := index, si_value := Some v, si_rest := rest\<rparr>), h))))"

datatype 'n sub_iter = Mapping_sub "'n mapping_iter option" | Sequence_sub "'n sequence_iter option"

record 'n container_iter =
  ci_key :: "bytes option"
  ci_index :: int
  ci_value :: "'n asdf_value option"
  ci_container :: "'n asdf_value"
  ci_sub :: "'n sub_iter"

definition asdf_container_iter_init_ex ::
  "'n node_env \<Rightarrow> heap \<Rightarrow> 'n asdf_value option \<Rightarrow> bool \<Rightarrow> 'n container_iter option \<times> heap" where
  "asdf_container_iter_init_ex env h container reverse =
     (case container of
        None \<Rightarrow> (None, h)
      | Some c \<Rightarrow>
          if \<not> asdf_value_is_container c then (None, h)
          else
            let (ok, h) = alloc h in
            if \<not> ok then (None, h)
            else if v_raw_type c = ASDF_VALUE_MAPPING then
              (case asdf_mapping_iter_init_ex env h c reverse of
                 (None, h) \<Rightarrow> (None, h)
               | (Some it, h) \<Rightarrow>
                   (Some \<lparr>ci_key = None, ci_index = (if reverse then asdf_mapping_size env container else - 1),
                          ci_value = None, ci_container = c, ci_sub = Mapping_sub (Some it)\<rparr>, h))
            else
              (case asdf_sequence_iter_init_ex env h c reverse of
                 (None, h) \<Rightarrow> (None, h)
               | (Some it, h) \<Rightarrow>
                   (Some \<lparr>ci_key = None, ci_index = (if reverse then asdf_sequence_size env c else - 1),
                          ci_value = None, ci_container = c, ci_sub = Sequence_sub (Some it)\<rparr>, h)))"

definition asdf_container_iter_init ::
  "'n node_env \<Rightarrow> heap \<Rightarrow> 'n asdf_value option \<Rightarrow> 'n container_iter option \<times> heap" where
  "asdf_container_iter_init env h container = asdf_container_iter_init_ex env h container False"

definition asdf_container_iter_next ::
  "'n node_env \<Rightarrow> heap \<Rightarrow> 'n container_iter option \<Rightarrow> 'n container_iter option \<times> heap" where
  "asdf_container_iter_next env h iter =
     (case iter of
        None \<Rightarrow> (None, h)
      | Some it \<Rightarrow> (case ci_sub it of
            Mapping_sub sub \<Rightarrow>
              (case asdf_mapping_iter_next env h sub of
                 (None, h) \<Rightarrow> (None, h)
               | (Some s, h) \<Rightarrow>
                   (Some (it\<lparr>ci_key := mi_key s, ci_value := mi_value s,
                             ci_index := (if mi_reverse s then ci_index it - 1 else ci_index it + 1),
                             ci_sub := Mapping_sub (Some s)\<rparr>), h))
          | Sequence_sub sub \<Rightarrow>
              (case asdf_sequence_iter_next env h sub of
                 (None, h) \<Rightarrow> (None, h)
               | (Some s, h) \<Rightarrow>
                   (Some (it\<lparr>ci_key := None, ci_index := si_index s, ci_value := si_value s,
                             ci_sub := Sequence_sub (Some s)\<rparr>), h))))"

end
