(* ===== verification/Asdf_Find.thy ===== *)
theory Asdf_Find
  imports Asdf_Node
begin

text \<open>
  Searching the tree: the find iterator of \<^verbatim>\<open>src/value.c\<close>, which walks a tree depth-first or breadth-first with
  a list of frames of its own, one for each container that is being walked. The predicates are functions of
  the value. A frame that is popped frees its iterator, and its container if it owns that.
\<close>

section \<open>Frames\<close>

record 'n find_frame =
  ff_container :: "'n asdf_value"
  ff_owns_container :: bool
  ff_visited :: bool
  ff_is_mapping :: bool
  ff_depth :: int
  ff_iter :: "'n container_iter option"

type_synonym 'n value_pred = "'n asdf_value \<Rightarrow> bool"

record 'n find_iter =
  fi_value :: "'n asdf_value option"
  fi_pred :: "'n value_pred option"
  fi_depth_first :: bool
  fi_descend :: "'n value_pred option"
  fi_max_depth :: int
  fi_frames :: "'n find_frame list"
  fi_frame_cap :: nat

definition ASDF_VALUE_FIND_ITER_MIN_CAPACITY :: nat where
  "ASDF_VALUE_FIND_ITER_MIN_CAPACITY = 8"

definition ASDF_VALUE_FIND_ITER_MAX_DEPTH :: int where
  "ASDF_VALUE_FIND_ITER_MAX_DEPTH = 256"

text \<open>Pushing a container, which \<^verbatim>\<open>None\<close> stands for a null pointer of: past the test of the depth it is passed
  to the predicate and dereferenced. The result says whether there is a new frame, the last one.\<close>

definition asdf_find_iter_push_frame ::
  "'n node_env \<Rightarrow> heap \<Rightarrow> 'n find_iter \<Rightarrow> 'n asdf_value option \<Rightarrow> int \<Rightarrow> (bool \<times> 'n find_iter \<times> heap) option" where
  "asdf_find_iter_push_frame env h iter container depth =
     (if fi_max_depth iter \<ge> 0 \<and> depth > fi_max_depth iter then Some (False, iter, h)
      else (case container of
          None \<Rightarrow> None
        | Some c \<Rightarrow>
            if fi_frames iter \<noteq> [] \<and> (case fi_descend iter of None \<Rightarrow> False | Some p \<Rightarrow> \<not> p c) then Some (False, iter, h)
            else
              let full = (length (fi_frames iter) = fi_frame_cap iter);
                  (ok, h) = (if full then alloc h else (True, h))
              in
              if \<not> ok then Some (False, iter, h)
              else
                let (it, h) = asdf_container_iter_init env h (Some c);
                    frame = \<lparr>ff_container = c, ff_owns_container = False, ff_visited = False,
                             ff_is_mapping = (v_raw_type c = ASDF_VALUE_MAPPING), ff_depth = depth, ff_iter = it\<rparr>
                in Some (True, iter\<lparr>fi_frames := fi_frames iter @ [frame],
                                   fi_frame_cap := (if full then 2 * fi_frame_cap iter else fi_frame_cap iter)\<rparr>, h)))"

definition asdf_find_iter_pop_frame :: "'n find_iter \<Rightarrow> nat \<Rightarrow> 'n find_iter" where
  "asdf_find_iter_pop_frame iter idx =
     iter\<lparr>fi_frames := take idx (fi_frames iter) @ drop (Suc idx) (fi_frames iter)\<rparr>"

definition asdf_find_iter_create ::
  "'n node_env \<Rightarrow> heap \<Rightarrow> 'n asdf_value \<Rightarrow> 'n value_pred option \<Rightarrow> bool \<Rightarrow> 'n value_pred option \<Rightarrow> int \<Rightarrow>
   ('n find_iter option \<times> heap) option" where
  "asdf_find_iter_create env h start pred depth_first descend_pred max_depth =
     (let (ok, h) = alloc h in
      if \<not> ok then Some (None, h)
      else
        let cap = (if max_depth < 0 then ASDF_VALUE_FIND_ITER_MIN_CAPACITY
                   else if max_depth > ASDF_VALUE_FIND_ITER_MAX_DEPTH then nat ASDF_VALUE_FIND_ITER_MAX_DEPTH
                   else nat (max_depth + 1));
            (ok, h) = alloc h
        in
        if \<not> ok then Some (None, h)
        else do {
          (_, iter, h) \<leftarrow> asdf_find_iter_push_frame env h
              \<lparr>fi_value = None, fi_pred = pred, fi_depth_first = depth_first, fi_descend = descend_pred,
               fi_max_depth = max_depth, fi_frames = [], fi_frame_cap = cap\<rparr> (Some start) 0;
          Some (Some iter, h)
        })"

section \<open>Steps\<close>

text \<open>A step of either strategy: the value that is visited, if there is one, and the iterator. The
  frame list is not empty.\<close>

definition mark_visited :: "'n find_frame \<Rightarrow> 'n find_frame" where
  "mark_visited f = f\<lparr>ff_visited := True\<rparr>"

definition asdf_find_iter_next_dfs ::
  "'n node_env \<Rightarrow> heap \<Rightarrow> 'n find_iter \<Rightarrow> ('n asdf_value option \<times> 'n find_iter \<times> heap) option" where
  "asdf_find_iter_next_dfs env h iter =
     (if fi_frames iter = [] then None
      else
        let frame = last (fi_frames iter); below = butlast (fi_frames iter) in
        if \<not> ff_visited frame
        then Some (Some (ff_container frame), iter\<lparr>fi_frames := below @ [mark_visited frame]\<rparr>, h)
        else
          let (it, h) = asdf_container_iter_next env h (ff_iter frame);
              iter = iter\<lparr>fi_frames := below @ [frame\<lparr>ff_iter := it\<rparr>]\<rparr>
          in
          case it of
            None \<Rightarrow> Some (None, asdf_find_iter_pop_frame iter (length (fi_frames iter) - 1), h)
          | Some s \<Rightarrow> do {
              child \<leftarrow> ci_value s;
              if asdf_value_is_container child then do {
                (_, iter, h) \<leftarrow> asdf_find_iter_push_frame env h iter (Some child) (ff_depth frame + 1);
                Some (None, iter, h)
              }
              else Some (Some child, iter, h)
            })"

definition asdf_find_iter_next_bfs ::
  "'n node_env \<Rightarrow> heap \<Rightarrow> 'n find_iter \<Rightarrow> ('n asdf_value option \<times> 'n find_iter \<times> heap) option" where
  "asdf_find_iter_next_bfs env h iter =
     (case fi_frames iter of
        [] \<Rightarrow> None
      | frame # later \<Rightarrow>
        if \<not> ff_visited frame
        then Some (Some (ff_container frame), iter\<lparr>fi_frames := mark_visited frame # later\<rparr>, h)
        else
          let (it, h) = asdf_container_iter_next env h (ff_iter frame);
              iter = iter\<lparr>fi_frames := frame\<lparr>ff_iter := it\<rparr> # later\<rparr>
          in
          case it of
            None \<Rightarrow> Some (None, asdf_find_iter_pop_frame iter 0, h)
          | Some s \<Rightarrow> do {
              child \<leftarrow> ci_value s;
              if asdf_value_is_container child then do {
                let (copy, h) = asdf_value_copy env h (Some child);
                (pushed, iter, h) \<leftarrow> asdf_find_iter_push_frame env h iter copy (ff_depth frame + 1);
                if \<not> pushed then Some (None, iter, h)
                else Some (Some child,
                       iter\<lparr>fi_frames := butlast (fi_frames iter) @
                         [(last (fi_frames iter))\<lparr>ff_visited := True, ff_owns_container := True\<rparr>]\<rparr>, h)
              }
              else Some (Some child, iter, h)
            })"

definition asdf_find_iter_step ::
  "'n node_env \<Rightarrow> heap \<Rightarrow> 'n find_iter \<Rightarrow> ('n asdf_value option \<times> 'n find_iter \<times> heap) option" where
  "asdf_find_iter_step env h iter =
     (if fi_frames iter = [] then Some (None, iter, h)
      else if fi_depth_first iter then asdf_find_iter_next_dfs env h iter
      else asdf_find_iter_next_bfs env h iter)"

section \<open>The iterator and the search\<close>

definition asdf_find_iter_init_ex ::
  "'n node_env \<Rightarrow> heap \<Rightarrow> 'n asdf_value \<Rightarrow> 'n value_pred option \<Rightarrow> bool \<Rightarrow> 'n value_pred option \<Rightarrow> int \<Rightarrow>
   ('n find_iter option \<times> heap) option" where
  "asdf_find_iter_init_ex env h start pred depth_first descend_pred max_depth =
     (if \<not> asdf_value_is_container start then Some (None, h)
      else asdf_find_iter_create env h start pred depth_first descend_pred max_depth)"

definition asdf_find_iter_init ::
  "'n node_env \<Rightarrow> heap \<Rightarrow> 'n asdf_value \<Rightarrow> 'n value_pred option \<Rightarrow> ('n find_iter option \<times> heap) option" where
  "asdf_find_iter_init env h start pred = asdf_find_iter_init_ex env h start pred False None (- 1)"

definition matches :: "'n value_pred option \<Rightarrow> 'n asdf_value \<Rightarrow> bool" where
  "matches pred v = (case pred of None \<Rightarrow> True | Some p \<Rightarrow> p v)"

definition find_next_step ::
  "'n node_env \<Rightarrow> 'n find_iter \<times> heap \<Rightarrow> ('n find_iter \<times> heap + 'n find_iter option \<times> heap) option" where
  "find_next_step env = (\<lambda>(iter, h).
     if fi_frames iter = [] then Some (Inr (None, h))
     else do {
       (current, iter, h) \<leftarrow> asdf_find_iter_step env h iter;
       (case current of
          Some v \<Rightarrow> if matches (fi_pred iter) v then Some (Inr (Some (iter\<lparr>fi_value := Some v\<rparr>), h)) else Some (Inl (iter, h))
        | None \<Rightarrow> Some (Inl (iter, h)))
     })"

text \<open>The next match: the iterator, null when there is none, which is when the call returns false.\<close>

definition asdf_value_find_iter_next ::
  "'n node_env \<Rightarrow> heap \<Rightarrow> 'n find_iter option \<Rightarrow> ('n find_iter option \<times> heap) option" where
  "asdf_value_find_iter_next env h iter =
     (case iter of None \<Rightarrow> Some (None, h) | Some it \<Rightarrow> loop_opt (find_next_step env) (it\<lparr>fi_value := None\<rparr>, h))"

definition asdf_value_find_ex ::
  "'n node_env \<Rightarrow> heap \<Rightarrow> 'n asdf_value \<Rightarrow> 'n value_pred option \<Rightarrow> bool \<Rightarrow> 'n value_pred option \<Rightarrow> int \<Rightarrow>
   ('n asdf_value option \<times> heap) option" where
  "asdf_value_find_ex env h start pred depth_first descend_pred max_depth =
     (if \<not> asdf_value_is_container start then
        Some (if matches pred start then asdf_value_copy env h (Some start) else (None, h))
      else do {
        (iter, h) \<leftarrow> asdf_find_iter_init_ex env h start pred depth_first descend_pred max_depth;
        if iter = None then Some (None, h)
        else do {
          (iter, h) \<leftarrow> asdf_value_find_iter_next env h iter;
          Some (case iter of None \<Rightarrow> (None, h) | Some it \<Rightarrow> asdf_value_copy env h (fi_value it))
        }
      })"

definition asdf_value_find ::
  "'n node_env \<Rightarrow> heap \<Rightarrow> 'n asdf_value \<Rightarrow> 'n value_pred option \<Rightarrow> ('n asdf_value option \<times> heap) option" where
  "asdf_value_find env h start pred = asdf_value_find_ex env h start pred False None (- 1)"

definition asdf_find_descend_mapping_only :: "'n value_pred" where
  "asdf_find_descend_mapping_only value = asdf_value_is_mapping value"

definition asdf_find_descend_sequence_only :: "'n value_pred" where
  "asdf_find_descend_sequence_only value = asdf_value_is_sequence value"

end
