(* ===== verification/Asdf_Value_Laws.thy ===== *)
theory Asdf_Value_Laws
  imports Asdf_Value Asdf_Yaml_Scalar_Laws
begin

text \<open>
  Typed access to scalars: the type that is inferred always fits what is stored, the integer getters return
  the value or say that it does not fit, and the tests agree with the getters on inferred values.
\<close>

section \<open>Well-typed scalars\<close>

text \<open>The integer a value of an integer type stands for.\<close>

definition num_of :: "asdf_value_type \<Rightarrow> u64 \<Rightarrow> int" where
  "num_of t w = (if t \<in> {ASDF_VALUE_INT8, ASDF_VALUE_INT16, ASDF_VALUE_INT32, ASDF_VALUE_INT64} then sint w else uint w)"

definition int_types :: "asdf_value_type set" where
  "int_types = {ASDF_VALUE_INT8, ASDF_VALUE_INT16, ASDF_VALUE_INT32, ASDF_VALUE_INT64,
     ASDF_VALUE_UINT8, ASDF_VALUE_UINT16, ASDF_VALUE_UINT32, ASDF_VALUE_UINT64}"

text \<open>The scalar a type goes with: an integer in the range of the type, a bool, a double.\<close>

fun fits :: "asdf_value_type \<Rightarrow> value_scalar \<Rightarrow> bool" where
  "fits ASDF_VALUE_INT8 s = (\<exists>w. s = Word w \<and> - 128 \<le> sint w \<and> sint w \<le> 127)"
| "fits ASDF_VALUE_INT16 s = (\<exists>w. s = Word w \<and> - 32768 \<le> sint w \<and> sint w \<le> 32767)"
| "fits ASDF_VALUE_INT32 s = (\<exists>w. s = Word w \<and> - 2147483648 \<le> sint w \<and> sint w \<le> 2147483647)"
| "fits ASDF_VALUE_INT64 s = (\<exists>w. s = Word w)"
| "fits ASDF_VALUE_UINT8 s = (\<exists>w. s = Word w \<and> uint w \<le> 255)"
| "fits ASDF_VALUE_UINT16 s = (\<exists>w. s = Word w \<and> uint w \<le> 65535)"
| "fits ASDF_VALUE_UINT32 s = (\<exists>w. s = Word w \<and> uint w \<le> 4294967295)"
| "fits ASDF_VALUE_UINT64 s = (\<exists>w. s = Word w)"
| "fits ASDF_VALUE_BOOL s = (\<exists>b. s = Boolean b)"
| "fits ASDF_VALUE_DOUBLE s = (\<exists>d. s = Dbl d)"
| "fits ASDF_VALUE_FLOAT s = (\<exists>d. s = Dbl d)"
| "fits _ s = True"

text \<open>Inference chooses the smallest type, unsigned when the integer is not negative.\<close>

fun smallest :: "asdf_value_type \<Rightarrow> value_scalar \<Rightarrow> bool" where
  "smallest ASDF_VALUE_INT8 s = (\<exists>w. s = Word w \<and> sint w \<le> 0)"
| "smallest ASDF_VALUE_INT16 s = (\<exists>w. s = Word w \<and> sint w < - 128)"
| "smallest ASDF_VALUE_INT32 s = (\<exists>w. s = Word w \<and> sint w < - 32768)"
| "smallest ASDF_VALUE_INT64 s = (\<exists>w. s = Word w \<and> sint w < - 2147483648)"
| "smallest ASDF_VALUE_UINT16 s = (\<exists>w. s = Word w \<and> 255 < uint w)"
| "smallest ASDF_VALUE_UINT32 s = (\<exists>w. s = Word w \<and> 65535 < uint w)"
| "smallest ASDF_VALUE_UINT64 s = (\<exists>w. s = Word w \<and> 4294967295 < uint w)"
| "smallest _ s = True"

definition inferred :: "asdf_value_type \<Rightarrow> value_scalar \<Rightarrow> bool" where
  "inferred t s \<longleftrightarrow> fits t s \<and> smallest t s"

lemma unsigned_type_inferred: "inferred (unsigned_type w) (Word w)"
  by (auto simp: inferred_def unsigned_type_def word_le_def word_less_def)

lemma uint_above: "c \<le> 0 \<Longrightarrow> c \<le> uint w"
  by (rule order_trans [OF _ uint_ge_0])

lemma minus_uint_below: "0 \<le> c \<Longrightarrow> - uint w \<le> c" "0 < c \<Longrightarrow> - uint w < c"
  using uint_ge_0 [of w] by linarith+

lemma sint_neg_small:
  assumes "w \<le> (9223372036854775808 :: u64)"
  shows "sint (- w) = - uint w"
proof -
  have w: "uint w \<le> 2 ^ 63" using assms by (simp add: word_le_def)
  have u: "uint (- w) = take_bit 64 (- uint w)" by (simp add: uint_word_ariths take_bit_eq_mod)
  have "sint (- w) = signed_take_bit 63 (- uint w)"
    unfolding sint_uint u by (simp add: signed_take_bit_take_bit)
  also have "\<dots> = - uint w"
    by (rule signed_take_bit_int_eq_self) (use w in \<open>simp_all add: minus_uint_below\<close>)
  finally show ?thesis .
qed

lemma signed_type_inferred:
  assumes "w \<le> 9223372036854775808"
  shows "inferred (signed_type (- uint w)) (Word (- w))"
proof -
  have "uint w \<le> 9223372036854775808" using assms by (simp add: word_le_def)
  then show ?thesis
    using sint_neg_small [OF assms] by (auto simp: inferred_def signed_type_def minus_uint_below)
qed

definition well_typed :: "'n asdf_value \<Rightarrow> bool" where
  "well_typed v \<longleftrightarrow> inferred (v_type v) (v_scalar v)"

lemma untyped [simp]:
  "inferred ASDF_VALUE_UNKNOWN s" "inferred ASDF_VALUE_NULL s" "inferred ASDF_VALUE_STRING s"
  "inferred ASDF_VALUE_BOOL (Boolean b)" "inferred ASDF_VALUE_DOUBLE (Dbl d)"
  "inferred ASDF_VALUE_SCALAR s"
  by (simp_all add: inferred_def)

lemma infer_null_typed: "asdf_value_infer_null v s = (err, v') \<Longrightarrow> well_typed v'"
  by (auto simp: asdf_value_infer_null_def infer_failure_def well_typed_def split: if_splits)

lemma infer_bool_typed: "asdf_value_infer_bool v s = (err, v') \<Longrightarrow> well_typed v'"
  by (auto simp: asdf_value_infer_bool_def infer_failure_def well_typed_def split: option.splits)

lemma infer_int_typed: "asdf_value_infer_int h v s = Some (err, v', h') \<Longrightarrow> well_typed v'"
  by (auto simp: asdf_value_infer_int_def well_typed_def Let_def bind_eq_Some_conv unsigned_type_inferred
      signed_type_inferred not_less split: if_splits prod.splits)

lemma infer_float_typed: "asdf_value_infer_float dp h v s ai = (err, v', h') \<Longrightarrow> well_typed v'"
  by (auto simp: asdf_value_infer_float_def well_typed_def Let_def split: if_splits prod.splits)

lemmas infer_typed = infer_null_typed infer_bool_typed infer_int_typed infer_float_typed

lemma infer_tagged_typed:
  "infer_tagged env h v s tag = Some (err, v', h') \<Longrightarrow> tag \<noteq> ASDF_YAML_COMMON_TAG_UNKNOWN \<Longrightarrow> well_typed v'"
  by (cases tag) (auto simp: infer_tagged_def Let_def dest: infer_typed split: prod.splits simp: well_typed_def [of "_\<lparr>v_type := ASDF_VALUE_STRING\<rparr>"])

lemma infer_plain_typed: "infer_plain env h v s = Some (err, v', h') \<Longrightarrow> well_typed v'"
  by (auto simp: infer_plain_def Let_def bind_eq_Some_conv dest: infer_typed split: prod.splits if_splits
      simp: well_typed_def [of "_\<lparr>v_type := ASDF_VALUE_STRING, v_err := _\<rparr>"])

lemma infer_value_typed:
  assumes "well_typed v" and "infer_value env h v = Some (err, v', h')"
  shows "well_typed v'"
proof -
  note s = assms(2) [unfolded infer_value_def]
  show ?thesis
    using assms(1) s
    by (auto simp: Let_def well_typed_def [of "_\<lparr>v_type := ASDF_VALUE_STRING, v_err := _\<rparr>"]
        dest: infer_plain_typed infer_tagged_typed
        split: if_splits prod.splits option.splits asdf_yaml_common_tag.splits)
qed

section \<open>The integer getters\<close>

lemma int_scalar: "t \<in> int_types \<Longrightarrow> fits t s \<Longrightarrow> \<exists>w. s = Word w"
  by (auto simp: int_types_def)

lemma int_types_cases: "t \<in> int_types \<Longrightarrow>
    t \<in> {ASDF_VALUE_INT64, ASDF_VALUE_INT32, ASDF_VALUE_INT16, ASDF_VALUE_INT8} \<or>
    t \<in> {ASDF_VALUE_UINT64, ASDF_VALUE_UINT32, ASDF_VALUE_UINT16, ASDF_VALUE_UINT8}"
  by (auto simp: int_types_def)

definition int_result :: "int \<Rightarrow> int \<Rightarrow> int \<Rightarrow> asdf_value_err \<times> 'w::len word option" where
  "int_result lo hi n = (if lo \<le> n \<and> n \<le> hi then ASDF_VALUE_OK else ASDF_VALUE_ERR_OVERFLOW, Some (of_int n))"

lemmas getter_simps = int_result_def num_of_def scalar_i_def word_less_def word_le_def int_types_def uint_above

lemma as_int8: "t \<in> int_types \<Longrightarrow> fits t (Word w) \<Longrightarrow> as_int8_of pf t (Word w) = int_result (- 128) 127 (num_of t w)"
  by (auto simp: getter_simps)

lemma as_int16: "t \<in> int_types \<Longrightarrow> fits t (Word w) \<Longrightarrow> as_int16_of pf t (Word w) = int_result (- 32768) 32767 (num_of t w)"
  by (auto simp: getter_simps)

lemma as_int32: "t \<in> int_types \<Longrightarrow> fits t (Word w) \<Longrightarrow>
    as_int32_of pf t (Word w) = int_result (- 2147483648) 2147483647 (num_of t w)"
  by (auto simp: getter_simps)

lemma sint_u64: "- 9223372036854775808 \<le> sint (w :: u64)" "sint (w :: u64) \<le> 9223372036854775807"
  using sint_ge [of w] sint_lt [of w] by simp_all

lemma uint_u64: "uint (w :: u64) \<le> 18446744073709551615"
proof -
  have "uint w < 2 ^ LENGTH(64)" by (rule unsigned_less)
  then show ?thesis by simp
qed

lemma uint_of_sint: "uint (w :: u64) = (if sint w < 0 then sint w + 18446744073709551616 else sint w)"
proof -
  have "uint w = sint w mod 2 ^ 64" by (simp add: uint_sint take_bit_eq_mod)
  then show ?thesis using sint_u64 [of w] by (simp add: mod_shift)
qed

lemma low_word: "(ucast (w :: u64) :: 32 word) = of_int (sint w)"
proof -
  have "(of_int (uint w) :: 32 word) = of_int (sint w)" by (subst uint_of_sint) simp
  then show ?thesis by simp
qed

lemma as_int64: "t \<in> int_types \<Longrightarrow> fits t (Word w) \<Longrightarrow>
    as_int64_of pf t (Word w) = int_result (- 9223372036854775808) 9223372036854775807 (num_of t w)"
  using sint_u64 [of w] by (auto simp: getter_simps)

lemma as_uint8: "t \<in> int_types \<Longrightarrow> fits t (Word w) \<Longrightarrow> as_uint8_of pf t (Word w) = int_result 0 255 (num_of t w)"
  by (auto simp: getter_simps)

lemma as_uint16: "t \<in> int_types \<Longrightarrow> fits t (Word w) \<Longrightarrow> as_uint16_of pf t (Word w) = int_result 0 65535 (num_of t w)"
  by (auto simp: getter_simps)

lemma as_uint32: "t \<in> int_types \<Longrightarrow> fits t (Word w) \<Longrightarrow> as_uint32_of pf t (Word w) = int_result 0 4294967295 (num_of t w)"
  using sint_u64 [of w] uint_of_sint [of w] low_word [of w] by (auto simp: getter_simps)

lemma as_uint64: "t \<in> int_types \<Longrightarrow> fits t (Word w) \<Longrightarrow>
    as_uint64_of pf t (Word w) = int_result 0 18446744073709551615 (num_of t w)"
  using sint_u64 [of w] uint_u64 [of w] by (auto simp: getter_simps)

section \<open>The tests\<close>

lemma tests_of_inferred:
  assumes "t \<in> int_types" and "inferred t (Word w)" and "n = num_of t w"
  shows "is_int8_of pf t (Word w) \<longleftrightarrow> - 128 \<le> n \<and> n \<le> 127"
    "is_int16_of pf t (Word w) \<longleftrightarrow> - 32768 \<le> n \<and> n \<le> 32767"
    "is_int32_of pf t (Word w) \<longleftrightarrow> - 2147483648 \<le> n \<and> n \<le> 2147483647"
    "is_int64_of pf t (Word w) \<longleftrightarrow> - 9223372036854775808 \<le> n \<and> n \<le> 9223372036854775807"
    "is_uint8_of pf t (Word w) \<longleftrightarrow> 0 \<le> n"
    "is_uint16_of pf t (Word w) \<longleftrightarrow> 0 \<le> n \<and> n \<le> 65535"
    "is_uint32_of pf t (Word w) \<longleftrightarrow> 0 \<le> n \<and> n \<le> 4294967295"
    "is_uint64_of pf t (Word w) \<longleftrightarrow> 0 \<le> n \<and> n \<le> 18446744073709551615"
    "is_int_of pf t (Word w)"
  using assms sint_u64 [of w] uint_u64 [of w] uint_of_sint [of w]
  by (auto simp: getter_simps inferred_def)

text \<open>C28. The type inferred for a scalar always fits what is stored for it, and a scalar that is resolved
  without an error has a type that is a string, null, truth value, double, or the smallest integer type
  that holds it.\<close>

theorem inference_well_typed:
  assumes "well_typed v" and "infer_value env h v = Some (err, v', h')"
  shows "well_typed v' \<and> (v_type v = ASDF_VALUE_SCALAR \<and> err = ASDF_VALUE_OK \<longrightarrow>
    v_type v' \<in> {ASDF_VALUE_STRING, ASDF_VALUE_NULL, ASDF_VALUE_BOOL, ASDF_VALUE_DOUBLE} \<union> int_types)"
proof -
  have u: "unsigned_type w \<in> int_types" "signed_type i \<in> int_types" for w i
    by (simp_all add: unsigned_type_def signed_type_def int_types_def)
  have n: "v_type x \<in> {ASDF_VALUE_STRING, ASDF_VALUE_NULL, ASDF_VALUE_BOOL, ASDF_VALUE_DOUBLE} \<union> int_types"
    if "asdf_value_infer_null w s = (ASDF_VALUE_OK, x)" for w x :: "'a asdf_value" and s
    using that by (auto simp: asdf_value_infer_null_def infer_failure_def split: if_splits)
  have b: "v_type x \<in> {ASDF_VALUE_STRING, ASDF_VALUE_NULL, ASDF_VALUE_BOOL, ASDF_VALUE_DOUBLE} \<union> int_types"
    if "asdf_value_infer_bool w s = (ASDF_VALUE_OK, x)" for w x :: "'a asdf_value" and s
    using that by (auto simp: asdf_value_infer_bool_def infer_failure_def split: option.splits)
  have i: "v_type x \<in> {ASDF_VALUE_STRING, ASDF_VALUE_NULL, ASDF_VALUE_BOOL, ASDF_VALUE_DOUBLE} \<union> int_types"
    if "asdf_value_infer_int k w s = Some (ASDF_VALUE_OK, x, k')" for w x :: "'a asdf_value" and s k k'
    using that u by (auto simp: asdf_value_infer_int_def Let_def bind_eq_Some_conv split: if_splits prod.splits)
  have f: "v_type x \<in> {ASDF_VALUE_STRING, ASDF_VALUE_NULL, ASDF_VALUE_BOOL, ASDF_VALUE_DOUBLE} \<union> int_types"
    if "asdf_value_infer_float dp k w s a = (ASDF_VALUE_OK, x, k')" for w x :: "'a asdf_value" and s k k' dp a
    using that by (auto simp: asdf_value_infer_float_def Let_def split: if_splits prod.splits)
  have p: "v_type x \<in> {ASDF_VALUE_STRING, ASDF_VALUE_NULL, ASDF_VALUE_BOOL, ASDF_VALUE_DOUBLE} \<union> int_types"
    if "infer_plain env k w s = Some (ASDF_VALUE_OK, x, k')" for w x :: "'a asdf_value" and s k k'
    using that by (auto simp: infer_plain_def Let_def bind_eq_Some_conv dest: n b i f split: prod.splits if_splits)
  have t: "v_type x \<in> {ASDF_VALUE_STRING, ASDF_VALUE_NULL, ASDF_VALUE_BOOL, ASDF_VALUE_DOUBLE} \<union> int_types"
    if "infer_tagged env k w s tag = Some (ASDF_VALUE_OK, x, k')" for w x :: "'a asdf_value" and s k k' tag
    using that by (cases tag) (auto simp: infer_tagged_def Let_def dest: n b i f split: prod.splits)
  have "v_type v' \<in> {ASDF_VALUE_STRING, ASDF_VALUE_NULL, ASDF_VALUE_BOOL, ASDF_VALUE_DOUBLE} \<union> int_types"
    if "v_type v = ASDF_VALUE_SCALAR" "err = ASDF_VALUE_OK"
    using assms(2) that p t
    by (auto simp: infer_value_def Let_def split: if_splits prod.splits option.splits asdf_yaml_common_tag.splits)
  with infer_value_typed [OF assms] show ?thesis by blast
qed

text \<open>A plain scalar that reads 300.\<close>

definition sample_env :: "bytes value_env" where
  "sample_env = \<lparr>ve_platform = little_platform, ve_point = [46], fy_node_get_style = \<lambda>_. FYNS_PLAIN,
     fy_node_get_scalar = Some, fy_node_get_tag = \<lambda>_. None\<rparr>"

definition fresh_value :: "'n \<Rightarrow> 'n asdf_value" where
  "fresh_value n = \<lparr>v_type = ASDF_VALUE_SCALAR, v_raw_type = ASDF_VALUE_SCALAR, v_err = ASDF_VALUE_ERR_UNKNOWN,
     v_node = n, v_tag = None, v_shallow = False, v_explicit_tag_checked = False, v_extension_checked = False,
     v_scalar = Word 0, v_path = None, v_style = Some ASDF_YAML_NODE_STYLE_AUTO\<rparr>"


lemma infer_int_scalar: "v_type v \<in> int_types \<Longrightarrow> well_typed v \<Longrightarrow> \<exists>w. v_scalar v = Word w"
  using int_scalar [of "v_type v" "v_scalar v"] by (auto simp: well_typed_def inferred_def)

text \<open>C29. An integer scalar is read through any of the eight integer getters as its value, which is stored
  modulo the width of the type asked for, and the getter reports an overflow exactly when the value is
  outside the range of that type.\<close>

theorem integer_getters:
  assumes "well_typed v" and "infer_value env h v = Some (ASDF_VALUE_OK, v', h')" and "v_type v' \<in> int_types"
  shows "\<exists>n. n = num_of (v_type v') (scalar_u (ve_platform env) (v_scalar v')) \<and>
    asdf_value_as_int8 env h (Some v) = (case int_result (- 128) 127 n of (err, out) \<Rightarrow> Some (err, out, Some v', h')) \<and>
    asdf_value_as_int16 env h (Some v) = (case int_result (- 32768) 32767 n of (err, out) \<Rightarrow> Some (err, out, Some v', h')) \<and>
    asdf_value_as_int32 env h (Some v) =
      (case int_result (- 2147483648) 2147483647 n of (err, out) \<Rightarrow> Some (err, out, Some v', h')) \<and>
    asdf_value_as_int64 env h (Some v) =
      (case int_result (- 9223372036854775808) 9223372036854775807 n of (err, out) \<Rightarrow> Some (err, out, Some v', h')) \<and>
    asdf_value_as_uint8 env h (Some v) = (case int_result 0 255 n of (err, out) \<Rightarrow> Some (err, out, Some v', h')) \<and>
    asdf_value_as_uint16 env h (Some v) = (case int_result 0 65535 n of (err, out) \<Rightarrow> Some (err, out, Some v', h')) \<and>
    asdf_value_as_uint32 env h (Some v) = (case int_result 0 4294967295 n of (err, out) \<Rightarrow> Some (err, out, Some v', h')) \<and>
    asdf_value_as_uint64 env h (Some v) =
      (case int_result 0 18446744073709551615 n of (err, out) \<Rightarrow> Some (err, out, Some v', h'))"
proof -
  have w: "well_typed v'" by (rule infer_value_typed [OF assms(1,2)])
  then obtain w where s: "v_scalar v' = Word w" using infer_int_scalar assms(3) by blast
  have f: "fits (v_type v') (Word w)" using w by (simp add: well_typed_def inferred_def s)
  note getters = as_int8 as_int16 as_int32 as_int64 as_uint8 as_uint16 as_uint32 as_uint64
  have r: "asdf_value_infer_scalar_type env h (Some v) = Some (ASDF_VALUE_OK, Some v', h')"
    by (simp add: asdf_value_infer_scalar_type_def assms(2))
  show ?thesis
    unfolding asdf_value_as_int8_def asdf_value_as_int16_def asdf_value_as_int32_def asdf_value_as_int64_def
      asdf_value_as_uint8_def asdf_value_as_uint16_def asdf_value_as_uint32_def asdf_value_as_uint64_def
      as_scalar_with_def r s
    by (simp add: getters [OF assms(3) f] s case_prod_beta del: as_int8_of.simps as_int16_of.simps as_int32_of.simps as_int64_of.simps
        as_uint8_of.simps as_uint16_of.simps as_uint32_of.simps as_uint64_of.simps)
qed

text \<open>The tests of a scalar that was read as an integer: each of them, but the one for unsigned bytes,
  answers whether the value is in the range of the type; that one is true of every integer that is not
  negative.\<close>

theorem integer_tests:
  assumes "well_typed v" and "infer_value env h v = Some (ASDF_VALUE_OK, v', h')" and "v_type v' \<in> int_types"
  shows "\<exists>n. n = num_of (v_type v') (scalar_u (ve_platform env) (v_scalar v')) \<and>
    asdf_value_is_int8 env h (Some v) = Some (- 128 \<le> n \<and> n \<le> 127, Some v', h') \<and>
    asdf_value_is_int16 env h (Some v) = Some (- 32768 \<le> n \<and> n \<le> 32767, Some v', h') \<and>
    asdf_value_is_int32 env h (Some v) = Some (- 2147483648 \<le> n \<and> n \<le> 2147483647, Some v', h') \<and>
    asdf_value_is_int64 env h (Some v) = Some (- 9223372036854775808 \<le> n \<and> n \<le> 9223372036854775807, Some v', h') \<and>
    asdf_value_is_uint8 env h (Some v) = Some (0 \<le> n, Some v', h') \<and>
    asdf_value_is_uint16 env h (Some v) = Some (0 \<le> n \<and> n \<le> 65535, Some v', h') \<and>
    asdf_value_is_uint32 env h (Some v) = Some (0 \<le> n \<and> n \<le> 4294967295, Some v', h') \<and>
    asdf_value_is_uint64 env h (Some v) = Some (0 \<le> n \<and> n \<le> 18446744073709551615, Some v', h')"
proof -
  have w: "well_typed v'" by (rule infer_value_typed [OF assms(1,2)])
  then obtain w where s: "v_scalar v' = Word w" using infer_int_scalar assms(3) by blast
  have f: "inferred (v_type v') (Word w)" using w by (simp add: well_typed_def s)
  have r: "asdf_value_infer_scalar_type env h (Some v) = Some (ASDF_VALUE_OK, Some v', h')"
    by (simp add: asdf_value_infer_scalar_type_def assms(2))
  show ?thesis
    unfolding asdf_value_is_int8_def asdf_value_is_int16_def asdf_value_is_int32_def asdf_value_is_int64_def
      asdf_value_is_uint8_def asdf_value_is_uint16_def asdf_value_is_uint32_def asdf_value_is_uint64_def
      is_scalar_with_def r s
    by (simp add: tests_of_inferred [OF assms(3) f refl] s del: is_int8_of.simps is_int16_of.simps is_int32_of.simps
        is_int64_of.simps is_uint8_of.simps is_uint16_of.simps is_uint32_of.simps is_uint64_of.simps)
qed


section \<open>What is written is read back\<close>

text \<open>A node as libfyaml shows it: its style, its text and its tag.\<close>

definition plain_node :: "'n value_env \<Rightarrow> 'n \<Rightarrow> bytes \<Rightarrow> bool" where
  "plain_node env n s \<longleftrightarrow> \<not> quoted_style (fy_node_get_style env n) \<and> fy_node_get_scalar env n = Some s \<and>
     fy_node_get_tag env n = None"

lemma infer_fresh_plain:
  assumes "plain_node env n s"
  shows "infer_value env h (fresh_value n) = infer_plain env h ((fresh_value n)\<lparr>v_explicit_tag_checked := True\<rparr>) (Some s)"
  using assms by (simp add: infer_value_def fresh_value_def plain_node_def asdf_value_tag_def Let_def)

lemma dec_not_null: "\<not> asdf_yaml_scalar_is_null (Some (int_dec n))"
proof -
  have "c \<noteq> 110 \<and> c \<noteq> 78 \<and> c \<noteq> 126" if "is_digit c" for c using that by (auto simp: is_digit_def)
  moreover obtain c cs where "int_dec n = c # cs" "is_digit c \<or> c = 45"
  proof (cases "n < 0")
    case True
    with that show ?thesis by (simp add: int_dec_def)
  next
    case False
    with that dec_all_digits [of "nat n"] show ?thesis by (cases "dec (nat n)") (simp_all add: int_dec_def)
  qed
  ultimately show ?thesis
    by (auto simp: asdf_yaml_scalar_is_null_def scalar_equals_def bytes_of_def)
qed

lemma infer_int_dec:
  assumes "- 9223372036854775808 \<le> n" and "n \<le> 18446744073709551615"
  shows "\<exists>t w. asdf_value_infer_int [] v (Some (int_dec n)) =
      Some (ASDF_VALUE_OK, v\<lparr>v_type := t, v_scalar := Word w, v_err := ASDF_VALUE_OK\<rparr>, []) \<and>
    t \<in> int_types \<and> inferred t (Word w) \<and> num_of t w = n"
proof (cases "n < 0")
  case True
  define w where "w = (of_nat (nat (- n)) :: u64)"
  have n: "nat (- n) < 2 ^ 64" using assms(1) True by simp
  have "unat w = nat (- n)" using n by (simp add: w_def unat_of_nat take_bit_eq_mod)
  then have "int (unat w) = int (nat (- n))" by (simp only:)
  then have u: "uint w = - n" using True by simp
  have le: "w \<le> 9223372036854775808" using assms(1) by (simp add: word_le_def u)
  have t: "signed_type (- uint w) \<in> {ASDF_VALUE_INT8, ASDF_VALUE_INT16, ASDF_VALUE_INT32, ASDF_VALUE_INT64}"
    by (simp add: signed_type_def)
  have "asdf_yaml_scalar_is_int [] (Some (int_dec n)) 0 = Some ((ASDF_VALUE_OK, True, w), [])"
    using is_int_dec [of "[45]" "[]" "nat (- n)" 0] True n by (simp add: sign_text_def int_dec_def parse_uint_dec w_def)
  moreover have "num_of (signed_type (- uint w)) (- w) = n"
    using t sint_neg_small [OF le] u by (simp add: num_of_def)
  ultimately show ?thesis
    using le signed_type_inferred [OF le] t
    by (intro exI [of _ "signed_type (- uint w)"] exI [of _ "- w"]) (auto simp: asdf_value_infer_int_def Let_def int_types_def)
next
  case False
  define w where "w = (of_nat (nat n) :: u64)"
  have n: "nat n < 2 ^ 64" using assms(2) by simp
  have "unat w = nat n" using n by (simp add: w_def unat_of_nat take_bit_eq_mod)
  then have "int (unat w) = int (nat n)" by (simp only:)
  then have u: "uint w = n" using False by simp
  have t: "unsigned_type w \<in> {ASDF_VALUE_UINT8, ASDF_VALUE_UINT16, ASDF_VALUE_UINT32, ASDF_VALUE_UINT64}"
    by (simp add: unsigned_type_def)
  have "asdf_yaml_scalar_is_int [] (Some (int_dec n)) 0 = Some ((ASDF_VALUE_OK, False, w), [])"
    using is_int_dec [of "[]" "[]" "nat n" 0] False n by (simp add: sign_text_def int_dec_def parse_uint_dec w_def)
  moreover have "num_of (unsigned_type w) w = n" using t u by (auto simp: num_of_def)
  ultimately show ?thesis
    using unsigned_type_inferred [of w] t
    by (intro exI [of _ "unsigned_type w"] exI [of _ w]) (auto simp: asdf_value_infer_int_def Let_def int_types_def)
qed

text \<open>An integer that was written as a scalar is read back: a plain scalar with the text that the writer
  gives an integer of up to 64 bits, signed or unsigned, is read as that integer by the 64-bit getters.\<close>

theorem integer_text_roundtrip:
  assumes "plain_node env x s" and "asdf_node_of_signed i = Create_scalar s \<or> asdf_node_of_unsigned u = Create_scalar s"
  shows "(asdf_node_of_signed i = Create_scalar s \<longrightarrow>
      (\<exists>v'. asdf_value_as_int64 env [] (Some (fresh_value x)) = Some (ASDF_VALUE_OK, Some (i :: u64), Some v', []))) \<and>
    (asdf_node_of_unsigned u = Create_scalar s \<longrightarrow>
      (\<exists>v'. asdf_value_as_uint64 env [] (Some (fresh_value x)) = Some (ASDF_VALUE_OK, Some (u :: u64), Some v', [])))"
proof -
  have read: "\<exists>v' w. infer_value env [] (fresh_value x) = Some (ASDF_VALUE_OK, v', []) \<and> v_type v' \<in> int_types \<and>
      v_scalar v' = Word w \<and> fits (v_type v') (Word w) \<and> num_of (v_type v') w = n"
    if "s = int_dec n" "- 9223372036854775808 \<le> n" "n \<le> 18446744073709551615" for n
  proof -
    note range = that
    obtain t w where "asdf_value_infer_int [] (snd (infer_failure ((fresh_value x)\<lparr>v_explicit_tag_checked := True\<rparr>))) (Some (int_dec n)) =
          Some (ASDF_VALUE_OK, snd (infer_failure ((fresh_value x)\<lparr>v_explicit_tag_checked := True\<rparr>))
            \<lparr>v_type := t, v_scalar := Word w, v_err := ASDF_VALUE_OK\<rparr>, [])"
        "t \<in> int_types" "inferred t (Word w)" "num_of t w = n"
      using infer_int_dec [OF range(2,3)] by blast
    then show ?thesis
      using dec_not_null [of n] range(1) unfolding infer_fresh_plain [OF assms(1)]
      by (simp add: infer_plain_def asdf_value_infer_null_def infer_failure_def inferred_def)
  qed
  have "\<exists>v'. asdf_value_as_int64 env [] (Some (fresh_value x)) = Some (ASDF_VALUE_OK, Some i, Some v', [])"
    if "asdf_node_of_signed i = Create_scalar s"
  proof -
    have "s = int_dec (sint i)" using that by (simp add: asdf_node_of_signed_def)
    moreover have "- 9223372036854775808 \<le> sint i" "sint i \<le> 18446744073709551615" using sint_u64 [of i] by auto
    ultimately obtain v' w where v: "infer_value env [] (fresh_value x) = Some (ASDF_VALUE_OK, v', [])" "v_type v' \<in> int_types"
        "v_scalar v' = Word w" "fits (v_type v') (Word w)" "num_of (v_type v') w = sint i"
      using read by blast
    have "as_int64_of (ve_platform env) (v_type v') (Word w) = (ASDF_VALUE_OK, Some i)"
      using as_int64 [OF v(2,4)] sint_u64 [of i] by (simp add: v(5) int_result_def)
    then show ?thesis
      by (simp add: asdf_value_as_int64_def as_scalar_with_def asdf_value_infer_scalar_type_def v(1,3) del: as_int64_of.simps)
  qed
  moreover have "\<exists>v'. asdf_value_as_uint64 env [] (Some (fresh_value x)) = Some (ASDF_VALUE_OK, Some u, Some v', [])"
    if "asdf_node_of_unsigned u = Create_scalar s"
  proof -
    have "s = int_dec (uint u)" using that by (simp add: asdf_node_of_unsigned_def)
    moreover have "- 9223372036854775808 \<le> uint u" by (rule uint_above) simp
    ultimately obtain v' w where v: "infer_value env [] (fresh_value x) = Some (ASDF_VALUE_OK, v', [])" "v_type v' \<in> int_types"
        "v_scalar v' = Word w" "fits (v_type v') (Word w)" "num_of (v_type v') w = uint u"
      using read uint_u64 [of u] by blast
    have "as_uint64_of (ve_platform env) (v_type v') (Word w) = (ASDF_VALUE_OK, Some u)"
      using as_uint64 [OF v(2,4)] uint_u64 [of u] by (simp add: v(5) int_result_def)
    then show ?thesis
      by (simp add: asdf_value_as_uint64_def as_scalar_with_def asdf_value_infer_scalar_type_def v(1,3) del: as_uint64_of.simps)
  qed
  ultimately show ?thesis by blast
qed

text \<open>What a single-quoted scalar of YAML stands for. Between the quotes a doubled quote is one, and lines are
  folded: a line break and the white space around it become a space, or, when empty lines follow, a line feed for
  each of them.\<close>

fun unquote :: "bytes \<Rightarrow> bytes option" where
  "unquote [] = None"
| "unquote [c] = (if c = 39 then Some [] else None)"
| "unquote (c # d # cs) =
     (if c \<noteq> 39 then map_option ((#) c) (unquote (d # cs))
      else if d = 39 then map_option ((#) 39) (unquote cs) else None)"

lemma unquote_doubled: "unquote (concat (map (\<lambda>c. if c = 39 then [39, 39] else [c]) s) @ [39]) = Some s"
proof (induction s)
  case (Cons c s)
  show ?case
  proof (cases "c = 39")
    case True
    with Cons show ?thesis by simp
  next
    case False
    obtain d ds where "concat (map (\<lambda>c. if c = 39 then [39, 39] else [c]) s) @ [39] = d # ds"
      by (cases "concat (map (\<lambda>c. if c = 39 then [39, 39] else [c]) s) @ [39 :: byte]") simp_all
    with Cons False show ?thesis by simp
  qed
qed simp

definition is_break :: "byte \<Rightarrow> bool" where
  "is_break c \<longleftrightarrow> c = 10 \<or> c = 13"

fun break_lines :: "bytes \<Rightarrow> bytes list" where
  "break_lines [] = [[]]"
| "break_lines [c] = (if is_break c then [[], []] else [[c]])"
| "break_lines (c # d # cs) =
     (if c = 13 \<and> d = 10 then [] # break_lines cs
      else if is_break c then [] # break_lines (d # cs)
      else (case break_lines (d # cs) of [] \<Rightarrow> [[c]] | l # ls \<Rightarrow> (c # l) # ls))"

definition white :: "byte \<Rightarrow> bool" where
  "white c \<longleftrightarrow> c = 32 \<or> c = 9"

definition trim_left :: "bytes \<Rightarrow> bytes" where
  "trim_left l = dropWhile white l"

definition trim_right :: "bytes \<Rightarrow> bytes" where
  "trim_right l = rev (dropWhile white (rev l))"

definition folded_break :: "nat \<Rightarrow> bytes" where
  "folded_break empties = (if empties = 0 then [32] else replicate empties 10)"

text \<open>The lines behind the first one, with the number of empty lines before them.\<close>

fun fold_rest :: "nat \<Rightarrow> bytes list \<Rightarrow> bytes" where
  "fold_rest k [] = []"
| "fold_rest k [l] = folded_break k @ trim_left l"
| "fold_rest k (l # m # ls) =
     (if trim_left l = [] then fold_rest (Suc k) (m # ls)
      else folded_break k @ trim_right (trim_left l) @ fold_rest 0 (m # ls))"

definition fold_text :: "bytes \<Rightarrow> bytes" where
  "fold_text s = (case break_lines s of l # m # ls \<Rightarrow> trim_right l @ fold_rest 0 (m # ls) | _ \<Rightarrow> s)"

definition yaml_single_quoted :: "bytes \<Rightarrow> bytes option" where
  "yaml_single_quoted t =
     (case t of [] \<Rightarrow> None | c # q \<Rightarrow> if c = 39 then map_option fold_text (unquote q) else None)"

lemma quoted_folds: "yaml_single_quoted (single_quoted s) = Some (fold_text s)"
  by (simp add: yaml_single_quoted_def single_quoted_def unquote_doubled)

text \<open>A text is its own folding exactly when it has no line break: folding leaves fewer of them.\<close>

abbreviation breaks :: "bytes \<Rightarrow> nat" where
  "breaks s \<equiv> length (filter is_break s)"

lemma break_lines_ne: "break_lines s \<noteq> []"
  by (induction s rule: break_lines.induct) (auto split: list.splits)

lemma break_lines_none: "\<forall>c \<in> set s. \<not> is_break c \<Longrightarrow> break_lines s = [s]"
  by (induction s rule: break_lines.induct) (auto simp: is_break_def)

lemma breaks_lines: "length (break_lines s) \<le> Suc (breaks s)"
  by (induction s rule: break_lines.induct) (auto simp: is_break_def split: list.splits)

lemma lines_no_breaks: "l \<in> set (break_lines s) \<Longrightarrow> breaks l = 0"
  by (induction s arbitrary: l rule: break_lines.induct) (auto split: list.splits if_splits)

lemma breaks_some: "0 < breaks s \<Longrightarrow> 2 \<le> length (break_lines s)"
proof (induction s rule: break_lines.induct)
  case (3 c d cs)
  then show ?case using break_lines_ne [of cs] break_lines_ne [of "d # cs"]
    by (cases "break_lines cs"; cases "break_lines (d # cs)") (auto split: if_splits)
qed (auto split: if_splits)

lemma breaks_trim:
  "breaks (trim_left l) \<le> breaks l" "breaks (trim_right l) \<le> breaks l"
proof -
  have d: "breaks (dropWhile white xs) \<le> breaks xs" for xs by (induction xs) auto
  show "breaks (trim_left l) \<le> breaks l" by (simp add: trim_left_def d)
  show "breaks (trim_right l) \<le> breaks l" using d [of "rev l"] by (simp add: trim_right_def rev_filter [symmetric])
qed

lemma breaks_folded: "breaks (folded_break k) = k"
  by (simp add: folded_break_def is_break_def)

lemma fold_rest_breaks: "\<forall>l \<in> set ls. breaks l = 0 \<Longrightarrow> ls \<noteq> [] \<Longrightarrow> breaks (fold_rest k ls) < k + length ls"
proof (induction k ls rule: fold_rest.induct)
  case (2 k l)
  then show ?case using breaks_trim(1) [of l] breaks_folded [of k] by (auto simp del: filter_empty_conv)
next
  case (3 k l m ls)
  have "breaks (trim_right (trim_left l)) = 0"
    using 3(3) breaks_trim(1) [of l] breaks_trim(2) [of "trim_left l"] by (simp del: filter_empty_conv)
  then show ?case using 3 breaks_folded [of k] by (cases "trim_left l = []") (auto simp del: filter_empty_conv)
qed simp

lemma fold_text_id: "fold_text s = s \<longleftrightarrow> (\<forall>c \<in> set s. \<not> is_break c)"
proof (cases "breaks s = 0")
  case True
  then have "\<forall>c \<in> set s. \<not> is_break c" by (simp add: filter_empty_conv)
  then show ?thesis using break_lines_none by (simp add: fold_text_def)
next
  case False
  then obtain l m ls where b: "break_lines s = l # m # ls"
    using breaks_some [of s] by (cases "break_lines s"; cases "tl (break_lines s)") auto
  have "breaks (trim_right l) = 0"
    using lines_no_breaks [of l s] breaks_trim(2) [of l] by (simp add: b del: filter_empty_conv)
  moreover have "breaks (fold_rest 0 (m # ls)) < length (m # ls)"
    using fold_rest_breaks [of "m # ls" 0] lines_no_breaks [of _ s] by (simp add: b del: filter_empty_conv)
  moreover have "length (m # ls) \<le> breaks s" using breaks_lines [of s] by (simp add: b)
  ultimately have "breaks (fold_text s) < breaks s" by (simp add: fold_text_def b del: filter_empty_conv)
  then have "fold_text s \<noteq> s" by auto
  then show ?thesis using False by (auto simp: filter_empty_conv)
qed

text \<open>Where every allocation succeeds, it stays so.\<close>

lemma parse_uint_no_heap: "parse_uint_digits [] cs base m = (r, h) \<Longrightarrow> h = []"
  by (auto simp: parse_uint_digits_def Let_def split: if_splits prod.splits)

lemma is_int_no_heap: "asdf_yaml_scalar_is_int [] s m = Some (r, h) \<Longrightarrow> h = []"
  by (auto simp: asdf_yaml_scalar_is_int_def Let_def bind_eq_Some_conv dest: parse_uint_no_heap
      split: option.splits if_splits prod.splits)

lemma parse_float_no_heap: "snd (parse_float_digits dp [] cs d) = []"
  by (simp add: parse_float_digits_def case_prod_beta)

lemma base60_no_heap: "h = [] \<Longrightarrow> snd (base60_float_loop dp h cs d) = []"
proof (induction dp h cs d rule: base60_float_loop.induct)
  case (1 dp h cs d)
  obtain err v h' where p: "parse_float_digits dp h (takeWhile (\<lambda>c. c \<noteq> 58) cs) (Fin 0) = ((err, v), h')"
    by (metis prod.collapse)
  then have "h' = []" using "1.prems" parse_float_no_heap [of dp "takeWhile (\<lambda>c. c \<noteq> 58) cs" "Fin 0"] by simp
  then have p': "parse_float_digits dp [] (takeWhile (\<lambda>c. c \<noteq> 58) cs) (Fin 0) = ((err, v), [])"
    using p "1.prems" by simp
  show ?case
    using "1.IH" [OF _ refl p [symmetric] refl] "1.prems" \<open>h' = []\<close>
    by (subst base60_float_loop.simps) (simp add: p' Let_def)
qed

lemma is_float_no_heap: "snd (asdf_yaml_scalar_is_float dp [] s a d) = []"
  using base60_no_heap [OF refl] parse_float_no_heap
  by (auto simp: asdf_yaml_scalar_is_float_def parse_base60_float_def Let_def case_prod_beta split: option.splits)

lemma ambiguous_no_heap: "asdf_yaml_string_is_ambiguous dp [] mem len = Some (r, h) \<Longrightarrow> h = []"
  using is_float_no_heap
  by (auto simp: asdf_yaml_string_is_ambiguous_def ambiguous_number_def Let_def bind_eq_Some_conv case_prod_beta
      dest!: is_int_no_heap split: if_splits)

lemma c_text_id: "0 \<notin> set s \<Longrightarrow> c_text s = s"
  by (auto simp: c_text_def takeWhile_eq_all_conv)

lemma infer_string:
  assumes "plain_node env x s" and "resolves_as_string (ve_point env) [] s"
  shows "\<exists>v' h'. infer_value env [] (fresh_value x) = Some (ASDF_VALUE_OK, v', h') \<and> v_type v' = ASDF_VALUE_STRING \<and> v_node v' = x"
proof -
  note r = assms(2) [unfolded resolves_as_string_def]
  obtain y h' where i: "asdf_yaml_scalar_is_int [] (Some s) 0 = Some ((ASDF_VALUE_ERR_PARSE_FAILURE, y), h')"
    using r by (auto simp: comp_def)
  have f: "fst (fst (asdf_yaml_scalar_is_float (ve_point env) h' (Some s) False (Fin 0))) = ASDF_VALUE_ERR_PARSE_FAILURE"
    using r by (simp add: float_failure_iff)
  obtain d h'' where f: "asdf_yaml_scalar_is_float (ve_point env) h' (Some s) False (Fin 0) = ((ASDF_VALUE_ERR_PARSE_FAILURE, d), h'')"
    using f by (metis prod.collapse)
  obtain n m where y: "y = (n, m)" by (cases y)
  show ?thesis
    unfolding infer_fresh_plain [OF assms(1)]
    using r i f by (simp add: y infer_plain_def asdf_value_infer_null_def infer_failure_def asdf_value_infer_int_def
        asdf_value_infer_bool_def asdf_value_infer_float_def fresh_value_def)
qed

text \<open>C30. A string without null bytes is written either as a plain scalar with its text, and then it is read
  back as a string with that text, or in single quotes, and then it stands for the text with its lines folded,
  as YAML says; that is the string itself exactly when the string has no line break.\<close>

theorem string_roundtrip:
  assumes "0 \<notin> set s" and "length s \<le> INT_MAX"
  shows "\<exists>r h. asdf_node_of_string0 (ve_point env) [] (Some s) = Some (Some r, h) \<and>
    (case r of
       Create_scalar t \<Rightarrow> t = s \<and> (\<forall>x. plain_node env x t \<longrightarrow>
         (\<exists>v h. asdf_value_as_string env [] (Some (fresh_value x)) = Some (ASDF_VALUE_OK, Some (Some s), Some v, h)))
     | Build_from_string t \<Rightarrow> yaml_single_quoted t = Some (fold_text s) \<and>
         (yaml_single_quoted t = Some s \<longleftrightarrow> 10 \<notin> set s \<and> 13 \<notin> set s))"
proof -
  obtain amb h where a: "asdf_yaml_string_is_ambiguous (ve_point env) [] (s @ [0]) (length s) = Some (amb, h)"
      "\<not> amb \<longrightarrow> resolves_as_string (ve_point env) [] s"
    using ambiguous_correct [of "length s" "s @ [0]" "ve_point env" "[]"] by auto
  show ?thesis
  proof (cases amb)
    case True
    have "h = []" by (rule ambiguous_no_heap [OF a(1)])
    then show ?thesis
      using True a(1) assms(2) fold_text_id [of s]
      by (auto simp: asdf_node_of_string0_def asdf_node_of_string_def quoted_folds is_break_def)
  next
    case False
    have "\<exists>v h. asdf_value_as_string env [] (Some (fresh_value x)) = Some (ASDF_VALUE_OK, Some (Some s), Some v, h)"
      if plain: "plain_node env x s" for x
    proof -
      obtain v' h' where "infer_value env [] (fresh_value x) = Some (ASDF_VALUE_OK, v', h')" "v_type v' = ASDF_VALUE_STRING" "v_node v' = x"
        using infer_string [OF plain] a(2) False by blast
      then show ?thesis
        using plain by (simp add: asdf_value_as_string_def asdf_value_infer_scalar_type_def plain_node_def)
    qed
    then show ?thesis
      using False a(1) assms by (simp add: asdf_node_of_string0_def asdf_node_of_string_def c_text_id)
  qed
qed

text \<open>A plain scalar that reads 300 is no unsigned byte, but the test says it is.\<close>

definition read_300 :: "bytes asdf_value" where
  "read_300 = (fresh_value (bytes_of ''300''))\<lparr>v_type := ASDF_VALUE_UINT16, v_err := ASDF_VALUE_OK, v_explicit_tag_checked := True,
     v_scalar := Word 300\<rparr>"

lemma plain_300: "plain_node sample_env s s"
  by (simp add: plain_node_def sample_env_def quoted_style_def)

lemma infer_300: "infer_value sample_env [] (fresh_value (bytes_of ''300'')) = Some (ASDF_VALUE_OK, read_300, [])"
proof -
  have d: "bytes_of ''300'' = dec 300" by (simp add: dec.simps bytes_of_def)
  have "asdf_yaml_scalar_is_int [] (Some (dec 300)) 0 = Some ((ASDF_VALUE_OK, False, 300), [])"
    using is_int_dec [of "[]" "[]" 300 0] by (simp add: sign_text_def parse_uint_dec)
  then show ?thesis
    unfolding d infer_fresh_plain [OF plain_300]
    using dec_not_null [of 300]
    by (simp add: infer_plain_def asdf_value_infer_null_def infer_failure_def asdf_value_infer_int_def
        unsigned_type_def read_300_def fresh_value_def int_dec_def d)
qed

lemma fresh_well_typed: "well_typed (fresh_value n)"
  by (simp add: well_typed_def fresh_value_def)

lemma read_300_type: "v_type read_300 \<in> int_types" "num_of (v_type read_300) (scalar_u pf (v_scalar read_300)) = 300"
  by (simp_all add: read_300_def int_types_def num_of_def)

theorem inference_well_typed_witness:
  "well_typed read_300 \<and> v_type read_300 \<in> {ASDF_VALUE_STRING, ASDF_VALUE_NULL, ASDF_VALUE_BOOL, ASDF_VALUE_DOUBLE} \<union> int_types"
  using inference_well_typed [OF fresh_well_typed infer_300] by (simp add: fresh_value_def)

theorem integer_getters_witness:
  "asdf_value_as_int8 sample_env [] (Some (fresh_value (bytes_of ''300''))) =
     Some (ASDF_VALUE_ERR_OVERFLOW, Some 44, Some read_300, []) \<and>
   asdf_value_as_int16 sample_env [] (Some (fresh_value (bytes_of ''300''))) =
     Some (ASDF_VALUE_OK, Some 300, Some read_300, [])"
  using integer_getters [OF fresh_well_typed infer_300 read_300_type(1)] by (simp add: read_300_type int_result_def)

theorem integer_tests_witness:
  "asdf_value_is_uint8 sample_env [] (Some (fresh_value (bytes_of ''300''))) = Some (True, Some read_300, []) \<and>
   asdf_value_is_int8 sample_env [] (Some (fresh_value (bytes_of ''300''))) = Some (False, Some read_300, [])"
  using integer_tests [OF fresh_well_typed infer_300 read_300_type(1)] by (simp add: read_300_type)


theorem integer_text_roundtrip_witness:
  "\<exists>v'. asdf_value_as_int64 sample_env [] (Some (fresh_value (int_dec (sint (- 42 :: u64))))) =
     Some (ASDF_VALUE_OK, Some (- 42), Some v', [])"
proof -
  have "asdf_node_of_signed (- 42 :: u64) = Create_scalar (int_dec (sint (- 42 :: u64)))"
    by (simp only: asdf_node_of_signed_def)
  with integer_text_roundtrip [OF plain_300 [of "int_dec (sint (- 42 :: u64))"], of "- 42" 0] show ?thesis by blast
qed

theorem string_roundtrip_witness:
  "\<exists>r h. asdf_node_of_string0 [46] [] (Some (bytes_of ''it is'')) = Some (Some r, h) \<and>
    (case r of
       Create_scalar t \<Rightarrow> t = bytes_of ''it is'' \<and> (\<forall>x. plain_node sample_env x t \<longrightarrow>
         (\<exists>v h. asdf_value_as_string sample_env [] (Some (fresh_value x)) =
           Some (ASDF_VALUE_OK, Some (Some (bytes_of ''it is'')), Some v, h)))
     | Build_from_string t \<Rightarrow> yaml_single_quoted t = Some (bytes_of ''it is''))"
proof -
  have "0 \<notin> set (bytes_of ''it is'')" "length (bytes_of ''it is'') \<le> INT_MAX" "ve_point sample_env = [46]"
    and n: "10 \<notin> set (bytes_of ''it is'')" "13 \<notin> set (bytes_of ''it is'')"
    by (simp_all add: bytes_of_def INT_MAX_def sample_env_def)
  from string_roundtrip [OF this(1,2), of sample_env] this(3) n show ?thesis
    by (elim exE conjE, intro exI conjI) (auto split: node_request.splits)
qed

section \<open>Where the answers differ\<close>

text \<open>A string that looks like the start of a time stamp is ambiguous whatever comes behind the year, line breaks
  too. It is quoted with the break as it is, and then it stands for another string.\<close>

lemma quoted_break_lost:
  "\<exists>t. asdf_node_of_string0 dp [] (Some (bytes_of ''2020-'' @ [10] @ bytes_of ''x'')) = Some (Some (Build_from_string t), []) \<and>
    yaml_single_quoted t = Some (bytes_of ''2020- x'')"
proof -
  let ?s = "[50, 48, 50, 48, 45, 10, 120] :: bytes"
  have s: "bytes_of ''2020-'' @ [10] @ bytes_of ''x'' = ?s" "bytes_of ''2020- x'' = [50, 48, 50, 48, 45, 32, 120]"
    by (simp_all add: bytes_of_def)
  have year: "span_digits_mem RADIX_DEC [50, 48, 50, 48, 45, 10, 120, 0] YEAR_DIGITS = Some YEAR_DIGITS"
      "?s ! YEAR_DIGITS = 45" "YEAR_DIGITS < length ?s"
    by (code_simp, simp_all add: YEAR_DIGITS_def)
  obtain e i where i: "asdf_yaml_scalar_is_int [] (Some ?s) 0 = Some ((e, i), [])"
    using scalar_is_int_returns [of "[]" "Some ?s" 0] is_int_no_heap by (metis prod.collapse)
  obtain e' v where v: "asdf_yaml_scalar_is_float dp [] (Some ?s) True (Fin 0) = ((e', v), [])"
    using is_float_no_heap [of dp "Some ?s" True "Fin 0"] by (metis prod.collapse)
  have "mem_read (?s @ [0]) 0 (length ?s) = Some ?s" by (simp add: mem_read_def)
  moreover have "number_head ?s" by (simp add: number_head_def is_digit_def)
  moreover have "ambiguous_number dp [] (?s @ [0]) ?s = Some (True, [])"
    using year by (auto simp: ambiguous_number_def i v)
  ultimately have "asdf_yaml_string_is_ambiguous dp [] (?s @ [0]) (length ?s) = Some (True, [])"
    by (auto simp: asdf_yaml_string_is_ambiguous_def)
  moreover have "fold_text ?s = [50, 48, 50, 48, 45, 32, 120]"
    by (simp add: fold_text_def is_break_def trim_right_def trim_left_def white_def folded_break_def)
  ultimately show ?thesis
    unfolding s by (simp add: asdf_node_of_string0_def asdf_node_of_string_def quoted_folds INT_MAX_def)
qed

text \<open>After an error the value counts as resolved: the next call reports no error.\<close>

lemma error_forgotten: "v_type v = ASDF_VALUE_UNKNOWN \<Longrightarrow> infer_value env h v = Some (ASDF_VALUE_OK, v, h)"
  by (simp add: infer_value_def)

text \<open>Values that were made with a wider type than they need: -5 as 16 bits is no 8-bit integer, and 70000 as
  64 bits no unsigned 32-bit one, but both are read as such.\<close>

lemma wide_values:
  "\<not> is_int8_of pf ASDF_VALUE_INT16 (Word (- 5))" "fst (as_int8_of pf ASDF_VALUE_INT16 (Word (- 5))) = ASDF_VALUE_OK"
  "\<not> is_uint32_of pf ASDF_VALUE_INT64 (Word 70000)" "fst (as_uint32_of pf ASDF_VALUE_INT64 (Word 70000)) = ASDF_VALUE_OK"
  by (simp_all add: scalar_i_def)

text \<open>On a big-endian host an unsigned 1 is read as false.\<close>

lemma big_endian_bool: "big_host pf \<Longrightarrow> as_bool_of pf ASDF_VALUE_UINT8 (Word 1) = (ASDF_VALUE_OK, Some False)"
proof -
  have "be_enc 8 1 = [0, 0, 0, 0, 0, 0, 0, 1]" by code_simp
  then show "big_host pf \<Longrightarrow> ?thesis" by (simp add: store_bits_def)
qed

end
