(* ===== verification/Asdf_Node_Laws.thy ===== *)
theory Asdf_Node_Laws
  imports Asdf_Node Asdf_Value_Laws
begin

text \<open>
  What iterating over a container gives: its children in order, or in reverse, with their keys, indices and
  paths, up to the first one that no value can be made for.
\<close>

section \<open>The children of a container\<close>

definition child_key :: "'n node_env \<Rightarrow> 'n \<Rightarrow> bytes option" where
  "child_key env k = (if fy_node_get_type env k = FYNT_SCALAR then fy_node_get_scalar0 env k else None)"

definition child_path :: "'n asdf_value \<Rightarrow> bytes option \<Rightarrow> int \<Rightarrow> bytes option" where
  "child_path parent key index =
     (case (v_path parent, path_suffix key index) of (Some p, Some s) \<Rightarrow> Some (p @ [47] @ s) | _ \<Rightarrow> None)"

definition target_node :: "'n node_env \<Rightarrow> 'n \<Rightarrow> 'n option" where
  "target_node env n = (if fy_node_is_alias env n then fy_node_resolve_alias env n else Some n)"

definition child_value :: "'n node_env \<Rightarrow> 'n asdf_value \<Rightarrow> bytes option \<Rightarrow> int \<Rightarrow> 'n \<Rightarrow> 'n asdf_value option" where
  "child_value env parent key index n = map_option (\<lambda>m. node_value env m (child_path parent key index)) (target_node env n)"

lemma create_ex_no_heap:
  "asdf_value_create_ex env [] n (Some parent) key index = (child_value env parent key index n, [])"
  by (auto simp: asdf_value_create_ex_def value_path_def child_value_def child_path_def target_node_def split: option.splits)

text \<open>A key, an index and a value for every pair or item.\<close>

type_synonym 'n entry = "bytes option \<times> int \<times> 'n asdf_value option"

fun pair_entries :: "'n node_env \<Rightarrow> 'n asdf_value \<Rightarrow> int \<Rightarrow> ('n \<times> 'n) list \<Rightarrow> 'n entry list" where
  "pair_entries env c i [] = []"
| "pair_entries env c i ((k, n) # ps) =
     (child_key env k, i, child_value env c (child_key env k) (- 1) n) # pair_entries env c (i + 1) ps"

fun item_entries :: "'n node_env \<Rightarrow> 'n asdf_value \<Rightarrow> int \<Rightarrow> 'n list \<Rightarrow> 'n entry list" where
  "item_entries env c i [] = []"
| "item_entries env c i (n # ns) = (None, i, child_value env c None i n) # item_entries env c (i + 1) ns"

definition container_entries :: "'n node_env \<Rightarrow> 'n asdf_value \<Rightarrow> 'n entry list" where
  "container_entries env c =
     (if v_raw_type c = ASDF_VALUE_MAPPING then pair_entries env c 0 (fy_node_pairs env (v_node c))
      else item_entries env c 0 (fy_node_items env (v_node c)))"

lemma pair_entries_append:
  "pair_entries env c i (xs @ ys) = pair_entries env c i xs @ pair_entries env c (i + int (length xs)) ys"
  by (induction xs arbitrary: i) (auto simp: algebra_simps)

lemma item_entries_append:
  "item_entries env c i (xs @ ys) = item_entries env c i xs @ item_entries env c (i + int (length xs)) ys"
  by (induction xs arbitrary: i) (auto simp: algebra_simps)

section \<open>Iteration\<close>

lemma mapping_next_cons:
  "mi_rest it = (k, n) # rest \<Longrightarrow> v_raw_type (mi_mapping it) = ASDF_VALUE_MAPPING \<Longrightarrow>
   asdf_mapping_iter_next env [] (Some it) =
     (case child_value env (mi_mapping it) (child_key env k) (- 1) n of
        None \<Rightarrow> (None, [])
      | Some v \<Rightarrow> (Some (it\<lparr>mi_key := child_key env k, mi_value := Some v, mi_rest := rest\<rparr>), []))"
  by (auto simp: asdf_mapping_iter_next_def create_ex_no_heap child_key_def Let_def split: option.splits)

text \<open>The loop of a client: \<^verbatim>\<open>while (asdf_container_iter_next(&iter)) ...\<close>.\<close>

fun sub_left :: "'n sub_iter \<Rightarrow> nat" where
  "sub_left (Mapping_sub (Some it)) = length (mi_rest it)"
| "sub_left (Sequence_sub (Some it)) = length (si_rest it)"
| "sub_left _ = 0"

lemma mapping_next_left:
  "asdf_mapping_iter_next env h it = (Some s, h') \<Longrightarrow>
     \<exists>i k n. it = Some i \<and> mi_rest i = (k, n) # mi_rest s \<and> mi_reverse s = mi_reverse i \<and> mi_mapping s = mi_mapping i"
  by (auto simp: asdf_mapping_iter_next_def Let_def split: option.splits list.splits if_splits prod.splits)

lemma sequence_next_left:
  "asdf_sequence_iter_next env h it = (Some s, h') \<Longrightarrow>
     \<exists>i n. it = Some i \<and> si_rest i = n # si_rest s \<and> si_reverse s = si_reverse i \<and> si_sequence s = si_sequence i"
  by (auto simp: asdf_sequence_iter_next_def Let_def split: option.splits list.splits if_splits prod.splits)

lemma container_next_left:
  "asdf_container_iter_next env h (Some it) = (Some s, h') \<Longrightarrow> sub_left (ci_sub s) < sub_left (ci_sub it)"
  by (auto simp: asdf_container_iter_next_def split: option.splits sub_iter.splits prod.splits
      dest!: mapping_next_left sequence_next_left)

function visited :: "'n node_env \<Rightarrow> heap \<Rightarrow> 'n container_iter option \<Rightarrow> 'n entry list" where
  "visited env h it =
     (case asdf_container_iter_next env h it of
        (None, h') \<Rightarrow> []
      | (Some s, h') \<Rightarrow> (ci_key s, ci_index s, ci_value s) # visited env h' (Some s))"
  by pat_completeness auto
termination
proof (relation "measure (\<lambda>(env, h, it). case it of None \<Rightarrow> 0 | Some i \<Rightarrow> sub_left (ci_sub i))", goal_cases)
  case (2 env h it p q s)
  then have n: "asdf_container_iter_next env h it = (Some s, q)" by simp
  then obtain i where i: "it = Some i" by (cases it) (auto simp: asdf_container_iter_next_def)
  show ?case using container_next_left [OF n [unfolded i]] by (simp add: i)
qed simp

declare visited.simps [simp del]

definition known :: "'n entry \<Rightarrow> bool" where
  "known e \<longleftrightarrow> snd (snd e) \<noteq> None"

lemma known_entry [simp]: "known (k, i, v) \<longleftrightarrow> v \<noteq> None"
  by (simp add: known_def)

lemma visited_pairs:
  assumes "v_raw_type c = ASDF_VALUE_MAPPING"
  shows "visited env [] (Some \<lparr>ci_key = a, ci_index = i, ci_value = b, ci_container = d, ci_sub = Mapping_sub (Some
      \<lparr>mi_key = a', mi_value = b', mi_mapping = c, mi_rest = ps, mi_reverse = False\<rparr>)\<rparr>) =
    takeWhile known (pair_entries env c (i + 1) ps)"
  using assms
proof (induction ps arbitrary: a b i a' b')
  case Nil
  then show ?case by (simp add: visited.simps asdf_container_iter_next_def asdf_mapping_iter_next_def)
next
  case (Cons p ps)
  obtain k n where p: "p = (k, n)" by (cases p)
  show ?case
    using Cons by (subst visited.simps)
      (auto simp: p asdf_container_iter_next_def mapping_next_cons split: option.splits)
qed

lemma visited_pairs_reverse:
  assumes "v_raw_type c = ASDF_VALUE_MAPPING"
  shows "visited env [] (Some \<lparr>ci_key = a, ci_index = int (length ps), ci_value = b, ci_container = d, ci_sub = Mapping_sub (Some
      \<lparr>mi_key = a', mi_value = b', mi_mapping = c, mi_rest = rev ps, mi_reverse = True\<rparr>)\<rparr>) =
    takeWhile known (rev (pair_entries env c 0 ps))"
  using assms
proof (induction ps arbitrary: a b a' b' rule: rev_induct)
  case Nil
  then show ?case by (simp add: visited.simps asdf_container_iter_next_def asdf_mapping_iter_next_def)
next
  case (snoc p ps)
  obtain k n where p: "p = (k, n)" by (cases p)
  show ?case
    using snoc by (subst visited.simps)
      (auto simp: p asdf_container_iter_next_def mapping_next_cons
        pair_entries_append split: option.splits)
qed

lemma visited_items:
  assumes "v_raw_type c = ASDF_VALUE_SEQUENCE"
  shows "visited env [] (Some \<lparr>ci_key = a, ci_index = j, ci_value = b, ci_container = d, ci_sub = Sequence_sub (Some
      \<lparr>si_value = b', si_index = i, si_sequence = c, si_rest = ns, si_reverse = False\<rparr>)\<rparr>) =
    takeWhile known (item_entries env c (i + 1) ns)"
  using assms
proof (induction ns arbitrary: a b i j b')
  case Nil
  then show ?case by (simp add: visited.simps asdf_container_iter_next_def asdf_sequence_iter_next_def)
next
  case (Cons n ns)
  then show ?case
    by (subst visited.simps)
      (auto simp: asdf_container_iter_next_def asdf_sequence_iter_next_def create_ex_no_heap Let_def split: option.splits)
qed

lemma visited_items_reverse:
  assumes "v_raw_type c = ASDF_VALUE_SEQUENCE"
  shows "visited env [] (Some \<lparr>ci_key = a, ci_index = j, ci_value = b, ci_container = d, ci_sub = Sequence_sub (Some
      \<lparr>si_value = b', si_index = int (length ns), si_sequence = c, si_rest = rev ns, si_reverse = True\<rparr>)\<rparr>) =
    takeWhile known (rev (item_entries env c 0 ns))"
  using assms
proof (induction ns arbitrary: a b j b' rule: rev_induct)
  case Nil
  then show ?case by (simp add: visited.simps asdf_container_iter_next_def asdf_sequence_iter_next_def)
next
  case (snoc n ns)
  then show ?case
    by (subst visited.simps)
      (auto simp: asdf_container_iter_next_def asdf_sequence_iter_next_def create_ex_no_heap Let_def
        item_entries_append split: option.splits)
qed

lemma visited_container:
  assumes "asdf_value_is_container c"
  shows "\<exists>it. asdf_container_iter_init_ex env [] (Some c) reverse = (Some it, []) \<and>
    visited env [] (Some it) = takeWhile known (in_order reverse (container_entries env c))"
proof (cases "v_raw_type c = ASDF_VALUE_MAPPING")
  case True
  then show ?thesis
    using visited_pairs [OF True] visited_pairs_reverse [OF True]
    by (cases reverse) (simp_all add: asdf_container_iter_init_ex_def asdf_value_is_container_def asdf_mapping_iter_init_ex_def
        in_order_def container_entries_def asdf_mapping_size_def asdf_value_is_mapping_def)
next
  case False
  then have s: "v_raw_type c = ASDF_VALUE_SEQUENCE" using assms by (simp add: asdf_value_is_container_def)
  then show ?thesis
    using visited_items [OF s] visited_items_reverse [OF s]
    by (cases reverse) (simp_all add: asdf_container_iter_init_ex_def asdf_value_is_container_def asdf_sequence_iter_init_ex_def
        in_order_def container_entries_def asdf_sequence_size_def asdf_value_is_sequence_def)
qed

text \<open>C27. Iterating over a mapping or a sequence returns its children in order, or in the reverse order, each with
  its key, its index and a value whose path extends the path of the container. It ends at the first
  child that is an alias libfyaml cannot resolve, in the same way as behind the last child.\<close>

theorem container_iteration:
  assumes "asdf_value_is_container c"
  shows "\<exists>it. asdf_container_iter_init_ex env [] (Some c) reverse = (Some it, []) \<and>
    visited env [] (Some it) = takeWhile known (in_order reverse (container_entries env c))"
  by (rule visited_container [OF assms])

text \<open>A mapping \<^verbatim>\<open>{a: x, b: *s}\<close> where the anchor is a sequence of three items, the second of which is an alias that
  does not resolve.\<close>

definition sample_nodes :: "nat node_env" where
  "sample_nodes = \<lparr>fy_node_get_type = (\<lambda>n. if n = 0 then FYNT_MAPPING else if n = 3 then FYNT_SEQUENCE else FYNT_SCALAR),
     fy_node_is_alias = (\<lambda>n. n = 2 \<or> n = 4), fy_node_resolve_alias = (\<lambda>n. if n = 2 then Some 3 else None),
     fy_node_pairs = (\<lambda>n. if n = 0 then [(10, 1), (11, 2)] else []), fy_node_items = (\<lambda>n. if n = 3 then [1, 4, 1] else []),
     fy_node_get_scalar0 = (\<lambda>n. if n = 10 then Some (bytes_of ''a'') else if n = 11 then Some (bytes_of ''b'') else Some (bytes_of ''x'')),
     fy_node_get_path = (\<lambda>n. None), fy_node_get_parent = (\<lambda>n. None), fy_node_is_attached = (\<lambda>n. n \<noteq> 0),
     fy_node_root = (\<lambda>n. Some 0), fy_node_copy = Some,
     fy_node_mapping_lookup_value_by_simple_key = (\<lambda>n k. None), fy_node_sequence_get_by_index = (\<lambda>n i. None)\<rparr>"

definition sample_root :: "nat asdf_value" where
  "sample_root = node_value sample_nodes 0 (Some [])"

definition sample_child :: "nat \<Rightarrow> bytes \<Rightarrow> nat asdf_value" where
  "sample_child n path = node_value sample_nodes n (Some path)"

lemma sample_root_container: "asdf_value_is_container sample_root"
  by (simp add: sample_root_def node_value_def sample_nodes_def asdf_value_is_container_def)

lemma sample_entries: "container_entries sample_nodes sample_root =
  [(Some (bytes_of ''a''), 0, Some (sample_child 1 (bytes_of ''/a''))), (Some (bytes_of ''b''), 1, Some (sample_child 3 (bytes_of ''/b'')))]"
  by (simp add: sample_root_def node_value_def sample_nodes_def container_entries_def child_value_def target_node_def
      child_key_def child_path_def path_suffix_def sample_child_def bytes_of_def)

theorem container_iteration_witness:
  "\<exists>it. asdf_container_iter_init_ex sample_nodes [] (Some sample_root) True = (Some it, []) \<and>
    visited sample_nodes [] (Some it) =
      [(Some (bytes_of ''b''), 1, Some (sample_child 3 (bytes_of ''/b''))), (Some (bytes_of ''a''), 0, Some (sample_child 1 (bytes_of ''/a'')))]"
  using container_iteration [OF sample_root_container, of sample_nodes True] by (simp add: sample_entries in_order_def)

end
