(* ===== verification/Asdf_Find_Laws.thy ===== *)
theory Asdf_Find_Laws
  imports Asdf_Find Asdf_Node_Laws
begin

text \<open>
  What the find iterator visits: the tree below the root, without the containers that it may not descend
  into, in preorder or level by level; and that every search ends when that tree is finite, in particular
  whenever the depth is bounded.
\<close>

section \<open>Trees\<close>

datatype 'a vtree = VNode (vroot: 'a) (vkids: "'a vtree list")

fun preorder :: "'a vtree \<Rightarrow> 'a list" where
  "preorder (VNode v ts) = v # concat (map preorder ts)"

lemma kids_smaller: "size_list size (concat (map vkids ts)) + 2 * length ts = size_list size ts"
proof (induction ts)
  case (Cons t ts)
  then show ?case by (cases t) simp
qed simp

function breadth :: "'a vtree list \<Rightarrow> 'a list" where
  "breadth ts = (if ts = [] then [] else map vroot ts @ breadth (concat (map vkids ts)))"
  by pat_completeness auto
termination
proof (relation "measure (size_list size)")
  fix ts :: "'a vtree list" assume "ts \<noteq> []"
  then show "(concat (map vkids ts), ts) \<in> measure (size_list size)"
    using kids_smaller [of ts] by (cases ts) auto
qed simp

declare breadth.simps [simp del]

lemma breadth_Nil [simp]: "breadth [] = []"
  by (simp add: breadth.simps)

lemma breadth_unfold: "breadth ts = map vroot ts @ breadth (concat (map vkids ts))"
  by (cases "ts = []") (simp_all add: breadth.simps)

lemma breadth_append: "breadth (xs @ ys) = map vroot xs @ breadth (ys @ concat (map vkids xs))"
proof (induction "size_list size (xs @ ys)" arbitrary: xs ys rule: less_induct)
  case less
  show ?case
  proof (cases "xs @ ys = []")
    case False
    have e: "size_list size (concat (map vkids (xs @ ys))) < size_list size (xs @ ys)"
      using kids_smaller [of "xs @ ys"] False by (cases "xs @ ys") auto
    have "breadth (concat (map vkids xs) @ concat (map vkids ys)) =
        map vroot (concat (map vkids xs)) @ breadth (concat (map vkids ys) @ concat (map vkids (concat (map vkids xs))))"
      using e by (intro less) simp
    then show ?thesis
      using breadth_unfold [of "xs @ ys"] breadth_unfold [of "ys @ concat (map vkids xs)"] by simp
  qed simp
qed

lemma breadth_Cons: "breadth (t # ts) = vroot t # breadth (ts @ vkids t)"
  using breadth_append [of "[t]" ts] by simp

section \<open>What is to be visited\<close>

definition coming :: "'n node_env \<Rightarrow> 'n container_iter option \<Rightarrow> 'n asdf_value list" where
  "coming env it = map (\<lambda>e. the (snd (snd e))) (visited env [] it)"

definition children_of :: "'n node_env \<Rightarrow> 'n asdf_value \<Rightarrow> 'n asdf_value list" where
  "children_of env c =
     (if asdf_value_is_container c then map (\<lambda>e. the (snd (snd e))) (takeWhile known (container_entries env c)) else [])"

definition admitted :: "int \<Rightarrow> 'n value_pred option \<Rightarrow> int \<Rightarrow> 'n asdf_value \<Rightarrow> bool" where
  "admitted md dp d c \<longleftrightarrow> \<not> (md \<ge> 0 \<and> d > md) \<and> (case dp of None \<Rightarrow> True | Some p \<Rightarrow> p c)"

text \<open>The argument \<open>g\<close> is what is pushed for a container: itself, or its copy.\<close>

type_synonym 'n pushed = "'n asdf_value \<Rightarrow> 'n asdf_value option"

definition kept :: "'n pushed \<Rightarrow> int \<Rightarrow> 'n value_pred option \<Rightarrow> int \<Rightarrow> 'n asdf_value \<Rightarrow> bool" where
  "kept g md dp d v \<longleftrightarrow> (asdf_value_is_container v \<longrightarrow> (case g v of None \<Rightarrow> False | Some c \<Rightarrow> admitted md dp d c))"

definition pushable :: "'n pushed \<Rightarrow> 'n asdf_value list \<Rightarrow> bool" where
  "pushable g vs \<longleftrightarrow> (\<forall>v\<in>set vs. asdf_value_is_container v \<longrightarrow> g v \<noteq> None)"

fun explored :: "'n node_env \<Rightarrow> 'n pushed \<Rightarrow> int \<Rightarrow> 'n value_pred option \<Rightarrow> int \<Rightarrow> 'n asdf_value vtree \<Rightarrow> bool" where
  "explored env g md dp d (VNode v us) \<longleftrightarrow>
     (if asdf_value_is_container v
      then (case g v of
              None \<Rightarrow> False
            | Some c \<Rightarrow> map vroot us = filter (kept g md dp (d + 1)) (children_of env c) \<and> pushable g (children_of env c))
      else us = []) \<and>
     (\<forall>u\<in>set us. explored env g md dp (d + 1) u)"

definition frame_rel ::
  "'n node_env \<Rightarrow> 'n pushed \<Rightarrow> int \<Rightarrow> 'n value_pred option \<Rightarrow> 'n find_frame \<Rightarrow> 'n asdf_value vtree list \<Rightarrow> bool" where
  "frame_rel env g md dp f ts \<longleftrightarrow>
     map vroot ts = filter (kept g md dp (ff_depth f + 1)) (coming env (ff_iter f)) \<and>
     pushable g (coming env (ff_iter f)) \<and> (\<forall>t\<in>set ts. explored env g md dp (ff_depth f + 1) t)"

section \<open>Iterators of frames\<close>

lemma next_no_heap: "snd (asdf_container_iter_next env [] it) = []"
proof -
  have c: "snd (asdf_value_create_ex env [] n (Some p) k i) = []" for n p k i
    by (simp add: create_ex_no_heap)
  have m: "snd (asdf_mapping_iter_next env [] m) = []" for m
    using c by (auto simp: asdf_mapping_iter_next_def Let_def split: option.splits list.splits prod.splits) (metis snd_conv)+
  have s: "snd (asdf_sequence_iter_next env [] m) = []" for m
    using c by (auto simp: asdf_sequence_iter_next_def Let_def split: option.splits list.splits prod.splits) (metis snd_conv)+
  show ?thesis
    by (auto simp: asdf_container_iter_next_def split: option.splits sub_iter.splits prod.splits) (metis m s snd_conv)+
qed

lemma next_value: "asdf_container_iter_next env h it = (Some s, h') \<Longrightarrow> \<exists>v. ci_value s = Some v"
  by (auto simp: asdf_container_iter_next_def asdf_mapping_iter_next_def asdf_sequence_iter_next_def Let_def
      split: option.splits sub_iter.splits prod.splits list.splits if_splits)

lemma coming_Nil: "coming env it = [] \<Longrightarrow> asdf_container_iter_next env [] it = (None, [])"
  using next_no_heap [of env it]
  by (cases "asdf_container_iter_next env [] it") (auto simp: coming_def visited.simps [of env _ it] split: option.splits)

lemma coming_Cons:
  assumes "coming env it = v # vs"
  shows "\<exists>s. asdf_container_iter_next env [] it = (Some s, []) \<and> ci_value s = Some v \<and> coming env (Some s) = vs"
  using assms next_no_heap [of env it] next_value [of env "[]" it]
  by (cases "asdf_container_iter_next env [] it") (fastforce simp: coming_def visited.simps [of env _ it] split: option.splits)

lemma coming_None [simp]: "coming env None = []"
  by (simp add: coming_def visited.simps asdf_container_iter_next_def)

lemma init_coming:
  "\<exists>it. asdf_container_iter_init env [] (Some c) = (it, []) \<and> coming env it = children_of env c"
proof (cases "asdf_value_is_container c")
  case True
  then show ?thesis
    using visited_container [OF True, of env False]
    by (auto simp: asdf_container_iter_init_def coming_def children_of_def in_order_def)
next
  case False
  then show ?thesis by (simp add: asdf_container_iter_init_def asdf_container_iter_init_ex_def children_of_def)
qed

lemma copy_no_heap: "snd (asdf_value_copy env [] (Some v)) = []"
  by (auto simp: asdf_value_copy_def asdf_value_copy_shallow_def asdf_value_copy_impl_def dup_def copied_path_def Let_def
      split: option.splits prod.splits)

lemma push_no_heap:
  assumes "fi_frames it \<noteq> []"
  shows "asdf_find_iter_push_frame env [] it (Some c) d =
    (if admitted (fi_max_depth it) (fi_descend it) d c
     then Some (True, it\<lparr>fi_frames := fi_frames it @
        [\<lparr>ff_container = c, ff_owns_container = False, ff_visited = False, ff_is_mapping = (v_raw_type c = ASDF_VALUE_MAPPING),
          ff_depth = d, ff_iter = fst (asdf_container_iter_init env [] (Some c))\<rparr>],
        fi_frame_cap := (if length (fi_frames it) = fi_frame_cap it then 2 * fi_frame_cap it else fi_frame_cap it)\<rparr>, [])
     else Some (False, it, []))"
  using assms init_coming [of env c]
  by (auto simp: asdf_find_iter_push_frame_def admitted_def Let_def split: option.splits)

section \<open>What a strategy promises\<close>

text \<open>A strategy relates an iterator to the list of what it has still to visit. A step visits the head of the
  list, or visits nothing and gets closer to the next visit.\<close>

definition fresh_frames :: "'n find_iter \<Rightarrow> nat" where
  "fresh_frames it = length (filter (\<lambda>f. \<not> ff_visited f) (fi_frames it))"

definition frame_work :: "'n node_env \<Rightarrow> 'n find_frame \<Rightarrow> nat" where
  "frame_work env f = length (coming env (ff_iter f)) + (if ff_visited f then 1 else 2)"

definition find_rank :: "'n node_env \<Rightarrow> 'n find_iter \<Rightarrow> 'n asdf_value list \<Rightarrow> nat \<times> nat" where
  "find_rank env it vs = (length vs - fresh_frames it, sum_list (map (frame_work env) (fi_frames it)))"

abbreviation rank_less :: "((nat \<times> nat) \<times> (nat \<times> nat)) set" where
  "rank_less \<equiv> less_than <*lex*> less_than"

definition rest_after :: "'n value_pred option \<Rightarrow> 'n asdf_value list \<Rightarrow> 'n asdf_value list" where
  "rest_after p vs = tl (dropWhile (\<lambda>v. \<not> matches p v) vs)"

lemma filter_rest:
  "filter (matches p) vs = v # ws \<Longrightarrow> filter (matches p) (rest_after p vs) = ws"
  by (induction vs) (auto simp: rest_after_def split: if_splits)

text \<open>The loop of a client that takes every match: \<^verbatim>\<open>while (asdf_value_find_iter_next(&iter)) ...\<close>.\<close>

definition find_all_step ::
  "'n node_env \<Rightarrow> 'n find_iter option \<times> heap \<times> 'n asdf_value list \<Rightarrow>
   ('n find_iter option \<times> heap \<times> 'n asdf_value list + 'n asdf_value list) option" where
  "find_all_step env = (\<lambda>(iter, h, found). do {
       (iter, h) \<leftarrow> asdf_value_find_iter_next env h iter;
       (case iter of None \<Rightarrow> Some (Inr found) | Some it \<Rightarrow> Some (Inl (iter, h, found @ [the (fi_value it)])))
     })"

definition find_all :: "'n node_env \<Rightarrow> 'n find_iter option \<Rightarrow> 'n asdf_value list option" where
  "find_all env iter = loop_opt (find_all_step env) (iter, [], [])"

locale find_strategy =
  fixes env :: "'n node_env" and pend :: "'n find_iter \<Rightarrow> 'n asdf_value list \<Rightarrow> bool"
  assumes step: "pend it vs \<Longrightarrow> fi_frames it \<noteq> [] \<Longrightarrow>
      \<exists>cur it' ws. asdf_find_iter_step env [] it = Some (cur, it', []) \<and> fi_pred it' = fi_pred it \<and> pend it' ws \<and>
        (find_rank env it' ws, find_rank env it vs) \<in> rank_less \<and>
        vs = (case cur of None \<Rightarrow> ws | Some v \<Rightarrow> v # ws)"
    and finished: "pend it vs \<Longrightarrow> fi_frames it = [] \<Longrightarrow> vs = []"
    and value_free: "pend it vs \<Longrightarrow> pend (it\<lparr>fi_value := x\<rparr>) vs"
begin

lemma next_loop:
  assumes "pend it vs"
  shows "\<exists>r. loop_opt (find_next_step env) (it, []) = Some (r, []) \<and>
    (case filter (matches (fi_pred it)) vs of
       [] \<Rightarrow> r = None
     | v # _ \<Rightarrow> \<exists>it'. r = Some it' \<and> fi_value it' = Some v \<and> fi_pred it' = fi_pred it \<and> pend it' (rest_after (fi_pred it) vs))"
  using assms
proof (induction "find_rank env it vs" arbitrary: it vs rule: wf_induct_rule [OF wf_lex_prod [OF wf_less_than wf_less_than]])
  case 1
  show ?case
  proof (cases "fi_frames it = []")
    case True
    then have "find_next_step env (it, []) = Some (Inr (None, []))" by (simp add: find_next_step_def)
    with finished [OF 1(2) True] show ?thesis by (simp add: loop_opt_Inr)
  next
    case False
    obtain cur it' ws where s: "asdf_find_iter_step env [] it = Some (cur, it', [])" "fi_pred it' = fi_pred it" "pend it' ws"
        "(find_rank env it' ws, find_rank env it vs) \<in> rank_less" "vs = (case cur of None \<Rightarrow> ws | Some v \<Rightarrow> v # ws)"
      using step [OF 1(2) False] by blast
    show ?thesis
    proof (cases "\<exists>v. cur = Some v \<and> matches (fi_pred it) v")
      case True
      then obtain v where v: "cur = Some v" "matches (fi_pred it) v" by blast
      have "find_next_step env (it, []) = Some (Inr (Some (it'\<lparr>fi_value := Some v\<rparr>), []))"
        using False s v by (simp add: find_next_step_def)
      then show ?thesis
        using s v value_free [OF s(3)] by (simp add: loop_opt_Inr rest_after_def)
    next
      case no: False
      have "find_next_step env (it, []) = Some (Inl (it', []))"
        using False s no by (auto simp: find_next_step_def split: option.splits)
      then have l: "loop_opt (find_next_step env) (it, []) = loop_opt (find_next_step env) (it', [])" by (rule loop_opt_Inl)
      have "filter (matches (fi_pred it)) vs = filter (matches (fi_pred it')) ws" "rest_after (fi_pred it) vs = rest_after (fi_pred it') ws"
        using s no by (auto simp: rest_after_def split: option.splits)
      then show ?thesis using 1(1) [OF s(4) s(3)] s(2) l by (simp cong: list.case_cong)
    qed
  qed
qed

lemma next_found:
  assumes "pend it vs"
  shows "\<exists>r. asdf_value_find_iter_next env [] (Some it) = Some (r, []) \<and>
    (case filter (matches (fi_pred it)) vs of
       [] \<Rightarrow> r = None
     | v # _ \<Rightarrow> \<exists>it'. r = Some it' \<and> fi_value it' = Some v \<and> fi_pred it' = fi_pred it \<and> pend it' (rest_after (fi_pred it) vs))"
  using next_loop [OF value_free [OF assms, of None]] by (simp add: asdf_value_find_iter_next_def cong: list.case_cong)

lemma all_found:
  assumes "pend it vs"
  shows "find_all env (Some it) = Some (filter (matches (fi_pred it)) vs)"
proof -
  have "loop_opt (find_all_step env) (Some it, [], found) = Some (found @ filter (matches (fi_pred it)) vs)" for found
    using assms
  proof (induction "filter (matches (fi_pred it)) vs" arbitrary: it vs found)
    case Nil
    then have "find_all_step env (Some it, [], found) = Some (Inr found)" using next_found [OF Nil(2)] by (auto simp: find_all_step_def)
    then have "loop_opt (find_all_step env) (Some it, [], found) = Some found" by (rule loop_opt_Inr)
    then show ?case using Nil(1) by simp
  next
    case (Cons v ws)
    obtain it' where n: "asdf_value_find_iter_next env [] (Some it) = Some (Some it', [])" "fi_value it' = Some v"
        "fi_pred it' = fi_pred it" "pend it' (rest_after (fi_pred it) vs)"
      using next_found [OF Cons(3)] by (auto simp flip: Cons(2))
    have "find_all_step env (Some it, [], found) = Some (Inl (Some it', [], found @ [v]))" using n by (simp add: find_all_step_def)
    then have "loop_opt (find_all_step env) (Some it, [], found) = loop_opt (find_all_step env) (Some it', [], found @ [v])"
      by (rule loop_opt_Inl)
    then show ?case
      using Cons(1) [OF _ n(4), of "found @ [v]"] filter_rest [OF Cons(2) [symmetric]] n(3) by (simp flip: Cons(2))
  qed
  from this [of "[]"] show ?thesis by (simp add: find_all_def)
qed

end

section \<open>The two strategies\<close>

lemma frame_rel_mark [simp]:
  "frame_rel env g md dp (mark_visited f) ts \<longleftrightarrow> frame_rel env g md dp f ts"
  "frame_rel env g md dp (f\<lparr>ff_visited := b, ff_owns_container := c\<rparr>) ts \<longleftrightarrow> frame_rel env g md dp f ts"
  by (simp_all add: frame_rel_def mark_visited_def)

lemma visited_marked [simp]: "ff_visited (mark_visited f)"
  by (simp add: mark_visited_def)

lemma frame_rel_end: "coming env (ff_iter f) = [] \<Longrightarrow> frame_rel env g md dp f ts \<Longrightarrow> ts = []"
  by (simp add: frame_rel_def)

lemma frame_rel_skip:
  "coming env (ff_iter f) = v # coming env it \<Longrightarrow> \<not> kept g md dp (ff_depth f + 1) v \<Longrightarrow> frame_rel env g md dp f ts \<Longrightarrow>
   frame_rel env g md dp (f\<lparr>ff_iter := it\<rparr>) ts"
  by (simp add: frame_rel_def pushable_def)

lemma frame_rel_take:
  "coming env (ff_iter f) = v # coming env it \<Longrightarrow> kept g md dp (ff_depth f + 1) v \<Longrightarrow> frame_rel env g md dp f ts \<Longrightarrow>
   \<exists>us ts'. ts = VNode v us # ts' \<and> explored env g md dp (ff_depth f + 1) (VNode v us) \<and> frame_rel env g md dp (f\<lparr>ff_iter := it\<rparr>) ts'"
  unfolding frame_rel_def pushable_def
  by (cases ts; cases "hd ts") (auto simp del: explored.simps)

definition new_frame :: "'n node_env \<Rightarrow> 'n asdf_value \<Rightarrow> int \<Rightarrow> 'n find_frame" where
  "new_frame env c d = \<lparr>ff_container = c, ff_owns_container = False, ff_visited = False,
     ff_is_mapping = (v_raw_type c = ASDF_VALUE_MAPPING), ff_depth = d, ff_iter = fst (asdf_container_iter_init env [] (Some c))\<rparr>"

lemma new_frame_fields [simp]:
  "ff_container (new_frame env c d) = c" "\<not> ff_visited (new_frame env c d)" "ff_depth (new_frame env c d) = d"
  by (simp_all add: new_frame_def)

lemma coming_new_frame [simp]: "coming env (ff_iter (new_frame env c d)) = children_of env c"
  using init_coming [of env c] by (auto simp: new_frame_def)

lemma frame_rel_new:
  "explored env g md dp d (VNode v us) \<Longrightarrow> asdf_value_is_container v \<Longrightarrow> g v = Some c \<Longrightarrow>
   frame_rel env g md dp (new_frame env c d) us"
  by (simp add: frame_rel_def)

lemma pushable_head: "frame_rel env g md dp f ts \<Longrightarrow> coming env (ff_iter f) = v # vs \<Longrightarrow> asdf_value_is_container v \<Longrightarrow> \<exists>c. g v = Some c"
  by (auto simp: frame_rel_def pushable_def)

text \<open>Depth first: the frames from the last to the first, each with the trees below it that are left.\<close>

definition first_visit :: "'n find_frame list \<Rightarrow> 'n asdf_value list" where
  "first_visit fs = (if fs \<noteq> [] \<and> \<not> ff_visited (last fs) then [ff_container (last fs)] else [])"

definition dfs_pend ::
  "'n node_env \<Rightarrow> int \<Rightarrow> 'n value_pred option \<Rightarrow> 'n find_iter \<Rightarrow> 'n asdf_value list \<Rightarrow> bool" where
  "dfs_pend env md dp it vs \<longleftrightarrow>
     fi_depth_first it \<and> fi_max_depth it = md \<and> fi_descend it = dp \<and> (\<forall>f\<in>set (butlast (fi_frames it)). ff_visited f) \<and>
     (\<exists>tss. list_all2 (frame_rel env Some md dp) (fi_frames it) tss \<and>
        vs = first_visit (fi_frames it) @ concat (map preorder (concat (rev tss))))"

lemma dfs_pendI:
  assumes "fi_depth_first it" and "fi_max_depth it = md" and "fi_descend it = dp" and "fi_frames it = fs @ [f]"
    and "\<forall>f\<in>set fs. ff_visited f" and "list_all2 (frame_rel env Some md dp) fs tss" and "frame_rel env Some md dp f ts"
    and "vs = (if ff_visited f then [] else [ff_container f]) @ concat (map preorder ts) @ concat (map preorder (concat (rev tss)))"
  shows "dfs_pend env md dp it vs"
  using assms unfolding dfs_pend_def first_visit_def
  by (intro conjI exI [of _ "tss @ [ts]"]) (auto intro: list_all2_appendI)

lemma no_fresh: "\<forall>f\<in>set fs. ff_visited f \<Longrightarrow> filter (\<lambda>f. \<not> ff_visited f) fs = []"
  by (simp add: filter_empty_conv)

lemma dfs_step:
  assumes "dfs_pend env md dp it vs" and "fi_frames it \<noteq> []"
  shows "\<exists>cur it' ws. asdf_find_iter_step env [] it = Some (cur, it', []) \<and> fi_pred it' = fi_pred it \<and> dfs_pend env md dp it' ws \<and>
        (find_rank env it' ws, find_rank env it vs) \<in> rank_less \<and> vs = (case cur of None \<Rightarrow> ws | Some v \<Rightarrow> v # ws)"
proof -
  obtain fs f where fs: "fi_frames it = fs @ [f]" using assms(2) by (cases "fi_frames it" rule: rev_cases) auto
  obtain tss ts where i: "fi_depth_first it" "fi_max_depth it = md" "fi_descend it = dp" "\<forall>f\<in>set fs. ff_visited f"
      "list_all2 (frame_rel env Some md dp) fs tss" "frame_rel env Some md dp f ts"
      and vs: "vs = (if ff_visited f then [] else [ff_container f]) @ concat (map preorder ts) @ concat (map preorder (concat (rev tss)))"
    using assms(1) by (auto simp: dfs_pend_def fs first_visit_def list_all2_append1 list_all2_Cons1)
  note rank = find_rank_def fresh_frames_def frame_work_def fs no_fresh [OF i(4)]
  note run = asdf_find_iter_step_def asdf_find_iter_next_dfs_def fs i(1)
  show ?thesis
  proof (cases "ff_visited f")
    case False
    let ?it = "it\<lparr>fi_frames := fs @ [mark_visited f]\<rparr>"
    let ?ws = "concat (map preorder ts) @ concat (map preorder (concat (rev tss)))"
    have "asdf_find_iter_step env [] it = Some (Some (ff_container f), ?it, [])" by (simp add: run False)
    moreover have "dfs_pend env md dp ?it ?ws"
      using i by (intro dfs_pendI [of _ _ _ fs "mark_visited f"]) auto
    moreover have "(find_rank env ?it ?ws, find_rank env it vs) \<in> rank_less"
      using False by (simp add: rank vs mark_visited_def)
    ultimately show ?thesis using False vs by fastforce
  next
    case visited: True
    show ?thesis
    proof (cases "coming env (ff_iter f)")
      case Nil
      let ?it = "it\<lparr>fi_frames := fs\<rparr>"
      have ts: "ts = []" by (rule frame_rel_end [OF Nil i(6)])
      have "asdf_find_iter_step env [] it = Some (None, ?it, [])"
        by (simp add: run visited coming_Nil [OF Nil] asdf_find_iter_pop_frame_def)
      moreover have "dfs_pend env md dp ?it vs"
        using i vs visited ts unfolding dfs_pend_def first_visit_def by (auto dest: in_set_butlastD)
      moreover have "(find_rank env ?it vs, find_rank env it vs) \<in> rank_less" using visited by (simp add: rank)
      ultimately show ?thesis by fastforce
    next
      case (Cons v cs)
      obtain s where s: "asdf_container_iter_next env [] (ff_iter f) = (Some s, [])" "ci_value s = Some v" "coming env (Some s) = cs"
        using coming_Cons [OF Cons] by blast
      note more = Cons [folded s(3)]
      let ?f = "f\<lparr>ff_iter := Some s\<rparr>"
      show ?thesis
      proof (cases "kept Some md dp (ff_depth f + 1) v")
        case False
        then have c: "asdf_value_is_container v" "\<not> admitted md dp (ff_depth f + 1) v" by (auto simp: kept_def)
        let ?it = "it\<lparr>fi_frames := fs @ [?f]\<rparr>"
        have "asdf_find_iter_step env [] it = Some (None, ?it, [])"
          using c i(2,3) by (simp add: run visited s push_no_heap)
        moreover have "dfs_pend env md dp ?it vs"
          using i vs visited frame_rel_skip [OF more False i(6)] by (intro dfs_pendI [of _ _ _ fs ?f]) auto
        moreover have "(find_rank env ?it vs, find_rank env it vs) \<in> rank_less" using visited more by (simp add: rank)
        ultimately show ?thesis by fastforce
      next
        case True
        obtain us ts' where t: "ts = VNode v us # ts'" "explored env Some md dp (ff_depth f + 1) (VNode v us)" "frame_rel env Some md dp ?f ts'"
          using frame_rel_take [OF more True i(6)] by blast
        show ?thesis
        proof (cases "asdf_value_is_container v")
          case False
          let ?it = "it\<lparr>fi_frames := fs @ [?f]\<rparr>"
          let ?ws = "concat (map preorder ts') @ concat (map preorder (concat (rev tss)))"
          have u: "us = []" using t(2) False by simp
          have "asdf_find_iter_step env [] it = Some (Some v, ?it, [])" using False by (simp add: run visited s)
          moreover have "dfs_pend env md dp ?it ?ws" using i visited t(3) by (intro dfs_pendI [of _ _ _ fs ?f]) auto
          moreover have "(find_rank env ?it ?ws, find_rank env it vs) \<in> rank_less" using visited vs t(1) u by (simp add: rank)
          ultimately show ?thesis using vs visited t(1) u by fastforce
        next
          case c: True
          have a: "admitted md dp (ff_depth f + 1) v" using True c by (simp add: kept_def)
          let ?n = "new_frame env v (ff_depth f + 1)"
          obtain cap where p: "asdf_find_iter_push_frame env [] (it\<lparr>fi_frames := fs @ [?f]\<rparr>) (Some v) (ff_depth f + 1) =
              Some (True, it\<lparr>fi_frames := (fs @ [?f]) @ [?n], fi_frame_cap := cap\<rparr>, [])"
            using a i(2,3) by (auto simp: push_no_heap new_frame_def)
          let ?it = "it\<lparr>fi_frames := (fs @ [?f]) @ [?n], fi_frame_cap := cap\<rparr>"
          have "asdf_find_iter_step env [] it = Some (None, ?it, [])" using c p by (simp add: run visited s)
          moreover have "dfs_pend env md dp ?it vs"
            using i visited t(1,3) vs frame_rel_new [OF t(2) c refl]
            by (intro dfs_pendI [of _ _ _ "fs @ [?f]" ?n _ "tss @ [ts']" us]) (auto intro: list_all2_appendI)
          moreover have "(find_rank env ?it vs, find_rank env it vs) \<in> rank_less" using visited vs t(1) by (simp add: rank)
          ultimately show ?thesis by fastforce
        qed
      qed
    qed
  qed
qed

interpretation dfs: find_strategy env "dfs_pend env md dp" for env md dp
proof
  show "vs = []" if "dfs_pend env md dp it vs" "fi_frames it = []" for it vs
    using that by (auto simp: dfs_pend_def first_visit_def)
  show "dfs_pend env md dp (it\<lparr>fi_value := x\<rparr>) vs" if "dfs_pend env md dp it vs" for it vs x
    using that by (simp add: dfs_pend_def)
qed (rule dfs_step)

text \<open>Breadth first: the frames in order; a container is pushed as a copy when it is visited.\<close>

definition copied :: "'n node_env \<Rightarrow> 'n pushed" where
  "copied env v = fst (asdf_value_copy env [] (Some v))"

lemma copy_result: "asdf_value_copy env [] (Some v) = (copied env v, [])"
  using copy_no_heap [of env v] by (cases "asdf_value_copy env [] (Some v)") (simp add: copied_def)

definition bfs_pend ::
  "'n node_env \<Rightarrow> int \<Rightarrow> 'n value_pred option \<Rightarrow> 'n find_iter \<Rightarrow> 'n asdf_value list \<Rightarrow> bool" where
  "bfs_pend env md dp it vs \<longleftrightarrow>
     \<not> fi_depth_first it \<and> fi_max_depth it = md \<and> fi_descend it = dp \<and> (\<forall>f\<in>set (tl (fi_frames it)). ff_visited f) \<and>
     (\<exists>tss. list_all2 (frame_rel env (copied env) md dp) (fi_frames it) tss \<and>
        vs = first_visit (take 1 (fi_frames it)) @ breadth (concat tss))"

lemma bfs_pendI:
  assumes "\<not> fi_depth_first it" and "fi_max_depth it = md" and "fi_descend it = dp" and "fi_frames it = f # fs"
    and "\<forall>f\<in>set fs. ff_visited f" and "list_all2 (frame_rel env (copied env) md dp) fs tss" and "frame_rel env (copied env) md dp f ts"
    and "vs = (if ff_visited f then [] else [ff_container f]) @ breadth (ts @ concat tss)"
  shows "bfs_pend env md dp it vs"
  using assms unfolding bfs_pend_def first_visit_def
  by (intro conjI exI [of _ "ts # tss"]) auto

lemma bfs_step:
  assumes "bfs_pend env md dp it vs" and "fi_frames it \<noteq> []"
  shows "\<exists>cur it' ws. asdf_find_iter_step env [] it = Some (cur, it', []) \<and> fi_pred it' = fi_pred it \<and> bfs_pend env md dp it' ws \<and>
        (find_rank env it' ws, find_rank env it vs) \<in> rank_less \<and> vs = (case cur of None \<Rightarrow> ws | Some v \<Rightarrow> v # ws)"
proof -
  obtain f fs where fs: "fi_frames it = f # fs" using assms(2) by (cases "fi_frames it") auto
  obtain tss ts where i: "\<not> fi_depth_first it" "fi_max_depth it = md" "fi_descend it = dp" "\<forall>f\<in>set fs. ff_visited f"
      "list_all2 (frame_rel env (copied env) md dp) fs tss" "frame_rel env (copied env) md dp f ts"
      and vs: "vs = (if ff_visited f then [] else [ff_container f]) @ breadth (ts @ concat tss)"
    using assms(1) by (auto simp: bfs_pend_def fs first_visit_def list_all2_Cons1)
  note rank = find_rank_def fresh_frames_def frame_work_def fs no_fresh [OF i(4)]
  note run = asdf_find_iter_step_def asdf_find_iter_next_bfs_def fs i(1)
  show ?thesis
  proof (cases "ff_visited f")
    case False
    let ?it = "it\<lparr>fi_frames := mark_visited f # fs\<rparr>"
    let ?ws = "breadth (ts @ concat tss)"
    have "asdf_find_iter_step env [] it = Some (Some (ff_container f), ?it, [])" by (simp add: run False)
    moreover have "bfs_pend env md dp ?it ?ws" using i by (intro bfs_pendI [of _ _ _ "mark_visited f" fs]) auto
    moreover have "(find_rank env ?it ?ws, find_rank env it vs) \<in> rank_less" using False by (simp add: rank vs mark_visited_def)
    ultimately show ?thesis using False vs by fastforce
  next
    case visited: True
    show ?thesis
    proof (cases "coming env (ff_iter f)")
      case Nil
      let ?it = "it\<lparr>fi_frames := fs\<rparr>"
      have ts: "ts = []" by (rule frame_rel_end [OF Nil i(6)])
      have "asdf_find_iter_step env [] it = Some (None, ?it, [])"
        by (simp add: run visited coming_Nil [OF Nil] asdf_find_iter_pop_frame_def)
      moreover have "bfs_pend env md dp ?it vs"
        using i vs visited ts unfolding bfs_pend_def first_visit_def by (cases fs) auto
      moreover have "(find_rank env ?it vs, find_rank env it vs) \<in> rank_less" using visited by (simp add: rank)
      ultimately show ?thesis by fastforce
    next
      case (Cons v cs)
      obtain s where s: "asdf_container_iter_next env [] (ff_iter f) = (Some s, [])" "ci_value s = Some v" "coming env (Some s) = cs"
        using coming_Cons [OF Cons] by blast
      note more = Cons [folded s(3)]
      let ?f = "f\<lparr>ff_iter := Some s\<rparr>"
      show ?thesis
      proof (cases "kept (copied env) md dp (ff_depth f + 1) v")
        case False
        then have c: "asdf_value_is_container v" by (auto simp: kept_def)
        then obtain w where w: "copied env v = Some w" using pushable_head [OF i(6) Cons] by blast
        then have a: "\<not> admitted md dp (ff_depth f + 1) w" using False by (auto simp: kept_def)
        let ?it = "it\<lparr>fi_frames := ?f # fs\<rparr>"
        have "asdf_find_iter_step env [] it = Some (None, ?it, [])"
          using c a i(2,3) by (simp add: run visited s push_no_heap copy_result w)
        moreover have "bfs_pend env md dp ?it vs"
          using i vs visited frame_rel_skip [OF more False i(6)] by (intro bfs_pendI [of _ _ _ ?f fs]) auto
        moreover have "(find_rank env ?it vs, find_rank env it vs) \<in> rank_less" using visited more by (simp add: rank)
        ultimately show ?thesis by fastforce
      next
        case True
        obtain us ts' where t: "ts = VNode v us # ts'" "explored env (copied env) md dp (ff_depth f + 1) (VNode v us)"
            "frame_rel env (copied env) md dp ?f ts'"
          using frame_rel_take [OF more True i(6)] by blast
        have vs': "vs = v # breadth (ts' @ concat tss @ us)" using vs visited t(1) by (simp add: breadth_Cons)
        show ?thesis
        proof (cases "asdf_value_is_container v")
          case False
          let ?it = "it\<lparr>fi_frames := ?f # fs\<rparr>"
          have u: "us = []" using t(2) False by simp
          have "asdf_find_iter_step env [] it = Some (Some v, ?it, [])" using False by (simp add: run visited s)
          moreover have "bfs_pend env md dp ?it (breadth (ts' @ concat tss))"
            using i visited t(3) by (intro bfs_pendI [of _ _ _ ?f fs]) auto
          moreover have "(find_rank env ?it (breadth (ts' @ concat tss)), find_rank env it vs) \<in> rank_less"
            using visited vs' u by (simp add: rank)
          ultimately show ?thesis using vs' u by fastforce
        next
          case c: True
          obtain w where w: "copied env v = Some w" "admitted md dp (ff_depth f + 1) w"
            using True c by (auto simp: kept_def split: option.splits)
          let ?n = "(new_frame env w (ff_depth f + 1))\<lparr>ff_visited := True, ff_owns_container := True\<rparr>"
          obtain cap where p: "asdf_find_iter_push_frame env [] (it\<lparr>fi_frames := ?f # fs\<rparr>) (Some w) (ff_depth f + 1) =
              Some (True, it\<lparr>fi_frames := (?f # fs) @ [new_frame env w (ff_depth f + 1)], fi_frame_cap := cap\<rparr>, [])"
            using w i(2,3) by (auto simp: push_no_heap new_frame_def)
          let ?it = "it\<lparr>fi_frames := ?f # fs @ [?n], fi_frame_cap := cap\<rparr>"
          have "asdf_find_iter_step env [] it = Some (Some v, ?it, [])" using c p by (simp add: run visited s copy_result w)
          moreover have "bfs_pend env md dp ?it (breadth (ts' @ concat tss @ us))"
            using i visited t(3) frame_rel_new [OF t(2) c w(1)]
            by (intro bfs_pendI [of _ _ _ ?f "fs @ [?n]" _ "tss @ [us]" ts']) (auto intro: list_all2_appendI)
          moreover have "(find_rank env ?it (breadth (ts' @ concat tss @ us)), find_rank env it vs) \<in> rank_less"
            using visited vs' by (simp add: rank)
          ultimately show ?thesis using vs' by fastforce
        qed
      qed
    qed
  qed
qed

interpretation bfs: find_strategy env "bfs_pend env md dp" for env md dp
proof
  show "vs = []" if "bfs_pend env md dp it vs" "fi_frames it = []" for it vs
    using that by (auto simp: bfs_pend_def first_visit_def)
  show "bfs_pend env md dp (it\<lparr>fi_value := x\<rparr>) vs" if "bfs_pend env md dp it vs" for it vs x
    using that by (simp add: bfs_pend_def)
qed (rule bfs_step)

section \<open>Searches\<close>

text \<open>The tree that a search explores: the root, whose children are those of the container itself, and below it
  what is not refused.\<close>

definition pushed_as :: "'n node_env \<Rightarrow> bool \<Rightarrow> 'n pushed" where
  "pushed_as env depth_first = (if depth_first then Some else copied env)"

fun search_tree :: "'n node_env \<Rightarrow> bool \<Rightarrow> int \<Rightarrow> 'n value_pred option \<Rightarrow> 'n asdf_value vtree \<Rightarrow> bool" where
  "search_tree env df md dp (VNode r ts) \<longleftrightarrow>
     map vroot ts = filter (kept (pushed_as env df) md dp 1) (children_of env r) \<and>
     pushable (pushed_as env df) (children_of env r) \<and> (\<forall>t\<in>set ts. explored env (pushed_as env df) md dp 1 t)"

definition visit_order :: "bool \<Rightarrow> 'a vtree \<Rightarrow> 'a list" where
  "visit_order df t = (if df then preorder t else breadth [t])"

lemma init_pend:
  assumes "asdf_value_is_container (vroot t)" and "search_tree env df md dp t"
  shows "\<exists>it. asdf_find_iter_init_ex env [] (vroot t) pred df dp md = Some (Some it, []) \<and> fi_pred it = pred \<and>
    (if df then dfs_pend env md dp it (visit_order df t) else bfs_pend env md dp it (visit_order df t))"
proof -
  obtain r ts where t: "t = VNode r ts" by (cases t)
  have n: "(0 \<le> md \<and> md < 0) = False" by auto
  have "\<exists>cap. asdf_find_iter_init_ex env [] r pred df dp md = Some (Some \<lparr>fi_value = None, fi_pred = pred, fi_depth_first = df,
      fi_descend = dp, fi_max_depth = md, fi_frames = [new_frame env r 0], fi_frame_cap = cap\<rparr>, [])"
    using assms(1) init_coming [of env r]
    by (auto simp: t n asdf_find_iter_init_ex_def asdf_find_iter_create_def asdf_find_iter_push_frame_def new_frame_def Let_def)
  then obtain cap where cap: "asdf_find_iter_init_ex env [] r pred df dp md = Some (Some \<lparr>fi_value = None, fi_pred = pred, fi_depth_first = df,
      fi_descend = dp, fi_max_depth = md, fi_frames = [new_frame env r 0], fi_frame_cap = cap\<rparr>, [])" by blast
  have r: "frame_rel env (pushed_as env df) md dp (new_frame env r 0) ts"
    using assms(2) by (simp add: t frame_rel_def)
  have "breadth [t] = r # breadth ts" by (simp add: t breadth_Cons)
  then show ?thesis
    using r cap by (auto simp: t visit_order_def pushed_as_def intro!: dfs_pendI [of _ _ _ "[]"] bfs_pendI [of _ _ _ _ "[]"])
qed

lemma search_next:
  assumes "asdf_value_is_container (vroot t)" and "search_tree env df md dp t"
  shows "asdf_value_find_ex env [] (vroot t) pred df dp md =
    Some (case filter (matches pred) (visit_order df t) of [] \<Rightarrow> None | v # _ \<Rightarrow> copied env v, [])"
proof -
  obtain it where it: "asdf_find_iter_init_ex env [] (vroot t) pred df dp md = Some (Some it, [])" "fi_pred it = pred"
      "if df then dfs_pend env md dp it (visit_order df t) else bfs_pend env md dp it (visit_order df t)"
    using init_pend [OF assms] by blast
  obtain r where r: "asdf_value_find_iter_next env [] (Some it) = Some (r, [])"
      "case filter (matches pred) (visit_order df t) of [] \<Rightarrow> r = None | v # _ \<Rightarrow> \<exists>it'. r = Some it' \<and> fi_value it' = Some v"
  proof (cases df)
    case True
    then show ?thesis using dfs.next_found [of env md dp it] it that by (fastforce split: list.splits)
  next
    case False
    then show ?thesis using bfs.next_found [of env md dp it] it that by (fastforce split: list.splits)
  qed
  show ?thesis
    using assms(1) it(1) r by (auto simp: asdf_value_find_ex_def copy_result split: list.splits)
qed

lemma search_all:
  assumes "asdf_value_is_container (vroot t)" and "search_tree env df md dp t"
  shows "\<exists>it. asdf_find_iter_init_ex env [] (vroot t) pred df dp md = Some (Some it, []) \<and>
    find_all env (Some it) = Some (filter (matches pred) (visit_order df t))"
proof -
  obtain it where "asdf_find_iter_init_ex env [] (vroot t) pred df dp md = Some (Some it, [])" "fi_pred it = pred"
      "if df then dfs_pend env md dp it (visit_order df t) else bfs_pend env md dp it (visit_order df t)"
    using init_pend [OF assms] by blast
  then show ?thesis using dfs.all_found [of env md dp it] bfs.all_found [of env md dp it] by (cases df) auto
qed

text \<open>C25. A search of a finite tree visits it in preorder or level by level, as asked: the client of the iterator
  gets exactly the values that match, in that order, and a search for one value gets a copy of the first of
  them. A container that may not be descended into, because its predicate or the depth forbids it, is not visited
  itself, although the documentation says that these only control the descent: it is never returned as a match.\<close>

theorem find_visits_in_order:
  assumes "asdf_value_is_container (vroot t)" and "search_tree env df md dp t"
  shows "(\<exists>it. asdf_find_iter_init_ex env [] (vroot t) pred df dp md = Some (Some it, []) \<and>
      find_all env (Some it) = Some (filter (matches pred) (visit_order df t))) \<and>
    asdf_value_find_ex env [] (vroot t) pred df dp md =
      Some (case filter (matches pred) (visit_order df t) of [] \<Rightarrow> None | v # _ \<Rightarrow> copied env v, [])"
  using search_all [OF assms] search_next [OF assms] by blast

section \<open>Bounded depth\<close>

lemma trees_of: "(\<And>v. v \<in> set vs \<Longrightarrow> \<exists>us. P (VNode v us)) \<Longrightarrow> \<exists>ts. map vroot ts = vs \<and> (\<forall>t\<in>set ts. P t)"
proof (induction vs)
  case (Cons v vs)
  then obtain us ts where "P (VNode v us)" "map vroot ts = vs" "\<forall>t\<in>set ts. P t" by force
  then show ?case by (intro exI [of _ "VNode v us # ts"]) simp
qed simp

lemma explored_exists:
  assumes "0 \<le> md" and total: "\<And>v. asdf_value_is_container v \<Longrightarrow> g v \<noteq> None" and "d \<le> md \<or> \<not> asdf_value_is_container v"
  shows "\<exists>us. explored env g md dp d (VNode v us)"
  using assms(3)
proof (induction "nat (md + 1 - d)" arbitrary: d v rule: less_induct)
  case less
  show ?case
  proof (cases "asdf_value_is_container v")
    case True
    then obtain c where c: "g v = Some c" using total by blast
    have d: "d \<le> md" using less.prems True by simp
    have "\<exists>us. explored env g md dp (d + 1) (VNode w us)" if "w \<in> set (filter (kept g md dp (d + 1)) (children_of env c))" for w
      using that d total assms(1) by (intro less.hyps) (auto simp: kept_def admitted_def split: option.splits)
    then obtain us where "map vroot us = filter (kept g md dp (d + 1)) (children_of env c)"
        "\<forall>u\<in>set us. explored env g md dp (d + 1) u"
      using trees_of [of "filter (kept g md dp (d + 1)) (children_of env c)" "explored env g md dp (d + 1)"] by blast
    moreover have "pushable g (children_of env c)" using total by (auto simp: pushable_def)
    ultimately show ?thesis using True c by (intro exI [of _ us]) simp
  qed simp
qed

lemma copied_attached: "fy_node_is_attached env (v_node v) \<or> fy_node_root env (v_node v) = Some (v_node v) \<Longrightarrow> copied env v \<noteq> None"
  by (auto simp: copied_def asdf_value_copy_def is_root_node_def asdf_value_copy_shallow_def Let_def split: prod.splits)
    (auto simp: dup_def copied_path_def split: option.splits if_splits)

text \<open>C26. A search with a bounded depth ends, whatever the tree is, even when it contains itself through an
  alias: with the nodes belonging to documents, every call of the iterator returns and there are finitely
  many matches.\<close>

theorem bounded_search_ends:
  assumes "asdf_value_is_container r" and "0 \<le> md" and "\<forall>n. fy_node_is_attached env n \<or> fy_node_root env n = Some n"
  shows "\<exists>it vs found. asdf_find_iter_init_ex env [] r pred df dp md = Some (Some it, []) \<and> find_all env (Some it) = Some vs \<and>
    asdf_value_find_ex env [] r pred df dp md = Some (found, []) \<and> (vs = [] \<longleftrightarrow> found = None)"
proof -
  have g: "pushed_as env df v \<noteq> None" for v
    using copied_attached [of env v] assms(3) by (simp add: pushed_as_def)
  have "\<exists>us. explored env (pushed_as env df) md dp 1 (VNode w us)"
    if "w \<in> set (filter (kept (pushed_as env df) md dp 1) (children_of env r))" for w
    using that g assms(2) by (intro explored_exists) (auto simp: kept_def admitted_def split: option.splits)
  then obtain ts where "map vroot ts = filter (kept (pushed_as env df) md dp 1) (children_of env r)"
      "\<forall>t\<in>set ts. explored env (pushed_as env df) md dp 1 t"
    using trees_of [of _ "explored env (pushed_as env df) md dp 1"] by meson
  then have t: "search_tree env df md dp (VNode r ts)" using g by (simp add: pushable_def)
  have c: "copied env v \<noteq> None" for v using copied_attached [of env v] assms(3) by blast
  show ?thesis
    using search_all [OF _ t, of pred] search_next [OF _ t, of pred] assms(1) c
    by (cases "filter (matches pred) (visit_order df (VNode r ts))") auto
qed

section \<open>Concrete searches\<close>

definition sample_tree :: "nat asdf_value vtree" where
  "sample_tree = VNode sample_root [VNode (sample_child 1 (bytes_of ''/a'')) [],
     VNode (sample_child 3 (bytes_of ''/b'')) [VNode (sample_child 1 (bytes_of ''/b/0'')) []]]"

lemma sample_child_fields [simp]:
  "v_node (sample_child n p) = n" "v_path (sample_child n p) = Some p" "v_type (sample_child n p) = v_raw_type (sample_child n p)"
  "asdf_value_is_container (sample_child n p) \<longleftrightarrow> n = 0 \<or> n = 3"
  "v_raw_type (sample_child 3 p) = ASDF_VALUE_SEQUENCE" "v_tag (sample_child n p) = None" "v_type (sample_child 3 p) = ASDF_VALUE_SEQUENCE"
  by (simp_all add: sample_child_def node_value_def sample_nodes_def asdf_value_is_container_def)

lemma sample_nodes_fields:
  "fy_node_is_alias sample_nodes n \<longleftrightarrow> n = 2 \<or> n = 4" "fy_node_resolve_alias sample_nodes n = (if n = 2 then Some 3 else None)"
  "fy_node_items sample_nodes n = (if n = 3 then [1, 4, 1] else [])" "fy_node_is_attached sample_nodes n \<longleftrightarrow> n \<noteq> 0"
  by (simp_all add: sample_nodes_def)

lemma sample_copy: "copied sample_nodes (sample_child 3 p) = Some ((sample_child 3 p)\<lparr>v_shallow := True, v_style := None\<rparr>)"
  by (simp add: copied_def asdf_value_copy_def asdf_value_copy_shallow_def dup_def copied_path_def sample_nodes_fields
      sample_child_def node_value_def)

lemma sample_items: "children_of sample_nodes ((sample_child 3 (bytes_of ''/b''))\<lparr>v_shallow := True, v_style := None\<rparr>) =
    [sample_child 1 (bytes_of ''/b/0'')]"
  by (simp add: children_of_def container_entries_def asdf_value_is_container_def child_value_def target_node_def child_path_def
      path_suffix_def int_dec_def dec.simps sample_nodes_fields bytes_of_def)
    (simp add: sample_child_def)

lemma sample_search_tree: "search_tree sample_nodes False (- 1) None sample_tree"
  by (simp add: sample_tree_def children_of_def [of _ sample_root] sample_root_container sample_entries pushed_as_def kept_def pushable_def
      sample_copy admitted_def sample_items)

theorem find_visits_in_order_witness:
  "asdf_value_find_ex sample_nodes [] sample_root (Some asdf_value_is_sequence) False None (- 1) =
     Some (copied sample_nodes (sample_child 3 (bytes_of ''/b'')), [])"
  using conjunct2 [OF find_visits_in_order [OF _ sample_search_tree, of "Some asdf_value_is_sequence"]]
  by (simp add: sample_tree_def sample_root_container visit_order_def breadth_Cons matches_def asdf_value_is_sequence_def)
    (simp add: sample_root_def sample_child_def node_value_def sample_nodes_def)

text \<open>A sequence whose only item is an alias for the sequence itself.\<close>

definition self_nodes :: "bool node_env" where
  "self_nodes = \<lparr>fy_node_get_type = (\<lambda>n. FYNT_SEQUENCE), fy_node_is_alias = id, fy_node_resolve_alias = (\<lambda>n. Some False),
     fy_node_pairs = (\<lambda>n. []), fy_node_items = (\<lambda>n. [True]), fy_node_get_scalar0 = (\<lambda>n. None), fy_node_get_path = (\<lambda>n. None),
     fy_node_get_parent = (\<lambda>n. None), fy_node_is_attached = id, fy_node_root = (\<lambda>n. Some False), fy_node_copy = Some,
     fy_node_mapping_lookup_value_by_simple_key = (\<lambda>n k. None), fy_node_sequence_get_by_index = (\<lambda>n i. None)\<rparr>"

theorem bounded_search_ends_witness:
  "\<exists>it vs found. asdf_find_iter_init_ex self_nodes [] (node_value self_nodes False None) None True None 5 = Some (Some it, []) \<and>
    find_all self_nodes (Some it) = Some vs \<and>
    asdf_value_find_ex self_nodes [] (node_value self_nodes False None) None True None 5 = Some (found, []) \<and> (vs = [] \<longleftrightarrow> found = None)"
  by (rule bounded_search_ends) (simp_all add: self_nodes_def node_value_def asdf_value_is_container_def)

end
