(* ===== verification/Asdf_Lz4.thy ===== *)
theory Asdf_Lz4
  imports Asdf_Prelude
begin

text \<open>
  The LZ4 compressor, \<^verbatim>\<open>src/compression/lz4.c\<close>: the container that the Python library writes, a sequence of
  blocks with their compressed size, big-endian, and their decompressed size, little-endian. The LZ4
  library is a record of functions: what it asks for a buffer, what it compresses a block to, and what it
  decompresses a block to within a capacity. Each returns a count, an error when it is negative or zero as
  documented, and the bytes that it wrote.
\<close>

section \<open>Compressors\<close>

datatype asdf_compressor_status =
    ASDF_COMPRESSOR_UNINITIALIZED | ASDF_COMPRESSOR_INITIALIZED | ASDF_COMPRESSOR_IN_PROGRESS | ASDF_COMPRESSOR_DONE

record asdf_compressor_info =
  status :: asdf_compressor_status
  optimal_chunk_size :: nat

section \<open>State\<close>

record lz4_library =
  LZ4_compressBound :: "nat \<Rightarrow> int"
  LZ4_compress_default :: "bytes \<Rightarrow> int \<Rightarrow> int \<times> bytes"
  LZ4_decompress_safe :: "bytes \<Rightarrow> nat \<Rightarrow> int \<times> bytes"

text \<open>The union of fields of \<^verbatim>\<open>header\<close> and \<^verbatim>\<open>block\<close> is flat here. The buffer of a block is what was decompressed
  into it.\<close>

record lz4_userdata =
  lz_info :: asdf_compressor_info
  lz_data :: bytes
  lz_dest_size :: nat
  lz_pos :: nat
  lz_progress :: nat
  lh_buf :: bytes
  lh_pos :: nat
  lh_block_size :: int
  lh_decomp_block_size :: int
  lb_buf :: bytes
  lb_cap :: nat
  lb_size :: nat
  lb_pos :: nat

definition ASDF_COMPRESSOR_LZ4_BLOCK_HEADER_SIZE :: nat where
  "ASDF_COMPRESSOR_LZ4_BLOCK_HEADER_SIZE = 8"

section \<open>Headers\<close>

function lz4_fill_header :: "lz4_userdata \<Rightarrow> lz4_userdata" where
  "lz4_fill_header lz4 =
     (if lh_pos lz4 < ASDF_COMPRESSOR_LZ4_BLOCK_HEADER_SIZE \<and> lz_pos lz4 < length (lz_data lz4)
      then lz4_fill_header (lz4\<lparr>lh_buf := (lh_buf lz4)[lh_pos lz4 := lz_data lz4 ! lz_pos lz4],
             lh_pos := lh_pos lz4 + 1, lz_pos := lz_pos lz4 + 1\<rparr>)
      else lz4)"
  by pat_completeness auto
termination by (relation "measure (\<lambda>lz4. ASDF_COMPRESSOR_LZ4_BLOCK_HEADER_SIZE - lh_pos lz4)") auto

declare lz4_fill_header.simps [simp del]

text \<open>The sizes as \<^verbatim>\<open>int32_t\<close>: of the first, the size of the second is subtracted.\<close>

definition int32_of :: "nat \<Rightarrow> int" where
  "int32_of n = sint (of_nat n :: 32 word)"

definition asdf_compressor_lz4_read_header :: "lz4_userdata \<Rightarrow> nat \<times> lz4_userdata" where
  "asdf_compressor_lz4_read_header lz4 =
     (if lh_pos lz4 = ASDF_COMPRESSOR_LZ4_BLOCK_HEADER_SIZE then (0, lz4)
      else
        let lz4 = lz4_fill_header lz4 in
        if lh_pos lz4 < ASDF_COMPRESSOR_LZ4_BLOCK_HEADER_SIZE
        then (ASDF_COMPRESSOR_LZ4_BLOCK_HEADER_SIZE - lh_pos lz4, lz4)
        else (0, lz4\<lparr>lh_block_size := int32_of (size_sub (be_val (take 4 (lh_buf lz4))) 4),
                     lh_decomp_block_size := int32_of (be_val (rev (take 4 (drop 4 (lh_buf lz4)))))\<rparr>))"

definition asdf_compressor_lz4_init :: "heap \<Rightarrow> bytes \<Rightarrow> nat \<Rightarrow> lz4_userdata option \<times> heap" where
  "asdf_compressor_lz4_init h data dest_size =
     (let (ok, h) = alloc h in
      if \<not> ok then (None, h)
      else
        let (missing, lz4) = asdf_compressor_lz4_read_header
              \<lparr>lz_info = \<lparr>status = ASDF_COMPRESSOR_INITIALIZED, optimal_chunk_size = 0\<rparr>, lz_data = data, lz_dest_size = dest_size,
               lz_pos = 0, lz_progress = 0, lh_buf = replicate 8 0, lh_pos = 0, lh_block_size = 0, lh_decomp_block_size = 0,
               lb_buf = [], lb_cap = 0, lb_size = 0, lb_pos = 0\<rparr>
        in
        if missing \<noteq> 0 then (None, h)
        else (Some (lz4\<lparr>lz_info := (lz_info lz4)\<lparr>optimal_chunk_size := size_of_off (lh_decomp_block_size lz4)\<rparr>\<rparr>), h))"

section \<open>Decompression\<close>

text \<open>One block. An input outside the data, or a result of the library that is not there, is undefined.\<close>

definition asdf_compressor_lz4_read_block ::
  "lz4_library \<Rightarrow> heap \<Rightarrow> lz4_userdata \<Rightarrow> (int \<times> lz4_userdata \<times> heap) option" where
  "asdf_compressor_lz4_read_block lib h lz4 =
     (let (missing, lz4) = asdf_compressor_lz4_read_header lz4 in
      if missing \<noteq> 0 then Some (- 1, lz4, h)
      else if lh_block_size lz4 \<le> 0 then Some (- 1, lz4, h)
      else if lh_decomp_block_size lz4 < 0 then Some (- 1, lz4, h)
      else if nat (lh_block_size lz4) > length (lz_data lz4) - lz_pos lz4 then Some (- 1, lz4, h)
      else
        let grow = (nat (lh_decomp_block_size lz4) > lb_cap lz4);
            (ok, h) = (if grow then alloc h else (True, h))
        in
        if \<not> ok then Some (- 1, lz4, h)
        else do {
          let lz4 = lz4\<lparr>lb_cap := (if grow then nat (lh_decomp_block_size lz4) else lb_cap lz4),
                        lb_size := nat (lh_decomp_block_size lz4), lb_pos := 0\<rparr>;
          src \<leftarrow> mem_read (lz_data lz4) (lz_pos lz4) (nat (lh_block_size lz4));
          let (ret, out) = LZ4_decompress_safe lib src (lb_size lz4);
          if ret < 0 then Some (ret, lz4, h)
          else if nat ret \<noteq> lb_size lz4 then Some (- 1, lz4, h)
          else Some (0, lz4\<lparr>lb_buf := out, lz_pos := lz_pos lz4 + nat (lh_block_size lz4), lh_pos := 0\<rparr>, h)
        })"

text \<open>The loop of a chunk: how much is needed, what was copied so far, the compressor.\<close>

definition lz4_decomp_step ::
  "lz4_library \<Rightarrow> nat \<times> bytes \<times> lz4_userdata \<times> heap \<Rightarrow>
   (nat \<times> bytes \<times> lz4_userdata \<times> heap + int \<times> bytes \<times> lz4_userdata \<times> heap) option" where
  "lz4_decomp_step lib = (\<lambda>(need, out, lz4, h).
     if need = 0 then Some (Inr (0, out, lz4, h))
     else do {
       (ret, lz4, h) \<leftarrow> (if size_sub (lb_size lz4) (lb_pos lz4) = 0 then asdf_compressor_lz4_read_block lib h lz4 else Some (0, lz4, h));
       let avail = size_sub (lb_size lz4) (lb_pos lz4);
       if ret \<noteq> 0 then Some (Inr (ret, out, lz4, h))
       else if avail = 0 then Some (Inr (- 1, out, lz4, h))
       else do {
         let n = min avail need;
         bs \<leftarrow> mem_read (lb_buf lz4) (lb_pos lz4) n;
         Some (Inl (need - n, out @ bs, lz4\<lparr>lb_pos := lb_pos lz4 + n\<rparr>, h))
       }
     })"

text \<open>A chunk of \<open>buf_size\<close> bytes: the error code, the offset of the chunk if one was made, and the bytes that were
  written to the start of the buffer.\<close>

definition asdf_compressor_lz4_decomp ::
  "lz4_library \<Rightarrow> heap \<Rightarrow> lz4_userdata \<Rightarrow> nat \<Rightarrow> nat \<Rightarrow> (int \<times> nat option \<times> bytes \<times> lz4_userdata \<times> heap) option" where
  "asdf_compressor_lz4_decomp lib h lz4 buf_size offset_hint =
     (let lz4 = lz4\<lparr>lz_info := (lz_info lz4)\<lparr>status := ASDF_COMPRESSOR_IN_PROGRESS\<rparr>\<rparr> in
      if offset_hint < lz_progress lz4 then Some (0, None, [], lz4, h)
      else do {
        let remaining = size_sub (lz_dest_size lz4) (lz_progress lz4);
        (ret, out, lz4, h) \<leftarrow> loop_opt (lz4_decomp_step lib) (if buf_size < remaining then buf_size else remaining, [], lz4, h);
        if ret \<noteq> 0 then Some (ret, None, out, lz4, h)
        else
          let offset = lz_progress lz4;
              lz4 = lz4\<lparr>lz_progress := size_add (lz_progress lz4) buf_size\<rparr>;
              lz4 = (if lz_progress lz4 \<ge> lz_dest_size lz4
                     then lz4\<lparr>lz_info := (lz_info lz4)\<lparr>status := ASDF_COMPRESSOR_DONE\<rparr>\<rparr> else lz4)
          in Some (0, Some offset, out, lz4, h)
      })"

section \<open>Compression\<close>

definition ASDF_COMPRESSOR_LZ4_BLOCK_SIZE :: nat where
  "ASDF_COMPRESSOR_LZ4_BLOCK_SIZE = 2 ^ 22"

text \<open>The chunks that are compressed on their own.\<close>

function lz4_chunks :: "bytes \<Rightarrow> bytes list" where
  "lz4_chunks buf =
     (if buf = [] then []
      else take ASDF_COMPRESSOR_LZ4_BLOCK_SIZE buf # lz4_chunks (drop ASDF_COMPRESSOR_LZ4_BLOCK_SIZE buf))"
  by pat_completeness auto
termination by (relation "measure length") (auto simp: ASDF_COMPRESSOR_LZ4_BLOCK_SIZE_def)

declare lz4_chunks.simps [simp del]

text \<open>The first pass: the worst-case size, which the allocation asks for; a bound of zero ends it.\<close>

fun lz4_capacity :: "lz4_library \<Rightarrow> bytes list \<Rightarrow> nat option" where
  "lz4_capacity lib [] = Some 0"
| "lz4_capacity lib (c # cs) =
     (if LZ4_compressBound lib (length c) \<le> 0 then None
      else map_option (\<lambda>n. 8 + nat (LZ4_compressBound lib (length c)) + n) (lz4_capacity lib cs))"

text \<open>The second pass.\<close>

fun lz4_comp_chunks :: "lz4_library \<Rightarrow> bytes list \<Rightarrow> bytes option" where
  "lz4_comp_chunks lib [] = Some []"
| "lz4_comp_chunks lib (c # cs) =
     (let (n, z) = LZ4_compress_default lib c (LZ4_compressBound lib (length c)) in
      if n \<le> 0 then None
      else map_option (\<lambda>rest. be_enc 4 (nat n + 4) @ rev (be_enc 4 (length c)) @ z @ rest) (lz4_comp_chunks lib cs))"

definition asdf_compressor_lz4_comp :: "lz4_library \<Rightarrow> heap \<Rightarrow> bytes \<Rightarrow> (int \<times> bytes option) \<times> heap" where
  "asdf_compressor_lz4_comp lib h buf =
     (case lz4_capacity lib (lz4_chunks buf) of
        None \<Rightarrow> ((- 1, None), h)
      | Some _ \<Rightarrow>
          let (ok, h) = alloc h in
          if \<not> ok then ((- 1, None), h)
          else (case lz4_comp_chunks lib (lz4_chunks buf) of
              None \<Rightarrow> ((- 1, None), h)
            | Some out \<Rightarrow> ((0, Some out), h)))"

end
