(* ===== verification/Asdf_Compression.thy ===== *)
theory Asdf_Compression
  imports Asdf_File Asdf_Lz4
begin

text \<open>
  Decompression of blocks: \<^verbatim>\<open>src/compression/compression.c\<close>, the registry of compressors and the wrappers of zlib
  and libbz2. A compressor is a record of its functions over its own state. The kernel is an argument: whether
  mappings, temporary files and \<^verbatim>\<open>userfaultfd\<close> can be had. A mapping is the list of its bytes; of a lazy
  one it is known besides which pages are present. A page size is a power of two, so that masking with it is a
  remainder.
\<close>

section \<open>Compressors and their registry\<close>

text \<open>The decompressor gets the size of the buffer and the offset that is needed, and returns a code, the offset of
  what it wrote if it wrote, the bytes it wrote to the start of the buffer, and its state.\<close>

record 'u asdf_compressor =
  cp_compression :: bytes
  cp_init :: "heap \<Rightarrow> bytes \<Rightarrow> nat \<Rightarrow> 'u option \<times> heap"
  cp_info :: "'u \<Rightarrow> asdf_compressor_info option"
  cp_comp :: "heap \<Rightarrow> bytes \<Rightarrow> (int \<times> bytes option) \<times> heap"
  cp_decomp :: "heap \<Rightarrow> 'u \<Rightarrow> nat \<Rightarrow> nat \<Rightarrow> (int \<times> nat option \<times> bytes \<times> 'u \<times> heap) option"

type_synonym 'u compressor_map = "bytes \<rightharpoonup> 'u asdf_compressor"

definition asdf_compressor_get :: "'u compressor_map \<Rightarrow> bytes \<Rightarrow> 'u asdf_compressor option" where
  "asdf_compressor_get cmap name = cmap name"

text \<open>The key is at most the four bytes of the field of the block header; a name that is taken keeps its compressor.\<close>

definition asdf_compressor_register :: "'u compressor_map \<Rightarrow> 'u asdf_compressor \<Rightarrow> 'u compressor_map" where
  "asdf_compressor_register cmap cz =
     (let name = take 4 (cp_compression cz) in
      if name = [] then cmap
      else if cmap name \<noteq> None then cmap
      else cmap(name \<mapsto> cz))"

section \<open>The zlib and libbz2 wrappers\<close>

text \<open>A stream of the library, given as the library's own state: \<open>inflate\<close> is called with the room in the output and
  returns its code and what it wrote. The room is an \<^verbatim>\<open>unsigned int\<close>, so sizes are taken modulo its range, and so is
  the size of the input that the initialisation gets.\<close>

definition Z_OK :: int where "Z_OK = 0"
definition Z_STREAM_END :: int where "Z_STREAM_END = 1"
definition UINT_RANGE :: nat where "UINT_RANGE = 2 ^ 32"

record 'z stream_userdata =
  zu_info :: asdf_compressor_info
  zu_stream :: 'z
  zu_progress :: nat

definition asdf_compressor_zlib_init ::
  "(bytes \<Rightarrow> int \<times> 'z) \<Rightarrow> heap \<Rightarrow> bytes \<Rightarrow> nat \<Rightarrow> 'z stream_userdata option \<times> heap" where
  "asdf_compressor_zlib_init inflateInit2 h data dest_size =
     (let (ok, h) = alloc h in
      if \<not> ok then (None, h)
      else
        let (ret, z) = inflateInit2 (take (length data mod UINT_RANGE) data) in
        if ret \<noteq> Z_OK then (None, h)
        else (Some \<lparr>zu_info = \<lparr>status = ASDF_COMPRESSOR_INITIALIZED, optimal_chunk_size = 0\<rparr>, zu_stream = z, zu_progress = 0\<rparr>, h))"

definition stream_in_progress :: "'z stream_userdata \<Rightarrow> 'z stream_userdata" where
  "stream_in_progress u = u\<lparr>zu_info := (zu_info u)\<lparr>status := ASDF_COMPRESSOR_IN_PROGRESS\<rparr>\<rparr>"

definition asdf_compressor_zlib_decomp ::
  "('z \<Rightarrow> nat \<Rightarrow> int \<times> bytes \<times> 'z) \<Rightarrow> heap \<Rightarrow> 'z stream_userdata \<Rightarrow> nat \<Rightarrow> nat \<Rightarrow>
   (int \<times> nat option \<times> bytes \<times> 'z stream_userdata \<times> heap) option" where
  "asdf_compressor_zlib_decomp inflate h u buf_size offset_hint =
     (let u = stream_in_progress u in
      if offset_hint < zu_progress u then Some (0, None, [], u, h)
      else
        let (ret, out, z) = inflate (zu_stream u) (buf_size mod UINT_RANGE);
            u = u\<lparr>zu_stream := z\<rparr>
        in
        if ret \<noteq> Z_OK \<and> ret \<noteq> Z_STREAM_END then Some (ret, None, out, u, h)
        else
          let offset = zu_progress u;
              u = u\<lparr>zu_progress := size_add (zu_progress u) buf_size\<rparr>;
              u = (if ret = Z_STREAM_END then u\<lparr>zu_info := (zu_info u)\<lparr>status := ASDF_COMPRESSOR_DONE\<rparr>\<rparr> else u)
          in Some (0, Some offset, out, u, h))"

text \<open>One-shot compression into a buffer of the size that the library asks for.\<close>

definition asdf_compressor_zlib_comp ::
  "(bytes \<Rightarrow> int \<times> bytes) \<Rightarrow> heap \<Rightarrow> bytes \<Rightarrow> (int \<times> bytes option) \<times> heap" where
  "asdf_compressor_zlib_comp compress2 h buf =
     (let (ok, h) = alloc h in
      if \<not> ok then ((- 1, None), h)
      else let (ret, out) = compress2 buf in
        if ret \<noteq> Z_OK then ((ret, None), h) else ((0, Some out), h))"

definition BZ_OK :: int where "BZ_OK = 0"
definition BZ_STREAM_END :: int where "BZ_STREAM_END = 4"

definition asdf_compressor_bzp2_init ::
  "(bytes \<Rightarrow> int \<times> 'z) \<Rightarrow> heap \<Rightarrow> bytes \<Rightarrow> nat \<Rightarrow> 'z stream_userdata option \<times> heap" where
  "asdf_compressor_bzp2_init bzDecompressInit h data dest_size =
     (let (ok, h) = alloc h in
      if \<not> ok then (None, h)
      else
        let (ret, z) = bzDecompressInit (take (length data mod UINT_RANGE) data) in
        if ret \<noteq> BZ_OK then (None, h)
        else (Some \<lparr>zu_info = \<lparr>status = ASDF_COMPRESSOR_INITIALIZED, optimal_chunk_size = 0\<rparr>, zu_stream = z, zu_progress = 0\<rparr>, h))"

definition asdf_compressor_bzp2_decomp ::
  "('z \<Rightarrow> nat \<Rightarrow> int \<times> bytes \<times> 'z) \<Rightarrow> heap \<Rightarrow> 'z stream_userdata \<Rightarrow> nat \<Rightarrow> nat \<Rightarrow>
   (int \<times> nat option \<times> bytes \<times> 'z stream_userdata \<times> heap) option" where
  "asdf_compressor_bzp2_decomp bzDecompress h u buf_size offset_hint =
     (let u = stream_in_progress u in
      if offset_hint < zu_progress u then Some (0, None, [], u, h)
      else
        let (ret, out, z) = bzDecompress (zu_stream u) (buf_size mod UINT_RANGE);
            u = u\<lparr>zu_stream := z\<rparr>
        in
        if ret \<noteq> BZ_OK \<and> ret \<noteq> BZ_STREAM_END then Some (ret, None, out, u, h)
        else
          let offset = zu_progress u;
              u = u\<lparr>zu_progress := size_add (zu_progress u) buf_size\<rparr>;
              u = (if ret = BZ_STREAM_END then u\<lparr>zu_info := (zu_info u)\<lparr>status := ASDF_COMPRESSOR_DONE\<rparr>\<rparr> else u)
          in Some (0, Some offset, out, u, h))"

definition ASDF_COMPRESSOR_BZP2_BUF_CAPACITY :: "nat \<Rightarrow> nat" where
  "ASDF_COMPRESSOR_BZP2_BUF_CAPACITY n = n + n div 100 + 601"

definition asdf_compressor_bzp2_comp ::
  "int \<Rightarrow> (bytes \<Rightarrow> nat \<Rightarrow> int \<times> bytes) \<Rightarrow> heap \<Rightarrow> bytes \<Rightarrow> (int \<times> bytes option) \<times> heap" where
  "asdf_compressor_bzp2_comp init_ret bzCompress h buf =
     (if init_ret \<noteq> BZ_OK then ((init_ret, None), h)
      else let (ok, h) = alloc h in
        if \<not> ok then ((- 1, None), h)
        else let (ret, out) = bzCompress (take (length buf mod UINT_RANGE) buf) (ASDF_COMPRESSOR_BZP2_BUF_CAPACITY (length buf) mod UINT_RANGE) in
          if ret \<noteq> BZ_STREAM_END then ((ret, None), h) else ((0, Some out), h))"

text \<open>The three compressors as they are registered.\<close>

definition lz4_compressor :: "lz4_library \<Rightarrow> lz4_userdata asdf_compressor" where
  "lz4_compressor lib = \<lparr>cp_compression = bytes_of ''lz4'', cp_init = asdf_compressor_lz4_init, cp_info = (\<lambda>u. Some (lz_info u)),
     cp_comp = asdf_compressor_lz4_comp lib, cp_decomp = asdf_compressor_lz4_decomp lib\<rparr>"

definition zlib_compressor ::
  "(bytes \<Rightarrow> int \<times> 'z) \<Rightarrow> (bytes \<Rightarrow> int \<times> bytes) \<Rightarrow> ('z \<Rightarrow> nat \<Rightarrow> int \<times> bytes \<times> 'z) \<Rightarrow> 'z stream_userdata asdf_compressor" where
  "zlib_compressor inflateInit2 compress2 inflate = \<lparr>cp_compression = bytes_of ''zlib'', cp_init = asdf_compressor_zlib_init inflateInit2,
     cp_info = (\<lambda>u. Some (zu_info u)), cp_comp = asdf_compressor_zlib_comp compress2, cp_decomp = asdf_compressor_zlib_decomp inflate\<rparr>"

definition bzp2_compressor ::
  "(bytes \<Rightarrow> int \<times> 'z) \<Rightarrow> int \<Rightarrow> (bytes \<Rightarrow> nat \<Rightarrow> int \<times> bytes) \<Rightarrow> ('z \<Rightarrow> nat \<Rightarrow> int \<times> bytes \<times> 'z) \<Rightarrow>
   'z stream_userdata asdf_compressor" where
  "bzp2_compressor bzDecompressInit init_ret bzCompress bzDecompress = \<lparr>cp_compression = bytes_of ''bzp2'',
     cp_init = asdf_compressor_bzp2_init bzDecompressInit, cp_info = (\<lambda>u. Some (zu_info u)),
     cp_comp = asdf_compressor_bzp2_comp init_ret bzCompress, cp_decomp = asdf_compressor_bzp2_decomp bzDecompress\<rparr>"

section \<open>The state of a decompression\<close>

record 'u comp_state =
  cs_mode :: asdf_block_decomp_mode
  cs_own_fd :: bool
  cs_dest :: bytes
  cs_dest_size :: nat
  cs_compressor :: "'u asdf_compressor"
  cs_userdata :: "'u option"

text \<open>What the system grants.\<close>

record comp_system =
  sys_total_memory :: nat
  sys_uffd_available :: bool
  sys_uffd_file_backing :: bool
  sys_temp_file :: bool
  sys_mmap :: bool
  sys_page_size :: nat

definition asdf_block_decomp_lazy_available :: "comp_system \<Rightarrow> bool \<Rightarrow> bool" where
  "asdf_block_decomp_lazy_available sys use_file_backing \<longleftrightarrow>
     sys_uffd_available sys \<and> (use_file_backing \<longrightarrow> sys_uffd_file_backing sys)"

text \<open>A double converted to \<^verbatim>\<open>size_t\<close>, for the products of a memory size and a fraction.\<close>

definition size_of_double :: "double \<Rightarrow> nat" where
  "size_of_double d = nat \<lfloor>d_rat d\<rfloor>"

definition asdf_block_comp_use_file_backing :: "comp_system \<Rightarrow> asdf_config option \<Rightarrow> nat \<Rightarrow> bool" where
  "asdf_block_comp_use_file_backing sys config dest_size =
     (case config of
        None \<Rightarrow> False
      | Some c \<Rightarrow>
          let max_memory = (if threshold_positive (cfg_max_memory_threshold c) \<and> sys_total_memory sys > 0
                then size_of_double (d_mul (double_of_rat (of_nat (sys_total_memory sys))) (cfg_max_memory_threshold c))
                else SIZE_MAX);
              max_memory = (if cfg_max_memory_bytes c > 0 then min (cfg_max_memory_bytes c) max_memory else max_memory)
          in dest_size > max_memory)"

text \<open>The effective mode, and whether a temporary file backs the mapping.\<close>

definition choose_mode :: "comp_system \<Rightarrow> asdf_block_decomp_mode \<Rightarrow> bool \<Rightarrow> bool \<times> bool" where
  "choose_mode sys mode use_file_backing =
     (if mode = ASDF_BLOCK_DECOMP_MODE_AUTO \<or> mode = ASDF_BLOCK_DECOMP_MODE_LAZY then
        let use_lazy = asdf_block_decomp_lazy_available sys use_file_backing in
        if use_lazy \<and> use_file_backing then
          (if mode = ASDF_BLOCK_DECOMP_MODE_AUTO then (False, use_file_backing) else (use_lazy, False))
        else (use_lazy, use_file_backing)
      else (False, use_file_backing))"

definition asdf_block_comp_state_create ::
  "comp_system \<Rightarrow> heap \<Rightarrow> asdf_config \<Rightarrow> bytes \<Rightarrow> nat \<Rightarrow> 'u asdf_compressor \<Rightarrow> 'u comp_state option \<times> heap" where
  "asdf_block_comp_state_create sys h config data dest_size cz =
     (let (ok, h) = alloc h in
      if \<not> ok then (None, h)
      else
        let (use_lazy, file_backed) = choose_mode sys (cfg_decomp_mode config)
              (asdf_block_comp_use_file_backing sys (Some config) dest_size);
            in_file = (file_backed \<and> \<not> use_lazy)
        in
        if in_file \<and> (\<not> sys_temp_file sys \<or> dest_size > ASDF_OFF_MAX) then (None, h)
        else if \<not> sys_mmap sys then (None, h)
        else
          let (userdata, h) = cp_init cz h data dest_size in
          (Some \<lparr>cs_mode = (if use_lazy then ASDF_BLOCK_DECOMP_MODE_LAZY else ASDF_BLOCK_DECOMP_MODE_EAGER),
                 cs_own_fd = in_file, cs_dest = replicate dest_size 0, cs_dest_size = dest_size, cs_compressor = cz,
                 cs_userdata = userdata\<rparr>, h))"

section \<open>Eager decompression\<close>

text \<open>Bytes written to the start of a buffer.\<close>

definition overwrite :: "bytes \<Rightarrow> bytes \<Rightarrow> bytes" where
  "overwrite out buf = out @ drop (length out) buf"

definition asdf_block_decomp_eager :: "heap \<Rightarrow> 'u comp_state \<Rightarrow> (int \<times> 'u comp_state \<times> heap) option" where
  "asdf_block_decomp_eager h state = do {
     u \<leftarrow> cs_userdata state;
     (ret, _, out, u, h) \<leftarrow> cp_decomp (cs_compressor state) h u (cs_dest_size state) 0;
     Some (ret, state\<lparr>cs_dest := overwrite out (cs_dest state), cs_userdata := Some u\<rparr>, h)
   }"

section \<open>Lazy decompression\<close>

definition align_down :: "nat \<Rightarrow> nat \<Rightarrow> nat" where
  "align_down p n = n - n mod p"

definition align_up :: "nat \<Rightarrow> nat \<Rightarrow> nat" where
  "align_up p n = align_down p (n + p - 1)"

definition ASDF_BLOCK_DECOMP_DEFAULT_PAGES_PER_CHUNK :: nat where
  "ASDF_BLOCK_DECOMP_DEFAULT_PAGES_PER_CHUNK = 1024"

definition lazy_chunk_size :: "nat \<Rightarrow> nat \<Rightarrow> nat \<Rightarrow> nat" where
  "lazy_chunk_size page optimal configured =
     align_up page (if configured > 0 then configured else if optimal > 0 then optimal
                    else page * ASDF_BLOCK_DECOMP_DEFAULT_PAGES_PER_CHUNK)"

text \<open>The kernel side of userfaultfd is a parameter: \<open>'r\<close> is what the kernel knows of the registered range,
  \<open>uffdio_copy\<close> is the call with that name, given the place in the range, the bytes and whether not to wake the
  thread that waits, and \<open>uffdio_wake\<close> is given a place and a size.\<close>

record 'r uffd_ops =
  uffdio_copy :: "'r \<Rightarrow> nat \<Rightarrow> bytes \<Rightarrow> bool \<Rightarrow> int \<times> 'r"
  uffdio_wake :: "'r \<Rightarrow> nat \<Rightarrow> nat \<Rightarrow> int \<times> 'r"

text \<open>The loop over chunks until the faulting page is filled. The list of answers says when the flag \<^verbatim>\<open>stop\<close> is
  seen: \<open>[]\<close> means never. The address is taken from the start of the mapping. The result of a return inside the loop and of leaving it is the code.\<close>

type_synonym ('u, 'r) fault_state = "int \<times> 'u \<times> 'r \<times> bool list \<times> heap"

definition pagefault_step ::
  "'r uffd_ops \<Rightarrow> 'u asdf_compressor \<Rightarrow> nat \<Rightarrow> nat \<Rightarrow> nat \<Rightarrow> nat \<Rightarrow>
   ('u, 'r) fault_state \<Rightarrow> (('u, 'r) fault_state + ('u, 'r) fault_state) option" where
  "pagefault_step uf cz page chunk dest_size offset = (\<lambda>(ret, u, r, stop, h).
     if stop \<noteq> [] \<and> hd stop then Some (Inr (ret, u, r, tl stop, h))
     else do {
       (ret, off, out, u, h) \<leftarrow> cp_decomp cz h u chunk offset;
       let got = (case off of None \<Rightarrow> SIZE_MAX | Some g \<Rightarrow> g);
       if ret \<noteq> 0 then Some (Inr (ret, u, r, tl stop, h))
       else if got = SIZE_MAX then do {
         let (ret, r) = uffdio_wake uf r offset page;
         Some (Inr (ret, u, r, tl stop, h))
       }
       else do {
         let len = align_up page (if size_add got chunk > dest_size then size_sub dest_size got else chunk);
         let has_fault = (offset \<ge> got \<and> offset - got < len);
         bs \<leftarrow> mem_read (overwrite out (replicate chunk 0)) 0 len;
         let (ret, r) = uffdio_copy uf r got bs (\<not> has_fault);
         if ret \<noteq> 0 \<or> has_fault then Some (Inr (ret, u, r, tl stop, h))
         else Some (Inl (ret, u, r, tl stop, h))
       }
     })"

definition handle_pagefault ::
  "'r uffd_ops \<Rightarrow> 'u asdf_compressor \<Rightarrow> nat \<Rightarrow> nat \<Rightarrow> nat \<Rightarrow> nat \<Rightarrow> 'u \<Rightarrow> 'r \<Rightarrow> bool list \<Rightarrow> heap \<Rightarrow>
   ('u, 'r) fault_state option" where
  "handle_pagefault uf cz page chunk dest_size addr u r stop h =
     loop_opt (pagefault_step uf cz page chunk dest_size (align_down page addr)) (0, u, r, stop, h)"

text \<open>What the handler thread is woken by, and its loop over these.\<close>

datatype uffd_event = UFFD_EVT_ERROR | UFFD_EVT_NOT_READY | UFFD_EVT_EXIT | UFFD_EVT_PAGEFAULT nat

fun userfaultfd_handler ::
  "'r uffd_ops \<Rightarrow> 'u asdf_compressor \<Rightarrow> nat \<Rightarrow> nat \<Rightarrow> nat \<Rightarrow> uffd_event list \<Rightarrow> ('u, 'r) fault_state \<Rightarrow>
   ('u, 'r) fault_state option" where
  "userfaultfd_handler uf cz page chunk dest_size [] s = Some s"
| "userfaultfd_handler uf cz page chunk dest_size (e # es) (ret, u, r, stop, h) =
     (if stop \<noteq> [] \<and> hd stop then Some (ret, u, r, tl stop, h)
      else (case cp_info cz u of
          None \<Rightarrow> Some (ret, u, r, tl stop, h)
        | Some info \<Rightarrow>
            if status info = ASDF_COMPRESSOR_DONE then Some (ret, u, r, tl stop, h)
            else (case e of
                UFFD_EVT_ERROR \<Rightarrow> Some (- 1, u, r, tl stop, h)
              | UFFD_EVT_NOT_READY \<Rightarrow> userfaultfd_handler uf cz page chunk dest_size es (ret, u, r, tl stop, h)
              | UFFD_EVT_EXIT \<Rightarrow> Some (ret, u, r, tl stop, h)
              | UFFD_EVT_PAGEFAULT addr \<Rightarrow> do {
                  (ret, u, r, stop, h) \<leftarrow> handle_pagefault uf cz page chunk dest_size addr u r (tl stop) h;
                  if ret \<noteq> 0 then Some (ret, u, r, stop, h)
                  else userfaultfd_handler uf cz page chunk dest_size es (ret, u, r, stop, h)
                })))"

section \<open>Opening a compressed block\<close>

datatype comp_error = Unknown_compression bytes | Out_of_memory | Compressor_init_failed | Decompressor_failed int

text \<open>Closing destroys the state of the compressor, which asserts that there is one. The lazy start is the
  argument \<open>start_lazy\<close>.\<close>

definition asdf_block_comp_close :: "'u comp_state option \<Rightarrow> unit option" where
  "asdf_block_comp_close state =
     (case state of None \<Rightarrow> Some () | Some s \<Rightarrow> (if cs_userdata s = None then None else Some ()))"

definition asdf_block_comp_open ::
  "comp_system \<Rightarrow> 'u compressor_map \<Rightarrow> ('u comp_state \<Rightarrow> int) \<Rightarrow> heap \<Rightarrow> asdf_config \<Rightarrow> bytes \<Rightarrow> bytes \<Rightarrow> nat \<Rightarrow>
   (comp_error + 'u comp_state option) option" where
  "asdf_block_comp_open sys cmap start_lazy h config name data dest_size =
     (if name = [] then Some (Inr None)
      else (case asdf_compressor_get cmap name of
          None \<Rightarrow> Some (Inl (Unknown_compression name))
        | Some cz \<Rightarrow>
            (case asdf_block_comp_state_create sys h config data dest_size cz of
               (None, h) \<Rightarrow> Some (Inl Out_of_memory)
             | (Some state, h) \<Rightarrow>
                 if cs_userdata state = None then do {
                   asdf_block_comp_close (Some state);
                   Some (Inl Compressor_init_failed)
                 }
                 else do {
                   (ret, state, h) \<leftarrow>
                     (if cs_mode state = ASDF_BLOCK_DECOMP_MODE_LAZY then Some (start_lazy state, state, h)
                      else asdf_block_decomp_eager h state);
                   if ret \<noteq> 0 then do {
                     asdf_block_comp_close (Some state);
                     Some (Inl (Decompressor_failed ret))
                   }
                   else Some (Inr (Some state))
                 })))"

end
