(* ===== verification/Asdf_Lz4_Laws.thy ===== *)
theory Asdf_Lz4_Laws
  imports Asdf_Lz4
begin

text \<open>
  The LZ4 container: what the compressor writes, the decompressor reads back, in one piece or chunk by chunk.
  Of the LZ4 library it is used that blocks fit the bound it gives and that a block is decompressed to what
  it was compressed from.
\<close>

section \<open>The library\<close>

definition lz4_ok :: "lz4_library \<Rightarrow> bool" where
  "lz4_ok lib \<longleftrightarrow> (\<forall>c. c \<noteq> [] \<and> length c \<le> ASDF_COMPRESSOR_LZ4_BLOCK_SIZE \<longrightarrow>
     0 < LZ4_compressBound lib (length c) \<and>
     (\<exists>z. LZ4_compress_default lib c (LZ4_compressBound lib (length c)) = (int (length z), z) \<and> 0 < length z \<and> length z + 4 < 2 ^ 31 \<and>
        LZ4_decompress_safe lib z (length c) = (int (length c), c)))"

section \<open>Headers\<close>

lemma fill_header:
  assumes "length (lh_buf lz) = 8" and "lh_pos lz \<le> 8" and "8 - lh_pos lz \<le> length (lz_data lz) - lz_pos lz"
  shows "lz4_fill_header lz =
    lz\<lparr>lh_buf := take (lh_pos lz) (lh_buf lz) @ take (8 - lh_pos lz) (drop (lz_pos lz) (lz_data lz)), lh_pos := 8,
       lz_pos := lz_pos lz + (8 - lh_pos lz)\<rparr>"
  using assms
proof (induction "8 - lh_pos lz" arbitrary: lz)
  case 0
  then have "lh_pos lz = 8" by simp
  then show ?case using 0 by (subst lz4_fill_header.simps) (simp add: ASDF_COMPRESSOR_LZ4_BLOCK_HEADER_SIZE_def)
next
  case (Suc n)
  let ?lz = "lz\<lparr>lh_buf := (lh_buf lz)[lh_pos lz := lz_data lz ! lz_pos lz], lh_pos := lh_pos lz + 1, lz_pos := lz_pos lz + 1\<rparr>"
  have r: "lh_pos lz < 8" "lz_pos lz < length (lz_data lz)" using Suc by auto
  have e: "lz4_fill_header lz = lz4_fill_header ?lz"
    using r by (subst lz4_fill_header.simps) (simp add: ASDF_COMPRESSOR_LZ4_BLOCK_HEADER_SIZE_def)
  have "take (8 - lh_pos lz) (drop (lz_pos lz) (lz_data lz)) =
      lz_data lz ! lz_pos lz # take (8 - (lh_pos lz + 1)) (drop (lz_pos lz + 1) (lz_data lz))"
    using r by (simp add: Cons_nth_drop_Suc [symmetric] take_Cons' Suc(2))
  moreover have "take (lh_pos lz + 1) ((lh_buf lz)[lh_pos lz := b]) = take (lh_pos lz) (lh_buf lz) @ [b]" for b
    using r Suc(3) by (simp add: take_Suc_conv_app_nth)
  ultimately show ?case
    using Suc(1) [of ?lz] Suc(2-) r by (simp add: e)
qed

lemma int32_small: "n < 2 ^ 31 \<Longrightarrow> int32_of n = int n"
  by (simp add: int32_of_def signed_of_nat signed_take_bit_int_eq_self)

definition block_header :: "bytes \<Rightarrow> bytes \<Rightarrow> bytes" where
  "block_header c z = be_enc 4 (length z + 4) @ rev (be_enc 4 (length c))"

lemma read_block_header:
  assumes "length (lh_buf lz) = 8" and "lh_pos lz = 0" and "drop (lz_pos lz) (lz_data lz) = block_header c z @ rest"
    and "length z + 4 < 2 ^ 31" and "length c < 2 ^ 31"
  shows "asdf_compressor_lz4_read_header lz =
    (0, lz\<lparr>lh_buf := block_header c z, lh_pos := 8, lz_pos := lz_pos lz + 8, lh_block_size := int (length z),
           lh_decomp_block_size := int (length c)\<rparr>)"
proof -
  have l: "length (block_header c z) = 8" by (simp add: block_header_def length_be_enc)
  have d: "8 \<le> length (lz_data lz) - lz_pos lz" using arg_cong [OF assms(3), of length] l by simp
  have b: "take 8 (drop (lz_pos lz) (lz_data lz)) = block_header c z" using l by (simp add: assms(3))
  have v: "be_val (take 4 (block_header c z)) = length z + 4" "be_val (rev (take 4 (drop 4 (block_header c z)))) = length c"
    using assms(4,5) by (simp_all add: block_header_def be_val_be_enc length_be_enc)
  have s: "size_sub (length z + 4) 4 = length z" using assms(4) by (simp add: size_sub_small size_mod_def)
  show ?thesis
    using fill_header [of lz] assms(1,2) d l v s int32_small [of "length z"] int32_small [of "length c"] assms(4,5)
    by (simp add: asdf_compressor_lz4_read_header_def ASDF_COMPRESSOR_LZ4_BLOCK_HEADER_SIZE_def b)
qed

section \<open>Blocks\<close>

definition zipped :: "lz4_library \<Rightarrow> bytes \<Rightarrow> bytes" where
  "zipped lib c = snd (LZ4_compress_default lib c (LZ4_compressBound lib (length c)))"

definition lz4_stream :: "lz4_library \<Rightarrow> bytes list \<Rightarrow> bytes" where
  "lz4_stream lib cs = concat (map (\<lambda>c. block_header c (zipped lib c) @ zipped lib c) cs)"

definition small_chunks :: "bytes list \<Rightarrow> bool" where
  "small_chunks cs \<longleftrightarrow> (\<forall>c\<in>set cs. c \<noteq> [] \<and> length c \<le> ASDF_COMPRESSOR_LZ4_BLOCK_SIZE)"

lemma small_chunks_Cons [simp]:
  "small_chunks (c # cs) \<longleftrightarrow> c \<noteq> [] \<and> length c \<le> ASDF_COMPRESSOR_LZ4_BLOCK_SIZE \<and> small_chunks cs"
  by (auto simp: small_chunks_def)

lemma zipped_ok:
  assumes "lz4_ok lib" and "c \<noteq> []" and "length c \<le> ASDF_COMPRESSOR_LZ4_BLOCK_SIZE"
  shows "0 < LZ4_compressBound lib (length c)"
    "LZ4_compress_default lib c (LZ4_compressBound lib (length c)) = (int (length (zipped lib c)), zipped lib c)"
    "0 < length (zipped lib c)" "length (zipped lib c) + 4 < 2 ^ 31"
    "LZ4_decompress_safe lib (zipped lib c) (length c) = (int (length c), c)"
  using assms unfolding lz4_ok_def zipped_def by (metis snd_conv)+

text \<open>The chunks that are still to be read, before or behind the header of the first.\<close>

definition waiting :: "lz4_library \<Rightarrow> lz4_userdata \<Rightarrow> bytes list \<Rightarrow> bool" where
  "waiting lib lz cs \<longleftrightarrow> length (lh_buf lz) = 8 \<and> small_chunks cs \<and>
     (\<exists>t. (lh_pos lz = 0 \<and> drop (lz_pos lz) (lz_data lz) = lz4_stream lib cs @ t) \<or>
        (\<exists>c cs'. cs = c # cs' \<and> lh_pos lz = 8 \<and> lh_block_size lz = int (length (zipped lib c)) \<and>
           lh_decomp_block_size lz = int (length c) \<and> drop (lz_pos lz) (lz_data lz) = zipped lib c @ lz4_stream lib cs' @ t))"

definition same_task :: "lz4_userdata \<Rightarrow> lz4_userdata \<Rightarrow> bool" where
  "same_task a b \<longleftrightarrow> lz_data a = lz_data b \<and> lz_dest_size a = lz_dest_size b \<and> lz_progress a = lz_progress b \<and> lz_info a = lz_info b"

lemma header_waiting:
  assumes "lz4_ok lib" and "waiting lib lz (c # cs)"
  shows "\<exists>lz' t. asdf_compressor_lz4_read_header lz = (0, lz') \<and> same_task lz' lz \<and> length (lh_buf lz') = 8 \<and> lh_pos lz' = 8 \<and>
    lh_block_size lz' = int (length (zipped lib c)) \<and> lh_decomp_block_size lz' = int (length c) \<and>
    drop (lz_pos lz') (lz_data lz') = zipped lib c @ lz4_stream lib cs @ t"
proof (cases "lh_pos lz = 0")
  case True
  then obtain t where t: "drop (lz_pos lz) (lz_data lz) = block_header c (zipped lib c) @ zipped lib c @ lz4_stream lib cs @ t"
    using assms(2) by (auto simp: waiting_def lz4_stream_def)
  have c: "c \<noteq> []" "length c \<le> ASDF_COMPRESSOR_LZ4_BLOCK_SIZE" using assms(2) by (auto simp: waiting_def)
  have "length c < 2 ^ 31" using c(2) by (simp add: ASDF_COMPRESSOR_LZ4_BLOCK_SIZE_def)
  note r = read_block_header [OF _ True t zipped_ok(4) [OF assms(1) c] this]
  have "drop (lz_pos lz + 8) (lz_data lz) = zipped lib c @ lz4_stream lib cs @ t"
    using arg_cong [OF t, of "drop 8"] by (simp add: block_header_def add.commute)
  then show ?thesis using r assms(2) by (auto simp: waiting_def same_task_def block_header_def)
next
  case False
  then show ?thesis
    using assms(2) by (auto simp: waiting_def asdf_compressor_lz4_read_header_def ASDF_COMPRESSOR_LZ4_BLOCK_HEADER_SIZE_def same_task_def)
qed

lemma read_block_waiting:
  assumes "lz4_ok lib" and "waiting lib lz (c # cs)"
  shows "\<exists>lz'. asdf_compressor_lz4_read_block lib [] lz = Some (0, lz', []) \<and> same_task lz' lz \<and> waiting lib lz' cs \<and>
    lb_buf lz' = c \<and> lb_size lz' = length c \<and> lb_pos lz' = 0"
proof -
  obtain l t where l: "asdf_compressor_lz4_read_header lz = (0, l)" "same_task l lz" "length (lh_buf l) = 8" "lh_pos l = 8"
      "lh_block_size l = int (length (zipped lib c))" "lh_decomp_block_size l = int (length c)"
      "drop (lz_pos l) (lz_data l) = zipped lib c @ lz4_stream lib cs @ t"
    using header_waiting [OF assms] by blast
  have c: "c \<noteq> []" "length c \<le> ASDF_COMPRESSOR_LZ4_BLOCK_SIZE" "small_chunks cs" using assms(2) by (auto simp: waiting_def)
  note z = zipped_ok [OF assms(1) c(1,2)]
  have n: "lz_pos l + length (zipped lib c) \<le> length (lz_data l)" using arg_cong [OF l(7), of length] z(3) by (simp del: length_greater_0_conv)
  have d: "drop (lz_pos l + length (zipped lib c)) (lz_data l) = lz4_stream lib cs @ t"
    using arg_cong [OF l(7), of "drop (length (zipped lib c))"] by (simp add: add.commute)
  have m: "mem_read (lz_data l) (lz_pos l) (length (zipped lib c)) = Some (zipped lib c)" using n by (simp add: mem_read_def l(7))
  show ?thesis
    using l z n m c d by (auto simp: asdf_compressor_lz4_read_block_def Let_def waiting_def same_task_def)
qed

section \<open>Chunks\<close>

text \<open>What the decompressor has still to return: the rest of its block and the chunks behind it.\<close>

definition left_over :: "lz4_library \<Rightarrow> lz4_userdata \<Rightarrow> bytes \<Rightarrow> bool" where
  "left_over lib lz rest \<longleftrightarrow> lb_size lz = length (lb_buf lz) \<and> lb_size lz < size_mod \<and> lb_pos lz \<le> lb_size lz \<and>
     (\<exists>cs. waiting lib lz cs \<and> rest = drop (lb_pos lz) (lb_buf lz) @ concat cs)"

lemma left_over_advance:
  assumes "left_over lib lz rest" and "n \<le> lb_size lz - lb_pos lz"
  shows "left_over lib (lz\<lparr>lb_pos := lb_pos lz + n\<rparr>) (drop n rest)"
  using assms by (auto simp: left_over_def waiting_def add.commute) 

lemma decomp_loop:
  assumes "lz4_ok lib" and "left_over lib lz rest" and "need \<le> length rest"
  shows "\<exists>lz'. loop_opt (lz4_decomp_step lib) (need, out, lz, []) = Some (0, out @ take need rest, lz', []) \<and> same_task lz' lz \<and>
    left_over lib lz' (drop need rest)"
  using assms(2,3)
proof (induction need arbitrary: lz rest out rule: less_induct)
  case (less need)
  show ?case
  proof (cases "need = 0")
    case True
    then have "lz4_decomp_step lib (need, out, lz, []) = Some (Inr (0, out, lz, []))" by (simp add: lz4_decomp_step_def)
    then have "loop_opt (lz4_decomp_step lib) (need, out, lz, []) = Some (0, out, lz, [])" by (rule loop_opt_Inr)
    then show ?thesis using True less(2) by (simp add: same_task_def)
  next
    case False
    have "\<exists>l. (if size_sub (lb_size lz) (lb_pos lz) = 0 then asdf_compressor_lz4_read_block lib [] lz else Some (0, lz, [])) = Some (0, l, []) \<and>
        same_task l lz \<and> left_over lib l rest \<and> lb_pos l < lb_size l"
    proof (cases "lb_pos lz = lb_size lz")
      case True
      then obtain cs where cs: "waiting lib lz cs" "rest = concat cs" using less(2) by (auto simp: left_over_def)
      then obtain c cs' where c: "cs = c # cs'" using False less(3) by (cases cs) auto
      obtain l where l: "asdf_compressor_lz4_read_block lib [] lz = Some (0, l, [])" "same_task l lz" "waiting lib l cs'"
          "lb_buf l = c" "lb_size l = length c" "lb_pos l = 0"
        using read_block_waiting [OF assms(1) cs(1) [unfolded c]] by blast
      have "c \<noteq> []" "length c < size_mod" using cs(1) c by (auto simp: waiting_def ASDF_COMPRESSOR_LZ4_BLOCK_SIZE_def size_mod_def)
      then show ?thesis using l cs(2) c True by (auto simp: left_over_def size_sub_def)
    next
      case no: False
      then have "size_sub (lb_size lz) (lb_pos lz) \<noteq> 0" using less(2) by (simp add: left_over_def size_sub_small)
      then show ?thesis using less(2) no by (auto simp: left_over_def same_task_def)
    qed
    then obtain l where l: "(if size_sub (lb_size lz) (lb_pos lz) = 0 then asdf_compressor_lz4_read_block lib [] lz else Some (0, lz, [])) = Some (0, l, [])"
        "same_task l lz" "left_over lib l rest" "lb_pos l < lb_size l" by blast
    let ?n = "min (lb_size l - lb_pos l) need"
    have a: "size_sub (lb_size l) (lb_pos l) = lb_size l - lb_pos l" using l(3,4) by (simp add: left_over_def size_sub_small)
    have t: "take ?n rest = take ?n (drop (lb_pos l) (lb_buf l))" using l(3) by (auto simp: left_over_def)
    have r: "mem_read (lb_buf l) (lb_pos l) ?n = Some (take ?n rest)" 
    unfolding t using l(3,4) by (auto simp: mem_read_def left_over_def)
    let ?l = "l\<lparr>lb_pos := lb_pos l + ?n\<rparr>"
    have "lz4_decomp_step lib (need, out, lz, []) = Some (Inl (need - ?n, out @ take ?n rest, ?l, []))"
      using False l(1,4) r by (simp add: lz4_decomp_step_def a Let_def)
    then have e: "loop_opt (lz4_decomp_step lib) (need, out, lz, []) = loop_opt (lz4_decomp_step lib) (need - ?n, out @ take ?n rest, ?l, [])"
      by (rule loop_opt_Inl)
    have s: "need - ?n < need" "need - ?n \<le> length (drop ?n rest)" using False l(4) less(3) by auto
    obtain l' where "loop_opt (lz4_decomp_step lib) (need - ?n, out @ take ?n rest, ?l, []) =
          Some (0, (out @ take ?n rest) @ take (need - ?n) (drop ?n rest), l', [])" "same_task l' ?l" "left_over lib l' (drop (need - ?n) (drop ?n rest))"
      using less(1) [OF s(1) left_over_advance [OF l(3) min.cobounded1] s(2)] by blast
    moreover have "take ?n rest @ take (need - ?n) (drop ?n rest) = take need rest" "drop (need - ?n) (drop ?n rest) = drop need rest"
      by (auto simp flip: take_add)
    ultimately show ?thesis using e l(2) by (auto simp: same_task_def)
  qed
qed

text \<open>The decompressor has returned the first \<open>p\<close> bytes of what it is to return.\<close>

definition lz4_at :: "lz4_library \<Rightarrow> bytes \<Rightarrow> lz4_userdata \<Rightarrow> nat \<Rightarrow> bool" where
  "lz4_at lib content lz p \<longleftrightarrow> lz4_ok lib \<and> lz_dest_size lz = length content \<and> length content < size_mod \<and> lz_progress lz = p \<and>
     left_over lib lz (drop p content) \<and> (status (lz_info lz) = ASDF_COMPRESSOR_DONE \<longrightarrow> length content \<le> p)"

lemma lz4_behind:
  assumes "lz4_at lib content lz p" and "hint < p"
  shows "\<exists>lz'. asdf_compressor_lz4_decomp lib [] lz n hint = Some (0, None, [], lz', []) \<and> lz4_at lib content lz' p"
  using assms by (auto simp: asdf_compressor_lz4_decomp_def lz4_at_def left_over_def waiting_def)

lemma lz4_ahead:
  assumes "lz4_at lib content lz p" and "p \<le> hint" and "p < length content" and "p + n < size_mod"
  shows "\<exists>lz'. asdf_compressor_lz4_decomp lib [] lz n hint = Some (0, Some p, take n (drop p content), lz', []) \<and>
    lz4_at lib content lz' (p + n) \<and> (length content \<le> p + n \<longrightarrow> status (lz_info lz') = ASDF_COMPRESSOR_DONE)"
proof -
  let ?lz = "lz\<lparr>lz_info := (lz_info lz)\<lparr>status := ASDF_COMPRESSOR_IN_PROGRESS\<rparr>\<rparr>"
  let ?need = "if n < length content - p then n else length content - p"
  have i: "left_over lib ?lz (drop p content)" "lz4_ok lib" "lz_dest_size lz = length content" "lz_progress lz = p" "length content < size_mod"
    using assms(1) by (auto simp: lz4_at_def left_over_def waiting_def)
  have nl: "?need \<le> length (drop p content)" by auto
  obtain l where l: "loop_opt (lz4_decomp_step lib) (?need, [], ?lz, []) = Some (0, take ?need (drop p content), l, [])"
      "same_task l ?lz" "left_over lib l (drop ?need (drop p content))"
    using decomp_loop [OF i(2,1) nl, of "[]"] by (simp only: append_Nil) blast
  have e: "take ?need (drop p content) = take n (drop p content)" "drop ?need (drop p content) = drop (p + n) content"
    by (auto simp: add.commute)
  have "left_over lib (l\<lparr>lz_progress := x, lz_info := y\<rparr>) (drop (p + n) content)" "left_over lib (l\<lparr>lz_progress := x\<rparr>) (drop (p + n) content)" for x y
    using l(3) unfolding e(2) by (simp_all add: left_over_def waiting_def)
  moreover have "asdf_compressor_lz4_decomp lib [] lz n hint = Some (0, Some p, take n (drop p content),
      (if p + n \<ge> length content then l\<lparr>lz_progress := p + n, lz_info := (lz_info l)\<lparr>status := ASDF_COMPRESSOR_DONE\<rparr>\<rparr>
       else l\<lparr>lz_progress := p + n\<rparr>), [])"
    using l(1,2) i assms(2-) by (auto simp: asdf_compressor_lz4_decomp_def Let_def e(1) size_sub_small size_add_small same_task_def)
  ultimately show ?thesis
    using i l(2) by (auto simp: lz4_at_def same_task_def)
qed

section \<open>Compression\<close>

lemma lz4_chunks_empty [simp]: "lz4_chunks [] = []"
  by (simp add: lz4_chunks.simps)

lemma concat_chunks: "concat (lz4_chunks buf) = buf"
proof (induction buf rule: lz4_chunks.induct)
  case (1 buf)
  then show ?case by (cases "buf = []") (simp_all add: lz4_chunks.simps [of buf])
qed

lemma small_lz4_chunks: "small_chunks (lz4_chunks buf)"
proof (induction buf rule: lz4_chunks.induct)
  case (1 buf)
  then show ?case
    by (cases "buf = []")
      (simp_all add: lz4_chunks.simps [of buf] small_chunks_def ASDF_COMPRESSOR_LZ4_BLOCK_SIZE_def)
qed

lemma lz4_chunks_Nil: "lz4_chunks buf = [] \<longleftrightarrow> buf = []"
  by (subst lz4_chunks.simps) simp

lemma comp_chunks:
  assumes "lz4_ok lib" and "small_chunks cs"
  shows "lz4_comp_chunks lib cs = Some (lz4_stream lib cs) \<and> (\<exists>n. lz4_capacity lib cs = Some n)"
  using assms(2)
proof (induction cs)
  case (Cons c cs)
  then have c: "c \<noteq> []" "length c \<le> ASDF_COMPRESSOR_LZ4_BLOCK_SIZE" by auto
  show ?case
    using Cons zipped_ok [OF assms(1) c] by (auto simp: lz4_stream_def block_header_def)
qed (simp add: lz4_stream_def)

lemma lz4_comp_ok: "lz4_ok lib \<Longrightarrow> asdf_compressor_lz4_comp lib [] buf = ((0, Some (lz4_stream lib (lz4_chunks buf))), [])"
  using comp_chunks [OF _ small_lz4_chunks, of lib buf] by (auto simp: asdf_compressor_lz4_comp_def)

lemma lz4_init_at:
  assumes "lz4_ok lib" and "content \<noteq> []" and "length content < size_mod" and "data = lz4_stream lib (lz4_chunks content) @ pad"
  shows "\<exists>lz. asdf_compressor_lz4_init [] data (length content) = (Some lz, []) \<and> lz4_at lib content lz 0"
proof -
  obtain c cs where c: "lz4_chunks content = c # cs" using assms(2) lz4_chunks_Nil by (cases "lz4_chunks content") auto
  let ?lz = "\<lparr>lz_info = \<lparr>status = ASDF_COMPRESSOR_INITIALIZED, optimal_chunk_size = 0\<rparr>, lz_data = data, lz_dest_size = length content,
               lz_pos = 0, lz_progress = 0, lh_buf = replicate 8 0, lh_pos = 0, lh_block_size = 0, lh_decomp_block_size = 0,
               lb_buf = [], lb_cap = 0, lb_size = 0, lb_pos = 0\<rparr>"
  have w: "waiting lib ?lz (c # cs)"
    using small_lz4_chunks [of content] by (auto simp: waiting_def assms(4) c simp del: small_chunks_Cons)
  have c': "c \<noteq> []" "length c < 2 ^ 31" "length (zipped lib c) + 4 < 2 ^ 31" "small_chunks (c # cs)"
    using small_lz4_chunks [of content] zipped_ok(4) [OF assms(1)] by (auto simp: c ASDF_COMPRESSOR_LZ4_BLOCK_SIZE_def)
  have r: "asdf_compressor_lz4_read_header ?lz = (0, ?lz\<lparr>lh_buf := block_header c (zipped lib c), lh_pos := 8, lz_pos := 8,
      lh_block_size := int (length (zipped lib c)), lh_decomp_block_size := int (length c)\<rparr>)"
    using read_block_header [of ?lz c "zipped lib c" "zipped lib c @ lz4_stream lib cs @ pad"] c'
    by (simp add: assms(4) c lz4_stream_def)
  have l: "length (block_header c z) = 8" for z by (simp add: block_header_def)
  show ?thesis
    using c' concat_chunks [of content] assms(1,3)
    by (simp add: asdf_compressor_lz4_init_def r lz4_at_def left_over_def waiting_def l c)
      (intro exI [of _ pad] exI [of _ "c # cs"], simp add: assms(4) c lz4_stream_def l)
qed

text \<open>C11. What the LZ4 compressor writes is read back: the decompressor starts on the container that the
  compressor made of a buffer that is not empty, whatever follows it, returns the buffer in one piece and
  then says that it is done.\<close>

theorem lz4_roundtrip:
  assumes "lz4_ok lib" and "buf \<noteq> []" and "length buf < size_mod"
  shows "\<exists>z lz lz'. asdf_compressor_lz4_comp lib [] buf = ((0, Some z), []) \<and>
    asdf_compressor_lz4_init [] (z @ pad) (length buf) = (Some lz, []) \<and>
    asdf_compressor_lz4_decomp lib [] lz (length buf) 0 = Some (0, Some 0, buf, lz', []) \<and>
    status (lz_info lz') = ASDF_COMPRESSOR_DONE"
proof -
  obtain lz where lz: "asdf_compressor_lz4_init [] (lz4_stream lib (lz4_chunks buf) @ pad) (length buf) = (Some lz, [])" "lz4_at lib buf lz 0"
    using lz4_init_at [OF assms refl] by blast
  show ?thesis using lz4_comp_ok [OF assms(1)] lz lz4_ahead [OF lz(2), of 0 "length buf"] assms(2,3) by auto
qed

text \<open>A library that does not compress.\<close>

definition stored_lz4 :: lz4_library where
  "stored_lz4 = \<lparr>LZ4_compressBound = int, LZ4_compress_default = (\<lambda>c b. (int (length c), c)),
     LZ4_decompress_safe = (\<lambda>z n. (int (length z), z))\<rparr>"

lemma stored_lz4_ok: "lz4_ok stored_lz4"
  by (auto simp: lz4_ok_def stored_lz4_def ASDF_COMPRESSOR_LZ4_BLOCK_SIZE_def)

theorem lz4_roundtrip_witness:
  "\<exists>z lz lz'. asdf_compressor_lz4_comp stored_lz4 [] [1, 2, 3] = ((0, Some z), []) \<and>
    asdf_compressor_lz4_init [] (z @ [0, 0]) 3 = (Some lz, []) \<and>
    asdf_compressor_lz4_decomp stored_lz4 [] lz 3 0 = Some (0, Some 0, [1, 2, 3], lz', []) \<and>
    status (lz_info lz') = ASDF_COMPRESSOR_DONE"
  using lz4_roundtrip [OF stored_lz4_ok, of "[1, 2, 3]" "[0, 0]"] by (simp add: size_mod_def numeral_3_eq_3)

end
