(* ===== verification/Asdf_Compression_Laws.thy ===== *)
theory Asdf_Compression_Laws
  imports Asdf_Compression Asdf_Lz4_Laws
begin

text \<open>
  Decompression as its clients see it: a compressor that returns a content in sequence, as a locale, with the
  three compressors as its instances; the eager mode fills the mapping, and the lazy mode fills every page
  that is asked for with the right bytes, whatever the order of the page faults.
\<close>

section \<open>Alignment\<close>

lemma dvd_align_down: "page dvd align_down page n"
  by (simp add: align_down_def dvd_minus_mod)

lemma dvd_align_up: "page dvd align_up page n"
  by (simp add: align_up_def dvd_align_down)

lemma align_up_bounds: "0 < page \<Longrightarrow> n \<le> align_up page n \<and> align_up page n < n + page"
proof -
  assume "0 < page"
  then have "(n + page - 1) mod page < page" "(n + page - 1) mod page \<le> n + page - 1" by simp_all
  then show ?thesis using \<open>0 < page\<close> unfolding align_up_def align_down_def by arith
qed

lemma align_up_dvd: "0 < page \<Longrightarrow> page dvd n \<Longrightarrow> align_up page n = n"
proof -
  assume h: "0 < page" "page dvd n"
  have "page dvd align_up page n - n" using dvd_align_up h(2) by (rule dvd_diff_nat)
  moreover have "align_up page n - n < page" using align_up_bounds [OF h(1), of n] by arith
  ultimately have "align_up page n - n = 0" by (meson nat_dvd_not_less neq0_conv)
  then show ?thesis using align_up_bounds [OF h(1), of n] by simp
qed

lemma align_up_minus: "0 < page \<Longrightarrow> page dvd p \<Longrightarrow> p \<le> n \<Longrightarrow> align_up page (n - p) = align_up page n - p"
proof -
  assume h: "0 < page" "page dvd p" "p \<le> n"
  obtain k where p: "p = page * k" using h(2) by blast
  have "(n + page - 1 - p) mod page = (n + page - 1) mod page"
  proof -
    have "n + page - 1 = (n + page - 1 - p) + page * k" using h(1,3) p by simp
    then show ?thesis by (metis mod_mult_self2)
  qed
  moreover have "n - p + page - 1 = n + page - 1 - p" using h(3) by simp
  ultimately show ?thesis by (simp add: align_up_def align_down_def)
qed

lemma dvd_less_le: "page dvd a \<Longrightarrow> page dvd b \<Longrightarrow> a < b \<Longrightarrow> a + page \<le> (b :: nat)"
proof -
  assume h: "page dvd a" "page dvd b" "a < b"
  obtain x y where "a = page * x" "b = page * y" using h by (auto elim!: dvdE)
  then have "x < y" using h(3) by simp
  then have "page * (x + 1) \<le> page * y" by (intro mult_left_mono) auto
  then show ?thesis using \<open>a = page * x\<close> \<open>b = page * y\<close> by simp
qed

lemma same_page: "0 < page \<Longrightarrow> page dvd q \<Longrightarrow> align_down page addr < q \<Longrightarrow> addr div page < q div (page :: nat)"
  by (auto simp: align_down_def minus_mod_eq_mult_div elim!: dvdE)

section \<open>The range under lazy decompression\<close>

definition range_size :: "nat \<Rightarrow> bytes \<Rightarrow> nat" where
  "range_size page content = align_up page (length content)"

definition full_range :: "nat \<Rightarrow> bytes \<Rightarrow> bytes" where
  "full_range page content = content @ replicate (range_size page content - length content) 0"

text \<open>A view of what the kernel knows of a range: its bytes, and which of its pages are present.\<close>

record uffd_range =
  ur_bytes :: bytes
  ur_present :: "bool list"

text \<open>What the kernel documents of a registered range: copying whole pages to a place inside it where all pages are
  missing succeeds, and then these pages are present with the bytes copied and the others are as they were;
  waking a thread succeeds and changes no page.\<close>

definition uffd_laws :: "'r uffd_ops \<Rightarrow> ('r \<Rightarrow> uffd_range) \<Rightarrow> nat \<Rightarrow> bool" where
  "uffd_laws uf view page \<longleftrightarrow>
     (\<forall>r off bs dontwake. page dvd off \<and> page dvd length bs \<and> bs \<noteq> [] \<and>
        off + length bs \<le> length (ur_bytes (view r)) \<and>
        (\<forall>i. off div page \<le> i \<and> i < off div page + length bs div page \<longrightarrow> \<not> ur_present (view r) ! i) \<longrightarrow>
        (\<exists>r'. uffdio_copy uf r off bs dontwake = (0, r') \<and> view r' =
           \<lparr>ur_bytes = take off (ur_bytes (view r)) @ bs @ drop (off + length bs) (ur_bytes (view r)),
            ur_present = take (off div page) (ur_present (view r)) @ replicate (length bs div page) True @
              drop (off div page + length bs div page) (ur_present (view r))\<rparr>)) \<and>
     (\<forall>r off n. \<exists>r'. uffdio_wake uf r off n = (0, r') \<and> view r' = view r)"

lemma uffd_copies:
  assumes "uffd_laws uf view page" and "page dvd off" and "page dvd length bs" and "bs \<noteq> []"
    and "off + length bs \<le> length (ur_bytes (view r))"
    and "\<And>i. off div page \<le> i \<Longrightarrow> i < off div page + length bs div page \<Longrightarrow> \<not> ur_present (view r) ! i"
  shows "\<exists>r'. uffdio_copy uf r off bs dontwake = (0, r') \<and> view r' =
    \<lparr>ur_bytes = take off (ur_bytes (view r)) @ bs @ drop (off + length bs) (ur_bytes (view r)),
     ur_present = take (off div page) (ur_present (view r)) @ replicate (length bs div page) True @
       drop (off div page + length bs div page) (ur_present (view r))\<rparr>"
  using assms(1) [unfolded uffd_laws_def, THEN conjunct1, rule_format, of off bs r dontwake] assms(2-) by blast

lemma uffd_wakes: "uffd_laws uf view page \<Longrightarrow> \<exists>r'. uffdio_wake uf r off n = (0, r') \<and> view r' = view r"
  unfolding uffd_laws_def by blast

text \<open>The first \<open>q\<close> bytes are there, and nothing else.\<close>

definition filled :: "nat \<Rightarrow> bytes \<Rightarrow> uffd_range \<Rightarrow> nat \<Rightarrow> bool" where
  "filled page content r q \<longleftrightarrow> q \<le> range_size page content \<and> page dvd q \<and>
     length (ur_bytes r) = range_size page content \<and> take q (ur_bytes r) = take q (full_range page content) \<and>
     ur_present r = replicate (q div page) True @ replicate ((range_size page content - q) div page) False"

definition missing_range :: "nat \<Rightarrow> bytes \<Rightarrow> uffd_range" where
  "missing_range page content = \<lparr>ur_bytes = replicate (range_size page content) 0,
     ur_present = replicate (range_size page content div page) False\<rparr>"

lemma missing_filled: "filled page content (missing_range page content) 0"
  by (simp add: filled_def missing_range_def)

lemma length_full_range: "0 < page \<Longrightarrow> length (full_range page content) = range_size page content"
  using align_up_bounds [of page "length content"] by (simp add: full_range_def range_size_def)

lemma copy_filled:
  assumes laws: "uffd_laws uf view page" and "0 < page" and "filled page content (view r) q" and "page dvd n"
    and "0 < n" and "q + n \<le> range_size page content"
  shows "\<exists>r'. uffdio_copy uf r q (take n (drop q (full_range page content))) dontwake = (0, r') \<and>
    filled page content (view r') (q + n)"
proof -
  let ?bs = "take n (drop q (full_range page content))"
  let ?R = "range_size page content"
  have l: "length ?bs = n" using assms(6) by (simp add: length_full_range [OF assms(2)])
  have f: "page dvd q" "length (ur_bytes (view r)) = ?R" "take q (ur_bytes (view r)) = take q (full_range page content)"
      "ur_present (view r) = replicate (q div page) True @ replicate ((?R - q) div page) False"
    using assms(3) by (auto simp: filled_def)
  have d: "(?R - q) div page = n div page + (?R - (q + n)) div page"
    using assms(4,6) by (metis div_plus_div_distrib_dvd_left diff_diff_left le_add_diff_inverse le_diff_conv2 add.commute add_leD1)
  have s: "(q + n) div page = q div page + n div page" using f(1) by (simp add: div_plus_div_distrib_dvd_left)
  have absent: "\<not> ur_present (view r) ! i" if "q div page \<le> i" "i < q div page + n div page" for i
    using that by (auto simp: f(4) d nth_append)
  have ne: "?bs \<noteq> []" using l assms(5) by auto
  obtain r' where r': "uffdio_copy uf r q ?bs dontwake = (0, r')"
    "view r' = \<lparr>ur_bytes = take q (ur_bytes (view r)) @ ?bs @ drop (q + n) (ur_bytes (view r)), ur_present =
      take (q div page) (ur_present (view r)) @ replicate (n div page) True @ drop (q div page + n div page) (ur_present (view r))\<rparr>"
    using uffd_copies [OF laws f(1) _ ne, of r dontwake] absent assms(4,6) unfolding l f(2) by blast
  have q: "q \<le> length (full_range page content)" using assms(6) by (simp add: length_full_range [OF assms(2)])
  have "take (q + n) (ur_bytes (view r')) = take (q + n) (full_range page content)"
    using q l by (simp add: r'(2) f(3) take_add)
  moreover have "ur_present (view r') = replicate ((q + n) div page) True @ replicate ((?R - (q + n)) div page) False"
    by (simp add: r'(2) f(4) s d replicate_add)
  moreover have "length (ur_bytes (view r')) = ?R" using l f(2) assms(6) by (simp add: r'(2))
  ultimately have "filled page content (view r') (q + n)" using assms(4,6) f(1) by (simp add: filled_def)
  then show ?thesis using r'(1) by blast
qed

section \<open>Compressors that work in sequence\<close>

text \<open>The contract of a decompressor: its state has a position in the content. Asked for an offset in front of the
  position it does nothing; otherwise it returns the next chunk. It is done only behind the end. The bound on
  the size of a chunk is that of the library below.\<close>

locale sequential_decompressor =
  fixes cz :: "'u asdf_compressor" and stands :: "'u \<Rightarrow> nat \<Rightarrow> bool" and content :: bytes and limit :: nat
  assumes behind: "stands u p \<Longrightarrow> hint < p \<Longrightarrow> \<exists>u'. cp_decomp cz [] u n hint = Some (0, None, [], u', []) \<and> stands u' p"
    and ahead: "stands u p \<Longrightarrow> p \<le> hint \<Longrightarrow> p < length content \<Longrightarrow> 0 < n \<Longrightarrow> n < limit \<Longrightarrow> p + n < size_mod \<Longrightarrow>
      \<exists>u'. cp_decomp cz [] u n hint = Some (0, Some p, take n (drop p content), u', []) \<and> stands u' (p + n)"
    and info: "stands u p \<Longrightarrow> \<exists>i. cp_info cz u = Some i \<and> (status i = ASDF_COMPRESSOR_DONE \<longrightarrow> length content \<le> p)"
begin

lemma eager_fills:
  assumes "stands u 0" and "content \<noteq> []" and "length content < limit" and "length content < size_mod"
    and "cs_userdata s = Some u" and "cs_compressor s = cz" and "cs_dest_size s = length content" and "length (cs_dest s) = length content"
  shows "\<exists>u'. asdf_block_decomp_eager [] s = Some (0, s\<lparr>cs_dest := content, cs_userdata := Some u'\<rparr>, [])"
  using ahead [OF assms(1), of 0 "length content"] assms(2-) by (auto simp: asdf_block_decomp_eager_def overwrite_def)

text \<open>The range holds what the decompressor has returned so far.\<close>

definition in_step :: "nat \<Rightarrow> 'u \<Rightarrow> uffd_range \<Rightarrow> nat \<Rightarrow> bool" where
  "in_step page u r p \<longleftrightarrow> stands u p \<and> page dvd p \<and> filled page content r (min p (range_size page content))"

lemma chunk_step:
  assumes "in_step page u (view r) p" and "0 < page" and "page dvd chunk" and "0 < chunk" and "chunk < limit"
    and "range_size page content + chunk < size_mod" and "page dvd offset" and "p \<le> offset" and "offset < range_size page content"
    and laws: "uffd_laws uf view page"
  shows "\<exists>u' r'. pagefault_step uf cz page chunk (length content) offset (ret, u, r, [], []) =
      Some ((if offset < p + chunk then Inr else Inl) (0, u', r', [], [])) \<and> in_step page u' (view r') (p + chunk)"
proof -
  let ?R = "range_size page content"
  have R: "page dvd ?R" "length content \<le> ?R" "?R < length content + page"
    using dvd_align_up align_up_bounds [OF assms(2), of "length content"] by (auto simp: range_size_def)
  have dp: "page dvd p" and st: "stands u p" and f: "filled page content (view r) p"
    using assms(1,8,9) by (auto simp: in_step_def min_def)
  have p: "p < length content" "p + page \<le> ?R" using dvd_less_le [OF dp R(1)] assms(8,9) R(3) by auto
  obtain u' where u: "cp_decomp cz [] u chunk offset = Some (0, Some p, take chunk (drop p content), u', [])" "stands u' (p + chunk)"
    using ahead [OF st assms(8) p(1) assms(4,5)] assms(6) p(2) by auto
  define n where "n = min chunk (?R - p)"
  have n: "align_up page (if size_add p chunk > length content then size_sub (length content) p else chunk) = n"
  proof (cases "p + chunk > length content")
    case True
    then have "?R \<le> p + chunk" using R(3) dvd_less_le [OF dvd_add [OF dp assms(3)] R(1)] by (cases "p + chunk < ?R") auto
    then have "n = ?R - p" by (simp add: n_def)
    moreover have "align_up page (length content - p) = ?R - p" using align_up_minus [OF assms(2) dp] p(1) by (simp add: range_size_def)
    ultimately show ?thesis
      using True p assms(6) R(2) by (simp add: size_add_small size_sub_small)
  next
    case False
    then show ?thesis
      using p assms(2,3,6) R(2) by (auto simp: n_def size_add_small align_up_dvd)
  qed
  have b: "mem_read (overwrite (take chunk (drop p content)) (replicate chunk 0)) 0 n = Some (take n (drop p (full_range page content)))"
  proof -
    have "take n (overwrite (take chunk (drop p content)) (replicate chunk 0)) = take n (drop p (full_range page content))"
      using p(1) R(2) by (auto simp: overwrite_def full_range_def n_def take_append take_replicate min_def)
    moreover have "n \<le> length (overwrite (take chunk (drop p content)) (replicate chunk 0))" by (auto simp: overwrite_def n_def)
    ultimately show ?thesis by (simp add: mem_read_def)
  qed
  have dn: "page dvd n" "0 < n" using assms(2-4) R(1) dp p(2) by (auto simp: n_def min_def)
  have "p + n \<le> ?R" using p(2) by (simp add: n_def)
  then obtain r' where r: "uffdio_copy uf r p (take n (drop p (full_range page content))) (\<not> offset < p + chunk) = (0, r')"
      "filled page content (view r') (p + n)"
    using copy_filled [OF laws assms(2) f dn, of "\<not> offset < p + chunk"] by blast
  have hf: "(p \<le> offset \<and> offset - p < n) = (offset < p + chunk)" using assms(8,9) by (auto simp: n_def)
  have nf: "offset - p < n \<longleftrightarrow> offset < p + chunk" using hf assms(8) by simp
  have got: "p \<noteq> SIZE_MAX" using p(2) assms(4,6) by (simp add: SIZE_MAX_def size_mod_def)
  have "p + n = min (p + chunk) ?R" using p(2) by (auto simp: n_def)
  then have "in_step page u' (view r') (p + chunk)" using r(2) u(2) dp assms(3) by (simp add: in_step_def)
  moreover have "pagefault_step uf cz page chunk (length content) offset (ret, u, r, [], []) =
      Some ((if offset < p + chunk then Inr else Inl) (0, u', r', [], []))"
    using got r(1) by (cases "offset < p + chunk") (simp_all add: pagefault_step_def u(1) n b nf assms(8) Let_def cong: if_cong split del: if_split)
  ultimately show ?thesis by blast
qed

lemma pagefault_loop:
  assumes "in_step page u (view r) p" and "0 < page" and "page dvd chunk" and "0 < chunk" and "chunk < limit"
    and "range_size page content + chunk < size_mod" and "page dvd offset" and "offset < range_size page content"
    and laws: "uffd_laws uf view page"
  shows "\<exists>u' r' p'. loop_opt (pagefault_step uf cz page chunk (length content) offset) (0, u, r, [], []) = Some (0, u', r', [], []) \<and>
    in_step page u' (view r') p' \<and> p \<le> p' \<and> offset < p'"
  using assms(1)
proof (induction "offset + 1 - p" arbitrary: u r p rule: less_induct)
  case less
  show ?case
  proof (cases "offset < p")
    case True
    obtain u' where u: "cp_decomp cz [] u chunk offset = Some (0, None, [], u', [])" "stands u' p"
      using behind [OF _ True] less(2) by (auto simp: in_step_def)
    obtain r' where w: "uffdio_wake uf r offset page = (0, r')" "view r' = view r" using uffd_wakes [OF laws] by blast
    have "pagefault_step uf cz page chunk (length content) offset (0, u, r, [], []) = Some (Inr (0, u', r', [], []))"
      by (simp add: pagefault_step_def u(1) w(1))
    then have "loop_opt (pagefault_step uf cz page chunk (length content) offset) (0, u, r, [], []) = Some (0, u', r', [], [])"
      by (rule loop_opt_Inr)
    then show ?thesis using less(2) u(2) True w(2) by (auto simp: in_step_def)
  next
    case False
    then have le: "p \<le> offset" by simp
    obtain u' r' where s: "pagefault_step uf cz page chunk (length content) offset (0, u, r, [], []) =
        Some ((if offset < p + chunk then Inr else Inl) (0, u', r', [], []))" "in_step page u' (view r') (p + chunk)"
      using chunk_step [where view = view, OF less(2) assms(2-7) le assms(8) laws] by blast
    show ?thesis
    proof (cases "offset < p + chunk")
      case True
      then have "loop_opt (pagefault_step uf cz page chunk (length content) offset) (0, u, r, [], []) = Some (0, u', r', [], [])"
        using s(1) by (intro loop_opt_Inr) simp
      then show ?thesis using s(2) True by (intro exI [of _ u'] exI [of _ r'] exI [of _ "p + chunk"]) simp
    next
      case no: False
      then have e: "loop_opt (pagefault_step uf cz page chunk (length content) offset) (0, u, r, [], []) =
          loop_opt (pagefault_step uf cz page chunk (length content) offset) (0, u', r', [], [])"
        using s(1) by (intro loop_opt_Inl) simp
      have "offset + 1 - (p + chunk) < offset + 1 - p" using le assms(4) by simp
      from less(1) [OF this s(2)] show ?thesis unfolding e by (meson add_leD1)
    qed
  qed
qed

lemma fault_handled:
  assumes "in_step page u (view r) p" and "0 < page" and "page dvd chunk" and "0 < chunk" and "chunk < limit"
    and "range_size page content + chunk < size_mod" and "addr < range_size page content"
    and laws: "uffd_laws uf view page"
  shows "\<exists>u' r' p'. handle_pagefault uf cz page chunk (length content) addr u r [] [] = Some (0, u', r', [], []) \<and>
    in_step page u' (view r') p' \<and> p \<le> p' \<and> align_down page addr < p'"
proof -
  have "align_down page addr < range_size page content" using assms(7) by (simp add: align_down_def)
  from pagefault_loop [where view = view and r = r, OF assms(1-6) dvd_align_down this laws]
  show ?thesis by (simp add: handle_pagefault_def)
qed

lemma present_below:
  assumes "in_step page u r p" and "0 < page" and "align_down page addr < p" and "addr < range_size page content"
  shows "ur_present r ! (addr div page)"
proof -
  let ?q = "min p (range_size page content)"
  have f: "filled page content r ?q" using assms(1) by (simp add: in_step_def)
  have "align_down page addr < ?q" using assms(3,4) by (simp add: align_down_def)
  then have "addr div page < ?q div page" using same_page assms(2) f by (simp add: filled_def)
  then show ?thesis using f by (simp add: filled_def nth_append)
qed

text \<open>A page that is present holds the bytes of the content, and zeros behind its end.\<close>

lemma present_right:
  assumes "in_step page u r p" and "0 < page" and "i < length (ur_present r)" and "ur_present r ! i"
  shows "take page (drop (i * page) (ur_bytes r)) = take page (drop (i * page) (full_range page content))"
proof -
  define q where "q = min p (range_size page content)"
  have f: "filled page content r q" using assms(1) by (simp add: in_step_def q_def)
  then have "i < q div page" using assms(3,4) by (auto simp: filled_def nth_append split: if_splits)
  then have "(i + 1) * page \<le> (q div page) * page" by (intro mult_right_mono) auto
  also have "\<dots> \<le> q" by simp
  finally have le: "i * page + page \<le> q" by (simp add: algebra_simps)
  have "take page (drop (i * page) xs) = take page (drop (i * page) (take q xs))" for xs :: bytes
    using le by (simp add: drop_take min_def)
  then show ?thesis using f unfolding filled_def by metis
qed

lemma present_length:
  assumes "in_step page u r p" and "0 < page"
  shows "length (ur_present r) = range_size page content div page"
proof -
  define q where "q = min p (range_size page content)"
  have f: "q \<le> range_size page content" "page dvd q"
      "length (ur_present r) = q div page + (range_size page content - q) div page"
    using assms(1) by (auto simp: in_step_def filled_def q_def)
  then show ?thesis by (metis div_plus_div_distrib_dvd_left le_add_diff_inverse)
qed

lemma faults_handled:
  assumes "in_step page u (view r) p" and "0 < page" and "page dvd chunk" and "0 < chunk" and "chunk < limit"
    and "range_size page content + chunk < size_mod" and "\<forall>a\<in>set addrs. a < range_size page content"
    and laws: "uffd_laws uf view page"
  shows "\<exists>u' r' p'. userfaultfd_handler uf cz page chunk (length content) (map UFFD_EVT_PAGEFAULT addrs) (0, u, r, [], []) =
      Some (0, u', r', [], []) \<and> in_step page u' (view r') p' \<and> p \<le> p' \<and> (\<forall>a\<in>set addrs. align_down page a < p')"
  using assms(1,7)
proof (induction addrs arbitrary: u r p)
  case Nil
  then show ?case by auto
next
  case (Cons a addrs)
  have "stands u p" using Cons(2) by (simp add: in_step_def)
  then obtain i where i: "cp_info cz u = Some i" "status i = ASDF_COMPRESSOR_DONE \<longrightarrow> length content \<le> p" using info by blast
  show ?case
  proof (cases "status i = ASDF_COMPRESSOR_DONE")
    case True
    have "align_down page b < p" if "b \<in> set (a # addrs)" for b
    proof -
      have "page dvd range_size page content" by (simp add: range_size_def dvd_align_up)
      moreover have "align_down page b < range_size page content" using that Cons(3) by (auto simp: align_down_def)
      ultimately have "align_down page b + page \<le> range_size page content" by (rule dvd_less_le [OF dvd_align_down])
      then show ?thesis using i(2) True align_up_bounds [OF assms(2), of "length content"] by (simp add: range_size_def)
    qed
    then show ?thesis
      using i(1) True Cons(2) by (intro exI [of _ u] exI [of _ r] exI [of _ p]) simp
  next
    case False
    have here: "a < range_size page content" using Cons(3) by simp
    obtain u' r' p' where h: "handle_pagefault uf cz page chunk (length content) a u r [] [] = Some (0, u', r', [], [])"
        "in_step page u' (view r') p'" "p \<le> p'" "align_down page a < p'"
      using fault_handled [where view = view, OF Cons(2) assms(2-6) here laws] by blast
    have rest: "\<forall>b\<in>set addrs. b < range_size page content" using Cons(3) by simp
    obtain u'' r'' p'' where "userfaultfd_handler uf cz page chunk (length content) (map UFFD_EVT_PAGEFAULT addrs) (0, u', r', [], []) =
        Some (0, u'', r'', [], [])" "in_step page u'' (view r'') p''" "p' \<le> p''" "\<forall>b\<in>set addrs. align_down page b < p''"
      using Cons(1) [OF h(2) rest] by blast
    then show ?thesis
      using h i(1) False by (intro exI [of _ u''] exI [of _ r''] exI [of _ p'']) auto
  qed
qed

end

section \<open>The three compressors\<close>

interpretation lz4: sequential_decompressor "lz4_compressor lib" "lz4_at lib content" content size_mod for lib content
proof
  show "\<exists>u'. cp_decomp (lz4_compressor lib) [] u n hint = Some (0, None, [], u', []) \<and> lz4_at lib content u' p"
    if "lz4_at lib content u p" "hint < p" for u p hint n
    using lz4_behind [OF that] by (simp add: lz4_compressor_def)
  show "\<exists>u'. cp_decomp (lz4_compressor lib) [] u n hint = Some (0, Some p, take n (drop p content), u', []) \<and> lz4_at lib content u' (p + n)"
    if "lz4_at lib content u p" "p \<le> hint" "p < length content" "0 < n" "n < size_mod" "p + n < size_mod" for u p hint n
    using lz4_ahead [OF that(1-3,6)] by (auto simp: lz4_compressor_def)
  show "\<exists>i. cp_info (lz4_compressor lib) u = Some i \<and> (status i = ASDF_COMPRESSOR_DONE \<longrightarrow> length content \<le> p)"
    if "lz4_at lib content u p" for u p
    using that by (simp add: lz4_compressor_def lz4_at_def)
qed

text \<open>What zlib and libbz2 say of their streams: with the whole input there, a call fills the output as far as there
  is anything left, and the end is only reported when nothing is. The relation ties a stream to what is left.\<close>

definition stream_ok :: "int \<Rightarrow> int \<Rightarrow> ('z \<Rightarrow> bytes \<Rightarrow> bool) \<Rightarrow> ('z \<Rightarrow> nat \<Rightarrow> int \<times> bytes \<times> 'z) \<Rightarrow> bool" where
  "stream_ok ok end_code left step \<longleftrightarrow> (\<forall>z rest n. left z rest \<and> rest \<noteq> [] \<and> 0 < n \<longrightarrow>
     (\<exists>ret z'. step z n = (ret, take n rest, z') \<and> left z' (drop n rest) \<and> (ret = ok \<or> ret = end_code \<and> length rest \<le> n)))"

definition stream_at ::
  "int \<Rightarrow> int \<Rightarrow> ('z \<Rightarrow> bytes \<Rightarrow> bool) \<Rightarrow> ('z \<Rightarrow> nat \<Rightarrow> int \<times> bytes \<times> 'z) \<Rightarrow> bytes \<Rightarrow> 'z stream_userdata \<Rightarrow> nat \<Rightarrow> bool" where
  "stream_at ok end_code left step content u p \<longleftrightarrow> stream_ok ok end_code left step \<and> zu_progress u = p \<and>
     left (zu_stream u) (drop p content) \<and> (status (zu_info u) = ASDF_COMPRESSOR_DONE \<longrightarrow> length content \<le> p)"

lemma stream_call:
  assumes "stream_at ok end_code left step content u p" and "p < length content" and "0 < n"
  shows "\<exists>ret z. step (zu_stream u) n = (ret, take n (drop p content), z) \<and> left z (drop (p + n) content) \<and>
    (ret = ok \<or> ret = end_code \<and> length content \<le> p + n)"
proof -
  have "drop p content \<noteq> []" using assms(2) by simp
  then obtain ret z where s: "step (zu_stream u) n = (ret, take n (drop p content), z)" "left z (drop n (drop p content))"
      "ret = ok \<or> ret = end_code \<and> length (drop p content) \<le> n"
    using assms(1,3) unfolding stream_at_def stream_ok_def by blast
  then show ?thesis by (intro exI [of _ ret] exI [of _ z]) (auto simp: add.commute)
qed

interpretation zlib: sequential_decompressor "zlib_compressor init cmp inflate" "stream_at Z_OK Z_STREAM_END left inflate content" content UINT_RANGE
  for init cmp inflate left content
proof
  show "\<exists>u'. cp_decomp (zlib_compressor init cmp inflate) [] u n hint = Some (0, None, [], u', []) \<and>
      stream_at Z_OK Z_STREAM_END left inflate content u' p"
    if "stream_at Z_OK Z_STREAM_END left inflate content u p" "hint < p" for u p hint n
    using that by (simp add: zlib_compressor_def asdf_compressor_zlib_decomp_def stream_in_progress_def stream_at_def)
  show "\<exists>u'. cp_decomp (zlib_compressor init cmp inflate) [] u n hint = Some (0, Some p, take n (drop p content), u', []) \<and>
      stream_at Z_OK Z_STREAM_END left inflate content u' (p + n)"
    if "stream_at Z_OK Z_STREAM_END left inflate content u p" "p \<le> hint" "p < length content" "0 < n" "n < UINT_RANGE" "p + n < size_mod"
    for u p hint n
    using stream_call [OF that(1,3,4)] that
    by (auto simp: zlib_compressor_def asdf_compressor_zlib_decomp_def stream_in_progress_def stream_at_def size_add_small Z_OK_def
        Z_STREAM_END_def Let_def)
  show "\<exists>i. cp_info (zlib_compressor init cmp inflate) u = Some i \<and> (status i = ASDF_COMPRESSOR_DONE \<longrightarrow> length content \<le> p)"
    if "stream_at Z_OK Z_STREAM_END left inflate content u p" for u p
    using that by (simp add: zlib_compressor_def stream_at_def)
qed

interpretation bzp2: sequential_decompressor "bzp2_compressor init r cmp dec" "stream_at BZ_OK BZ_STREAM_END left dec content" content UINT_RANGE
  for init r cmp dec left content
proof
  show "\<exists>u'. cp_decomp (bzp2_compressor init r cmp dec) [] u n hint = Some (0, None, [], u', []) \<and>
      stream_at BZ_OK BZ_STREAM_END left dec content u' p"
    if "stream_at BZ_OK BZ_STREAM_END left dec content u p" "hint < p" for u p hint n
    using that by (simp add: bzp2_compressor_def asdf_compressor_bzp2_decomp_def stream_in_progress_def stream_at_def)
  show "\<exists>u'. cp_decomp (bzp2_compressor init r cmp dec) [] u n hint = Some (0, Some p, take n (drop p content), u', []) \<and>
      stream_at BZ_OK BZ_STREAM_END left dec content u' (p + n)"
    if "stream_at BZ_OK BZ_STREAM_END left dec content u p" "p \<le> hint" "p < length content" "0 < n" "n < UINT_RANGE" "p + n < size_mod"
    for u p hint n
    using stream_call [OF that(1,3,4)] that
    by (auto simp: bzp2_compressor_def asdf_compressor_bzp2_decomp_def stream_in_progress_def stream_at_def size_add_small BZ_OK_def
        BZ_STREAM_END_def Let_def)
  show "\<exists>i. cp_info (bzp2_compressor init r cmp dec) u = Some i \<and> (status i = ASDF_COMPRESSOR_DONE \<longrightarrow> length content \<le> p)"
    if "stream_at BZ_OK BZ_STREAM_END left dec content u p" for u p
    using that by (simp add: bzp2_compressor_def stream_at_def)
qed

section \<open>Opening a compressed block\<close>

definition eager_system :: "comp_system \<Rightarrow> asdf_config \<Rightarrow> bool" where
  "eager_system sys config \<longleftrightarrow> sys_mmap sys \<and> sys_temp_file sys \<and>
     (cfg_decomp_mode config = ASDF_BLOCK_DECOMP_MODE_EAGER \<or> \<not> sys_uffd_available sys)"

lemma eager_state:
  assumes "eager_system sys config" and "length content \<le> ASDF_OFF_MAX" and "cp_init cz [] data (length content) = (Some u, [])"
  shows "\<exists>b. asdf_block_comp_state_create sys [] config data (length content) cz =
    (Some \<lparr>cs_mode = ASDF_BLOCK_DECOMP_MODE_EAGER, cs_own_fd = b, cs_dest = replicate (length content) 0,
           cs_dest_size = length content, cs_compressor = cz, cs_userdata = Some u\<rparr>, [])"
  using assms by (auto simp: asdf_block_comp_state_create_def choose_mode_def eager_system_def asdf_block_decomp_lazy_available_def Let_def)

text \<open>A block that the LZ4 compressor wrote is opened: in the eager mode, which is also the mode where the system has
  no page faults to offer, the mapping of the block holds exactly the bytes that were compressed, whether it
  lies in memory or in a temporary file.\<close>

lemma lz4_opened:
  assumes "lz4_ok lib" and "content \<noteq> []" and "length content \<le> ASDF_OFF_MAX" and "eager_system sys config"
    and "asdf_compressor_lz4_comp lib [] content = ((0, Some z), [])"
  shows "\<exists>s. asdf_block_comp_open sys (asdf_compressor_register Map.empty (lz4_compressor lib)) start [] config (bytes_of ''lz4'')
      (z @ pad) (length content) = Some (Inr (Some s)) \<and> cs_dest s = content \<and> cs_dest_size s = length content"
proof -
  let ?cz = "lz4_compressor lib"
  have n: "length content < size_mod" using assms(3) by (simp add: ASDF_OFF_MAX_def size_mod_def)
  have z: "z = lz4_stream lib (lz4_chunks content)" using assms(5) lz4_comp_ok [OF assms(1)] by simp
  obtain u where u: "asdf_compressor_lz4_init [] (z @ pad) (length content) = (Some u, [])" "lz4_at lib content u 0"
    using lz4_init_at [OF assms(1,2) n] z by blast
  have ne: "bytes_of ''lz4'' \<noteq> []" by (simp add: bytes_of_def)
  have g: "asdf_compressor_get (asdf_compressor_register Map.empty ?cz) (bytes_of ''lz4'') = Some ?cz"
    by (simp add: asdf_compressor_get_def asdf_compressor_register_def lz4_compressor_def bytes_of_def Let_def)
  have i: "cp_init ?cz [] (z @ pad) (length content) = (Some u, [])" using u(1) by (simp add: lz4_compressor_def)
  obtain b where s: "asdf_block_comp_state_create sys [] config (z @ pad) (length content) ?cz =
      (Some \<lparr>cs_mode = ASDF_BLOCK_DECOMP_MODE_EAGER, cs_own_fd = b, cs_dest = replicate (length content) 0,
             cs_dest_size = length content, cs_compressor = ?cz, cs_userdata = Some u\<rparr>, [])"
    using eager_state [OF assms(4,3) i] by blast
  show ?thesis
    using lz4.eager_fills [OF u(2) assms(2) n n, of "\<lparr>cs_mode = ASDF_BLOCK_DECOMP_MODE_EAGER, cs_own_fd = b,
        cs_dest = replicate (length content) 0, cs_dest_size = length content, cs_compressor = ?cz, cs_userdata = Some u\<rparr>"]
    by (auto simp: asdf_block_comp_open_def g s ne)
qed

text \<open>C40. A block that says it is LZ4 but holds fewer bytes than the header of one LZ4 block is not reported as an
  error: the compressor does not start, and closing the block then fails the assertion of its destructor.\<close>

theorem short_lz4_block_asserts:
  assumes "length data < ASDF_COMPRESSOR_LZ4_BLOCK_HEADER_SIZE" and "dest_size \<le> ASDF_OFF_MAX" and "eager_system sys config"
  shows "asdf_block_comp_open sys (asdf_compressor_register Map.empty (lz4_compressor lib)) start [] config (bytes_of ''lz4'')
    data dest_size = None"
proof -
  have grow: "lh_pos (lz4_fill_header lz) < 8"
    if "lh_pos lz \<le> lz_pos lz" "lz_pos lz \<le> length (lz_data lz)" "length (lz_data lz) < 8" for lz
    using that
  proof (induction lz rule: lz4_fill_header.induct)
    case (1 lz)
    then show ?case by (subst lz4_fill_header.simps) (simp add: ASDF_COMPRESSOR_LZ4_BLOCK_HEADER_SIZE_def)
  qed
  have "asdf_compressor_lz4_init [] data dest_size = (None, [])"
    using grow [of "\<lparr>lz_info = \<lparr>status = ASDF_COMPRESSOR_INITIALIZED, optimal_chunk_size = 0\<rparr>, lz_data = data,
        lz_dest_size = dest_size, lz_pos = 0, lz_progress = 0, lh_buf = replicate 8 0, lh_pos = 0, lh_block_size = 0,
        lh_decomp_block_size = 0, lb_buf = [], lb_cap = 0, lb_size = 0, lb_pos = 0\<rparr>"] assms(1)
    by (simp add: asdf_compressor_lz4_init_def asdf_compressor_lz4_read_header_def ASDF_COMPRESSOR_LZ4_BLOCK_HEADER_SIZE_def Let_def)
  then have i: "cp_init (lz4_compressor lib) [] data dest_size = (None, [])" by (simp add: lz4_compressor_def)
  have g: "asdf_compressor_get (asdf_compressor_register Map.empty (lz4_compressor lib)) (bytes_of ''lz4'') = Some (lz4_compressor lib)"
    by (simp add: asdf_compressor_get_def asdf_compressor_register_def lz4_compressor_def bytes_of_def Let_def)
  have ne: "bytes_of ''lz4'' \<noteq> []" by (simp add: bytes_of_def)
  show ?thesis
    using assms(2,3) i by (auto simp: asdf_block_comp_open_def g ne asdf_block_comp_state_create_def choose_mode_def eager_system_def
        asdf_block_decomp_lazy_available_def asdf_block_comp_close_def Let_def)
qed

section \<open>Page faults\<close>

lemma lazy_chunk:
  assumes "0 < page"
  shows "page dvd lazy_chunk_size page optimal configured \<and> 0 < lazy_chunk_size page optimal configured"
proof -
  let ?n = "if configured > 0 then configured else if optimal > 0 then optimal else page * ASDF_BLOCK_DECOMP_DEFAULT_PAGES_PER_CHUNK"
  have "0 < ?n" using assms by (simp add: ASDF_BLOCK_DECOMP_DEFAULT_PAGES_PER_CHUNK_def)
  then show ?thesis using align_up_bounds [OF assms, of ?n] dvd_align_up [of page ?n] by (simp add: lazy_chunk_size_def)
qed

text \<open>C9. Lazy decompression of a block that the LZ4 compressor wrote, with a kernel that keeps to what it
  documents of userfaultfd and a range that starts with all pages missing: whatever addresses of the range
  fault, and in whatever order, the handler handles every fault without an error; each page that was asked
  for is present afterwards, and every page that is present holds the bytes of the content, with zeros behind
  its end.\<close>

theorem page_faults_filled:
  assumes "lz4_ok lib" and "content \<noteq> []" and "length content < size_mod"
    and "asdf_compressor_lz4_comp lib [] content = ((0, Some z), [])"
    and "asdf_compressor_lz4_init [] (z @ pad) (length content) = (Some u, [])"
    and "0 < page" and "chunk = lazy_chunk_size page (optimal_chunk_size (lz_info u)) configured"
    and "range_size page content + chunk < size_mod" and "\<forall>a\<in>set addrs. a < range_size page content"
    and "uffd_laws uf view page" and "view r0 = missing_range page content"
  shows "\<exists>u' r. userfaultfd_handler uf (lz4_compressor lib) page chunk (length content) (map UFFD_EVT_PAGEFAULT addrs)
        (0, u, r0, [], []) = Some (0, u', r, [], []) \<and>
      length (ur_present (view r)) = range_size page content div page \<and>
      (\<forall>a\<in>set addrs. ur_present (view r) ! (a div page)) \<and>
      (\<forall>i<length (ur_present (view r)). ur_present (view r) ! i \<longrightarrow>
         take page (drop (i * page) (ur_bytes (view r))) = take page (drop (i * page) (full_range page content)))"
proof -
  have z: "z = lz4_stream lib (lz4_chunks content)" using assms(4) lz4_comp_ok [OF assms(1)] by simp
  have u: "lz4_at lib content u 0" using lz4_init_at [OF assms(1-3)] assms(5) z by (metis option.inject prod.inject)
  have "lz4.in_step lib content page u (view r0) 0" using u missing_filled by (simp add: lz4.in_step_def assms(11))
  moreover have "page dvd chunk" "0 < chunk" using lazy_chunk [OF assms(6)] by (auto simp: assms(7))
  moreover have "chunk < size_mod" using assms(8) by simp
  ultimately obtain u' r p where h: "userfaultfd_handler uf (lz4_compressor lib) page chunk (length content) (map UFFD_EVT_PAGEFAULT addrs)
        (0, u, r0, [], []) = Some (0, u', r, [], [])" "lz4.in_step lib content page u' (view r) p"
        "\<forall>a\<in>set addrs. align_down page a < p"
    using lz4.faults_handled [of lib content page u view r0 0 chunk addrs uf] assms(6,8,9,10) by blast
  then show ?thesis
    using lz4.present_below [OF h(2) assms(6)] lz4.present_right [OF h(2) assms(6)] lz4.present_length [OF h(2) assms(6)] assms(9)
    by blast
qed

section \<open>Concrete blocks\<close>

definition small_system :: comp_system where
  "small_system = \<lparr>sys_total_memory = 0, sys_uffd_available = False, sys_uffd_file_backing = False, sys_temp_file = True,
     sys_mmap = True, sys_page_size = 4096\<rparr>"

text \<open>A kernel whose state is the view: \<^verbatim>\<open>UFFDIO_COPY\<close> fails when a page is present or outside.\<close>

definition sample_uffd :: "nat \<Rightarrow> uffd_range uffd_ops" where
  "sample_uffd page = \<lparr>uffdio_copy = (\<lambda>r off bs dontwake.
      let first = off div page; n = length bs div page in
      if off + length bs > length (ur_bytes r) \<or> (\<exists>i\<in>set [first..<first + n]. ur_present r ! i) then (- 1, r)
      else (0, \<lparr>ur_bytes = take off (ur_bytes r) @ bs @ drop (off + length bs) (ur_bytes r),
                ur_present = take first (ur_present r) @ replicate n True @ drop (first + n) (ur_present r)\<rparr>)),
    uffdio_wake = (\<lambda>r off n. (0, r))\<rparr>"

lemma sample_uffd_laws: "uffd_laws (sample_uffd page) (\<lambda>r. r) page"
  by (simp add: uffd_laws_def sample_uffd_def Let_def)

text \<open>Pages of two bytes, chunks of one page, and faults on the second page, then on the first.\<close>

theorem page_faults_filled_witness:
  "\<exists>z u u' r. asdf_compressor_lz4_comp stored_lz4 [] [1, 2, 3] = ((0, Some z), []) \<and>
    asdf_compressor_lz4_init [] (z @ []) (length [1, 2, 3 :: byte]) = (Some u, []) \<and>
    userfaultfd_handler (sample_uffd 2) (lz4_compressor stored_lz4) 2 2 (length [1, 2, 3 :: byte]) (map UFFD_EVT_PAGEFAULT [3, 0])
      (0, u, missing_range 2 [1, 2, 3], [], []) = Some (0, u', r, [], []) \<and>
    ur_present r ! 1 \<and> take 2 (drop 2 (ur_bytes r)) = [3, 0]"
proof -
  let ?z = "lz4_stream stored_lz4 (lz4_chunks [1, 2, 3])" and ?c = "[1, 2, 3] :: bytes"
  have z: "asdf_compressor_lz4_comp stored_lz4 [] ?c = ((0, Some ?z), [])" by (rule lz4_comp_ok [OF stored_lz4_ok])
  obtain u where u: "asdf_compressor_lz4_init [] (?z @ []) (length ?c) = (Some u, [])"
    using lz4_init_at [OF stored_lz4_ok _ _ refl, of ?c "[]"] by (auto simp: size_mod_def)
  have n: "?c \<noteq> []" "length ?c < size_mod" by (simp_all add: size_mod_def)
  have R: "range_size 2 ?c = 4" by (simp add: range_size_def align_up_def align_down_def)
  have f: "full_range 2 ?c = [1, 2, 3, 0]" unfolding full_range_def R by simp
  have b: "range_size 2 ?c + 2 < size_mod" "\<forall>a\<in>set [3, 0]. a < range_size 2 ?c" by (simp_all add: R size_mod_def)
  have k: "2 = lazy_chunk_size 2 (optimal_chunk_size (lz_info u)) 2" by (simp add: lazy_chunk_size_def align_up_def align_down_def)
  obtain u' r where h: "userfaultfd_handler (sample_uffd 2) (lz4_compressor stored_lz4) 2 2 (length ?c) (map UFFD_EVT_PAGEFAULT [3, 0])
        (0, u, missing_range 2 ?c, [], []) = Some (0, u', r, [], [])" "length (ur_present r) = 4 div 2"
        "\<forall>a\<in>set [3, 0 :: nat]. ur_present r ! (a div 2)"
        "\<forall>i<length (ur_present r). ur_present r ! i \<longrightarrow> take 2 (drop (i * 2) (ur_bytes r)) = take 2 (drop (i * 2) (full_range 2 ?c))"
    using page_faults_filled [OF stored_lz4_ok n z u _ k b sample_uffd_laws HOL.refl] unfolding R by auto
  have "ur_present r ! 1" using h(3) by simp
  moreover have "take 2 (drop 2 (ur_bytes r)) = [3, 0]" using h(4) [rule_format, of 1] h(2) calculation by (simp add: f)
  ultimately show ?thesis using z u h(1) by blast
qed

theorem short_lz4_block_asserts_witness:
  "asdf_block_comp_open small_system (asdf_compressor_register Map.empty (lz4_compressor stored_lz4)) (\<lambda>_. - 1) [] asdf_config_default
     (bytes_of ''lz4'') [0, 0, 0] 10 = None"
  by (rule short_lz4_block_asserts)
    (simp_all add: ASDF_COMPRESSOR_LZ4_BLOCK_HEADER_SIZE_def ASDF_OFF_MAX_def eager_system_def small_system_def)

end
