(* ===== verification/Asdf_Ndarray_Tile.thy ===== *)
theory Asdf_Ndarray_Tile
  imports Asdf_Convert
begin

text \<open>
  Reading tiles of arrays: \<^verbatim>\<open>asdf_ndarray_read_tile_ndim\<close> of \<^verbatim>\<open>src/core/ndarray.c\<close>, its helpers and the
  functions built on it. Shapes, origins and strides are lists of 64-bit words from the outer dimension to
  the inner one. The bytes of the array, which \<^verbatim>\<open>asdf_ndarray_data\<close> finds in a block, are an argument.
\<close>

section \<open>Arrays\<close>

datatype asdf_ndarray_err =
    ASDF_NDARRAY_OK | ASDF_NDARRAY_ERR_OUT_OF_BOUNDS | ASDF_NDARRAY_ERR_OOM | ASDF_NDARRAY_ERR_INVAL
  | ASDF_NDARRAY_ERR_OVERFLOW | ASDF_NDARRAY_ERR_CONVERSION

text \<open>\<^verbatim>\<open>ndim\<close> is the length of the shape.\<close>

record asdf_ndarray =
  nd_source :: nat
  nd_shape :: "u64 list"
  nd_datatype :: asdf_datatype
  nd_byteorder :: asdf_byteorder
  nd_offset :: u64
  nd_strides :: "u64 list"

definition asdf_ndarray_size :: "asdf_ndarray option \<Rightarrow> u64" where
  "asdf_ndarray_size nd =
     (case nd of None \<Rightarrow> 0
      | Some nd \<Rightarrow> if nd_shape nd = [] then 0 else foldl (*) 1 (nd_shape nd))"

definition asdf_ndarray_nbytes :: "asdf_ndarray option \<Rightarrow> u64" where
  "asdf_ndarray_nbytes nd =
     (let size = asdf_ndarray_size nd in
      case nd of None \<Rightarrow> size
      | Some nd \<Rightarrow> if size = 0 then size else size * fst (asdf_datatype_size (nd_datatype nd)))"

section \<open>Helpers\<close>

definition should_byteswap :: "platform \<Rightarrow> nat \<Rightarrow> asdf_byteorder \<Rightarrow> bool" where
  "should_byteswap pf elsize byteorder =
     (if elsize \<le> 1 then False
      else (if big_host pf then ASDF_BYTEORDER_BIG else ASDF_BYTEORDER_LITTLE) \<noteq> byteorder)"

text \<open>The strides in elements, from the inner dimension outwards. A zero stride divides by zero.\<close>

fun asdf_ndarray_read_tile_init_strides :: "u64 list \<Rightarrow> (asdf_ndarray_err + u64 list) option" where
  "asdf_ndarray_read_tile_init_strides [] = None"
| "asdf_ndarray_read_tile_init_strides [_] = Some (Inr [1])"
| "asdf_ndarray_read_tile_init_strides (_ # extent # es) = do {
     r \<leftarrow> asdf_ndarray_read_tile_init_strides (extent # es);
     (case r of Inl err \<Rightarrow> Some (Inl err)
      | Inr strides \<Rightarrow>
          let stride = hd strides in
          if stride = 0 then None
          else if unat extent > (2 ^ 63 - 1) div unat stride then Some (Inl ASDF_NDARRAY_ERR_OUT_OF_BOUNDS)
          else Some (Inr (stride * extent # strides)))
   }"

text \<open>One step of the odometer over the outer dimensions. The odometer and the dimensions, each with the
  origin and the shape of the tile and the stride, are listed from the inner one outwards, as the loop
  visits them. The result tells whether the last row is done, and where the next one starts.\<close>

fun odometer_step ::
  "u64 \<Rightarrow> (u64 \<times> u64 \<times> u64) list \<Rightarrow> u64 list \<Rightarrow> u64 \<Rightarrow> bool \<times> u64 list \<times> u64" where
  "odometer_step es ((origin, shape, stride) # dims) (x # odometer) src =
     (let x = x + 1; src = src + stride * es in
      if x < origin + shape then (False, x # odometer, src)
      else if dims = [] then (True, x # odometer, src)
      else let (finished, odometer, src) = odometer_step es dims odometer (src - shape * stride * es)
           in (finished, origin # odometer, src))"
| "odometer_step es _ odometer src = (True, odometer, src)"

text \<open>The loop over the rows: the buffer of the tile, where the next row goes in it, the odometer and the
  position of the row in the array. The flag of the last row is the one that is kept.\<close>

definition main_loop_step ::
  "(nat \<Rightarrow> (bool \<times> bytes) option) \<Rightarrow> u64 \<Rightarrow> nat \<Rightarrow> (u64 \<times> u64 \<times> u64) list \<Rightarrow>
   bytes \<times> nat \<times> u64 list \<times> u64 \<Rightarrow> (bytes \<times> nat \<times> u64 list \<times> u64 + bool \<times> bytes) option" where
  "main_loop_step row es inner_size dims a =
     (case a of (tile, dst_tmp, odometer, src) \<Rightarrow> do {
        (overflow, out) \<leftarrow> row (unat src);
        tile \<leftarrow> mem_write_at tile dst_tmp out;
        let (finished, odometer, src) = odometer_step es dims odometer src;
        Some (if finished then Inr (overflow, tile) else Inl (tile, dst_tmp + inner_size, odometer, src))
      })"

definition asdf_ndarray_read_tile_main_loop ::
  "(nat \<Rightarrow> (bool \<times> bytes) option) \<Rightarrow> u64 \<Rightarrow> nat \<Rightarrow> (u64 \<times> u64 \<times> u64) list \<Rightarrow> bytes \<Rightarrow> u64 list \<Rightarrow> u64 \<Rightarrow>
   (asdf_ndarray_err \<times> bytes) option" where
  "asdf_ndarray_read_tile_main_loop row es inner_size dims tile odometer src =
     map_option (\<lambda>(overflow, tile). (if overflow then ASDF_NDARRAY_ERR_OVERFLOW else ASDF_NDARRAY_OK, tile))
       (loop_opt (main_loop_step row es inner_size dims) (tile, 0, odometer, src))"

definition check_bounds :: "asdf_ndarray \<Rightarrow> u64 list \<Rightarrow> u64 list \<Rightarrow> bool" where
  "check_bounds nd origin shape \<longleftrightarrow>
     list_all (\<lambda>(n, g, s). \<not> g + s > n) (zip (nd_shape nd) (zip origin shape))"

section \<open>Tiles\<close>

text \<open>The element at the origin of the tile, counted in elements.\<close>

definition origin_offset :: "u64 list \<Rightarrow> u64 list \<Rightarrow> u64" where
  "origin_offset origin strides =
     last origin + sum_list (map2 (*) (butlast origin) (butlast strides))"

text \<open>A result: the error, what \<^verbatim>\<open>*dst\<close> holds, and whether the buffer that was allocated for the tile has
  been freed. A null argument is \<^term>\<open>None\<close>; \<^verbatim>\<open>*dst\<close> is the buffer of the caller or null.\<close>

record tile_result =
  tr_err :: asdf_ndarray_err
  tr_dst :: "bytes option"
  tr_freed :: bool

definition finish_tile :: "bool \<Rightarrow> bool \<Rightarrow> asdf_ndarray_err \<Rightarrow> bytes option \<Rightarrow> tile_result" where
  "finish_tile allocated overflow err dst =
     \<lparr>tr_err = err, tr_dst = dst, tr_freed = (\<not> overflow \<and> err \<noteq> ASDF_NDARRAY_OK \<and> allocated)\<rparr>"

text \<open>The copy, once the tile has a buffer.\<close>

definition copy_tile ::
  "platform \<Rightarrow> heap \<Rightarrow> asdf_ndarray \<Rightarrow> bytes \<Rightarrow> u64 list \<Rightarrow> u64 list \<Rightarrow> ctype \<times> ctype \<times> conv \<Rightarrow> bool \<Rightarrow> nat \<Rightarrow> nat \<Rightarrow>
   u64 \<Rightarrow> bytes option \<Rightarrow> bytes \<Rightarrow> tile_result option" where
  "copy_tile pf hp nd data origin shape c byteswap src_elsize dst_elsize tile_nelems dst tile =
     (let finish = finish_tile (dst = None); (ok, hp) = alloc hp in
      if \<not> ok then Some (finish False ASDF_NDARRAY_ERR_OOM dst)
      else do {
        r \<leftarrow> asdf_ndarray_read_tile_init_strides (nd_shape nd);
        (case r of Inl err \<Rightarrow> Some (finish False err dst)
         | Inr strides \<Rightarrow>
             let offset = origin_offset origin strides * of_nat src_elsize;
                 row = (\<lambda>n src. convert pf c byteswap data src n dst_elsize) in
             if list_all (\<lambda>s. s = 1) (butlast shape) then do {
               (overflow, out) \<leftarrow> row (unat tile_nelems) (unat offset);
               tile \<leftarrow> mem_write_at tile 0 out;
               Some (finish overflow (if overflow then ASDF_NDARRAY_ERR_OVERFLOW else ASDF_NDARRAY_OK) (Some tile))
             }
             else if \<not> fst (alloc hp) then Some (finish False ASDF_NDARRAY_ERR_OOM dst)
             else do {
               (err, tile) \<leftarrow> asdf_ndarray_read_tile_main_loop (row (unat (last shape))) (of_nat src_elsize)
                 (unat (last shape * of_nat dst_elsize))
                 (rev (zip (butlast origin) (zip (butlast shape) (butlast strides))))
                 tile (rev (butlast origin)) offset;
               Some (finish False err (Some tile))
             })
      })"

definition asdf_ndarray_read_tile_ndim ::
  "platform \<Rightarrow> heap \<Rightarrow> asdf_ndarray option \<Rightarrow> bytes \<Rightarrow> u64 list option \<Rightarrow> u64 list option \<Rightarrow>
   asdf_scalar_datatype \<Rightarrow> bytes option option \<Rightarrow> tile_result option" where
  "asdf_ndarray_read_tile_ndim pf hp ndarray data origin shape dst_t dst =
     (case (dst, ndarray, origin, shape) of
        (Some dst, Some nd, Some origin, Some shape) \<Rightarrow>
          let return_err = (\<lambda>err. Some (finish_tile False False err dst));
              src_t = dt_type (nd_datatype nd);
              dst_t = (if dst_t = ASDF_DATATYPE_SOURCE then src_t else dst_t);
              src_elsize = asdf_scalar_datatype_size src_t;
              dst_elsize = asdf_scalar_datatype_size dst_t in
          if src_elsize < 1 \<or> dst_elsize < 1 then return_err ASDF_NDARRAY_ERR_INVAL
          else if length origin < length (nd_shape nd) \<or> length shape < length (nd_shape nd) then None
          else let origin = take (length (nd_shape nd)) origin; shape = take (length (nd_shape nd)) shape in
          if \<not> check_bounds nd origin shape then return_err ASDF_NDARRAY_ERR_OUT_OF_BOUNDS
          else
            let tile_nelems = (if nd_shape nd \<noteq> [] then foldl (*) 1 shape else 0);
                src_tile_size = of_nat src_elsize * tile_nelems;
                tile_size = of_nat dst_elsize * tile_nelems in
            if length data < unat src_tile_size \<or> length data < unat (asdf_ndarray_nbytes (Some nd))
            then return_err ASDF_NDARRAY_ERR_OUT_OF_BOUNDS
            else
              let byteswap = should_byteswap pf src_elsize (nd_byteorder nd) in
              do {
                f \<leftarrow> asdf_ndarray_get_convert_fn pf src_t dst_t;
                (case f of None \<Rightarrow> return_err ASDF_NDARRAY_ERR_CONVERSION
                 | Some c \<Rightarrow>
                     let (ok, hp') = (if dst = None then alloc hp else (True, hp)) in
                     if \<not> ok then return_err ASDF_NDARRAY_ERR_OOM
                     else
                       let tile = (case dst of Some tile \<Rightarrow> tile | None \<Rightarrow> replicate (unat tile_size) 0) in
                       if nd_shape nd = [] \<or> tile_size = 0 then Some (finish_tile False False ASDF_NDARRAY_OK (Some tile))
                       else copy_tile pf hp' nd data origin shape c byteswap src_elsize dst_elsize tile_nelems dst tile)
              }
      | _ \<Rightarrow> Some (finish_tile False False ASDF_NDARRAY_ERR_INVAL (Option.bind dst id)))"

section \<open>Whole arrays, single elements and planes\<close>

definition asdf_ndarray_read_all ::
  "platform \<Rightarrow> heap \<Rightarrow> asdf_ndarray option \<Rightarrow> bytes \<Rightarrow> asdf_scalar_datatype \<Rightarrow> bytes option option \<Rightarrow>
   tile_result option" where
  "asdf_ndarray_read_all pf hp ndarray data dst_t dst =
     (case ndarray of
        None \<Rightarrow> Some (finish_tile False False ASDF_NDARRAY_ERR_INVAL (Option.bind dst id))
      | Some nd \<Rightarrow>
          let (ok, hp) = alloc hp in
          if \<not> ok then Some (finish_tile False False ASDF_NDARRAY_ERR_OOM (Option.bind dst id))
          else asdf_ndarray_read_tile_ndim pf hp ndarray data (Some (replicate (length (nd_shape nd)) 0))
                 (Some (nd_shape nd)) dst_t dst)"

definition ASDF_NDARRAY_READ_AT_STACK_NDIM :: nat where
  "ASDF_NDARRAY_READ_AT_STACK_NDIM = 8"

definition asdf_ndarray_read_at ::
  "platform \<Rightarrow> heap \<Rightarrow> asdf_ndarray option \<Rightarrow> bytes \<Rightarrow> u64 list option \<Rightarrow> asdf_scalar_datatype \<Rightarrow> bytes option \<Rightarrow>
   tile_result option" where
  "asdf_ndarray_read_at pf hp ndarray data indices dst_t dst =
     (case (ndarray, indices, dst) of
        (Some nd, Some ix, Some d) \<Rightarrow>
          if nd_shape nd = [] then Some (finish_tile False False ASDF_NDARRAY_ERR_INVAL dst)
          else
            let (ok, hp) = (if length (nd_shape nd) > ASDF_NDARRAY_READ_AT_STACK_NDIM then alloc hp else (True, hp)) in
            if \<not> ok then Some (finish_tile False False ASDF_NDARRAY_ERR_OOM dst)
            else asdf_ndarray_read_tile_ndim pf hp ndarray data indices
                   (Some (replicate (length (nd_shape nd)) 1)) dst_t (Some dst)
      | _ \<Rightarrow> Some (finish_tile False False ASDF_NDARRAY_ERR_INVAL dst))"

text \<open>\<^verbatim>\<open>ASDF_DEFINE_READ_AT\<close>: one element as a value of its type; the variable starts at zero.\<close>

definition read_typed_at ::
  "platform \<Rightarrow> heap \<Rightarrow> asdf_ndarray option \<Rightarrow> bytes \<Rightarrow> u64 list option \<Rightarrow> asdf_scalar_datatype \<Rightarrow>
   (bytes \<times> asdf_ndarray_err) option" where
  "read_typed_at pf hp ndarray data indices datatype =
     map_option (\<lambda>r. (the (tr_dst r), tr_err r))
       (asdf_ndarray_read_at pf hp ndarray data indices datatype
          (Some (replicate (asdf_scalar_datatype_size datatype) 0)))"

definition asdf_ndarray_read_tile_2d ::
  "platform \<Rightarrow> heap \<Rightarrow> asdf_ndarray \<Rightarrow> bytes \<Rightarrow> u64 \<Rightarrow> u64 \<Rightarrow> u64 \<Rightarrow> u64 \<Rightarrow> u64 list option \<Rightarrow>
   asdf_scalar_datatype \<Rightarrow> bytes option option \<Rightarrow> tile_result option" where
  "asdf_ndarray_read_tile_2d pf hp nd data x y width height plane_origin dst_t dst =
     (let ndim = length (nd_shape nd); dst0 = Option.bind dst id in
      if ndim < 2 then Some (finish_tile False False ASDF_NDARRAY_ERR_OUT_OF_BOUNDS dst0)
      else
        let (ok1, hp) = alloc hp; (ok2, hp) = alloc hp in
        if \<not> ok1 \<or> \<not> ok2 then Some (finish_tile False False ASDF_NDARRAY_ERR_OOM dst0)
        else if (case plane_origin of Some p \<Rightarrow> length p < ndim - 2 | None \<Rightarrow> False) then None
        else
          let lead = (case plane_origin of Some p \<Rightarrow> take (ndim - 2) p | None \<Rightarrow> replicate (ndim - 2) 0) in
          asdf_ndarray_read_tile_ndim pf hp (Some nd) data (Some (lead @ [y, x]))
            (Some (replicate (ndim - 2) 1 @ [height, width])) dst_t dst)"

end
