(* ===== verification/Asdf_Tile_Laws.thy ===== *)
theory Asdf_Tile_Laws
  imports Asdf_Ndarray_Tile
begin

text \<open>
  What a tile holds: the element at every position of the tile is the one of the array at the position
  shifted by the origin, in C order. The odometer is shown to count the rows of the tile, by induction on
  the dimensions, and the strides to be the ones of C order.
\<close>

section \<open>C order\<close>

text \<open>The coordinates of the \<open>j\<close>-th element, and the number of the element at given coordinates.\<close>

fun coords :: "nat list \<Rightarrow> nat \<Rightarrow> nat list" where
  "coords [] j = []"
| "coords (s # ss) j = j div prod_list ss mod s # coords ss j"

fun c_index :: "nat list \<Rightarrow> nat list \<Rightarrow> nat" where
  "c_index (n # ns) (i # is) = i * prod_list ns + c_index ns is"
| "c_index _ _ = 0"

lemma length_coords [simp]: "length (coords ss j) = length ss"
  by (induction ss) simp_all

lemma prod_list_snoc [simp]: "prod_list (xs @ [x]) = prod_list xs * (x :: nat)"
  by (induction xs) simp_all

lemma coords_snoc: "coords (ss @ [s]) j = coords ss (j div s) @ [j mod s]"
  by (induction ss) (simp_all add: div_mult2_eq mult.commute)

lemma coords_less: "0 \<notin> set ss \<Longrightarrow> list_all2 (<) (coords ss j) ss"
  by (induction ss) auto

lemma c_index_snoc: "length is = length ns \<Longrightarrow> c_index (ns @ [n]) (is @ [i]) = c_index ns is * n + i"
  by (induction ns "is" rule: list_induct2') (simp_all add: algebra_simps)

lemma c_index_less: "list_all2 (<) is ns \<Longrightarrow> c_index ns is < prod_list ns \<or> ns = []"
proof (induction "is" ns rule: list_all2_induct)
  case (Cons i "is" n ns)
  have "i * prod_list ns + c_index ns is < Suc i * prod_list ns" if "ns \<noteq> []"
    using Cons.IH that by simp
  moreover have "Suc i * prod_list ns \<le> n * prod_list ns" using Cons.hyps(1) by (intro mult_right_mono) auto
  ultimately show ?case using Cons.hyps(1) by (cases "ns = []") auto
qed simp

section \<open>Strides\<close>

fun c_strides :: "nat list \<Rightarrow> nat list" where
  "c_strides [] = []"
| "c_strides (n # ns) = prod_list ns # c_strides ns"

lemma length_c_strides [simp]: "length (c_strides ns) = length ns"
  by (induction ns) simp_all

lemma last_c_strides: "ns \<noteq> [] \<Longrightarrow> last (c_strides ns) = 1"
proof (induction ns)
  case (Cons n ns)
  then show ?case by (cases ns) simp_all
qed simp

lemma c_index_strides:
  "length is = length ns \<Longrightarrow>
    of_nat (c_index ns is) = (sum_list (map2 (*) (map of_nat is) (map of_nat (c_strides ns))) :: u64)"
  by (induction ns "is" rule: list_induct2') simp_all

lemma prod_pos: "0 \<notin> set ns \<Longrightarrow> 0 < prod_list (ns :: nat list)"
  by (induction ns) auto

lemma init_strides:
  assumes "ns \<noteq> []" and "0 \<notin> set ns" and "prod_list (map unat ns) < 2 ^ 63"
  shows "asdf_ndarray_read_tile_init_strides ns = Some (Inr (map of_nat (c_strides (map unat ns))))"
  using assms
proof (induction ns rule: asdf_ndarray_read_tile_init_strides.induct)
  case (3 n e es)
  let ?p = "prod_list (map unat es)"
  have nz: "0 \<notin> set (map unat es)" using "3.prems"(2) by (auto simp: unat_eq_zero)
  have n0: "0 < unat n" "0 < unat e" using "3.prems"(2) by (auto simp: unat_gt_0)
  have le: "unat e * ?p \<le> prod_list (map unat (n # e # es))" using n0 by (cases "unat n") auto
  have small: "unat e * ?p < 2 ^ 63" using le "3.prems"(3) by linarith
  have p0: "0 < ?p" using nz by (rule prod_pos)
  have p1: "?p < 2 ^ 63" using small n0 by (cases "unat e") auto
  have IH: "asdf_ndarray_read_tile_init_strides (e # es) = Some (Inr (map of_nat (c_strides (map unat (e # es)))))"
    using "3.IH" "3.prems" small by simp
  have u: "unat (of_nat ?p :: u64) = ?p" using p1 by (simp add: unat_of_nat take_bit_eq_mod)
  have "(of_nat ?p :: u64) \<noteq> 0" using u p0 by (metis less_numeral_extra(3) unat_0)
  moreover have "\<not> (2 ^ 63 - 1) div ?p < unat e"
    using small p0 by (simp add: not_less less_eq_div_iff_mult_less_eq)
  moreover have "(of_nat ?p * e :: u64) = of_nat (unat e * ?p)" by simp
  ultimately show ?case by (simp add: IH u Let_def del: of_nat_mult)
qed simp_all

section \<open>The odometer\<close>

fun digits :: "(u64 \<times> u64 \<times> u64) list \<Rightarrow> nat \<Rightarrow> u64 list" where
  "digits [] q = []"
| "digits ((g, s, k) # ds) q = (g + of_nat (q mod unat s)) # digits ds (q div unat s)"

definition dot :: "(u64 \<times> u64 \<times> u64) list \<Rightarrow> u64 list \<Rightarrow> u64" where
  "dot ds xs = sum_list (map2 (\<lambda>(g, s, k) x. x * k) ds xs)"

definition row_count :: "(u64 \<times> u64 \<times> u64) list \<Rightarrow> nat" where
  "row_count ds = prod_list (map (\<lambda>(g, s, k). unat s) ds)"

definition dims_ok :: "(u64 \<times> u64 \<times> u64) list \<Rightarrow> bool" where
  "dims_ok ds \<longleftrightarrow> list_all (\<lambda>(g, s, k). s \<noteq> 0 \<and> unat g + unat s < 2 ^ 64) ds"

lemma row_count_Cons [simp]: "row_count ((g, s, k) # ds) = unat s * row_count ds"
  by (simp add: row_count_def)

lemma row_count_Nil [simp]: "row_count [] = 1"
  by (simp add: row_count_def)

lemma row_count_pos: "dims_ok ds \<Longrightarrow> 0 < row_count ds"
  by (induction ds) (auto simp: dims_ok_def unat_gt_0)

lemma word_add_less:
  assumes "unat (g :: u64) + unat s < 2 ^ 64" and "m < unat s"
  shows "g + of_nat m < g + s"
proof -
  have "unat (of_nat m :: u64) = m" using assms unsigned_less [of s] by (simp add: unat_of_nat take_bit_eq_mod)
  moreover from this have "unat (g + of_nat m) = unat g + m" using assms by (simp add: unat_word_ariths)
  moreover have "unat (g + s) = unat g + unat s" using assms by (simp add: unat_word_ariths)
  ultimately show ?thesis using assms(2) by (simp add: word_less_nat_alt)
qed

text \<open>A step of the odometer goes to the next row, and tells when there is none.\<close>

lemma odometer_step_next:
  assumes "dims_ok ds" and "ds \<noteq> []" and "q < row_count ds"
  shows "\<exists>od src'. odometer_step es ds (digits ds q) src = (Suc q = row_count ds, od, src') \<and>
    (Suc q < row_count ds \<longrightarrow> od = digits ds (Suc q) \<and>
      src' = src + es * (dot ds (digits ds (Suc q)) - dot ds (digits ds q)))"
  using assms
proof (induction ds arbitrary: q src)
  case (Cons d ds)
  obtain g s k where d: "d = (g, s, k)" by (cases d)
  have s0: "0 < unat s" and nowrap: "unat g + unat s < 2 ^ 64" and ok: "dims_ok ds"
    using Cons.prems(1) by (auto simp: d dims_ok_def unat_gt_0)
  let ?r = "q mod unat s" and ?q = "q div unat s"
  have dig: "digits (d # ds) q = (g + of_nat ?r) # digits ds ?q" by (simp add: d)
  have r: "?r < unat s" using s0 by simp
  show ?case
  proof (cases "Suc ?r < unat s")
    case True
    have n: "Suc q mod unat s = Suc ?r" "Suc q div unat s = ?q"
      using True by (simp_all add: mod_Suc div_Suc)
    have lt: "g + of_nat ?r + 1 < g + s"
      using word_add_less [OF nowrap True] by (simp add: ac_simps)
    have dig': "digits (d # ds) (Suc q) = (g + of_nat ?r + 1) # digits ds ?q"
      by (simp add: d n add.assoc add.commute)
    have "Suc q \<noteq> row_count (d # ds)"
    proof
      assume "Suc q = row_count (d # ds)"
      then have "Suc q mod unat s = 0" by (simp add: d)
      with n show False by simp
    qed
    moreover have "src + k * es = src + es * (dot (d # ds) (digits (d # ds) (Suc q)) - dot (d # ds) (digits (d # ds) q))"
      by (simp add: dig dot_def d n algebra_simps)
    moreover have "odometer_step es (d # ds) (digits (d # ds) q) src =
        (False, (g + of_nat ?r + 1) # digits ds ?q, src + k * es)"
      using lt by (simp add: dig d Let_def)
    ultimately show ?thesis using dig' by auto
  next
    case False
    then have re: "Suc ?r = unat s" using r by simp
    have n: "Suc q mod unat s = 0" "Suc q div unat s = Suc ?q"
      using re by (simp_all add: mod_Suc div_Suc)
    have rs: "(of_nat ?r + 1 :: u64) = s" using arg_cong [OF re, of "of_nat :: nat \<Rightarrow> u64"] by (simp add: add.commute)
    have "g + of_nat ?r + 1 = g + s" using rs by (simp add: add.assoc)
    then have nlt: "\<not> g + of_nat ?r + 1 < g + s" by (simp only: order_less_irrefl not_False_eq_True)
    have dig': "digits (d # ds) (Suc q) = g # digits ds (Suc ?q)" by (simp add: d n)
    have q: "q = ?q * unat s + ?r" by simp
    have qs: "Suc q = Suc ?q * unat s" using q re by (metis add_Suc_right mult_Suc add.commute)
    have rc: "row_count (d # ds) = row_count ds * unat s" by (simp add: d)
    have cnt: "Suc q = row_count (d # ds) \<longleftrightarrow> Suc ?q = row_count ds" "?q < row_count ds"
      using s0 Cons.prems(3) unfolding rc by (metis qs mult_cancel2 less_numeral_extra(3), simp add: less_mult_imp_div_less)
    show ?thesis
    proof (cases "ds = []")
      case True
      then have "Suc q = row_count (d # ds)" using cnt by simp
      moreover have "odometer_step es (d # ds) (digits (d # ds) q) src =
          (True, (g + of_nat ?r + 1) # digits ds ?q, src + k * es)"
        using nlt True by (simp add: dig d Let_def)
      ultimately show ?thesis by simp
    next
      case nonempty: False
      obtain od src' where IH: "odometer_step es ds (digits ds ?q) (src + k * es - s * k * es) =
            (Suc ?q = row_count ds, od, src')"
          "Suc ?q < row_count ds \<longrightarrow> od = digits ds (Suc ?q) \<and>
            src' = src + k * es - s * k * es + es * (dot ds (digits ds (Suc ?q)) - dot ds (digits ds ?q))"
        using Cons.IH [OF ok nonempty cnt(2)] by blast
      have step: "odometer_step es (d # ds) (digits (d # ds) q) src = (Suc ?q = row_count ds, g # od, src')"
        using IH(1) nlt nonempty by (simp add: dig d Let_def)
      have gen: "src + k * es - (m + 1) * k * es + es * (a - b) = src + es * (g * k + a - ((g + m) * k + b))" for m a b
        by (simp add: algebra_simps)
      have sk: "src + k * es - s * k * es + es * (a - b) = src + es * (g * k + a - ((g + of_nat ?r) * k + b))" for a b
        using gen [of "of_nat ?r"] by (simp only: rs)
      have dots: "dot (d # ds) (digits (d # ds) (Suc q)) = g * k + dot ds (digits ds (Suc ?q))"
          "dot (d # ds) (digits (d # ds) q) = (g + of_nat ?r) * k + dot ds (digits ds ?q)"
        unfolding dig dig' by (simp_all add: dot_def d)
      have "g # od = digits (d # ds) (Suc q) \<and>
          src' = src + es * (dot (d # ds) (digits (d # ds) (Suc q)) - dot (d # ds) (digits (d # ds) q))"
        if "Suc q < row_count (d # ds)"
      proof -
        have "Suc ?q < row_count ds" using that cnt by auto
        with IH(2) have "od = digits ds (Suc ?q)"
            "src' = src + k * es - s * k * es + es * (dot ds (digits ds (Suc ?q)) - dot ds (digits ds ?q))"
          by blast+
        then show ?thesis by (intro conjI, simp only: dig', simp only: dots sk)
      qed
      with step cnt(1) show ?thesis by auto
    qed
  qed
qed simp

text \<open>The loop over the rows puts every row in its place, and keeps the flag of the last one.\<close>

lemma main_loop_rows:
  assumes ok: "dims_ok ds" "ds \<noteq> []"
    and row: "\<And>q. q < row_count ds \<Longrightarrow> row (unat (x + es * dot ds (digits ds q))) = Some (ovr q, outr q) \<and>
      length (outr q) = isz"
    and "q < row_count ds" and "length pre = q * isz" and "length rest = (row_count ds - q) * isz"
  shows "loop_opt (main_loop_step row es isz ds) (pre @ rest, q * isz, digits ds q, x + es * dot ds (digits ds q)) =
    Some (ovr (row_count ds - 1), pre @ concat (map outr [q..<row_count ds]))"
  using assms(4-6)
proof (induction "row_count ds - q" arbitrary: q pre rest)
  case 0
  then show ?case by simp
next
  case (Suc m)
  obtain od src' where st: "odometer_step es ds (digits ds q) (x + es * dot ds (digits ds q)) =
        (Suc q = row_count ds, od, src')"
      and nx: "Suc q < row_count ds \<longrightarrow> od = digits ds (Suc q) \<and>
        src' = x + es * dot ds (digits ds q) + es * (dot ds (digits ds (Suc q)) - dot ds (digits ds q))"
    using odometer_step_next [OF ok Suc.prems(1)] by blast
  have len: "length (outr q) = isz" and r: "row (unat (x + es * dot ds (digits ds q))) = Some (ovr q, outr q)"
    using row [OF Suc.prems(1)] by auto
  have isz: "isz \<le> length rest" using Suc.prems(1,3) by (cases "row_count ds - q") auto
  have w: "mem_write_at (pre @ rest) (q * isz) (outr q) = Some ((pre @ outr q) @ drop isz rest)"
    using isz len Suc.prems(2) by (simp add: mem_write_at_def)
  have body: "main_loop_step row es isz ds (pre @ rest, q * isz, digits ds q, x + es * dot ds (digits ds q)) =
      Some (if Suc q = row_count ds then Inr (ovr q, (pre @ outr q) @ drop isz rest)
            else Inl ((pre @ outr q) @ drop isz rest, Suc q * isz, od, src'))"
    by (simp add: main_loop_step_def r w st add.commute)
  have ups: "[q..<row_count ds] = q # [Suc q..<row_count ds]" using Suc.prems(1) by (simp add: upt_conv_Cons)
  show ?case
  proof (cases "Suc q = row_count ds")
    case True
    then have l: "row_count ds - 1 = q" "[Suc q..<row_count ds] = []" by simp_all
    have "row_count ds - q = 1" using True by simp
    then have "length rest = isz" using Suc.prems(3) by simp
    then show ?thesis using body True l ups by (simp add: loop_opt_Inr)
  next
    case False
    then have lt: "Suc q < row_count ds" using Suc.prems(1) by simp
    have m: "m = row_count ds - Suc q" using Suc.hyps(2) by simp
    have lr: "length (drop isz rest) = (row_count ds - Suc q) * isz"
    proof -
      have "row_count ds - q = Suc (row_count ds - Suc q)" using lt by simp
      then show ?thesis using Suc.prems(3) by simp
    qed
    have lp: "length (pre @ outr q) = Suc q * isz" using Suc.prems(2) len by simp
    have src: "src' = x + es * dot ds (digits ds (Suc q))" and od: "od = digits ds (Suc q)"
      using nx lt by (simp_all add: algebra_simps)
    have "loop_opt (main_loop_step row es isz ds) (pre @ rest, q * isz, digits ds q, x + es * dot ds (digits ds q)) =
        loop_opt (main_loop_step row es isz ds) ((pre @ outr q) @ drop isz rest, Suc q * isz, od, src')"
      by (rule loop_opt_Inl) (simp add: body False)
    also have "\<dots> = Some (ovr (row_count ds - 1), (pre @ outr q) @ concat (map outr [Suc q..<row_count ds]))"
      unfolding src od by (rule Suc.hyps(1) [OF m lt lp lr])
    finally show ?thesis by (simp add: ups)
  qed
qed

section \<open>Where the rows are\<close>

text \<open>The number in the array of the \<open>j\<close>-th element of a tile.\<close>

definition tile_index :: "u64 list \<Rightarrow> u64 list \<Rightarrow> u64 list \<Rightarrow> nat \<Rightarrow> nat" where
  "tile_index ns origin shape j = c_index (map unat ns) (map2 (+) (map unat origin) (coords (map unat shape) j))"

definition tile_in :: "u64 list \<Rightarrow> u64 list \<Rightarrow> u64 list \<Rightarrow> bool" where
  "tile_in ns origin shape \<longleftrightarrow> ns \<noteq> [] \<and> length origin = length ns \<and> length shape = length ns \<and> 0 \<notin> set shape \<and>
     list_all (\<lambda>(n, g, s). unat g + unat s \<le> unat n) (zip ns (zip origin shape))"

lemma digits_rev:
  "digits (rev ds) q = rev (map2 (\<lambda>(g, s, k) c. g + of_nat c) ds (coords (map (\<lambda>(g, s, k). unat s) ds) q))"
proof (induction ds arbitrary: q rule: rev_induct)
  case (snoc d ds)
  then show ?case by (cases d) (simp add: coords_snoc)
qed simp

lemma dot_rev: "length xs = length ds \<Longrightarrow> dot (rev ds) (rev xs) = dot ds xs"
  by (simp add: dot_def zip_rev rev_map [symmetric] sum_list_rev)

lemma coords_0: "coords ss 0 = replicate (length ss) 0"
  by (induction ss) simp_all

lemma dot_zip:
  "length ss = length gs \<Longrightarrow> length ks = length gs \<Longrightarrow> length xs = length gs \<Longrightarrow>
    dot (zip gs (zip ss ks)) xs = sum_list (map2 (*) xs ks)"
proof (induction gs arbitrary: ss ks xs)
  case (Cons g gs)
  then obtain s ss' k ks' x xs' where "ss = s # ss'" "ks = k # ks'" "xs = x # xs'"
    by (metis length_Suc_conv)
  with Cons show ?case by (simp add: dot_def)
qed (simp add: dot_def)

lemma map_shape_zip: "length ss = length gs \<Longrightarrow> length ks = length gs \<Longrightarrow>
    map (\<lambda>(g, s, k). f s) (zip gs (zip ss ks)) = map f ss"
proof (induction gs arbitrary: ss ks)
  case (Cons g gs)
  then obtain s ss' k ks' where "ss = s # ss'" "ks = k # ks'" by (metis length_Suc_conv)
  with Cons show ?case by simp
qed simp

text \<open>The outer dimensions of a tile with the strides of the array.\<close>

definition tile_strides :: "u64 list \<Rightarrow> u64 list" where
  "tile_strides ns = map of_nat (c_strides (map unat ns))"

definition outer :: "u64 list \<Rightarrow> u64 list \<Rightarrow> u64 list \<Rightarrow> (u64 \<times> u64 \<times> u64) list" where
  "outer ns origin shape = zip (butlast origin) (zip (butlast shape) (butlast (tile_strides ns)))"

lemma length_tile_strides [simp]: "length (tile_strides ns) = length ns"
  by (simp add: tile_strides_def)

lemma snoc_last: "xs \<noteq> [] \<Longrightarrow> xs = butlast xs @ [last xs]"
  by simp

lemma tile_in_ne: "tile_in ns origin shape \<Longrightarrow> ns \<noteq> [] \<and> origin \<noteq> [] \<and> shape \<noteq> [] \<and>
    length origin = length ns \<and> length shape = length ns"
  by (auto simp: tile_in_def)

lemma coords_last:
  assumes "shape \<noteq> []" and "i < unat (last shape)"
  shows "coords (map unat shape) (q * unat (last shape) + i) = coords (map unat (butlast shape)) q @ [i]"
proof -
  have "map unat shape = map unat (butlast shape) @ [unat (last shape)]"
    using arg_cong [OF snoc_last [OF assms(1)], of "map unat"] by simp
  moreover have "(q * unat (last shape) + i) div unat (last shape) = q" "(q * unat (last shape) + i) mod unat (last shape) = i"
    using assms(2) by simp_all
  ultimately show ?thesis by (simp add: coords_snoc)
qed

lemma zip_last: "length xs = length ys \<Longrightarrow> xs \<noteq> [] \<Longrightarrow>
    zip xs ys = zip (butlast xs) (butlast ys) @ [(last xs, last ys)]"
  using zip_append [of "butlast xs" "butlast ys" "[last xs]" "[last ys]"]
  by (cases "ys = []") simp_all

lemma map_last: "xs \<noteq> [] \<Longrightarrow> map f xs = map f (butlast xs) @ [f (last xs)]"
  by (metis append_butlast_last_id list.simps(8,9) map_append)

lemma tile_index_row:
  assumes t: "tile_in ns origin shape" and i: "i < unat (last shape)"
  shows "tile_index ns origin shape (q * unat (last shape) + i) =
    c_index (map unat (butlast ns)) (map2 (+) (map unat (butlast origin)) (coords (map unat (butlast shape)) q)) * unat (last ns)
      + unat (last origin) + i"
proof -
  have ne: "ns \<noteq> []" "origin \<noteq> []" "shape \<noteq> []" "length origin = length ns" "length shape = length ns"
    using tile_in_ne [OF t] by auto
  have "map2 (+) (map unat origin) (coords (map unat (butlast shape)) q @ [i]) =
      map2 (+) (map unat (butlast origin)) (coords (map unat (butlast shape)) q) @ [unat (last origin) + i]"
    using ne by (simp add: map_last [OF ne(2)])
  then show ?thesis
    using ne by (simp add: tile_index_def coords_last [OF ne(3) i] map_last [OF ne(1)] c_index_snoc)
qed

lemma tile_index_contiguous:
  assumes "tile_in ns origin shape" and "i < unat (last shape)"
  shows "tile_index ns origin shape (q * unat (last shape) + i) = tile_index ns origin shape (q * unat (last shape)) + i"
proof -
  have "0 < unat (last shape)" using assms(2) by simp
  from tile_index_row [OF assms(1) this, of q] tile_index_row [OF assms, of q] show ?thesis by simp
qed

lemma tile_index_less:
  assumes "tile_in ns origin shape"
  shows "tile_index ns origin shape j < prod_list (map unat ns)"
proof -
  have "0 \<notin> set (map unat shape)" using assms by (auto simp: tile_in_def unat_eq_zero)
  then have c: "list_all2 (<) (coords (map unat shape) j) (map unat shape)" by (rule coords_less)
  have "list_all2 (<) (map2 (+) (map unat origin) (coords (map unat shape) j)) (map unat ns)"
  proof (rule list_all2_all_nthI)
    show l: "length (map2 (+) (map unat origin) (coords (map unat shape) j)) = length (map unat ns)"
      using assms by (simp add: tile_in_def)
    fix i assume "i < length (map2 (+) (map unat origin) (coords (map unat shape) j))"
    with l have i: "i < length ns" by simp
    have len: "length origin = length ns" "length shape = length ns" using assms by (simp_all add: tile_in_def)
    have "coords (map unat shape) j ! i < unat (shape ! i)"
      using list_all2_nthD2 [OF c, of i] i len by simp
    moreover have "unat (origin ! i) + unat (shape ! i) \<le> unat (ns ! i)"
      using assms i len by (auto simp: tile_in_def list_all_length)
    ultimately show "map2 (+) (map unat origin) (coords (map unat shape) j) ! i < map unat ns ! i"
      using i len by simp
  qed
  from c_index_less [OF this] show ?thesis using assms by (auto simp: tile_index_def tile_in_def)
qed

lemma butlast_tile_strides:
  assumes "ns \<noteq> []"
  shows "tile_strides ns = butlast (tile_strides ns) @ [1]"
proof -
  have n: "tile_strides ns \<noteq> []" "map unat ns \<noteq> []" "c_strides (map unat ns) \<noteq> []"
    by (metis assms length_0_conv length_tile_strides, metis assms Nil_is_map_conv,
        metis assms length_0_conv length_c_strides length_map)
  then have "last (tile_strides ns) = 1"
    using last_c_strides [OF n(2)] by (simp add: tile_strides_def last_map)
  with snoc_last [OF n(1)] show ?thesis by metis
qed

lemma digits_outer:
  assumes "tile_in ns origin shape"
  shows "digits (rev (outer ns origin shape)) q =
    rev (map2 (\<lambda>g c. g + of_nat c) (butlast origin) (coords (map unat (butlast shape)) q))"
proof -
  have len: "length (butlast shape) = length (butlast origin)" "length (butlast (tile_strides ns)) = length (butlast origin)"
    using tile_in_ne [OF assms] by simp_all
  have "map2 (\<lambda>(g, s, k) c. g + of_nat c) (zip gs (zip ss ks)) cs = map2 (\<lambda>g c. g + of_nat c :: u64) gs cs"
    if "length ss = length gs" "length ks = length gs" for gs :: "u64 list" and ss ks :: "u64 list" and cs
    using that
  proof (induction gs arbitrary: ss ks cs)
    case (Cons g gs)
    then obtain s ss' k ks' where "ss = s # ss'" "ks = k # ks'" by (metis length_Suc_conv)
    with Cons show ?case by (cases cs) simp_all
  qed simp
  then show ?thesis
    unfolding outer_def digits_rev map_shape_zip [OF len] using len by simp
qed

lemma row_position:
  assumes "tile_in ns origin shape"
  shows "(of_nat (tile_index ns origin shape (q * unat (last shape))) :: u64) =
    last origin + dot (rev (outer ns origin shape)) (digits (rev (outer ns origin shape)) q)"
proof -
  have ne: "ns \<noteq> []" "origin \<noteq> []" "shape \<noteq> []" "length origin = length ns" "length shape = length ns"
    using tile_in_ne [OF assms] by auto
  let ?K = "butlast (tile_strides ns)"
  let ?A = "map2 (\<lambda>g c. g + of_nat c) (butlast origin) (coords (map unat (butlast shape)) q)"
  have s0: "0 < unat (last shape)"
    using assms last_in_set [OF ne(3)] by (auto simp: tile_in_def unat_gt_0)
  have co: "coords (map unat shape) (q * unat (last shape)) = coords (map unat (butlast shape)) q @ [0]"
    using coords_last [OF ne(3) s0, of q] by simp
  have idx: "map of_nat (map2 (+) (map unat origin) (coords (map unat shape) (q * unat (last shape)))) = ?A @ [last origin]"
    using ne by (simp add: co map_last [OF ne(2)] zip_map1 case_prod_beta comp_def)
  have "(of_nat (tile_index ns origin shape (q * unat (last shape))) :: u64) =
      sum_list (map2 (*) (?A @ [last origin]) (tile_strides ns))"
    unfolding tile_index_def tile_strides_def idx [symmetric] by (rule c_index_strides) (use ne in simp)
  also have "\<dots> = sum_list (map2 (*) (?A @ [last origin]) (?K @ [1]))"
    using butlast_tile_strides [OF ne(1)] by simp
  also have "\<dots> = last origin + sum_list (map2 (*) ?A ?K)" using ne by simp
  also have "sum_list (map2 (*) ?A ?K) = dot (outer ns origin shape) ?A"
    unfolding outer_def by (rule dot_zip [symmetric]) (use ne in simp_all)
  also have "\<dots> = dot (rev (outer ns origin shape)) (rev ?A)"
    by (rule dot_rev [symmetric]) (use ne in \<open>simp add: outer_def\<close>)
  finally show ?thesis by (simp only: digits_outer [OF assms])
qed

lemma digits_start:
  assumes "tile_in ns origin shape"
  shows "digits (rev (outer ns origin shape)) 0 = rev (butlast origin)"
proof -
  have z: "map2 (\<lambda>g c. g + of_nat c) gs (replicate (length gs) 0) = (gs :: u64 list)" for gs
    by (induction gs) simp_all
  show ?thesis
    using z [of "butlast origin"] tile_in_ne [OF assms] by (simp add: digits_outer [OF assms] coords_0)
qed

lemma origin_position:
  assumes "tile_in ns origin shape"
  shows "origin_offset origin (tile_strides ns) = of_nat (tile_index ns origin shape 0)"
proof -
  have ne: "ns \<noteq> []" "origin \<noteq> []" "shape \<noteq> []" "length origin = length ns" "length shape = length ns"
    using tile_in_ne [OF assms] by auto
  have "dot (outer ns origin shape) (butlast origin) = sum_list (map2 (*) (butlast origin) (butlast (tile_strides ns)))"
    unfolding outer_def by (rule dot_zip) (use ne in simp_all)
  moreover have "dot (rev (outer ns origin shape)) (rev (butlast origin)) = dot (outer ns origin shape) (butlast origin)"
    by (rule dot_rev) (use ne in \<open>simp add: outer_def\<close>)
  ultimately show ?thesis
    using row_position [OF assms, of 0] by (simp add: digits_start [OF assms] origin_offset_def)
qed

section \<open>The contents of a tile\<close>

lemma dims_ok_outer:
  assumes "tile_in ns origin shape"
  shows "dims_ok (rev (outer ns origin shape))"
proof -
  have "s \<noteq> 0 \<and> unat g + unat s < 2 ^ 64" if "(g, s, k) \<in> set (outer ns origin shape)" for g s k
  proof -
    from that obtain i where i: "i < length (butlast origin)" "g = origin ! i" "s = shape ! i"
      using tile_in_ne [OF assms] by (auto simp: outer_def set_zip nth_butlast)
    then have l: "i < length ns" "i < length origin" "i < length shape" using tile_in_ne [OF assms] by auto
    have "unat g + unat s \<le> unat (ns ! i)" using assms i l by (auto simp: tile_in_def list_all_length)
    also have "\<dots> < 2 ^ 64" using unsigned_less [of "ns ! i"] by simp
    finally have "unat g + unat s < 2 ^ 64" .
    moreover have "s \<noteq> 0" using assms i l by (auto simp: tile_in_def in_set_conv_nth)
    ultimately show ?thesis by simp
  qed
  then show ?thesis by (auto simp: dims_ok_def list_all_iff)
qed

lemma prod_list_rev: "prod_list (rev xs) = prod_list (xs :: nat list)"
  by (induction xs) (simp_all add: mult.commute)

lemma row_count_outer:
  assumes "tile_in ns origin shape"
  shows "row_count (rev (outer ns origin shape)) = prod_list (map unat (butlast shape))"
proof -
  have "map (\<lambda>(g, s, k). unat s) (outer ns origin shape) = map unat (butlast shape)"
    unfolding outer_def by (rule map_shape_zip) (use tile_in_ne [OF assms] in simp_all)
  then show ?thesis by (simp add: row_count_def rev_map [symmetric] prod_list_rev)
qed

lemma concat_rows: "concat (map (\<lambda>q. concat (map f [q * m..<q * m + m])) [0..<r]) = concat (map f [0..<r * m])"
proof (induction r)
  case (Suc r)
  have "[0..<Suc r * m] = [0..<r * m] @ [r * m..<r * m + m]"
    using upt_add_eq_append [of 0 "r * m" m] by (simp add: add.commute)
  then show ?case using Suc by simp
qed simp

text \<open>A tile row by row: a conversion that works on every run of elements gives the converted elements of
  the array at the positions of the tile.\<close>

lemma copy_tile_correct:
  assumes t: "tile_in (nd_shape nd) origin shape"
    and fits: "prod_list (map unat (nd_shape nd)) * es \<le> length data" "length data < 2 ^ 63" "0 < es"
    and N: "N = prod_list (map unat shape)" "N * dsz < 2 ^ 63" "0 < dsz" "length tile = N * dsz"
    and conv: "\<And>b n. (b + n) * es \<le> length data \<Longrightarrow>
      convert pf c bs data (b * es) n dsz = Some (\<exists>i \<in> {b..<b + n}. ov i, concat (map out [b..<b + n]))"
    and out: "\<And>i. length (out i) = dsz"
  shows "copy_tile pf [] nd data origin shape c bs es dsz (of_nat N) dst tile =
    (let ov' = (\<exists>j \<in> {N - unat (last shape)..<N}. ov (tile_index (nd_shape nd) origin shape j)) in
     Some (finish_tile (dst = None) (list_all (\<lambda>s. s = 1) (butlast shape) \<and> ov')
       (if ov' then ASDF_NDARRAY_ERR_OVERFLOW else ASDF_NDARRAY_OK)
       (Some (concat (map (\<lambda>j. out (tile_index (nd_shape nd) origin shape j)) [0..<N])))))"
proof -
  let ?ns = "nd_shape nd" and ?m = "unat (last shape)" and ?ds = "rev (outer (nd_shape nd) origin shape)"
  let ?R = "row_count ?ds" and ?t = "tile_index (nd_shape nd) origin shape"
  have ne: "?ns \<noteq> []" "origin \<noteq> []" "shape \<noteq> []" "length origin = length ?ns" "length shape = length ?ns"
    using tile_in_ne [OF t] by auto
  have m0: "0 < ?m" using t last_in_set [OF ne(3)] by (auto simp: tile_in_def unat_gt_0)
  have R0: "0 < ?R" by (rule row_count_pos [OF dims_ok_outer [OF t]])
  have NR: "N = ?R * ?m" by (simp add: N(1) row_count_outer [OF t] map_last [OF ne(3)])
  have pow: "(2 :: nat) ^ 63 < 2 ^ 64" by simp
  have z: "0 \<notin> set ?ns"
  proof
    assume "0 \<in> set ?ns"
    then obtain i where i: "i < length ?ns" "?ns ! i = 0" by (auto simp: in_set_conv_nth)
    then have "unat (origin ! i) + unat (shape ! i) \<le> 0" using t ne by (auto simp: tile_in_def list_all_length)
    then have "shape ! i = 0" by (simp add: unat_eq_zero)
    with t i ne show False by (auto simp: tile_in_def in_set_conv_nth)
  qed
  have "prod_list (map unat ?ns) * 1 \<le> prod_list (map unat ?ns) * es" using fits(3) by (intro mult_le_mono) auto
  then have total: "prod_list (map unat ?ns) < 2 ^ 63" using fits by linarith
  have strides: "asdf_ndarray_read_tile_init_strides ?ns = Some (Inr (tile_strides ?ns))"
    using init_strides [OF ne(1) z total] by (simp add: tile_strides_def)
  have es64: "unat (of_nat es :: u64) = es" "es < 2 ^ 63"
  proof -
    have "0 < prod_list (map unat ?ns)" using z by (intro prod_pos) (auto simp: unat_eq_zero)
    then have "1 * es \<le> prod_list (map unat ?ns) * es" by (intro mult_le_mono) auto
    then have "es \<le> length data" using fits(1) by linarith
    with fits(2) show "es < 2 ^ 63" by simp
    then show "unat (of_nat es :: u64) = es" by (simp add: unat_of_nat take_bit_eq_mod)
  qed
  have at: "unat (of_nat (?t j) * of_nat es :: u64) = ?t j * es" for j
  proof -
    have "?t j * es \<le> prod_list (map unat ?ns) * es" using tile_index_less [OF t, of j] by (intro mult_right_mono) simp_all
    with fits pow have "?t j * es < 2 ^ 64" by linarith
    moreover have "(of_nat (?t j) * of_nat es :: u64) = of_nat (?t j * es)" by simp
    ultimately show ?thesis by (simp only: unat_of_nat) (simp add: take_bit_eq_mod)
  qed
  have run: "?t (q * ?m + i) = ?t (q * ?m) + i" if "i < ?m" for q i by (rule tile_index_contiguous [OF t that])
  have inside: "(?t (q * ?m) + ?m) * es \<le> length data" for q
  proof -
    have "?t (q * ?m) + ?m \<le> prod_list (map unat ?ns)"
      using run [of "?m - 1" q] tile_index_less [OF t, of "q * ?m + (?m - 1)"] m0 by simp
    then show ?thesis using fits(1) by (meson le_trans mult_le_mono1)
  qed
  let ?ovr = "\<lambda>q. \<exists>j \<in> {q * ?m..<q * ?m + ?m}. ov (?t j)"
  let ?outr = "\<lambda>q. concat (map (\<lambda>j. out (?t j)) [q * ?m..<q * ?m + ?m])"
  have seg: "map (\<lambda>j. out (?t j)) [q * ?m..<q * ?m + ?m] = map out [?t (q * ?m)..<?t (q * ?m) + ?m]" for q
    by (rule nth_equalityI) (simp_all add: run)
  have flag: "(\<exists>i \<in> {?t (q * ?m)..<?t (q * ?m) + ?m}. ov i) = ?ovr q" for q
  proof -
    have "{?t (q * ?m)..<?t (q * ?m) + ?m} = ?t ` {q * ?m..<q * ?m + ?m}"
    proof -
      have sh: "(\<lambda>i. k + i) ` {0..<n} = {k..<k + n}" for k n :: nat by (simp add: add.commute)
      have "?t ` {q * ?m..<q * ?m + ?m} = ?t ` (\<lambda>i. q * ?m + i) ` {0..<?m}" by (simp only: sh)
      also have "\<dots> = (\<lambda>i. ?t (q * ?m) + i) ` {0..<?m}" unfolding image_image by (rule image_cong) (simp_all add: run)
      also have "\<dots> = {?t (q * ?m)..<?t (q * ?m) + ?m}" by (rule sh)
      finally show ?thesis by simp
    qed
    then show ?thesis by simp
  qed
  have row: "convert pf c bs data (?t (q * ?m) * es) ?m dsz = Some (?ovr q, ?outr q)" for q
    using conv [OF inside [of q]] by (simp only: flag seg)
  have outlen: "length (?outr q) = ?m * dsz" for q by (simp add: length_concat comp_def out sum_list_triv)
  have all: "concat (map ?outr [0..<?R]) = concat (map (\<lambda>j. out (?t j)) [0..<N])"
    unfolding NR by (rule concat_rows)
  have lastrow: "{N - ?m..<N} = {(?R - 1) * ?m..<(?R - 1) * ?m + ?m}"
  proof -
    have "(?R - 1) * ?m + ?m = N" using R0 NR by (metis Suc_diff_1 add.commute mult_Suc)
    moreover from this have "N - ?m = (?R - 1) * ?m" by linarith
    ultimately show ?thesis by simp
  qed
  have off: "origin_offset origin (tile_strides ?ns) * of_nat es = of_nat (?t 0) * of_nat es"
    by (simp add: origin_position [OF t])
  show ?thesis
  proof (cases "list_all (\<lambda>s. s = 1) (butlast shape)")
    case True
    moreover have "list_all (\<lambda>s. s = 1) ss \<Longrightarrow> prod_list (map unat ss) = 1" for ss :: "u64 list"
      by (induction ss) auto
    ultimately have "prod_list (map unat (butlast shape)) = 1" by blast
    then have R1: "?R = 1" "N = ?m" using row_count_outer [OF t] NR by simp_all
    have N64: "unat (of_nat N :: u64) = N"
      unfolding R1(2) by simp
    define ov0 out0 where "ov0 = ?ovr 0" and "out0 = ?outr 0"
    have r0: "convert pf c bs data (unat (origin_offset origin (tile_strides ?ns) * of_nat es)) (unat (of_nat N :: u64)) dsz =
        Some (ov0, out0)"
      using row [of 0] unfolding off at N64 ov0_def out0_def by (simp only: R1(2) mult_0)
    have w: "mem_write_at tile 0 out0 = Some out0"
      using outlen [of 0] N(4) R1 by (simp add: mem_write_at_def out0_def)
    have ov: "(\<exists>j \<in> {N - ?m..<N}. ov (?t j)) = ov0" unfolding ov0_def lastrow R1(1) by simp
    have res: "concat (map (\<lambda>j. out (?t j)) [0..<N]) = out0"
      unfolding out0_def all [symmetric] R1(1) by simp
    show ?thesis
      unfolding ov res using True by (simp add: copy_tile_def Let_def strides r0 w)
  next
    case False
    then have "butlast shape \<noteq> []" by auto
    moreover have "length ?ds = length (butlast shape)" using ne by (simp add: outer_def)
    ultimately have dne: "?ds \<noteq> []" by (metis length_0_conv)
    let ?x = "of_nat es * last origin :: u64"
    have pos: "?x + of_nat es * dot ?ds (digits ?ds q) = of_nat (?t (q * ?m)) * of_nat es" for q
      by (simp add: row_position [OF t] algebra_simps)
    have isz: "unat (last shape * of_nat dsz) = ?m * dsz"
    proof -
      have "?m * dsz \<le> N * dsz" using NR R0 by (cases ?R) auto
      then have "?m * dsz < 2 ^ 64" using N(2) pow by linarith
      moreover have "last shape * of_nat dsz = (of_nat (?m * dsz) :: u64)" by simp
      ultimately show ?thesis by (simp only: unat_of_nat) (simp add: take_bit_eq_mod)
    qed
    have "loop_opt (main_loop_step (\<lambda>src. convert pf c bs data src ?m dsz) (of_nat es) (?m * dsz) ?ds)
        ([] @ tile, 0 * (?m * dsz), digits ?ds 0, ?x + of_nat es * dot ?ds (digits ?ds 0)) =
        Some (?ovr (?R - 1), [] @ concat (map ?outr [0..<?R]))"
      by (rule main_loop_rows [OF dims_ok_outer [OF t] dne])
        (use row outlen R0 N(4) NR in \<open>simp_all only: pos at, simp_all\<close>)
    then have loop: "loop_opt (main_loop_step (\<lambda>src. convert pf c bs data src ?m dsz) (of_nat es) (?m * dsz) ?ds)
        (tile, 0, rev (butlast origin), of_nat (?t 0) * of_nat es) =
        Some (?ovr (?R - 1), concat (map (\<lambda>j. out (?t j)) [0..<N]))"
      using pos [of 0] by (simp add: digits_start [OF t] all)
    define ovl res where "ovl = ?ovr (?R - 1)" and "res = concat (map (\<lambda>j. out (?t j)) [0..<N])"
    have ml: "asdf_ndarray_read_tile_main_loop (\<lambda>src. convert pf c bs data src ?m dsz) (of_nat es)
        (unat (last shape * of_nat dsz)) ?ds tile (rev (butlast origin)) (origin_offset origin (tile_strides ?ns) * of_nat es) =
        Some (if ovl then ASDF_NDARRAY_ERR_OVERFLOW else ASDF_NDARRAY_OK, res)"
      unfolding asdf_ndarray_read_tile_main_loop_def isz off loop ovl_def res_def by simp
    have ov: "(\<exists>j \<in> {N - ?m..<N}. ov (?t j)) = ovl" unfolding ovl_def lastrow by simp
    show ?thesis
      unfolding ov res_def [symmetric] using False
      by (simp add: copy_tile_def Let_def strides ml [unfolded outer_def])
  qed
qed

end
