(* ===== verification/Asdf_Tile.thy ===== *)
theory Asdf_Tile
  imports Asdf_Tile_Laws
begin

text \<open>
  Reading tiles of integer arrays end to end: the checks, the strides, the rows and the conversion of the
  elements together.
\<close>

section \<open>The whole read\<close>

lemma foldl_prod: "foldl (*) (1 :: u64) xs = of_nat (prod_list (map unat xs))"
  by (simp add: foldl_times of_nat_prod_unat)

lemma check_bounds_in: "tile_in (nd_shape nd) origin shape \<Longrightarrow> check_bounds nd origin shape"
proof -
  assume "tile_in (nd_shape nd) origin shape"
  moreover have "\<not> n < g + s" if "unat g + unat s \<le> unat n" for n g s :: u64
  proof -
    have "unat (g + s) \<le> unat g + unat s" by (simp add: unat_word_ariths)
    with that show ?thesis by (simp add: word_less_nat_alt)
  qed
  ultimately show ?thesis by (auto simp: tile_in_def check_bounds_def list_all_iff)
qed

lemma read_tile_copy:
  assumes t: "tile_in (nd_shape nd) origin shape"
    and src: "dt_type (nd_datatype nd) = src" "src \<noteq> ASDF_DATATYPE_UNKNOWN" "dst_t \<noteq> ASDF_DATATYPE_UNKNOWN"
    and es: "asdf_scalar_datatype_size src = es" "0 < es" "asdf_scalar_datatype_size dst_t = dsz" "0 < dsz"
    and size: "fst (asdf_datatype_size (nd_datatype nd)) = of_nat es"
    and fits: "prod_list (map unat (nd_shape nd)) * es \<le> length data" "length data < 2 ^ 63"
    and N: "N = prod_list (map unat shape)" "N * dsz < 2 ^ 63"
    and c: "asdf_ndarray_get_convert_fn pf src dst_t = Some (Some c)"
  shows "asdf_ndarray_read_tile_ndim pf [] (Some nd) data (Some origin) (Some shape) dst_t (Some None) =
    copy_tile pf [] nd data origin shape c (should_byteswap pf es (nd_byteorder nd)) es dsz (of_nat N) None
      (replicate (N * dsz) 0)"
proof -
  have ne: "nd_shape nd \<noteq> []" "length origin = length (nd_shape nd)" "length shape = length (nd_shape nd)"
    using t by (auto simp: tile_in_def)
  have pow: "(2 :: nat) ^ 63 < 2 ^ 64" by simp
  let ?P = "prod_list (map unat (nd_shape nd))"
  have "0 \<notin> set (map unat shape)" using t by (auto simp: tile_in_def unat_eq_zero)
  then have N0: "0 < N" unfolding N(1) by (rule prod_pos)
  have NP: "N \<le> ?P"
  proof -
    have "tile_in ns origin shape \<Longrightarrow> prod_list (map unat shape) \<le> prod_list (map unat ns)" for ns
    proof -
      assume "tile_in ns origin shape"
      then have l: "length shape = length ns" "list_all (\<lambda>(n, g, s). unat g + unat s \<le> unat n) (zip ns (zip origin shape))"
          "length origin = length ns"
        by (auto simp: tile_in_def)
      then show ?thesis
      proof (induction ns arbitrary: origin shape)
        case (Cons n ns)
        then obtain g gs s ss where gs: "origin = g # gs" "shape = s # ss" by (metis length_Suc_conv)
        with Cons have "prod_list (map unat ss) \<le> prod_list (map unat ns)" "unat s \<le> unat n" by auto
        then show ?case by (simp add: gs mult_le_mono)
      qed simp
    qed
    with t show ?thesis by (simp add: N(1))
  qed
  have small: "m < 2 ^ 64 \<Longrightarrow> unat (of_nat m :: u64) = m" for m by (simp add: unat_of_nat take_bit_eq_mod)
  have P64: "?P * es < 2 ^ 64" using fits pow by linarith
  have "N * es \<le> ?P * es" using NP by (rule mult_le_mono1)
  then have Nes: "unat (of_nat es * of_nat N :: u64) = N * es" "N * es \<le> length data"
  proof -
    assume le: "N * es \<le> ?P * es"
    with P64 have "N * es < 2 ^ 64" by linarith
    from small [OF this] show "unat (of_nat es * of_nat N :: u64) = N * es" by (simp add: mult.commute)
    from le fits(1) show "N * es \<le> length data" by linarith
  qed
  have Nd: "unat (of_nat dsz * of_nat N :: u64) = N * dsz"
    using small [of "N * dsz"] N(2) pow by (simp add: mult.commute)
  then have Nd0: "(of_nat dsz * of_nat N :: u64) \<noteq> 0" using N0 es(4) by (metis mult_is_0 not_gr_zero unat_0)
  have "?P * 1 \<le> ?P * es" using es(2) by (intro mult_le_mono) simp_all
  then have P0: "?P < 2 ^ 64" "0 < ?P" using P64 N0 NP by linarith+
  have nb: "unat (asdf_ndarray_nbytes (Some nd)) = ?P * es"
  proof -
    have "asdf_ndarray_size (Some nd) = of_nat ?P" using ne by (simp add: asdf_ndarray_size_def foldl_prod)
    moreover have "(of_nat ?P :: u64) \<noteq> 0" using small [OF P0(1)] P0(2) by (metis not_gr_zero unat_0)
    ultimately have "asdf_ndarray_nbytes (Some nd) = of_nat (?P * es)"
      by (simp add: asdf_ndarray_nbytes_def Let_def size)
    then show ?thesis using small [OF P64] by simp
  qed
  have fN: "foldl (*) 1 shape = (of_nat N :: u64)" by (simp add: foldl_prod N(1))
  show ?thesis
    using ne es src fits(1) Nes Nd Nd0
    by (simp add: asdf_ndarray_read_tile_ndim_def Let_def ASDF_DATATYPE_SOURCE_def check_bounds_in [OF t] nb c fN not_less
        split del: if_split)
qed

section \<open>Integer arrays\<close>

lemma chunk:
  assumes "\<And>i. length (f i) = sz" and "j < n"
  shows "take sz (drop (j * sz) (concat (map f [0..<n]))) = f j"
  using assms(2)
proof (induction n)
  case (Suc n)
  have len: "length (concat (map f [0..<n])) = n * sz" by (simp add: length_concat comp_def assms(1) sum_list_triv)
  show ?case
  proof (cases "j = n")
    case True
    then show ?thesis using len assms(1) by simp
  next
    case False
    then have "j < n" using Suc.prems by simp
    then have "(j + 1) * sz \<le> n * sz" by (intro mult_le_mono1) simp
    then show ?thesis using Suc.IH [OF \<open>j < n\<close>] len by simp
  qed
qed simp

lemma length_store_bits [simp]: "length (store_bits pf n v) = n"
  by (simp add: store_bits_def)

lemma load_store: "v < 2 ^ (8 * n) \<Longrightarrow> load_bits pf (store_bits pf n v) = v"
  by (simp add: load_bits_def store_bits_def be_val_be_enc power_mult)

lemma clamp_range: "int_type t \<Longrightarrow> int_min t \<le> clamp t v \<and> clamp t v \<le> int_max t"
  by (erule int_cases) (auto simp: clamp_def)

lemma elem_int_stored:
  assumes "int_type t" and "j < n"
  shows "elem_int pf t False (concat (map (\<lambda>j. store_bits pf (ctype_size t) (int_bits t (clamp t (f j)))) [0..<n])) 0 j = clamp t (f j)"
proof -
  have "take (ctype_size t) (drop (j * ctype_size t)
      (concat (map (\<lambda>j. store_bits pf (ctype_size t) (int_bits t (clamp t (f j)))) [0..<n]))) =
      store_bits pf (ctype_size t) (int_bits t (clamp t (f j)))"
    by (rule chunk [OF _ assms(2)]) (simp add: store_bits_def)
  then show ?thesis
    using clamp_range [OF assms(1)] value_int_bits [OF assms(1)] int_bits_less
    by (simp add: elem_int_def elem_bits_def load_store)
qed

lemma int_sizes:
  "ctype_of t = Some s \<Longrightarrow> int_type s \<Longrightarrow>
    asdf_scalar_datatype_size t = ctype_size s \<and> 0 < ctype_size s \<and> t \<noteq> ASDF_DATATYPE_UNKNOWN"
  by (cases t) (auto simp: int_type_def)

text \<open>C7. A tile of a contiguous array of integers whose data begins at the start of its block, in either
  byte order and read as any integer type: the call allocates a buffer that holds, in C order, the elements of
  the array at the positions of the tile shifted by its origin, each replaced by the nearest value of the type
  asked for. An overflow is reported when, and only when, one happened in the last row of the tile; unless the
  tile is a single row, the buffer that is handed out together with that error has already been freed.\<close>

theorem integer_tile:
  assumes t: "tile_in (nd_shape nd) origin shape" and layout: "nd_offset nd = 0" "nd_strides nd = []"
    and types: "dt_type (nd_datatype nd) = src" "ctype_of src = Some s" "ctype_of dst = Some d" "int_type s" "int_type d"
    and size: "fst (asdf_datatype_size (nd_datatype nd)) = of_nat (ctype_size s)"
    and fits: "prod_list (map unat (nd_shape nd)) * ctype_size s \<le> length data" "length data < 2 ^ 63"
    and N: "N = prod_list (map unat shape)" "N * ctype_size d < 2 ^ 63"
    and v: "v = (\<lambda>j. elem_int pf s (should_byteswap pf (ctype_size s) (nd_byteorder nd)) data 0
      (tile_index (nd_shape nd) origin shape j))"
    and ov: "ov \<longleftrightarrow> (\<exists>j < N. N \<le> j + unat (last shape) \<and> clamp d (v j) \<noteq> v j)"
  shows "\<exists>tile. asdf_ndarray_read_tile_ndim pf [] (Some nd) data (Some origin) (Some shape) dst (Some None) =
      Some \<lparr>tr_err = (if ov then ASDF_NDARRAY_ERR_OVERFLOW else ASDF_NDARRAY_OK), tr_dst = Some tile,
        tr_freed = (ov \<and> \<not> list_all (\<lambda>s. s = 1) (butlast shape))\<rparr> \<and>
    length tile = N * ctype_size d \<and> (\<forall>j < N. elem_int pf d False tile 0 j = clamp d (v j))"
proof -
  let ?es = "ctype_size s" and ?dsz = "ctype_size d" and ?bs = "should_byteswap pf (ctype_size s) (nd_byteorder nd)"
  let ?v = "elem_int pf s ?bs data 0" and ?t = "tile_index (nd_shape nd) origin shape"
  let ?out = "\<lambda>i. store_bits pf ?dsz (int_bits d (clamp d (?v i)))"
  have sz: "asdf_scalar_datatype_size src = ?es" "0 < ?es" "src \<noteq> ASDF_DATATYPE_UNKNOWN"
      "asdf_scalar_datatype_size dst = ?dsz" "0 < ?dsz" "dst \<noteq> ASDF_DATATYPE_UNKNOWN"
    using int_sizes types by blast+
  have conv: "convert pf (s, d, conversion s d) ?bs data (b * ?es) n ?dsz =
      Some (\<exists>i \<in> {b..<b + n}. clamp d (?v i) \<noteq> ?v i, concat (map ?out [b..<b + n]))"
    if "(b + n) * ?es \<le> length data" for b n
  proof -
    have e: "elem_int pf s ?bs data (b * ?es) i = ?v (b + i)" for i
      by (simp add: elem_int_def elem_bits_def algebra_simps)
    have m: "map (\<lambda>i. ?out (b + i)) [0..<n] = map ?out [b..<b + n]"
      by (rule nth_equalityI) simp_all
    have x: "(\<exists>i < n. clamp d (?v (b + i)) \<noteq> ?v (b + i)) \<longleftrightarrow> (\<exists>i \<in> {b..<b + n}. clamp d (?v i) \<noteq> ?v i)"
    proof (intro iffI; elim exE bexE conjE)
      fix i assume "i < n" "clamp d (?v (b + i)) \<noteq> ?v (b + i)"
      then show "\<exists>i \<in> {b..<b + n}. clamp d (?v i) \<noteq> ?v i" by (intro bexI [of _ "b + i"]) simp_all
    next
      fix i assume "i \<in> {b..<b + n}" "clamp d (?v i) \<noteq> ?v i"
      then show "\<exists>i < n. clamp d (?v (b + i)) \<noteq> ?v (b + i)" by (intro exI [of _ "i - b"]) (simp add: less_diff_conv2 add.commute)
    qed
    have "b * ?es + n * ?es \<le> length data" using that by (simp add: algebra_simps)
    from convert_ints [OF types(4,5) this, of pf ?bs] show ?thesis unfolding e m x .
  qed
  have fl: "(\<exists>j \<in> {N - unat (last shape)..<N}. clamp d (?v (?t j)) \<noteq> ?v (?t j)) = ov"
    by (auto simp: ov v le_diff_conv)
  let ?tile = "concat (map (\<lambda>j. ?out (?t j)) [0..<N])"
  have "asdf_ndarray_read_tile_ndim pf [] (Some nd) data (Some origin) (Some shape) dst (Some None) =
      Some (finish_tile True (list_all (\<lambda>s. s = 1) (butlast shape) \<and> ov)
        (if ov then ASDF_NDARRAY_ERR_OVERFLOW else ASDF_NDARRAY_OK) (Some ?tile))"
    unfolding read_tile_copy [OF t types(1) sz(3,6,1,2,4,5) size fits N int_convert_fn [OF types(2-5)]]
    using copy_tile_correct [OF t fits sz(2) N sz(5) _ conv, of "replicate (N * ?dsz) 0" None] fl
    by (simp add: Let_def store_bits_def)
  moreover have "length ?tile = N * ?dsz"
    by (simp add: length_concat comp_def sum_list_triv)
  moreover have "\<forall>j < N. elem_int pf d False ?tile 0 j = clamp d (v j)"
    using elem_int_stored [OF types(5), of _ N pf "\<lambda>j. ?v (?t j)"] by (simp add: v)
  ultimately show ?thesis by (auto simp: finish_tile_def)
qed

text \<open>A 2 by 2 tile of a 3 by 3 array of big-endian 16-bit integers, read as bytes on a little-endian host:
  of its rows 5, 300 and 8, 9 the second one fits, so that no overflow is reported.\<close>

definition sample_array :: asdf_ndarray where
  "sample_array = \<lparr>nd_source = 0, nd_shape = [3, 3], nd_datatype = Datatype ASDF_DATATYPE_INT16 0 None ASDF_BYTEORDER_BIG [] [],
     nd_byteorder = ASDF_BYTEORDER_BIG, nd_offset = 0, nd_strides = []\<rparr>"

theorem integer_tile_witness:
  "\<exists>tile. asdf_ndarray_read_tile_ndim little_platform [] (Some sample_array)
      [0, 1, 0, 2, 0, 3, 0, 4, 0, 5, 1, 44, 0, 7, 0, 8, 0, 9] (Some [1, 1]) (Some [2, 2]) ASDF_DATATYPE_UINT8 (Some None) =
      Some \<lparr>tr_err = ASDF_NDARRAY_OK, tr_dst = Some tile, tr_freed = False\<rparr> \<and>
    map (elem_int little_platform (Uint 1) False tile 0) [0, 1, 2, 3] = [5, 255, 8, 9]"
proof -
  let ?data = "[0, 1, 0, 2, 0, 3, 0, 4, 0, 5, 1, 44, 0, 7, 0, 8, 0, 9] :: bytes"
  let ?v = "\<lambda>j. elem_int little_platform (Sint 2) (should_byteswap little_platform (ctype_size (Sint 2)) (nd_byteorder sample_array))
    ?data 0 (tile_index (nd_shape sample_array) [1, 1] [2, 2] j)"
  have bs: "should_byteswap little_platform 2 ASDF_BYTEORDER_BIG = True"
    by (simp add: should_byteswap_def little_platform_def)
  have v': "?v = (\<lambda>j. elem_int little_platform (Sint 2) True ?data 0 (tile_index [3, 3] [1, 1] [2, 2] j))"
    by (simp add: sample_array_def bs)
  have ix: "tile_index [3, 3] [1, 1] [2, 2] 0 = 4" "tile_index [3, 3] [1, 1] [2, 2] 1 = 5"
      "tile_index [3, 3] [1, 1] [2, 2] 2 = 7" "tile_index [3, 3] [1, 1] [2, 2] 3 = 8"
    by (simp_all add: tile_index_def)
  have v: "?v 0 = 5" "?v 1 = 300" "?v 2 = 8" "?v 3 = 9"
    unfolding fun_cong [OF v'] ix by (simp_all add: elem_int_def elem_bits_def int_value_def load_bits_def be_val_def little_platform_def Let_def)
  have ov: "False \<longleftrightarrow> (\<exists>j < 4. 4 \<le> j + unat (last [2, 2] :: u64) \<and> clamp (Uint 1) (?v j) \<noteq> ?v j)"
  proof -
    have "clamp (Uint 1) (?v j) = ?v j" if "j < 4" "4 \<le> j + 2" for j
    proof -
      from that have "j = 2 \<or> j = 3" by auto
      with v show ?thesis by (auto simp: clamp_def)
    qed
    then show ?thesis by auto
  qed
  have t: "tile_in (nd_shape sample_array) [1, 1] [2, 2]" by (simp add: tile_in_def sample_array_def)
  have l: "nd_offset sample_array = 0" "nd_strides sample_array = []" by (simp_all add: sample_array_def)
  have h: "dt_type (nd_datatype sample_array) = ASDF_DATATYPE_INT16" "ctype_of ASDF_DATATYPE_INT16 = Some (Sint 2)"
      "ctype_of ASDF_DATATYPE_UINT8 = Some (Uint 1)" "int_type (Sint 2)" "int_type (Uint 1)"
      "fst (asdf_datatype_size (nd_datatype sample_array)) = of_nat (ctype_size (Sint 2))"
      "prod_list (map unat (nd_shape sample_array)) * ctype_size (Sint 2) \<le> length ?data" "length ?data < 2 ^ 63"
      "4 = prod_list (map unat [2, 2 :: u64])" "4 * ctype_size (Uint 1) < 2 ^ 63"
    by (simp_all add: sample_array_def int_type_def)
  obtain tile where r: "asdf_ndarray_read_tile_ndim little_platform [] (Some sample_array) ?data (Some [1, 1]) (Some [2, 2])
        ASDF_DATATYPE_UINT8 (Some None) = Some \<lparr>tr_err = ASDF_NDARRAY_OK, tr_dst = Some tile, tr_freed = False\<rparr>"
      and e: "\<forall>j < 4. elem_int little_platform (Uint 1) False tile 0 j = clamp (Uint 1) (?v j)"
    using integer_tile [OF t l h refl ov] by (elim exE conjE) (simp only: if_False simp_thms)
  have "elem_int little_platform (Uint 1) False tile 0 0 = 5" "elem_int little_platform (Uint 1) False tile 0 1 = 255"
      "elem_int little_platform (Uint 1) False tile 0 2 = 8" "elem_int little_platform (Uint 1) False tile 0 3 = 9"
    using e v by (simp_all add: clamp_def)
  with r show ?thesis by auto
qed

section \<open>Where the checks do not hold\<close>

text \<open>The offset and the strides of an array are not looked at: whatever they are, the tile is read as if
  the data began at the start of the block and were contiguous.\<close>

lemma tile_ignores_layout:
  "asdf_ndarray_read_tile_ndim pf hp (Some (nd\<lparr>nd_offset := off, nd_strides := strides\<rparr>)) data origin shape dst_t dst =
   asdf_ndarray_read_tile_ndim pf hp (Some nd) data origin shape dst_t dst"
proof -
  let ?nd = "nd\<lparr>nd_offset := off, nd_strides := strides\<rparr>"
  have sel: "nd_shape ?nd = nd_shape nd" "nd_datatype ?nd = nd_datatype nd" "nd_byteorder ?nd = nd_byteorder nd"
    by simp_all
  have "copy_tile pf h ?nd = copy_tile pf h nd" for h unfolding copy_tile_def sel ..
  moreover have "check_bounds ?nd = check_bounds nd" unfolding check_bounds_def sel ..
  moreover have "asdf_ndarray_nbytes (Some ?nd) = asdf_ndarray_nbytes (Some nd)"
    unfolding asdf_ndarray_nbytes_def asdf_ndarray_size_def option.case sel ..
  ultimately show ?thesis
    by (cases dst; cases origin; cases shape) (simp_all only: asdf_ndarray_read_tile_ndim_def option.case prod.case sel)
qed

lemmas read_tile_defs = asdf_ndarray_read_tile_ndim_def Let_def check_bounds_def asdf_ndarray_nbytes_def
  asdf_ndarray_size_def asdf_ndarray_get_convert_fn_def copy_tile_def origin_offset_def convert_def mem_read_def
  little_platform_def ASDF_DATATYPE_SOURCE_def should_byteswap_def

text \<open>The number of bytes of an array wraps around at 64 bits, so an array of \<open>2 ^ 64\<close> bytes passes the check of its
  data, and the read leaves the data.\<close>

lemma huge_array_reads_outside:
  "asdf_ndarray_read_tile_ndim little_platform []
     (Some \<lparr>nd_source = 0, nd_shape = [4611686018427387904, 4],
        nd_datatype = Datatype ASDF_DATATYPE_INT8 0 None ASDF_BYTEORDER_LITTLE [] [],
        nd_byteorder = ASDF_BYTEORDER_LITTLE, nd_offset = 0, nd_strides = []\<rparr>)
     [1, 2, 3, 4] (Some [2305843009213693952, 0]) (Some [1, 1]) ASDF_DATATYPE_INT8 (Some None) = None"
  by (simp add: read_tile_defs)

text \<open>The sum of the origin and the shape wraps around too, so an origin far outside the array passes.\<close>

lemma origin_wraps:
  "asdf_ndarray_read_tile_ndim little_platform []
     (Some \<lparr>nd_source = 0, nd_shape = [4], nd_datatype = Datatype ASDF_DATATYPE_INT8 0 None ASDF_BYTEORDER_LITTLE [] [],
        nd_byteorder = ASDF_BYTEORDER_LITTLE, nd_offset = 0, nd_strides = []\<rparr>)
     [1, 2, 3, 4] (Some [18446744073709551615]) (Some [1]) ASDF_DATATYPE_INT8 (Some None) = None"
  by (simp add: read_tile_defs)

end
