(* ===== verification/Asdf_Float_Text.thy ===== *)
theory Asdf_Float_Text
  imports Asdf_Value
begin

text \<open>
  How a float is written: \<^verbatim>\<open>asdf_yaml_format_float\<close> of \<^verbatim>\<open>src/yaml.c\<close> with what it uses of \<^verbatim>\<open>printf\<close> and
  \<^verbatim>\<open>strtof\<close>, which round to nearest, ties to even, as the C library does, and the nodes made of floats.
\<close>

section \<open>The formats of printf\<close>

fun dec_len :: "nat \<Rightarrow> nat" where
  "dec_len n = (if n = 0 then 0 else Suc (dec_len (n div 10)))"

declare dec_len.simps [simp del]

text \<open>The exponent of the leading decimal digit of a positive rational.\<close>

definition rat_log10 :: "rat \<Rightarrow> int" where
  "rat_log10 q = (let (a, b) = quotient_of q; k = int (dec_len (nat a)) - int (dec_len (nat b)) in
     if q < 10 powi k then k - 1 else k)"

definition pad_dec :: "nat \<Rightarrow> nat \<Rightarrow> bytes" where
  "pad_dec k n = replicate (k - length (dec n)) 48 @ dec n"

text \<open>The \<open>p + 1\<close> significant digits of a magnitude, as a number, and the decimal exponent.\<close>

definition sci_digits :: "nat \<Rightarrow> rat \<Rightarrow> nat \<times> int" where
  "sci_digits p q =
     (if q = 0 then (0, 0)
      else let e = rat_log10 q; n = nat (round_even (q / 10 powi (e - int p))) in
        if n = 10 ^ Suc p then (10 ^ p, e + 1) else (n, e))"

definition print_sign :: "double \<Rightarrow> bytes" where
  "print_sign d = (if d_isneg d then [45] else [])"

definition print_exp :: "int \<Rightarrow> bytes" where
  "print_exp e = 101 # (if e < 0 then 45 else 43) # pad_dec 2 (nat \<bar>e\<bar>)"

text \<open>The formats \<^verbatim>\<open>%.*e\<close> and \<^verbatim>\<open>%.*f\<close> of a finite value; \<open>dp\<close> is the decimal point of the locale.\<close>

definition printf_e :: "bytes \<Rightarrow> nat \<Rightarrow> double \<Rightarrow> bytes" where
  "printf_e dp p d =
     (let (n, e) = sci_digits p \<bar>d_rat d\<bar>; ds = pad_dec (Suc p) n in
      print_sign d @ hd ds # (if p = 0 then [] else dp @ tl ds) @ print_exp e)"

definition printf_f :: "bytes \<Rightarrow> nat \<Rightarrow> double \<Rightarrow> bytes" where
  "printf_f dp k d =
     (let n = nat (round_even (\<bar>d_rat d\<bar> * 10 ^ k)) in
      print_sign d @ dec (n div 10 ^ k) @ (if k = 0 then [] else dp @ pad_dec k (n mod 10 ^ k)))"

section \<open>Formatting\<close>

definition FLT_DECIMAL_DIG :: nat where "FLT_DECIMAL_DIG = 9"
definition DBL_DECIMAL_DIG :: nat where "DBL_DECIMAL_DIG = 17"
definition REPR_MIN_FIXED_EXPONENT :: int where "REPR_MIN_FIXED_EXPONENT = - 4"
definition REPR_MAX_FIXED_EXPONENT :: int where "REPR_MAX_FIXED_EXPONENT = 15"

text \<open>The operator \<^verbatim>\<open>==\<close>: the two zeros are equal, a NaN is equal to nothing.\<close>

fun d_eq :: "double \<Rightarrow> double \<Rightarrow> bool" where
  "d_eq NaN _ = False"
| "d_eq _ NaN = False"
| "d_eq (Inf a) y = (y = Inf a)"
| "d_eq x (Inf b) = False"
| "d_eq x y = (d_rat x = d_rat y)"

text \<open>\<^verbatim>\<open>strtof\<close> rounds the decimal to a single once.\<close>

definition strtof :: "bytes \<Rightarrow> bytes \<Rightarrow> double" where
  "strtof dp s =
     (let neg = (s \<noteq> [] \<and> s ! 0 = 45);
          s = skip_sign s;
          ints = takeWhile is_digit s;
          s = dropWhile is_digit s;
          has_point = (take (length dp) s = dp);
          fracs = (if has_point then takeWhile is_digit (drop (length dp) s) else []);
          s = (if has_point then dropWhile is_digit (drop (length dp) s) else s) in
      if ints = [] \<and> fracs = [] then Fin 0
      else float_round 24 8 neg (of_nat (radix_val 10 (ints @ fracs)) * 10 powi (strtod_exp s - int (length fracs))))"

definition reads_back :: "bytes \<Rightarrow> bool \<Rightarrow> double \<Rightarrow> bytes \<Rightarrow> bool" where
  "reads_back dp single val buf =
     (if single then d_eq (strtof dp buf) (to_single val) else d_eq (fst (strtod dp buf)) val)"

definition max_prec :: "bool \<Rightarrow> nat" where
  "max_prec single = (if single then FLT_DECIMAL_DIG else DBL_DECIMAL_DIG)"

text \<open>The loop over the precisions: the first that reads back, or the largest.\<close>

definition round_trip_prec :: "bytes \<Rightarrow> bool \<Rightarrow> double \<Rightarrow> nat" where
  "round_trip_prec dp single val =
     (case find (\<lambda>prec. reads_back dp single val (printf_e dp (prec - 1) val)) [1 ..< max_prec single] of
        Some prec \<Rightarrow> prec
      | None \<Rightarrow> max_prec single)"

definition printed_exponent :: "bytes \<Rightarrow> int" where
  "printed_exponent buf = strtod_exp (dropWhile (\<lambda>c. c \<noteq> 101) buf)"

text \<open>The first decimal point of the locale becomes a point.\<close>

fun delocalize :: "bytes \<Rightarrow> bytes \<Rightarrow> bytes" where
  "delocalize dp [] = []"
| "delocalize dp (c # cs) =
     (if take (length dp) (c # cs) = dp then 46 # drop (length dp) (c # cs) else c # delocalize dp cs)"

definition insert_point :: "bytes \<Rightarrow> bytes" where
  "insert_point buf =
     (if 46 \<in> set buf then buf
      else takeWhile (\<lambda>c. c \<noteq> 101) buf @ [46, 48] @ dropWhile (\<lambda>c. c \<noteq> 101) buf)"

text \<open>The buffer has room for the longest text there is, 25 bytes and the decimal point.\<close>

definition asdf_yaml_format_float :: "bytes \<Rightarrow> double \<Rightarrow> bool \<Rightarrow> bytes" where
  "asdf_yaml_format_float dp val single =
     (case val of
        NaN \<Rightarrow> bytes_of ''.nan''
      | Inf neg \<Rightarrow> bytes_of (if neg then ''-.inf'' else ''.inf'')
      | _ \<Rightarrow>
          let prec = round_trip_prec dp single val;
              buf = printf_e dp (prec - 1) val;
              exponent = printed_exponent buf;
              buf = (if REPR_MIN_FIXED_EXPONENT \<le> exponent \<and> exponent \<le> REPR_MAX_FIXED_EXPONENT
                     then printf_f dp (nat (int prec - 1 - exponent)) val else buf);
              buf = delocalize dp buf
          in insert_point buf)"

definition asdf_node_of_float :: "bytes \<Rightarrow> double \<Rightarrow> node_request" where
  "asdf_node_of_float dp val = Create_scalar (asdf_yaml_format_float dp val True)"

definition asdf_node_of_double :: "bytes \<Rightarrow> double \<Rightarrow> node_request" where
  "asdf_node_of_double dp val = Create_scalar (asdf_yaml_format_float dp val False)"

end
