(* ===== verification/Asdf_Rounding.thy ===== *)
theory Asdf_Rounding
  imports Asdf_Double
begin

text \<open>
  Facts about rounding to the nearest double: which values are doubles, and that a number closer to a double
  than half its last place rounds to it.
\<close>

section \<open>Rounding to the nearest double\<close>

text \<open>The logarithm of a quotient from the lengths of its parts, to any base.\<close>

lemma quotient_log:
  fixes B :: nat
  assumes "B > 0" and "x > 0" and "y > 0"
    and x: "B ^ (i - 1) \<le> x" "x < B ^ i" "i > 0" and y: "B ^ (j - 1) \<le> y" "y < B ^ j" "j > 0"
  shows "of_nat B powi (int i - int j - 1) \<le> (of_nat x / of_nat y :: rat)"
    "(of_nat x / of_nat y :: rat) < of_nat B powi (int i - int j + 1)"
proof -
  define b :: rat where "b = of_nat B"
  have b: "b > 0" using assms(1) by (simp add: b_def)
  have pow: "b ^ n = of_nat (B ^ n)" for n by (simp add: b_def)
  have X: "b ^ (i - 1) \<le> of_nat x" "of_nat x < b ^ i" unfolding pow of_nat_le_iff of_nat_less_iff using x by simp_all
  have Y: "b ^ (j - 1) \<le> of_nat y" "of_nat y < b ^ j" unfolding pow of_nat_le_iff of_nat_less_iff using y by simp_all
  have p: "b ^ i = b powi (int i - int j) * b ^ j" using b by (simp add: power_int_diff)
  have s: "b ^ i = b * b ^ (i - 1)" "b ^ j = b * b ^ (j - 1)" using x(3) y(3) by (simp_all flip: power_Suc)
  have k: "0 < b powi (int i - int j)" "(0 :: rat) < of_nat y" using b assms(3) by simp_all
  have "of_nat x < b powi (int i - int j) * b ^ j" using X(2) p by simp
  also have "\<dots> \<le> b powi (int i - int j) * (b * of_nat y)" unfolding s(2) using Y(1) k(1) b by (intro mult_left_mono) auto
  finally show "(of_nat x / of_nat y :: rat) < of_nat B powi (int i - int j + 1)"
    using k b by (simp add: power_int_add divide_less_eq ac_simps flip: b_def)
  have "b powi (int i - int j) * of_nat y \<le> b powi (int i - int j) * b ^ j" using Y(2) k(1) by (intro mult_left_mono) auto
  also have "\<dots> \<le> b * of_nat x" unfolding p [symmetric] s(1) using X(1) b by (intro mult_left_mono) auto
  finally have "b powi (int i - int j) * of_nat y \<le> b * of_nat x" .
  then show "of_nat B powi (int i - int j - 1) \<le> (of_nat x / of_nat y :: rat)"
    using k b by (simp add: power_int_diff le_divide_eq divide_le_eq ac_simps flip: b_def)
qed

lemma quotient_of_nats:
  assumes "q > 0"
  obtains a b where "quotient_of q = (a, b)" "a > 0" "b > 0" "q = of_nat (nat a) / of_nat (nat b)"
proof -
  obtain a b where ab: "quotient_of q = (a, b)" by force
  have q: "q = of_int a / of_int b" "b > 0" using quotient_of_div [OF ab] quotient_of_denom_pos [OF ab] by auto
  moreover have "a > 0" using q assms by (simp add: zero_less_divide_iff)
  ultimately show ?thesis using that ab by simp
qed

lemma rat_log2_bounds:
  assumes "q > 0"
  shows "2 powi rat_log2 q \<le> q" "q < 2 powi (rat_log2 q + 1)"
proof -
  obtain a b where q: "quotient_of q = (a, b)" "a > 0" "b > 0" "q = of_nat (nat a) / of_nat (nat b)"
    using quotient_of_nats [OF assms] by blast
  have "2 powi (int (bit_len (nat a)) - int (bit_len (nat b)) - 1) \<le> q"
    "q < 2 powi (int (bit_len (nat a)) - int (bit_len (nat b)) + 1)"
    unfolding q(4) using quotient_log [of 2 "nat a" "nat b"] q(2,3) bit_len_bounds [of "nat a"] bit_len_bounds [of "nat b"] by auto
  then show "2 powi rat_log2 q \<le> q" "q < 2 powi (rat_log2 q + 1)" by (auto simp: rat_log2_def q(1) Let_def)
qed

lemma powi_less_iff: "x > 1 \<Longrightarrow> (x :: rat) powi i < x powi j \<longleftrightarrow> i < j"
  by (metis linorder_not_less power_int_increasing power_int_strict_increasing less_imp_le)

lemma powi_numeral_less [simp]:
  "(2 :: rat) powi i < 2 powi j \<longleftrightarrow> i < j" "(10 :: rat) powi i < 10 powi j \<longleftrightarrow> i < j"
  by (simp_all add: powi_less_iff)

lemma rat_log2_eqI: "2 powi k \<le> q \<Longrightarrow> q < 2 powi (k + 1) \<Longrightarrow> rat_log2 q = k"
proof -
  assume a: "2 powi k \<le> q" "q < 2 powi (k + 1)"
  then have "q > 0" by (meson less_le_trans zero_less_power_int zero_less_numeral)
  note b = rat_log2_bounds [OF this]
  have "(2 :: rat) powi k < 2 powi (rat_log2 q + 1)" "(2 :: rat) powi rat_log2 q < 2 powi (k + 1)"
    using a b by (blast intro: le_less_trans)+
  then have "k < rat_log2 q + 1" "rat_log2 q < k + 1" by (simp_all only: powi_numeral_less)
  then show ?thesis by simp
qed

lemma round_even_near: "\<bar>x - of_int m\<bar> < 1 / 2 \<Longrightarrow> round_even x = m"
proof -
  assume a: "\<bar>x - of_int m\<bar> < 1 / 2"
  consider "of_int m \<le> x" | "x < of_int m" by linarith
  then show ?thesis
  proof cases
    case 1
    then have "\<lfloor>x\<rfloor> = m" using a by (intro floor_unique) auto
    with 1 a show ?thesis by (simp add: round_even_def)
  next
    case 2
    then have "\<lfloor>x\<rfloor> = m - 1" using a by (intro floor_unique) auto
    with 2 a show ?thesis by (simp add: round_even_def)
  qed
qed

lemma round_even_error: "\<bar>of_int (round_even x) - x\<bar> \<le> 1 / 2"
proof -
  define f where "f = \<lfloor>x\<rfloor>"
  have "of_int f \<le> x" "x < of_int f + 1" unfolding f_def by linarith+
  then show ?thesis unfolding round_even_def Let_def f_def [symmetric] by (simp add: abs_if)
qed

definition d_exp :: "rat \<Rightarrow> int" where
  "d_exp q = max (rat_log2 q - 52) (- 1074)"

text \<open>A number closer to a multiple of its own last place than half of it rounds to that multiple.\<close>

lemma double_of_near:
  assumes "r > 0" and "q = of_int m * 2 powi d_exp r" and "\<bar>r - q\<bar> < 2 powi d_exp r / 2" and "q > 0" and "q < 2 ^ 1024"
  shows "double_of neg r = Fin (if neg then - q else q)"
proof -
  have p: "(0 :: rat) < 2 powi d_exp r" by simp
  have "r / 2 powi d_exp r - of_int m = (r - q) / 2 powi d_exp r"
    using p by (simp add: assms(2) diff_divide_distrib)
  then have "\<bar>r / 2 powi d_exp r - of_int m\<bar> = \<bar>r - q\<bar> / 2 powi d_exp r" using p by (simp add: abs_divide)
  also have "\<dots> < 1 / 2" using assms(3) p by (simp add: divide_less_eq)
  finally have "round_even (r / 2 powi d_exp r) = m" by (rule round_even_near)
  moreover have "m \<noteq> 0" using assms(2,4) by auto
  ultimately show ?thesis using assms(1,2,5)
    unfolding double_of_def Let_def d_exp_def [symmetric] by (simp del: power_numeral)
qed

text \<open>What is a double: a value that rounding leaves alone.\<close>

definition is_double :: "double \<Rightarrow> bool" where
  "is_double d \<longleftrightarrow> (case d of Inf _ \<Rightarrow> True | NaN \<Rightarrow> True | _ \<Rightarrow> double_of (d_isneg d) \<bar>d_rat d\<bar> = d)"

lemma is_double_multiple:
  assumes "is_double (Fin q)" and "q \<noteq> 0"
  obtains m where "\<bar>q\<bar> = of_int m * 2 powi d_exp \<bar>q\<bar>" "\<bar>q\<bar> < 2 ^ 1024"
proof -
  have d: "double_of (q < 0) \<bar>q\<bar> = Fin q" using assms(1) by (simp add: is_double_def)
  define r :: rat where "r = of_int (round_even (\<bar>q\<bar> / 2 powi d_exp \<bar>q\<bar>)) * 2 powi d_exp \<bar>q\<bar>"
  have e: "double_of (q < 0) \<bar>q\<bar> = (if r \<ge> 2 ^ 1024 then Inf (q < 0) else if r = 0 then zero_of (q < 0) else Fin (if q < 0 then - r else r))"
    using assms(2) by (simp only: double_of_def Let_def d_exp_def r_def abs_eq_0 if_False)
  have "r < 2 ^ 1024 \<and> \<bar>q\<bar> = r"
    using d [unfolded e] assms(2) by (auto simp: zero_of_def not_le split: if_splits)
  then show ?thesis using that r_def by auto
qed

lemma powi_ge1: "(1 :: rat) \<le> 2 powi i \<longleftrightarrow> 0 \<le> i"
  using powi_numeral_less(1) [of i 0] by (simp add: not_less [symmetric])

text \<open>A number within a relative error of \<open>2 ^ - 54\<close> of a double rounds to it.\<close>

lemma double_of_close:
  assumes "is_double (Fin q)" and "q > 0" and "\<bar>r - q\<bar> < q / 2 ^ 54"
  shows "double_of neg r = Fin (if neg then - q else q)"
proof -
  obtain m where m: "q = of_int m * 2 powi d_exp q" "q < 2 ^ 1024"
    using is_double_multiple [OF assms(1)] assms(2) by auto
  define L where "L = rat_log2 q"
  have L: "2 powi L \<le> q" "q < 2 powi (L + 1)" unfolding L_def by (rule rat_log2_bounds [OF assms(2)])+
  have r0: "r > 0" using assms(2,3) by (simp add: abs_if split: if_splits)
  have half: "q / 2 ^ 54 < 2 powi (L - 53)"
    using L(2) by (simp add: power_int_add power_int_diff divide_less_eq)
  have e: "L - 52 \<le> d_exp q" by (simp add: d_exp_def L_def)
  have le: "L \<ge> d_exp q"
  proof (rule ccontr)
    assume "\<not> L \<ge> d_exp q"
    then have "2 powi (L + 1) \<le> (2 :: rat) powi d_exp q" by (intro power_int_increasing) auto
    with L(2) have "q < 2 powi d_exp q" by simp
    moreover define P :: rat where "P = 2 powi d_exp q"
    ultimately have "of_int m * P < 1 * P" "0 * P < of_int m * P" "0 < P" using m(1) assms(2) by simp_all
    then have "of_int m < (1 :: rat)" "(0 :: rat) < of_int m" by (simp_all only: mult_less_cancel_right_pos)
    then show False by simp
  qed
  have half_ulp: "2 powi (L - 53) \<le> (2 :: rat) powi d_exp q / 2"
  proof -
    have "(2 :: rat) powi (L - 53) \<le> 2 powi (d_exp q - 1)" using e by (intro power_int_increasing) auto
    then show ?thesis by (simp add: power_int_diff)
  qed
  have up: "r < 2 powi (L + 1)"
  proof -
    have eq: "(2 :: rat) powi (L + 1) = of_int (2 ^ nat (L + 1 - d_exp q)) * 2 powi d_exp q"
    proof -
      have "(2 :: rat) powi (L + 1) = 2 powi (int (nat (L + 1 - d_exp q))) * 2 powi d_exp q"
        using le by (simp flip: power_int_add)
      then show ?thesis by (simp del: int_nat_eq)
    qed
    have "of_int m < (of_int (2 ^ nat (L + 1 - d_exp q)) :: rat)"
      using L(2) m(1) eq by (metis mult_less_cancel_right_pos zero_less_power_int zero_less_numeral)
    then have "m + 1 \<le> 2 ^ nat (L + 1 - d_exp q)" by (simp only: of_int_less_iff)
    then have "(of_int (m + 1) :: rat) * 2 powi d_exp q \<le> 2 powi (L + 1)"
      unfolding eq by (intro mult_right_mono) (simp_all only: of_int_le_iff, simp)
    then have "q + 2 powi d_exp q \<le> 2 powi (L + 1)" using m(1) by (simp add: algebra_simps)
    then show ?thesis using assms(3) half half_ulp by (simp add: abs_if split: if_splits)
  qed
  show ?thesis
  proof (cases "2 powi L \<le> r")
    case True
    then have "rat_log2 r = L" using up by (rule rat_log2_eqI)
    then have "d_exp r = d_exp q" by (simp add: d_exp_def L_def)
    with m r0 assms(2,3) half half_ulp show ?thesis by (intro double_of_near [of r q m]) simp_all
  next
    case False
    have "2 powi (L - 1) \<le> r"
    proof -
      have "q / 2 \<le> r" using assms(2,3) by (simp add: abs_if split: if_splits)
      with L(1) show ?thesis by (simp add: power_int_diff)
    qed
    then have lr: "rat_log2 r = L - 1" using False by (intro rat_log2_eqI) auto
    show ?thesis
    proof (cases "d_exp r = d_exp q")
      case True
      with m r0 assms(2,3) half half_ulp show ?thesis by (intro double_of_near [of r q m]) simp_all
    next
      case ne: False
      then have er: "d_exp r = L - 53" and eq: "d_exp q = L - 52" by (auto simp: d_exp_def lr L_def)
      have p: "(0 :: rat) < 2 powi (L - 52)" by simp
      have l52: "(2 :: rat) powi L = 2 ^ 52 * 2 powi (L - 52)" by (simp add: power_int_diff)
      have m52: "m = 2 ^ 52"
      proof -
        have "(2 :: rat) ^ 52 * 2 powi (L - 52) \<le> of_int m * 2 powi (L - 52)" using L(1) m(1) eq l52 by simp
        then have "(of_int (2 ^ 52) :: rat) \<le> of_int m" by simp
        then have lo: "2 ^ 52 \<le> m" by (simp only: of_int_le_iff)
        have "q < 2 powi L + 2 powi (L - 52)"
          using False assms(3) half half_ulp eq p by (simp add: abs_if split: if_splits)
        then have "of_int m * 2 powi (L - 52) < (2 ^ 52 + 1) * (2 :: rat) powi (L - 52)" using m(1) eq l52 by (simp add: algebra_simps)
        then have "of_int m < (of_int (2 ^ 52 + 1) :: rat)" using p by simp
        then have "m < 2 ^ 52 + 1" by (simp only: of_int_less_iff)
        with lo show ?thesis by simp
      qed
      have qL: "q = 2 powi L" using m(1) m52 eq l52 by simp
      have q53: "q = of_int (2 ^ 53) * 2 powi d_exp r" by (simp add: qL er power_int_diff)
      have "\<bar>r - q\<bar> < 2 powi d_exp r / 2"
        using assms(3) by (simp add: er qL power_int_diff)
      then show ?thesis using q53 r0 assms(2) m(2) by (intro double_of_near [of r q "2 ^ 53"]) simp_all
    qed
  qed
qed

end
