(* ===== verification/Asdf_Float_Text_Laws.thy ===== *)
theory Asdf_Float_Text_Laws
  imports Asdf_Float_Text Asdf_Rounding Asdf_Yaml_Scalar_Laws
begin

text \<open>
  What is written of a double is read back as that double. Seventeen digits always suffice, and the search for
  fewer stops at digits that read back; the fixed notation has the digits of the scientific one.
\<close>

section \<open>Significant digits\<close>

lemma dec_len_bounds: "n > 0 \<Longrightarrow> 10 ^ (dec_len n - 1) \<le> n \<and> n < 10 ^ dec_len n \<and> dec_len n > 0"
proof (induction n rule: dec_len.induct)
  case (1 n)
  show ?case
  proof (cases "n div 10 = 0")
    case True
    with 1 show ?thesis by (simp add: dec_len.simps [of n] dec_len.simps [of 0])
  next
    case False
    with 1 have IH: "10 ^ (dec_len (n div 10) - 1) \<le> n div 10" "n div 10 < 10 ^ dec_len (n div 10)" "dec_len (n div 10) > 0"
      by auto
    have b: "dec_len n = Suc (dec_len (n div 10))" using 1 by (simp add: dec_len.simps [of n])
    have "10 * 10 ^ (dec_len (n div 10) - 1) \<le> n" using IH(1) by linarith
    moreover have "10 * 10 ^ (dec_len (n div 10) - 1) = (10 :: nat) ^ dec_len (n div 10)"
      using IH(3) by (cases "dec_len (n div 10)") auto
    moreover have "n < 10 * 10 ^ dec_len (n div 10)" using IH(2) by linarith
    ultimately show ?thesis by (simp add: b)
  qed
qed

lemma rat_log10_bounds:
  assumes "q > 0"
  shows "10 powi rat_log10 q \<le> q" "q < 10 powi (rat_log10 q + 1)"
proof -
  obtain a b where q: "quotient_of q = (a, b)" "a > 0" "b > 0" "q = of_nat (nat a) / of_nat (nat b)"
    using quotient_of_nats [OF assms] by blast
  have "10 powi (int (dec_len (nat a)) - int (dec_len (nat b)) - 1) \<le> q"
    "q < 10 powi (int (dec_len (nat a)) - int (dec_len (nat b)) + 1)"
    unfolding q(4) using quotient_log [of 10 "nat a" "nat b"] q(2,3) dec_len_bounds [of "nat a"] dec_len_bounds [of "nat b"] by auto
  then show "10 powi rat_log10 q \<le> q" "q < 10 powi (rat_log10 q + 1)" by (auto simp: rat_log10_def q(1) Let_def)
qed

lemma nat_round_even:
  assumes "x \<ge> 0"
  shows "\<bar>of_nat (nat (round_even x)) - x\<bar> \<le> 1 / 2" "round_even x \<ge> 0"
proof -
  have "of_int (round_even x) \<ge> (- 1 / 2 :: rat)" using round_even_error [of x] assms by (simp add: abs_if split: if_splits)
  then have "- 1 < (of_int (round_even x) :: rat)" by simp
  then show "round_even x \<ge> 0" by (metis of_int_less_iff of_int_minus of_int_1 zless_imp_add1_zle add.left_inverse)
  then show "\<bar>of_nat (nat (round_even x)) - x\<bar> \<le> 1 / 2" using round_even_error [of x] by simp
qed

text \<open>The digits: how many, how close, and when rounding carries.\<close>

lemma sci_digits_cases:
  assumes "q > 0" and "sci_digits p q = (n, e)"
  shows "10 ^ p \<le> n" "n < 10 ^ Suc p" "\<bar>of_nat n * 10 powi (e - int p) - q\<bar> \<le> 10 powi (rat_log10 q - int p) / 2"
    "e = rat_log10 q \<and> n = nat (round_even (q / 10 powi (e - int p)))
     \<or> e = rat_log10 q + 1 \<and> n = 10 ^ p \<and> \<bar>10 ^ Suc p - q / 10 powi (rat_log10 q - int p)\<bar> \<le> 1 / 2"
proof -
  define l where "l = rat_log10 q"
  define x where "x = q / 10 powi (l - int p)"
  define m where "m = nat (round_even x)"
  have P: "(0 :: rat) < 10 powi (l - int p)" by simp
  have q: "q = x * 10 powi (l - int p)" using P by (simp add: x_def)
  have x: "10 ^ p \<le> x" "x < 10 ^ Suc p"
  proof -
    have "10 powi l \<le> q" "q < 10 powi (l + 1)" unfolding l_def by (rule rat_log10_bounds [OF assms(1)])+
    then show "10 ^ p \<le> x" "x < 10 ^ Suc p" using P
      by (simp_all add: x_def le_divide_eq divide_less_eq power_int_add power_int_diff)
  qed
  then have "x \<ge> 0" by (meson order_trans zero_le_numeral zero_le_power)
  note m = nat_round_even [OF this, folded m_def]
  have err: "\<bar>of_nat m * 10 powi (l - int p) - q\<bar> \<le> 10 powi (l - int p) / 2"
  proof -
    have "of_nat m * 10 powi (l - int p) - q = (of_nat m - x) * 10 powi (l - int p)" by (subst (1) q) (simp add: algebra_simps)
    then have "\<bar>of_nat m * 10 powi (l - int p) - q\<bar> = \<bar>of_nat m - x\<bar> * 10 powi (l - int p)" by (simp add: abs_mult)
    then show ?thesis using mult_right_mono [OF m(1), of "10 powi (l - int p)"] P by simp
  qed
  have pow: "(10 :: rat) ^ k = of_nat (10 ^ k)" for k by simp
  have bnd: "10 ^ p \<le> m" "m \<le> 10 ^ Suc p"
  proof -
    have "of_nat (10 ^ p) < (of_nat (m + 1) :: rat)" using m(1) x(1) by (simp add: abs_if split: if_splits)
    then show "10 ^ p \<le> m" by (simp only: of_nat_less_iff)
    have "of_nat m < (of_nat (10 ^ Suc p + 1) :: rat)" using m(1) x(2) by (simp add: abs_if split: if_splits)
    then show "m \<le> 10 ^ Suc p" by (simp only: of_nat_less_iff)
  qed
  have sd: "(n, e) = (if m = 10 ^ Suc p then (10 ^ p, l + 1) else (m, l))"
    using assms by (auto simp: sci_digits_def Let_def l_def m_def x_def)
  show "10 ^ p \<le> n" "n < 10 ^ Suc p" using sd bnd by (auto split: if_splits)
  show "\<bar>of_nat n * 10 powi (e - int p) - q\<bar> \<le> 10 powi (rat_log10 q - int p) / 2"
    using sd err by (auto simp: l_def power_int_add power_int_diff split: if_splits)
  show "e = rat_log10 q \<and> n = nat (round_even (q / 10 powi (e - int p)))
     \<or> e = rat_log10 q + 1 \<and> n = 10 ^ p \<and> \<bar>10 ^ Suc p - q / 10 powi (rat_log10 q - int p)\<bar> \<le> 1 / 2"
    using sd m(1) by (auto simp: m_def x_def l_def split: if_splits)
qed

section \<open>Texts and their values\<close>

text \<open>A decimal point of a locale: no digit, sign or exponent mark is in it.\<close>

definition good_point :: "bytes \<Rightarrow> bool" where
  "good_point dp \<longleftrightarrow> dp \<noteq> [] \<and> list_all (\<lambda>c. \<not> is_digit c \<and> c \<notin> {43, 45, 101, 69, 95}) dp"

lemma list_all_dec: "list_all is_digit (dec n)"
  using dec_digits by (simp add: list_all_iff)

lemma digits_val_zeros: "digits_val (replicate k 48 @ ds) = digits_val ds"
  by (induction k) (simp_all add: digits_val_def)

lemma digits_val_pad [simp]: "digits_val (pad_dec k n) = n"
  using dec_digits by (simp add: pad_dec_def digits_val_zeros)

lemma digit_48 [simp]: "is_digit 48"
  by (simp add: is_digit_def)

lemma pad_dec_digits [simp]: "list_all is_digit (pad_dec k n)"
  using list_all_dec by (simp add: pad_dec_def) (simp add: list_all_iff)

lemma length_dec: "n < 10 ^ k \<Longrightarrow> k > 0 \<Longrightarrow> length (dec n) \<le> k"
proof (induction n arbitrary: k rule: dec.induct)
  case (1 n)
  show ?case
  proof (cases "n < 10")
    case True
    with 1(3) show ?thesis by (subst dec.simps) simp
  next
    case False
    then have k: "k > 1" using 1(2,3) by (cases k) (auto split: nat.splits simp: less_Suc_eq_0_disj intro: ccontr)
    moreover have "n div 10 < 10 ^ (k - 1)" using 1(2) k by (cases k) auto
    ultimately have "length (dec (n div 10)) \<le> k - 1" using 1(1) False by simp
    with k False show ?thesis by (subst dec.simps) simp
  qed
qed

lemma length_pad_dec: "n < 10 ^ k \<Longrightarrow> k > 0 \<Longrightarrow> length (pad_dec k n) = k"
  using length_dec by (simp add: pad_dec_def)

lemma pad_dec_ne [simp]: "pad_dec k n \<noteq> []"
  using dec_digits by (simp add: pad_dec_def)

lemma digits_val_append: "digits_val (xs @ ys) = digits_val xs * 10 ^ length ys + digits_val ys"
  by (induction ys rule: rev_induct) (simp_all add: digits_val_snoc algebra_simps digits_val_def flip: append_assoc)

text \<open>What stands behind the digits: nothing, or an exponent.\<close>

definition exponent_of :: "bytes \<Rightarrow> int \<Rightarrow> bool" where
  "exponent_of x e \<longleftrightarrow> x = [] \<and> e = 0 \<or> x = print_exp e"

lemma takeWhile_digits: "list_all is_digit ds \<Longrightarrow> r = [] \<or> \<not> is_digit (hd r) \<Longrightarrow>
  takeWhile is_digit (ds @ r) = ds \<and> dropWhile is_digit (ds @ r) = r"
  by (induction ds) (auto simp: takeWhile_eq_Nil_iff dropWhile_eq_self_iff)

lemma digit_num: "is_digit c \<Longrightarrow> c \<notin> {43, 45, 46, 95, 101, 69}"
  by (auto simp: is_digit_def)

lemma skip_sign_digits: "list_all is_digit ds \<Longrightarrow> ds \<noteq> [] \<Longrightarrow> skip_sign (ds @ r) = ds @ r"
  by (cases ds) (auto simp: skip_sign_def dest: digit_num)

lemma strtod_exp_of: "exponent_of x e \<Longrightarrow> strtod_exp x = e"
proof -
  have tw: "takeWhile is_digit (pad_dec 2 n) = pad_dec 2 n" for n
    using takeWhile_digits [of "pad_dec 2 n" "[]"] by simp
  have "strtod_exp (print_exp e) = e"
    by (auto simp: strtod_exp_def print_exp_def skip_sign_def tw radix_val_digits)
  moreover have "strtod_exp [] = 0" by (simp add: strtod_exp_def)
  ultimately show "exponent_of x e \<Longrightarrow> strtod_exp x = e" by (auto simp: exponent_of_def)
qed

lemma exponent_head: "exponent_of x e \<Longrightarrow> x = [] \<or> hd x = 101"
  by (auto simp: exponent_of_def print_exp_def)

lemma point_head: "good_point dp \<Longrightarrow> \<not> is_digit (hd dp) \<and> hd dp \<notin> {43, 45, 101, 69, 95}"
  by (cases dp) (auto simp: good_point_def)

lemma strtod_text:
  assumes "good_point dp" and "list_all is_digit i" and "i \<noteq> []" and "list_all is_digit f" and "exponent_of x e"
    and "pt \<or> f = []" and "d_isneg d = neg"
  shows "strtod dp (print_sign d @ i @ (if pt then dp @ f else []) @ x) =
    (let v = double_of neg (of_nat (digits_val (i @ f)) * 10 powi (e - int (length f))) in (v, d_isinf v))"
proof -
  define r where "r = (if pt then dp @ f else []) @ x"
  note x = exponent_head [OF assms(5)]
  have dig: "\<not> is_digit 101" by (simp add: is_digit_def)
  have hr: "r = [] \<or> \<not> is_digit (hd r)"
    using x dig point_head [OF assms(1)] assms(1) by (auto simp: r_def good_point_def)
  have sg: "(s \<noteq> [] \<and> s ! 0 = 45) = neg" "skip_sign s = i @ r" if "s = print_sign d @ i @ r" for s
    using that assms(2,3,7) skip_sign_digits [OF assms(2,3), of r]
    by (auto simp: print_sign_def skip_sign_def nth_append hd_conv_nth [symmetric] neq_Nil_conv dest: digit_num)
  note tw = takeWhile_digits [OF assms(2) hr]
  have hp: "(take (length dp) r = dp) = pt"
  proof (cases pt)
    case False
    then have "r = x" by (simp add: r_def)
    with x point_head [OF assms(1)] assms(1) False show ?thesis
      by (cases x) (auto simp: good_point_def, metis hd_take length_greater_0_conv list.sel(1))
  qed (simp add: r_def)
  have fr: "pt \<Longrightarrow> takeWhile is_digit (drop (length dp) r) = f \<and> dropWhile is_digit (drop (length dp) r) = x"
    using takeWhile_digits [OF assms(4), of x] x dig by (auto simp: r_def)
  have xr: "\<not> pt \<Longrightarrow> r = x" by (simp add: r_def)
  show ?thesis
    unfolding strtod_def Let_def r_def [symmetric] sg(1) [OF refl] sg(2) [OF refl]
    using tw hp fr xr assms(3,6) strtod_exp_of [OF assms(5)] assms(2,4)
    by (auto simp: radix_val_digits simp del: digits_val_def)
qed

text \<open>The value of the digits printed with a precision.\<close>

definition sci_value :: "nat \<Rightarrow> double \<Rightarrow> rat" where
  "sci_value p d = (let (n, e) = sci_digits p \<bar>d_rat d\<bar> in of_nat n * 10 powi (e - int p))"

lemma sci_digits_zero [simp]: "sci_digits p 0 = (0, 0)"
  by (simp add: sci_digits_def)

lemma sci_digits_less: "sci_digits p \<bar>q\<bar> = (n, e) \<Longrightarrow> n < 10 ^ Suc p"
  using sci_digits_cases(2) [of "\<bar>q\<bar>" p n e] by (cases "q = 0") auto

lemma printf_e_shape:
  assumes "sci_digits p \<bar>d_rat d\<bar> = (n, e)"
  obtains c cs where "printf_e dp p d = print_sign d @ [c] @ (if p \<noteq> 0 then dp @ cs else []) @ print_exp e"
    "is_digit c" "list_all is_digit cs" "length cs = p" "digits_val (c # cs) = n"
proof -
  have l: "length (pad_dec (Suc p) n) = Suc p" using sci_digits_less [OF assms] by (intro length_pad_dec) auto
  then obtain c cs where c: "pad_dec (Suc p) n = c # cs" "length cs = p" by (cases "pad_dec (Suc p) n") auto
  moreover have "list_all is_digit (c # cs)" "digits_val (c # cs) = n" using c(1) pad_dec_digits [of "Suc p" n] digits_val_pad [of "Suc p" n] by auto
  moreover have "printf_e dp p d = print_sign d @ [c] @ (if p \<noteq> 0 then dp @ cs else []) @ print_exp e"
    by (simp add: printf_e_def assms c)
  ultimately show ?thesis using that by auto
qed

lemma printf_e_value:
  assumes "good_point dp"
  shows "fst (strtod dp (printf_e dp p d)) = double_of (d_isneg d) (sci_value p d)"
proof -
  obtain n e where ne: "sci_digits p \<bar>d_rat d\<bar> = (n, e)" by force
  obtain c cs where c: "printf_e dp p d = print_sign d @ [c] @ (if p \<noteq> 0 then dp @ cs else []) @ print_exp e"
    "is_digit c" "list_all is_digit cs" "length cs = p" "digits_val (c # cs) = n"
    using printf_e_shape [OF ne] by blast
  have "strtod dp (printf_e dp p d) =
    (let v = double_of (d_isneg d) (of_nat (digits_val ([c] @ cs)) * 10 powi (e - int (length cs))) in (v, d_isinf v))"
    unfolding c(1) using c assms by (intro strtod_text) (auto simp: exponent_of_def)
  with c show ?thesis by (simp add: sci_value_def ne Let_def)
qed

lemma printed_exponent_e:
  assumes "good_point dp" and "sci_digits p \<bar>d_rat d\<bar> = (n, e)"
  shows "printed_exponent (printf_e dp p d) = e"
proof -
  obtain c cs where c: "printf_e dp p d = print_sign d @ [c] @ (if p \<noteq> 0 then dp @ cs else []) @ print_exp e"
    "is_digit c" "list_all is_digit cs" "length cs = p" "digits_val (c # cs) = n"
    using printf_e_shape [OF assms(2)] by blast
  have "101 \<notin> set (print_sign d @ [c] @ (if p \<noteq> 0 then dp @ cs else []))"
    using c(2,3) assms(1) by (auto simp: print_sign_def good_point_def list_all_iff dest: digit_num)
  then have "dropWhile (\<lambda>c. c \<noteq> 101) (printf_e dp p d) = print_exp e"
    unfolding c(1) append_assoc [symmetric] by (subst dropWhile_append2) (auto simp: print_exp_def)
  then show ?thesis by (simp add: printed_exponent_def strtod_exp_of exponent_of_def)
qed

section \<open>The precision that reads back\<close>

lemma is_double_cases:
  assumes "is_double d" and "is_finite d"
  obtains q where "d = Fin q" "q \<noteq> 0" | "d = zero_of (d_isneg d)" "d_rat d = 0"
proof (cases d)
  case (Fin q)
  then show ?thesis using that by (cases "q = 0") (auto simp: zero_of_def)
next
  case MinusZero
  then show ?thesis using that by (simp add: zero_of_def)
qed (use assms in auto)

lemma d_eq_double_of:
  assumes "is_double d" and "is_finite d" and "d_eq (double_of (d_isneg d) r) d" and "d_rat d \<noteq> 0"
  shows "double_of (d_isneg d) r = d"
proof -
  obtain q where q: "d = Fin q" "q \<noteq> 0" using assms(1,2,4) by (auto elim: is_double_cases)
  show ?thesis using assms(3) q by (cases "double_of (q < 0) r") auto
qed

lemma seventeen_digits:
  assumes "is_double (Fin q)" and "q \<noteq> 0"
  shows "double_of (q < 0) (sci_value 16 (Fin q)) = Fin q"
proof -
  obtain n e where ne: "sci_digits 16 \<bar>q\<bar> = (n, e)" by force
  have q: "\<bar>q\<bar> > 0" using assms(2) by simp
  have d: "is_double (Fin \<bar>q\<bar>)"
  proof -
    obtain m where m: "\<bar>q\<bar> = of_int m * 2 powi d_exp \<bar>q\<bar>" "\<bar>q\<bar> < 2 ^ 1024"
      using is_double_multiple [OF assms] by blast
    then show ?thesis using q double_of_near [of "\<bar>q\<bar>" "\<bar>q\<bar>" m False] by (simp add: is_double_def del: power_numeral)
  qed
  have "\<bar>of_nat n * 10 powi (e - 16) - \<bar>q\<bar>\<bar> \<le> 10 powi (rat_log10 \<bar>q\<bar> - 16) / 2"
    using sci_digits_cases(3) [OF q ne] by simp
  also have "\<dots> < \<bar>q\<bar> / 2 ^ 54"
  proof -
    have "10 powi (rat_log10 \<bar>q\<bar> - 16) / 2 = 10 powi rat_log10 \<bar>q\<bar> / (2 * 10 ^ 16 :: rat)" by (simp add: power_int_diff)
    also have "\<dots> \<le> \<bar>q\<bar> / (2 * 10 ^ 16)" using rat_log10_bounds(1) [OF q] by (intro divide_right_mono) auto
    also have "\<dots> < \<bar>q\<bar> / 2 ^ 54" using q by (intro divide_strict_left_mono) auto
    finally show ?thesis .
  qed
  finally have "double_of (q < 0) (sci_value 16 (Fin q)) = Fin (if q < 0 then - \<bar>q\<bar> else \<bar>q\<bar>)"
    by (intro double_of_close [OF d q]) (simp add: sci_value_def ne)
  then show ?thesis by simp
qed

lemma round_trip_prec_correct:
  assumes "good_point dp" and "is_double d" and "is_finite d"
  defines "prec \<equiv> round_trip_prec dp False d"
  shows "0 < prec" "prec \<le> 17" "double_of (d_isneg d) (sci_value (prec - 1) d) = d"
    "\<And>k. 0 < k \<Longrightarrow> k < prec \<Longrightarrow> \<not> d_eq (double_of (d_isneg d) (sci_value (k - 1) d)) d"
proof -
  define P where "P = (\<lambda>k. d_eq (double_of (d_isneg d) (sci_value (k - 1) d)) d)"
  have prec: "prec = (case find P [1 ..< 17] of Some k \<Rightarrow> k | None \<Rightarrow> 17)"
    by (simp add: prec_def round_trip_prec_def reads_back_def printf_e_value [OF assms(1)] P_def max_prec_def DBL_DECIMAL_DIG_def
        cong: option.case_cong)
  have z: "d_rat d = 0 \<Longrightarrow> sci_value k d = 0" for k by (simp add: sci_value_def)
  show "0 < prec" "prec \<le> 17" "\<And>k. 0 < k \<Longrightarrow> k < prec \<Longrightarrow> \<not> d_eq (double_of (d_isneg d) (sci_value (k - 1) d)) d"
    "double_of (d_isneg d) (sci_value (prec - 1) d) = d"
  proof -
    show "0 < prec" "prec \<le> 17"
      unfolding prec by (auto split: option.splits simp: find_Some_iff)
    show "\<not> d_eq (double_of (d_isneg d) (sci_value (k - 1) d)) d" if k: "0 < k" "k < prec" for k
    proof (cases "find P [1 ..< 17]")
      case None
      moreover have "prec = 17" unfolding prec using None by simp
      ultimately have "\<not> P k" using k by (auto simp: find_None_iff)
      then show ?thesis by (simp add: P_def)
    next
      case (Some m)
      then obtain j where j: "j < length [1 ..< 17 :: nat]" "[1 ..< 17] ! j = m" "\<forall>i<j. \<not> P ([1 ..< 17] ! i)"
        by (auto simp: find_Some_iff simp del: upt_rec_numeral upt_Suc)
      moreover have "m = prec" using Some by (simp add: prec)
      ultimately have "k - 1 < j" "k - 1 < 16" using k by auto
      then have "\<not> P ([1 ..< 17] ! (k - 1))" using j(3) by blast
      moreover have "[1 ..< 17] ! (k - 1) = k" using k(1) \<open>k - 1 < 16\<close> by (subst nth_upt) auto
      ultimately show ?thesis by (simp add: P_def)
    qed
    show "double_of (d_isneg d) (sci_value (prec - 1) d) = d"
    proof (rule is_double_cases [OF assms(2,3)])
      fix q assume q: "d = Fin q" "q \<noteq> 0"
      show ?thesis
      proof (cases "find P [1 ..< 17]")
        case None
        then show ?thesis using seventeen_digits q assms(2) by (simp add: prec)
      next
        case (Some m)
        then have "P m" by (auto simp: find_Some_iff)
        moreover have "prec = m" unfolding prec using Some by simp
        ultimately have "P prec" by simp
        then show ?thesis using q by (intro d_eq_double_of [OF assms(2,3)]) (simp_all add: P_def)
      qed
    next
      assume d: "d = zero_of (d_isneg d)" "d_rat d = 0"
      then show ?thesis by (simp add: z double_of_def)
    qed
  qed
qed

section \<open>The fixed notation\<close>

lemma small_integer_double:
  assumes "n < 10 ^ Suc p" and "k > 0" and "p + k < 16"
  shows "double_of neg (of_nat (n * 10 ^ k)) = (if n = 0 then zero_of neg else Fin (if neg then - of_nat (n * 10 ^ k) else of_nat (n * 10 ^ k)))"
proof (cases "n = 0")
  case False
  define T where "T = n * 10 ^ k"
  have "T < 10 ^ Suc p * 10 ^ k" unfolding T_def using assms(1) by (intro mult_strict_right_mono) auto
  also have "\<dots> = 10 ^ (Suc p + k)" by (simp add: power_add)
  also have "\<dots> \<le> 10 ^ 16" using assms(3) by (intro power_increasing) auto
  finally have "T < 10 ^ 16" .
  then have T54: "T < 2 ^ 54" by simp
  have T0: "T > 0" using False by (simp add: T_def)
  have ev: "T = 2 * (T div 2)" using assms(2) by (cases k) (simp_all add: T_def)
  define E where "E = d_exp (of_nat T)"
  have "rat_log2 (of_nat T) < 54"
  proof -
    have "2 powi rat_log2 (of_nat T) \<le> (of_nat T :: rat)" using T0 by (intro rat_log2_bounds) simp
    also have "(of_nat T :: rat) < of_nat (2 ^ 54)" using T54 by (simp only: of_nat_less_iff)
    also have "\<dots> = 2 powi 54" by simp
    finally show ?thesis by (simp only: powi_numeral_less)
  qed
  then have E: "E \<le> 1" by (simp add: E_def d_exp_def)
  obtain m where m: "(of_nat T :: rat) = of_int m * 2 powi E"
  proof (cases "E = 1")
    case True
    have "(of_nat T :: rat) = of_nat (2 * (T div 2))" using ev by simp
    then have "(of_nat T :: rat) = of_int (int (T div 2)) * 2 powi E" using True by simp
    then show ?thesis by (rule that)
  next
    case False
    then have "E \<le> 0" using E by simp
    then have "(of_nat T :: rat) = of_int (int T * 2 ^ nat (- E)) * 2 powi E" by (simp add: power_int_def power_one_over)
    then show ?thesis by (rule that)
  qed
  have big: "(of_nat T :: rat) < 2 ^ 1024"
  proof -
    have "(of_nat T :: rat) < of_nat (2 ^ 54)" using T54 by (simp only: of_nat_less_iff)
    also have "\<dots> = 2 ^ 54" by simp
    also have "(2 :: rat) ^ 54 \<le> 2 ^ 1024" by (rule power_increasing) simp_all
    finally show ?thesis .
  qed
  have "double_of neg (of_nat T) = Fin (if neg then - of_nat T else of_nat T)"
    using T0 by (intro double_of_near [OF _ m [unfolded E_def] _ _ big]) simp_all
  with False show ?thesis by (simp add: T_def)
qed (simp add: double_of_def)

text \<open>The digits that the fixed notation prints have the value of those printed before.\<close>

lemma fixed_digits:
  assumes "is_double d" and "is_finite d" and ne: "sci_digits p \<bar>d_rat d\<bar> = (n, e)" and "e \<le> 15" and "p \<le> 16"
    and v: "double_of (d_isneg d) (sci_value p d) = d"
  shows "of_nat (nat (round_even (\<bar>d_rat d\<bar> * 10 ^ nat (int p - e)))) = sci_value p d * 10 ^ nat (int p - e)"
proof (cases "d_rat d = 0")
  case True
  then show ?thesis by (simp add: sci_value_def round_even_def)
next
  case False
  define q where "q = \<bar>d_rat d\<bar>"
  have q: "q > 0" using False by (simp add: q_def)
  note ne' = ne [folded q_def]
  have sv: "sci_value p d = of_nat n * 10 powi (e - int p)" by (simp add: sci_value_def ne)
  show ?thesis
  proof (cases "e \<le> int p")
    case True
    then have k: "(10 :: rat) ^ nat (int p - e) = 10 powi (int p - e)" by (simp add: power_int_def)
    have sn: "sci_value p d * 10 ^ nat (int p - e) = of_nat n" by (simp add: sv k flip: power_int_add)
    consider "n = nat (round_even (q / 10 powi (e - int p)))"
      | "e = rat_log10 q + 1" "n = 10 ^ p" "\<bar>10 ^ Suc p - q / 10 powi (rat_log10 q - int p)\<bar> \<le> 1 / 2"
      using sci_digits_cases(4) [OF q ne'] by blast
    then show ?thesis
    proof cases
      case 1
      have "q / 10 powi (e - int p) = q * 10 ^ nat (int p - e)" by (simp add: k power_int_diff)
      with 1 sn show ?thesis by (simp add: q_def)
    next
      case 2
      define x where "x = q * 10 ^ nat (int p - e)"
      have "x = q * 10 powi (int p - e)" by (simp only: x_def k)
      then have "10 * x = q * 10 powi (int p - rat_log10 q)" by (simp add: 2(1) power_int_diff power_int_add)
      also have "\<dots> = q / 10 powi (rat_log10 q - int p)" by (simp add: power_int_diff)
      finally have "q / 10 powi (rat_log10 q - int p) = 10 * x" by simp
      then have "\<bar>x - of_int (10 ^ p)\<bar> < 1 / 2" using 2(3) by (simp add: abs_if split: if_splits)
      then have "round_even x = 10 ^ p" by (rule round_even_near)
      then show ?thesis using sn 2(2) by (simp add: x_def q_def)
    qed
  next
    case gt: False
    then have k: "nat (int p - e) = 0" by simp
    define j where "j = nat (e - int p)"
    have j: "j > 0" "p + j < 16" using gt assms(4) by (simp_all add: j_def)
    have T: "sci_value p d = of_nat (n * 10 ^ j)" using gt by (simp add: sv j_def power_int_def)
    have "10 ^ p \<le> n" by (rule sci_digits_cases(1) [OF q ne'])
    then have "n \<noteq> 0" by (cases n) auto
    then have d: "d = Fin (if d_isneg d then - of_nat (n * 10 ^ j) else of_nat (n * 10 ^ j))"
      using v small_integer_double [OF sci_digits_cases(2) [OF q ne'] j, of "d_isneg d"] by (simp only: T if_False)
    have "\<bar>d_rat d\<bar> = of_nat (n * 10 ^ j)" by (subst d) simp
    then have "round_even \<bar>d_rat d\<bar> = int (n * 10 ^ j)" using round_even_int [of "int (n * 10 ^ j)"] by simp
    then show ?thesis by (simp add: k T)
  qed
qed

lemma printf_f_shape:
  obtains i f where "printf_f dp k d = print_sign d @ i @ (if k \<noteq> 0 then dp @ f else [])" "list_all is_digit i" "i \<noteq> []"
    "list_all is_digit f" "length f = k" "digits_val (i @ f) = nat (round_even (\<bar>d_rat d\<bar> * 10 ^ k))"
proof -
  define N where "N = nat (round_even (\<bar>d_rat d\<bar> * 10 ^ k))"
  define f where "f = (if k = 0 then [] else pad_dec k (N mod 10 ^ k))"
  have l: "length f = k" by (simp add: f_def length_pad_dec)
  have v: "digits_val f = N mod 10 ^ k" by (simp add: f_def) (simp add: digits_val_def)
  show ?thesis
  proof (rule that)
    show "printf_f dp k d = print_sign d @ dec (N div 10 ^ k) @ (if k \<noteq> 0 then dp @ f else [])"
      by (simp add: printf_f_def N_def f_def Let_def)
    show "list_all is_digit (dec (N div 10 ^ k))" "dec (N div 10 ^ k) \<noteq> []" using list_all_dec dec_digits by auto
    show "list_all is_digit f" by (simp add: f_def)
    show "length f = k" by (rule l)
    show "digits_val (dec (N div 10 ^ k) @ f) = nat (round_even (\<bar>d_rat d\<bar> * 10 ^ k))"
      using dec_digits [of "N div 10 ^ k"] by (simp add: digits_val_append l v N_def [symmetric] div_mult_mod_eq)
  qed
qed

section \<open>The text\<close>

lemma delocalize_skip: "dp \<noteq> [] \<Longrightarrow> hd dp \<notin> set xs \<Longrightarrow> delocalize dp (xs @ ys) = xs @ delocalize dp ys"
proof (induction xs)
  case (Cons c xs)
  then have "take (length dp) (c # xs @ ys) \<noteq> dp" by (cases dp) auto
  with Cons show ?case by simp
qed simp

lemma delocalize_point: "dp \<noteq> [] \<Longrightarrow> delocalize dp (dp @ ys) = 46 # ys"
  by (cases dp) simp_all

lemma delocalize_none: "dp \<noteq> [] \<Longrightarrow> hd dp \<notin> set xs \<Longrightarrow> delocalize dp xs = xs"
  using delocalize_skip [of dp xs "[]"] by simp

lemma text_chars:
  assumes "list_all is_digit i" and "exponent_of x e"
  shows "set (print_sign d @ i @ x) \<subseteq> {43, 45, 101} \<union> {c. is_digit c}"
proof -
  have "set x \<subseteq> {43, 45, 101} \<union> {c. is_digit c}"
    using assms(2) pad_dec_digits [of 2] by (auto simp: exponent_of_def print_exp_def list_all_iff)
  then show ?thesis using assms(1) by (auto simp: print_sign_def list_all_iff)
qed

text \<open>What the last two steps make of a printed number, and that it is read as the number.\<close>

lemma finished_text:
  assumes dp: "good_point dp" and i: "list_all is_digit i" "i \<noteq> []" and f: "list_all is_digit f" "length f = k"
    and x: "exponent_of x e"
    and v: "double_of (d_isneg d) (of_nat (digits_val (i @ f)) * 10 powi (e - int (length f))) = d" "is_finite d"
  shows "asdf_yaml_scalar_is_float dp [True] (Some (insert_point (delocalize dp (print_sign d @ i @ (if k \<noteq> 0 then dp @ f else []) @ x)))) False y = ((ASDF_VALUE_OK, d), [])"
proof -
  have dpn: "dp \<noteq> []" "hd dp \<notin> {43, 45, 101} \<union> {c. is_digit c}" using dp point_head [OF dp] by (auto simp: good_point_def)
  note ch = text_chars [OF i(1) x, of d]
  define g where "g = (if k = 0 then [48] else f)"
  have g: "list_all is_digit g" "g \<noteq> []" using f by (auto simp: g_def)
  have "insert_point (delocalize dp (print_sign d @ i @ (if k \<noteq> 0 then dp @ f else []) @ x)) = print_sign d @ i @ 46 # g @ x"
  proof (cases "k = 0")
    case True
    have "hd dp \<notin> set (print_sign d @ i @ x)" using ch dpn(2) by blast
    then have dl: "delocalize dp (print_sign d @ i @ x) = print_sign d @ i @ x" using dpn(1) by (rule delocalize_none [rotated])
    have no46: "46 \<notin> set (print_sign d @ i @ x)" using ch by auto
    have no101: "\<And>c. c \<in> set (print_sign d @ i) \<Longrightarrow> c \<noteq> 101"
      using i(1) by (auto simp: print_sign_def list_all_iff dest: digit_num)
    have xx: "takeWhile (\<lambda>c. c \<noteq> 101) x = []" "dropWhile (\<lambda>c. c \<noteq> 101) x = x"
      using x by (auto simp: exponent_of_def print_exp_def)
    have "takeWhile (\<lambda>c. c \<noteq> 101) ((print_sign d @ i) @ x) = print_sign d @ i" "dropWhile (\<lambda>c. c \<noteq> 101) ((print_sign d @ i) @ x) = x"
      using takeWhile_append2 [of "print_sign d @ i" "\<lambda>c. c \<noteq> 101" x, OF no101] dropWhile_append2 [of "print_sign d @ i" "\<lambda>c. c \<noteq> 101" x, OF no101]
      by (simp_all only: xx append_Nil2)
    with True dl no46 show ?thesis by (simp add: insert_point_def g_def)
  next
    case False
    have "hd dp \<notin> set (print_sign d @ i)" using ch dpn(2) by auto
    then have "delocalize dp ((print_sign d @ i) @ dp @ f @ x) = (print_sign d @ i) @ 46 # f @ x"
      using delocalize_skip [OF dpn(1), of "print_sign d @ i" "dp @ f @ x"] delocalize_point [OF dpn(1), of "f @ x"] by simp
    with False show ?thesis by (simp add: insert_point_def g_def)
  qed
  moreover have "asdf_yaml_scalar_is_float dp [True] (Some (print_sign d @ i @ 46 # g @ x)) False y = ((ASDF_VALUE_OK, d), [])"
  proof -
    have dec: "is_digit c \<Longrightarrow> dec_char c" for c by (simp add: dec_char_def)
    have "is_decimal_float (print_sign d @ i @ (46 # g) @ x) False"
      unfolding is_decimal_float_iff decimal_text_def
    proof (intro exI conjI)
      show "print_sign d @ i @ (46 # g) @ x = print_sign d @ i @ (46 # g) @ x" ..
      show "sign_text (print_sign d)" by (simp add: sign_text_def print_sign_def)
      show "i = [] \<or> int_text i" using i dec by (cases i) (auto simp: int_text_def list_all_iff)
      show "46 # g = [] \<or> (\<exists>fs. 46 # g = 46 # fs \<and> list_all dec_char fs \<and> (i = [] \<longrightarrow> int_text fs))"
        using g dec i(2) by (auto simp: list_all_iff)
      show "x = [] \<or> exp_text x" using x
        by (cases "e < 0") (auto simp: exponent_of_def print_exp_def exp_text_Cons skip_sign_def)
    qed (use i in auto)
    moreover have cd: "copy_digits (Some dp) xs = xs" if "set xs \<subseteq> {43, 45, 101} \<union> {c. is_digit c}" for xs
      using that by (induction xs) (auto dest: digit_num)
    have ca: "copy_digits (Some dp) (xs @ ys) = copy_digits (Some dp) xs @ copy_digits (Some dp) ys" for xs ys
      by (induction xs) auto
    have "copy_digits (Some dp) (print_sign d @ i @ 46 # g @ x) = print_sign d @ i @ dp @ g @ x"
      using ch g(1) cd [of "print_sign d"] cd [of i] cd [of g] cd [of x] i(1) by (auto simp: ca list_all_iff)
    moreover have "strtod dp (print_sign d @ i @ dp @ g @ x) = (d, False)"
    proof -
      have "strtod dp (print_sign d @ i @ (if True then dp @ g else []) @ x) =
        (let v = double_of (d_isneg d) (of_nat (digits_val (i @ g)) * 10 powi (e - int (length g))) in (v, d_isinf v))"
        using dp i g x by (intro strtod_text) auto
      moreover have "of_nat (digits_val (i @ g)) * 10 powi (e - int (length g)) = (of_nat (digits_val (i @ f)) * 10 powi (e - int (length f)) :: rat)"
        using f(2) by (auto simp: g_def digits_val_snoc power_int_diff)
      moreover have "\<not> d_isinf d" using v(2) by (cases d) auto
      ultimately show ?thesis using v(1) by (simp add: Let_def)
    qed
    ultimately show ?thesis
      by (simp add: asdf_yaml_scalar_is_float_def parse_float_digits_def)
  qed
  ultimately show ?thesis by simp
qed

lemma format_finite:
  assumes dp: "good_point dp" and d: "is_double d" "is_finite d"
  shows "asdf_yaml_scalar_is_float dp [True] (Some (asdf_yaml_format_float dp d False)) False y = ((ASDF_VALUE_OK, d), [])"
proof -
  define prec where "prec = round_trip_prec dp False d"
  define p where "p = prec - 1"
  note r = round_trip_prec_correct [OF dp d, folded prec_def]
  have p: "p \<le> 16" "int prec - 1 = int p" using r(1,2) by (auto simp: p_def)
  obtain n e where ne: "sci_digits p \<bar>d_rat d\<bar> = (n, e)" by force
  have pe: "printed_exponent (printf_e dp p d) = e" by (rule printed_exponent_e [OF dp ne])
  have v: "double_of (d_isneg d) (sci_value p d) = d" using r(3) by (simp add: p_def)
  have fmt: "asdf_yaml_format_float dp d False = insert_point (delocalize dp
      (if REPR_MIN_FIXED_EXPONENT \<le> e \<and> e \<le> REPR_MAX_FIXED_EXPONENT then printf_f dp (nat (int p - e)) d else printf_e dp p d))"
  proof -
    have "asdf_yaml_format_float dp d False = insert_point (delocalize dp
        (if REPR_MIN_FIXED_EXPONENT \<le> printed_exponent (printf_e dp (prec - 1) d) \<and> printed_exponent (printf_e dp (prec - 1) d) \<le> REPR_MAX_FIXED_EXPONENT
         then printf_f dp (nat (int prec - 1 - printed_exponent (printf_e dp (prec - 1) d))) d else printf_e dp (prec - 1) d))"
      unfolding prec_def using d(2) by (cases d) (simp_all add: asdf_yaml_format_float_def Let_def)
    then show ?thesis unfolding p_def [symmetric] pe p(2) .
  qed
  show ?thesis
  proof (cases "REPR_MIN_FIXED_EXPONENT \<le> e \<and> e \<le> REPR_MAX_FIXED_EXPONENT")
    case True
    define k where "k = nat (int p - e)"
    obtain i f where t: "printf_f dp k d = print_sign d @ i @ (if k \<noteq> 0 then dp @ f else [])" "list_all is_digit i" "i \<noteq> []"
      "list_all is_digit f" "length f = k" "digits_val (i @ f) = nat (round_even (\<bar>d_rat d\<bar> * 10 ^ k))"
      by (rule printf_f_shape)
    have "of_nat (digits_val (i @ f)) = sci_value p d * 10 ^ k"
      using fixed_digits [OF d ne _ p(1) v] True t(6) by (simp add: k_def REPR_MAX_FIXED_EXPONENT_def)
    then have "of_nat (digits_val (i @ f)) * 10 powi (0 - int (length f)) = sci_value p d" by (simp add: t(5) power_int_minus)
    then have "double_of (d_isneg d) (of_nat (digits_val (i @ f)) * 10 powi (0 - int (length f))) = d" using v by simp
    from finished_text [OF dp t(2-5) _ this d(2), of "[]" y] True t(1) show ?thesis
      by (simp add: fmt exponent_of_def flip: k_def)
  next
    case False
    obtain c cs where t: "printf_e dp p d = print_sign d @ [c] @ (if p \<noteq> 0 then dp @ cs else []) @ print_exp e"
      "is_digit c" "list_all is_digit cs" "length cs = p" "digits_val (c # cs) = n"
      using printf_e_shape [OF ne] by blast
    have "of_nat (digits_val ([c] @ cs)) * 10 powi (e - int (length cs)) = sci_value p d"
      using t(4,5) by (simp add: sci_value_def ne)
    then have "double_of (d_isneg d) (of_nat (digits_val ([c] @ cs)) * 10 powi (e - int (length cs))) = d" using v by simp
    moreover have "exponent_of (print_exp e) e" by (simp add: exponent_of_def)
    ultimately show ?thesis
      using finished_text [OF dp _ _ t(3,4), of "[c]" "print_exp e" e d y] t(2) d(2) unfolding fmt t(1) [symmetric] if_not_P [OF False] by simp
  qed
qed

section \<open>Round trip\<close>

text \<open>C32. Writing a double and reading the text back gives the double, in any locale: zeros keep their sign, infinities
  and NaN are kept. The text is a float by the resolver's own grammar, integers not being allowed as floats.\<close>

theorem float_text_roundtrip:
  assumes "good_point dp" and "is_double d"
  shows "fst (asdf_yaml_scalar_is_float dp [True] (Some (asdf_yaml_format_float dp d False)) False y) = (ASDF_VALUE_OK, d)"
proof (cases "is_finite d")
  case True
  then show ?thesis using format_finite [OF assms] by simp
next
  case False
  then have "d = NaN \<or> d = Inf False \<or> d = Inf True" by (cases d) auto
  moreover have "fst (asdf_yaml_scalar_is_float dp [True] (Some (bytes_of ''.nan'')) False y) = (ASDF_VALUE_OK, NaN)"
    "fst (asdf_yaml_scalar_is_float dp [True] (Some (bytes_of ''.inf'')) False y) = (ASDF_VALUE_OK, Inf False)"
    "fst (asdf_yaml_scalar_is_float dp [True] (Some (bytes_of ''-.inf'')) False y) = (ASDF_VALUE_OK, Inf True)"
    by (simp_all add: asdf_yaml_scalar_is_float_def is_decimal_float_def Let_def skip_sign_def span_decimal_int_def is_digit_def
        bytes_of_def span_exponent_def is_yaml_special_float_def)
  ultimately show ?thesis by (auto simp: asdf_yaml_format_float_def)
qed

text \<open>The text of a double has the fewest significant digits that read back: a shorter one would be another double.\<close>

theorem shortest_digits:
  assumes "good_point dp" and "is_double d" and "is_finite d" and "0 < k" and "k < round_trip_prec dp False d"
  shows "\<not> d_eq (fst (strtod dp (printf_e dp (k - 1) d))) d"
  using round_trip_prec_correct(4) [OF assms(1-3) assms(4,5)] by (simp add: printf_e_value [OF assms(1)])

theorem float_text_roundtrip_witness:
  "fst (asdf_yaml_scalar_is_float [44] [True] (Some (asdf_yaml_format_float [44] (Fin 3) False)) False NaN) = (ASDF_VALUE_OK, Fin 3)"
proof (rule float_text_roundtrip)
  show "good_point [44]" by (simp add: good_point_def is_digit_def)
  show "is_double (Fin 3)" using double_of_small [of 3 False] by (simp add: is_double_def)
qed

end
