(* ===== verification/Asdf_Calendar.thy ===== *)
theory Asdf_Calendar
  imports Asdf_Yaml_Path Asdf_Rounding "HOL-Library.Signed_Division"
begin

text \<open>
  What \<^verbatim>\<open>src/core/time.c\<close> uses of the C library: \<^verbatim>\<open>struct tm\<close>, \<^verbatim>\<open>timegm\<close> and \<^verbatim>\<open>gmtime\<close> on the proleptic Gregorian
  calendar, \<^verbatim>\<open>strptime\<close> with the conversions of its formats (as in glibc), \<^verbatim>\<open>sscanf\<close> of integers, \<^verbatim>\<open>strtod\<close> on any
  text, and the arithmetic of doubles that \<^theory_text>\<open>Asdf_Double\<close> does not have.
\<close>

section \<open>Broken-down time\<close>

record tm =
  tm_sec :: int
  tm_min :: int
  tm_hour :: int
  tm_mday :: int
  tm_mon :: int
  tm_year :: int

definition zero_tm :: tm where
  "zero_tm = \<lparr>tm_sec = 0, tm_min = 0, tm_hour = 0, tm_mday = 0, tm_mon = 0, tm_year = 0\<rparr>"

definition leap :: "int \<Rightarrow> bool" where
  "leap y \<longleftrightarrow> y mod 4 = 0 \<and> (y mod 100 \<noteq> 0 \<or> y mod 400 = 0)"

definition month_lengths :: "int \<Rightarrow> int list" where
  "month_lengths y = [31, if leap y then 29 else 28, 31, 30, 31, 30, 31, 31, 30, 31, 30, 31]"

text \<open>Days from the first of January of year one to that of year \<open>y\<close>.\<close>

definition days_before_year :: "int \<Rightarrow> int" where
  "days_before_year y = 365 * (y - 1) + (y - 1) div 4 - (y - 1) div 100 + (y - 1) div 400"

definition days_before_month :: "int \<Rightarrow> int \<Rightarrow> int" where
  "days_before_month y m = sum_list (take (nat m) (month_lengths y))"

definition EPOCH_DAYS :: int where "EPOCH_DAYS = 719162"

text \<open>Days from the epoch to day \<open>d\<close> of month \<open>m\<close>, counted from zero, which may be out of its range.\<close>

definition day_number :: "int \<Rightarrow> int \<Rightarrow> int \<Rightarrow> int" where
  "day_number y m d =
     days_before_year (y + m div 12) + days_before_month (y + m div 12) (m mod 12) + (d - 1) - EPOCH_DAYS"

definition tm_seconds :: "tm \<Rightarrow> int" where
  "tm_seconds t = ((day_number (tm_year t + 1900) (tm_mon t) (tm_mday t) * 24 + tm_hour t) * 60 + tm_min t) * 60 + tm_sec t"

definition year_of_days :: "int \<Rightarrow> int" where
  "year_of_days n = (let y = 400 * n div 146097 + 1 in if days_before_year (y + 1) \<le> n then y + 1 else y)"

fun split_month :: "int list \<Rightarrow> int \<Rightarrow> int \<times> int" where
  "split_month [] d = (0, d)"
| "split_month (l # ls) d = (if d < l then (0, d) else let (m, r) = split_month ls (d - l) in (m + 1, r))"

definition civil :: "int \<Rightarrow> int \<times> int \<times> int" where
  "civil n = (let y = year_of_days n; (m, d) = split_month (month_lengths y) (n - days_before_year y) in (y, m, d + 1))"

definition int32 :: "int \<Rightarrow> int option" where
  "int32 i = (if - (2 ^ 31) \<le> i \<and> i < 2 ^ 31 then Some i else None)"

text \<open>\<^verbatim>\<open>gmtime\<close> returns null when the year does not fit.\<close>

definition gmtime :: "int \<Rightarrow> tm option" where
  "gmtime t =
     (let (y, m, d) = civil (t div 86400 + EPOCH_DAYS); s = t mod 86400 in
      map_option (\<lambda>year. \<lparr>tm_sec = s mod 60, tm_min = s div 60 mod 60, tm_hour = s div 3600, tm_mday = d, tm_mon = m, tm_year = year\<rparr>)
        (int32 (y - 1900)))"

text \<open>\<^verbatim>\<open>timegm\<close> returns the time and the normalised fields, or minus one.\<close>

definition timegm :: "tm \<Rightarrow> int \<times> tm" where
  "timegm t = (case gmtime (tm_seconds t) of None \<Rightarrow> (- 1, t) | Some n \<Rightarrow> (tm_seconds t, n))"

section \<open>Reading text\<close>

text \<open>A number of a conversion of \<^verbatim>\<open>strptime\<close>: at most \<open>n\<close> digits, and not more than can be at most \<open>hi\<close>.\<close>

fun get_digits :: "nat \<Rightarrow> nat \<Rightarrow> nat \<Rightarrow> bytes \<Rightarrow> nat \<times> bytes" where
  "get_digits hi 0 v s = (v, s)"
| "get_digits hi (Suc n) v s =
     (case s of c # cs \<Rightarrow> if is_digit c \<and> v * 10 \<le> hi then get_digits hi n (v * 10 + (unat c - 48)) cs else (v, s) | [] \<Rightarrow> (v, []))"

definition get_number :: "nat \<Rightarrow> nat \<Rightarrow> nat \<Rightarrow> bytes \<Rightarrow> (nat \<times> bytes) option" where
  "get_number lo hi n s =
     (let s = skip_whitespace s in
      if s = [] \<or> \<not> is_digit (hd s) then None
      else let (v, r) = get_digits hi (n - 1) (unat (hd s) - 48) (tl s) in if lo \<le> v \<and> v \<le> hi then Some (v, r) else None)"

text \<open>The fields read so far and the day of the year, which fixes month and day when they were not read. The
  argument \<open>lt\<close> is \<^verbatim>\<open>localtime\<close>.\<close>

definition strptime_conv :: "(int \<Rightarrow> tm option) \<Rightarrow> char \<Rightarrow> tm \<times> int option \<Rightarrow> bytes \<Rightarrow> ((tm \<times> int option) \<times> bytes) option" where
  "strptime_conv lt c = (\<lambda>(t, yday) s.
     if c = CHR ''Y'' then map_option (\<lambda>(v, r). ((t\<lparr>tm_year := int v - 1900\<rparr>, yday), r)) (get_number 0 9999 4 s)
     else if c = CHR ''m'' then map_option (\<lambda>(v, r). ((t\<lparr>tm_mon := int v - 1\<rparr>, yday), r)) (get_number 1 12 2 s)
     else if c = CHR ''d'' then map_option (\<lambda>(v, r). ((t\<lparr>tm_mday := int v\<rparr>, yday), r)) (get_number 1 31 2 s)
     else if c = CHR ''H'' then map_option (\<lambda>(v, r). ((t\<lparr>tm_hour := int v\<rparr>, yday), r)) (get_number 0 23 2 s)
     else if c = CHR ''M'' then map_option (\<lambda>(v, r). ((t\<lparr>tm_min := int v\<rparr>, yday), r)) (get_number 0 59 2 s)
     else if c = CHR ''S'' then map_option (\<lambda>(v, r). ((t\<lparr>tm_sec := int v\<rparr>, yday), r)) (get_number 0 61 2 s)
     else if c = CHR ''j'' then map_option (\<lambda>(v, r). ((t, Some (int v - 1)), r)) (get_number 1 366 3 s)
     else if c = CHR ''s'' \<and> s \<noteq> [] \<and> is_digit (hd s)
       then map_option (\<lambda>t. ((t, yday), dropWhile is_digit s)) (lt (int (digits_val (takeWhile is_digit s))))
     else None)"

fun strptime_loop :: "(int \<Rightarrow> tm option) \<Rightarrow> string \<Rightarrow> tm \<times> int option \<Rightarrow> bytes \<Rightarrow> ((tm \<times> int option) \<times> bytes) option" where
  "strptime_loop lt [] st s = Some (st, s)"
| "strptime_loop lt [f] st s =
     (if s \<noteq> [] \<and> hd s = of_char f then Some (st, tl s) else None)"
| "strptime_loop lt (f # g # fs) st s =
     (if f = CHR ''%'' then
        (case strptime_conv lt g st s of None \<Rightarrow> None | Some (st, s) \<Rightarrow> strptime_loop lt fs st s)
      else if f = CHR '' '' then strptime_loop lt (g # fs) st (skip_whitespace s)
      else if s \<noteq> [] \<and> hd s = of_char f then strptime_loop lt (g # fs) st (tl s)
      else None)"

definition set_yday :: "tm \<times> int option \<Rightarrow> tm" where
  "set_yday = (\<lambda>(t, yday). case yday of
       None \<Rightarrow> t
     | Some n \<Rightarrow> let (m, d) = split_month (month_lengths (tm_year t + 1900)) n in t\<lparr>tm_mon := m, tm_mday := d + 1\<rparr>)"

text \<open>The rest of the text and the fields, or null and fields that were perhaps set.\<close>

definition strptime :: "(int \<Rightarrow> tm option) \<Rightarrow> bytes \<Rightarrow> string \<Rightarrow> tm \<Rightarrow> (bytes \<times> tm) option" where
  "strptime lt s fmt t = map_option (\<lambda>(st, r). (r, set_yday st)) (strptime_loop lt fmt (t, None) s)"

text \<open>The conversion \<^verbatim>\<open>%d\<close> of \<^verbatim>\<open>sscanf\<close>, with a width that counts the sign.\<close>

definition scan_d :: "nat option \<Rightarrow> bytes \<Rightarrow> (int \<times> bytes) option" where
  "scan_d width s =
     (let s = skip_whitespace s;
          field = (case width of None \<Rightarrow> s | Some w \<Rightarrow> take w s);
          ds = takeWhile is_digit (skip_sign field);
          n = length field - length (skip_sign field) + length ds;
          v = int (digits_val ds)
      in if ds = [] then None else Some (if hd field = 45 then - v else v, drop n s))"

text \<open>\<^verbatim>\<open>strtod\<close>: white space, then a decimal or hexadecimal number, an infinity or a NaN, in any case.\<close>

definition lower :: "byte \<Rightarrow> byte" where
  "lower c = (if 65 \<le> c \<and> c \<le> 90 then c + 32 else c)"

definition hex_digit :: "byte \<Rightarrow> bool" where
  "hex_digit c \<longleftrightarrow> is_digit c \<or> 97 \<le> lower c \<and> lower c \<le> 102"

definition strtod_hex :: "bytes \<Rightarrow> bool \<Rightarrow> bytes \<Rightarrow> double option" where
  "strtod_hex dp neg s =
     (let ints = takeWhile hex_digit s; s = dropWhile hex_digit s;
          has_point = (take (length dp) s = dp);
          fracs = (if has_point then takeWhile hex_digit (drop (length dp) s) else []);
          s = (if has_point then dropWhile hex_digit (drop (length dp) s) else s);
          e = (if s \<noteq> [] \<and> lower (hd s) = 112 then strtod_exp (101 # tl s) else 0)
      in if ints = [] \<and> fracs = [] then None
         else Some (double_of neg (of_nat (radix_val 16 (ints @ fracs)) * 2 powi (e - 4 * int (length fracs)))))"

definition c_strtod :: "bytes \<Rightarrow> bytes \<Rightarrow> double" where
  "c_strtod dp s =
     (let s = skip_whitespace s; neg = (s \<noteq> [] \<and> hd s = 45); t = map lower (skip_sign s) in
      if take 3 t = bytes_of ''inf'' then Inf neg
      else if take 3 t = bytes_of ''nan'' then NaN
      else if take 2 t = bytes_of ''0x''
        then (case strtod_hex dp neg (drop 2 (skip_sign s)) of Some d \<Rightarrow> d | None \<Rightarrow> zero_of neg)
      else fst (strtod dp s))"

section \<open>Arithmetic of doubles\<close>

definition d_sub :: "double \<Rightarrow> double \<Rightarrow> double" where
  "d_sub x y = d_add x (d_neg y)"

fun d_div :: "double \<Rightarrow> double \<Rightarrow> double" where
  "d_div NaN _ = NaN"
| "d_div _ NaN = NaN"
| "d_div (Inf a) y = (if d_isinf y then NaN else Inf (a \<noteq> d_isneg y))"
| "d_div x (Inf b) = zero_of (d_isneg x \<noteq> b)"
| "d_div x y =
     (if d_rat y = 0 then (if d_rat x = 0 then NaN else Inf (d_isneg x \<noteq> d_isneg y))
      else double_of (d_isneg x \<noteq> d_isneg y) \<bar>d_rat x / d_rat y\<bar>)"

fun d_less :: "double \<Rightarrow> double \<Rightarrow> bool" where
  "d_less NaN _ = False"
| "d_less _ NaN = False"
| "d_less (Inf a) y = (a \<and> y \<noteq> Inf True)"
| "d_less _ (Inf b) = (\<not> b)"
| "d_less x y = (d_rat x < d_rat y)"

text \<open>The conversion to a signed integer truncates; out of its range it is undefined.\<close>

definition rat_trunc :: "rat \<Rightarrow> int" where
  "rat_trunc q = (if q < 0 then \<lceil>q\<rceil> else \<lfloor>q\<rfloor>)"

definition d_to_int :: "nat \<Rightarrow> double \<Rightarrow> int option" where
  "d_to_int bits d =
     (case d of
        NaN \<Rightarrow> None
      | Inf _ \<Rightarrow> None
      | _ \<Rightarrow> let i = rat_trunc (d_rat d) in if - (2 ^ (bits - 1)) \<le> i \<and> i < 2 ^ (bits - 1) then Some i else None)"

definition d_int :: "int \<Rightarrow> double" where
  "d_int i = double_of_rat (of_int i)"

end
