(* ===== verification/Asdf_Time.thy ===== *)
theory Asdf_Time
  imports Asdf_Calendar
begin

text \<open>
  Times: the formats and scales of \<^verbatim>\<open>include/asdf/core/time.h\<close> and the parsers of \<^verbatim>\<open>src/core/time.c\<close>, which compute
  a calendar time from the text of a value. An operation is \<^term>\<open>None\<close> where the code is undefined: a double
  outside the range of the integer it is converted to, a null \<^verbatim>\<open>struct tm\<close>, a null value.
\<close>

section \<open>Formats and scales\<close>

datatype asdf_time_format =
    ASDF_TIME_FORMAT_ISO | ASDF_TIME_FORMAT_YDAY | ASDF_TIME_FORMAT_BYEAR | ASDF_TIME_FORMAT_JYEAR
  | ASDF_TIME_FORMAT_DECIMALYEAR | ASDF_TIME_FORMAT_JD | ASDF_TIME_FORMAT_MJD | ASDF_TIME_FORMAT_GPS
  | ASDF_TIME_FORMAT_UNIX | ASDF_TIME_FORMAT_UTIME | ASDF_TIME_FORMAT_TAI_SECONDS | ASDF_TIME_FORMAT_CXCSEC
  | ASDF_TIME_FORMAT_GALEXSEC | ASDF_TIME_FORMAT_UNIX_TAI | ASDF_TIME_FORMAT_RESERVED1
  | ASDF_TIME_FORMAT_BYEAR_STR | ASDF_TIME_FORMAT_DATETIME | ASDF_TIME_FORMAT_FITS | ASDF_TIME_FORMAT_ISOT
  | ASDF_TIME_FORMAT_JYEAR_STR | ASDF_TIME_FORMAT_PLOT_DATE | ASDF_TIME_FORMAT_YMDHMS | ASDF_TIME_FORMAT_DATETIME64

datatype asdf_time_scale =
    ASDF_TIME_SCALE_UTC | ASDF_TIME_SCALE_TAI | ASDF_TIME_SCALE_TCB | ASDF_TIME_SCALE_TCG
  | ASDF_TIME_SCALE_TDB | ASDF_TIME_SCALE_TT | ASDF_TIME_SCALE_UT1

text \<open>The tables of names, in the order of the enumerations.\<close>

definition asdf_time_format_names :: "(asdf_time_format \<times> string option) list" where
  "asdf_time_format_names =
     [(ASDF_TIME_FORMAT_ISO, Some ''iso''), (ASDF_TIME_FORMAT_YDAY, Some ''yday''),
      (ASDF_TIME_FORMAT_BYEAR, Some ''byear''), (ASDF_TIME_FORMAT_JYEAR, Some ''jyear''),
      (ASDF_TIME_FORMAT_DECIMALYEAR, Some ''decimalyear''), (ASDF_TIME_FORMAT_JD, Some ''jd''),
      (ASDF_TIME_FORMAT_MJD, Some ''mjd''), (ASDF_TIME_FORMAT_GPS, Some ''gps''),
      (ASDF_TIME_FORMAT_UNIX, Some ''unix''), (ASDF_TIME_FORMAT_UTIME, Some ''utime''),
      (ASDF_TIME_FORMAT_TAI_SECONDS, Some ''tai_seconds''), (ASDF_TIME_FORMAT_CXCSEC, Some ''cxcsec''),
      (ASDF_TIME_FORMAT_GALEXSEC, Some ''galexsec''), (ASDF_TIME_FORMAT_UNIX_TAI, Some ''unix_tai''),
      (ASDF_TIME_FORMAT_RESERVED1, None), (ASDF_TIME_FORMAT_BYEAR_STR, Some ''byear_str''),
      (ASDF_TIME_FORMAT_DATETIME, Some ''datetime''), (ASDF_TIME_FORMAT_FITS, Some ''fits''),
      (ASDF_TIME_FORMAT_ISOT, Some ''isot''), (ASDF_TIME_FORMAT_JYEAR_STR, Some ''jyear_str''),
      (ASDF_TIME_FORMAT_PLOT_DATE, Some ''plot_date''), (ASDF_TIME_FORMAT_YMDHMS, Some ''ymdhms''),
      (ASDF_TIME_FORMAT_DATETIME64, Some ''datetime64'')]"

definition asdf_time_scale_names :: "(asdf_time_scale \<times> string) list" where
  "asdf_time_scale_names =
     [(ASDF_TIME_SCALE_UTC, ''utc''), (ASDF_TIME_SCALE_TAI, ''tai''), (ASDF_TIME_SCALE_TCB, ''tcb''),
      (ASDF_TIME_SCALE_TCG, ''tcg''), (ASDF_TIME_SCALE_TDB, ''tdb''), (ASDF_TIME_SCALE_TT, ''tt''),
      (ASDF_TIME_SCALE_UT1, ''ut1'')]"

text \<open>The argument is the number behind the enumeration, which a caller may have made up.\<close>

definition asdf_time_format_string :: "int \<Rightarrow> string option" where
  "asdf_time_format_string format =
     (if format < 0 \<or> format \<ge> int (length asdf_time_format_names) then None
      else snd (asdf_time_format_names ! nat format))"

definition format_name :: "asdf_time_format \<Rightarrow> string option" where
  "format_name format = the (map_of asdf_time_format_names format)"

definition scale_name :: "asdf_time_scale \<Rightarrow> string" where
  "scale_name scale = the (map_of asdf_time_scale_names scale)"

fun asdf_time_standard_format :: "asdf_time_format \<Rightarrow> asdf_time_format" where
  "asdf_time_standard_format ASDF_TIME_FORMAT_ISOT = ASDF_TIME_FORMAT_ISO"
| "asdf_time_standard_format ASDF_TIME_FORMAT_FITS = ASDF_TIME_FORMAT_ISO"
| "asdf_time_standard_format ASDF_TIME_FORMAT_DATETIME = ASDF_TIME_FORMAT_ISO"
| "asdf_time_standard_format ASDF_TIME_FORMAT_PLOT_DATE = ASDF_TIME_FORMAT_ISO"
| "asdf_time_standard_format ASDF_TIME_FORMAT_YMDHMS = ASDF_TIME_FORMAT_ISO"
| "asdf_time_standard_format ASDF_TIME_FORMAT_DATETIME64 = ASDF_TIME_FORMAT_ISO"
| "asdf_time_standard_format ASDF_TIME_FORMAT_JYEAR_STR = ASDF_TIME_FORMAT_JYEAR"
| "asdf_time_standard_format ASDF_TIME_FORMAT_BYEAR_STR = ASDF_TIME_FORMAT_BYEAR"
| "asdf_time_standard_format format = format"

definition asdf_time_is_other_format :: "asdf_time_format \<Rightarrow> bool" where
  "asdf_time_is_other_format format \<longleftrightarrow> asdf_time_standard_format format \<noteq> format"

definition asdf_time_value_needs_reformat :: "asdf_time_format \<Rightarrow> bool" where
  "asdf_time_value_needs_reformat format \<longleftrightarrow> format = ASDF_TIME_FORMAT_PLOT_DATE"

definition asdf_time_format_parse :: "bytes \<Rightarrow> asdf_time_format option" where
  "asdf_time_format_parse name =
     map_option fst (find (\<lambda>(_, n). map_option bytes_of n = Some name) asdf_time_format_names)"

definition asdf_time_scale_parse :: "bytes \<Rightarrow> asdf_time_scale option" where
  "asdf_time_scale_parse name = map_option fst (find (\<lambda>(_, n). bytes_of n = name) asdf_time_scale_names)"

section \<open>The pattern of a format\<close>

text \<open>The patterns have a group for each field: \<open>ISO\<close> the year, month, day, the time with its separator, hour, minute,
  second and fraction; \<open>YDAY\<close> the year, day of the year, hour, minute, second and fraction; \<open>BYEAR\<close> and \<open>JYEAR\<close> a letter and
  two groups for the number; \<open>FITS\<close> is \<open>ISO\<close> with a year that may also be a sign and five digits. STC compiles and
  matches them: a pattern is null when it did not compile, otherwise it captures the groups of a text it matches,
  the whole text first.\<close>
datatype time_auto = TIME_AUTO_IDX_ISO | TIME_AUTO_IDX_BYEAR | TIME_AUTO_IDX_JYEAR | TIME_AUTO_IDX_YDAY | TIME_AUTO_IDX_FITS

type_synonym captures = "bytes option list"
type_synonym regexes = "time_auto \<Rightarrow> (bytes \<Rightarrow> captures option) option"

definition time_auto_all :: "time_auto list" where
  "time_auto_all = [TIME_AUTO_IDX_ISO, TIME_AUTO_IDX_BYEAR, TIME_AUTO_IDX_JYEAR, TIME_AUTO_IDX_YDAY, TIME_AUTO_IDX_FITS]"

fun time_auto_type :: "time_auto \<Rightarrow> asdf_time_format" where
  "time_auto_type TIME_AUTO_IDX_ISO = ASDF_TIME_FORMAT_ISO"
| "time_auto_type TIME_AUTO_IDX_BYEAR = ASDF_TIME_FORMAT_BYEAR"
| "time_auto_type TIME_AUTO_IDX_JYEAR = ASDF_TIME_FORMAT_JYEAR"
| "time_auto_type TIME_AUTO_IDX_YDAY = ASDF_TIME_FORMAT_YDAY"
| "time_auto_type TIME_AUTO_IDX_FITS = ASDF_TIME_FORMAT_FITS"

definition auto_match :: "regexes \<Rightarrow> bytes \<Rightarrow> time_auto \<Rightarrow> captures option" where
  "auto_match rx s idx = Option.bind (rx idx) (\<lambda>match. match s)"

definition asdf_time_value_is_datetime_string :: "regexes \<Rightarrow> bytes \<Rightarrow> bool" where
  "asdf_time_value_is_datetime_string rx s \<longleftrightarrow> list_ex (\<lambda>idx. auto_match rx s idx \<noteq> None) time_auto_all"

definition find_auto_pattern_idx :: "asdf_time_format \<Rightarrow> time_auto option" where
  "find_auto_pattern_idx type = find (\<lambda>idx. time_auto_type idx = type) time_auto_all"

section \<open>Ranges\<close>

text \<open>What is logged.\<close>

datatype time_warning =
    Month_out_of_range int | Day_out_of_range int | Hour_out_of_range | Minute_out_of_range | Second_out_of_range
  | Yday_out_of_range int | No_format_guessed | Unrecognized_format bytes | Requires_prefix | Format_mismatch
  | Unrecognized_scale bytes | Not_supported | Unrecognized_base_format bytes

definition MAX_INT_DIGITS :: nat where "MAX_INT_DIGITS = 16"

text \<open>\<^verbatim>\<open>atoi\<close>; the patterns bound the digits of what is converted.\<close>

definition csview_to_int :: "bytes \<Rightarrow> int" where
  "csview_to_int csv = (case scan_d None (take (MAX_INT_DIGITS - 1) csv) of Some (v, _) \<Rightarrow> v | None \<Rightarrow> 0)"

definition is_leap_year :: "int \<Rightarrow> bool" where
  "is_leap_year year \<longleftrightarrow> year smod 4 = 0 \<and> (year smod 100 \<noteq> 0 \<or> year smod 400 = 0)"

text \<open>A warning about a group that has been captured and whose number is wrong.\<close>

definition range_check :: "captures \<Rightarrow> nat \<Rightarrow> (int \<Rightarrow> bool) \<Rightarrow> (int \<Rightarrow> time_warning) \<Rightarrow> time_warning list" where
  "range_check mat i bad w = (case mat ! i of None \<Rightarrow> [] | Some g \<Rightarrow> if bad (csview_to_int g) then [w (csview_to_int g)] else [])"

definition validate_iso_time_ranges :: "captures \<Rightarrow> time_warning list" where
  "validate_iso_time_ranges mat =
     range_check mat 2 (\<lambda>mon. mon < 1 \<or> mon > 12) Month_out_of_range @
     range_check mat 3 (\<lambda>day. day < 1 \<or> day > 31) Day_out_of_range @
     range_check mat 5 (\<lambda>v. v > 23) (\<lambda>_. Hour_out_of_range) @
     range_check mat 6 (\<lambda>v. v > 59) (\<lambda>_. Minute_out_of_range) @
     range_check mat 7 (\<lambda>v. v > 60) (\<lambda>_. Second_out_of_range)"

definition validate_yday_ranges :: "captures \<Rightarrow> time_warning list" where
  "validate_yday_ranges mat =
     (let year = (case mat ! 1 of None \<Rightarrow> 0 | Some g \<Rightarrow> csview_to_int g) in
      range_check mat 2 (\<lambda>yday. yday < 1 \<or> (if is_leap_year year then yday > 366 else yday > 365)) Yday_out_of_range @
      range_check mat 3 (\<lambda>v. v > 23) (\<lambda>_. Hour_out_of_range) @
      range_check mat 4 (\<lambda>v. v > 59) (\<lambda>_. Minute_out_of_range) @
      range_check mat 5 (\<lambda>v. v > 60) (\<lambda>_. Second_out_of_range))"

definition validate_datetime_ranges :: "time_auto \<Rightarrow> captures \<Rightarrow> time_warning list" where
  "validate_datetime_ranges pat_idx m =
     (case pat_idx of
        TIME_AUTO_IDX_ISO \<Rightarrow> validate_iso_time_ranges m
      | TIME_AUTO_IDX_FITS \<Rightarrow> validate_iso_time_ranges m
      | TIME_AUTO_IDX_YDAY \<Rightarrow> validate_yday_ranges m
      | _ \<Rightarrow> [])"

text \<open>The format and what is logged; the first argument tells whether the value was a YAML string.\<close>

definition validate_or_guess_time_format ::
  "regexes \<Rightarrow> bool \<Rightarrow> bytes \<Rightarrow> bytes option \<Rightarrow> asdf_time_format option \<times> time_warning list" where
  "validate_or_guess_time_format rx is_string time_s format_s =
     (case format_s of
        None \<Rightarrow>
          (case if is_string then find (\<lambda>idx. auto_match rx time_s idx \<noteq> None) time_auto_all else None of
             Some idx \<Rightarrow> (Some (time_auto_type idx), validate_datetime_ranges idx (the (auto_match rx time_s idx)))
           | None \<Rightarrow> (None, [No_format_guessed]))
      | Some name \<Rightarrow>
          (case asdf_time_format_parse name of
             None \<Rightarrow> (None, [Unrecognized_format name])
           | Some format \<Rightarrow>
               let prefix = (if format = ASDF_TIME_FORMAT_JYEAR_STR then 74 else 66 :: byte) in
               if (format = ASDF_TIME_FORMAT_JYEAR_STR \<or> format = ASDF_TIME_FORMAT_BYEAR_STR) \<and>
                  (\<not> is_string \<or> time_s = [] \<or> hd time_s \<noteq> prefix \<and> hd time_s \<noteq> prefix + 32)
               then (None, [Requires_prefix])
               else
                 (case if is_string then find_auto_pattern_idx format else None of
                    None \<Rightarrow> (Some format, [])
                  | Some idx \<Rightarrow>
                      if rx idx = None then (Some format, [])
                      else (case auto_match rx time_s idx of
                          None \<Rightarrow> (Some format, [Format_mismatch])
                        | Some m \<Rightarrow> (Some format, validate_datetime_ranges idx m)))))"

section \<open>Julian dates\<close>

text \<open>Constants are the doubles nearest to what is written in the code.\<close>

definition JD_B1900 :: double where "JD_B1900 = double_of_rat (241502031352 / 100000)"
definition JD_MJD :: double where "JD_MJD = double_of_rat (24000005 / 10)"
definition JD_J2000 :: double where "JD_J2000 = double_of_rat 2451545"
definition JD_UNIX_EPOCH :: double where "JD_UNIX_EPOCH = double_of_rat (24405875 / 10)"
definition JD_PLOT_DATE_EPOCH :: double where "JD_PLOT_DATE_EPOCH = double_of_rat (17214245 / 10)"
definition JD_GPS_EPOCH :: double where
  "JD_GPS_EPOCH = d_add (double_of_rat (24442445 / 10)) (d_div (double_of_rat 19) (double_of_rat 86400))"
definition JD_GALEXSEC_EPOCH :: double where "JD_GALEXSEC_EPOCH = double_of_rat (24442445 / 10)"
definition JD_CXCSEC_EPOCH :: double where "JD_CXCSEC_EPOCH = double_of_rat (24508145 / 10)"
definition JD_TAI_SECONDS_EPOCH :: double where "JD_TAI_SECONDS_EPOCH = double_of_rat (24362045 / 10)"
definition JD_UTIME_EPOCH :: double where "JD_UTIME_EPOCH = double_of_rat (24438745 / 10)"
definition JD_GREGORIAN_START :: double where "JD_GREGORIAN_START = double_of_rat 2299161"
definition JD_CORRECTION_REF :: double where "JD_CORRECTION_REF = double_of_rat (186721625 / 100)"
definition JD_CALENDAR_OFFSET :: double where "JD_CALENDAR_OFFSET = double_of_rat (1221 / 10)"
definition JD_BASE_YEAR :: int where "JD_BASE_YEAR = 4716"
definition JD_YEAR_LENGTH :: double where "JD_YEAR_LENGTH = double_of_rat (36525 / 100)"
definition GREGORIAN_OFFSET :: double where "GREGORIAN_OFFSET = double_of_rat 1524"
definition AVG_MONTH_LENGTH :: double where "AVG_MONTH_LENGTH = double_of_rat (306001 / 10000)"
definition AVG_YEAR_LENGTH :: double where "AVG_YEAR_LENGTH = double_of_rat (365242198781 / 10 ^ 9)"
definition DAYS_IN_CENTURY :: double where "DAYS_IN_CENTURY = double_of_rat (365242198781 / 10 ^ 7)"
definition SECONDS_PER_DAY :: int where "SECONDS_PER_DAY = 86400"
definition SECONDS_PER_HOUR :: int where "SECONDS_PER_HOUR = 3600"
definition SECONDS_PER_MINUTE :: int where "SECONDS_PER_MINUTE = 60"

text \<open>The day count in the Julian calendar, then year, month and day of it.\<close>

definition jd_adjusted :: "int \<Rightarrow> int option" where
  "jd_adjusted jd_int =
     (if d_less (d_int jd_int) JD_GREGORIAN_START then Some jd_int
      else do {
        leap_adjust \<leftarrow> d_to_int 32 (d_div (d_sub (d_int jd_int) JD_CORRECTION_REF) DAYS_IN_CENTURY);
        int32 (jd_int + 1 + leap_adjust - leap_adjust sdiv 4)
      })"

definition julian_date :: "int \<Rightarrow> double \<Rightarrow> (int \<times> int \<times> int) option" where
  "julian_date jd_adjust day_fraction = do {
     calendar_day \<leftarrow> d_to_int 32 (d_add (d_int jd_adjust) GREGORIAN_OFFSET);
     year_base \<leftarrow> d_to_int 32 (d_div (d_sub (d_int calendar_day) JD_CALENDAR_OFFSET) JD_YEAR_LENGTH);
     days_in_years \<leftarrow> d_to_int 32 (d_mul JD_YEAR_LENGTH (d_int year_base));
     days_left \<leftarrow> int32 (calendar_day - days_in_years);
     month_base \<leftarrow> d_to_int 32 (d_div (d_int days_left) AVG_MONTH_LENGTH);
     month_days \<leftarrow> d_to_int 32 (d_mul AVG_MONTH_LENGTH (d_int month_base));
     day_left \<leftarrow> int32 (days_left - month_days);
     day \<leftarrow> d_to_int 32 (d_add (d_int day_left) day_fraction);
     let month = (if month_base < 14 then month_base - 1 else month_base - 13);
     let year = (if month > 2 then year_base - JD_BASE_YEAR else year_base - JD_BASE_YEAR - 1);
     Some (year, month, day)
   }"

definition julian_time :: "double \<Rightarrow> (int \<times> int \<times> int \<times> int) option" where
  "julian_time day_fraction = do {
     let total_seconds = d_add (d_mul day_fraction (d_int SECONDS_PER_DAY)) (double_of_rat (1 / 2));
     hour \<leftarrow> d_to_int 32 (d_div total_seconds (d_int SECONDS_PER_HOUR));
     let rest = d_sub total_seconds (d_int (hour * SECONDS_PER_HOUR));
     minute \<leftarrow> d_to_int 32 (d_div rest (d_int SECONDS_PER_MINUTE));
     let seconds_whole = d_sub rest (d_int (minute * SECONDS_PER_MINUTE));
     second \<leftarrow> d_to_int 32 seconds_whole;
     let fractional_seconds = d_sub seconds_whole (d_int second);
     nanoseconds \<leftarrow> d_to_int 64 (d_mul fractional_seconds (double_of_rat (10 ^ 9)));
     nanoseconds \<leftarrow> d_to_int 64 (d_add (d_int nanoseconds) (double_of_rat (1 / 2)));
     Some (hour, minute, second, nanoseconds)
   }"

definition julian_to_tm :: "double \<Rightarrow> (tm \<times> int) option" where
  "julian_to_tm jd = do {
     let jd_shift = d_add jd (double_of_rat (1 / 2));
     jd_int \<leftarrow> d_to_int 32 jd_shift;
     let day_fraction = d_sub jd_shift (d_int jd_int);
     jd_adjust \<leftarrow> jd_adjusted jd_int;
     (year, month, day) \<leftarrow> julian_date jd_adjust day_fraction;
     (hour, minute, second, nanoseconds) \<leftarrow> julian_time day_fraction;
     Some (\<lparr>tm_sec = second, tm_min = minute, tm_hour = hour, tm_mday = day, tm_mon = month - 1, tm_year = year - 1900\<rparr>, nanoseconds)
   }"

definition mjd_to_tm :: "double \<Rightarrow> (tm \<times> int) option" where
  "mjd_to_tm mjd = julian_to_tm (d_add mjd JD_MJD)"

definition besselian_to_julian :: "double \<Rightarrow> double" where
  "besselian_to_julian b = d_add JD_B1900 (d_mul AVG_YEAR_LENGTH (d_sub b (double_of_rat 1900)))"

definition julian_epoch_to_jd :: "double \<Rightarrow> double" where
  "julian_epoch_to_jd j = d_add JD_J2000 (d_mul JD_YEAR_LENGTH (d_sub j (double_of_rat 2000)))"

section \<open>Times\<close>

record asdf_time_info =
  ts_sec :: int
  ts_nsec :: int
  info_tm :: tm

record asdf_time =
  tim_value :: "bytes option"
  tim_info :: asdf_time_info
  tim_format :: asdf_time_format
  tim_scale :: asdf_time_scale
  tim_location :: "double \<times> double \<times> double"

text \<open>The system: the decimal point of the locale, the time zone, and the compiled patterns.\<close>

record time_env =
  te_point :: bytes
  te_localtime :: "int \<Rightarrow> tm option"
  te_regexes :: regexes

text \<open>A parser returns zero and the time with its info, or minus one; the allocator is only asked for a copy of the text.\<close>

type_synonym parsed = "(bool \<times> asdf_time \<times> heap) option"

definition set_info :: "asdf_time \<Rightarrow> int \<Rightarrow> int \<Rightarrow> tm \<Rightarrow> asdf_time" where
  "set_info time sec nsec t = time\<lparr>tim_info := \<lparr>ts_sec = sec, ts_nsec = nsec, info_tm = t\<rparr>\<rparr>"

text \<open>The macro over the formats of \<^verbatim>\<open>strptime\<close>, with its condition as it is written: the index is tested before it
  is counted.\<close>

fun check_format_strptime ::
  "(int \<Rightarrow> tm option) \<Rightarrow> bytes \<Rightarrow> tm \<Rightarrow> nat \<Rightarrow> string list \<Rightarrow> (bytes \<times> tm) option" where
  "check_format_strptime lt buf t idx [] = None"
| "check_format_strptime lt buf t idx (fmt # fmts) =
     (case strptime lt buf fmt t of
        Some r \<Rightarrow> Some r
      | None \<Rightarrow> if idx \<noteq> 0 \<and> fmts \<noteq> [] then check_format_strptime lt buf t (Suc idx) fmts else None)"

definition ASDF_TIME_SFMT_ISO :: "string list" where
  "ASDF_TIME_SFMT_ISO = [''%Y-%m-%d %H:%M:%S'', ''%Y-%m-%d'']"
definition ASDF_TIME_SFMT_YDAY :: "string list" where
  "ASDF_TIME_SFMT_YDAY = [''%Y:%j:%H:%M:%S'', ''%Y:%j'']"
definition ASDF_TIME_SFMT_UNIX :: "string list" where
  "ASDF_TIME_SFMT_UNIX = [''%s'']"

fun std_formats :: "asdf_time_format \<Rightarrow> string list option" where
  "std_formats ASDF_TIME_FORMAT_DATETIME = Some ASDF_TIME_SFMT_ISO"
| "std_formats ASDF_TIME_FORMAT_ISO = Some ASDF_TIME_SFMT_ISO"
| "std_formats ASDF_TIME_FORMAT_ISOT = Some ASDF_TIME_SFMT_ISO"
| "std_formats ASDF_TIME_FORMAT_YMDHMS = Some ASDF_TIME_SFMT_ISO"
| "std_formats ASDF_TIME_FORMAT_DATETIME64 = Some ASDF_TIME_SFMT_ISO"
| "std_formats ASDF_TIME_FORMAT_YDAY = Some ASDF_TIME_SFMT_YDAY"
| "std_formats ASDF_TIME_FORMAT_UNIX = Some ASDF_TIME_SFMT_UNIX"
| "std_formats _ = None"

text \<open>\<^verbatim>\<open>sscanf\<close> with \<^verbatim>\<open>%lf\<close>: an exponent mark without digits is a failure, which leaves zero.\<close>

definition scan_lf :: "bytes \<Rightarrow> bytes \<Rightarrow> double" where
  "scan_lf dp s =
     (let r = dropWhile (\<lambda>c. is_digit c) (drop (length dp) s) in
      if take (length dp) s = dp \<and> r \<noteq> [] \<and> lower (hd r) = 101 \<and> takeWhile is_digit (skip_sign (tl r)) = []
      then Fin 0 else c_strtod dp s)"

definition separator_to_space :: "bytes \<Rightarrow> bytes" where
  "separator_to_space s = map (\<lambda>c. if c = 84 \<or> c = 116 then 32 else c) s"

definition fraction_nsec :: "bytes \<Rightarrow> bytes \<Rightarrow> int option" where
  "fraction_nsec dp rest =
     (case dropWhile (\<lambda>c. c \<noteq> 46) rest of
        [] \<Rightarrow> Some 0
      | dot \<Rightarrow> do {
          let fpart = scan_lf dp dot;
          whole \<leftarrow> d_to_int 32 fpart;
          d_to_int 64 (d_mul (d_sub fpart (d_int whole)) (double_of_rat (10 ^ 9)))
        })"

text \<open>The offset from UTC in seconds: the first sign behind the time, hours, and minutes behind a colon.\<close>

definition tz_offset :: "bytes \<Rightarrow> int" where
  "tz_offset rest =
     (case dropWhile (\<lambda>c. c \<noteq> 43 \<and> c \<noteq> 45) rest of
        [] \<Rightarrow> 0
      | sign # tz \<Rightarrow>
          let (tz_hour, r) = (case scan_d (Some 2) tz of Some (v, r) \<Rightarrow> (v, r) | None \<Rightarrow> (0, []));
              tz_min = (if r \<noteq> [] \<and> hd r = 58 then (case scan_d (Some 2) (tl r) of Some (v, _) \<Rightarrow> v | None \<Rightarrow> 0) else 0)
          in (if sign = 45 then - 1 else 1) * (tz_hour * SECONDS_PER_HOUR + tz_min * SECONDS_PER_MINUTE))"

definition asdf_time_parse_std :: "time_env \<Rightarrow> heap \<Rightarrow> asdf_time \<Rightarrow> parsed" where
  "asdf_time_parse_std env h time = do {
     s \<leftarrow> tim_value time;
     let (ok, h) = alloc h;
     if \<not> ok then Some (False, time, h)
     else (case std_formats (tim_format time) of
        None \<Rightarrow> Some (False, time, h)
      | Some fmts \<Rightarrow>
          (case check_format_strptime (te_localtime env) (separator_to_space s) zero_tm 0 fmts of
             None \<Rightarrow> Some (False, time, h)
           | Some (rest, tm) \<Rightarrow> do {
               nsec \<leftarrow> fraction_nsec (te_point env) rest;
               let t = fst (timegm tm);
               if t = - 1 then Some (False, time, h)
               else do {
                 let t = t - tz_offset rest;
                 utc \<leftarrow> gmtime t;
                 Some (True, set_info time t nsec utc, h)
               }
             }))
   }"

text \<open>The fields of a FITS time, as many as \<^verbatim>\<open>sscanf\<close> assigns.\<close>

fun scan_fields :: "byte list \<Rightarrow> bytes \<Rightarrow> int list" where
  "scan_fields seps s =
     (case scan_d None s of
        None \<Rightarrow> []
      | Some (v, r) \<Rightarrow> v #
          (case seps of
             [] \<Rightarrow> []
           | c # cs \<Rightarrow>
               if c = 32 then scan_fields cs (skip_whitespace r)
               else if r \<noteq> [] \<and> hd r = c then scan_fields cs (tl r) else []))"

declare scan_fields.simps [simp del]

definition fits_separators :: "byte list" where
  "fits_separators = [45, 45, 32, 58, 58]"

definition field_or :: "int list \<Rightarrow> nat \<Rightarrow> int \<Rightarrow> int" where
  "field_or fs i d = (if i < length fs then fs ! i else d)"

text \<open>An integer field outside \<^verbatim>\<open>int\<close> is undefined, and so is a year that underflows.\<close>

definition asdf_time_parse_fits :: "time_env \<Rightarrow> heap \<Rightarrow> asdf_time \<Rightarrow> parsed" where
  "asdf_time_parse_fits env h time = do {
     s \<leftarrow> tim_value time;
     let (ok, h) = alloc h;
     if \<not> ok then Some (False, time, h)
     else do {
       let buf = separator_to_space s;
       let fs = scan_fields fits_separators buf;
       if list_ex (\<lambda>v. int32 v = None) fs then None
       else if length fs < 3 then Some (False, time, h)
       else do {
         nsec \<leftarrow>
           (if length fs \<ge> 6 then
              (case dropWhile (\<lambda>c. c \<noteq> 46) buf of
                 [] \<Rightarrow> Some 0
               | dot \<Rightarrow> d_to_int 64 (d_mul (scan_lf (te_point env) dot) (double_of_rat (10 ^ 9))))
            else Some 0);
         year \<leftarrow> int32 (fs ! 0 - 1900);
         mon \<leftarrow> int32 (fs ! 1 - 1);
         let (t, tm) = timegm \<lparr>tm_sec = field_or fs 5 0, tm_min = field_or fs 4 0, tm_hour = field_or fs 3 0,
                               tm_mday = fs ! 2, tm_mon = mon, tm_year = year\<rparr>;
         if t = - 1 then Some (False, time, h)
         else do {
           utc \<leftarrow> gmtime t;
           Some (True, set_info time t nsec utc, h)
         }
       }
     }
   }"

text \<open>The parsers of Julian dates store the fields that \<^verbatim>\<open>timegm\<close> has normalised.\<close>

definition parse_julian :: "double \<Rightarrow> heap \<Rightarrow> asdf_time \<Rightarrow> parsed" where
  "parse_julian jd h time = do {
     (tm, nsec) \<leftarrow> julian_to_tm jd;
     let (t, tm) = timegm tm;
     Some (True, set_info time t nsec tm, h)
   }"

definition asdf_time_parse_jd :: "time_env \<Rightarrow> heap \<Rightarrow> asdf_time \<Rightarrow> parsed" where
  "asdf_time_parse_jd env h time = do {
     s \<leftarrow> tim_value time;
     parse_julian (c_strtod (te_point env) s) h time
   }"

definition asdf_time_parse_plot_date :: "time_env \<Rightarrow> heap \<Rightarrow> asdf_time \<Rightarrow> parsed" where
  "asdf_time_parse_plot_date env h time = do {
     s \<leftarrow> tim_value time;
     parse_julian (d_add (c_strtod (te_point env) s) JD_PLOT_DATE_EPOCH) h time
   }"

definition asdf_time_parse_epoch_seconds :: "time_env \<Rightarrow> heap \<Rightarrow> asdf_time \<Rightarrow> double \<Rightarrow> parsed" where
  "asdf_time_parse_epoch_seconds env h time epoch_jd = do {
     s \<leftarrow> tim_value time;
     parse_julian (d_add (d_div (c_strtod (te_point env) s) (d_int SECONDS_PER_DAY)) epoch_jd) h time
   }"

definition asdf_time_parse_mjd :: "time_env \<Rightarrow> heap \<Rightarrow> asdf_time \<Rightarrow> parsed" where
  "asdf_time_parse_mjd env h time = do {
     s \<leftarrow> tim_value time;
     (tm, nsec) \<leftarrow> mjd_to_tm (c_strtod (te_point env) s);
     let (t, tm) = timegm tm;
     Some (True, set_info time t nsec tm, h)
   }"

text \<open>The years go through \<^verbatim>\<open>gmtime\<close> instead.\<close>

definition parse_julian_gmtime :: "double \<Rightarrow> heap \<Rightarrow> asdf_time \<Rightarrow> parsed" where
  "parse_julian_gmtime jd h time = do {
     (tm, nsec) \<leftarrow> julian_to_tm jd;
     let t = fst (timegm tm);
     utc \<leftarrow> gmtime t;
     Some (True, set_info time t nsec utc, h)
   }"

definition strip_prefix :: "byte \<Rightarrow> bytes \<Rightarrow> bytes" where
  "strip_prefix c s = (if s \<noteq> [] \<and> (hd s = c \<or> hd s = c + 32) then tl s else s)"

definition asdf_time_parse_byear :: "time_env \<Rightarrow> heap \<Rightarrow> asdf_time \<Rightarrow> parsed" where
  "asdf_time_parse_byear env h time = do {
     s \<leftarrow> tim_value time;
     parse_julian_gmtime (besselian_to_julian (c_strtod (te_point env) (strip_prefix 66 s))) h time
   }"

definition asdf_time_parse_jyear :: "time_env \<Rightarrow> heap \<Rightarrow> asdf_time \<Rightarrow> parsed" where
  "asdf_time_parse_jyear env h time = do {
     s \<leftarrow> tim_value time;
     parse_julian_gmtime (julian_epoch_to_jd (c_strtod (te_point env) (strip_prefix 74 s))) h time
   }"

text \<open>\<^verbatim>\<open>floor\<close> of a double is a double.\<close>

fun d_floor :: "double \<Rightarrow> double" where
  "d_floor (Fin q) = (if q = 0 then Fin 0 else double_of_rat (of_int \<lfloor>q\<rfloor>))"
| "d_floor d = d"

definition asdf_time_parse_decimalyear :: "time_env \<Rightarrow> heap \<Rightarrow> asdf_time \<Rightarrow> parsed" where
  "asdf_time_parse_decimalyear env h time = do {
     s \<leftarrow> tim_value time;
     let decimalyear = c_strtod (te_point env) s;
     year \<leftarrow> d_to_int 32 (d_floor decimalyear);
     tm_year \<leftarrow> int32 (year - 1900);
     let year_start_sec = fst (timegm (zero_tm\<lparr>tm_year := tm_year, tm_mon := 0, tm_mday := 1\<rparr>));
     let jd_year_start = d_add (d_div (d_int year_start_sec) (d_int SECONDS_PER_DAY)) JD_UNIX_EPOCH;
     let days_in_year = (if is_leap_year year then 366 else 365);
     let jd = d_add jd_year_start (d_mul (d_sub decimalyear (d_int year)) (d_int days_in_year));
     parse_julian_gmtime jd h time
   }"

definition asdf_time_parse :: "time_env \<Rightarrow> heap \<Rightarrow> asdf_time \<Rightarrow> parsed" where
  "asdf_time_parse env h time =
     (case tim_format time of
        ASDF_TIME_FORMAT_YDAY \<Rightarrow> asdf_time_parse_std env h time
      | ASDF_TIME_FORMAT_ISO \<Rightarrow> asdf_time_parse_std env h time
      | ASDF_TIME_FORMAT_ISOT \<Rightarrow> asdf_time_parse_std env h time
      | ASDF_TIME_FORMAT_DATETIME \<Rightarrow> asdf_time_parse_std env h time
      | ASDF_TIME_FORMAT_YMDHMS \<Rightarrow> asdf_time_parse_std env h time
      | ASDF_TIME_FORMAT_DATETIME64 \<Rightarrow> asdf_time_parse_std env h time
      | ASDF_TIME_FORMAT_UNIX \<Rightarrow> asdf_time_parse_std env h time
      | ASDF_TIME_FORMAT_FITS \<Rightarrow> asdf_time_parse_fits env h time
      | ASDF_TIME_FORMAT_PLOT_DATE \<Rightarrow> asdf_time_parse_plot_date env h time
      | ASDF_TIME_FORMAT_GPS \<Rightarrow> asdf_time_parse_epoch_seconds env h time JD_GPS_EPOCH
      | ASDF_TIME_FORMAT_UNIX_TAI \<Rightarrow> asdf_time_parse_epoch_seconds env h time JD_UNIX_EPOCH
      | ASDF_TIME_FORMAT_CXCSEC \<Rightarrow> asdf_time_parse_epoch_seconds env h time JD_CXCSEC_EPOCH
      | ASDF_TIME_FORMAT_GALEXSEC \<Rightarrow> asdf_time_parse_epoch_seconds env h time JD_GALEXSEC_EPOCH
      | ASDF_TIME_FORMAT_TAI_SECONDS \<Rightarrow> asdf_time_parse_epoch_seconds env h time JD_TAI_SECONDS_EPOCH
      | ASDF_TIME_FORMAT_UTIME \<Rightarrow> asdf_time_parse_epoch_seconds env h time JD_UTIME_EPOCH
      | ASDF_TIME_FORMAT_MJD \<Rightarrow> asdf_time_parse_mjd env h time
      | ASDF_TIME_FORMAT_JD \<Rightarrow> asdf_time_parse_jd env h time
      | ASDF_TIME_FORMAT_BYEAR \<Rightarrow> asdf_time_parse_byear env h time
      | ASDF_TIME_FORMAT_BYEAR_STR \<Rightarrow> asdf_time_parse_byear env h time
      | ASDF_TIME_FORMAT_JYEAR \<Rightarrow> asdf_time_parse_jyear env h time
      | ASDF_TIME_FORMAT_JYEAR_STR \<Rightarrow> asdf_time_parse_jyear env h time
      | ASDF_TIME_FORMAT_DECIMALYEAR \<Rightarrow> asdf_time_parse_decimalyear env h time
      | ASDF_TIME_FORMAT_RESERVED1 \<Rightarrow> Some (False, time, h))"

section \<open>Printing\<close>

definition dec_pad :: "nat \<Rightarrow> int \<Rightarrow> bytes" where
  "dec_pad k n = (let s = dec (nat \<bar>n\<bar>) in (if n < 0 then [45] else []) @ replicate (k - length s - (if n < 0 then 1 else 0)) 48 @ s)"

text \<open>\<^verbatim>\<open>strftime\<close>; \<^verbatim>\<open>%Y\<close> is not padded. It returns zero when the text and its null byte do not fit.\<close>

definition strftime_isot :: "tm \<Rightarrow> bytes" where
  "strftime_isot t =
     dec_pad 1 (tm_year t + 1900) @ [45] @ dec_pad 2 (tm_mon t + 1) @ [45] @ dec_pad 2 (tm_mday t) @ [84] @
     dec_pad 2 (tm_hour t) @ [58] @ dec_pad 2 (tm_min t) @ [58] @ dec_pad 2 (tm_sec t)"

definition trim_zeros :: "bytes \<Rightarrow> bytes" where
  "trim_zeros fpart = (let t = rev (dropWhile (\<lambda>c. c = 48) (rev fpart)) in if t = [] then take 1 fpart else t)"

definition asdf_time_format_isot :: "asdf_time_info \<Rightarrow> nat \<Rightarrow> bytes option" where
  "asdf_time_format_isot info buflen =
     (let text = strftime_isot (info_tm info); nsec = ts_nsec info in
      if length text \<ge> buflen then None
      else if nsec > 0 then
        (let fpart = trim_zeros (take 15 (46 # dec_pad 9 nsec)) in
         if length text + length fpart < buflen then Some (text @ fpart) else Some text)
      else Some text)"

end
