(* ===== verification/Asdf_Time_Laws.thy ===== *)
theory Asdf_Time_Laws
  imports Asdf_Time
begin

text \<open>
  What a Julian date becomes. The calendar of the C library is characterised first; then the arithmetic in doubles
  is exact, or its rounding cannot change what is truncated, and the integers that are left are the calendar's.
\<close>

section \<open>The calendar\<close>

lemma days_before_year_step: "days_before_year (y + 1) = days_before_year y + 365 + of_bool (leap y)"
proof -
  have d: "y div k - (y - 1) div k = of_bool (y mod k = 0)" if "k > 0" for k :: int
  proof (cases "y mod k = 0")
    case True
    then have "y = k * (y div k)" by (metis add.right_neutral mult_div_mod_eq)
    then have "(y - 1) div k = y div k - 1"
      using that by (intro int_div_pos_eq [of _ k _ "k - 1"]) (auto simp: algebra_simps)
    then show ?thesis using True by simp
  next
    case False
    then have "0 < y mod k" "y mod k < k" using that by (simp_all add: order_le_neq_trans)
    then have "(y - 1) div k = y div k" by (intro int_div_pos_eq [of _ k _ "y mod k - 1"]) (auto simp: algebra_simps)
    then show ?thesis using False by simp
  qed
  have "y mod 400 = 0 \<Longrightarrow> y mod 100 = 0" "y mod 100 = 0 \<Longrightarrow> y mod 4 = 0"
  proof -
    have "y mod 400 mod 100 = y mod 100" "y mod 100 mod 4 = y mod 4" by (rule mod_mod_cancel; simp)+
    then show "y mod 400 = 0 \<Longrightarrow> y mod 100 = 0" "y mod 100 = 0 \<Longrightarrow> y mod 4 = 0" by simp_all
  qed
  moreover have ob: "of_bool (P \<and> (\<not> Q \<or> R)) = of_bool P - of_bool Q + (of_bool R :: int)" if "R \<longrightarrow> Q" "Q \<longrightarrow> P" for P Q R
    using that by (cases P; cases Q; cases R) simp_all
  ultimately have l: "of_bool (leap y) = of_bool (y mod 4 = 0) - of_bool (y mod 100 = 0) + (of_bool (y mod 400 = 0) :: int)"
    unfolding leap_def by (intro ob) simp_all
  have "a - a' = p \<Longrightarrow> b - b' = q \<Longrightarrow> c - c' = r \<Longrightarrow> l = p - q + r \<Longrightarrow>
    365 * y + a - b + c = 365 * (y - 1) + a' - b' + c' + 365 + l" for a a' b b' c c' p q r l :: int
    unfolding right_diff_distrib by linarith
  from this [OF d [of 4, OF zero_less_numeral] d [of 100, OF zero_less_numeral] d [of 400, OF zero_less_numeral] l]
  show ?thesis by (simp only: days_before_year_def add_diff_cancel_right')
qed

lemma days_before_year_mono: "a \<le> b \<Longrightarrow> days_before_year a \<le> days_before_year b"
  by (induction b rule: int_ge_induct) (auto simp: days_before_year_step)

lemma year_of_days_bounds: "days_before_year (year_of_days n) \<le> n" "n < days_before_year (year_of_days n + 1)"
proof -
  define k where "k = 400 * n div 146097"
  have k: "146097 * k \<le> 400 * n" "400 * n < 146097 * k + 146097" unfolding k_def by linarith+
  have dv: "i div j * j \<le> i" "i < i div j * j + j" if "j > 0" for i j :: int
    using that div_mult_mod_eq [of i j] pos_mod_sign [OF that, of i] pos_mod_bound [OF that, of i] by linarith+
  have lo: "400 * days_before_year (i + 1) \<le> 146097 * i + 396" and hi: "146097 * i - 699 \<le> 400 * days_before_year (i + 1)" for i
    using dv [of 4 i, OF zero_less_numeral] dv [of 100 i, OF zero_less_numeral] dv [of 400 i, OF zero_less_numeral]
    unfolding days_before_year_def add_diff_cancel_right' distrib_left right_diff_distrib by linarith+
  have "days_before_year (k + 1) \<le> n" using lo [of k] k by linarith
  moreover have "n < days_before_year (k + 1 + 1 + 1)" using hi [of "k + 2"] k by (simp add: add.commute)
  ultimately show "days_before_year (year_of_days n) \<le> n" "n < days_before_year (year_of_days n + 1)"
    by (auto simp: year_of_days_def Let_def simp flip: k_def)
qed

lemma year_of_days_eq: "days_before_year y \<le> n \<Longrightarrow> n < days_before_year (y + 1) \<Longrightarrow> year_of_days n = y"
proof (rule ccontr)
  assume a: "days_before_year y \<le> n" "n < days_before_year (y + 1)" "year_of_days n \<noteq> y"
  then have "y + 1 \<le> year_of_days n \<or> year_of_days n + 1 \<le> y" by linarith
  then show False using a year_of_days_bounds [of n] days_before_year_mono by fastforce
qed

lemma split_month_sum:
  "m < length ls \<Longrightarrow> \<forall>l \<in> set ls. 0 \<le> l \<Longrightarrow> 0 \<le> d \<Longrightarrow> d < ls ! m \<Longrightarrow> split_month ls (sum_list (take m ls) + d) = (int m, d)"
proof (induction m arbitrary: ls)
  case 0
  then show ?case by (cases ls) auto
next
  case (Suc m)
  then obtain l ls' where ls: "ls = l # ls'" by (cases ls) auto
  have "0 \<le> sum_list (take m ls')" using Suc.prems(2) by (intro sum_list_nonneg) (auto simp: ls dest: in_set_takeD)
  then have "\<not> sum_list (take (Suc m) ls) + d < l" using Suc.prems(3) by (simp add: ls)
  moreover have "split_month ls' (sum_list (take m ls') + d) = (int m, d)" using Suc by (auto simp: ls)
  ultimately show ?case by (simp add: ls)
qed

lemma month_lengths_sum: "sum_list (month_lengths y) = 365 + of_bool (leap y)"
  by (simp add: month_lengths_def)

lemma month_lengths_pos: "l \<in> set (month_lengths y) \<Longrightarrow> 0 \<le> l"
  by (auto simp: month_lengths_def split: if_splits)

text \<open>The day with a given number is the only date that has it.\<close>

lemma civil_eq:
  assumes "0 \<le> m" and "m < 12" and "1 \<le> d" and "d \<le> month_lengths y ! nat m"
  shows "civil (days_before_year y + days_before_month y m + d - 1) = (y, m, d)"
proof -
  define n where "n = days_before_year y + days_before_month y m + d - 1"
  have m: "nat m < length (month_lengths y)" using assms by (simp add: month_lengths_def)
  have split: "split_month (month_lengths y) (days_before_month y m + (d - 1)) = (m, d - 1)"
    using split_month_sum [OF m, of "d - 1"] assms month_lengths_pos by (auto simp: days_before_month_def)
  have nn: "0 \<le> days_before_month y m"
    unfolding days_before_month_def by (intro sum_list_nonneg) (auto dest: in_set_takeD month_lengths_pos)
  have "days_before_month y m + d \<le> sum_list (take (Suc (nat m)) (month_lengths y))"
    using assms(4) m by (simp add: days_before_month_def take_Suc_conv_app_nth)
  also have "\<dots> \<le> sum_list (month_lengths y)"
    using sum_list_append [of "take (Suc (nat m)) (month_lengths y)" "drop (Suc (nat m)) (month_lengths y)"]
      sum_list_nonneg [of "drop (Suc (nat m)) (month_lengths y)"] by (auto dest: in_set_dropD month_lengths_pos)
  finally have "days_before_month y m + d \<le> 365 + of_bool (leap y)" by (simp add: month_lengths_sum)
  then have "year_of_days n = y"
    using nn assms(3) by (intro year_of_days_eq) (auto simp: n_def days_before_year_step)
  with split show ?thesis by (simp add: civil_def n_def add_diff_eq)
qed

section \<open>Exact and rounded arithmetic\<close>

text \<open>A fraction of at most 53 bits over a power of two is a double.\<close>

lemma dyadic_double:
  assumes "\<bar>k\<bar> < 2 ^ 53" and "j \<le> 1074"
  shows "double_of_rat (of_int k / 2 ^ j) = Fin (of_int k / 2 ^ j)"
proof (cases "k = 0")
  case False
  define q where "q = \<bar>of_int k / 2 ^ j :: rat\<bar>"
  have q: "q = of_int \<bar>k\<bar> / 2 ^ j" "q > 0" using False by (simp_all add: q_def)
  have "q < 2 powi (53 - int j)"
  proof -
    have "(of_int \<bar>k\<bar> :: rat) < of_int (2 ^ 53)" using assms(1) by (simp only: of_int_less_iff)
    then show ?thesis by (simp add: q power_int_diff divide_strict_right_mono)
  qed
  with rat_log2_bounds(1) [OF q(2)] have "(2 :: rat) powi rat_log2 q < 2 powi (53 - int j)" by (rule le_less_trans)
  then have e: "d_exp q \<le> - int j" using assms(2) by (simp add: d_exp_def)
  define m where "m = \<bar>k\<bar> * 2 ^ nat (- int j - d_exp q)"
  have "(2 :: rat) ^ nat (- int j - d_exp q) * 2 powi d_exp q = 2 powi (- int j)"
  proof -
    have "(2 :: rat) ^ nat (- int j - d_exp q) = 2 powi (- int j - d_exp q)" using e by (simp add: power_int_def)
    then show ?thesis by (simp flip: power_int_add)
  qed
  then have m: "q = of_int m * 2 powi d_exp q" by (simp add: m_def q(1) power_int_minus divide_inverse mult.assoc)
  have big: "q < 2 ^ 1024"
  proof -
    have "q \<le> of_int \<bar>k\<bar>" unfolding q(1) by (simp add: divide_le_eq mult_le_cancel_left1)
    also have "\<dots> < of_int (2 ^ 53)" using assms(1) by (simp only: of_int_less_iff)
    also have "\<dots> = 2 ^ 53" by simp
    also have "(2 :: rat) ^ 53 \<le> 2 ^ 1024" by (rule power_increasing) simp_all
    finally show ?thesis .
  qed
  have "double_of (of_int k / 2 ^ j < (0 :: rat)) q = Fin (if of_int k / 2 ^ j < (0 :: rat) then - q else q)"
    using q(2) by (intro double_of_near [OF _ m _ _ big]) simp_all
  moreover have "(if of_int k / 2 ^ j < (0 :: rat) then - q else q) = of_int k / 2 ^ j"
    unfolding q_def by (simp add: abs_if)
  ultimately show ?thesis unfolding double_of_rat_def q_def by simp
qed (simp add: double_of_rat_def double_of_def zero_of_def)

lemma d_int_exact: "\<bar>k\<bar> < 2 ^ 53 \<Longrightarrow> d_int k = Fin (of_int k)"
  using dyadic_double [of k 0] by (simp add: d_int_def)

lemma d_add_Fin: "d_add (Fin a) (Fin b) = double_of_rat (a + b)"
  by simp

lemma d_sub_Fin: "d_sub (Fin a) (Fin b) = double_of_rat (a - b)"
  by (simp add: d_sub_def)

lemma d_mul_Fin: "0 \<le> a \<Longrightarrow> 0 \<le> b \<Longrightarrow> d_mul (Fin a) (Fin b) = double_of_rat (a * b)"
  by (simp add: double_of_rat_def zero_le_mult_iff not_less [symmetric] mult_less_0_iff)

lemma d_div_Fin: "0 \<le> a \<Longrightarrow> 0 < b \<Longrightarrow> d_div (Fin a) (Fin b) = double_of_rat (a / b)"
  by (simp add: double_of_rat_def divide_less_0_iff)

lemma d_to_int_Fin: "- (2 ^ 31) \<le> rat_trunc q \<Longrightarrow> rat_trunc q < 2 ^ 31 \<Longrightarrow> d_to_int 32 (Fin q) = Some (rat_trunc q)"
  by (simp add: d_to_int_def)

lemma rat_trunc_eq: "0 \<le> j \<Longrightarrow> of_int j \<le> q \<Longrightarrow> q < of_int j + 1 \<Longrightarrow> rat_trunc q = j"
proof -
  assume a: "0 \<le> j" "of_int j \<le> q" "q < of_int j + 1"
  then have "0 \<le> q" by (meson of_int_0_le_iff order_trans)
  moreover have "\<lfloor>q\<rfloor> = j" using a by (intro floor_unique) auto
  ultimately show ?thesis by (simp add: rat_trunc_def)
qed

text \<open>The relative error of rounding.\<close>

lemma rounding_error:
  assumes "1 / 2 ^ 60 \<le> q" and "q \<le> 2 ^ 60"
  obtains r where "double_of_rat q = Fin r" "\<bar>r - q\<bar> \<le> q / 2 ^ 53"
proof -
  have q: "q > 0" using assms(1) by (meson less_le_trans zero_less_divide_1_iff zero_less_numeral zero_less_power)
  note L = rat_log2_bounds [OF q]
  have "2 powi (- 60) < (2 :: rat) powi (rat_log2 q + 1)" 
  proof -
    have "2 powi (- 60) = (1 / 2 ^ 60 :: rat)" by (simp add: power_int_minus)
    also have "\<dots> < 2 powi (rat_log2 q + 1)" using assms(1) L(2) by (rule le_less_trans)
    finally show ?thesis .
  qed
  then have "rat_log2 q - 52 \<ge> - 1074" by (simp only: powi_numeral_less)
  then have e: "d_exp q = rat_log2 q - 52" by (simp add: d_exp_def)
  define m where "m = round_even (q / 2 powi d_exp q)"
  define r :: rat where "r = of_int m * 2 powi d_exp q"
  have P: "(0 :: rat) < 2 powi d_exp q" by simp
  have "r - q = (of_int m - q / 2 powi d_exp q) * 2 powi d_exp q" using P by (simp add: r_def left_diff_distrib)
  then have "\<bar>r - q\<bar> = \<bar>of_int m - q / 2 powi d_exp q\<bar> * 2 powi d_exp q" by (simp add: abs_mult)
  also have "\<dots> \<le> 1 / 2 * 2 powi d_exp q" unfolding m_def by (intro mult_right_mono round_even_error) simp
  also have "\<dots> = 2 powi rat_log2 q / 2 ^ 53" by (simp add: e power_int_diff)
  also have "\<dots> \<le> q / 2 ^ 53" using L(1) by (intro divide_right_mono) auto
  finally have err: "\<bar>r - q\<bar> \<le> q / 2 ^ 53" .
  then have r: "r > 0" "r \<le> 2 * q" using q by (auto simp: abs_if split: if_splits)
  have "r < 2 ^ 1024"
  proof -
    have "r \<le> 2 ^ 61" using r(2) assms(2) by simp
    also have "(2 :: rat) ^ 61 < 2 ^ 1024" by (rule power_strict_increasing) simp_all
    finally show ?thesis .
  qed
  then have "double_of False q = Fin r"
    using q r(1) unfolding double_of_def Let_def d_exp_def [symmetric] m_def [symmetric] r_def [symmetric] by (simp del: power_numeral)
  then have "double_of_rat q = Fin r" using q by (simp add: double_of_rat_def)
  then show ?thesis using err by (rule that)
qed

text \<open>A quotient that stays clear of the integers is truncated as the exact one.\<close>

lemma truncated_quotient:
  assumes y: "(of_int j + 1 / 2 ^ 20) * D \<le> y" "y \<le> (of_int j + 1 - 1 / 2 ^ 20) * D" and j: "0 \<le> j" "j < 2 ^ 20"
    and D: "1 \<le> D" "D \<le> 2 ^ 20" and c: "\<bar>c - D\<bar> \<le> D / 2 ^ 53"
  shows "d_to_int 32 (d_div (Fin y) (Fin c)) = Some j"
proof -
  define u :: rat where "u = 1 / 2 ^ 53"
  define J :: rat where "J = of_int j"
  have J: "0 \<le> J" "J \<le> 2 ^ 20"
  proof -
    have "(of_int j :: rat) \<le> of_int (2 ^ 20)" using j(2) by (simp only: of_int_le_iff)
    then show "0 \<le> J" "J \<le> 2 ^ 20" using j(1) by (simp_all add: J_def)
  qed
  have cD: "D * (1 - u) \<le> c" "c \<le> D * (1 + u)" using c D by (auto simp: u_def abs_if algebra_simps split: if_splits)
  have c0: "c > 0"
  proof -
    have "0 < D * (1 - u)" using D(1) by (simp add: u_def)
    then show ?thesis using cD(1) by simp
  qed
  define x where "x = y / c"
  have "0 * D \<le> (J + 1 / 2 ^ 20) * D" using J(1) D(1) by (intro mult_right_mono) simp_all
  then have y0: "0 \<le> y" using y(1) by (simp add: J_def)
  have lo: "(J + 1 / 2 ^ 20) * (1 - 2 * u) \<le> x"
  proof -
    have "(J + 1 / 2 ^ 20) * (1 - 2 * u) * c \<le> (J + 1 / 2 ^ 20) * (1 - 2 * u) * (D * (1 + u))"
      using J(1) cD(2) by (intro mult_left_mono) (simp_all add: u_def)
    also have "\<dots> = (J + 1 / 2 ^ 20) * D * ((1 - 2 * u) * (1 + u))" by (simp add: ac_simps)
    also have "\<dots> \<le> (J + 1 / 2 ^ 20) * D * 1" using J(1) D(1) by (intro mult_left_mono) (simp_all add: u_def)
    also have "\<dots> \<le> y" using y(1) by (simp add: J_def)
    finally show ?thesis using c0 by (simp add: x_def le_divide_eq)
  qed
  have hi: "x \<le> (J + 1 - 1 / 2 ^ 20) * (1 + 2 * u)"
  proof -
    have "y \<le> (J + 1 - 1 / 2 ^ 20) * D * 1" using y(2) by (simp add: J_def)
    also have "\<dots> \<le> (J + 1 - 1 / 2 ^ 20) * D * ((1 + 2 * u) * (1 - u))" using J(1) D(1) by (intro mult_left_mono) (simp_all add: u_def)
    also have "\<dots> = (J + 1 - 1 / 2 ^ 20) * (1 + 2 * u) * (D * (1 - u))" by (simp add: ac_simps)
    also have "\<dots> \<le> (J + 1 - 1 / 2 ^ 20) * (1 + 2 * u) * c"
      using J(1) cD(1) by (intro mult_left_mono) (simp_all add: u_def)
    finally show ?thesis using c0 by (simp add: x_def divide_le_eq)
  qed
  have xb: "1 / 2 ^ 60 \<le> x" "x \<le> 2 ^ 60" using lo hi J by (simp_all add: u_def)
  obtain r where r: "double_of_rat x = Fin r" "\<bar>r - x\<bar> \<le> x / 2 ^ 53" using rounding_error [OF xb] by blast
  have rl: "x * (1 - u) \<le> r" and rh: "r \<le> x * (1 + u)" using r(2) xb(1) by (auto simp: u_def abs_if algebra_simps split: if_splits)
  have "J \<le> (J + 1 / 2 ^ 20) * (1 - 2 * u) * (1 - u)" using J by (simp add: u_def)
  also have "\<dots> \<le> x * (1 - u)" using lo by (intro mult_right_mono) (simp_all add: u_def)
  finally have "J \<le> r" using rl by simp
  moreover have "r < J + 1"
  proof -
    have "r \<le> (J + 1 - 1 / 2 ^ 20) * (1 + 2 * u) * (1 + u)" using rh mult_right_mono [OF hi, of "1 + u"] by (simp add: u_def)
    also have "\<dots> < J + 1" using J by (simp add: u_def)
    finally show ?thesis .
  qed
  ultimately have "rat_trunc r = j" using j(1) by (intro rat_trunc_eq) (simp_all add: J_def)
  moreover have "d_div (Fin y) (Fin c) = Fin r" using y0 c0 r(1) by (simp add: d_div_Fin x_def del: d_div.simps)
  ultimately show ?thesis using j d_to_int_Fin [of r] by simp
qed

section \<open>Dates\<close>

lemma constants_exact:
  "JD_CORRECTION_REF = Fin (7468865 / 4)" "JD_GREGORIAN_START = Fin 2299161" "GREGORIAN_OFFSET = Fin 1524"
  "JD_YEAR_LENGTH = Fin (1461 / 4)" "double_of_rat (1 / 2) = Fin (1 / 2)"
  using dyadic_double [of 7468865 2] dyadic_double [of 2299161 0] dyadic_double [of 1524 0] dyadic_double [of 1461 2] dyadic_double [of 1 1]
  by (simp_all add: JD_CORRECTION_REF_def JD_GREGORIAN_START_def GREGORIAN_OFFSET_def JD_YEAR_LENGTH_def)

lemma leap_adjust:
  assumes n: "2299161 \<le> n" "n < 2 ^ 30" and j: "0 \<le> j" "j < 1000"
    and lo: "(of_int j + 1 / 2 ^ 20) * (365242198781 / 10 ^ 7) \<le> (of_int n - 7468865 / 4 :: rat)"
    and hi: "of_int n - 7468865 / 4 \<le> (of_int j + 1 - 1 / 2 ^ 20) * (365242198781 / 10 ^ 7 :: rat)"
  shows "jd_adjusted n = Some (n + 1 + j - j div 4)"
proof -
  obtain c where c: "DAYS_IN_CENTURY = Fin c" "\<bar>c - 365242198781 / 10 ^ 7\<bar> \<le> 365242198781 / 10 ^ 7 / 2 ^ 53"
    using rounding_error [of "365242198781 / 10 ^ 7"] by (auto simp: DAYS_IN_CENTURY_def)
  have ni: "d_int n = Fin (of_int n)" using n by (intro d_int_exact) simp
  have "d_sub (d_int n) JD_CORRECTION_REF = double_of_rat (of_int (4 * n - 7468865) / 2 ^ 2)"
    by (simp add: ni constants_exact d_sub_Fin diff_divide_distrib)
  also have "\<dots> = Fin (of_int (4 * n - 7468865) / 2 ^ 2)" using n by (intro dyadic_double) auto
  also have "of_int (4 * n - 7468865) / 2 ^ 2 = (of_int n - 7468865 / 4 :: rat)" by (simp add: diff_divide_distrib)
  finally have s: "d_sub (d_int n) JD_CORRECTION_REF = Fin (of_int n - 7468865 / 4)" .
  have "d_to_int 32 (d_div (d_sub (d_int n) JD_CORRECTION_REF) DAYS_IN_CENTURY) = Some j"
    unfolding s c(1) using lo hi j c(2) by (intro truncated_quotient [where D = "365242198781 / 10 ^ 7"]) simp_all
  moreover have "\<not> d_less (d_int n) JD_GREGORIAN_START" using n by (simp add: ni constants_exact)
  moreover have "j sdiv 4 = j div 4" using j by (simp add: signed_divide_int_def sgn_if)
  moreover have "0 \<le> j div 4" "j div 4 < 1000" using j by (simp_all add: div_less_iff_less_mult)
  ultimately show ?thesis using n j by (auto simp: jd_adjusted_def int32_def)
qed

text \<open>The integers that the code computes, without doubles.\<close>

definition year_base :: "int \<Rightarrow> int" where "year_base c = (20 * c - 2442) div 7305"
definition year_rest :: "int \<Rightarrow> int" where "year_rest c = c - 1461 * year_base c div 4"
definition month_base :: "int \<Rightarrow> int" where "month_base x = 10000 * x div 306001"
definition month_start :: "int \<Rightarrow> int" where "month_start mb = 306001 * mb div 10000"

lemma year_rest_bounds:
  "7305 * year_base c + 1 \<le> 20 * c - 2442" "20 * c - 2442 \<le> 7305 * year_base c + 7304"
  "123 \<le> year_rest c" "year_rest c \<le> 488"
proof -
  define y where "y = year_base c"
  have e: "7305 * y + (20 * c - 2442) mod 7305 = 20 * c - 2442" by (simp add: y_def year_base_def)
  have "(20 * c - 2442) mod 7305 \<noteq> 0"
  proof
    assume "(20 * c - 2442) mod 7305 = 0"
    then have "7305 * y = 20 * c - 2442" using e by simp
    then have "5 * (1461 * y) = 5 * (4 * c - 489) + 3" by simp
    moreover have "(5 * t + 3) mod 5 = 3" "(5 * t) mod 5 = 0" for t :: int by simp_all
    ultimately show False by (metis zero_neq_numeral)
  qed
  moreover have "0 \<le> (20 * c - 2442) mod 7305" "(20 * c - 2442) mod 7305 < 7305" by simp_all
  ultimately show a: "7305 * year_base c + 1 \<le> 20 * c - 2442" "20 * c - 2442 \<le> 7305 * year_base c + 7304"
    using e by (simp_all flip: y_def)
  have "4 * (1461 * y div 4) \<le> 1461 * y" "1461 * y \<le> 4 * (1461 * y div 4) + 3" by linarith+
  then show "123 \<le> year_rest c" "year_rest c \<le> 488" using a by (simp_all add: year_rest_def flip: y_def)
qed

lemma year_base_double:
  assumes "1000000 \<le> c" and "c < 10000000"
  shows "d_to_int 32 (d_div (d_sub (d_int c) JD_CALENDAR_OFFSET) JD_YEAR_LENGTH) = Some (year_base c)"
proof -
  obtain w where w: "JD_CALENDAR_OFFSET = Fin w" "\<bar>w - 1221 / 10\<bar> \<le> 1221 / 10 / 2 ^ 53"
    using rounding_error [of "1221 / 10"] by (auto simp: JD_CALENDAR_OFFSET_def)
  have ci: "d_int c = Fin (of_int c)" using assms by (intro d_int_exact) simp
  have C: "(1000000 :: rat) \<le> of_int c" "(of_int c :: rat) < 10000000"
  proof -
    have "(of_int 1000000 :: rat) \<le> of_int c" "(of_int c :: rat) < of_int 10000000"
      unfolding of_int_le_iff of_int_less_iff using assms by simp_all
    then show "(1000000 :: rat) \<le> of_int c" "(of_int c :: rat) < 10000000" by simp_all
  qed
  have wb: "w \<le> 123" "122 \<le> w" using w(2) by (auto simp: abs_if split: if_splits)
  have "1 / 2 ^ 60 \<le> of_int c - w" "of_int c - w \<le> 2 ^ 60" using C wb by simp_all
  then obtain y where y: "double_of_rat (of_int c - w) = Fin y" "\<bar>y - (of_int c - w)\<bar> \<le> (of_int c - w) / 2 ^ 53"
    by (rule rounding_error)
  have near: "\<bar>y - (of_int c - 1221 / 10)\<bar> \<le> 1 / 100"
    using y(2) w(2) C wb by (auto simp: abs_if split: if_splits)
  have yb: "0 \<le> year_base c" "year_base c < 2 ^ 20" using assms year_rest_bounds(1,2) [of c] by (linarith, simp)
  have "of_int (7305 * year_base c + 1) \<le> (of_int (20 * c - 2442) :: rat)" "(of_int (20 * c - 2442) :: rat) \<le> of_int (7305 * year_base c + 7304)"
    unfolding of_int_le_iff using year_rest_bounds(1,2) by blast+
  then have b: "7305 * of_int (year_base c) + 1 \<le> (20 * of_int c - 2442 :: rat)" "(20 * of_int c - 2442 :: rat) \<le> 7305 * of_int (year_base c) + 7304"
    by simp_all
  have "d_to_int 32 (d_div (Fin y) (Fin (1461 / 4))) = Some (year_base c)"
  proof (rule truncated_quotient [where D = "1461 / 4"])
    show "(of_int (year_base c) + 1 / 2 ^ 20) * (1461 / 4) \<le> y" using b(1) near by (simp add: abs_if field_simps split: if_splits)
    show "y \<le> (of_int (year_base c) + 1 - 1 / 2 ^ 20) * (1461 / 4)" using b(2) near by (simp add: abs_if field_simps split: if_splits)
  qed (use yb in simp_all)
  then show ?thesis unfolding ci w(1) d_sub_Fin y(1) constants_exact .
qed

lemma days_in_years_double:
  assumes "0 \<le> y" and "y < 2 ^ 20"
  shows "d_to_int 32 (d_mul JD_YEAR_LENGTH (d_int y)) = Some (1461 * y div 4)"
proof -
  have yi: "d_int y = Fin (of_int y)" using assms by (intro d_int_exact) simp
  have Y: "(0 :: rat) \<le> of_int y" using assms(1) by simp
  have "d_mul JD_YEAR_LENGTH (d_int y) = double_of_rat (of_int (1461 * y) / 2 ^ 2)"
    unfolding yi constants_exact using Y by (subst d_mul_Fin) simp_all
  also have "\<dots> = Fin (of_int (1461 * y) / 2 ^ 2)" using assms by (intro dyadic_double) auto
  finally have m: "d_mul JD_YEAR_LENGTH (d_int y) = Fin (of_int (1461 * y) / 2 ^ 2)" .
  define j where "j = 1461 * y div 4"
  have j: "4 * j \<le> 1461 * y" "1461 * y < 4 * j + 4" "0 \<le> j" "j < 2 ^ 30" using assms unfolding j_def by (linarith, linarith, simp, simp)
  have "of_int (4 * j) \<le> (of_int (1461 * y) :: rat)" "(of_int (1461 * y) :: rat) < of_int (4 * j + 4)"
    unfolding of_int_le_iff of_int_less_iff using j by simp_all
  then have "rat_trunc (of_int (1461 * y) / 2 ^ 2) = j" using j(3) by (intro rat_trunc_eq) simp_all
  then show ?thesis unfolding m using j(3,4) by (subst d_to_int_Fin) (simp_all add: j_def)
qed

lemma month_base_cases:
  "4 \<le> m \<Longrightarrow> m \<le> 15 \<Longrightarrow>
   m = 4 \<or> m = 5 \<or> m = 6 \<or> m = 7 \<or> m = 8 \<or> m = 9 \<or> m = 10 \<or> m = 11 \<or> m = 12 \<or> m = 13 \<or> m = 14 \<or> m = (15 :: int)"
  by arith

lemma month_base_bounds:
  assumes "123 \<le> x" and "x \<le> 488"
  shows "306001 * month_base x + 1 \<le> 10000 * x" "10000 * x \<le> 306001 * month_base x + 306000" "4 \<le> month_base x" "month_base x \<le> 15"
proof -
  have e: "306001 * month_base x + 10000 * x mod 306001 = 10000 * x" by (simp add: month_base_def)
  have b: "0 \<le> 10000 * x mod 306001" "10000 * x mod 306001 < 306001" by simp_all
  then have m: "4 \<le> month_base x" "month_base x \<le> 15" using e assms by linarith+
  moreover have "10000 * x mod 306001 \<noteq> 0"
  proof
    assume "10000 * x mod 306001 = 0"
    then have z: "306001 * month_base x = 10000 * x" using e by simp
    then have "306001 * month_base x mod 10000 = 0" by simp
    with month_base_cases [OF m] show False by (elim disjE) simp_all
  qed
  ultimately show "306001 * month_base x + 1 \<le> 10000 * x" "10000 * x \<le> 306001 * month_base x + 306000" "4 \<le> month_base x" "month_base x \<le> 15"
    using e b by linarith+
qed

lemma average_month:
  obtains c where "AVG_MONTH_LENGTH = Fin c" "\<bar>c - 306001 / 10000\<bar> \<le> 306001 / 10000 / 2 ^ 53"
  using rounding_error [of "306001 / 10000"] by (auto simp: AVG_MONTH_LENGTH_def)

lemma month_base_double:
  assumes "123 \<le> x" and "x \<le> 488"
  shows "d_to_int 32 (d_div (d_int x) AVG_MONTH_LENGTH) = Some (month_base x)"
proof -
  obtain c where c: "AVG_MONTH_LENGTH = Fin c" "\<bar>c - 306001 / 10000\<bar> \<le> 306001 / 10000 / 2 ^ 53" by (rule average_month)
  note b = month_base_bounds [OF assms]
  have xi: "d_int x = Fin (of_int x)" using assms by (intro d_int_exact) simp
  have "of_int (306001 * month_base x + 1) \<le> (of_int (10000 * x) :: rat)" "(of_int (10000 * x) :: rat) \<le> of_int (306001 * month_base x + 306000)"
    unfolding of_int_le_iff using b by simp_all
  then have r: "306001 * of_int (month_base x) + 1 \<le> (10000 * of_int x :: rat)" "(10000 * of_int x :: rat) \<le> 306001 * of_int (month_base x) + 306000"
    by simp_all
  show ?thesis unfolding xi c(1)
  proof (rule truncated_quotient [where D = "306001 / 10000"])
    show "(of_int (month_base x) + 1 / 2 ^ 20) * (306001 / 10000) \<le> (of_int x :: rat)" using r(1) by (simp add: field_simps)
    show "(of_int x :: rat) \<le> (of_int (month_base x) + 1 - 1 / 2 ^ 20) * (306001 / 10000)" using r(2) by (simp add: field_simps)
  qed (use b c(2) in simp_all)
qed

lemma month_start_double:
  assumes "4 \<le> m" and "m \<le> 15"
  shows "d_to_int 32 (d_mul AVG_MONTH_LENGTH (d_int m)) = Some (month_start m)"
proof -
  obtain c where c: "AVG_MONTH_LENGTH = Fin c" "\<bar>c - 306001 / 10000\<bar> \<le> 306001 / 10000 / 2 ^ 53" by (rule average_month)
  have mi: "d_int m = Fin (of_int m)" using assms by (intro d_int_exact) simp
  have "(of_int 4 :: rat) \<le> of_int m" "(of_int m :: rat) \<le> of_int 15" unfolding of_int_le_iff using assms by simp_all
  then have M: "(4 :: rat) \<le> of_int m" "(of_int m :: rat) \<le> 15" by simp_all
  have cb: "30 \<le> c" "c \<le> 31" using c(2) by (auto simp: abs_if split: if_splits)
  have prod: "\<bar>c * of_int m - 306001 / 10000 * of_int m\<bar> \<le> 306001 / 10000 / 2 ^ 53 * 15"
  proof -
    have "\<bar>c * of_int m - 306001 / 10000 * of_int m\<bar> = \<bar>c - 306001 / 10000\<bar> * of_int m"
      unfolding left_diff_distrib [symmetric] abs_mult using M by simp
    also have "\<dots> \<le> 306001 / 10000 / 2 ^ 53 * 15" using c(2) M by (intro mult_mono) simp_all
    finally show ?thesis .
  qed
  have "122 \<le> 306001 / 10000 * (of_int m :: rat)" "306001 / 10000 * (of_int m :: rat) \<le> 460" using M by simp_all
  moreover have pr: "\<bar>c * of_int m - 306001 / 10000 * of_int m\<bar> \<le> 1 / 4000000" by (rule order_trans [OF prod]) simp
  ultimately have cm: "121 \<le> c * of_int m" "c * of_int m \<le> 465" using abs_le_D1 [OF pr] abs_le_D2 [OF pr] by linarith+
  then have p: "1 / 2 ^ 60 \<le> c * of_int m" "c * of_int m \<le> 2 ^ 60" by simp_all
  obtain r where r: "double_of_rat (c * of_int m) = Fin r" "\<bar>r - c * of_int m\<bar> \<le> c * of_int m / 2 ^ 53" using rounding_error [OF p] by blast
  define j where "j = month_start m"
  have j: "10000 * j + 1 \<le> 306001 * m" "306001 * m \<le> 10000 * j + 9999" "0 \<le> j" "j \<le> 459"
    using month_base_cases [OF assms] by (auto simp: j_def month_start_def)
  have "of_int (10000 * j + 1) \<le> (of_int (306001 * m) :: rat)" "(of_int (306001 * m) :: rat) \<le> of_int (10000 * j + 9999)"
    unfolding of_int_le_iff using j by simp_all
  then have J: "10000 * of_int j + 1 \<le> (306001 * of_int m :: rat)" "(306001 * of_int m :: rat) \<le> 10000 * of_int j + 9999" by simp_all
  have near: "\<bar>r - 306001 / 10000 * of_int m\<bar> \<le> 1 / 2 ^ 20" 
  proof -
    have "c * of_int m / 2 ^ 53 \<le> 1 / 4000000" using cm(2) by simp
    then have "\<bar>r - c * of_int m\<bar> \<le> 1 / 4000000" using r(2) by (rule order_trans [rotated])
    then have "\<bar>r - 306001 / 10000 * of_int m\<bar> \<le> 1 / 4000000 + 1 / 4000000" using pr by (simp only: abs_le_iff) linarith
    also have "\<dots> \<le> (1 / 2 ^ 20 :: rat)" by simp
    finally show ?thesis .
  qed
  have "rat_trunc r = j" using j(3) J near by (intro rat_trunc_eq) (auto simp: abs_if split: if_splits)
  moreover have "d_mul AVG_MONTH_LENGTH (d_int m) = Fin r"
    unfolding mi c(1) using cb M by (subst d_mul_Fin) (simp_all add: r(1))
  ultimately show ?thesis using j d_to_int_Fin [of r] by (simp add: j_def)
qed

text \<open>Year, month and day, from integers alone.\<close>

definition julian_civil :: "int \<Rightarrow> int \<times> int \<times> int" where
  "julian_civil a =
     (let c = a + 1524; x = year_rest c; mb = month_base x;
          month = (if mb < 14 then mb - 1 else mb - 13);
          year = (if month > 2 then year_base c - 4716 else year_base c - 4716 - 1)
      in (year, month, x - month_start mb))"

lemma day_bounds:
  assumes "123 \<le> x" and "x \<le> 488"
  shows "1 \<le> x - month_start (month_base x)" "x - month_start (month_base x) \<le> 31"
  using month_base_cases [OF month_base_bounds(3,4) [OF assms]] month_base_bounds(1,2) [OF assms]
  by (auto simp: month_start_def)

lemma julian_date_eq:
  assumes a: "1000000 \<le> a" "a < 5000000" and k: "0 \<le> k" "k < 2 ^ 31"
  shows "julian_date a (Fin (of_int k / 2 ^ 31)) = Some (julian_civil a)"
proof -
  define c where "c = a + 1524"
  have ai: "d_int a = Fin (of_int a)" and ci: "d_int c = Fin (of_int c)"
    unfolding c_def by (rule d_int_exact; use a in simp)+
  have "d_add (d_int a) GREGORIAN_OFFSET = d_int c" unfolding ai constants_exact d_add_Fin by (simp add: d_int_def c_def)
  moreover have cb: "1000000 \<le> c" "c < 10000000" using a by (simp_all add: c_def)
  moreover have "rat_trunc (of_int c) = c" using cb by (intro rat_trunc_eq) auto
  ultimately have 1: "d_to_int 32 (d_add (d_int a) GREGORIAN_OFFSET) = Some c"
    using d_to_int_Fin [of "of_int c"] by (simp add: ci)
  note 2 = year_base_double [OF cb]
  have yb: "0 \<le> year_base c" "year_base c < 2 ^ 20" using cb year_rest_bounds(1,2) [of c] by (linarith, simp)
  note 3 = days_in_years_double [OF yb]
  note x = year_rest_bounds(3,4) [of c]
  have 4: "int32 (c - 1461 * year_base c div 4) = Some (year_rest c)" using x by (simp add: int32_def year_rest_def)
  note 5 = month_base_double [OF x]
  note 6 = month_start_double [OF month_base_bounds(3,4) [OF x]]
  define d where "d = year_rest c - month_start (month_base (year_rest c))"
  have d: "1 \<le> d" "d \<le> 31" using day_bounds [OF x] by (simp_all add: d_def)
  have 7: "int32 (year_rest c - month_start (month_base (year_rest c))) = Some d" using d by (simp add: int32_def d_def)
  define f where "f = Fin (of_int k / 2 ^ 31)"
  have 8: "d_to_int 32 (d_add (d_int d) (Fin (of_int k / 2 ^ 31))) = Some d"
  proof -
    have di: "d_int d = Fin (of_int d)" using d by (intro d_int_exact) simp
    have "d_add (d_int d) (Fin (of_int k / 2 ^ 31)) = double_of_rat (of_int (d * 2 ^ 31 + k) / 2 ^ 31)"
      by (simp add: di add_divide_distrib)
    also have "\<dots> = Fin (of_int (d * 2 ^ 31 + k) / 2 ^ 31)" using d k by (intro dyadic_double) auto
    finally have s: "d_add (d_int d) (Fin (of_int k / 2 ^ 31)) = Fin (of_int (d * 2 ^ 31 + k) / 2 ^ 31)" .
    have "(of_int k :: rat) < of_int (2 ^ 31)" using k(2) by (simp only: of_int_less_iff)
    then have "rat_trunc (of_int (d * 2 ^ 31 + k) / 2 ^ 31) = d" using d k by (intro rat_trunc_eq) (simp_all add: add_divide_distrib)
    then show ?thesis unfolding s using d by (subst d_to_int_Fin) simp_all
  qed
  show ?thesis unfolding f_def [symmetric]
    by (simp add: julian_date_def 1 2 3 4 5 6 7 8 [folded f_def] julian_civil_def Let_def JD_BASE_YEAR_def flip: c_def del: d_add.simps d_div.simps d_mul.simps)
      (simp add: d_def)
qed

text \<open>In the centuries of the bounds, the shifted count of days has the dates of the Gregorian calendar, but that
  January and February are two years early; months are counted from one.\<close>

lemma march_years:
  assumes "1582 \<le> y" and "y < 2100"
  shows "y div 100 - y div 400 - 2 =
    (if y < 1700 then 10 else if y < 1800 then 11 else if y < 1900 then 12 else (13 :: int))"
proof -
  have D: "y div 100 = a" "y div 400 = b"
    if "100 * a \<le> y" "y < 100 * a + 100" "400 * b \<le> y" "y < 400 * b + 400" for a b
    using that by linarith+
  consider "y < 1600" | "1600 \<le> y" "y < 1700" | "1700 \<le> y" "y < 1800" | "1800 \<le> y" "y < 1900"
    | "1900 \<le> y" "y < 2000" | "2000 \<le> y" by linarith
  then show ?thesis
    using assms D [of 15 3] D [of 16 4] D [of 17 4] D [of 18 4] D [of 19 4] D [of 20 5] by cases auto
qed

definition gregorian_shift :: "int \<Rightarrow> int" where
  "gregorian_shift n = (if n < 2342032 then 10 else if n < 2378556 then 11 else if n < 2415080 then 12 else 13)"

lemma jd_adjusted_eq:
  assumes "2299161 \<le> n" and "n < 2488128"
  shows "jd_adjusted n = Some (n + gregorian_shift n)"
proof -
  have ge: "of_int i \<le> (of_int n :: rat)" if "i \<le> n" for i using that by (simp only: of_int_le_iff)
  have le: "(of_int n :: rat) \<le> of_int i" if "n \<le> i" for i using that by (simp only: of_int_le_iff)
  have n: "n < 2 ^ 30" using assms by simp
  consider "n \<le> 2305506" | "2305507 \<le> n" "n \<le> 2342031" | "2342032 \<le> n" "n \<le> 2378555" | "2378556 \<le> n" "n \<le> 2415079"
    | "2415080 \<le> n" "n \<le> 2451603" | "2451604 \<le> n" using assms by linarith
  then show ?thesis
  proof cases
    case 1
    then show ?thesis using leap_adjust [OF assms(1) n, of 11] ge [OF assms(1)] le [OF 1] by (simp add: gregorian_shift_def)
  next
    case 2
    then show ?thesis using leap_adjust [OF assms(1) n, of 12] ge [OF 2(1)] le [OF 2(2)] by (simp add: gregorian_shift_def)
  next
    case 3
    then show ?thesis using leap_adjust [OF assms(1) n, of 13] ge [OF 3(1)] le [OF 3(2)] by (simp add: gregorian_shift_def)
  next
    case 4
    then show ?thesis using leap_adjust [OF assms(1) n, of 14] ge [OF 4(1)] le [OF 4(2)] by (simp add: gregorian_shift_def)
  next
    case 5
    then show ?thesis using leap_adjust [OF assms(1) n, of 15] ge [OF 5(1)] le [OF 5(2)] by (simp add: gregorian_shift_def)
  next
    case 6
    have "n \<le> 2488127" using assms(2) by simp
    with 6 show ?thesis using leap_adjust [OF assms(1) n, of 16] ge [OF 6] le [of 2488127] by (simp add: gregorian_shift_def)
  qed
qed

definition early :: "int \<times> int \<times> int \<Rightarrow> int \<times> int \<times> int" where
  "early = (\<lambda>(y, m, d). (if m < 2 then y - 2 else y, m + 1, d))"

lemma gregorian_date:
  assumes n: "2299161 \<le> n" "n < 2488128"
  shows "julian_civil (n + gregorian_shift n) = early (civil (n - 1721426))"
proof -
  define c where "c = n + gregorian_shift n + 1524"
  define x where "x = year_rest c"
  define y where "y = year_base c - 4716"
  note b = year_rest_bounds [of c]
  have c: "c = n + gregorian_shift n + 1524" by (rule c_def)
  have x: "123 \<le> x" "x \<le> 488" "x = c - 1461 * (y + 4716) div 4" using b by (simp_all add: x_def y_def year_rest_def)
  have yb: "7305 * y + 34450382 \<le> 20 * c - 2442 + 1" "20 * c - 2442 \<le> 7305 * y + 34450380 + 7304"
    using b(1,2) by (simp_all add: y_def)
  have yr: "1582 \<le> y" "y < 2100" "gregorian_shift n = y div 100 - y div 400 - 2"
  proof -
    consider "n < 2342032" | "2342032 \<le> n" "n < 2378556" | "2378556 \<le> n" "n < 2415080" | "2415080 \<le> n" by linarith
    then have "1582 \<le> y \<and> y < 2100 \<and> gregorian_shift n = (if y < 1700 then 10 else if y < 1800 then 11 else if y < 1900 then 12 else 13)"
    proof cases
      case 1
      then have g: "gregorian_shift n = 10" by (simp add: gregorian_shift_def)
      then have "1582 \<le> y" "y < 1700" using 1 yb c n by linarith+
      then show ?thesis using g by simp
    next
      case 2
      then have g: "gregorian_shift n = 11" by (simp add: gregorian_shift_def)
      then have "1700 \<le> y" "y < 1800" using 2 yb c n by linarith+
      then show ?thesis using g by simp
    next
      case 3
      then have g: "gregorian_shift n = 12" by (simp add: gregorian_shift_def)
      then have "1800 \<le> y" "y < 1900" using 3 yb c n by linarith+
      then show ?thesis using g by simp
    next
      case 4
      then have g: "gregorian_shift n = 13" by (simp add: gregorian_shift_def)
      then have "1900 \<le> y" "y < 2100" using 4 yb c n by linarith+
      then show ?thesis using g by simp
    qed
    then show "1582 \<le> y" "y < 2100" "gregorian_shift n = y div 100 - y div 400 - 2" using march_years by auto
  qed
  define d where "d = x - month_start (month_base x)"
  have d1: "1 \<le> d" using day_bounds [OF x(1,2)] by (simp add: d_def)
  have next_year: "days_before_year (y + 1) = 365 * y + y div 4 - y div 100 + y div 400" by (simp add: days_before_year_def)
  have count: "n - 1721426 = days_before_year (y + 1) - 306 + (x - 123)"
  proof -
    have q: "1461 * (y + 4716) div 4 = 365 * y + y div 4 + 1722519"
    proof -
      have "1461 * (y + 4716) = y + 4 * (365 * y + 1722519)" by simp
      then show ?thesis by simp
    qed
    show ?thesis unfolding next_year using x(3) c yr(3) by (simp add: q)
  qed
  have leap_mar: "days_before_year y = days_before_year (y + 1) - 365 - of_bool (leap y)" by (simp add: days_before_year_step)
  have feb29: "leap (y + 1)" if "x = 488"
  proof -
    define r where "r = (1461 * (y + 4716)) mod 4"
    have "4 * (1461 * (y + 4716) div 4) + r = 1461 * (y + 4716)" "0 \<le> r" "r \<le> 3" by (simp_all add: r_def)
    then have "r = 3" using yb(2) x(3) that by simp
    moreover have "1461 * (y + 4716) = y + (365 * y + 1722519) * 4" by simp
    then have "r = y mod 4" unfolding r_def by (simp only: mod_mult_self1)
    ultimately have m: "y mod 4 = 3" by simp
    have "y \<noteq> 1699 \<and> y \<noteq> 1799 \<and> y \<noteq> 1899 \<and> y \<noteq> 2099"
    proof (intro conjI notI)
      assume "y = 1699" then show False using x(3) that c by (simp add: gregorian_shift_def split: if_splits)
    next
      assume "y = 1799" then show False using x(3) that c by (simp add: gregorian_shift_def split: if_splits)
    next
      assume "y = 1899" then show False using x(3) that c by (simp add: gregorian_shift_def split: if_splits)
    next
      assume "y = 2099" then show False using x(3) that c n by (simp add: gregorian_shift_def split: if_splits)
    qed
    moreover have "(y + 1) mod 4 = 0" using m by presburger
    moreover have "y = 1599 \<or> y = 1999 \<or> (y + 1) mod 100 \<noteq> 0 \<or> y = 1699 \<or> y = 1799 \<or> y = 1899 \<or> y = 2099" using yr(1,2) by presburger
    ultimately show ?thesis by (auto simp: leap_def)
  qed
  have mb: "4 \<le> month_base x" "month_base x \<le> 15" by (rule month_base_bounds [OF x(1,2)])+
  note xb = month_base_bounds(1,2) [OF x(1,2)]
  have code: "julian_civil (n + gregorian_shift n) =
    (if month_base x < 14 then (y, month_base x - 1, d) else (y - 1, month_base x - 13, d))"
    using mb by (auto simp: julian_civil_def Let_def c_def [symmetric] x_def [symmetric] d_def y_def)
  show ?thesis
  proof (cases "month_base x < 14")
    case True
    define m where "m = month_base x - 2"
    have mm: "0 \<le> m" "m < 12" "2 \<le> m" using mb True by (simp_all add: m_def)
    have "month_base x = 4 \<or> month_base x = 5 \<or> month_base x = 6 \<or> month_base x = 7 \<or> month_base x = 8 \<or> month_base x = 9 \<or>
      month_base x = 10 \<or> month_base x = 11 \<or> month_base x = 12 \<or> month_base x = 13" using mb True by arith
    then have "d \<le> month_lengths y ! nat m \<and> days_before_month y m = 59 + of_bool (leap y) + month_start (month_base x) - 122"
      using xb by (elim disjE) (simp_all add: m_def d_def month_start_def month_lengths_def days_before_month_def)
    then have "civil (days_before_year y + days_before_month y m + d - 1) = (y, m, d)"
      "days_before_year y + days_before_month y m + d - 1 = n - 1721426"
      using civil_eq [of m d y] mm d1 by (auto simp: count leap_mar d_def)
    then show ?thesis using True mm by (simp add: code early_def) (simp add: m_def)
  next
    case False
    then have "month_base x = 14 \<or> month_base x = 15" using mb by arith
    then show ?thesis
    proof
      assume m: "month_base x = 14"
      have "civil (days_before_year (y + 1) + days_before_month (y + 1) 0 + d - 1) = (y + 1, 0, d)"
        using xb d1 by (intro civil_eq) (simp_all add: m d_def month_start_def month_lengths_def)
      moreover have "days_before_year (y + 1) + days_before_month (y + 1) 0 + d - 1 = n - 1721426"
        by (simp add: count d_def m month_start_def days_before_month_def)
      ultimately show ?thesis by (simp add: code m early_def)
    next
      assume m: "month_base x = 15"
      have "d \<le> 28 \<or> x = 488" using x(2) by (simp add: d_def m month_start_def) linarith
      then have "d \<le> month_lengths (y + 1) ! nat 1" using feb29 x(2) by (auto simp: month_lengths_def d_def m month_start_def)
      then have "civil (days_before_year (y + 1) + days_before_month (y + 1) 1 + d - 1) = (y + 1, 1, d)"
        using d1 by (intro civil_eq) simp_all
      moreover have "days_before_year (y + 1) + days_before_month (y + 1) 1 + d - 1 = n - 1721426"
        by (simp add: count d_def m month_start_def days_before_month_def month_lengths_def)
      ultimately show ?thesis by (simp add: code m early_def)
    qed
  qed
qed

end
