(* ===== verification/Asdf_Time_Instant.thy ===== *)
theory Asdf_Time_Instant
  imports Asdf_Time_Laws
begin

text \<open>
  The instant of a Julian date: the time of the day, exact in doubles, and what \<^verbatim>\<open>asdf_time_parse_jd\<close> stores, for
  every double from the start of the Gregorian calendar to the end of February 2100.
\<close>

section \<open>Inverting the calendar\<close>

lemma split_month_inverse:
  "0 \<le> d \<Longrightarrow> d < sum_list ls \<Longrightarrow> \<forall>l \<in> set ls. 0 \<le> l \<Longrightarrow> split_month ls d = (m, r) \<Longrightarrow>
   0 \<le> m \<and> m < int (length ls) \<and> 0 \<le> r \<and> r < ls ! nat m \<and> sum_list (take (nat m) ls) + r = d"
proof (induction ls d arbitrary: m r rule: split_month.induct)
  case (2 l ls d)
  show ?case
  proof (cases "d < l")
    case True
    with 2 show ?thesis by auto
  next
    case False
    obtain m' r' where s: "split_month ls (d - l) = (m', r')" by force
    have "0 \<le> m' \<and> m' < int (length ls) \<and> 0 \<le> r' \<and> r' < ls ! nat m' \<and> sum_list (take (nat m') ls) + r' = d - l"
      using 2(1) [OF False _ _ _ s] 2(2-4) False by auto
    moreover have "m = m' + 1" "r = r'" using 2(5) False s by auto
    ultimately show ?thesis by (auto simp: nat_add_distrib)
  qed
qed simp

lemma civil_inverse:
  assumes "civil n = (y, m, d)"
  shows "days_before_year y + days_before_month y m + d - 1 = n" "0 \<le> m" "m < 12" "1 \<le> d" "d \<le> month_lengths y ! nat m"
    "y = year_of_days n"
proof -
  define e where "e = n - days_before_year (year_of_days n)"
  obtain r where s: "split_month (month_lengths y) e = (m, r)" and y: "y = year_of_days n" and d: "d = r + 1"
    using assms by (auto simp: civil_def Let_def e_def split: prod.splits)
  have e: "0 \<le> e" "e < sum_list (month_lengths y)"
    using year_of_days_bounds [of n] by (simp_all add: e_def month_lengths_sum y days_before_year_step)
  have "\<forall>l \<in> set (month_lengths y). 0 \<le> l" using month_lengths_pos by blast
  from split_month_inverse [OF e this s]
  show "days_before_year y + days_before_month y m + d - 1 = n" "0 \<le> m" "m < 12" "1 \<le> d" "d \<le> month_lengths y ! nat m" "y = year_of_days n"
    by (auto simp: days_before_month_def d y e_def month_lengths_def)
qed

lemma year_of_days_range:
  assumes "days_before_year a \<le> n" and "n < days_before_year b"
  shows "a \<le> year_of_days n" "year_of_days n < b"
proof -
  note y = year_of_days_bounds [of n]
  show "a \<le> year_of_days n"
  proof (rule ccontr)
    assume "\<not> a \<le> year_of_days n"
    then have "days_before_year (year_of_days n + 1) \<le> days_before_year a" by (intro days_before_year_mono) simp
    then show False using y assms by simp
  qed
  show "year_of_days n < b"
  proof (rule ccontr)
    assume "\<not> year_of_days n < b"
    then have "days_before_year b \<le> days_before_year (year_of_days n)" by (intro days_before_year_mono) simp
    then show False using y assms by simp
  qed
qed

text \<open>Making a broken-down time of a number of seconds and counting its seconds gives the number back.\<close>

lemma tm_seconds_gmtime:
  assumes "gmtime t = Some tm"
  shows "tm_seconds tm = t"
proof -
  obtain y m d where c: "civil (t div 86400 + EPOCH_DAYS) = (y, m, d)" by (metis prod_cases3)
  note ci = civil_inverse [OF c]
  have tm: "tm_sec tm = t mod 86400 mod 60" "tm_min tm = t mod 86400 div 60 mod 60" "tm_hour tm = t mod 86400 div 3600"
    "tm_mday tm = d" "tm_mon tm = m" "tm_year tm + 1900 = y"
    using assms by (auto simp: gmtime_def c Let_def int32_def split: if_splits)
  have "day_number y m d = t div 86400" using ci(1-3) by (simp add: day_number_def EPOCH_DAYS_def)
  then have "tm_seconds tm = ((t div 86400 * 24 + t mod 86400 div 3600) * 60 + t mod 86400 div 60 mod 60) * 60 + t mod 86400 mod 60"
    by (simp add: tm_seconds_def tm)
  also have "\<dots> = t"
  proof -
    define s where "s = t mod 86400"
    have "s div 60 div 60 = s div 3600" by (simp add: zdiv_zmult2_eq [symmetric])
    then have "s = (s div 3600 * 60 + s div 60 mod 60) * 60 + s mod 60"
      using div_mult_mod_eq [of "s div 60" 60] div_mult_mod_eq [of s 60] by simp
    moreover have "t = t div 86400 * 86400 + s" by (simp add: s_def)
    ultimately show ?thesis by (simp flip: s_def)
  qed
  finally show ?thesis .
qed

section \<open>The time of the day\<close>

lemma dyadic_sub:
  assumes "\<bar>a - b * 2 ^ 24\<bar> < 2 ^ 53" and "\<bar>b\<bar> < 2 ^ 53"
  shows "d_sub (Fin (of_int a / 2 ^ 24)) (d_int b) = Fin (of_int (a - b * 2 ^ 24) / 2 ^ 24)"
proof -
  have "d_sub (Fin (of_int a / 2 ^ 24)) (d_int b) = double_of_rat (of_int (a - b * 2 ^ 24) / 2 ^ 24)"
    by (simp add: d_int_exact [OF assms(2)] d_sub_Fin diff_divide_distrib)
  then show ?thesis using dyadic_double [OF assms(1), of 24] by simp
qed

lemma exact_quotient:
  assumes T: "0 \<le> T" "T < 2048 * D * 2 ^ 24" and D: "0 < D" "D \<le> 4096"
  shows "d_to_int 32 (d_div (Fin (of_int T / 2 ^ 24)) (d_int D)) = Some (T div (D * 2 ^ 24))"
proof -
  define j where "j = T div (D * 2 ^ 24)"
  define t where "t = T mod (D * 2 ^ 24)"
  have P: "0 < D * 2 ^ 24" using D by simp
  have Tj: "T = j * (D * 2 ^ 24) + t" "0 \<le> t" "t < D * 2 ^ 24" 
    using P div_mult_mod_eq [of T "D * 2 ^ 24"] unfolding j_def t_def by (simp_all only: pos_mod_sign pos_mod_bound)
  have j: "0 \<le> j" "j < 2048"
  proof -
    show "0 \<le> j" using T P by (simp add: j_def pos_imp_zdiv_nonneg_iff)
    have "j * (D * 2 ^ 24) < 2048 * (D * 2 ^ 24)" using T Tj by (simp only: mult.assoc)
    then show "j < 2048" using P by (simp only: mult_less_cancel_right_pos)
  qed
  have Di: "d_int D = Fin (of_int D)" using D by (intro d_int_exact) simp
  have R: "(0 :: rat) < of_int D" "(of_int D :: rat) \<le> 4096"
  proof -
    have "(of_int D :: rat) \<le> of_int 4096" using D(2) by (simp only: of_int_le_iff)
    then show "(0 :: rat) < of_int D" "(of_int D :: rat) \<le> 4096" using D(1) by simp_all
  qed
  define x where "x = of_int T / 2 ^ 24 / (of_int D :: rat)"
  have x: "x = of_int j + of_int t / (2 ^ 24 * of_int D)" using R by (simp add: x_def Tj(1) field_simps)
  have dv: "d_div (Fin (of_int T / 2 ^ 24)) (d_int D) = double_of_rat x"
    unfolding Di x_def using T R by (intro d_div_Fin) simp_all
  have jr: "(of_int j :: rat) \<le> of_int 2048" "(0 :: rat) \<le> of_int j" using j by (simp_all only: of_int_le_iff of_int_0_le_iff less_imp_le)
  show ?thesis
  proof (cases "t = 0")
    case True
    then have "double_of_rat x = Fin (of_int j)" using dyadic_double [of j 0] j by (simp add: x)
    moreover have "rat_trunc (of_int j) = j" using j by (intro rat_trunc_eq) auto
    ultimately show ?thesis unfolding dv using j d_to_int_Fin [of "of_int j"] by (fold j_def) simp
  next
    case False
    define e :: rat where "e = 1 / (2 ^ 24 * of_int D)"
    have e: "1 / 2 ^ 36 \<le> e" "e > 0"
    proof -
      have "2 ^ 24 * of_int D \<le> (2 ^ 24 * 4096 :: rat)" using R by simp
      then have "1 / (2 ^ 24 * 4096) \<le> e" unfolding e_def using R by (intro divide_left_mono) simp_all
      then show "1 / 2 ^ 36 \<le> e" "e > 0" using R by (simp_all add: e_def)
    qed
    have te: "of_int t / (2 ^ 24 * of_int D) = of_int t * e" by (simp add: e_def)
    have "1 \<le> t" "t \<le> D * 2 ^ 24 - 1" using False Tj by auto
    then have "(of_int 1 :: rat) \<le> of_int t" "(of_int t :: rat) \<le> of_int (D * 2 ^ 24 - 1)" by (simp_all only: of_int_le_iff)
    then have "1 * e \<le> of_int t * e" "of_int t * e \<le> (of_int D * 2 ^ 24 - 1) * e" using e by (auto intro!: mult_right_mono)
    moreover have "(of_int D * 2 ^ 24 - 1) * e = 1 - e" using R by (simp add: e_def field_simps)
    ultimately have xb: "of_int j + e \<le> x" "x \<le> of_int j + 1 - e" unfolding x te by linarith+
    have "1 / 2 ^ 60 \<le> x" "x \<le> 2 ^ 60" using xb e jr by simp_all
    then obtain r where r: "double_of_rat x = Fin r" "\<bar>r - x\<bar> \<le> x / 2 ^ 53" by (rule rounding_error)
    have "x / 2 ^ 53 \<le> 1 / 2 ^ 40" using xb(2) e jr by simp
    also have "\<dots> < 1 / 2 ^ 36" by simp
    also have "\<dots> \<le> e" by (rule e)
    finally have "\<bar>r - x\<bar> < e" using r(2) by simp
    then have "rat_trunc r = j" using xb j by (intro rat_trunc_eq) (simp_all add: abs_less_iff)
    then show ?thesis unfolding dv r(1) using j d_to_int_Fin [of r] by (fold j_def) simp
  qed
qed

lemma whole_double: "\<bar>i\<bar> < 2 ^ 53 \<Longrightarrow> 0 \<le> i \<Longrightarrow> 0 \<le> r \<Longrightarrow> r < 1 \<Longrightarrow> d_to_int 64 (Fin (of_int i + r)) = Some i"
  using rat_trunc_eq [of i "of_int i + r"] by (simp add: d_to_int_def)

text \<open>The hour, minute, second and nanosecond of a fraction of a day, half a second after it.\<close>

lemma julian_time_eq:
  assumes k: "0 \<le> k" "k < 2 ^ 31" and T: "T = k * 675 + 2 ^ 23"
  shows "julian_time (Fin (of_int k / 2 ^ 31)) =
    Some (T div (3600 * 2 ^ 24), T mod (3600 * 2 ^ 24) div (60 * 2 ^ 24), T mod (3600 * 2 ^ 24) mod (60 * 2 ^ 24) div 2 ^ 24,
      T mod (3600 * 2 ^ 24) mod (60 * 2 ^ 24) mod 2 ^ 24 * 1953125 div 2 ^ 15)"
proof -
  have Tb: "0 \<le> T" "T < 86401 * 2 ^ 24" using k by (simp_all add: T)
  define h where "h = T div (3600 * 2 ^ 24)"
  define U where "U = T mod (3600 * 2 ^ 24)"
  define m where "m = U div (60 * 2 ^ 24)"
  define V where "V = U mod (60 * 2 ^ 24)"
  define s where "s = V div 2 ^ 24"
  define W where "W = V mod 2 ^ 24"
  define N where "N = W * 1953125 div 2 ^ 15"
  have U: "U = T - h * 3600 * 2 ^ 24" "0 \<le> U" "U < 3600 * 2 ^ 24" by (simp_all add: U_def h_def minus_mult_div_eq_mod [symmetric] ac_simps)
  have V: "V = U - m * 60 * 2 ^ 24" "0 \<le> V" "V < 60 * 2 ^ 24" by (simp_all add: V_def m_def minus_mult_div_eq_mod [symmetric] ac_simps)
  have W: "W = V - s * 2 ^ 24" "0 \<le> W" "W < 2 ^ 24" by (simp_all add: W_def s_def minus_mult_div_eq_mod [symmetric] ac_simps)
  have h: "0 \<le> h" "h \<le> 24" using Tb U by simp_all
  have m: "0 \<le> m" "m < 60" using U V by simp_all
  have s: "0 \<le> s" "s < 60" using V W by simp_all
  have N: "0 \<le> N" "N < 2 ^ 30" using W by (simp_all add: N_def)
  have total: "d_add (d_mul (Fin (of_int k / 2 ^ 31)) (d_int SECONDS_PER_DAY)) (double_of_rat (1 / 2)) = Fin (of_int T / 2 ^ 24)"
  proof -
    have "d_mul (Fin (of_int k / 2 ^ 31)) (d_int SECONDS_PER_DAY) = double_of_rat (of_int (k * 675) / 2 ^ 24)"
      using k d_int_exact [of 86400] d_mul_Fin [of "of_int k / 2 ^ 31" 86400] by (simp add: SECONDS_PER_DAY_def mult.commute del: d_mul.simps)
    also have "\<dots> = Fin (of_int (k * 675) / 2 ^ 24)" using k by (intro dyadic_double) simp_all
    finally have "d_add (d_mul (Fin (of_int k / 2 ^ 31)) (d_int SECONDS_PER_DAY)) (double_of_rat (1 / 2)) = double_of_rat (of_int T / 2 ^ 24)"
      using dyadic_double [of 1 1] by (simp add: T add_divide_distrib)
    also have "\<dots> = Fin (of_int T / 2 ^ 24)" using Tb by (intro dyadic_double) simp_all
    finally show ?thesis .
  qed
  have hour: "d_to_int 32 (d_div (Fin (of_int T / 2 ^ 24)) (d_int SECONDS_PER_HOUR)) = Some h"
    unfolding SECONDS_PER_HOUR_def h_def using Tb by (intro exact_quotient) simp_all
  have rest: "d_sub (Fin (of_int T / 2 ^ 24)) (d_int (h * SECONDS_PER_HOUR)) = Fin (of_int U / 2 ^ 24)"
    unfolding U(1) SECONDS_PER_HOUR_def using U h by (intro dyadic_sub) simp_all
  have minute: "d_to_int 32 (d_div (Fin (of_int U / 2 ^ 24)) (d_int SECONDS_PER_MINUTE)) = Some m"
    unfolding SECONDS_PER_MINUTE_def m_def using U by (intro exact_quotient) simp_all
  have whole: "d_sub (Fin (of_int U / 2 ^ 24)) (d_int (m * SECONDS_PER_MINUTE)) = Fin (of_int V / 2 ^ 24)"
    unfolding V(1) SECONDS_PER_MINUTE_def using V m by (intro dyadic_sub) simp_all
  have second: "d_to_int 32 (Fin (of_int V / 2 ^ 24)) = Some s"
  proof -
    have "d_div (Fin (of_int V / 2 ^ 24)) (d_int 1) = Fin (of_int V / 2 ^ 24)"
      using V(2,3) d_int_exact [of 1] d_div_Fin [of "of_int V / 2 ^ 24" 1] dyadic_double [of V 24] by (simp del: d_div.simps)
    then show ?thesis using exact_quotient [of V 1] V(2,3) by (simp add: s_def)
  qed
  have fraction: "d_sub (Fin (of_int V / 2 ^ 24)) (d_int s) = Fin (of_int W / 2 ^ 24)"
    unfolding W(1) using W s by (intro dyadic_sub) simp_all
  have nano: "d_to_int 64 (d_mul (Fin (of_int W / 2 ^ 24)) (double_of_rat (10 ^ 9))) = Some N"
  proof -
    have "d_mul (Fin (of_int W / 2 ^ 24)) (double_of_rat (10 ^ 9)) = double_of_rat (of_int (W * 1953125) / 2 ^ 15)"
      using W(2,3) dyadic_double [of "10 ^ 9" 0] d_mul_Fin [of "of_int W / 2 ^ 24" "10 ^ 9"] by (simp add: mult.commute del: d_mul.simps)
    also have "\<dots> = Fin (of_int (W * 1953125) / 2 ^ 15)" using W by (intro dyadic_double) simp_all
    also have "of_int (W * 1953125) / 2 ^ 15 = (of_int N + of_int (W * 1953125 mod 2 ^ 15) / 2 ^ 15 :: rat)"
    proof -
      have "W * 1953125 = N * 2 ^ 15 + W * 1953125 mod 2 ^ 15" unfolding N_def by (rule div_mult_mod_eq [symmetric])
      then have "of_int (W * 1953125) = (of_int (N * 2 ^ 15 + W * 1953125 mod 2 ^ 15) :: rat)" by (rule arg_cong)
      then show ?thesis by (simp add: field_simps)
    qed
    also have "d_to_int 64 (Fin \<dots>) = Some N"
    proof (rule whole_double)
      have "(of_int (W * 1953125 mod 2 ^ 15) :: rat) < of_int (2 ^ 15)" by (simp only: of_int_less_iff) simp
      then show "of_int (W * 1953125 mod 2 ^ 15) / 2 ^ 15 < (1 :: rat)" by simp
    qed (use N in simp_all)
    finally show ?thesis .
  qed
  have again: "d_to_int 64 (d_add (d_int N) (double_of_rat (1 / 2))) = Some N"
  proof -
    have "d_add (d_int N) (double_of_rat (1 / 2)) = double_of_rat (of_int (2 * N + 1) / 2 ^ 1)"
      using N d_int_exact [of N] dyadic_double [of 1 1] by (simp add: add_divide_distrib)
    also have "\<dots> = Fin (of_int N + 1 / 2)" using N dyadic_double [of "2 * N + 1" 1] by (simp add: add_divide_distrib)
    finally show ?thesis using N by (simp only:) (intro whole_double, simp_all)
  qed
  show ?thesis
    unfolding julian_time_def Let_def total hour bind.bind_lunit rest minute whole second fraction nano again
    unfolding h_def m_def s_def N_def W_def V_def U_def by (rule refl)
qed

lemma parts_of_day:
  fixes T :: int
  shows "T div (3600 * 2 ^ 24) * 3600 + T mod (3600 * 2 ^ 24) div (60 * 2 ^ 24) * 60 + T mod (3600 * 2 ^ 24) mod (60 * 2 ^ 24) div 2 ^ 24 = T div 2 ^ 24"
    "T mod (3600 * 2 ^ 24) mod (60 * 2 ^ 24) mod 2 ^ 24 = T mod 2 ^ 24"
proof -
  show w: "T mod (3600 * 2 ^ 24) mod (60 * 2 ^ 24) mod 2 ^ 24 = T mod 2 ^ 24" by (subst mod_mod_cancel, simp)+ simp
  have sum: "T = h * (3600 * 2 ^ 24) + (m * (60 * 2 ^ 24) + (s * 2 ^ 24 + v)) \<Longrightarrow> T = t * 2 ^ 24 + v \<Longrightarrow> h * 3600 + m * 60 + s = t" for h m s v t :: int
    by simp
  have "T = T div (3600 * 2 ^ 24) * (3600 * 2 ^ 24) + (T mod (3600 * 2 ^ 24) div (60 * 2 ^ 24) * (60 * 2 ^ 24) +
    (T mod (3600 * 2 ^ 24) mod (60 * 2 ^ 24) div 2 ^ 24 * 2 ^ 24 + T mod (3600 * 2 ^ 24) mod (60 * 2 ^ 24) mod 2 ^ 24))"
    by (simp only: div_mult_mod_eq)
  moreover have "T = T div 2 ^ 24 * 2 ^ 24 + T mod 2 ^ 24" by (simp only: div_mult_mod_eq)
  ultimately show "T div (3600 * 2 ^ 24) * 3600 + T mod (3600 * 2 ^ 24) div (60 * 2 ^ 24) * 60 + T mod (3600 * 2 ^ 24) mod (60 * 2 ^ 24) div 2 ^ 24 = T div 2 ^ 24"
    unfolding w by (rule sum)
qed

section \<open>The instant\<close>

text \<open>The seconds by which a date in January or February is too early: two years.\<close>

definition early_seconds :: "int \<times> int \<times> int \<Rightarrow> int" where
  "early_seconds = (\<lambda>(y, m, d). if m < 2 then 86400 * (days_before_year y - days_before_year (y - 2)) else 0)"

lemma julian_to_tm_eq:
  assumes n: "2299161 \<le> n" "n < 2488128" and k: "0 \<le> k" "k < 2 ^ 31" and T: "T = k * 675 + 2 ^ 23"
  obtains tm where "julian_to_tm (Fin (of_int (n * 2 ^ 31 + k - 2 ^ 30) / 2 ^ 31)) = Some (tm, T mod 2 ^ 24 * 1953125 div 2 ^ 15)"
    "tm_seconds tm = (n - 2440588) * 86400 + T div 2 ^ 24 - early_seconds (civil (n - 1721426))"
proof -
  obtain y m d where c: "civil (n - 1721426) = (y, m, d)" by (metis prod_cases3)
  note ci = civil_inverse [OF c]
  define K where "K = n * 2 ^ 31 + k - 2 ^ 30"
  define x where "x = Fin (of_int K / 2 ^ 31)"
  have shift: "d_add x (double_of_rat (1 / 2)) = Fin (of_int n + of_int k / 2 ^ 31)"
  proof -
    have "d_add x (double_of_rat (1 / 2)) = double_of_rat (of_int (n * 2 ^ 31 + k) / 2 ^ 31)"
      using dyadic_double [of 1 1] by (simp add: x_def K_def add_divide_distrib diff_divide_distrib)
    also have "\<dots> = Fin (of_int (n * 2 ^ 31 + k) / 2 ^ 31)" using n k by (intro dyadic_double) simp_all
    also have "of_int (n * 2 ^ 31 + k) / 2 ^ 31 = (of_int n + of_int k / 2 ^ 31 :: rat)" by (simp add: add_divide_distrib)
    finally show ?thesis .
  qed
  have kr: "0 \<le> of_int k / (2 ^ 31 :: rat)" "of_int k / (2 ^ 31 :: rat) < 1"
  proof -
    have "(of_int k :: rat) < of_int (2 ^ 31)" using k(2) by (simp only: of_int_less_iff)
    then show "0 \<le> of_int k / (2 ^ 31 :: rat)" "of_int k / (2 ^ 31 :: rat) < 1" using k(1) by simp_all
  qed
  have "rat_trunc (of_int n + of_int k / 2 ^ 31) = n" using n kr by (intro rat_trunc_eq) simp_all
  then have day: "d_to_int 32 (Fin (of_int n + of_int k / 2 ^ 31)) = Some n" using n by (subst d_to_int_Fin) simp_all
  have part: "d_sub (Fin (of_int n + of_int k / 2 ^ 31)) (d_int n) = Fin (of_int k / 2 ^ 31)"
    using n k d_int_exact [of n] dyadic_double [of k 31] by (simp add: d_sub_Fin)
  have date: "julian_date (n + gregorian_shift n) (Fin (of_int k / 2 ^ 31)) = Some (early (y, m, d))"
  proof -
    have "1000000 \<le> n + gregorian_shift n" "n + gregorian_shift n < 5000000" using n by (simp_all add: gregorian_shift_def)
    then show ?thesis using julian_date_eq k gregorian_date [OF n] c by simp
  qed
  define tm where "tm = \<lparr>tm_sec = T mod (3600 * 2 ^ 24) mod (60 * 2 ^ 24) div 2 ^ 24, tm_min = T mod (3600 * 2 ^ 24) div (60 * 2 ^ 24),
    tm_hour = T div (3600 * 2 ^ 24), tm_mday = d, tm_mon = m, tm_year = (if m < 2 then y - 2 else y) - 1900\<rparr>"
  have "julian_to_tm x = Some (tm, T mod 2 ^ 24 * 1953125 div 2 ^ 15)"
    by (simp add: julian_to_tm_def shift day part jd_adjusted_eq [OF n] date early_def julian_time_eq [OF k T] parts_of_day(2) tm_def Let_def
        del: d_add.simps power_numeral)
  moreover have "tm_seconds tm = (n - 2440588) * 86400 + T div 2 ^ 24 - early_seconds (civil (n - 1721426))"
  proof -
    have dn: "day_number (if m < 2 then y - 2 else y) m d * 86400 = (n - 2440588) * 86400 - early_seconds (y, m, d)"
    proof (cases "m < 2")
      case True
      then have "m = 0 \<or> m = 1" using ci(2) by linarith
      then have "days_before_month (y - 2) m = days_before_month y m" by (auto simp: days_before_month_def month_lengths_def)
      then show ?thesis using True ci(1-3) by (simp add: day_number_def EPOCH_DAYS_def early_seconds_def)
    next
      case False
      then show ?thesis using ci(1-3) by (simp add: day_number_def EPOCH_DAYS_def early_seconds_def)
    qed
    then show ?thesis using parts_of_day(1) [of T] by (simp add: tm_seconds_def tm_def c algebra_simps)
  qed
  ultimately show ?thesis by (rule that [folded K_def x_def])
qed

lemma early_seconds_bounds: "0 \<le> early_seconds c \<and> early_seconds c \<le> 86400 * 732"
proof -
  have "0 \<le> days_before_year y - days_before_year (y - 2) \<and> days_before_year y - days_before_year (y - 2) \<le> 732" for y
    using days_before_year_step [of "y - 1"] days_before_year_step [of "y - 2"] by simp
  then have "0 \<le> 86400 * (days_before_year y - days_before_year (y - 2)) \<and> 86400 * (days_before_year y - days_before_year (y - 2)) \<le> 86400 * 732" for y
    by (metis mult_left_mono mult_nonneg_nonneg zero_le_numeral)
  then show ?thesis by (auto simp only: early_seconds_def split: prod.splits if_splits)
qed

lemma gmtime_defined:
  assumes "- (10 ^ 11) \<le> t" and "t \<le> 10 ^ 11"
  obtains tm where "gmtime t = Some tm"
proof -
  obtain y m d where c: "civil (t div 86400 + EPOCH_DAYS) = (y, m, d)" by (metis prod_cases3)
  have "days_before_year (- 2000) \<le> t div 86400 + EPOCH_DAYS" "t div 86400 + EPOCH_DAYS < days_before_year 6000"
    using assms by (simp_all add: days_before_year_def EPOCH_DAYS_def)
  then have "- 2000 \<le> y" "y < 6000" unfolding civil_inverse(6) [OF c] by (rule year_of_days_range)+
  then show ?thesis using that by (simp add: gmtime_def c int32_def Let_def)
qed

text \<open>C31. A Julian date from the start of the Gregorian calendar to the end of February 2100, the double nearest to the
  number written (a multiple of two to the minus 31, as every double of that size is), is parsed without failure: the
  time is the number of seconds from the epoch to the instant half a second after it, less two years when that day is in
  January or February; the nanoseconds are the fraction of that half second; and the broken-down time is the
  calendar's for the stored seconds.\<close>

theorem jd_instant:
  assumes "tim_value time = Some s" and "c_strtod (te_point env) s = Fin q" and "q = of_int K / 2 ^ 31"
    and "22991605 / 10 \<le> q" and "q < 24881275 / 10"
    and "x = (q - 24405875 / 10) * 86400 + 1 / 2"
    and "sec = \<lfloor>x\<rfloor> - early_seconds (civil \<lfloor>q - 17214255 / 10\<rfloor>)" and "nsec = \<lfloor>(x - of_int \<lfloor>x\<rfloor>) * 10 ^ 9\<rfloor>"
  shows "\<exists>tm. gmtime sec = Some tm \<and> asdf_time_parse_jd env h time = Some (True, set_info time sec nsec tm, h)"
proof -
  define n where "n = (K + 2 ^ 30) div 2 ^ 31"
  define k where "k = (K + 2 ^ 30) mod 2 ^ 31"
  define T where "T = k * 675 + 2 ^ 23"
  have K: "K = n * 2 ^ 31 + k - 2 ^ 30" unfolding n_def k_def using div_mult_mod_eq [of "K + 2 ^ 30" "2 ^ 31"] by simp
  have k: "0 \<le> k" "k < 2 ^ 31" by (simp_all add: k_def)
  have qn: "q = of_int n + of_int k / 2 ^ 31 - 1 / 2" by (simp add: assms(3) K add_divide_distrib diff_divide_distrib)
  have kr: "0 \<le> of_int k / (2 ^ 31 :: rat)" "of_int k / (2 ^ 31 :: rat) < 1"
  proof -
    have "(of_int k :: rat) < of_int (2 ^ 31)" using k(2) by (simp only: of_int_less_iff)
    then show "0 \<le> of_int k / (2 ^ 31 :: rat)" "of_int k / (2 ^ 31 :: rat) < 1" using k(1) by simp_all
  qed
  have n: "2299161 \<le> n" "n < 2488128"
  proof -
    have "(of_int 2299161 :: rat) < of_int (n + 1)" "(of_int n :: rat) < of_int 2488128" using assms(4,5) kr by (simp_all add: qn)
    then show "2299161 \<le> n" "n < 2488128" unfolding of_int_less_iff by simp_all
  qed
  have xT: "x = of_int ((n - 2440588) * 86400) + of_int T / 2 ^ 24" by (simp add: assms(6) qn T_def add_divide_distrib algebra_simps)
  have fl: "\<lfloor>of_int T / 2 ^ 24 :: rat\<rfloor> = T div 2 ^ 24" using floor_divide_of_int_eq [of T "2 ^ 24", where ?'a = rat] by simp
  have fx: "\<lfloor>x\<rfloor> = (n - 2440588) * 86400 + T div 2 ^ 24" unfolding xT by (simp only: add.commute [of "of_int ((n - 2440588) * 86400)"] floor_add_int [symmetric] fl add.commute)
  have day: "\<lfloor>q - 17214255 / 10\<rfloor> = n - 1721426" using kr by (intro floor_unique) (simp_all add: qn)
  have nsec: "nsec = T mod 2 ^ 24 * 1953125 div 2 ^ 15"
  proof -
    have "of_int T / 2 ^ 24 = (of_int (T div 2 ^ 24) + of_int (T mod 2 ^ 24) / 2 ^ 24 :: rat)"
    proof -
      have "(of_int T :: rat) = of_int (T div 2 ^ 24 * 2 ^ 24 + T mod 2 ^ 24)" by (simp only: div_mult_mod_eq)
      also have "\<dots> = of_int (T div 2 ^ 24) * 2 ^ 24 + of_int (T mod 2 ^ 24)" by (simp only: of_int_add of_int_mult of_int_power of_int_numeral)
      finally show ?thesis by (simp add: add_divide_distrib)
    qed
    then have "x - of_int \<lfloor>x\<rfloor> = of_int (T mod 2 ^ 24) / 2 ^ 24" unfolding fx unfolding xT by (simp only: of_int_add)
    then have "(x - of_int \<lfloor>x\<rfloor>) * 10 ^ 9 = of_int (T mod 2 ^ 24 * 1953125) / of_int (2 ^ 15)" by simp
    then show ?thesis unfolding assms(8) by (simp only: floor_divide_of_int_eq)
  qed
  have sec: "sec = (n - 2440588) * 86400 + T div 2 ^ 24 - early_seconds (civil (n - 1721426))" unfolding assms(7) fx day ..
  obtain tm where tm: "julian_to_tm (Fin q) = Some (tm, nsec)" "tm_seconds tm = sec"
    unfolding nsec sec assms(3) K by (rule julian_to_tm_eq [OF n k T_def])
  have Tb: "0 \<le> T div 2 ^ 24" "T div 2 ^ 24 \<le> 86400" using k by (simp_all add: T_def)
  have "- (10 ^ 11) \<le> sec" "sec \<le> 10 ^ 11"
  proof -
    have "- (10 ^ 11) \<le> (n - 2440588) * 86400 + t - e \<and> (n - 2440588) * 86400 + t - e \<le> 10 ^ 11"
      if "0 \<le> t \<and> t \<le> 86400" "0 \<le> e \<and> e \<le> 86400 * 732" for t e
      using that n by simp
    then show "- (10 ^ 11) \<le> sec" "sec \<le> 10 ^ 11" unfolding sec using Tb early_seconds_bounds by blast+
  qed
  then obtain utc where "gmtime sec = Some utc" by (rule gmtime_defined)
  then show ?thesis using tm assms(1,2) by (simp add: asdf_time_parse_jd_def parse_julian_def timegm_def)
qed

definition unread_time :: "string \<Rightarrow> asdf_time_format \<Rightarrow> asdf_time" where
  "unread_time s format = \<lparr>tim_value = Some (bytes_of s), tim_info = \<lparr>ts_sec = 0, ts_nsec = 0, info_tm = zero_tm\<rparr>,
     tim_format = format, tim_scale = ASDF_TIME_SCALE_UTC, tim_location = (Fin 0, Fin 0, Fin 0)\<rparr>"

definition c_locale :: time_env where
  "c_locale = \<lparr>te_point = [46], te_localtime = \<lambda>_. None, te_regexes = \<lambda>_. None\<rparr>"

lemma read_jd_2000: "c_strtod [46] (bytes_of ''2451545'') = Fin 2451545"
proof -
  have d: "double_of False 2451545 = Fin 2451545" using dyadic_double [of 2451545 0] by (simp add: double_of_rat_def)
  have b: "bytes_of ''2451545'' = [50, 52, 53, 49, 53, 52, 53]" by (simp add: bytes_of_def)
  have s: "skip_whitespace [50, 52, 53, 49, 53, 52, 53] = [50, 52, 53, 49, 53, 52, 53]" by code_simp
  have t: "takeWhile is_digit [50, 52, 53, 49, 53, 52, 53] = [50, 52, 53, 49, 53, 52, 53]" "dropWhile is_digit [50, 52, 53, 49, 53, 52, 53] = []"
    by code_simp+
  have v: "radix_val 10 [50, 52, 53, 49, 53, 52, 53] = 2451545" by (simp add: radix_val_def digit_val_def is_digit_def)
  have k: "skip_sign [50, 52, 53, 49, 53, 52, 53] = [50, 52, 53, 49, 53, 52, 53]" by code_simp
  have c: "bytes_of ''inf'' = [105, 110, 102]" "bytes_of ''nan'' = [110, 97, 110]" "bytes_of ''0x'' = [48, 120]" by (simp_all add: bytes_of_def)
  have "strtod [46] [50, 52, 53, 49, 53, 52, 53] = (Fin 2451545, False)"
    unfolding strtod_def k t Let_def by (simp add: v d strtod_exp_def is_digit_def)
  then show ?thesis unfolding b c_strtod_def s k c by (simp add: k lower_def Let_def)
qed

text \<open>Noon of the first of January 2000 becomes noon of the first of January 1998 and half a second.\<close>

lemma jd_instant_witness:
  "\<exists>tm. gmtime 883656000 = Some tm \<and> asdf_time_parse_jd c_locale [] (unread_time ''2451545'' ASDF_TIME_FORMAT_JD) =
     Some (True, set_info (unread_time ''2451545'' ASDF_TIME_FORMAT_JD) 883656000 500000000 tm, [])"
proof (rule jd_instant)
  show "tim_value (unread_time ''2451545'' ASDF_TIME_FORMAT_JD) = Some (bytes_of ''2451545'')" by (simp add: unread_time_def)
  show "c_strtod (te_point c_locale) (bytes_of ''2451545'') = Fin 2451545" by (simp add: c_locale_def read_jd_2000)
  show "(883656000 :: int) = \<lfloor>(2451545 - 24405875 / 10 :: rat) * 86400 + 1 / 2\<rfloor> - early_seconds (civil \<lfloor>2451545 - 17214255 / 10 :: rat\<rfloor>)"
    by code_simp
  show "(500000000 :: int) = \<lfloor>((2451545 - 24405875 / 10 :: rat) * 86400 + 1 / 2 - of_int \<lfloor>(2451545 - 24405875 / 10 :: rat) * 86400 + 1 / 2\<rfloor>) * 10 ^ 9\<rfloor>"
    by code_simp
  show "(2451545 :: rat) = of_int (2451545 * 2 ^ 31) / 2 ^ 31" by simp
qed simp_all

end
