(* ===== verification/Asdf_Tree.thy ===== *)
theory Asdf_Tree
  imports Asdf_Node Asdf_Float_Text Asdf_Yaml_Path
begin

text \<open>
  Changing the tree: the setters of mappings and sequences, the creation of typed values, and the insertion of a
  node at a path (\<^verbatim>\<open>src/value.c\<close>). The document of libfyaml is a state \<open>'s\<close>, and what libfyaml does with it is a
  record of functions: every operation that can change the document returns the new one. A pair of a mapping is
  given by the node of its key. The document of a file may be missing; \<open>to_document\<close> is \<^verbatim>\<open>asdf_file_tree_document\<close>,
  which builds it when it is first asked for, and \<open>to_tag_normalize\<close> is \<^verbatim>\<open>asdf_file_tag_normalize\<close>. Nodes are
  looked up by a path with the flag of YAML paths or with the default one.
\<close>

section \<open>The document\<close>

record ('s, 'n) tree_ops =
  to_document :: "'s \<Rightarrow> bool \<times> 's"
  to_values :: "'s \<Rightarrow> 'n value_env"
  to_nodes :: "'s \<Rightarrow> 'n node_env"
  fy_node_create :: "node_request \<Rightarrow> 's \<Rightarrow> 'n option \<times> 's"
  fy_node_create_mapping :: "'s \<Rightarrow> 'n option \<times> 's"
  fy_node_create_sequence :: "'s \<Rightarrow> 'n option \<times> 's"
  fy_node_set_style :: "'n \<Rightarrow> bool \<Rightarrow> 's \<Rightarrow> 'n option \<times> 's"
  fy_node_free :: "'n option \<Rightarrow> 's \<Rightarrow> 's"
  fy_node_mapping_lookup_pair :: "'n \<Rightarrow> 'n option \<Rightarrow> 's \<Rightarrow> 'n option"
  fy_node_pair_set_value :: "'n \<Rightarrow> 'n \<Rightarrow> 'n \<Rightarrow> 's \<Rightarrow> bool \<times> 's"
  fy_node_mapping_append :: "'n \<Rightarrow> 'n option \<Rightarrow> 'n \<Rightarrow> 's \<Rightarrow> bool \<times> 's"
  fy_node_mapping_prepend :: "'n \<Rightarrow> 'n option \<Rightarrow> 'n \<Rightarrow> 's \<Rightarrow> bool \<times> 's"
  fy_node_mapping_remove_by_key :: "'n \<Rightarrow> 'n \<Rightarrow> 's \<Rightarrow> 'n option \<times> 's"
  fy_node_sequence_append :: "'n \<Rightarrow> 'n option \<Rightarrow> 's \<Rightarrow> bool \<times> 's"
  fy_node_sequence_remove :: "'n \<Rightarrow> 'n \<Rightarrow> 's \<Rightarrow> 'n option \<times> 's"
  fy_document_root :: "'s \<Rightarrow> 'n option"
  fy_document_set_root :: "'n option \<Rightarrow> 's \<Rightarrow> bool \<times> 's"
  fy_node_by_path :: "'n option \<Rightarrow> bytes \<Rightarrow> 's \<Rightarrow> 'n option"
  fy_node_by_path_default :: "'n \<Rightarrow> bytes \<Rightarrow> 's \<Rightarrow> 'n option"
  fy_node_mapping_lookup_by_string :: "'n \<Rightarrow> bytes \<Rightarrow> 's \<Rightarrow> 'n option"
  fy_node_set_tag :: "'n \<Rightarrow> bytes \<Rightarrow> 's \<Rightarrow> bool \<times> 's"
  to_tag_normalize :: "bytes \<Rightarrow> 's \<Rightarrow> bytes option \<times> 's"
  to_read_only :: "'s \<Rightarrow> bool"
  fy_node_insert :: "'n \<Rightarrow> 'n \<Rightarrow> 's \<Rightarrow> bool \<times> 's"

text \<open>Making a scalar from its text, through the request that \<^verbatim>\<open>asdf_node_of_string\<close> comes to.\<close>

definition point :: "('s, 'n) tree_ops \<Rightarrow> 's \<Rightarrow> bytes" where
  "point ops s = ve_point (to_values ops s)"

definition create_requested ::
  "('s, 'n) tree_ops \<Rightarrow> (node_request option \<times> heap) option \<Rightarrow> 's \<Rightarrow> ('n option \<times> heap \<times> 's) option" where
  "create_requested ops r s = map_option (\<lambda>(request, h).
     (case request of None \<Rightarrow> (None, h, s) | Some q \<Rightarrow> let (n, s) = fy_node_create ops q s in (n, h, s))) r"

definition string0_node :: "('s, 'n) tree_ops \<Rightarrow> heap \<Rightarrow> bytes option \<Rightarrow> 's \<Rightarrow> ('n option \<times> heap \<times> 's) option" where
  "string0_node ops h str s = create_requested ops (asdf_node_of_string0 (point ops s) h str) s"

section \<open>Containers\<close>

definition asdf_mapping_create :: "('s, 'n) tree_ops \<Rightarrow> heap \<Rightarrow> 's \<Rightarrow> 'n asdf_value option \<times> heap \<times> 's" where
  "asdf_mapping_create ops h s =
     (case to_document ops s of
        (False, s) \<Rightarrow> (None, h, s)
      | (True, s) \<Rightarrow> (case fy_node_create_mapping ops s of
            (None, s) \<Rightarrow> (None, h, s)
          | (Some n, s) \<Rightarrow> let (v, h) = asdf_value_create (to_nodes ops s) h n in (v, h, s)))"

definition asdf_sequence_create :: "('s, 'n) tree_ops \<Rightarrow> heap \<Rightarrow> 's \<Rightarrow> 'n asdf_value option \<times> heap \<times> 's" where
  "asdf_sequence_create ops h s =
     (case to_document ops s of
        (False, s) \<Rightarrow> (None, h, s)
      | (True, s) \<Rightarrow> (case fy_node_create_sequence ops s of
            (None, s) \<Rightarrow> (None, h, s)
          | (Some n, s) \<Rightarrow> let (v, h) = asdf_value_create (to_nodes ops s) h n in (v, h, s)))"

text \<open>Values of containers are their values; a null pointer stays one.\<close>

definition asdf_value_of_mapping :: "'n asdf_value option \<Rightarrow> 'n asdf_value option" where
  "asdf_value_of_mapping mapping = mapping"

definition asdf_value_of_sequence :: "'n asdf_value option \<Rightarrow> 'n asdf_value option" where
  "asdf_value_of_sequence sequence = sequence"

text \<open>Rendering a node in a style and building it again; block style is asked for with the flag. The node is
  replaced, but the style of the value stays what it was.\<close>

definition asdf_yaml_node_set_style ::
  "('s, 'n) tree_ops \<Rightarrow> 'n \<Rightarrow> asdf_yaml_node_style \<Rightarrow> 's \<Rightarrow> 'n option \<times> 's" where
  "asdf_yaml_node_set_style ops n style s = fy_node_set_style ops n (style = ASDF_YAML_NODE_STYLE_BLOCK) s"

definition asdf_value_set_style ::
  "('s, 'n) tree_ops \<Rightarrow> 'n asdf_value \<Rightarrow> asdf_yaml_node_style \<Rightarrow> 's \<Rightarrow> ('n asdf_value \<times> 's) option" where
  "asdf_value_set_style ops value style s = do {
     current_style \<leftarrow> v_style value;
     if style = current_style \<or> style = ASDF_YAML_NODE_STYLE_BLOCK \<and> current_style \<noteq> ASDF_YAML_NODE_STYLE_FLOW
     then Some (value, s)
     else
       let (_, s) = to_document ops s in
       case asdf_yaml_node_set_style ops (v_node value) style s of
         (None, s) \<Rightarrow> Some (value, s)
       | (Some node, s) \<Rightarrow> let s = fy_node_free ops (Some (v_node value)) s in Some (value\<lparr>v_node := node\<rparr>, s)
   }"

definition asdf_mapping_set_style ::
  "('s, 'n) tree_ops \<Rightarrow> 'n asdf_value \<Rightarrow> asdf_yaml_node_style \<Rightarrow> 's \<Rightarrow> ('n asdf_value \<times> 's) option" where
  "asdf_mapping_set_style = asdf_value_set_style"

definition asdf_sequence_set_style ::
  "('s, 'n) tree_ops \<Rightarrow> 'n asdf_value \<Rightarrow> asdf_yaml_node_style \<Rightarrow> 's \<Rightarrow> ('n asdf_value \<times> 's) option" where
  "asdf_sequence_set_style = asdf_value_set_style"

text \<open>An empty container is made one in flow style, as libfyaml prints nothing for it otherwise. The result is
  the node, which is null when it could not be made.\<close>

definition asdf_value_normalize_node :: "('s, 'n) tree_ops \<Rightarrow> 'n asdf_value \<Rightarrow> 's \<Rightarrow> 'n option \<times> 's" where
  "asdf_value_normalize_node ops value s =
     (let (_, s) = to_document ops s; env = to_nodes ops s; node = v_node value in
      if v_raw_type value = ASDF_VALUE_MAPPING \<and> fy_node_pairs env node = [] \<or>
         v_type value = ASDF_VALUE_SEQUENCE \<and> fy_node_items env node = []
      then
        let (n, s) = asdf_yaml_node_set_style ops node ASDF_YAML_NODE_STYLE_FLOW s in (n, fy_node_free ops (Some node) s)
      else (Some node, s))"

section \<open>Setting the keys of a mapping\<close>

text \<open>A key that is there gets the new value, any other pair is appended or prepended.\<close>

definition asdf_mapping_set_node_ex ::
  "('s, 'n) tree_ops \<Rightarrow> heap \<Rightarrow> 'n asdf_value option \<Rightarrow> bytes option \<Rightarrow> 'n option \<Rightarrow> bool \<Rightarrow> 's \<Rightarrow>
   (asdf_value_err \<times> heap \<times> 's) option" where
  "asdf_mapping_set_node_ex ops h mapping key value prepend s =
     (case (mapping, value) of
        (None, _) \<Rightarrow> Some (ASDF_VALUE_ERR_UNKNOWN, h, s)
      | (Some m, None) \<Rightarrow> Some (ASDF_VALUE_ERR_OOM, h, s)
      | (Some m, Some value) \<Rightarrow>
          let (tree, s) = to_document ops s in
          if \<not> tree then Some (ASDF_VALUE_ERR_OOM, h, s)
          else do {
            (key_node, h, s) \<leftarrow> string0_node ops h key s;
            case fy_node_mapping_lookup_pair ops (v_node m) key_node s of
              Some pair \<Rightarrow>
                let s = fy_node_free ops key_node s; (ok, s) = fy_node_pair_set_value ops (v_node m) pair value s
                in Some (if ok then ASDF_VALUE_OK else ASDF_VALUE_ERR_OOM, h, s)
            | None \<Rightarrow>
                let (ok, s) = (if prepend then fy_node_mapping_prepend ops (v_node m) key_node value s
                               else fy_node_mapping_append ops (v_node m) key_node value s)
                in Some (if ok then (ASDF_VALUE_OK, h, s) else (ASDF_VALUE_ERR_OOM, h, fy_node_free ops key_node s))
          })"

definition asdf_mapping_set_node ::
  "('s, 'n) tree_ops \<Rightarrow> heap \<Rightarrow> 'n asdf_value option \<Rightarrow> bytes option \<Rightarrow> 'n option \<Rightarrow> 's \<Rightarrow>
   (asdf_value_err \<times> heap \<times> 's) option" where
  "asdf_mapping_set_node ops h mapping key value s = asdf_mapping_set_node_ex ops h mapping key value False s"

text \<open>The setters of the scalar types differ in the node they make.\<close>

definition mapping_set_with ::
  "('s, 'n) tree_ops \<Rightarrow> heap \<Rightarrow> 'n asdf_value \<Rightarrow> bytes option \<Rightarrow>
   (bytes \<Rightarrow> heap \<Rightarrow> (node_request option \<times> heap) option) \<Rightarrow> 's \<Rightarrow> (asdf_value_err \<times> heap \<times> 's) option" where
  "mapping_set_with ops h mapping key node_of s =
     (let (tree, s) = to_document ops s in
      if \<not> tree then Some (ASDF_VALUE_ERR_OOM, h, s)
      else do {
        (n, h, s) \<leftarrow> create_requested ops (node_of (point ops s) h) s;
        asdf_mapping_set_node ops h (Some mapping) key n s
      })"

definition asdf_mapping_set_string ::
  "('s, 'n) tree_ops \<Rightarrow> heap \<Rightarrow> 'n asdf_value \<Rightarrow> bytes option \<Rightarrow> bytes \<Rightarrow> nat \<Rightarrow> 's \<Rightarrow> (asdf_value_err \<times> heap \<times> 's) option" where
  "asdf_mapping_set_string ops h mapping key str len =
     mapping_set_with ops h mapping key (\<lambda>dp h. asdf_node_of_string dp h str len)"

definition asdf_mapping_set_string0 ::
  "('s, 'n) tree_ops \<Rightarrow> heap \<Rightarrow> 'n asdf_value \<Rightarrow> bytes option \<Rightarrow> bytes option \<Rightarrow> 's \<Rightarrow> (asdf_value_err \<times> heap \<times> 's) option" where
  "asdf_mapping_set_string0 ops h mapping key str =
     mapping_set_with ops h mapping key (\<lambda>dp h. asdf_node_of_string0 dp h str)"

definition asdf_mapping_set_null ::
  "('s, 'n) tree_ops \<Rightarrow> heap \<Rightarrow> 'n asdf_value \<Rightarrow> bytes option \<Rightarrow> 's \<Rightarrow> (asdf_value_err \<times> heap \<times> 's) option" where
  "asdf_mapping_set_null ops h mapping key =
     mapping_set_with ops h mapping key (\<lambda>dp h. Some (Some asdf_node_of_null, h))"

definition asdf_mapping_set_bool ::
  "('s, 'n) tree_ops \<Rightarrow> heap \<Rightarrow> 'n asdf_value \<Rightarrow> bytes option \<Rightarrow> bool \<Rightarrow> 's \<Rightarrow> (asdf_value_err \<times> heap \<times> 's) option" where
  "asdf_mapping_set_bool ops h mapping key value =
     mapping_set_with ops h mapping key (\<lambda>dp h. Some (Some (asdf_node_of_bool value), h))"

text \<open>The eight integer setters: the width is that of the word.\<close>

definition asdf_mapping_set_signed ::
  "('s, 'n) tree_ops \<Rightarrow> heap \<Rightarrow> 'n asdf_value \<Rightarrow> bytes option \<Rightarrow> 'w::len word \<Rightarrow> 's \<Rightarrow> (asdf_value_err \<times> heap \<times> 's) option" where
  "asdf_mapping_set_signed ops h mapping key value =
     mapping_set_with ops h mapping key (\<lambda>dp h. Some (Some (asdf_node_of_signed value), h))"

definition asdf_mapping_set_unsigned ::
  "('s, 'n) tree_ops \<Rightarrow> heap \<Rightarrow> 'n asdf_value \<Rightarrow> bytes option \<Rightarrow> 'w::len word \<Rightarrow> 's \<Rightarrow> (asdf_value_err \<times> heap \<times> 's) option" where
  "asdf_mapping_set_unsigned ops h mapping key value =
     mapping_set_with ops h mapping key (\<lambda>dp h. Some (Some (asdf_node_of_unsigned value), h))"

definition asdf_mapping_set_float ::
  "('s, 'n) tree_ops \<Rightarrow> heap \<Rightarrow> 'n asdf_value \<Rightarrow> bytes option \<Rightarrow> double \<Rightarrow> 's \<Rightarrow> (asdf_value_err \<times> heap \<times> 's) option" where
  "asdf_mapping_set_float ops h mapping key value =
     mapping_set_with ops h mapping key (\<lambda>dp h. Some (Some (asdf_node_of_float dp value), h))"

definition asdf_mapping_set_double ::
  "('s, 'n) tree_ops \<Rightarrow> heap \<Rightarrow> 'n asdf_value \<Rightarrow> bytes option \<Rightarrow> double \<Rightarrow> 's \<Rightarrow> (asdf_value_err \<times> heap \<times> 's) option" where
  "asdf_mapping_set_double ops h mapping key value =
     mapping_set_with ops h mapping key (\<lambda>dp h. Some (Some (asdf_node_of_double dp value), h))"

text \<open>Setting a value consumes it; a null pointer is dereferenced.\<close>

definition asdf_mapping_set_ex ::
  "('s, 'n) tree_ops \<Rightarrow> heap \<Rightarrow> 'n asdf_value option \<Rightarrow> bytes option \<Rightarrow> 'n asdf_value option \<Rightarrow> bool \<Rightarrow> 's \<Rightarrow>
   (asdf_value_err \<times> heap \<times> 's) option" where
  "asdf_mapping_set_ex ops h mapping key value prepend s =
     Option.bind value (\<lambda>v.
       let (n, s) = asdf_value_normalize_node ops v s in asdf_mapping_set_node_ex ops h mapping key n prepend s)"

definition asdf_mapping_set ::
  "('s, 'n) tree_ops \<Rightarrow> heap \<Rightarrow> 'n asdf_value option \<Rightarrow> bytes option \<Rightarrow> 'n asdf_value option \<Rightarrow> 's \<Rightarrow>
   (asdf_value_err \<times> heap \<times> 's) option" where
  "asdf_mapping_set ops h mapping key value s = asdf_mapping_set_ex ops h mapping key value False s"

end
