(* ===== verification/Asdf_Tree_Insert.thy ===== *)
theory Asdf_Tree_Insert
  imports Asdf_Tree
begin

text \<open>
  Changing the tree, continued: updating and popping, the setters of sequences, the creation of typed values and
  the insertion of a node at a path (\<^verbatim>\<open>src/value.c\<close>).
\<close>

section \<open>Updating a mapping\<close>

text \<open>Every pair of the other mapping is set, with a deep copy of its value. The pairs to be prepended are taken
  from the last, so that they come to stand in their order.\<close>

lemma mapping_iter_next_shorter:
  "asdf_mapping_iter_next env h (Some it) = (Some it', h') \<Longrightarrow> length (mi_rest it') < length (mi_rest it)"
  by (auto simp: asdf_mapping_iter_next_def Let_def split: if_splits list.splits prod.splits option.splits)

function update_loop ::
  "('s, 'n) tree_ops \<Rightarrow> heap \<Rightarrow> 'n asdf_value \<Rightarrow> 'n mapping_iter \<Rightarrow> bool \<Rightarrow> 's \<Rightarrow> (asdf_value_err \<times> heap \<times> 's) option" where
  "update_loop ops h mapping it prepend s =
     (case asdf_mapping_iter_next (to_nodes ops s) h (Some it) of
        (None, h) \<Rightarrow> Some (ASDF_VALUE_OK, h, s)
      | (Some it, h) \<Rightarrow>
          (case asdf_value_copy_deep (to_nodes ops s) h (mi_value it) of
             (None, h) \<Rightarrow> Some (ASDF_VALUE_ERR_OOM, h, s)
           | (Some copy, h) \<Rightarrow>
               (case asdf_mapping_set_ex ops h (Some mapping) (mi_key it) (Some copy) prepend s of
                  None \<Rightarrow> None
                | Some (err, h, s) \<Rightarrow>
                    if err \<noteq> ASDF_VALUE_OK then Some (err, h, s) else update_loop ops h mapping it prepend s)))"
  by pat_completeness auto
termination
  by (relation "measure (\<lambda>(_, _, _, it, _, _). length (mi_rest it))") (auto dest: mapping_iter_next_shorter [OF sym])

declare update_loop.simps [simp del]

definition asdf_mapping_update_ex ::
  "('s, 'n) tree_ops \<Rightarrow> heap \<Rightarrow> 'n asdf_value \<Rightarrow> 'n asdf_value \<Rightarrow> bool \<Rightarrow> 's \<Rightarrow> (asdf_value_err \<times> heap \<times> 's) option" where
  "asdf_mapping_update_ex ops h mapping update prepend s =
     (case asdf_mapping_iter_init_ex (to_nodes ops s) h update prepend of
        (None, h) \<Rightarrow> Some (ASDF_VALUE_ERR_OOM, h, s)
      | (Some it, h) \<Rightarrow> update_loop ops h mapping it prepend s)"

definition asdf_mapping_update ::
  "('s, 'n) tree_ops \<Rightarrow> heap \<Rightarrow> 'n asdf_value \<Rightarrow> 'n asdf_value \<Rightarrow> 's \<Rightarrow> (asdf_value_err \<times> heap \<times> 's) option" where
  "asdf_mapping_update ops h mapping update s = asdf_mapping_update_ex ops h mapping update False s"

definition asdf_mapping_pop ::
  "('s, 'n) tree_ops \<Rightarrow> heap \<Rightarrow> 'n asdf_value option \<Rightarrow> bytes option \<Rightarrow> 's \<Rightarrow> ('n asdf_value option \<times> heap \<times> 's) option" where
  "asdf_mapping_pop ops h mapping key s =
     (case (mapping, key) of
        (Some m, Some k) \<Rightarrow>
          let (tree, s) = to_document ops s in
          if \<not> tree then Some (None, h, s)
          else do {
            (key_node, h, s) \<leftarrow> string0_node ops h (Some k) s;
            Some (case key_node of
               None \<Rightarrow> (None, h, s)
             | Some _ \<Rightarrow>
                 let pair = fy_node_mapping_lookup_pair ops (v_node m) key_node s; s = fy_node_free ops key_node s in
                 (case pair of
                    None \<Rightarrow> (None, h, s)
                  | Some p \<Rightarrow> (case fy_node_mapping_remove_by_key ops (v_node m) p s of
                        (None, s) \<Rightarrow> (None, h, s)
                      | (Some n, s) \<Rightarrow> let (v, h) = asdf_value_create (to_nodes ops s) h n in (v, h, s))))
          }
      | _ \<Rightarrow> Some (None, h, s))"

section \<open>Appending to a sequence\<close>

definition sequence_append_with ::
  "('s, 'n) tree_ops \<Rightarrow> heap \<Rightarrow> 'n asdf_value option \<Rightarrow> (bytes \<Rightarrow> heap \<Rightarrow> (node_request option \<times> heap) option) \<Rightarrow> 's \<Rightarrow>
   (asdf_value_err \<times> heap \<times> 's) option" where
  "sequence_append_with ops h sequence node_of s =
     (case sequence of
        None \<Rightarrow> Some (ASDF_VALUE_ERR_UNKNOWN, h, s)
      | Some sq \<Rightarrow>
          let (tree, s) = to_document ops s in
          if \<not> tree then Some (ASDF_VALUE_ERR_OOM, h, s)
          else do {
            (n, h, s) \<leftarrow> create_requested ops (node_of (point ops s) h) s;
            let (ok, s) = fy_node_sequence_append ops (v_node sq) n s;
            Some (if ok then ASDF_VALUE_OK else ASDF_VALUE_ERR_OOM, h, s)
          })"

definition asdf_sequence_append_string ::
  "('s, 'n) tree_ops \<Rightarrow> heap \<Rightarrow> 'n asdf_value option \<Rightarrow> bytes \<Rightarrow> nat \<Rightarrow> 's \<Rightarrow> (asdf_value_err \<times> heap \<times> 's) option" where
  "asdf_sequence_append_string ops h sequence str len =
     sequence_append_with ops h sequence (\<lambda>dp h. asdf_node_of_string dp h str len)"

definition asdf_sequence_append_string0 ::
  "('s, 'n) tree_ops \<Rightarrow> heap \<Rightarrow> 'n asdf_value option \<Rightarrow> bytes option \<Rightarrow> 's \<Rightarrow> (asdf_value_err \<times> heap \<times> 's) option" where
  "asdf_sequence_append_string0 ops h sequence str =
     sequence_append_with ops h sequence (\<lambda>dp h. asdf_node_of_string0 dp h str)"

definition asdf_sequence_append_null ::
  "('s, 'n) tree_ops \<Rightarrow> heap \<Rightarrow> 'n asdf_value option \<Rightarrow> 's \<Rightarrow> (asdf_value_err \<times> heap \<times> 's) option" where
  "asdf_sequence_append_null ops h sequence =
     sequence_append_with ops h sequence (\<lambda>dp h. Some (Some asdf_node_of_null, h))"

definition asdf_sequence_append_bool ::
  "('s, 'n) tree_ops \<Rightarrow> heap \<Rightarrow> 'n asdf_value option \<Rightarrow> bool \<Rightarrow> 's \<Rightarrow> (asdf_value_err \<times> heap \<times> 's) option" where
  "asdf_sequence_append_bool ops h sequence value =
     sequence_append_with ops h sequence (\<lambda>dp h. Some (Some (asdf_node_of_bool value), h))"

definition asdf_sequence_append_signed ::
  "('s, 'n) tree_ops \<Rightarrow> heap \<Rightarrow> 'n asdf_value option \<Rightarrow> 'w::len word \<Rightarrow> 's \<Rightarrow> (asdf_value_err \<times> heap \<times> 's) option" where
  "asdf_sequence_append_signed ops h sequence value =
     sequence_append_with ops h sequence (\<lambda>dp h. Some (Some (asdf_node_of_signed value), h))"

definition asdf_sequence_append_unsigned ::
  "('s, 'n) tree_ops \<Rightarrow> heap \<Rightarrow> 'n asdf_value option \<Rightarrow> 'w::len word \<Rightarrow> 's \<Rightarrow> (asdf_value_err \<times> heap \<times> 's) option" where
  "asdf_sequence_append_unsigned ops h sequence value =
     sequence_append_with ops h sequence (\<lambda>dp h. Some (Some (asdf_node_of_unsigned value), h))"

definition asdf_sequence_append_float ::
  "('s, 'n) tree_ops \<Rightarrow> heap \<Rightarrow> 'n asdf_value option \<Rightarrow> double \<Rightarrow> 's \<Rightarrow> (asdf_value_err \<times> heap \<times> 's) option" where
  "asdf_sequence_append_float ops h sequence value =
     sequence_append_with ops h sequence (\<lambda>dp h. Some (Some (asdf_node_of_float dp value), h))"

definition asdf_sequence_append_double ::
  "('s, 'n) tree_ops \<Rightarrow> heap \<Rightarrow> 'n asdf_value option \<Rightarrow> double \<Rightarrow> 's \<Rightarrow> (asdf_value_err \<times> heap \<times> 's) option" where
  "asdf_sequence_append_double ops h sequence value =
     sequence_append_with ops h sequence (\<lambda>dp h. Some (Some (asdf_node_of_double dp value), h))"

text \<open>A value is consumed; a null pointer is dereferenced when the function leaves.\<close>

definition asdf_sequence_append ::
  "('s, 'n) tree_ops \<Rightarrow> 'n asdf_value option \<Rightarrow> 'n asdf_value option \<Rightarrow> 's \<Rightarrow> (asdf_value_err \<times> 's) option" where
  "asdf_sequence_append ops sequence value s =
     (case (value, sequence) of
        (None, _) \<Rightarrow> None
      | (Some v, None) \<Rightarrow> Some (ASDF_VALUE_ERR_UNKNOWN, s)
      | (Some v, Some sq) \<Rightarrow>
          let (tree, s) = to_document ops s in
          if \<not> tree then Some (ASDF_VALUE_ERR_OOM, s)
          else
            let (n, s) = asdf_value_normalize_node ops v s; (ok, s) = fy_node_sequence_append ops (v_node sq) n s
            in Some (if ok then ASDF_VALUE_OK else ASDF_VALUE_ERR_OOM, s))"

definition asdf_sequence_pop ::
  "('s, 'n) tree_ops \<Rightarrow> heap \<Rightarrow> 'n asdf_value option \<Rightarrow> int \<Rightarrow> 's \<Rightarrow> 'n asdf_value option \<times> heap \<times> 's" where
  "asdf_sequence_pop ops h sequence index s =
     (case sequence of
        None \<Rightarrow> (None, h, s)
      | Some sq \<Rightarrow> (case fy_node_sequence_get_by_index (to_nodes ops s) (v_node sq) index of
            None \<Rightarrow> (None, h, s)
          | Some n \<Rightarrow> (case fy_node_sequence_remove ops (v_node sq) n s of
                (None, s) \<Rightarrow> (None, h, s)
              | (Some n, s) \<Rightarrow> let (v, h) = asdf_value_create (to_nodes ops s) h n in (v, h, s))))"

section \<open>Sequences of scalars\<close>

definition sequence_of_begin :: "('s, 'n) tree_ops \<Rightarrow> heap \<Rightarrow> 's \<Rightarrow> 'n asdf_value option \<times> heap \<times> 's" where
  "sequence_of_begin ops h s =
     (case asdf_sequence_create ops h s of
        (None, h, s) \<Rightarrow> (None, h, s)
      | (Some sq, h, s) \<Rightarrow> (case to_document ops s of
            (False, s) \<Rightarrow> (None, h, fy_node_free ops (asdf_value_destroy (to_nodes ops s) (Some sq)) s)
          | (True, s) \<Rightarrow> (Some sq, h, s)))"

text \<open>The elements in turn; when one cannot be made or appended the sequence is destroyed.\<close>

fun sequence_of_loop ::
  "('s, 'n) tree_ops \<Rightarrow> (bytes \<Rightarrow> heap \<Rightarrow> 'e \<Rightarrow> (node_request option \<times> heap) option) \<Rightarrow> 'n asdf_value \<Rightarrow> 'e list \<Rightarrow> heap \<Rightarrow> 's \<Rightarrow>
   ('n asdf_value option \<times> heap \<times> 's) option" where
  "sequence_of_loop ops node_of sq [] h s = Some (Some sq, h, s)"
| "sequence_of_loop ops node_of sq (e # es) h s =
     (case create_requested ops (node_of (point ops s) h e) s of
        None \<Rightarrow> None
      | Some (n, h, s) \<Rightarrow>
          (case (if n = None then (False, s) else fy_node_sequence_append ops (v_node sq) n s) of
             (False, s) \<Rightarrow> Some (None, h, fy_node_free ops (asdf_value_destroy (to_nodes ops s) (Some sq)) s)
           | (True, s) \<Rightarrow> sequence_of_loop ops node_of sq es h s))"

definition sequence_of_with ::
  "('s, 'n) tree_ops \<Rightarrow> (bytes \<Rightarrow> heap \<Rightarrow> 'e \<Rightarrow> (node_request option \<times> heap) option) \<Rightarrow> heap \<Rightarrow> 'e list \<Rightarrow> 's \<Rightarrow>
   ('n asdf_value option \<times> heap \<times> 's) option" where
  "sequence_of_with ops node_of h arr s =
     (case sequence_of_begin ops h s of
        (None, h, s) \<Rightarrow> Some (None, h, s)
      | (Some sq, h, s) \<Rightarrow> sequence_of_loop ops node_of sq arr h s)"

definition asdf_sequence_of_null ::
  "('s, 'n) tree_ops \<Rightarrow> heap \<Rightarrow> int \<Rightarrow> 's \<Rightarrow> ('n asdf_value option \<times> heap \<times> 's) option" where
  "asdf_sequence_of_null ops h count =
     sequence_of_with ops (\<lambda>dp h _. Some (Some asdf_node_of_null, h)) h (replicate (nat count) ())"

definition asdf_sequence_of_string ::
  "('s, 'n) tree_ops \<Rightarrow> heap \<Rightarrow> (bytes \<times> nat) list \<Rightarrow> 's \<Rightarrow> ('n asdf_value option \<times> heap \<times> 's) option" where
  "asdf_sequence_of_string ops = sequence_of_with ops (\<lambda>dp h (str, len). asdf_node_of_string dp h str len)"

definition asdf_sequence_of_string0 ::
  "('s, 'n) tree_ops \<Rightarrow> heap \<Rightarrow> bytes option list \<Rightarrow> 's \<Rightarrow> ('n asdf_value option \<times> heap \<times> 's) option" where
  "asdf_sequence_of_string0 ops = sequence_of_with ops asdf_node_of_string0"

definition asdf_sequence_of_bool ::
  "('s, 'n) tree_ops \<Rightarrow> heap \<Rightarrow> bool list \<Rightarrow> 's \<Rightarrow> ('n asdf_value option \<times> heap \<times> 's) option" where
  "asdf_sequence_of_bool ops = sequence_of_with ops (\<lambda>dp h b. Some (Some (asdf_node_of_bool b), h))"

definition asdf_sequence_of_signed ::
  "('s, 'n) tree_ops \<Rightarrow> heap \<Rightarrow> 'w::len word list \<Rightarrow> 's \<Rightarrow> ('n asdf_value option \<times> heap \<times> 's) option" where
  "asdf_sequence_of_signed ops = sequence_of_with ops (\<lambda>dp h w. Some (Some (asdf_node_of_signed w), h))"

definition asdf_sequence_of_unsigned ::
  "('s, 'n) tree_ops \<Rightarrow> heap \<Rightarrow> 'w::len word list \<Rightarrow> 's \<Rightarrow> ('n asdf_value option \<times> heap \<times> 's) option" where
  "asdf_sequence_of_unsigned ops = sequence_of_with ops (\<lambda>dp h w. Some (Some (asdf_node_of_unsigned w), h))"

definition asdf_sequence_of_float ::
  "('s, 'n) tree_ops \<Rightarrow> heap \<Rightarrow> double list \<Rightarrow> 's \<Rightarrow> ('n asdf_value option \<times> heap \<times> 's) option" where
  "asdf_sequence_of_float ops = sequence_of_with ops (\<lambda>dp h x. Some (Some (asdf_node_of_float dp x), h))"

definition asdf_sequence_of_double ::
  "('s, 'n) tree_ops \<Rightarrow> heap \<Rightarrow> double list \<Rightarrow> 's \<Rightarrow> ('n asdf_value option \<times> heap \<times> 's) option" where
  "asdf_sequence_of_double ops = sequence_of_with ops (\<lambda>dp h x. Some (Some (asdf_node_of_double dp x), h))"

section \<open>Values of scalars\<close>

text \<open>The file may be a null pointer. The kind of the value made, raw and inferred, is the type asked for.\<close>

definition value_of_with ::
  "('s, 'n) tree_ops \<Rightarrow> heap \<Rightarrow> bool \<Rightarrow> (bytes \<Rightarrow> heap \<Rightarrow> (node_request option \<times> heap) option) \<Rightarrow> asdf_value_type \<Rightarrow>
   value_scalar \<Rightarrow> 's \<Rightarrow> ('n asdf_value option \<times> heap \<times> 's) option" where
  "value_of_with ops h file node_of t sc s =
     (if \<not> file then Some (None, h, s)
      else
        let (_, s) = to_document ops s in do {
          (n, h, s) \<leftarrow> create_requested ops (node_of (point ops s) h) s;
          Some (case n of
              None \<Rightarrow> (None, h, s)
            | Some n \<Rightarrow>
                let (v, h) = asdf_value_create (to_nodes ops s) h n
                in (map_option (\<lambda>v. v\<lparr>v_type := t, v_raw_type := t, v_scalar := sc\<rparr>) v, h, s))
        })"

definition asdf_value_of_string ::
  "('s, 'n) tree_ops \<Rightarrow> heap \<Rightarrow> bool \<Rightarrow> bytes \<Rightarrow> nat \<Rightarrow> 's \<Rightarrow> ('n asdf_value option \<times> heap \<times> 's) option" where
  "asdf_value_of_string ops h file value len =
     value_of_with ops h file (\<lambda>dp h. asdf_node_of_string dp h value len) ASDF_VALUE_STRING (Word 0)"

definition asdf_value_of_string0 ::
  "('s, 'n) tree_ops \<Rightarrow> heap \<Rightarrow> bool \<Rightarrow> bytes option \<Rightarrow> 's \<Rightarrow> ('n asdf_value option \<times> heap \<times> 's) option" where
  "asdf_value_of_string0 ops h file value =
     value_of_with ops h file (\<lambda>dp h. asdf_node_of_string0 dp h value) ASDF_VALUE_STRING (Word 0)"

definition asdf_value_of_null ::
  "('s, 'n) tree_ops \<Rightarrow> heap \<Rightarrow> bool \<Rightarrow> 's \<Rightarrow> ('n asdf_value option \<times> heap \<times> 's) option" where
  "asdf_value_of_null ops h file =
     value_of_with ops h file (\<lambda>dp h. Some (Some asdf_node_of_null, h)) ASDF_VALUE_NULL (Word 0)"

definition asdf_value_of_bool ::
  "('s, 'n) tree_ops \<Rightarrow> heap \<Rightarrow> bool \<Rightarrow> bool \<Rightarrow> 's \<Rightarrow> ('n asdf_value option \<times> heap \<times> 's) option" where
  "asdf_value_of_bool ops h file value =
     value_of_with ops h file (\<lambda>dp h. Some (Some (asdf_node_of_bool value), h)) ASDF_VALUE_BOOL (Boolean value)"

text \<open>The eight integer types: the width of the word gives the type.\<close>

definition int_value_type :: "bool \<Rightarrow> nat \<Rightarrow> asdf_value_type" where
  "int_value_type below width =
     (if width \<le> 8 then if below then ASDF_VALUE_INT8 else ASDF_VALUE_UINT8
      else if width \<le> 16 then if below then ASDF_VALUE_INT16 else ASDF_VALUE_UINT16
      else if width \<le> 32 then if below then ASDF_VALUE_INT32 else ASDF_VALUE_UINT32
      else if below then ASDF_VALUE_INT64 else ASDF_VALUE_UINT64)"

definition asdf_value_of_signed ::
  "('s, 'n) tree_ops \<Rightarrow> heap \<Rightarrow> bool \<Rightarrow> 'w::len word \<Rightarrow> 's \<Rightarrow> ('n asdf_value option \<times> heap \<times> 's) option" where
  "asdf_value_of_signed ops h file value =
     value_of_with ops h file (\<lambda>dp h. Some (Some (asdf_node_of_signed value), h))
       (int_value_type True LENGTH('w)) (Word (scast value))"

definition asdf_value_of_unsigned ::
  "('s, 'n) tree_ops \<Rightarrow> heap \<Rightarrow> bool \<Rightarrow> 'w::len word \<Rightarrow> 's \<Rightarrow> ('n asdf_value option \<times> heap \<times> 's) option" where
  "asdf_value_of_unsigned ops h file value =
     value_of_with ops h file (\<lambda>dp h. Some (Some (asdf_node_of_unsigned value), h))
       (int_value_type False LENGTH('w)) (Word (ucast value))"

definition asdf_value_of_float ::
  "('s, 'n) tree_ops \<Rightarrow> heap \<Rightarrow> bool \<Rightarrow> double \<Rightarrow> 's \<Rightarrow> ('n asdf_value option \<times> heap \<times> 's) option" where
  "asdf_value_of_float ops h file value =
     value_of_with ops h file (\<lambda>dp h. Some (Some (asdf_node_of_float dp value), h)) ASDF_VALUE_FLOAT (Dbl value)"

definition asdf_value_of_double ::
  "('s, 'n) tree_ops \<Rightarrow> heap \<Rightarrow> bool \<Rightarrow> double \<Rightarrow> 's \<Rightarrow> ('n asdf_value option \<times> heap \<times> 's) option" where
  "asdf_value_of_double ops h file value =
     value_of_with ops h file (\<lambda>dp h. Some (Some (asdf_node_of_double dp value), h)) ASDF_VALUE_DOUBLE (Dbl value)"

text \<open>A scalar with a text of its own: its type is inferred when it is asked for.\<close>

definition asdf_value_of_plain_scalar ::
  "('s, 'n) tree_ops \<Rightarrow> heap \<Rightarrow> bool \<Rightarrow> bytes option \<Rightarrow> 's \<Rightarrow> 'n asdf_value option \<times> heap \<times> 's" where
  "asdf_value_of_plain_scalar ops h file str s =
     (case (file, str) of
        (True, Some t) \<Rightarrow>
          (case to_document ops s of
             (False, s) \<Rightarrow> (None, h, s)
           | (True, s) \<Rightarrow> (case fy_node_create ops (Create_scalar (c_text t)) s of
                 (None, s) \<Rightarrow> (None, h, s)
               | (Some n, s) \<Rightarrow> let (v, h) = asdf_value_create (to_nodes ops s) h n in (v, h, s)))
      | _ \<Rightarrow> (None, h, s))"

end
