(* ===== verification/Asdf_Property.thy ===== *)
theory Asdf_Property
  imports Asdf_Node Asdf_Yaml_Path
begin

text \<open>
  Reading typed values: the getter for a type given as an argument (\<^verbatim>\<open>src/value.c\<close>), the registry of
  extensions (\<^verbatim>\<open>src/extension_registry.c\<close>), values of an extension, and the properties of a mapping
  (\<^verbatim>\<open>src/extension_util.c\<close>). An extension is an address, and what is registered there is an argument. The
  object that an extension makes of a value has the type \<open>'o\<close>.
\<close>

section \<open>Null-terminated texts\<close>

definition asdf_value_as_string0 ::
  "'n value_env \<Rightarrow> 'n node_env \<Rightarrow> heap \<Rightarrow> 'n asdf_value option \<Rightarrow>
   (asdf_value_err \<times> bytes option option \<times> 'n asdf_value option \<times> heap) option" where
  "asdf_value_as_string0 ve ne h value =
     map_option (\<lambda>(err, value, h).
         (case value of
            Some v \<Rightarrow>
              if err \<noteq> ASDF_VALUE_OK then (err, None, value, h)
              else if v_type v \<noteq> ASDF_VALUE_STRING then (ASDF_VALUE_ERR_TYPE_MISMATCH, None, value, h)
              else (ASDF_VALUE_OK, Some (fy_node_get_scalar0 ne (v_node v)), value, h)
          | None \<Rightarrow> (err, None, None, h)))
       (asdf_value_infer_scalar_type ve h value)"

definition asdf_value_as_scalar0 ::
  "'n node_env \<Rightarrow> 'n asdf_value option \<Rightarrow> asdf_value_err \<times> bytes option option" where
  "asdf_value_as_scalar0 ne value =
     (case value of
        None \<Rightarrow> (ASDF_VALUE_ERR_UNKNOWN, None)
      | Some v \<Rightarrow>
          if v_type v = ASDF_VALUE_MAPPING \<or> v_type v = ASDF_VALUE_SEQUENCE then (ASDF_VALUE_ERR_TYPE_MISMATCH, None)
          else (ASDF_VALUE_OK, Some (fy_node_get_scalar0 ne (v_node v))))"

section \<open>A getter for any type\<close>

text \<open>What is stored through the untyped pointer; a copy or a text may be null.\<close>

datatype ('n, 'o) typed =
    Typed_value "'n asdf_value option" | Typed_text "bytes option" | Typed_bool bool
  | Typed_8 "8 word" | Typed_16 "16 word" | Typed_32 "32 word" | Typed_64 "64 word" | Typed_double double
  | Typed_object 'o

definition typed_as ::
  "('a \<Rightarrow> ('n, 'o) typed) \<Rightarrow> (asdf_value_err \<times> 'a option \<times> 'n asdf_value option \<times> heap) option \<Rightarrow>
   (asdf_value_err \<times> ('n, 'o) typed option \<times> 'n asdf_value option \<times> heap) option" where
  "typed_as f r = map_option (\<lambda>(err, out, value, h). (err, map_option f out, value, h)) r"

definition copy_if ::
  "'n node_env \<Rightarrow> heap \<Rightarrow> 'n asdf_value \<Rightarrow> bool \<Rightarrow> asdf_value_err \<times> ('n, 'o) typed option \<times> 'n asdf_value option \<times> heap" where
  "copy_if ne h value ok =
     (if ok then let (c, h) = asdf_value_copy ne h (Some value) in (ASDF_VALUE_OK, Some (Typed_value c), Some value, h)
      else (ASDF_VALUE_ERR_TYPE_MISMATCH, None, Some value, h))"

fun asdf_value_as_type ::
  "'n value_env \<Rightarrow> 'n node_env \<Rightarrow> heap \<Rightarrow> 'n asdf_value \<Rightarrow> asdf_value_type \<Rightarrow>
   (asdf_value_err \<times> ('n, 'o) typed option \<times> 'n asdf_value option \<times> heap) option" where
  "asdf_value_as_type ve ne h value ASDF_VALUE_UNKNOWN = Some (copy_if ne h value True)"
| "asdf_value_as_type ve ne h value ASDF_VALUE_SEQUENCE = Some (copy_if ne h value (asdf_value_is_sequence value))"
| "asdf_value_as_type ve ne h value ASDF_VALUE_MAPPING = Some (copy_if ne h value (asdf_value_is_mapping value))"
| "asdf_value_as_type ve ne h value ASDF_VALUE_SCALAR =
     (case asdf_value_as_scalar0 ne (Some value) of (err, out) \<Rightarrow> Some (err, map_option Typed_text out, Some value, h))"
| "asdf_value_as_type ve ne h value ASDF_VALUE_STRING = typed_as Typed_text (asdf_value_as_string0 ve ne h (Some value))"
| "asdf_value_as_type ve ne h value ASDF_VALUE_BOOL = typed_as Typed_bool (asdf_value_as_bool ve h (Some value))"
| "asdf_value_as_type ve ne h value ASDF_VALUE_NULL =
     map_option (\<lambda>(ok, value, h). (if ok then ASDF_VALUE_OK else ASDF_VALUE_ERR_TYPE_MISMATCH, None, value, h))
       (asdf_value_is_null ve h (Some value))"
| "asdf_value_as_type ve ne h value ASDF_VALUE_INT8 = typed_as Typed_8 (asdf_value_as_int8 ve h (Some value))"
| "asdf_value_as_type ve ne h value ASDF_VALUE_INT16 = typed_as Typed_16 (asdf_value_as_int16 ve h (Some value))"
| "asdf_value_as_type ve ne h value ASDF_VALUE_INT32 = typed_as Typed_32 (asdf_value_as_int32 ve h (Some value))"
| "asdf_value_as_type ve ne h value ASDF_VALUE_INT64 = typed_as Typed_64 (asdf_value_as_int64 ve h (Some value))"
| "asdf_value_as_type ve ne h value ASDF_VALUE_UINT8 = typed_as Typed_8 (asdf_value_as_uint8 ve h (Some value))"
| "asdf_value_as_type ve ne h value ASDF_VALUE_UINT16 = typed_as Typed_16 (asdf_value_as_uint16 ve h (Some value))"
| "asdf_value_as_type ve ne h value ASDF_VALUE_UINT32 = typed_as Typed_32 (asdf_value_as_uint32 ve h (Some value))"
| "asdf_value_as_type ve ne h value ASDF_VALUE_UINT64 = typed_as Typed_64 (asdf_value_as_uint64 ve h (Some value))"
| "asdf_value_as_type ve ne h value ASDF_VALUE_FLOAT = typed_as Typed_double (asdf_value_as_float ve h (Some value))"
| "asdf_value_as_type ve ne h value ASDF_VALUE_DOUBLE = typed_as Typed_double (asdf_value_as_double ve h (Some value))"
| "asdf_value_as_type ve ne h value ASDF_VALUE_EXTENSION = Some (ASDF_VALUE_ERR_TYPE_MISMATCH, None, Some value, h)"

section \<open>The registry of extensions\<close>

type_synonym extension_map = "bytes \<Rightarrow> nat option"

definition asdf_extension_get :: "heap \<Rightarrow> extension_map \<Rightarrow> bytes \<Rightarrow> nat option \<times> heap" where
  "asdf_extension_get h extension_map tag =
     (case asdf_yaml_tag_canonicalize h tag of
        (None, h) \<Rightarrow> (None, h)
      | (Some full_tag, h) \<Rightarrow> (extension_map full_tag, h))"

text \<open>The map keeps what was inserted first. The tags are those before the null pointer that ends them.\<close>

fun asdf_extension_register :: "heap \<Rightarrow> extension_map \<Rightarrow> nat \<Rightarrow> bytes list \<Rightarrow> extension_map \<times> heap" where
  "asdf_extension_register h extension_map ext [] = (extension_map, h)"
| "asdf_extension_register h extension_map ext (tag # tags) =
     (case asdf_yaml_tag_canonicalize h tag of
        (None, h) \<Rightarrow> (extension_map, h)
      | (Some full_tag, h) \<Rightarrow>
          asdf_extension_register h
            (if extension_map full_tag = None then extension_map(full_tag \<mapsto> ext) else extension_map) ext tags)"

section \<open>Values of an extension\<close>

text \<open>The deserializer of an extension, with its user data, gets a copy of the value. The slot of a value
  is the object its union points to once it is known to be an extension.\<close>

type_synonym ('n, 'o) deserializer = "heap \<Rightarrow> 'n asdf_value \<Rightarrow> (asdf_value_err \<times> 'o option \<times> heap) option"

record ('n, 'o) extensions =
  ex_map :: extension_map
  ex_deserialize :: "nat \<Rightarrow> ('n, 'o) deserializer option"

type_synonym 'o slot = "(nat \<times> 'o option) option"

definition asdf_value_infer_extension_type ::
  "'n value_env \<Rightarrow> extension_map \<Rightarrow> heap \<Rightarrow> 'n asdf_value \<Rightarrow> 'o slot \<Rightarrow>
   asdf_value_err \<times> 'n asdf_value \<times> 'o slot \<times> heap" where
  "asdf_value_infer_extension_type ve extension_map h value slot =
     (if v_extension_checked value then
        (if v_type value \<noteq> ASDF_VALUE_EXTENSION then ASDF_VALUE_ERR_TYPE_MISMATCH else ASDF_VALUE_OK, value, slot, h)
      else
        let value = value\<lparr>v_extension_checked := True\<rparr>; (tag, value, h) = asdf_value_tag ve h value in
        case tag of
          None \<Rightarrow> (ASDF_VALUE_ERR_TYPE_MISMATCH, value, slot, h)
        | Some tag \<Rightarrow>
            (case asdf_extension_get h extension_map tag of
               (None, h) \<Rightarrow> (ASDF_VALUE_ERR_TYPE_MISMATCH, value, slot, h)
             | (Some ext, h) \<Rightarrow>
                 let (ok, h) = alloc h in
                 if \<not> ok then (ASDF_VALUE_ERR_OOM, value, slot, h)
                 else (ASDF_VALUE_OK, value\<lparr>v_type := ASDF_VALUE_EXTENSION\<rparr>, Some (ext, None), h)))"

definition asdf_value_is_extension_type ::
  "'n value_env \<Rightarrow> extension_map \<Rightarrow> heap \<Rightarrow> 'n asdf_value \<Rightarrow> 'o slot \<Rightarrow> nat \<Rightarrow>
   bool \<times> 'n asdf_value \<times> 'o slot \<times> heap" where
  "asdf_value_is_extension_type ve extension_map h value slot ext =
     (let (err, value, slot, h) = asdf_value_infer_extension_type ve extension_map h value slot in
      (err = ASDF_VALUE_OK \<and> map_option fst slot = Some ext, value, slot, h))"

text \<open>The output is stored when there is one. An extension without a deserializer fails an assertion.\<close>

definition asdf_value_as_extension_type ::
  "'n value_env \<Rightarrow> 'n node_env \<Rightarrow> ('n, 'o) extensions \<Rightarrow> heap \<Rightarrow> 'n asdf_value \<Rightarrow> 'o slot \<Rightarrow> nat \<Rightarrow>
   (asdf_value_err \<times> 'o option \<times> 'n asdf_value \<times> 'o slot \<times> heap) option" where
  "asdf_value_as_extension_type ve ne exts h value slot ext =
     (let (is_ext, value, slot, h) = asdf_value_is_extension_type ve (ex_map exts) h value slot ext in
      if \<not> is_ext then Some (ASDF_VALUE_ERR_TYPE_MISMATCH, None, value, slot, h)
      else (case Option.bind slot snd of
          Some obj \<Rightarrow> Some (ASDF_VALUE_OK, Some obj, value, slot, h)
        | None \<Rightarrow> do {
            deserialize \<leftarrow> ex_deserialize exts ext;
            case asdf_value_copy_impl ne h (Some value) True of
              (None, h) \<Rightarrow> Some (ASDF_VALUE_ERR_OOM, None, value, slot, h)
            | (Some raw_value, h) \<Rightarrow> do {
                (err, out, h) \<leftarrow> deserialize h raw_value;
                Some (err, out, value\<lparr>v_err := err\<rparr>, if err = ASDF_VALUE_OK then Some (ext, out) else slot, h)
              }
          }))"

section \<open>Properties\<close>

text \<open>The types that are accepted where another one is expected.\<close>

definition is_equivalent_type :: "asdf_value_type \<Rightarrow> asdf_value_type \<Rightarrow> bool" where
  "is_equivalent_type type expected =
     (case expected of
        ASDF_VALUE_UINT64 \<Rightarrow> type \<in> {ASDF_VALUE_UINT64, ASDF_VALUE_UINT32, ASDF_VALUE_UINT16, ASDF_VALUE_UINT8}
      | ASDF_VALUE_INT64 \<Rightarrow> type \<in> {ASDF_VALUE_INT64, ASDF_VALUE_UINT32, ASDF_VALUE_INT32, ASDF_VALUE_UINT16,
                                    ASDF_VALUE_INT16, ASDF_VALUE_UINT8, ASDF_VALUE_INT8}
      | ASDF_VALUE_UINT32 \<Rightarrow> type \<in> {ASDF_VALUE_UINT32, ASDF_VALUE_UINT16, ASDF_VALUE_UINT8}
      | ASDF_VALUE_INT32 \<Rightarrow> type \<in> {ASDF_VALUE_INT32, ASDF_VALUE_UINT16, ASDF_VALUE_INT16, ASDF_VALUE_UINT8, ASDF_VALUE_INT8}
      | ASDF_VALUE_UINT16 \<Rightarrow> type \<in> {ASDF_VALUE_UINT16, ASDF_VALUE_UINT8}
      | ASDF_VALUE_INT16 \<Rightarrow> type \<in> {ASDF_VALUE_INT16, ASDF_VALUE_UINT8, ASDF_VALUE_INT8}
      | ASDF_VALUE_UINT8 \<Rightarrow> type \<in> {ASDF_VALUE_UINT8}
      | ASDF_VALUE_INT8 \<Rightarrow> type \<in> {ASDF_VALUE_INT8}
      | ASDF_VALUE_DOUBLE \<Rightarrow> type \<in> {ASDF_VALUE_DOUBLE, ASDF_VALUE_FLOAT, ASDF_VALUE_INT64, ASDF_VALUE_INT32, ASDF_VALUE_INT16,
                                     ASDF_VALUE_INT8, ASDF_VALUE_UINT64, ASDF_VALUE_UINT32, ASDF_VALUE_UINT16, ASDF_VALUE_UINT8}
      | _ \<Rightarrow> type = expected)"

definition as_type_result ::
  "(asdf_value_err \<times> ('n, 'o) typed option \<times> 'n asdf_value option \<times> heap) option \<Rightarrow>
   (asdf_value_err \<times> ('n, 'o) typed option \<times> heap) option" where
  "as_type_result r = map_option (\<lambda>(err, out, _, h). (err, out, h)) r"

definition asdf_get_property_impl ::
  "'n value_env \<Rightarrow> 'n node_env \<Rightarrow> ('n, 'o) extensions \<Rightarrow> heap \<Rightarrow> 'n asdf_value \<Rightarrow> bytes \<Rightarrow> asdf_value_type \<Rightarrow>
   bytes option \<Rightarrow> (asdf_value_err \<times> ('n, 'o) typed option \<times> heap) option" where
  "asdf_get_property_impl ve ne exts h mapping name type tag =
     (case asdf_mapping_get ne h mapping name of
        (None, h) \<Rightarrow> Some (ASDF_VALUE_ERR_NOT_FOUND, None, h)
      | (Some prop, h) \<Rightarrow> do {
          (prop_type, prop, h) \<leftarrow> asdf_value_get_type ve h (Some prop);
          prop \<leftarrow> prop;
          if type \<noteq> ASDF_VALUE_UNKNOWN \<and> type \<noteq> ASDF_VALUE_EXTENSION then
            (if \<not> is_equivalent_type prop_type type then Some (ASDF_VALUE_ERR_TYPE_MISMATCH, None, h)
             else as_type_result (asdf_value_as_type ve ne h prop type))
          else (case (if type = ASDF_VALUE_EXTENSION then tag else None) of
              None \<Rightarrow> as_type_result (asdf_value_as_type ve ne h prop type)
            | Some tag \<Rightarrow>
                (case asdf_extension_get h (ex_map exts) tag of
                   (None, h) \<Rightarrow> Some (ASDF_VALUE_ERR_TYPE_MISMATCH, None, h)
                 | (Some ext, h) \<Rightarrow>
                     let (is_ext, prop, slot, h) = asdf_value_is_extension_type ve (ex_map exts) h prop None ext in
                     if \<not> is_ext then Some (ASDF_VALUE_ERR_TYPE_MISMATCH, None, h)
                     else map_option (\<lambda>(err, out, _, _, h). (err, map_option Typed_object out, h))
                       (asdf_value_as_extension_type ve ne exts h prop slot ext)))
        })"

text \<open>The two kinds of properties differ in what is logged when there is none.\<close>

definition asdf_get_required_property ::
  "'n value_env \<Rightarrow> 'n node_env \<Rightarrow> ('n, 'o) extensions \<Rightarrow> heap \<Rightarrow> 'n asdf_value \<Rightarrow> bytes \<Rightarrow> asdf_value_type \<Rightarrow>
   bytes option \<Rightarrow> (asdf_value_err \<times> ('n, 'o) typed option \<times> heap) option" where
  "asdf_get_required_property = asdf_get_property_impl"

definition asdf_get_optional_property ::
  "'n value_env \<Rightarrow> 'n node_env \<Rightarrow> ('n, 'o) extensions \<Rightarrow> heap \<Rightarrow> 'n asdf_value \<Rightarrow> bytes \<Rightarrow> asdf_value_type \<Rightarrow>
   bytes option \<Rightarrow> (asdf_value_err \<times> ('n, 'o) typed option \<times> heap) option" where
  "asdf_get_optional_property = asdf_get_property_impl"

definition ASDF_IS_OK :: "asdf_value_err \<Rightarrow> bool" where
  "ASDF_IS_OK err \<longleftrightarrow> err = ASDF_VALUE_OK"

definition ASDF_IS_OPTIONAL_OK :: "asdf_value_err \<Rightarrow> bool" where
  "ASDF_IS_OPTIONAL_OK err \<longleftrightarrow> err = ASDF_VALUE_OK \<or> err = ASDF_VALUE_ERR_NOT_FOUND"

end
