(* ===== verification/Asdf_Tree_File.thy ===== *)
theory Asdf_Tree_File
  imports Asdf_Tree_Insert Asdf_Property Asdf_Find
begin

text \<open>
  Reaching into the tree by a path: the insertion of a node with the containers on the way to it
  (\<^verbatim>\<open>src/value.c\<close>), the getters and setters of a file (\<^verbatim>\<open>src/file.c\<close>), and the making of a value of an
  extension type.
\<close>

section \<open>Insertion at a path\<close>

text \<open>libfyaml takes an \<^verbatim>\<open>int\<close> for an index: a larger one finds nothing, a smaller one is truncated.\<close>

definition asdf_node_sequence_get_by_index :: "'n node_env \<Rightarrow> 'n \<Rightarrow> int \<Rightarrow> 'n option" where
  "asdf_node_sequence_get_by_index env sequence index =
     (if index > int INT_MAX then None
      else fy_node_sequence_get_by_index env sequence (sint (word_of_int index :: 32 word)))"

definition asdf_node_is_null :: "'n value_env \<Rightarrow> 'n node_env \<Rightarrow> 'n option \<Rightarrow> bool" where
  "asdf_node_is_null ve env node \<longleftrightarrow>
     (case node of
        None \<Rightarrow> False
      | Some n \<Rightarrow> fy_node_get_type env n = FYNT_SCALAR \<and> (case fy_node_get_scalar ve n of None \<Rightarrow> True | Some t \<Rightarrow> t = []))"

text \<open>Filling a sequence with nulls; the counter of the loop is an \<^verbatim>\<open>int\<close>, which overflows at the end of its range.\<close>

fun pad_loop :: "('s, 'n) tree_ops \<Rightarrow> 'n \<Rightarrow> nat \<Rightarrow> nat \<Rightarrow> 's \<Rightarrow> (bool \<times> 's) option" where
  "pad_loop ops sequence 0 idx s = Some (True, s)"
| "pad_loop ops sequence (Suc n) idx s =
     (case fy_node_create ops (Create_scalar (bytes_of ''null'')) s of
        (None, s) \<Rightarrow> Some (False, s)
      | (Some null, s) \<Rightarrow> (case fy_node_sequence_append ops sequence (Some null) s of
            (False, s) \<Rightarrow> Some (False, s)
          | (True, s) \<Rightarrow> if idx = INT_MAX then None else pad_loop ops sequence n (Suc idx) s))"

definition asdf_node_sequence_materialize :: "('s, 'n) tree_ops \<Rightarrow> 'n \<Rightarrow> int \<Rightarrow> 's \<Rightarrow> (bool \<times> 's) option" where
  "asdf_node_sequence_materialize ops sequence count s =
     (let cur_size = int (length (fy_node_items (to_nodes ops s) sequence)) in
      if cur_size \<ge> count then Some (True, s) else pad_loop ops sequence (nat (count - cur_size)) 0 s)"

text \<open>The node at one component of a path: the one that is there, the node to insert at the end of the path, and
  otherwise a container that fits the component that follows.\<close>

definition existing_component ::
  "('s, 'n) tree_ops \<Rightarrow> asdf_yaml_path_component \<Rightarrow> 'n \<Rightarrow> 's \<Rightarrow> 'n option option" where
  "existing_component ops pc parent s =
     (let env = to_nodes ops s;
          is_map = fy_node_get_type env parent = FYNT_MAPPING; is_seq = fy_node_get_type env parent = FYNT_SEQUENCE;
          by_key = fy_node_mapping_lookup_by_string ops parent (pc_key pc) s;
          by_index = asdf_node_sequence_get_by_index env parent (pc_index pc)
      in
      case pc_target pc of
        ASDF_YAML_PC_TARGET_ANY \<Rightarrow> Some (if is_map then by_key else if is_seq then by_index else None)
      | ASDF_YAML_PC_TARGET_MAP \<Rightarrow> if is_map then Some by_key else None
      | ASDF_YAML_PC_TARGET_SEQ \<Rightarrow> if is_seq then Some by_index else None)"

definition asdf_node_create_single_path_component ::
  "('s, 'n) tree_ops \<Rightarrow> 'n \<Rightarrow> asdf_yaml_path_component \<Rightarrow> 'n \<Rightarrow> asdf_yaml_path_component option \<Rightarrow> 'n \<Rightarrow> 's \<Rightarrow>
   'n option \<times> 's" where
  "asdf_node_create_single_path_component ops root_node pc parent sibling final s =
     (case existing_component ops pc parent s of
        None \<Rightarrow> (None, s)
      | Some (Some node) \<Rightarrow> (Some node, s)
      | Some None \<Rightarrow> (case sibling of
            None \<Rightarrow> (Some final, s)
          | Some next \<Rightarrow> (case pc_target next of
                ASDF_YAML_PC_TARGET_ANY \<Rightarrow>
                  if parent = root_node then fy_node_create_mapping ops s else fy_node_create_sequence ops s
              | ASDF_YAML_PC_TARGET_MAP \<Rightarrow> fy_node_create_mapping ops s
              | ASDF_YAML_PC_TARGET_SEQ \<Rightarrow> fy_node_create_sequence ops s)))"

text \<open>The node of a component is added to its parent, whether it was there or not.\<close>

definition add_component ::
  "('s, 'n) tree_ops \<Rightarrow> heap \<Rightarrow> asdf_yaml_path_component \<Rightarrow> 'n \<Rightarrow> 'n \<Rightarrow> 's \<Rightarrow> (asdf_value_err \<times> heap \<times> 's) option" where
  "add_component ops h pc parent current s =
     (case fy_node_get_type (to_nodes ops s) parent of
        FYNT_MAPPING \<Rightarrow> do {
          (key, h, s) \<leftarrow> string0_node ops h (Some (pc_key pc)) s;
          if key = None then Some (ASDF_VALUE_ERR_OOM, h, s)
          else let (ok, s) = fy_node_mapping_append ops parent key current s
            in Some (if ok then ASDF_VALUE_OK else ASDF_VALUE_ERR_OOM, h, s)
        }
      | FYNT_SEQUENCE \<Rightarrow> do {
          (ok, s) \<leftarrow> asdf_node_sequence_materialize ops parent (pc_index pc) s;
          if \<not> ok then Some (ASDF_VALUE_ERR_OOM, h, s)
          else let (ok, s) = fy_node_sequence_append ops parent (Some current) s
            in Some (if ok then ASDF_VALUE_OK else ASDF_VALUE_ERR_OOM, h, s)
        }
      | FYNT_SCALAR \<Rightarrow> Some (ASDF_VALUE_OK, h, s))"

fun materialize_loop ::
  "('s, 'n) tree_ops \<Rightarrow> 'n \<Rightarrow> 'n \<Rightarrow> 'n \<Rightarrow> asdf_yaml_path_component list \<Rightarrow> heap \<Rightarrow> 's \<Rightarrow> (asdf_value_err \<times> heap \<times> 's) option"
where
  "materialize_loop ops root_node node parent [] h s = Some (ASDF_VALUE_OK, h, s)"
| "materialize_loop ops root_node node parent (pc # rest) h s =
     (case asdf_node_create_single_path_component ops root_node pc parent (case rest of [] \<Rightarrow> None | c # _ \<Rightarrow> Some c) node s of
        (None, s) \<Rightarrow> Some (ASDF_VALUE_ERR_NOT_FOUND, h, s)
      | (Some current, s) \<Rightarrow> (case add_component ops h pc parent current s of
            None \<Rightarrow> None
          | Some (err, h, s) \<Rightarrow>
              if err \<noteq> ASDF_VALUE_OK then Some (err, h, s) else materialize_loop ops root_node node current rest h s))"

definition asdf_node_materialize_path ::
  "('s, 'n) tree_ops \<Rightarrow> heap \<Rightarrow> 'n \<Rightarrow> 'n \<Rightarrow> asdf_yaml_path_component list \<Rightarrow> 's \<Rightarrow> (asdf_value_err \<times> heap \<times> 's) option" where
  "asdf_node_materialize_path ops h root_node node path s =
     (if path = [] then Some (ASDF_VALUE_ERR_NOT_FOUND, h, s) else materialize_loop ops root_node node root_node path h s)"

text \<open>\<^verbatim>\<open>fy_document_set_root\<close> returns zero when it succeeds, here true; the first test takes that for a failure.\<close>

definition asdf_doc_set_root_from_path ::
  "('s, 'n) tree_ops \<Rightarrow> 'n \<Rightarrow> 'n option \<Rightarrow> asdf_yaml_path_component list \<Rightarrow> 's \<Rightarrow> asdf_value_err \<times> 'n option \<times> 's" where
  "asdf_doc_set_root_from_path ops node root_node path s =
     (case path of
        [] \<Rightarrow> (ASDF_VALUE_ERR_NOT_FOUND, root_node, s)
      | pc # _ \<Rightarrow>
          if pc_target pc = ASDF_YAML_PC_TARGET_MAP \<and> pc_key pc = [] then
            (case fy_document_set_root ops (Some node) s of
               (True, s) \<Rightarrow> (ASDF_VALUE_ERR_NOT_FOUND, root_node, s)
             | (False, s) \<Rightarrow> (ASDF_VALUE_OK, Some node, s))
          else if root_node = None \<or> asdf_node_is_null (to_values ops s) (to_nodes ops s) root_node then
            (let (created, s) = (if pc_target pc = ASDF_YAML_PC_TARGET_SEQ then fy_node_create_sequence ops s
                                 else fy_node_create_mapping ops s);
                 (ok, s) = fy_document_set_root ops created s
             in
             if \<not> ok then (ASDF_VALUE_ERR_OOM, root_node, s)
             else (if created = None then ASDF_VALUE_ERR_OOM else ASDF_VALUE_OK, created, s))
          else (ASDF_VALUE_OK, root_node, s))"

definition asdf_node_insert_at ::
  "('s, 'n) tree_ops \<Rightarrow> heap \<Rightarrow> bytes \<Rightarrow> 'n \<Rightarrow> bool \<Rightarrow> 's \<Rightarrow> (asdf_value_err \<times> heap \<times> 's) option" where
  "asdf_node_insert_at ops h path node materialize s =
     (let root_node = fy_document_root ops s;
          (inserted, s) = (case fy_node_by_path ops root_node path s of
                             None \<Rightarrow> (False, s) | Some target \<Rightarrow> fy_node_insert ops target node s)
      in
      if inserted then Some (ASDF_VALUE_OK, h, fy_node_free ops (Some node) s)
      else if \<not> materialize then Some (ASDF_VALUE_ERR_NOT_FOUND, h, s)
      else
        let ((ok, yaml_path), h) = asdf_yaml_path_parse h (Some path) [] in
        if \<not> ok \<or> yaml_path = [] then Some (ASDF_VALUE_ERR_NOT_FOUND, h, s)
        else (case asdf_doc_set_root_from_path ops node root_node yaml_path s of
            (err, root_node, s) \<Rightarrow>
              if err \<noteq> ASDF_VALUE_OK then Some (err, h, s)
              else (case root_node of None \<Rightarrow> None | Some r \<Rightarrow> asdf_node_materialize_path ops h r node yaml_path s)))"

section \<open>Values of a file\<close>

definition asdf_get_value :: "('s, 'n) tree_ops \<Rightarrow> heap \<Rightarrow> bytes \<Rightarrow> 's \<Rightarrow> 'n asdf_value option \<times> heap \<times> 's" where
  "asdf_get_value ops h path s =
     (let (tree, s) = to_document ops s in
      if \<not> tree then (None, h, s)
      else (case Option.bind (fy_document_root ops s) (\<lambda>root_node. fy_node_by_path_default ops root_node path s) of
          None \<Rightarrow> (None, h, s)
        | Some n \<Rightarrow> let (v, h) = asdf_value_create (to_nodes ops s) h n in (v, h, s)))"

definition destroyed :: "('s, 'n) tree_ops \<Rightarrow> 'n asdf_value option \<Rightarrow> 's \<Rightarrow> 's" where
  "destroyed ops value s = fy_node_free ops (asdf_value_destroy (to_nodes ops s) value) s"

text \<open>The tests \<^verbatim>\<open>asdf_is_<type>\<close> differ in the one of values that they make, the argument \<open>is\<close>, and the getters
  \<^verbatim>\<open>asdf_get_<type>\<close> of scalars in the one of values, the argument \<open>as\<close>.\<close>

definition asdf_is_with ::
  "('s, 'n) tree_ops \<Rightarrow> heap \<Rightarrow> bytes \<Rightarrow>
   ('n value_env \<Rightarrow> heap \<Rightarrow> 'n asdf_value option \<Rightarrow> (bool \<times> 'n asdf_value option \<times> heap) option) \<Rightarrow> 's \<Rightarrow>
   (bool \<times> heap \<times> 's) option" where
  "asdf_is_with ops h path is s =
     (case asdf_get_value ops h path s of
        (None, h, s) \<Rightarrow> Some (False, h, s)
      | (Some v, h, s) \<Rightarrow> do {
          (ret, v, h) \<leftarrow> is (to_values ops s) h (Some v);
          Some (ret, h, destroyed ops v s)
        })"

definition asdf_is_mapping :: "('s, 'n) tree_ops \<Rightarrow> heap \<Rightarrow> bytes \<Rightarrow> 's \<Rightarrow> (bool \<times> heap \<times> 's) option" where
  "asdf_is_mapping ops h path =
     asdf_is_with ops h path (\<lambda>_ h v. Some ((case v of None \<Rightarrow> False | Some m \<Rightarrow> asdf_value_is_mapping m), v, h))"

definition asdf_is_sequence :: "('s, 'n) tree_ops \<Rightarrow> heap \<Rightarrow> bytes \<Rightarrow> 's \<Rightarrow> (bool \<times> heap \<times> 's) option" where
  "asdf_is_sequence ops h path =
     asdf_is_with ops h path (\<lambda>_ h v. Some ((case v of None \<Rightarrow> False | Some m \<Rightarrow> asdf_value_is_sequence m), v, h))"

definition asdf_is_string :: "('s, 'n) tree_ops \<Rightarrow> heap \<Rightarrow> bytes \<Rightarrow> 's \<Rightarrow> (bool \<times> heap \<times> 's) option" where
  "asdf_is_string ops h path = asdf_is_with ops h path asdf_value_is_string"

definition asdf_is_scalar :: "('s, 'n) tree_ops \<Rightarrow> heap \<Rightarrow> bytes \<Rightarrow> 's \<Rightarrow> (bool \<times> heap \<times> 's) option" where
  "asdf_is_scalar ops h path = asdf_is_with ops h path asdf_value_is_scalar"

definition asdf_is_bool :: "('s, 'n) tree_ops \<Rightarrow> heap \<Rightarrow> bytes \<Rightarrow> 's \<Rightarrow> (bool \<times> heap \<times> 's) option" where
  "asdf_is_bool ops h path = asdf_is_with ops h path asdf_value_is_bool"

definition asdf_is_null :: "('s, 'n) tree_ops \<Rightarrow> heap \<Rightarrow> bytes \<Rightarrow> 's \<Rightarrow> (bool \<times> heap \<times> 's) option" where
  "asdf_is_null ops h path = asdf_is_with ops h path asdf_value_is_null"

definition asdf_is_int :: "('s, 'n) tree_ops \<Rightarrow> heap \<Rightarrow> bytes \<Rightarrow> 's \<Rightarrow> (bool \<times> heap \<times> 's) option" where
  "asdf_is_int ops h path = asdf_is_with ops h path asdf_value_is_int"

definition asdf_is_int8 :: "('s, 'n) tree_ops \<Rightarrow> heap \<Rightarrow> bytes \<Rightarrow> 's \<Rightarrow> (bool \<times> heap \<times> 's) option" where
  "asdf_is_int8 ops h path = asdf_is_with ops h path asdf_value_is_int8"

definition asdf_is_int16 :: "('s, 'n) tree_ops \<Rightarrow> heap \<Rightarrow> bytes \<Rightarrow> 's \<Rightarrow> (bool \<times> heap \<times> 's) option" where
  "asdf_is_int16 ops h path = asdf_is_with ops h path asdf_value_is_int16"

definition asdf_is_int32 :: "('s, 'n) tree_ops \<Rightarrow> heap \<Rightarrow> bytes \<Rightarrow> 's \<Rightarrow> (bool \<times> heap \<times> 's) option" where
  "asdf_is_int32 ops h path = asdf_is_with ops h path asdf_value_is_int32"

definition asdf_is_int64 :: "('s, 'n) tree_ops \<Rightarrow> heap \<Rightarrow> bytes \<Rightarrow> 's \<Rightarrow> (bool \<times> heap \<times> 's) option" where
  "asdf_is_int64 ops h path = asdf_is_with ops h path asdf_value_is_int64"

definition asdf_is_uint8 :: "('s, 'n) tree_ops \<Rightarrow> heap \<Rightarrow> bytes \<Rightarrow> 's \<Rightarrow> (bool \<times> heap \<times> 's) option" where
  "asdf_is_uint8 ops h path = asdf_is_with ops h path asdf_value_is_uint8"

definition asdf_is_uint16 :: "('s, 'n) tree_ops \<Rightarrow> heap \<Rightarrow> bytes \<Rightarrow> 's \<Rightarrow> (bool \<times> heap \<times> 's) option" where
  "asdf_is_uint16 ops h path = asdf_is_with ops h path asdf_value_is_uint16"

definition asdf_is_uint32 :: "('s, 'n) tree_ops \<Rightarrow> heap \<Rightarrow> bytes \<Rightarrow> 's \<Rightarrow> (bool \<times> heap \<times> 's) option" where
  "asdf_is_uint32 ops h path = asdf_is_with ops h path asdf_value_is_uint32"

definition asdf_is_uint64 :: "('s, 'n) tree_ops \<Rightarrow> heap \<Rightarrow> bytes \<Rightarrow> 's \<Rightarrow> (bool \<times> heap \<times> 's) option" where
  "asdf_is_uint64 ops h path = asdf_is_with ops h path asdf_value_is_uint64"

definition asdf_is_float :: "('s, 'n) tree_ops \<Rightarrow> heap \<Rightarrow> bytes \<Rightarrow> 's \<Rightarrow> (bool \<times> heap \<times> 's) option" where
  "asdf_is_float ops h path = asdf_is_with ops h path asdf_value_is_float"

definition asdf_is_double :: "('s, 'n) tree_ops \<Rightarrow> heap \<Rightarrow> bytes \<Rightarrow> 's \<Rightarrow> (bool \<times> heap \<times> 's) option" where
  "asdf_is_double ops h path = asdf_is_with ops h path asdf_value_is_double"

definition get_container ::
  "('s, 'n) tree_ops \<Rightarrow> heap \<Rightarrow> bytes \<Rightarrow> asdf_value_type \<Rightarrow> 's \<Rightarrow> asdf_value_err \<times> 'n asdf_value option \<times> heap \<times> 's" where
  "get_container ops h path t s =
     (case asdf_get_value ops h path s of
        (None, h, s) \<Rightarrow> (ASDF_VALUE_ERR_NOT_FOUND, None, h, s)
      | (Some v, h, s) \<Rightarrow>
          if v_raw_type v \<noteq> t then (ASDF_VALUE_ERR_TYPE_MISMATCH, None, h, destroyed ops (Some v) s)
          else (ASDF_VALUE_OK, Some v, h, s))"

definition asdf_get_mapping ::
  "('s, 'n) tree_ops \<Rightarrow> heap \<Rightarrow> bytes \<Rightarrow> 's \<Rightarrow> asdf_value_err \<times> 'n asdf_value option \<times> heap \<times> 's" where
  "asdf_get_mapping ops h path s = get_container ops h path ASDF_VALUE_MAPPING s"

definition asdf_get_sequence ::
  "('s, 'n) tree_ops \<Rightarrow> heap \<Rightarrow> bytes \<Rightarrow> 's \<Rightarrow> asdf_value_err \<times> 'n asdf_value option \<times> heap \<times> 's" where
  "asdf_get_sequence ops h path s = get_container ops h path ASDF_VALUE_SEQUENCE s"

definition asdf_get_with ::
  "('s, 'n) tree_ops \<Rightarrow> heap \<Rightarrow> bytes \<Rightarrow>
   ('n value_env \<Rightarrow> 'n node_env \<Rightarrow> heap \<Rightarrow> 'n asdf_value option \<Rightarrow>
    (asdf_value_err \<times> 'x option \<times> 'n asdf_value option \<times> heap) option) \<Rightarrow> 's \<Rightarrow>
   (asdf_value_err \<times> 'x option \<times> heap \<times> 's) option" where
  "asdf_get_with ops h path as s =
     (case asdf_get_value ops h path s of
        (None, h, s) \<Rightarrow> Some (ASDF_VALUE_ERR_NOT_FOUND, None, h, s)
      | (Some v, h, s) \<Rightarrow> do {
          (err, out, v, h) \<leftarrow> as (to_values ops s) (to_nodes ops s) h (Some v);
          Some (err, out, h, destroyed ops v s)
        })"

definition asdf_get_string ::
  "('s, 'n) tree_ops \<Rightarrow> heap \<Rightarrow> bytes \<Rightarrow> 's \<Rightarrow> (asdf_value_err \<times> bytes option option \<times> heap \<times> 's) option" where
  "asdf_get_string ops h path = asdf_get_with ops h path (\<lambda>ve _. asdf_value_as_string ve)"

definition asdf_get_string0 ::
  "('s, 'n) tree_ops \<Rightarrow> heap \<Rightarrow> bytes \<Rightarrow> 's \<Rightarrow> (asdf_value_err \<times> bytes option option \<times> heap \<times> 's) option" where
  "asdf_get_string0 ops h path = asdf_get_with ops h path asdf_value_as_string0"

definition asdf_get_scalar ::
  "('s, 'n) tree_ops \<Rightarrow> heap \<Rightarrow> bytes \<Rightarrow> 's \<Rightarrow> (asdf_value_err \<times> bytes option option \<times> heap \<times> 's) option" where
  "asdf_get_scalar ops h path =
     asdf_get_with ops h path (\<lambda>ve _ h v. case asdf_value_as_scalar ve v of (err, out) \<Rightarrow> Some (err, out, v, h))"

definition asdf_get_scalar0 ::
  "('s, 'n) tree_ops \<Rightarrow> heap \<Rightarrow> bytes \<Rightarrow> 's \<Rightarrow> (asdf_value_err \<times> bytes option option \<times> heap \<times> 's) option" where
  "asdf_get_scalar0 ops h path =
     asdf_get_with ops h path (\<lambda>_ ne h v. case asdf_value_as_scalar0 ne v of (err, out) \<Rightarrow> Some (err, out, v, h))"

definition asdf_get_bool ::
  "('s, 'n) tree_ops \<Rightarrow> heap \<Rightarrow> bytes \<Rightarrow> 's \<Rightarrow> (asdf_value_err \<times> bool option \<times> heap \<times> 's) option" where
  "asdf_get_bool ops h path = asdf_get_with ops h path (\<lambda>ve _. asdf_value_as_bool ve)"

definition asdf_get_int8 ::
  "('s, 'n) tree_ops \<Rightarrow> heap \<Rightarrow> bytes \<Rightarrow> 's \<Rightarrow> (asdf_value_err \<times> 8 word option \<times> heap \<times> 's) option" where
  "asdf_get_int8 ops h path = asdf_get_with ops h path (\<lambda>ve _. asdf_value_as_int8 ve)"

definition asdf_get_int16 ::
  "('s, 'n) tree_ops \<Rightarrow> heap \<Rightarrow> bytes \<Rightarrow> 's \<Rightarrow> (asdf_value_err \<times> 16 word option \<times> heap \<times> 's) option" where
  "asdf_get_int16 ops h path = asdf_get_with ops h path (\<lambda>ve _. asdf_value_as_int16 ve)"

definition asdf_get_int32 ::
  "('s, 'n) tree_ops \<Rightarrow> heap \<Rightarrow> bytes \<Rightarrow> 's \<Rightarrow> (asdf_value_err \<times> 32 word option \<times> heap \<times> 's) option" where
  "asdf_get_int32 ops h path = asdf_get_with ops h path (\<lambda>ve _. asdf_value_as_int32 ve)"

definition asdf_get_int64 ::
  "('s, 'n) tree_ops \<Rightarrow> heap \<Rightarrow> bytes \<Rightarrow> 's \<Rightarrow> (asdf_value_err \<times> 64 word option \<times> heap \<times> 's) option" where
  "asdf_get_int64 ops h path = asdf_get_with ops h path (\<lambda>ve _. asdf_value_as_int64 ve)"

definition asdf_get_uint8 ::
  "('s, 'n) tree_ops \<Rightarrow> heap \<Rightarrow> bytes \<Rightarrow> 's \<Rightarrow> (asdf_value_err \<times> 8 word option \<times> heap \<times> 's) option" where
  "asdf_get_uint8 ops h path = asdf_get_with ops h path (\<lambda>ve _. asdf_value_as_uint8 ve)"

definition asdf_get_uint16 ::
  "('s, 'n) tree_ops \<Rightarrow> heap \<Rightarrow> bytes \<Rightarrow> 's \<Rightarrow> (asdf_value_err \<times> 16 word option \<times> heap \<times> 's) option" where
  "asdf_get_uint16 ops h path = asdf_get_with ops h path (\<lambda>ve _. asdf_value_as_uint16 ve)"

definition asdf_get_uint32 ::
  "('s, 'n) tree_ops \<Rightarrow> heap \<Rightarrow> bytes \<Rightarrow> 's \<Rightarrow> (asdf_value_err \<times> 32 word option \<times> heap \<times> 's) option" where
  "asdf_get_uint32 ops h path = asdf_get_with ops h path (\<lambda>ve _. asdf_value_as_uint32 ve)"

definition asdf_get_uint64 ::
  "('s, 'n) tree_ops \<Rightarrow> heap \<Rightarrow> bytes \<Rightarrow> 's \<Rightarrow> (asdf_value_err \<times> 64 word option \<times> heap \<times> 's) option" where
  "asdf_get_uint64 ops h path = asdf_get_with ops h path (\<lambda>ve _. asdf_value_as_uint64 ve)"

definition asdf_get_float ::
  "('s, 'n) tree_ops \<Rightarrow> heap \<Rightarrow> bytes \<Rightarrow> 's \<Rightarrow> (asdf_value_err \<times> double option \<times> heap \<times> 's) option" where
  "asdf_get_float ops h path = asdf_get_with ops h path (\<lambda>ve _. asdf_value_as_float ve)"

definition asdf_get_double ::
  "('s, 'n) tree_ops \<Rightarrow> heap \<Rightarrow> bytes \<Rightarrow> 's \<Rightarrow> (asdf_value_err \<times> double option \<times> heap \<times> 's) option" where
  "asdf_get_double ops h path = asdf_get_with ops h path (\<lambda>ve _. asdf_value_as_double ve)"

section \<open>Setting at a path\<close>

definition asdf_set_node ::
  "('s, 'n) tree_ops \<Rightarrow> heap \<Rightarrow> bytes \<Rightarrow> 'n \<Rightarrow> 's \<Rightarrow> (asdf_value_err \<times> heap \<times> 's) option" where
  "asdf_set_node ops h path node s =
     (if to_read_only ops s then Some (ASDF_VALUE_ERR_READ_ONLY, h, s)
      else
        let (tree, s) = to_document ops s in
        if \<not> tree then Some (ASDF_VALUE_ERR_OOM, h, s) else asdf_node_insert_at ops h path node True s)"

text \<open>Setting a value consumes it. A null pointer is dereferenced at the end, and a node that could not be
  normalized is null: what becomes of inserting that is left undefined.\<close>

definition set_value_node ::
  "('s, 'n) tree_ops \<Rightarrow> heap \<Rightarrow> bytes \<Rightarrow> 'n asdf_value \<Rightarrow> 's \<Rightarrow> (asdf_value_err \<times> heap \<times> 's) option" where
  "set_value_node ops h path value s =
     (let (tree, s) = to_document ops s in
      if \<not> tree then Some (ASDF_VALUE_ERR_OOM, h, s)
      else (case asdf_value_normalize_node ops value s of
          (None, s) \<Rightarrow> if to_read_only ops s then Some (ASDF_VALUE_ERR_READ_ONLY, h, s) else None
        | (Some node, s) \<Rightarrow> asdf_set_node ops h path node s))"

definition asdf_set_value ::
  "('s, 'n) tree_ops \<Rightarrow> heap \<Rightarrow> bytes \<Rightarrow> 'n asdf_value option \<Rightarrow> 's \<Rightarrow> (asdf_value_err \<times> heap \<times> 's) option" where
  "asdf_set_value ops h path value s = Option.bind value (\<lambda>v. set_value_node ops h path v s)"

definition asdf_set_mapping ::
  "('s, 'n) tree_ops \<Rightarrow> heap \<Rightarrow> bytes \<Rightarrow> 'n asdf_value option \<Rightarrow> 's \<Rightarrow> (asdf_value_err \<times> heap \<times> 's) option" where
  "asdf_set_mapping ops h path mapping s = Option.bind mapping (\<lambda>v. set_value_node ops h path v s)"

definition asdf_set_sequence ::
  "('s, 'n) tree_ops \<Rightarrow> heap \<Rightarrow> bytes \<Rightarrow> 'n asdf_value option \<Rightarrow> 's \<Rightarrow> (asdf_value_err \<times> heap \<times> 's) option" where
  "asdf_set_sequence ops h path sequence s = Option.bind sequence (\<lambda>v. set_value_node ops h path v s)"

definition asdf_set_with ::
  "('s, 'n) tree_ops \<Rightarrow> heap \<Rightarrow> bytes \<Rightarrow> (bytes \<Rightarrow> heap \<Rightarrow> (node_request option \<times> heap) option) \<Rightarrow> 's \<Rightarrow>
   (asdf_value_err \<times> heap \<times> 's) option" where
  "asdf_set_with ops h path node_of s =
     (let (tree, s) = to_document ops s in
      if \<not> tree then Some (ASDF_VALUE_ERR_OOM, h, s)
      else do {
        (n, h, s) \<leftarrow> create_requested ops (node_of (point ops s) h) s;
        case n of None \<Rightarrow> Some (ASDF_VALUE_ERR_OOM, h, s) | Some node \<Rightarrow> asdf_set_node ops h path node s
      })"

definition asdf_set_string ::
  "('s, 'n) tree_ops \<Rightarrow> heap \<Rightarrow> bytes \<Rightarrow> bytes \<Rightarrow> nat \<Rightarrow> 's \<Rightarrow> (asdf_value_err \<times> heap \<times> 's) option" where
  "asdf_set_string ops h path str len = asdf_set_with ops h path (\<lambda>dp h. asdf_node_of_string dp h str len)"

definition asdf_set_string0 ::
  "('s, 'n) tree_ops \<Rightarrow> heap \<Rightarrow> bytes \<Rightarrow> bytes option \<Rightarrow> 's \<Rightarrow> (asdf_value_err \<times> heap \<times> 's) option" where
  "asdf_set_string0 ops h path str = asdf_set_with ops h path (\<lambda>dp h. asdf_node_of_string0 dp h str)"

definition asdf_set_null ::
  "('s, 'n) tree_ops \<Rightarrow> heap \<Rightarrow> bytes \<Rightarrow> 's \<Rightarrow> (asdf_value_err \<times> heap \<times> 's) option" where
  "asdf_set_null ops h path = asdf_set_with ops h path (\<lambda>dp h. Some (Some asdf_node_of_null, h))"

definition asdf_set_bool ::
  "('s, 'n) tree_ops \<Rightarrow> heap \<Rightarrow> bytes \<Rightarrow> bool \<Rightarrow> 's \<Rightarrow> (asdf_value_err \<times> heap \<times> 's) option" where
  "asdf_set_bool ops h path value = asdf_set_with ops h path (\<lambda>dp h. Some (Some (asdf_node_of_bool value), h))"

definition asdf_set_signed ::
  "('s, 'n) tree_ops \<Rightarrow> heap \<Rightarrow> bytes \<Rightarrow> 'w::len word \<Rightarrow> 's \<Rightarrow> (asdf_value_err \<times> heap \<times> 's) option" where
  "asdf_set_signed ops h path value = asdf_set_with ops h path (\<lambda>dp h. Some (Some (asdf_node_of_signed value), h))"

definition asdf_set_unsigned ::
  "('s, 'n) tree_ops \<Rightarrow> heap \<Rightarrow> bytes \<Rightarrow> 'w::len word \<Rightarrow> 's \<Rightarrow> (asdf_value_err \<times> heap \<times> 's) option" where
  "asdf_set_unsigned ops h path value = asdf_set_with ops h path (\<lambda>dp h. Some (Some (asdf_node_of_unsigned value), h))"

definition asdf_set_float ::
  "('s, 'n) tree_ops \<Rightarrow> heap \<Rightarrow> bytes \<Rightarrow> double \<Rightarrow> 's \<Rightarrow> (asdf_value_err \<times> heap \<times> 's) option" where
  "asdf_set_float ops h path value = asdf_set_with ops h path (\<lambda>dp h. Some (Some (asdf_node_of_float dp value), h))"

definition asdf_set_double ::
  "('s, 'n) tree_ops \<Rightarrow> heap \<Rightarrow> bytes \<Rightarrow> double \<Rightarrow> 's \<Rightarrow> (asdf_value_err \<times> heap \<times> 's) option" where
  "asdf_set_double ops h path value = asdf_set_with ops h path (\<lambda>dp h. Some (Some (asdf_node_of_double dp value), h))"

section \<open>Searching a file\<close>

definition asdf_file_find_ex ::
  "('s, 'n) tree_ops \<Rightarrow> heap \<Rightarrow> 'n value_pred option \<Rightarrow> bool \<Rightarrow> 'n value_pred option \<Rightarrow> int \<Rightarrow> 's \<Rightarrow>
   ('n asdf_value option \<times> heap \<times> 's) option" where
  "asdf_file_find_ex ops h pred depth_first descend_pred max_depth s =
     (case asdf_get_value ops h [] s of
        (None, h, s) \<Rightarrow> Some (None, h, s)
      | (Some root_node, h, s) \<Rightarrow> do {
          (found, h) \<leftarrow> asdf_value_find_ex (to_nodes ops s) h root_node pred depth_first descend_pred max_depth;
          Some (found, h, destroyed ops (Some root_node) s)
        })"

definition asdf_file_find ::
  "('s, 'n) tree_ops \<Rightarrow> heap \<Rightarrow> 'n value_pred option \<Rightarrow> 's \<Rightarrow> ('n asdf_value option \<times> heap \<times> 's) option" where
  "asdf_file_find ops h pred s = asdf_file_find_ex ops h pred False None (- 1) s"

section \<open>Extensions\<close>

definition asdf_is_extension_type ::
  "('s, 'n) tree_ops \<Rightarrow> extension_map \<Rightarrow> heap \<Rightarrow> bytes \<Rightarrow> nat \<Rightarrow> 's \<Rightarrow> bool \<times> heap \<times> 's" where
  "asdf_is_extension_type ops extension_map h path ext s =
     (case asdf_get_value ops h path s of
        (None, h, s) \<Rightarrow> (False, h, s)
      | (Some v, h, s) \<Rightarrow>
          let (ret, v, _ :: unit slot, h) = asdf_value_is_extension_type (to_values ops s) extension_map h v None ext
          in (ret, h, destroyed ops (Some v) s))"

definition asdf_get_extension_type ::
  "('s, 'n) tree_ops \<Rightarrow> ('n, 'o) extensions \<Rightarrow> heap \<Rightarrow> bytes \<Rightarrow> nat \<Rightarrow> 's \<Rightarrow>
   (asdf_value_err \<times> 'o option \<times> heap \<times> 's) option" where
  "asdf_get_extension_type ops exts h path ext s =
     (case asdf_get_value ops h path s of
        (None, h, s) \<Rightarrow> Some (ASDF_VALUE_ERR_NOT_FOUND, None, h, s)
      | (Some v, h, s) \<Rightarrow> do {
          (err, out, v, _, h) \<leftarrow> asdf_value_as_extension_type (to_values ops s) (to_nodes ops s) exts h v None ext;
          Some (err, out, h, destroyed ops (Some v) s)
        })"

text \<open>What writes an extension: its number, its tags, and how it makes a value of an object.\<close>

record ('s, 'n, 'o) writer =
  wr_ext :: nat
  wr_tags :: "bytes list"
  wr_serialize :: "(heap \<Rightarrow> 'o \<Rightarrow> 's \<Rightarrow> ('n asdf_value option \<times> heap \<times> 's) option) option"

definition tag_value ::
  "('s, 'n) tree_ops \<Rightarrow> heap \<Rightarrow> bytes \<Rightarrow> 'n asdf_value \<Rightarrow> 's \<Rightarrow> 'n asdf_value option \<times> heap \<times> 's" where
  "tag_value ops h tag value s =
     (let (copied, h) = dup h (Some tag);
          value = value\<lparr>v_extension_checked := True, v_type := ASDF_VALUE_EXTENSION, v_tag := copied\<rparr> in
      case to_tag_normalize ops tag s of
        (None, s) \<Rightarrow> (None, h, destroyed ops (Some value) s)
      | (Some normalized, s) \<Rightarrow> (case fy_node_set_tag ops (v_node value) normalized s of
            (False, s) \<Rightarrow> (None, h, destroyed ops (Some value) s)
          | (True, s) \<Rightarrow> (Some value, h, s)))"

definition asdf_value_of_extension_type ::
  "('s, 'n) tree_ops \<Rightarrow> heap \<Rightarrow> 'o \<Rightarrow> ('s, 'n, 'o) writer \<Rightarrow> 's \<Rightarrow> ('n asdf_value option \<times> 'o slot \<times> heap \<times> 's) option" where
  "asdf_value_of_extension_type ops h obj ext s =
     (case (wr_tags ext, wr_serialize ext) of
        (tag # _, Some serialize) \<Rightarrow>
          let (ok, h) = alloc h in
          if \<not> ok then Some (None, None, h, s)
          else do {
            (value, h, s) \<leftarrow> serialize h obj s;
            Some (case value of
              None \<Rightarrow> (None, None, h, s)
            | Some v \<Rightarrow>
                let (value, h, s) = tag_value ops h tag v s
                in (value, if value = None then None else Some (wr_ext ext, Some obj), h, s))
          }
      | _ \<Rightarrow> Some (None, None, h, s))"

definition asdf_set_extension_type ::
  "('s, 'n) tree_ops \<Rightarrow> heap \<Rightarrow> bytes \<Rightarrow> 'o \<Rightarrow> ('s, 'n, 'o) writer \<Rightarrow> 's \<Rightarrow> (asdf_value_err \<times> heap \<times> 's) option" where
  "asdf_set_extension_type ops h path obj ext s = do {
     (value, _, h, s) \<leftarrow> asdf_value_of_extension_type ops h obj ext s;
     if value = None then Some (ASDF_VALUE_ERR_EMIT_FAILURE, h, s) else asdf_set_value ops h path value s
   }"

end
