(* ===== verification/Asdf_Datatype_Read.thy ===== *)
theory Asdf_Datatype_Read
  imports Asdf_Property Asdf_Datatype
begin

text \<open>
  Reading a datatype from the tree (\<^verbatim>\<open>src/core/datatype.c\<close>): the name of a scalar type, a string type with its
  length, or the fields of a structured type, which nest. An alias may make a node contain itself, so the
  recursion is a \<^verbatim>\<open>partial_function\<close>, whose \<^term>\<open>None\<close> also stands for a null text that is compared.
\<close>

section \<open>Datatypes that are filled in\<close>

text \<open>What \<^verbatim>\<open>calloc\<close> makes.\<close>

definition zero_datatype :: asdf_datatype where
  "zero_datatype = Datatype ASDF_DATATYPE_UNKNOWN 0 None ASDF_BYTEORDER_DEFAULT [] []"

definition set_scalar :: "asdf_scalar_datatype \<Rightarrow> u64 \<Rightarrow> asdf_byteorder \<Rightarrow> asdf_datatype \<Rightarrow> asdf_datatype" where
  "set_scalar t n byteorder d = Datatype t n (dt_name d) byteorder (dt_shape d) (dt_fields d)"

definition set_name :: "bytes \<Rightarrow> asdf_datatype \<Rightarrow> asdf_datatype" where
  "set_name name d = Datatype (dt_type d) (dt_size d) (Some name) (dt_byteorder d) (dt_shape d) (dt_fields d)"

definition set_byteorder :: "asdf_byteorder \<Rightarrow> asdf_datatype \<Rightarrow> asdf_datatype" where
  "set_byteorder byteorder d = Datatype (dt_type d) (dt_size d) (dt_name d) byteorder (dt_shape d) (dt_fields d)"

text \<open>A shape multiplies the size; the fields of a structured type are added to its size one by one.\<close>

definition set_shape :: "u64 list \<Rightarrow> asdf_datatype \<Rightarrow> asdf_datatype" where
  "set_shape shape d = Datatype (dt_type d) (foldl (*) (dt_size d) shape) (dt_name d) (dt_byteorder d) shape (dt_fields d)"

definition set_structured :: "nat \<Rightarrow> asdf_byteorder \<Rightarrow> asdf_datatype \<Rightarrow> asdf_datatype" where
  "set_structured nfields byteorder d =
     Datatype ASDF_DATATYPE_STRUCTURED 0 (dt_name d) byteorder (dt_shape d) (replicate nfields zero_datatype)"

definition set_field :: "nat \<Rightarrow> asdf_datatype \<Rightarrow> u64 \<Rightarrow> asdf_datatype \<Rightarrow> asdf_datatype" where
  "set_field i field n d =
     Datatype (dt_type d) (dt_size d + n) (dt_name d) (dt_byteorder d) (dt_shape d) ((dt_fields d)[i := field])"

section \<open>Strings\<close>

text \<open>An unknown name is only logged: the type stays as it is and gets the size.\<close>

definition asdf_string_datatype_parse ::
  "'n value_env \<Rightarrow> 'n node_env \<Rightarrow> heap \<Rightarrow> 'n asdf_value \<Rightarrow> asdf_byteorder \<Rightarrow> asdf_datatype \<Rightarrow>
   (asdf_value_err \<times> asdf_datatype \<times> heap) option" where
  "asdf_string_datatype_parse ve ne h value byteorder d = do {
     let (type_val, h) = asdf_sequence_get ne h value 0;
     (err, type, _, h) \<leftarrow> asdf_value_as_string0 ve ne h type_val;
     if err \<noteq> ASDF_VALUE_OK then Some (err, d, h)
     else do {
       let (size_val, h) = asdf_sequence_get ne h value 1;
       (err, n, _, h) \<leftarrow> asdf_value_as_uint64 ve h size_val;
       if err \<noteq> ASDF_VALUE_OK then Some (err, d, h)
       else do {
         type \<leftarrow> type;
         type \<leftarrow> type;
         n \<leftarrow> n;
         Some (ASDF_VALUE_OK,
           if type = bytes_of ''ascii'' then set_scalar ASDF_DATATYPE_ASCII n byteorder d
           else if type = bytes_of ''ucs4'' then set_scalar ASDF_DATATYPE_UCS4 (n * 4) byteorder d
           else set_scalar (dt_type d) n byteorder d, h)
       }
     }
   }"

section \<open>Byte orders and shapes\<close>

definition asdf_datatype_byteorder_parse ::
  "'n value_env \<Rightarrow> 'n node_env \<Rightarrow> heap \<Rightarrow> 'n asdf_value \<Rightarrow> bytes \<Rightarrow> asdf_byteorder \<Rightarrow>
   (asdf_value_err \<times> asdf_byteorder \<times> heap) option" where
  "asdf_datatype_byteorder_parse ve ne h parent path byteorder = do {
     (err, out, h) \<leftarrow> asdf_get_optional_property ve ne
        (\<lparr>ex_map = \<lambda>_. None, ex_deserialize = \<lambda>_. None\<rparr> :: ('n, unit) extensions) h parent path ASDF_VALUE_STRING None;
     if \<not> ASDF_IS_OK err then Some (err, byteorder, h)
     else (case out of
         Some (Typed_text str) \<Rightarrow>
           (case str of
              None \<Rightarrow> None
            | Some s \<Rightarrow>
                let byteorder = asdf_byteorder_from_string (Some s) in
                if byteorder = ASDF_BYTEORDER_INVALID then Some (ASDF_VALUE_ERR_PARSE_FAILURE, ASDF_BYTEORDER_LITTLE, h)
                else Some (err, byteorder, h))
       | _ \<Rightarrow> None)
   }"

text \<open>The loop over the dimensions: those that are left when the iterator ends are zero.\<close>

fun shape_loop ::
  "'n value_env \<Rightarrow> 'n node_env \<Rightarrow> heap \<Rightarrow> 'n sequence_iter option \<Rightarrow> nat \<Rightarrow> (u64 list option \<times> heap) option" where
  "shape_loop ve ne h iter 0 = Some (Some [], h)"
| "shape_loop ve ne h iter (Suc n) =
     (case asdf_sequence_iter_next ne h iter of
        (None, h) \<Rightarrow> Some (Some (replicate (Suc n) 0), h)
      | (Some it, h) \<Rightarrow> do {
          (err, dim, _, h) \<leftarrow> asdf_value_as_uint64 ve h (si_value it);
          if err \<noteq> ASDF_VALUE_OK then Some (None, h)
          else do {
            dim \<leftarrow> dim;
            (dims, h) \<leftarrow> shape_loop ve ne h (Some it) n;
            Some (map_option (\<lambda>ds. dim # ds) dims, h)
          }
        })"

definition asdf_datatype_shape_parse ::
  "'n value_env \<Rightarrow> 'n node_env \<Rightarrow> heap \<Rightarrow> 'n asdf_value \<Rightarrow> (asdf_value_err \<times> u64 list \<times> heap) option" where
  "asdf_datatype_shape_parse ve ne h value =
     (let ndim = asdf_sequence_size ne value in
      if ndim < 0 then Some (ASDF_VALUE_ERR_PARSE_FAILURE, [], h)
      else
        let (ok, h) = alloc h in
        if \<not> ok then Some (ASDF_VALUE_ERR_OOM, [], h)
        else do {
          let (iter, h) = asdf_sequence_iter_init_ex ne h value False;
          (shape, h) \<leftarrow> shape_loop ve ne h iter (nat ndim);
          case shape of
            None \<Rightarrow> Some (ASDF_VALUE_ERR_PARSE_FAILURE, [], h)
          | Some s \<Rightarrow> Some (ASDF_VALUE_OK, s, h)
        })"

section \<open>Fields\<close>

text \<open>The properties of a field behind its datatype. A name of another type is only logged.\<close>

definition field_properties ::
  "'n value_env \<Rightarrow> 'n node_env \<Rightarrow> heap \<Rightarrow> 'n asdf_value \<Rightarrow> asdf_datatype \<Rightarrow> (asdf_value_err \<times> asdf_datatype \<times> heap) option" where
  "field_properties ve ne h value field = do {
     let exts = (\<lparr>ex_map = \<lambda>_. None, ex_deserialize = \<lambda>_. None\<rparr> :: ('n, unit) extensions);
     (err, name, h) \<leftarrow> asdf_get_optional_property ve ne exts h value (bytes_of ''name'') ASDF_VALUE_STRING None;
     let (copied, field, h) =
       (case (if ASDF_IS_OPTIONAL_OK err then name else None) of
          Some (Typed_text (Some s)) \<Rightarrow> (let (ok, h) = alloc h in (ok, if ok then set_name s field else field, h))
        | _ \<Rightarrow> (True, field, h));
     if \<not> copied then Some (ASDF_VALUE_ERR_OOM, field, h)
     else do {
       (err, byteorder, h) \<leftarrow> asdf_datatype_byteorder_parse ve ne h value (bytes_of ''byteorder'') (dt_byteorder field);
       let field = set_byteorder byteorder field;
       if \<not> ASDF_IS_OPTIONAL_OK err then Some (err, field, h)
       else do {
         (err, shape_seq, h) \<leftarrow> asdf_get_optional_property ve ne exts h value (bytes_of ''shape'') ASDF_VALUE_SEQUENCE None;
         (err, field, h) \<leftarrow>
           (if ASDF_IS_OK err then
              (case shape_seq of
                 Some (Typed_value (Some seq)) \<Rightarrow> do {
                   (err, shape, h) \<leftarrow> asdf_datatype_shape_parse ve ne h seq;
                   Some (err, if ASDF_IS_OK err then set_shape shape field else field, h)
                 }
               | _ \<Rightarrow> None)
            else Some (err, field, h));
         Some (if ASDF_IS_OPTIONAL_OK err then ASDF_VALUE_OK else err, field, h)
       }
     }
   }"

section \<open>The recursion\<close>

text \<open>Two items of which the second is an integer are a string type.\<close>

definition is_string_datatype ::
  "'n value_env \<Rightarrow> 'n node_env \<Rightarrow> heap \<Rightarrow> 'n asdf_value \<Rightarrow> (bool \<times> heap) option" where
  "is_string_datatype ve ne h datatype_seq =
     (if asdf_sequence_size ne datatype_seq = 2 then
        (case asdf_sequence_get ne h datatype_seq 1 of
           (None, h) \<Rightarrow> Some (False, h)
         | (Some stringlen, h) \<Rightarrow> map_option (\<lambda>(b, _, h). (b, h)) (asdf_value_is_uint64 ve h (Some stringlen)))
      else Some (False, h))"

definition scalar_datatype_parse ::
  "'n value_env \<Rightarrow> 'n node_env \<Rightarrow> heap \<Rightarrow> 'n asdf_value \<Rightarrow> asdf_byteorder \<Rightarrow> asdf_datatype \<Rightarrow>
   (asdf_value_err \<times> asdf_datatype \<times> heap) option" where
  "scalar_datatype_parse ve ne h value byteorder d = do {
     (err, dtype, _, h) \<leftarrow> asdf_value_as_string0 ve ne h (Some value);
     if err \<noteq> ASDF_VALUE_OK then Some (ASDF_VALUE_ERR_PARSE_FAILURE, d, h)
     else do {
       dtype \<leftarrow> dtype;
       dtype \<leftarrow> dtype;
       let type = asdf_scalar_datatype_from_string dtype;
       Some (ASDF_VALUE_OK, set_scalar type (of_nat (asdf_scalar_datatype_size type)) byteorder d, h)
     }
   }"

text \<open>The three functions that call each other are one: a datatype, a field given as a mapping, and the
  loop over the fields of a structured type with the index of the next and the last error.\<close>

datatype 'n parse_work =
    Parse_datatype "'n asdf_value option" asdf_datatype
  | Parse_field "'n asdf_value" asdf_datatype
  | Parse_fields "'n sequence_iter option" nat asdf_datatype asdf_value_err

partial_function (option) datatype_work ::
  "'n value_env \<Rightarrow> 'n node_env \<Rightarrow> asdf_byteorder \<Rightarrow> heap \<Rightarrow> 'n parse_work \<Rightarrow>
   (asdf_value_err \<times> asdf_datatype \<times> heap) option" where
  "datatype_work ve ne byteorder h work =
     (case work of
        Parse_datatype None d \<Rightarrow> Some (ASDF_VALUE_ERR_PARSE_FAILURE, d, h)
      | Parse_datatype (Some value) d \<Rightarrow>
          if fst (asdf_value_as_sequence (Some value)) = ASDF_VALUE_OK then do {
            (is_string, h) \<leftarrow> is_string_datatype ve ne h value;
            if is_string then asdf_string_datatype_parse ve ne h value byteorder d
            else
              let (ok, h) = alloc h in
              if \<not> ok then Some (ASDF_VALUE_ERR_OOM, d, h)
              else
                let d = set_structured (nat (asdf_sequence_size ne value)) byteorder d;
                    (iter, h) = asdf_sequence_iter_init_ex ne h value False
                in datatype_work ve ne byteorder h (Parse_fields iter 0 d ASDF_VALUE_OK)
          }
          else scalar_datatype_parse ve ne h value byteorder d
      | Parse_fields iter i d err \<Rightarrow>
          (case asdf_sequence_iter_next ne h iter of
             (None, h) \<Rightarrow> Some (err, d, h)
           | (Some it, h) \<Rightarrow> do {
               item \<leftarrow> si_value it;
               (err, field, h) \<leftarrow> datatype_work ve ne byteorder h
                  (if fst (asdf_value_as_mapping (Some item)) = ASDF_VALUE_OK then Parse_field item (dt_fields d ! i)
                   else Parse_datatype (Some item) (dt_fields d ! i));
               if err \<noteq> ASDF_VALUE_OK then Some (err, set_field i field 0 d, h)
               else datatype_work ve ne byteorder h (Parse_fields (Some it) (i + 1) (set_field i field (dt_size field) d) err)
             })
      | Parse_field value field \<Rightarrow> do {
          let (datatype_val, h) = asdf_mapping_get ne h value (bytes_of ''datatype'');
          (err, field, h) \<leftarrow> datatype_work ve ne byteorder h (Parse_datatype datatype_val field);
          if err \<noteq> ASDF_VALUE_OK then Some (err, field, h)
          else field_properties ve ne h value field
        })"

definition asdf_datatype_parse ::
  "'n value_env \<Rightarrow> 'n node_env \<Rightarrow> heap \<Rightarrow> 'n asdf_value option \<Rightarrow> asdf_byteorder \<Rightarrow> asdf_datatype \<Rightarrow>
   (asdf_value_err \<times> asdf_datatype \<times> heap) option" where
  "asdf_datatype_parse ve ne h value byteorder d = datatype_work ve ne byteorder h (Parse_datatype value d)"

definition asdf_structured_datatype_field_parse ::
  "'n value_env \<Rightarrow> 'n node_env \<Rightarrow> heap \<Rightarrow> 'n asdf_value \<Rightarrow> asdf_byteorder \<Rightarrow> asdf_datatype \<Rightarrow>
   (asdf_value_err \<times> asdf_datatype \<times> heap) option" where
  "asdf_structured_datatype_field_parse ve ne h value byteorder field = datatype_work ve ne byteorder h (Parse_field value field)"

text \<open>The object of the extension; the datatype that was read in part is freed when there is an error.\<close>

definition asdf_datatype_deserialize ::
  "'n value_env \<Rightarrow> 'n node_env \<Rightarrow> heap \<Rightarrow> 'n asdf_value option \<Rightarrow>
   (asdf_value_err \<times> asdf_datatype option \<times> heap) option" where
  "asdf_datatype_deserialize ve ne h value =
     (case value of
        None \<Rightarrow> Some (ASDF_VALUE_ERR_TYPE_MISMATCH, None, h)
      | Some v \<Rightarrow>
          let (ok, h) = alloc h in
          if \<not> ok then Some (ASDF_VALUE_ERR_OOM, None, h)
          else do {
            (err, d, h) \<leftarrow> asdf_datatype_parse ve ne h (Some v) ASDF_BYTEORDER_LITTLE zero_datatype;
            Some (err, if err = ASDF_VALUE_OK then Some d else None, h)
          })"

section \<open>Copies\<close>

text \<open>A copy of the parts that are there, or none when memory runs out; what was copied before is then freed.\<close>

fun asdf_datatype_copy_impl :: "heap \<Rightarrow> asdf_datatype \<Rightarrow> asdf_datatype option \<times> heap"
and copy_fields :: "heap \<Rightarrow> asdf_datatype list \<Rightarrow> asdf_datatype list option \<times> heap" where
  "asdf_datatype_copy_impl h (Datatype t n name byteorder shape subs) =
     (let (ok, h) = (if name = None then (True, h) else alloc h) in
      if \<not> ok then (None, h)
      else
        let (ok, h) = (if shape = [] then (True, h) else alloc h) in
        if \<not> ok then (None, h)
        else
          let (ok, h) = (if subs = [] then (True, h) else alloc h) in
          if \<not> ok then (None, h)
          else (case copy_fields h subs of
              (None, h) \<Rightarrow> (None, h)
            | (Some fs, h) \<Rightarrow> (Some (Datatype t n name byteorder shape fs), h)))"
| "copy_fields h [] = (Some [], h)"
| "copy_fields h (f # fs) =
     (case asdf_datatype_copy_impl h f of
        (None, h) \<Rightarrow> (None, h)
      | (Some g, h) \<Rightarrow> (case copy_fields h fs of (None, h) \<Rightarrow> (None, h) | (Some gs, h) \<Rightarrow> (Some (g # gs), h)))"

end
