(* ===== verification/Asdf_Datatype_Write.thy ===== *)
theory Asdf_Datatype_Write
  imports Asdf_Tree_File Asdf_Datatype_Read
begin

text \<open>
  Writing a datatype to the tree (\<^verbatim>\<open>src/core/datatype.c\<close>). A value that is set in a mapping or appended to a
  sequence is consumed by that, whether it works or not; an error after it makes the code destroy the value once
  more, which is \<^term>\<open>None\<close> here.
\<close>

section \<open>Scalars\<close>

type_synonym ('s, 'n) written = "(asdf_value_err \<times> 'n asdf_value option \<times> heap \<times> 's) option"

text \<open>The size of a datatype has 64 bits, the length that is written 32.\<close>

definition asdf_datatype_serialize_string ::
  "('s, 'n) tree_ops \<Rightarrow> heap \<Rightarrow> asdf_datatype \<Rightarrow> 's \<Rightarrow> ('s, 'n) written" where
  "asdf_datatype_serialize_string ops h d s =
     (case asdf_sequence_create ops h s of
        (None, h, s) \<Rightarrow> Some (ASDF_VALUE_ERR_OOM, None, h, s)
      | (Some datatype_seq, h, s) \<Rightarrow> do {
          let fail = (\<lambda>err h s. Some (err, None, h, destroyed ops (Some datatype_seq) s));
          (err, h, s) \<leftarrow> asdf_sequence_append_string0 ops h (Some datatype_seq) (Some (asdf_scalar_datatype_to_string (dt_type d))) s;
          if err \<noteq> ASDF_VALUE_OK then fail err h s
          else
            let len = (ucast (dt_size d) :: 32 word) in
            if dt_type d = ASDF_DATATYPE_UCS4 \<and> len mod 4 \<noteq> 0 then fail ASDF_VALUE_ERR_EMIT_FAILURE h s
            else do {
              let len = (if dt_type d = ASDF_DATATYPE_UCS4 then len div 4 else len);
              (err, h, s) \<leftarrow> asdf_sequence_append_unsigned ops h (Some datatype_seq) len s;
              if err \<noteq> ASDF_VALUE_OK then fail err h s
              else do {
                (datatype_seq, s) \<leftarrow> asdf_sequence_set_style ops datatype_seq ASDF_YAML_NODE_STYLE_FLOW s;
                Some (ASDF_VALUE_OK, asdf_value_of_sequence (Some datatype_seq), h, s)
              }
            }
        })"

definition asdf_datatype_serialize_scalar ::
  "('s, 'n) tree_ops \<Rightarrow> heap \<Rightarrow> asdf_datatype \<Rightarrow> 's \<Rightarrow> ('s, 'n) written" where
  "asdf_datatype_serialize_scalar ops h d s =
     (if asdf_datatype_is_string d then asdf_datatype_serialize_string ops h d s
      else do {
        (value, h, s) \<leftarrow> asdf_value_of_string0 ops h True (Some (asdf_scalar_datatype_to_string (dt_type d))) s;
        Some (if value = None then ASDF_VALUE_ERR_OOM else ASDF_VALUE_OK, value, h, s)
      })"

section \<open>Fields\<close>

text \<open>The dimensions have 64 bits, those that are written 32.\<close>

fun append_dims ::
  "('s, 'n) tree_ops \<Rightarrow> 'n asdf_value \<Rightarrow> u64 list \<Rightarrow> heap \<Rightarrow> 's \<Rightarrow> (asdf_value_err \<times> heap \<times> 's) option" where
  "append_dims ops shape_seq [] h s = Some (ASDF_VALUE_OK, h, s)"
| "append_dims ops shape_seq (dm # dims) h s =
     (case asdf_sequence_append_unsigned ops h (Some shape_seq) (ucast dm :: 32 word) s of
        None \<Rightarrow> None
      | Some (err, h, s) \<Rightarrow> if err \<noteq> ASDF_VALUE_OK then Some (err, h, s) else append_dims ops shape_seq dims h s)"

text \<open>What is written behind the datatype of a field; no error of it is survived.\<close>

definition serialize_byteorder ::
  "('s, 'n) tree_ops \<Rightarrow> heap \<Rightarrow> asdf_byteorder \<Rightarrow> 'n asdf_value \<Rightarrow> 's \<Rightarrow> (heap \<times> 's) option" where
  "serialize_byteorder ops h byteorder field_map s =
     (if byteorder = ASDF_BYTEORDER_DEFAULT then Some (h, s)
      else do {
        (err, h, s) \<leftarrow> asdf_mapping_set_string0 ops h field_map (Some (bytes_of ''byteorder'')) (asdf_byteorder_to_string byteorder) s;
        if err \<noteq> ASDF_VALUE_OK then None else Some (h, s)
      })"

definition serialize_shape ::
  "('s, 'n) tree_ops \<Rightarrow> heap \<Rightarrow> u64 list \<Rightarrow> 'n asdf_value \<Rightarrow> 's \<Rightarrow> (heap \<times> 's) option" where
  "serialize_shape ops h shape field_map s =
     (if shape = [] then Some (h, s)
      else (case asdf_sequence_create ops h s of
          (None, h, s) \<Rightarrow> None
        | (Some shape_seq, h, s) \<Rightarrow> do {
            (err, h, s) \<leftarrow> append_dims ops shape_seq shape h s;
            if err \<noteq> ASDF_VALUE_OK then None
            else do {
              (shape_seq, s) \<leftarrow> asdf_sequence_set_style ops shape_seq ASDF_YAML_NODE_STYLE_FLOW s;
              (err, h, s) \<leftarrow> asdf_mapping_set ops h (Some field_map) (Some (bytes_of ''shape'')) (Some shape_seq) s;
              if err \<noteq> ASDF_VALUE_OK then None else Some (h, s)
            }
          }))"

text \<open>A field as a mapping. A structured type is written by the argument \<open>inner\<close>.\<close>

definition asdf_datatype_serialize_field ::
  "('s, 'n) tree_ops \<Rightarrow> (heap \<Rightarrow> 's \<Rightarrow> ('s, 'n) written) \<Rightarrow> heap \<Rightarrow> asdf_datatype \<Rightarrow> 's \<Rightarrow> ('s, 'n) written" where
  "asdf_datatype_serialize_field ops inner h field s =
     (case asdf_mapping_create ops h s of
        (None, h, s) \<Rightarrow> Some (ASDF_VALUE_ERR_OOM, None, h, s)
      | (Some field_map, h, s) \<Rightarrow> do {
          (err, h, s) \<leftarrow>
            (case dt_name field of
               None \<Rightarrow> Some (ASDF_VALUE_OK, h, s)
             | Some name \<Rightarrow> asdf_mapping_set_string0 ops h field_map (Some (bytes_of ''name'')) (Some name) s);
          if err \<noteq> ASDF_VALUE_OK then Some (err, None, h, destroyed ops (Some field_map) s)
          else do {
            (err, datatype_val, h, s) \<leftarrow>
              (if asdf_datatype_is_scalar field then asdf_datatype_serialize_scalar ops h field s else inner h s);
            if err \<noteq> ASDF_VALUE_OK then Some (err, None, h, destroyed ops (Some field_map) s)
            else do {
              (err, h, s) \<leftarrow> asdf_mapping_set ops h (Some field_map) (Some (bytes_of ''datatype'')) datatype_val s;
              if err \<noteq> ASDF_VALUE_OK then None
              else do {
                (h, s) \<leftarrow> serialize_byteorder ops h (dt_byteorder field) field_map s;
                (h, s) \<leftarrow> serialize_shape ops h (dt_shape field) field_map s;
                (field_map, s) \<leftarrow> asdf_mapping_set_style ops field_map
                  (if asdf_datatype_is_scalar field \<and> \<not> asdf_datatype_is_string field \<and> dt_shape field = []
                   then ASDF_YAML_NODE_STYLE_FLOW else ASDF_YAML_NODE_STYLE_AUTO) s;
                Some (ASDF_VALUE_OK, asdf_value_of_mapping (Some field_map), h, s)
              }
            }
          }
        })"

section \<open>Nested types\<close>

text \<open>The fields of a structured type in turn. When a field cannot be written, the code destroys the value of the
  field before it, which the sequence owns: \<open>written\<close> tells whether there is one.\<close>

lemma fields_smaller: "size_list size (dt_fields d) < size d"
  by (cases d) simp

function (sequential) asdf_datatype_serialize_impl ::
    "('s, 'n) tree_ops \<Rightarrow> asdf_datatype \<Rightarrow> bool \<Rightarrow> heap \<Rightarrow> 's \<Rightarrow> ('s, 'n) written"
  and serialize_fields ::
    "('s, 'n) tree_ops \<Rightarrow> asdf_datatype list \<Rightarrow> bool \<Rightarrow> 'n asdf_value \<Rightarrow> heap \<Rightarrow> 's \<Rightarrow> ('s, 'n) written"
where
  "asdf_datatype_serialize_impl ops d is_field h s =
     (if asdf_datatype_is_simple_scalar d then asdf_datatype_serialize_scalar ops h d s
      else if \<not> is_field \<and> asdf_datatype_is_scalar d \<and> dt_shape d = [] then asdf_datatype_serialize_scalar ops h d s
      else if is_field then asdf_datatype_serialize_field ops (\<lambda>h s. asdf_datatype_serialize_impl ops d False h s) h d s
      else if asdf_datatype_is_structured d then
        (case asdf_sequence_create ops h s of
           (None, h, s) \<Rightarrow> Some (ASDF_VALUE_ERR_OOM, None, h, s)
         | (Some datatype_seq, h, s) \<Rightarrow> serialize_fields ops (dt_fields d) False datatype_seq h s)
      else Some (ASDF_VALUE_ERR_EMIT_FAILURE, None, h, s))"
| "serialize_fields ops [] written datatype_seq h s = Some (ASDF_VALUE_OK, asdf_value_of_sequence (Some datatype_seq), h, s)"
| "serialize_fields ops (d # ds) written datatype_seq h s =
     (case asdf_datatype_serialize_impl ops d True h s of
        None \<Rightarrow> None
      | Some (err, field, h, s) \<Rightarrow>
          if err \<noteq> ASDF_VALUE_OK then
            if written then None else Some (err, None, h, destroyed ops (Some datatype_seq) s)
          else (case asdf_sequence_append ops (Some datatype_seq) field s of
              None \<Rightarrow> None
            | Some (err, s) \<Rightarrow> if err \<noteq> ASDF_VALUE_OK then None else serialize_fields ops ds True datatype_seq h s))"
  by pat_completeness auto
termination
  by (relation "measure (case_sum (\<lambda>(_, d, is_field, _, _). 2 * size d + (if is_field then 1 else 0))
        (\<lambda>(_, ds, _, _, _, _). 2 * size_list size ds))") (auto simp: fields_smaller)

declare asdf_datatype_serialize_impl.simps [simp del]

definition asdf_datatype_serialize ::
  "('s, 'n) tree_ops \<Rightarrow> bool \<Rightarrow> heap \<Rightarrow> asdf_datatype option \<Rightarrow> 's \<Rightarrow> ('n asdf_value option \<times> heap \<times> 's) option" where
  "asdf_datatype_serialize ops file h obj s =
     (case (file, obj) of
        (True, Some d) \<Rightarrow>
          map_option (\<lambda>(err, value, h, s). (if err \<noteq> ASDF_VALUE_OK then None else value, h, s))
            (asdf_datatype_serialize_impl ops d False h s)
      | _ \<Rightarrow> Some (None, h, s))"

end
