(* ===== verification/Asdf_Read_Laws.thy ===== *)
theory Asdf_Read_Laws
  imports Asdf_Property Asdf_Node_Laws
begin

text \<open>
  What the typed getters return for a node, as libfyaml shows it: a text, a non-negative integer, a sequence or
  a mapping. Allocations succeed.
\<close>

section \<open>Values of nodes\<close>

lemma infer_path:
  "infer_value env h (v\<lparr>v_path := p\<rparr>) = map_option (\<lambda>(err, v, h). (err, v\<lparr>v_path := p\<rparr>, h)) (infer_value env h v)"
proof -
  have fail: "infer_failure (v\<lparr>v_path := p\<rparr>) = (case infer_failure v of (e, v) \<Rightarrow> (e, v\<lparr>v_path := p\<rparr>))" for v :: "'a asdf_value"
    by (simp add: infer_failure_def)
  have null: "asdf_value_infer_null (v\<lparr>v_path := p\<rparr>) s = (case asdf_value_infer_null v s of (e, v) \<Rightarrow> (e, v\<lparr>v_path := p\<rparr>))"
    for v :: "'a asdf_value" and s by (simp add: asdf_value_infer_null_def fail)
  have boolean: "asdf_value_infer_bool (v\<lparr>v_path := p\<rparr>) s = (case asdf_value_infer_bool v s of (e, v) \<Rightarrow> (e, v\<lparr>v_path := p\<rparr>))"
    for v :: "'a asdf_value" and s by (simp add: asdf_value_infer_bool_def fail split: option.splits)
  have int: "asdf_value_infer_int h (v\<lparr>v_path := p\<rparr>) s =
      map_option (\<lambda>(e, v, h). (e, v\<lparr>v_path := p\<rparr>, h)) (asdf_value_infer_int h v s)"
    for v :: "'a asdf_value" and s h
    by (auto simp: asdf_value_infer_int_def Let_def split: option.splits bind_splits)
  have fl: "asdf_value_infer_float dp h (v\<lparr>v_path := p\<rparr>) s a =
      (case asdf_value_infer_float dp h v s a of (e, v, h) \<Rightarrow> (e, v\<lparr>v_path := p\<rparr>, h))"
    for v :: "'a asdf_value" and s h a dp
    by (auto simp: asdf_value_infer_float_def Let_def split: prod.splits)
  have plain: "infer_plain env h (v\<lparr>v_path := p\<rparr>) s =
      map_option (\<lambda>(e, v, h). (e, v\<lparr>v_path := p\<rparr>, h)) (infer_plain env h v s)"
    for v :: "'a asdf_value" and s h
    by (auto simp: infer_plain_def Let_def null boolean int fl split: prod.splits option.splits bind_splits)
  have tagged: "infer_tagged env h (v\<lparr>v_path := p\<rparr>) s t =
      map_option (\<lambda>(e, v, h). (e, v\<lparr>v_path := p\<rparr>, h)) (infer_tagged env h v s t)"
    for v :: "'a asdf_value" and s h t
    by (cases t) (auto simp: infer_tagged_def null boolean int fl split: prod.splits)
  obtain tag v' h' where t: "asdf_value_tag env h v = (tag, v', h')" by (metis prod_cases3)
  then have tp: "asdf_value_tag env h (v\<lparr>v_path := p\<rparr>) = (tag, v'\<lparr>v_path := p\<rparr>, h')"
    by (auto simp: asdf_value_tag_def Let_def split: prod.splits option.splits if_splits)
  show ?thesis
    by (auto simp: infer_value_def Let_def t tp plain tagged split: option.splits asdf_yaml_common_tag.splits)
qed

lemma infer_plain_no_heap: "infer_plain env [] v s = Some (err, v', h) \<Longrightarrow> h = []"
  using is_float_no_heap
  by (auto simp: infer_plain_def asdf_value_infer_int_def asdf_value_infer_float_def Let_def bind_eq_Some_conv case_prod_beta
      dest!: is_int_no_heap split: if_splits)

text \<open>A node that reads as a text, and one that reads as an integer.\<close>

definition text_node :: "'n value_env \<Rightarrow> 'n node_env \<Rightarrow> 'n \<Rightarrow> bytes \<Rightarrow> bool" where
  "text_node ve ne n s \<longleftrightarrow> fy_node_get_type ne n = FYNT_SCALAR \<and> \<not> fy_node_is_alias ne n \<and> fy_node_get_scalar0 ne n = Some s \<and>
     (quoted_style (fy_node_get_style ve n) \<or> plain_node ve n s \<and> resolves_as_string (ve_point ve) [] s)"

definition int_node :: "'n value_env \<Rightarrow> 'n node_env \<Rightarrow> 'n \<Rightarrow> u64 \<Rightarrow> bool" where
  "int_node ve ne n w \<longleftrightarrow> fy_node_get_type ne n = FYNT_SCALAR \<and> \<not> fy_node_is_alias ne n \<and> plain_node ve n (int_dec (uint w))"

lemma scalar_node_value: "fy_node_get_type ne n = FYNT_SCALAR \<Longrightarrow> node_value ne n p = (fresh_value n)\<lparr>v_path := p\<rparr>"
  by (simp add: node_value_def fresh_value_def)

lemma infer_text:
  assumes "text_node ve ne n s"
  shows "\<exists>v. infer_value ve [] (node_value ne n p) = Some (ASDF_VALUE_OK, v, []) \<and> v_type v = ASDF_VALUE_STRING \<and> v_node v = n"
proof -
  have "\<exists>v. infer_value ve [] (fresh_value n) = Some (ASDF_VALUE_OK, v, []) \<and> v_type v = ASDF_VALUE_STRING \<and> v_node v = n"
  proof (cases "quoted_style (fy_node_get_style ve n)")
    case True
    then show ?thesis by (simp add: infer_value_def fresh_value_def)
  next
    case False
    then have plain: "plain_node ve n s" "resolves_as_string (ve_point ve) [] s" using assms by (auto simp: text_node_def)
    obtain v h where v: "infer_value ve [] (fresh_value n) = Some (ASDF_VALUE_OK, v, h)" "v_type v = ASDF_VALUE_STRING" "v_node v = n"
      using infer_string [OF plain] by blast
    have "h = []" using v(1) unfolding infer_fresh_plain [OF plain(1)] by (rule infer_plain_no_heap)
    then show ?thesis using v by blast
  qed
  then show ?thesis using assms by (auto simp: text_node_def scalar_node_value infer_path)
qed

lemma infer_int:
  assumes "int_node ve ne n w"
  shows "\<exists>v. infer_value ve [] (node_value ne n p) = Some (ASDF_VALUE_OK, v, []) \<and> v_type v \<in> int_types \<and>
    (\<exists>u. v_scalar v = Word u \<and> fits (v_type v) (Word u) \<and> num_of (v_type v) u = uint w) \<and> v_node v = n"
proof -
  have plain: "plain_node ve n (int_dec (uint w))" using assms by (simp add: int_node_def)
  have "- 9223372036854775808 \<le> uint w" by (rule uint_above) simp
  then obtain t u where "asdf_value_infer_int [] (snd (infer_failure ((fresh_value n)\<lparr>v_explicit_tag_checked := True\<rparr>))) (Some (int_dec (uint w))) =
        Some (ASDF_VALUE_OK, snd (infer_failure ((fresh_value n)\<lparr>v_explicit_tag_checked := True\<rparr>))
          \<lparr>v_type := t, v_scalar := Word u, v_err := ASDF_VALUE_OK\<rparr>, [])"
      "t \<in> int_types" "inferred t (Word u)" "num_of t u = uint w"
    using infer_int_dec uint_u64 [of w] by blast
  then have "\<exists>v. infer_value ve [] (fresh_value n) = Some (ASDF_VALUE_OK, v, []) \<and> v_type v \<in> int_types \<and>
    (\<exists>u. v_scalar v = Word u \<and> fits (v_type v) (Word u) \<and> num_of (v_type v) u = uint w) \<and> v_node v = n"
    using dec_not_null [of "uint w"] unfolding infer_fresh_plain [OF plain]
    by (auto simp: infer_plain_def asdf_value_infer_null_def infer_failure_def inferred_def fresh_value_def)
  then show ?thesis using assms by (auto simp: int_node_def scalar_node_value infer_path)
qed

lemma string_of_text:
  "text_node ve ne n s \<Longrightarrow>
   \<exists>v. asdf_value_as_string0 ve ne [] (Some (node_value ne n p)) = Some (ASDF_VALUE_OK, Some (Some s), Some v, [])"
  using infer_text [of ve ne n s p] by (auto simp: asdf_value_as_string0_def asdf_value_infer_scalar_type_def text_node_def)

lemma uint64_of_int:
  assumes "int_node ve ne n w"
  shows "\<exists>v. asdf_value_as_uint64 ve [] (Some (node_value ne n p)) = Some (ASDF_VALUE_OK, Some w, Some v, [])"
    "\<exists>v. asdf_value_is_uint64 ve [] (Some (node_value ne n p)) = Some (True, Some v, [])"
proof -
  obtain v u where v: "infer_value ve [] (node_value ne n p) = Some (ASDF_VALUE_OK, v, [])" "v_type v \<in> int_types"
      "v_scalar v = Word u" "fits (v_type v) (Word u)" "num_of (v_type v) u = uint w"
    using infer_int [OF assms] by blast
  have "as_uint64_of (ve_platform ve) (v_type v) (Word u) = (ASDF_VALUE_OK, Some w)"
    using as_uint64 [OF v(2,4)] uint_u64 [of w] by (simp add: v(5) int_result_def)
  then show "\<exists>v. asdf_value_as_uint64 ve [] (Some (node_value ne n p)) = Some (ASDF_VALUE_OK, Some w, Some v, [])"
    by (simp add: asdf_value_as_uint64_def as_scalar_with_def asdf_value_infer_scalar_type_def v(1,3) del: as_uint64_of.simps)
  show "\<exists>v. asdf_value_is_uint64 ve [] (Some (node_value ne n p)) = Some (True, Some v, [])"
    using v(2,5) uint_u64 [of w] uint_above [of 0 w]
    by (auto simp: asdf_value_is_uint64_def is_scalar_with_def asdf_value_infer_scalar_type_def v(1,3) num_of_def scalar_i_def int_types_def
        split: if_splits)
qed

section \<open>Containers and properties\<close>

text \<open>A sequence and a mapping: looking up an item by its index is what iterating over the items finds.\<close>

definition seq_node :: "'n node_env \<Rightarrow> 'n \<Rightarrow> 'n list \<Rightarrow> bool" where
  "seq_node ne n items \<longleftrightarrow> fy_node_get_type ne n = FYNT_SEQUENCE \<and> \<not> fy_node_is_alias ne n \<and>
     fy_node_items ne n = items \<and>
     (\<forall>i < length items. fy_node_sequence_get_by_index ne n (int i) = Some (items ! i))"

definition map_node :: "'n node_env \<Rightarrow> 'n \<Rightarrow> bool" where
  "map_node ne n \<longleftrightarrow> fy_node_get_type ne n = FYNT_MAPPING \<and> \<not> fy_node_is_alias ne n"

text \<open>What a value is that wraps the node \<open>n\<close>.\<close>

definition is_seq :: "'n asdf_value \<Rightarrow> 'n \<Rightarrow> bool" where
  "is_seq v n \<longleftrightarrow> v_type v = ASDF_VALUE_SEQUENCE \<and> v_raw_type v = ASDF_VALUE_SEQUENCE \<and> v_node v = n"

definition is_map :: "'n asdf_value \<Rightarrow> 'n \<Rightarrow> bool" where
  "is_map v n \<longleftrightarrow> v_type v = ASDF_VALUE_MAPPING \<and> v_raw_type v = ASDF_VALUE_MAPPING \<and> v_node v = n"

lemma node_value_seq: "seq_node ne n items \<Longrightarrow> is_seq (node_value ne n p) n"
  by (simp add: seq_node_def is_seq_def node_value_def)

lemma node_value_map: "map_node ne n \<Longrightarrow> is_map (node_value ne n p) n"
  by (simp add: map_node_def is_map_def node_value_def)

lemma get_item:
  assumes "is_seq v n" and "seq_node ne n items" and "i < length items" and "\<not> fy_node_is_alias ne (items ! i)"
  shows "\<exists>p. asdf_sequence_get ne [] v (int i) = (Some (node_value ne (items ! i) p), [])"
  using assms by (auto simp: asdf_sequence_get_def asdf_value_is_sequence_def is_seq_def seq_node_def create_ex_no_heap
      child_value_def target_node_def)

lemma get_key:
  assumes "is_map v n" and "fy_node_mapping_lookup_value_by_simple_key ne n key = Some c" and "\<not> fy_node_is_alias ne c"
  shows "\<exists>p. asdf_mapping_get ne [] v key = (Some (node_value ne c p), [])"
  using assms by (auto simp: asdf_mapping_get_def is_map_def create_ex_no_heap child_value_def target_node_def)

lemma get_no_key:
  "is_map v n \<Longrightarrow> fy_node_mapping_lookup_value_by_simple_key ne n key = None \<Longrightarrow> asdf_mapping_get ne [] v key = (None, [])"
  by (simp add: asdf_mapping_get_def is_map_def)

lemma no_property:
  "is_map v n \<Longrightarrow> fy_node_mapping_lookup_value_by_simple_key ne n key = None \<Longrightarrow>
   asdf_get_property_impl ve ne exts [] v key type tag = Some (ASDF_VALUE_ERR_NOT_FOUND, None, [])"
  by (simp add: asdf_get_property_impl_def get_no_key)

lemma text_property:
  assumes "is_map v n" and "fy_node_mapping_lookup_value_by_simple_key ne n key = Some c" and t: "text_node ve ne c s"
  shows "asdf_get_property_impl ve ne exts [] v key ASDF_VALUE_STRING tag = Some (ASDF_VALUE_OK, Some (Typed_text (Some s)), [])"
proof -
  obtain p where p: "asdf_mapping_get ne [] v key = (Some (node_value ne c p), [])"
    using get_key [OF assms(1,2)] t by (auto simp: text_node_def)
  obtain w where w: "infer_value ve [] (node_value ne c p) = Some (ASDF_VALUE_OK, w, [])" "v_type w = ASDF_VALUE_STRING" "v_node w = c"
    using infer_text [OF t] by blast
  have "v_type (node_value ne c p) = ASDF_VALUE_SCALAR" using t by (simp add: node_value_def text_node_def)
  moreover have "infer_value ve [] w = Some (ASDF_VALUE_OK, w, [])" using w(2) by (simp add: infer_value_def)
  ultimately show ?thesis
    using w t by (simp add: asdf_get_property_impl_def p asdf_value_get_type_def is_equivalent_type_def as_type_result_def
        typed_as_def asdf_value_as_string0_def asdf_value_infer_scalar_type_def text_node_def)
qed

lemma sequence_property:
  assumes "is_map v n" and "fy_node_mapping_lookup_value_by_simple_key ne n key = Some c" and s: "seq_node ne c items"
    and "fy_node_is_attached ne c"
  shows "\<exists>w. asdf_get_property_impl ve ne exts [] v key ASDF_VALUE_SEQUENCE tag = Some (ASDF_VALUE_OK, Some (Typed_value (Some w)), []) \<and>
    is_seq w c"
proof -
  obtain p where p: "asdf_mapping_get ne [] v key = (Some (node_value ne c p), [])"
    using get_key [OF assms(1,2)] s by (auto simp: seq_node_def)
  have t: "v_type (node_value ne c p) = ASDF_VALUE_SEQUENCE" "v_raw_type (node_value ne c p) = ASDF_VALUE_SEQUENCE"
    "v_node (node_value ne c p) = c" "v_tag (node_value ne c p) = None"
    using s by (simp_all add: node_value_def seq_node_def)
  obtain q where q: "copied_path ne [] (node_value ne c p) = (q, [])"
    by (cases "v_path (node_value ne c p)") (auto simp: copied_path_def dup_def Let_def)
  show ?thesis
    using s q assms(4) by (auto simp: asdf_get_property_impl_def p asdf_value_get_type_def is_equivalent_type_def as_type_result_def t
        copy_if_def asdf_value_is_sequence_def asdf_value_copy_def asdf_value_copy_shallow_def dup_def seq_node_def is_seq_def)
qed

text \<open>Iterating over a sequence of nodes that are no aliases.\<close>

lemma next_item:
  assumes "si_rest it = m # rest" and "is_seq (si_sequence it) n" and "\<not> fy_node_is_alias ne m" and "\<not> si_reverse it"
  shows "\<exists>p. asdf_sequence_iter_next ne [] (Some it) =
    (Some (it\<lparr>si_index := si_index it + 1, si_value := Some (node_value ne m p), si_rest := rest\<rparr>), [])"
  using assms by (auto simp: asdf_sequence_iter_next_def is_seq_def create_ex_no_heap child_value_def target_node_def Let_def)

lemma no_next_item:
  "si_rest it = [] \<Longrightarrow> is_seq (si_sequence it) n \<Longrightarrow> asdf_sequence_iter_next ne [] (Some it) = (None, [])"
  by (simp add: asdf_sequence_iter_next_def is_seq_def)

lemma start_items:
  assumes "is_seq v n" and "seq_node ne n items"
  shows "\<exists>it. asdf_sequence_iter_init_ex ne [] v False = (Some it, []) \<and> si_rest it = items \<and> si_sequence it = v \<and> \<not> si_reverse it"
  using assms by (simp add: asdf_sequence_iter_init_ex_def is_seq_def seq_node_def in_order_def)

lemma items_size: "is_seq v n \<Longrightarrow> seq_node ne n items \<Longrightarrow> asdf_sequence_size ne v = int (length items)"
  by (simp add: asdf_sequence_size_def asdf_value_is_sequence_def is_seq_def seq_node_def)

end
