(* ===== verification/Asdf_Tree_Laws.thy ===== *)
theory Asdf_Tree_Laws
  imports Asdf_Tree_File Asdf_Read_Laws
begin

text \<open>
  What the operations that build a tree make, for a document that behaves as libfyaml documents it: the laws say
  what each operation does to the nodes that are not yet part of a container. Allocations succeed and there is a
  document.
\<close>

section \<open>The contents of a node\<close>

datatype content = Text bytes | Number u64 | Sequence "content list" | Mapping "(bytes \<times> content) list"

definition keys_of :: "(bytes \<times> content) list \<Rightarrow> bytes set" where
  "keys_of ps = fst ` set ps"

text \<open>How the functions of libfyaml show contents; a node in a container is attached to it.\<close>

fun displays :: "'n value_env \<Rightarrow> 'n node_env \<Rightarrow> content \<Rightarrow> 'n \<Rightarrow> bool" where
  "displays ve ne (Text s) n \<longleftrightarrow> text_node ve ne n s"
| "displays ve ne (Number w) n \<longleftrightarrow> int_node ve ne n w"
| "displays ve ne (Sequence ts) n \<longleftrightarrow> (\<exists>items. seq_node ne n items \<and> list_all2 (displays ve ne) ts items)"
| "displays ve ne (Mapping ps) n \<longleftrightarrow> map_node ne n \<and>
     (\<forall>p \<in> set ps. \<exists>c. fy_node_mapping_lookup_value_by_simple_key ne n (fst p) = Some c \<and> fy_node_is_attached ne c \<and>
        displays ve ne (snd p) c) \<and>
     (\<forall>k. k \<notin> keys_of ps \<longrightarrow> fy_node_mapping_lookup_value_by_simple_key ne n k = None)"

text \<open>Texts of printable characters of ASCII. They have no line breaks, which YAML would fold between quotes,
  and no null bytes.\<close>

definition printable :: "bytes \<Rightarrow> bool" where
  "printable s \<longleftrightarrow> (\<forall>c \<in> set s. 32 \<le> c \<and> c < 127)"

definition short_text :: "bytes \<Rightarrow> bool" where
  "short_text s \<longleftrightarrow> printable s \<and> length s \<le> INT_MAX"

lemma printable_cases: "printable s \<Longrightarrow> 0 \<notin> set s \<and> \<not> (\<exists>c \<in> set s. is_break c)"
  by (fastforce simp: printable_def is_break_def)

lemma printable_folds: "printable s \<Longrightarrow> fold_text s = s"
  using printable_cases fold_text_id by blast

text \<open>What a request makes: a quoted text, a text that no other type claims, or an integer. What is said of texts
  is said of printable ones only.\<close>

definition requests :: "bytes \<Rightarrow> node_request \<Rightarrow> content \<Rightarrow> bool" where
  "requests dp q t \<longleftrightarrow>
     (\<exists>s. t = Text s \<and> printable s \<and> (q = Create_scalar s \<and> resolves_as_string dp [] s \<or> q = Build_from_string (single_quoted s))) \<or>
     (\<exists>w. t = Number w \<and> q = Create_scalar (int_dec (uint w)))"

section \<open>The laws\<close>

text \<open>\<open>nodes\<close> gives the contents of the nodes that are not in a container. A new node is none of them.\<close>

definition made :: "('s \<Rightarrow> 'n \<Rightarrow> content option) \<Rightarrow> 's \<Rightarrow> content \<Rightarrow> 'n option \<times> 's \<Rightarrow> bool" where
  "made nodes s t r \<longleftrightarrow> (\<exists>n. fst r = Some n \<and> nodes s n = None \<and> nodes (snd r) = (nodes s)(n \<mapsto> t))"

definition creation_laws :: "('s, 'n) tree_ops \<Rightarrow> ('s \<Rightarrow> 'n \<Rightarrow> content option) \<Rightarrow> bool" where
  "creation_laws ops nodes \<longleftrightarrow>
     (\<forall>s. to_document ops s = (True, s)) \<and>
     (\<forall>s n t. nodes s n = Some t \<longrightarrow> displays (to_values ops s) (to_nodes ops s) t n) \<and>
     (\<forall>s q t. requests (point ops s) q t \<longrightarrow> made nodes s t (fy_node_create ops q s)) \<and>
     (\<forall>s. made nodes s (Mapping []) (fy_node_create_mapping ops s)) \<and>
     (\<forall>s. made nodes s (Sequence []) (fy_node_create_sequence ops s)) \<and>
     (\<forall>s n b t. nodes s n = Some t \<longrightarrow> made nodes s t (fy_node_set_style ops n b s)) \<and>
     (\<forall>s n. nodes (fy_node_free ops (Some n) s) = (nodes s)(n := None))"

text \<open>What is put in a container is no longer on its own.\<close>

definition container_laws :: "('s, 'n) tree_ops \<Rightarrow> ('s \<Rightarrow> 'n \<Rightarrow> content option) \<Rightarrow> bool" where
  "container_laws ops nodes \<longleftrightarrow>
     (\<forall>s q n ts t. nodes s q = Some (Sequence ts) \<and> nodes s n = Some t \<and> q \<noteq> n \<longrightarrow>
        (\<exists>s'. fy_node_sequence_append ops q (Some n) s = (True, s') \<and>
          nodes s' = (nodes s)(n := None, q \<mapsto> Sequence (ts @ [t])))) \<and>
     (\<forall>s m k ps key. nodes s m = Some (Mapping ps) \<and> nodes s k = Some (Text key) \<and> key \<notin> keys_of ps \<longrightarrow>
        fy_node_mapping_lookup_pair ops m (Some k) s = None) \<and>
     (\<forall>s m k n ps key t. nodes s m = Some (Mapping ps) \<and> nodes s k = Some (Text key) \<and> nodes s n = Some t \<and>
        key \<notin> keys_of ps \<and> m \<noteq> k \<and> m \<noteq> n \<and> k \<noteq> n \<longrightarrow>
        (\<exists>s'. fy_node_mapping_append ops m (Some k) n s = (True, s') \<and>
          nodes s' = (nodes s)(k := None, n := None, m \<mapsto> Mapping (ps @ [(key, t)]))))"

definition document_laws :: "('s, 'n) tree_ops \<Rightarrow> ('s \<Rightarrow> 'n \<Rightarrow> content option) \<Rightarrow> bool" where
  "document_laws ops nodes \<longleftrightarrow> creation_laws ops nodes \<and> container_laws ops nodes"

lemma document:
  assumes "document_laws ops nodes"
  shows "to_document ops s = (True, s)"
    "nodes s n = Some t \<Longrightarrow> displays (to_values ops s) (to_nodes ops s) t n"
    "requests (point ops s) q t \<Longrightarrow> made nodes s t (fy_node_create ops q s)"
    "made nodes s (Mapping []) (fy_node_create_mapping ops s)"
    "made nodes s (Sequence []) (fy_node_create_sequence ops s)"
    "nodes s n = Some t \<Longrightarrow> made nodes s t (fy_node_set_style ops n b s)"
    "nodes (fy_node_free ops (Some n) s) = (nodes s)(n := None)"
    "nodes s sq = Some (Sequence ts) \<Longrightarrow> nodes s n = Some t \<Longrightarrow> sq \<noteq> n \<Longrightarrow>
      \<exists>s'. fy_node_sequence_append ops sq (Some n) s = (True, s') \<and> nodes s' = (nodes s)(n := None, sq \<mapsto> Sequence (ts @ [t]))"
    "nodes s m = Some (Mapping ps) \<Longrightarrow> nodes s k = Some (Text key) \<Longrightarrow> key \<notin> keys_of ps \<Longrightarrow>
      fy_node_mapping_lookup_pair ops m (Some k) s = None"
    "nodes s m = Some (Mapping ps) \<Longrightarrow> nodes s k = Some (Text key) \<Longrightarrow> nodes s n = Some t \<Longrightarrow> key \<notin> keys_of ps \<Longrightarrow>
      m \<noteq> k \<Longrightarrow> m \<noteq> n \<Longrightarrow> k \<noteq> n \<Longrightarrow>
      \<exists>s'. fy_node_mapping_append ops m (Some k) n s = (True, s') \<and>
        nodes s' = (nodes s)(k := None, n := None, m \<mapsto> Mapping (ps @ [(key, t)]))"
  using assms by (simp_all add: document_laws_def creation_laws_def container_laws_def)

lemma made_cases:
  assumes "made nodes s t r"
  obtains n s' where "r = (Some n, s')" "nodes s n = None" "nodes s' = (nodes s)(n \<mapsto> t)"
  using assms by (cases r) (auto simp: made_def)

section \<open>Making nodes\<close>

lemma string_request:
  assumes "short_text str"
  shows "\<exists>q. asdf_node_of_string0 dp [] (Some str) = Some (Some q, []) \<and> requests dp q (Text str)"
proof -
  obtain amb h where a: "asdf_yaml_string_is_ambiguous dp [] (str @ [0]) (length str) = Some (amb, h)"
      "\<not> amb \<longrightarrow> resolves_as_string dp [] str"
    using ambiguous_correct [of "length str" "str @ [0]" dp "[]"] by auto
  have "h = []" by (rule ambiguous_no_heap [OF a(1)])
  then show ?thesis
    using a assms printable_cases [of str]
    by (cases amb) (auto simp: asdf_node_of_string0_def asdf_node_of_string_def c_text_id requests_def short_text_def)
qed

lemma requested:
  assumes laws: "document_laws ops nodes" and "r = Some (Some q, [])" and "requests (point ops s) q t"
  shows "\<exists>n s'. create_requested ops r s = Some (Some n, [], s') \<and> nodes s n = None \<and> nodes s' = (nodes s)(n \<mapsto> t)"
  using document(3) [OF laws assms(3)] by (auto simp: create_requested_def assms(2) elim!: made_cases)

lemma unsigned_request: "requests dp (asdf_node_of_unsigned (w :: 32 word)) (Number (ucast w))"
proof -
  have "uint (ucast w :: u64) = uint w" by (simp add: uint_up_ucast is_up)
  then show ?thesis by (simp add: requests_def asdf_node_of_unsigned_def)
qed

text \<open>A value made of a node of the document wraps it.\<close>

lemma displayed_no_alias: "displays ve ne t n \<Longrightarrow> \<not> fy_node_is_alias ne n"
  by (cases t) (auto simp: text_node_def int_node_def seq_node_def map_node_def)

lemma value_of_node:
  assumes "document_laws ops nodes" and "nodes s n = Some t"
  shows "asdf_value_create (to_nodes ops s) [] n = (Some (node_value (to_nodes ops s) n None), [])"
  using displayed_no_alias [OF document(2) [OF assms]]
  by (simp add: asdf_value_create_def asdf_value_create_ex_def value_path_def)

lemma sequence_created:
  assumes "document_laws ops nodes"
  shows "\<exists>v s'. asdf_sequence_create ops [] s = (Some v, [], s') \<and> nodes s (v_node v) = None \<and>
    nodes s' = (nodes s)(v_node v \<mapsto> Sequence []) \<and> v_style v = Some ASDF_YAML_NODE_STYLE_AUTO"
proof -
  obtain n s' where n: "fy_node_create_sequence ops s = (Some n, s')" "nodes s n = None" "nodes s' = (nodes s)(n \<mapsto> Sequence [])"
    using document(5) [OF assms] by (blast elim: made_cases)
  then have "nodes s' n = Some (Sequence [])" by simp
  then show ?thesis
    using n value_of_node [OF assms, of s' n] by (simp add: asdf_sequence_create_def document(1) [OF assms] node_value_def)
qed

lemma mapping_created:
  assumes "document_laws ops nodes"
  shows "\<exists>v s'. asdf_mapping_create ops [] s = (Some v, [], s') \<and> nodes s (v_node v) = None \<and>
    nodes s' = (nodes s)(v_node v \<mapsto> Mapping []) \<and> v_style v = Some ASDF_YAML_NODE_STYLE_AUTO"
proof -
  obtain n s' where n: "fy_node_create_mapping ops s = (Some n, s')" "nodes s n = None" "nodes s' = (nodes s)(n \<mapsto> Mapping [])"
    using document(4) [OF assms] by (blast elim: made_cases)
  then have "nodes s' n = Some (Mapping [])" by simp
  then show ?thesis
    using n value_of_node [OF assms, of s' n] by (simp add: asdf_mapping_create_def document(1) [OF assms] node_value_def)
qed

lemma string_value:
  assumes laws: "document_laws ops nodes" and "short_text str"
  shows "\<exists>v s'. asdf_value_of_string0 ops [] True (Some str) s = Some (Some v, [], s') \<and> nodes s (v_node v) = None \<and>
    nodes s' = (nodes s)(v_node v \<mapsto> Text str)"
proof -
  obtain q where q: "asdf_node_of_string0 (point ops s) [] (Some str) = Some (Some q, [])" "requests (point ops s) q (Text str)"
    using string_request [OF assms(2)] by blast
  obtain n s' where n: "create_requested ops (asdf_node_of_string0 (point ops s) [] (Some str)) s = Some (Some n, [], s')"
      "nodes s n = None" "nodes s' = (nodes s)(n \<mapsto> Text str)"
    using requested [OF laws q] by blast
  then have "nodes s' n = Some (Text str)" by simp
  then show ?thesis
    using n value_of_node [OF laws, of s' n]
    by (simp add: asdf_value_of_string0_def value_of_with_def document(1) [OF laws] node_value_def)
qed

section \<open>Filling containers\<close>

lemma appended:
  assumes laws: "document_laws ops nodes" and q: "nodes s (v_node sq) = Some (Sequence ts)"
    and r: "node_of (point ops s) [] = Some (Some q, [])" "requests (point ops s) q t"
  shows "\<exists>s'. sequence_append_with ops [] (Some sq) node_of s = Some (ASDF_VALUE_OK, [], s') \<and>
    nodes s' = (nodes s)(v_node sq \<mapsto> Sequence (ts @ [t]))"
proof -
  obtain n s1 where n: "create_requested ops (node_of (point ops s) []) s = Some (Some n, [], s1)"
      "nodes s n = None" "nodes s1 = (nodes s)(n \<mapsto> t)"
    using requested [OF laws r] by blast
  have d: "n \<noteq> v_node sq" using n(2) q by auto
  obtain s2 where s2: "fy_node_sequence_append ops (v_node sq) (Some n) s1 = (True, s2)"
      "nodes s2 = (nodes s1)(n := None, v_node sq \<mapsto> Sequence (ts @ [t]))"
    using document(8) [OF laws, of s1 "v_node sq" ts n t] n(3) q d by auto
  have "nodes s2 = (nodes s)(v_node sq \<mapsto> Sequence (ts @ [t]))" using n(2,3) s2(2) by (auto simp: fun_eq_iff)
  then show ?thesis using n(1) s2(1) by (simp add: sequence_append_with_def document(1) [OF laws])
qed

lemma string_appended:
  assumes "document_laws ops nodes" and "nodes s (v_node sq) = Some (Sequence ts)" and "short_text str"
  shows "\<exists>s'. asdf_sequence_append_string0 ops [] (Some sq) (Some str) s = Some (ASDF_VALUE_OK, [], s') \<and>
    nodes s' = (nodes s)(v_node sq \<mapsto> Sequence (ts @ [Text str]))"
  using appended [where node_of = "\<lambda>dp h. asdf_node_of_string0 dp h (Some str)", OF assms(1,2)] string_request [OF assms(3)]
  unfolding asdf_sequence_append_string0_def by blast

lemma number_appended:
  assumes "document_laws ops nodes" and "nodes s (v_node sq) = Some (Sequence ts)"
  shows "\<exists>s'. asdf_sequence_append_unsigned ops [] (Some sq) (w :: 32 word) s = Some (ASDF_VALUE_OK, [], s') \<and>
    nodes s' = (nodes s)(v_node sq \<mapsto> Sequence (ts @ [Number (ucast w)]))"
  using appended [where node_of = "\<lambda>dp h. Some (Some (asdf_node_of_unsigned w), h)", OF assms] unsigned_request [of _ w]
  unfolding asdf_sequence_append_unsigned_def by blast

text \<open>A style changes the node, not the contents.\<close>

definition moved :: "('s \<Rightarrow> 'n \<Rightarrow> content option) \<Rightarrow> 's \<Rightarrow> 'n \<Rightarrow> content \<Rightarrow> 'n \<Rightarrow> 's \<Rightarrow> bool" where
  "moved nodes s n t n' s' \<longleftrightarrow> nodes s' = (nodes s)(n := None, n' \<mapsto> t) \<and> (n' = n \<or> nodes s n' = None)"

lemma moved_refl: "nodes s n = Some t \<Longrightarrow> moved nodes s n t n s"
  by (auto simp: moved_def fun_eq_iff)

lemma restyled:
  assumes laws: "document_laws ops nodes" and "nodes s n = Some t"
  shows "\<exists>n' s'. asdf_yaml_node_set_style ops n style s = (Some n', s') \<and> moved nodes s n t n' (fy_node_free ops (Some n) s')"
proof -
  obtain n' s' where "asdf_yaml_node_set_style ops n style s = (Some n', s')" "nodes s n' = None" "nodes s' = (nodes s)(n' \<mapsto> t)"
    using document(6) [OF assms] unfolding asdf_yaml_node_set_style_def by (blast elim: made_cases)
  moreover from this have "n' \<noteq> n" using assms(2) by auto
  ultimately show ?thesis
    by (auto simp: moved_def document(7) [OF laws] fun_eq_iff)
qed

lemma style_set:
  assumes laws: "document_laws ops nodes" and n: "nodes s (v_node v) = Some t" and "v_style v \<noteq> None"
  shows "\<exists>v' s'. asdf_value_set_style ops v style s = Some (v', s') \<and> moved nodes s (v_node v) t (v_node v') s'"
proof -
  obtain current where c: "v_style v = Some current" using assms(3) by blast
  obtain n' s' where "asdf_yaml_node_set_style ops (v_node v) style s = (Some n', s')"
      "moved nodes s (v_node v) t n' (fy_node_free ops (Some (v_node v)) s')"
    using restyled [OF laws n] by blast
  then show ?thesis
    using moved_refl [of nodes s "v_node v" t] n by (auto simp: asdf_value_set_style_def c document(1) [OF laws] Let_def)
qed

lemma normalized:
  assumes laws: "document_laws ops nodes" and n: "nodes s (v_node v) = Some t"
  shows "\<exists>n' s'. asdf_value_normalize_node ops v s = (Some n', s') \<and> moved nodes s (v_node v) t n' s'"
proof -
  obtain n' s' where "asdf_yaml_node_set_style ops (v_node v) ASDF_YAML_NODE_STYLE_FLOW s = (Some n', s')"
      "moved nodes s (v_node v) t n' (fy_node_free ops (Some (v_node v)) s')"
    using restyled [OF laws n] by blast
  then show ?thesis
    using moved_refl [of nodes s "v_node v" t] n by (auto simp: asdf_value_normalize_node_def document(1) [OF laws] Let_def)
qed

lemma value_appended:
  assumes laws: "document_laws ops nodes" and q: "nodes s (v_node sq) = Some (Sequence ts)" and n: "nodes s (v_node v) = Some t"
    and d: "v_node v \<noteq> v_node sq"
  shows "\<exists>s'. asdf_sequence_append ops (Some sq) (Some v) s = Some (ASDF_VALUE_OK, s') \<and>
    nodes s' = (nodes s)(v_node v := None, v_node sq \<mapsto> Sequence (ts @ [t]))"
proof -
  obtain n' s1 where n': "asdf_value_normalize_node ops v s = (Some n', s1)" "moved nodes s (v_node v) t n' s1"
    using normalized [OF laws n] by blast
  have "n' \<noteq> v_node sq" using n'(2) q d by (auto simp: moved_def)
  then obtain s2 where s2: "fy_node_sequence_append ops (v_node sq) (Some n') s1 = (True, s2)"
      "nodes s2 = (nodes s1)(n' := None, v_node sq \<mapsto> Sequence (ts @ [t]))"
    using document(8) [OF laws, of s1 "v_node sq" ts n' t] n'(2) q d by (auto simp: moved_def)
  have "nodes s2 = (nodes s)(v_node v := None, v_node sq \<mapsto> Sequence (ts @ [t]))"
    using s2(2) n'(2) by (auto simp: moved_def fun_eq_iff)
  then show ?thesis using n'(1) s2(1) by (simp add: asdf_sequence_append_def document(1) [OF laws])
qed

lemma node_set:
  assumes laws: "document_laws ops nodes" and m: "nodes s (v_node m) = Some (Mapping ps)" and n: "nodes s n = Some t"
    and d: "n \<noteq> v_node m" and k: "key \<notin> keys_of ps" "short_text key"
  shows "\<exists>s'. asdf_mapping_set_node_ex ops [] (Some m) (Some key) (Some n) False s = Some (ASDF_VALUE_OK, [], s') \<and>
    nodes s' = (nodes s)(n := None, v_node m \<mapsto> Mapping (ps @ [(key, t)]))"
proof -
  obtain q where q: "asdf_node_of_string0 (point ops s) [] (Some key) = Some (Some q, [])" "requests (point ops s) q (Text key)"
    using string_request [OF k(2)] by blast
  obtain kn s1 where s1: "string0_node ops [] (Some key) s = Some (Some kn, [], s1)" "nodes s kn = None"
      "nodes s1 = (nodes s)(kn \<mapsto> Text key)"
    using requested [OF laws q] unfolding string0_node_def by blast
  have ne: "v_node m \<noteq> kn" "kn \<noteq> n" using s1(2) m n by auto
  have l: "fy_node_mapping_lookup_pair ops (v_node m) (Some kn) s1 = None"
    using document(9) [OF laws, of s1 "v_node m" ps kn key] s1(3) m ne k(1) by simp
  obtain s2 where s2: "fy_node_mapping_append ops (v_node m) (Some kn) n s1 = (True, s2)"
      "nodes s2 = (nodes s1)(kn := None, n := None, v_node m \<mapsto> Mapping (ps @ [(key, t)]))"
    using document(10) [OF laws, of s1 "v_node m" ps kn key n t] s1(3) m n ne d k(1) by auto
  have "nodes s2 = (nodes s)(n := None, v_node m \<mapsto> Mapping (ps @ [(key, t)]))"
    using s2(2) s1(2,3) by (auto simp: fun_eq_iff)
  then show ?thesis
    using s1(1) l s2(1) by (simp add: asdf_mapping_set_node_ex_def document(1) [OF laws])
qed

lemma string_set:
  assumes laws: "document_laws ops nodes" and m: "nodes s (v_node m) = Some (Mapping ps)"
    and k: "key \<notin> keys_of ps" "short_text key" and str: "short_text str"
  shows "\<exists>s'. asdf_mapping_set_string0 ops [] m (Some key) (Some str) s = Some (ASDF_VALUE_OK, [], s') \<and>
    nodes s' = (nodes s)(v_node m \<mapsto> Mapping (ps @ [(key, Text str)]))"
proof -
  obtain q where q: "asdf_node_of_string0 (point ops s) [] (Some str) = Some (Some q, [])" "requests (point ops s) q (Text str)"
    using string_request [OF str] by blast
  obtain n s1 where s1: "create_requested ops (asdf_node_of_string0 (point ops s) [] (Some str)) s = Some (Some n, [], s1)"
      "nodes s n = None" "nodes s1 = (nodes s)(n \<mapsto> Text str)"
    using requested [OF laws q] by blast
  have "n \<noteq> v_node m" using s1(2) m by auto
  then obtain s2 where s2: "asdf_mapping_set_node_ex ops [] (Some m) (Some key) (Some n) False s1 = Some (ASDF_VALUE_OK, [], s2)"
      "nodes s2 = (nodes s1)(n := None, v_node m \<mapsto> Mapping (ps @ [(key, Text str)]))"
    using node_set [OF laws, of s1 m ps n "Text str" key] s1(3) m k by auto
  have "nodes s2 = (nodes s)(v_node m \<mapsto> Mapping (ps @ [(key, Text str)]))" using s2(2) s1(2,3) by (auto simp: fun_eq_iff)
  then show ?thesis
    using s1(1) s2(1) by (simp add: asdf_mapping_set_string0_def mapping_set_with_def asdf_mapping_set_node_def document(1) [OF laws])
qed

lemma value_set:
  assumes laws: "document_laws ops nodes" and m: "nodes s (v_node m) = Some (Mapping ps)" and n: "nodes s (v_node v) = Some t"
    and d: "v_node v \<noteq> v_node m" and k: "key \<notin> keys_of ps" "short_text key"
  shows "\<exists>s'. asdf_mapping_set ops [] (Some m) (Some key) (Some v) s = Some (ASDF_VALUE_OK, [], s') \<and>
    nodes s' = (nodes s)(v_node v := None, v_node m \<mapsto> Mapping (ps @ [(key, t)]))"
proof -
  obtain n' s1 where n': "asdf_value_normalize_node ops v s = (Some n', s1)" "moved nodes s (v_node v) t n' s1"
    using normalized [OF laws n] by blast
  have "n' \<noteq> v_node m" using n'(2) m d by (auto simp: moved_def)
  then obtain s2 where s2: "asdf_mapping_set_node_ex ops [] (Some m) (Some key) (Some n') False s1 = Some (ASDF_VALUE_OK, [], s2)"
      "nodes s2 = (nodes s1)(n' := None, v_node m \<mapsto> Mapping (ps @ [(key, t)]))"
    using node_set [OF laws, of s1 m ps n' t key] n'(2) m d k by (auto simp: moved_def)
  have "nodes s2 = (nodes s)(v_node v := None, v_node m \<mapsto> Mapping (ps @ [(key, t)]))"
    using s2(2) n'(2) by (auto simp: moved_def fun_eq_iff)
  then show ?thesis using n'(1) s2(1) by (simp add: asdf_mapping_set_def asdf_mapping_set_ex_def)
qed

end
