(* ===== verification/Asdf_Tree_Sample.thy ===== *)
theory Asdf_Tree_Sample
  imports Asdf_Tree_Laws
begin

text \<open>
  A document that behaves as the laws of \<^verbatim>\<open>Asdf_Tree_Laws\<close> ask, to show that there is one.
\<close>

section \<open>A document\<close>

text \<open>The nodes on their own are numbered; a node in a container is its contents.\<close>

datatype sample_node = Root nat | Child content

type_synonym sample_doc = "content option list"

fun tidy :: "content \<Rightarrow> bool" where
  "tidy (Text _) \<longleftrightarrow> True"
| "tidy (Number _) \<longleftrightarrow> True"
| "tidy (Sequence ts) \<longleftrightarrow> (\<forall>t \<in> set ts. tidy t)"
| "tidy (Mapping ps) \<longleftrightarrow> distinct (map fst ps) \<and> (\<forall>p \<in> set ps. tidy (snd p))"

fun doc_shown :: "sample_doc \<Rightarrow> sample_node \<Rightarrow> content option" where
  "doc_shown s (Child t) = (if tidy t then Some t else None)"
| "doc_shown s (Root i) = (if i < length s then Option.bind (s ! i) (\<lambda>t. if tidy t then Some t else None) else None)"

definition doc_nodes :: "sample_doc \<Rightarrow> sample_node \<Rightarrow> content option" where
  "doc_nodes s n = (case n of Child _ \<Rightarrow> None | Root _ \<Rightarrow> doc_shown s n)"

definition doc_text :: "content option \<Rightarrow> bytes option" where
  "doc_text t = (case t of Some (Text s) \<Rightarrow> Some s | Some (Number w) \<Rightarrow> Some (int_dec (uint w)) | _ \<Rightarrow> None)"

definition doc_values :: "sample_doc \<Rightarrow> sample_node value_env" where
  "doc_values s = \<lparr>ve_platform = little_platform, ve_point = [46],
     fy_node_get_style = \<lambda>n. (case doc_shown s n of Some (Text _) \<Rightarrow> FYNS_SINGLE_QUOTED | _ \<Rightarrow> FYNS_PLAIN),
     fy_node_get_scalar = \<lambda>n. doc_text (doc_shown s n), fy_node_get_tag = \<lambda>_. None\<rparr>"

definition doc_items :: "content option \<Rightarrow> sample_node list" where
  "doc_items t = (case t of Some (Sequence ts) \<Rightarrow> map Child ts | _ \<Rightarrow> [])"

definition doc_pairs :: "content option \<Rightarrow> (bytes \<times> content) list" where
  "doc_pairs t = (case t of Some (Mapping ps) \<Rightarrow> ps | _ \<Rightarrow> [])"

definition doc_env :: "sample_doc \<Rightarrow> sample_node node_env" where
  "doc_env s = \<lparr>fy_node_get_type = \<lambda>n. (case doc_shown s n of Some (Sequence _) \<Rightarrow> FYNT_SEQUENCE | Some (Mapping _) \<Rightarrow> FYNT_MAPPING | _ \<Rightarrow> FYNT_SCALAR),
     fy_node_is_alias = \<lambda>_. False, fy_node_resolve_alias = Some,
     fy_node_pairs = \<lambda>n. map (\<lambda>(k, t). (Child (Text k), Child t)) (doc_pairs (doc_shown s n)),
     fy_node_items = \<lambda>n. doc_items (doc_shown s n), fy_node_get_scalar0 = \<lambda>n. doc_text (doc_shown s n),
     fy_node_get_path = \<lambda>_. None, fy_node_get_parent = \<lambda>_. None,
     fy_node_is_attached = \<lambda>n. (case n of Child _ \<Rightarrow> True | Root _ \<Rightarrow> False), fy_node_root = \<lambda>_. None, fy_node_copy = \<lambda>_. None,
     fy_node_mapping_lookup_value_by_simple_key = \<lambda>n k. map_option Child (map_of (doc_pairs (doc_shown s n)) k),
     fy_node_sequence_get_by_index = \<lambda>n i.
       (let ns = doc_items (doc_shown s n) in if 0 \<le> i \<and> i < int (length ns) then Some (ns ! nat i) else None)\<rparr>"

definition doc_new :: "content \<Rightarrow> sample_doc \<Rightarrow> sample_node option \<times> sample_doc" where
  "doc_new t s = (Some (Root (length s)), s @ [Some t])"

fun doc_create :: "node_request \<Rightarrow> sample_doc \<Rightarrow> sample_node option \<times> sample_doc" where
  "doc_create (Create_scalar t) s =
     doc_new (if resolves_as_string [46] [] t then Text t else Number (of_nat (radix_val 10 t))) s"
| "doc_create (Build_from_string t) s = doc_new (Text (the (yaml_single_quoted t))) s"

fun doc_append :: "sample_node \<Rightarrow> sample_node option \<Rightarrow> sample_doc \<Rightarrow> bool \<times> sample_doc" where
  "doc_append (Root i) (Some (Root j)) s =
     (case (doc_shown s (Root i), doc_shown s (Root j)) of
        (Some (Sequence ts), Some t) \<Rightarrow> (True, s[j := None, i := Some (Sequence (ts @ [t]))])
      | _ \<Rightarrow> (False, s))"
| "doc_append _ _ s = (False, s)"

fun doc_mapping_append :: "sample_node \<Rightarrow> sample_node option \<Rightarrow> sample_node \<Rightarrow> sample_doc \<Rightarrow> bool \<times> sample_doc" where
  "doc_mapping_append (Root i) (Some (Root k)) (Root j) s =
     (case (doc_shown s (Root i), doc_shown s (Root k), doc_shown s (Root j)) of
        (Some (Mapping ps), Some (Text key), Some t) \<Rightarrow> (True, s[k := None, j := None, i := Some (Mapping (ps @ [(key, t)]))])
      | _ \<Rightarrow> (False, s))"
| "doc_mapping_append _ _ _ s = (False, s)"

definition doc_lookup :: "sample_node \<Rightarrow> sample_node option \<Rightarrow> sample_doc \<Rightarrow> sample_node option" where
  "doc_lookup m k s =
     (case (doc_shown s m, Option.bind k (doc_shown s)) of
        (Some (Mapping ps), Some (Text key)) \<Rightarrow> if key \<in> keys_of ps then Some (Child (Text key)) else None
      | _ \<Rightarrow> None)"

definition doc_set_style :: "sample_node \<Rightarrow> bool \<Rightarrow> sample_doc \<Rightarrow> sample_node option \<times> sample_doc" where
  "doc_set_style n b s = (case doc_shown s n of None \<Rightarrow> (None, s) | Some t \<Rightarrow> doc_new t s)"

definition doc_free :: "sample_node option \<Rightarrow> sample_doc \<Rightarrow> sample_doc" where
  "doc_free n s = (case n of Some (Root i) \<Rightarrow> s[i := None] | _ \<Rightarrow> s)"

definition doc_ops :: "(sample_doc, sample_node) tree_ops" where
  "doc_ops = \<lparr>to_document = \<lambda>s. (True, s), to_values = doc_values, to_nodes = doc_env, fy_node_create = doc_create,
     fy_node_create_mapping = doc_new (Mapping []), fy_node_create_sequence = doc_new (Sequence []), fy_node_set_style = doc_set_style,
     fy_node_free = doc_free, fy_node_mapping_lookup_pair = doc_lookup, fy_node_pair_set_value = \<lambda>_ _ _ s. (False, s),
     fy_node_mapping_append = doc_mapping_append, fy_node_mapping_prepend = \<lambda>_ _ _ s. (False, s),
     fy_node_mapping_remove_by_key = \<lambda>_ _ s. (None, s), fy_node_sequence_append = doc_append,
     fy_node_sequence_remove = \<lambda>_ _ s. (None, s), fy_document_root = \<lambda>_. None, fy_document_set_root = \<lambda>_ s. (False, s),
     fy_node_by_path = \<lambda>_ _ _. None, fy_node_by_path_default = \<lambda>_ _ _. None, fy_node_mapping_lookup_by_string = \<lambda>_ _ _. None,
     fy_node_set_tag = \<lambda>_ _ s. (False, s), to_tag_normalize = \<lambda>_ s. (None, s), to_read_only = \<lambda>_. False,
     fy_node_insert = \<lambda>_ _ s. (False, s)\<rparr>"


section \<open>It keeps the laws\<close>

lemma numbers_no_strings: "\<not> resolves_as_string dp [] (int_dec (uint (w :: u64)))"
proof -
  have "- 9223372036854775808 \<le> uint w" by (rule uint_above) simp
  then obtain t u where "asdf_value_infer_int [] (fresh_value ()) (Some (int_dec (uint w))) =
        Some (ASDF_VALUE_OK, (fresh_value ())\<lparr>v_type := t, v_scalar := Word u, v_err := ASDF_VALUE_OK\<rparr>, [])"
    using infer_int_dec uint_u64 [of w] by blast
  then show ?thesis
    by (auto simp: resolves_as_string_def asdf_value_infer_int_def Let_def bind_eq_Some_conv comp_def split: if_splits prod.splits)
qed

lemma shown_displayed: "doc_shown s n = Some t \<Longrightarrow> displays (doc_values s) (doc_env s) t n"
proof (induction t arbitrary: n)
  case (Text str)
  then show ?case by (simp add: text_node_def doc_values_def doc_env_def doc_text_def quoted_style_def)
next
  case (Number w)
  then show ?case by (simp add: int_node_def plain_node_def doc_values_def doc_env_def doc_text_def quoted_style_def)
next
  case (Sequence ts)
  have ok: "\<forall>t \<in> set ts. tidy t" using Sequence.prems by (cases n) (auto split: if_splits bind_splits)
  have "seq_node (doc_env s) n (map Child ts)" using Sequence.prems by (simp add: seq_node_def doc_env_def doc_items_def)
  moreover have "list_all2 (displays (doc_values s) (doc_env s)) ts (map Child ts)"
    using Sequence.IH ok by (simp add: list_all2_conv_all_nth)
  ultimately show ?case by auto
next
  case (Mapping ps)
  have ok: "distinct (map fst ps)" "\<forall>p \<in> set ps. tidy (snd p)" using Mapping.prems by (cases n; auto split: if_splits bind_splits)+
  have l: "fy_node_mapping_lookup_value_by_simple_key (doc_env s) n k = map_option Child (map_of ps k)" for k
    using Mapping.prems by (simp add: doc_env_def doc_pairs_def)
  have "map_node (doc_env s) n" using Mapping.prems by (simp add: map_node_def doc_env_def)
  moreover have "\<exists>c. fy_node_mapping_lookup_value_by_simple_key (doc_env s) n (fst p) = Some c \<and> fy_node_is_attached (doc_env s) c \<and>
      displays (doc_values s) (doc_env s) (snd p) c" if p: "p \<in> set ps" for p
  proof -
    have "map_of ps (fst p) = Some (snd p)" using p ok(1) by simp
    moreover have "displays (doc_values s) (doc_env s) (snd p) (Child (snd p))"
      using Mapping.IH [of p "snd p"] p ok(2) by (simp add: snds.simps)
    ultimately show ?thesis using l by (simp add: doc_env_def)
  qed
  moreover have "fy_node_mapping_lookup_value_by_simple_key (doc_env s) n k = None" if "k \<notin> keys_of ps" for k
    using that l by (simp add: keys_of_def map_of_eq_None_iff)
  ultimately show ?case by simp
qed

lemma number_read: "radix_val 10 (int_dec (uint (w :: u64))) = unat w"
  by (simp add: int_dec_def radix_val_digits dec_all_digits dec_digits flip: nat_uint_eq)

lemma new_made: "tidy t \<Longrightarrow> made doc_nodes s t (doc_new t s)"
  by (auto simp: made_def doc_new_def doc_nodes_def fun_eq_iff nth_append split: sample_node.splits)

lemma nodes_root: "doc_nodes s n = Some t \<longleftrightarrow> (\<exists>i. n = Root i \<and> i < length s \<and> s ! i = Some t \<and> tidy t)"
  by (cases n) (auto simp: doc_nodes_def split: bind_splits)

lemma requested_made:
  assumes "requests [46] q t"
  shows "made doc_nodes s t (doc_create q s)"
proof -
  have "doc_create q s = doc_new t s \<and> tidy t"
    using assms numbers_no_strings number_read
    by (auto simp: requests_def quoted_folds printable_folds)
  then show ?thesis using new_made by simp
qed

lemma set_node: "i < length s \<Longrightarrow> tidy t \<Longrightarrow> doc_nodes (s[i := Some t]) = (doc_nodes s)(Root i \<mapsto> t)"
  by (auto simp: doc_nodes_def fun_eq_iff nth_list_update split: sample_node.splits)

lemma free_node: "doc_nodes (s[i := None]) = (doc_nodes s)(Root i := None)"
  by (auto simp: doc_nodes_def fun_eq_iff nth_list_update split: sample_node.splits)

lemma doc_laws: "document_laws doc_ops doc_nodes"
proof -
  have shown: "doc_nodes s n = Some t \<Longrightarrow> doc_shown s n = Some t" for s n t by (auto simp: doc_nodes_def split: sample_node.splits)
  have "creation_laws doc_ops doc_nodes"
    unfolding creation_laws_def
  proof (intro conjI allI impI)
    fix s q t
    assume "requests (point doc_ops s) q t"
    then show "made doc_nodes s t (fy_node_create doc_ops q s)"
      using requested_made by (simp add: point_def doc_ops_def doc_values_def)
  next
    fix s n b t
    assume "doc_nodes s n = Some t"
    then show "made doc_nodes s t (fy_node_set_style doc_ops n b s)"
      using new_made by (auto simp: doc_ops_def doc_set_style_def nodes_root)
  next
    fix s n
    show "doc_nodes (fy_node_free doc_ops (Some n) s) = (doc_nodes s)(n := None)"
      by (cases n) (auto simp: doc_ops_def doc_free_def free_node fun_eq_iff, simp add: doc_nodes_def)
  qed (simp_all add: doc_ops_def shown shown_displayed new_made)
  moreover have "container_laws doc_ops doc_nodes"
    unfolding container_laws_def
  proof (intro conjI allI impI)
    fix s q n ts t
    assume "doc_nodes s q = Some (Sequence ts) \<and> doc_nodes s n = Some t \<and> q \<noteq> n"
    then show "\<exists>s'. fy_node_sequence_append doc_ops q (Some n) s = (True, s') \<and>
        doc_nodes s' = (doc_nodes s)(n := None, q \<mapsto> Sequence (ts @ [t]))"
      by (auto simp: doc_ops_def nodes_root set_node free_node)
  next
    fix s m k ps key
    assume "doc_nodes s m = Some (Mapping ps) \<and> doc_nodes s k = Some (Text key) \<and> key \<notin> keys_of ps"
    then show "fy_node_mapping_lookup_pair doc_ops m (Some k) s = None"
      by (auto simp: doc_ops_def doc_lookup_def nodes_root)
  next
    fix s m k n ps key t
    assume "doc_nodes s m = Some (Mapping ps) \<and> doc_nodes s k = Some (Text key) \<and> doc_nodes s n = Some t \<and>
        key \<notin> keys_of ps \<and> m \<noteq> k \<and> m \<noteq> n \<and> k \<noteq> n"
    then show "\<exists>s'. fy_node_mapping_append doc_ops m (Some k) n s = (True, s') \<and>
        doc_nodes s' = (doc_nodes s)(k := None, n := None, m \<mapsto> Mapping (ps @ [(key, t)]))"
      by (auto simp: doc_ops_def nodes_root set_node free_node keys_of_def)
  qed
  ultimately show ?thesis by (simp add: document_laws_def)
qed

end
