(* ===== verification/Asdf_Datatype_Read_Laws.thy ===== *)
theory Asdf_Datatype_Read_Laws
  imports Asdf_Datatype_Read Asdf_Read_Laws
begin

text \<open>
  What a datatype in the tree is read as. A description says what the schema allows: a scalar type, a string
  type, or a structured type whose fields may have a name, a byte order and a shape, and nest.
\<close>

section \<open>Descriptions\<close>

type_synonym field_props = "bytes option \<times> asdf_byteorder option \<times> u64 list option"

datatype dtype_desc =
    Scalar_desc asdf_scalar_datatype
  | String_desc bool u64
  | Struct_desc "(field_props option \<times> dtype_desc) list"

definition named_types :: "asdf_scalar_datatype set" where
  "named_types = - {ASDF_DATATYPE_UNKNOWN, ASDF_DATATYPE_ASCII, ASDF_DATATYPE_UCS4, ASDF_DATATYPE_STRUCTURED}"

definition shows_key :: "'n node_env \<Rightarrow> 'n \<Rightarrow> string \<Rightarrow> ('n \<Rightarrow> 'a \<Rightarrow> bool) \<Rightarrow> 'a option \<Rightarrow> bool" where
  "shows_key ne n key shows a =
     (case a of
        None \<Rightarrow> fy_node_mapping_lookup_value_by_simple_key ne n (bytes_of key) = None
      | Some b \<Rightarrow> \<exists>c. fy_node_mapping_lookup_value_by_simple_key ne n (bytes_of key) = Some c \<and> shows c b)"

definition shape_node :: "'n value_env \<Rightarrow> 'n node_env \<Rightarrow> 'n \<Rightarrow> u64 list \<Rightarrow> bool" where
  "shape_node ve ne n shape \<longleftrightarrow> fy_node_is_attached ne n \<and> (\<exists>items. seq_node ne n items \<and> list_all2 (int_node ve ne) items shape)"

definition byteorder_node :: "'n value_env \<Rightarrow> 'n node_env \<Rightarrow> 'n \<Rightarrow> asdf_byteorder \<Rightarrow> bool" where
  "byteorder_node ve ne n bo \<longleftrightarrow>
     (bo = ASDF_BYTEORDER_LITTLE \<or> bo = ASDF_BYTEORDER_BIG) \<and> text_node ve ne n (the (asdf_byteorder_to_string bo))"

inductive shows_datatype :: "'n value_env \<Rightarrow> 'n node_env \<Rightarrow> dtype_desc \<Rightarrow> 'n \<Rightarrow> bool"
  and shows_field :: "'n value_env \<Rightarrow> 'n node_env \<Rightarrow> 'n \<Rightarrow> field_props option \<times> dtype_desc \<Rightarrow> bool"
  for ve :: "'n value_env" and ne :: "'n node_env" where
  scalar: "t \<in> named_types \<Longrightarrow> text_node ve ne n (asdf_scalar_datatype_to_string t) \<Longrightarrow> shows_datatype ve ne (Scalar_desc t) n"
| string: "seq_node ne n [a, b] \<Longrightarrow> text_node ve ne a (bytes_of (if wide then ''ucs4'' else ''ascii'')) \<Longrightarrow> int_node ve ne b w \<Longrightarrow>
    shows_datatype ve ne (String_desc wide w) n"
| struct: "seq_node ne n items \<Longrightarrow> list_all2 (shows_field ve ne) items fs \<Longrightarrow> shows_datatype ve ne (Struct_desc fs) n"
| anonymous: "shows_datatype ve ne d m \<Longrightarrow> shows_field ve ne m (None, d)"
| field: "map_node ne m \<Longrightarrow> fy_node_mapping_lookup_value_by_simple_key ne m (bytes_of ''datatype'') = Some c \<Longrightarrow>
    shows_datatype ve ne d c \<Longrightarrow> shows_key ne m ''name'' (text_node ve ne) name \<Longrightarrow>
    shows_key ne m ''byteorder'' (byteorder_node ve ne) bo \<Longrightarrow> shows_key ne m ''shape'' (shape_node ve ne) shape \<Longrightarrow>
    shows_field ve ne m (Some (name, bo, shape), d)"

text \<open>The datatype it stands for, where the byte order is not given otherwise.\<close>

definition with_properties :: "field_props option \<Rightarrow> asdf_datatype \<Rightarrow> asdf_datatype" where
  "with_properties props d =
     (case props of
        None \<Rightarrow> d
      | Some (name, bo, shape) \<Rightarrow>
          Datatype (dt_type d) (dt_size d * prod_list (case shape of None \<Rightarrow> [] | Some s \<Rightarrow> s)) name
            (case bo of None \<Rightarrow> dt_byteorder d | Some b \<Rightarrow> b) (case shape of None \<Rightarrow> [] | Some s \<Rightarrow> s) (dt_fields d))"

fun described :: "asdf_byteorder \<Rightarrow> dtype_desc \<Rightarrow> asdf_datatype" where
  "described bo (Scalar_desc t) = Datatype t (of_nat (asdf_scalar_datatype_size t)) None bo [] []"
| "described bo (String_desc wide w) =
     Datatype (if wide then ASDF_DATATYPE_UCS4 else ASDF_DATATYPE_ASCII) (if wide then w * 4 else w) None bo [] []"
| "described bo (Struct_desc fs) =
     (let ds = map (\<lambda>(props, d). with_properties props (described bo d)) fs
      in Datatype ASDF_DATATYPE_STRUCTURED (sum_list (map dt_size ds)) None bo [] ds)"

section \<open>The parts\<close>

lemma name_roundtrip: "t \<in> named_types \<Longrightarrow> asdf_scalar_datatype_from_string (asdf_scalar_datatype_to_string t) = t"
  by (cases t) (simp_all add: named_types_def asdf_scalar_datatype_from_string_def has_prefix_def all_from_def bytes_of_def Let_def)

lemma scalar_read:
  assumes "text_node ve ne n (asdf_scalar_datatype_to_string t)" and "t \<in> named_types"
  shows "scalar_datatype_parse ve ne [] (node_value ne n p) bo d = Some (ASDF_VALUE_OK, set_scalar t (of_nat (asdf_scalar_datatype_size t)) bo d, [])"
  using string_of_text [OF assms(1), of p] by (auto simp: scalar_datatype_parse_def name_roundtrip [OF assms(2)])

lemma string_read:
  assumes v: "is_seq v n" and s: "seq_node ne n [a, b]" and a: "text_node ve ne a (bytes_of (if wide then ''ucs4'' else ''ascii''))"
    and b: "int_node ve ne b w"
  shows "asdf_string_datatype_parse ve ne [] v bo d =
    Some (ASDF_VALUE_OK, set_scalar (if wide then ASDF_DATATYPE_UCS4 else ASDF_DATATYPE_ASCII) (if wide then w * 4 else w) bo d, [])"
proof -
  obtain p where p: "asdf_sequence_get ne [] v 0 = (Some (node_value ne a p), [])"
    using get_item [OF v s, of 0] a by (auto simp: text_node_def)
  obtain q where q: "asdf_sequence_get ne [] v 1 = (Some (node_value ne b q), [])"
    using get_item [OF v s, of 1] b by (auto simp: int_node_def)
  have "bytes_of ''ucs4'' \<noteq> bytes_of ''ascii''" by (simp add: bytes_of_def)
  then show ?thesis
    using string_of_text [OF a, of p] uint64_of_int(1) [OF b, of q] by (auto simp: asdf_string_datatype_parse_def p q)
qed

lemma shape_read:
  assumes "list_all2 (int_node ve ne) items shape" and "si_rest it = items" and "is_seq (si_sequence it) n" and "\<not> si_reverse it"
  shows "shape_loop ve ne [] (Some it) (length items) = Some (Some shape, [])"
  using assms
proof (induction items shape arbitrary: it rule: list_all2_induct)
  case (Cons m ms w ws)
  obtain p where p: "asdf_sequence_iter_next ne [] (Some it) =
    (Some (it\<lparr>si_index := si_index it + 1, si_value := Some (node_value ne m p), si_rest := ms\<rparr>), [])"
    using next_item [OF Cons.prems(1,2) _ Cons.prems(3)] Cons.hyps(1) by (auto simp: int_node_def)
  obtain v where "asdf_value_as_uint64 ve [] (Some (node_value ne m p)) = Some (ASDF_VALUE_OK, Some w, Some v, [])"
    using uint64_of_int(1) [OF Cons.hyps(1)] by blast
  then show ?case using p Cons.IH Cons.prems by simp
qed simp

lemma shape_parse_read:
  assumes "shape_node ve ne n shape" and "is_seq v n"
  shows "asdf_datatype_shape_parse ve ne [] v = Some (ASDF_VALUE_OK, shape, [])"
proof -
  obtain items where i: "seq_node ne n items" "list_all2 (int_node ve ne) items shape" using assms(1) by (auto simp: shape_node_def)
  obtain it where it: "asdf_sequence_iter_init_ex ne [] v False = (Some it, [])" "si_rest it = items" "si_sequence it = v" "\<not> si_reverse it"
    using start_items [OF assms(2) i(1)] by blast
  show ?thesis
    using shape_read [OF i(2) it(2) _ it(4)] assms(2) it by (simp add: asdf_datatype_shape_parse_def items_size [OF assms(2) i(1)])
qed

lemma byteorder_read:
  assumes "is_map v n" and "shows_key ne n ''byteorder'' (byteorder_node ve ne) bo"
  shows "\<exists>err. asdf_datatype_byteorder_parse ve ne [] v (bytes_of ''byteorder'') b = Some (err, case bo of None \<Rightarrow> b | Some c \<Rightarrow> c, []) \<and>
    ASDF_IS_OPTIONAL_OK err"
proof (cases bo)
  case None
  then show ?thesis
    using assms by (simp add: shows_key_def asdf_datatype_byteorder_parse_def asdf_get_optional_property_def no_property
        ASDF_IS_OK_def ASDF_IS_OPTIONAL_OK_def)
next
  case (Some c)
  then obtain m where m: "fy_node_mapping_lookup_value_by_simple_key ne n (bytes_of ''byteorder'') = Some m" "byteorder_node ve ne m c"
    using assms(2) by (auto simp: shows_key_def)
  then have t: "text_node ve ne m (the (asdf_byteorder_to_string c))" and c: "c = ASDF_BYTEORDER_LITTLE \<or> c = ASDF_BYTEORDER_BIG"
    by (auto simp: byteorder_node_def)
  have "asdf_byteorder_from_string (Some (the (asdf_byteorder_to_string c))) = c"
    using c by (auto simp: asdf_byteorder_from_string_def bytes_of_def)
  then show ?thesis
    using c by (auto simp: Some asdf_datatype_byteorder_parse_def asdf_get_optional_property_def text_property [OF assms(1) m(1) t]
        ASDF_IS_OK_def ASDF_IS_OPTIONAL_OK_def)
qed

lemma foldl_factor: "foldl (*) (a :: u64) xs = a * prod_list xs"
  by (rule foldl_times)

lemma properties_read:
  assumes m: "is_map v n" and name: "shows_key ne n ''name'' (text_node ve ne) name"
    and bo: "shows_key ne n ''byteorder'' (byteorder_node ve ne) bo" and shape: "shows_key ne n ''shape'' (shape_node ve ne) shape"
    and d: "dt_name d = None" "dt_shape d = []"
  shows "field_properties ve ne [] v d = Some (ASDF_VALUE_OK, with_properties (Some (name, bo, shape)) d, [])"
proof -
  define exts where "exts = (\<lparr>ex_map = \<lambda>_. None, ex_deserialize = \<lambda>_. None\<rparr> :: ('a, unit) extensions)"
  define e where "e = Datatype (dt_type d) (dt_size d) name (dt_byteorder d) [] (dt_fields d)"
  have n: "\<exists>err out. asdf_get_optional_property ve ne exts [] v (bytes_of ''name'') ASDF_VALUE_STRING None = Some (err, out, []) \<and>
      (case (if ASDF_IS_OPTIONAL_OK err then out else None) of
          Some (Typed_text (Some s)) \<Rightarrow> (let (ok, h) = alloc [] in (ok, if ok then set_name s d else d, h))
        | _ \<Rightarrow> (True, d, [])) = (True, e, [])"
  proof (cases name)
    case None
    then show ?thesis
      using name m d by (cases d) (simp add: shows_key_def asdf_get_optional_property_def no_property e_def)
  next
    case (Some s)
    then obtain c where "fy_node_mapping_lookup_value_by_simple_key ne n (bytes_of ''name'') = Some c" "text_node ve ne c s"
      using name by (auto simp: shows_key_def)
    then have "asdf_get_optional_property ve ne exts [] v (bytes_of ''name'') ASDF_VALUE_STRING None =
        Some (ASDF_VALUE_OK, Some (Typed_text (Some s)), [])"
      unfolding asdf_get_optional_property_def by (rule text_property [OF m])
    then show ?thesis
      by (intro exI [of _ ASDF_VALUE_OK] exI [of _ "Some (Typed_text (Some s))"])
        (simp add: Some e_def set_name_def d ASDF_IS_OPTIONAL_OK_def)
  qed
  obtain berr where b: "asdf_datatype_byteorder_parse ve ne [] v (bytes_of ''byteorder'') (dt_byteorder e) =
      Some (berr, case bo of None \<Rightarrow> dt_byteorder e | Some c \<Rightarrow> c, [])" "ASDF_IS_OPTIONAL_OK berr"
    using byteorder_read [OF m bo] by blast
  have result: "with_properties (Some (name, bo, shape)) d =
    (case shape of None \<Rightarrow> set_byteorder (case bo of None \<Rightarrow> dt_byteorder e | Some c \<Rightarrow> c) e
     | Some s \<Rightarrow> set_shape s (set_byteorder (case bo of None \<Rightarrow> dt_byteorder e | Some c \<Rightarrow> c) e))"
    by (auto simp: with_properties_def e_def set_byteorder_def set_shape_def foldl_factor split: option.splits)
  show ?thesis
  proof (cases shape)
    case None
    then have "asdf_get_optional_property ve ne exts [] v (bytes_of ''shape'') ASDF_VALUE_SEQUENCE None = Some (ASDF_VALUE_ERR_NOT_FOUND, None, [])"
      using shape m by (simp add: shows_key_def asdf_get_optional_property_def no_property)
    then show ?thesis
      using n b None unfolding field_properties_def exts_def [symmetric] Let_def result
      by (auto simp: ASDF_IS_OK_def ASDF_IS_OPTIONAL_OK_def)
  next
    case (Some s)
    then obtain c where c: "fy_node_mapping_lookup_value_by_simple_key ne n (bytes_of ''shape'') = Some c" "shape_node ve ne c s"
      using shape by (auto simp: shows_key_def)
    then obtain items where "seq_node ne c items" "fy_node_is_attached ne c" by (auto simp: shape_node_def)
    then obtain w where w: "asdf_get_optional_property ve ne exts [] v (bytes_of ''shape'') ASDF_VALUE_SEQUENCE None =
        Some (ASDF_VALUE_OK, Some (Typed_value (Some w)), [])" "is_seq w c"
      using sequence_property [OF m c(1)] unfolding asdf_get_optional_property_def by blast
    show ?thesis
      using n b Some shape_parse_read [OF c(2) w(2)] w(1) unfolding field_properties_def exts_def [symmetric] Let_def result
      by (auto simp: ASDF_IS_OK_def ASDF_IS_OPTIONAL_OK_def)
  qed
qed

section \<open>The whole\<close>

lemma described_parts [simp]: "dt_name (described bo d) = None" "dt_shape (described bo d) = []"
  by (cases d; simp add: Let_def)+

lemma with_parts: "dt_name d = None \<Longrightarrow> dt_shape d = [] \<Longrightarrow> with_properties None d = d"
  by (simp add: with_properties_def)

text \<open>The loop over the fields: \<open>fs\<close> are those that are left, in \<open>d\<close> the fields from the index on are zero.\<close>

definition field_read :: "'n value_env \<Rightarrow> 'n node_env \<Rightarrow> asdf_byteorder \<Rightarrow> 'n \<Rightarrow> field_props option \<times> dtype_desc \<Rightarrow> bool" where
  "field_read ve ne bo m f \<longleftrightarrow> \<not> fy_node_is_alias ne m \<and> (\<forall>p. datatype_work ve ne bo []
     (if fst (asdf_value_as_mapping (Some (node_value ne m p))) = ASDF_VALUE_OK then Parse_field (node_value ne m p) zero_datatype
      else Parse_datatype (Some (node_value ne m p)) zero_datatype) =
     Some (ASDF_VALUE_OK, with_properties (fst f) (described bo (snd f)), []))"

lemma fields_read:
  assumes "list_all2 (field_read ve ne bo) items fs" and "si_rest it = items" and "is_seq (si_sequence it) n" and "\<not> si_reverse it"
  shows "datatype_work ve ne bo [] (Parse_fields (Some it) (length ds) (Datatype t k name bo shape (ds @ replicate (length fs) zero_datatype)) ASDF_VALUE_OK) =
    Some (ASDF_VALUE_OK, Datatype t (k + sum_list (map (dt_size \<circ> (\<lambda>f. with_properties (fst f) (described bo (snd f)))) fs)) name bo shape
      (ds @ map (\<lambda>f. with_properties (fst f) (described bo (snd f))) fs), [])"
  using assms
proof (induction items fs arbitrary: it ds k rule: list_all2_induct)
  case Nil
  then show ?case by (simp add: datatype_work.simps no_next_item)
next
  case (Cons m ms f fs)
  define e where "e = with_properties (fst f) (described bo (snd f))"
  obtain p where p: "asdf_sequence_iter_next ne [] (Some it) =
    (Some (it\<lparr>si_index := si_index it + 1, si_value := Some (node_value ne m p), si_rest := ms\<rparr>), [])"
    using next_item [OF Cons.prems(1,2) _ Cons.prems(3)] Cons.hyps(1) by (auto simp: field_read_def)
  have f: "datatype_work ve ne bo []
     (if fst (asdf_value_as_mapping (Some (node_value ne m p))) = ASDF_VALUE_OK then Parse_field (node_value ne m p) zero_datatype
      else Parse_datatype (Some (node_value ne m p)) zero_datatype) = Some (ASDF_VALUE_OK, e, [])"
    using Cons.hyps(1) unfolding field_read_def e_def by blast
  have s: "set_field (length ds) e (dt_size e) (Datatype t k name bo shape (ds @ replicate (Suc (length fs)) zero_datatype)) =
    Datatype t (k + dt_size e) name bo shape (ds @ e # replicate (length fs) zero_datatype)"
    by (simp add: set_field_def list_update_append)
  have z: "(ds @ replicate (Suc (length fs)) zero_datatype) ! length ds = zero_datatype" by (simp add: nth_append)
  have "datatype_work ve ne bo [] (Parse_fields (Some it) (length ds) (Datatype t k name bo shape (ds @ replicate (length (f # fs)) zero_datatype)) ASDF_VALUE_OK) =
    datatype_work ve ne bo [] (Parse_fields (Some (it\<lparr>si_index := si_index it + 1, si_value := Some (node_value ne m p), si_rest := ms\<rparr>))
      (length (ds @ [e])) (Datatype t (k + dt_size e) name bo shape ((ds @ [e]) @ replicate (length fs) zero_datatype)) ASDF_VALUE_OK)"
    using f by (subst datatype_work.simps, cases "fst (asdf_value_as_mapping (Some (node_value ne m p))) = ASDF_VALUE_OK")
      (simp_all add: p s z del: replicate.simps)
  also have "\<dots> = Some (ASDF_VALUE_OK, Datatype t (k + dt_size e + sum_list (map (dt_size \<circ> (\<lambda>f. with_properties (fst f) (described bo (snd f)))) fs)) name bo shape
      ((ds @ [e]) @ map (\<lambda>f. with_properties (fst f) (described bo (snd f))) fs), [])"
    using Cons.prems by (intro Cons.IH) simp_all
  finally show ?case by (simp add: e_def add.assoc comp_def)
qed

inductive_cases shows_fieldE: "shows_field ve ne m f"
inductive_cases shows_datatypeE: "shows_datatype ve ne d m"

lemma field_no_integer: 
  assumes "shows_field ve ne m f"
  shows "\<not> fy_node_is_alias ne m" "\<exists>v. asdf_value_is_uint64 ve [] (Some (node_value ne m p)) = Some (False, v, [])"
proof -
  have container: "\<exists>v. asdf_value_is_uint64 ve [] (Some (node_value ne m p)) = Some (False, v, [])"
    if "fy_node_get_type ne m \<noteq> FYNT_SCALAR"
    using that by (cases "fy_node_get_type ne m")
      (simp_all add: asdf_value_is_uint64_def is_scalar_with_def asdf_value_infer_scalar_type_def infer_value_def node_value_def)
  have "\<not> fy_node_is_alias ne m \<and> (fy_node_get_type ne m \<noteq> FYNT_SCALAR \<or> (\<exists>s. text_node ve ne m s))"
    using assms by (auto elim!: shows_fieldE shows_datatypeE simp: text_node_def seq_node_def map_node_def)
  then show "\<not> fy_node_is_alias ne m" "\<exists>v. asdf_value_is_uint64 ve [] (Some (node_value ne m p)) = Some (False, v, [])"
    using container infer_text [of ve ne m _ p]
    by (auto simp: asdf_value_is_uint64_def is_scalar_with_def asdf_value_infer_scalar_type_def) fastforce?
qed

lemma datatype_read:
  "shows_datatype ve ne d n \<Longrightarrow>
     \<not> fy_node_is_alias ne n \<and> \<not> map_node ne n \<and>
     (\<forall>p. datatype_work ve ne bo [] (Parse_datatype (Some (node_value ne n p)) zero_datatype) = Some (ASDF_VALUE_OK, described bo d, []))"
  "shows_field ve ne n f \<Longrightarrow> field_read ve ne bo n f"
proof (induction rule: shows_datatype_shows_field.inducts)
  case (scalar t n)
  have "fst (asdf_value_as_sequence (Some (node_value ne n p))) \<noteq> ASDF_VALUE_OK" for p
    using scalar by (simp add: asdf_value_as_sequence_def node_value_def text_node_def)
  then show ?case
    using scalar scalar_read [OF scalar(2,1)] by (simp add: datatype_work.simps text_node_def map_node_def set_scalar_def zero_datatype_def)
next
  case (string n a b wide w)
  have seq: "is_seq (node_value ne n p) n" for p using string(1) by (rule node_value_seq)
  have "is_string_datatype ve ne [] (node_value ne n p) = Some (True, [])" for p
  proof -
    obtain q where "asdf_sequence_get ne [] (node_value ne n p) 1 = (Some (node_value ne b q), [])"
      using get_item [OF seq string(1), of 1] string(3) by (auto simp: int_node_def)
    then show ?thesis
      using uint64_of_int(2) [OF string(3), of q] by (auto simp: is_string_datatype_def items_size [OF seq string(1)])
  qed
  then show ?case
    using string(1) seq string_read [OF seq string(1-3)]
    by (simp add: datatype_work.simps asdf_value_as_sequence_def is_seq_def seq_node_def map_node_def set_scalar_def zero_datatype_def)
next
  case (struct n items fs)
  have seq: "is_seq (node_value ne n p) n" for p using struct(1) by (rule node_value_seq)
  have fields: "list_all2 (field_read ve ne bo) items fs" using struct(2) by (rule list_all2_mono) blast
  have "is_string_datatype ve ne [] (node_value ne n p) = Some (False, [])" for p
  proof (cases "length items = 2")
    case True
    then have f: "shows_field ve ne (items ! 1) (fs ! 1)" using struct(2) list_all2_nthD by fastforce
    obtain q where "asdf_sequence_get ne [] (node_value ne n p) 1 = (Some (node_value ne (items ! 1) q), [])"
      using get_item [OF seq struct(1), of 1] True field_no_integer(1) [OF f] by auto
    then show ?thesis
      using field_no_integer(2) [OF f, of q] by (auto simp: is_string_datatype_def items_size [OF seq struct(1)])
  qed (simp add: is_string_datatype_def items_size [OF seq struct(1)])
  note no_string = this
  have len: "length items = length fs" using fields by (rule list_all2_lengthD)
  have z: "set_structured k bo zero_datatype = Datatype ASDF_DATATYPE_STRUCTURED 0 None bo [] (replicate k zero_datatype)" for k
    by (simp add: set_structured_def zero_datatype_def)
  have "datatype_work ve ne bo [] (Parse_datatype (Some (node_value ne n p)) zero_datatype) =
      Some (ASDF_VALUE_OK, described bo (Struct_desc fs), [])" for p
  proof -
    obtain it where it: "asdf_sequence_iter_init_ex ne [] (node_value ne n p) False = (Some it, [])" "si_rest it = items"
        "si_sequence it = node_value ne n p" "\<not> si_reverse it"
      using start_items [OF seq struct(1)] by blast
    have "fst (asdf_value_as_sequence (Some (node_value ne n p))) = ASDF_VALUE_OK"
      using seq [of p] by (simp add: asdf_value_as_sequence_def is_seq_def)
    then have "datatype_work ve ne bo [] (Parse_datatype (Some (node_value ne n p)) zero_datatype) =
        datatype_work ve ne bo [] (Parse_fields (Some it) 0
          (Datatype ASDF_DATATYPE_STRUCTURED 0 None bo [] (replicate (length fs) zero_datatype)) ASDF_VALUE_OK)"
      by (subst datatype_work.simps) (simp add: no_string it z items_size [OF seq struct(1)] len)
    also have "\<dots> = Some (ASDF_VALUE_OK, described bo (Struct_desc fs), [])"
      using fields_read [OF fields it(2) _ it(4), of n "[]" ASDF_DATATYPE_STRUCTURED 0 None "[]"] seq [of p]
      by (simp add: it(3) case_prod_beta comp_def)
    finally show ?thesis .
  qed
  then show ?case using struct(1) by (simp add: seq_node_def map_node_def)
next
  case (anonymous d m)
  have "fst (asdf_value_as_mapping (Some (node_value ne m p))) \<noteq> ASDF_VALUE_OK" for p
    using anonymous.IH by (cases "fy_node_get_type ne m") (auto simp: asdf_value_as_mapping_def node_value_def map_node_def)
  then show ?case using anonymous.IH by (simp add: field_read_def with_properties_def)
next
  case (field m c d name bo' shape)
  have m: "is_map (node_value ne m p) m" for p using field(1) by (rule node_value_map)
  have "datatype_work ve ne bo [] (Parse_field (node_value ne m p) zero_datatype) =
    Some (ASDF_VALUE_OK, with_properties (Some (name, bo', shape)) (described bo d), [])" for p
  proof -
    obtain q where "asdf_mapping_get ne [] (node_value ne m p) (bytes_of ''datatype'') = (Some (node_value ne c q), [])"
      using get_key [OF m field(2)] field.IH by blast
    then show ?thesis
      using properties_read [OF m field(5-7), of "described bo d"] field.IH by (subst datatype_work.simps) simp
  qed
  then show ?case using field(1) m by (simp add: field_read_def map_node_def asdf_value_as_mapping_def is_map_def)
qed

text \<open>The size that is filled in is the number of bytes.\<close>

lemma with_properties_size:
  "dt_shape d = [] \<Longrightarrow> dt_size d = of_nat (datatype_bytes d) \<Longrightarrow>
   dt_size (with_properties props d) = of_nat (datatype_bytes (with_properties props d))"
  by (cases d) (auto simp: with_properties_def of_nat_prod_unat split: option.splits)

lemma described_size: "dt_size (described bo d) = of_nat (datatype_bytes (described bo d))"
proof (induction d)
  case (Struct_desc fs)
  have "sum_list (map (dt_size \<circ> (\<lambda>(props, d). with_properties props (described bo d))) fs) =
    sum_list (map (of_nat \<circ> (datatype_bytes \<circ> (\<lambda>(props, d). with_properties props (described bo d)))) fs)"
    using Struct_desc by (intro arg_cong [where f = sum_list] map_cong) (auto intro!: with_properties_size)
  then show ?case by (simp add: Let_def of_nat_sum_list)
qed simp_all

text \<open>C17. A datatype in the tree that the schema allows is read as the datatype it describes, through any nesting of
  structured types: every field has the name, byte order and shape it is given, the byte order of the whole where it
  has none, and the sizes are the numbers of bytes modulo 2 to the 64.\<close>

theorem datatype_deserialized:
  assumes "shows_datatype ve ne d n"
  shows "asdf_datatype_deserialize ve ne [] (Some (node_value ne n p)) =
      Some (ASDF_VALUE_OK, Some (described ASDF_BYTEORDER_LITTLE d), []) \<and>
    dt_size (described ASDF_BYTEORDER_LITTLE d) = of_nat (datatype_bytes (described ASDF_BYTEORDER_LITTLE d))"
  using datatype_read(1) [OF assms] described_size by (simp add: asdf_datatype_deserialize_def asdf_datatype_parse_def)

text \<open>A tree of a document: quoted texts, integers, sequences and mappings.\<close>

datatype yaml = Quoted bytes | Plain bytes | Items "yaml list" | Pairs "(bytes \<times> yaml) list"

fun yaml_type :: "yaml \<Rightarrow> fy_node_type" where
  "yaml_type (Items _) = FYNT_SEQUENCE"
| "yaml_type (Pairs _) = FYNT_MAPPING"
| "yaml_type _ = FYNT_SCALAR"

fun yaml_text :: "yaml \<Rightarrow> bytes option" where
  "yaml_text (Quoted s) = Some s"
| "yaml_text (Plain s) = Some s"
| "yaml_text _ = None"

fun yaml_items :: "yaml \<Rightarrow> yaml list" where
  "yaml_items (Items ns) = ns"
| "yaml_items _ = []"

fun yaml_pairs :: "yaml \<Rightarrow> (bytes \<times> yaml) list" where
  "yaml_pairs (Pairs ps) = ps"
| "yaml_pairs _ = []"

definition yaml_values :: "yaml value_env" where
  "yaml_values = \<lparr>ve_platform = little_platform, ve_point = [46],
     fy_node_get_style = \<lambda>n. (case n of Quoted _ \<Rightarrow> FYNS_SINGLE_QUOTED | _ \<Rightarrow> FYNS_PLAIN),
     fy_node_get_scalar = yaml_text, fy_node_get_tag = \<lambda>_. None\<rparr>"

definition yaml_nodes :: "yaml node_env" where
  "yaml_nodes = \<lparr>fy_node_get_type = yaml_type, fy_node_is_alias = \<lambda>_. False, fy_node_resolve_alias = Some,
     fy_node_pairs = \<lambda>n. map (\<lambda>(k, v). (Quoted k, v)) (yaml_pairs n), fy_node_items = yaml_items,
     fy_node_get_scalar0 = yaml_text, fy_node_get_path = \<lambda>_. None, fy_node_get_parent = \<lambda>_. None,
     fy_node_is_attached = \<lambda>_. True, fy_node_root = \<lambda>_. None, fy_node_copy = Some,
     fy_node_mapping_lookup_value_by_simple_key = \<lambda>n k. map_of (yaml_pairs n) k,
     fy_node_sequence_get_by_index = \<lambda>n i. (if 0 \<le> i \<and> i < int (length (yaml_items n)) then Some (yaml_items n ! nat i) else None)\<rparr>"

lemma yaml_seq: "seq_node yaml_nodes (Items ns) ns"
  by (simp add: seq_node_def yaml_nodes_def)

lemma yaml_quoted: "text_node yaml_values yaml_nodes (Quoted s) s"
  by (simp add: text_node_def yaml_values_def yaml_nodes_def quoted_style_def)

lemma yaml_integer: "int_node yaml_values yaml_nodes (Plain (int_dec (uint w))) w"
  by (simp add: int_node_def plain_node_def yaml_values_def yaml_nodes_def quoted_style_def)

text \<open>Two fields: a nameless double, and big-endian 16-bit integers in a shape of two by three.\<close>

definition sample_dtype :: dtype_desc where
  "sample_dtype = Struct_desc [(None, Scalar_desc ASDF_DATATYPE_FLOAT64),
     (Some (Some (bytes_of ''k''), Some ASDF_BYTEORDER_BIG, Some [2, 3]), Scalar_desc ASDF_DATATYPE_INT16)]"

definition sample_yaml :: yaml where
  "sample_yaml = Items [Quoted (bytes_of ''float64''),
     Pairs [(bytes_of ''name'', Quoted (bytes_of ''k'')), (bytes_of ''datatype'', Quoted (bytes_of ''int16'')),
            (bytes_of ''byteorder'', Quoted (bytes_of ''big'')),
            (bytes_of ''shape'', Items [Plain (int_dec (uint (2 :: u64))), Plain (int_dec (uint (3 :: u64)))])]]"

lemma sample_shown: "shows_datatype yaml_values yaml_nodes sample_dtype sample_yaml"
proof -
  have look: "fy_node_mapping_lookup_value_by_simple_key yaml_nodes (Pairs ps) k = map_of ps k" for ps k by (simp add: yaml_nodes_def)
  have t: "shows_datatype yaml_values yaml_nodes (Scalar_desc t) (Quoted (asdf_scalar_datatype_to_string t))" if "t \<in> named_types" for t
    using that yaml_quoted by (rule shows_datatype_shows_field.scalar)
  have a: "shows_field yaml_values yaml_nodes (Quoted (bytes_of ''float64'')) (None, Scalar_desc ASDF_DATATYPE_FLOAT64)"
    using t [of ASDF_DATATYPE_FLOAT64] by (intro shows_datatype_shows_field.anonymous) (simp add: named_types_def)
  have shape: "shape_node yaml_values yaml_nodes (Items [Plain (int_dec (uint (2 :: u64))), Plain (int_dec (uint (3 :: u64)))]) [2, 3]"
    unfolding shape_node_def by (rule conjI, simp add: yaml_nodes_def, intro exI conjI, rule yaml_seq) (simp only: list_all2_Cons list.rel_inject yaml_integer list_all2_Nil simp_thms)
  have b: "shows_field yaml_values yaml_nodes (Pairs [(bytes_of ''name'', Quoted (bytes_of ''k'')), (bytes_of ''datatype'', Quoted (bytes_of ''int16'')),
            (bytes_of ''byteorder'', Quoted (bytes_of ''big'')),
            (bytes_of ''shape'', Items [Plain (int_dec (uint (2 :: u64))), Plain (int_dec (uint (3 :: u64)))])])
      (Some (Some (bytes_of ''k''), Some ASDF_BYTEORDER_BIG, Some [2, 3]), Scalar_desc ASDF_DATATYPE_INT16)"
  proof (rule shows_datatype_shows_field.field)
    show "shows_datatype yaml_values yaml_nodes (Scalar_desc ASDF_DATATYPE_INT16) (Quoted (bytes_of ''int16''))"
      using t [of ASDF_DATATYPE_INT16] by (simp add: named_types_def)
  qed (use shape yaml_quoted in \<open>simp_all add: shows_key_def look bytes_of_def map_node_def yaml_nodes_def byteorder_node_def\<close>)
  show ?thesis unfolding sample_dtype_def sample_yaml_def
    by (intro shows_datatype_shows_field.struct, rule yaml_seq) (simp only: list_all2_Cons list_all2_Nil a b simp_thms)
qed

lemma datatype_deserialized_witness:
  "asdf_datatype_deserialize yaml_values yaml_nodes [] (Some (node_value yaml_nodes sample_yaml None)) =
    Some (ASDF_VALUE_OK, Some (Datatype ASDF_DATATYPE_STRUCTURED 20 None ASDF_BYTEORDER_LITTLE []
      [Datatype ASDF_DATATYPE_FLOAT64 8 None ASDF_BYTEORDER_LITTLE [] [],
       Datatype ASDF_DATATYPE_INT16 12 (Some (bytes_of ''k'')) ASDF_BYTEORDER_BIG [2, 3] []]), [])"
  using datatype_deserialized [OF sample_shown, of None] by (simp add: sample_dtype_def with_properties_def Let_def)

end
