(* ===== verification/Asdf_Datatype_Write_Laws.thy ===== *)
theory Asdf_Datatype_Write_Laws
  imports Asdf_Datatype_Write Asdf_Tree_Sample Asdf_Datatype_Read_Laws
begin

text \<open>
  A datatype that is written to the tree and read from there is the same again, and where it is not.
\<close>

section \<open>What is written\<close>

definition entry :: "string \<Rightarrow> ('a \<Rightarrow> content) \<Rightarrow> 'a option \<Rightarrow> (bytes \<times> content) list" where
  "entry key f x = (case x of None \<Rightarrow> [] | Some a \<Rightarrow> [(bytes_of key, f a)])"

definition field_tree :: "field_props option \<Rightarrow> content \<Rightarrow> content" where
  "field_tree props t =
     (case props of
        None \<Rightarrow> t
      | Some (name, bo, shape) \<Rightarrow>
          Mapping (entry ''name'' Text name @ [(bytes_of ''datatype'', t)] @
            entry ''byteorder'' (\<lambda>b. Text (the (asdf_byteorder_to_string b))) bo @
            entry ''shape'' (\<lambda>s. Sequence (map Number s)) shape))"

fun desc_tree :: "dtype_desc \<Rightarrow> content" where
  "desc_tree (Scalar_desc t) = Text (asdf_scalar_datatype_to_string t)"
| "desc_tree (String_desc wide w) = Sequence [Text (bytes_of (if wide then ''ucs4'' else ''ascii'')), Number w]"
| "desc_tree (Struct_desc fs) = Sequence (map (\<lambda>(props, d). field_tree props (desc_tree d)) fs)"

text \<open>The description of a datatype.\<close>

definition props_of :: "asdf_datatype \<Rightarrow> field_props option" where
  "props_of d =
     (if asdf_datatype_is_simple_scalar d then None
      else Some (dt_name d, Some (dt_byteorder d), if dt_shape d = [] then None else Some (dt_shape d)))"

fun desc_of :: "asdf_datatype \<Rightarrow> dtype_desc" where
  "desc_of (Datatype t n name bo shape ds) =
     (if t = ASDF_DATATYPE_STRUCTURED then Struct_desc (map (\<lambda>d. (props_of d, desc_of d)) ds)
      else if t = ASDF_DATATYPE_ASCII then String_desc False n
      else if t = ASDF_DATATYPE_UCS4 then String_desc True (n div 4)
      else Scalar_desc t)"

text \<open>The datatypes that can be written: dimensions and lengths of strings have 32 bits, names are printable.\<close>

fun storable :: "asdf_datatype \<Rightarrow> bool" where
  "storable (Datatype t n name bo shape ds) \<longleftrightarrow>
     (bo = ASDF_BYTEORDER_LITTLE \<or> bo = ASDF_BYTEORDER_BIG) \<and> (\<forall>s. name = Some s \<longrightarrow> short_text s) \<and>
     (\<forall>k \<in> set shape. k < 2 ^ 32) \<and>
     (if t = ASDF_DATATYPE_STRUCTURED then \<forall>d \<in> set ds. storable d
      else ds = [] \<and>
        (if t = ASDF_DATATYPE_ASCII then n < 2 ^ 32
         else if t = ASDF_DATATYPE_UCS4 then n < 2 ^ 32 \<and> n mod 4 = 0
         else t \<in> named_types))"

text \<open>The sizes are those of the parts, and no string has a shape of its own.\<close>

fun sized :: "asdf_datatype \<Rightarrow> bool" where
  "sized (Datatype t n name bo shape ds) \<longleftrightarrow>
     (if t = ASDF_DATATYPE_STRUCTURED then n = sum_list (map dt_size ds) * prod_list shape \<and> (\<forall>d \<in> set ds. sized d)
      else if t = ASDF_DATATYPE_ASCII \<or> t = ASDF_DATATYPE_UCS4 then shape = []
      else n = of_nat (asdf_scalar_datatype_size t) * prod_list shape)"

definition writable :: "asdf_datatype \<Rightarrow> bool" where
  "writable d \<longleftrightarrow> storable d \<and> sized d \<and> dt_name d = None \<and> dt_shape d = [] \<and> dt_byteorder d = ASDF_BYTEORDER_LITTLE"

section \<open>The description stands for the datatype\<close>

lemma times_four: "(n :: u64) mod 4 = 0 \<Longrightarrow> n div 4 * 4 = n"
  by (metis div_mult_mod_eq add.right_neutral)

lemma described_field: "storable d \<Longrightarrow> sized d \<Longrightarrow> with_properties (props_of d) (described ASDF_BYTEORDER_LITTLE (desc_of d)) = d"
proof (induction d)
  case (Datatype t n name bo shape ds)
  have fields: "map (\<lambda>d. with_properties (props_of d) (described ASDF_BYTEORDER_LITTLE (desc_of d))) ds = ds" if "t = ASDF_DATATYPE_STRUCTURED"
    using Datatype that by (intro map_idI) auto
  show ?case
  proof (cases "t = ASDF_DATATYPE_STRUCTURED")
    case True
    then show ?thesis
      using Datatype.prems fields
      by (simp add: props_of_def asdf_datatype_is_simple_scalar_def with_properties_def comp_def Let_def)
  next
    case False
    then show ?thesis
      using Datatype.prems times_four [of n]
      by (auto simp: props_of_def asdf_datatype_is_simple_scalar_def with_properties_def split: if_splits)
  qed
qed

lemma described_datatype: "writable d \<Longrightarrow> described ASDF_BYTEORDER_LITTLE (desc_of d) = d"
  using described_field [of d]
  by (cases d) (auto simp: writable_def props_of_def asdf_datatype_is_simple_scalar_def with_properties_def Let_def
      times_four split: if_splits)

section \<open>What is written shows the description\<close>

fun desc_ok :: "dtype_desc \<Rightarrow> bool" where
  "desc_ok (Scalar_desc t) \<longleftrightarrow> t \<in> named_types"
| "desc_ok (String_desc _ _) \<longleftrightarrow> True"
| "desc_ok (Struct_desc fs) \<longleftrightarrow> (\<forall>f \<in> set fs. desc_ok (snd f) \<and>
     (\<forall>name bo shape. fst f = Some (name, bo, shape) \<longrightarrow> bo = Some ASDF_BYTEORDER_LITTLE \<or> bo = Some ASDF_BYTEORDER_BIG))"

lemma desc_of_ok: "storable d \<Longrightarrow> desc_ok (desc_of d)"
proof (induction d)
  case (Datatype t n name bo shape ds)
  then have "\<forall>d \<in> set ds. dt_byteorder d = ASDF_BYTEORDER_LITTLE \<or> dt_byteorder d = ASDF_BYTEORDER_BIG" if "t = ASDF_DATATYPE_STRUCTURED"
    using that by (auto elim!: storable.elims)
  then show ?case using Datatype by (auto simp: props_of_def split: if_splits)
qed

lemma numbers_displayed:
  "list_all2 (displays ve ne) (map Number ws) items \<Longrightarrow> list_all2 (int_node ve ne) items ws"
  by (simp add: list_all2_conv_all_nth)

lemma keys_distinct:
  "bytes_of ''name'' \<noteq> bytes_of ''datatype''" "bytes_of ''name'' \<noteq> bytes_of ''byteorder''" "bytes_of ''name'' \<noteq> bytes_of ''shape''"
  "bytes_of ''datatype'' \<noteq> bytes_of ''byteorder''" "bytes_of ''datatype'' \<noteq> bytes_of ''shape''" "bytes_of ''byteorder'' \<noteq> bytes_of ''shape''"
  by (simp_all add: bytes_of_def)

lemma field_displayed:
  assumes "displays ve ne (field_tree (Some (name, bo, shape)) t) m"
    and t: "\<And>c. displays ve ne t c \<Longrightarrow> shows_datatype ve ne d c"
    and bo: "bo = Some ASDF_BYTEORDER_LITTLE \<or> bo = Some ASDF_BYTEORDER_BIG"
  shows "shows_field ve ne m (Some (name, bo, shape), d)"
proof -
  note shown = assms(1) [unfolded field_tree_def, simplified]
  note keys = keys_distinct keys_distinct [symmetric]
  obtain c where c: "fy_node_mapping_lookup_value_by_simple_key ne m (bytes_of ''datatype'') = Some c" "displays ve ne t c"
    using shown by auto
  have "shows_key ne m ''name'' (text_node ve ne) name"
    using shown keys by (cases name; cases bo; cases shape) (auto simp: shows_key_def entry_def keys_of_def)
  moreover have "shows_key ne m ''byteorder'' (byteorder_node ve ne) bo"
    using shown bo by (auto simp: shows_key_def entry_def byteorder_node_def)
  moreover have "shows_key ne m ''shape'' (shape_node ve ne) shape"
    using shown keys by (cases name; cases bo; cases shape)
      (auto simp: shows_key_def entry_def keys_of_def shape_node_def dest!: numbers_displayed)
  ultimately show ?thesis
    using shown c t [OF c(2)] by (auto intro: shows_datatype_shows_field.field)
qed

lemma desc_displayed: "displays ve ne (desc_tree d) n \<Longrightarrow> desc_ok d \<Longrightarrow> shows_datatype ve ne d n"
proof (induction d arbitrary: n)
  case (Scalar_desc t)
  then show ?case by (simp add: shows_datatype_shows_field.scalar)
next
  case (String_desc wide w)
  then obtain a b where "seq_node ne n [a, b]" "text_node ve ne a (bytes_of (if wide then ''ucs4'' else ''ascii''))" "int_node ve ne b w"
    by (auto simp: list_all2_Cons1)
  then show ?case by (rule shows_datatype_shows_field.string)
next
  case (Struct_desc fs)
  obtain items where i: "seq_node ne n items"
      "list_all2 (displays ve ne) (map (\<lambda>(props, d). field_tree props (desc_tree d)) fs) items"
    using Struct_desc.prems(1) by auto
  have "shows_field ve ne m f" if f: "f \<in> set fs" and d: "displays ve ne (case f of (props, d) \<Rightarrow> field_tree props (desc_tree d)) m" for f m
  proof -
    obtain props d where p: "f = (props, d)" by (cases f)
    have sub: "displays ve ne (desc_tree d) c \<Longrightarrow> shows_datatype ve ne d c" for c
      using Struct_desc.IH [of f d c] Struct_desc.prems(2) f p by (auto simp: snds.simps)
    show ?thesis
    proof (cases props)
      case None
      then show ?thesis using d p sub by (simp add: field_tree_def shows_datatype_shows_field.anonymous)
    next
      case (Some q)
      obtain name bo shape where q: "q = (name, bo, shape)" by (cases q)
      have "bo = Some ASDF_BYTEORDER_LITTLE \<or> bo = Some ASDF_BYTEORDER_BIG"
        using Struct_desc.prems(2) f p Some q by auto
      then show ?thesis using d p Some q field_displayed [of ve ne name bo shape "desc_tree d" m d] sub by simp
    qed
  qed
  then have "list_all2 (shows_field ve ne) items fs" using i(2) by (simp add: list_all2_conv_all_nth)
  with i(1) show ?case by (rule shows_datatype_shows_field.struct)
qed

section \<open>Writing\<close>

definition writes ::
  "('s \<Rightarrow> 'n \<Rightarrow> content option) \<Rightarrow> (heap \<Rightarrow> 's \<Rightarrow> ('s, 'n) written) \<Rightarrow> content \<Rightarrow> bool" where
  "writes nodes f t \<longleftrightarrow>
     (\<forall>s. \<exists>v s'. f [] s = Some (ASDF_VALUE_OK, Some v, [], s') \<and> nodes s (v_node v) = None \<and> nodes s' = (nodes s)(v_node v \<mapsto> t))"

lemma type_name: "short_text (asdf_scalar_datatype_to_string t)"
  by (cases t; simp add: short_text_def printable_def bytes_of_def INT_MAX_def)

lemma uint_low: "(k :: u64) < 2 ^ 32 \<Longrightarrow> uint (ucast k :: 32 word) = uint k"
  by (simp add: word_less_def unsigned_ucast_eq unsigned_take_bit_eq take_bit_eq_mod)

lemma uint_wide: "uint (ucast (k :: 32 word) :: u64) = uint k"
  by (simp add: uint_up_ucast is_up)

lemma low_32: "(k :: u64) < 2 ^ 32 \<Longrightarrow> ucast (ucast k :: 32 word) = k"
  by (rule word_uint_eqI) (simp only: uint_wide uint_low)

lemma ucs4_length:
  fixes n :: u64
  assumes "n < 2 ^ 32" and "n mod 4 = 0"
  shows "(ucast n :: 32 word) mod 4 = 0" "ucast ((ucast n :: 32 word) div 4) = n div 4"
proof -
  have "uint (n mod 4) = 0" using assms(2) by simp
  then show "(ucast n :: 32 word) mod 4 = 0"
    by (intro word_uint_eqI) (simp add: uint_mod uint_low [OF assms(1)])
  show "ucast ((ucast n :: 32 word) div 4) = n div 4"
    by (rule word_uint_eqI) (simp add: uint_wide uint_div uint_low [OF assms(1)])
qed

text \<open>A string type.\<close>

lemma string_written:
  assumes laws: "document_laws ops nodes" and string: "asdf_datatype_is_string d" and n: "dt_size d < 2 ^ 32"
    and wide: "dt_type d = ASDF_DATATYPE_UCS4 \<longrightarrow> dt_size d mod 4 = 0"
  shows "writes nodes (\<lambda>h s. asdf_datatype_serialize_string ops h d s)
    (Sequence [Text (asdf_scalar_datatype_to_string (dt_type d)),
       Number (if dt_type d = ASDF_DATATYPE_UCS4 then dt_size d div 4 else dt_size d)])"
  unfolding writes_def
proof
  fix s
  let ?len = "ucast (dt_size d) :: 32 word"
  let ?w = "if dt_type d = ASDF_DATATYPE_UCS4 then ?len div 4 else ?len"
  let ?name = "asdf_scalar_datatype_to_string (dt_type d)"
  obtain sq s1 where sq: "asdf_sequence_create ops [] s = (Some sq, [], s1)" "nodes s (v_node sq) = None"
      "nodes s1 = (nodes s)(v_node sq \<mapsto> Sequence [])" "v_style sq = Some ASDF_YAML_NODE_STYLE_AUTO"
    using sequence_created [OF laws] by blast
  obtain s2 where s2: "asdf_sequence_append_string0 ops [] (Some sq) (Some ?name) s1 = Some (ASDF_VALUE_OK, [], s2)"
      "nodes s2 = (nodes s1)(v_node sq \<mapsto> Sequence [Text ?name])"
    using string_appended [OF laws, of s1 sq "[]" ?name] sq(3) type_name by auto
  obtain s3 where s3: "asdf_sequence_append_unsigned ops [] (Some sq) ?w s2 = Some (ASDF_VALUE_OK, [], s3)"
      "nodes s3 = (nodes s2)(v_node sq \<mapsto> Sequence [Text ?name, Number (ucast ?w)])"
    using number_appended [OF laws, of s2 sq "[Text ?name]" ?w] s2(2) by auto
  obtain v s4 where s4: "asdf_value_set_style ops sq ASDF_YAML_NODE_STYLE_FLOW s3 = Some (v, s4)"
      "moved nodes s3 (v_node sq) (Sequence [Text ?name, Number (ucast ?w)]) (v_node v) s4"
    using style_set [OF laws, of s3 sq "Sequence [Text ?name, Number (ucast ?w)]" ASDF_YAML_NODE_STYLE_FLOW] s3(2) sq(4) by auto
  have w: "ucast ?w = (if dt_type d = ASDF_DATATYPE_UCS4 then dt_size d div 4 else dt_size d)"
    using ucs4_length(2) [OF n] low_32 [OF n] wide by simp
  have "nodes s (v_node v) = None" "nodes s4 = (nodes s)(v_node v \<mapsto> Sequence [Text ?name, Number (ucast ?w)])"
    using s4(2) sq(2,3) s2(2) s3(2) by (auto simp: moved_def fun_eq_iff split: if_splits)
  moreover have "asdf_datatype_serialize_string ops [] d s = Some (ASDF_VALUE_OK, Some v, [], s4)"
    using sq(1) s2(1) s3(1) s4(1) wide ucs4_length(1) [OF n]
    by (auto simp: asdf_datatype_serialize_string_def asdf_sequence_set_style_def asdf_value_of_sequence_def Let_def)
  ultimately show "\<exists>v s'. asdf_datatype_serialize_string ops [] d s = Some (ASDF_VALUE_OK, Some v, [], s') \<and> nodes s (v_node v) = None \<and>
      nodes s' = (nodes s)(v_node v \<mapsto> Sequence [Text ?name, Number (if dt_type d = ASDF_DATATYPE_UCS4 then dt_size d div 4 else dt_size d)])"
    unfolding w by blast
qed

lemma scalar_written:
  assumes laws: "document_laws ops nodes" and d: "storable d" "asdf_datatype_is_scalar d"
  shows "writes nodes (\<lambda>h s. asdf_datatype_serialize_scalar ops h d s) (desc_tree (desc_of d))"
proof (cases "asdf_datatype_is_string d")
  case True
  then have "dt_size d < 2 ^ 32" "dt_type d = ASDF_DATATYPE_UCS4 \<longrightarrow> dt_size d mod 4 = 0"
    using d(1) by (cases d; auto simp: asdf_datatype_is_string_def split: if_splits)+
  note string_written [OF laws True this]
  moreover have "desc_tree (desc_of d) = Sequence [Text (asdf_scalar_datatype_to_string (dt_type d)),
       Number (if dt_type d = ASDF_DATATYPE_UCS4 then dt_size d div 4 else dt_size d)]"
    using True by (cases d) (auto simp: asdf_datatype_is_string_def)
  ultimately show ?thesis using True by (simp add: asdf_datatype_serialize_scalar_def)
next
  case False
  have "desc_tree (desc_of d) = Text (asdf_scalar_datatype_to_string (dt_type d))"
    using False d(2) by (cases d) (auto simp: asdf_datatype_is_string_def asdf_datatype_is_scalar_def)
  moreover have "\<exists>v s'. asdf_datatype_serialize_scalar ops [] d s = Some (ASDF_VALUE_OK, Some v, [], s') \<and>
    nodes s (v_node v) = None \<and> nodes s' = (nodes s)(v_node v \<mapsto> Text (asdf_scalar_datatype_to_string (dt_type d)))" for s
    using string_value [OF laws type_name, of "dt_type d" s] False by (auto simp: asdf_datatype_serialize_scalar_def)
  ultimately show ?thesis by (simp add: writes_def)
qed

text \<open>A field as a mapping.\<close>

lemma dims_appended:
  assumes laws: "document_laws ops nodes"
  shows "nodes s (v_node sq) = Some (Sequence ts) \<Longrightarrow> \<forall>k \<in> set shape. k < 2 ^ 32 \<Longrightarrow>
    \<exists>s'. append_dims ops sq shape [] s = Some (ASDF_VALUE_OK, [], s') \<and>
      nodes s' = (nodes s)(v_node sq \<mapsto> Sequence (ts @ map Number shape))"
proof (induction shape arbitrary: s ts)
  case Nil
  then show ?case by (auto simp: fun_eq_iff)
next
  case (Cons k shape)
  have k: "k < 2 ^ 32" using Cons.prems(2) by simp
  obtain s1 where s1: "asdf_sequence_append_unsigned ops [] (Some sq) (ucast k :: 32 word) s = Some (ASDF_VALUE_OK, [], s1)"
      "nodes s1 = (nodes s)(v_node sq \<mapsto> Sequence (ts @ [Number k]))"
    using number_appended [OF laws Cons.prems(1), of "ucast k"] low_32 [OF k] by auto
  have "nodes s1 (v_node sq) = Some (Sequence (ts @ [Number k]))" "\<forall>k \<in> set shape. k < 2 ^ 32"
    using s1(2) Cons.prems(2) by simp_all
  then obtain s2 where s2: "append_dims ops sq shape [] s1 = Some (ASDF_VALUE_OK, [], s2)"
      "nodes s2 = (nodes s1)(v_node sq \<mapsto> Sequence ((ts @ [Number k]) @ map Number shape))"
    using Cons.IH by blast
  then show ?case using s1 by (auto simp: fun_eq_iff)
qed

lemma c_key: "short_text (bytes_of ''name'')" "short_text (bytes_of ''datatype'')"
  "short_text (bytes_of ''byteorder'')" "short_text (bytes_of ''shape'')"
  by (simp_all add: short_text_def printable_def bytes_of_def INT_MAX_def)

lemma shape_written:
  assumes laws: "document_laws ops nodes" and m: "nodes s (v_node m) = Some (Mapping ps)"
    and k: "bytes_of ''shape'' \<notin> keys_of ps" and shape: "\<forall>k \<in> set shape. k < 2 ^ 32"
  shows "\<exists>s'. serialize_shape ops [] shape m s = Some ([], s') \<and>
    nodes s' = (nodes s)(v_node m \<mapsto> Mapping (ps @ entry ''shape'' (\<lambda>s. Sequence (map Number s)) (if shape = [] then None else Some shape)))"
proof (cases "shape = []")
  case True
  then show ?thesis using m by (auto simp: serialize_shape_def entry_def fun_eq_iff)
next
  case False
  let ?t = "Sequence (map Number shape)"
  obtain sq s1 where sq: "asdf_sequence_create ops [] s = (Some sq, [], s1)" "nodes s (v_node sq) = None"
      "nodes s1 = (nodes s)(v_node sq \<mapsto> Sequence [])" "v_style sq = Some ASDF_YAML_NODE_STYLE_AUTO"
    using sequence_created [OF laws] by blast
  obtain s2 where s2: "append_dims ops sq shape [] s1 = Some (ASDF_VALUE_OK, [], s2)" "nodes s2 = (nodes s1)(v_node sq \<mapsto> ?t)"
    using dims_appended [OF laws _ shape, of s1 sq "[]"] sq(3) by auto
  obtain v s3 where s3: "asdf_value_set_style ops sq ASDF_YAML_NODE_STYLE_FLOW s2 = Some (v, s3)" "moved nodes s2 (v_node sq) ?t (v_node v) s3"
    using style_set [OF laws, of s2 sq ?t ASDF_YAML_NODE_STYLE_FLOW] s2(2) sq(4) by auto
  have n: "nodes s3 = (nodes s)(v_node v \<mapsto> ?t)" "nodes s (v_node v) = None"
    using s3(2) sq(2,3) s2(2) by (auto simp: moved_def fun_eq_iff split: if_splits)
  have d: "v_node v \<noteq> v_node m" using n(2) m by auto
  obtain s4 where s4: "asdf_mapping_set ops [] (Some m) (Some (bytes_of ''shape'')) (Some v) s3 = Some (ASDF_VALUE_OK, [], s4)"
      "nodes s4 = (nodes s3)(v_node v := None, v_node m \<mapsto> Mapping (ps @ [(bytes_of ''shape'', ?t)]))"
    using value_set [OF laws _ _ d k c_key(4), of s3 ?t] n(1) m d by auto
  have "nodes s4 = (nodes s)(v_node m \<mapsto> Mapping (ps @ [(bytes_of ''shape'', ?t)]))" using s4(2) n by (auto simp: fun_eq_iff)
  then show ?thesis
    using False sq(1) s2(1) s3(1) s4(1) by (simp add: serialize_shape_def asdf_sequence_set_style_def entry_def)
qed

lemma byteorder_written:
  assumes laws: "document_laws ops nodes" and m: "nodes s (v_node m) = Some (Mapping ps)"
    and k: "bytes_of ''byteorder'' \<notin> keys_of ps" and bo: "bo = ASDF_BYTEORDER_LITTLE \<or> bo = ASDF_BYTEORDER_BIG"
  shows "\<exists>s'. serialize_byteorder ops [] bo m s = Some ([], s') \<and>
    nodes s' = (nodes s)(v_node m \<mapsto> Mapping (ps @ [(bytes_of ''byteorder'', Text (the (asdf_byteorder_to_string bo)))]))"
proof -
  have str: "asdf_byteorder_to_string bo = Some (the (asdf_byteorder_to_string bo))"
    "short_text (the (asdf_byteorder_to_string bo))"
    using bo by (auto simp: short_text_def printable_def bytes_of_def INT_MAX_def)
  then show ?thesis
    using string_set [OF laws m k c_key(3) str(2)] bo by (auto simp: serialize_byteorder_def)
qed

lemma name_written:
  assumes laws: "document_laws ops nodes" and m: "nodes s (v_node m) = Some (Mapping [])" and "\<forall>str. name = Some str \<longrightarrow> short_text str"
  shows "\<exists>s'. (case name of None \<Rightarrow> Some (ASDF_VALUE_OK, [], s)
       | Some name \<Rightarrow> asdf_mapping_set_string0 ops [] m (Some (bytes_of ''name'')) (Some name) s) = Some (ASDF_VALUE_OK, [], s') \<and>
    nodes s' = (nodes s)(v_node m \<mapsto> Mapping (entry ''name'' Text name))"
proof (cases name)
  case None
  then show ?thesis using m by (auto simp: entry_def fun_eq_iff)
next
  case (Some str)
  then show ?thesis
    using string_set [OF laws m _ c_key(1), of str] assms(3) by (auto simp: entry_def keys_of_def short_text_def printable_def)
qed

lemma field_written:
  assumes laws: "document_laws ops nodes" and d: "storable d"
    and inner: "writes nodes (\<lambda>h s. if asdf_datatype_is_scalar d then asdf_datatype_serialize_scalar ops h d s else f h s) t"
  shows "writes nodes (\<lambda>h s. asdf_datatype_serialize_field ops f h d s)
    (field_tree (Some (dt_name d, Some (dt_byteorder d), if dt_shape d = [] then None else Some (dt_shape d))) t)"
  unfolding writes_def
proof
  fix s
  let ?shape = "if dt_shape d = [] then None else Some (dt_shape d)"
  let ?bo = "(bytes_of ''byteorder'', Text (the (asdf_byteorder_to_string (dt_byteorder d))))"
  let ?ps1 = "entry ''name'' Text (dt_name d)"
  let ?ps2 = "?ps1 @ [(bytes_of ''datatype'', t)]"
  let ?ps3 = "?ps2 @ [?bo]"
  let ?ps4 = "?ps3 @ entry ''shape'' (\<lambda>s. Sequence (map Number s)) ?shape"
  let ?style = "if asdf_datatype_is_scalar d \<and> \<not> asdf_datatype_is_string d \<and> dt_shape d = [] then ASDF_YAML_NODE_STYLE_FLOW else ASDF_YAML_NODE_STYLE_AUTO"
  have w: "dt_byteorder d = ASDF_BYTEORDER_LITTLE \<or> dt_byteorder d = ASDF_BYTEORDER_BIG" "\<forall>str. dt_name d = Some str \<longrightarrow> short_text str"
    "\<forall>k \<in> set (dt_shape d). k < 2 ^ 32"
    using d by (cases d; simp)+
  have keys: "bytes_of ''datatype'' \<notin> keys_of ?ps1" "bytes_of ''byteorder'' \<notin> keys_of ?ps2" "bytes_of ''shape'' \<notin> keys_of ?ps3"
    using keys_distinct keys_distinct [symmetric] by (auto simp: keys_of_def entry_def split: option.splits)
  obtain m s1 where m: "asdf_mapping_create ops [] s = (Some m, [], s1)" "nodes s (v_node m) = None"
      "nodes s1 = (nodes s)(v_node m \<mapsto> Mapping [])" "v_style m = Some ASDF_YAML_NODE_STYLE_AUTO"
    using mapping_created [OF laws] by blast
  obtain s2 where s2: "(case dt_name d of None \<Rightarrow> Some (ASDF_VALUE_OK, [], s1)
       | Some name \<Rightarrow> asdf_mapping_set_string0 ops [] m (Some (bytes_of ''name'')) (Some name) s1) = Some (ASDF_VALUE_OK, [], s2)"
      "nodes s2 = (nodes s1)(v_node m \<mapsto> Mapping ?ps1)"
    using name_written [OF laws _ w(2), of s1 m] m(3) by auto
  obtain v s3 where s3: "(if asdf_datatype_is_scalar d then asdf_datatype_serialize_scalar ops [] d s2 else f [] s2) =
        Some (ASDF_VALUE_OK, Some v, [], s3)" "nodes s2 (v_node v) = None" "nodes s3 = (nodes s2)(v_node v \<mapsto> t)"
    using inner unfolding writes_def by blast
  have ne: "v_node v \<noteq> v_node m" using s3(2) s2(2) by auto
  obtain s4 where s4: "asdf_mapping_set ops [] (Some m) (Some (bytes_of ''datatype'')) (Some v) s3 = Some (ASDF_VALUE_OK, [], s4)"
      "nodes s4 = (nodes s3)(v_node v := None, v_node m \<mapsto> Mapping ?ps2)"
    using value_set [OF laws _ _ ne keys(1) c_key(2), of s3 t] s3(3) s2(2) ne by auto
  obtain s5 where s5: "serialize_byteorder ops [] (dt_byteorder d) m s4 = Some ([], s5)" "nodes s5 = (nodes s4)(v_node m \<mapsto> Mapping ?ps3)"
    using byteorder_written [OF laws _ keys(2) w(1), of s4 m] s4(2) by auto
  obtain s6 where s6: "serialize_shape ops [] (dt_shape d) m s5 = Some ([], s6)" "nodes s6 = (nodes s5)(v_node m \<mapsto> Mapping ?ps4)"
    using shape_written [OF laws _ keys(3) w(3), of s5 m] s5(2) by auto
  obtain v' s7 where s7: "asdf_value_set_style ops m ?style s6 = Some (v', s7)" "moved nodes s6 (v_node m) (Mapping ?ps4) (v_node v') s7"
    using style_set [OF laws, of s6 m "Mapping ?ps4" ?style] s6(2) m(4) by auto
  have s6n: "nodes s6 = (nodes s)(v_node m \<mapsto> Mapping ?ps4)"
    using s6(2) s5(2) s4(2) s3(2,3) s2(2) m(3) ne by (auto simp: fun_eq_iff)
  have "nodes s (v_node v') = None" "nodes s7 = (nodes s)(v_node v' \<mapsto> Mapping ?ps4)"
    using s7(2) m(2) s6n by (auto simp: moved_def fun_eq_iff split: if_splits)
  moreover have "asdf_datatype_serialize_field ops f [] d s = Some (ASDF_VALUE_OK, Some v', [], s7)"
    using s2(1) s3(1) s4(1) s5(1) s6(1) s7(1)
    by (simp add: asdf_datatype_serialize_field_def m(1) asdf_mapping_set_style_def asdf_value_of_mapping_def)
  ultimately show "\<exists>v s'. asdf_datatype_serialize_field ops f [] d s = Some (ASDF_VALUE_OK, Some v, [], s') \<and> nodes s (v_node v) = None \<and>
      nodes s' = (nodes s)(v_node v \<mapsto> field_tree (Some (dt_name d, Some (dt_byteorder d), ?shape)) t)"
    by (auto simp: field_tree_def entry_def)
qed

section \<open>Nested types\<close>

lemma fields_written:
  assumes laws: "document_laws ops nodes"
    and fields: "\<forall>d \<in> set ds. writes nodes (asdf_datatype_serialize_impl ops d True) (field_tree (props_of d) (desc_tree (desc_of d)))"
  shows "nodes s (v_node sq) = Some (Sequence ts) \<Longrightarrow>
    \<exists>s'. serialize_fields ops ds written sq [] s = Some (ASDF_VALUE_OK, Some sq, [], s') \<and>
      nodes s' = (nodes s)(v_node sq \<mapsto> Sequence (ts @ map (\<lambda>d. field_tree (props_of d) (desc_tree (desc_of d))) ds))"
  using fields
proof (induction ds arbitrary: s ts written)
  case Nil
  then show ?case by (auto simp: asdf_value_of_sequence_def fun_eq_iff)
next
  case (Cons d ds)
  let ?t = "field_tree (props_of d) (desc_tree (desc_of d))"
  have f: "writes nodes (asdf_datatype_serialize_impl ops d True) ?t"
    and rest: "\<forall>d \<in> set ds. writes nodes (asdf_datatype_serialize_impl ops d True) (field_tree (props_of d) (desc_tree (desc_of d)))"
    using Cons.prems(2) by simp_all
  obtain v s1 where s1: "asdf_datatype_serialize_impl ops d True [] s = Some (ASDF_VALUE_OK, Some v, [], s1)" "nodes s (v_node v) = None"
      "nodes s1 = (nodes s)(v_node v \<mapsto> ?t)"
    using f unfolding writes_def by blast
  have ne: "v_node v \<noteq> v_node sq" using s1(2) Cons.prems(1) by auto
  obtain s2 where s2: "asdf_sequence_append ops (Some sq) (Some v) s1 = Some (ASDF_VALUE_OK, s2)"
      "nodes s2 = (nodes s1)(v_node v := None, v_node sq \<mapsto> Sequence (ts @ [?t]))"
    using value_appended [OF laws _ _ ne, of s1 ts ?t] s1(3) Cons.prems(1) ne by auto
  have "nodes s2 (v_node sq) = Some (Sequence (ts @ [?t]))" using s2(2) by simp
  then obtain s3 where s3: "serialize_fields ops ds True sq [] s2 = Some (ASDF_VALUE_OK, Some sq, [], s3)"
      "nodes s3 = (nodes s2)(v_node sq \<mapsto> Sequence ((ts @ [?t]) @ map (\<lambda>d. field_tree (props_of d) (desc_tree (desc_of d))) ds))"
    using Cons.IH [OF _ rest] by blast
  have "nodes s3 = (nodes s)(v_node sq \<mapsto> Sequence (ts @ map (\<lambda>d. field_tree (props_of d) (desc_tree (desc_of d))) (d # ds)))"
    using s3(2) s2(2) s1(2,3) by (auto simp: fun_eq_iff)
  then show ?case using s1(1) s2(1) s3(1) by (auto simp: fun_eq_iff)
qed

lemma struct_written:
  assumes laws: "document_laws ops nodes" and d: "asdf_datatype_is_structured d"
    and fields: "\<forall>e \<in> set (dt_fields d). writes nodes (asdf_datatype_serialize_impl ops e True) (field_tree (props_of e) (desc_tree (desc_of e)))"
  shows "writes nodes (asdf_datatype_serialize_impl ops d False) (desc_tree (desc_of d))"
  unfolding writes_def
proof
  fix s
  obtain sq s1 where sq: "asdf_sequence_create ops [] s = (Some sq, [], s1)" "nodes s (v_node sq) = None"
      "nodes s1 = (nodes s)(v_node sq \<mapsto> Sequence [])"
    using sequence_created [OF laws] by blast
  have "nodes s1 (v_node sq) = Some (Sequence [])" using sq(3) by simp
  then obtain s2 where s2: "serialize_fields ops (dt_fields d) False sq [] s1 = Some (ASDF_VALUE_OK, Some sq, [], s2)"
      "nodes s2 = (nodes s1)(v_node sq \<mapsto> Sequence ([] @ map (\<lambda>d. field_tree (props_of d) (desc_tree (desc_of d))) (dt_fields d)))"
    using fields_written [OF laws fields] by blast
  have "desc_tree (desc_of d) = Sequence (map (\<lambda>d. field_tree (props_of d) (desc_tree (desc_of d))) (dt_fields d))"
    using d by (cases d) (simp add: asdf_datatype_is_structured_def comp_def)
  then show "\<exists>v s'. asdf_datatype_serialize_impl ops d False [] s = Some (ASDF_VALUE_OK, Some v, [], s') \<and> nodes s (v_node v) = None \<and>
      nodes s' = (nodes s)(v_node v \<mapsto> desc_tree (desc_of d))"
    using d sq s2 by (auto simp: asdf_datatype_serialize_impl.simps asdf_datatype_is_simple_scalar_def asdf_datatype_is_structured_def
        asdf_datatype_is_scalar_def fun_eq_iff)
qed

lemma datatype_written:
  assumes laws: "document_laws ops nodes"
  shows "storable d \<Longrightarrow> writes nodes (asdf_datatype_serialize_impl ops d True) (field_tree (props_of d) (desc_tree (desc_of d)))"
proof (induction d)
  case (Datatype t n name bo shape ds)
  let ?d = "Datatype t n name bo shape ds"
  show ?case
  proof (cases "asdf_datatype_is_simple_scalar ?d")
    case True
    then have "asdf_datatype_is_scalar ?d" by (simp add: asdf_datatype_is_simple_scalar_def asdf_datatype_is_scalar_def)
    then show ?thesis
      using scalar_written [OF laws Datatype.prems] True
      by (simp add: writes_def asdf_datatype_serialize_impl.simps [of ops ?d] props_of_def field_tree_def del: desc_of.simps)
  next
    case False
    have "writes nodes (\<lambda>h s. if asdf_datatype_is_scalar ?d then asdf_datatype_serialize_scalar ops h ?d s
        else asdf_datatype_serialize_impl ops ?d False h s) (desc_tree (desc_of ?d))"
    proof (cases "asdf_datatype_is_scalar ?d")
      case True
      then show ?thesis using scalar_written [OF laws Datatype.prems] by (simp del: desc_of.simps)
    next
      case struct: False
      then have "\<forall>e \<in> set ds. storable e" using Datatype.prems by (simp add: asdf_datatype_is_scalar_def)
      then show ?thesis
        using struct struct_written [OF laws, of ?d] Datatype.IH
        by (simp add: asdf_datatype_is_scalar_def asdf_datatype_is_structured_def del: desc_of.simps)
    qed
    note field_written [OF laws Datatype.prems this]
    then show ?thesis
      using False by (simp add: writes_def asdf_datatype_serialize_impl.simps [of ops ?d True] props_of_def del: desc_of.simps)
  qed
qed

lemma written_read:
  assumes laws: "document_laws ops nodes" and w: "storable d" and shape: "dt_shape d = []"
  shows "\<exists>v s'. asdf_datatype_serialize ops True [] (Some d) s = Some (Some v, [], s') \<and>
    asdf_datatype_deserialize (to_values ops s') (to_nodes ops s') [] (Some (node_value (to_nodes ops s') (v_node v) p)) =
      Some (ASDF_VALUE_OK, Some (described ASDF_BYTEORDER_LITTLE (desc_of d)), [])"
proof -
  have "writes nodes (asdf_datatype_serialize_impl ops d False) (desc_tree (desc_of d))"
  proof (cases "asdf_datatype_is_structured d")
    case True
    then have "\<forall>e \<in> set (dt_fields d). storable e" using w by (cases d) (simp add: asdf_datatype_is_structured_def)
    then show ?thesis using struct_written [OF laws True] datatype_written [OF laws] by blast
  next
    case False
    then have s: "asdf_datatype_is_scalar d" by (simp add: asdf_datatype_is_scalar_def asdf_datatype_is_structured_def)
    have "asdf_datatype_serialize_impl ops d False h s = asdf_datatype_serialize_scalar ops h d s" for h s
      using s shape by (simp add: asdf_datatype_serialize_impl.simps [of ops d])
    then show ?thesis using scalar_written [OF laws w s] by (simp add: writes_def)
  qed
  then obtain v s' where v: "asdf_datatype_serialize_impl ops d False [] s = Some (ASDF_VALUE_OK, Some v, [], s')"
      "nodes s' = (nodes s)(v_node v \<mapsto> desc_tree (desc_of d))"
    unfolding writes_def by blast
  have "nodes s' (v_node v) = Some (desc_tree (desc_of d))" using v(2) by simp
  then have "shows_datatype (to_values ops s') (to_nodes ops s') (desc_of d) (v_node v)"
    using desc_displayed [OF document(2) [OF laws]] desc_of_ok [OF w] by blast
  then have "datatype_work (to_values ops s') (to_nodes ops s') ASDF_BYTEORDER_LITTLE []
      (Parse_datatype (Some (node_value (to_nodes ops s') (v_node v) p)) zero_datatype) =
      Some (ASDF_VALUE_OK, described ASDF_BYTEORDER_LITTLE (desc_of d), [])"
    using datatype_read(1) by fastforce
  then show ?thesis
    using v(1) by (simp add: asdf_datatype_serialize_def asdf_datatype_deserialize_def asdf_datatype_parse_def)
qed

text \<open>C14. A writable datatype that is written to a document and read from the node that was made is the same
  datatype, however its structured types nest: names, byte orders, shapes and sizes come back. It has no name and no
  shape of its own and is little-endian; in its parts the byte orders are little or big, names are printable,
  dimensions and sizes of strings have 32 bits, strings have no shape, and the sizes are those of the parts. The
  document is one that behaves as libfyaml documents it.\<close>

theorem datatype_roundtrip:
  assumes "document_laws ops nodes" and "writable d"
  shows "\<exists>v s'. asdf_datatype_serialize ops True [] (Some d) s = Some (Some v, [], s') \<and>
    asdf_datatype_deserialize (to_values ops s') (to_nodes ops s') [] (Some (node_value (to_nodes ops s') (v_node v) p)) =
      Some (ASDF_VALUE_OK, Some d, [])"
  using written_read [OF assms(1), of d s p] assms(2) described_datatype [of d] by (simp add: writable_def)

text \<open>A field of strings with a shape is written with its whole size for the length of a string, so reading multiplies
  the size by the shape once more.\<close>

theorem shaped_string_grows:
  assumes "document_laws ops nodes" and "n < 2 ^ 32" and "shape \<noteq> []" and "\<forall>k \<in> set shape. k < 2 ^ 32"
  shows "\<exists>v s'. asdf_datatype_serialize ops True []
      (Some (Datatype ASDF_DATATYPE_STRUCTURED n None ASDF_BYTEORDER_LITTLE []
        [Datatype ASDF_DATATYPE_ASCII n None ASDF_BYTEORDER_LITTLE shape []])) s = Some (Some v, [], s') \<and>
    asdf_datatype_deserialize (to_values ops s') (to_nodes ops s') [] (Some (node_value (to_nodes ops s') (v_node v) p)) =
      Some (ASDF_VALUE_OK, Some (Datatype ASDF_DATATYPE_STRUCTURED (n * prod_list shape) None ASDF_BYTEORDER_LITTLE []
        [Datatype ASDF_DATATYPE_ASCII (n * prod_list shape) None ASDF_BYTEORDER_LITTLE shape []]), [])"
  using written_read [OF assms(1), of "Datatype ASDF_DATATYPE_STRUCTURED n None ASDF_BYTEORDER_LITTLE []
        [Datatype ASDF_DATATYPE_ASCII n None ASDF_BYTEORDER_LITTLE shape []]" s p] assms(2-4)
  by (simp add: props_of_def asdf_datatype_is_simple_scalar_def with_properties_def Let_def)

text \<open>Two fields: a nameless double, and big-endian 16-bit integers in a shape of two by three.\<close>

definition sample_datatype :: asdf_datatype where
  "sample_datatype = Datatype ASDF_DATATYPE_STRUCTURED 20 None ASDF_BYTEORDER_LITTLE []
     [Datatype ASDF_DATATYPE_FLOAT64 8 None ASDF_BYTEORDER_LITTLE [] [],
      Datatype ASDF_DATATYPE_INT16 12 (Some (bytes_of ''k'')) ASDF_BYTEORDER_BIG [2, 3] []]"

lemma sample_writable: "writable sample_datatype"
  by (simp add: sample_datatype_def writable_def short_text_def printable_def bytes_of_def INT_MAX_def named_types_def)

lemma datatype_roundtrip_witness:
  "\<exists>v s'. asdf_datatype_serialize doc_ops True [] (Some sample_datatype) [] = Some (Some v, [], s') \<and>
    asdf_datatype_deserialize (to_values doc_ops s') (to_nodes doc_ops s') [] (Some (node_value (to_nodes doc_ops s') (v_node v) None)) =
      Some (ASDF_VALUE_OK, Some sample_datatype, [])"
  by (rule datatype_roundtrip [OF doc_laws sample_writable])

lemma shaped_string_grows_witness:
  "\<exists>v s'. asdf_datatype_serialize doc_ops True []
      (Some (Datatype ASDF_DATATYPE_STRUCTURED 10 None ASDF_BYTEORDER_LITTLE []
        [Datatype ASDF_DATATYPE_ASCII 10 None ASDF_BYTEORDER_LITTLE [2] []])) [] = Some (Some v, [], s') \<and>
    asdf_datatype_deserialize (to_values doc_ops s') (to_nodes doc_ops s') [] (Some (node_value (to_nodes doc_ops s') (v_node v) None)) =
      Some (ASDF_VALUE_OK, Some (Datatype ASDF_DATATYPE_STRUCTURED 20 None ASDF_BYTEORDER_LITTLE []
        [Datatype ASDF_DATATYPE_ASCII 20 None ASDF_BYTEORDER_LITTLE [2] []]), [])"
  using shaped_string_grows [OF doc_laws, of 10 "[2]" "[]" None] by simp

end
