(* ===== verification/Asdf_Software.thy ===== *)
theory Asdf_Software
  imports Asdf_Tree_File Asdf_Version
begin

text \<open>
  What the extensions of the core schemas share, from the macros of \<^verbatim>\<open>include/asdf/extension.h\<close>, and the first of
  them, a piece of software (\<^verbatim>\<open>src/core/software.c\<close>). Messages in the log are not kept.
\<close>

section \<open>Objects of an extension\<close>

text \<open>A copy in new storage, through the copy method of the extension; what it copied in part is freed.\<close>

definition extension_copy :: "(heap \<Rightarrow> 'o \<Rightarrow> 'o option \<times> heap) \<Rightarrow> heap \<Rightarrow> 'o option \<Rightarrow> 'o option \<times> heap" where
  "extension_copy copy_impl h src =
     (case src of
        None \<Rightarrow> (None, h)
      | Some obj \<Rightarrow> let (ok, h) = alloc h in (if ok then copy_impl h obj else (None, h)))"

fun copy_elements :: "(heap \<Rightarrow> 'o \<Rightarrow> 'o option \<times> heap) \<Rightarrow> heap \<Rightarrow> 'o list \<Rightarrow> 'o list option \<times> heap" where
  "copy_elements copy_impl h [] = (Some [], h)"
| "copy_elements copy_impl h (obj # objs) =
     (case extension_copy copy_impl h (Some obj) of
        (None, h) \<Rightarrow> (None, h)
      | (Some c, h) \<Rightarrow> (case copy_elements copy_impl h objs of
            (None, h) \<Rightarrow> (None, h)
          | (Some cs, h) \<Rightarrow> (Some (c # cs), h)))"

text \<open>An array that a null pointer ends is the list before it.\<close>

definition extension_array_copy :: "(heap \<Rightarrow> 'o \<Rightarrow> 'o option \<times> heap) \<Rightarrow> heap \<Rightarrow> 'o list \<Rightarrow> 'o list option \<times> heap" where
  "extension_array_copy copy_impl h src = (let (ok, h) = alloc h in if ok then copy_elements copy_impl h src else (None, h))"

text \<open>A value as an object: a value of the tree has no object yet. The number is that of the extension.\<close>

definition as_extension ::
  "'n value_env \<Rightarrow> 'n node_env \<Rightarrow> extension_map \<Rightarrow> nat \<Rightarrow> ('n, 'o) deserializer \<Rightarrow> heap \<Rightarrow> 'n asdf_value \<Rightarrow>
   (asdf_value_err \<times> 'o option \<times> heap) option" where
  "as_extension ve ne registry ext deserialize h value = do {
     (err, out, _, _, h) \<leftarrow>
       asdf_value_as_extension_type ve ne \<lparr>ex_map = registry, ex_deserialize = \<lambda>_. Some deserialize\<rparr> h value None ext;
     Some (err, out, h)
   }"

text \<open>Copying a string that may be a null pointer: false when there is no memory for it.\<close>

definition copied :: "heap \<Rightarrow> 'a option \<Rightarrow> bool \<times> heap" where
  "copied h x = (if x = None then (True, h) else alloc h)"

section \<open>Texts in a mapping\<close>

text \<open>Setting one key after the other, up to the first that fails.\<close>

fun set_texts ::
  "('s, 'n) tree_ops \<Rightarrow> 'n asdf_value \<Rightarrow> (string \<times> bytes) list \<Rightarrow> heap \<Rightarrow> 's \<Rightarrow> (asdf_value_err \<times> heap \<times> 's) option" where
  "set_texts ops m [] h s = Some (ASDF_VALUE_OK, h, s)"
| "set_texts ops m ((key, text) # ps) h s =
     (case asdf_mapping_set_string0 ops h m (Some (bytes_of key)) (Some text) s of
        None \<Rightarrow> None
      | Some (err, h, s) \<Rightarrow> if err \<noteq> ASDF_VALUE_OK then Some (err, h, s) else set_texts ops m ps h s)"

text \<open>A text that must be there.\<close>

definition required_text ::
  "'n value_env \<Rightarrow> 'n node_env \<Rightarrow> heap \<Rightarrow> 'n asdf_value \<Rightarrow> string \<Rightarrow> (bytes option option \<times> heap) option" where
  "required_text ve ne h mapping key =
     (case asdf_mapping_get ne h mapping (bytes_of key) of
        (None, h) \<Rightarrow> Some (None, h)
      | (Some prop, h) \<Rightarrow> do {
          (err, s, _, h) \<leftarrow> asdf_value_as_string0 ve ne h (Some prop);
          Some (if err = ASDF_VALUE_OK then s else None, h)
        })"

text \<open>A text that may be missing, and is ignored when it is no string: whether there is a value, and the text.\<close>

definition ignored_text ::
  "'n value_env \<Rightarrow> 'n node_env \<Rightarrow> heap \<Rightarrow> 'n asdf_value \<Rightarrow> string \<Rightarrow> ((bool \<times> bytes option) \<times> heap) option" where
  "ignored_text ve ne h mapping key =
     (case asdf_mapping_get ne h mapping (bytes_of key) of
        (None, h) \<Rightarrow> Some ((False, None), h)
      | (Some prop, h) \<Rightarrow> do {
          (err, s, _, h) \<leftarrow> asdf_value_as_string0 ve ne h (Some prop);
          Some ((True, if err = ASDF_VALUE_OK then Option.bind s id else None), h)
        })"

section \<open>Software\<close>

record asdf_software =
  sw_name :: "bytes option"
  sw_version :: "asdf_version option"
  sw_homepage :: "bytes option"
  sw_author :: "bytes option"

definition ASDF_CORE_TAG_PREFIX :: bytes where
  "ASDF_CORE_TAG_PREFIX = ASDF_STANDARD_TAG_PREFIX @ bytes_of ''core/''"

definition ASDF_CORE_SOFTWARE_TAG :: bytes where
  "ASDF_CORE_SOFTWARE_TAG = ASDF_CORE_TAG_PREFIX @ bytes_of ''software-1.0.0''"

definition asdf_software_extension :: nat where "asdf_software_extension = 0"

definition nonempty_text :: "string \<Rightarrow> bytes option \<Rightarrow> (string \<times> bytes) list" where
  "nonempty_text key text = (case text of Some (c # cs) \<Rightarrow> [(key, c # cs)] | _ \<Rightarrow> [])"

definition asdf_software_serialize ::
  "('s, 'n) tree_ops \<Rightarrow> heap \<Rightarrow> asdf_software \<Rightarrow> 's \<Rightarrow> ('n asdf_value option \<times> heap \<times> 's) option" where
  "asdf_software_serialize ops h software s =
     (case (sw_name software, sw_version software) of
        (Some name, Some version) \<Rightarrow>
          (case asdf_mapping_create ops h s of
             (None, h, s) \<Rightarrow> Some (None, h, s)
           | (Some software_map, h, s) \<Rightarrow> do {
               (err, h, s) \<leftarrow> set_texts ops software_map
                 ((''name'', name) # (''version'', ver_string version) #
                  nonempty_text ''author'' (sw_author software) @ nonempty_text ''homepage'' (sw_homepage software)) h s;
               Some (if err \<noteq> ASDF_VALUE_OK then (None, h, destroyed ops (Some software_map) s)
                     else (asdf_value_of_mapping (Some software_map), h, s))
             })
      | _ \<Rightarrow> Some (None, h, s))"

text \<open>When the object cannot be allocated, the value of the author is destroyed twice. A copy of a text or a
  version for which there is no memory is null, and so is a version that cannot be parsed.\<close>

definition asdf_software_deserialize ::
  "'n value_env \<Rightarrow> 'n node_env \<Rightarrow> ('n, asdf_software) deserializer" where
  "asdf_software_deserialize ve ne h value =
     (if fst (asdf_value_as_mapping (Some value)) \<noteq> ASDF_VALUE_OK then Some (ASDF_VALUE_ERR_PARSE_FAILURE, None, h)
      else do {
        (name, h) \<leftarrow> required_text ve ne h value ''name'';
        case name of
          None \<Rightarrow> Some (ASDF_VALUE_ERR_PARSE_FAILURE, None, h)
        | Some name \<Rightarrow> do {
            (version, h) \<leftarrow> required_text ve ne h value ''version'';
            case version of
              None \<Rightarrow> Some (ASDF_VALUE_ERR_PARSE_FAILURE, None, h)
            | Some version \<Rightarrow> do {
                ((_, homepage), h) \<leftarrow> ignored_text ve ne h value ''homepage'';
                ((author_there, author), h) \<leftarrow> ignored_text ve ne h value ''author'';
                let (ok, h) = alloc h;
                if \<not> ok then if author_there then None else Some (ASDF_VALUE_ERR_OOM, None, h)
                else
                  let (name, h) = dup h name; (version, h) = asdf_version_parse h version;
                      (homepage, h) = dup h homepage; (author, h) = dup h author
                  in Some (ASDF_VALUE_OK,
                       Some \<lparr>sw_name = name, sw_version = version, sw_homepage = homepage, sw_author = author\<rparr>, h)
              }
          }
      })"

definition asdf_software_copy_impl :: "heap \<Rightarrow> asdf_software \<Rightarrow> asdf_software option \<times> heap" where
  "asdf_software_copy_impl h software =
     (let (ok, h) = copied h (sw_name software) in
      if \<not> ok then (None, h)
      else
        case (case sw_version software of None \<Rightarrow> (Some None, h)
              | Some v \<Rightarrow> let (c, h) = asdf_version_copy h v in (if c = None then None else Some c, h)) of
          (None, h) \<Rightarrow> (None, h)
        | (Some version, h) \<Rightarrow>
            let (ok, h) = copied h (sw_homepage software) in
            if \<not> ok then (None, h)
            else
              let (ok, h) = copied h (sw_author software) in
              (if ok then Some (software\<lparr>sw_version := version\<rparr>) else None, h))"

definition asdf_software_copy :: "heap \<Rightarrow> asdf_software option \<Rightarrow> asdf_software option \<times> heap" where
  "asdf_software_copy = extension_copy asdf_software_copy_impl"

definition asdf_value_as_software ::
  "'n value_env \<Rightarrow> 'n node_env \<Rightarrow> extension_map \<Rightarrow> heap \<Rightarrow> 'n asdf_value \<Rightarrow>
   (asdf_value_err \<times> asdf_software option \<times> heap) option" where
  "asdf_value_as_software ve ne registry =
     as_extension ve ne registry asdf_software_extension (asdf_software_deserialize ve ne)"

definition asdf_value_of_software ::
  "('s, 'n) tree_ops \<Rightarrow> heap \<Rightarrow> asdf_software \<Rightarrow> 's \<Rightarrow> ('n asdf_value option \<times> heap \<times> 's) option" where
  "asdf_value_of_software ops h software s =
     map_option (\<lambda>(value, _, h, s). (value, h, s)) (asdf_value_of_extension_type ops h software
       \<lparr>wr_ext = asdf_software_extension, wr_tags = [ASDF_CORE_SOFTWARE_TAG],
        wr_serialize = Some (asdf_software_serialize ops)\<rparr> s)"

text \<open>Overriding the software of the library that a file is written with. The one before is not freed.\<close>

definition asdf_library_set :: "heap \<Rightarrow> asdf_software option \<Rightarrow> asdf_software option \<times> heap" where
  "asdf_library_set h software = asdf_software_copy h software"

definition asdf_library_set_version ::
  "heap \<Rightarrow> asdf_software \<Rightarrow> asdf_software option \<Rightarrow> bytes option \<Rightarrow> asdf_software option \<times> heap" where
  "asdf_library_set_version h libasdf_software asdf_library version =
     (case asdf_software_copy h (Some libasdf_software) of
        (None, h) \<Rightarrow> (asdf_library, h)
      | (Some software, h) \<Rightarrow> let (v, h) = asdf_version_parse h version in (Some (software\<lparr>sw_version := v\<rparr>), h))"

end
