(* ===== verification/Asdf_Time_Read.thy ===== *)
theory Asdf_Time_Read
  imports Asdf_Property Asdf_Time
begin

text \<open>
  Reading a time from the tree, copying and freeing it (\<^verbatim>\<open>src/core/time.c\<close>): a scalar, or a mapping with a value
  and, where they are given, a format, a scale and a base format. What is logged is not kept.
\<close>

definition ASDF_TIME_TIMESTR_MAXLEN :: nat where "ASDF_TIME_TIMESTR_MAXLEN = 255"

definition zero_time :: asdf_time where
  "zero_time = \<lparr>tim_value = None, tim_info = \<lparr>ts_sec = 0, ts_nsec = 0, info_tm = zero_tm\<rparr>,
     tim_format = ASDF_TIME_FORMAT_ISO, tim_scale = ASDF_TIME_SCALE_UTC, tim_location = (Fin 0, Fin 0, Fin 0)\<rparr>"

text \<open>A key that need not be there: the text is null without it. A key that is no string is a failure.\<close>

definition optional_text ::
  "'n value_env \<Rightarrow> 'n node_env \<Rightarrow> heap \<Rightarrow> 'n asdf_value \<Rightarrow> string \<Rightarrow> ((bool \<times> bytes option option) \<times> heap) option" where
  "optional_text ve ne h mapping key =
     (case asdf_mapping_get ne h mapping (bytes_of key) of
        (None, h) \<Rightarrow> Some ((True, None), h)
      | (Some prop, h) \<Rightarrow> do {
          (err, s, _, h) \<leftarrow> asdf_value_as_string0 ve ne h (Some prop);
          Some ((err = ASDF_VALUE_OK, s), h)
        })"

text \<open>The value itself or the one under the key, and the mapping.\<close>

definition time_property ::
  "'n node_env \<Rightarrow> heap \<Rightarrow> 'n asdf_value \<Rightarrow> ('n asdf_value option \<times> 'n asdf_value option) \<times> heap" where
  "time_property ne h value =
     (if asdf_value_is_mapping value
      then (let (prop, h) = asdf_mapping_get ne h value (bytes_of ''value'') in ((prop, Some value), h))
      else ((Some value, None), h))"

text \<open>The texts of the keys format, scale and base format.\<close>

definition time_texts ::
  "'n value_env \<Rightarrow> 'n node_env \<Rightarrow> heap \<Rightarrow> 'n asdf_value option \<Rightarrow>
   ((bytes option \<times> asdf_time_scale \<times> bytes option) option \<times> heap) option" where
  "time_texts ve ne h mapping =
     (case mapping of
        None \<Rightarrow> Some (Some (None, ASDF_TIME_SCALE_UTC, None), h)
      | Some m \<Rightarrow> do {
          ((ok, format_s), h) \<leftarrow> optional_text ve ne h m ''format'';
          if \<not> ok then Some (None, h)
          else do {
            ((ok, scale_s), h) \<leftarrow> optional_text ve ne h m ''scale'';
            if \<not> ok then Some (None, h)
            else do {
              scale \<leftarrow> (case scale_s of
                 None \<Rightarrow> Some ASDF_TIME_SCALE_UTC
               | Some None \<Rightarrow> None
               | Some (Some s) \<Rightarrow> Some (case asdf_time_scale_parse s of None \<Rightarrow> ASDF_TIME_SCALE_UTC | Some c \<Rightarrow> c));
              ((ok, base_format_s), h) \<leftarrow> optional_text ve ne h m ''base_format'';
              if \<not> ok then Some (None, h)
              else Some (Some (Option.bind format_s id, scale, Option.bind base_format_s id), h)
            }
          }
        })"

text \<open>The format, the instant and then the base format; a time that cannot be parsed keeps a zero instant.\<close>

definition time_of_text ::
  "time_env \<Rightarrow> heap \<Rightarrow> bytes \<Rightarrow> bool \<Rightarrow> bytes option \<Rightarrow> asdf_time_scale \<Rightarrow> bytes option \<Rightarrow>
   (asdf_value_err \<times> asdf_time option \<times> heap) option" where
  "time_of_text env h text is_string format_s scale base_format_s =
     (case fst (validate_or_guess_time_format (te_regexes env) is_string text format_s) of
        None \<Rightarrow> Some (ASDF_VALUE_ERR_PARSE_FAILURE, None, h)
      | Some format \<Rightarrow> do {
          (_, time, h) \<leftarrow> asdf_time_parse env h (zero_time\<lparr>tim_value := Some text, tim_format := format, tim_scale := scale\<rparr>);
          let time = (case Option.bind base_format_s asdf_time_format_parse of
              None \<Rightarrow> time
            | Some base_format \<Rightarrow> time\<lparr>tim_format := base_format\<rparr>);
          Some (ASDF_VALUE_OK, Some time, h)
        })"

definition asdf_time_deserialize ::
  "time_env \<Rightarrow> 'n value_env \<Rightarrow> 'n node_env \<Rightarrow> heap \<Rightarrow> 'n asdf_value \<Rightarrow> (asdf_value_err \<times> asdf_time option \<times> heap) option" where
  "asdf_time_deserialize env ve ne h value =
     (let (ok, h) = alloc h in
      if \<not> ok then Some (ASDF_VALUE_ERR_OOM, None, h)
      else
        let ((prop, mapping), h) = time_property ne h value in
        case prop of
          None \<Rightarrow> Some (ASDF_VALUE_ERR_PARSE_FAILURE, None, h)
        | Some prop \<Rightarrow>
            let (ok, h) = alloc h in
            if \<not> ok then Some (ASDF_VALUE_ERR_OOM, None, h)
            else do {
              (value_type, prop, h) \<leftarrow> asdf_value_get_type ve h (Some prop);
              case asdf_value_as_scalar0 ne prop of
                (ASDF_VALUE_OK, Some (Some value_s)) \<Rightarrow> do {
                  (texts, h) \<leftarrow> time_texts ve ne h mapping;
                  case texts of
                    None \<Rightarrow> Some (ASDF_VALUE_ERR_PARSE_FAILURE, None, h)
                  | Some (format_s, scale, base_format_s) \<Rightarrow>
                      time_of_text env h (take (ASDF_TIME_TIMESTR_MAXLEN - 1) value_s) (value_type = ASDF_VALUE_STRING)
                        format_s scale base_format_s
                }
              | _ \<Rightarrow> Some (ASDF_VALUE_ERR_PARSE_FAILURE, None, h)
            })"

definition asdf_time_copy_impl :: "heap \<Rightarrow> asdf_time \<Rightarrow> asdf_time option \<times> heap" where
  "asdf_time_copy_impl h tm =
     (case tim_value tm of
        None \<Rightarrow> (Some tm, h)
      | Some s \<Rightarrow> let (ok, h) = alloc h in (if ok then Some tm else None, h))"

definition asdf_time_deinit_impl :: "asdf_time \<Rightarrow> asdf_time" where
  "asdf_time_deinit_impl tm = zero_time"

end
