(* ===== verification/Asdf_Meta.thy ===== *)
theory Asdf_Meta
  imports Asdf_Software Asdf_Time_Read
begin

text \<open>
  The entries of the history, the metadata of extensions, and the metadata of a file with its software and its
  history (\<^verbatim>\<open>src/core/history_entry.c\<close>, \<^verbatim>\<open>src/core/extension_metadata.c\<close>, \<^verbatim>\<open>src/core/asdf.c\<close>). A value
  that is destroyed twice, and a null pointer that is compared, are \<^term>\<open>None\<close>.
\<close>

section \<open>Entries of the history\<close>

definition ASDF_CORE_HISTORY_ENTRY_TAG :: bytes where
  "ASDF_CORE_HISTORY_ENTRY_TAG = ASDF_CORE_TAG_PREFIX @ bytes_of ''history_entry-1.0.0''"

definition ASDF_CORE_TIME_TAG :: bytes where
  "ASDF_CORE_TIME_TAG = ASDF_STANDARD_TAG_PREFIX @ bytes_of ''time/time-1.4.0''"

definition asdf_history_entry_extension :: nat where "asdf_history_entry_extension = 1"

record asdf_history_entry =
  he_description :: "bytes option"
  he_time :: "asdf_time option"
  he_software :: "asdf_software list option"

text \<open>Several pieces of software: one that cannot be written is left out, and what appending the last one
  returned is kept.\<close>

fun append_software ::
  "('s, 'n) tree_ops \<Rightarrow> 'n asdf_value \<Rightarrow> asdf_software list \<Rightarrow> asdf_value_err \<Rightarrow> heap \<Rightarrow> 's \<Rightarrow>
   (asdf_value_err \<times> heap \<times> 's) option" where
  "append_software ops sq [] err h s = Some (err, h, s)"
| "append_software ops sq (x # xs) err h s =
     (case asdf_value_of_software ops h x s of
        None \<Rightarrow> None
      | Some (None, h, s) \<Rightarrow> append_software ops sq xs err h s
      | Some (Some v, h, s) \<Rightarrow> (case asdf_sequence_append ops (Some sq) (Some v) s of
            None \<Rightarrow> None
          | Some (err, s) \<Rightarrow> append_software ops sq xs err h s))"

text \<open>The value of the software, when it could be made, whether to go on, and the error that is returned
  otherwise.\<close>

definition entry_software ::
  "('s, 'n) tree_ops \<Rightarrow> heap \<Rightarrow> asdf_history_entry \<Rightarrow> 's \<Rightarrow> (bool \<times> 'n asdf_value option \<times> asdf_value_err \<times> heap \<times> 's) option" where
  "entry_software ops h entry s =
     (case he_software entry of
        Some [x] \<Rightarrow> map_option (\<lambda>(v, h, s). (True, v, ASDF_VALUE_ERR_EMIT_FAILURE, h, s)) (asdf_value_of_software ops h x s)
      | Some (x # y # xs) \<Rightarrow>
          (case asdf_sequence_create ops h s of
             (None, h, s) \<Rightarrow> Some (False, None, ASDF_VALUE_ERR_EMIT_FAILURE, h, s)
           | (Some sq, h, s) \<Rightarrow> do {
               (err, h, s) \<leftarrow> append_software ops sq (x # y # xs) ASDF_VALUE_ERR_EMIT_FAILURE h s;
               Some (True, asdf_value_of_sequence (Some sq), err, h, s)
             })
      | _ \<Rightarrow> Some (True, None, ASDF_VALUE_ERR_EMIT_FAILURE, h, s))"

definition asdf_history_entry_serialize ::
  "('s, 'n) tree_ops \<Rightarrow> heap \<Rightarrow> asdf_history_entry \<Rightarrow> 's \<Rightarrow> ('n asdf_value option \<times> heap \<times> 's) option" where
  "asdf_history_entry_serialize ops h entry s = do {
     (go_on, software_val, err, h, s) \<leftarrow> entry_software ops h entry s;
     if \<not> go_on then Some (None, h, s)
     else (case asdf_mapping_create ops h s of
         (None, h, s) \<Rightarrow> Some (None, h, if err \<noteq> ASDF_VALUE_OK \<and> software_val \<noteq> None then destroyed ops software_val s else s)
       | (Some entry_map, h, s) \<Rightarrow> do {
           (err, h, s) \<leftarrow> asdf_mapping_set_string0 ops h entry_map (Some (bytes_of ''description''))
              (Some (case he_description entry of None \<Rightarrow> [] | Some d \<Rightarrow> d)) s;
           if err \<noteq> ASDF_VALUE_OK then
             let s = (if software_val \<noteq> None then destroyed ops software_val s else s)
             in Some (None, h, destroyed ops (Some entry_map) s)
           else if software_val = None then Some (asdf_value_of_mapping (Some entry_map), h, s)
           else do {
             (err, h, s) \<leftarrow> asdf_mapping_set ops h (Some entry_map) (Some (bytes_of ''software'')) software_val s;
             if err \<noteq> ASDF_VALUE_OK then None else Some (asdf_value_of_mapping (Some entry_map), h, s)
           }
         })
   }"

text \<open>The elements of a sequence that are objects of an extension; the others are left out.\<close>

function collect_objects ::
  "'n node_env \<Rightarrow> (heap \<Rightarrow> 'n asdf_value \<Rightarrow> (asdf_value_err \<times> 'o option \<times> heap) option) \<Rightarrow> heap \<Rightarrow> 'n sequence_iter option \<Rightarrow>
   ('o list \<times> heap) option" where
  "collect_objects ne as_object h iter =
     (case asdf_sequence_iter_next ne h iter of
        (None, h) \<Rightarrow> Some ([], h)
      | (Some it, h) \<Rightarrow>
          (case Option.bind (si_value it) (as_object h) of
             None \<Rightarrow> None
           | Some (err, obj, h) \<Rightarrow>
               map_option (\<lambda>(objs, h). ((case (err, obj) of (ASDF_VALUE_OK, Some x) \<Rightarrow> x # objs | _ \<Rightarrow> objs), h))
                 (collect_objects ne as_object h (Some it))))"
  by pat_completeness auto
termination
proof (relation "measure (\<lambda>(_, _, _, iter). case iter of None \<Rightarrow> 0 | Some it \<Rightarrow> Suc (length (si_rest it)))", goal_cases)
  case (2 ne as_object h iter)
  then show ?case
    by (auto simp: asdf_sequence_iter_next_def Let_def split: option.splits if_splits list.splits prod.splits dest!: sym)
qed simp

declare collect_objects.simps [simp del]

definition collect_sequence ::
  "'n node_env \<Rightarrow> (heap \<Rightarrow> 'n asdf_value \<Rightarrow> (asdf_value_err \<times> 'o option \<times> heap) option) \<Rightarrow> heap \<Rightarrow> 'n asdf_value \<Rightarrow>
   ('o list option \<times> heap) option" where
  "collect_sequence ne as_object h sq =
     (if asdf_sequence_size ne sq < 0 then Some (None, h)
      else
        let (ok, h) = alloc h in
        if \<not> ok then Some (None, h)
        else
          let (iter, h) = asdf_sequence_iter_init_ex ne h sq False
          in map_option (\<lambda>(objs, h). (Some objs, h)) (collect_objects ne as_object h iter))"

definition asdf_history_entry_deserialize_software ::
  "'n value_env \<Rightarrow> 'n node_env \<Rightarrow> extension_map \<Rightarrow> heap \<Rightarrow> 'n asdf_value \<Rightarrow> (asdf_software list option \<times> heap) option" where
  "asdf_history_entry_deserialize_software ve ne registry h value =
     (if fst (asdf_value_as_sequence (Some value)) \<noteq> ASDF_VALUE_OK then
        (let (ok, h) = alloc h in
         if \<not> ok then Some (None, h)
         else do {
           (err, software, h) \<leftarrow> asdf_value_as_software ve ne registry h value;
           Some (Some (case (err, software) of (ASDF_VALUE_OK, Some x) \<Rightarrow> [x] | _ \<Rightarrow> []), h)
         })
      else collect_sequence ne (asdf_value_as_software ve ne registry) h value)"

text \<open>The time of an entry. When a scalar is no time, the deserializer of times destroys it, and then the entry does.\<close>

definition entry_time ::
  "time_env \<Rightarrow> 'n value_env \<Rightarrow> 'n node_env \<Rightarrow> extension_map \<Rightarrow> heap \<Rightarrow> 'n asdf_value \<Rightarrow> (asdf_time option \<times> heap) option" where
  "entry_time env ve ne registry h entry_map =
     (case asdf_mapping_get ne h entry_map (bytes_of ''time'') of
        (None, h) \<Rightarrow> Some (None, h)
      | (Some prop, h) \<Rightarrow>
          (case asdf_extension_get h registry ASDF_CORE_TIME_TAG of
             (None, h) \<Rightarrow> Some (None, h)
           | (Some _, h) \<Rightarrow> do {
               (err, time, h) \<leftarrow> asdf_time_deserialize env ve ne h prop;
               if err = ASDF_VALUE_ERR_PARSE_FAILURE \<and> \<not> asdf_value_is_mapping prop then None
               else Some (if err = ASDF_VALUE_OK then time else None, h)
             }))"

definition asdf_history_entry_deserialize ::
  "time_env \<Rightarrow> 'n value_env \<Rightarrow> 'n node_env \<Rightarrow> extension_map \<Rightarrow> ('n, asdf_history_entry) deserializer" where
  "asdf_history_entry_deserialize env ve ne registry h value =
     (if fst (asdf_value_as_mapping (Some value)) \<noteq> ASDF_VALUE_OK then Some (ASDF_VALUE_ERR_PARSE_FAILURE, None, h)
      else do {
        (description, h) \<leftarrow> required_text ve ne h value ''description'';
        case description of
          None \<Rightarrow> Some (ASDF_VALUE_ERR_PARSE_FAILURE, None, h)
        | Some description \<Rightarrow> do {
            (time, h) \<leftarrow> entry_time env ve ne registry h value;
            let (prop, h) = asdf_mapping_get ne h value (bytes_of ''software'');
            (software, h) \<leftarrow>
              (case prop of
                 None \<Rightarrow> Some (None, h)
               | Some p \<Rightarrow> asdf_history_entry_deserialize_software ve ne registry h p);
            let (ok, h) = alloc h;
            if \<not> ok then if prop \<noteq> None then None else Some (ASDF_VALUE_ERR_OOM, None, h)
            else do {
              description \<leftarrow> description;
              let (copy, h) = dup h (Some description);
              Some (ASDF_VALUE_OK, Some \<lparr>he_description = copy, he_time = time, he_software = software\<rparr>, h)
            }
          }
      })"

definition copy_optional :: "(heap \<Rightarrow> 'a \<Rightarrow> 'a option \<times> heap) \<Rightarrow> heap \<Rightarrow> 'a option \<Rightarrow> 'a option option \<times> heap" where
  "copy_optional copy h x =
     (case x of
        None \<Rightarrow> (Some None, h)
      | Some a \<Rightarrow> (case copy h a of (None, h) \<Rightarrow> (None, h) | (Some c, h) \<Rightarrow> (Some (Some c), h)))"

definition asdf_history_entry_copy_impl :: "heap \<Rightarrow> asdf_history_entry \<Rightarrow> asdf_history_entry option \<times> heap" where
  "asdf_history_entry_copy_impl h entry =
     (let (ok, h) = copied h (he_description entry) in
      if \<not> ok then (None, h)
      else
        case copy_optional (\<lambda>h t. extension_copy asdf_time_copy_impl h (Some t)) h (he_time entry) of
          (None, h) \<Rightarrow> (None, h)
        | (Some time, h) \<Rightarrow>
            (case copy_optional (extension_array_copy asdf_software_copy_impl) h (he_software entry) of
               (None, h) \<Rightarrow> (None, h)
             | (Some software, h) \<Rightarrow> (Some (entry\<lparr>he_time := time, he_software := software\<rparr>), h)))"

definition asdf_value_as_history_entry ::
  "time_env \<Rightarrow> 'n value_env \<Rightarrow> 'n node_env \<Rightarrow> extension_map \<Rightarrow> heap \<Rightarrow> 'n asdf_value \<Rightarrow>
   (asdf_value_err \<times> asdf_history_entry option \<times> heap) option" where
  "asdf_value_as_history_entry env ve ne registry =
     as_extension ve ne registry asdf_history_entry_extension (asdf_history_entry_deserialize env ve ne registry)"

definition asdf_value_of_history_entry ::
  "('s, 'n) tree_ops \<Rightarrow> heap \<Rightarrow> asdf_history_entry \<Rightarrow> 's \<Rightarrow> ('n asdf_value option \<times> heap \<times> 's) option" where
  "asdf_value_of_history_entry ops h entry s =
     map_option (\<lambda>(value, _, h, s). (value, h, s)) (asdf_value_of_extension_type ops h entry
       \<lparr>wr_ext = asdf_history_entry_extension, wr_tags = [ASDF_CORE_HISTORY_ENTRY_TAG],
        wr_serialize = Some (asdf_history_entry_serialize ops)\<rparr> s)"

text \<open>Adding an entry to those that a file will be written with: the new list and whether it worked. A
  description that cannot be copied is null.\<close>

definition asdf_history_entry_add ::
  "heap \<Rightarrow> asdf_software \<Rightarrow> asdf_software option \<Rightarrow> asdf_history_entry list option \<Rightarrow> bytes \<Rightarrow>
   bool \<times> asdf_history_entry list option \<times> heap" where
  "asdf_history_entry_add h libasdf_software asdf_library entries description =
     (let (ok, h) = alloc h in
      if \<not> ok then (False, entries, h)
      else
        let (copy, h) = dup h (Some description); (ok, h) = alloc h in
        if \<not> ok then (False, entries, h)
        else (case asdf_software_copy h (Some (case asdf_library of None \<Rightarrow> libasdf_software | Some x \<Rightarrow> x)) of
            (None, h) \<Rightarrow> (False, entries, h)
          | (Some software, h) \<Rightarrow>
              let (ok, h) = alloc h in
              if \<not> ok then (False, None, h)
              else (True, Some ((case entries of None \<Rightarrow> [] | Some es \<Rightarrow> es) @
                [\<lparr>he_description = copy, he_time = None, he_software = Some [software]\<rparr>]), h)))"

section \<open>Metadata of an extension\<close>

definition ASDF_CORE_EXTENSION_METADATA_TAG :: bytes where
  "ASDF_CORE_EXTENSION_METADATA_TAG = ASDF_CORE_TAG_PREFIX @ bytes_of ''extension_metadata-1.0.0''"

definition asdf_extension_metadata_extension :: nat where "asdf_extension_metadata_extension = 2"

record 'n asdf_extension_metadata =
  em_extension_class :: "bytes option"
  em_package :: "asdf_software option"
  em_metadata :: "'n asdf_value option"

definition mapping_rest :: "'n mapping_iter option \<Rightarrow> nat" where
  "mapping_rest iter = (case iter of None \<Rightarrow> 0 | Some it \<Rightarrow> Suc (length (mi_rest it)))"

lemma mapping_rest_next: "asdf_mapping_iter_next env h iter = (Some it, h') \<Longrightarrow> mapping_rest (Some it) < mapping_rest iter"
proof (cases iter)
  case None
  assume "asdf_mapping_iter_next env h iter = (Some it, h')"
  with None show ?thesis by (simp add: asdf_mapping_iter_next_def)
next
  case (Some i)
  assume "asdf_mapping_iter_next env h iter = (Some it, h')"
  with Some have "length (mi_rest it) < length (mi_rest i)" using mapping_iter_next_shorter by metis
  with Some show ?thesis by (simp add: mapping_rest_def)
qed

text \<open>The other keys are copied; a key that is no scalar is a null pointer, which is compared.\<close>

function copy_metadata ::
  "('s, 'n) tree_ops \<Rightarrow> 'n asdf_value \<Rightarrow> 'n mapping_iter option \<Rightarrow> heap \<Rightarrow> 's \<Rightarrow> (asdf_value_err \<times> heap \<times> 's) option" where
  "copy_metadata ops m iter h s =
     (case asdf_mapping_iter_next (to_nodes ops s) h iter of
        (None, h) \<Rightarrow> Some (ASDF_VALUE_OK, h, s)
      | (Some it, h) \<Rightarrow>
          (case mi_key it of
             None \<Rightarrow> None
           | Some key \<Rightarrow>
               if key = bytes_of ''extension_class'' \<or> key = bytes_of ''package'' then copy_metadata ops m (Some it) h s
               else
                 (case asdf_value_copy_deep (to_nodes ops s) h (mi_value it) of
                    (None, h) \<Rightarrow> Some (ASDF_VALUE_ERR_OOM, h, s)
                  | (Some v, h) \<Rightarrow>
                      (case asdf_mapping_set ops h (Some m) (Some key) (Some v) s of
                         None \<Rightarrow> None
                       | Some (err, h, s) \<Rightarrow>
                           if err \<noteq> ASDF_VALUE_OK then Some (err, h, s) else copy_metadata ops m (Some it) h s))))"
  by pat_completeness auto
termination
  by (relation "measure (\<lambda>(_, _, iter, _, _). mapping_rest iter)") (simp_all add: mapping_rest_next [OF sym])

declare copy_metadata.simps [simp del]

definition asdf_extension_metadata_serialize ::
  "('s, 'n) tree_ops \<Rightarrow> heap \<Rightarrow> 'n asdf_extension_metadata \<Rightarrow> 's \<Rightarrow> ('n asdf_value option \<times> heap \<times> 's) option" where
  "asdf_extension_metadata_serialize ops h extension s =
     (case em_extension_class extension of
        None \<Rightarrow> Some (None, h, s)
      | Some extension_class \<Rightarrow>
          (case asdf_mapping_create ops h s of
             (None, h, s) \<Rightarrow> Some (None, h, s)
           | (Some m, h, s) \<Rightarrow> do {
               (err, h, s) \<leftarrow> asdf_mapping_set_string0 ops h m (Some (bytes_of ''extension_class'')) (Some extension_class) s;
               if err \<noteq> ASDF_VALUE_OK then Some (None, h, destroyed ops (Some m) s)
               else do {
                 (err, h, s) \<leftarrow>
                   (case em_package extension of
                      None \<Rightarrow> Some (ASDF_VALUE_OK, h, s)
                    | Some software \<Rightarrow> do {
                        (package, h, s) \<leftarrow> asdf_value_of_software ops h software s;
                        if package = None then Some (ASDF_VALUE_OK, h, s)
                        else asdf_mapping_set ops h (Some m) (Some (bytes_of ''package'')) package s
                      });
                 if err \<noteq> ASDF_VALUE_OK then Some (None, h, destroyed ops (Some m) s)
                 else do {
                   (err, h, s) \<leftarrow>
                     (case em_metadata extension of
                        None \<Rightarrow> Some (ASDF_VALUE_OK, h, s)
                      | Some metadata \<Rightarrow>
                          let (iter, h) = asdf_mapping_iter_init_ex (to_nodes ops s) h metadata False
                          in copy_metadata ops m iter h s);
                   Some (if err \<noteq> ASDF_VALUE_OK then (None, h, destroyed ops (Some m) s)
                         else (asdf_value_of_mapping (Some m), h, s))
                 }
               }
             }))"

definition asdf_extension_metadata_deserialize ::
  "'n value_env \<Rightarrow> 'n node_env \<Rightarrow> extension_map \<Rightarrow> ('n, 'n asdf_extension_metadata) deserializer" where
  "asdf_extension_metadata_deserialize ve ne registry h value =
     (if fst (asdf_value_as_mapping (Some value)) \<noteq> ASDF_VALUE_OK then Some (ASDF_VALUE_ERR_PARSE_FAILURE, None, h)
      else do {
        (extension_class, h) \<leftarrow> required_text ve ne h value ''extension_class'';
        case extension_class of
          None \<Rightarrow> Some (ASDF_VALUE_ERR_PARSE_FAILURE, None, h)
        | Some extension_class \<Rightarrow> do {
            let (prop, h) = asdf_mapping_get ne h value (bytes_of ''package'');
            (package, h) \<leftarrow>
              (case prop of
                 None \<Rightarrow> Some (None, h)
               | Some p \<Rightarrow> do {
                   (err, package, h) \<leftarrow> asdf_value_as_software ve ne registry h p;
                   Some (if err = ASDF_VALUE_OK then package else None, h)
                 });
            let (ok, h) = alloc h;
            if \<not> ok then Some (ASDF_VALUE_ERR_OOM, None, h)
            else do {
              extension_class \<leftarrow> extension_class;
              let (copy, h) = dup h (Some extension_class);
              let (metadata, h) = asdf_value_copy ne h (Some value);
              Some (ASDF_VALUE_OK, Some \<lparr>em_extension_class = copy, em_package = package, em_metadata = metadata\<rparr>, h)
            }
          }
      })"

definition asdf_extension_metadata_copy_impl ::
  "'n node_env \<Rightarrow> heap \<Rightarrow> 'n asdf_extension_metadata \<Rightarrow> 'n asdf_extension_metadata option \<times> heap" where
  "asdf_extension_metadata_copy_impl ne h extension =
     (let (ok, h) = copied h (em_extension_class extension) in
      if \<not> ok then (None, h)
      else
        case copy_optional (\<lambda>h x. asdf_software_copy h (Some x)) h (em_package extension) of
          (None, h) \<Rightarrow> (None, h)
        | (Some package, h) \<Rightarrow>
            (case copy_optional (\<lambda>h m. asdf_value_copy_deep ne h (Some m)) h (em_metadata extension) of
               (None, h) \<Rightarrow> (None, h)
             | (Some metadata, h) \<Rightarrow> (Some (extension\<lparr>em_package := package, em_metadata := metadata\<rparr>), h)))"

definition asdf_value_as_extension_metadata ::
  "'n value_env \<Rightarrow> 'n node_env \<Rightarrow> extension_map \<Rightarrow> heap \<Rightarrow> 'n asdf_value \<Rightarrow>
   (asdf_value_err \<times> 'n asdf_extension_metadata option \<times> heap) option" where
  "asdf_value_as_extension_metadata ve ne registry =
     as_extension ve ne registry asdf_extension_metadata_extension (asdf_extension_metadata_deserialize ve ne registry)"

definition asdf_value_of_extension_metadata ::
  "('s, 'n) tree_ops \<Rightarrow> heap \<Rightarrow> 'n asdf_extension_metadata \<Rightarrow> 's \<Rightarrow> ('n asdf_value option \<times> heap \<times> 's) option" where
  "asdf_value_of_extension_metadata ops h extension s =
     map_option (\<lambda>(value, _, h, s). (value, h, s)) (asdf_value_of_extension_type ops h extension
       \<lparr>wr_ext = asdf_extension_metadata_extension, wr_tags = [ASDF_CORE_EXTENSION_METADATA_TAG],
        wr_serialize = Some (asdf_extension_metadata_serialize ops)\<rparr> s)"

section \<open>Metadata of a file\<close>

definition asdf_meta_extension :: nat where "asdf_meta_extension = 3"

record 'n asdf_meta =
  me_asdf_library :: "asdf_software option"
  me_extensions :: "'n asdf_extension_metadata list option"
  me_entries :: "asdf_history_entry list option"

text \<open>Appending the values of a list of objects: an object that cannot be written ends it, with the error of the
  append before it.\<close>

fun append_objects ::
  "('s, 'n) tree_ops \<Rightarrow> (heap \<Rightarrow> 'o \<Rightarrow> 's \<Rightarrow> ('n asdf_value option \<times> heap \<times> 's) option) \<Rightarrow> 'n asdf_value \<Rightarrow> 'o list \<Rightarrow>
   asdf_value_err \<Rightarrow> heap \<Rightarrow> 's \<Rightarrow> (bool \<times> asdf_value_err \<times> heap \<times> 's) option" where
  "append_objects ops write sq [] err h s = Some (True, err, h, s)"
| "append_objects ops write sq (x # xs) err h s =
     (case write h x s of
        None \<Rightarrow> None
      | Some (None, h, s) \<Rightarrow> Some (False, err, h, s)
      | Some (Some v, h, s) \<Rightarrow> (case asdf_sequence_append ops (Some sq) (Some v) s of
            None \<Rightarrow> None
          | Some (err, s) \<Rightarrow> if err \<noteq> ASDF_VALUE_OK then Some (False, err, h, s)
                          else append_objects ops write sq xs err h s))"

text \<open>The sequence is destroyed when the last error is not OK, but it is returned all the same after the last
  object, also when there is none.\<close>

definition serialize_objects ::
  "('s, 'n) tree_ops \<Rightarrow> (heap \<Rightarrow> 'o \<Rightarrow> 's \<Rightarrow> ('n asdf_value option \<times> heap \<times> 's) option) \<Rightarrow> heap \<Rightarrow> 'o list option \<Rightarrow> 's \<Rightarrow>
   ('n asdf_value option \<times> heap \<times> 's) option" where
  "serialize_objects ops write h objects s =
     (case objects of
        None \<Rightarrow> Some (None, h, s)
      | Some xs \<Rightarrow> (case asdf_sequence_create ops h s of
            (None, h, s) \<Rightarrow> Some (None, h, s)
          | (Some sq, h, s) \<Rightarrow> do {
              (all, err, h, s) \<leftarrow> append_objects ops write sq xs ASDF_VALUE_ERR_OOM h s;
              Some (if all then asdf_value_of_sequence (Some sq) else None, h,
                    if err \<noteq> ASDF_VALUE_OK then destroyed ops (Some sq) s else s)
            }))"

definition asdf_meta_history_extensions_serialize ::
  "('s, 'n) tree_ops \<Rightarrow> heap \<Rightarrow> 'n asdf_meta \<Rightarrow> 's \<Rightarrow> ('n asdf_value option \<times> heap \<times> 's) option" where
  "asdf_meta_history_extensions_serialize ops h meta s =
     serialize_objects ops (asdf_value_of_extension_metadata ops) h (me_extensions meta) s"

definition asdf_meta_history_entries_serialize ::
  "('s, 'n) tree_ops \<Rightarrow> heap \<Rightarrow> 'n asdf_meta \<Rightarrow> 's \<Rightarrow> ('n asdf_value option \<times> heap \<times> 's) option" where
  "asdf_meta_history_entries_serialize ops h meta s =
     serialize_objects ops (asdf_value_of_history_entry ops) h (me_entries meta) s"

text \<open>Adding a list to the mapping of the history, which is created with the first list that is there: whether to
  go on, and the mapping. The mapping is destroyed on the way out when it could not be set.\<close>

definition add_history ::
  "('s, 'n) tree_ops \<Rightarrow> string \<Rightarrow> 'n asdf_value option \<Rightarrow> 'n asdf_value option \<Rightarrow> heap \<Rightarrow> 's \<Rightarrow>
   (bool \<times> 'n asdf_value option \<times> heap \<times> 's) option" where
  "add_history ops key history_map objects h s =
     (case objects of
        None \<Rightarrow> Some (True, history_map, h, s)
      | Some objs \<Rightarrow>
          (case (case history_map of None \<Rightarrow> asdf_mapping_create ops h s | Some m \<Rightarrow> (Some m, h, s)) of
             (None, h, s) \<Rightarrow> Some (False, None, h, s)
           | (Some m, h, s) \<Rightarrow> do {
               (err, h, s) \<leftarrow> asdf_mapping_set ops h (Some m) (Some (bytes_of key)) (Some objs) s;
               Some (if err \<noteq> ASDF_VALUE_OK then (False, None, h, destroyed ops (Some m) s) else (True, Some m, h, s))
             }))"

definition some_objects :: "'o list option \<Rightarrow> bool" where
  "some_objects xs \<longleftrightarrow> (case xs of Some (_ # _) \<Rightarrow> True | _ \<Rightarrow> False)"

definition asdf_meta_history_serialize ::
  "('s, 'n) tree_ops \<Rightarrow> heap \<Rightarrow> 'n asdf_meta \<Rightarrow> 's \<Rightarrow> ('n asdf_value option \<times> heap \<times> 's) option" where
  "asdf_meta_history_serialize ops h meta s = do {
     (extensions, h, s) \<leftarrow>
       (if some_objects (me_extensions meta) then asdf_meta_history_extensions_serialize ops h meta s else Some (None, h, s));
     (go_on, history_map, h, s) \<leftarrow> add_history ops ''extensions'' None extensions h s;
     if \<not> go_on then Some (None, h, s)
     else do {
       (entries, h, s) \<leftarrow>
         (if some_objects (me_entries meta) then asdf_meta_history_entries_serialize ops h meta s else Some (None, h, s));
       (go_on, history_map, h, s) \<leftarrow> add_history ops ''entries'' history_map entries h s;
       Some (if go_on then asdf_value_of_mapping history_map else None, h, s)
     }
   }"

text \<open>Setting the software or the history fails in a mapping that could not be created; the software, which the
  setter consumed, is then destroyed again, and so is what failed to be set.\<close>

definition asdf_meta_serialize ::
  "('s, 'n) tree_ops \<Rightarrow> heap \<Rightarrow> 'n asdf_meta \<Rightarrow> 's \<Rightarrow> ('n asdf_value option \<times> heap \<times> 's) option" where
  "asdf_meta_serialize ops h meta s = do {
     let (meta_map, h, s) = asdf_mapping_create ops h s;
     (software_value, h, s) \<leftarrow>
       (case me_asdf_library meta of None \<Rightarrow> Some (None, h, s) | Some x \<Rightarrow> asdf_value_of_software ops h x s);
     if me_asdf_library meta \<noteq> None \<and> software_value = None then Some (None, h, s)
     else do {
       (err, h, s) \<leftarrow>
         (case software_value of
            None \<Rightarrow> Some (ASDF_VALUE_OK, h, s)
          | Some v \<Rightarrow> asdf_mapping_set ops h meta_map (Some (bytes_of ''asdf_library'')) (Some v) s);
       if err \<noteq> ASDF_VALUE_OK then None
       else do {
         (history_value, h, s) \<leftarrow> asdf_meta_history_serialize ops h meta s;
         (err, h, s) \<leftarrow>
           (case history_value of
              None \<Rightarrow> Some (ASDF_VALUE_OK, h, s)
            | Some v \<Rightarrow> asdf_mapping_set ops h meta_map (Some (bytes_of ''history'')) (Some v) s);
         if err \<noteq> ASDF_VALUE_OK then None else Some (asdf_value_of_mapping meta_map, h, s)
       }
     }
   }"

definition asdf_meta_extensions_deserialize ::
  "'n value_env \<Rightarrow> 'n node_env \<Rightarrow> extension_map \<Rightarrow> heap \<Rightarrow> 'n asdf_value \<Rightarrow>
   ('n asdf_extension_metadata list option \<times> heap) option" where
  "asdf_meta_extensions_deserialize ve ne registry h value =
     (if fst (asdf_value_as_sequence (Some value)) \<noteq> ASDF_VALUE_OK then Some (None, h)
      else collect_sequence ne (asdf_value_as_extension_metadata ve ne registry) h value)"

definition asdf_meta_history_entries_deserialize ::
  "time_env \<Rightarrow> 'n value_env \<Rightarrow> 'n node_env \<Rightarrow> extension_map \<Rightarrow> heap \<Rightarrow> 'n asdf_value \<Rightarrow>
   (asdf_history_entry list option \<times> heap) option" where
  "asdf_meta_history_entries_deserialize env ve ne registry h value =
     (if fst (asdf_value_as_sequence (Some value)) \<noteq> ASDF_VALUE_OK then Some (None, h)
      else collect_sequence ne (asdf_value_as_history_entry env ve ne registry) h value)"

text \<open>The extensions and the entries, and whether the value itself has been destroyed, which is the case when the
  history is a sequence.\<close>

definition asdf_meta_history_deserialize ::
  "time_env \<Rightarrow> 'n value_env \<Rightarrow> 'n node_env \<Rightarrow> extension_map \<Rightarrow> heap \<Rightarrow> 'n asdf_value \<Rightarrow>
   (bool \<times> 'n asdf_extension_metadata list option \<times> asdf_history_entry list option \<times> heap) option" where
  "asdf_meta_history_deserialize env ve ne registry h value =
     (let old_style = asdf_value_is_sequence value;
          (extension_seq, h) = (if \<not> old_style \<and> asdf_value_is_mapping value
                                then asdf_mapping_get ne h value (bytes_of ''extensions'') else (None, h));
          (history_seq, h) = (if old_style then (Some value, h)
                              else if asdf_value_is_mapping value then asdf_mapping_get ne h value (bytes_of ''entries'')
                              else (None, h))
      in do {
        (extensions, h) \<leftarrow>
          (case extension_seq of None \<Rightarrow> Some (None, h) | Some v \<Rightarrow> asdf_meta_extensions_deserialize ve ne registry h v);
        (entries, h) \<leftarrow>
          (case history_seq of None \<Rightarrow> Some (None, h) | Some v \<Rightarrow> asdf_meta_history_entries_deserialize env ve ne registry h v);
        Some (old_style, extensions, entries, h)
      })"

definition asdf_meta_deserialize ::
  "time_env \<Rightarrow> 'n value_env \<Rightarrow> 'n node_env \<Rightarrow> extension_map \<Rightarrow> ('n, 'n asdf_meta) deserializer" where
  "asdf_meta_deserialize env ve ne registry h value =
     (if fst (asdf_value_as_mapping (Some value)) \<noteq> ASDF_VALUE_OK then Some (ASDF_VALUE_ERR_PARSE_FAILURE, None, h)
      else do {
        let (prop, h) = asdf_mapping_get ne h value (bytes_of ''asdf_library'');
        (asdf_library, h) \<leftarrow>
          (case prop of
             None \<Rightarrow> Some (None, h)
           | Some p \<Rightarrow> do {
               (err, software, h) \<leftarrow> asdf_value_as_software ve ne registry h p;
               Some (if err = ASDF_VALUE_OK then software else None, h)
             });
        let (prop, h) = asdf_mapping_get ne h value (bytes_of ''history'');
        (gone, extensions, entries, h) \<leftarrow>
          (case prop of
             None \<Rightarrow> Some (False, None, None, h)
           | Some p \<Rightarrow> asdf_meta_history_deserialize env ve ne registry h p);
        if gone then None
        else
          let (ok, h) = alloc h in
          if \<not> ok then if prop \<noteq> None then None else Some (ASDF_VALUE_ERR_OOM, None, h)
          else Some (ASDF_VALUE_OK,
                 Some \<lparr>me_asdf_library = asdf_library, me_extensions = extensions, me_entries = entries\<rparr>, h)
      })"

definition asdf_meta_copy_impl :: "'n node_env \<Rightarrow> heap \<Rightarrow> 'n asdf_meta \<Rightarrow> 'n asdf_meta option \<times> heap" where
  "asdf_meta_copy_impl ne h meta =
     (case copy_optional (\<lambda>h x. asdf_software_copy h (Some x)) h (me_asdf_library meta) of
        (None, h) \<Rightarrow> (None, h)
      | (Some library, h) \<Rightarrow>
          (case copy_optional (extension_array_copy (asdf_extension_metadata_copy_impl ne)) h (me_extensions meta) of
             (None, h) \<Rightarrow> (None, h)
           | (Some extensions, h) \<Rightarrow>
               (case copy_optional (extension_array_copy asdf_history_entry_copy_impl) h (me_entries meta) of
                  (None, h) \<Rightarrow> (None, h)
                | (Some entries, h) \<Rightarrow>
                    (Some \<lparr>me_asdf_library = library, me_extensions = extensions, me_entries = entries\<rparr>, h))))"

text \<open>The library's own software, from the names that the build sets; its version is parsed when the library is
  loaded, and one that cannot be parsed is a null pointer, which is read.\<close>

definition asdf_libasdf_version_init :: "heap \<Rightarrow> bytes \<Rightarrow> (asdf_version \<times> heap) option" where
  "asdf_libasdf_version_init h package_version =
     (case asdf_version_parse h (Some package_version) of
        (None, h) \<Rightarrow> None
      | (Some version, h) \<Rightarrow> Some (version, h))"

definition libasdf_software :: "bytes \<Rightarrow> bytes \<Rightarrow> asdf_version \<Rightarrow> asdf_software" where
  "libasdf_software package_name package_url libasdf_version =
     \<lparr>sw_name = Some package_name, sw_version = Some libasdf_version, sw_homepage = Some package_url,
      sw_author = Some (bytes_of ''The libasdf Developers'')\<rparr>"

end
