(* ===== verification/Asdf_Time_Write.thy ===== *)
theory Asdf_Time_Write
  imports Asdf_Meta
begin

text \<open>
  Writing a time as a mapping (\<^verbatim>\<open>asdf_time_serialize\<close> of \<^verbatim>\<open>src/core/time.c\<close>): its value, its format or base
  format, its scale when it is not UTC, and its location when it is not zero. Messages in the log are not kept.
\<close>

definition asdf_time_extension :: nat where "asdf_time_extension = 4"

text \<open>A prefixed year under the format of years is the string form of the format.\<close>

definition effective_format :: "asdf_time_format \<Rightarrow> bytes \<Rightarrow> asdf_time_format" where
  "effective_format format value =
     (let first = chr_at value in
      if (first = 74 \<or> first = 106) \<and> format = ASDF_TIME_FORMAT_JYEAR then ASDF_TIME_FORMAT_JYEAR_STR
      else if (first = 66 \<or> first = 98) \<and> format = ASDF_TIME_FORMAT_BYEAR then ASDF_TIME_FORMAT_BYEAR_STR
      else format)"

text \<open>The text that is written: a format that has no text of its own is parsed and printed as a date. The inner
  result is null when that fails.\<close>

definition time_value_out :: "time_env \<Rightarrow> heap \<Rightarrow> asdf_time \<Rightarrow> asdf_time_format \<Rightarrow> bytes \<Rightarrow> (bytes option \<times> heap) option" where
  "time_value_out env h t eff value =
     (if asdf_time_value_needs_reformat eff \<and> \<not> asdf_time_value_is_datetime_string (te_regexes env) value then do {
        (ok, tmp, h) \<leftarrow> asdf_time_parse env h t;
        Some (if \<not> ok then None else asdf_time_format_isot (tim_info tmp) ASDF_TIME_TIMESTR_MAXLEN, h)
      }
      else Some (Some value, h))"

text \<open>A number is written as it is, anything else as a string.\<close>

definition set_time_value ::
  "('s, 'n) tree_ops \<Rightarrow> heap \<Rightarrow> 'n asdf_value \<Rightarrow> bytes \<Rightarrow> 's \<Rightarrow> (asdf_value_err \<times> heap \<times> 's) option" where
  "set_time_value ops h m value_out s = do {
     (number, h) \<leftarrow> asdf_yaml_scalar_is_number (point ops s) h (Some value_out);
     if number then
       (case asdf_value_of_plain_scalar ops h True (Some value_out) s of
          (None, h, s) \<Rightarrow> Some (ASDF_VALUE_ERR_OOM, h, s)
        | (Some value, h, s) \<Rightarrow> asdf_mapping_set ops h (Some m) (Some (bytes_of ''value'')) (Some value) s)
     else asdf_mapping_set_string0 ops h m (Some (bytes_of ''value'')) (Some value_out) s
   }"

definition time_keys :: "asdf_time_format \<Rightarrow> string \<Rightarrow> asdf_time_scale \<Rightarrow> (string \<times> bytes) list" where
  "time_keys eff name scale =
     (if asdf_time_is_other_format eff then ''base_format'' else ''format'', bytes_of name) #
     (if scale \<noteq> ASDF_TIME_SCALE_UTC then [(''scale'', bytes_of (scale_name scale))] else [])"

fun set_doubles ::
  "('s, 'n) tree_ops \<Rightarrow> 'n asdf_value \<Rightarrow> (string \<times> double) list \<Rightarrow> heap \<Rightarrow> 's \<Rightarrow> (asdf_value_err \<times> heap \<times> 's) option" where
  "set_doubles ops m [] h s = Some (ASDF_VALUE_OK, h, s)"
| "set_doubles ops m ((key, value) # ps) h s =
     (case asdf_mapping_set_double ops h m (Some (bytes_of key)) value s of
        None \<Rightarrow> None
      | Some (err, h, s) \<Rightarrow> if err \<noteq> ASDF_VALUE_OK then Some (err, h, s) else set_doubles ops m ps h s)"

text \<open>The location: whether to go on, and the error. The mapping is destroyed again when setting it, which consumes
  it, fails; when it cannot be created the time is given up, but not destroyed.\<close>

definition set_location ::
  "('s, 'n) tree_ops \<Rightarrow> heap \<Rightarrow> 'n asdf_value \<Rightarrow> double \<times> double \<times> double \<Rightarrow> 's \<Rightarrow> (bool \<times> asdf_value_err \<times> heap \<times> 's) option" where
  "set_location ops h m location s =
     (let (longitude, latitude, height) = location in
      if d_eq longitude (Fin 0) \<and> d_eq latitude (Fin 0) \<and> d_eq height (Fin 0) then Some (True, ASDF_VALUE_OK, h, s)
      else
        case asdf_mapping_create ops h s of
          (None, h, s) \<Rightarrow> Some (False, ASDF_VALUE_OK, h, s)
        | (Some loc_map, h, s) \<Rightarrow> do {
            (err, h, s) \<leftarrow> set_doubles ops loc_map
              [(''longitude'', longitude), (''latitude'', latitude), (''height'', height)] h s;
            if err \<noteq> ASDF_VALUE_OK then Some (False, err, h, destroyed ops (Some loc_map) s)
            else do {
              (err, h, s) \<leftarrow> asdf_mapping_set ops h (Some m) (Some (bytes_of ''location'')) (Some loc_map) s;
              if err \<noteq> ASDF_VALUE_OK then None else Some (True, err, h, s)
            }
          })"

definition asdf_time_serialize ::
  "time_env \<Rightarrow> ('s, 'n) tree_ops \<Rightarrow> heap \<Rightarrow> asdf_time \<Rightarrow> 's \<Rightarrow> ('n asdf_value option \<times> heap \<times> 's) option" where
  "asdf_time_serialize env ops h t s =
     (case (tim_value t, format_name (tim_format t)) of
        (Some value, Some _) \<Rightarrow>
          (case asdf_mapping_create ops h s of
             (None, h, s) \<Rightarrow> Some (None, h, s)
           | (Some m, h, s) \<Rightarrow> do {
               let eff = effective_format (tim_format t) value;
               (value_out, h) \<leftarrow> time_value_out env h t eff value;
               case value_out of
                 None \<Rightarrow> Some (None, h, destroyed ops (Some m) s)
               | Some value_out \<Rightarrow> do {
                   (err, h, s) \<leftarrow> set_time_value ops h m value_out s;
                   if err \<noteq> ASDF_VALUE_OK then Some (None, h, destroyed ops (Some m) s)
                   else do {
                     name \<leftarrow> format_name eff;
                     (err, h, s) \<leftarrow> set_texts ops m (time_keys eff name (tim_scale t)) h s;
                     if err \<noteq> ASDF_VALUE_OK then Some (None, h, destroyed ops (Some m) s)
                     else do {
                       (go_on, err, h, s) \<leftarrow> set_location ops h m (tim_location t) s;
                       Some (if go_on then asdf_value_of_mapping (Some m) else None, h,
                             if err \<noteq> ASDF_VALUE_OK then destroyed ops (Some m) s else s)
                     }
                   }
                 }
             })
      | _ \<Rightarrow> Some (None, h, s))"

definition asdf_value_of_time ::
  "time_env \<Rightarrow> ('s, 'n) tree_ops \<Rightarrow> heap \<Rightarrow> asdf_time \<Rightarrow> 's \<Rightarrow> ('n asdf_value option \<times> heap \<times> 's) option" where
  "asdf_value_of_time env ops h t s =
     map_option (\<lambda>(value, _, h, s). (value, h, s)) (asdf_value_of_extension_type ops h t
       \<lparr>wr_ext = asdf_time_extension,
        wr_tags = map (\<lambda>v. ASDF_STANDARD_TAG_PREFIX @ bytes_of (''time/time-'' @ v)) [''1.4.0'', ''1.3.0'', ''1.2.0'', ''1.1.0'', ''1.0.0''],
        wr_serialize = Some (asdf_time_serialize env ops)\<rparr> s)"

definition asdf_value_as_time ::
  "time_env \<Rightarrow> 'n value_env \<Rightarrow> 'n node_env \<Rightarrow> extension_map \<Rightarrow> heap \<Rightarrow> 'n asdf_value \<Rightarrow>
   (asdf_value_err \<times> asdf_time option \<times> heap) option" where
  "asdf_value_as_time env ve ne registry = as_extension ve ne registry asdf_time_extension (asdf_time_deserialize env ve ne)"

end
