(* ===== verification/Asdf_Software_Laws.thy ===== *)
theory Asdf_Software_Laws
  imports Asdf_Meta Asdf_Datatype_Write_Laws
begin

text \<open>
  A piece of software that is written to the tree and read from there, and the history of a file that was written
  in the old style. Allocations succeed.
\<close>

section \<open>Texts in a mapping\<close>

lemma texts_set:
  assumes laws: "document_laws ops nodes"
  shows "nodes s (v_node m) = Some (Mapping qs) \<Longrightarrow> distinct (map (\<lambda>p. bytes_of (fst p)) ps) \<Longrightarrow>
    \<forall>p \<in> set ps. bytes_of (fst p) \<notin> keys_of qs \<and> short_text (bytes_of (fst p)) \<and> short_text (snd p) \<Longrightarrow>
    \<exists>s'. set_texts ops m ps [] s = Some (ASDF_VALUE_OK, [], s') \<and>
      nodes s' = (nodes s)(v_node m \<mapsto> Mapping (qs @ map (\<lambda>(k, t). (bytes_of k, Text t)) ps))"
proof (induction ps arbitrary: s qs)
  case Nil
  then show ?case by (auto simp: fun_eq_iff)
next
  case (Cons p ps)
  obtain k t where p: "p = (k, t)" by (cases p)
  obtain s1 where s1: "asdf_mapping_set_string0 ops [] m (Some (bytes_of k)) (Some t) s = Some (ASDF_VALUE_OK, [], s1)"
      "nodes s1 = (nodes s)(v_node m \<mapsto> Mapping (qs @ [(bytes_of k, Text t)]))"
    using string_set [OF laws Cons.prems(1), of "bytes_of k" t] Cons.prems(3) p by (auto simp: short_text_def printable_def)
  have n: "nodes s1 (v_node m) = Some (Mapping (qs @ [(bytes_of k, Text t)]))" using s1(2) by simp
  have dist: "distinct (map (\<lambda>p. bytes_of (fst p)) ps)" using Cons.prems(2) by simp
  have rest: "\<forall>p \<in> set ps. bytes_of (fst p) \<notin> keys_of (qs @ [(bytes_of k, Text t)]) \<and> short_text (bytes_of (fst p)) \<and> short_text (snd p)"
    using Cons.prems(2,3) p by (auto simp: keys_of_def image_iff)
  obtain s2 where s2: "set_texts ops m ps [] s1 = Some (ASDF_VALUE_OK, [], s2)"
      "nodes s2 = (nodes s1)(v_node m \<mapsto> Mapping ((qs @ [(bytes_of k, Text t)]) @ map (\<lambda>(k, t). (bytes_of k, Text t)) ps))"
    using Cons.IH [OF n dist rest] by blast
  then show ?case using s1 p by (auto simp: fun_eq_iff)
qed

lemma required_found:
  assumes "is_map v n" and "fy_node_mapping_lookup_value_by_simple_key ne n (bytes_of key) = Some c" and t: "text_node ve ne c s"
  shows "required_text ve ne [] v key = Some (Some (Some s), [])"
proof -
  obtain p where "asdf_mapping_get ne [] v (bytes_of key) = (Some (node_value ne c p), [])"
    using get_key [OF assms(1,2)] t by (auto simp: text_node_def)
  then show ?thesis using string_of_text [OF t, of p] by (auto simp: required_text_def)
qed

lemma ignored_found:
  assumes "is_map v n" and "fy_node_mapping_lookup_value_by_simple_key ne n (bytes_of key) = Some c" and t: "text_node ve ne c s"
  shows "ignored_text ve ne [] v key = Some ((True, Some s), [])"
proof -
  obtain p where "asdf_mapping_get ne [] v (bytes_of key) = (Some (node_value ne c p), [])"
    using get_key [OF assms(1,2)] t by (auto simp: text_node_def)
  then show ?thesis using string_of_text [OF t, of p] by (auto simp: ignored_text_def)
qed

lemma ignored_missing:
  "is_map v n \<Longrightarrow> fy_node_mapping_lookup_value_by_simple_key ne n (bytes_of key) = None \<Longrightarrow>
   ignored_text ve ne [] v key = Some ((False, None), [])"
  by (simp add: ignored_text_def get_no_key)

text \<open>What a mapping of texts gives for a key.\<close>

lemma text_shown:
  assumes "displays ve ne (Mapping (map (\<lambda>(k, t). (bytes_of k, Text t)) ps)) n" and "(key, t) \<in> set ps"
  obtains c where "fy_node_mapping_lookup_value_by_simple_key ne n (bytes_of key) = Some c" "text_node ve ne c t"
  using assms by force

lemma no_text_shown:
  assumes "displays ve ne (Mapping (map (\<lambda>(k, t). (bytes_of k, Text t)) ps)) n" and "bytes_of key \<notin> (\<lambda>p. bytes_of (fst p)) ` set ps"
  shows "fy_node_mapping_lookup_value_by_simple_key ne n (bytes_of key) = None"
  using assms by (force simp: keys_of_def)

section \<open>Software\<close>

text \<open>A text that is empty is not written, and is null when it is read.\<close>

definition kept_text :: "bytes option \<Rightarrow> bytes option" where
  "kept_text text = (if text = Some [] then None else text)"

definition software_texts :: "bytes \<Rightarrow> asdf_version \<Rightarrow> asdf_software \<Rightarrow> (string \<times> bytes) list" where
  "software_texts name version x =
     (''name'', name) # (''version'', ver_string version) # nonempty_text ''author'' (sw_author x) @ nonempty_text ''homepage'' (sw_homepage x)"

lemma nonempty_kept: "nonempty_text key text = (case kept_text text of None \<Rightarrow> [] | Some t \<Rightarrow> [(key, t)])"
  by (auto simp: nonempty_text_def kept_text_def split: option.splits list.splits)

lemma nonempty_keys: "(\<lambda>p. bytes_of (fst p)) ` set (nonempty_text key text) = (if kept_text text = None then {} else {bytes_of key})"
  by (cases "kept_text text") (simp_all add: nonempty_kept)

lemma nonempty_there: "t \<noteq> [] \<Longrightarrow> text = Some t \<Longrightarrow> (key, t) \<in> set (nonempty_text key text)"
  by (simp add: nonempty_kept kept_text_def)

lemma software_keys:
  "bytes_of ''name'' \<noteq> bytes_of ''version''" "bytes_of ''name'' \<noteq> bytes_of ''author''" "bytes_of ''name'' \<noteq> bytes_of ''homepage''"
  "bytes_of ''version'' \<noteq> bytes_of ''author''" "bytes_of ''version'' \<noteq> bytes_of ''homepage''" "bytes_of ''author'' \<noteq> bytes_of ''homepage''"
  "short_text (bytes_of ''name'')" "short_text (bytes_of ''version'')" "short_text (bytes_of ''author'')" "short_text (bytes_of ''homepage'')"
  by (simp_all add: bytes_of_def short_text_def printable_def INT_MAX_def)

lemma ignored_kept:
  assumes "is_map v n" and d: "displays ve ne (Mapping (map (\<lambda>(k, t). (bytes_of k, Text t)) ps)) n"
    and "\<And>t. text = Some t \<Longrightarrow> t \<noteq> [] \<Longrightarrow> (key, t) \<in> set ps" and "kept_text text = None \<Longrightarrow> bytes_of key \<notin> (\<lambda>p. bytes_of (fst p)) ` set ps"
  shows "\<exists>there. ignored_text ve ne [] v key = Some ((there, kept_text text), [])"
proof (cases "kept_text text")
  case None
  then show ?thesis using ignored_missing [OF assms(1) no_text_shown [OF d]] assms(4) by auto
next
  case (Some t)
  then have "(key, t) \<in> set ps" using assms(3) by (auto simp: kept_text_def split: if_splits)
  then obtain c where "fy_node_mapping_lookup_value_by_simple_key ne n (bytes_of key) = Some c" "text_node ve ne c t"
    using text_shown [OF d] by blast
  then show ?thesis using ignored_found [OF assms(1)] Some by auto
qed

lemma software_read:
  assumes m: "is_map v n" and d: "displays ve ne (Mapping (map (\<lambda>(k, t). (bytes_of k, Text t)) (software_texts name version x))) n"
    and version: "asdf_version_parse [] (Some (ver_string version)) = (Some version, [])"
  shows "asdf_software_deserialize ve ne [] v = Some (ASDF_VALUE_OK,
    Some \<lparr>sw_name = Some name, sw_version = Some version, sw_homepage = kept_text (sw_homepage x), sw_author = kept_text (sw_author x)\<rparr>, [])"
proof -
  let ?ps = "software_texts name version x"
  note keys = software_keys(1-6) software_keys(1-6) [symmetric]
  obtain c1 where "fy_node_mapping_lookup_value_by_simple_key ne n (bytes_of ''name'') = Some c1" "text_node ve ne c1 name"
    using text_shown [OF d, of "''name''" name] by (auto simp: software_texts_def)
  note name = required_found [OF m this]
  obtain c2 where "fy_node_mapping_lookup_value_by_simple_key ne n (bytes_of ''version'') = Some c2" "text_node ve ne c2 (ver_string version)"
    using text_shown [OF d, of "''version''" "ver_string version"] by (auto simp: software_texts_def)
  note vers = required_found [OF m this]
  have "bytes_of ''homepage'' \<notin> (\<lambda>p. bytes_of (fst p)) ` set ?ps" if "kept_text (sw_homepage x) = None"
    using that keys by (auto simp: software_texts_def image_Un nonempty_keys split: if_splits)
  then obtain b1 where home: "ignored_text ve ne [] v ''homepage'' = Some ((b1, kept_text (sw_homepage x)), [])"
    using ignored_kept [OF m d, of "sw_homepage x" "''homepage''"] by (auto simp: software_texts_def nonempty_there)
  have "bytes_of ''author'' \<notin> (\<lambda>p. bytes_of (fst p)) ` set ?ps" if "kept_text (sw_author x) = None"
    using that keys by (auto simp: software_texts_def image_Un nonempty_keys split: if_splits)
  then obtain b2 where author: "ignored_text ve ne [] v ''author'' = Some ((b2, kept_text (sw_author x)), [])"
    using ignored_kept [OF m d, of "sw_author x" "''author''"] by (auto simp: software_texts_def nonempty_there)
  have "fst (asdf_value_as_mapping (Some v)) = ASDF_VALUE_OK"
    using m by (simp add: asdf_value_as_mapping_def is_map_def)
  then show ?thesis
    by (auto simp: asdf_software_deserialize_def name vers home author version dup_def Let_def split: option.splits)
qed



section \<open>Old-style history\<close>

text \<open>A history that is a sequence, which older files have, is destroyed with its entries and then once more.\<close>

lemma old_style_history_destroyed_twice:
  assumes m: "is_map v n" and library: "fy_node_mapping_lookup_value_by_simple_key ne n (bytes_of ''asdf_library'') = None"
    and history: "fy_node_mapping_lookup_value_by_simple_key ne n (bytes_of ''history'') = Some c" "seq_node ne c items"
  shows "asdf_meta_deserialize env ve ne registry [] v = None"
proof -
  obtain p where p: "asdf_mapping_get ne [] v (bytes_of ''history'') = (Some (node_value ne c p), [])"
    using get_key [OF m history(1)] history(2) by (auto simp: seq_node_def)
  have "asdf_value_is_sequence (node_value ne c p)"
    using history(2) by (simp add: asdf_value_is_sequence_def node_value_def seq_node_def)
  then have "asdf_meta_history_deserialize env ve ne registry [] (node_value ne c p) = Some r \<Longrightarrow> fst r" for r
    by (auto simp: asdf_meta_history_deserialize_def bind_eq_Some_conv)
  then show ?thesis
    using m by (cases "asdf_meta_history_deserialize env ve ne registry [] (node_value ne c p)")
      (auto simp: asdf_meta_deserialize_def asdf_value_as_mapping_def is_map_def get_no_key [OF m library] p)
qed

end
