(* ===== verification/Asdf_Time_Write_Laws.thy ===== *)
theory Asdf_Time_Write_Laws
  imports Asdf_Time_Write Asdf_Software_Laws Asdf_Time_Instant
begin

text \<open>
  A time that is written to the tree and read from there. Allocations succeed.
\<close>

section \<open>Reading what is shown\<close>

lemma optional_found:
  assumes "is_map v n" and "fy_node_mapping_lookup_value_by_simple_key ne n (bytes_of key) = Some c" and t: "text_node ve ne c s"
  shows "optional_text ve ne [] v key = Some ((True, Some (Some s)), [])"
proof -
  obtain p where "asdf_mapping_get ne [] v (bytes_of key) = (Some (node_value ne c p), [])"
    using get_key [OF assms(1,2)] t by (auto simp: text_node_def)
  then show ?thesis using string_of_text [OF t, of p] by (auto simp: optional_text_def)
qed

lemma optional_missing:
  "is_map v n \<Longrightarrow> fy_node_mapping_lookup_value_by_simple_key ne n (bytes_of key) = None \<Longrightarrow>
   optional_text ve ne [] v key = Some ((True, None), [])"
  by (simp add: optional_text_def get_no_key)

lemma format_named: "f = ASDF_TIME_FORMAT_RESERVED1 \<or> asdf_time_format_parse (bytes_of (the (format_name f))) = Some f"
  by (induct f; code_simp)

lemma format_text: "f = ASDF_TIME_FORMAT_RESERVED1 \<or> short_text (bytes_of (the (format_name f)))"
  by (induct f) (simp_all add: format_name_def asdf_time_format_names_def short_text_def printable_def bytes_of_def INT_MAX_def)

lemma scale_named: "asdf_time_scale_parse (bytes_of (scale_name c)) = Some c"
  by (induct c; code_simp)

lemma scale_text: "short_text (bytes_of (scale_name c))"
  by (induct c) (simp_all add: scale_name_def asdf_time_scale_names_def short_text_def printable_def bytes_of_def INT_MAX_def)

lemma reserved_unnamed: "format_name f = Some name \<Longrightarrow> f \<noteq> ASDF_TIME_FORMAT_RESERVED1"
  by (auto simp: format_name_def asdf_time_format_names_def)

lemma names_parse:
  "format_name f = Some name \<Longrightarrow> asdf_time_format_parse (bytes_of name) = Some f"
  "asdf_time_scale_parse (bytes_of (scale_name c)) = Some c"
  using format_named [of f] reserved_unnamed [of f] scale_named [of c] by auto

lemma names_c_strings:
  "format_name f = Some name \<Longrightarrow> short_text (bytes_of name)" "short_text (bytes_of (scale_name c))"
  using format_text [of f] reserved_unnamed [of f] scale_text [of c] by auto

lemma typed_text:
  assumes "text_node ve ne n s"
  shows "\<exists>w. asdf_value_get_type ve [] (Some (node_value ne n p)) = Some (ASDF_VALUE_STRING, Some w, []) \<and>
    asdf_value_as_scalar0 ne (Some w) = (ASDF_VALUE_OK, Some (Some s))"
proof -
  obtain w where w: "infer_value ve [] (node_value ne n p) = Some (ASDF_VALUE_OK, w, [])" "v_type w = ASDF_VALUE_STRING" "v_node w = n"
    using infer_text [OF assms] by blast
  have "v_type (node_value ne n p) = ASDF_VALUE_SCALAR" "fy_node_get_scalar0 ne n = Some s"
    using assms by (simp_all add: node_value_def text_node_def)
  then show ?thesis using w by (simp add: asdf_value_get_type_def asdf_value_as_scalar0_def)
qed

text \<open>A standard format that is given is taken as it is; the patterns only decide what is logged.\<close>

lemma given_format:
  assumes "format_name f = Some name" and "asdf_time_standard_format f = f"
  shows "fst (validate_or_guess_time_format rx is_string text (Some (bytes_of name))) = Some f"
proof -
  have "f \<noteq> ASDF_TIME_FORMAT_JYEAR_STR" "f \<noteq> ASDF_TIME_FORMAT_BYEAR_STR" using assms(2) by auto
  then show ?thesis
    by (simp add: validate_or_guess_time_format_def names_parse(1) [OF assms(1)] Let_def split: option.splits)
qed

section \<open>What is written\<close>

definition time_shown :: "asdf_time \<Rightarrow> bytes \<Rightarrow> string \<Rightarrow> (string \<times> bytes) list" where
  "time_shown t value name = (''value'', value) # time_keys (tim_format t) name (tim_scale t)"

lemma time_key_names:
  "bytes_of ''value'' \<noteq> bytes_of ''format''" "bytes_of ''value'' \<noteq> bytes_of ''scale''" "bytes_of ''value'' \<noteq> bytes_of ''base_format''"
  "bytes_of ''format'' \<noteq> bytes_of ''scale''" "bytes_of ''format'' \<noteq> bytes_of ''base_format''" "bytes_of ''scale'' \<noteq> bytes_of ''base_format''"
  "short_text (bytes_of ''value'')" "short_text (bytes_of ''format'')" "short_text (bytes_of ''scale'')"
  by (simp_all add: bytes_of_def short_text_def printable_def INT_MAX_def)

lemma time_texts_shown:
  assumes m: "is_map v n" and d: "displays ve ne (Mapping (map (\<lambda>(k, t). (bytes_of k, Text t)) (time_shown t value name))) n"
    and std: "asdf_time_standard_format (tim_format t) = tim_format t"
  shows "time_texts ve ne [] (Some v) = Some (Some (Some (bytes_of name), tim_scale t, None), [])"
proof -
  let ?ps = "time_shown t value name"
  note keys = time_key_names(1-6) time_key_names(1-6) [symmetric]
  have other: "\<not> asdf_time_is_other_format (tim_format t)" using std by (simp add: asdf_time_is_other_format_def)
  obtain c1 where "fy_node_mapping_lookup_value_by_simple_key ne n (bytes_of ''format'') = Some c1" "text_node ve ne c1 (bytes_of name)"
    using text_shown [OF d, of "''format''" "bytes_of name"] other by (auto simp: time_shown_def time_keys_def)
  note format = optional_found [OF m this]
  have "bytes_of ''base_format'' \<notin> (\<lambda>p. bytes_of (fst p)) ` set ?ps"
    using other keys by (auto simp: time_shown_def time_keys_def)
  note base = optional_missing [OF m no_text_shown [OF d this]]
  show ?thesis
  proof (cases "tim_scale t = ASDF_TIME_SCALE_UTC")
    case True
    then have "bytes_of ''scale'' \<notin> (\<lambda>p. bytes_of (fst p)) ` set ?ps"
      using other keys by (auto simp: time_shown_def time_keys_def)
    note optional_missing [OF m no_text_shown [OF d this]]
    then show ?thesis using True by (simp add: time_texts_def format base)
  next
    case False
    then obtain c2 where "fy_node_mapping_lookup_value_by_simple_key ne n (bytes_of ''scale'') = Some c2"
        "text_node ve ne c2 (bytes_of (scale_name (tim_scale t)))"
      using text_shown [OF d, of "''scale''" "bytes_of (scale_name (tim_scale t))"] by (auto simp: time_shown_def time_keys_def)
    note optional_found [OF m this]
    then show ?thesis by (simp add: time_texts_def format base names_parse)
  qed
qed

definition unparsed :: "bytes \<Rightarrow> asdf_time_format \<Rightarrow> asdf_time_scale \<Rightarrow> asdf_time" where
  "unparsed value format scale = zero_time\<lparr>tim_value := Some value, tim_format := format, tim_scale := scale\<rparr>"

lemma time_read:
  assumes m: "is_map v n" and d: "displays ve ne (Mapping (map (\<lambda>(k, t). (bytes_of k, Text t)) (time_shown t value name))) n"
    and std: "asdf_time_standard_format (tim_format t) = tim_format t" and name: "format_name (tim_format t) = Some name"
    and len: "length value < ASDF_TIME_TIMESTR_MAXLEN"
  shows "asdf_time_deserialize env ve ne [] v =
    map_option (\<lambda>(ok, t', h). (ASDF_VALUE_OK, Some t', h)) (asdf_time_parse env [] (unparsed value (tim_format t) (tim_scale t)))"
proof -
  obtain c where c: "fy_node_mapping_lookup_value_by_simple_key ne n (bytes_of ''value'') = Some c" "text_node ve ne c value"
    using text_shown [OF d, of "''value''" "value"] by (auto simp: time_shown_def)
  obtain p where p: "asdf_mapping_get ne [] v (bytes_of ''value'') = (Some (node_value ne c p), [])"
    using get_key [OF m c(1)] c(2) by (auto simp: text_node_def)
  obtain w where w: "asdf_value_get_type ve [] (Some (node_value ne c p)) = Some (ASDF_VALUE_STRING, Some w, [])"
      "asdf_value_as_scalar0 ne (Some w) = (ASDF_VALUE_OK, Some (Some value))"
    using typed_text [OF c(2)] by blast
  have "time_property ne [] v = ((Some (node_value ne c p), Some v), [])"
    using m p by (simp add: time_property_def asdf_value_is_mapping_def is_map_def)
  then have k: "asdf_time_deserialize env ve ne [] v = do {
      (_, t, h) \<leftarrow> asdf_time_parse env [] (unparsed value (tim_format t) (tim_scale t));
      Some (ASDF_VALUE_OK, Some t, h)
    }"
    using w len given_format [OF name std]
    by (simp add: asdf_time_deserialize_def time_texts_shown [OF m d std] time_of_text_def unparsed_def)
  show ?thesis unfolding k
    by (cases "asdf_time_parse env [] (unparsed value (tim_format t) (tim_scale t))") (simp_all add: case_prod_beta)
qed

text \<open>Parsing sets the instant of a time and nothing else.\<close>

abbreviation instant_set :: "asdf_time \<Rightarrow> bool \<times> asdf_time \<times> heap \<Rightarrow> bool" where
  "instant_set t \<equiv> \<lambda>(_, t', _). t' = t\<lparr>tim_info := tim_info t'\<rparr>"

lemma instant_set_results: "instant_set t (ok, t, h)" "instant_set t (ok, set_info t a b c, h)"
  by (simp_all add: set_info_def)

lemma post_bind_any: "(\<And>x. post Q (f x)) \<Longrightarrow> post Q (m \<bind> f)"
  by (rule post_bind) (rule post_any)

lemmas post_instant = post_bind_any post_let post_if post_prod post_option post_None post_Some instant_set_results

lemma julian_instants: "post (instant_set t) (parse_julian jd h t)" "post (instant_set t) (parse_julian_gmtime jd h t)"
  unfolding parse_julian_def parse_julian_gmtime_def by (intro post_instant)+

lemma parser_instants:
  "post (instant_set t) (asdf_time_parse_std env h t)" "post (instant_set t) (asdf_time_parse_fits env h t)"
  "post (instant_set t) (asdf_time_parse_jd env h t)" "post (instant_set t) (asdf_time_parse_plot_date env h t)"
  "post (instant_set t) (asdf_time_parse_epoch_seconds env h t e)" "post (instant_set t) (asdf_time_parse_mjd env h t)"
  "post (instant_set t) (asdf_time_parse_byear env h t)" "post (instant_set t) (asdf_time_parse_jyear env h t)"
  "post (instant_set t) (asdf_time_parse_decimalyear env h t)"
  unfolding asdf_time_parse_std_def asdf_time_parse_fits_def asdf_time_parse_jd_def asdf_time_parse_plot_date_def
    asdf_time_parse_epoch_seconds_def asdf_time_parse_mjd_def asdf_time_parse_byear_def asdf_time_parse_jyear_def
    asdf_time_parse_decimalyear_def
  by (intro post_instant julian_instants)+

lemma parse_sets_instant:
  assumes "asdf_time_parse env h t = Some (ok, t', h')"
  shows "t' = t\<lparr>tim_info := tim_info t'\<rparr>"
proof -
  have "post (instant_set t) (asdf_time_parse env h t)"
    using parser_instants [of t env h] parser_instants(5) [of t env h]
    by (cases "tim_format t") (simp_all add: asdf_time_parse_def post_Some instant_set_results)
  from postD [OF this assms] show ?thesis by simp
qed

text \<open>C15. A time with a text in a standard format, written to the tree and read from there, has its text, format and
  scale again, and the instant that parsing its text gives: reading succeeds, fails to return or logs as that parse
  does, and a time whose instant is that of its text comes back as it was. The time has no location, which would be
  written but not read; its text is printable, shorter than the buffer of the reader, no number (which would be
  written unquoted) and no year with a prefix (which would change the format); and the document is one that
  behaves as libfyaml documents it.\<close>

theorem time_roundtrip:
  assumes laws: "document_laws ops nodes" and point: "\<forall>s. point ops s = dp"
    and text_ok: "tim_value t = Some value" "short_text value" "length value < ASDF_TIME_TIMESTR_MAXLEN"
      "asdf_yaml_scalar_is_number dp [] (Some value) = Some (False, [])"
    and format: "asdf_time_standard_format (tim_format t) = tim_format t" "tim_format t \<noteq> ASDF_TIME_FORMAT_RESERVED1"
      "effective_format (tim_format t) value = tim_format t"
    and location: "tim_location t = (Fin 0, Fin 0, Fin 0)"
  shows "\<exists>v s'. asdf_time_serialize env ops [] t s = Some (Some v, [], s') \<and>
    asdf_time_deserialize env (to_values ops s') (to_nodes ops s') [] (node_value (to_nodes ops s') (v_node v) p) =
      map_option (\<lambda>(ok, t', h). (ASDF_VALUE_OK, Some t', h))
        (asdf_time_parse env [] (unparsed value (tim_format t) (tim_scale t))) \<and>
    (\<forall>ok t' h. asdf_time_parse env [] (unparsed value (tim_format t) (tim_scale t)) = Some (ok, t', h) \<longrightarrow>
       t' = t\<lparr>tim_info := tim_info t'\<rparr>)"
proof -
  obtain name where name: "format_name (tim_format t) = Some name"
    using format(2) by (cases "tim_format t") (simp_all add: format_name_def asdf_time_format_names_def)
  let ?ps = "time_shown t value name"
  let ?t = "Mapping (map (\<lambda>(k, t). (bytes_of k, Text t)) ?ps)"
  have std: "\<not> asdf_time_is_other_format (tim_format t)" "\<not> asdf_time_value_needs_reformat (tim_format t)"
    using format(1) by (auto simp: asdf_time_is_other_format_def asdf_time_value_needs_reformat_def)
  obtain m s1 where m: "asdf_mapping_create ops [] s = (Some m, [], s1)" "nodes s1 = (nodes s)(v_node m \<mapsto> Mapping [])"
    using mapping_created [OF laws] by blast
  obtain s2 where s2: "asdf_mapping_set_string0 ops [] m (Some (bytes_of ''value'')) (Some value) s1 = Some (ASDF_VALUE_OK, [], s2)"
      "nodes s2 = (nodes s1)(v_node m \<mapsto> Mapping [(bytes_of ''value'', Text value)])"
    using string_set [OF laws, of s1 m "[]" "bytes_of ''value''" "value"] m(2) text_ok(2) time_key_names(7)
    by (auto simp: keys_of_def short_text_def printable_def)
  have n: "nodes s2 (v_node m) = Some (Mapping [(bytes_of ''value'', Text value)])" using s2(2) by simp
  have keys: "distinct (map (\<lambda>p. bytes_of (fst p)) (time_keys (tim_format t) name (tim_scale t)))"
    "\<forall>p \<in> set (time_keys (tim_format t) name (tim_scale t)). bytes_of (fst p) \<notin> keys_of [(bytes_of ''value'', Text value)] \<and>
       short_text (bytes_of (fst p)) \<and> short_text (snd p)"
    using std(1) time_key_names time_key_names(1,2,4) [symmetric] names_c_strings(1) [OF name] names_c_strings(2)
    by (auto simp: time_keys_def keys_of_def)
  obtain s3 where s3: "set_texts ops m (time_keys (tim_format t) name (tim_scale t)) [] s2 = Some (ASDF_VALUE_OK, [], s3)"
      "nodes s3 = (nodes s2)(v_node m \<mapsto> Mapping ([(bytes_of ''value'', Text value)] @
         map (\<lambda>(k, t). (bytes_of k, Text t)) (time_keys (tim_format t) name (tim_scale t))))"
    using texts_set [OF laws n keys] by blast
  have written: "asdf_time_serialize env ops [] t s = Some (Some m, [], s3)"
    using m(1) s2(1) s3(1) text_ok(1,4) format(3) name location std point
    by (simp add: asdf_time_serialize_def time_value_out_def set_time_value_def set_location_def asdf_value_of_mapping_def Let_def)
  have "nodes s3 (v_node m) = Some ?t" using s3(2) by (simp add: time_shown_def)
  then have d: "displays (to_values ops s3) (to_nodes ops s3) ?t (v_node m)" by (rule document(2) [OF laws])
  then have "map_node (to_nodes ops s3) (v_node m)" by simp
  note read = time_read [OF node_value_map [OF this] d format(1) name text_ok(3), of env p]
  have "t' = t\<lparr>tim_info := tim_info t'\<rparr>"
    if "asdf_time_parse env [] (unparsed value (tim_format t) (tim_scale t)) = Some (ok, t', h)" for ok t' h
  proof -
    have "t\<lparr>tim_info := i\<rparr> = (unparsed value (tim_format t) (tim_scale t))\<lparr>tim_info := i\<rparr>" for i
      using text_ok(1) location by (cases t) (simp add: unparsed_def zero_time_def)
    with parse_sets_instant [OF that] show ?thesis by metis
  qed
  with read written show ?thesis by blast
qed

text \<open>The second of January 2024, at four minutes and five seconds past three.\<close>

lemma time_roundtrip_witness:
  "\<exists>tm v s'. gmtime 1704164645 = Some tm \<and>
    asdf_time_serialize c_locale doc_ops [] (set_info (unread_time ''2024-01-02 03:04:05'' ASDF_TIME_FORMAT_ISO) 1704164645 0 tm) [] =
      Some (Some v, [], s') \<and>
    asdf_time_deserialize c_locale (to_values doc_ops s') (to_nodes doc_ops s') [] (node_value (to_nodes doc_ops s') (v_node v) None) =
      Some (ASDF_VALUE_OK, Some (set_info (unread_time ''2024-01-02 03:04:05'' ASDF_TIME_FORMAT_ISO) 1704164645 0 tm), [])"
proof -
  let ?u = "unread_time ''2024-01-02 03:04:05'' ASDF_TIME_FORMAT_ISO"
  obtain tm where tm: "gmtime 1704164645 = Some tm" by (rule gmtime_defined [of 1704164645]) simp_all
  have scan: "check_format_strptime (\<lambda>_. None) (separator_to_space (bytes_of ''2024-01-02 03:04:05'')) zero_tm 0 ASDF_TIME_SFMT_ISO =
      Some ([], \<lparr>tm_sec = 5, tm_min = 4, tm_hour = 3, tm_mday = 2, tm_mon = 0, tm_year = 124\<rparr>)"
    by code_simp
  have secs: "tm_seconds \<lparr>tm_sec = 5, tm_min = 4, tm_hour = 3, tm_mday = 2, tm_mon = 0, tm_year = 124\<rparr> = 1704164645" by code_simp
  have unparsed: "unparsed (bytes_of ''2024-01-02 03:04:05'') ASDF_TIME_FORMAT_ISO ASDF_TIME_SCALE_UTC = ?u"
    by (simp add: unparsed_def zero_time_def unread_time_def)
  have parsed: "asdf_time_parse c_locale [] ?u = Some (True, set_info ?u 1704164645 0 tm, [])"
    using scan secs tm
    by (simp add: asdf_time_parse_def asdf_time_parse_std_def unread_time_def c_locale_def fraction_nsec_def timegm_def tz_offset_def)
  have number: "asdf_yaml_scalar_is_number [46] [] (Some (bytes_of ''2024-01-02 03:04:05'')) = Some (False, [])" by code_simp
  let ?t = "set_info ?u 1704164645 0 tm"
  have fields: "tim_value ?t = Some (bytes_of ''2024-01-02 03:04:05'')" "tim_format ?t = ASDF_TIME_FORMAT_ISO"
    "tim_scale ?t = ASDF_TIME_SCALE_UTC" "tim_location ?t = (Fin 0, Fin 0, Fin 0)"
    by (simp_all add: set_info_def unread_time_def)
  have again: "asdf_time_parse c_locale [] (unparsed (bytes_of ''2024-01-02 03:04:05'') (tim_format ?t) (tim_scale ?t)) = Some (True, ?t, [])"
    using parsed by (simp only: fields unparsed)
  have sizes: "short_text (bytes_of ''2024-01-02 03:04:05'')" "length (bytes_of ''2024-01-02 03:04:05'') < ASDF_TIME_TIMESTR_MAXLEN"
    "effective_format ASDF_TIME_FORMAT_ISO (bytes_of ''2024-01-02 03:04:05'') = ASDF_TIME_FORMAT_ISO"
    by (simp_all add: short_text_def printable_def bytes_of_def INT_MAX_def ASDF_TIME_TIMESTR_MAXLEN_def effective_format_def)
  have "\<forall>s. point doc_ops s = [46]" by (simp add: point_def doc_ops_def doc_values_def)
  from time_roundtrip [OF doc_laws this fields(1) sizes(1,2) number _ _ _ fields(4), of c_locale "[]" None] sizes(3) tm
  show ?thesis unfolding again by (auto simp: fields(2))
qed

end
