(* ===== verification/Asdf_Block_Handle.thy ===== *)
theory Asdf_Block_Handle
  imports Asdf_File Asdf_Compression Asdf_Software
begin

text \<open>
  The handle of a block (\<^verbatim>\<open>src/block.c\<close>): a view onto a block of a file, or a block that is being built. A
  handle points to the file it belongs to, or to none; its errors go to the context of the file, or else to the
  global one. Both are in the state the operations pass on. The data a handle points to is its bytes; the memory
  map it was opened with is known by its address, or by its offset in the memory of the stream.
\<close>

record 'u asdf_block =
  bk_file :: bool
  bk_info :: asdf_block_info
  bk_data :: "bytes option"
  bk_addr :: nat
  bk_should_close :: bool
  bk_avail_size :: nat
  bk_compression :: "bytes option"
  bk_comp_state :: "'u comp_state option"
  bk_detached :: bool

record block_world =
  bw_file :: asdf_file
  bw_global :: asdf_context

text \<open>The system, the compressors, and what starting the thread of the lazy mode returns.\<close>

record 'u block_env =
  be_os :: os_env
  be_system :: comp_system
  be_compressors :: "'u compressor_map"
  be_start_lazy :: "'u comp_state \<Rightarrow> int"

definition block_ctx :: "bool \<Rightarrow> block_world \<Rightarrow> asdf_context" where
  "block_ctx bound w = (if bound then af_ctx (bw_file w) else bw_global w)"

definition set_block_ctx :: "bool \<Rightarrow> asdf_context \<Rightarrow> block_world \<Rightarrow> block_world" where
  "set_block_ctx bound ctx w =
     (if bound then w\<lparr>bw_file := (bw_file w)\<lparr>af_ctx := ctx\<rparr>\<rparr> else w\<lparr>bw_global := ctx\<rparr>)"

definition block_oom :: "bool \<Rightarrow> block_world \<Rightarrow> block_world" where
  "block_oom bound w = set_block_ctx bound (asdf_context_error_oom (block_ctx bound w)) w"

definition block_error :: "bool \<Rightarrow> asdf_error_code \<Rightarrow> string list \<Rightarrow> block_world \<Rightarrow> block_world option" where
  "block_error bound code args w =
     map_option (\<lambda>ctx. set_block_ctx bound ctx w) (asdf_context_error_common (block_ctx bound w) code args)"

definition block_alloc :: "bool \<Rightarrow> block_world \<Rightarrow> bool \<times> block_world" where
  "block_alloc bound w = (let (ok, ctx) = ctx_alloc (block_ctx bound w) in (ok, set_block_ctx bound ctx w))"

definition text_of :: "bytes \<Rightarrow> string" where
  "text_of bs = map (\<lambda>b. char_of (unat b)) bs"

definition zero_block :: "'u asdf_block" where
  "zero_block = \<lparr>bk_file = False, bk_info = zero_block_info, bk_data = None, bk_addr = 0, bk_should_close = False,
     bk_avail_size = 0, bk_compression = None, bk_comp_state = None, bk_detached = False\<rparr>"

section \<open>Opening\<close>

definition asdf_block_open ::
  "parser_env \<Rightarrow> bool \<Rightarrow> nat \<Rightarrow> block_world \<Rightarrow> ('u asdf_block option \<times> block_world) option" where
  "asdf_block_open penv has_file index w =
     (if \<not> has_file then Some (None, w)
      else do {
        (n_blocks, f) \<leftarrow> asdf_block_count penv (bw_file w);
        let w = w\<lparr>bw_file := f\<rparr>;
        if index \<ge> n_blocks then Some (None, w)
        else
          let (ok, w) = block_alloc True w in
          Some (if \<not> ok then (None, block_oom True w)
                else (Some (zero_block\<lparr>bk_file := True,
                                       bk_info := (af_blocks (bw_file w) ! index)\<lparr>data_owned := False\<rparr>\<rparr>), w))
      })"

section \<open>Building a block\<close>

definition asdf_block_data_alloc ::
  "nat \<Rightarrow> 'u asdf_block option \<Rightarrow> block_world \<Rightarrow> bytes option \<times> 'u asdf_block option \<times> block_world" where
  "asdf_block_data_alloc sz block w =
     (case block of
        None \<Rightarrow> (None, None, w)
      | Some b \<Rightarrow>
          let info = bk_info b in
          if bi_data info \<noteq> None \<and> data_owned info \<and> data_mmapped info \<and> \<not> data_is_compressed info \<and>
             bi_data_size info = sz
          then (bi_data info, Some b, w)
          else
            let info = asdf_block_info_deinit info;
                (ok, w) = block_alloc (bk_file b) w
            in
            if \<not> ok then (None, Some (b\<lparr>bk_info := info\<rparr>), block_oom (bk_file b) w)
            else
              let buf = replicate (if sz \<noteq> 0 then sz else 1) 0 in
              (Some buf,
               Some (b\<lparr>bk_info := info\<lparr>bi_data := Some buf, bi_data_size := sz, data_owned := True,
                                         data_mmapped := True, data_is_compressed := False,
                                         bi_header := (bi_header info)\<lparr>data_size := of_nat sz,
                                                                        used_size := of_nat sz\<rparr>\<rparr>\<rparr>), w))"

text \<open>The data may be null, which leaves the block without any.\<close>

definition asdf_block_data_set :: "bytes option \<Rightarrow> nat \<Rightarrow> 'u asdf_block option \<Rightarrow> int \<times> 'u asdf_block option" where
  "asdf_block_data_set data sz block =
     (case block of
        None \<Rightarrow> (- 1, None)
      | Some b \<Rightarrow>
          let info = asdf_block_info_deinit (bk_info b) in
          (0, Some (b\<lparr>bk_info := info\<lparr>bi_data := data, bi_data_size := sz, data_owned := False,
                                      data_is_compressed := False,
                                      bi_header := (bi_header info)\<lparr>data_size := of_nat sz,
                                                                     used_size := of_nat sz\<rparr>\<rparr>\<rparr>)))"

text \<open>Four bytes are copied from a name, with its terminating zero.\<close>

definition asdf_block_data_set_compressed ::
  "bytes option \<Rightarrow> nat \<Rightarrow> u64 \<Rightarrow> bytes option \<Rightarrow> 'u asdf_block option \<Rightarrow> (int \<times> 'u asdf_block option) option" where
  "asdf_block_data_set_compressed data sz dsize name block =
     (case block of
        None \<Rightarrow> Some (- 1, None)
      | Some b \<Rightarrow> do {
          let info = asdf_block_info_deinit (bk_info b);
          field \<leftarrow> comp_field (if name = Some [] then None else name);
          Some (0, Some (b\<lparr>bk_info := info\<lparr>bi_data := data, bi_data_size := sz, data_owned := False,
                                           data_is_compressed := True, write_compressor := None,
                                           bi_header := (bi_header info)\<lparr>data_size := dsize, used_size := of_nat sz,
                                                                          compression := field\<rparr>\<rparr>\<rparr>))
        })"

section \<open>Closing\<close>

text \<open>\<^verbatim>\<open>open_mem\<close> and \<^verbatim>\<open>close_mem\<close> of the stream of the parser, which shares the context of the file.\<close>

definition block_open_mem ::
  "os_env \<Rightarrow> int \<Rightarrow> nat \<Rightarrow> asdf_file \<Rightarrow> ((bytes \<times> nat) option \<times> asdf_file) option" where
  "block_open_mem os offset sz f = do {
     p \<leftarrow> af_parser f;
     let s = (p_stream p)\<lparr>s_ctx := af_ctx f\<rparr>;
     (r, s) \<leftarrow> (case userdata s of
        FileData d \<Rightarrow> do {
          (r, s, d) \<leftarrow> file_open_mem os s d offset sz;
          Some (r, s\<lparr>userdata := FileData d\<rparr>)
        }
      | MemData d \<Rightarrow> do {
          r \<leftarrow> mem_open_mem d offset sz;
          Some (map_option (\<lambda>bs. (bs, size_of_off offset)) r, s)
        });
     Some (r, f\<lparr>af_parser := Some (p\<lparr>p_stream := s\<rparr>), af_ctx := s_ctx s\<rparr>)
   }"

definition block_close_mem :: "os_env \<Rightarrow> nat \<Rightarrow> asdf_file \<Rightarrow> asdf_file option" where
  "block_close_mem os addr f = do {
     p \<leftarrow> af_parser f;
     let s = (p_stream p)\<lparr>s_ctx := af_ctx f\<rparr>;
     let s = (case userdata s of
        FileData d \<Rightarrow> let (_, _, s, d) = file_close_mem os s d (Some addr) in s\<lparr>userdata := FileData d\<rparr>
      | MemData d \<Rightarrow> snd (mem_close_mem s d (int addr)));
     Some (f\<lparr>af_parser := Some (p\<lparr>p_stream := s\<rparr>), af_ctx := s_ctx s\<rparr>)
   }"

text \<open>The handle is gone afterwards.\<close>

definition asdf_block_close :: "'u block_env \<Rightarrow> 'u asdf_block option \<Rightarrow> block_world \<Rightarrow> block_world option" where
  "asdf_block_close env block w =
     (case block of
        None \<Rightarrow> Some w
      | Some b \<Rightarrow> do {
          asdf_block_comp_close (bk_comp_state b);
          (if bk_should_close b \<and> bk_data b \<noteq> None then
             if \<not> bk_file b then None
             else do { f \<leftarrow> block_close_mem (be_os env) (bk_addr b) (bw_file w); Some (w\<lparr>bw_file := f\<rparr>) }
           else Some w)
        })"

definition asdf_block_destroy :: "'u block_env \<Rightarrow> 'u asdf_block option \<Rightarrow> block_world \<Rightarrow> block_world option" where
  "asdf_block_destroy env block w =
     (case block of
        None \<Rightarrow> Some w
      | Some b \<Rightarrow> asdf_block_close env
          (Some (if bk_detached b then b\<lparr>bk_info := asdf_block_info_deinit (bk_info b)\<rparr> else b)) w)"

definition asdf_file_block_create ::
  "'u block_env \<Rightarrow> bool \<Rightarrow> bytes option \<Rightarrow> nat \<Rightarrow> block_world \<Rightarrow> ('u asdf_block option \<times> block_world) option" where
  "asdf_file_block_create env has_file data sz w =
     (let (ok, w) = block_alloc has_file w in
      if \<not> ok then Some (None, block_oom has_file w)
      else
        let info = zero_block_info\<lparr>bi_index := SIZE_MAX,
              bi_header := (bi_header zero_block_info)\<lparr>header_size := of_nat ASDF_BLOCK_HEADER_SIZE\<rparr>,
              header_pos := - 1, data_pos := - 1\<rparr>;
            block = Some (zero_block\<lparr>bk_file := has_file, bk_detached := True, bk_info := info\<rparr>)
        in
        if data \<noteq> None then Some (snd (asdf_block_data_set data sz block), w)
        else if sz > 0 then
          (case asdf_block_data_alloc sz block w of
             (None, block, w) \<Rightarrow> do { w \<leftarrow> asdf_block_destroy env block w; Some (None, w) }
           | (Some _, block, w) \<Rightarrow> Some (block, w))
        else Some (block, w))"

definition asdf_block_create ::
  "'u block_env \<Rightarrow> bytes option \<Rightarrow> nat \<Rightarrow> block_world \<Rightarrow> ('u asdf_block option \<times> block_world) option" where
  "asdf_block_create env data sz w = asdf_file_block_create env False data sz w"

section \<open>Compression\<close>

definition asdf_block_info_compression_set ::
  "'u block_env \<Rightarrow> bool \<Rightarrow> asdf_block_info option \<Rightarrow> bytes \<Rightarrow> block_world \<Rightarrow>
   (int \<times> asdf_block_info option \<times> block_world) option" where
  "asdf_block_info_compression_set env has_file info name w =
     (case info of
        None \<Rightarrow> Some (- 1, None, w)
      | Some i \<Rightarrow>
          (case asdf_compressor_get (be_compressors env) name of
             None \<Rightarrow> do {
               w \<leftarrow> block_error has_file ASDF_ERR_UNKNOWN_COMPRESSION [text_of name] w;
               Some (- 1, info, w)
             }
           | Some cz \<Rightarrow> Some (0, Some (i\<lparr>write_compressor := Some (cp_compression cz)\<rparr>), w)))"

text \<open>A name that is not found is kept by the handle; without memory for it the block counts as not compressed.\<close>

definition asdf_block_compression_orig ::
  "'u asdf_block option \<Rightarrow> block_world \<Rightarrow> (bytes \<times> 'u asdf_block option \<times> block_world) option" where
  "asdf_block_compression_orig block w =
     (case block of
        None \<Rightarrow> Some ([], None, w)
      | Some b \<Rightarrow>
          (case bk_compression b of
             Some name \<Rightarrow> Some (name, block, w)
           | None \<Rightarrow> do {
               name \<leftarrow> strndup (compression (bi_header (bk_info b))) 4;
               let (ok, w) = block_alloc (bk_file b) w;
               Some (if ok then (name, Some (b\<lparr>bk_compression := Some name\<rparr>), w)
                     else ([], block, block_oom (bk_file b) w))
             }))"

definition asdf_block_compression ::
  "'u asdf_block option \<Rightarrow> block_world \<Rightarrow> (bytes \<times> 'u asdf_block option \<times> block_world) option" where
  "asdf_block_compression block w =
     (case block of
        None \<Rightarrow> Some ([], None, w)
      | Some b \<Rightarrow>
          (case write_compressor (bk_info b) of
             Some name \<Rightarrow> Some (name, block, w)
           | None \<Rightarrow> asdf_block_compression_orig block w))"

text \<open>What is set in an appended block is set in the list of the file too.\<close>

definition update_file_block ::
  "'u asdf_block \<Rightarrow> (asdf_block_info \<Rightarrow> asdf_block_info) \<Rightarrow> block_world \<Rightarrow> block_world option" where
  "update_file_block b upd w =
     (if \<not> bk_detached b \<and> bi_index (bk_info b) \<noteq> SIZE_MAX then
        if \<not> bk_file b \<or> bi_index (bk_info b) \<ge> length (af_blocks (bw_file w)) then None
        else
          let i = bi_index (bk_info b); bs = af_blocks (bw_file w) in
          Some (w\<lparr>bw_file := (bw_file w)\<lparr>af_blocks := bs[i := upd (bs ! i)]\<rparr>\<rparr>)
      else Some w)"

definition asdf_block_compression_set ::
  "'u block_env \<Rightarrow> bytes \<Rightarrow> 'u asdf_block option \<Rightarrow> block_world \<Rightarrow> (int \<times> 'u asdf_block option \<times> block_world) option" where
  "asdf_block_compression_set env name block w =
     (case block of
        None \<Rightarrow> Some (- 1, None, w)
      | Some b \<Rightarrow> do {
          (ret, info, w) \<leftarrow> asdf_block_info_compression_set env (bk_file b) (Some (bk_info b)) name w;
          info \<leftarrow> info;
          let b = b\<lparr>bk_info := info\<rparr>;
          if ret \<noteq> 0 then Some (ret, Some b, w)
          else do {
            w \<leftarrow> update_file_block b (\<lambda>fb. fb\<lparr>write_compressor := write_compressor info\<rparr>) w;
            Some (0, Some b, w)
          }
        })"

definition asdf_block_allocated_size_set ::
  "u64 \<Rightarrow> 'u asdf_block option \<Rightarrow> block_world \<Rightarrow> (int \<times> 'u asdf_block option \<times> block_world) option" where
  "asdf_block_allocated_size_set n block w =
     (case block of
        None \<Rightarrow> Some (- 1, None, w)
      | Some b \<Rightarrow> do {
          let set_size = (\<lambda>i. i\<lparr>bi_header := (bi_header i)\<lparr>allocated_size := n\<rparr>\<rparr>);
          let b = b\<lparr>bk_info := set_size (bk_info b)\<rparr>;
          w \<leftarrow> update_file_block b set_size w;
          Some (0, Some b, w)
        })"

section \<open>Appending\<close>

text \<open>Whether it was appended, and the handle. The place in the list is an allocation.\<close>

definition asdf_block_append ::
  "parser_env \<Rightarrow> bool \<Rightarrow> 'u asdf_block option \<Rightarrow> block_world \<Rightarrow> (bool \<times> 'u asdf_block option \<times> block_world) option" where
  "asdf_block_append penv has_file block w =
     (case block of
        None \<Rightarrow> Some (False, None, w)
      | Some b \<Rightarrow>
          if \<not> has_file then Some (False, block, w)
          else if af_mode (bw_file w) = ASDF_FILE_MODE_READ_ONLY then do {
            w \<leftarrow> block_error True ASDF_ERR_STREAM_READ_ONLY [] w;
            Some (False, block, w)
          }
          else if \<not> bk_detached b then Some (False, block, w)
          else do {
            (n_blocks, f) \<leftarrow> asdf_block_count penv (bw_file w);
            let w = w\<lparr>bw_file := f\<rparr>;
            if n_blocks \<ge> SSIZE_MAX then do {
              w \<leftarrow> block_error True ASDF_ERR_OVER_LIMIT [''block count exceeds maximum''] w;
              Some (False, block, w)
            }
            else
              let b = b\<lparr>bk_file := True, bk_info := (bk_info b)\<lparr>bi_index := n_blocks\<rparr>\<rparr>;
                  (ok, w) = block_alloc True w
              in
              Some (if \<not> ok then (False, Some b, block_oom True w)
                    else (True, Some (b\<lparr>bk_info := (bk_info b)\<lparr>data_owned := False\<rparr>, bk_detached := False\<rparr>),
                          w\<lparr>bw_file := (bw_file w)\<lparr>af_blocks := af_blocks (bw_file w) @ [bk_info b]\<rparr>\<rparr>))
          })"

section \<open>The data of a block\<close>

definition asdf_block_data_size :: "'u asdf_block \<Rightarrow> nat" where
  "asdf_block_data_size b = unat (data_size (bi_header (bk_info b)))"

text \<open>Opening the compressed data of a handle, with what it reports. A compressor that exists needs the
  configuration of the file. \<open>h\<close> is for the allocations of the compressor.\<close>

definition block_comp_open ::
  "'u block_env \<Rightarrow> heap \<Rightarrow> 'u asdf_block \<Rightarrow> block_world \<Rightarrow> (int \<times> 'u asdf_block \<times> block_world) option" where
  "block_comp_open env h b w = do {
     (name, block, w) \<leftarrow> asdf_block_compression_orig (Some b) w;
     b \<leftarrow> block;
     if name \<noteq> [] \<and> \<not> bk_file b \<and> asdf_compressor_get (be_compressors env) name \<noteq> None then None
     else do {
       r \<leftarrow> asdf_block_comp_open (be_system env) (be_compressors env) (be_start_lazy env) h
             (af_config (bw_file w)) name
             (take (bk_avail_size b) (case bk_data b of None \<Rightarrow> [] | Some bs \<Rightarrow> bs)) (asdf_block_data_size b);
       (case r of
          Inl (Unknown_compression name) \<Rightarrow> do {
            w \<leftarrow> block_error (bk_file b) ASDF_ERR_UNKNOWN_COMPRESSION [text_of name] w;
            Some (- 1, b, w)
          }
        | Inl Out_of_memory \<Rightarrow> Some (- 1, b, block_oom (bk_file b) w)
        | Inl Compressor_init_failed \<Rightarrow> do {
            w \<leftarrow> block_error (bk_file b) ASDF_ERR_COMPRESSION_FAILED [''failed to initialize compressor''] w;
            Some (- 1, b, w)
          }
        | Inl (Decompressor_failed ret) \<Rightarrow> Some (ret, b, w)
        | Inr None \<Rightarrow> Some (0, b, w)
        | Inr (Some state) \<Rightarrow> Some (0, b\<lparr>bk_comp_state := Some state\<rparr>, w))
     }
   }"

text \<open>The data and its size, which is not told when the data could not be opened.\<close>

type_synonym 'u block_data = "bytes option \<times> nat option \<times> 'u asdf_block option \<times> block_world"

definition decompressed :: "'u asdf_block \<Rightarrow> block_world \<Rightarrow> 'u block_data option" where
  "decompressed b w =
     map_option (\<lambda>state. (Some (cs_dest state), Some (cs_dest_size state), Some b, w)) (bk_comp_state b)"

definition asdf_block_data_impl ::
  "'u block_env \<Rightarrow> heap \<Rightarrow> bool \<Rightarrow> 'u asdf_block option \<Rightarrow> block_world \<Rightarrow> 'u block_data option" where
  "asdf_block_data_impl env h decompress block w =
     (case block of
        None \<Rightarrow> Some (None, None, None, w)
      | Some b \<Rightarrow>
          let info = bk_info b in
          if bk_data b \<noteq> None \<and> bk_should_close b then
            if \<not> decompress then Some (bk_data b, Some (bk_avail_size b), Some b, w)
            else do {
              (ret, b, w) \<leftarrow> (if bk_comp_state b = None then block_comp_open env h b w else Some (0, b, w));
              if ret \<noteq> 0 then Some (None, None, Some b, w)
              else (case bk_comp_state b of
                  Some _ \<Rightarrow> decompressed b w
                | None \<Rightarrow> Some (bk_data b, Some (bk_avail_size b), Some b, w))
            }
          else if bi_data info \<noteq> None then
            if \<not> (decompress \<and> data_is_compressed info)
            then Some (bi_data info, Some (bi_data_size info), Some b, w)
            else do {
              (ret, b, w) \<leftarrow>
                (if bk_comp_state b = None
                 then block_comp_open env h
                        (b\<lparr>bk_data := bi_data info, bk_avail_size := bi_data_size info, bk_should_close := False\<rparr>) w
                 else Some (0, b, w));
              if ret \<noteq> 0 then Some (None, None, Some b, w)
              else (case bk_comp_state b of
                  Some _ \<Rightarrow> decompressed b w
                | None \<Rightarrow> Some (bi_data info, Some (bi_data_size info), Some b, w))
            }
          else
            (case (if bk_file b then af_parser (bw_file w) else None) of
               None \<Rightarrow> Some (None, Some 0, Some b, w)
             | Some p \<Rightarrow>
                 if data_pos info < 0 \<or> \<not> p_has_stream p then Some (None, Some 0, Some b, w)
                 else do {
                   (r, f) \<leftarrow> block_open_mem (be_os env) (data_pos info) (unat (used_size (bi_header info))) (bw_file w);
                   let w = w\<lparr>bw_file := f\<rparr>;
                   let avail = (case r of None \<Rightarrow> 0 | Some (bs, _) \<Rightarrow> length bs);
                   let b = b\<lparr>bk_data := map_option fst r, bk_addr := (case r of None \<Rightarrow> 0 | Some (_, a) \<Rightarrow> a),
                             bk_should_close := True, bk_avail_size := avail\<rparr>;
                   (ret, b, w) \<leftarrow> (if decompress then block_comp_open env h b w else Some (0, b, w));
                   if ret \<noteq> 0 then Some (None, None, Some b, w)
                   else if decompress \<and> bk_comp_state b \<noteq> None then decompressed b w
                   else Some (bk_data b, Some avail, Some b, w)
                 }))"

definition asdf_block_data ::
  "'u block_env \<Rightarrow> heap \<Rightarrow> 'u asdf_block option \<Rightarrow> block_world \<Rightarrow> 'u block_data option" where
  "asdf_block_data env h block w = asdf_block_data_impl env h True block w"

definition asdf_block_data_raw ::
  "'u block_env \<Rightarrow> heap \<Rightarrow> 'u asdf_block option \<Rightarrow> block_world \<Rightarrow> 'u block_data option" where
  "asdf_block_data_raw env h block w = asdf_block_data_impl env h False block w"

section \<open>The checksum\<close>

definition asdf_block_checksum :: "'u asdf_block option \<Rightarrow> bytes option" where
  "asdf_block_checksum block = map_option (\<lambda>b. checksum (bi_header (bk_info b))) block"

definition ASDF_PYTHON_CHECKSUM_BUG_MAJOR_VERSION :: nat where
  "ASDF_PYTHON_CHECKSUM_BUG_MAJOR_VERSION = 5"

text \<open>The name and the version are read, the version only if the name is that of the Python library.\<close>

definition asdf_library_has_checksum_bug :: "asdf_software option \<Rightarrow> bool option" where
  "asdf_library_has_checksum_bug software = do {
     s \<leftarrow> software;
     name \<leftarrow> sw_name s;
     if name \<noteq> bytes_of ''asdf'' then Some False
     else do {
       v \<leftarrow> sw_version s;
       Some (unat (major v) \<le> ASDF_PYTHON_CHECKSUM_BUG_MAJOR_VERSION)
     }
   }"

text \<open>\<open>meta\<close> is what reading the metadata of the file returns, with its software; \<open>md5\<close> the digest of bytes.
  The result is the answer and the digest, if there is one.\<close>

definition asdf_block_checksum_verify ::
  "'u block_env \<Rightarrow> (bytes \<Rightarrow> bytes) \<Rightarrow> asdf_value_err \<times> asdf_software option option \<Rightarrow> heap \<Rightarrow>
   'u asdf_block option \<Rightarrow> block_world \<Rightarrow> ((bool \<times> bytes option) \<times> 'u asdf_block option \<times> block_world) option" where
  "asdf_block_checksum_verify env md5 meta h block w =
     (case block of
        None \<Rightarrow> Some ((False, None), None, w)
      | Some _ \<Rightarrow> do {
          (name, block, w) \<leftarrow> asdf_block_compression_orig block w;
          bug \<leftarrow> (if name = [] then Some False
                 else (case meta of
                     (err, Some software) \<Rightarrow> if err = ASDF_VALUE_OK then asdf_library_has_checksum_bug software else Some False
                   | _ \<Rightarrow> Some False));
          (data, sz, block, w) \<leftarrow> (if bug then asdf_block_data env h block w else asdf_block_data_raw env h block w);
          b \<leftarrow> block;
          (case data of
             None \<Rightarrow> Some ((False, None), block, w)
           | Some bs \<Rightarrow> do {
               n \<leftarrow> sz;
               src \<leftarrow> mem_read bs 0 n;
               Some ((checksum (bi_header (bk_info b)) = md5 src, Some (md5 src)), block, w)
             })
        })"

end
