(* ===== verification/Asdf_Block_Handle_Laws.thy ===== *)
theory Asdf_Block_Handle_Laws
  imports Asdf_Block_Handle Asdf_Compression_Laws Asdf_Emit_File
begin

text \<open>
  What holds of handles of blocks: who owns the data of a block before and after it is appended, and that what was
  put in is what is read through a handle. Where a theorem says so, allocations succeed.
\<close>

section \<open>Counting blocks\<close>

lemma file_iterate_keeps:
  "file_iterate env f = Some (ev, f') \<Longrightarrow> af_stream f' = af_stream f \<and> af_mode f' = af_mode f \<and> af_config f' = af_config f"
  by (auto simp: file_iterate_def split: bind_splits)

lemma finish_parse_keeps:
  assumes "loop_opt (finish_parse_step env) f = Some f'"
  shows "(af_stream f', af_mode f', af_config f') = (af_stream f, af_mode f, af_config f) \<and>
    (\<exists>p. af_parser f' = Some p \<and> p_done p)"
proof (rule loop_opt_invariant [where I = "\<lambda>g. (af_stream g, af_mode g, af_config g) = (af_stream f, af_mode f, af_config f)",
      OF _ _ _ assms])
  fix g g' assume "(af_stream g, af_mode g, af_config g) = (af_stream f, af_mode f, af_config f)"
    and "finish_parse_step env g = Some (Inl g')"
  then show "(af_stream g', af_mode g', af_config g') = (af_stream f, af_mode f, af_config f)"
    by (auto simp: finish_parse_step_def dest!: file_iterate_keeps split: option.splits if_splits bind_splits)
next
  fix g g' assume "(af_stream g, af_mode g, af_config g) = (af_stream f, af_mode f, af_config f)"
    and "finish_parse_step env g = Some (Inr g')"
  then show "(af_stream g', af_mode g', af_config g') = (af_stream f, af_mode f, af_config f) \<and>
    (\<exists>p. af_parser g' = Some p \<and> p_done p)"
    by (auto simp: finish_parse_step_def split: option.splits if_splits bind_splits)
qed simp

text \<open>Once counted, the blocks are those of the list, whatever is appended to it.\<close>

definition counted :: "asdf_file \<Rightarrow> bool" where
  "counted f \<longleftrightarrow> af_stream f = None \<or> (\<exists>p. af_parser f = Some p \<and> p_done p)"

lemma counted_count: "counted f \<Longrightarrow> asdf_block_count env f = Some (length (af_blocks f), f)"
  by (auto simp: counted_def asdf_block_count_def asdf_file_parser_def split: option.splits)

lemma file_parser_keeps:
  "asdf_file_parser f = Some (p, f') \<Longrightarrow>
   af_stream f' = af_stream f \<and> af_mode f' = af_mode f \<and> af_config f' = af_config f \<and>
   (if af_stream f = None then p = None else p \<noteq> None \<and> af_parser f' = p)"
  by (auto simp: asdf_file_parser_def Let_def eq_commute [of "Some _" "af_parser _"] split: option.splits bind_splits)

lemma count_counted:
  assumes "asdf_block_count env f = Some (n, f')"
  shows "counted f' \<and> n = length (af_blocks f') \<and> af_mode f' = af_mode f \<and> af_config f' = af_config f"
  using assms
  by (auto simp: asdf_block_count_def counted_def
      dest!: finish_parse_keeps file_parser_keeps split: option.splits if_splits bind_splits)

lemma counted_update [simp]:
  "counted (f\<lparr>af_blocks := bs\<rparr>) = counted f" "counted (f\<lparr>af_ctx := ctx\<rparr>) = counted f"
  by (simp_all add: counted_def)

section \<open>Building, appending, reading\<close>

lemma alloc_nil [simp]: "ctx_heap ctx = [] \<Longrightarrow> ctx_alloc ctx = (True, ctx)"
  by (cases ctx) (simp add: ctx_alloc_def)

lemma file_ctx_same [simp]: "f\<lparr>af_ctx := af_ctx f\<rparr> = f" by (cases f) simp

lemma block_alloc_file [simp]: "ctx_heap (af_ctx (bw_file w)) = [] \<Longrightarrow> block_alloc True w = (True, w)"
  by (cases w) (simp add: block_alloc_def block_ctx_def set_block_ctx_def)

lemma block_alloc_global [simp]: "ctx_heap (bw_global w) = [] \<Longrightarrow> block_alloc False w = (True, w)"
  by (cases w) (simp add: block_alloc_def block_ctx_def set_block_ctx_def)

text \<open>The description of a new block, and what a handle that is opened on a block is.\<close>

definition fresh_info :: asdf_block_info where
  "fresh_info = zero_block_info\<lparr>bi_index := SIZE_MAX,
     bi_header := (bi_header zero_block_info)\<lparr>header_size := of_nat ASDF_BLOCK_HEADER_SIZE\<rparr>,
     header_pos := - 1, data_pos := - 1\<rparr>"

definition fresh_block :: "'u asdf_block" where
  "fresh_block = zero_block\<lparr>bk_detached := True, bk_info := fresh_info\<rparr>"

definition view_of :: "asdf_block_info \<Rightarrow> 'u asdf_block" where
  "view_of info = zero_block\<lparr>bk_file := True, bk_info := info\<lparr>data_owned := False\<rparr>\<rparr>"

lemma create_empty: "ctx_heap (bw_global w) = [] \<Longrightarrow> asdf_block_create env None 0 w = Some (Some fresh_block, w)"
  by (simp add: asdf_block_create_def asdf_file_block_create_def fresh_block_def fresh_info_def zero_block_def)

lemma append_detached:
  assumes "bk_detached b" and "af_mode (bw_file w) \<noteq> ASDF_FILE_MODE_READ_ONLY"
    and "asdf_block_count penv (bw_file w) = Some (n, f)" and "n < SSIZE_MAX" and "ctx_heap (af_ctx f) = []"
  shows "asdf_block_append penv True (Some b) w =
    Some (True, Some (b\<lparr>bk_file := True, bk_info := (bk_info b)\<lparr>bi_index := n, data_owned := False\<rparr>, bk_detached := False\<rparr>),
          w\<lparr>bw_file := f\<lparr>af_blocks := af_blocks f @ [(bk_info b)\<lparr>bi_index := n\<rparr>]\<rparr>\<rparr>)"
  using assms by (simp add: asdf_block_append_def Let_def)

lemma append_appended:
  "\<not> bk_detached b \<Longrightarrow> af_mode (bw_file w) \<noteq> ASDF_FILE_MODE_READ_ONLY \<Longrightarrow>
   asdf_block_append penv True (Some b) w = Some (False, Some b, w)"
  by (simp add: asdf_block_append_def)

lemma open_counted:
  assumes "counted (bw_file w)" and "n < length (af_blocks (bw_file w))" and "ctx_heap (af_ctx (bw_file w)) = []"
  shows "asdf_block_open penv True n w = Some (Some (view_of (af_blocks (bw_file w) ! n)), w)"
  using assms by (cases w) (simp add: asdf_block_open_def counted_count view_of_def Let_def)

text \<open>A block that is put together and appended is in the list of the file, and a handle that is opened on it
  has the same description, but does not own the data.\<close>

lemma append_open:
  fixes b :: "'u asdf_block"
  assumes "bk_detached b" and "af_mode (bw_file w) \<noteq> ASDF_FILE_MODE_READ_ONLY"
    and "asdf_block_count penv (bw_file w) = Some (n, f)" and "n < SSIZE_MAX" and "ctx_heap (af_ctx f) = []"
  shows "\<exists>v w'. asdf_block_append penv True (Some b) w = Some (True, Some v, w') \<and>
    bw_global w' = bw_global w \<and> bw_file w' = f\<lparr>af_blocks := af_blocks f @ [(bk_info b)\<lparr>bi_index := n\<rparr>]\<rparr> \<and>
    asdf_block_append penv True (Some v) w' = Some (False, Some v, w') \<and>
    asdf_block_open penv True n w' = Some (Some (view_of ((bk_info b)\<lparr>bi_index := n\<rparr>) :: 'u asdf_block), w')"
proof -
  note c = count_counted [OF assms(3)]
  show ?thesis
    using assms(2,5) c by (simp add: append_detached [OF assms] append_appended open_counted nth_append)
qed

text \<open>What is set is the description of the block, and the name of its compression.\<close>

lemma set_compressed:
  assumes "comp_field (Some name) = Some field" and "name \<noteq> []"
  shows "asdf_block_data_set_compressed (Some z) n d (Some name) (Some b) =
    Some (0, Some (b\<lparr>bk_info := (asdf_block_info_deinit (bk_info b))\<lparr>bi_data := Some z, bi_data_size := n, data_owned := False,
        data_is_compressed := True, write_compressor := None,
        bi_header := (bi_header (asdf_block_info_deinit (bk_info b)))\<lparr>data_size := d, used_size := of_nat n,
                                                                       compression := field\<rparr>\<rparr>\<rparr>))"
  using assms by (simp add: asdf_block_data_set_compressed_def Let_def)

lemma lz4_field: "comp_field (Some (bytes_of ''lz4'')) = Some (bytes_of ''lz4'' @ [0])"
  "strndup (bytes_of ''lz4'' @ [0]) 4 = Some (bytes_of ''lz4'')"
  by (simp_all add: comp_field_def mem_read_def bytes_of_def strndup_def)

text \<open>A compressed block that is read through a handle on its description.\<close>

lemma read_lz4:
  fixes env :: "lz4_userdata block_env"
  assumes lib: "lz4_ok lib" "content \<noteq> []" "length content \<le> ASDF_OFF_MAX" "asdf_compressor_lz4_comp lib [] content = ((0, Some z), [])"
    and env: "eager_system (be_system env) (af_config (bw_file w))"
      "be_compressors env = asdf_compressor_register Map.empty (lz4_compressor lib)"
    and info: "bi_data info = Some z" "bi_data_size info = length z" "data_is_compressed info"
      "compression (bi_header info) = bytes_of ''lz4'' @ [0]" "data_size (bi_header info) = of_nat (length content)"
    and h: "ctx_heap (af_ctx (bw_file w)) = []"
  shows "\<exists>v w'. asdf_block_data env [] (Some (view_of info)) w = Some (Some content, Some (length content), v, w')"
    and "asdf_block_data_raw env [] (Some (view_of info)) w = Some (Some z, Some (length z), Some (view_of info), w)"
proof -
  have n: "unat (of_nat (length content) :: u64) = length content"
    using lib(3) by (simp add: ASDF_OFF_MAX_def unat_of_nat)
  obtain s where s: "asdf_block_comp_open (be_system env) (be_compressors env) (be_start_lazy env) [] (af_config (bw_file w))
      (bytes_of ''lz4'') z (length content) = Some (Inr (Some s))" "cs_dest s = content" "cs_dest_size s = length content"
    using lz4_opened [OF lib(1-3) env(1) lib(4), of "be_start_lazy env" "[]"] env(2) by auto
  show "\<exists>v w'. asdf_block_data env [] (Some (view_of info)) w = Some (Some content, Some (length content), v, w')"
    using info h n s
    by (simp add: asdf_block_data_def asdf_block_data_impl_def view_of_def zero_block_def block_comp_open_def
        asdf_block_compression_orig_def lz4_field asdf_block_data_size_def decompressed_def Let_def)
  show "asdf_block_data_raw env [] (Some (view_of info)) w = Some (Some z, Some (length z), Some (view_of info), w)"
    using info by (simp add: asdf_block_data_raw_def asdf_block_data_impl_def view_of_def zero_block_def Let_def)
qed

text \<open>C10. A block that is created, given compressed data and appended to a file that is open for writing is read back
  through a handle that is opened on it: the content as it was before it was compressed, or the bytes that were
  given. The file has the block as its next one, and the handle cannot be appended again.\<close>

theorem appended_block_reads_back:
  fixes env :: "lz4_userdata block_env"
  assumes "lz4_ok lib" and "content \<noteq> []" and "length content \<le> ASDF_OFF_MAX"
    and "asdf_compressor_lz4_comp lib [] content = ((0, Some z), [])"
    and "eager_system (be_system env) (af_config (bw_file w))"
    and "be_compressors env = asdf_compressor_register Map.empty (lz4_compressor lib)"
    and "af_mode (bw_file w) \<noteq> ASDF_FILE_MODE_READ_ONLY"
    and "asdf_block_count penv (bw_file w) = Some (n, f)" and "n < SSIZE_MAX"
    and "ctx_heap (bw_global w) = []" and "ctx_heap (af_ctx f) = []"
  shows "\<exists>b w'. do {
       (b, w) \<leftarrow> asdf_block_create env None 0 w;
       (_, b) \<leftarrow> asdf_block_data_set_compressed (Some z) (length z) (of_nat (length content)) (Some (bytes_of ''lz4'')) b;
       asdf_block_append penv True b w
     } = Some (True, Some b, w') \<and>
     length (af_blocks (bw_file w')) = Suc n \<and>
     asdf_block_append penv True (Some b) w' = Some (False, Some b, w') \<and>
     asdf_block_destroy env (Some b) w' = Some w' \<and>
     (\<exists>v w1 v1 w2. asdf_block_open penv True n w' = Some (v, w1) \<and>
       asdf_block_data env [] v w1 = Some (Some content, Some (length content), v1, w2) \<and>
       asdf_block_data_raw env [] v w1 = Some (Some z, Some (length z), v, w1))"
proof -
  define b where "b = (fresh_block :: lz4_userdata asdf_block)\<lparr>bk_info := (asdf_block_info_deinit fresh_info)
    \<lparr>bi_data := Some z, bi_data_size := length z, data_owned := False, data_is_compressed := True, write_compressor := None,
     bi_header := (bi_header (asdf_block_info_deinit fresh_info))\<lparr>data_size := of_nat (length content),
        used_size := of_nat (length z), compression := bytes_of ''lz4'' @ [0]\<rparr>\<rparr>\<rparr>"
  have ne: "bytes_of ''lz4'' \<noteq> []" by (simp add: bytes_of_def)
  have set_data: "asdf_block_data_set_compressed (Some z) (length z) (of_nat (length content)) (Some (bytes_of ''lz4''))
      (Some fresh_block) = Some (0, Some b)"
    by (simp add: set_compressed [OF lz4_field(1) ne] b_def fresh_block_def)
  have b: "bk_detached b" by (simp add: b_def fresh_block_def)
  note c = count_counted [OF assms(8)]
  obtain v w' where v: "asdf_block_append penv True (Some b) w = Some (True, Some v, w')"
      "bw_file w' = f\<lparr>af_blocks := af_blocks f @ [(bk_info b)\<lparr>bi_index := n\<rparr>]\<rparr>"
      "asdf_block_append penv True (Some v) w' = Some (False, Some v, w')"
      "asdf_block_open penv True n w' = Some (Some (view_of ((bk_info b)\<lparr>bi_index := n\<rparr>) :: lz4_userdata asdf_block), w')"
    using append_open [OF b assms(7-9) assms(11)] by blast
  have gone: "asdf_block_destroy env (Some v) w' = Some w'"
    using v(1) append_detached [OF b assms(7-9,11)]
    by (auto simp: asdf_block_destroy_def asdf_block_close_def b_def fresh_block_def zero_block_def asdf_block_comp_close_def)
  have "eager_system (be_system env) (af_config (bw_file w'))" and "ctx_heap (af_ctx (bw_file w')) = []"
    using assms(5,11) c v(2) by simp_all
  then have "\<exists>v1 w2. asdf_block_data env [] (Some (view_of ((bk_info b)\<lparr>bi_index := n\<rparr>))) w' =
        Some (Some content, Some (length content), v1, w2)"
      "asdf_block_data_raw env [] (Some (view_of ((bk_info b)\<lparr>bi_index := n\<rparr>))) w' =
        Some (Some z, Some (length z), Some (view_of ((bk_info b)\<lparr>bi_index := n\<rparr>)), w')"
    using assms(1-4,6) by (auto intro!: read_lz4 simp: b_def)
  moreover have "do {
       (b, w) \<leftarrow> asdf_block_create env None 0 w;
       (_, b) \<leftarrow> asdf_block_data_set_compressed (Some z) (length z) (of_nat (length content)) (Some (bytes_of ''lz4'')) b;
       asdf_block_append penv True b w
     } = Some (True, Some v, w')"
    by (simp add: create_empty [OF assms(10)] set_data v(1))
  moreover have "length (af_blocks (bw_file w')) = Suc n" using v(2) c by simp
  ultimately show ?thesis
    using v(3,4) gone by blast
qed

text \<open>Three bytes, in a file that has one block.\<close>

definition sample_block_env :: "lz4_userdata block_env" where
  "sample_block_env = \<lparr>be_os = sample_os, be_system = small_system,
     be_compressors = asdf_compressor_register Map.empty (lz4_compressor stored_lz4), be_start_lazy = (\<lambda>_. - 1)\<rparr>"

definition sample_world :: block_world where
  "sample_world = \<lparr>bw_file = sample_asdf_file, bw_global = the (fst (asdf_context_create []))\<rparr>"

lemma sample_world_counted:
  "asdf_block_count sample_env (bw_file sample_world) = Some (1, bw_file sample_world)"
  "ctx_heap (bw_global sample_world) = []" "ctx_heap (af_ctx (bw_file sample_world)) = []"
  "af_mode (bw_file sample_world) \<noteq> ASDF_FILE_MODE_READ_ONLY"
  by (simp_all add: counted_count counted_def sample_world_def sample_asdf_file_def asdf_context_create_def)

theorem appended_block_reads_back_witness:
  "\<exists>z b w'. asdf_compressor_lz4_comp stored_lz4 [] [1, 2, 3] = ((0, Some z), []) \<and> do {
       (b, w) \<leftarrow> asdf_block_create sample_block_env None 0 sample_world;
       (_, b) \<leftarrow> asdf_block_data_set_compressed (Some z) (length z) (of_nat (length [1, 2, 3 :: byte])) (Some (bytes_of ''lz4'')) b;
       asdf_block_append sample_env True b w
     } = Some (True, Some b, w') \<and>
     (\<exists>v w1 v1 w2. asdf_block_open sample_env True 1 w' = Some (v, w1) \<and>
       asdf_block_data sample_block_env [] v w1 = Some (Some [1, 2, 3], Some (length [1, 2, 3 :: byte]), v1, w2))"
proof -
  obtain z where z: "asdf_compressor_lz4_comp stored_lz4 [] [1, 2, 3] = ((0, Some z), [])"
    using lz4_comp_ok [OF stored_lz4_ok] by blast
  have s: "eager_system (be_system sample_block_env) (af_config (bw_file sample_world))"
    by (simp add: eager_system_def sample_block_env_def small_system_def)
  have l: "[1, 2, 3 :: byte] \<noteq> []" "length [1, 2, 3 :: byte] \<le> ASDF_OFF_MAX" by (simp_all add: ASDF_OFF_MAX_def)
  have c: "be_compressors sample_block_env = asdf_compressor_register Map.empty (lz4_compressor stored_lz4)"
    by (simp add: sample_block_env_def)
  have n: "1 < SSIZE_MAX" by (simp add: SSIZE_MAX_def)
  show ?thesis
    using appended_block_reads_back [OF stored_lz4_ok l z s c sample_world_counted(4,1) n sample_world_counted(2,3)] z by blast
qed

section \<open>Where handles do not do what they are meant to\<close>

text \<open>The name of the compression is kept when it was asked for, also when other data is set after: the compressed
  bytes are then returned as the content.\<close>

theorem stale_compression_name:
  assumes "ctx_heap (bw_global w) = []"
  shows "\<exists>b w'. do {
       (b, w) \<leftarrow> asdf_block_create env None 0 w;
       (_, b, w) \<leftarrow> asdf_block_compression b w;
       (_, b) \<leftarrow> asdf_block_data_set_compressed (Some z) (length z) n (Some (bytes_of ''lz4'')) b;
       asdf_block_data env h b w
     } = Some (Some z, Some (length z), b, w')"
proof -
  have ne: "bytes_of ''lz4'' \<noteq> []" by (simp add: bytes_of_def)
  show ?thesis
    using assms
    by (simp add: create_empty asdf_block_compression_def asdf_block_compression_orig_def fresh_block_def fresh_info_def
        zero_block_def zero_block_info_def zero_header_def strndup_def set_compressed [OF lz4_field(1) ne]
        asdf_block_info_deinit_def asdf_block_data_def asdf_block_data_impl_def block_comp_open_def asdf_block_comp_open_def
        Let_def)
qed

text \<open>A block that belongs to no file has no configuration for a compressor that is found: its data is asked of a
  null pointer.\<close>

theorem detached_compressed_block_faults:
  assumes "ctx_heap (bw_global w) = []" and "be_compressors env (bytes_of ''lz4'') \<noteq> None"
  shows "do {
       (b, w) \<leftarrow> asdf_block_create env None 0 w;
       (_, b) \<leftarrow> asdf_block_data_set_compressed (Some z) (length z) n (Some (bytes_of ''lz4'')) b;
       asdf_block_data env h b w
     } = None"
proof -
  have ne: "bytes_of ''lz4'' \<noteq> []" by (simp add: bytes_of_def)
  show ?thesis
    using assms ne
    by (simp add: create_empty set_compressed [OF lz4_field(1) ne] fresh_block_def fresh_info_def zero_block_def
        zero_block_info_def zero_header_def asdf_block_info_deinit_def asdf_block_data_def asdf_block_data_impl_def
        block_comp_open_def asdf_block_compression_orig_def lz4_field asdf_compressor_get_def Let_def)
qed

text \<open>Data that is allocated for a block that was appended is neither in the list of the file nor freed with the
  handle.\<close>

theorem data_of_appended_block_lost:
  assumes "\<not> bk_detached b" and "bk_file b" and "bi_data (bk_info b) = None" and "\<not> bk_should_close b" and "bk_comp_state b = None"
    and "ctx_heap (af_ctx (bw_file w)) = []"
  shows "\<exists>buf b'. asdf_block_data_alloc n (Some b) w = (Some buf, Some b', w) \<and> data_owned (bk_info b') \<and>
    asdf_block_close env (Some b') w = Some w \<and> asdf_block_destroy env (Some b') w = Some w"
  using assms by (simp add: asdf_block_data_alloc_def asdf_block_close_def asdf_block_destroy_def
      asdf_block_comp_close_def asdf_block_info_deinit_def Let_def)

text \<open>A name of fewer than three bytes is read beyond its end.\<close>

theorem short_compression_name_overread:
  assumes "name \<noteq> []" and "length name < 3"
  shows "asdf_block_data_set_compressed data n d (Some name) (Some b) = None"
  using assms by (simp add: asdf_block_data_set_compressed_def comp_field_def mem_read_def)

text \<open>Metadata without the software that wrote the file is read through a null pointer.\<close>

theorem missing_library_faults:
  assumes "ctx_heap (block_ctx (bk_file b) w) = []" and "bk_compression b = Some name" and "name \<noteq> []"
  shows "asdf_block_checksum_verify env md5 (ASDF_VALUE_OK, Some None) h (Some b) w = None"
  using assms by (simp add: asdf_block_checksum_verify_def asdf_block_compression_orig_def asdf_library_has_checksum_bug_def)

end
