(* ===== verification/Asdf_Ndarray_Read.thy ===== *)
theory Asdf_Ndarray_Read
  imports Asdf_Datatype_Read Asdf_Ndarray_Tile Asdf_Block_Handle
begin

text \<open>
  Reading an array from the tree (\<^verbatim>\<open>src/core/ndarray.c\<close>): the description of an array whose data is in a block, and
  an array that stands in the tree as nested sequences, whose shape and element type are inferred and whose
  elements are stored when the data is asked for. An alias may make a sequence contain itself, so the recursions
  are \<^verbatim>\<open>partial_function\<close>s.
\<close>

section \<open>The internal part of an array\<close>

datatype asdf_array_storage =
    ASDF_ARRAY_STORAGE_DEFAULT | ASDF_ARRAY_STORAGE_INLINE | ASDF_ARRAY_STORAGE_INTERNAL | ASDF_ARRAY_STORAGE_EXTERNAL

record ('n, 'u) ndarray_internal =
  ni_block :: "'u asdf_block option"
  ni_file :: bool
  ni_write_compression :: "bytes option"
  ni_inline_data :: "'n asdf_value option"
  ni_array_storage :: asdf_array_storage

record ('n, 'u) ndarray_object =
  no_array :: asdf_ndarray
  no_internal :: "('n, 'u) ndarray_internal option"

text \<open>What \<^verbatim>\<open>calloc\<close> makes.\<close>

definition zero_ndarray :: asdf_ndarray where
  "zero_ndarray = \<lparr>nd_source = 0, nd_shape = [], nd_datatype = zero_datatype, nd_byteorder = ASDF_BYTEORDER_DEFAULT,
     nd_offset = 0, nd_strides = []\<rparr>"

definition zero_internal :: "('n, 'u) ndarray_internal" where
  "zero_internal = \<lparr>ni_block = None, ni_file = False, ni_write_compression = None, ni_inline_data = None,
     ni_array_storage = ASDF_ARRAY_STORAGE_DEFAULT\<rparr>"

definition asdf_ndarray_internal ::
  "heap \<Rightarrow> ('n, 'u) ndarray_object option \<Rightarrow> bool \<Rightarrow> ('n, 'u) ndarray_object option \<times> heap" where
  "asdf_ndarray_internal h nd create =
     (case nd of
        None \<Rightarrow> (None, h)
      | Some a \<Rightarrow>
          if no_internal a = None \<and> create then
            let (ok, h) = alloc h in (Some (if ok then a\<lparr>no_internal := Some zero_internal\<rparr> else a), h)
          else (Some a, h))"

definition asdf_ndarray_block :: "('n, 'u) ndarray_object option \<Rightarrow> 'u asdf_block option" where
  "asdf_ndarray_block nd = Option.bind (Option.bind nd no_internal) ni_block"

definition asdf_ndarray_storage :: "('n, 'u) ndarray_object option \<Rightarrow> asdf_array_storage" where
  "asdf_ndarray_storage nd =
     (case Option.bind nd no_internal of None \<Rightarrow> ASDF_ARRAY_STORAGE_INTERNAL | Some i \<Rightarrow> ni_array_storage i)"

definition asdf_ndarray_storage_set ::
  "heap \<Rightarrow> ('n, 'u) ndarray_object option \<Rightarrow> asdf_array_storage \<Rightarrow> ('n, 'u) ndarray_object option \<times> heap" where
  "asdf_ndarray_storage_set h nd storage =
     (if nd = None \<or> storage = ASDF_ARRAY_STORAGE_EXTERNAL then (nd, h)
      else
        let (nd, h) = asdf_ndarray_internal h nd (storage = ASDF_ARRAY_STORAGE_INLINE) in
        (map_option (\<lambda>a. a\<lparr>no_internal := map_option (\<lambda>i. i\<lparr>ni_array_storage := storage\<rparr>) (no_internal a)\<rparr>) nd, h))"

section \<open>Arrays in blocks\<close>

text \<open>The strides, or none when they are not what they should be, which is only logged. The memory for them is not
  cleared, so an iterator that ends early is undefined, as is one that goes on.\<close>

fun strides_loop ::
  "'n value_env \<Rightarrow> 'n node_env \<Rightarrow> heap \<Rightarrow> 'n sequence_iter option \<Rightarrow> nat \<Rightarrow> (u64 list option \<times> heap) option" where
  "strides_loop ve ne h iter n =
     (case (asdf_sequence_iter_next ne h iter, n) of
        ((None, h), 0) \<Rightarrow> Some (Some [], h)
      | ((Some it, h), Suc m) \<Rightarrow> do {
          (err, stride, _, h) \<leftarrow> asdf_value_as_int64 ve h (si_value it);
          if err \<noteq> ASDF_VALUE_OK then Some (None, h)
          else do {
            stride \<leftarrow> stride;
            if stride = 0 then Some (None, h)
            else map_option (\<lambda>(ss, h). (map_option (\<lambda>ss. stride # ss) ss, h)) (strides_loop ve ne h (Some it) m)
          }
        }
      | _ \<Rightarrow> None)"

declare strides_loop.simps [simp del]

definition asdf_ndarray_strides_parse ::
  "'n value_env \<Rightarrow> 'n node_env \<Rightarrow> heap \<Rightarrow> 'n asdf_value \<Rightarrow> nat \<Rightarrow> (asdf_value_err \<times> u64 list \<times> heap) option" where
  "asdf_ndarray_strides_parse ve ne h value ndim =
     (if asdf_sequence_size ne value \<noteq> int ndim then Some (ASDF_VALUE_OK, [], h)
      else
        let (ok, h) = alloc h in
        if \<not> ok then Some (ASDF_VALUE_ERR_OOM, [], h)
        else
          let (iter, h) = asdf_sequence_iter_init_ex ne h value False in
          map_option (\<lambda>(ss, h). (ASDF_VALUE_OK, case ss of None \<Rightarrow> [] | Some ss \<Rightarrow> ss, h)) (strides_loop ve ne h iter ndim))"

definition asdf_ndarray_parse_block_data ::
  "'n value_env \<Rightarrow> 'n node_env \<Rightarrow> heap \<Rightarrow> 'n asdf_value \<Rightarrow> asdf_ndarray \<Rightarrow> (asdf_value_err \<times> asdf_ndarray \<times> heap) option" where
  "asdf_ndarray_parse_block_data ve ne h ndarray_map nd = do {
     let exts = (\<lparr>ex_map = \<lambda>_. None, ex_deserialize = \<lambda>_. None\<rparr> :: ('n, unit) extensions);
     (err, shape_seq, h) \<leftarrow> asdf_get_required_property ve ne exts h ndarray_map (bytes_of ''shape'') ASDF_VALUE_SEQUENCE None;
     if \<not> ASDF_IS_OK err then Some (err, nd, h)
     else (case shape_seq of
       Some (Typed_value (Some seq)) \<Rightarrow> do {
         (err, shape, h) \<leftarrow> asdf_datatype_shape_parse ve ne h seq;
         if \<not> ASDF_IS_OK err then Some (err, nd, h)
         else do {
           let nd = nd\<lparr>nd_shape := shape\<rparr>;
           (err, byteorder, h) \<leftarrow> asdf_datatype_byteorder_parse ve ne h ndarray_map (bytes_of ''byteorder'') ASDF_BYTEORDER_LITTLE;
           if \<not> ASDF_IS_OK err then Some (err, nd, h)
           else do {
             let nd = nd\<lparr>nd_byteorder := byteorder\<rparr>;
             (err, offset, h) \<leftarrow> asdf_get_optional_property ve ne exts h ndarray_map (bytes_of ''offset'') ASDF_VALUE_UINT64 None;
             if \<not> ASDF_IS_OPTIONAL_OK err then Some (err, nd, h)
             else do {
               let nd = nd\<lparr>nd_offset := (case offset of Some (Typed_64 w) \<Rightarrow> w | _ \<Rightarrow> 0)\<rparr>;
               (err, strides_seq, h) \<leftarrow> asdf_get_optional_property ve ne exts h ndarray_map (bytes_of ''strides'') ASDF_VALUE_SEQUENCE None;
               (err, strides, h) \<leftarrow>
                 (if ASDF_IS_OK err then
                    (case strides_seq of
                       Some (Typed_value (Some seq)) \<Rightarrow> asdf_ndarray_strides_parse ve ne h seq (length shape)
                     | _ \<Rightarrow> None)
                  else Some (err, [], h));
               if \<not> ASDF_IS_OPTIONAL_OK err then Some (err, nd, h)
               else Some (ASDF_VALUE_OK, nd\<lparr>nd_strides := strides\<rparr>, h)
             }
           }
         }
       }
     | _ \<Rightarrow> None)
   }"

definition asdf_host_byteorder :: "platform \<Rightarrow> asdf_byteorder" where
  "asdf_host_byteorder pf = (if big_host pf then ASDF_BYTEORDER_BIG else ASDF_BYTEORDER_LITTLE)"

section \<open>Inferring the type of an array in the tree\<close>

record ndarray_type_inf =
  has_string :: bool
  has_float :: bool
  has_signed :: bool
  has_uint :: bool
  int_min :: u64
  uint_max :: u64
  max_string_len :: nat

definition initial_type_inf :: ndarray_type_inf where
  "initial_type_inf = \<lparr>has_string = False, has_float = False, has_signed = False, has_uint = False,
     int_min = 2 ^ 63 - 1, uint_max = 0, max_string_len = 0\<rparr>"

definition infer_signed :: "u64 \<Rightarrow> ndarray_type_inf \<Rightarrow> ndarray_type_inf" where
  "infer_signed ival ti =
     ti\<lparr>has_signed := True, int_min := (if ival <s int_min ti then ival else int_min ti),
         uint_max := (if 0 \<le>s ival \<and> uint_max ti < ival then ival else uint_max ti)\<rparr>"

definition infer_unsigned :: "u64 \<Rightarrow> ndarray_type_inf \<Rightarrow> ndarray_type_inf" where
  "infer_unsigned uval ti =
     ti\<lparr>has_uint := True, uint_max := (if uint_max ti < uval then uval else uint_max ti)\<rparr>"

definition update_type_inference ::
  "'n value_env \<Rightarrow> heap \<Rightarrow> 'n asdf_value option \<Rightarrow> ndarray_type_inf \<Rightarrow> (ndarray_type_inf \<times> heap) option" where
  "update_type_inference ve h elem ti = do {
     (vtype, elem, h) \<leftarrow> asdf_value_get_type ve h elem;
     if vtype = ASDF_VALUE_STRING then do {
       (err, str, _, h) \<leftarrow> asdf_value_as_string ve h elem;
       let len = (case str of Some (Some s) \<Rightarrow> length s | _ \<Rightarrow> 0);
       Some (ti\<lparr>has_string := True,
                 max_string_len := (if err = ASDF_VALUE_OK \<and> len > max_string_len ti then len else max_string_len ti)\<rparr>, h)
     }
     else if vtype \<in> {ASDF_VALUE_FLOAT, ASDF_VALUE_DOUBLE} then Some (ti\<lparr>has_float := True\<rparr>, h)
     else if vtype \<in> {ASDF_VALUE_INT8, ASDF_VALUE_INT16, ASDF_VALUE_INT32, ASDF_VALUE_INT64} then do {
       (err, ival, _, h) \<leftarrow> asdf_value_as_int64 ve h elem;
       if err \<noteq> ASDF_VALUE_OK then Some (ti, h)
       else do { ival \<leftarrow> ival; Some (infer_signed ival ti, h) }
     }
     else if vtype \<in> {ASDF_VALUE_UINT8, ASDF_VALUE_UINT16, ASDF_VALUE_UINT32, ASDF_VALUE_UINT64} then do {
       (err, uval, _, h) \<leftarrow> asdf_value_as_uint64 ve h elem;
       if err \<noteq> ASDF_VALUE_OK then Some (ti, h)
       else do { uval \<leftarrow> uval; Some (infer_unsigned uval ti, h) }
     }
     else Some (ti, h)
   }"

definition infer_scalar_datatype :: "ndarray_type_inf \<Rightarrow> asdf_scalar_datatype" where
  "infer_scalar_datatype ti =
     (if has_string ti then ASDF_DATATYPE_UNKNOWN
      else if has_float ti then ASDF_DATATYPE_FLOAT64
      else if has_signed ti then
        (if - 128 \<le> sint (int_min ti) \<and> uint_max ti \<le> 127 then ASDF_DATATYPE_INT8
         else if - 32768 \<le> sint (int_min ti) \<and> uint_max ti \<le> 32767 then ASDF_DATATYPE_INT16
         else if - 2147483648 \<le> sint (int_min ti) \<and> uint_max ti \<le> 2147483647 then ASDF_DATATYPE_INT32
         else ASDF_DATATYPE_INT64)
      else if has_uint ti then
        (if uint_max ti \<le> 255 then ASDF_DATATYPE_UINT8
         else if uint_max ti \<le> 65535 then ASDF_DATATYPE_UINT16
         else if uint_max ti \<le> 4294967295 then ASDF_DATATYPE_UINT32
         else ASDF_DATATYPE_UINT64)
      else ASDF_DATATYPE_BOOL8)"

text \<open>A sequence at a depth, and the loop over its elements. The shape grows as new dimensions are found.\<close>

datatype 'n infer_work =
    Infer_sequence "'n asdf_value" nat
  | Infer_elements "'n sequence_iter option" bool nat

partial_function (option) infer_inline_work ::
  "'n value_env \<Rightarrow> 'n node_env \<Rightarrow> heap \<Rightarrow> 'n infer_work \<Rightarrow> u64 list \<Rightarrow> ndarray_type_inf \<Rightarrow>
   (asdf_value_err \<times> u64 list \<times> ndarray_type_inf \<times> heap) option" where
  "infer_inline_work ve ne h work shape ti =
     (case work of
        Infer_sequence sequence depth \<Rightarrow>
          let sz = asdf_sequence_size ne sequence in
          if sz < 0 then Some (ASDF_VALUE_ERR_PARSE_FAILURE, shape, ti, h)
          else if sz = 0 then Some (ASDF_VALUE_OK, shape, ti, h)
          else
            let (ok, h) = (if depth \<ge> length shape then alloc h else (True, h)) in
            if \<not> ok then Some (ASDF_VALUE_ERR_OOM, shape, ti, h)
            else if depth < length shape \<and> of_int sz \<noteq> shape ! depth then Some (ASDF_VALUE_ERR_PARSE_FAILURE, shape, ti, h)
            else
              let shape = (if depth \<ge> length shape then shape @ [of_int sz] else shape) in
              (case asdf_sequence_get ne h sequence 0 of
                 (None, h) \<Rightarrow> Some (ASDF_VALUE_ERR_PARSE_FAILURE, shape, ti, h)
               | (Some first, h) \<Rightarrow> do {
                   (vtype, _, h) \<leftarrow> asdf_value_get_type ve h (Some first);
                   let (iter, h) = asdf_sequence_iter_init_ex ne h sequence False;
                   infer_inline_work ve ne h (Infer_elements iter (vtype = ASDF_VALUE_SEQUENCE) depth) shape ti
                 })
      | Infer_elements iter first_is_seq depth \<Rightarrow>
          (case asdf_sequence_iter_next ne h iter of
             (None, h) \<Rightarrow> Some (ASDF_VALUE_OK, shape, ti, h)
           | (Some it, h) \<Rightarrow> do {
               (vtype, elem, h) \<leftarrow> asdf_value_get_type ve h (si_value it);
               if (vtype = ASDF_VALUE_SEQUENCE) \<noteq> first_is_seq then Some (ASDF_VALUE_ERR_PARSE_FAILURE, shape, ti, h)
               else if vtype = ASDF_VALUE_SEQUENCE then do {
                 elem \<leftarrow> elem;
                 (err, shape, ti, h) \<leftarrow> infer_inline_work ve ne h (Infer_sequence elem (depth + 1)) shape ti;
                 if err \<noteq> ASDF_VALUE_OK then Some (err, shape, ti, h)
                 else infer_inline_work ve ne h (Infer_elements (Some it) first_is_seq depth) shape ti
               }
               else do {
                 (ti, h) \<leftarrow> update_type_inference ve h elem ti;
                 infer_inline_work ve ne h (Infer_elements (Some it) first_is_seq depth) shape ti
               }
             }))"

definition infer_inline_array_datatype ::
  "'n value_env \<Rightarrow> 'n node_env \<Rightarrow> heap \<Rightarrow> 'n asdf_value \<Rightarrow> nat \<Rightarrow> u64 list \<Rightarrow> ndarray_type_inf \<Rightarrow>
   (asdf_value_err \<times> u64 list \<times> ndarray_type_inf \<times> heap) option" where
  "infer_inline_array_datatype ve ne h sequence depth shape ti =
     infer_inline_work ve ne h (Infer_sequence sequence depth) shape ti"

section \<open>Storing the elements\<close>

text \<open>A double as an element of a floating type.\<close>

definition float_bytes :: "platform \<Rightarrow> asdf_scalar_datatype \<Rightarrow> double \<Rightarrow> bytes option" where
  "float_bytes pf dtype d = do {
     t \<leftarrow> ctype_of dtype;
     b \<leftarrow> cast_bits pf c_double t (encode 53 11 d);
     Some (store_bits pf (ctype_size t) b)
   }"

definition word_out ::
  "platform \<Rightarrow> nat \<Rightarrow> (asdf_value_err \<times> 'w::len word option \<times> 'n asdf_value option \<times> heap) option \<Rightarrow>
   (asdf_value_err \<times> bytes option \<times> heap) option" where
  "word_out pf n r = map_option (\<lambda>(err, w, _, h). (err, map_option (\<lambda>w. store_bits pf n (unat w)) w, h)) r"

text \<open>The result is what is stored, also when there is an error.\<close>

definition convert_scalar_to_native ::
  "'n value_env \<Rightarrow> heap \<Rightarrow> 'n asdf_value option \<Rightarrow> asdf_scalar_datatype \<Rightarrow> (asdf_value_err \<times> bytes option \<times> heap) option" where
  "convert_scalar_to_native ve h elem dtype =
     (let pf = ve_platform ve in
      case dtype of
        ASDF_DATATYPE_BOOL8 \<Rightarrow>
          map_option (\<lambda>(err, b, _, h). (err, map_option (\<lambda>b. [if b then 1 else 0]) b, h)) (asdf_value_as_bool ve h elem)
      | ASDF_DATATYPE_INT8 \<Rightarrow> word_out pf 1 (asdf_value_as_int8 ve h elem)
      | ASDF_DATATYPE_INT16 \<Rightarrow> word_out pf 2 (asdf_value_as_int16 ve h elem)
      | ASDF_DATATYPE_INT32 \<Rightarrow> word_out pf 4 (asdf_value_as_int32 ve h elem)
      | ASDF_DATATYPE_INT64 \<Rightarrow> word_out pf 8 (asdf_value_as_int64 ve h elem)
      | ASDF_DATATYPE_UINT8 \<Rightarrow> word_out pf 1 (asdf_value_as_uint8 ve h elem)
      | ASDF_DATATYPE_UINT16 \<Rightarrow> word_out pf 2 (asdf_value_as_uint16 ve h elem)
      | ASDF_DATATYPE_UINT32 \<Rightarrow> word_out pf 4 (asdf_value_as_uint32 ve h elem)
      | ASDF_DATATYPE_UINT64 \<Rightarrow> word_out pf 8 (asdf_value_as_uint64 ve h elem)
      | _ \<Rightarrow>
          if dtype \<notin> {ASDF_DATATYPE_FLOAT16, ASDF_DATATYPE_FLOAT32, ASDF_DATATYPE_FLOAT64} \<or>
             dtype = ASDF_DATATYPE_FLOAT16 \<and> \<not> has_float16 pf
          then Some (ASDF_VALUE_ERR_PARSE_FAILURE, None, h)
          else do {
            (err, dval, elem, h) \<leftarrow> asdf_value_as_double ve h elem;
            (err, dval, h) \<leftarrow>
              (if err \<noteq> ASDF_VALUE_ERR_TYPE_MISMATCH then Some (err, dval, h)
               else do {
                 (err, ival, elem, h) \<leftarrow> asdf_value_as_int64 ve h elem;
                 if err = ASDF_VALUE_OK then Some (err, map_option (\<lambda>w. double_of_rat (of_int (sint w))) ival, h)
                 else do {
                   (err, uval, _, h) \<leftarrow> asdf_value_as_uint64 ve h elem;
                   Some (err, map_option (\<lambda>w. double_of_rat (of_int (uint w))) uval, h)
                 }
               });
            if err \<noteq> ASDF_VALUE_OK then Some (err, None, h)
            else do {
              dval \<leftarrow> dval;
              bs \<leftarrow> float_bytes pf dtype dval;
              Some (err, Some bs, h)
            }
          })"

partial_function (option) parse_inline_work ::
  "'n value_env \<Rightarrow> 'n node_env \<Rightarrow> asdf_scalar_datatype \<Rightarrow> nat \<Rightarrow> heap \<Rightarrow> 'n sequence_iter option \<Rightarrow> nat \<Rightarrow> bytes \<Rightarrow> nat \<Rightarrow>
   (asdf_value_err \<times> bytes \<times> nat \<times> heap) option" where
  "parse_inline_work ve ne dtype ndim h iter depth buf offset =
     (case asdf_sequence_iter_next ne h iter of
        (None, h) \<Rightarrow> Some (ASDF_VALUE_OK, buf, offset, h)
      | (Some it, h) \<Rightarrow>
          if Suc depth = ndim then do {
            (err, out, h) \<leftarrow> convert_scalar_to_native ve h (si_value it) dtype;
            buf \<leftarrow> (case out of
               None \<Rightarrow> Some buf
             | Some bs \<Rightarrow> mem_write_at buf (offset * asdf_scalar_datatype_size dtype) bs);
            if err \<noteq> ASDF_VALUE_OK then Some (err, buf, offset, h)
            else parse_inline_work ve ne dtype ndim h (Some it) depth buf (offset + 1)
          }
          else do {
            elem \<leftarrow> si_value it;
            let (inner, h) = asdf_sequence_iter_init_ex ne h elem False;
            (err, buf, offset, h) \<leftarrow> parse_inline_work ve ne dtype ndim h inner (depth + 1) buf offset;
            if err \<noteq> ASDF_VALUE_OK then Some (err, buf, offset, h)
            else parse_inline_work ve ne dtype ndim h (Some it) depth buf offset
          })"

definition parse_inline_array_level ::
  "'n value_env \<Rightarrow> 'n node_env \<Rightarrow> heap \<Rightarrow> 'n asdf_value \<Rightarrow> asdf_ndarray \<Rightarrow> bytes \<Rightarrow> nat \<Rightarrow> nat \<Rightarrow>
   (asdf_value_err \<times> bytes \<times> nat \<times> heap) option" where
  "parse_inline_array_level ve ne h sequence nd buf offset depth =
     (let (iter, h) = asdf_sequence_iter_init_ex ne h sequence False in
      parse_inline_work ve ne (dt_type (nd_datatype nd)) (length (nd_shape nd)) h iter depth buf offset)"

definition asdf_ndarray_parse_inline_data ::
  "'n value_env \<Rightarrow> 'n node_env \<Rightarrow> heap \<Rightarrow> 'n asdf_value \<Rightarrow> asdf_ndarray \<Rightarrow> bytes \<Rightarrow> (asdf_value_err \<times> bytes \<times> heap) option" where
  "asdf_ndarray_parse_inline_data ve ne h inline_data nd buf =
     map_option (\<lambda>(err, buf, _, h). (err, buf, h)) (parse_inline_array_level ve ne h inline_data nd buf 0 0)"

section \<open>The objects of the extension\<close>

text \<open>What the mapping of an array in the tree says of its type and its shape: an error, or the type if it is there.
  A shape that is not the one of the data is only logged.\<close>

definition inline_description ::
  "'n value_env \<Rightarrow> 'n node_env \<Rightarrow> heap \<Rightarrow> 'n asdf_value option \<Rightarrow> (asdf_value_err \<times> asdf_datatype option \<times> heap) option" where
  "inline_description ve ne h ndarray_map =
     (case ndarray_map of
        None \<Rightarrow> Some (ASDF_VALUE_OK, None, h)
      | Some m \<Rightarrow> do {
          let exts = (\<lparr>ex_map = \<lambda>_. None, ex_deserialize = \<lambda>_. None\<rparr> :: ('n, unit) extensions);
          (err, prop, h) \<leftarrow> asdf_get_optional_property ve ne exts h m (bytes_of ''datatype'') ASDF_VALUE_UNKNOWN None;
          if \<not> ASDF_IS_OPTIONAL_OK err then Some (err, None, h)
          else do {
            (err, datatype, h) \<leftarrow>
              (if err \<noteq> ASDF_VALUE_OK then Some (ASDF_VALUE_OK, None, h)
               else do {
                 let datatype_val = (case prop of Some (Typed_value v) \<Rightarrow> v | _ \<Rightarrow> None);
                 (err, d, h) \<leftarrow> asdf_datatype_parse ve ne h datatype_val ASDF_BYTEORDER_DEFAULT zero_datatype;
                 Some (err, Some d, h)
               });
            if err \<noteq> ASDF_VALUE_OK then Some (err, None, h)
            else do {
              (err, shape_seq, h) \<leftarrow> asdf_get_optional_property ve ne exts h m (bytes_of ''shape'') ASDF_VALUE_SEQUENCE None;
              if \<not> ASDF_IS_OPTIONAL_OK err then Some (err, None, h)
              else if err \<noteq> ASDF_VALUE_OK then Some (ASDF_VALUE_OK, datatype, h)
              else (case shape_seq of
                  Some (Typed_value (Some seq)) \<Rightarrow> do {
                    (err, _, h) \<leftarrow> asdf_datatype_shape_parse ve ne h seq;
                    Some (err, if err = ASDF_VALUE_OK then datatype else None, h)
                  }
                | _ \<Rightarrow> None)
            }
          }
        })"

definition asdf_ndarray_deserialize_inline ::
  "'n value_env \<Rightarrow> 'n node_env \<Rightarrow> heap \<Rightarrow> 'n asdf_value option \<Rightarrow> 'n asdf_value \<Rightarrow>
   (asdf_value_err \<times> ('n, 'u) ndarray_object option \<times> heap) option" where
  "asdf_ndarray_deserialize_inline ve ne h ndarray_map ndarray_seq =
     (let (ok, h) = alloc h in
      if \<not> ok then Some (ASDF_VALUE_ERR_OOM, None, h)
      else
        let (ok, h) = alloc h in
        if \<not> ok then Some (ASDF_VALUE_ERR_OOM, None, h)
        else do {
          (err, datatype, h) \<leftarrow> inline_description ve ne h ndarray_map;
          if err \<noteq> ASDF_VALUE_OK then Some (err, None, h)
          else do {
            (err, shape, ti, h) \<leftarrow> infer_inline_array_datatype ve ne h ndarray_seq 0 [] initial_type_inf;
            if err \<noteq> ASDF_VALUE_OK then Some (err, None, h)
            else
              let inferred = infer_scalar_datatype ti in
              if datatype = None \<and> inferred = ASDF_DATATYPE_UNKNOWN then Some (ASDF_VALUE_ERR_PARSE_FAILURE, None, h)
              else
                let datatype = (case datatype of
                        Some d \<Rightarrow> d
                      | None \<Rightarrow> set_scalar inferred (of_nat (asdf_scalar_datatype_size inferred)) ASDF_BYTEORDER_DEFAULT zero_datatype)
                in
                (case asdf_value_copy ne h (Some ndarray_seq) of
                   (None, h) \<Rightarrow> Some (ASDF_VALUE_ERR_OOM, None, h)
                 | (Some inline_data, h) \<Rightarrow>
                     Some (ASDF_VALUE_OK,
                       Some \<lparr>no_array = zero_ndarray\<lparr>nd_shape := shape, nd_datatype := datatype,
                                                      nd_byteorder := asdf_host_byteorder (ve_platform ve)\<rparr>,
                             no_internal = Some (zero_internal\<lparr>ni_file := True, ni_inline_data := Some inline_data,
                                                               ni_array_storage := ASDF_ARRAY_STORAGE_INLINE\<rparr>)\<rparr>, h))
          }
        })"

definition asdf_ndarray_deserialize ::
  "'n value_env \<Rightarrow> 'n node_env \<Rightarrow> heap \<Rightarrow> 'n asdf_value option \<Rightarrow>
   (asdf_value_err \<times> ('n, 'u) ndarray_object option \<times> heap) option" where
  "asdf_ndarray_deserialize ve ne h value =
     (case asdf_value_as_mapping value of
        (err, Some m) \<Rightarrow> do {
          let exts = (\<lparr>ex_map = \<lambda>_. None, ex_deserialize = \<lambda>_. None\<rparr> :: ('n, unit) extensions);
          (err, source, h) \<leftarrow> asdf_get_optional_property ve ne exts h m (bytes_of ''source'') ASDF_VALUE_UINT64 None;
          if err = ASDF_VALUE_ERR_NOT_FOUND then do {
            (err, data, h) \<leftarrow> asdf_get_optional_property ve ne exts h m (bytes_of ''data'') ASDF_VALUE_SEQUENCE None;
            if err = ASDF_VALUE_ERR_NOT_FOUND then Some (ASDF_VALUE_ERR_PARSE_FAILURE, None, h)
            else if err = ASDF_VALUE_OK then
              (case data of
                 Some (Typed_value (Some seq)) \<Rightarrow> asdf_ndarray_deserialize_inline ve ne h (Some m) seq
               | _ \<Rightarrow> None)
            else Some (err, None, h)
          }
          else if err \<noteq> ASDF_VALUE_OK then Some (err, None, h)
          else
            let (ok, h) = alloc h in
            if \<not> ok then Some (ASDF_VALUE_ERR_OOM, None, h)
            else
              let (ok, h) = alloc h in
              if \<not> ok then Some (ASDF_VALUE_ERR_OOM, None, h)
              else do {
                (err, nd, h) \<leftarrow> asdf_ndarray_parse_block_data ve ne h m zero_ndarray;
                if err \<noteq> ASDF_VALUE_OK then Some (err, None, h)
                else do {
                  (err, prop, h) \<leftarrow> asdf_get_required_property ve ne exts h m (bytes_of ''datatype'') ASDF_VALUE_UNKNOWN None;
                  if err \<noteq> ASDF_VALUE_OK then Some (err, None, h)
                  else do {
                    (err, d, h) \<leftarrow> asdf_datatype_parse ve ne h (case prop of Some (Typed_value v) \<Rightarrow> v | _ \<Rightarrow> None)
                       (nd_byteorder nd) zero_datatype;
                    if err \<noteq> ASDF_VALUE_OK then Some (err, None, h)
                    else Some (ASDF_VALUE_OK,
                      Some \<lparr>no_array = nd\<lparr>nd_datatype := d,
                                          nd_source := (case source of Some (Typed_64 w) \<Rightarrow> unat w | _ \<Rightarrow> 0)\<rparr>,
                            no_internal = Some (zero_internal\<lparr>ni_file := True, ni_array_storage := ASDF_ARRAY_STORAGE_INTERNAL\<rparr>)\<rparr>, h)
                  }
                }
              }
        }
      | (err, None) \<Rightarrow>
          if err \<noteq> ASDF_VALUE_ERR_TYPE_MISMATCH then Some (err, None, h)
          else (case asdf_value_as_sequence value of
              (_, Some seq) \<Rightarrow> asdf_ndarray_deserialize_inline ve ne h None seq
            | (err, None) \<Rightarrow> Some (err, None, h)))"

section \<open>The data of an array\<close>

text \<open>The data comes to stand in the block of the array when it is first asked for. What was parsed is written
  through the pointer to the buffer of the block. The environments are those of the tree and of blocks; the heap
  is for the values of the tree, the other one for the compressor.\<close>

definition write_block_buffer :: "bytes \<Rightarrow> 'u asdf_block \<Rightarrow> 'u asdf_block" where
  "write_block_buffer buf b = b\<lparr>bk_info := (bk_info b)\<lparr>bi_data := Some buf\<rparr>\<rparr>"

definition materialize_inline ::
  "'n value_env \<Rightarrow> 'n node_env \<Rightarrow> 'u block_env \<Rightarrow> heap \<Rightarrow> asdf_ndarray \<Rightarrow> 'n asdf_value \<Rightarrow> bool \<Rightarrow> block_world \<Rightarrow>
   ('u asdf_block option \<times> heap \<times> block_world) option" where
  "materialize_inline ve ne env h nd inline_data has_file w = do {
     let nbytes = unat (asdf_ndarray_nbytes (Some nd));
     (block, w) \<leftarrow> asdf_file_block_create env has_file None nbytes w;
     (case block of
        None \<Rightarrow> Some (None, h, w)
      | Some b \<Rightarrow>
          if nbytes = 0 then Some (Some b, h, w)
          else (case asdf_block_data_alloc nbytes (Some b) w of
              (None, block, w) \<Rightarrow> do { w \<leftarrow> asdf_block_destroy env block w; Some (None, h, w) }
            | (Some buf, block, w) \<Rightarrow> do {
                b \<leftarrow> block;
                (err, buf, h) \<leftarrow> asdf_ndarray_parse_inline_data ve ne h inline_data nd buf;
                if err \<noteq> ASDF_VALUE_OK then do {
                  w \<leftarrow> asdf_block_destroy env (Some (write_block_buffer buf b)) w;
                  Some (None, h, w)
                }
                else Some (Some (write_block_buffer buf b), h, w)
              }))
   }"

definition asdf_ndarray_data_impl ::
  "'n value_env \<Rightarrow> 'n node_env \<Rightarrow> parser_env \<Rightarrow> 'u block_env \<Rightarrow> heap \<Rightarrow> heap \<Rightarrow> bool \<Rightarrow> ('n, 'u) ndarray_object option \<Rightarrow>
   block_world \<Rightarrow> (bytes option \<times> nat option \<times> ('n, 'u) ndarray_object option \<times> heap \<times> block_world) option" where
  "asdf_ndarray_data_impl ve ne penv env hc h raw nd w =
     (case nd of
        None \<Rightarrow> Some (None, None, nd, h, w)
      | Some a \<Rightarrow>
          (case no_internal a of
             None \<Rightarrow> Some (None, None, nd, h, w)
           | Some i \<Rightarrow> do {
               (block, h, w) \<leftarrow>
                 (case ni_block i of
                    Some b \<Rightarrow> Some (Some b, h, w)
                  | None \<Rightarrow>
                      (case ni_inline_data i of
                         Some inline_data \<Rightarrow> materialize_inline ve ne env h (no_array a) inline_data (ni_file i) w
                       | None \<Rightarrow> do {
                           (block, w) \<leftarrow> asdf_block_open penv (ni_file i) (nd_source (no_array a)) w;
                           Some (block, h, w)
                         }));
               if block = None then Some (None, None, nd, h, w)
               else do {
                 (data, sz, block, w) \<leftarrow> (if raw then asdf_block_data_raw env hc block w else asdf_block_data env hc block w);
                 Some (data, sz, Some (a\<lparr>no_internal := Some (i\<lparr>ni_block := block\<rparr>)\<rparr>), h, w)
               }
             }))"

definition asdf_ndarray_data_raw ::
  "'n value_env \<Rightarrow> 'n node_env \<Rightarrow> parser_env \<Rightarrow> 'u block_env \<Rightarrow> heap \<Rightarrow> heap \<Rightarrow> ('n, 'u) ndarray_object option \<Rightarrow>
   block_world \<Rightarrow> (bytes option \<times> nat option \<times> ('n, 'u) ndarray_object option \<times> heap \<times> block_world) option" where
  "asdf_ndarray_data_raw ve ne penv env hc h nd w = asdf_ndarray_data_impl ve ne penv env hc h True nd w"

definition asdf_ndarray_data ::
  "'n value_env \<Rightarrow> 'n node_env \<Rightarrow> parser_env \<Rightarrow> 'u block_env \<Rightarrow> heap \<Rightarrow> heap \<Rightarrow> ('n, 'u) ndarray_object option \<Rightarrow>
   block_world \<Rightarrow> (bytes option \<times> nat option \<times> ('n, 'u) ndarray_object option \<times> heap \<times> block_world) option" where
  "asdf_ndarray_data ve ne penv env hc h nd w = asdf_ndarray_data_impl ve ne penv env hc h False nd w"

end
