(* ===== verification/Asdf_Ndarray_Inline_Laws.thy ===== *)
theory Asdf_Ndarray_Inline_Laws
  imports Asdf_Ndarray_Read Asdf_Datatype_Read_Laws Asdf_Block_Handle_Laws
begin

text \<open>
  An array of integers that stands in the tree as nested sequences: the shape, the type and the bytes it is read
  with. Allocations succeed.
\<close>

section \<open>Integers in the tree\<close>

definition num_node :: "'n value_env \<Rightarrow> 'n node_env \<Rightarrow> 'n \<Rightarrow> int \<Rightarrow> bool" where
  "num_node ve ne n v \<longleftrightarrow> fy_node_get_type ne n = FYNT_SCALAR \<and> \<not> fy_node_is_alias ne n \<and> plain_node ve n (int_dec v) \<and>
     - 9223372036854775808 \<le> v \<and> v \<le> 18446744073709551615"

definition signed_types :: "asdf_value_type set" where
  "signed_types = {ASDF_VALUE_INT8, ASDF_VALUE_INT16, ASDF_VALUE_INT32, ASDF_VALUE_INT64}"

text \<open>An inferred value with the integer \<open>v\<close>.\<close>

definition num_value :: "'n asdf_value \<Rightarrow> int \<Rightarrow> bool" where
  "num_value x v \<longleftrightarrow> v_type x \<in> int_types \<and> (v_type x \<in> signed_types \<longleftrightarrow> v < 0) \<and>
     (\<exists>u. v_scalar x = Word u \<and> fits (v_type x) (Word u) \<and> num_of (v_type x) u = v)"

lemma infer_int_zero:
  "asdf_value_infer_int [] x (Some (int_dec 0)) =
   Some (ASDF_VALUE_OK, x\<lparr>v_type := ASDF_VALUE_UINT8, v_scalar := Word 0, v_err := ASDF_VALUE_OK\<rparr>, [])"
proof -
  have "asdf_yaml_scalar_is_int [] (Some (int_dec 0)) 0 = Some ((ASDF_VALUE_OK, False, 0), [])"
    using is_int_dec [of "[]" "[]" 0 0] by (simp add: sign_text_def int_dec_def parse_uint_dec)
  then show ?thesis by (simp add: asdf_value_infer_int_def unsigned_type_def Let_def)
qed

lemma infer_num:
  assumes "num_node ve ne n v"
  shows "\<exists>x. infer_value ve [] (node_value ne n p) = Some (ASDF_VALUE_OK, x, []) \<and> num_value x v"
proof -
  let ?f = "(fresh_value n)\<lparr>v_explicit_tag_checked := True\<rparr>"
  have plain: "plain_node ve n (int_dec v)" and scalar: "fy_node_get_type ne n = FYNT_SCALAR"
    using assms by (simp_all add: num_node_def)
  obtain t u where t: "asdf_value_infer_int [] (snd (infer_failure ?f)) (Some (int_dec v)) =
        Some (ASDF_VALUE_OK, snd (infer_failure ?f)\<lparr>v_type := t, v_scalar := Word u, v_err := ASDF_VALUE_OK\<rparr>, [])"
      "t \<in> int_types" "inferred t (Word u)" "num_of t u = v"
    using infer_int_dec [of v "snd (infer_failure ?f)"] assms by (auto simp: num_node_def)
  have sign: "t \<in> signed_types \<longleftrightarrow> v < 0"
  proof (cases "v = 0")
    case True
    then have "t = ASDF_VALUE_UINT8" using t(1) infer_int_zero [of "snd (infer_failure ?f)"] by (auto dest!: arg_cong [of _ _ v_type])
    then show ?thesis using True by (simp add: signed_types_def)
  next
    case False
    then show ?thesis using t(2-4) by (auto simp: signed_types_def int_types_def num_of_def inferred_def uint_above)
  qed
  have "\<exists>x. infer_value ve [] (fresh_value n) = Some (ASDF_VALUE_OK, x, []) \<and> num_value x v"
    using t sign dec_not_null [of v] unfolding infer_fresh_plain [OF plain]
    by (auto simp: infer_plain_def asdf_value_infer_null_def infer_failure_def inferred_def fresh_value_def num_value_def)
  then show ?thesis using scalar by (auto simp: scalar_node_value infer_path num_value_def)
qed

lemma infer_num_value: "num_value x v \<Longrightarrow> infer_value ve h x = Some (ASDF_VALUE_OK, x, h)"
  by (auto simp: num_value_def infer_value_def int_types_def)

lemmas getters = as_int8 as_int16 as_int32 as_int64 as_uint8 as_uint16 as_uint32 as_uint64

lemmas getter_defs = asdf_value_as_int8_def asdf_value_as_int16_def asdf_value_as_int32_def asdf_value_as_int64_def
  asdf_value_as_uint8_def asdf_value_as_uint16_def asdf_value_as_uint32_def asdf_value_as_uint64_def

text \<open>What the getters of a value return that is inferred as \<open>x\<close>.\<close>

lemma num_getters:
  assumes "infer_value ve [] y = Some (ASDF_VALUE_OK, x, [])" and "num_value x v"
  shows "asdf_value_as_int8 ve [] (Some y) = (case int_result (- 128) 127 v of (e, out) \<Rightarrow> Some (e, out, Some x, []))"
    "asdf_value_as_int16 ve [] (Some y) = (case int_result (- 32768) 32767 v of (e, out) \<Rightarrow> Some (e, out, Some x, []))"
    "asdf_value_as_int32 ve [] (Some y) = (case int_result (- 2147483648) 2147483647 v of (e, out) \<Rightarrow> Some (e, out, Some x, []))"
    "asdf_value_as_int64 ve [] (Some y) =
       (case int_result (- 9223372036854775808) 9223372036854775807 v of (e, out) \<Rightarrow> Some (e, out, Some x, []))"
    "asdf_value_as_uint8 ve [] (Some y) = (case int_result 0 255 v of (e, out) \<Rightarrow> Some (e, out, Some x, []))"
    "asdf_value_as_uint16 ve [] (Some y) = (case int_result 0 65535 v of (e, out) \<Rightarrow> Some (e, out, Some x, []))"
    "asdf_value_as_uint32 ve [] (Some y) = (case int_result 0 4294967295 v of (e, out) \<Rightarrow> Some (e, out, Some x, []))"
    "asdf_value_as_uint64 ve [] (Some y) = (case int_result 0 18446744073709551615 v of (e, out) \<Rightarrow> Some (e, out, Some x, []))"
proof -
  obtain u where u: "v_type x \<in> int_types" "v_scalar x = Word u" "fits (v_type x) (Word u)" "num_of (v_type x) u = v"
    using assms(2) by (auto simp: num_value_def)
  have r: "asdf_value_infer_scalar_type ve [] (Some y) = Some (ASDF_VALUE_OK, Some x, [])"
    by (simp add: asdf_value_infer_scalar_type_def assms(1))
  note g = getters [OF u(1,3), unfolded u(4)]
  show "asdf_value_as_int8 ve [] (Some y) = (case int_result (- 128) 127 v of (e, out) \<Rightarrow> Some (e, out, Some x, []))"
    "asdf_value_as_int16 ve [] (Some y) = (case int_result (- 32768) 32767 v of (e, out) \<Rightarrow> Some (e, out, Some x, []))"
    "asdf_value_as_int32 ve [] (Some y) = (case int_result (- 2147483648) 2147483647 v of (e, out) \<Rightarrow> Some (e, out, Some x, []))"
    "asdf_value_as_int64 ve [] (Some y) =
       (case int_result (- 9223372036854775808) 9223372036854775807 v of (e, out) \<Rightarrow> Some (e, out, Some x, []))"
    "asdf_value_as_uint8 ve [] (Some y) = (case int_result 0 255 v of (e, out) \<Rightarrow> Some (e, out, Some x, []))"
    "asdf_value_as_uint16 ve [] (Some y) = (case int_result 0 65535 v of (e, out) \<Rightarrow> Some (e, out, Some x, []))"
    "asdf_value_as_uint32 ve [] (Some y) = (case int_result 0 4294967295 v of (e, out) \<Rightarrow> Some (e, out, Some x, []))"
    "asdf_value_as_uint64 ve [] (Some y) = (case int_result 0 18446744073709551615 v of (e, out) \<Rightarrow> Some (e, out, Some x, []))"
    unfolding getter_defs as_scalar_with_def r by (simp_all add: g u(2) case_prod_beta del: as_int8_of.simps as_int16_of.simps
        as_int32_of.simps as_int64_of.simps as_uint8_of.simps as_uint16_of.simps as_uint32_of.simps as_uint64_of.simps)
qed

section \<open>The type that is inferred\<close>

definition infer_one :: "int \<Rightarrow> ndarray_type_inf \<Rightarrow> ndarray_type_inf" where
  "infer_one v ti = (if v < 0 then infer_signed (of_int v) ti else infer_unsigned (of_int v) ti)"

lemma get_type_num: "num_value x v \<Longrightarrow> asdf_value_get_type ve h (Some x) = Some (v_type x, Some x, h)"
  by (auto simp: num_value_def asdf_value_get_type_def int_types_def)

lemma update_num:
  assumes "num_value x v" and "- 9223372036854775808 \<le> v" and "v \<le> 18446744073709551615"
  shows "update_type_inference ve [] (Some x) ti = Some (infer_one v ti, [])"
proof -
  have t: "v_type x \<in> int_types" "v_type x \<in> signed_types \<longleftrightarrow> v < 0" using assms(1) by (auto simp: num_value_def)
  note g = num_getters [OF infer_num_value [OF assms(1)] assms(1)]
  show ?thesis
  proof (cases "v < 0")
    case True
    then have "v_type x \<in> signed_types" using t by simp
    then show ?thesis using True assms(2) get_type_num [OF assms(1)]
      by (auto simp: update_type_inference_def signed_types_def g int_result_def infer_one_def)
  next
    case False
    then have "v_type x \<in> int_types - signed_types" using t by simp
    then show ?thesis using False assms(3) get_type_num [OF assms(1)]
      by (auto simp: update_type_inference_def signed_types_def int_types_def g int_result_def infer_one_def)
  qed
qed

text \<open>The bounds that are kept: those of the negative integers from below, those of the others from above.\<close>

lemma infer_one_flags:
  "has_string (fold infer_one vs ti) = has_string ti" "has_float (fold infer_one vs ti) = has_float ti"
  "has_signed (fold infer_one vs ti) \<longleftrightarrow> has_signed ti \<or> (\<exists>v\<in>set vs. v < 0)"
  "has_uint (fold infer_one vs ti) \<longleftrightarrow> has_uint ti \<or> (\<exists>v\<in>set vs. 0 \<le> v)"
  by (induction vs arbitrary: ti) (auto simp: infer_one_def infer_signed_def infer_unsigned_def)

lemma sint_of_int: "- 9223372036854775808 \<le> v \<Longrightarrow> v \<le> 9223372036854775807 \<Longrightarrow> sint (of_int v :: u64) = v"
  by (simp add: signed_of_int signed_take_bit_int_eq_self)

lemma uint_of_int: "0 \<le> v \<Longrightarrow> v \<le> 18446744073709551615 \<Longrightarrow> uint (of_int v :: u64) = v"
  by (simp add: unsigned_of_int take_bit_int_eq_self)

definition num_range :: "int set" where
  "num_range = {- 9223372036854775808 .. 18446744073709551615}"

lemma infer_one_min:
  assumes "v \<in> num_range"
  shows "c \<le> sint (int_min (infer_one v ti)) \<longleftrightarrow> c \<le> sint (int_min ti) \<and> (v < 0 \<longrightarrow> c \<le> v)"
proof (cases "v < 0")
  case True
  then have "sint (of_int v :: u64) = v" using assms by (intro sint_of_int) (auto simp: num_range_def)
  then show ?thesis using True by (auto simp: infer_one_def infer_signed_def word_sless_alt)
qed (simp add: infer_one_def infer_unsigned_def)

lemma infer_one_max:
  assumes "v \<in> num_range" and "0 \<le> c"
  shows "uint (uint_max (infer_one v ti)) \<le> c \<longleftrightarrow> uint (uint_max ti) \<le> c \<and> v \<le> c"
proof (cases "v < 0")
  case True
  then have "sint (of_int v :: u64) = v" using assms by (intro sint_of_int) (auto simp: num_range_def)
  then have "\<not> 0 \<le>s (of_int v :: u64)" using True by (simp add: word_sle_eq)
  then show ?thesis using True assms(2) by (auto simp: infer_one_def infer_signed_def)
next
  case False
  then have "uint (of_int v :: u64) = v" using assms by (intro uint_of_int) (auto simp: num_range_def)
  then show ?thesis using False by (auto simp: infer_one_def infer_unsigned_def word_less_def)
qed

lemma infer_bounds:
  assumes "set vs \<subseteq> num_range"
  shows "c \<le> sint (int_min (fold infer_one vs ti)) \<longleftrightarrow> c \<le> sint (int_min ti) \<and> (\<forall>v\<in>set vs. v < 0 \<longrightarrow> c \<le> v)"
    and "0 \<le> c \<Longrightarrow> uint (uint_max (fold infer_one vs ti)) \<le> c \<longleftrightarrow> uint (uint_max ti) \<le> c \<and> (\<forall>v\<in>set vs. v \<le> c)"
  using assms by (induction vs arbitrary: ti) (auto simp: infer_one_min infer_one_max)

text \<open>The smallest type that all elements fit.\<close>

definition between :: "int list \<Rightarrow> int \<Rightarrow> int \<Rightarrow> bool" where
  "between vs lo hi \<longleftrightarrow> (\<forall>v\<in>set vs. lo \<le> v \<and> v \<le> hi)"

definition array_type :: "int list \<Rightarrow> asdf_scalar_datatype" where
  "array_type vs =
     (if \<exists>v\<in>set vs. v < 0 then
        (if between vs (- 128) 127 then ASDF_DATATYPE_INT8
         else if between vs (- 32768) 32767 then ASDF_DATATYPE_INT16
         else if between vs (- 2147483648) 2147483647 then ASDF_DATATYPE_INT32
         else ASDF_DATATYPE_INT64)
      else
        (if between vs 0 255 then ASDF_DATATYPE_UINT8
         else if between vs 0 65535 then ASDF_DATATYPE_UINT16
         else if between vs 0 4294967295 then ASDF_DATATYPE_UINT32
         else ASDF_DATATYPE_UINT64))"

lemma inferred_type:
  assumes "set vs \<subseteq> num_range" and "vs \<noteq> []"
  shows "infer_scalar_datatype (fold infer_one vs initial_type_inf) = array_type vs"
proof -
  define ti where "ti = fold infer_one vs initial_type_inf"
  have e: "\<exists>v\<in>set vs. v < 0 \<or> 0 \<le> v" using assms(2) by (cases vs) auto
  have flags: "\<not> has_string ti" "\<not> has_float ti" "has_signed ti \<longleftrightarrow> (\<exists>v\<in>set vs. v < 0)" "has_uint ti \<longleftrightarrow> (\<exists>v\<in>set vs. 0 \<le> v)"
    by (simp_all add: ti_def infer_one_flags) (simp_all add: initial_type_inf_def)
  have i: "sint (int_min initial_type_inf) = 9223372036854775807" "uint (uint_max initial_type_inf) = 0"
    using sint_of_int [of 9223372036854775807] by (simp_all add: initial_type_inf_def)
  have w: "lo \<le> sint (int_min ti) \<and> uint (uint_max ti) \<le> hi \<longleftrightarrow> between vs lo hi" if "lo \<le> 0" "0 \<le> hi" for lo hi
    using that unfolding ti_def by (fastforce simp: infer_bounds [OF assms(1)] i between_def)
  have u: "uint (uint_max ti) \<le> hi \<longleftrightarrow> between vs 0 hi" if "0 \<le> hi" "\<not> (\<exists>v\<in>set vs. v < 0)" for hi
    using that unfolding ti_def by (fastforce simp: infer_bounds [OF assms(1)] i between_def)
  have n: "uint_max ti \<le> (127 :: u64) \<longleftrightarrow> uint (uint_max ti) \<le> 127" "uint_max ti \<le> (32767 :: u64) \<longleftrightarrow> uint (uint_max ti) \<le> 32767"
    "uint_max ti \<le> (2147483647 :: u64) \<longleftrightarrow> uint (uint_max ti) \<le> 2147483647"
    "uint_max ti \<le> (255 :: u64) \<longleftrightarrow> uint (uint_max ti) \<le> 255" "uint_max ti \<le> (65535 :: u64) \<longleftrightarrow> uint (uint_max ti) \<le> 65535"
    "uint_max ti \<le> (4294967295 :: u64) \<longleftrightarrow> uint (uint_max ti) \<le> 4294967295"
    by (simp_all add: word_le_def)
  have "infer_scalar_datatype ti = array_type vs"
  proof (cases "\<exists>v\<in>set vs. v < 0")
    case True
    then have "has_signed ti" using flags by simp
    then show ?thesis unfolding infer_scalar_datatype_def array_type_def n
      using True flags(1,2) w [of "- 128" 127] w [of "- 32768" 32767] w [of "- 2147483648" 2147483647] by simp
  next
    case False
    then have "\<not> has_signed ti" "has_uint ti" using flags e by auto
    then show ?thesis unfolding infer_scalar_datatype_def array_type_def n
      using False flags(1,2) u [of 255] u [of 65535] u [of 4294967295] by simp
  qed
  then show ?thesis by (simp add: ti_def)
qed

section \<open>The shape\<close>

text \<open>A node that shows an array of a shape with its elements in C order.\<close>

fun array_shown :: "'n value_env \<Rightarrow> 'n node_env \<Rightarrow> nat list \<Rightarrow> int list \<Rightarrow> 'n \<Rightarrow> bool" where
  "array_shown ve ne [] vs n \<longleftrightarrow> (\<exists>v. vs = [v] \<and> num_node ve ne n v)"
| "array_shown ve ne (d # ds) vs n \<longleftrightarrow>
     (\<exists>items vss. seq_node ne n items \<and> length items = d \<and> vs = concat vss \<and> list_all2 (array_shown ve ne ds) vss items)"

lemma array_no_alias: "array_shown ve ne ds vs n \<Longrightarrow> \<not> fy_node_is_alias ne n"
  by (cases ds) (auto simp: num_node_def seq_node_def)

lemma all2_each: "list_all2 P xs ys \<Longrightarrow> x \<in> set xs \<Longrightarrow> \<exists>y. P x y"
  by (auto simp: list_all2_conv_all_nth in_set_conv_nth)

lemma length_concat_same: "\<forall>ws\<in>set vss. length ws = k \<Longrightarrow> length (concat vss) = length vss * k"
  by (induction vss) auto

lemma array_num_range: "array_shown ve ne ds vs n \<Longrightarrow> set vs \<subseteq> num_range"
proof (induction ds arbitrary: vs n)
  case (Cons d ds)
  then obtain items vss where i: "vs = concat vss" "list_all2 (array_shown ve ne ds) vss items" by auto
  have "set ws \<subseteq> num_range" if "ws \<in> set vss" for ws
    using all2_each [OF i(2) that] Cons.IH by blast
  then show ?case using i(1) by auto
qed (auto simp: num_node_def num_range_def)

lemma array_length: "array_shown ve ne ds vs n \<Longrightarrow> length vs = prod_list ds"
proof (induction ds arbitrary: vs n)
  case (Cons d ds)
  then obtain items vss where i: "length items = d" "vs = concat vss" "list_all2 (array_shown ve ne ds) vss items" by auto
  have "length ws = prod_list ds" if "ws \<in> set vss" for ws
    using all2_each [OF i(3) that] Cons.IH by blast
  then have "length (concat vss) = length vss * prod_list ds" by (simp add: length_concat_same)
  then show ?case using i list_all2_lengthD [OF i(3)] by simp
qed auto

text \<open>The kind of the value of an element.\<close>

lemma element_type:
  assumes "array_shown ve ne ds vs m"
  shows "\<exists>t x. asdf_value_get_type ve [] (Some (node_value ne m p)) = Some (t, Some x, []) \<and> (t = ASDF_VALUE_SEQUENCE \<longleftrightarrow> ds \<noteq> []) \<and>
    (if ds = [] then num_value x (hd vs) else x = node_value ne m p)"
proof (cases ds)
  case Nil
  then obtain v where v: "vs = [v]" "num_node ve ne m v" using assms by auto
  obtain x where x: "infer_value ve [] (node_value ne m p) = Some (ASDF_VALUE_OK, x, [])" "num_value x v"
    using infer_num [OF v(2)] by blast
  have "v_type (node_value ne m p) = ASDF_VALUE_SCALAR" using v(2) by (simp add: node_value_def num_node_def)
  then show ?thesis using x v Nil by (auto simp: asdf_value_get_type_def num_value_def int_types_def)
next
  case (Cons d es)
  then have "v_type (node_value ne m p) = ASDF_VALUE_SEQUENCE" using assms by (auto simp: node_value_def seq_node_def)
  then show ?thesis using Cons by (simp add: asdf_value_get_type_def)
qed

text \<open>The elements of one sequence, given what is inferred from each.\<close>

lemma infer_elements:
  assumes IH: "\<And>vs m v shape ti. array_shown ve ne ds vs m \<Longrightarrow> ds \<noteq> [] \<Longrightarrow> is_seq v m \<Longrightarrow>
        shape = pre \<or> shape = pre @ map of_nat ds \<Longrightarrow>
        infer_inline_work ve ne [] (Infer_sequence v (Suc depth)) shape ti = Some (ASDF_VALUE_OK, pre @ map of_nat ds, fold infer_one vs ti, [])"
    and elems: "list_all2 (array_shown ve ne ds) vss items" "si_rest it = items" "is_seq (si_sequence it) n" "\<not> si_reverse it"
      "shape = pre \<or> shape = pre @ map of_nat ds"
  shows "infer_inline_work ve ne [] (Infer_elements (Some it) (ds \<noteq> []) depth) shape ti =
    Some (ASDF_VALUE_OK, if items = [] then shape else pre @ map of_nat ds, fold infer_one (concat vss) ti, [])"
  using elems
proof (induction items arbitrary: vss it shape ti rule: list.induct)
  case Nil
  then show ?case by (subst infer_inline_work.simps) (auto simp: no_next_item [of it n ne])
next
  case (Cons m items)
  then obtain vs wss where v: "vss = vs # wss" "array_shown ve ne ds vs m" "list_all2 (array_shown ve ne ds) wss items"
    by (auto simp: list_all2_Cons2)
  obtain p where next_it: "asdf_sequence_iter_next ne [] (Some it) =
      (Some (it\<lparr>si_index := si_index it + 1, si_value := Some (node_value ne m p), si_rest := items\<rparr>), [])"
    using next_item [OF Cons.prems(2,3) array_no_alias [OF v(2)] Cons.prems(4)] by blast
  let ?it = "it\<lparr>si_index := si_index it + 1, si_value := Some (node_value ne m p), si_rest := items\<rparr>"
  obtain t x where t: "asdf_value_get_type ve [] (Some (node_value ne m p)) = Some (t, Some x, [])"
      "t = ASDF_VALUE_SEQUENCE \<longleftrightarrow> ds \<noteq> []" "if ds = [] then num_value x (hd vs) else x = node_value ne m p"
    using element_type [OF v(2)] by blast
  have rest: "infer_inline_work ve ne [] (Infer_elements (Some ?it) (ds \<noteq> []) depth) (pre @ map of_nat ds) ti' =
      Some (ASDF_VALUE_OK, pre @ map of_nat ds, fold infer_one (concat wss) ti', [])" for ti'
    using Cons.IH [OF v(3), of ?it "pre @ map of_nat ds" ti'] Cons.prems(3,4) by simp
  show ?case
  proof (cases "ds = []")
    case True
    then obtain a where a: "vs = [a]" "num_node ve ne m a" using v(2) by auto
    have "update_type_inference ve [] (Some x) ti = Some (infer_one a ti, [])"
      using update_num [of x a] t(3) True a by (simp add: num_node_def)
    then show ?thesis using True a t(1,2) rest [of "infer_one a ti"] Cons.prems(5)
      by (subst infer_inline_work.simps) (simp add: next_it v(1))
  next
    case False
    then obtain items' where "seq_node ne m items'" using v(2) by (cases ds) auto
    then have "infer_inline_work ve ne [] (Infer_sequence (node_value ne m p) (Suc depth)) shape ti =
        Some (ASDF_VALUE_OK, pre @ map of_nat ds, fold infer_one vs ti, [])"
      by (intro IH [OF v(2) False node_value_seq Cons.prems(5)])
    then show ?thesis using False t rest [of "fold infer_one vs ti"]
      by (subst infer_inline_work.simps) (simp add: next_it v(1))
  qed
qed

lemma infer_array:
  assumes "array_shown ve ne ds vs n" and "ds \<noteq> []" and "\<forall>d\<in>set ds. 0 < d" and "is_seq v n" and "length pre = depth"
    and "shape = pre \<or> shape = pre @ map of_nat ds"
  shows "infer_inline_work ve ne [] (Infer_sequence v depth) shape ti =
    Some (ASDF_VALUE_OK, pre @ map of_nat ds, fold infer_one vs ti, [])"
  using assms
proof (induction ds arbitrary: vs n v pre depth shape ti)
  case (Cons d ds)
  obtain items vss where i: "seq_node ne n items" "length items = d" "vs = concat vss" "list_all2 (array_shown ve ne ds) vss items"
    using Cons.prems(1) by auto
  have ne: "items \<noteq> []" using i(2) Cons.prems(3) by auto
  obtain it where it: "asdf_sequence_iter_init_ex ne [] v False = (Some it, [])" "si_rest it = items" "si_sequence it = v" "\<not> si_reverse it"
    using start_items [OF Cons.prems(4) i(1)] by blast
  have first: "\<not> fy_node_is_alias ne (items ! 0)" "array_shown ve ne ds (vss ! 0) (items ! 0)"
    using i(4) ne array_no_alias [of ve ne ds "vss ! 0" "items ! 0"] by (auto simp: list_all2_conv_all_nth)
  obtain p where p: "asdf_sequence_get ne [] v 0 = (Some (node_value ne (items ! 0) p), [])"
    using get_item [OF Cons.prems(4) i(1), of 0] ne first(1) by auto
  obtain t x where t: "asdf_value_get_type ve [] (Some (node_value ne (items ! 0) p)) = Some (t, Some x, [])"
      "t = ASDF_VALUE_SEQUENCE \<longleftrightarrow> ds \<noteq> []"
    using element_type [OF first(2)] by blast
  have shape: "(if depth \<ge> length shape then shape @ [of_int (int d)] else shape) = pre @ [of_nat d] \<or>
      (if depth \<ge> length shape then shape @ [of_int (int d)] else shape) = (pre @ [of_nat d]) @ map of_nat ds"
    using Cons.prems(5,6) by auto
  have same: "depth < length shape \<Longrightarrow> shape ! depth = of_nat d" using Cons.prems(5,6) by auto
  have deeper: "infer_inline_work ve ne [] (Infer_sequence v' (Suc depth)) shape' ti' =
      Some (ASDF_VALUE_OK, (pre @ [of_nat d]) @ map of_nat ds, fold infer_one ws ti', [])"
    if "array_shown ve ne ds ws m" "ds \<noteq> []" "is_seq v' m" "shape' = pre @ [of_nat d] \<or> shape' = (pre @ [of_nat d]) @ map of_nat ds"
    for ws m and v' :: "'a asdf_value" and shape' ti'
    using Cons.IH [OF that(1,2) _ that(3) _ that(4)] Cons.prems(3,5) by simp
  have seq: "is_seq (si_sequence it) n" using it(3) Cons.prems(4) by simp
  have loop: "infer_inline_work ve ne [] (Infer_elements (Some it) (ds \<noteq> []) depth)
      (if depth \<ge> length shape then shape @ [of_int (int d)] else shape) ti =
      Some (ASDF_VALUE_OK, (pre @ [of_nat d]) @ map of_nat ds, fold infer_one (concat vss) ti, [])"
    using infer_elements [OF deeper i(4) it(2) seq it(4) shape] ne by simp
  have d: "0 < d" using Cons.prems(3) by simp
  have "t = ASDF_VALUE_SEQUENCE \<longleftrightarrow> ds \<noteq> []" by (rule t(2))
  then show ?case
    using d same p t(1) it(1) loop i(3) items_size [OF Cons.prems(4) i(1)] i(2)
    by (subst infer_inline_work.simps) (cases "depth \<ge> length shape"; simp add: Let_def)
qed simp

section \<open>The bytes\<close>

text \<open>The integers of an array that has a type of its own: with a negative one no other is above the signed range.\<close>

definition one_int_type :: "int list \<Rightarrow> bool" where
  "one_int_type vs \<longleftrightarrow> set vs \<subseteq> num_range \<and> ((\<exists>v\<in>set vs. v < 0) \<longrightarrow> (\<forall>v\<in>set vs. v \<le> 9223372036854775807))"

definition elem_bytes :: "platform \<Rightarrow> asdf_scalar_datatype \<Rightarrow> int \<Rightarrow> bytes" where
  "elem_bytes pf dtype v =
     store_bits pf (asdf_scalar_datatype_size dtype) (nat (v mod 2 ^ (8 * asdf_scalar_datatype_size dtype)))"

lemma array_type_range:
  assumes "one_int_type vs" and "v \<in> set vs"
  shows "(array_type vs, v) \<in> {ASDF_DATATYPE_INT8} \<times> {- 128 .. 127} \<union> {ASDF_DATATYPE_INT16} \<times> {- 32768 .. 32767} \<union>
    {ASDF_DATATYPE_INT32} \<times> {- 2147483648 .. 2147483647} \<union> {ASDF_DATATYPE_INT64} \<times> {- 9223372036854775808 .. 9223372036854775807} \<union>
    {ASDF_DATATYPE_UINT8} \<times> {0 .. 255} \<union> {ASDF_DATATYPE_UINT16} \<times> {0 .. 65535} \<union>
    {ASDF_DATATYPE_UINT32} \<times> {0 .. 4294967295} \<union> {ASDF_DATATYPE_UINT64} \<times> {0 .. 18446744073709551615}"
proof (cases "\<exists>v\<in>set vs. v < 0")
  case True
  then show ?thesis using assms by (auto simp: array_type_def one_int_type_def num_range_def between_def)
next
  case False
  then have "0 \<le> v" using assms(2) by force
  then show ?thesis using False assms by (auto simp: array_type_def one_int_type_def num_range_def between_def)
qed

lemma unat_of_int: "unat (of_int v :: 'w::len word) = nat (v mod 2 ^ LENGTH('w))"
  by (simp add: unat_eq_nat_uint uint_word_of_int)

lemma convert_num:
  assumes "num_node ve ne n v" and "one_int_type vs" and "v \<in> set vs"
  shows "convert_scalar_to_native ve [] (Some (node_value ne n p)) (array_type vs) =
    Some (ASDF_VALUE_OK, Some (elem_bytes (ve_platform ve) (array_type vs) v), [])"
proof -
  obtain x where x: "infer_value ve [] (node_value ne n p) = Some (ASDF_VALUE_OK, x, [])" "num_value x v"
    using infer_num [OF assms(1)] by blast
  note g = num_getters [OF x]
  show ?thesis
    using array_type_range [OF assms(2,3)]
    by (elim UnE SigmaE) (simp_all add: convert_scalar_to_native_def word_out_def g int_result_def elem_bytes_def unat_of_int)
qed

lemma elem_bytes_length: "length (elem_bytes pf dtype v) = asdf_scalar_datatype_size dtype"
  by (simp add: elem_bytes_def store_bits_def)

lemma elems_length: "length (concat (map (elem_bytes pf dtype) vs)) = length vs * asdf_scalar_datatype_size dtype"
  by (induction vs) (simp_all add: elem_bytes_length)

lemma write_next:
  assumes "length buf1 = k" and "length bs = sz" and "sz \<le> length rest"
  shows "mem_write_at (buf1 @ rest) k bs = Some ((buf1 @ bs) @ drop sz rest)"
  using assms by (simp add: mem_write_at_def)

text \<open>The elements of one sequence, given how each is stored.\<close>

lemma parse_elements:
  fixes size_of :: nat and all :: "int list"
  defines "size_of \<equiv> asdf_scalar_datatype_size (array_type all)"
  assumes leaf: "one_int_type all" "Suc depth + length ds = ndim"
    and IH: "\<And>vs m it buf1 rest k. array_shown ve ne ds vs m \<Longrightarrow> ds \<noteq> [] \<Longrightarrow> set vs \<subseteq> set all \<Longrightarrow>
        length buf1 = k * size_of \<Longrightarrow> length vs * size_of \<le> length rest \<Longrightarrow> is_seq (si_sequence it) m \<Longrightarrow> \<not> si_reverse it \<Longrightarrow>
        si_rest it = fy_node_items ne m \<Longrightarrow>
        parse_inline_work ve ne (array_type all) ndim [] (Some it) (Suc depth) (buf1 @ rest) k =
          Some (ASDF_VALUE_OK, buf1 @ concat (map (elem_bytes (ve_platform ve) (array_type all)) vs) @ drop (length vs * size_of) rest,
            k + length vs, [])"
    and elems: "list_all2 (array_shown ve ne ds) vss items" "set (concat vss) \<subseteq> set all" "si_rest it = items"
      "is_seq (si_sequence it) n" "\<not> si_reverse it" "length buf1 = k * size_of" "length (concat vss) * size_of \<le> length rest"
  shows "parse_inline_work ve ne (array_type all) ndim [] (Some it) depth (buf1 @ rest) k =
    Some (ASDF_VALUE_OK, buf1 @ concat (map (elem_bytes (ve_platform ve) (array_type all)) (concat vss)) @
      drop (length (concat vss) * size_of) rest, k + length (concat vss), [])"
  using elems
proof (induction items arbitrary: vss it buf1 rest k rule: list.induct)
  case Nil
  then show ?case by (subst parse_inline_work.simps) (auto simp: no_next_item [of it n ne])
next
  case (Cons m items)
  let ?bs = "\<lambda>vs. concat (map (elem_bytes (ve_platform ve) (array_type all)) vs)"
  obtain vs wss where v: "vss = vs # wss" "array_shown ve ne ds vs m" "list_all2 (array_shown ve ne ds) wss items"
    using Cons.prems(1) by (auto simp: list_all2_Cons2)
  obtain p where next_it: "asdf_sequence_iter_next ne [] (Some it) =
      (Some (it\<lparr>si_index := si_index it + 1, si_value := Some (node_value ne m p), si_rest := items\<rparr>), [])"
    using next_item [OF Cons.prems(3,4) array_no_alias [OF v(2)] Cons.prems(5)] by blast
  let ?it = "it\<lparr>si_index := si_index it + 1, si_value := Some (node_value ne m p), si_rest := items\<rparr>"
  have lens: "length (?bs vs) = length vs * size_of" by (simp add: elems_length size_of_def)
  have rest: "parse_inline_work ve ne (array_type all) ndim [] (Some ?it) depth ((buf1 @ ?bs vs) @ drop (length vs * size_of) rest) (k + length vs) =
      Some (ASDF_VALUE_OK, buf1 @ ?bs (concat vss) @ drop (length (concat vss) * size_of) rest, k + length (concat vss), [])"
    using Cons.IH [OF v(3), of ?it "buf1 @ ?bs vs" "k + length vs" "drop (length vs * size_of) rest"] Cons.prems(2,4-7) lens v(1)
    by (auto simp: algebra_simps)
  show ?case
  proof (cases "ds = []")
    case True
    then obtain a where a: "vs = [a]" "num_node ve ne m a" using v(2) by auto
    have "a \<in> set all" using Cons.prems(2) v(1) a(1) by simp
    then show ?thesis using True a rest leaf(2) Cons.prems(6,7) v(1) convert_num [OF a(2) leaf(1), of p]
      by (subst parse_inline_work.simps)
        (simp add: next_it write_next [OF _ elem_bytes_length] size_of_def [symmetric])
  next
    case False
    then obtain sub where sub: "seq_node ne m sub" using v(2) by (cases ds) auto
    obtain inner where inner: "asdf_sequence_iter_init_ex ne [] (node_value ne m p) False = (Some inner, [])" "si_rest inner = sub"
        "si_sequence inner = node_value ne m p" "\<not> si_reverse inner"
      using start_items [OF node_value_seq [OF sub] sub] by blast
    have room: "length vs * size_of \<le> length rest" using Cons.prems(7) v(1) by (simp add: add_mult_distrib)
    have "parse_inline_work ve ne (array_type all) ndim [] (Some inner) (Suc depth) (buf1 @ rest) k =
        Some (ASDF_VALUE_OK, buf1 @ ?bs vs @ drop (length vs * size_of) rest, k + length vs, [])"
      using Cons.prems(2,6) room v(1) inner sub node_value_seq [OF sub]
      by (intro IH [OF v(2) False]) (auto simp: seq_node_def)
    moreover have "Suc depth \<noteq> ndim" using False leaf(2) by (cases ds) auto
    ultimately show ?thesis using rest inner(1) by (subst parse_inline_work.simps) (simp add: next_it)
  qed
qed

lemma parse_array:
  assumes "array_shown ve ne ds vs n" and "ds \<noteq> []" and "one_int_type all" and "set vs \<subseteq> set all" and "depth + length ds = ndim"
    and "length buf1 = k * asdf_scalar_datatype_size (array_type all)"
    and "length vs * asdf_scalar_datatype_size (array_type all) \<le> length rest"
    and "is_seq (si_sequence it) n" and "\<not> si_reverse it" and "si_rest it = fy_node_items ne n"
  shows "parse_inline_work ve ne (array_type all) ndim [] (Some it) depth (buf1 @ rest) k =
    Some (ASDF_VALUE_OK, buf1 @ concat (map (elem_bytes (ve_platform ve) (array_type all)) vs) @
      drop (length vs * asdf_scalar_datatype_size (array_type all)) rest, k + length vs, [])"
  using assms
proof (induction ds arbitrary: vs n it depth buf1 rest k)
  case (Cons d ds)
  obtain items vss where i: "seq_node ne n items" "vs = concat vss" "list_all2 (array_shown ve ne ds) vss items"
    using Cons.prems(1) by auto
  have deep: "Suc depth + length ds = ndim" using Cons.prems(5) by simp
  have items: "si_rest it = items" using i(1) Cons.prems(10) by (simp add: seq_node_def)
  note inner = Cons.IH [OF _ _ Cons.prems(3) _ deep]
  show ?case
    unfolding i(2)
    by (rule parse_elements [OF Cons.prems(3) deep], rule inner) (use i Cons.prems(4,6-9) items in auto)
qed simp

text \<open>The whole data, in a buffer that has the size of the array.\<close>

lemma parse_data:
  assumes "array_shown ve ne ds vs n" and "ds \<noteq> []" and "one_int_type vs" and "is_seq v n" and "nd_shape nd = map of_nat ds"
    and "dt_type (nd_datatype nd) = array_type vs" and "length buf = length vs * asdf_scalar_datatype_size (array_type vs)"
  shows "asdf_ndarray_parse_inline_data ve ne [] v nd buf =
    Some (ASDF_VALUE_OK, concat (map (elem_bytes (ve_platform ve) (array_type vs)) vs), [])"
proof -
  obtain items where i: "seq_node ne n items" using assms(1,2) by (cases ds) auto
  obtain it where it: "asdf_sequence_iter_init_ex ne [] v False = (Some it, [])" "si_rest it = items" "si_sequence it = v" "\<not> si_reverse it"
    using start_items [OF assms(4) i] by blast
  have "parse_inline_work ve ne (array_type vs) (length ds) [] (Some it) 0 ([] @ buf) 0 =
      Some (ASDF_VALUE_OK, [] @ concat (map (elem_bytes (ve_platform ve) (array_type vs)) vs) @
        drop (length vs * asdf_scalar_datatype_size (array_type vs)) buf, 0 + length vs, [])"
    using assms(3,4,7) it i by (intro parse_array [OF assms(1,2)]) (auto simp: seq_node_def)
  then show ?thesis
    using assms(5-7) it(1) by (simp add: asdf_ndarray_parse_inline_data_def parse_inline_array_level_def)
qed

section \<open>The object\<close>

lemma copy_sequence:
  assumes "seq_node ne n items" and "fy_node_is_attached ne n"
  shows "\<exists>w. asdf_value_copy ne [] (Some (node_value ne n p)) = (Some w, []) \<and> is_seq w n"
proof -
  have t: "v_type (node_value ne n p) = ASDF_VALUE_SEQUENCE" "v_raw_type (node_value ne n p) = ASDF_VALUE_SEQUENCE"
    "v_node (node_value ne n p) = n" "v_tag (node_value ne n p) = None"
    using assms(1) by (simp_all add: node_value_def seq_node_def)
  obtain q where q: "copied_path ne [] (node_value ne n p) = (q, [])"
    by (cases "v_path (node_value ne n p)") (auto simp: copied_path_def dup_def Let_def)
  show ?thesis
    using assms(2) q t by (auto simp: asdf_value_copy_def asdf_value_copy_shallow_def dup_def is_seq_def)
qed

definition inline_array :: "'n value_env \<Rightarrow> nat list \<Rightarrow> int list \<Rightarrow> asdf_ndarray" where
  "inline_array ve ds vs = zero_ndarray\<lparr>nd_shape := map of_nat ds,
     nd_datatype := set_scalar (array_type vs) (of_nat (asdf_scalar_datatype_size (array_type vs))) ASDF_BYTEORDER_DEFAULT zero_datatype,
     nd_byteorder := asdf_host_byteorder (ve_platform ve)\<rparr>"

definition inline_object :: "'n value_env \<Rightarrow> nat list \<Rightarrow> int list \<Rightarrow> 'n asdf_value \<Rightarrow> ('n, 'u) ndarray_object" where
  "inline_object ve ds vs seq =
     \<lparr>no_array = inline_array ve ds vs,
      no_internal = Some (zero_internal\<lparr>ni_file := True, ni_inline_data := Some seq, ni_array_storage := ASDF_ARRAY_STORAGE_INLINE\<rparr>)\<rparr>"

lemma deserialized:
  assumes "array_shown ve ne ds vs n" and "ds \<noteq> []" and "\<forall>d\<in>set ds. 0 < d" and "fy_node_is_attached ne n"
  shows "\<exists>seq. is_seq seq n \<and> asdf_ndarray_deserialize ve ne [] (Some (node_value ne n p)) =
    Some (ASDF_VALUE_OK, Some (inline_object ve ds vs seq), [])"
proof -
  obtain items where i: "seq_node ne n items" using assms(1,2) by (cases ds) auto
  have s: "is_seq (node_value ne n p) n" by (rule node_value_seq [OF i])
  have vs: "vs \<noteq> []" using array_length [OF assms(1)] assms(3) by (auto simp: prod_list_zero_iff)
  obtain w where w: "asdf_value_copy ne [] (Some (node_value ne n p)) = (Some w, [])" "is_seq w n"
    using copy_sequence [OF i assms(4)] by blast
  have t: "infer_scalar_datatype (fold infer_one vs initial_type_inf) = array_type vs"
    by (rule inferred_type [OF array_num_range [OF assms(1)] vs])
  have known: "array_type vs \<noteq> ASDF_DATATYPE_UNKNOWN" by (simp add: array_type_def)
  have "infer_inline_array_datatype ve ne [] (node_value ne n p) 0 [] initial_type_inf =
      Some (ASDF_VALUE_OK, map of_nat ds, fold infer_one vs initial_type_inf, [])"
    using infer_array [OF assms(1-3) s, of "[]" 0 "[]"] by (simp add: infer_inline_array_datatype_def)
  then show ?thesis
    using w known s by (auto simp: asdf_ndarray_deserialize_def asdf_value_as_mapping_def asdf_value_as_sequence_def is_seq_def
        asdf_ndarray_deserialize_inline_def inline_description_def t inline_object_def inline_array_def Let_def)
qed

section \<open>The data\<close>

lemma size_of_shape: "foldl (*) (a :: u64) (map of_nat ds) = a * of_nat (prod_list ds)"
  by (induction ds arbitrary: a) (simp_all add: mult.assoc)

lemma inline_nbytes:
  assumes "ds \<noteq> []" and "length vs = prod_list ds" and "vs \<noteq> []"
    and "length vs * asdf_scalar_datatype_size (array_type vs) < size_mod"
  shows "unat (asdf_ndarray_nbytes (Some (inline_array ve ds vs))) =
    length vs * asdf_scalar_datatype_size (array_type vs)"
proof -
  let ?sz = "asdf_scalar_datatype_size (array_type vs)"
  have sz: "0 < ?sz" by (simp add: array_type_def)
  have n: "length vs < 2 ^ 64"
    using assms(4) sz by (metis One_nat_def Suc_leI le_trans mult.right_neutral mult_le_mono2 not_le size_mod_def)
  have small: "?sz \<le> 8" by (simp add: array_type_def)
  have d: "fst (asdf_datatype_size (set_scalar (array_type vs) (of_nat ?sz) ASDF_BYTEORDER_DEFAULT zero_datatype)) = of_nat ?sz"
    by (simp add: set_scalar_def zero_datatype_def array_type_def)
  have "unat (of_nat (length vs) :: u64) = length vs" using n by (simp add: unat_of_nat)
  then have "(of_nat (length vs) :: u64) \<noteq> 0" using assms(3) by (metis length_0_conv unat_0)
  then have "asdf_ndarray_nbytes (Some (inline_array ve ds vs)) = of_nat (length vs) * of_nat ?sz"
    using assms(1,2) by (simp add: asdf_ndarray_nbytes_def asdf_ndarray_size_def inline_array_def size_of_shape d)
  also have "\<dots> = of_nat (length vs * ?sz)" by simp
  finally show ?thesis using assms(4) by (simp add: unat_of_nat size_mod_def del: of_nat_mult)
qed

text \<open>The block that holds the data of an array in the tree: it belongs to no file.\<close>

lemma materialized:
  assumes "ctx_heap (af_ctx (bw_file w)) = []" and "unat (asdf_ndarray_nbytes (Some nd)) = length bs" and "bs \<noteq> []"
    and "\<And>buf. length buf = length bs \<Longrightarrow> asdf_ndarray_parse_inline_data ve ne [] seq nd buf = Some (ASDF_VALUE_OK, bs, [])"
  shows "\<exists>b. materialize_inline ve ne env [] nd seq True w = Some (Some b, [], w) \<and> \<not> bk_should_close b \<and>
    bi_data (bk_info b) = Some bs \<and> bi_data_size (bk_info b) = length bs \<and> \<not> data_is_compressed (bk_info b)"
  using assms by (simp add: materialize_inline_def asdf_file_block_create_def asdf_block_data_alloc_def zero_block_def
      zero_block_info_def asdf_block_info_deinit_def write_block_buffer_def Let_def)

lemma block_in_memory:
  assumes "\<not> bk_should_close b" and "bi_data (bk_info b) = Some bs" and "\<not> data_is_compressed (bk_info b)"
  shows "asdf_block_data env h (Some b) w = Some (Some bs, Some (bi_data_size (bk_info b)), Some b, w)"
  using assms by (simp add: asdf_block_data_def asdf_block_data_impl_def Let_def)

text \<open>C8. An array of integers that stands in the tree as nested sequences is read with its shape and the smallest
  integer type that holds all its elements; its data, which comes to be when it is first asked for, is the
  elements in C order, each in the bytes of that type, and it stays the same when it is asked for again. The header
  documents null for the data of such an array instead.\<close>

theorem inline_array_read:
  assumes "array_shown ve ne ds vs n" and "ds \<noteq> []" and "\<forall>d\<in>set ds. 0 < d" and "one_int_type vs" and "fy_node_is_attached ne n"
    and "length vs * asdf_scalar_datatype_size (array_type vs) < size_mod" and "ctx_heap (af_ctx (bw_file w)) = []"
  shows "\<exists>a a'. asdf_ndarray_deserialize ve ne [] (Some (node_value ne n p)) = Some (ASDF_VALUE_OK, Some a, []) \<and>
    nd_shape (no_array a) = map of_nat ds \<and> dt_type (nd_datatype (no_array a)) = array_type vs \<and>
    asdf_ndarray_storage (Some a) = ASDF_ARRAY_STORAGE_INLINE \<and>
    asdf_ndarray_data ve ne penv env hc [] (Some a) w =
      Some (Some (concat (map (elem_bytes (ve_platform ve) (array_type vs)) vs)),
            Some (length vs * asdf_scalar_datatype_size (array_type vs)), Some a', [], w) \<and>
    no_array a' = no_array a \<and>
    asdf_ndarray_data ve ne penv env hc [] (Some a') w =
      Some (Some (concat (map (elem_bytes (ve_platform ve) (array_type vs)) vs)),
            Some (length vs * asdf_scalar_datatype_size (array_type vs)), Some a', [], w)"
proof -
  let ?sz = "asdf_scalar_datatype_size (array_type vs)" and ?bs = "concat (map (elem_bytes (ve_platform ve) (array_type vs)) vs)"
  obtain seq where seq: "is_seq seq n" "asdf_ndarray_deserialize ve ne [] (Some (node_value ne n p)) =
      Some (ASDF_VALUE_OK, Some (inline_object ve ds vs seq :: ('a, 'b) ndarray_object), [])"
    using deserialized [OF assms(1-3,5)] by blast
  let ?a = "inline_object ve ds vs seq :: ('a, 'b) ndarray_object"
  have len: "length ?bs = length vs * ?sz" by (rule elems_length)
  have vs: "vs \<noteq> []" using array_length [OF assms(1)] assms(3) by (auto simp: prod_list_zero_iff)
  have sz: "0 < ?sz" by (simp add: array_type_def)
  obtain b where b: "materialize_inline ve ne env [] (no_array ?a) seq True w = Some (Some b, [], w)" "\<not> bk_should_close b"
      "bi_data (bk_info b) = Some ?bs" "bi_data_size (bk_info b) = length ?bs" "\<not> data_is_compressed (bk_info b)"
  proof -
    have "?bs \<noteq> []" using vs sz len by (metis length_0_conv mult_eq_0_iff not_gr_zero)
    moreover have "asdf_ndarray_parse_inline_data ve ne [] seq (no_array ?a) buf = Some (ASDF_VALUE_OK, ?bs, [])"
      if "length buf = length ?bs" for buf
      using that len by (intro parse_data [OF assms(1,2,4) seq(1)]) (simp_all add: inline_object_def inline_array_def set_scalar_def zero_datatype_def)
    ultimately show thesis
      using materialized [OF assms(7), of "no_array ?a" ?bs ve ne seq env] that len
        inline_nbytes [OF assms(2) array_length [OF assms(1)] vs assms(6), of ve] by (auto simp: inline_object_def)
  qed
  define a' where "a' = ?a\<lparr>no_internal := map_option (\<lambda>i. i\<lparr>ni_block := Some b\<rparr>) (no_internal ?a)\<rparr>"
  have first: "asdf_ndarray_data ve ne penv env hc [] (Some ?a) w = Some (Some ?bs, Some (length vs * ?sz), Some a', [], w)"
    using b(1,4) len block_in_memory [OF b(2,3,5)]
    by (simp add: asdf_ndarray_data_def asdf_ndarray_data_impl_def inline_object_def zero_internal_def a'_def)
  have again: "asdf_ndarray_data ve ne penv env hc [] (Some a') w = Some (Some ?bs, Some (length vs * ?sz), Some a', [], w)"
    using b(4) len block_in_memory [OF b(2,3,5)]
    by (simp add: asdf_ndarray_data_def asdf_ndarray_data_impl_def inline_object_def zero_internal_def a'_def)
  show ?thesis
    using seq(2) first again
    by (intro exI [of _ ?a] exI [of _ a']) (simp add: inline_object_def inline_array_def a'_def asdf_ndarray_storage_def zero_internal_def
        set_scalar_def zero_datatype_def)
qed

section \<open>Concrete arrays\<close>

text \<open>One row of two integers.\<close>

definition sample_rows :: yaml where
  "sample_rows = Items [Items [Plain (int_dec (- 1)), Plain (int_dec 300)]]"

lemma yaml_num: "- 9223372036854775808 \<le> v \<Longrightarrow> v \<le> 18446744073709551615 \<Longrightarrow> num_node yaml_values yaml_nodes (Plain (int_dec v)) v"
  by (simp add: num_node_def plain_node_def yaml_values_def yaml_nodes_def quoted_style_def)

lemma sample_rows_shown: "array_shown yaml_values yaml_nodes [1, 2] [- 1, 300] sample_rows"
proof -
  have row: "array_shown yaml_values yaml_nodes [2] [- 1, 300] (Items [Plain (int_dec (- 1)), Plain (int_dec 300)])"
    by (simp only: array_shown.simps, intro exI [of _ "[Plain (int_dec (- 1)), Plain (int_dec 300)]"] exI [of _ "[[- 1], [300]]"])
      (simp add: yaml_seq yaml_num del: int_dec_def)
  show ?thesis
    unfolding sample_rows_def
    by (subst array_shown.simps(2), intro exI [of _ "[Items [Plain (int_dec (- 1)), Plain (int_dec 300)]]"] exI [of _ "[[- 1, 300]]"])
      (simp only: list_all2_Cons list_all2_Nil row yaml_seq, simp)
qed

lemma sample_rows_type: "array_type [- 1, 300] = ASDF_DATATYPE_INT16"
  by (simp add: array_type_def between_def)

lemma be_enc_2: "be_enc 2 v = [of_nat (v div 256), of_nat v]"
  by (simp add: numeral_2_eq_2)

theorem inline_array_read_witness:
  "\<exists>a a'. asdf_ndarray_deserialize yaml_values yaml_nodes [] (Some (node_value yaml_nodes sample_rows None)) = Some (ASDF_VALUE_OK, Some a, []) \<and>
    nd_shape (no_array a) = [1, 2] \<and> dt_type (nd_datatype (no_array a)) = ASDF_DATATYPE_INT16 \<and>
    asdf_ndarray_data yaml_values yaml_nodes sample_env sample_block_env [] [] (Some a) sample_world =
      Some (Some [255, 255, 44, 1], Some 4, Some a', [], sample_world)"
proof -
  have p: "\<forall>d\<in>set [1, 2 :: nat]. 0 < d" "[1, 2 :: nat] \<noteq> []" by simp_all
  have s: "one_int_type [- 1, 300]" by (simp add: one_int_type_def num_range_def)
  have a: "fy_node_is_attached yaml_nodes sample_rows" by (simp add: yaml_nodes_def)
  have n: "length [- 1, 300 :: int] * asdf_scalar_datatype_size (array_type [- 1, 300]) < size_mod" by (simp add: sample_rows_type size_mod_def)
  have e: "concat (map (elem_bytes (ve_platform yaml_values) (array_type [- 1, 300])) [- 1, 300]) = [255, 255, 44, 1]"
    unfolding sample_rows_type by (simp add: elem_bytes_def store_bits_def yaml_values_def little_platform_def be_enc_2)
  show ?thesis
    using inline_array_read [OF sample_rows_shown p(2,1) s a n sample_world_counted(3), of None sample_env sample_block_env "[]"]
    unfolding e unfolding sample_rows_type by auto
qed

end
