(* ===== verification/Asdf_Ndarray_Write.thy ===== *)
theory Asdf_Ndarray_Write
  imports Asdf_Ndarray_Read Asdf_Datatype_Write
begin

text \<open>
  Building an array, copying it, and writing it to the tree, with its data in a block of the file or as nested
  sequences (\<^verbatim>\<open>src/core/ndarray.c\<close>). What is set in a mapping or appended to a sequence is consumed, as in
  \<^verbatim>\<open>Asdf_Datatype_Write\<close>. There is one file; a block that is not detached is one of it.
\<close>

section \<open>Building an array\<close>

text \<open>Asking for the number of bytes of an array that is not empty fills in the size of its datatype.\<close>

definition with_datatype_size :: "('n, 'u) ndarray_object \<Rightarrow> ('n, 'u) ndarray_object" where
  "with_datatype_size a =
     (if asdf_ndarray_size (Some (no_array a)) = 0 then a
      else a\<lparr>no_array := (no_array a)\<lparr>nd_datatype := snd (asdf_datatype_size (nd_datatype (no_array a)))\<rparr>\<rparr>)"

text \<open>The file is bound to the block for its errors.\<close>

definition asdf_file_ndarray_data_alloc ::
  "'u block_env \<Rightarrow> heap \<Rightarrow> bool \<Rightarrow> ('n, 'u) ndarray_object \<Rightarrow> block_world \<Rightarrow>
   (bytes option \<times> ('n, 'u) ndarray_object \<times> heap \<times> block_world) option" where
  "asdf_file_ndarray_data_alloc env h has_file nd w =
     (case asdf_ndarray_internal h (Some nd) True of
        (Some nd, h) \<Rightarrow>
          (case no_internal nd of
             None \<Rightarrow> Some (None, nd, h, block_oom has_file w)
           | Some i \<Rightarrow> do {
               let nbytes = unat (asdf_ndarray_nbytes (Some (no_array nd)));
               let nd = with_datatype_size nd;
               (block, w) \<leftarrow> (case ni_block i of
                   Some b \<Rightarrow> Some (Some b, w)
                 | None \<Rightarrow> asdf_file_block_create env has_file None nbytes w);
               let with_block = (\<lambda>block. nd\<lparr>no_internal := Some (i\<lparr>ni_block := block\<rparr>)\<rparr>);
               Some (if block = None \<or> nbytes = 0 then (None, with_block block, h, w)
                     else (case asdf_block_data_alloc nbytes block w of
                         (buf, block, w) \<Rightarrow> (buf, with_block block, h, w)))
             })
      | (None, h) \<Rightarrow> None)"

definition asdf_ndarray_data_alloc ::
  "'u block_env \<Rightarrow> heap \<Rightarrow> ('n, 'u) ndarray_object option \<Rightarrow> block_world \<Rightarrow>
   (bytes option \<times> ('n, 'u) ndarray_object option \<times> heap \<times> block_world) option" where
  "asdf_ndarray_data_alloc env h nd w =
     (case nd of
        None \<Rightarrow> Some (None, None, h, w)
      | Some a \<Rightarrow>
          map_option (\<lambda>(buf, a, h, w). (buf, Some a, h, w))
            (asdf_file_ndarray_data_alloc env h (case no_internal a of None \<Rightarrow> False | Some i \<Rightarrow> ni_file i) a w))"

text \<open>The source is read, and the buffer of the block written, as far as the array goes.\<close>

definition asdf_ndarray_data_copy ::
  "'u block_env \<Rightarrow> heap \<Rightarrow> ('n, 'u) ndarray_object option \<Rightarrow> bytes option \<Rightarrow> block_world \<Rightarrow>
   (asdf_ndarray_err \<times> ('n, 'u) ndarray_object option \<times> heap \<times> block_world) option" where
  "asdf_ndarray_data_copy env h nd src w =
     (case (nd, src) of
        (Some a, Some src) \<Rightarrow> do {
          let nbytes = unat (asdf_ndarray_nbytes (Some (no_array a)));
          (dst, nd, h, w) \<leftarrow> asdf_ndarray_data_alloc env h (Some (with_datatype_size a)) w;
          (case dst of
             None \<Rightarrow> Some (if nbytes = 0 then ASDF_NDARRAY_OK else ASDF_NDARRAY_ERR_OOM, nd, h, w)
           | Some dst \<Rightarrow> do {
               bs \<leftarrow> mem_read src 0 nbytes;
               buf \<leftarrow> mem_write_at dst 0 bs;
               Some (ASDF_NDARRAY_OK,
                 map_option (\<lambda>a. a\<lparr>no_internal :=
                   map_option (\<lambda>i. i\<lparr>ni_block := map_option (write_block_buffer buf) (ni_block i)\<rparr>) (no_internal a)\<rparr>) nd, h, w)
             })
        }
      | _ \<Rightarrow> Some (ASDF_NDARRAY_ERR_INVAL, nd, h, w))"

definition asdf_ndarray_data_dealloc ::
  "'u block_env \<Rightarrow> ('n, 'u) ndarray_object option \<Rightarrow> block_world \<Rightarrow> (('n, 'u) ndarray_object option \<times> block_world) option" where
  "asdf_ndarray_data_dealloc env nd w =
     (case Option.bind nd no_internal of
        None \<Rightarrow> Some (nd, w)
      | Some i \<Rightarrow>
          if ni_block i = None then Some (nd, w)
          else do {
            w \<leftarrow> asdf_block_destroy env (ni_block i) w;
            Some (map_option (\<lambda>a. a\<lparr>no_internal := None\<rparr>) nd, w)
          })"

definition asdf_ndarray_compression_set ::
  "heap \<Rightarrow> ('n, 'u) ndarray_object option \<Rightarrow> bytes option \<Rightarrow> block_world \<Rightarrow>
   int \<times> ('n, 'u) ndarray_object option \<times> heap \<times> block_world" where
  "asdf_ndarray_compression_set h nd name w =
     (let (nd, h) = asdf_ndarray_internal h nd True in
      case Option.bind nd no_internal of
        None \<Rightarrow> (- 1, nd, h, block_oom False w)
      | Some i \<Rightarrow> (0, map_option (\<lambda>a. a\<lparr>no_internal := Some (i\<lparr>ni_write_compression := name\<rparr>)\<rparr>) nd, h, w))"

definition asdf_ndarray_deinit_impl ::
  "'u block_env \<Rightarrow> ('n, 'u) ndarray_object option \<Rightarrow> block_world \<Rightarrow> block_world option" where
  "asdf_ndarray_deinit_impl env nd w = asdf_block_destroy env (Option.bind (Option.bind nd no_internal) ni_block) w"

section \<open>Copying an array\<close>

text \<open>The bytes of a block in a new block of its own, which is compressed as the first one when it is written. The
  flag tells whether it worked. The handle of the source may learn the name of its compression and hold its
  data; one that was opened for the copy is closed.\<close>

definition copy_block_contents ::
  "'u block_env \<Rightarrow> heap \<Rightarrow> bool \<Rightarrow> 'u asdf_block option \<Rightarrow> block_world \<Rightarrow>
   (bool \<times> 'u asdf_block option \<times> 'u asdf_block option \<times> block_world) option" where
  "copy_block_contents env hc has_file src_block w = do {
     (data, sz, src_block, w) \<leftarrow> asdf_block_data env hc src_block w;
     let size_of = (case sz of None \<Rightarrow> 0 | Some n \<Rightarrow> n);
     if data = None \<and> size_of > 0 then Some (False, None, src_block, w)
     else do {
       (dst, w) \<leftarrow> asdf_file_block_create env has_file None size_of w;
       if dst = None then Some (False, None, src_block, block_oom has_file w)
       else do {
         let (ok, dst, w) =
           (if size_of = 0 then (True, dst, w)
            else (case asdf_block_data_alloc size_of dst w of (buf, dst, w) \<Rightarrow> (buf \<noteq> None, dst, w)));
         if \<not> ok then do {
           w \<leftarrow> asdf_block_destroy env dst w;
           Some (False, None, src_block, block_oom has_file w)
         }
         else do {
           dst \<leftarrow> (if size_of = 0 then Some dst
                   else do { bs \<leftarrow> data; bs \<leftarrow> mem_read bs 0 size_of; Some (map_option (write_block_buffer bs) dst) });
           (name, src_block, w) \<leftarrow> asdf_block_compression src_block w;
           (ret, dst, w) \<leftarrow> (if name = [] then Some (0, dst, w) else asdf_block_compression_set env name dst w);
           if ret \<noteq> 0 then do { w \<leftarrow> asdf_block_destroy env dst w; Some (False, None, src_block, w) }
           else Some (True, dst, src_block, w)
         }
       }
     }
   }"

definition asdf_ndarray_copy_block_data ::
  "parser_env \<Rightarrow> 'u block_env \<Rightarrow> heap \<Rightarrow> bool \<Rightarrow> ('n, 'u) ndarray_object \<Rightarrow> block_world \<Rightarrow>
   (bool \<times> 'u asdf_block option \<times> block_world) option" where
  "asdf_ndarray_copy_block_data penv env hc has_file src w =
     (case no_internal src of
        None \<Rightarrow> Some (True, None, w)
      | Some i \<Rightarrow>
          (case ni_block i of
             Some b \<Rightarrow> map_option (\<lambda>(ok, dst, _, w). (ok, dst, w)) (copy_block_contents env hc has_file (Some b) w)
           | None \<Rightarrow>
               if \<not> ni_file i then Some (True, None, w)
               else do {
                 (src_block, w) \<leftarrow> asdf_block_open penv True (nd_source (no_array src)) w;
                 if src_block = None then Some (False, None, w)
                 else do {
                   (ok, dst, src_block, w) \<leftarrow> copy_block_contents env hc has_file src_block w;
                   w \<leftarrow> asdf_block_close env src_block w;
                   Some (ok, dst, w)
                 }
               }))"

definition asdf_ndarray_copy_impl ::
  "'n node_env \<Rightarrow> parser_env \<Rightarrow> 'u block_env \<Rightarrow> heap \<Rightarrow> heap \<Rightarrow> bool \<Rightarrow> ('n, 'u) ndarray_object \<Rightarrow> block_world \<Rightarrow>
   (('n, 'u) ndarray_object option \<times> heap \<times> block_world) option" where
  "asdf_ndarray_copy_impl ne penv env hc h has_file src w =
     (let nd = no_array src;
          (ok1, h) = (if nd_shape nd = [] then (True, h) else alloc h);
          (ok2, h) = (if \<not> ok1 \<or> nd_strides nd = [] then (True, h) else alloc h);
          (dt, h) = (if ok1 \<and> ok2 then asdf_datatype_copy_impl h (nd_datatype nd) else (None, h));
          (ok3, h) = (if dt = None then (False, h) else alloc h)
      in
      case (if ok3 then dt else None) of
        None \<Rightarrow> Some (None, h, block_oom has_file w)
      | Some dt \<Rightarrow>
          let internal = zero_internal\<lparr>ni_file := has_file,
                ni_array_storage := (case no_internal src of None \<Rightarrow> ASDF_ARRAY_STORAGE_DEFAULT | Some i \<Rightarrow> ni_array_storage i)\<rparr>;
              copy = (\<lambda>i. \<lparr>no_array = nd\<lparr>nd_datatype := dt\<rparr>, no_internal = Some i\<rparr>)
          in
          (case Option.bind (no_internal src) ni_inline_data of
             Some inline_data \<Rightarrow>
               (case asdf_value_copy ne h (Some inline_data) of
                  (None, h) \<Rightarrow> Some (None, h, block_oom has_file w)
                | (Some c, h) \<Rightarrow> Some (Some (copy (internal\<lparr>ni_inline_data := Some c\<rparr>)), h, w))
           | None \<Rightarrow> do {
               (ok, dst, w) \<leftarrow> asdf_ndarray_copy_block_data penv env hc has_file src w;
               Some (if ok then (Some (copy (internal\<lparr>ni_block := dst\<rparr>)), h, w) else (None, h, block_oom has_file w))
             }))"

section \<open>Elements in the tree\<close>

text \<open>Elements of a size, read from the data in the byte order of the host.\<close>

definition native_elems :: "platform \<Rightarrow> bytes option \<Rightarrow> nat \<Rightarrow> nat \<Rightarrow> nat \<Rightarrow> nat list option" where
  "native_elems pf data start sz count =
     (if count = 0 then Some []
      else do {
        bs \<leftarrow> data;
        those (map (\<lambda>i. map_option (load_bits pf) (mem_read bs (start + i * sz) sz)) [0..<count])
      })"

text \<open>The innermost dimension. The number of elements is passed on as an \<^verbatim>\<open>int\<close>. Half floats are converted to an
  array that is not used; what is written are the bytes of the halves as floats.\<close>

definition serialize_leaf ::
  "('s, 'n) tree_ops \<Rightarrow> platform \<Rightarrow> asdf_scalar_datatype \<Rightarrow> bytes option \<Rightarrow> nat \<Rightarrow> u64 \<Rightarrow> heap \<Rightarrow> 's \<Rightarrow>
   ('n asdf_value option \<times> heap \<times> 's) option" where
  "serialize_leaf ops pf dtype data start dim_size h s =
     (let count = nat (sint (ucast dim_size :: 32 word));
          elems = (\<lambda>sz. native_elems pf data start sz count)
      in
      case dtype of
        ASDF_DATATYPE_BOOL8 \<Rightarrow> do {
          bs \<leftarrow> elems 1;
          if \<exists>b \<in> set bs. 1 < b then None else asdf_sequence_of_bool ops h (map (\<lambda>b. b = 1) bs) s
        }
      | ASDF_DATATYPE_INT8 \<Rightarrow> do { bs \<leftarrow> elems 1; asdf_sequence_of_signed ops h (map of_nat bs :: 8 word list) s }
      | ASDF_DATATYPE_INT16 \<Rightarrow> do { bs \<leftarrow> elems 2; asdf_sequence_of_signed ops h (map of_nat bs :: 16 word list) s }
      | ASDF_DATATYPE_INT32 \<Rightarrow> do { bs \<leftarrow> elems 4; asdf_sequence_of_signed ops h (map of_nat bs :: 32 word list) s }
      | ASDF_DATATYPE_INT64 \<Rightarrow> do { bs \<leftarrow> elems 8; asdf_sequence_of_signed ops h (map of_nat bs :: 64 word list) s }
      | ASDF_DATATYPE_UINT8 \<Rightarrow> do { bs \<leftarrow> elems 1; asdf_sequence_of_unsigned ops h (map of_nat bs :: 8 word list) s }
      | ASDF_DATATYPE_UINT16 \<Rightarrow> do { bs \<leftarrow> elems 2; asdf_sequence_of_unsigned ops h (map of_nat bs :: 16 word list) s }
      | ASDF_DATATYPE_UINT32 \<Rightarrow> do { bs \<leftarrow> elems 4; asdf_sequence_of_unsigned ops h (map of_nat bs :: 32 word list) s }
      | ASDF_DATATYPE_UINT64 \<Rightarrow> do { bs \<leftarrow> elems 8; asdf_sequence_of_unsigned ops h (map of_nat bs :: 64 word list) s }
      | ASDF_DATATYPE_FLOAT16 \<Rightarrow>
          if \<not> has_float16 pf then Some (None, h, s)
          else
            let (ok, h) = alloc h in
            if \<not> ok then Some (None, h, s)
            else do {
              _ \<leftarrow> native_elems pf data start 2 (unat dim_size);
              bs \<leftarrow> elems 4;
              asdf_sequence_of_float ops h (map (decode 24 8) bs) s
            }
      | ASDF_DATATYPE_FLOAT32 \<Rightarrow> do { bs \<leftarrow> elems 4; asdf_sequence_of_float ops h (map (decode 24 8) bs) s }
      | ASDF_DATATYPE_FLOAT64 \<Rightarrow> do { bs \<leftarrow> elems 8; asdf_sequence_of_double ops h (map (decode 53 11) bs) s }
      | _ \<Rightarrow> Some (None, h, s))"

text \<open>The sequences of an outer dimension in turn; the number of elements written so far goes along. A sequence that
  is not made makes the loop give up.\<close>

fun append_rows ::
  "('s, 'n) tree_ops \<Rightarrow> (u64 \<Rightarrow> heap \<Rightarrow> 's \<Rightarrow> ('n asdf_value option \<times> u64 \<times> heap \<times> 's) option) \<Rightarrow> 'n asdf_value \<Rightarrow> nat \<Rightarrow>
   u64 \<Rightarrow> heap \<Rightarrow> 's \<Rightarrow> (bool \<times> u64 \<times> heap \<times> 's) option" where
  "append_rows ops row sq 0 elem_offset h s = Some (True, elem_offset, h, s)"
| "append_rows ops row sq (Suc n) elem_offset h s =
     (case row elem_offset h s of
        None \<Rightarrow> None
      | Some (None, elem_offset, h, s) \<Rightarrow> Some (False, elem_offset, h, s)
      | Some (Some inner, elem_offset, h, s) \<Rightarrow>
          (case asdf_sequence_append ops (Some sq) (Some inner) s of
             None \<Rightarrow> None
           | Some (err, s) \<Rightarrow> if err \<noteq> ASDF_VALUE_OK then None else append_rows ops row sq n elem_offset h s))"

definition flow_styled ::
  "('s, 'n) tree_ops \<Rightarrow> 'n asdf_value option \<Rightarrow> u64 \<Rightarrow> heap \<Rightarrow> 's \<Rightarrow> ('n asdf_value option \<times> u64 \<times> heap \<times> 's) option" where
  "flow_styled ops sq elem_offset h s =
     (case sq of
        None \<Rightarrow> Some (None, elem_offset, h, s)
      | Some sq \<Rightarrow>
          map_option (\<lambda>(sq, s). (Some sq, elem_offset, h, s)) (asdf_sequence_set_style ops sq ASDF_YAML_NODE_STYLE_FLOW s))"

primrec asdf_ndarray_serialize_seq_level ::
  "('s, 'n) tree_ops \<Rightarrow> platform \<Rightarrow> asdf_datatype \<Rightarrow> bytes option \<Rightarrow> u64 list \<Rightarrow> u64 \<Rightarrow> heap \<Rightarrow> 's \<Rightarrow>
   ('n asdf_value option \<times> u64 \<times> heap \<times> 's) option" where
  "asdf_ndarray_serialize_seq_level ops pf d data [] = (\<lambda>elem_offset h s.
     case asdf_sequence_create ops h s of (sq, h, s) \<Rightarrow> flow_styled ops sq elem_offset h s)"
| "asdf_ndarray_serialize_seq_level ops pf d data (dim_size # dims) = (\<lambda>elem_offset h s.
     if dims = [] then do {
       (sq, h, s) \<leftarrow> serialize_leaf ops pf (dt_type d) data (unat (elem_offset * dt_size d)) dim_size h s;
       flow_styled ops sq (if sq = None then elem_offset else elem_offset + dim_size) h s
     }
     else
       (case asdf_sequence_create ops h s of
          (None, h, s) \<Rightarrow> Some (None, elem_offset, h, s)
        | (Some sq, h, s) \<Rightarrow> do {
            (ok, elem_offset, h, s) \<leftarrow>
              append_rows ops (asdf_ndarray_serialize_seq_level ops pf d data dims) sq (unat dim_size) elem_offset h s;
            if \<not> ok then Some (None, elem_offset, h, destroyed ops (Some sq) s)
            else flow_styled ops (Some sq) elem_offset h s
          }))"

section \<open>Arrays in the tree\<close>

text \<open>The array comes back with the block its data was put in.\<close>

type_synonym ('s, 'n, 'u) array_written = "(asdf_value_err \<times> ('n, 'u) ndarray_object \<times> heap \<times> 's \<times> block_world) option"

definition asdf_ndarray_serialize_inline_data ::
  "('s, 'n) tree_ops \<Rightarrow> parser_env \<Rightarrow> 'u block_env \<Rightarrow> heap \<Rightarrow> ('n, 'u) ndarray_object \<Rightarrow> heap \<Rightarrow> 's \<Rightarrow> block_world \<Rightarrow>
   ('n asdf_value option \<times> ('n, 'u) ndarray_object \<times> heap \<times> 's \<times> block_world) option" where
  "asdf_ndarray_serialize_inline_data ops penv env hc a h s w = do {
     (data, _, nd, h, w) \<leftarrow> asdf_ndarray_data (to_values ops s) (to_nodes ops s) penv env hc h (Some a) w;
     a \<leftarrow> nd;
     (sq, _, h, s) \<leftarrow> asdf_ndarray_serialize_seq_level ops (ve_platform (to_values ops s)) (nd_datatype (no_array a)) data
        (nd_shape (no_array a)) 0 h s;
     Some (sq, a, h, s, w)
   }"

definition asdf_ndarray_serialize_inline ::
  "('s, 'n) tree_ops \<Rightarrow> parser_env \<Rightarrow> 'u block_env \<Rightarrow> heap \<Rightarrow> 'n asdf_value \<Rightarrow> ('n, 'u) ndarray_object \<Rightarrow> heap \<Rightarrow> 's \<Rightarrow>
   block_world \<Rightarrow> ('s, 'n, 'u) array_written" where
  "asdf_ndarray_serialize_inline ops penv env hc ndarray_map a h s w = do {
     (inline_data, a, h, s, w) \<leftarrow> asdf_ndarray_serialize_inline_data ops penv env hc a h s w;
     if inline_data = None then Some (ASDF_VALUE_ERR_EMIT_FAILURE, a, h, s, w)
     else do {
       (err, h, s) \<leftarrow> asdf_mapping_set ops h (Some ndarray_map) (Some (bytes_of ''data'')) inline_data s;
       if err \<noteq> ASDF_VALUE_OK then None
       else if nd_shape (no_array a) \<noteq> [] then Some (ASDF_VALUE_OK, a, h, s, w)
       else (case asdf_sequence_create ops h s of
           (None, h, s) \<Rightarrow> None
         | (shape_seq, h, s) \<Rightarrow> do {
             (err, h, s) \<leftarrow> asdf_mapping_set ops h (Some ndarray_map) (Some (bytes_of ''shape'')) shape_seq s;
             if err \<noteq> ASDF_VALUE_OK then None else Some (ASDF_VALUE_OK, a, h, s, w)
           })
     }
   }"

text \<open>Numbers appended in turn by the argument.\<close>

fun append_numbers ::
  "(u64 \<Rightarrow> heap \<Rightarrow> 's \<Rightarrow> (asdf_value_err \<times> heap \<times> 's) option) \<Rightarrow> u64 list \<Rightarrow> heap \<Rightarrow> 's \<Rightarrow> (asdf_value_err \<times> heap \<times> 's) option" where
  "append_numbers append_one [] h s = Some (ASDF_VALUE_OK, h, s)"
| "append_numbers append_one (x # xs) h s =
     (case append_one x h s of
        None \<Rightarrow> None
      | Some (err, h, s) \<Rightarrow> if err \<noteq> ASDF_VALUE_OK then Some (err, h, s) else append_numbers append_one xs h s)"

definition set_numbers ::
  "('s, 'n) tree_ops \<Rightarrow> ('n asdf_value \<Rightarrow> u64 \<Rightarrow> heap \<Rightarrow> 's \<Rightarrow> (asdf_value_err \<times> heap \<times> 's) option) \<Rightarrow> 'n asdf_value \<Rightarrow> bytes \<Rightarrow>
   u64 list \<Rightarrow> heap \<Rightarrow> 's \<Rightarrow> (asdf_value_err \<times> heap \<times> 's) option" where
  "set_numbers ops append_one ndarray_map key xs h s =
     (case asdf_sequence_create ops h s of
        (None, h, s) \<Rightarrow> Some (ASDF_VALUE_ERR_OOM, h, s)
      | (Some sq, h, s) \<Rightarrow> do {
          (err, h, s) \<leftarrow> append_numbers (append_one sq) xs h s;
          if err \<noteq> ASDF_VALUE_OK then Some (err, h, destroyed ops (Some sq) s)
          else do {
            (sq, s) \<leftarrow> asdf_sequence_set_style ops sq ASDF_YAML_NODE_STYLE_FLOW s;
            (err, h, s) \<leftarrow> asdf_mapping_set ops h (Some ndarray_map) (Some key) (Some sq) s;
            if err \<noteq> ASDF_VALUE_OK then None else Some (ASDF_VALUE_OK, h, s)
          }
        })"

definition asdf_ndarray_serialize_strides ::
  "('s, 'n) tree_ops \<Rightarrow> 'n asdf_value \<Rightarrow> u64 list \<Rightarrow> heap \<Rightarrow> 's \<Rightarrow> (asdf_value_err \<times> heap \<times> 's) option" where
  "asdf_ndarray_serialize_strides ops ndarray_map strides h s =
     (if \<forall>x \<in> set strides. x = 1 then Some (ASDF_VALUE_OK, h, s)
      else set_numbers ops (\<lambda>sq x h s. asdf_sequence_append_signed ops h (Some sq) x s) ndarray_map (bytes_of ''strides'') strides h s)"

definition asdf_ndarray_serialize_block_data ::
  "('s, 'n) tree_ops \<Rightarrow> asdf_ndarray \<Rightarrow> 'n asdf_value \<Rightarrow> heap \<Rightarrow> 's \<Rightarrow> (asdf_value_err \<times> heap \<times> 's) option" where
  "asdf_ndarray_serialize_block_data ops nd ndarray_map h s = do {
     (err, h, s) \<leftarrow> set_numbers ops (\<lambda>sq x h s. asdf_sequence_append_unsigned ops h (Some sq) x s) ndarray_map
        (bytes_of ''shape'') (nd_shape nd) h s;
     if err \<noteq> ASDF_VALUE_OK then Some (err, h, s)
     else
       (case asdf_byteorder_to_string
           (if nd_byteorder nd = ASDF_BYTEORDER_DEFAULT then ASDF_BYTEORDER_LITTLE else nd_byteorder nd) of
          None \<Rightarrow> Some (ASDF_VALUE_ERR_EMIT_FAILURE, h, s)
        | byteorder \<Rightarrow> do {
            (err, h, s) \<leftarrow> asdf_mapping_set_string0 ops h ndarray_map (Some (bytes_of ''byteorder'')) byteorder s;
            if err \<noteq> ASDF_VALUE_OK then Some (err, h, s)
            else do {
              (err, h, s) \<leftarrow> (if nd_offset nd = 0 then Some (ASDF_VALUE_OK, h, s)
                 else asdf_mapping_set_unsigned ops h ndarray_map (Some (bytes_of ''offset'')) (nd_offset nd) s);
              if err \<noteq> ASDF_VALUE_OK \<or> nd_strides nd = [] then Some (err, h, s)
              else asdf_ndarray_serialize_strides ops ndarray_map (nd_strides nd) h s
            }
          })
   }"

definition append_array_block ::
  "parser_env \<Rightarrow> 'u block_env \<Rightarrow> bytes option \<Rightarrow> 'u asdf_block \<Rightarrow> block_world \<Rightarrow>
   (asdf_value_err \<times> 'u asdf_block \<times> block_world) option" where
  "append_array_block penv env write_compression b w =
     (if \<not> bk_detached b then Some (ASDF_VALUE_OK, b, w)
      else do {
        (ret, block, w) \<leftarrow> (case write_compression of
            None \<Rightarrow> Some (0, Some b, w)
          | Some name \<Rightarrow> asdf_block_compression_set env name (Some b) w);
        b \<leftarrow> block;
        if ret \<noteq> 0 then Some (ASDF_VALUE_ERR_EMIT_FAILURE, b, w)
        else do {
          (ok, block, w) \<leftarrow> asdf_block_append penv True (Some b) w;
          b \<leftarrow> block;
          Some (if ok then ASDF_VALUE_OK else ASDF_VALUE_ERR_OOM, b, w)
        }
      })"

definition asdf_ndarray_serialize_block ::
  "('s, 'n) tree_ops \<Rightarrow> parser_env \<Rightarrow> 'u block_env \<Rightarrow> heap \<Rightarrow> 'n asdf_value \<Rightarrow> ('n, 'u) ndarray_object \<Rightarrow> heap \<Rightarrow> 's \<Rightarrow>
   block_world \<Rightarrow> ('s, 'n, 'u) array_written" where
  "asdf_ndarray_serialize_block ops penv env hc ndarray_map a h s w = do {
     (a, h, w) \<leftarrow>
       (if asdf_ndarray_block (Some a) \<noteq> None then Some (a, h, w)
        else do {
          (_, _, nd, h, w) \<leftarrow> asdf_ndarray_data (to_values ops s) (to_nodes ops s) penv env hc h (Some a) w;
          a \<leftarrow> nd;
          Some (a, h, w)
        });
     i \<leftarrow> no_internal a;
     (case ni_block i of
        None \<Rightarrow> Some (ASDF_VALUE_ERR_EMIT_FAILURE, a, h, s, w)
      | Some b \<Rightarrow> do {
          (err, b, w) \<leftarrow> append_array_block penv env (ni_write_compression i) b w;
          let a = a\<lparr>no_internal := Some (i\<lparr>ni_block := Some b\<rparr>)\<rparr>;
          if err \<noteq> ASDF_VALUE_OK then Some (err, a, h, s, w)
          else do {
            (err, h, s) \<leftarrow> asdf_mapping_set_signed ops h ndarray_map (Some (bytes_of ''source'')) (of_nat (bi_index (bk_info b)) :: u64) s;
            Some (err, a, h, s, w)
          }
        })
   }"

definition asdf_ndarray_serialize_consume ::
  "'u block_env \<Rightarrow> ('n, 'u) ndarray_object \<Rightarrow> block_world \<Rightarrow> (('n, 'u) ndarray_object \<times> block_world) option" where
  "asdf_ndarray_serialize_consume env a w =
     (case no_internal a of
        None \<Rightarrow> Some (a, w)
      | Some i \<Rightarrow> do {
          w \<leftarrow> asdf_block_destroy env (ni_block i) w;
          Some (a\<lparr>no_internal := None\<rparr>, w)
        })"

text \<open>The part of the mapping that depends on where the data goes. An array that has none is written with an empty
  sequence; the flag says whether the data is in the tree.\<close>

definition serialize_data ::
  "('s, 'n) tree_ops \<Rightarrow> parser_env \<Rightarrow> 'u block_env \<Rightarrow> heap \<Rightarrow> 'n asdf_value \<Rightarrow> ('n, 'u) ndarray_object \<Rightarrow> heap \<Rightarrow> 's \<Rightarrow>
   block_world \<Rightarrow> (bool \<times> asdf_value_err \<times> ('n, 'u) ndarray_object \<times> heap \<times> 's \<times> block_world) option" where
  "serialize_data ops penv env hc ndarray_map a h s w =
     (let has_data = (case no_internal a of None \<Rightarrow> False | Some i \<Rightarrow> ni_block i \<noteq> None \<or> ni_inline_data i \<noteq> None);
          per_array = (case no_internal a of None \<Rightarrow> ASDF_ARRAY_STORAGE_DEFAULT | Some i \<Rightarrow> ni_array_storage i);
          file_level = cfg_array_storage (af_config (bw_file w));
          write_inline = (if file_level \<noteq> 0 then file_level = 1 else per_array = ASDF_ARRAY_STORAGE_INLINE)
      in
      if \<not> has_data then
        (case asdf_sequence_create ops h s of
           (None, h, s) \<Rightarrow> Some (True, ASDF_VALUE_ERR_OOM, a, h, s, w)
         | (inline_data, h, s) \<Rightarrow> do {
             (err, h, s) \<leftarrow> asdf_mapping_set ops h (Some ndarray_map) (Some (bytes_of ''data'')) inline_data s;
             if err \<noteq> ASDF_VALUE_OK then None else Some (True, ASDF_VALUE_OK, a, h, s, w)
           })
      else if write_inline then map_option (Pair True) (asdf_ndarray_serialize_inline ops penv env hc ndarray_map a h s w)
      else map_option (Pair False) (asdf_ndarray_serialize_block ops penv env hc ndarray_map a h s w))"

text \<open>\<open>remove_tag\<close> is \<^verbatim>\<open>fy_node_remove_tag\<close>, \<open>datatype_ext\<close> what is registered for the tag of datatypes.\<close>

definition asdf_ndarray_serialize ::
  "('s, 'n) tree_ops \<Rightarrow> ('n \<Rightarrow> 's \<Rightarrow> 's) \<Rightarrow> ('s, 'n, asdf_datatype) writer option \<Rightarrow> parser_env \<Rightarrow> 'u block_env \<Rightarrow> heap \<Rightarrow> bool \<Rightarrow>
   ('n, 'u) ndarray_object option \<Rightarrow> heap \<Rightarrow> 's \<Rightarrow> block_world \<Rightarrow>
   ('n asdf_value option \<times> ('n, 'u) ndarray_object option \<times> heap \<times> 's \<times> block_world) option" where
  "asdf_ndarray_serialize ops remove_tag datatype_ext penv env hc has_file obj h s w =
     (case (has_file, obj) of
        (True, Some a) \<Rightarrow>
          let consume = (case asdf_ndarray_block obj of None \<Rightarrow> False | Some b \<Rightarrow> bk_detached b) in
          (case asdf_mapping_create ops h s of
             (None, h, s) \<Rightarrow> Some (None, obj, h, s, w)
           | (Some ndarray_map, h, s) \<Rightarrow> do {
               let failed = (\<lambda>a h s w. Some (None, Some a, h, destroyed ops (Some ndarray_map) s, w));
               (is_inline, err, a, h, s, w) \<leftarrow> serialize_data ops penv env hc ndarray_map a h s w;
               if err \<noteq> ASDF_VALUE_OK then failed a h s w
               else (case datatype_ext of
                 None \<Rightarrow> failed a h s w
               | Some ext \<Rightarrow> do {
                   (datatype_val, _, h, s) \<leftarrow> asdf_value_of_extension_type ops h (nd_datatype (no_array a)) ext s;
                   (case datatype_val of
                      None \<Rightarrow> failed a h s w
                    | Some v \<Rightarrow> do {
                        (err, h, s) \<leftarrow> asdf_mapping_set ops h (Some ndarray_map) (Some (bytes_of ''datatype'')) datatype_val
                           (remove_tag (v_node v) s);
                        if err \<noteq> ASDF_VALUE_OK then None
                        else do {
                          (err, h, s) \<leftarrow> (if is_inline then Some (ASDF_VALUE_OK, h, s)
                             else asdf_ndarray_serialize_block_data ops (no_array a) ndarray_map h s);
                          if err \<noteq> ASDF_VALUE_OK then failed a h s w
                          else do {
                            (a, w) \<leftarrow> (if consume then asdf_ndarray_serialize_consume env a w else Some (a, w));
                            Some (asdf_value_of_mapping (Some ndarray_map), Some a, h, s, w)
                          }
                        }
                      })
                 })
             })
      | _ \<Rightarrow> Some (None, obj, h, s, w))"

end
