(* ===== verification/Asdf_Ndarray_Write_Laws.thy ===== *)
theory Asdf_Ndarray_Write_Laws
  imports Asdf_Ndarray_Write Asdf_Ndarray_Inline_Laws Asdf_Datatype_Write_Laws
begin

text \<open>
  An array that is built, written to the tree with its data in a block of the file, and read from there is the same
  array with the same data. The document behaves as in \<^verbatim>\<open>Asdf_Tree_Laws\<close>; a tag that is set and removed again leaves
  a node as it was. Allocations succeed.
\<close>

section \<open>Numbers in the tree\<close>

lemma scalar_set:
  assumes laws: "document_laws ops nodes" and m: "nodes s (v_node m) = Some (Mapping ps)"
    and r: "node_of (point ops s) [] = Some (Some q, [])" "requests (point ops s) q t"
    and k: "key \<notin> keys_of ps" "short_text key"
  shows "\<exists>s'. mapping_set_with ops [] m (Some key) node_of s = Some (ASDF_VALUE_OK, [], s') \<and>
    nodes s' = (nodes s)(v_node m \<mapsto> Mapping (ps @ [(key, t)]))"
proof -
  obtain n s1 where s1: "create_requested ops (node_of (point ops s) []) s = Some (Some n, [], s1)"
      "nodes s n = None" "nodes s1 = (nodes s)(n \<mapsto> t)"
    using requested [OF laws r] by blast
  have "n \<noteq> v_node m" using s1(2) m by auto
  then obtain s2 where s2: "asdf_mapping_set_node_ex ops [] (Some m) (Some key) (Some n) False s1 = Some (ASDF_VALUE_OK, [], s2)"
      "nodes s2 = (nodes s1)(n := None, v_node m \<mapsto> Mapping (ps @ [(key, t)]))"
    using node_set [OF laws, of s1 m ps n t key] s1(3) m k by auto
  have "nodes s2 = (nodes s)(v_node m \<mapsto> Mapping (ps @ [(key, t)]))" using s2(2) s1(2,3) by (auto simp: fun_eq_iff)
  then show ?thesis
    using s1(1) s2(1) by (simp add: mapping_set_with_def asdf_mapping_set_node_def document(1) [OF laws])
qed

lemma word_request: "requests dp (asdf_node_of_unsigned (w :: u64)) (Number w)"
  by (simp add: requests_def asdf_node_of_unsigned_def)

lemma positive_sint: "0 \<le> sint (w :: u64) \<Longrightarrow> sint w = uint w"
  using uint_of_int [of "sint w"] sint_lt [of w] by simp

lemma positive_request: "0 \<le> sint w \<Longrightarrow> requests dp (asdf_node_of_signed (w :: u64)) (Number w)"
  by (simp add: requests_def asdf_node_of_signed_def positive_sint)

text \<open>Numbers that are appended, and set under a key.\<close>

definition appends :: "('s \<Rightarrow> 'n \<Rightarrow> content option) \<Rightarrow> ('n asdf_value \<Rightarrow> u64 \<Rightarrow> heap \<Rightarrow> 's \<Rightarrow> (asdf_value_err \<times> heap \<times> 's) option) \<Rightarrow>
   u64 \<Rightarrow> bool" where
  "appends nodes append_one x \<longleftrightarrow> (\<forall>sq ts s. nodes s (v_node sq) = Some (Sequence ts) \<longrightarrow>
     (\<exists>s'. append_one sq x [] s = Some (ASDF_VALUE_OK, [], s') \<and> nodes s' = (nodes s)(v_node sq \<mapsto> Sequence (ts @ [Number x]))))"

lemma unsigned_appends:
  assumes "document_laws ops nodes"
  shows "appends nodes (\<lambda>sq x h s. asdf_sequence_append_unsigned ops h (Some sq) x s) x"
  unfolding appends_def asdf_sequence_append_unsigned_def
  by (intro allI impI appended [where node_of = "\<lambda>dp h. Some (Some (asdf_node_of_unsigned x), h)", OF assms _ HOL.refl word_request])

lemma signed_appends:
  assumes "document_laws ops nodes" and "0 \<le> sint x"
  shows "appends nodes (\<lambda>sq x h s. asdf_sequence_append_signed ops h (Some sq) x s) x"
  unfolding appends_def asdf_sequence_append_signed_def
  by (intro allI impI
      appended [where node_of = "\<lambda>dp h. Some (Some (asdf_node_of_signed x), h)", OF assms(1) _ HOL.refl positive_request [OF assms(2)]])

lemma numbers_appended:
  assumes "\<forall>x \<in> set xs. appends nodes append_one x" and "nodes s (v_node sq) = Some (Sequence ts)"
  shows "\<exists>s'. append_numbers (append_one sq) xs [] s = Some (ASDF_VALUE_OK, [], s') \<and>
    nodes s' = (nodes s)(v_node sq \<mapsto> Sequence (ts @ map Number xs))"
  using assms
proof (induction xs arbitrary: s ts)
  case (Cons x xs)
  have "appends nodes append_one x" using Cons.prems(1) by simp
  then obtain s1 where s1: "append_one sq x [] s = Some (ASDF_VALUE_OK, [], s1)"
      "nodes s1 = (nodes s)(v_node sq \<mapsto> Sequence (ts @ [Number x]))"
    using Cons.prems(2) unfolding appends_def by blast
  have ok: "\<forall>x \<in> set xs. appends nodes append_one x" and n: "nodes s1 (v_node sq) = Some (Sequence (ts @ [Number x]))"
    using Cons.prems(1) s1(2) by simp_all
  obtain s2 where "append_numbers (append_one sq) xs [] s1 = Some (ASDF_VALUE_OK, [], s2)"
      "nodes s2 = (nodes s1)(v_node sq \<mapsto> Sequence ((ts @ [Number x]) @ map Number xs))"
    using Cons.IH [OF ok n] by blast
  then have "append_numbers (append_one sq) (x # xs) [] s = Some (ASDF_VALUE_OK, [], s2)"
    "nodes s2 = (nodes s)(v_node sq \<mapsto> Sequence (ts @ map Number (x # xs)))"
    using s1 by simp_all
  then show ?case by blast
qed auto

lemma numbers_set:
  assumes laws: "document_laws ops nodes" and m: "nodes s (v_node m) = Some (Mapping ps)" and xs: "\<forall>x \<in> set xs. appends nodes append_one x"
    and k: "key \<notin> keys_of ps" "short_text key"
  shows "\<exists>s'. set_numbers ops append_one m key xs [] s = Some (ASDF_VALUE_OK, [], s') \<and>
    nodes s' = (nodes s)(v_node m \<mapsto> Mapping (ps @ [(key, Sequence (map Number xs))]))"
proof -
  let ?t = "Sequence (map Number xs)"
  obtain sq s1 where sq: "asdf_sequence_create ops [] s = (Some sq, [], s1)" "nodes s (v_node sq) = None"
      "nodes s1 = (nodes s)(v_node sq \<mapsto> Sequence [])" "v_style sq = Some ASDF_YAML_NODE_STYLE_AUTO"
    using sequence_created [OF laws] by blast
  have d: "v_node sq \<noteq> v_node m" using sq(2) m by auto
  have n1: "nodes s1 (v_node sq) = Some (Sequence [])" using sq(3) by simp
  obtain s2 where s2: "append_numbers (append_one sq) xs [] s1 = Some (ASDF_VALUE_OK, [], s2)"
      "nodes s2 = (nodes s1)(v_node sq \<mapsto> ?t)"
    using numbers_appended [OF xs n1, unfolded append_Nil] by blast
  have n2: "nodes s2 (v_node sq) = Some ?t" using s2(2) by simp
  have "v_style sq \<noteq> None" using sq(4) by simp
  then obtain sq' s3 where s3: "asdf_sequence_set_style ops sq ASDF_YAML_NODE_STYLE_FLOW s2 = Some (sq', s3)"
      "moved nodes s2 (v_node sq) ?t (v_node sq') s3"
    using style_set [OF laws n2] unfolding asdf_sequence_set_style_def by blast
  have m3: "nodes s3 (v_node m) = Some (Mapping ps)" and sq3: "nodes s3 (v_node sq') = Some ?t" and d3: "v_node sq' \<noteq> v_node m"
    using s3(2) s2(2) sq(3) m d by (auto simp: moved_def)
  obtain s4 where s4: "asdf_mapping_set ops [] (Some m) (Some key) (Some sq') s3 = Some (ASDF_VALUE_OK, [], s4)"
      "nodes s4 = (nodes s3)(v_node sq' := None, v_node m \<mapsto> Mapping (ps @ [(key, ?t)]))"
    using value_set [OF laws m3 sq3 d3 k] by blast
  have "nodes s4 = (nodes s)(v_node m \<mapsto> Mapping (ps @ [(key, ?t)]))"
  proof -
    have "nodes s (v_node sq') = None" using s3(2) s2(2) sq(2,3) by (cases "v_node sq' = v_node sq") (simp_all add: moved_def)
    moreover have "nodes s3 = (nodes s2)(v_node sq := None, v_node sq' \<mapsto> ?t)" using s3(2) by (simp add: moved_def)
    ultimately show ?thesis unfolding s4(2) s2(2) sq(3) using sq(2) d by (simp add: fun_eq_iff)
  qed
  then show ?thesis using sq(1) s2(1) s3(1) s4(1) by (simp add: set_numbers_def)
qed

section \<open>The description of the block\<close>

definition written_byteorder :: "asdf_ndarray \<Rightarrow> asdf_byteorder" where
  "written_byteorder nd = (if nd_byteorder nd = ASDF_BYTEORDER_DEFAULT then ASDF_BYTEORDER_LITTLE else nd_byteorder nd)"

definition trivial_strides :: "asdf_ndarray \<Rightarrow> bool" where
  "trivial_strides nd \<longleftrightarrow> (\<forall>x \<in> set (nd_strides nd). x = 1)"

definition array_keys :: "asdf_ndarray \<Rightarrow> (bytes \<times> content) list" where
  "array_keys nd =
     [(bytes_of ''shape'', Sequence (map Number (nd_shape nd))),
      (bytes_of ''byteorder'', Text (the (asdf_byteorder_to_string (written_byteorder nd))))] @
     (if nd_offset nd = 0 then [] else [(bytes_of ''offset'', Number (nd_offset nd))]) @
     (if trivial_strides nd then [] else [(bytes_of ''strides'', Sequence (map Number (nd_strides nd)))])"

lemma array_key_names:
  "distinct [bytes_of ''source'', bytes_of ''datatype'', bytes_of ''shape'', bytes_of ''byteorder'', bytes_of ''offset'', bytes_of ''strides'',
     bytes_of ''data'']"
  "short_text (bytes_of ''source'')" "short_text (bytes_of ''datatype'')" "short_text (bytes_of ''shape'')"
  "short_text (bytes_of ''byteorder'')" "short_text (bytes_of ''offset'')" "short_text (bytes_of ''strides'')"
  by (simp_all add: bytes_of_def short_text_def printable_def INT_MAX_def)

text \<open>The arrays that can be written: a byte order, and as many strides as dimensions, all positive,
  if there are any.\<close>

definition array_ok :: "asdf_ndarray \<Rightarrow> bool" where
  "array_ok nd \<longleftrightarrow> nd_byteorder nd \<noteq> ASDF_BYTEORDER_INVALID \<and> (\<forall>x \<in> set (nd_strides nd). 0 < sint x) \<and>
     (nd_strides nd = [] \<or> length (nd_strides nd) = length (nd_shape nd))"

lemma block_data_written:
  assumes laws: "document_laws ops nodes" and ok: "array_ok nd" and m: "nodes s (v_node m) = Some (Mapping ps)"
    and k: "keys_of ps \<subseteq> {bytes_of ''source'', bytes_of ''datatype''}"
  shows "\<exists>s'. asdf_ndarray_serialize_block_data ops nd m [] s = Some (ASDF_VALUE_OK, [], s') \<and>
    nodes s' = (nodes s)(v_node m \<mapsto> Mapping (ps @ array_keys nd))"
proof -
  note keys = array_key_names(1) [simplified]
  obtain name where name: "asdf_byteorder_to_string (written_byteorder nd) = Some name" "short_text name"
    using ok by (cases "nd_byteorder nd") (auto simp: written_byteorder_def array_ok_def bytes_of_def short_text_def printable_def INT_MAX_def)
  let ?p1 = "ps @ [(bytes_of ''shape'', Sequence (map Number (nd_shape nd)))]"
  let ?p2 = "?p1 @ [(bytes_of ''byteorder'', Text name)]"
  define p3 where "p3 = ?p2 @ (if nd_offset nd = 0 then [] else [(bytes_of ''offset'', Number (nd_offset nd))])"
  have "bytes_of ''shape'' \<notin> keys_of ps" using k keys by auto
  then obtain s1 where s1: "set_numbers ops (\<lambda>sq x h s. asdf_sequence_append_unsigned ops h (Some sq) x s) m (bytes_of ''shape'') (nd_shape nd) [] s =
      Some (ASDF_VALUE_OK, [], s1)" "nodes s1 = (nodes s)(v_node m \<mapsto> Mapping ?p1)"
    using numbers_set [OF laws m, of "nd_shape nd" "\<lambda>sq x h s. asdf_sequence_append_unsigned ops h (Some sq) x s" "bytes_of ''shape''"]
      unsigned_appends [OF laws] array_key_names(4) by blast
  have "bytes_of ''byteorder'' \<notin> keys_of ?p1" using k keys by (auto simp: keys_of_def)
  then obtain s2 where s2: "asdf_mapping_set_string0 ops [] m (Some (bytes_of ''byteorder'')) (Some name) s1 = Some (ASDF_VALUE_OK, [], s2)"
      "nodes s2 = (nodes s1)(v_node m \<mapsto> Mapping ?p2)"
    using string_set [OF laws, of s1 m ?p1 "bytes_of ''byteorder''" name] s1(2) name(2) array_key_names(5)
    by auto
  obtain s3 where s3: "(if nd_offset nd = 0 then Some (ASDF_VALUE_OK, [], s2)
        else asdf_mapping_set_unsigned ops [] m (Some (bytes_of ''offset'')) (nd_offset nd) s2) = Some (ASDF_VALUE_OK, [], s3)"
      "nodes s3 = (nodes s2)(v_node m \<mapsto> Mapping p3)"
  proof (cases "nd_offset nd = 0")
    case True
    then show ?thesis using that [of s2] s2(2) by (simp add: p3_def)
  next
    case False
    have "bytes_of ''offset'' \<notin> keys_of ?p2" using k keys by (auto simp: keys_of_def)
    then show ?thesis
      using False that s2(2) scalar_set [OF laws, of s2 m ?p2 "\<lambda>dp h. Some (Some (asdf_node_of_unsigned (nd_offset nd)), h)"
          "asdf_node_of_unsigned (nd_offset nd)" "Number (nd_offset nd)" "bytes_of ''offset''"] word_request array_key_names(6)
      by (auto simp: asdf_mapping_set_unsigned_def p3_def)
  qed
  have p: "ps @ array_keys nd = p3 @ (if trivial_strides nd then [] else [(bytes_of ''strides'', Sequence (map Number (nd_strides nd)))])"
    by (simp add: array_keys_def p3_def name(1))
  have m3: "nodes s3 (v_node m) = Some (Mapping p3)" using s3(2) by simp
  have fresh: "bytes_of ''strides'' \<notin> keys_of p3" using k keys by (auto simp: keys_of_def p3_def)
  have each: "\<forall>x \<in> set (nd_strides nd). appends nodes (\<lambda>sq x h s. asdf_sequence_append_signed ops h (Some sq) x s) x"
    using signed_appends [OF laws] ok by (auto simp: array_ok_def order_less_imp_le)
  obtain s4 where s4: "(if nd_strides nd = [] then Some (ASDF_VALUE_OK, [], s3)
        else asdf_ndarray_serialize_strides ops m (nd_strides nd) [] s3) = Some (ASDF_VALUE_OK, [], s4)"
      "nodes s4 = (nodes s3)(v_node m \<mapsto> Mapping (ps @ array_keys nd))"
  proof (cases "trivial_strides nd")
    case True
    then have "nodes s3 = (nodes s3)(v_node m \<mapsto> Mapping (ps @ array_keys nd))" using m3 unfolding p by (simp add: fun_upd_idem)
    then show ?thesis
      using that True by (simp add: trivial_strides_def asdf_ndarray_serialize_strides_def)
  next
    case False
    obtain s' where s': "set_numbers ops (\<lambda>sq x h s. asdf_sequence_append_signed ops h (Some sq) x s) m (bytes_of ''strides'') (nd_strides nd) [] s3 =
        Some (ASDF_VALUE_OK, [], s')" "nodes s' = (nodes s3)(v_node m \<mapsto> Mapping (p3 @ [(bytes_of ''strides'', Sequence (map Number (nd_strides nd)))]))"
      using numbers_set [OF laws m3 each fresh array_key_names(7)] by blast
    have "\<not> (\<forall>x \<in> set (nd_strides nd). x = 1)" "nd_strides nd \<noteq> []" using False by (auto simp: trivial_strides_def)
    then show ?thesis
      using that [of s'] s' unfolding p asdf_ndarray_serialize_strides_def if_not_P [OF False] by (simp only: if_False HOL.refl simp_thms)
  qed
  have "nodes s4 = (nodes s)(v_node m \<mapsto> Mapping (ps @ array_keys nd))" using s4(2) s3(2) s2(2) s1(2) by (simp add: fun_eq_iff)
  then show ?thesis
    using s1(1) s2(1) s3(1) s4(1) name(1)
    by (auto simp: asdf_ndarray_serialize_block_data_def written_byteorder_def split: if_splits)
qed

section \<open>The datatype\<close>

text \<open>What is written for a datatype, as a field of a mapping without a tag. The laws say that a tag that is set and
  removed again leaves the node as it was.\<close>

definition tag_laws :: "('s, 'n) tree_ops \<Rightarrow> ('n \<Rightarrow> 's \<Rightarrow> 's) \<Rightarrow> ('s \<Rightarrow> 'n \<Rightarrow> content option) \<Rightarrow> bool" where
  "tag_laws ops remove_tag nodes \<longleftrightarrow>
     (\<forall>tag s. \<exists>t s'. to_tag_normalize ops tag s = (Some t, s') \<and> nodes s' = nodes s) \<and>
     (\<forall>s n t c. nodes s n = Some c \<longrightarrow> (\<exists>s'. fy_node_set_tag ops n t s = (True, s') \<and> nodes (remove_tag n s') = nodes s))"

definition datatype_writer :: "('s, 'n) tree_ops \<Rightarrow> nat \<Rightarrow> bytes \<Rightarrow> ('s, 'n, asdf_datatype) writer" where
  "datatype_writer ops ext tag =
     \<lparr>wr_ext = ext, wr_tags = [tag], wr_serialize = Some (\<lambda>h d s. asdf_datatype_serialize ops True h (Some d) s)\<rparr>"

lemma top_written:
  assumes laws: "document_laws ops nodes" and w: "storable d" and shape: "dt_shape d = []"
  shows "\<exists>v s'. asdf_datatype_serialize ops True [] (Some d) s = Some (Some v, [], s') \<and> nodes s (v_node v) = None \<and>
    nodes s' = (nodes s)(v_node v \<mapsto> desc_tree (desc_of d))"
proof -
  have "writes nodes (asdf_datatype_serialize_impl ops d False) (desc_tree (desc_of d))"
  proof (cases "asdf_datatype_is_structured d")
    case True
    then have "\<forall>e \<in> set (dt_fields d). storable e" using w by (cases d) (simp add: asdf_datatype_is_structured_def)
    then show ?thesis using struct_written [OF laws True] datatype_written [OF laws] by blast
  next
    case False
    then have s: "asdf_datatype_is_scalar d" by (simp add: asdf_datatype_is_scalar_def asdf_datatype_is_structured_def)
    have "asdf_datatype_serialize_impl ops d False h s = asdf_datatype_serialize_scalar ops h d s" for h s
      using s shape by (simp add: asdf_datatype_serialize_impl.simps [of ops d])
    then show ?thesis using scalar_written [OF laws w s] by (simp add: writes_def)
  qed
  then obtain v s' where "asdf_datatype_serialize_impl ops d False [] s = Some (ASDF_VALUE_OK, Some v, [], s')"
      "nodes s (v_node v) = None" "nodes s' = (nodes s)(v_node v \<mapsto> desc_tree (desc_of d))"
    unfolding writes_def by blast
  then show ?thesis by (simp add: asdf_datatype_serialize_def)
qed

lemma extension_written:
  assumes laws: "document_laws ops nodes" and tags: "tag_laws ops remove_tag nodes" and w: "storable d" "dt_shape d = []"
  shows "\<exists>v slot s'. asdf_value_of_extension_type ops [] d (datatype_writer ops ext tag) s = Some (Some v, slot, [], s') \<and>
    nodes s (v_node v) = None \<and> nodes (remove_tag (v_node v) s') = (nodes s)(v_node v \<mapsto> desc_tree (desc_of d))"
proof -
  obtain v s1 where v: "asdf_datatype_serialize ops True [] (Some d) s = Some (Some v, [], s1)" "nodes s (v_node v) = None"
      "nodes s1 = (nodes s)(v_node v \<mapsto> desc_tree (desc_of d))"
    using top_written [OF laws w] by blast
  obtain t s2 where t: "to_tag_normalize ops tag s1 = (Some t, s2)" "nodes s2 = nodes s1" using tags unfolding tag_laws_def by blast
  have "nodes s2 (v_node v) = Some (desc_tree (desc_of d))" using t(2) v(3) by simp
  then obtain s3 where s3: "fy_node_set_tag ops (v_node v) t s2 = (True, s3)" "nodes (remove_tag (v_node v) s3) = nodes s2"
    using tags unfolding tag_laws_def by blast
  show ?thesis
    using v t s3 by (simp add: asdf_value_of_extension_type_def datatype_writer_def tag_value_def dup_def)
qed

section \<open>Reading the properties\<close>

lemma number_property:
  assumes "is_map v n" and "fy_node_mapping_lookup_value_by_simple_key ne n key = Some c" and i: "int_node ve ne c w"
  shows "asdf_get_property_impl ve ne exts [] v key ASDF_VALUE_UINT64 tag = Some (ASDF_VALUE_OK, Some (Typed_64 w), [])"
proof -
  obtain p where p: "asdf_mapping_get ne [] v key = (Some (node_value ne c p), [])"
    using get_key [OF assms(1,2)] i by (auto simp: int_node_def)
  have num: "num_node ve ne c (uint w)" using i uint_u64 [of w] by (simp add: num_node_def int_node_def uint_above)
  obtain x where x: "infer_value ve [] (node_value ne c p) = Some (ASDF_VALUE_OK, x, [])" "num_value x (uint w)"
    using infer_num [OF num] by blast
  have "v_type (node_value ne c p) = ASDF_VALUE_SCALAR" using i by (simp add: node_value_def int_node_def)
  moreover have "is_equivalent_type (v_type x) ASDF_VALUE_UINT64"
    using x(2) by (auto simp: num_value_def is_equivalent_type_def signed_types_def int_types_def)
  moreover have "asdf_value_as_uint64 ve [] (Some x) = Some (ASDF_VALUE_OK, Some w, Some x, [])"
    using num_getters(8) [OF infer_num_value [OF x(2)] x(2)] uint_u64 [of w] by (simp add: int_result_def)
  ultimately show ?thesis
    using x by (simp add: asdf_get_property_impl_def p asdf_value_get_type_def as_type_result_def typed_as_def)
qed

text \<open>What is inferred is still the value of a scalar.\<close>

lemma infer_parts_raw:
  "asdf_value_infer_null v scalar = (err, v') \<Longrightarrow> v_raw_type v' = v_raw_type v"
  "asdf_value_infer_bool v scalar = (err, v') \<Longrightarrow> v_raw_type v' = v_raw_type v"
  "asdf_value_infer_int h v scalar = Some (err, v', h') \<Longrightarrow> v_raw_type v' = v_raw_type v"
  "asdf_value_infer_float dp h v scalar allow_int = (err, v', h') \<Longrightarrow> v_raw_type v' = v_raw_type v"
  "asdf_value_tag ve h v = (tag, v', h') \<Longrightarrow> v_raw_type v' = v_raw_type v"
  by (auto simp: asdf_value_infer_null_def infer_failure_def asdf_value_infer_bool_def asdf_value_infer_int_def
      asdf_value_infer_float_def asdf_value_tag_def Let_def split: if_splits option.splits prod.splits bind_splits)

lemma infer_plain_raw: "infer_plain ve h v scalar = Some (err, v', h') \<Longrightarrow> v_raw_type v' = v_raw_type v"
  by (cases "asdf_value_infer_null v scalar")
    (auto simp: infer_plain_def Let_def dest!: infer_parts_raw split: if_splits prod.splits bind_splits)

lemma infer_raw:
  assumes "infer_value ve h v = Some (err, v', h')"
  shows "v_raw_type v' = v_raw_type v"
proof -
  obtain tag u h1 where u: "asdf_value_tag ve h v = (tag, u, h1)" by (cases "asdf_value_tag ve h v")
  have "v_raw_type v' = v_raw_type u" if "infer_tagged ve h1 u scalar t = Some (err, v', h')" for t scalar
    using that by (cases t) (auto simp: infer_tagged_def Let_def dest: infer_parts_raw split: prod.splits)
  then show ?thesis
    using assms u infer_parts_raw(5) [OF u]
    by (auto simp: infer_value_def Let_def dest: infer_plain_raw split: if_splits option.splits asdf_yaml_common_tag.splits)
qed

text \<open>A value that wraps the datatype, inferred or not.\<close>

definition wraps :: "'n node_env \<Rightarrow> 'n asdf_value \<Rightarrow> 'n \<Rightarrow> bool" where
  "wraps ne w n \<longleftrightarrow> (if fy_node_get_type ne n = FYNT_SCALAR then v_type w = ASDF_VALUE_STRING \<and> v_raw_type w = ASDF_VALUE_SCALAR \<and> v_node w = n
     else is_seq w n)"

lemma any_property:
  assumes "is_map v n" and "fy_node_mapping_lookup_value_by_simple_key ne n key = Some c" and "fy_node_is_attached ne c"
    and "(\<exists>s. text_node ve ne c s) \<or> (\<exists>items. seq_node ne c items)"
  shows "\<exists>w. asdf_get_property_impl ve ne exts [] v key ASDF_VALUE_UNKNOWN tag = Some (ASDF_VALUE_OK, Some (Typed_value (Some w)), []) \<and>
    wraps ne w c"
proof -
  have no_alias: "\<not> fy_node_is_alias ne c" using assms(4) by (auto simp: text_node_def seq_node_def)
  obtain p where p: "asdf_mapping_get ne [] v key = (Some (node_value ne c p), [])" using get_key [OF assms(1,2) no_alias] by blast
  have copied: "\<exists>q. copied_path ne [] x = (q, [])" for x :: "'a asdf_value"
    by (cases "v_path x") (auto simp: copied_path_def dup_def Let_def)
  have dupped: "\<exists>t. dup [] tag = (t, [])" for tag by (cases tag) (simp_all add: dup_def)
  have copy: "\<exists>w. asdf_value_copy ne [] (Some x) = (Some w, []) \<and> v_type w = v_type x \<and> v_raw_type w = v_raw_type x \<and> v_node w = c"
    if "v_node x = c" "v_type x \<noteq> ASDF_VALUE_EXTENSION" for x :: "'a asdf_value"
  proof -
    obtain q t where "copied_path ne [] x = (q, [])" "dup [] (v_tag x) = (t, [])" using copied dupped by blast
    then show ?thesis using that assms(3) by (simp add: asdf_value_copy_def asdf_value_copy_shallow_def)
  qed
  have "\<exists>t x. asdf_value_get_type ve [] (Some (node_value ne c p)) = Some (t, Some x, []) \<and> v_node x = c \<and> wraps ne x c \<and>
      v_type x \<noteq> ASDF_VALUE_EXTENSION"
  proof (cases "\<exists>s. text_node ve ne c s")
    case True
    then obtain s where s: "text_node ve ne c s" by blast
    then have t: "v_type (node_value ne c p) = ASDF_VALUE_SCALAR" "v_raw_type (node_value ne c p) = ASDF_VALUE_SCALAR"
      "fy_node_get_type ne c = FYNT_SCALAR" by (simp_all add: node_value_def text_node_def)
    obtain x where "infer_value ve [] (node_value ne c p) = Some (ASDF_VALUE_OK, x, [])" "v_type x = ASDF_VALUE_STRING" "v_node x = c"
      using infer_text [OF s] by blast
    moreover from this have "v_raw_type x = ASDF_VALUE_SCALAR" using t(2) infer_raw by metis
    ultimately show ?thesis
      using t by (intro exI [of _ ASDF_VALUE_STRING] exI [of _ x]) (auto simp: asdf_value_get_type_def wraps_def)
  next
    case False
    then obtain items where "seq_node ne c items" using assms(4) by blast
    then have "is_seq (node_value ne c p) c" "fy_node_get_type ne c \<noteq> FYNT_SCALAR" by (simp_all add: node_value_seq) (simp add: seq_node_def)
    then show ?thesis by (auto simp: asdf_value_get_type_def wraps_def is_seq_def)
  qed
  then obtain t x where x: "asdf_value_get_type ve [] (Some (node_value ne c p)) = Some (t, Some x, [])" "v_node x = c" "wraps ne x c"
      "v_type x \<noteq> ASDF_VALUE_EXTENSION"
    by blast
  obtain w where w: "asdf_value_copy ne [] (Some x) = (Some w, [])" "v_type w = v_type x" "v_raw_type w = v_raw_type x" "v_node w = c"
    using copy [OF x(2,4)] by blast
  show ?thesis
    using x w by (auto simp: asdf_get_property_impl_def p copy_if_def as_type_result_def wraps_def is_seq_def split: if_splits)
qed

lemma string_value_read:
  assumes seq: "is_seq v n" and s: "seq_node ne n [a, b]" and a: "text_node ve ne a (bytes_of (if wide then ''ucs4'' else ''ascii''))"
    and b: "int_node ve ne b w"
  shows "datatype_work ve ne bo [] (Parse_datatype (Some v) zero_datatype) = Some (ASDF_VALUE_OK, described bo (String_desc wide w), [])"
proof -
  obtain q where "asdf_sequence_get ne [] v 1 = (Some (node_value ne b q), [])"
    using get_item [OF seq s, of 1] b by (auto simp: int_node_def)
  then have "is_string_datatype ve ne [] v = Some (True, [])"
    using uint64_of_int(2) [OF b, of q] by (auto simp: is_string_datatype_def items_size [OF seq s])
  then show ?thesis
    using s seq string_read [OF seq s a b]
    by (simp add: datatype_work.simps asdf_value_as_sequence_def is_seq_def set_scalar_def zero_datatype_def)
qed

lemma struct_value_read:
  assumes seq: "is_seq v n" and s: "seq_node ne n items" and shown: "list_all2 (shows_field ve ne) items fs"
    and fields: "list_all2 (field_read ve ne bo) items fs"
  shows "datatype_work ve ne bo [] (Parse_datatype (Some v) zero_datatype) = Some (ASDF_VALUE_OK, described bo (Struct_desc fs), [])"
proof -
  have no_string: "is_string_datatype ve ne [] v = Some (False, [])"
  proof (cases "length items = 2")
    case True
    then have f: "shows_field ve ne (items ! 1) (fs ! 1)" using shown list_all2_nthD by fastforce
    obtain q where "asdf_sequence_get ne [] v 1 = (Some (node_value ne (items ! 1) q), [])"
      using get_item [OF seq s, of 1] True field_no_integer(1) [OF f] by auto
    then show ?thesis
      using field_no_integer(2) [OF f, of q] by (auto simp: is_string_datatype_def items_size [OF seq s])
  qed (simp add: is_string_datatype_def items_size [OF seq s])
  have len: "length items = length fs" using fields by (rule list_all2_lengthD)
  have z: "set_structured k bo zero_datatype = Datatype ASDF_DATATYPE_STRUCTURED 0 None bo [] (replicate k zero_datatype)" for k
    by (simp add: set_structured_def zero_datatype_def)
  obtain it where it: "asdf_sequence_iter_init_ex ne [] v False = (Some it, [])" "si_rest it = items" "si_sequence it = v" "\<not> si_reverse it"
    using start_items [OF seq s] by blast
  have "fst (asdf_value_as_sequence (Some v)) = ASDF_VALUE_OK" using seq by (simp add: asdf_value_as_sequence_def is_seq_def)
  then have "datatype_work ve ne bo [] (Parse_datatype (Some v) zero_datatype) =
      datatype_work ve ne bo [] (Parse_fields (Some it) 0
        (Datatype ASDF_DATATYPE_STRUCTURED 0 None bo [] (replicate (length fs) zero_datatype)) ASDF_VALUE_OK)"
    by (subst datatype_work.simps) (simp add: no_string it z items_size [OF seq s] len)
  also have "\<dots> = Some (ASDF_VALUE_OK, described bo (Struct_desc fs), [])"
    using fields_read [OF fields it(2) _ it(4), of n "[]" ASDF_DATATYPE_STRUCTURED 0 None "[]"] seq
    by (simp add: it(3) case_prod_beta comp_def)
  finally show ?thesis .
qed

text \<open>The value may be the one of the node, or one that is inferred or copied from it.\<close>

lemma wrapped_read:
  assumes d: "shows_datatype ve ne d n" and w: "wraps ne w n"
  shows "asdf_datatype_parse ve ne [] (Some w) bo zero_datatype = Some (ASDF_VALUE_OK, described bo d, [])"
  using d
proof (rule shows_datatypeE)
  fix t assume t: "d = Scalar_desc t" "t \<in> named_types" "text_node ve ne n (asdf_scalar_datatype_to_string t)"
  then have v: "v_type w = ASDF_VALUE_STRING" "v_raw_type w = ASDF_VALUE_SCALAR" "v_node w = n" "fy_node_get_scalar0 ne n = Some (asdf_scalar_datatype_to_string t)"
    using w by (auto simp: wraps_def text_node_def)
  have "asdf_value_as_string0 ve ne [] (Some w) = Some (ASDF_VALUE_OK, Some (Some (asdf_scalar_datatype_to_string t)), Some w, [])"
    using v by (simp add: asdf_value_as_string0_def asdf_value_infer_scalar_type_def infer_value_def)
  then show ?thesis
    using t v by (simp add: asdf_datatype_parse_def datatype_work.simps asdf_value_as_sequence_def scalar_datatype_parse_def
        name_roundtrip set_scalar_def zero_datatype_def)
next
  fix a b wide u
  assume s: "d = String_desc wide u" "seq_node ne n [a, b]" "text_node ve ne a (bytes_of (if wide then ''ucs4'' else ''ascii''))" "int_node ve ne b u"
  then have "is_seq w n" using w by (simp add: wraps_def seq_node_def)
  from string_value_read [OF this s(2-4)] show ?thesis by (simp add: asdf_datatype_parse_def s(1) del: described.simps)
next
  fix items fs assume s: "d = Struct_desc fs" "seq_node ne n items" "list_all2 (shows_field ve ne) items fs"
  then have v: "is_seq w n" using w by (simp add: wraps_def seq_node_def)
  have "list_all2 (field_read ve ne bo) items fs" using s(3) by (rule list_all2_mono) (rule datatype_read(2))
  from struct_value_read [OF v s(2,3) this] show ?thesis by (simp add: asdf_datatype_parse_def s(1) del: described.simps)
qed

section \<open>Reading the array\<close>

definition array_tree :: "nat \<Rightarrow> asdf_ndarray \<Rightarrow> (bytes \<times> content) list" where
  "array_tree k nd =
     [(bytes_of ''source'', Number (of_nat k)), (bytes_of ''datatype'', desc_tree (desc_of (nd_datatype nd)))] @ array_keys nd"

text \<open>The array that is read: it has the byte order that was written, and no strides where they were left out.\<close>

definition read_array :: "nat \<Rightarrow> asdf_ndarray \<Rightarrow> asdf_ndarray" where
  "read_array k nd = nd\<lparr>nd_source := k, nd_datatype := described (written_byteorder nd) (desc_of (nd_datatype nd)),
     nd_byteorder := written_byteorder nd, nd_strides := (if trivial_strides nd then [] else nd_strides nd)\<rparr>"

lemma shown_child:
  "displays ve ne (Mapping ps) n \<Longrightarrow> (key, t) \<in> set ps \<Longrightarrow>
   \<exists>c. fy_node_mapping_lookup_value_by_simple_key ne n key = Some c \<and> fy_node_is_attached ne c \<and> displays ve ne t c"
  by force

lemma shown_missing:
  "displays ve ne (Mapping ps) n \<Longrightarrow> key \<notin> keys_of ps \<Longrightarrow> fy_node_mapping_lookup_value_by_simple_key ne n key = None"
  by simp

lemma shape_displayed: "displays ve ne (Sequence (map Number ws)) c \<Longrightarrow> fy_node_is_attached ne c \<Longrightarrow> shape_node ve ne c ws"
  by (fastforce simp: shape_node_def dest: numbers_displayed)

lemma stride_of_node:
  assumes i: "int_node ve ne m x" and x: "0 < sint x"
  shows "\<exists>v. asdf_value_as_int64 ve [] (Some (node_value ne m p)) = Some (ASDF_VALUE_OK, Some x, Some v, [])"
proof -
  have num: "num_node ve ne m (uint x)" using i uint_u64 [of x] by (simp add: num_node_def int_node_def uint_above)
  obtain v where v: "infer_value ve [] (node_value ne m p) = Some (ASDF_VALUE_OK, v, [])" "num_value v (uint x)"
    using infer_num [OF num] by blast
  have "uint x \<le> 9223372036854775807" using positive_sint [of x] x sint_lt [of x] by simp
  moreover have "- 9223372036854775808 \<le> uint x" by (rule uint_above) simp
  ultimately show ?thesis using num_getters(4) [OF v] by (simp add: int_result_def)
qed

lemma strides_read:
  assumes "list_all2 (int_node ve ne) items xs" and "\<forall>x \<in> set xs. 0 < sint x" and "si_rest it = items"
    and "is_seq (si_sequence it) n" and "\<not> si_reverse it"
  shows "strides_loop ve ne [] (Some it) (length xs) = Some (Some xs, [])"
  using assms
proof (induction items xs arbitrary: it rule: list_all2_induct)
  case (Cons m ms x xs)
  obtain p where p: "asdf_sequence_iter_next ne [] (Some it) =
    (Some (it\<lparr>si_index := si_index it + 1, si_value := Some (node_value ne m p), si_rest := ms\<rparr>), [])"
    using next_item [OF Cons.prems(2,3) _ Cons.prems(4)] Cons.hyps(1) by (auto simp: int_node_def)
  have x: "x \<noteq> 0" using Cons.prems(1) by auto
  obtain v where "asdf_value_as_int64 ve [] (Some (node_value ne m p)) = Some (ASDF_VALUE_OK, Some x, Some v, [])"
    using stride_of_node [OF Cons.hyps(1)] Cons.prems(1) by auto
  then show ?case using p x Cons.IH Cons.prems by (subst strides_loop.simps) simp
qed (simp add: strides_loop.simps no_next_item)

lemma strides_parsed:
  assumes "shape_node ve ne n xs" and "is_seq v n" and "\<forall>x \<in> set xs. 0 < sint x"
  shows "asdf_ndarray_strides_parse ve ne [] v (length xs) = Some (ASDF_VALUE_OK, xs, [])"
proof -
  obtain items where i: "seq_node ne n items" "list_all2 (int_node ve ne) items xs" using assms(1) by (auto simp: shape_node_def)
  obtain it where it: "asdf_sequence_iter_init_ex ne [] v False = (Some it, [])" "si_rest it = items" "si_sequence it = v" "\<not> si_reverse it"
    using start_items [OF assms(2) i(1)] by blast
  show ?thesis
    using strides_read [OF i(2) assms(3) it(2) _ it(4)] assms(2) it list_all2_lengthD [OF i(2)]
    by (simp add: asdf_ndarray_strides_parse_def items_size [OF assms(2) i(1)])
qed

lemma block_data_read:
  fixes ne :: "'n node_env"
  assumes m: "is_map v n" and d: "displays ve ne (Mapping (array_tree k nd)) n" and ok: "array_ok nd"
  shows "asdf_ndarray_parse_block_data ve ne [] v zero_ndarray = Some (ASDF_VALUE_OK, zero_ndarray\<lparr>nd_shape := nd_shape nd,
      nd_byteorder := written_byteorder nd, nd_offset := nd_offset nd, nd_strides := (if trivial_strides nd then [] else nd_strides nd)\<rparr>, [])"
proof -
  note keys = array_key_names(1) [simplified]
  define exts where "exts = (\<lparr>ex_map = \<lambda>_. None, ex_deserialize = \<lambda>_. None\<rparr> :: ('n, unit) extensions)"
  obtain c1 where c1: "fy_node_mapping_lookup_value_by_simple_key ne n (bytes_of ''shape'') = Some c1" "fy_node_is_attached ne c1"
      "displays ve ne (Sequence (map Number (nd_shape nd))) c1"
    using shown_child [OF d, of "bytes_of ''shape''" "Sequence (map Number (nd_shape nd))"] by (auto simp: array_tree_def array_keys_def)
  note s1 = shape_displayed [OF c1(3,2)]
  then obtain items where "seq_node ne c1 items" by (auto simp: shape_node_def)
  then obtain w1 where w1: "asdf_get_property_impl ve ne exts [] v (bytes_of ''shape'') ASDF_VALUE_SEQUENCE None =
      Some (ASDF_VALUE_OK, Some (Typed_value (Some w1)), [])" "is_seq w1 c1"
    using sequence_property [OF m c1(1) _ c1(2)] by blast
  obtain name where name: "asdf_byteorder_to_string (written_byteorder nd) = Some name"
      "asdf_byteorder_from_string (Some name) = written_byteorder nd" "written_byteorder nd \<noteq> ASDF_BYTEORDER_INVALID"
    using ok by (cases "nd_byteorder nd") (auto simp: written_byteorder_def array_ok_def asdf_byteorder_from_string_def bytes_of_def)
  obtain c2 where c2: "fy_node_mapping_lookup_value_by_simple_key ne n (bytes_of ''byteorder'') = Some c2" "text_node ve ne c2 name"
    using shown_child [OF d, of "bytes_of ''byteorder''" "Text name"] name(1) by (auto simp: array_tree_def array_keys_def)
  have bo: "asdf_datatype_byteorder_parse ve ne [] v (bytes_of ''byteorder'') ASDF_BYTEORDER_LITTLE =
      Some (ASDF_VALUE_OK, written_byteorder nd, [])"
    using name(2,3) by (simp add: asdf_datatype_byteorder_parse_def asdf_get_optional_property_def text_property [OF m c2] ASDF_IS_OK_def)
  have offset: "\<exists>err out. asdf_get_property_impl ve ne exts [] v (bytes_of ''offset'') ASDF_VALUE_UINT64 None = Some (err, out, []) \<and>
      ASDF_IS_OPTIONAL_OK err \<and> (case out of Some (Typed_64 w) \<Rightarrow> w | _ \<Rightarrow> 0) = nd_offset nd"
  proof (cases "nd_offset nd = 0")
    case True
    then have "bytes_of ''offset'' \<notin> keys_of (array_tree k nd)" using keys by (auto simp: keys_of_def array_tree_def array_keys_def)
    from no_property [OF m shown_missing [OF d this]] True show ?thesis
      by (intro exI [of _ ASDF_VALUE_ERR_NOT_FOUND] exI [of _ None]) (simp add: ASDF_IS_OPTIONAL_OK_def)
  next
    case False
    then obtain c3 where "fy_node_mapping_lookup_value_by_simple_key ne n (bytes_of ''offset'') = Some c3" "int_node ve ne c3 (nd_offset nd)"
      using shown_child [OF d, of "bytes_of ''offset''" "Number (nd_offset nd)"] by (auto simp: array_tree_def array_keys_def)
    from number_property [OF m this] show ?thesis
      by (intro exI [of _ ASDF_VALUE_OK] exI [of _ "Some (Typed_64 (nd_offset nd))"]) (simp add: ASDF_IS_OPTIONAL_OK_def)
  qed
  then obtain err out where o: "asdf_get_property_impl ve ne exts [] v (bytes_of ''offset'') ASDF_VALUE_UINT64 None = Some (err, out, [])"
      "ASDF_IS_OPTIONAL_OK err" "(case out of Some (Typed_64 w) \<Rightarrow> w | _ \<Rightarrow> 0) = nd_offset nd" by blast
  show ?thesis
  proof (cases "trivial_strides nd")
    case True
    then have "bytes_of ''strides'' \<notin> keys_of (array_tree k nd)" using keys by (auto simp: keys_of_def array_tree_def array_keys_def)
    from no_property [OF m shown_missing [OF d this], of ve exts ASDF_VALUE_SEQUENCE None] True show ?thesis
      unfolding asdf_ndarray_parse_block_data_def exts_def [symmetric] asdf_get_required_property_def asdf_get_optional_property_def Let_def
      by (simp add: w1(1) shape_parse_read [OF s1 w1(2)] bo o ASDF_IS_OK_def) (simp add: ASDF_IS_OPTIONAL_OK_def)
  next
    case False
    then obtain c4 where c4: "fy_node_mapping_lookup_value_by_simple_key ne n (bytes_of ''strides'') = Some c4" "fy_node_is_attached ne c4"
        "displays ve ne (Sequence (map Number (nd_strides nd))) c4"
      using shown_child [OF d, of "bytes_of ''strides''" "Sequence (map Number (nd_strides nd))"] by (auto simp: array_tree_def array_keys_def)
    note s4 = shape_displayed [OF c4(3,2)]
    then obtain items where "seq_node ne c4 items" by (auto simp: shape_node_def)
    then obtain w4 where w4: "asdf_get_property_impl ve ne exts [] v (bytes_of ''strides'') ASDF_VALUE_SEQUENCE None =
        Some (ASDF_VALUE_OK, Some (Typed_value (Some w4)), [])" "is_seq w4 c4"
      using sequence_property [OF m c4(1) _ c4(2)] by blast
    have "length (nd_shape nd) = length (nd_strides nd)" "\<forall>x \<in> set (nd_strides nd). 0 < sint x"
      using ok False by (auto simp: array_ok_def trivial_strides_def)
    with strides_parsed [OF s4 w4(2)] False show ?thesis
      unfolding asdf_ndarray_parse_block_data_def exts_def [symmetric] asdf_get_required_property_def asdf_get_optional_property_def Let_def
      by (simp add: w1(1) w4(1) shape_parse_read [OF s1 w1(2)] bo o ASDF_IS_OK_def) (simp add: ASDF_IS_OPTIONAL_OK_def)
  qed
qed

lemma array_read:
  fixes ne :: "'n node_env"
  assumes m: "is_map v n" and d: "displays ve ne (Mapping (array_tree k nd)) n" and ok: "array_ok nd"
    and w: "storable (nd_datatype nd)" and k: "k < 2 ^ 64"
  shows "asdf_ndarray_deserialize ve ne [] (Some v) = Some (ASDF_VALUE_OK, Some \<lparr>no_array = read_array k nd,
      no_internal = Some (zero_internal\<lparr>ni_file := True, ni_array_storage := ASDF_ARRAY_STORAGE_INTERNAL\<rparr>)\<rparr>, [])"
proof -
  define exts where "exts = (\<lparr>ex_map = \<lambda>_. None, ex_deserialize = \<lambda>_. None\<rparr> :: ('n, unit) extensions)"
  obtain c1 where c1: "fy_node_mapping_lookup_value_by_simple_key ne n (bytes_of ''source'') = Some c1" "int_node ve ne c1 (of_nat k)"
    using shown_child [OF d, of "bytes_of ''source''" "Number (of_nat k)"] by (auto simp: array_tree_def)
  obtain c2 where c2: "fy_node_mapping_lookup_value_by_simple_key ne n (bytes_of ''datatype'') = Some c2" "fy_node_is_attached ne c2"
      "displays ve ne (desc_tree (desc_of (nd_datatype nd))) c2"
    using shown_child [OF d, of "bytes_of ''datatype''" "desc_tree (desc_of (nd_datatype nd))"] by (auto simp: array_tree_def)
  have shown: "shows_datatype ve ne (desc_of (nd_datatype nd)) c2" by (rule desc_displayed [OF c2(3) desc_of_ok [OF w]])
  then have "(\<exists>s. text_node ve ne c2 s) \<or> (\<exists>items. seq_node ne c2 items)" by (auto elim: shows_datatypeE)
  then obtain x where x: "asdf_get_property_impl ve ne exts [] v (bytes_of ''datatype'') ASDF_VALUE_UNKNOWN None =
      Some (ASDF_VALUE_OK, Some (Typed_value (Some x)), [])" "wraps ne x c2"
    using any_property [OF m c2(1,2)] by blast
  have "asdf_value_as_mapping (Some v) = (ASDF_VALUE_OK, Some v)" using m by (simp add: asdf_value_as_mapping_def is_map_def)
  moreover have "unat (of_nat k :: u64) = k" using k by (simp add: unat_of_nat)
  ultimately show ?thesis
    unfolding asdf_ndarray_deserialize_def exts_def [symmetric] asdf_get_required_property_def asdf_get_optional_property_def Let_def
    by (simp add: number_property [OF m c1] block_data_read [OF m d ok] x(1) wrapped_read [OF shown x(2)])
      (simp add: read_array_def zero_ndarray_def)
qed

section \<open>The block of the data\<close>

definition data_block :: "bytes \<Rightarrow> 'u asdf_block" where
  "data_block bs = fresh_block\<lparr>bk_info := fresh_info\<lparr>bi_data := Some bs, bi_data_size := length bs, data_owned := True, data_mmapped := True,
     bi_header := (bi_header fresh_info)\<lparr>data_size := of_nat (length bs), used_size := of_nat (length bs)\<rparr>\<rparr>\<rparr>"

definition new_array :: "asdf_ndarray \<Rightarrow> ('n, 'u) ndarray_object" where
  "new_array nd = \<lparr>no_array = nd, no_internal = None\<rparr>"

definition filled_array :: "asdf_ndarray \<Rightarrow> bytes \<Rightarrow> ('n, 'u) ndarray_object" where
  "filled_array nd bs = \<lparr>no_array = nd, no_internal = Some (zero_internal\<lparr>ni_block := Some (data_block bs)\<rparr>)\<rparr>"

lemma sized_size: "sized d \<Longrightarrow> fst (asdf_datatype_size d) = dt_size d"
proof (induction d)
  case (Datatype t n name bo shape ds)
  have "sum_list (map (fst \<circ> asdf_datatype_size) ds) = sum_list (map dt_size ds)" if "t = ASDF_DATATYPE_STRUCTURED"
    using that Datatype by (intro arg_cong [of _ _ sum_list]) simp
  then show ?case using Datatype.prems by (auto simp: foldl_times comp_def Let_def split: if_splits)
qed

lemma sized_kept:
  assumes "sized (nd_datatype nd)" and "unat (asdf_ndarray_nbytes (Some nd)) \<noteq> 0"
  shows "snd (asdf_datatype_size (nd_datatype nd)) = nd_datatype nd"
proof -
  have "fst (asdf_datatype_size (nd_datatype nd)) \<noteq> 0" using assms(2) by (auto simp: asdf_ndarray_nbytes_def Let_def split: if_splits)
  then show ?thesis using sized_size [OF assms(1)] by (cases "nd_datatype nd") simp
qed

lemma data_copied:
  assumes "ctx_heap (bw_global w) = []" and n: "unat (asdf_ndarray_nbytes (Some nd)) = length bs" and "bs \<noteq> []"
    and "sized (nd_datatype nd)"
  shows "asdf_ndarray_data_copy env [] (Some (new_array nd)) (Some bs) w = Some (ASDF_NDARRAY_OK, Some (filled_array nd bs), [], w)"
proof -
  have "snd (asdf_datatype_size (nd_datatype nd)) = nd_datatype nd" using sized_kept assms by simp
  then have keep: "with_datatype_size a = a" if "no_array a = nd" for a :: "('n, 'u) ndarray_object"
    using that by (cases a) (simp add: with_datatype_size_def)
  have len: "length bs \<noteq> 0" using assms(3) by simp
  show ?thesis
    using assms(1,3) len n
    by (simp add: asdf_ndarray_data_copy_def asdf_ndarray_data_alloc_def asdf_file_ndarray_data_alloc_def asdf_ndarray_internal_def keep
      asdf_file_block_create_def asdf_block_data_alloc_def asdf_block_info_deinit_def new_array_def filled_array_def data_block_def
      fresh_block_def fresh_info_def zero_block_def zero_block_info_def zero_internal_def write_block_buffer_def mem_read_def mem_write_at_def Let_def)
qed

lemma index_request: "k < SSIZE_MAX \<Longrightarrow> requests dp (asdf_node_of_signed (of_nat k :: u64)) (Number (of_nat k))"
  using positive_request [of "of_nat k"] sint_of_int [of "int k"] by (simp add: SSIZE_MAX_def)

lemma array_serialized:
  fixes env :: "'u block_env"
  assumes laws: "document_laws ops nodes" and tags: "tag_laws ops remove_tag nodes" and ok: "array_ok nd"
    and dt: "storable (nd_datatype nd)" "dt_shape (nd_datatype nd) = []"
    and config: "cfg_array_storage (af_config (bw_file w)) \<noteq> 1" and mode: "af_mode (bw_file w) \<noteq> ASDF_FILE_MODE_READ_ONLY"
    and count: "asdf_block_count penv (bw_file w) = Some (k, f)" and k: "k < SSIZE_MAX" and heap: "ctx_heap (af_ctx f) = []"
  shows "\<exists>v s'. asdf_ndarray_serialize ops remove_tag (Some (datatype_writer ops ext tag)) penv env hc True (Some (filled_array nd bs)) [] s w =
      Some (Some v, Some (new_array nd), [], s',
        w\<lparr>bw_file := f\<lparr>af_blocks := af_blocks f @ [(bk_info (data_block bs :: 'u asdf_block))\<lparr>bi_index := k\<rparr>]\<rparr>\<rparr>) \<and>
    nodes s' (v_node v) = Some (Mapping (array_tree k nd))"
proof -
  note keys = array_key_names(1) [simplified]
  define b where "b = (data_block bs :: 'u asdf_block)"
  define w' where "w' = w\<lparr>bw_file := f\<lparr>af_blocks := af_blocks f @ [(bk_info b)\<lparr>bi_index := k\<rparr>]\<rparr>\<rparr>"
  have det: "bk_detached b" by (simp add: b_def data_block_def fresh_block_def)
  note app = append_detached [OF det mode count k heap, folded w'_def]
  define b' where "b' = b\<lparr>bk_file := True, bk_info := (bk_info b)\<lparr>bi_index := k, data_owned := False\<rparr>, bk_detached := False\<rparr>"
  have gone: "asdf_block_destroy env (Some b') w' = Some w'"
    by (simp add: asdf_block_destroy_def asdf_block_close_def b'_def b_def data_block_def fresh_block_def zero_block_def asdf_block_comp_close_def)
  obtain m s1 where m: "asdf_mapping_create ops [] s = (Some m, [], s1)" "nodes s1 = (nodes s)(v_node m \<mapsto> Mapping [])"
    using mapping_created [OF laws] by blast
  have n1: "nodes s1 (v_node m) = Some (Mapping [])" using m(2) by simp
  have fresh: "bytes_of ''source'' \<notin> keys_of []" by (simp add: keys_of_def)
  obtain s2 where s2: "asdf_mapping_set_signed ops [] m (Some (bytes_of ''source'')) (of_nat k :: u64) s1 = Some (ASDF_VALUE_OK, [], s2)"
      "nodes s2 = (nodes s1)(v_node m \<mapsto> Mapping [(bytes_of ''source'', Number (of_nat k))])"
    using scalar_set [where node_of = "\<lambda>dp h. Some (Some (asdf_node_of_signed (of_nat k :: u64)), h)", OF laws n1 HOL.refl index_request [OF k] fresh
        array_key_names(2)] unfolding asdf_mapping_set_signed_def by auto
  have n2: "nodes s2 (v_node m) = Some (Mapping [(bytes_of ''source'', Number (of_nat k))])" using s2(2) by simp
  obtain v slot s3 where v: "asdf_value_of_extension_type ops [] (nd_datatype nd) (datatype_writer ops ext tag) s2 = Some (Some v, slot, [], s3)"
      "nodes s2 (v_node v) = None" "nodes (remove_tag (v_node v) s3) = (nodes s2)(v_node v \<mapsto> desc_tree (desc_of (nd_datatype nd)))"
    using extension_written [OF laws tags dt] by blast
  have d: "v_node v \<noteq> v_node m" using v(2) n2 by auto
  have n3: "nodes (remove_tag (v_node v) s3) (v_node m) = Some (Mapping [(bytes_of ''source'', Number (of_nat k))])"
    "nodes (remove_tag (v_node v) s3) (v_node v) = Some (desc_tree (desc_of (nd_datatype nd)))" using v(3) n2 d by simp_all
  have fresh: "bytes_of ''datatype'' \<notin> keys_of [(bytes_of ''source'', Number (of_nat k))]" using keys by (auto simp: keys_of_def)
  obtain s4 where s4: "asdf_mapping_set ops [] (Some m) (Some (bytes_of ''datatype'')) (Some v) (remove_tag (v_node v) s3) = Some (ASDF_VALUE_OK, [], s4)"
      "nodes s4 = (nodes (remove_tag (v_node v) s3))(v_node v := None,
         v_node m \<mapsto> Mapping ([(bytes_of ''source'', Number (of_nat k))] @ [(bytes_of ''datatype'', desc_tree (desc_of (nd_datatype nd)))]))"
    using value_set [OF laws n3 d fresh array_key_names(3)] by blast
  have n4: "nodes s4 (v_node m) = Some (Mapping ([(bytes_of ''source'', Number (of_nat k))] @ [(bytes_of ''datatype'', desc_tree (desc_of (nd_datatype nd)))]))"
    using s4(2) by simp
  obtain s5 where s5: "asdf_ndarray_serialize_block_data ops nd m [] s4 = Some (ASDF_VALUE_OK, [], s5)"
      "nodes s5 = (nodes s4)(v_node m \<mapsto> Mapping (array_tree k nd))"
    using block_data_written [OF laws ok n4] unfolding array_tree_def by (auto simp: keys_of_def)
  have "serialize_data ops penv env hc m (filled_array nd bs) [] s1 w = Some (False, ASDF_VALUE_OK,
      \<lparr>no_array = nd, no_internal = Some (zero_internal\<lparr>ni_block := Some b'\<rparr>)\<rparr>, [], s2, w')"
    using config det app s2(1)
    by (simp add: serialize_data_def asdf_ndarray_serialize_block_def append_array_block_def filled_array_def asdf_ndarray_block_def zero_internal_def
        b'_def Let_def flip: b_def)
  then have "asdf_ndarray_serialize ops remove_tag (Some (datatype_writer ops ext tag)) penv env hc True (Some (filled_array nd bs)) [] s w =
      Some (Some m, Some (new_array nd), [], s5, w')"
    using m(1) v(1) s4(1) s5(1) gone det
    by (simp add: asdf_ndarray_serialize_def asdf_ndarray_serialize_consume_def asdf_value_of_mapping_def new_array_def Let_def)
      (simp add: filled_array_def asdf_ndarray_block_def zero_internal_def flip: b_def)
  then show ?thesis using s5(2) by (auto simp: w'_def b_def)
qed

section \<open>There and back\<close>

text \<open>An array that is written is read as \<^term>\<open>read_array k nd\<close>, with its data.\<close>

lemma array_written_read:
  fixes env :: "'u block_env" and ops :: "('s, 'n) tree_ops"
  assumes laws: "document_laws ops nodes" and tags: "tag_laws ops remove_tag nodes" and ok: "array_ok nd"
    and dt: "storable (nd_datatype nd)" "dt_shape (nd_datatype nd) = []"
    and data: "unat (asdf_ndarray_nbytes (Some nd)) = length bs" "bs \<noteq> []"
    and config: "cfg_array_storage (af_config (bw_file w)) \<noteq> 1" and mode: "af_mode (bw_file w) \<noteq> ASDF_FILE_MODE_READ_ONLY"
    and count: "asdf_block_count penv (bw_file w) = Some (k, f)" and k: "k < SSIZE_MAX"
    and heap: "ctx_heap (bw_global w) = []" "ctx_heap (af_ctx f) = []"
    and sized: "sized (nd_datatype nd)"
  shows "\<exists>a v s' w' r r'. asdf_ndarray_data_copy env [] (Some (new_array nd)) (Some bs) w = Some (ASDF_NDARRAY_OK, Some a, [], w) \<and>
    asdf_ndarray_serialize ops remove_tag (Some (datatype_writer ops ext tag)) penv env hc True (Some a) [] s w =
      Some (Some v, Some (new_array nd), [], s', w') \<and>
    length (af_blocks (bw_file w')) = Suc k \<and>
    asdf_ndarray_deserialize (to_values ops s') (to_nodes ops s') [] (Some (node_value (to_nodes ops s') (v_node v) p)) =
      Some (ASDF_VALUE_OK, Some r, []) \<and>
    no_array r = read_array k nd \<and>
    asdf_ndarray_data (to_values ops s') (to_nodes ops s') penv env hc [] (Some r) w' = Some (Some bs, Some (length bs), Some r', [], w')"
proof -
  note c = count_counted [OF count]
  define info where "info = (bk_info (data_block bs :: 'u asdf_block))\<lparr>bi_index := k\<rparr>"
  obtain v s' where v: "asdf_ndarray_serialize ops remove_tag (Some (datatype_writer ops ext tag)) penv env hc True (Some (filled_array nd bs)) [] s w =
      Some (Some v, Some (new_array nd), [], s', w\<lparr>bw_file := f\<lparr>af_blocks := af_blocks f @ [info]\<rparr>\<rparr>)"
      "nodes s' (v_node v) = Some (Mapping (array_tree k nd))"
    using array_serialized [OF laws tags ok dt config mode count k heap(2), of ext tag env hc bs s] unfolding info_def by blast
  define w' where "w' = w\<lparr>bw_file := f\<lparr>af_blocks := af_blocks f @ [info]\<rparr>\<rparr>"
  let ?ve = "to_values ops s'" and ?ne = "to_nodes ops s'"
  define r where "r = (\<lparr>no_array = read_array k nd, no_internal = Some (zero_internal\<lparr>ni_file := True,
      ni_array_storage := ASDF_ARRAY_STORAGE_INTERNAL\<rparr>)\<rparr> :: ('n, 'u) ndarray_object)"
  have shown: "displays ?ve ?ne (Mapping (array_tree k nd)) (v_node v)" by (rule document(2) [OF laws v(2)])
  then have m: "is_map (node_value ?ne (v_node v) p) (v_node v)" by (simp add: node_value_map)
  have k64: "k < 2 ^ 64" using k by (simp add: SSIZE_MAX_def)
  have read: "asdf_ndarray_deserialize ?ve ?ne [] (Some (node_value ?ne (v_node v) p)) = Some (ASDF_VALUE_OK, Some r, [])"
    unfolding r_def by (rule array_read [OF m shown ok dt(1) k64])
  have b: "bk_detached (data_block bs :: 'u asdf_block)" by (simp add: data_block_def fresh_block_def)
  have open_k: "asdf_block_open penv True k w' = Some (Some (view_of info :: 'u asdf_block), w')"
    using append_open [OF b mode count k heap(2)] append_detached [OF b mode count k heap(2)] by (simp add: w'_def info_def)
  have "asdf_block_data env hc (Some (view_of info :: 'u asdf_block)) w' = Some (Some bs, Some (length bs), Some (view_of info), w')"
    by (subst block_in_memory [where bs = bs]) (simp_all add: view_of_def zero_block_def info_def data_block_def fresh_info_def zero_block_info_def)
  then have "\<exists>r'. asdf_ndarray_data ?ve ?ne penv env hc [] (Some r) w' = Some (Some bs, Some (length bs), Some r', [], w')"
    by (simp add: asdf_ndarray_data_def asdf_ndarray_data_impl_def r_def zero_internal_def read_array_def open_k)
  moreover have "length (af_blocks (bw_file w')) = Suc k" using c by (simp add: w'_def)
  moreover have "no_array r = read_array k nd" by (simp add: r_def)
  ultimately show ?thesis
    using data_copied [OF heap(1) data sized] v(1) read unfolding w'_def [symmetric] by blast
qed


text \<open>A field that has no name, no shape and little-endian bytes is written as its type alone, so in a big-endian array it
  is read as big-endian.\<close>

theorem little_field_turned:
  "\<exists>d. writable d \<and> map dt_byteorder (dt_fields d) = [ASDF_BYTEORDER_LITTLE] \<and>
     map dt_byteorder (dt_fields (described ASDF_BYTEORDER_BIG (desc_of d))) = [ASDF_BYTEORDER_BIG]"
  by (intro exI [of _ "Datatype ASDF_DATATYPE_STRUCTURED 8 None ASDF_BYTEORDER_LITTLE []
        [Datatype ASDF_DATATYPE_FLOAT64 8 None ASDF_BYTEORDER_LITTLE [] []]"])
    (simp add: writable_def named_types_def props_of_def asdf_datatype_is_simple_scalar_def with_properties_def)

text \<open>Two rows of three bytes that are stored with a stride, behind two bytes of their block.\<close>

definition sample_array :: asdf_ndarray where
  "sample_array = \<lparr>nd_source = 0, nd_shape = [2, 3],
     nd_datatype = Datatype ASDF_DATATYPE_UINT8 1 None ASDF_BYTEORDER_LITTLE [] [], nd_byteorder = ASDF_BYTEORDER_DEFAULT,
     nd_offset = 2, nd_strides = [3, 1]\<rparr>"

definition tagged_ops :: "(content option list, sample_node) tree_ops" where
  "tagged_ops = doc_ops\<lparr>to_tag_normalize := \<lambda>t s. (Some t, s), fy_node_set_tag := \<lambda>_ _ s. (True, s)\<rparr>"

lemma tagged_laws: "document_laws tagged_ops doc_nodes" "tag_laws tagged_ops (\<lambda>_ s. s) doc_nodes"
  using doc_laws by (simp_all add: tagged_ops_def document_laws_def creation_laws_def container_laws_def point_def tag_laws_def)

lemma sample_writable_array: "writable (nd_datatype sample_array)"
  by (simp add: sample_array_def writable_def named_types_def)


end
