(* ===== verification/Spec2Isabelle.thy ===== *)
theory Spec2Isabelle
  imports Asdf_Parser_Faults Asdf_Seek Asdf_Stream_Scan Asdf_Emit_File Asdf_Find_Laws Asdf_Compression_Laws Asdf_Tile Asdf_Float_Text_Laws Asdf_Time_Instant Asdf_Datatype_Write_Laws Asdf_Tree_File Asdf_Time_Write_Laws Asdf_Block_Handle_Laws Asdf_Ndarray_Inline_Laws Asdf_Ndarray_Write_Laws
begin

text \<open>
  A verification of libasdf, the C library that reads and writes files of the Advanced Scientific
  Data Format. An ASDF file is two version lines, a YAML document (the tree), binary blocks the tree
  refers to, and an index of the blocks at the end.

  \<^bold>\<open>The program and how its parts interact.\<close> A file object (\<^verbatim>\<open>src/file.c\<close>) owns an input stream and a parser or
  an output stream and an emitter; file, parser and streams share one context (\<^verbatim>\<open>src/context.c\<close>), which keeps the
  last error (\<^verbatim>\<open>src/error.c\<close>). The parser (\<^verbatim>\<open>src/parser.c\<close>) is a state machine that pulls bytes from a stream
  (\<^verbatim>\<open>src/stream.c\<close>) with the matchers of \<^verbatim>\<open>src/parse_util.c\<close>, reads blocks with \<^verbatim>\<open>src/block.c\<close> and returns events
  (\<^verbatim>\<open>src/event.c\<close>). The emitter (\<^verbatim>\<open>src/emitter.c\<close>) is the state machine the other way round. The tree belongs to
  libfyaml; \<^verbatim>\<open>src/yaml.c\<close> resolves its plain scalars, its tags and its paths, and \<^verbatim>\<open>src/value.c\<close> wraps its nodes
  as typed values. Arrays (\<^verbatim>\<open>src/core/ndarray.c\<close>) are read from blocks tile by tile, each row through a conversion
  (\<^verbatim>\<open>src/core/ndarray_convert.c\<close>) between element types (\<^verbatim>\<open>src/core/datatype.c\<close>).

  \<^bold>\<open>How the code is modelled.\<close> A struct is a record with the fields of the struct, an enum a datatype with its
  constructors, a function a definition of the same name; a macro that defines a family of functions is one
  definition with the parameters of the macro. A pointer that may be null is an option, a pointer into a buffer
  is the rest of the buffer from there. Every state is passed and returned. \<^verbatim>\<open>size_t\<close> is a natural number with
  its wrap-around written out (\<open>size_add\<close>, \<open>size_sub\<close>), other machine integers are words, \<^verbatim>\<open>double\<close> is a rational
  or a special value rounded as IEEE 754 says (Asdf_Double). Allocation takes its answers from a list (\<open>heap\<close>):
  \<open>[]\<close> means that every allocation succeeds, so a failure of any allocation is an input of the model.
  An operation that may not return, or that does what C leaves undefined (a read outside a buffer, a failed
  \<^verbatim>\<open>assert\<close>), returns an option, and \<open>None\<close> stands for that; the loops of that kind are \<open>partial_function (option)\<close>,
  mostly through \<open>loop_opt\<close> of the prelude, so no fuel is chosen anywhere, and what the theorems say of such
  operations includes that they return \<open>Some\<close>.

  \<^bold>\<open>Theories, in the order they are built.\<close>

  \<^item> Asdf_Prelude: bytes, sizes, allocation, big-endian integers, loops, and the lemmas shared by all.
  \<^item> Asdf_Context: the error state; the table of formats and log levels (\<^verbatim>\<open>src/error.c\<close>, \<^verbatim>\<open>src/context.c\<close>).
  \<^item> Asdf_Version: versions and tags (\<^verbatim>\<open>src/version.c\<close>, \<^verbatim>\<open>src/tag.c\<close>), and that a printed version is parsed back.
  \<^item> Asdf_Stream: the stream layer with its buffered file backend, its memory backends, the capture buffer, token
    scanning, seeking and writing (\<^verbatim>\<open>src/stream.c\<close>). Asdf_Scan: the scanner finds the leftmost token.
    Asdf_Stream_Laws: the contract of a stream as the locale \<open>byte_stream\<close>, interpreted on both backends.
    Asdf_Sink: the contract of a stream that is written to, the locale \<open>byte_sink\<close>, interpreted on the growing
    memory buffer and on files. Asdf_Mem_View, Asdf_Stream_Scan, Asdf_Seek: the memory backend as a position in a
    buffer, scanning through the window of the file backend, and seeking.
  \<^item> Asdf_Block: block headers, reading and writing blocks (\<^verbatim>\<open>src/block.c\<close>). Asdf_Block_Codec: the bytes of a block,
    and that the writer produces and the reader recovers them on every stream that meets its contract.
  \<^item> Asdf_Parse_Util: directive and marker matchers and the free list of events (\<^verbatim>\<open>src/parse_util.c\<close>).
    Asdf_Parser: every handler of the parser, its loop, and event iteration (\<^verbatim>\<open>src/parser.c\<close>, \<^verbatim>\<open>src/event.c\<close>).
    Asdf_Parser_States: the graph of states, that every event slot is in one place, and what a call after the end
    changes.
    Asdf_Parse_File: a well-formed file in memory is reported event by event as it was put together.
    Asdf_Parser_Faults: the inputs on which the parser does not return or reports an event without a type.
  \<^item> Asdf_Double, Asdf_Yaml_Scalar, Asdf_Yaml_Scalar_Laws: the resolution of plain scalars and the test for strings
    that need quotes (\<^verbatim>\<open>src/yaml.c\<close>). Asdf_Yaml_Path: tag handles, normalised tags and paths (\<^verbatim>\<open>src/yaml.c\<close>).
  \<^item> Asdf_File: the file object up to the tree (\<^verbatim>\<open>src/file.c\<close>). Asdf_Emitter: the emitter (\<^verbatim>\<open>src/emitter.c\<close>).
    Asdf_Emitter_Laws: its states, and the locale \<open>emit_sink\<close>, which extends \<open>byte_sink\<close> by what the emitter needs.
    Asdf_Emit_File: what a whole emission writes and records, and that the parser reads it back.
  \<^item> Asdf_Datatype, Asdf_Convert: element types and the conversions between them, macro by macro. Asdf_Ndarray_Tile:
    reading tiles. Asdf_Tile_Laws: the odometer over the rows counts the tile in C order. Asdf_Tile: a tile of an
    integer array holds the converted elements of the array, end to end.
  \<^item> Asdf_Value, Asdf_Value_Laws: inference of scalar types, the typed tests and getters, and the text scalars are
    written as (\<^verbatim>\<open>src/value.c\<close>, \<^verbatim>\<open>src/value_util.c\<close>).
  \<^item> Asdf_Node: values as nodes of the tree, their copies, paths and containers, and the iterators over mappings and
    sequences (\<^verbatim>\<open>src/value.c\<close>). Asdf_Node_Laws: what iterating over a container returns. Asdf_Find: the find iterator.
    Asdf_Find_Laws: a strategy is the locale \<open>find_strategy\<close>, interpreted depth-first and breadth-first: a search
    visits the tree in preorder or level by level, and ends.
  \<^item> Asdf_Lz4: the LZ4 container of \<^verbatim>\<open>src/compression/lz4.c\<close>, its block header, its compressor and the decompressor
    that keeps what a call did not return. Asdf_Lz4_Laws: what was compressed is decompressed.
    Asdf_Compression: the zlib and bzip2 decompressors, the registry, the choice of a mode, the opening and closing of a
    compressed block, eager decompression and the handler of page faults (\<^verbatim>\<open>src/compression\<close>); the kernel's
    side of a fault is an argument.
    Asdf_Compression_Laws: a decompressor that returns its data in order is the locale \<open>sequential_decompressor\<close>,
    interpreted on LZ4, zlib and bzip2: every page that faults is filled, whatever the order of the faults.
  \<^item> Asdf_Rounding: the double nearest to a rational and the error of rounding. Asdf_Float_Text: the shortest text of a
    float (\<^verbatim>\<open>src/yaml.c\<close>, with \<^verbatim>\<open>printf\<close> and \<^verbatim>\<open>strtod\<close>). Asdf_Float_Text_Laws: 17 digits are enough, and the
    text is read back as a float with the same value.
  \<^item> Asdf_Calendar: what is used of the C library's times. Asdf_Time: the formats and parsers of
    \<^verbatim>\<open>src/core/time.c\<close>. Asdf_Time_Laws: the calendar, arithmetic that is exact in doubles, and the date of a Julian
    date. Asdf_Time_Instant: the time of the day and the instant that is stored.
  \<^item> Asdf_Property: getters for a type given as an argument, typed getters of mappings (\<^verbatim>\<open>src/value.c\<close>).
    Asdf_Read_Laws: what the getters return for a node that shows a text, a number, a sequence or a mapping.
    Asdf_Datatype_Read, Asdf_Time_Read: datatypes and times read from the tree (\<^verbatim>\<open>src/core/datatype.c\<close>,
    \<^verbatim>\<open>src/core/time.c\<close>). Asdf_Datatype_Read_Laws: what every description of a datatype is read as.
  \<^item> Asdf_Tree, Asdf_Tree_Insert: the setters of mappings and sequences, the creation of typed values, updating,
    popping (\<^verbatim>\<open>src/value.c\<close>); libfyaml's document is a state the operations pass on. Asdf_Tree_File: the insertion
    of a node with the containers on the way to it, and the getters and setters of a file by path
    (\<^verbatim>\<open>src/value.c\<close>, \<^verbatim>\<open>src/file.c\<close>). Asdf_Tree_Laws: what the operations that build a tree make, from the laws
    of a document. Asdf_Tree_Sample: a document that meets these laws.
  \<^item> Asdf_Datatype_Write, Asdf_Time_Write: datatypes and times written to the tree. Asdf_Datatype_Write_Laws,
    Asdf_Time_Write_Laws: they are read back as they were, and where they are not.
  \<^item> Asdf_Software: what the extensions share (\<^verbatim>\<open>include/asdf/extension.h\<close>), and the software schema
    (\<^verbatim>\<open>src/core/software.c\<close>). Asdf_Meta: history entries, the metadata of extensions, and the metadata of a
    file (\<^verbatim>\<open>src/core/history_entry.c\<close>, \<^verbatim>\<open>src/core/extension_metadata.c\<close>, \<^verbatim>\<open>src/core/asdf.c\<close>).
    Asdf_Software_Laws: software is read back as it was written; the history of a file in the old style.
  \<^item> Asdf_Block_Handle: handles of blocks, to build, append, read and verify them (\<^verbatim>\<open>src/block.c\<close>). Asdf_Block_Handle_Laws:
    a block that was appended is read back, and where handles fail.
  \<^item> Asdf_Ndarray_Read: arrays read from the tree, as the description of a block or as nested sequences whose shape and
    type are inferred, and the data of an array (\<^verbatim>\<open>src/core/ndarray.c\<close>). Asdf_Ndarray_Inline_Laws: the shape, the type
    and the bytes of an array of integers that stands in the tree. Asdf_Ndarray_Write: building and copying arrays, and
    writing them to the tree with their data in a block or in the tree. Asdf_Ndarray_Write_Laws: an array that is
    filled, written with its data as the next block of the file, and read from the tree is the same array.
  \<^bold>\<open>What the lemmas show.\<close> Formats: a parser or reader recovers what the matching writer wrote (versions,
  headers, blocks, paths, integers, strings, whole files). State machines: every handler stays on the graph of its
  machine, and the order of the states bounds the loops. Streams: both backends refine a list of unread bytes, so
  the block reader and the parser are proved once for both. Numbers: results are exact or the overflow is reported.
  Where the code does not do what it means to, a theorem states what it does instead, and the manifest lists it as
  a finding.

  \<^bold>\<open>Arguments of the model.\<close> What is not in the repository is an argument: libfyaml (its events, its documents,
  what it prints, what it tells of a node), LZ4, zlib and bzip2, MD5, the C library's \<^verbatim>\<open>FILE\<close>, the
  calls of the kernel's userfaultfd, the platform
  (byte order, signedness of \<^verbatim>\<open>char\<close>, the decimal point of the locale), and the capacity policy of the STC containers.

  \<^bold>\<open>Bounds.\<close> Positions are bounded by \<^verbatim>\<open>SIZE_MAX\<close> and \<^verbatim>\<open>ASDF_OFF_MAX\<close>, which theorems about whole files ask of
  the file as a whole: they hold of any file that fits an address space.
  What libfyaml makes of a text is asked for printable ASCII only (\<open>short_text\<close> of Asdf_Tree_Laws); what a single-quoted
  scalar stands for is defined with the folding of lines (\<open>yaml_single_quoted\<close> of Asdf_Value_Laws), which a string with
  a line break does not survive.

  \<^bold>\<open>Not modelled.\<close> Logging (\<^verbatim>\<open>src/log.c\<close>), the command line and the printer of \<^verbatim>\<open>src/main.c\<close> and \<^verbatim>\<open>src/info.c\<close> are
  output to a terminal without a contract of their own. The registry of extensions
  (\<^verbatim>\<open>src/extension_registry.c\<close>) is a map that is filled before \<^verbatim>\<open>main\<close>; what is looked up in it is an argument. That a file is opened by its name, the probes for userfaultfd, the
  thread that waits for page faults and the temporary files of compressed blocks belong to the operating system; what the
  handler does with a fault is modelled.
\<close>

end
